(* ===== verification/Prelude.thy ===== *)
theory Prelude
  imports Main "HOL-Library.Word" "HOL-Library.AList" "HOL-Library.Multiset"
begin

text \<open>
  Shared vocabulary of the development: Rust's machine integers, \<open>HashMap\<close>s, results with
  early return, bounded FIFO logs and byte-level readers.

  \<^item> Integers keep their width (\<^typ>\<open>64 word\<close> and so on). Plain \<open>+\<close> is the wrapping addition
    of a release build; where a theorem needs the absence of overflow it says so.
  \<^item> A \<open>HashMap\<close> is an association list. Its order stands for the iteration order, which Rust
    leaves unspecified: every theorem quantifies over the state, hence over that order.
  \<^item> \<open>Result<T, E>\<close> is \<open>'e + 't\<close>, with \<open>Inl\<close> for the error.
  \<^item> A deserializer walks an offset through its input; \<open>rd\<close> is the early return of \<open>?\<close>.
\<close>

type_synonym u8 = "8 word"
type_synonym u32 = "32 word"
type_synonym u64 = "64 word"
type_synonym i64 = "64 word"
type_synonym bytes = "u8 list"
type_synonym NodeId = bytes
type_synonym ChunkId = bytes
type_synonym ContentId = bytes

named_theorems wf_intros "every operation keeps the well-formedness of its component"
named_theorems reads "readers applied to what the matching writers produce"

text \<open>A string literal as its bytes.\<close>

definition ascii_bytes :: "string \<Rightarrow> bytes" where
  "ascii_bytes s = map (\<lambda>c. word_of_nat (of_char c)) s"

section \<open>Machine integers\<close>

definition saturating_sub :: "'a::len word \<Rightarrow> 'a word \<Rightarrow> 'a word" where
  "saturating_sub a b = (if a \<le> b then 0 else a - b)"

definition saturating_add :: "'a::len word \<Rightarrow> 'a word \<Rightarrow> 'a word" where
  "saturating_add a b = (if 2 ^ LENGTH('a) \<le> unat a + unat b then - 1 else a + b)"

lemma unat_saturating_sub [simp]: "unat (saturating_sub a b) = unat a - unat b"
  by (auto simp: saturating_sub_def word_le_nat_alt unat_sub_if')

lemma saturating_sub_self [simp]: "saturating_sub a a = 0"
  by (simp add: saturating_sub_def)

lemma unat_saturating_add:
  fixes a b :: "'a::len word"
  shows "unat (saturating_add a b) = min (2 ^ LENGTH('a) - 1) (unat a + unat b)"
  by (auto simp: saturating_add_def unat_word_ariths unsigned_minus_1_eq_mask mask_eq_exp_minus_1)

definition saturating_mul :: "u64 \<Rightarrow> u64 \<Rightarrow> u64" where
  "saturating_mul a b = (if 2 ^ 64 \<le> unat a * unat b then - 1 else a * b)"

lemma unat_saturating_mul: "unat (saturating_mul a b) = min (2 ^ 64 - 1) (unat a * unat b)"
proof (cases "2 ^ 64 \<le> unat a * unat b")
  case True
  then show ?thesis by (simp add: saturating_mul_def unsigned_minus_1_eq_mask mask_eq_exp_minus_1)
next
  case False
  then show ?thesis by (simp add: saturating_mul_def unat_word_ariths)
qed

lemma unat_add_no_wrap:
  fixes a b :: "'a::len word"
  shows "unat a + unat b < 2 ^ LENGTH('a) \<Longrightarrow> unat (a + b) = unat a + unat b"
  by (simp add: unat_word_ariths)

lemma unat_sum_list:
  fixes ns :: "u64 list"
  assumes "sum_list (map unat ns) < 2 ^ 64"
  shows "unat (sum_list ns) = sum_list (map unat ns)"
  using assms
proof (induction ns)
  case (Cons n ns)
  then show ?case by (simp add: unat_add_no_wrap)
qed simp

section \<open>Lists and bounded logs\<close>

text \<open>\<open>v.push(x); while v.len() > cap { v.remove(0); }\<close>\<close>

definition push_bounded :: "nat \<Rightarrow> 'a \<Rightarrow> 'a list \<Rightarrow> 'a list" where
  "push_bounded cap x xs = drop (Suc (length xs) - cap) (xs @ [x])"

lemma length_push_bounded: "length (push_bounded cap x xs) = min cap (Suc (length xs))"
  by (simp add: push_bounded_def)

lemma push_bounded_le [simp]: "length (push_bounded cap x xs) \<le> cap"
  by (simp add: length_push_bounded)

lemma push_bounded_last: "0 < cap \<Longrightarrow> last (push_bounded cap x xs) = x \<and> x \<in> set (push_bounded cap x xs)"
  by (auto simp: push_bounded_def last_drop)

lemma set_push_bounded: "set (push_bounded cap x xs) \<subseteq> insert x (set xs)"
proof -
  have "set (push_bounded cap x xs) \<subseteq> set (xs @ [x])"
    unfolding push_bounded_def by (rule set_drop_subset)
  then show ?thesis by simp
qed

lemma fold_push_bounded:
  "length xs \<le> cap \<Longrightarrow> fold (push_bounded cap) ys xs = drop (length xs + length ys - cap) (xs @ ys)"
proof (induction ys arbitrary: xs)
  case (Cons y ys)
  have "fold (push_bounded cap) ys (push_bounded cap y xs) =
      drop (length (push_bounded cap y xs) + length ys - cap) (push_bounded cap y xs @ ys)"
    by (rule Cons.IH) simp
  also have "\<dots> = drop (length xs + length (y # ys) - cap) (xs @ y # ys)"
  proof (cases "length xs < cap")
    case True
    then show ?thesis by (simp add: push_bounded_def)
  next
    case False
    with Cons.prems have n: "length xs = cap" by simp
    have "push_bounded cap y xs @ ys = drop 1 (xs @ y # ys)"
      using n by (cases cap) (simp_all add: push_bounded_def)
    moreover have "length (push_bounded cap y xs) = cap" using n by (simp add: length_push_bounded)
    ultimately show ?thesis using n by (simp only: drop_drop) simp
  qed
  finally show ?case by simp
qed simp

text \<open>\<open>slice.chunks(n)\<close>\<close>

fun chunks_of :: "nat \<Rightarrow> 'a list \<Rightarrow> 'a list list" where
  "chunks_of n [] = []"
| "chunks_of n (x # xs) = (if n = 0 then [] else take n (x # xs) # chunks_of n (drop n (x # xs)))"

declare chunks_of.simps(2) [simp del]

lemma chunks_of_nonempty: "0 < n \<Longrightarrow> xs \<noteq> [] \<Longrightarrow> chunks_of n xs = take n xs # chunks_of n (drop n xs)"
  by (cases xs) (simp_all add: chunks_of.simps(2))

lemma concat_chunks_of [simp]: "0 < n \<Longrightarrow> concat (chunks_of n xs) = xs"
  by (induction n xs rule: chunks_of.induct) (auto simp: chunks_of.simps(2))

lemma length_chunks_of: "0 < n \<Longrightarrow> length (chunks_of n xs) = (length xs + n - 1) div n"
proof (induction n xs rule: chunks_of.induct)
  case (2 n x xs)
  show ?case
  proof (cases "length (x # xs) \<le> n")
    case True
    then have "(length (x # xs) + n - 1) div n = 1"
      using 2 by (simp add: div_nat_eqI)
    with True 2 show ?thesis by (simp add: chunks_of.simps(2))
  next
    case False
    then have "(length (x # xs) + n - 1) div n = Suc ((length (x # xs) - n + n - 1) div n)"
      using 2 by (simp add: le_div_geq)
    with False 2 show ?thesis by (simp add: chunks_of.simps(2))
  qed
qed simp

lemma nth_chunks_of:
  "0 < n \<Longrightarrow> i < length (chunks_of n xs) \<Longrightarrow> chunks_of n xs ! i = take n (drop (i * n) xs)"
proof (induction n xs arbitrary: i rule: chunks_of.induct)
  case (2 n x xs)
  then show ?case
    by (cases i) (auto simp: chunks_of.simps(2) add.commute)
qed simp

section \<open>Hash maps\<close>

type_synonym ('k, 'v) hashmap = "('k \<times> 'v) list"

definition hm_wf :: "('k, 'v) hashmap \<Rightarrow> bool" where
  "hm_wf m \<longleftrightarrow> distinct (map fst m)"

definition hm_get :: "('k, 'v) hashmap \<Rightarrow> 'k \<Rightarrow> 'v option" where
  "hm_get m k = map_of m k"

definition hm_contains :: "('k, 'v) hashmap \<Rightarrow> 'k \<Rightarrow> bool" where
  "hm_contains m k \<longleftrightarrow> hm_get m k \<noteq> None"

definition hm_insert :: "'k \<Rightarrow> 'v \<Rightarrow> ('k, 'v) hashmap \<Rightarrow> ('k, 'v) hashmap" where
  "hm_insert k v m = AList.update k v m"

definition hm_remove :: "'k \<Rightarrow> ('k, 'v) hashmap \<Rightarrow> ('k, 'v) hashmap" where
  "hm_remove k m = AList.delete k m"

text \<open>\<open>if let Some(v) = m.get_mut(k) { *v = f(v) }\<close>\<close>

definition hm_modify :: "'k \<Rightarrow> ('v \<Rightarrow> 'v) \<Rightarrow> ('k, 'v) hashmap \<Rightarrow> ('k, 'v) hashmap" where
  "hm_modify k f m = AList.map_entry k f m"

definition hm_retain :: "('k \<Rightarrow> 'v \<Rightarrow> bool) \<Rightarrow> ('k, 'v) hashmap \<Rightarrow> ('k, 'v) hashmap" where
  "hm_retain P m = filter (\<lambda>(k, v). P k v) m"

definition hm_keys :: "('k, 'v) hashmap \<Rightarrow> 'k list" where
  "hm_keys m = map fst m"

definition hm_values :: "('k, 'v) hashmap \<Rightarrow> 'v list" where
  "hm_values m = map snd m"

definition hm_len :: "('k, 'v) hashmap \<Rightarrow> nat" where
  "hm_len m = length m"

text \<open>
  \<open>if m.len() >= cap { if let Some(k) = m.keys().next() { m.remove(k) } }\<close>: make room by
  dropping whichever entry the iteration yields first.
\<close>

definition hm_make_room :: "nat \<Rightarrow> ('k, 'v) hashmap \<Rightarrow> ('k, 'v) hashmap" where
  "hm_make_room cap m =
     (if cap \<le> hm_len m then (case hm_keys m of [] \<Rightarrow> m | k # _ \<Rightarrow> hm_remove k m) else m)"

lemma hm_get_Nil [simp]: "hm_get [] k = None"
  by (simp add: hm_get_def)

lemma hm_get_Cons [simp]: "hm_get ((k, v) # m) k' = (if k' = k then Some v else hm_get m k')"
  by (simp add: hm_get_def)

lemma hm_insert_Nil [simp]: "hm_insert k v [] = [(k, v)]"
  by (simp add: hm_insert_def)

lemma hm_wf_single [simp]: "hm_wf [p]"
  by (simp add: hm_wf_def)

lemma set_hm_insert: "set (hm_insert k v m) \<subseteq> insert (k, v) (set m)"
  by (induction m) (auto simp: hm_insert_def)

lemma hm_get_insert [simp]: "hm_get (hm_insert k v m) k' = (if k' = k then Some v else hm_get m k')"
  by (simp add: hm_get_def hm_insert_def update_conv')

lemma hm_get_remove [simp]: "hm_get (hm_remove k m) k' = (if k' = k then None else hm_get m k')"
  by (simp add: hm_get_def hm_remove_def delete_conv')

lemma hm_get_modify [simp]:
  "hm_get (hm_modify k f m) k' = (if k' = k then map_option f (hm_get m k) else hm_get m k')"
  by (simp add: hm_get_def hm_modify_def map_of_map_entry split: option.splits)

lemma hm_get_retain:
  "hm_wf m \<Longrightarrow>
     hm_get (hm_retain P m) k = (case hm_get m k of None \<Rightarrow> None | Some v \<Rightarrow> if P k v then Some v else None)"
proof (induction m)
  case (Cons p m)
  obtain a b where p: "p = (a, b)" by (cases p)
  have "map_of m a = None" if "hm_wf (p # m)"
    using that p by (auto simp: hm_wf_def map_of_eq_None_iff)
  with Cons p show ?case
    by (auto simp: hm_get_def hm_retain_def hm_wf_def)
qed (simp add: hm_retain_def)

lemma hm_wf_Nil [simp, intro]: "hm_wf []"
  by (simp add: hm_wf_def)

lemma hm_wf_insert [simp, intro]: "hm_wf m \<Longrightarrow> hm_wf (hm_insert k v m)"
  by (simp add: hm_wf_def hm_insert_def distinct_update)

lemma hm_wf_remove [simp, intro]: "hm_wf m \<Longrightarrow> hm_wf (hm_remove k m)"
  by (simp add: hm_wf_def hm_remove_def distinct_delete)

lemma hm_keys_modify [simp]: "map fst (hm_modify k f m) = map fst m"
  by (induction m) (auto simp: hm_modify_def)

lemma hm_wf_modify [simp]: "hm_wf (hm_modify k f m) = hm_wf m"
  by (simp add: hm_wf_def)

lemma hm_wf_retain [simp, intro]: "hm_wf m \<Longrightarrow> hm_wf (hm_retain P m)"
  by (auto simp: hm_wf_def hm_retain_def intro: distinct_map_filter)

lemma hm_contains_alt: "hm_contains m k \<longleftrightarrow> k \<in> set (map fst m)"
  by (auto simp: hm_contains_def hm_get_def map_of_eq_None_iff)

lemma hm_get_SomeD: "hm_get m k = Some v \<Longrightarrow> (k, v) \<in> set m"
  by (simp add: hm_get_def map_of_SomeD)

lemma hm_wf_get_iff: "hm_wf m \<Longrightarrow> hm_get m k = Some v \<longleftrightarrow> (k, v) \<in> set m"
  by (simp add: hm_wf_def hm_get_def)

lemma hm_len_insert:
  "hm_len (hm_insert k v m) = (if hm_contains m k then hm_len m else Suc (hm_len m))"
proof -
  have "length (map fst (hm_insert k v m)) = (if hm_contains m k then length m else Suc (length m))"
    unfolding hm_insert_def hm_contains_alt update_keys by simp
  then show ?thesis by (simp add: hm_len_def)
qed

lemma hm_len_remove:
  "hm_wf m \<Longrightarrow> hm_len (hm_remove k m) = (if hm_contains m k then hm_len m - 1 else hm_len m)"
proof -
  assume "hm_wf m"
  then have "length (map fst (hm_remove k m)) = (if hm_contains m k then length m - 1 else length m)"
    unfolding hm_remove_def hm_contains_alt delete_keys hm_wf_def
    by (simp add: distinct_remove1_removeAll [symmetric] length_remove1)
  then show ?thesis by (simp add: hm_len_def)
qed

lemma hm_len_modify [simp]: "hm_len (hm_modify k f m) = hm_len m"
  by (metis hm_keys_modify hm_len_def length_map)

lemma hm_len_remove_le [simp]: "hm_len (hm_remove k m) \<le> hm_len m"
  by (simp add: hm_len_def hm_remove_def AList.delete_eq)

lemma hm_len_retain_le [simp]: "hm_len (hm_retain P m) \<le> hm_len m"
  by (simp add: hm_len_def hm_retain_def)


text \<open>
  The contract the components rely on when they use a table: what a lookup returns after an
  update, that updates keep the table well-formed, and how its size moves. \<open>victim\<close> is the
  entry an eviction removes.
\<close>

locale kv_table =
  fixes wf :: "'m \<Rightarrow> bool"
    and get :: "'m \<Rightarrow> 'k \<Rightarrow> 'v option"
    and insert_kv :: "'k \<Rightarrow> 'v \<Rightarrow> 'm \<Rightarrow> 'm"
    and remove_k :: "'k \<Rightarrow> 'm \<Rightarrow> 'm"
    and len :: "'m \<Rightarrow> nat"
    and victim :: "'m \<Rightarrow> 'k option"
  assumes get_insert_kv: "get (insert_kv k v m) k' = (if k' = k then Some v else get m k')"
    and get_remove_k: "get (remove_k k m) k' = (if k' = k then None else get m k')"
    and wf_insert_kv: "wf m \<Longrightarrow> wf (insert_kv k v m)"
    and wf_remove_k: "wf m \<Longrightarrow> wf (remove_k k m)"
    and len_insert_kv: "len (insert_kv k v m) = (if get m k = None then Suc (len m) else len m)"
    and len_remove_k: "wf m \<Longrightarrow> len (remove_k k m) = (if get m k = None then len m else len m - 1)"
    and victim_None: "victim m = None \<Longrightarrow> len m = 0"
    and victim_Some: "victim m = Some k \<Longrightarrow> get m k \<noteq> None"
begin

abbreviation evict where
  "evict cap m \<equiv> (if cap \<le> len m then (case victim m of None \<Rightarrow> m | Some k \<Rightarrow> remove_k k m) else m)"

lemma wf_evict: "wf m \<Longrightarrow> wf (evict cap m)"
  by (simp add: wf_remove_k split: option.splits)

lemma len_evict: "wf m \<Longrightarrow> 0 < cap \<Longrightarrow> len m \<le> cap \<Longrightarrow> len (evict cap m) < cap"
  using victim_None victim_Some by (fastforce simp: len_remove_k split: option.splits)

lemma bounded_insert: "wf m \<Longrightarrow> 0 < cap \<Longrightarrow> len m \<le> cap \<Longrightarrow> len (insert_kv k v (evict cap m)) \<le> cap"
  using len_evict [of m cap] len_insert_kv [of k v "evict cap m"] by (simp del: if_split split: if_splits)

lemma get_evict_subset: "get (evict cap m) k = Some v \<Longrightarrow> get m k = Some v"
  by (auto simp: get_remove_k split: if_splits option.splits)

lemma evict_small: "len m < cap \<Longrightarrow> evict cap m = m"
  by simp

end

definition hm_first_key :: "('k, 'v) hashmap \<Rightarrow> 'k option" where
  "hm_first_key m = (case hm_keys m of [] \<Rightarrow> None | k # _ \<Rightarrow> Some k)"

interpretation hm: kv_table hm_wf hm_get hm_insert hm_remove hm_len hm_first_key
proof unfold_locales
  fix m :: "('k, 'v) hashmap"
  show "hm_first_key m = None \<Longrightarrow> hm_len m = 0"
    by (auto simp: hm_first_key_def hm_keys_def hm_len_def split: list.splits)
  show "hm_first_key m = Some k \<Longrightarrow> hm_get m k \<noteq> None" for k
    by (cases m) (auto simp: hm_first_key_def hm_keys_def hm_get_def)
qed (auto simp: hm_len_insert hm_len_remove hm_contains_def)

lemma hm_make_room_evict: "hm_make_room cap m = hm.evict cap m"
  by (simp add: hm_make_room_def hm_first_key_def split: list.splits)

lemmas hm_bounded_insert = hm.bounded_insert [folded hm_make_room_evict]
  and hm_wf_make_room [intro] = hm.wf_evict [folded hm_make_room_evict]
  and hm_get_make_room = hm.get_evict_subset [folded hm_make_room_evict]

lemma hm_make_room_small: "hm_len m < cap \<Longrightarrow> hm_make_room cap m = m"
  by (simp add: hm_make_room_def)

section \<open>Results\<close>

text \<open>\<open>let (x, off) = r?; k\<close> for a reader's result, and \<open>if bad { return Err(e) } k\<close>.\<close>

definition rd :: "'e + ('a \<times> nat) \<Rightarrow> ('a \<Rightarrow> nat \<Rightarrow> 'e + 'b) \<Rightarrow> 'e + 'b" where
  "rd r k = (case r of Inl e \<Rightarrow> Inl e | Inr (x, off) \<Rightarrow> k x off)"

definition fail_if :: "bool \<Rightarrow> 'e \<Rightarrow> 'e + 'b \<Rightarrow> 'e + 'b" where
  "fail_if bad e k = (if bad then Inl e else k)"

lemma rd_simps [simp]: "rd (Inl e) k = Inl e" "rd (Inr (x, off)) k = k x off"
  by (simp_all add: rd_def)

lemma rd_Inr_iff: "rd r k = Inr y \<longleftrightarrow> (\<exists>x off. r = Inr (x, off) \<and> k x off = Inr y)"
  by (auto simp: rd_def split: sum.splits prod.splits)

lemma fail_if_Inr_iff [simp]: "fail_if bad e k = Inr y \<longleftrightarrow> \<not> bad \<and> k = Inr y"
  by (simp add: fail_if_def)

lemma fail_if_False [simp]: "fail_if False e k = k"
  by (simp add: fail_if_def)

lemma fail_if_True [simp]: "fail_if True e k = Inl e"
  by (simp add: fail_if_def)

end
