(* ===== verification/Codec.thy ===== *)
theory Codec
  imports Prelude
begin

text \<open>
  Byte-level readers and writers shared by every message format of the program: big-endian
  integers, fixed arrays, and the \<^emph>\<open>codec\<close> interface, the contract between a writer and the
  reader that walks the same bytes. The round trips of all messages are chains of that
  contract. \<open>StorageError\<close> and \<open>take_array\<close> come from the storage crate, whose other
  deserializers inline the same bounds check.
\<close>

section \<open>Big-endian integers\<close>

fun nat_be :: "nat \<Rightarrow> nat \<Rightarrow> bytes" where
  "nat_be 0 x = []"
| "nat_be (Suc n) x = nat_be n (x div 256) @ [word_of_nat (x mod 256)]"

definition be_nat :: "bytes \<Rightarrow> nat" where
  "be_nat bs = foldl (\<lambda>a b. a * 256 + unat b) 0 bs"

definition to_be32 :: "u32 \<Rightarrow> bytes" where
  "to_be32 w = nat_be 4 (unat w)"

definition from_be32 :: "bytes \<Rightarrow> u32" where
  "from_be32 bs = word_of_nat (be_nat bs)"

definition to_be64 :: "u64 \<Rightarrow> bytes" where
  "to_be64 w = nat_be 8 (unat w)"

definition from_be64 :: "bytes \<Rightarrow> u64" where
  "from_be64 bs = word_of_nat (be_nat bs)"

text \<open>\<open>(n as u32).to_be_bytes()\<close> for a \<open>usize\<close>, and \<open>u32::from_be_bytes(..) as usize\<close>.\<close>

definition len_be32 :: "nat \<Rightarrow> bytes" where
  "len_be32 n = to_be32 (word_of_nat n)"

definition be32_len :: "bytes \<Rightarrow> nat" where
  "be32_len bs = unat (from_be32 bs)"

lemma length_nat_be [simp]: "length (nat_be n x) = n"
  by (induction n arbitrary: x) auto

lemma be_nat_snoc: "be_nat (bs @ [b]) = be_nat bs * 256 + unat b"
  by (simp add: be_nat_def)

lemma be_nat_nat_be: "x < 256 ^ n \<Longrightarrow> be_nat (nat_be n x) = x"
proof (induction n arbitrary: x)
  case (Suc n)
  then have "x div 256 < 256 ^ n"
    by (simp add: less_mult_imp_div_less mult.commute)
  with Suc.IH show ?case
    by (simp add: be_nat_snoc unat_of_nat)
qed (simp add: be_nat_def)

lemma length_to_be [simp]: "length (to_be32 w) = 4" "length (to_be64 v) = 8" "length (len_be32 n) = 4"
  by (simp_all add: to_be32_def to_be64_def len_be32_def)

lemma from_to_be32 [simp]: "from_be32 (to_be32 w) = w"
proof -
  have "unat w < 256 ^ 4" using unsigned_less [of w] by simp
  then show ?thesis by (simp add: from_be32_def to_be32_def be_nat_nat_be)
qed

lemma from_to_be64 [simp]: "from_be64 (to_be64 w) = w"
proof -
  have "unat w < 256 ^ 8" using unsigned_less [of w] by simp
  then show ?thesis by (simp add: from_be64_def to_be64_def be_nat_nat_be)
qed

lemma be32_len_be32 [simp]: "n < 2 ^ 32 \<Longrightarrow> be32_len (len_be32 n) = n"
  by (simp add: be32_len_def len_be32_def unat_of_nat)

section \<open>Readers\<close>

text \<open>
  \<open>read_bytes short n data off\<close>: \<open>if off + n > data.len() { return Err(short(..)) }\<close>, then copy
  \<open>data[off..off + n]\<close> and advance.
\<close>

definition read_bytes :: "(nat \<Rightarrow> nat \<Rightarrow> 'e) \<Rightarrow> nat \<Rightarrow> bytes \<Rightarrow> nat \<Rightarrow> 'e + (bytes \<times> nat)" where
  "read_bytes short n data off =
     (if length data < off + n then Inl (short (off + n) (length data))
      else Inr (take n (drop off data), off + n))"

text \<open>A counted loop of one reader (\<open>for _ in 0..n\<close>).\<close>

fun read_many :: "(bytes \<Rightarrow> nat \<Rightarrow> 'e + ('a \<times> nat)) \<Rightarrow> nat \<Rightarrow> bytes \<Rightarrow> nat \<Rightarrow> 'e + ('a list \<times> nat)" where
  "read_many r 0 data off = Inr ([], off)"
| "read_many r (Suc n) data off =
     rd (r data off) (\<lambda>x off. rd (read_many r n data off) (\<lambda>xs off. Inr (x # xs, off)))"

lemma length_read_many: "read_many r n data off = Inr (xs, off') \<Longrightarrow> length xs = n"
  by (induction n arbitrary: off xs) (auto simp: rd_Inr_iff)

text \<open>The input from \<open>off\<close> on is \<open>rest\<close>.\<close>

definition ahead :: "bytes \<Rightarrow> nat \<Rightarrow> bytes \<Rightarrow> bool" where
  "ahead data off rest \<longleftrightarrow> off \<le> length data \<and> drop off data = rest"

lemma ahead_start: "ahead (pre @ rest) (length pre) rest"
  by (simp add: ahead_def)

lemma ahead_zero: "ahead data 0 data"
  by (simp add: ahead_def)

lemma ahead_Cons: "ahead (x # data) (Suc 0) data"
  by (simp add: ahead_def)

lemma ahead_append:
  assumes "ahead data off (xs @ rest)"
  shows "ahead data (off + length xs) rest"
proof -
  have d: "drop off data = xs @ rest" and o: "off \<le> length data"
    using assms by (simp_all add: ahead_def)
  have "length data = off + length (xs @ rest)"
    using arg_cong [OF d, of length] o by simp
  moreover have "drop (off + length xs) data = drop (length xs) (drop off data)"
    by (simp add: add.commute)
  ultimately show ?thesis by (simp add: ahead_def d)
qed

lemma ahead_length: "ahead data off rest \<Longrightarrow> length data = off + length rest"
  by (auto simp: ahead_def)

lemma ahead_take: "ahead data off (xs @ rest) \<Longrightarrow> take (length xs) (drop off data) = xs"
  by (auto simp: ahead_def)

lemma ahead_nth: "ahead data off (x # rest) \<Longrightarrow> data ! off = x"
  by (metis ahead_def nth_via_drop)

lemma read_bytes_ahead:
  "ahead data off (xs @ rest) \<Longrightarrow> length xs = n \<Longrightarrow> read_bytes short n data off = Inr (xs, off + n)"
  using ahead_length [of data off "xs @ rest"] ahead_take [of data off xs rest]
  by (simp add: read_bytes_def)

text \<open>
  The contract of a message part: on the bytes its writer produced, wherever they stand and
  whatever follows, the reader returns the value and stops right behind them; and it never
  runs past the end of the input.
\<close>

locale codec =
  fixes enc :: "'a \<Rightarrow> bytes"
    and dec :: "bytes \<Rightarrow> nat \<Rightarrow> 'e + ('a \<times> nat)"
    and ok :: "'a \<Rightarrow> bool"
  assumes dec_enc: "ok x \<Longrightarrow> ahead data off (enc x @ rest) \<Longrightarrow> dec data off = Inr (x, off + length (enc x))"
    and dec_bounds: "off \<le> length data \<Longrightarrow> dec data off = Inr (x, off') \<Longrightarrow> off \<le> off' \<and> off' \<le> length data"
begin

lemma dec_step:
  assumes "ok x" and "ahead data off (enc x @ rest)"
    and "ahead data (off + length (enc x)) rest \<Longrightarrow> k x (off + length (enc x)) = r"
  shows "rd (dec data off) k = r"
  using assms by (simp add: dec_enc ahead_append)

lemma dec_step_ahead:
  assumes "ahead data off (enc x @ rest)" and "ok x"
    and "ahead data (off + length (enc x)) rest \<Longrightarrow> k x (off + length (enc x)) = r"
  shows "rd (dec data off) k = r"
  using assms by (intro dec_step)

lemma enc_inj:
  assumes "ok x" "ok y" "enc x = enc y"
  shows "x = y"
proof -
  have "ahead (enc x) 0 (enc x @ [])" "ahead (enc x) 0 (enc y @ [])"
    by (simp_all add: ahead_zero assms(3))
  then have "(Inr (x, 0 + length (enc x)) :: 'e + ('a \<times> nat)) = Inr (y, 0 + length (enc y))"
    using dec_enc [OF assms(1)] dec_enc [OF assms(2)] by metis
  then show ?thesis by simp
qed

text \<open>The counted loop of a codec is a codec for lists.\<close>

lemma dec_many_enc:
  "\<forall>x\<in>set xs. ok x \<Longrightarrow> ahead data off (concat (map enc xs) @ rest) \<Longrightarrow>
     read_many dec (length xs) data off = Inr (xs, off + length (concat (map enc xs)))"
proof (induction xs arbitrary: off)
  case (Cons x xs)
  then have a: "ahead data off (enc x @ concat (map enc xs) @ rest)" and x: "ok x" by simp_all
  have "ahead data (off + length (enc x)) (concat (map enc xs) @ rest)"
    by (rule ahead_append [OF a])
  with Cons.IH Cons.prems dec_enc [OF x a] show ?case by simp
qed simp

lemma dec_many_bounds:
  "off \<le> length data \<Longrightarrow> read_many dec n data off = Inr (xs, off') \<Longrightarrow>
     off \<le> off' \<and> off' \<le> length data \<and> length xs = n"
proof (induction n arbitrary: off xs)
  case (Suc n)
  then obtain x off1 xs' where x: "dec data off = Inr (x, off1)"
    and rec: "read_many dec n data off1 = Inr (xs', off')" and "xs = x # xs'"
    by (auto simp: rd_Inr_iff)
  moreover have "off \<le> off1" "off1 \<le> length data"
    using dec_bounds [OF Suc.prems(1) x] by simp_all
  moreover from this(2) rec have "off1 \<le> off' \<and> off' \<le> length data \<and> length xs' = n"
    by (rule Suc.IH)
  ultimately show ?case by simp
qed simp

lemma dec_many_step:
  assumes "\<forall>x\<in>set xs. ok x" and "n = length xs" and "ahead data off (concat (map enc xs) @ rest)"
    and "ahead data (off + length (concat (map enc xs))) rest \<Longrightarrow>
           k xs (off + length (concat (map enc xs))) = r"
  shows "rd (read_many dec n data off) k = r"
  using assms(4) ahead_append [OF assms(3)] by (simp add: assms(2) dec_many_enc [OF assms(1,3)])

end

lemma read_bytes_bounds:
  "read_bytes short n data off = Inr (xs, off') \<Longrightarrow> off' = off + n \<and> off' \<le> length data \<and> length xs = n"
  by (auto simp: read_bytes_def split: if_splits)

interpretation arr: codec "\<lambda>xs. xs" "read_bytes short n" "\<lambda>xs. length xs = n" for short n
  by unfold_locales (auto simp: read_bytes_ahead dest: read_bytes_bounds)

section \<open>Errors of the storage crate and its array reader\<close>

datatype StorageError =
    EncryptionFailed
  | DecryptionFailed
  | ErasureError string
  | InsufficientShards nat nat
  | InvalidChunkSize nat nat
  | LeaseExpired
  | InvalidRenewalToken
  | ContentNotFound
  | ManifestEncryptionFailed
  | ManifestDecryptionFailed
  | ManifestSerializationFailed
  | ManifestDeserializationFailed

definition take_array :: "nat \<Rightarrow> bytes \<Rightarrow> nat \<Rightarrow> StorageError + (bytes \<times> nat)" where
  "take_array n data off =
     (if length data < off + n then Inl (InvalidChunkSize (off + n) (length data))
      else Inr (take n (drop off data), off + n))"

lemma take_array_eq: "take_array n = read_bytes InvalidChunkSize n"
  by (simp add: fun_eq_iff take_array_def read_bytes_def)

definition take_u32 :: "bytes \<Rightarrow> nat \<Rightarrow> StorageError + (u32 \<times> nat)" where
  "take_u32 data off = rd (take_array 4 data off) (\<lambda>bs off. Inr (from_be32 bs, off))"

definition take_u64 :: "bytes \<Rightarrow> nat \<Rightarrow> StorageError + (u64 \<times> nat)" where
  "take_u64 data off = rd (take_array 8 data off) (\<lambda>bs off. Inr (from_be64 bs, off))"

text \<open>A \<open>u32\<close> length field, read as \<open>usize\<close>.\<close>

definition take_len :: "bytes \<Rightarrow> nat \<Rightarrow> StorageError + (nat \<times> nat)" where
  "take_len data off = rd (take_array 4 data off) (\<lambda>bs off. Inr (be32_len bs, off))"

interpretation tarr: codec "\<lambda>xs. xs" "take_array n" "\<lambda>xs. length xs = n" for n
  unfolding take_array_eq by (rule arr.codec_axioms)

interpretation tu32: codec to_be32 take_u32 "\<lambda>_. True"
  by unfold_locales
     (auto simp: take_u32_def take_array_eq read_bytes_ahead rd_Inr_iff dest: read_bytes_bounds)

interpretation tu64: codec to_be64 take_u64 "\<lambda>_. True"
  by unfold_locales
     (auto simp: take_u64_def take_array_eq read_bytes_ahead rd_Inr_iff dest: read_bytes_bounds)

interpretation tlen: codec len_be32 take_len "\<lambda>n. n < 2 ^ 32"
  by unfold_locales
     (auto simp: take_len_def take_array_eq read_bytes_ahead rd_Inr_iff dest: read_bytes_bounds)

text \<open>One byte: \<open>if off + 1 > data.len() { return Err(..) } data[off]\<close>.\<close>

definition take_u8 :: "bytes \<Rightarrow> nat \<Rightarrow> StorageError + (u8 \<times> nat)" where
  "take_u8 data off =
     (if length data < off + 1 then Inl (InvalidChunkSize (off + 1) (length data))
      else Inr (data ! off, off + 1))"

interpretation tu8: codec "\<lambda>b. [b]" take_u8 "\<lambda>_. True"
  by unfold_locales (auto simp: take_u8_def ahead_nth dest: ahead_length split: if_splits)

lemma take_u8_step:
  "ahead data off (b # rest) \<Longrightarrow> (ahead data (off + 1) rest \<Longrightarrow> k b (off + 1) = r) \<Longrightarrow> rd (take_u8 data off) k = r"
  using tu8.dec_step [of data off b rest k r] by simp

text \<open>The end of a message: bytes that nothing follows.\<close>

lemma take_array_step_last:
  "ahead data off xs \<Longrightarrow> length xs = n \<Longrightarrow> k xs (off + n) = r \<Longrightarrow> rd (take_array n data off) k = r"
  using tarr.dec_enc [of xs n data off "[]"] by simp

lemma fail_if_ok: "\<not> bad \<Longrightarrow> k = r \<Longrightarrow> fail_if bad e k = r"
  by simp

lemma fail_if_step:
  "ahead data off rest \<Longrightarrow> \<not> bad \<Longrightarrow> (ahead data off rest \<Longrightarrow> k = r) \<Longrightarrow> fail_if bad e k = r"
  by simp

text \<open>Stepping a deserializer along the bytes its serializer wrote.\<close>

lemmas dec_steps = fail_if_step tarr.dec_step_ahead tu32.dec_step_ahead tu64.dec_step_ahead tlen.dec_step_ahead
  take_u8_step

section \<open>UTF-8\<close>

text \<open>\<open>String::from_utf8\<close>: a \<open>String\<close> is its bytes, and the bytes are accepted when they are
  well-formed UTF-8 (no overlong forms, no surrogates, at most U+10FFFF).\<close>

definition cont_byte :: "u8 \<Rightarrow> bool" where
  "cont_byte b \<longleftrightarrow> 0x80 \<le> b \<and> b \<le> 0xBF"

fun utf8_ok :: "bytes \<Rightarrow> bool" where
  "utf8_ok [] = True"
| "utf8_ok (a # bs) =
     (if a \<le> 0x7F then utf8_ok bs
      else case bs of
        [] \<Rightarrow> False
      | b # bs2 \<Rightarrow>
          if 0xC2 \<le> a \<and> a \<le> 0xDF then cont_byte b \<and> utf8_ok bs2
          else case bs2 of
            [] \<Rightarrow> False
          | c # bs3 \<Rightarrow>
              if 0xE0 \<le> a \<and> a \<le> 0xEF
              then (if a = 0xE0 then 0xA0 \<le> b \<and> b \<le> 0xBF else if a = 0xED then 0x80 \<le> b \<and> b \<le> 0x9F else cont_byte b) \<and>
                   cont_byte c \<and> utf8_ok bs3
              else case bs3 of
                [] \<Rightarrow> False
              | d # bs4 \<Rightarrow>
                  0xF0 \<le> a \<and> a \<le> 0xF4 \<and>
                  (if a = 0xF0 then 0x90 \<le> b \<and> b \<le> 0xBF else if a = 0xF4 then 0x80 \<le> b \<and> b \<le> 0x8F else cont_byte b) \<and>
                  cont_byte c \<and> cont_byte d \<and> utf8_ok bs4)"

end
