(* ===== verification/Fragment.thy ===== *)
theory Fragment
  imports Codec
begin

text \<open>
  \<^verbatim>\<open>crates/static-mesh/src/fragment.rs\<close>: splitting payloads into Sphinx-body-sized fragments, the
  fragment encoding, the per-message \<open>Reassembler\<close> and the bounded \<open>ReassemblyManager\<close>.
  An \<open>Instant\<close> is the number of nanoseconds of the monotonic clock; functions that read the
  clock take it as \<open>now\<close>. The results: fragments delivered in any order and any number of
  times rebuild the payload, the reassembler's memory is bounded whatever arrives, and the
  manager evicts the oldest session only.
\<close>

section \<open>Fragments\<close>

definition BODY_SIZE :: nat where "BODY_SIZE = 1024"
definition FRAGMENT_HEADER_SIZE :: nat where "FRAGMENT_HEADER_SIZE = 12"
definition MAX_FRAGMENT_DATA :: nat where "MAX_FRAGMENT_DATA = BODY_SIZE - FRAGMENT_HEADER_SIZE"
definition MAX_FRAGMENTS_PER_MESSAGE :: u32 where "MAX_FRAGMENTS_PER_MESSAGE = 2048"
definition MAX_REASSEMBLER_MESSAGES :: nat where "MAX_REASSEMBLER_MESSAGES = 64"
definition REASSEMBLER_TIMEOUT_SECS :: u64 where "REASSEMBLER_TIMEOUT_SECS = 600"

lemmas fragment_consts = BODY_SIZE_def FRAGMENT_HEADER_SIZE_def MAX_FRAGMENT_DATA_def
  MAX_FRAGMENTS_PER_MESSAGE_def MAX_REASSEMBLER_MESSAGES_def

record Fragment =
  fragment_id :: u32
  total_fragments :: u32
  frag_data :: bytes

datatype FragmentError =
    TooShort
  | NoFragments
  | MissingFragment u32
  | InvalidFragmentId
  | TooManyFragments

definition fragment_payload :: "bytes \<Rightarrow> Fragment list" where
  "fragment_payload payload =
     (let total = (word_of_nat ((length payload + MAX_FRAGMENT_DATA - 1) div MAX_FRAGMENT_DATA) :: u32);
          total = max total 1
      in map (\<lambda>i.
           let start = i * MAX_FRAGMENT_DATA;
               stop = min (start + MAX_FRAGMENT_DATA) (length payload);
               data = (if start < length payload then take (stop - start) (drop start payload) else [])
           in \<lparr>fragment_id = word_of_nat i, total_fragments = total, frag_data = data\<rparr>)
         [0..<unat total])"

text \<open>\<open>buf[off..off + src.len()].copy_from_slice(src)\<close>\<close>

definition copy_at :: "nat \<Rightarrow> bytes \<Rightarrow> bytes \<Rightarrow> bytes" where
  "copy_at off src buf = take off buf @ src @ drop (off + length src) buf"

definition serialize_fragment :: "Fragment \<Rightarrow> bytes" where
  "serialize_fragment f =
     (let buf = replicate BODY_SIZE 0;
          buf = copy_at 0 (to_be32 (fragment_id f)) buf;
          buf = copy_at 4 (to_be32 (total_fragments f)) buf;
          data_len = (word_of_nat (min (length (frag_data f)) MAX_FRAGMENT_DATA) :: u32);
          buf = copy_at 8 (to_be32 data_len) buf
      in copy_at 12 (take (unat data_len) (frag_data f)) buf)"

definition deserialize_fragment :: "bytes \<Rightarrow> FragmentError + Fragment" where
  "deserialize_fragment body =
     fail_if (length body < FRAGMENT_HEADER_SIZE) TooShort
       (let fid = from_be32 (take 4 body);
            total = from_be32 (take 4 (drop 4 body));
            data_len = be32_len (take 4 (drop 8 body));
            data_end = FRAGMENT_HEADER_SIZE + data_len
        in fail_if (length body < data_end) TooShort
             (Inr \<lparr>fragment_id = fid, total_fragments = total,
                   frag_data = take data_len (drop FRAGMENT_HEADER_SIZE body)\<rparr>))"

section \<open>Reassembler\<close>

record Reassembler =
  total_expected :: "u32 option"
  fragments :: "(u32, bytes) hashmap"
  created_at :: nat

definition Reassembler_new :: "nat \<Rightarrow> Reassembler" where
  "Reassembler_new now = \<lparr>total_expected = None, fragments = [], created_at = now\<rparr>"

definition Reassembler_add_fragment :: "Fragment \<Rightarrow> Reassembler \<Rightarrow> bool \<times> Reassembler" where
  "Reassembler_add_fragment f r =
     (if total_fragments f = 0 \<or> MAX_FRAGMENTS_PER_MESSAGE < total_fragments f then (False, r)
      else if total_fragments f \<le> fragment_id f then (False, r)
      else if MAX_FRAGMENT_DATA < length (frag_data f) then (False, r)
      else
        let accept = (\<lambda>r. if hm_contains (fragments r) (fragment_id f) then (False, r)
                          else (True, r\<lparr>fragments := hm_insert (fragment_id f) (frag_data f) (fragments r)\<rparr>))
        in case total_expected r of
             None \<Rightarrow> accept (r\<lparr>total_expected := Some (total_fragments f)\<rparr>)
           | Some expected \<Rightarrow> if expected \<noteq> total_fragments f then (False, r) else accept r)"

definition contains_fragment :: "Reassembler \<Rightarrow> u32 \<Rightarrow> bool" where
  "contains_fragment r i = hm_contains (fragments r) i"

definition can_accept_fragment :: "Reassembler \<Rightarrow> Fragment \<Rightarrow> bool" where
  "can_accept_fragment r f =
     (if total_fragments f = 0 \<or> MAX_FRAGMENTS_PER_MESSAGE < total_fragments f then False
      else if total_fragments f \<le> fragment_id f then False
      else if MAX_FRAGMENT_DATA < length (frag_data f) then False
      else case total_expected r of
             None \<Rightarrow> True
           | Some expected \<Rightarrow> expected = total_fragments f \<and> \<not> hm_contains (fragments r) (fragment_id f))"

definition is_expired :: "nat \<Rightarrow> u64 \<Rightarrow> Reassembler \<Rightarrow> bool" where
  "is_expired now timeout_secs r \<longleftrightarrow> unat timeout_secs * 10 ^ 9 \<le> now - created_at r"

definition Reassembler_cleanup_expired :: "nat \<Rightarrow> u64 \<Rightarrow> Reassembler \<Rightarrow> bool \<times> Reassembler" where
  "Reassembler_cleanup_expired now timeout_secs r =
     (if is_expired now timeout_secs r
      then (True, r\<lparr>fragments := [], total_expected := None, created_at := now\<rparr>)
      else (False, r))"

definition is_complete :: "Reassembler \<Rightarrow> bool" where
  "is_complete r = (case total_expected r of Some total_frags \<Rightarrow> hm_len (fragments r) = unat total_frags | None \<Rightarrow> False)"

definition received_count :: "Reassembler \<Rightarrow> nat" where
  "received_count r = hm_len (fragments r)"

fun gather :: "(u32, bytes) hashmap \<Rightarrow> nat list \<Rightarrow> bytes \<Rightarrow> FragmentError + bytes" where
  "gather m [] result = Inr result"
| "gather m (i # is) result =
     (case hm_get m (word_of_nat i) of
        None \<Rightarrow> Inl (MissingFragment (word_of_nat i))
      | Some data \<Rightarrow> gather m is (result @ data))"

definition reassemble :: "Reassembler \<Rightarrow> FragmentError + bytes" where
  "reassemble r = (case total_expected r of
       None \<Rightarrow> Inl NoFragments
     | Some total_frags \<Rightarrow> gather (fragments r) [0..<unat total_frags] [])"

section \<open>Reassembly manager\<close>

record ReassemblyManager =
  sessions :: "(u64, Reassembler) hashmap"
  order :: "u64 list"

definition ReassemblyManager_new :: ReassemblyManager where
  "ReassemblyManager_new = \<lparr>sessions = [], order = []\<rparr>"

text \<open>
  \<open>get_or_create\<close> leaves the session of \<open>message_id\<close> in the table; the caller then changes it
  through the returned reference (\<open>hm_modify\<close> below).
\<close>

definition get_or_create :: "nat \<Rightarrow> u64 \<Rightarrow> ReassemblyManager \<Rightarrow> ReassemblyManager" where
  "get_or_create now message_id mgr =
     (if \<not> hm_contains (sessions mgr) message_id then
        let mgr = (if MAX_REASSEMBLER_MESSAGES \<le> hm_len (sessions mgr) then
                     (case order mgr of
                        [] \<Rightarrow> mgr
                      | oldest # rest \<Rightarrow> mgr\<lparr>order := rest, sessions := hm_remove oldest (sessions mgr)\<rparr>)
                   else mgr)
        in mgr\<lparr>sessions := hm_insert message_id (Reassembler_new now) (sessions mgr),
               order := order mgr @ [message_id]\<rparr>
      else mgr)"

definition manager_add_fragment :: "nat \<Rightarrow> u64 \<Rightarrow> Fragment \<Rightarrow> ReassemblyManager \<Rightarrow> bool \<times> ReassemblyManager" where
  "manager_add_fragment now message_id f mgr =
     (if total_fragments f = 0 \<or> MAX_FRAGMENTS_PER_MESSAGE < total_fragments f
         \<or> total_fragments f \<le> fragment_id f then (False, mgr)
      else let mgr = get_or_create now message_id mgr in
        case hm_get (sessions mgr) message_id of
          None \<Rightarrow> (False, mgr)
        | Some session \<Rightarrow>
            (fst (Reassembler_add_fragment f session),
             mgr\<lparr>sessions := hm_modify message_id (\<lambda>s. snd (Reassembler_add_fragment f s)) (sessions mgr)\<rparr>))"

definition manager_remove :: "u64 \<Rightarrow> ReassemblyManager \<Rightarrow> bool \<times> ReassemblyManager" where
  "manager_remove message_id mgr =
     (let existed = hm_contains (sessions mgr) message_id;
          mgr = mgr\<lparr>sessions := hm_remove message_id (sessions mgr)\<rparr>
      in (existed, if existed then mgr\<lparr>order := filter (\<lambda>i. i \<noteq> message_id) (order mgr)\<rparr> else mgr))"

definition manager_cleanup_expired :: "nat \<Rightarrow> u64 \<Rightarrow> ReassemblyManager \<Rightarrow> nat \<times> ReassemblyManager" where
  "manager_cleanup_expired now timeout_secs mgr =
     (let expired = map fst (filter (\<lambda>(i, s). is_expired now timeout_secs s) (sessions mgr))
      in (length expired,
          foldl (\<lambda>mgr i. mgr\<lparr>sessions := hm_remove i (sessions mgr),
                             order := filter (\<lambda>kept. kept \<noteq> i) (order mgr)\<rparr>) mgr expired))"

definition cleanup_expired_default :: "nat \<Rightarrow> ReassemblyManager \<Rightarrow> nat \<times> ReassemblyManager" where
  "cleanup_expired_default now mgr = manager_cleanup_expired now REASSEMBLER_TIMEOUT_SECS mgr"

section \<open>The fragment encoding\<close>

lemma length_copy_at: "off + length src \<le> length buf \<Longrightarrow> length (copy_at off src buf) = length buf"
  by (simp add: copy_at_def)

lemma serialize_fragment_layout:
  assumes "length (frag_data f) \<le> MAX_FRAGMENT_DATA"
  shows "serialize_fragment f = to_be32 (fragment_id f) @ to_be32 (total_fragments f) @
           len_be32 (length (frag_data f)) @ frag_data f @ replicate (MAX_FRAGMENT_DATA - length (frag_data f)) 0"
proof -
  have l: "length (frag_data f) \<le> 1012" using assms by (simp add: fragment_consts)
  then have "unat (word_of_nat (length (frag_data f)) :: u32) = length (frag_data f)"
    by (simp add: unat_of_nat)
  with l show ?thesis
    by (simp add: serialize_fragment_def copy_at_def fragment_consts len_be32_def Let_def)
qed

lemma length_serialize_fragment:
  "length (frag_data f) \<le> MAX_FRAGMENT_DATA \<Longrightarrow> length (serialize_fragment f) = BODY_SIZE"
  by (simp add: serialize_fragment_layout) (simp add: fragment_consts)

lemma deserialize_serialize_fragment:
  assumes "length (frag_data f) \<le> MAX_FRAGMENT_DATA"
  shows "deserialize_fragment (serialize_fragment f) = Inr f"
proof -
  have "length (frag_data f) \<le> 1012" using assms by (simp add: fragment_consts)
  then show ?thesis
    by (simp add: deserialize_fragment_def serialize_fragment_layout [OF assms] Let_def)
       (simp add: fragment_consts)
qed


section \<open>Invariant of the reassembler\<close>

definition reassembler_inv :: "Reassembler \<Rightarrow> bool" where
  "reassembler_inv r \<longleftrightarrow> hm_wf (fragments r) \<and>
     (case total_expected r of
        None \<Rightarrow> fragments r = []
      | Some t \<Rightarrow> 0 < t \<and> t \<le> MAX_FRAGMENTS_PER_MESSAGE \<and>
          (\<forall>(i, d) \<in> set (fragments r). i < t \<and> length d \<le> MAX_FRAGMENT_DATA))"

lemma reassembler_inv_new [wf_intros]: "reassembler_inv (Reassembler_new now)"
  by (simp add: reassembler_inv_def Reassembler_new_def)

lemma reassembler_inv_add [wf_intros]:
  "reassembler_inv r \<Longrightarrow> reassembler_inv (snd (Reassembler_add_fragment f r))"
  using set_hm_insert [of "fragment_id f" "frag_data f" "fragments r"]
  by (auto simp: reassembler_inv_def Reassembler_add_fragment_def Let_def word_neq_0_conv hm_contains_def
      split: option.splits)

lemma reassembler_inv_cleanup [wf_intros]:
  "reassembler_inv r \<Longrightarrow> reassembler_inv (snd (Reassembler_cleanup_expired now t r))"
  by (cases "is_expired now t r") (simp_all add: Reassembler_cleanup_expired_def reassembler_inv_def)

lemma card_below: "card {i :: 'a::len word. i < t} = unat t"
proof -
  have "{i :: 'a word. i < t} = word_of_nat ` {..<unat t}"
  proof (intro equalityI subsetI)
    fix i :: "'a word"
    assume "i \<in> {i. i < t}"
    then have "unat i \<in> {..<unat t}" by (simp add: word_less_nat_alt)
    then show "i \<in> word_of_nat ` {..<unat t}" by (intro image_eqI [of _ _ "unat i"]) simp_all
  next
    fix i :: "'a word"
    assume "i \<in> word_of_nat ` {..<unat t}"
    then show "i \<in> {i. i < t}"
      by (auto simp: word_less_nat_alt unat_of_nat) (metis le_less_trans mod_less_eq_dividend)
  qed
  moreover have "inj_on (word_of_nat :: nat \<Rightarrow> 'a word) {..<unat t}"
    by (rule inj_onI) (metis lessThan_iff less_trans unsigned_less of_nat_inverse)
  ultimately show ?thesis by (simp add: card_image)
qed

lemma keys_below_len:
  assumes "hm_wf m" and "\<forall>(i, d) \<in> set m. i < (t :: 'a::len word)"
  shows "hm_len m \<le> unat t" and "hm_len m = unat t \<longleftrightarrow> set (map fst m) = {i. i < t}"
proof -
  have sub: "set (map fst m) \<subseteq> {i. i < t}" using assms(2) by auto
  have len: "hm_len m = card (set (map fst m))"
    using assms(1) by (metis distinct_card hm_len_def hm_wf_def length_map)
  have fin: "finite {i. i < t}" by (rule finite)
  show "hm_len m \<le> unat t" using card_mono [OF fin sub] by (simp add: len card_below)
  show "hm_len m = unat t \<longleftrightarrow> set (map fst m) = {i. i < t}"
    using card_subset_eq [OF fin sub] by (auto simp: len card_below simp flip: card_below)
qed

lemma reassembler_bounds:
  assumes "reassembler_inv r"
  shows "received_count r \<le> 2048" and "sum_list (map (length \<circ> snd) (fragments r)) \<le> 2048 * 1012"
proof -
  have "hm_len (fragments r) \<le> 2048 \<and> (\<forall>(i, d) \<in> set (fragments r). length d \<le> 1012)"
  proof (cases "total_expected r")
    case (Some t)
    then have "hm_len (fragments r) \<le> unat t"
      using assms by (intro keys_below_len(1)) (auto simp: reassembler_inv_def)
    moreover have "unat t \<le> 2048"
      using assms Some by (simp add: reassembler_inv_def MAX_FRAGMENTS_PER_MESSAGE_def word_le_nat_alt)
    ultimately show ?thesis
      using assms Some by (auto simp: reassembler_inv_def fragment_consts)
  qed (use assms in \<open>simp add: reassembler_inv_def hm_len_def\<close>)
  then have n: "hm_len (fragments r) \<le> 2048" and d: "\<forall>x \<in> set (fragments r). (length \<circ> snd) x \<le> 1012"
    by auto
  show "received_count r \<le> 2048" using n by (simp add: received_count_def)
  have "sum_list (map (length \<circ> snd) (fragments r)) \<le> sum_list (map (\<lambda>_. 1012) (fragments r))"
    using d by (intro sum_list_mono) simp
  also have "\<dots> = hm_len (fragments r) * 1012" by (simp add: sum_list_triv hm_len_def)
  also have "\<dots> \<le> 2048 * 1012" using n by (rule mult_le_mono1)
  finally show "sum_list (map (length \<circ> snd) (fragments r)) \<le> 2048 * 1012" .
qed

lemma can_accept_add:
  "reassembler_inv r \<Longrightarrow> fst (Reassembler_add_fragment f r) = can_accept_fragment r f"
  by (auto simp: Reassembler_add_fragment_def can_accept_fragment_def Let_def reassembler_inv_def
      hm_contains_def split: option.splits)

section \<open>Delivery in any order\<close>

text \<open>
  A message is a set of fragments that agree on their total and carry distinct ids. \<open>holds\<close>
  says that a reassembler has received exactly the fragments \<open>S\<close> of it.
\<close>

definition message :: "u32 \<Rightarrow> Fragment set \<Rightarrow> bool" where
  "message t F \<longleftrightarrow> 0 < t \<and> t \<le> MAX_FRAGMENTS_PER_MESSAGE \<and> inj_on fragment_id F \<and>
     (\<forall>f \<in> F. total_fragments f = t \<and> fragment_id f < t \<and> length (frag_data f) \<le> MAX_FRAGMENT_DATA)"

definition holds :: "u32 \<Rightarrow> Fragment set \<Rightarrow> Reassembler \<Rightarrow> bool" where
  "holds t S r \<longleftrightarrow> reassembler_inv r \<and> total_expected r = (if S = {} then None else Some t) \<and>
     (\<forall>i d. hm_get (fragments r) i = Some d \<longleftrightarrow> (\<exists>f \<in> S. fragment_id f = i \<and> frag_data f = d))"

abbreviation feed :: "Reassembler \<Rightarrow> Fragment list \<Rightarrow> Reassembler" where
  "feed \<equiv> foldl (\<lambda>r f. snd (Reassembler_add_fragment f r))"

lemma holds_add:
  assumes "message t F" and "S \<subseteq> F" and "f \<in> F" and "holds t S r"
  shows "holds t (insert f S) (snd (Reassembler_add_fragment f r))"
proof -
  have f: "total_fragments f = t" "fragment_id f < t" "length (frag_data f) \<le> MAX_FRAGMENT_DATA"
    and t: "0 < t" "t \<le> MAX_FRAGMENTS_PER_MESSAGE"
    using assms(1,3) by (auto simp: message_def)
  have dup: "g = f" if "g \<in> S" "fragment_id g = fragment_id f" for g
    using assms(1-3) that by (auto simp: message_def inj_on_def)
  have inv: "reassembler_inv (snd (Reassembler_add_fragment f r))"
    using assms(4) by (intro reassembler_inv_add) (simp add: holds_def)
  have eq: "snd (Reassembler_add_fragment f r) =
      (let r' = r\<lparr>total_expected := Some t\<rparr>
       in if hm_contains (fragments r) (fragment_id f) then r'
          else r'\<lparr>fragments := hm_insert (fragment_id f) (frag_data f) (fragments r)\<rparr>)"
    using f t assms(4)
    by (auto simp: Reassembler_add_fragment_def holds_def Let_def split: option.splits if_splits)
  have "hm_contains (fragments r) (fragment_id f) \<longleftrightarrow> f \<in> S"
    using assms(4) dup by (fastforce simp: hm_contains_def holds_def)
  then show ?thesis
    using assms(4) inv dup unfolding holds_def eq by (auto simp: Let_def)
qed

lemma holds_feed:
  "message t F \<Longrightarrow> S \<subseteq> F \<Longrightarrow> set fs \<subseteq> F \<Longrightarrow> holds t S r \<Longrightarrow> holds t (S \<union> set fs) (feed r fs)"
proof (induction fs arbitrary: S r)
  case (Cons f fs)
  then have "holds t (insert f S) (snd (Reassembler_add_fragment f r))"
    by (intro holds_add) auto
  with Cons.prems Cons.IH [of "insert f S" "snd (Reassembler_add_fragment f r)"] show ?case
    by simp
qed simp

lemma holds_new: "holds t {} (Reassembler_new now)"
  by (auto simp: holds_def Reassembler_new_def reassembler_inv_def)


lemma holds_keys: "holds t S r \<Longrightarrow> set (map fst (fragments r)) = fragment_id ` S"
proof -
  assume h: "holds t S r"
  have "i \<in> set (map fst (fragments r)) \<longleftrightarrow> i \<in> fragment_id ` S" for i
    using h hm_contains_alt [of "fragments r" i] by (auto simp: holds_def hm_contains_def)
  then show ?thesis by blast
qed

lemma holds_complete:
  assumes "message t F" and "fragment_id ` F = {i. i < t}" and "S \<subseteq> F" and "holds t S r"
  shows "is_complete r \<longleftrightarrow> S = F"
proof (cases "S = {}")
  case True
  have "F \<noteq> {}" using assms(1,2) by (auto simp: message_def)
  with True assms(4) show ?thesis by (simp add: holds_def is_complete_def)
next
  case False
  have "hm_len (fragments r) = unat t \<longleftrightarrow> set (map fst (fragments r)) = {i. i < t}"
    using assms(4) False by (intro keys_below_len(2)) (auto simp: holds_def reassembler_inv_def)
  also have "\<dots> \<longleftrightarrow> fragment_id ` S = fragment_id ` F"
    by (simp only: holds_keys [OF assms(4)] assms(2))
  also have "\<dots> \<longleftrightarrow> S = F"
    using assms(1,3) by (auto simp: message_def inj_on_image_eq_iff)
  finally show ?thesis using assms(4) False by (simp add: is_complete_def holds_def)
qed

lemma gather_concat:
  "\<forall>i \<in> set is. hm_get m (word_of_nat i) = Some (g i) \<Longrightarrow> gather m is acc = Inr (acc @ concat (map g is))"
  by (induction "is" arbitrary: acc) auto

section \<open>Numbered slices\<close>

text \<open>The fragments \<open>g 0, ..., g (n - 1)\<close> of a message, however the data was cut.\<close>

definition slices :: "nat \<Rightarrow> (nat \<Rightarrow> bytes) \<Rightarrow> Fragment list" where
  "slices n g = map (\<lambda>i. \<lparr>fragment_id = word_of_nat i, total_fragments = word_of_nat n, frag_data = g i\<rparr>) [0..<n]"

lemma slices_ids:
  assumes "n \<le> 2048"
  shows "fragment_id ` set (slices n g) = {i. i < word_of_nat n}"
proof -
  have n: "unat (word_of_nat n :: u32) = n" using assms by (simp add: unat_of_nat)
  have "{i :: u32. i < word_of_nat n} = word_of_nat ` {0..<n}"
  proof (intro equalityI subsetI)
    fix i :: u32
    assume "i \<in> {i. i < word_of_nat n}"
    then have "unat i \<in> {0..<n}" by (simp add: word_less_nat_alt n)
    then show "i \<in> word_of_nat ` {0..<n}" by (intro image_eqI [of _ _ "unat i"]) simp_all
  qed (use assms in \<open>auto simp: word_less_nat_alt unat_of_nat\<close>)
  then show ?thesis by (simp add: slices_def image_image)
qed

lemma slices_message:
  assumes "0 < n" "n \<le> 2048" "\<And>i. length (g i) \<le> MAX_FRAGMENT_DATA"
  shows "message (word_of_nat n) (set (slices n g))"
proof -
  have eq: "x = y" if "x < n" "y < n" "(word_of_nat x :: u32) = word_of_nat y" for x y
    using arg_cong [OF that(3), of unat] that(1,2) assms(2) by (simp add: unat_of_nat)
  have inj: "inj_on fragment_id (set (slices n g))" by (auto simp: slices_def inj_on_def dest: eq)
  have "fragment_id f < word_of_nat n" if "f \<in> set (slices n g)" for f
    using slices_ids [OF assms(2)] that by blast
  moreover have "total_fragments f = word_of_nat n" "length (frag_data f) \<le> MAX_FRAGMENT_DATA" if "f \<in> set (slices n g)" for f
    using that assms(3) by (auto simp: slices_def)
  moreover have "unat (word_of_nat n :: u32) = n" using assms(2) by (simp add: unat_of_nat)
  ultimately show ?thesis
    using inj assms(1,2) by (simp add: message_def word_less_nat_alt word_le_nat_alt MAX_FRAGMENTS_PER_MESSAGE_def)
qed

lemma slices_reassemble:
  assumes "0 < n" "n \<le> 2048" and h: "holds (word_of_nat n) (set (slices n g)) r"
  shows "reassemble r = Inr (concat (map g [0..<n]))"
proof -
  have "hm_get (fragments r) (word_of_nat i) = Some (g i)" if "i < n" for i
  proof -
    have "\<lparr>fragment_id = word_of_nat i, total_fragments = word_of_nat n, frag_data = g i\<rparr> \<in> set (slices n g)"
      using that by (simp add: slices_def)
    with h show ?thesis unfolding holds_def by fastforce
  qed
  then have "gather (fragments r) [0..<n] [] = Inr ([] @ concat (map g [0..<n]))"
    by (intro gather_concat) simp
  moreover have "total_expected r = Some (word_of_nat n)" using h assms(1) by (auto simp: holds_def slices_def)
  moreover have "unat (word_of_nat n :: u32) = n" using assms(2) by (simp add: unat_of_nat)
  ultimately show ?thesis by (simp add: reassemble_def)
qed

section \<open>The fragments of a payload\<close>

definition fragment_count :: "bytes \<Rightarrow> nat" where
  "fragment_count payload = max ((length payload + 1011) div 1012) 1"

abbreviation payload_slice :: "bytes \<Rightarrow> nat \<Rightarrow> bytes" where
  "payload_slice payload i \<equiv> take 1012 (drop (i * 1012) payload)"

lemma fragment_count_le: "length payload \<le> 2048 * 1012 \<Longrightarrow> fragment_count payload \<le> 2048"
proof -
  assume "length payload \<le> 2048 * 1012"
  then have "(length payload + 1011) div 1012 \<le> (2048 * 1012 + 1011) div 1012"
    by (intro div_le_mono) simp
  then show ?thesis by (simp add: fragment_count_def)
qed

lemma fragment_payload_eq:
  assumes "length payload \<le> 2048 * 1012"
  shows "fragment_payload payload =
    map (\<lambda>i. \<lparr>fragment_id = word_of_nat i, total_fragments = word_of_nat (fragment_count payload),
              frag_data = payload_slice payload i\<rparr>) [0..<fragment_count payload]"
proof -
  let ?n = "(length payload + 1011) div 1012"
  have n: "?n < 2 ^ 32" using fragment_count_le [OF assms] by (simp add: fragment_count_def)
  have "max (word_of_nat ?n :: u32) 1 = word_of_nat (max ?n 1)"
    using n by (auto simp: max_def word_le_nat_alt unat_of_nat)
  moreover have "unat (word_of_nat (max ?n 1) :: u32) = max ?n 1"
    using n by (simp add: unat_of_nat)
  moreover have "(if i * 1012 < length payload then
        take (min (i * 1012 + 1012) (length payload) - i * 1012) (drop (i * 1012) payload) else [])
      = payload_slice payload i" for i
    by (auto simp: min_def)
  ultimately show ?thesis
    by (simp add: fragment_payload_def fragment_count_def fragment_consts Let_def add.commute)
qed

lemma concat_payload_slices: "concat (map (payload_slice payload) [0..<fragment_count payload]) = payload"
proof (cases "payload = []")
  case False
  then have "1 \<le> (length payload + 1011) div 1012" by (cases payload) simp_all
  then have "fragment_count payload = length (chunks_of 1012 payload)"
    by (simp add: fragment_count_def length_chunks_of)
  then have "map (payload_slice payload) [0..<fragment_count payload] = chunks_of 1012 payload"
    by (intro nth_equalityI) (simp_all add: nth_chunks_of)
  then show ?thesis by simp
qed (simp add: fragment_count_def)

lemma fragment_payload_slices:
  "length payload \<le> 2048 * 1012 \<Longrightarrow> fragment_payload payload = slices (fragment_count payload) (payload_slice payload)"
  by (simp add: fragment_payload_eq slices_def)

lemma fragment_count_pos [simp]: "0 < fragment_count payload"
  by (simp add: fragment_count_def)

lemma fragment_ids:
  "length payload \<le> 2048 * 1012 \<Longrightarrow> fragment_id ` set (fragment_payload payload) = {i. i < word_of_nat (fragment_count payload)}"
  by (simp add: fragment_payload_slices slices_ids fragment_count_le)

lemma message_payload:
  "length payload \<le> 2048 * 1012 \<Longrightarrow> message (word_of_nat (fragment_count payload)) (set (fragment_payload payload))"
  unfolding fragment_payload_slices by (rule slices_message) (simp_all add: fragment_count_le fragment_consts)

lemma holds_payload:
  "length payload \<le> 2048 * 1012 \<Longrightarrow> set fs \<subseteq> set (fragment_payload payload) \<Longrightarrow>
     holds (word_of_nat (fragment_count payload)) (set fs) (feed (Reassembler_new now) fs)"
  using holds_feed [OF message_payload _ _ holds_new, of payload fs now] by simp

lemma holds_reassemble:
  "length payload \<le> 2048 * 1012 \<Longrightarrow> holds (word_of_nat (fragment_count payload)) (set (fragment_payload payload)) r \<Longrightarrow>
     reassemble r = Inr payload"
  using slices_reassemble [of "fragment_count payload" "payload_slice payload" r]
  by (simp add: fragment_payload_slices fragment_count_le concat_payload_slices)

lemma reassemble_payload:
  assumes "length payload \<le> 2048 * 1012" and "set fs = set (fragment_payload payload)"
  shows "reassemble (feed (Reassembler_new now) fs) = Inr payload"
  using holds_payload [OF assms(1), of fs now] assms by (intro holds_reassemble) simp_all


section \<open>Invariant of the manager\<close>

definition manager_inv :: "ReassemblyManager \<Rightarrow> bool" where
  "manager_inv mgr \<longleftrightarrow> hm_wf (sessions mgr) \<and> distinct (order mgr) \<and>
     (\<forall>i. i \<in> set (order mgr) \<longleftrightarrow> hm_contains (sessions mgr) i) \<and>
     hm_len (sessions mgr) \<le> MAX_REASSEMBLER_MESSAGES \<and>
     (\<forall>i s. hm_get (sessions mgr) i = Some s \<longrightarrow> reassembler_inv s)"

lemma manager_inv_length: "manager_inv mgr \<Longrightarrow> length (order mgr) = hm_len (sessions mgr)"
proof -
  assume inv: "manager_inv mgr"
  have "set (order mgr) = set (map fst (sessions mgr))"
    using inv by (auto simp: manager_inv_def hm_contains_alt)
  then have "card (set (order mgr)) = card (set (map fst (sessions mgr)))" by simp
  then show ?thesis
    using inv by (simp add: manager_inv_def hm_wf_def hm_len_def distinct_card distinct_card [of "map fst _", simplified])
qed

lemma manager_inv_new [wf_intros]: "manager_inv ReassemblyManager_new"
  by (simp add: manager_inv_def ReassemblyManager_new_def hm_contains_def hm_len_def)

lemma manager_inv_drop:
  "manager_inv mgr \<Longrightarrow>
     manager_inv (mgr\<lparr>sessions := hm_remove i (sessions mgr), order := filter (\<lambda>k. k \<noteq> i) (order mgr)\<rparr>)"
  by (auto simp: manager_inv_def hm_contains_def intro: order_trans [OF hm_len_remove_le])

lemma filter_neq_tl: "distinct (x # xs) \<Longrightarrow> filter (\<lambda>k. k \<noteq> x) (x # xs) = xs"
  by (auto simp: filter_id_conv)

text \<open>With the table full, a new session takes the place of the oldest one and of no other.\<close>

lemma get_or_create_full:
  assumes "manager_inv mgr" and "\<not> hm_contains (sessions mgr) m"
    and "hm_len (sessions mgr) = MAX_REASSEMBLER_MESSAGES"
  shows "get_or_create now m mgr =
     (let mgr' = mgr\<lparr>sessions := hm_remove (hd (order mgr)) (sessions mgr),
                     order := filter (\<lambda>k. k \<noteq> hd (order mgr)) (order mgr)\<rparr>
      in mgr'\<lparr>sessions := hm_insert m (Reassembler_new now) (sessions mgr'), order := order mgr' @ [m]\<rparr>)"
    and "order mgr \<noteq> []"
proof -
  obtain x xs where o: "order mgr = x # xs"
    using manager_inv_length [OF assms(1)] assms(3)
    by (cases "order mgr") (simp_all add: MAX_REASSEMBLER_MESSAGES_def)
  then have "filter (\<lambda>k. k \<noteq> x) (order mgr) = xs"
    using assms(1) by (simp add: manager_inv_def filter_id_conv) metis
  then show "get_or_create now m mgr =
     (let mgr' = mgr\<lparr>sessions := hm_remove (hd (order mgr)) (sessions mgr),
                     order := filter (\<lambda>k. k \<noteq> hd (order mgr)) (order mgr)\<rparr>
      in mgr'\<lparr>sessions := hm_insert m (Reassembler_new now) (sessions mgr'), order := order mgr' @ [m]\<rparr>)"
    using assms(2,3) o by (simp add: get_or_create_def Let_def)
qed (use manager_inv_length [OF assms(1)] assms(3) in \<open>auto simp: MAX_REASSEMBLER_MESSAGES_def\<close>)

lemma manager_inv_insert_new:
  assumes "manager_inv mgr" and "\<not> hm_contains (sessions mgr) m"
    and "hm_len (sessions mgr) < MAX_REASSEMBLER_MESSAGES"
  shows "manager_inv (mgr\<lparr>sessions := hm_insert m (Reassembler_new now) (sessions mgr), order := order mgr @ [m]\<rparr>)"
  using assms reassembler_inv_new [of now] by (auto simp: manager_inv_def hm_contains_def hm_len_insert)

lemma manager_inv_get_or_create [wf_intros]:
  assumes "manager_inv mgr"
  shows "manager_inv (get_or_create now m mgr)"
proof (cases "hm_contains (sessions mgr) m \<or> hm_len (sessions mgr) < MAX_REASSEMBLER_MESSAGES")
  case True
  then show ?thesis
    using assms manager_inv_insert_new [OF assms] by (auto simp: get_or_create_def)
next
  case False
  let ?x = "hd (order mgr)"
  let ?mgr' = "mgr\<lparr>sessions := hm_remove ?x (sessions mgr), order := filter (\<lambda>k. k \<noteq> ?x) (order mgr)\<rparr>"
  have full: "hm_len (sessions mgr) = MAX_REASSEMBLER_MESSAGES"
    using False assms by (simp add: manager_inv_def)
  have new: "\<not> hm_contains (sessions mgr) m" using False by simp
  note full_eq = get_or_create_full [OF assms new full]
  have "hm_contains (sessions mgr) ?x"
    using assms full_eq(2) hd_in_set by (auto simp: manager_inv_def)
  then have "hm_len (sessions ?mgr') < MAX_REASSEMBLER_MESSAGES"
    using assms full by (simp add: hm_len_remove manager_inv_def MAX_REASSEMBLER_MESSAGES_def)
  moreover have "\<not> hm_contains (sessions ?mgr') m" using new by (auto simp: hm_contains_def)
  ultimately show ?thesis
    using manager_inv_insert_new [OF manager_inv_drop [OF assms]] by (simp add: full_eq(1) Let_def)
qed

lemma hm_contains_modify [simp]: "hm_contains (hm_modify k f m) i = hm_contains m i"
  by (auto simp: hm_contains_def)

lemma manager_inv_add [wf_intros]:
  assumes "manager_inv mgr"
  shows "manager_inv (snd (manager_add_fragment now m f mgr))"
proof -
  have g: "manager_inv (get_or_create now m mgr)" by (rule manager_inv_get_or_create [OF assms])
  have "manager_inv ((get_or_create now m mgr)\<lparr>sessions :=
      hm_modify m (\<lambda>s. snd (Reassembler_add_fragment f s)) (sessions (get_or_create now m mgr))\<rparr>)"
    using g reassembler_inv_add by (auto simp: manager_inv_def)
  with g assms show ?thesis
    by (auto simp: manager_add_fragment_def Let_def split: option.splits)
qed

lemma manager_inv_remove [wf_intros]: "manager_inv mgr \<Longrightarrow> manager_inv (snd (manager_remove m mgr))"
proof -
  assume inv: "manager_inv mgr"
  have "hm_remove m (sessions mgr) = sessions mgr" if "\<not> hm_contains (sessions mgr) m"
    using that unfolding hm_remove_def hm_contains_alt by (intro delete_id) simp
  with inv manager_inv_drop [OF inv] show ?thesis
    by (simp add: manager_remove_def Let_def)
qed

lemma manager_inv_cleanup [wf_intros]:
  "manager_inv mgr \<Longrightarrow> manager_inv (snd (manager_cleanup_expired now t mgr))"
proof -
  have "manager_inv mgr \<Longrightarrow> manager_inv (foldl (\<lambda>mgr i. mgr\<lparr>sessions := hm_remove i (sessions mgr),
      order := filter (\<lambda>kept. kept \<noteq> i) (order mgr)\<rparr>) mgr is)" for "is"
    by (induction "is" arbitrary: mgr) (simp_all add: manager_inv_drop)
  then show "manager_inv mgr \<Longrightarrow> manager_inv (snd (manager_cleanup_expired now t mgr))"
    by (simp add: manager_cleanup_expired_def Let_def)
qed

text \<open>Every state the manager can reach through its operations, at whatever times they run.\<close>

inductive manager_reachable :: "ReassemblyManager \<Rightarrow> bool" where
  fresh: "manager_reachable ReassemblyManager_new"
| create: "manager_reachable mgr \<Longrightarrow> manager_reachable (get_or_create now m mgr)"
| add: "manager_reachable mgr \<Longrightarrow> manager_reachable (snd (manager_add_fragment now m f mgr))"
| remove: "manager_reachable mgr \<Longrightarrow> manager_reachable (snd (manager_remove m mgr))"
| cleanup: "manager_reachable mgr \<Longrightarrow> manager_reachable (snd (manager_cleanup_expired now t mgr))"

lemma manager_reachable_inv: "manager_reachable mgr \<Longrightarrow> manager_inv mgr"
  by (induction rule: manager_reachable.induct) (auto intro: wf_intros)

lemma complete_reassembles:
  assumes "reassembler_inv r" and "is_complete r"
  shows "\<exists>payload. reassemble r = Inr payload"
proof -
  obtain t where t: "total_expected r = Some t" and n: "hm_len (fragments r) = unat t"
    using assms(2) by (auto simp: is_complete_def split: option.splits)
  have "hm_wf (fragments r)" "\<forall>(i, d) \<in> set (fragments r). i < t"
    using assms(1) t by (auto simp: reassembler_inv_def)
  then have keys: "set (map fst (fragments r)) = {i. i < t}"
    using keys_below_len(2) n by blast
  have "\<exists>d. hm_get (fragments r) (word_of_nat i) = Some d" if "i < unat t" for i
  proof -
    have "i < 2 ^ 32" using that unsigned_less [of t, where ?'a = nat] by simp
    then have "(word_of_nat i :: u32) < t" using that by (simp add: word_less_nat_alt unat_of_nat)
    with keys have "(word_of_nat i :: u32) \<in> set (map fst (fragments r))" by simp
    then show ?thesis by (metis hm_contains_alt hm_contains_def not_None_eq)
  qed
  then obtain g where "\<forall>i \<in> set [0..<unat t]. hm_get (fragments r) (word_of_nat i) = Some (g i)"
    by (metis atLeastLessThan_iff set_upt)
  from gather_concat [OF this] show ?thesis by (simp add: reassemble_def t)
qed

lemma reassembler_inv_feed: "reassembler_inv r \<Longrightarrow> reassembler_inv (feed r fs)"
  by (induction fs arbitrary: r) (simp_all add: reassembler_inv_add)

section \<open>Properties\<close>

text \<open>C24 (round trip).
  Take a payload of at most 2048 fragments, fragment and serialize it, and deliver the
  resulting Sphinx bodies in any order and with any repetitions: every body is exactly
  \<open>BODY_SIZE\<close> bytes and parses back to a fragment, and the reassembler that received them is
  complete and returns the payload.\<close>

theorem fragments_rebuild_payload:
  assumes "length payload \<le> 2048 * 1012"
    and "set bodies = serialize_fragment ` set (fragment_payload payload)"
  shows "\<exists>fs. map deserialize_fragment bodies = map Inr fs \<and> (\<forall>b \<in> set bodies. length b = BODY_SIZE) \<and>
           is_complete (feed (Reassembler_new now) fs) \<and>
           reassemble (feed (Reassembler_new now) fs) = Inr payload"
proof -
  let ?F = "set (fragment_payload payload)"
  have ok: "length (frag_data f) \<le> MAX_FRAGMENT_DATA" if "f \<in> ?F" for f
    using message_payload [OF assms(1)] that by (auto simp: message_def)
  have "\<forall>b \<in> set bodies. \<exists>f. f \<in> ?F \<and> b = serialize_fragment f" using assms(2) by auto
  then obtain g where g: "\<forall>b \<in> set bodies. g b \<in> ?F \<and> b = serialize_fragment (g b)"
    by (metis bchoice)
  have dec: "deserialize_fragment b = Inr (g b)" "length b = BODY_SIZE" if "b \<in> set bodies" for b
    using g that ok deserialize_serialize_fragment length_serialize_fragment by metis+
  have F: "set (map g bodies) = ?F"
  proof -
    have "f \<in> set (map g bodies)" if "f \<in> ?F" for f
    proof -
      have b: "serialize_fragment f \<in> set bodies" using that assms(2) by simp
      then have "Inr (g (serialize_fragment f)) = (Inr f :: FragmentError + Fragment)"
        using dec(1) [OF b] deserialize_serialize_fragment [OF ok [OF that]] by simp
      with b show ?thesis by (metis imageI list.set_map sum.inject(2))
    qed
    with g show ?thesis by auto
  qed
  have h: "holds (word_of_nat (fragment_count payload)) (set (map g bodies)) (feed (Reassembler_new now) (map g bodies))"
    using F by (intro holds_payload assms(1)) simp
  have "is_complete (feed (Reassembler_new now) (map g bodies))"
    using holds_complete [OF message_payload [OF assms(1)] fragment_ids [OF assms(1)] _ h] F by simp
  moreover have "reassemble (feed (Reassembler_new now) (map g bodies)) = Inr payload"
    by (rule reassemble_payload [OF assms(1) F])
  moreover have "map deserialize_fragment bodies = map Inr (map g bodies)" using dec(1) by simp
  ultimately show ?thesis using dec(2) by blast
qed


text \<open>A five-byte payload travels in one body, here delivered twice.\<close>

theorem fragments_rebuild_payload_witness:
  "\<exists>fs. map deserialize_fragment
          (let b = serialize_fragment \<lparr>fragment_id = 0, total_fragments = 1, frag_data = [1, 2, 3, 4, 5]\<rparr> in [b, b])
        = map Inr fs \<and> reassemble (feed (Reassembler_new 7) fs) = Inr [1, 2, 3, 4, 5]"
proof -
  let ?p = "[1, 2, 3, 4, 5] :: bytes"
  let ?b = "serialize_fragment \<lparr>fragment_id = 0, total_fragments = 1, frag_data = ?p\<rparr>"
  have "length ?p \<le> 2048 * 1012" by simp
  moreover have "set [?b, ?b] = serialize_fragment ` set (fragment_payload ?p)"
    by (simp add: fragment_payload_eq fragment_count_def)
  ultimately show ?thesis
    unfolding Let_def using fragments_rebuild_payload [of ?p "[?b, ?b]" 7] by metis
qed

text \<open>Whatever fragments arrive, honest or hostile, a reassembler never holds more than 2048 of
  them nor more than 2048 times 1012 bytes, \<open>can_accept\<close> predicts exactly the answer of
  \<open>add_fragment\<close>, and a reassembler that reports completion can be reassembled: it never
  fails with a missing fragment.\<close>

theorem reassembler_safe:
  "let r = feed (Reassembler_new now) fs in
     received_count r \<le> 2048 \<and>
     sum_list (map (length \<circ> snd) (fragments r)) \<le> 2048 * 1012 \<and>
     fst (Reassembler_add_fragment f r) = can_accept_fragment r f \<and>
     (is_complete r \<longrightarrow> (\<exists>payload. reassemble r = Inr payload))"
proof -
  have inv: "reassembler_inv (feed (Reassembler_new now) fs)"
    by (intro reassembler_inv_feed reassembler_inv_new)
  show ?thesis
    unfolding Let_def
    by (intro conjI impI reassembler_bounds [OF inv] can_accept_add [OF inv] complete_reassembles [OF inv])
qed

text \<open>One fragment of one completes a message.\<close>

theorem reassembler_safe_witness:
  "\<exists>payload. reassemble (feed (Reassembler_new 3)
      [\<lparr>fragment_id = 0, total_fragments = 1, frag_data = [8, 9]\<rparr>]) = Inr payload"
proof -
  let ?fs = "[\<lparr>fragment_id = 0, total_fragments = 1, frag_data = [8, 9]\<rparr>]"
  have "is_complete (feed (Reassembler_new 3) ?fs)"
    by (simp add: Reassembler_new_def Reassembler_add_fragment_def fragment_consts is_complete_def
        hm_contains_def hm_len_def)
  then show ?thesis using reassembler_safe [of 3 ?fs] by (simp add: Let_def)
qed

text \<open>C32 (invariant).
  In every reachable state the manager tracks at most 64 sessions, its eviction queue lists
  each of them once, each session is within its own bounds, and opening a session in a full
  table drops the one at the head of the queue and leaves every other session as it was.\<close>

theorem manager_bounded_fifo:
  assumes "manager_reachable mgr"
  shows "hm_len (sessions mgr) \<le> 64 \<and> distinct (order mgr) \<and>
    (\<forall>i. i \<in> set (order mgr) \<longleftrightarrow> hm_contains (sessions mgr) i) \<and>
    (\<forall>i s. hm_get (sessions mgr) i = Some s \<longrightarrow> received_count s \<le> 2048) \<and>
    (hm_len (sessions mgr) = 64 \<longrightarrow> \<not> hm_contains (sessions mgr) m \<longrightarrow>
       order (get_or_create now m mgr) = tl (order mgr) @ [m] \<and>
       (\<forall>i. hm_get (sessions (get_or_create now m mgr)) i =
          (if i = m then Some (Reassembler_new now) else if i = hd (order mgr) then None
           else hm_get (sessions mgr) i)))"
proof -
  have inv: "manager_inv mgr" by (rule manager_reachable_inv [OF assms])
  have full: "order (get_or_create now m mgr) = tl (order mgr) @ [m] \<and>
       (\<forall>i. hm_get (sessions (get_or_create now m mgr)) i =
          (if i = m then Some (Reassembler_new now) else if i = hd (order mgr) then None
           else hm_get (sessions mgr) i))"
    if c: "hm_len (sessions mgr) = 64" and n: "\<not> hm_contains (sessions mgr) m"
  proof -
    note eq = get_or_create_full [OF inv n c [folded MAX_REASSEMBLER_MESSAGES_def]]
    have "filter (\<lambda>k. k \<noteq> hd (order mgr)) (order mgr) = tl (order mgr)"
      using eq(2) inv filter_neq_tl [of "hd (order mgr)" "tl (order mgr)"] by (simp add: manager_inv_def)
    then show ?thesis by (simp add: eq(1) Let_def)
  qed
  show ?thesis
    using inv full reassembler_bounds(1) unfolding manager_inv_def MAX_REASSEMBLER_MESSAGES_def by blast
qed

text \<open>The fresh manager after one fragment.\<close>

theorem manager_bounded_fifo_witness:
  "hm_len (sessions (snd (manager_add_fragment 5 9
      \<lparr>fragment_id = 0, total_fragments = 1, frag_data = [1]\<rparr> ReassemblyManager_new))) \<le> 64"
  using manager_bounded_fifo [OF manager_reachable.add [OF manager_reachable.fresh]] by blast

end
