(* ===== verification/F64.thy ===== *)
theory F64
  imports Complex_Main Prelude
begin

text \<open>
  Rust's \<open>f64\<close> as the program uses it: conversions from integers, division, products and
  sums, comparisons and \<open>f64::INFINITY\<close>. A finite double is the rational it denotes, and every
  operation rounds its exact result to 53 significant bits, ties to even. The quantities the
  program computes lie between \<open>2 ^ -70\<close> and \<open>2 ^ 70\<close> in magnitude, far from overflow and
  from subnormal numbers, so the exponent is unbounded here; NaN cannot arise from them.

  The main fact is \<open>f64_div_ge_half\<close>: for counts below \<open>2 ^ 53\<close> the rounded quotient is at
  least \<open>0.5\<close> exactly when twice the numerator reaches the denominator. The gates of the
  accounting rules are therefore exact in spite of the rounding.
\<close>

datatype f64 = Fin rat | INFINITY

instantiation f64 :: linorder
begin

fun less_eq_f64 :: "f64 \<Rightarrow> f64 \<Rightarrow> bool" where
  "less_eq_f64 (Fin a) (Fin b) \<longleftrightarrow> a \<le> b"
| "less_eq_f64 x INFINITY \<longleftrightarrow> True"
| "less_eq_f64 INFINITY (Fin b) \<longleftrightarrow> False"

definition less_f64 :: "f64 \<Rightarrow> f64 \<Rightarrow> bool" where
  "less_f64 x y \<longleftrightarrow> x \<le> y \<and> \<not> y \<le> (x :: f64)"

instance
proof
  fix x y z :: f64
  show "x < y \<longleftrightarrow> x \<le> y \<and> \<not> y \<le> x" by (rule less_f64_def)
  show "x \<le> x" by (cases x) simp_all
  show "x \<le> y \<Longrightarrow> y \<le> z \<Longrightarrow> x \<le> z" by (cases x; cases y; cases z) simp_all
  show "x \<le> y \<Longrightarrow> y \<le> x \<Longrightarrow> x = y" by (cases x; cases y) simp_all
  show "x \<le> y \<or> y \<le> x" by (cases x; cases y) auto
qed

end

lemma Fin_less [simp]: "Fin a < Fin b \<longleftrightarrow> a < b"
  by (auto simp: less_f64_def)

section \<open>Rounding to 53 bits\<close>

fun log2_nat :: "nat \<Rightarrow> nat" where
  "log2_nat n = (if n \<le> 1 then 0 else Suc (log2_nat (n div 2)))"

declare log2_nat.simps [simp del]

lemma log2_nat_bounds: "0 < n \<Longrightarrow> 2 ^ log2_nat n \<le> n \<and> n < 2 ^ Suc (log2_nat n)"
proof (induction n rule: log2_nat.induct)
  case (1 n)
  show ?case
  proof (cases "n \<le> 1")
    case True
    with "1.prems" show ?thesis by (simp add: log2_nat.simps)
  next
    case False
    then have ih: "2 ^ log2_nat (n div 2) \<le> n div 2 \<and> n div 2 < 2 ^ Suc (log2_nat (n div 2))"
      by (intro "1.IH") simp_all
    have "log2_nat n = Suc (log2_nat (n div 2))" using False by (subst log2_nat.simps) simp
    with ih show ?thesis by auto
  qed
qed

text \<open>The exponent \<open>e\<close> with \<open>2 ^ e \<le> x < 2 ^ (e + 1)\<close> of a positive rational.\<close>

definition exponent_of :: "rat \<Rightarrow> int" where
  "exponent_of x =
     (if 1 \<le> x then int (log2_nat (nat \<lfloor>x\<rfloor>))
      else let y = 1 / x; k = log2_nat (nat \<lfloor>y\<rfloor>) in if y = 2 ^ k then - int k else - int (Suc k))"

lemma rat_floor_bounds:
  fixes x :: rat
  assumes "1 \<le> x"
  shows "2 ^ log2_nat (nat \<lfloor>x\<rfloor>) \<le> x" and "x < 2 ^ Suc (log2_nat (nat \<lfloor>x\<rfloor>))"
proof -
  let ?n = "nat \<lfloor>x\<rfloor>"
  have "1 \<le> \<lfloor>x\<rfloor>" using assms by (simp add: le_floor_iff)
  then have pos: "0 < ?n" and n: "of_nat ?n = (of_int \<lfloor>x\<rfloor> :: rat)" by simp_all
  from log2_nat_bounds [OF pos] have b: "2 ^ log2_nat ?n \<le> ?n" "Suc ?n \<le> 2 ^ Suc (log2_nat ?n)" by simp_all
  have "(2 :: rat) ^ log2_nat ?n \<le> of_nat ?n" using b(1) by (metis of_nat_le_iff of_nat_numeral of_nat_power)
  also have "\<dots> \<le> x" using n by simp
  finally show "2 ^ log2_nat ?n \<le> x" .
  have "x < of_nat (Suc ?n)" using n floor_correct [of x] by (simp add: add.commute)
  also have "\<dots> \<le> of_nat (2 ^ Suc (log2_nat ?n))" by (rule of_nat_mono [OF b(2)])
  also have "\<dots> = 2 ^ Suc (log2_nat ?n)" by (simp only: of_nat_power of_nat_numeral)
  finally show "x < 2 ^ Suc (log2_nat ?n)" .
qed

lemma exponent_of_bounds:
  assumes "0 < x"
  shows "2 powi exponent_of x \<le> x" and "x < 2 powi (exponent_of x + 1)"
proof -
  have "2 powi exponent_of x \<le> x \<and> x < 2 powi (exponent_of x + 1)"
  proof (cases "1 \<le> x")
    case True
    then show ?thesis
      using rat_floor_bounds [OF True] by (simp add: exponent_of_def power_int_add)
  next
    case False
    define y where "y = 1 / x"
    define k where "k = log2_nat (nat \<lfloor>y\<rfloor>)"
    have y: "1 \<le> y" and x: "x = 1 / y" using False assms by (simp_all add: y_def)
    note b = rat_floor_bounds [OF y, folded k_def]
    have ypos: "0 < y" using y by simp
    have ex: "exponent_of x = (if y = 2 ^ k then - int k else - int (Suc k))"
      using False by (simp add: exponent_of_def Let_def y_def k_def)
    show ?thesis
    proof (cases "y = 2 ^ k")
      case True
      then have e: "exponent_of x = - int k" by (simp add: ex)
      have "x = 2 powi (- int k)" using True x by (simp add: power_int_minus field_simps)
      moreover have "(2 :: rat) powi (- int k + 1) = 2 powi (- int k) * 2"
        using power_int_add [of "2 :: rat" "- int k" 1] by simp
      ultimately show ?thesis using assms unfolding e by (simp only:) simp
    next
      case neq: False
      then have e: "exponent_of x = - int (Suc k)" by (simp add: ex)
      have lo: "2 powi (- int (Suc k)) = 1 / (2 ^ Suc k :: rat)"
        unfolding power_int_minus power_int_of_nat by (simp add: field_simps)
      have "- int (Suc k) + 1 = - int k" by simp
      then have hi: "2 powi (- int (Suc k) + 1) = 1 / (2 ^ k :: rat)"
        by (simp only: power_int_minus power_int_of_nat) (simp add: field_simps)
      have "1 / 2 ^ Suc k \<le> x" "x < 1 / 2 ^ k"
        using b neq ypos unfolding x by (auto intro!: divide_left_mono divide_strict_left_mono)
      with e lo hi show ?thesis by (simp only:)
    qed
  qed
  then show "2 powi exponent_of x \<le> x" "x < 2 powi (exponent_of x + 1)" by blast+
qed

text \<open>Nearest integer, ties to even.\<close>

definition round_even :: "rat \<Rightarrow> int" where
  "round_even x =
     (let n = \<lfloor>x\<rfloor>; d = x - of_int n
      in if d < 1 / 2 then n else if 1 / 2 < d then n + 1 else if even n then n else n + 1)"

lemma round_even_ge: "of_int n \<le> x \<Longrightarrow> n \<le> round_even x"
  using le_floor_iff [of n x] by (auto simp: round_even_def Let_def)

lemma round_even_le: "x \<le> of_int n \<Longrightarrow> round_even x \<le> n"
proof -
  assume "x \<le> of_int n"
  then have "\<lfloor>x\<rfloor> < n \<or> x = of_int n"
    by (metis floor_less_iff order_le_less)
  then show ?thesis by (auto simp: round_even_def Let_def)
qed

lemma round_even_int [simp]: "round_even (of_int n) = n"
  by (simp add: round_even_def)

definition f64_round :: "rat \<Rightarrow> rat" where
  "f64_round x =
     (if x = 0 then 0
      else let u = 2 powi (exponent_of \<bar>x\<bar> - 52) in of_int (round_even (x / u)) * u)"

definition f64_of_nat :: "nat \<Rightarrow> rat" where
  "f64_of_nat n = f64_round (of_nat n)"

definition f64_div :: "rat \<Rightarrow> rat \<Rightarrow> rat" where
  "f64_div a b = f64_round (a / b)"

lemma f64_of_nat_exact: "n < 2 ^ 53 \<Longrightarrow> f64_of_nat n = of_nat n"
proof (cases "n = 0")
  case False
  assume n: "n < 2 ^ 53"
  define e where "e = log2_nat n"
  have "2 ^ e \<le> n" using False log2_nat_bounds [of n] by (simp add: e_def)
  then have "(2 :: nat) ^ e < 2 ^ 53" using n by (rule le_less_trans)
  then have "e < 53" by (rule power_less_imp_less_exp [rotated]) simp
  then have e: "e \<le> 52" by simp
  have ex: "exponent_of (of_nat n) = int e"
    using False by (simp add: exponent_of_def e_def)
  have u: "2 powi (int e - 52) = 1 / (2 ^ (52 - e) :: rat)"
    using e by (simp add: power_int_def nat_diff_distrib' divide_simps)
  have "of_nat n / (2 powi (int e - 52) :: rat) = of_int (int n * 2 ^ (52 - e))"
    by (simp add: u)
  then have "round_even (of_nat n / 2 powi (int e - 52)) = int n * 2 ^ (52 - e)"
    by (simp only: round_even_int)
  with False show ?thesis by (simp add: f64_of_nat_def f64_round_def ex Let_def u)
qed (simp add: f64_of_nat_def f64_round_def)

lemma f64_round_ge_half: "1 / 2 \<le> q \<Longrightarrow> 1 / 2 \<le> f64_round q"
proof -
  assume q: "1 / 2 \<le> q"
  then have pos: "0 < q" by simp
  let ?e = "exponent_of q" and ?u = "2 powi (exponent_of q - 52) :: rat"
  note b = exponent_of_bounds [OF pos]
  have e: "- 1 \<le> ?e"
  proof (rule ccontr)
    assume "\<not> - 1 \<le> ?e"
    then have "(2 :: rat) powi (?e + 1) \<le> 2 powi (- 1)" by (intro power_int_increasing) simp_all
    with b q show False by simp
  qed
  have u: "0 < ?u" and eq: "2 powi ?e = of_int (2 ^ 52) * ?u" by (simp_all add: power_int_diff)
  have "of_int (2 ^ 52) \<le> q / ?u" using b(1) u unfolding eq by (simp add: le_divide_eq)
  then have r: "2 ^ 52 \<le> round_even (q / ?u)" by (rule round_even_ge)
  have "(1 / 2 :: rat) = 2 powi (- 1)" by simp
  also have "\<dots> \<le> 2 powi ?e" using e by (intro power_int_increasing) simp_all
  also have "\<dots> \<le> of_int (round_even (q / ?u)) * ?u"
    unfolding eq using r u by (intro mult_right_mono) (simp_all only: of_int_le_iff less_imp_le)
  finally show ?thesis using pos by (simp add: f64_round_def Let_def)
qed

lemma f64_round_less_half:
  assumes q: "0 < q" and small: "q \<le> 1 / 2 - 1 / (2 * b)" and b: "0 < b" "b < 2 ^ 53"
  shows "f64_round q < 1 / 2"
proof -
  let ?e = "exponent_of q" and ?u = "2 powi (exponent_of q - 52) :: rat"
  note eb = exponent_of_bounds [OF q]
  have u: "0 < ?u" and eq: "2 powi (?e + 1) = of_int (2 ^ 53) * ?u"
    by (simp_all add: power_int_diff power_int_add)
  have half: "q < 1 / 2" using small zero_less_divide_1_iff [of "2 * b"] b by linarith
  have "?e \<le> - 2"
  proof (rule ccontr)
    assume "\<not> ?e \<le> - 2"
    then have "(2 :: rat) powi (- 1) \<le> 2 powi ?e" by (intro power_int_increasing) simp_all
    with eb half show False by simp
  qed
  then consider "?e = - 2" | "?e \<le> - 3" by linarith
  then have "of_int (round_even (q / ?u)) * ?u < 1 / 2"
  proof cases
    case 1
    have "q / ?u \<le> (1 / 2 - 1 / (2 * b)) / ?u" using small u by (intro divide_right_mono) simp_all
    also have "\<dots> = 2 ^ 53 - 2 ^ 53 / b" using b by (simp add: 1 field_simps)
    also have "\<dots> \<le> of_int (2 ^ 53 - 1)" using b by (simp add: field_simps)
    finally have "round_even (q / ?u) \<le> 2 ^ 53 - 1" by (rule round_even_le)
    then have "of_int (round_even (q / ?u)) * ?u \<le> of_int (2 ^ 53 - 1) * ?u"
      using u by (intro mult_right_mono) (simp_all only: of_int_le_iff less_imp_le)
    also have "\<dots> < 1 / 2" by (simp add: 1 field_simps)
    finally show ?thesis .
  next
    case 2
    have "q / ?u \<le> of_int (2 ^ 53)" using eb(2) u unfolding eq by (simp add: divide_le_eq)
    then have "round_even (q / ?u) \<le> 2 ^ 53" by (rule round_even_le)
    then have "of_int (round_even (q / ?u)) * ?u \<le> of_int (2 ^ 53) * ?u"
      using u by (intro mult_right_mono) (simp_all only: of_int_le_iff less_imp_le)
    also have "\<dots> = 2 powi (?e + 1)" by (rule eq [symmetric])
    also have "\<dots> \<le> 2 powi (- 2)" using 2 by (intro power_int_increasing) simp_all
    also have "\<dots> < (1 / 2 :: rat)" by simp
    finally show ?thesis .
  qed
  then show ?thesis using q by (simp add: f64_round_def Let_def)
qed

lemma f64_div_ge_half:
  assumes "a < 2 ^ 53" and "b < 2 ^ 53" and "0 < b"
  shows "1 / 2 \<le> f64_div (f64_of_nat a) (f64_of_nat b) \<longleftrightarrow> b \<le> 2 * a"
proof (cases "b \<le> 2 * a")
  case True
  then have "(of_nat b :: rat) \<le> 2 * of_nat a" using of_nat_le_iff [of b "2 * a", where ?'a = rat] by simp
  then have "(1 / 2 :: rat) \<le> of_nat a / of_nat b" using assms(3) by (simp add: field_simps)
  then have "1 / 2 \<le> f64_round (of_nat a / of_nat b)" by (rule f64_round_ge_half)
  with True show ?thesis unfolding f64_div_def f64_of_nat_exact [OF assms(1)] f64_of_nat_exact [OF assms(2)] by blast
next
  case False
  have "f64_round (of_nat a / of_nat b) < 1 / 2"
  proof (cases "a = 0")
    case False
    have "2 * a + 1 \<le> b" using \<open>\<not> b \<le> 2 * a\<close> by simp
    then have "2 * of_nat a + 1 \<le> (of_nat b :: rat)"
      using of_nat_le_iff [of "2 * a + 1" b, where ?'a = rat] by simp
    then have "of_nat a / of_nat b \<le> 1 / 2 - 1 / (2 * of_nat b :: rat)"
      using assms(3) by (simp add: field_simps)
    moreover have "(of_nat b :: rat) < 2 ^ 53"
      using assms(2) of_nat_less_iff [of b "2 ^ 53", where ?'a = rat] by simp
    moreover have "0 < (of_nat b :: rat)" "0 < (of_nat a / of_nat b :: rat)" using False assms(3) by simp_all
    ultimately show ?thesis by (metis f64_round_less_half)
  qed (simp add: f64_round_def)
  with False show ?thesis unfolding f64_div_def f64_of_nat_exact [OF assms(1)] f64_of_nat_exact [OF assms(2)] by simp
qed

end
