(* ===== verification/Accounting.thy ===== *)
theory Accounting
  imports F64
begin

text \<open>
  \<^verbatim>\<open>crates/static-accounting/src/lib.rs\<close>: per-peer credit, the service gates, sponsored
  seeds with their rate limit, reconciliation after a partition, and Proof of Space-Time
  challenges. Functions that read the clock take \<open>now\<close>, random nonces are arguments, and
  \<open>blake3\<close> is a parameter. An \<open>i64\<close> is a \<^typ>\<open>64 word\<close> read with \<^const>\<open>sint\<close>, so the casts
  \<open>as i64\<close> of the source are the identity on the word.
\<close>

section \<open>Peer credit\<close>

definition MAX_SPONSORED_SEEDS :: nat where "MAX_SPONSORED_SEEDS = 5"
definition PREPAY_RATE_LIMIT_SECS :: u64 where "PREPAY_RATE_LIMIT_SECS = 3600"
definition RECONCILE_FUTURE_SKEW_SECS :: u64 where "RECONCILE_FUTURE_SKEW_SECS = 300"
definition MAX_ACCOUNTING_BYTES :: u64 where "MAX_ACCOUNTING_BYTES = 2 ^ 60"
definition MAX_PREPAY_ATTEMPTS :: nat where "MAX_PREPAY_ATTEMPTS = 1024"

record PeerCredit =
  bytes_served :: u64
  bytes_received :: u64
  net_credit :: i64
  last_interaction :: u64
  successful_challenges :: u32
  failed_challenges :: u32
  prepaid_bytes :: u64

definition PeerCredit_new :: PeerCredit where
  "PeerCredit_new = \<lparr>bytes_served = 0, bytes_received = 0, net_credit = 0, last_interaction = 0,
     successful_challenges = 0, failed_challenges = 0, prepaid_bytes = 0\<rparr>"

definition ratio :: "PeerCredit \<Rightarrow> f64" where
  "ratio c =
     (if bytes_received c = 0 then INFINITY
      else Fin (f64_div (f64_of_nat (unat (bytes_served c))) (f64_of_nat (unat (bytes_received c)))))"

definition has_credit :: "PeerCredit \<Rightarrow> u64 \<Rightarrow> bool" where
  "has_credit c needed \<longleftrightarrow> sint needed \<le> sint (net_credit c)"

definition credit_record_served :: "u64 \<Rightarrow> u64 \<Rightarrow> PeerCredit \<Rightarrow> PeerCredit" where
  "credit_record_served bytes timestamp c =
     c\<lparr>bytes_served := bytes_served c + bytes, net_credit := net_credit c + bytes, last_interaction := timestamp\<rparr>"

definition credit_record_received :: "u64 \<Rightarrow> u64 \<Rightarrow> PeerCredit \<Rightarrow> PeerCredit" where
  "credit_record_received bytes timestamp c =
     c\<lparr>bytes_received := bytes_received c + bytes, net_credit := net_credit c - bytes, last_interaction := timestamp\<rparr>"

definition credit_challenge_success :: "u64 \<Rightarrow> PeerCredit \<Rightarrow> PeerCredit" where
  "credit_challenge_success timestamp c =
     c\<lparr>successful_challenges := successful_challenges c + 1, last_interaction := timestamp\<rparr>"

definition credit_challenge_failure :: "u64 \<Rightarrow> PeerCredit \<Rightarrow> PeerCredit" where
  "credit_challenge_failure timestamp c =
     c\<lparr>failed_challenges := failed_challenges c + 1, last_interaction := timestamp\<rparr>"

definition challenge_success_rate :: "PeerCredit \<Rightarrow> rat" where
  "challenge_success_rate c =
     (let total_challenges = successful_challenges c + failed_challenges c
      in if total_challenges = 0 then 1
         else f64_div (f64_of_nat (unat (successful_challenges c))) (f64_of_nat (unat total_challenges)))"

definition has_prepaid :: "PeerCredit \<Rightarrow> u64 \<Rightarrow> bool" where
  "has_prepaid c needed \<longleftrightarrow> needed \<le> prepaid_bytes c"

definition effective_credit :: "PeerCredit \<Rightarrow> i64" where
  "effective_credit c = net_credit c + prepaid_bytes c"

section \<open>Accounting state\<close>

record SponsoredSeedInfo =
  seed_node_id :: NodeId
  content_ids :: "bytes list"
  total_prepaid :: u64
  heartbeats_received :: u64
  prepayment_renewals :: u32
  rate_violations :: u32
  last_seen :: u64
  misbehaving :: bool

definition SponsoredSeedInfo_new :: "NodeId \<Rightarrow> bytes \<Rightarrow> u64 \<Rightarrow> u64 \<Rightarrow> SponsoredSeedInfo" where
  "SponsoredSeedInfo_new node_id content_id prepaid now =
     \<lparr>seed_node_id = node_id, content_ids = [content_id], total_prepaid = prepaid, heartbeats_received = 0,
      prepayment_renewals = 0, rate_violations = 0, last_seen = now, misbehaving = False\<rparr>"

record AccountingState =
  total_bytes_served :: u64
  total_bytes_received :: u64
  peers :: "(NodeId, PeerCredit) hashmap"
  min_ratio :: f64
  initial_credit :: u64
  sponsored_seeds :: "(NodeId, SponsoredSeedInfo) hashmap"
  prepayment_attempts :: "(NodeId \<times> bytes, u64) hashmap"
  peer_sync_times :: "(NodeId, u64) hashmap"

definition AccountingState_new :: AccountingState where
  "AccountingState_new =
     \<lparr>total_bytes_served = 0, total_bytes_received = 0, peers = [], min_ratio = Fin (1 / 2),
      initial_credit = 1024 * 1024, sponsored_seeds = [], prepayment_attempts = [], peer_sync_times = []\<rparr>"

text \<open>
  \<open>get_or_create_peer\<close> inserts the default entry; its callers then update the entry through the
  returned reference.
\<close>

definition get_or_create_peer :: "NodeId \<Rightarrow> AccountingState \<Rightarrow> AccountingState" where
  "get_or_create_peer peer s =
     (if hm_contains (peers s) peer then s else s\<lparr>peers := hm_insert peer PeerCredit_new (peers s)\<rparr>)"

definition update_peer :: "NodeId \<Rightarrow> (PeerCredit \<Rightarrow> PeerCredit) \<Rightarrow> AccountingState \<Rightarrow> AccountingState" where
  "update_peer peer f s = (let s = get_or_create_peer peer s in s\<lparr>peers := hm_modify peer f (peers s)\<rparr>)"

definition record_served :: "u64 \<Rightarrow> NodeId \<Rightarrow> u64 \<Rightarrow> AccountingState \<Rightarrow> AccountingState" where
  "record_served now peer bytes s =
     update_peer peer (credit_record_served bytes now) (s\<lparr>total_bytes_served := total_bytes_served s + bytes\<rparr>)"

definition record_received :: "u64 \<Rightarrow> NodeId \<Rightarrow> u64 \<Rightarrow> AccountingState \<Rightarrow> AccountingState" where
  "record_received now peer bytes s =
     update_peer peer (credit_record_received bytes now) (s\<lparr>total_bytes_received := total_bytes_received s + bytes\<rparr>)"

definition record_challenge_success :: "u64 \<Rightarrow> NodeId \<Rightarrow> AccountingState \<Rightarrow> AccountingState" where
  "record_challenge_success now peer s = update_peer peer (credit_challenge_success now) s"

definition record_challenge_failure :: "u64 \<Rightarrow> NodeId \<Rightarrow> AccountingState \<Rightarrow> AccountingState" where
  "record_challenge_failure now peer s = update_peer peer (credit_challenge_failure now) s"

definition record_prepayment :: "NodeId \<Rightarrow> u64 \<Rightarrow> AccountingState \<Rightarrow> AccountingState" where
  "record_prepayment peer bytes s = update_peer peer (\<lambda>c. c\<lparr>prepaid_bytes := prepaid_bytes c + bytes\<rparr>) s"

definition total_prepaid_bytes :: "AccountingState \<Rightarrow> u64" where
  "total_prepaid_bytes s = sum_list (map prepaid_bytes (hm_values (peers s)))"

definition effective_bytes_served :: "AccountingState \<Rightarrow> u64" where
  "effective_bytes_served s = saturating_add (total_bytes_served s) (total_prepaid_bytes s)"

definition has_excess_capacity :: "AccountingState \<Rightarrow> u64 \<Rightarrow> bool" where
  "has_excess_capacity s threshold \<longleftrightarrow> sint threshold < sint (total_bytes_served s - total_bytes_received s)"

definition check_prepay_rate_limit :: "AccountingState \<Rightarrow> NodeId \<Rightarrow> bytes \<Rightarrow> u64 \<Rightarrow> bool" where
  "check_prepay_rate_limit s seed content_id now =
     (case hm_get (prepayment_attempts s) (seed, content_id) of
        None \<Rightarrow> True
      | Some prev \<Rightarrow> PREPAY_RATE_LIMIT_SECS \<le> saturating_sub now prev)"

definition record_prepay_attempt :: "NodeId \<Rightarrow> bytes \<Rightarrow> u64 \<Rightarrow> AccountingState \<Rightarrow> AccountingState" where
  "record_prepay_attempt seed content_id now s =
     (let m = hm_retain (\<lambda>_ ts. saturating_sub now ts \<le> 86400) (prepayment_attempts s);
          m = hm_make_room MAX_PREPAY_ATTEMPTS m
      in s\<lparr>prepayment_attempts := hm_insert (seed, content_id) now m\<rparr>)"

datatype SponsorError = AtCapacity | RateLimited | InsufficientStake | Misbehaving

definition sponsor_seed_count :: "AccountingState \<Rightarrow> nat" where
  "sponsor_seed_count s = length (filter (\<lambda>i. \<not> misbehaving i) (hm_values (sponsored_seeds s)))"

definition can_sponsor :: "AccountingState \<Rightarrow> bool" where
  "can_sponsor s \<longleftrightarrow> sponsor_seed_count s < MAX_SPONSORED_SEEDS"

definition is_sponsored :: "AccountingState \<Rightarrow> NodeId \<Rightarrow> bool" where
  "is_sponsored s seed = hm_contains (sponsored_seeds s) seed"

definition register_sponsored_seed ::
    "NodeId \<Rightarrow> bytes \<Rightarrow> u64 \<Rightarrow> u64 \<Rightarrow> AccountingState \<Rightarrow> (SponsorError + unit) \<times> AccountingState" where
  "register_sponsored_seed seed content_id prepaid now s =
     (if hm_contains (sponsored_seeds s) seed then
        (Inr (), s\<lparr>sponsored_seeds := hm_modify seed (\<lambda>info.
           info\<lparr>content_ids := (if content_id \<in> set (content_ids info) then content_ids info
                                else content_ids info @ [content_id]),
                total_prepaid := total_prepaid info + prepaid,
                prepayment_renewals := prepayment_renewals info + 1,
                last_seen := now\<rparr>) (sponsored_seeds s)\<rparr>)
      else if \<not> can_sponsor s then (Inl AtCapacity, s)
      else (Inr (), s\<lparr>sponsored_seeds :=
              hm_insert seed (SponsoredSeedInfo_new seed content_id prepaid now) (sponsored_seeds s)\<rparr>))"

definition record_seed_heartbeat :: "NodeId \<Rightarrow> u64 \<Rightarrow> AccountingState \<Rightarrow> AccountingState" where
  "record_seed_heartbeat seed now s = s\<lparr>sponsored_seeds := hm_modify seed (\<lambda>info.
     info\<lparr>heartbeats_received := heartbeats_received info + 1, last_seen := now\<rparr>) (sponsored_seeds s)\<rparr>"

definition record_seed_violation :: "NodeId \<Rightarrow> AccountingState \<Rightarrow> AccountingState" where
  "record_seed_violation seed s = s\<lparr>sponsored_seeds := hm_modify seed (\<lambda>info.
     let info = info\<lparr>rate_violations := rate_violations info + 1\<rparr>
     in if 3 \<le> rate_violations info then info\<lparr>misbehaving := True\<rparr> else info) (sponsored_seeds s)\<rparr>"

definition is_seed_misbehaving :: "AccountingState \<Rightarrow> NodeId \<Rightarrow> bool" where
  "is_seed_misbehaving s seed = (case hm_get (sponsored_seeds s) seed of Some i \<Rightarrow> misbehaving i | None \<Rightarrow> False)"

definition is_seed_healthy :: "AccountingState \<Rightarrow> NodeId \<Rightarrow> bool" where
  "is_seed_healthy s seed = (case hm_get (sponsored_seeds s) seed of Some i \<Rightarrow> \<not> misbehaving i | None \<Rightarrow> False)"

section \<open>Service decisions\<close>

definition should_serve :: "AccountingState \<Rightarrow> NodeId \<Rightarrow> u64 \<Rightarrow> bool" where
  "should_serve s peer requested_bytes =
     (case hm_get (peers s) peer of
        None \<Rightarrow> requested_bytes \<le> initial_credit s
      | Some c \<Rightarrow>
          let total_challenges = successful_challenges c + failed_challenges c in
          if 10 < total_challenges \<and> challenge_success_rate c < 1 / 2 then False
          else
            let goodwill = (bytes_served c = 0 \<and>
                  saturating_add (bytes_received c) requested_bytes
                    \<le> saturating_add (initial_credit s) (prepaid_bytes c));
                credit_ok = (has_credit c requested_bytes \<or> has_prepaid c requested_bytes
                  \<or> 0 < sint (effective_credit c) \<or> goodwill);
                ratio_ok = (min_ratio s \<le> ratio c \<or> goodwill)
            in credit_ok \<and> ratio_ok)"

definition overall_ratio :: "AccountingState \<Rightarrow> f64" where
  "overall_ratio s =
     (if total_bytes_received s = 0 then INFINITY
      else Fin (f64_div (f64_of_nat (unat (total_bytes_served s))) (f64_of_nat (unat (total_bytes_received s)))))"

text \<open>\<open>sort_by(|a, b| key(b).cmp(key(a)))\<close>: a stable descending sort.\<close>

definition sort_desc :: "('a \<Rightarrow> 'b::linorder) \<Rightarrow> 'a list \<Rightarrow> 'a list" where
  "sort_desc key xs = rev (sort_key key (rev xs))"

definition peers_by_credit :: "AccountingState \<Rightarrow> (NodeId \<times> PeerCredit) list" where
  "peers_by_credit s = sort_desc (\<lambda>(_, c). sint (net_credit c)) (peers s)"

definition peers_by_ratio :: "AccountingState \<Rightarrow> (NodeId \<times> PeerCredit) list" where
  "peers_by_ratio s = sort_desc (\<lambda>(_, c). ratio c) (peers s)"

definition prune_inactive_peers :: "u64 \<Rightarrow> u64 \<Rightarrow> AccountingState \<Rightarrow> AccountingState" where
  "prune_inactive_peers now max_age_secs s =
     s\<lparr>peers := hm_retain (\<lambda>_ c. now - last_interaction c < max_age_secs) (peers s)\<rparr>"

definition prune_inactive_peers_with_grace :: "u64 \<Rightarrow> u64 \<Rightarrow> u64 \<Rightarrow> u64 \<Rightarrow> AccountingState \<Rightarrow> AccountingState" where
  "prune_inactive_peers_with_grace now max_age_secs partition_threshold_secs grace_secs s =
     s\<lparr>peers := hm_retain (\<lambda>_ c.
        let age = saturating_sub now (last_interaction c)
        in if partition_threshold_secs < age then age < saturating_add max_age_secs grace_secs
           else age < max_age_secs) (peers s)\<rparr>"

definition export_for_reconciliation :: "AccountingState \<Rightarrow> (NodeId \<times> PeerCredit) list" where
  "export_for_reconciliation s = peers s"

definition export_reconciliation_delta :: "AccountingState \<Rightarrow> u64 \<Rightarrow> (NodeId \<times> PeerCredit) list" where
  "export_reconciliation_delta s last_sync = filter (\<lambda>(_, c). last_sync \<le> last_interaction c) (peers s)"

definition mark_reconciled :: "NodeId \<Rightarrow> u64 \<Rightarrow> AccountingState \<Rightarrow> AccountingState" where
  "mark_reconciled peer now s = s\<lparr>peer_sync_times := hm_insert peer now (peer_sync_times s)\<rparr>"

definition last_sync_time :: "AccountingState \<Rightarrow> NodeId \<Rightarrow> u64" where
  "last_sync_time s peer = (case hm_get (peer_sync_times s) peer of Some t \<Rightarrow> t | None \<Rightarrow> 0)"

definition reconcile_entry :: "u64 \<Rightarrow> AccountingState \<Rightarrow> NodeId \<times> PeerCredit \<Rightarrow> AccountingState" where
  "reconcile_entry future_bound s e =
     (case e of (peer_id, remote) \<Rightarrow>
       if future_bound < last_interaction remote then s
       else if MAX_ACCOUNTING_BYTES < bytes_served remote \<or> MAX_ACCOUNTING_BYTES < bytes_received remote
               \<or> MAX_ACCOUNTING_BYTES < prepaid_bytes remote then s
       else case hm_get (peers s) peer_id of
              Some ours \<Rightarrow>
                if last_interaction ours < last_interaction remote then
                  s\<lparr>peers := hm_modify peer_id (\<lambda>ours. ours\<lparr>
                      bytes_served := bytes_served remote,
                      bytes_received := bytes_received remote,
                      net_credit := net_credit remote,
                      prepaid_bytes := prepaid_bytes remote,
                      successful_challenges := successful_challenges remote,
                      failed_challenges := failed_challenges remote,
                      last_interaction := last_interaction remote\<rparr>) (peers s)\<rparr>
                else s
            | None \<Rightarrow> s\<lparr>peers := hm_insert peer_id remote (peers s)\<rparr>)"

definition reconcile :: "u64 \<Rightarrow> (NodeId \<times> PeerCredit) list \<Rightarrow> AccountingState \<Rightarrow> AccountingState" where
  "reconcile now incoming s = foldl (reconcile_entry (saturating_add now RECONCILE_FUTURE_SKEW_SECS)) s incoming"

definition was_partitioned :: "AccountingState \<Rightarrow> NodeId \<Rightarrow> u64 \<Rightarrow> u64 \<Rightarrow> bool" where
  "was_partitioned s peer partition_threshold_secs current_time =
     (case hm_get (peers s) peer of
        Some c \<Rightarrow> partition_threshold_secs < saturating_sub current_time (last_interaction c)
      | None \<Rightarrow> False)"

section \<open>Proof of Space-Time\<close>

record Challenge =
  chal_chunk_id :: ChunkId
  chal_nonce :: bytes
  issued_at :: u64
  deadline :: u64
  challenger :: NodeId

record ChallengeProof =
  challenge :: Challenge
  proof_hash :: bytes

datatype AccountingError = ChallengeExpired | ProofFailed | PeerNotFound

definition create_challenge :: "bytes \<Rightarrow> u64 \<Rightarrow> ChunkId \<Rightarrow> NodeId \<Rightarrow> u64 \<Rightarrow> Challenge" where
  "create_challenge nonce now chunk challenger_id duration_secs =
     \<lparr>chal_chunk_id = chunk, chal_nonce = nonce, issued_at = now, deadline = now + duration_secs,
      challenger = challenger_id\<rparr>"

definition create_proof :: "(bytes \<Rightarrow> bytes) \<Rightarrow> Challenge \<Rightarrow> bytes \<Rightarrow> ChallengeProof" where
  "create_proof blake3 ch chunk_data =
     \<lparr>challenge = ch, proof_hash = blake3 (chunk_data @ chal_nonce ch @ ascii_bytes ''space_time_proof'')\<rparr>"

definition verify_proof :: "(bytes \<Rightarrow> bytes) \<Rightarrow> ChallengeProof \<Rightarrow> bytes \<Rightarrow> u64 \<Rightarrow> AccountingError + unit" where
  "verify_proof blake3 p chunk_data current_time =
     (if deadline (challenge p) < current_time then Inl ChallengeExpired
      else if proof_hash p \<noteq> blake3 (chunk_data @ chal_nonce (challenge p) @ ascii_bytes ''space_time_proof'')
      then Inl ProofFailed
      else Inr ())"

definition verify_proof_deadline :: "ChallengeProof \<Rightarrow> u64 \<Rightarrow> AccountingError + unit" where
  "verify_proof_deadline p current_time =
     (if deadline (challenge p) < current_time then Inl ChallengeExpired else Inr ())"

section \<open>Tit for tat\<close>

definition tit_for_tat_decision :: "AccountingState \<Rightarrow> NodeId \<Rightarrow> u64 \<Rightarrow> rat \<Rightarrow> bool" where
  "tit_for_tat_decision s peer requested_bytes min_rate =
     (if \<not> should_serve s peer requested_bytes then False
      else case hm_get (peers s) peer of
             Some c \<Rightarrow> \<not> challenge_success_rate c < min_rate
           | None \<Rightarrow> True)"

definition priority_score :: "u64 \<Rightarrow> PeerCredit \<Rightarrow> rat" where
  "priority_score now c =
     (let credit_score = min (max (f64_div (f64_round (of_int (sint (net_credit c)))) (100 * 1024 * 1024)) (- 1)) 1;
          score = f64_round (0 + f64_round (credit_score * (1 / 2)));
          score = f64_round (score + f64_round (challenge_success_rate c * f64_round (3 / 10)));
          age = saturating_sub now (last_interaction c)
      in if age < 3600
         then f64_round (score + f64_round (f64_round (2 / 10) * f64_round (1 - f64_div (f64_of_nat (unat age)) 3600)))
         else score)"

definition prioritize_peers :: "u64 \<Rightarrow> AccountingState \<Rightarrow> (NodeId \<times> rat) list" where
  "prioritize_peers now s = sort_desc snd (map (\<lambda>(peer, c). (peer, priority_score now c)) (peers s))"


section \<open>The ledger\<close>

text \<open>
  The abstract contract of the bookkeeping: a history of events, and for each peer the exact
  (unbounded) sums of what was served, received and prepaid, and the exact challenge counts.
\<close>

datatype acct_event =
    Served u64 NodeId u64
  | Received u64 NodeId u64
  | ChallengePassed u64 NodeId
  | ChallengeMissed u64 NodeId
  | Prepaid NodeId u64

fun event_peer :: "acct_event \<Rightarrow> NodeId" where
  "event_peer (Served _ p _) = p"
| "event_peer (Received _ p _) = p"
| "event_peer (ChallengePassed _ p) = p"
| "event_peer (ChallengeMissed _ p) = p"
| "event_peer (Prepaid p _) = p"

fun acct_apply :: "AccountingState \<Rightarrow> acct_event \<Rightarrow> AccountingState" where
  "acct_apply s (Served t p n) = record_served t p n s"
| "acct_apply s (Received t p n) = record_received t p n s"
| "acct_apply s (ChallengePassed t p) = record_challenge_success t p s"
| "acct_apply s (ChallengeMissed t p) = record_challenge_failure t p s"
| "acct_apply s (Prepaid p n) = record_prepayment p n s"

abbreviation acct_run :: "acct_event list \<Rightarrow> AccountingState" where
  "acct_run es \<equiv> foldl acct_apply AccountingState_new es"

fun served_amount :: "acct_event \<Rightarrow> nat" where
  "served_amount (Served _ _ n) = unat n"
| "served_amount _ = 0"

fun received_amount :: "acct_event \<Rightarrow> nat" where
  "received_amount (Received _ _ n) = unat n"
| "received_amount _ = 0"

fun prepaid_amount :: "acct_event \<Rightarrow> nat" where
  "prepaid_amount (Prepaid _ n) = unat n"
| "prepaid_amount _ = 0"

fun passed_amount :: "acct_event \<Rightarrow> nat" where
  "passed_amount (ChallengePassed _ _) = 1"
| "passed_amount _ = 0"

fun missed_amount :: "acct_event \<Rightarrow> nat" where
  "missed_amount (ChallengeMissed _ _) = 1"
| "missed_amount _ = 0"

definition ledger_total :: "(acct_event \<Rightarrow> nat) \<Rightarrow> acct_event list \<Rightarrow> nat" where
  "ledger_total f es = sum_list (map f es)"

definition ledger_peer :: "(acct_event \<Rightarrow> nat) \<Rightarrow> NodeId \<Rightarrow> acct_event list \<Rightarrow> nat" where
  "ledger_peer f p es = ledger_total f (filter (\<lambda>e. event_peer e = p) es)"

lemma ledger_snoc [simp]:
  "ledger_total f (es @ [e]) = ledger_total f es + f e"
  "ledger_peer f p (es @ [e]) = ledger_peer f p es + (if event_peer e = p then f e else 0)"
  "ledger_total f [] = 0"
  "ledger_peer f p [] = 0"
  by (simp_all add: ledger_total_def ledger_peer_def)

lemma ledger_peer_le: "ledger_peer f p es \<le> ledger_total f es"
  unfolding ledger_peer_def ledger_total_def
  by (induction es) (auto intro: trans_le_add2)

lemma peers_update_peer [simp]:
  "hm_get (peers (update_peer p f s)) q =
     (if q = p then Some (f (case hm_get (peers s) p of None \<Rightarrow> PeerCredit_new | Some c \<Rightarrow> c))
      else hm_get (peers s) q)"
  by (auto simp: update_peer_def get_or_create_peer_def Let_def hm_contains_def split: option.splits)

lemma update_peer_frame [simp]:
  "total_bytes_served (update_peer p f s) = total_bytes_served s"
  "total_bytes_received (update_peer p f s) = total_bytes_received s"
  "sponsored_seeds (update_peer p f s) = sponsored_seeds s"
  "min_ratio (update_peer p f s) = min_ratio s"
  "initial_credit (update_peer p f s) = initial_credit s"
  by (simp_all add: update_peer_def get_or_create_peer_def Let_def)

lemmas credit_defs = credit_record_served_def credit_record_received_def credit_challenge_success_def
  credit_challenge_failure_def PeerCredit_new_def
lemmas record_defs = record_served_def record_received_def record_challenge_success_def
  record_challenge_failure_def record_prepayment_def

text \<open>
  The concrete counters are the ledger's sums as machine words, and the net credit is the
  difference of the two counters, whatever the amounts: this needs no bound.
\<close>

definition credit_matches :: "NodeId \<Rightarrow> acct_event list \<Rightarrow> PeerCredit \<Rightarrow> bool" where
  "credit_matches p es c \<longleftrightarrow>
     bytes_served c = word_of_nat (ledger_peer served_amount p es) \<and>
     bytes_received c = word_of_nat (ledger_peer received_amount p es) \<and>
     net_credit c = bytes_served c - bytes_received c \<and>
     prepaid_bytes c = word_of_nat (ledger_peer prepaid_amount p es) \<and>
     successful_challenges c = word_of_nat (ledger_peer passed_amount p es) \<and>
     failed_challenges c = word_of_nat (ledger_peer missed_amount p es)"

lemma credit_matches_new:
  assumes "p \<notin> event_peer ` set es"
  shows "credit_matches p es PeerCredit_new"
proof -
  have "filter (\<lambda>e. event_peer e = p) es = []" using assms by (auto simp: filter_empty_conv)
  then show ?thesis by (simp add: credit_matches_def PeerCredit_new_def ledger_peer_def)
qed

lemma acct_run_peers:
  "(case hm_get (peers (acct_run es)) p of
      None \<Rightarrow> p \<notin> event_peer ` set es
    | Some c \<Rightarrow> p \<in> event_peer ` set es \<and> credit_matches p es c)"
proof (induction es rule: rev_induct)
  case Nil
  then show ?case by (simp add: AccountingState_new_def)
next
  case (snoc e es)
  show ?case
  proof (cases "event_peer e = p")
    case True
    define c where "c = (case hm_get (peers (acct_run es)) p of None \<Rightarrow> PeerCredit_new | Some c \<Rightarrow> c)"
    have "credit_matches p es c"
      using snoc credit_matches_new [of p es] by (simp add: c_def split: option.splits)
    with True show ?thesis
      by (cases e) (simp_all add: record_defs credit_matches_def credit_defs flip: c_def)
  next
    case False
    have "hm_get (peers (acct_run (es @ [e]))) p = hm_get (peers (acct_run es)) p"
      using False by (cases e) (auto simp: record_defs)
    with snoc False show ?thesis
      by (simp add: credit_matches_def split: option.splits)
  qed
qed

lemma acct_run_totals:
  "total_bytes_served (acct_run es) = word_of_nat (ledger_total served_amount es)"
  "total_bytes_received (acct_run es) = word_of_nat (ledger_total received_amount es)"
proof (induction es rule: rev_induct)
  case (snoc e es)
  { case 1 show ?case using snoc by (cases e) (simp_all add: record_defs) }
  { case 2 show ?case using snoc by (cases e) (simp_all add: record_defs) }
qed (simp_all add: AccountingState_new_def)

lemma sint_small:
  assumes "unat (a :: 64 word) < 2 ^ 63"
  shows "sint a = int (unat a)"
proof -
  have "int (unat a) < int (2 ^ 63)" using assms by (simp only: of_nat_less_iff)
  then have "- (2 ^ 63) \<le> int (unat a)" "int (unat a) < 2 ^ 63" by (simp_all only: of_nat_power of_nat_numeral)
  then have "signed_take_bit 63 (int (unat a)) = int (unat a)" by (rule signed_take_bit_int_eq_self)
  then show ?thesis by (simp add: sint_uint)
qed

lemma sint_diff_small:
  assumes "unat (a :: 64 word) < 2 ^ 63" and "unat b < 2 ^ 63"
  shows "sint (a - b) = int (unat a) - int (unat b)"
proof -
  have u: "int (unat a) < int (2 ^ 63)" "int (unat b) < int (2 ^ 63)"
    using assms by (simp_all only: of_nat_less_iff)
  have p: "int (2 ^ 63) = 2 ^ 63" "(0 :: int) \<le> 2 ^ 63" by simp_all
  have "sint (a - b) = signed_take_bit 63 (sint a - sint b)"
    by (simp add: sint_word_ariths)
  also have "\<dots> = signed_take_bit 63 (int (unat a) - int (unat b))"
    by (simp only: sint_small [OF assms(1)] sint_small [OF assms(2)])
  also have "\<dots> = int (unat a) - int (unat b)"
    using u of_nat_0_le_iff [of "unat a", where ?'a = int] of_nat_0_le_iff [of "unat b", where ?'a = int] p
    by (intro signed_take_bit_int_eq_self) linarith+
  finally show ?thesis .
qed


section \<open>Gates in exact arithmetic\<close>

lemma challenge_gate:
  assumes "unat (successful_challenges c) + unat (failed_challenges c) < 2 ^ 32"
  shows "10 < successful_challenges c + failed_challenges c \<and> challenge_success_rate c < 1 / 2 \<longleftrightarrow>
    10 < unat (successful_challenges c) + unat (failed_challenges c) \<and>
    unat (successful_challenges c) < unat (failed_challenges c)"
proof -
  let ?s = "unat (successful_challenges c)" and ?f = "unat (failed_challenges c)"
  have t: "unat (successful_challenges c + failed_challenges c) = ?s + ?f"
    using assms by (intro unat_add_no_wrap) simp
  then have gt: "10 < successful_challenges c + failed_challenges c \<longleftrightarrow> 10 < ?s + ?f"
    by (simp add: word_less_nat_alt)
  have "challenge_success_rate c < 1 / 2 \<longleftrightarrow> ?s < ?f" if "10 < ?s + ?f"
  proof -
    have nz: "successful_challenges c + failed_challenges c \<noteq> 0" using that gt by auto
    have "1 / 2 \<le> f64_div (f64_of_nat ?s) (f64_of_nat (?s + ?f)) \<longleftrightarrow> ?s + ?f \<le> 2 * ?s"
      using assms by (intro f64_div_ge_half [OF _ _ order.strict_trans2 [OF _ less_imp_le [OF that]]]) simp_all
    with nz show ?thesis unfolding challenge_success_rate_def Let_def t by auto
  qed
  with gt show ?thesis by blast
qed

lemma ratio_gate:
  assumes "unat (bytes_served c) < 2 ^ 53" and "unat (bytes_received c) < 2 ^ 53"
  shows "Fin (1 / 2) \<le> ratio c \<longleftrightarrow> unat (bytes_received c) \<le> 2 * unat (bytes_served c)"
proof (cases "bytes_received c = 0")
  case False
  then have "0 < unat (bytes_received c)" by (simp add: unat_gt_0)
  then show ?thesis
    using f64_div_ge_half [OF assms] False by (simp only: ratio_def if_False less_eq_f64.simps)
qed (simp add: ratio_def)

lemma effective_credit_sint:
  assumes "unat (bytes_served c) < 2 ^ 53" and "unat (bytes_received c) < 2 ^ 53"
    and "unat (prepaid_bytes c) < 2 ^ 53" and "net_credit c = bytes_served c - bytes_received c"
  shows "sint (effective_credit c) =
    int (unat (bytes_served c)) + int (unat (prepaid_bytes c)) - int (unat (bytes_received c))"
proof -
  have u: "unat (bytes_served c + prepaid_bytes c) = unat (bytes_served c) + unat (prepaid_bytes c)"
    using assms(1,3) by (intro unat_add_no_wrap) simp
  have "effective_credit c = (bytes_served c + prepaid_bytes c) - bytes_received c"
    by (simp add: effective_credit_def assms(4))
  also have "sint \<dots> = int (unat (bytes_served c + prepaid_bytes c)) - int (unat (bytes_received c))"
    using assms(1-3) u by (intro sint_diff_small) simp_all
  finally show ?thesis by (simp add: u)
qed

lemma goodwill_gate:
  assumes "unat a < 2 ^ 53" "unat r < 2 ^ 53" "unat i < 2 ^ 53" "unat p < 2 ^ 53"
  shows "saturating_add a r \<le> saturating_add i (p :: u64) \<longleftrightarrow> unat a + unat r \<le> unat i + unat p"
  using assms by (simp add: word_le_nat_alt unat_saturating_add)

section \<open>Reconciliation\<close>

definition entry_valid :: "u64 \<Rightarrow> PeerCredit \<Rightarrow> bool" where
  "entry_valid future_bound c \<longleftrightarrow> last_interaction c \<le> future_bound \<and> bytes_served c \<le> MAX_ACCOUNTING_BYTES \<and>
     bytes_received c \<le> MAX_ACCOUNTING_BYTES \<and> prepaid_bytes c \<le> MAX_ACCOUNTING_BYTES"

text \<open>Last writer wins, on one entry.\<close>

definition lww :: "u64 \<Rightarrow> PeerCredit option \<Rightarrow> PeerCredit option \<Rightarrow> PeerCredit option" where
  "lww fb ours remote = (case remote of
       None \<Rightarrow> ours
     | Some r \<Rightarrow> if \<not> entry_valid fb r then ours
         else (case ours of None \<Rightarrow> Some r | Some c \<Rightarrow> if last_interaction c < last_interaction r then Some r else Some c))"

lemma reconcile_entry_get:
  "hm_get (peers (reconcile_entry fb s (p, r))) q =
     (if q = p then lww fb (hm_get (peers s) p) (Some r) else hm_get (peers s) q)"
  by (auto simp: reconcile_entry_def lww_def entry_valid_def not_less split: option.splits)

lemma reconcile_get:
  "hm_wf incoming \<Longrightarrow>
     hm_get (peers (foldl (reconcile_entry fb) s incoming)) p = lww fb (hm_get (peers s) p) (hm_get incoming p)"
proof (induction incoming arbitrary: s)
  case (Cons e incoming)
  obtain q r where e: "e = (q, r)" by (cases e)
  have wf: "hm_wf incoming" using Cons.prems by (simp add: hm_wf_def)
  have q: "hm_get incoming q = None"
    using Cons.prems by (auto simp: e hm_wf_def hm_get_def map_of_eq_None_iff)
  have none: "lww fb x None = x" for x by (simp add: lww_def)
  show ?case
    using Cons.IH [OF wf, of "reconcile_entry fb s e"] q
    by (auto simp: e reconcile_entry_get none)
qed (simp add: lww_def)

lemma reconcile_entry_id:
  assumes "hm_get (peers s) p = Some c" and "entry_valid fb r \<Longrightarrow> last_interaction r \<le> last_interaction c"
  shows "reconcile_entry fb s (p, r) = s"
  using assms by (auto simp: reconcile_entry_def entry_valid_def not_less not_le)

lemma reconcile_entry_invalid: "\<not> entry_valid fb r \<Longrightarrow> reconcile_entry fb s (p, r) = s"
  by (auto simp: reconcile_entry_def entry_valid_def not_le)

text \<open>\<open>covered s e\<close>: the entry \<open>e\<close> cannot change \<open>s\<close> any more. Processing an entry covers it and
  uncovers nothing.\<close>

definition covered :: "u64 \<Rightarrow> AccountingState \<Rightarrow> NodeId \<times> PeerCredit \<Rightarrow> bool" where
  "covered fb s e \<longleftrightarrow> entry_valid fb (snd e) \<longrightarrow>
     (\<exists>c. hm_get (peers s) (fst e) = Some c \<and> last_interaction (snd e) \<le> last_interaction c)"

lemma covered_id: "covered fb s e \<Longrightarrow> reconcile_entry fb s e = s"
  using reconcile_entry_id reconcile_entry_invalid by (cases e) (fastforce simp: covered_def)

lemma covered_step: "covered fb s e \<Longrightarrow> covered fb (reconcile_entry fb s d) e"
  by (cases e; cases d) (auto simp: covered_def reconcile_entry_get lww_def split: option.splits)

lemma covered_self: "covered fb (reconcile_entry fb s e) e"
  by (cases e) (auto simp: covered_def reconcile_entry_get lww_def split: option.splits)

lemma covered_fold: "covered fb s e \<Longrightarrow> covered fb (foldl (reconcile_entry fb) s es) e"
  by (induction es arbitrary: s) (simp_all add: covered_step)

lemma covered_all: "e \<in> set es \<Longrightarrow> covered fb (foldl (reconcile_entry fb) s es) e"
proof (induction es arbitrary: s)
  case (Cons d es)
  then show ?case
    using covered_fold [OF covered_self, of fb s d es] by auto
qed simp

lemma fold_covered_id: "\<forall>e \<in> set es. covered fb s e \<Longrightarrow> foldl (reconcile_entry fb) s es = s"
  by (induction es) (simp_all add: covered_id)

section \<open>Sponsored seeds\<close>

lemma filter_values_modify_le:
  assumes "\<And>v. P (f v) \<Longrightarrow> P v"
  shows "length (filter P (hm_values (hm_modify k f m))) \<le> length (filter P (hm_values m))"
proof (induction m)
  case (Cons e m)
  then show ?case
    using assms by (cases e) (auto simp: hm_values_def hm_modify_def)
qed (simp add: hm_values_def hm_modify_def)

lemma filter_values_insert_le:
  "length (filter P (hm_values (hm_insert k v m))) \<le> Suc (length (filter P (hm_values m)))"
  by (induction m) (auto simp: hm_values_def hm_insert_def)

text \<open>The operations that touch the sponsored seeds, in any order.\<close>

inductive sponsor_reachable :: "AccountingState \<Rightarrow> bool" where
  start: "sponsor_reachable AccountingState_new"
| register: "sponsor_reachable s \<Longrightarrow> sponsor_reachable (snd (register_sponsored_seed seed cid n now s))"
| heartbeat: "sponsor_reachable s \<Longrightarrow> sponsor_reachable (record_seed_heartbeat seed now s)"
| violation: "sponsor_reachable s \<Longrightarrow> sponsor_reachable (record_seed_violation seed s)"
| event: "sponsor_reachable s \<Longrightarrow> sponsor_reachable (acct_apply s e)"

lemma acct_apply_seeds [simp]: "sponsored_seeds (acct_apply s e) = sponsored_seeds s"
  by (cases e) (simp_all add: record_defs)

lemma sponsor_count_register:
  "sponsor_seed_count s \<le> 5 \<Longrightarrow> sponsor_seed_count (snd (register_sponsored_seed seed cid n now s)) \<le> 5"
  using filter_values_insert_le [of "\<lambda>i. \<not> misbehaving i" seed "SponsoredSeedInfo_new seed cid n now" "sponsored_seeds s"]
  by (auto simp: register_sponsored_seed_def sponsor_seed_count_def can_sponsor_def MAX_SPONSORED_SEEDS_def
      intro: order_trans [OF filter_values_modify_le])

lemma sponsor_count_heartbeat: "sponsor_seed_count (record_seed_heartbeat seed now s) \<le> sponsor_seed_count s"
  unfolding sponsor_seed_count_def record_seed_heartbeat_def
  by (simp, rule filter_values_modify_le) simp

lemma sponsor_count_violation: "sponsor_seed_count (record_seed_violation seed s) \<le> sponsor_seed_count s"
  unfolding sponsor_seed_count_def record_seed_violation_def
  by (simp, rule filter_values_modify_le) (auto simp: Let_def split: if_splits)

lemma sponsor_reachable_count: "sponsor_reachable s \<Longrightarrow> sponsor_seed_count s \<le> 5"
proof (induction rule: sponsor_reachable.induct)
  case start
  show ?case by (simp add: sponsor_seed_count_def AccountingState_new_def hm_values_def)
next
  case (event s e)
  then show ?case by (simp add: sponsor_seed_count_def)
qed (auto intro: sponsor_count_register order_trans [OF sponsor_count_heartbeat] order_trans [OF sponsor_count_violation])


section \<open>Properties\<close>

text \<open>The machine-word bookkeeping implements the exact ledger: as long as the amounts of a
  history add up to less than \<open>2 ^ 63\<close>, after any sequence of recording operations the totals
  and every peer's counters equal the ledger's sums, the signed net credit is exactly
  served minus received, and exactly the peers of the history have an entry.\<close>

theorem accounting_refines_ledger:
  assumes "ledger_total (\<lambda>e. served_amount e + received_amount e + prepaid_amount e) es < 2 ^ 63"
  shows "unat (total_bytes_served (acct_run es)) = ledger_total served_amount es \<and>
    unat (total_bytes_received (acct_run es)) = ledger_total received_amount es \<and>
    (\<forall>p. hm_get (peers (acct_run es)) p = None \<longleftrightarrow> p \<notin> event_peer ` set es) \<and>
    (\<forall>p c. hm_get (peers (acct_run es)) p = Some c \<longrightarrow>
       unat (bytes_served c) = ledger_peer served_amount p es \<and>
       unat (bytes_received c) = ledger_peer received_amount p es \<and>
       unat (prepaid_bytes c) = ledger_peer prepaid_amount p es \<and>
       sint (net_credit c) = int (ledger_peer served_amount p es) - int (ledger_peer received_amount p es))"
proof -
  have split: "ledger_total served_amount es + ledger_total received_amount es + ledger_total prepaid_amount es < 2 ^ 63"
    using assms by (simp add: ledger_total_def sum_list_addf)
  then have b: "ledger_total f es < 2 ^ 63" if "f \<in> {served_amount, received_amount, prepaid_amount}" for f
    using that by auto
  have bp: "ledger_peer f p es < 2 ^ 63" if "f \<in> {served_amount, received_amount, prepaid_amount}" for f p
    by (rule le_less_trans [OF ledger_peer_le b [OF that]])
  have word: "unat (word_of_nat n :: u64) = n" if "n < 2 ^ 63" for n
    using that by (simp add: unat_of_nat)
  have peer: "unat (bytes_served c) = ledger_peer served_amount p es \<and>
       unat (bytes_received c) = ledger_peer received_amount p es \<and>
       unat (prepaid_bytes c) = ledger_peer prepaid_amount p es \<and>
       sint (net_credit c) = int (ledger_peer served_amount p es) - int (ledger_peer received_amount p es)"
    if "hm_get (peers (acct_run es)) p = Some c" for p c
  proof -
    have m: "credit_matches p es c" using acct_run_peers [where es = es and p = p] that by simp
    have u: "unat (bytes_served c) = ledger_peer served_amount p es"
      "unat (bytes_received c) = ledger_peer received_amount p es"
      using m bp word by (auto simp: credit_matches_def)
    moreover have "unat (prepaid_bytes c) = ledger_peer prepaid_amount p es"
      using m bp word by (auto simp: credit_matches_def)
    moreover have "net_credit c = bytes_served c - bytes_received c" using m by (simp add: credit_matches_def)
    then have "sint (net_credit c) = int (unat (bytes_served c)) - int (unat (bytes_received c))"
      using bp u by (simp add: sint_diff_small)
    ultimately show ?thesis by simp
  qed
  have "hm_get (peers (acct_run es)) p = None \<longleftrightarrow> p \<notin> event_peer ` set es" for p
    using acct_run_peers [where es = es and p = p] by (auto split: option.splits)
  then show ?thesis
    using peer b word by (auto simp: acct_run_totals)
qed

text \<open>Five bytes served, two received back.\<close>

theorem accounting_refines_ledger_witness:
  "sint (net_credit (the (hm_get (peers (acct_run [Served 1 [7] 5, Received 2 [7] 2])) [7]))) = 3"
proof -
  let ?es = "[Served 1 [7] 5, Received 2 [7] 2]"
  have "ledger_total (\<lambda>e. served_amount e + received_amount e + prepaid_amount e) ?es < 2 ^ 63"
    by (simp add: ledger_total_def)
  from accounting_refines_ledger [OF this] show ?thesis
    by (cases "hm_get (peers (acct_run ?es)) [7]") (auto simp: ledger_peer_def ledger_total_def)
qed

text \<open>The service decision for a known peer, in exact arithmetic: with counters below \<open>2 ^ 53\<close>
  (8 PiB), a net credit that is the difference of the two counters and the default minimum
  ratio, \<open>should_serve\<close> answers yes exactly when the peer did not fail most of more than ten
  challenges, the credit gate passes and the peer served at least half of what it received
  (or is within goodwill). Neither the floating-point rounding nor the signed casts change
  any of these comparisons.\<close>

theorem should_serve_exact:
  assumes "hm_get (peers s) p = Some c" and "min_ratio s = Fin (1 / 2)"
    and "unat (bytes_served c) < 2 ^ 53" and "unat (bytes_received c) < 2 ^ 53"
    and "unat (prepaid_bytes c) < 2 ^ 53" and "unat (initial_credit s) < 2 ^ 53" and "unat n < 2 ^ 53"
    and "net_credit c = bytes_served c - bytes_received c"
    and "unat (successful_challenges c) + unat (failed_challenges c) < 2 ^ 32"
  shows "should_serve s p n \<longleftrightarrow>
    (let served = unat (bytes_served c); received = unat (bytes_received c); prepaid = unat (prepaid_bytes c);
         passed = unat (successful_challenges c); missed = unat (failed_challenges c);
         goodwill = (served = 0 \<and> received + unat n \<le> unat (initial_credit s) + prepaid)
     in \<not> (10 < passed + missed \<and> passed < missed) \<and>
        (received + unat n \<le> served \<or> unat n \<le> prepaid \<or> received < served + prepaid \<or> goodwill) \<and>
        (received \<le> 2 * served \<or> goodwill))"
proof -
  let ?s = "unat (bytes_served c)" and ?r = "unat (bytes_received c)" and ?p = "unat (prepaid_bytes c)"
  have "sint (net_credit c) = int ?s - int ?r"
    unfolding assms(8) using assms(3,4) by (intro sint_diff_small) simp_all
  moreover have "sint n = int (unat n)" using assms(7) by (intro sint_small) simp
  ultimately have credit: "has_credit c n \<longleftrightarrow> ?r + unat n \<le> ?s"
    unfolding has_credit_def by linarith
  have eff: "0 < sint (effective_credit c) \<longleftrightarrow> ?r < ?s + ?p"
    unfolding effective_credit_sint [OF assms(3,4,5,8)] by linarith
  have zero: "bytes_served c = 0 \<longleftrightarrow> ?s = 0" by (simp add: unat_eq_0)
  show ?thesis
    unfolding should_serve_def assms(1) option.case Let_def challenge_gate [OF assms(9)]
      credit eff assms(2) ratio_gate [OF assms(3,4)] goodwill_gate [OF assms(4,7,6,5)] zero
      has_prepaid_def word_le_nat_alt [of n "prepaid_bytes c"]
    by auto
qed

theorem should_serve_exact_witness:
  "should_serve (acct_run [Served 1 [7] 9, Received 2 [7] 5]) [7] 3"
proof -
  define s where "s = acct_run [Served 1 [7] 9, Received 2 [7] 5]"
  let ?c = "\<lparr>bytes_served = 9, bytes_received = 5, net_credit = 4, last_interaction = 2,
      successful_challenges = 0, failed_challenges = 0, prepaid_bytes = 0\<rparr>"
  have s: "hm_get (peers s) [7] = Some ?c" "min_ratio s = Fin (1 / 2)" "initial_credit s = 1048576"
    by (simp_all add: s_def record_defs credit_defs AccountingState_new_def)
  show ?thesis
    using should_serve_exact [OF s(1,2), of 3] unfolding s_def [symmetric] by (simp add: s(3))
qed

text \<open>An entry that reconciling at \<open>now\<close> takes notice of: dated no more than five minutes ahead, and with no byte count above \<open>2\<^sup>6\<^sup>0\<close>.\<close>

definition credible :: "u64 \<Rightarrow> PeerCredit \<Rightarrow> bool" where
  "credible now c \<longleftrightarrow> entry_valid (saturating_add now RECONCILE_FUTURE_SKEW_SECS) c"

text \<open>C29 (equivalence).
  Healing a partition: two nodes exchange their full credit tables and reconcile, each by its own clock. Where both know a peer and neither entry is future-dated or absurd for
  the other side, both end with the newer entry; they agree on the peer if and only if the timestamps differ or the entries are equal, since on a tie of the same second each
  keeps its own. An entry that only one of them has is kept there and adopted by the other unless it is future-dated or absurd, and an entry that is
  so never changes what the other side has.\<close>

theorem partition_heal_converges:
  assumes "hm_wf (peers a)" and "hm_wf (peers b)"
    and "a' = reconcile now_a (export_for_reconciliation b) a" and "b' = reconcile now_b (export_for_reconciliation a) b"
  shows "(\<forall>c d. hm_get (peers a) p = Some c \<and> hm_get (peers b) p = Some d \<and> credible now_b c \<and> credible now_a d \<longrightarrow>
       hm_get (peers a') p = Some (if last_interaction c < last_interaction d then d else c) \<and>
       hm_get (peers b') p = Some (if last_interaction d < last_interaction c then c else d) \<and>
       (hm_get (peers a') p = hm_get (peers b') p \<longleftrightarrow> last_interaction c \<noteq> last_interaction d \<or> c = d)) \<and>
    (\<forall>c. hm_get (peers a) p = Some c \<and> hm_get (peers b) p = None \<longrightarrow>
       hm_get (peers a') p = Some c \<and> hm_get (peers b') p = (if credible now_b c then Some c else None)) \<and>
    (\<forall>d. hm_get (peers a) p = None \<and> hm_get (peers b) p = Some d \<longrightarrow>
       hm_get (peers b') p = Some d \<and> hm_get (peers a') p = (if credible now_a d then Some d else None)) \<and>
    (\<forall>d. hm_get (peers b) p = Some d \<and> \<not> credible now_a d \<longrightarrow> hm_get (peers a') p = hm_get (peers a) p) \<and>
    (hm_get (peers a) p = None \<and> hm_get (peers b) p = None \<longrightarrow> hm_get (peers a') p = None \<and> hm_get (peers b') p = None)"
proof -
  have get: "hm_get (peers a') p = lww (saturating_add now_a RECONCILE_FUTURE_SKEW_SECS) (hm_get (peers a) p) (hm_get (peers b) p)"
    "hm_get (peers b') p = lww (saturating_add now_b RECONCILE_FUTURE_SKEW_SECS) (hm_get (peers b) p) (hm_get (peers a) p)"
    using assms by (simp_all add: reconcile_def export_for_reconciliation_def reconcile_get)
  show ?thesis
    unfolding get credible_def by (auto simp: lww_def)
qed

theorem partition_heal_converges_witness:
  "hm_get (peers (reconcile 9 (export_for_reconciliation (acct_run [Served 2 [7] 4])) (acct_run [Served 1 [7] 5]))) [7] =
   hm_get (peers (reconcile 9 (export_for_reconciliation (acct_run [Served 1 [7] 5])) (acct_run [Served 2 [7] 4]))) [7]"
proof -
  let ?a = "acct_run [Served 1 [7] 5]" and ?b = "acct_run [Served 2 [7] 4]"
  have "hm_wf (peers ?a)" "hm_wf (peers ?b)"
    by (simp_all add: record_defs update_peer_def get_or_create_peer_def AccountingState_new_def hm_contains_def Let_def)
  note heal = partition_heal_converges [OF this refl refl, THEN conjunct1, rule_format]
  obtain c d where g: "hm_get (peers ?a) [7] = Some c" "hm_get (peers ?b) [7] = Some d" "last_interaction c = 1" "last_interaction d = 2" "credible 9 c" "credible 9 d"
    by (simp add: record_defs credit_defs AccountingState_new_def credible_def entry_valid_def saturating_add_def RECONCILE_FUTURE_SKEW_SECS_def MAX_ACCOUNTING_BYTES_def)
  then have "hm_get (peers ?a) [7] = Some c \<and> hm_get (peers ?b) [7] = Some d \<and> credible 9 c \<and> credible 9 d" by blast
  from heal [OF this] g(3,4) show ?thesis by simp
qed

text \<open>Reconciliation is idempotent, batch after batch: processing the same entries again, however
  many times an entry is repeated in the batch and whatever the entries claim, changes nothing;
  a peer's timestamp never moves back, and an invalid entry never changes any peer.\<close>

theorem reconcile_idempotent:
  "reconcile now incoming (reconcile now incoming s) = reconcile now incoming s \<and>
   (\<forall>p c. hm_get (peers s) p = Some c \<longrightarrow>
      (\<exists>d. hm_get (peers (reconcile now incoming s)) p = Some d \<and> last_interaction c \<le> last_interaction d)) \<and>
   (\<not> entry_valid (saturating_add now RECONCILE_FUTURE_SKEW_SECS) r \<longrightarrow> reconcile now ((p, r) # incoming) s = reconcile now incoming s)"
proof -
  let ?fb = "saturating_add now RECONCILE_FUTURE_SKEW_SECS"
  have mono: "\<exists>d. hm_get (peers (foldl (reconcile_entry ?fb) s es)) p = Some d \<and> last_interaction c \<le> last_interaction d"
    if "hm_get (peers s) p = Some c" for s p c es
    using that
  proof (induction es arbitrary: s c)
    case (Cons e es)
    have "\<exists>d. hm_get (peers (reconcile_entry ?fb s e)) p = Some d \<and> last_interaction c \<le> last_interaction d"
      using Cons.prems by (cases e) (auto simp: reconcile_entry_get lww_def less_imp_le)
    then obtain d where d: "hm_get (peers (reconcile_entry ?fb s e)) p = Some d" "last_interaction c \<le> last_interaction d"
      by blast
    from Cons.IH [OF d(1)] d(2) show ?case by (auto intro: order_trans)
  qed simp
  have "reconcile now incoming (reconcile now incoming s) = reconcile now incoming s"
    unfolding reconcile_def by (intro fold_covered_id ballI covered_all)
  moreover have "\<not> entry_valid ?fb r \<Longrightarrow> reconcile now ((p, r) # incoming) s = reconcile now incoming s"
    by (simp add: reconcile_def reconcile_entry_invalid)
  ultimately show ?thesis using mono unfolding reconcile_def by blast
qed

theorem reconcile_idempotent_witness:
  "reconcile 0 [([7], PeerCredit_new\<lparr>last_interaction := 301\<rparr>)] AccountingState_new = AccountingState_new"
proof -
  have "\<not> entry_valid (saturating_add 0 RECONCILE_FUTURE_SKEW_SECS) (PeerCredit_new\<lparr>last_interaction := 301\<rparr>)"
    by (simp add: entry_valid_def saturating_add_def RECONCILE_FUTURE_SKEW_SECS_def)
  then have "reconcile 0 [([7], PeerCredit_new\<lparr>last_interaction := 301\<rparr>)] AccountingState_new =
      reconcile 0 [] AccountingState_new"
    using reconcile_idempotent [of 0 "[]" AccountingState_new "PeerCredit_new\<lparr>last_interaction := 301\<rparr>" "[7]"] by blast
  then show ?thesis by (simp add: reconcile_def)
qed


text \<open>In every reachable state at most five well-behaved seeds are sponsored. At that limit a new
  seed is refused with \<open>AtCapacity\<close> and the state is untouched, while a seed already on record
  is always accepted as a renewal, which never clears its misbehaving flag; and a seed is
  flagged as soon as its third violation is recorded.\<close>

theorem sponsor_limit:
  assumes "sponsor_reachable s"
  shows "sponsor_seed_count s \<le> 5 \<and>
    (\<not> is_sponsored s seed \<longrightarrow> sponsor_seed_count s = 5 \<longrightarrow>
       register_sponsored_seed seed cid n now s = (Inl AtCapacity, s)) \<and>
    (is_sponsored s seed \<longrightarrow> fst (register_sponsored_seed seed cid n now s) = Inr () \<and>
       is_seed_misbehaving (snd (register_sponsored_seed seed cid n now s)) seed = is_seed_misbehaving s seed) \<and>
    (\<forall>info. hm_get (sponsored_seeds s) seed = Some info \<longrightarrow> rate_violations info = 2 \<longrightarrow>
       is_seed_misbehaving (record_seed_violation seed s) seed)"
  using sponsor_reachable_count [OF assms]
  by (auto simp: register_sponsored_seed_def is_sponsored_def can_sponsor_def MAX_SPONSORED_SEEDS_def
      is_seed_misbehaving_def record_seed_violation_def Let_def split: option.splits)

theorem sponsor_limit_witness:
  "fst (register_sponsored_seed [3] [9] 5 100 (snd (register_sponsored_seed [3] [8] 5 90 AccountingState_new))) = Inr ()"
proof -
  let ?s = "snd (register_sponsored_seed [3] [8] 5 90 AccountingState_new)"
  have "sponsor_reachable ?s" by (intro sponsor_reachable.register sponsor_reachable.start)
  moreover have "is_sponsored ?s [3]"
    by (simp add: is_sponsored_def register_sponsored_seed_def AccountingState_new_def can_sponsor_def
        sponsor_seed_count_def MAX_SPONSORED_SEEDS_def hm_values_def hm_contains_def)
  ultimately show ?thesis using sponsor_limit [of ?s "[3]" "[9]" 5 100] by blast
qed

text \<open>Recording a prepayment keeps the rate-limit table within its 1024 entries, and from then on a
  further prepayment of the same seed for the same content is allowed exactly when an hour has
  passed; a clock that runs backwards never opens the gate early.\<close>

theorem prepay_rate_limit_enforced:
  assumes "hm_wf (prepayment_attempts s)" and "hm_len (prepayment_attempts s) \<le> 1024"
  shows "hm_wf (prepayment_attempts (record_prepay_attempt seed cid now s)) \<and>
    hm_len (prepayment_attempts (record_prepay_attempt seed cid now s)) \<le> 1024 \<and>
    (check_prepay_rate_limit (record_prepay_attempt seed cid now s) seed cid later \<longleftrightarrow>
       unat now + 3600 \<le> unat later)"
proof -
  let ?m = "hm_retain (\<lambda>_ ts. saturating_sub now ts \<le> 86400) (prepayment_attempts s)"
  have wf: "hm_wf ?m" using assms(1) by (rule hm_wf_retain)
  have len: "hm_len ?m \<le> MAX_PREPAY_ATTEMPTS"
    using assms(2) hm_len_retain_le [of _ "prepayment_attempts s"] unfolding MAX_PREPAY_ATTEMPTS_def
    by (rule order_trans [rotated])
  have "hm_len (hm_insert (seed, cid) now (hm_make_room MAX_PREPAY_ATTEMPTS ?m)) \<le> MAX_PREPAY_ATTEMPTS"
    by (rule hm_bounded_insert [OF wf _ len]) (simp add: MAX_PREPAY_ATTEMPTS_def)
  then show ?thesis
    using hm_wf_make_room [OF wf]
    by (auto simp: record_prepay_attempt_def Let_def check_prepay_rate_limit_def PREPAY_RATE_LIMIT_SECS_def
        MAX_PREPAY_ATTEMPTS_def word_le_nat_alt)
qed

theorem prepay_rate_limit_enforced_witness:
  "\<not> check_prepay_rate_limit (record_prepay_attempt [1] [2] 100 AccountingState_new) [1] [2] 3699 \<and>
   check_prepay_rate_limit (record_prepay_attempt [1] [2] 100 AccountingState_new) [1] [2] 3700"
  using prepay_rate_limit_enforced [of AccountingState_new "[1]" "[2]" 100 3699]
    prepay_rate_limit_enforced [of AccountingState_new "[1]" "[2]" 100 3700]
  by (simp add: AccountingState_new_def hm_len_def)

text \<open>Proof of Space-Time: the proof computed from the chunk data verifies up to and including the
  deadline and is rejected as expired afterwards; and whenever a proof computed from other data
  verifies, two different inputs of \<open>blake3\<close> with the same hash have been exhibited.\<close>

theorem space_time_proof_sound_complete:
  "verify_proof blake3 (create_proof blake3 ch data) data t =
     (if t \<le> deadline ch then Inr () else Inl ChallengeExpired) \<and>
   (verify_proof blake3 (create_proof blake3 ch other) data t = Inr () \<longrightarrow>
      other = data \<or>
      (\<exists>x y. x \<noteq> y \<and> blake3 x = blake3 y \<and> x = other @ chal_nonce ch @ ascii_bytes ''space_time_proof''
             \<and> y = data @ chal_nonce ch @ ascii_bytes ''space_time_proof''))"
  by (auto simp: verify_proof_def create_proof_def split: if_splits)

theorem space_time_proof_sound_complete_witness:
  "verify_proof rev (create_proof rev (create_challenge [5] 10 [1] [2] 60) [4]) [4] 70 = Inr () \<and> [4] = ([4] :: bytes)"
proof -
  have v: "verify_proof rev (create_proof rev (create_challenge [5] 10 [1] [2] 60) [4]) [4] 70 = Inr ()"
    using space_time_proof_sound_complete [of rev "create_challenge [5] 10 [1] [2] 60" "[4]" 70 "[4]"]
    by (simp add: create_challenge_def)
  then show ?thesis by simp
qed

section \<open>Where the arithmetic does not do what it means\<close>

text \<open>
  \<open>has_credit\<close> casts the request to \<open>i64\<close>: a request of \<open>2 ^ 63\<close> bytes or more becomes negative
  and is covered by any non-negative credit.
\<close>

lemma has_credit_wraps:
  assumes "2 ^ 63 \<le> unat needed" and "0 \<le> sint (net_credit c)"
  shows "has_credit c needed"
proof -
  have "unat needed < 2 ^ 64" using unsigned_less [of needed, where ?'a = nat] by simp
  with assms(1) have "unat needed div 2 ^ 63 = 1" by (intro div_nat_eqI) simp_all
  then have "int (unat needed) div 2 ^ 63 = 1"
    by (metis of_nat_1 of_nat_numeral of_nat_power zdiv_int)
  then have "bit (uint needed) 63" by (simp add: bit_iff_odd)
  then have "sint needed < 0" by (simp add: sint_uint)
  then show ?thesis using assms(2) by (simp add: has_credit_def)
qed

text \<open>
  \<open>prune_inactive_peers\<close> subtracts without saturation (unlike its sibling with the grace period):
  an entry dated after \<open>now\<close>, which reconciliation admits up to five minutes ahead, gets an
  age near \<open>2 ^ 64\<close> and is dropped as inactive (a debug build panics).
\<close>

lemma prune_drops_future_entry:
  assumes "hm_wf (peers s)" and "hm_get (peers s) p = Some c" and "now < last_interaction c"
    and "max_age \<le> now - last_interaction c"
  shows "hm_get (peers (prune_inactive_peers now max_age s)) p = None"
  using assms by (simp add: prune_inactive_peers_def hm_get_retain not_less)

lemma prune_drops_fresh_entry_example:
  "hm_get (peers (prune_inactive_peers 1000 86400
      (reconcile 1000 [([7], PeerCredit_new\<lparr>last_interaction := 1001\<rparr>)] AccountingState_new))) [7] = None"
  by (simp add: prune_inactive_peers_def reconcile_def reconcile_entry_def saturating_add_def
      RECONCILE_FUTURE_SKEW_SECS_def AccountingState_new_def PeerCredit_new_def MAX_ACCOUNTING_BYTES_def hm_retain_def)

text \<open>
  The challenge counters are added in 32 bits: counters adopted from a reconciliation message,
  which bounds the byte fields only, can make the sum wrap below the threshold of ten, and a
  peer that failed almost every challenge passes the challenge gate (a debug build panics).
\<close>

lemma challenge_gate_wraps:
  "should_serve (reconcile 1000 [([7], PeerCredit_new\<lparr>successful_challenges := 1, failed_challenges := 2 ^ 32 - 1,
      last_interaction := 1000\<rparr>)] AccountingState_new) [7] 5"
  by (simp add: should_serve_def reconcile_def reconcile_entry_def saturating_add_def ratio_def has_credit_def
      RECONCILE_FUTURE_SKEW_SECS_def AccountingState_new_def PeerCredit_new_def MAX_ACCOUNTING_BYTES_def word_le_nat_alt)

section \<open>Priorities\<close>

lemma sort_desc_sorted: "sorted_wrt (\<lambda>a b. key b \<le> key a) (sort_desc key xs)"
  using sorted_sort_key [of key "rev xs"] by (simp only: sort_desc_def sorted_wrt_rev sorted_map)

lemma sort_desc_mset [simp]: "mset (sort_desc key xs) = mset xs"
  by (simp add: sort_desc_def)

lemma peers_by_credit_sorted:
  "sorted_wrt (\<lambda>(_, c) (_, d). sint (net_credit d) \<le> sint (net_credit c)) (peers_by_credit s) \<and>
   mset (peers_by_credit s) = mset (peers s)"
  using sort_desc_sorted [of "\<lambda>(_, c). sint (net_credit c)" "peers s"]
  by (simp add: peers_by_credit_def case_prod_unfold)

end
