(* ===== verification/Crypto.thy ===== *)
theory Crypto
  imports Codec
begin

text \<open>
  The cryptography the program calls: \<^verbatim>\<open>ed25519_dalek\<close>, ChaCha20-Poly1305 and HKDF are external
  crates, so their functions are parameters, bundled in records. What the program relies on is
  stated as predicates on these records: a signature made with a key verifies under its public
  key, decryption inverts encryption, and the sizes are the documented ones. The thin wrappers
  of \<^verbatim>\<open>crates/static-crypto/src/lib.rs\<close> are definitions over them.
\<close>

section \<open>Ed25519\<close>

record 'sk ed25519 =
  ed_public :: "'sk \<Rightarrow> bytes"                  \<comment> \<open>\<open>verifying_key().to_bytes()\<close>\<close>
  ed_sign :: "'sk \<Rightarrow> bytes \<Rightarrow> bytes"           \<comment> \<open>\<open>sign(msg).to_bytes()\<close>\<close>
  ed_parse :: "bytes \<Rightarrow> bool"                  \<comment> \<open>\<open>VerifyingKey::from_bytes\<close> succeeds\<close>
  ed_check :: "bytes \<Rightarrow> bytes \<Rightarrow> bytes \<Rightarrow> bool"  \<comment> \<open>\<open>pk.verify(msg, sig).is_ok()\<close>\<close>

definition ed25519_correct :: "'sk ed25519 \<Rightarrow> bool" where
  "ed25519_correct ed \<longleftrightarrow> (\<forall>sk msg. length (ed_public ed sk) = 32 \<and> length (ed_sign ed sk msg) = 64 \<and>
     ed_parse ed (ed_public ed sk) \<and> ed_check ed (ed_public ed sk) msg (ed_sign ed sk msg))"

text \<open>The verification sequence every signed message of the program uses.\<close>

definition signature_valid :: "'sk ed25519 \<Rightarrow> bytes \<Rightarrow> bytes \<Rightarrow> bytes \<Rightarrow> bool" where
  "signature_valid ed pk msg sig \<longleftrightarrow> length sig = 64 \<and> ed_parse ed pk \<and> ed_check ed pk msg sig"

lemma signature_valid_sign [simp]:
  "ed25519_correct ed \<Longrightarrow> signature_valid ed (ed_public ed sk) msg (ed_sign ed sk msg)"
  by (simp add: signature_valid_def ed25519_correct_def)

lemma ed25519_sizes [simp]:
  "ed25519_correct ed \<Longrightarrow> length (ed_public ed sk) = 32"
  "ed25519_correct ed \<Longrightarrow> length (ed_sign ed sk msg) = 64"
  by (simp_all add: ed25519_correct_def)

text \<open>The contract of a signed message type: which bytes are covered, where key and signature are kept,
  and what the verifier checks besides (\<open>admissible\<close>). Gossip, the four swap messages and heartbeats
  meet it.\<close>

locale signed_message =
  fixes ed :: "'sk ed25519"
    and signing_bytes :: "'m \<Rightarrow> bytes"
    and public_key :: "'m \<Rightarrow> bytes"
    and signature :: "'m \<Rightarrow> bytes"
    and admissible :: "'m \<Rightarrow> bool"
    and sign :: "'sk \<Rightarrow> 'm \<Rightarrow> 'm"
    and verified :: "'m \<Rightarrow> bool"
  assumes verified_iff: "verified m \<longleftrightarrow> admissible m \<and> signature_valid ed (public_key m) (signing_bytes m) (signature m)"
    and sign_key: "public_key (sign sk m) = ed_public ed sk"
    and sign_covers: "signature (sign sk m) = ed_sign ed sk (signing_bytes (sign sk m))"
    and sign_admissible: "admissible m \<Longrightarrow> admissible (sign sk m)"
begin

lemma sign_verifies: "ed25519_correct ed \<Longrightarrow> admissible m \<Longrightarrow> verified (sign sk m)"
  by (simp add: verified_iff sign_key sign_covers sign_admissible)

lemma unsigned_rejected: "length (signature m) \<noteq> 64 \<Longrightarrow> \<not> verified m"
  by (simp add: verified_iff signature_valid_def)

text \<open>A signature only speaks for the covered bytes: another message with the same covered bytes, key
  and signature verifies as well.\<close>

lemma verified_same_bytes:
  "verified m \<Longrightarrow> admissible m' \<Longrightarrow> signing_bytes m' = signing_bytes m \<Longrightarrow> public_key m' = public_key m \<Longrightarrow>
     signature m' = signature m \<Longrightarrow> verified m'"
  by (simp add: verified_iff)

end

text \<open>A concrete scheme that has the documented behaviour, for witnesses: the signature is the
  first 64 bytes of the public key and the message.\<close>

definition demo_public :: "nat \<Rightarrow> bytes" where
  "demo_public sk = replicate 32 (word_of_nat sk)"

definition demo_sign :: "bytes \<Rightarrow> bytes \<Rightarrow> bytes" where
  "demo_sign pk msg = take 64 (pk @ msg @ replicate 64 0)"

definition demo_ed :: "nat ed25519" where
  "demo_ed = \<lparr>ed_public = demo_public, ed_sign = (\<lambda>sk. demo_sign (demo_public sk)),
     ed_parse = (\<lambda>pk. length pk = 32), ed_check = (\<lambda>pk msg sig. sig = demo_sign pk msg)\<rparr>"

lemma demo_ed_correct: "ed25519_correct demo_ed"
  by (auto simp: ed25519_correct_def demo_ed_def demo_public_def demo_sign_def min_def)

section \<open>Symmetric encryption\<close>

record aead =
  aead_seal :: "bytes \<Rightarrow> bytes \<Rightarrow> bytes \<Rightarrow> bytes \<Rightarrow> bytes"         \<comment> \<open>key, nonce, plaintext, associated data\<close>
  aead_open :: "bytes \<Rightarrow> bytes \<Rightarrow> bytes \<Rightarrow> bytes \<Rightarrow> bytes option"

definition aead_correct :: "aead \<Rightarrow> bool" where
  "aead_correct c \<longleftrightarrow> (\<forall>k n p a. aead_open c k n (aead_seal c k n p a) a = Some p \<and>
     length (aead_seal c k n p a) = length p + 16)"

datatype CryptoError =
    CryptoDecryptionFailed
  | InvalidKeySize
  | InvalidNonceSize
  | KemInvalidInput
  | KemDecapsulationFailed

definition encrypt :: "aead \<Rightarrow> bytes \<Rightarrow> bytes \<Rightarrow> bytes \<Rightarrow> bytes" where
  "encrypt c key nonce plaintext = aead_seal c key nonce plaintext []"

definition decrypt :: "aead \<Rightarrow> bytes \<Rightarrow> bytes \<Rightarrow> bytes \<Rightarrow> CryptoError + bytes" where
  "decrypt c key nonce ciphertext =
     (case aead_open c key nonce ciphertext [] of None \<Rightarrow> Inl CryptoDecryptionFailed | Some p \<Rightarrow> Inr p)"

definition encrypt_aad :: "aead \<Rightarrow> bytes \<Rightarrow> bytes \<Rightarrow> bytes \<Rightarrow> bytes \<Rightarrow> bytes" where
  "encrypt_aad c key nonce plaintext aad = aead_seal c key nonce plaintext aad"

definition decrypt_aad :: "aead \<Rightarrow> bytes \<Rightarrow> bytes \<Rightarrow> bytes \<Rightarrow> bytes \<Rightarrow> CryptoError + bytes" where
  "decrypt_aad c key nonce ciphertext aad =
     (case aead_open c key nonce ciphertext aad of None \<Rightarrow> Inl CryptoDecryptionFailed | Some p \<Rightarrow> Inr p)"

lemma decrypt_encrypt [simp]: "aead_correct c \<Longrightarrow> decrypt c key nonce (encrypt c key nonce p) = Inr p"
  by (simp add: decrypt_def encrypt_def aead_correct_def)

lemma length_encrypt [simp]: "aead_correct c \<Longrightarrow> length (encrypt c key nonce p) = length p + 16"
  by (simp add: encrypt_def aead_correct_def)

text \<open>A nonce from a counter; \<open>to_le_bytes\<close> is the reverse of \<open>to_be_bytes\<close>.\<close>

definition to_le64 :: "u64 \<Rightarrow> bytes" where
  "to_le64 w = rev (to_be64 w)"

definition from_counter :: "u64 \<Rightarrow> bytes" where
  "from_counter counter = replicate 4 0 @ to_le64 counter"

lemma length_to_le64 [simp]: "length (to_le64 w) = 8"
  by (simp add: to_le64_def)

lemma to_le64_inj: "to_le64 v = to_le64 w \<Longrightarrow> v = w"
  by (metis from_to_be64 rev_rev_ident to_le64_def)

section \<open>Key derivation\<close>

text \<open>\<open>Hkdf::<Sha256>::new(salt, ikm).expand(info)\<close> with 32 bytes of output is a parameter.
  Context strings are their bytes; \<open>format!("{}:{}", ..)\<close> prints a number in decimal.\<close>

type_synonym hkdf = "bytes option \<Rightarrow> bytes \<Rightarrow> bytes \<Rightarrow> bytes"

fun decimal :: "nat \<Rightarrow> bytes" where
  "decimal n = (if n < 10 then [word_of_nat (48 + n)] else decimal (n div 10) @ [word_of_nat (48 + n mod 10)])"

declare decimal.simps [simp del]

definition ascii :: "string \<Rightarrow> bytes" where
  "ascii s = map (\<lambda>c. word_of_nat (of_char c)) s"

definition derive :: "hkdf \<Rightarrow> bytes \<Rightarrow> bytes \<Rightarrow> bytes" where
  "derive hk key ctxt = hk None key ctxt"

definition derive_hybrid_shared_secret :: "hkdf \<Rightarrow> bytes \<Rightarrow> bytes \<Rightarrow> bytes \<Rightarrow> bytes" where
  "derive_hybrid_shared_secret hk classical_shared kem_shared ctxt =
     hk (Some ctxt) (classical_shared @ kem_shared) (ascii ''static-hybrid-v1'')"

definition derive_key_chain :: "hkdf \<Rightarrow> bytes \<Rightarrow> nat \<Rightarrow> bytes \<Rightarrow> bytes list" where
  "derive_key_chain hk master n ctxt =
     (let first = derive hk master (ctxt @ ascii '':0'')
      in snd (fold (\<lambda>i (current, keys).
           let current = derive hk current (ctxt @ ascii '':'' @ decimal i) in (current, keys @ [current]))
         [1..<n] (first, [first])))"

lemma key_chain_fold:
  "fst s = last (snd s) \<Longrightarrow> snd s \<noteq> [] \<Longrightarrow>
   (let s' = fold (\<lambda>i (current, keys).
       let current = derive hk current (ctxt @ ascii '':'' @ decimal i) in (current, keys @ [current])) is s
    in length (snd s') = length (snd s) + length is \<and> take (length (snd s)) (snd s') = snd s \<and>
       (\<forall>j<length is. snd s' ! (length (snd s) + j) =
          derive hk (snd s' ! (length (snd s) + j - 1)) (ctxt @ ascii '':'' @ decimal (is ! j))))"
proof (induction "is" arbitrary: s)
  case (Cons i "is")
  obtain c ks where s: "s = (c, ks)" by (cases s)
  define k where "k = derive hk c (ctxt @ ascii '':'' @ decimal i)"
  define s' where "s' = fold (\<lambda>i (current, keys).
       let current = derive hk current (ctxt @ ascii '':'' @ decimal i) in (current, keys @ [current])) is (k, ks @ [k])"
  have c: "c = last ks" "ks \<noteq> []" using Cons.prems by (simp_all add: s)
  have IH: "length (snd s') = Suc (length ks) + length is" "take (Suc (length ks)) (snd s') = ks @ [k]"
    "\<And>j. j < length is \<Longrightarrow> snd s' ! (Suc (length ks) + j) =
          derive hk (snd s' ! (Suc (length ks) + j - 1)) (ctxt @ ascii '':'' @ decimal (is ! j))"
    using Cons.IH [of "(k, ks @ [k])"] by (simp_all add: s'_def Let_def)
  have pre: "snd s' ! j = (ks @ [k]) ! j" if "j < Suc (length ks)" for j
    using IH(2) that by (metis nth_take)
  have "take (length ks) (snd s') = ks"
    using arg_cong [OF IH(2), of "take (length ks)"] by simp
  moreover have "snd s' ! (length ks + j) =
      derive hk (snd s' ! (length ks + j - 1)) (ctxt @ ascii '':'' @ decimal ((i # is) ! j))" if "j < length (i # is)" for j
  proof (cases j)
    case 0
    with c pre [of "length ks"] pre [of "length ks - 1"] show ?thesis
      by (simp add: k_def last_conv_nth nth_append)
  next
    case (Suc j')
    with IH(3) [of j'] that show ?thesis by simp
  qed
  ultimately show ?case
    using IH(1) by (simp add: s s'_def [symmetric] k_def [symmetric])
qed simp

section \<open>Key agreement\<close>

text \<open>X25519 and ML-KEM-768. \<open>encapsulate\<close> takes the randomness it draws.\<close>

record key_exchange =
  dh_public :: "bytes \<Rightarrow> bytes"
  diffie_hellman :: "bytes \<Rightarrow> bytes \<Rightarrow> bytes"
  KEM_PUBLIC_KEY_SIZE :: nat
  KEM_CIPHERTEXT_SIZE :: nat
  KEM_SECRET_KEY_SIZE :: nat
  kem_public :: "bytes \<Rightarrow> bytes"
  kem_encapsulate :: "bytes \<Rightarrow> bytes \<Rightarrow> (bytes \<times> bytes) option"   \<comment> \<open>randomness, public key; ciphertext, secret\<close>
  kem_decapsulate :: "bytes \<Rightarrow> bytes \<Rightarrow> bytes option"             \<comment> \<open>ciphertext, secret key\<close>

definition dh :: "key_exchange \<Rightarrow> bytes \<Rightarrow> bytes \<Rightarrow> bytes" where
  "dh kx secret their_public = diffie_hellman kx secret their_public"

definition encapsulate_to :: "key_exchange \<Rightarrow> bytes \<Rightarrow> bytes \<Rightarrow> CryptoError + (bytes \<times> bytes)" where
  "encapsulate_to kx rnd public_key_bytes =
     (if length public_key_bytes \<noteq> KEM_PUBLIC_KEY_SIZE kx then Inl KemInvalidInput
      else (case kem_encapsulate kx rnd public_key_bytes of
              None \<Rightarrow> Inl KemInvalidInput
            | Some (ciphertext, shared) \<Rightarrow> Inr (shared, ciphertext)))"

definition decapsulate_with :: "key_exchange \<Rightarrow> bytes \<Rightarrow> bytes \<Rightarrow> CryptoError + bytes" where
  "decapsulate_with kx secret_bytes ciphertext =
     (if length secret_bytes \<noteq> KEM_SECRET_KEY_SIZE kx then Inl KemInvalidInput
      else if length ciphertext \<noteq> KEM_CIPHERTEXT_SIZE kx then Inl KemInvalidInput
      else (case kem_decapsulate kx ciphertext secret_bytes of
              None \<Rightarrow> Inl KemDecapsulationFailed
            | Some shared \<Rightarrow> Inr shared))"

definition key_exchange_correct :: "key_exchange \<Rightarrow> bool" where
  "key_exchange_correct kx \<longleftrightarrow>
     (\<forall>a b. diffie_hellman kx a (dh_public kx b) = diffie_hellman kx b (dh_public kx a)) \<and>
     (\<forall>sk. length sk = KEM_SECRET_KEY_SIZE kx \<longrightarrow> length (kem_public kx sk) = KEM_PUBLIC_KEY_SIZE kx) \<and>
     (\<forall>sk rnd. length sk = KEM_SECRET_KEY_SIZE kx \<longrightarrow>
        (\<exists>ct ss. kem_encapsulate kx rnd (kem_public kx sk) = Some (ct, ss) \<and>
           length ct = KEM_CIPHERTEXT_SIZE kx \<and> kem_decapsulate kx ct sk = Some ss))"

text \<open>Both ends of the hybrid handshake derive the same key: whoever encapsulates
  to a valid ML-KEM public key gets a ciphertext the owner of the secret key decapsulates, and
  combining it with the X25519 secret under one context gives the same key on both sides. The key
  chain derived from it has the requested length (but at least one key), starts with the master
  key's derivation and links each key to its predecessor.\<close>

theorem hybrid_agreement:
  assumes "key_exchange_correct kx" and "length kem_sk = KEM_SECRET_KEY_SIZE kx"
  shows "(\<exists>ss ct. encapsulate_to kx rnd (kem_public kx kem_sk) = Inr (ss, ct) \<and>
      decapsulate_with kx kem_sk ct = Inr ss \<and>
      derive_hybrid_shared_secret hk (dh kx a (dh_public kx b)) ss ctxt =
      derive_hybrid_shared_secret hk (dh kx b (dh_public kx a)) ss ctxt) \<and>
    (\<forall>key n. length (derive_key_chain hk key n ctxt) = max 1 n \<and>
       derive_key_chain hk key n ctxt ! 0 = derive hk key (ctxt @ ascii '':0'') \<and>
       (\<forall>i. 0 < i \<and> i < n \<longrightarrow> derive_key_chain hk key n ctxt ! i =
          derive hk (derive_key_chain hk key n ctxt ! (i - 1)) (ctxt @ ascii '':'' @ decimal i)))"
proof (intro conjI allI)
  show "\<exists>ss ct. encapsulate_to kx rnd (kem_public kx kem_sk) = Inr (ss, ct) \<and>
      decapsulate_with kx kem_sk ct = Inr ss \<and>
      derive_hybrid_shared_secret hk (dh kx a (dh_public kx b)) ss ctxt =
      derive_hybrid_shared_secret hk (dh kx b (dh_public kx a)) ss ctxt"
  proof -
    obtain ct ss where "kem_encapsulate kx rnd (kem_public kx kem_sk) = Some (ct, ss)"
      "length ct = KEM_CIPHERTEXT_SIZE kx" "kem_decapsulate kx ct kem_sk = Some ss"
      using assms unfolding key_exchange_correct_def by blast
    moreover have "length (kem_public kx kem_sk) = KEM_PUBLIC_KEY_SIZE kx"
      and "diffie_hellman kx a (dh_public kx b) = diffie_hellman kx b (dh_public kx a)"
      using assms unfolding key_exchange_correct_def by blast+
    ultimately show ?thesis
      using assms(2) by (auto simp: encapsulate_to_def decapsulate_with_def dh_def)
  qed
next
  fix key n
  define k0 where "k0 = derive hk key (ctxt @ ascii '':0'')"
  define ks where "ks = derive_key_chain hk key n ctxt"
  have f: "length ks = 1 + length [1..<n]" "take 1 ks = [k0]"
    "\<And>j. j < length [1..<n] \<Longrightarrow> ks ! (1 + j) = derive hk (ks ! j) (ctxt @ ascii '':'' @ decimal ([1..<n] ! j))"
    using key_chain_fold [of "(k0, [k0])" hk ctxt "[1..<n]"]
    by (simp_all add: ks_def derive_key_chain_def k0_def Let_def)
  show "length (derive_key_chain hk key n ctxt) = max 1 n"
    using f(1) by (simp add: ks_def [symmetric])
  show "derive_key_chain hk key n ctxt ! 0 = derive hk key (ctxt @ ascii '':0'')"
    using f(2) by (cases ks) (simp_all add: ks_def [symmetric] k0_def)
  show "0 < i \<and> i < n \<longrightarrow> derive_key_chain hk key n ctxt ! i =
          derive hk (derive_key_chain hk key n ctxt ! (i - 1)) (ctxt @ ascii '':'' @ decimal i)" for i
    using f(3) [of "i - 1"] by (auto simp: ks_def [symmetric])
qed

text \<open>Key pairs as the structs hold them. Generating one takes the secret it draws.\<close>

record DhKeypair =
  dp_secret :: bytes
  dp_public :: bytes

record KemKeypair =
  kp_secret :: bytes
  kp_public :: bytes

definition DhKeypair_random :: "key_exchange \<Rightarrow> bytes \<Rightarrow> DhKeypair" where
  "DhKeypair_random kx secret_bytes = \<lparr>dp_secret = secret_bytes, dp_public = dh_public kx secret_bytes\<rparr>"

definition KemKeypair_random :: "key_exchange \<Rightarrow> bytes \<Rightarrow> KemKeypair" where
  "KemKeypair_random kx secret = \<lparr>kp_secret = secret, kp_public = kem_public kx secret\<rparr>"

definition encapsulate :: "key_exchange \<Rightarrow> bytes \<Rightarrow> KemKeypair \<Rightarrow> CryptoError + (bytes \<times> bytes)" where
  "encapsulate kx rnd pair = encapsulate_to kx rnd (kp_public pair)"

definition decapsulate :: "key_exchange \<Rightarrow> KemKeypair \<Rightarrow> bytes \<Rightarrow> CryptoError + bytes" where
  "decapsulate kx pair ciphertext = decapsulate_with kx (kp_secret pair) ciphertext"

text \<open>The loopback of a generated pair, and the agreement of two generated pairs.\<close>

lemma generated_pair_loopback:
  assumes "key_exchange_correct kx" "length secret = KEM_SECRET_KEY_SIZE kx"
  shows "\<exists>ss ct. encapsulate kx rnd (KemKeypair_random kx secret) = Inr (ss, ct) \<and> decapsulate kx (KemKeypair_random kx secret) ct = Inr ss"
proof -
  obtain ct ss where "kem_encapsulate kx rnd (kem_public kx secret) = Some (ct, ss)" "length ct = KEM_CIPHERTEXT_SIZE kx"
    "kem_decapsulate kx ct secret = Some ss" "length (kem_public kx secret) = KEM_PUBLIC_KEY_SIZE kx"
    using assms unfolding key_exchange_correct_def by blast
  with assms(2) show ?thesis
    by (simp add: encapsulate_def decapsulate_def KemKeypair_random_def encapsulate_to_def decapsulate_with_def)
qed

lemma generated_pairs_agree:
  "key_exchange_correct kx \<Longrightarrow> dh kx (dp_secret (DhKeypair_random kx a)) (dp_public (DhKeypair_random kx b)) =
     dh kx (dp_secret (DhKeypair_random kx b)) (dp_public (DhKeypair_random kx a))"
  unfolding key_exchange_correct_def by (simp add: DhKeypair_random_def dh_def)

text \<open>A key exchange with the documented behaviour: one-byte keys, combined by addition.\<close>

definition demo_kx :: key_exchange where
  "demo_kx = \<lparr>dh_public = (\<lambda>s. take 1 (s @ [0])),
     diffie_hellman = (\<lambda>s p. [hd (s @ [0]) + hd (p @ [0])]),
     KEM_PUBLIC_KEY_SIZE = 1, KEM_CIPHERTEXT_SIZE = 1, KEM_SECRET_KEY_SIZE = 1,
     kem_public = (\<lambda>s. s), kem_encapsulate = (\<lambda>r p. Some ([hd (r @ [0]) + hd (p @ [0])], [hd (r @ [0])])),
     kem_decapsulate = (\<lambda>c s. Some [hd (c @ [0]) - hd (s @ [0])])\<rparr>"

lemma demo_kx_correct: "key_exchange_correct demo_kx"
proof -
  have "hd (take (Suc 0) (b @ [0]) @ [0]) = hd (b @ [0])" for b :: bytes
    by (cases b) simp_all
  then show ?thesis by (simp add: key_exchange_correct_def demo_kx_def add.commute)
qed

theorem hybrid_agreement_witness:
  "decapsulate_with demo_kx [9] [14] = Inr [5] \<and>
   (\<exists>ss ct. encapsulate_to demo_kx [5] (kem_public demo_kx [9]) = Inr (ss, ct) \<and>
      decapsulate_with demo_kx [9] ct = Inr ss) \<and>
   length (derive_key_chain (\<lambda>_ k c. k @ c) [1] 3 [2]) = 3"
proof -
  have "decapsulate_with demo_kx [9] [14] = Inr [5]" by code_simp
  moreover have "length [9 :: u8] = KEM_SECRET_KEY_SIZE demo_kx" by (simp add: demo_kx_def)
  note hybrid_agreement [OF demo_kx_correct this, of "[5]" "\<lambda>_ k c. k @ c" "[]" "[]" "[2]"]
  ultimately show ?thesis by (auto simp: max_def)
qed

text \<open>A concrete cipher with the documented behaviour: plaintext and a tag of 16 key bytes.\<close>

definition demo_tag :: "bytes \<Rightarrow> bytes" where
  "demo_tag key = take 16 (key @ replicate 16 0)"

definition demo_aead :: aead where
  "demo_aead = \<lparr>aead_seal = (\<lambda>k n p a. p @ demo_tag k),
     aead_open = (\<lambda>k n c a. if 16 \<le> length c \<and> drop (length c - 16) c = demo_tag k
                            then Some (take (length c - 16) c) else None)\<rparr>"

lemma demo_aead_correct: "aead_correct demo_aead"
  by (auto simp: aead_correct_def demo_aead_def demo_tag_def min_def)

end
