(* ===== verification/Routing.thy ===== *)
theory Routing
  imports Crypto
begin

text \<open>
  \<^verbatim>\<open>crates/static-mesh/src/routing.rs\<close>: the routing table, signed peer gossip and the route
  builders. The permutation drawn by \<open>shuffle\<close> is an argument (any permutation of its input);
  \<open>serde_json\<close>, \<open>blake3\<close> and Ed25519 are parameters, and so is the ML-KEM key size, a constant of
  the \<open>pqc_kyber\<close> crate. Addresses are their UTF-8 bytes. The results: hybrid routes always have
  \<open>MIN_HOPS\<close> distinct intermediates besides the destination, gossip reveals neither KEM keys nor
  addresses, and received gossip only ever adds unknown nodes, after the sender is verified.
\<close>

section \<open>Data\<close>

definition MAX_GOSSIP_PEERS :: nat where "MAX_GOSSIP_PEERS = 50"
definition MIN_HOPS :: nat where "MIN_HOPS = 3"

record KnownNode =
  kn_node_id :: NodeId
  kn_public_key :: bytes
  kn_address :: bytes
  kn_kem_public_key :: "bytes option"
  kn_compute_enabled :: bool
  kn_compute_capacity :: u8
  kn_identity_public_key :: "bytes option"

record PeerGossip =
  from_node :: NodeId
  gossip_peers :: "KnownNode list"
  gossip_identity_key :: bytes
  gossip_signature :: bytes

record RoutingTable =
  our_node_id :: NodeId
  nodes :: "(NodeId, KnownNode) hashmap"

record RouteHop =
  rh_public_key :: bytes
  rh_node_id :: NodeId

record Route =
  route_hops :: "RouteHop list"
  route_destination :: NodeId

record HybridRouteHop =
  hh_node_id :: NodeId
  hh_classical_public_key :: bytes
  hh_kem_public_key :: bytes

record HybridRoute =
  hybrid_hops :: "HybridRouteHop list"
  hybrid_destination :: NodeId

datatype RoutingError =
    NotEnoughNodes nat nat
  | NodeNotFound NodeId

text \<open>What the module calls outside the repository: \<open>serde_json::to_vec\<close> (\<open>None\<close> is its error),
  \<open>blake3::hash\<close> and the size of an ML-KEM public key.\<close>

record gossip_env =
  peers_json :: "KnownNode list \<Rightarrow> bytes option"
  gossip_hash :: "bytes \<Rightarrow> bytes"
  HYBRID_KEM_PUBLIC_KEY_SIZE :: nat

section \<open>Gossip messages\<close>

definition gossip_signing_bytes :: "gossip_env \<Rightarrow> PeerGossip \<Rightarrow> bytes" where
  "gossip_signing_bytes env g =
     (let json = (case peers_json env (gossip_peers g) of None \<Rightarrow> [] | Some j \<Rightarrow> j);
          digest = gossip_hash env json
      in from_node g @ digest)"

definition gossip_sign :: "gossip_env \<Rightarrow> 'sk ed25519 \<Rightarrow> 'sk \<Rightarrow> PeerGossip \<Rightarrow> PeerGossip" where
  "gossip_sign env ed sk g =
     (let g = g\<lparr>gossip_identity_key := ed_public ed sk\<rparr>;
          sig = ed_sign ed sk (gossip_signing_bytes env g)
      in g\<lparr>gossip_signature := sig\<rparr>)"

definition gossip_verify :: "gossip_env \<Rightarrow> 'sk ed25519 \<Rightarrow> PeerGossip \<Rightarrow> bool" where
  "gossip_verify env ed g =
     (if MAX_GOSSIP_PEERS < length (gossip_peers g) then False
      else if length (gossip_signature g) \<noteq> 64 then False
      else if \<not> ed_parse ed (gossip_identity_key g) then False
      else ed_check ed (gossip_identity_key g) (gossip_signing_bytes env g) (gossip_signature g))"

section \<open>The table\<close>

definition RoutingTable_new :: "NodeId \<Rightarrow> RoutingTable" where
  "RoutingTable_new our_id = \<lparr>our_node_id = our_id, nodes = []\<rparr>"

definition add_node :: "KnownNode \<Rightarrow> RoutingTable \<Rightarrow> RoutingTable" where
  "add_node node t =
     (if kn_node_id node \<noteq> our_node_id t then t\<lparr>nodes := hm_insert (kn_node_id node) node (nodes t)\<rparr> else t)"

definition remove_node :: "NodeId \<Rightarrow> RoutingTable \<Rightarrow> RoutingTable" where
  "remove_node node_id t = t\<lparr>nodes := hm_remove node_id (nodes t)\<rparr>"

definition get_node :: "RoutingTable \<Rightarrow> NodeId \<Rightarrow> KnownNode option" where
  "get_node t node_id = hm_get (nodes t) node_id"

definition known_ids :: "RoutingTable \<Rightarrow> NodeId list" where
  "known_ids t = hm_keys (nodes t)"

definition node_count :: "RoutingTable \<Rightarrow> nat" where
  "node_count t = hm_len (nodes t)"

section \<open>Routes\<close>

type_synonym shuffle = "KnownNode list \<Rightarrow> KnownNode list"

definition random_route :: "shuffle \<Rightarrow> RoutingTable \<Rightarrow> nat \<Rightarrow> KnownNode list option" where
  "random_route shuffle t hop_count =
     (if hm_len (nodes t) < hop_count then None
      else Some (take hop_count (shuffle (hm_values (nodes t)))))"

definition build_route_to ::
  "shuffle \<Rightarrow> RoutingTable \<Rightarrow> NodeId \<Rightarrow> bytes \<Rightarrow> nat \<Rightarrow> Route option" where
  "build_route_to shuffle t destination dest_public_key hop_count =
     (case random_route shuffle t hop_count of
        None \<Rightarrow> None
      | Some intermediates \<Rightarrow>
          (let hops = map (\<lambda>n. \<lparr>rh_public_key = kn_public_key n, rh_node_id = kn_node_id n\<rparr>) intermediates;
               hops = hops @ [\<lparr>rh_public_key = dest_public_key, rh_node_id = destination\<rparr>]
           in Some \<lparr>route_hops = hops, route_destination = destination\<rparr>))"

definition build_cover_route :: "shuffle \<Rightarrow> RoutingTable \<Rightarrow> nat \<Rightarrow> Route option" where
  "build_cover_route shuffle t hop_count =
     (case random_route shuffle t hop_count of
        None \<Rightarrow> None
      | Some ns \<Rightarrow>
          (let hops = map (\<lambda>n. \<lparr>rh_public_key = kn_public_key n, rh_node_id = kn_node_id n\<rparr>) ns
           in if ns = [] then None
              else Some \<lparr>route_hops = hops, route_destination = kn_node_id (last ns)\<rparr>))"

definition unsigned_gossip :: "shuffle \<Rightarrow> RoutingTable \<Rightarrow> nat \<Rightarrow> PeerGossip" where
  "unsigned_gossip shuffle t max_peers =
     \<lparr>from_node = our_node_id t,
      gossip_peers = map (\<lambda>n. n\<lparr>kn_kem_public_key := None, kn_address := []\<rparr>)
        (take (min max_peers MAX_GOSSIP_PEERS) (shuffle (hm_values (nodes t)))),
      gossip_identity_key = replicate 32 0,
      gossip_signature = []\<rparr>"

definition create_gossip :: "shuffle \<Rightarrow> RoutingTable \<Rightarrow> nat \<Rightarrow> PeerGossip" where
  "create_gossip shuffle t max_peers = unsigned_gossip shuffle t max_peers"

definition create_signed_gossip ::
  "gossip_env \<Rightarrow> 'sk ed25519 \<Rightarrow> shuffle \<Rightarrow> RoutingTable \<Rightarrow> nat \<Rightarrow> 'sk \<Rightarrow> PeerGossip" where
  "create_signed_gossip env ed shuffle t max_peers sk =
     gossip_sign env ed sk (unsigned_gossip shuffle t max_peers)"

definition hybrid_hop :: "KnownNode \<Rightarrow> HybridRouteHop" where
  "hybrid_hop n = \<lparr>hh_node_id = kn_node_id n, hh_classical_public_key = kn_public_key n,
     hh_kem_public_key = (case kn_kem_public_key n of None \<Rightarrow> [] | Some k \<Rightarrow> k)\<rparr>"

definition hybrid_candidates :: "RoutingTable \<Rightarrow> NodeId \<Rightarrow> KnownNode list" where
  "hybrid_candidates t destination =
     filter (\<lambda>n. kn_node_id n \<noteq> destination \<and> kn_node_id n \<noteq> our_node_id t \<and> kn_kem_public_key n \<noteq> None)
       (hm_values (nodes t))"

definition build_hybrid_route ::
  "shuffle \<Rightarrow> RoutingTable \<Rightarrow> NodeId \<Rightarrow> bytes \<Rightarrow> bytes \<Rightarrow> HybridRoute option" where
  "build_hybrid_route shuffle t destination dest_public_key dest_kem_public_key =
     (let candidates = hybrid_candidates t destination
      in if length candidates < MIN_HOPS then None
         else
           (let candidates = shuffle candidates;
                hops = map hybrid_hop (take MIN_HOPS candidates);
                hops = hops @ [\<lparr>hh_node_id = destination, hh_classical_public_key = dest_public_key,
                                hh_kem_public_key = dest_kem_public_key\<rparr>]
            in Some \<lparr>hybrid_hops = hops, hybrid_destination = destination\<rparr>))"

definition build_hybrid_route_to ::
  "shuffle \<Rightarrow> RoutingTable \<Rightarrow> NodeId \<Rightarrow> bytes \<Rightarrow> bytes \<Rightarrow> nat \<Rightarrow> HybridRoute option" where
  "build_hybrid_route_to shuffle t destination dest_public_key dest_kem_public_key hop_count =
     (case random_route shuffle t hop_count of
        None \<Rightarrow> None
      | Some intermediates \<Rightarrow>
          (if \<exists>n\<in>set intermediates. kn_kem_public_key n = None then None
           else
             (let hops = map hybrid_hop intermediates;
                  hops = hops @ [\<lparr>hh_node_id = destination, hh_classical_public_key = dest_public_key,
                                  hh_kem_public_key = dest_kem_public_key\<rparr>]
              in Some \<lparr>hybrid_hops = hops, hybrid_destination = destination\<rparr>)))"

section \<open>Receiving gossip\<close>

text \<open>One iteration of the loop over the gossiped peers: the table and the count of new nodes.\<close>

definition gossip_entry :: "gossip_env \<Rightarrow> KnownNode \<Rightarrow> RoutingTable \<times> nat \<Rightarrow> RoutingTable \<times> nat" where
  "gossip_entry env peer = (\<lambda>(t, new_count).
     if kn_node_id peer = our_node_id t \<or> hm_contains (nodes t) (kn_node_id peer) then (t, new_count)
     else if 256 < length (kn_address peer) then (t, new_count)
     else if (case kn_kem_public_key peer of
                Some kem \<Rightarrow> length kem \<noteq> HYBRID_KEM_PUBLIC_KEY_SIZE env
              | None \<Rightarrow> False) then (t, new_count)
     else (add_node peer t, new_count + 1))"

definition process_gossip ::
  "gossip_env \<Rightarrow> 'sk ed25519 \<Rightarrow> PeerGossip \<Rightarrow> RoutingTable \<Rightarrow> nat \<times> RoutingTable" where
  "process_gossip env ed g t =
     (if \<not> gossip_verify env ed g then (0, t)
      else if (case hm_get (nodes t) (from_node g) of
                 Some known \<Rightarrow> (case kn_identity_public_key known of
                     Some stored \<Rightarrow> stored \<noteq> gossip_identity_key g
                   | None \<Rightarrow> False)
               | None \<Rightarrow> False) then (0, t)
      else (let (t', new_count) = fold (gossip_entry env) (gossip_peers g) (t, 0) in (new_count, t')))"

text \<open>The parts of \<open>static_sphinx::MixNode\<close> these constructors read.\<close>

record MixNodeInfo =
  mix_node_id :: NodeId
  mix_public_key :: bytes

definition node_from_mix :: "MixNodeInfo \<Rightarrow> bytes \<Rightarrow> KnownNode" where
  "node_from_mix n address = \<lparr>kn_node_id = mix_node_id n, kn_public_key = mix_public_key n,
     kn_address = address, kn_kem_public_key = None, kn_compute_enabled = False,
     kn_compute_capacity = 0, kn_identity_public_key = None\<rparr>"

definition node_from_mix_hybrid :: "MixNodeInfo \<Rightarrow> bytes \<Rightarrow> bytes \<Rightarrow> KnownNode" where
  "node_from_mix_hybrid n kem address = \<lparr>kn_node_id = mix_node_id n, kn_public_key = mix_public_key n,
     kn_address = address, kn_kem_public_key = Some kem, kn_compute_enabled = False,
     kn_compute_capacity = 0, kn_identity_public_key = None\<rparr>"

section \<open>The table invariant\<close>

definition table_wf :: "RoutingTable \<Rightarrow> bool" where
  "table_wf t \<longleftrightarrow> hm_wf (nodes t) \<and>
     (\<forall>(k, n)\<in>set (nodes t). kn_node_id n = k \<and> k \<noteq> our_node_id t)"

text \<open>All tables the operations can produce from a new one.\<close>

inductive table_reachable :: "gossip_env \<Rightarrow> 'sk ed25519 \<Rightarrow> NodeId \<Rightarrow> RoutingTable \<Rightarrow> bool"
  for env :: gossip_env and ed :: "'sk ed25519" and our_id :: NodeId where
  start: "table_reachable env ed our_id (RoutingTable_new our_id)"
| add: "table_reachable env ed our_id t \<Longrightarrow> table_reachable env ed our_id (add_node n t)"
| remove: "table_reachable env ed our_id t \<Longrightarrow> table_reachable env ed our_id (remove_node k t)"
| gossip: "table_reachable env ed our_id t \<Longrightarrow>
    table_reachable env ed our_id (snd (process_gossip env ed g t))"

lemma table_wf_new [wf_intros]: "table_wf (RoutingTable_new our_id)"
  by (simp add: table_wf_def RoutingTable_new_def)

lemma our_node_id_add [simp]: "our_node_id (add_node n t) = our_node_id t"
  by (simp add: add_node_def)

lemma table_wf_add [wf_intros]: "table_wf t \<Longrightarrow> table_wf (add_node n t)"
  using set_hm_insert [of "kn_node_id n" n "nodes t"]
  by (auto simp: table_wf_def add_node_def)

lemma set_hm_remove: "set (hm_remove k m) \<subseteq> set m"
  by (auto simp: hm_remove_def AList.delete_eq)

lemma table_wf_remove [wf_intros]: "table_wf t \<Longrightarrow> table_wf (remove_node k t)"
  using set_hm_remove [of k "nodes t"] by (auto simp: table_wf_def remove_node_def)

lemma get_node_add:
  "get_node (add_node n t) k =
     (if k = kn_node_id n \<and> k \<noteq> our_node_id t then Some n else get_node t k)"
  by (auto simp: get_node_def add_node_def)

lemma table_wf_get:
  assumes "table_wf t" "get_node t k = Some n"
  shows "kn_node_id n = k" "k \<noteq> our_node_id t"
  using assms hm_get_SomeD [of "nodes t" k n] by (auto simp: table_wf_def get_node_def)

lemma distinct_values:
  assumes "table_wf t"
  shows "distinct (map kn_node_id (hm_values (nodes t)))"
proof -
  have "map kn_node_id (hm_values (nodes t)) = map fst (nodes t)"
    using assms by (auto simp: table_wf_def hm_values_def)
  with assms show ?thesis by (simp add: table_wf_def hm_wf_def)
qed

lemma set_values: "table_wf t \<Longrightarrow> n \<in> set (hm_values (nodes t)) \<longleftrightarrow> get_node t (kn_node_id n) = Some n"
  by (force simp: table_wf_def hm_values_def get_node_def hm_wf_get_iff)

section \<open>Received gossip\<close>

interpretation gossip_msg: signed_message ed "gossip_signing_bytes env" gossip_identity_key gossip_signature
    "\<lambda>g. length (gossip_peers g) \<le> MAX_GOSSIP_PEERS" "gossip_sign env ed" "gossip_verify env ed" for env ed
  by unfold_locales
     (auto simp: gossip_verify_def signature_valid_def gossip_sign_def gossip_signing_bytes_def Let_def)

text \<open>An entry within the size limits of received gossip.\<close>

definition gossip_acceptable :: "gossip_env \<Rightarrow> KnownNode \<Rightarrow> bool" where
  "gossip_acceptable env p \<longleftrightarrow> length (kn_address p) \<le> 256 \<and>
     (\<forall>kem. kn_kem_public_key p = Some kem \<longrightarrow> length kem = HYBRID_KEM_PUBLIC_KEY_SIZE env)"

text \<open>The loop invariant: what the fold over the peers keeps, from any intermediate table.\<close>

definition gossip_extends :: "gossip_env \<Rightarrow> KnownNode list \<Rightarrow> RoutingTable \<times> nat \<Rightarrow> RoutingTable \<times> nat \<Rightarrow> bool" where
  "gossip_extends env peers s s' \<longleftrightarrow>
     our_node_id (fst s') = our_node_id (fst s) \<and>
     snd s \<le> snd s' \<and> snd s' \<le> snd s + length peers \<and>
     node_count (fst s') + snd s = node_count (fst s) + snd s' \<and>
     (\<forall>k n. get_node (fst s) k = Some n \<longrightarrow> get_node (fst s') k = Some n) \<and>
     (\<forall>k n. get_node (fst s') k = Some n \<longrightarrow> get_node (fst s) k = Some n \<or> n \<in> set peers \<and> gossip_acceptable env n)"

lemma gossip_entry_extends: "gossip_extends env [p] s (gossip_entry env p s)"
  by (auto simp: gossip_extends_def gossip_acceptable_def gossip_entry_def split_beta get_node_add node_count_def
      add_node_def hm_len_insert hm_contains_def get_node_def split: option.splits)

lemma gossip_extends_trans:
  "gossip_extends env xs a b \<Longrightarrow> gossip_extends env ys b c \<Longrightarrow> gossip_extends env (xs @ ys) a c"
  unfolding gossip_extends_def by (elim conjE, intro conjI) (simp_all, blast+)

lemma gossip_fold_extends: "gossip_extends env peers s (fold (gossip_entry env) peers s)"
proof (induction peers arbitrary: s)
  case (Cons p peers)
  show ?case
    using gossip_extends_trans [OF gossip_entry_extends Cons.IH] by simp
qed (simp add: gossip_extends_def)

lemma gossip_entry_wf: "table_wf (fst s) \<Longrightarrow> table_wf (fst (gossip_entry env p s))"
  by (auto simp: gossip_entry_def split_beta intro: wf_intros split: option.splits)

lemma gossip_fold_wf: "table_wf (fst s) \<Longrightarrow> table_wf (fst (fold (gossip_entry env) peers s))"
  by (induction peers arbitrary: s) (simp_all add: gossip_entry_wf)

lemma table_wf_gossip [wf_intros]: "table_wf t \<Longrightarrow> table_wf (snd (process_gossip env ed g t))"
  using gossip_fold_wf [of "(t, 0)" env "gossip_peers g"] by (simp add: process_gossip_def split_beta)

lemma our_node_id_gossip: "our_node_id (snd (process_gossip env ed g t)) = our_node_id t"
  using gossip_fold_extends [of env "gossip_peers g" "(t, 0)"]
  by (auto simp: process_gossip_def split_beta gossip_extends_def)

lemma reachable_wf: "table_reachable env ed our_id t \<Longrightarrow> table_wf t \<and> our_node_id t = our_id"
  by (induction rule: table_reachable.induct)
     (simp_all add: wf_intros our_node_id_gossip, simp_all add: RoutingTable_new_def remove_node_def)

text \<open>Every acceptable entry of the message is known afterwards.\<close>

lemma gossip_fold_learns:
  "p \<in> set peers \<Longrightarrow> gossip_acceptable env p \<Longrightarrow> kn_node_id p \<noteq> our_node_id (fst s) \<Longrightarrow>
     get_node (fst (fold (gossip_entry env) peers s)) (kn_node_id p) \<noteq> None"
proof (induction peers arbitrary: s)
  case (Cons q peers)
  let ?s = "gossip_entry env q s"
  have o: "our_node_id (fst ?s) = our_node_id (fst s)"
    using gossip_entry_extends [of env q s] by (simp add: gossip_extends_def)
  show ?case
  proof (cases "p = q")
    case True
    have "get_node (fst ?s) (kn_node_id p) \<noteq> None"
      using Cons.prems True
      by (auto simp: gossip_entry_def split_beta gossip_acceptable_def get_node_add hm_contains_def
          get_node_def add_node_def split: option.splits)
    then show ?thesis
      using gossip_fold_extends [of env peers ?s] by (auto simp: gossip_extends_def)
  next
    case False
    with Cons.prems have "p \<in> set peers" by simp
    then show ?thesis using Cons.IH [of ?s] Cons.prems o by simp
  qed
qed simp

section \<open>Properties\<close>

text \<open>Any permutation the random number generator may draw.\<close>

definition is_shuffle :: "shuffle \<Rightarrow> bool" where
  "is_shuffle sh \<longleftrightarrow> (\<forall>xs. mset (sh xs) = mset xs)"

lemma is_shuffleD:
  assumes "is_shuffle sh"
  shows "length (sh xs) = length xs" "set (sh xs) = set xs"
    "distinct (map f (sh xs)) = distinct (map f xs)"
proof -
  have m: "mset (sh xs) = mset xs" using assms by (simp add: is_shuffle_def)
  show "length (sh xs) = length xs" by (metis m size_mset)
  show "set (sh xs) = set xs" by (metis m set_mset_mset)
  have "mset (map f (sh xs)) = mset (map f xs)" by (simp add: m)
  then show "distinct (map f (sh xs)) = distinct (map f xs)" by (rule mset_eq_imp_distinct_iff)
qed

text \<open>The ids of the nodes a hybrid route may use as intermediates.\<close>

definition kem_capable :: "RoutingTable \<Rightarrow> NodeId \<Rightarrow> NodeId set" where
  "kem_capable t destination =
     {k. k \<noteq> destination \<and> (\<exists>n. get_node t k = Some n \<and> kn_kem_public_key n \<noteq> None)}"

lemma set_hybrid_candidates:
  assumes "table_wf t"
  shows "n \<in> set (hybrid_candidates t d) \<longleftrightarrow>
    get_node t (kn_node_id n) = Some n \<and> kn_node_id n \<noteq> d \<and> kn_kem_public_key n \<noteq> None"
  using set_values [OF assms, of n] table_wf_get [OF assms, of "kn_node_id n" n]
  by (auto simp: hybrid_candidates_def)

lemma distinct_candidates:
  assumes "table_wf t"
  shows "distinct (map kn_node_id (hybrid_candidates t d))"
  using distinct_values [OF assms] by (simp add: hybrid_candidates_def distinct_map_filter)

lemma length_candidates:
  assumes "table_wf t"
  shows "length (hybrid_candidates t d) = card (kem_capable t d)"
proof -
  have "kem_capable t d = set (map kn_node_id (hybrid_candidates t d))"
    using set_hybrid_candidates [OF assms, of _ d] table_wf_get(1) [OF assms]
    by (force simp: kem_capable_def image_iff)
  then show ?thesis
    using distinct_card [OF distinct_candidates [OF assms], of d] by simp
qed

lemma hybrid_route_cases:
  "build_hybrid_route sh t d pk kem =
     (if length (hybrid_candidates t d) < MIN_HOPS then None
      else Some \<lparr>hybrid_hops = map hybrid_hop (take MIN_HOPS (sh (hybrid_candidates t d))) @
             [\<lparr>hh_node_id = d, hh_classical_public_key = pk, hh_kem_public_key = kem\<rparr>],
             hybrid_destination = d\<rparr>)"
  by (simp add: build_hybrid_route_def Let_def)

lemma hh_node_id_hop [simp]: "hh_node_id (hybrid_hop n) = kn_node_id n"
  by (simp add: hybrid_hop_def)

text \<open>In every table the operations can produce and for every random draw, a hybrid
  route is refused exactly when fewer than \<open>MIN_HOPS\<close> known nodes besides the destination have a
  KEM key. A route that is built has \<open>MIN_HOPS + 1\<close> hops with pairwise different ids, ends at the
  destination with the keys given, never passes through this node, and every intermediate carries
  the keys the table has for it.\<close>

theorem hybrid_route_min_hops:
  assumes "table_reachable env ed our_id t" and "is_shuffle sh"
  shows "(build_hybrid_route sh t d pk kem = None \<longleftrightarrow> card (kem_capable t d) < MIN_HOPS) \<and>
    (\<forall>r. build_hybrid_route sh t d pk kem = Some r \<longrightarrow>
       length (hybrid_hops r) = MIN_HOPS + 1 \<and>
       distinct (map hh_node_id (hybrid_hops r)) \<and>
       hybrid_destination r = d \<and>
       last (hybrid_hops r) = \<lparr>hh_node_id = d, hh_classical_public_key = pk, hh_kem_public_key = kem\<rparr> \<and>
       (\<forall>h\<in>set (butlast (hybrid_hops r)). hh_node_id h \<noteq> our_id \<and>
          (\<exists>n. get_node t (hh_node_id h) = Some n \<and> kn_public_key n = hh_classical_public_key h \<and>
               kn_kem_public_key n = Some (hh_kem_public_key h))))"
proof -
  let ?c = "sh (hybrid_candidates t d)"
  have wf: "table_wf t" and our: "our_node_id t = our_id" using reachable_wf assms(1) by auto
  note sh = is_shuffleD [OF assms(2), where xs = "hybrid_candidates t d"]
  have mem: "get_node t (kn_node_id n) = Some n \<and> kn_node_id n \<noteq> d \<and> kn_kem_public_key n \<noteq> None \<and>
      kn_node_id n \<noteq> our_id" if "n \<in> set (take MIN_HOPS ?c)" for n
    using in_set_takeD [OF that] sh(2) set_hybrid_candidates [OF wf, of n d] table_wf_get(2) [OF wf] our
    by auto
  have "distinct (map kn_node_id ?c)"
    by (simp add: sh(3) distinct_candidates [OF wf])
  then have dist: "distinct (map kn_node_id (take MIN_HOPS ?c))"
    unfolding take_map [symmetric] by (rule distinct_take)
  have "length r = MIN_HOPS" if "\<not> length (hybrid_candidates t d) < MIN_HOPS" "r = take MIN_HOPS ?c" for r
    using that is_shuffleD(1) [OF assms(2), of "hybrid_candidates t d"] by simp
  with mem dist show ?thesis
    by (auto simp: hybrid_route_cases length_candidates [OF wf, symmetric] comp_def hybrid_hop_def
        butlast_append split: option.splits)
qed

definition demo_node :: "u8 \<Rightarrow> KnownNode" where
  "demo_node i = \<lparr>kn_node_id = replicate 16 i, kn_public_key = replicate 32 i, kn_address = [49],
     kn_kem_public_key = Some [i], kn_compute_enabled = False, kn_compute_capacity = 0,
     kn_identity_public_key = None\<rparr>"

definition demo_table :: RoutingTable where
  "demo_table = fold add_node (map demo_node [1, 2, 3, 4]) (RoutingTable_new (replicate 16 0))"

definition demo_env :: gossip_env where
  "demo_env = \<lparr>peers_json = (\<lambda>ps. Some (concat (map kn_node_id ps))),
     gossip_hash = (\<lambda>m. take 32 (m @ replicate 32 0)), HYBRID_KEM_PUBLIC_KEY_SIZE = 1\<rparr>"

lemma demo_table_reachable: "table_reachable demo_env demo_ed (replicate 16 0) demo_table"
  by (simp add: demo_table_def table_reachable.intros)

lemma is_shuffle_rev: "is_shuffle rev"
  by (simp add: is_shuffle_def)

theorem hybrid_route_min_hops_witness:
  "\<exists>r. build_hybrid_route rev demo_table (replicate 16 4) [7] [8] = Some r \<and>
     map hh_node_id (hybrid_hops r) = map (replicate 16) [3, 2, 1, 4] \<and>
     distinct (map hh_node_id (hybrid_hops r)) \<and> length (hybrid_hops r) = MIN_HOPS + 1"
proof -
  let ?r = "build_hybrid_route rev demo_table (replicate 16 4) [7] [8]"
  have "map_option (\<lambda>r. map hh_node_id (hybrid_hops r)) ?r = Some (map (replicate 16) [3, 2, 1, 4])"
    by code_simp
  then obtain r where r: "?r = Some r" "map hh_node_id (hybrid_hops r) = map (replicate 16) [3, 2, 1, 4]"
    by auto
  with hybrid_route_min_hops [OF demo_table_reachable is_shuffle_rev, of "replicate 16 4" "[7]" "[8]"]
  show ?thesis by auto
qed

text \<open>C30 (safety). Whatever message arrives, processing it keeps the table well-formed, never
  changes or removes a node that was known, never adds this node, adds only entries of the message
  that pass the size checks, and returns exactly the number of nodes added, at most
  \<open>MAX_GOSSIP_PEERS\<close>. A message that does not verify, or whose sender is known under another
  identity key, changes nothing.\<close>

theorem process_gossip_safe:
  assumes "table_reachable env ed our_id t" and "process_gossip env ed g t = (added, t')"
  shows "table_wf t' \<and> our_node_id t' = our_id \<and> get_node t' our_id = None \<and>
    (\<forall>k n. get_node t k = Some n \<longrightarrow> get_node t' k = Some n) \<and>
    (\<forall>k n. get_node t k = None \<and> get_node t' k = Some n \<longrightarrow>
       n \<in> set (gossip_peers g) \<and> gossip_acceptable env n \<and> kn_node_id n = k) \<and>
    node_count t' = node_count t + added \<and> added \<le> MAX_GOSSIP_PEERS \<and>
    (\<not> gossip_verify env ed g \<longrightarrow> t' = t) \<and>
    (\<forall>known key. get_node t (from_node g) = Some known \<and> kn_identity_public_key known = Some key \<and>
       key \<noteq> gossip_identity_key g \<longrightarrow> t' = t)"
proof -
  let ?f = "fold (gossip_entry env) (gossip_peers g) (t, 0)"
  have wf: "table_wf t'" and our: "our_node_id t' = our_id"
    using assms(2) reachable_wf [OF assms(1)] table_wf_gossip [of t env ed g] our_node_id_gossip [of env ed g t]
    by auto
  have ext: "gossip_extends env (gossip_peers g) (t, 0) (t', added) \<and> added \<le> MAX_GOSSIP_PEERS"
  proof (cases "(added, t') = (0, t)")
    case False
    then have "?f = (t', added)" and v: "gossip_verify env ed g"
      using assms(2) by (auto simp: process_gossip_def split_beta split: if_splits)
    then have e: "gossip_extends env (gossip_peers g) (t, 0) (t', added)"
      using gossip_fold_extends [of env "gossip_peers g" "(t, 0)"] by simp
    moreover have "length (gossip_peers g) \<le> MAX_GOSSIP_PEERS"
      using v by (simp add: gossip_verify_def split: if_splits)
    ultimately show ?thesis by (simp add: gossip_extends_def)
  qed (simp add: gossip_extends_def)
  have "get_node t' our_id = None"
    using table_wf_get(2) [OF wf, of our_id] our by (cases "get_node t' our_id") auto
  moreover have "t' = t" if "\<not> gossip_verify env ed g \<or> (\<exists>known key. get_node t (from_node g) = Some known \<and>
      kn_identity_public_key known = Some key \<and> key \<noteq> gossip_identity_key g)"
    using that assms(2) by (auto simp: process_gossip_def get_node_def split: if_splits)
  ultimately show ?thesis
    using ext wf our table_wf_get(1) [OF wf] by (fastforce simp: gossip_extends_def)
qed

definition demo_gossip :: PeerGossip where
  "demo_gossip = create_signed_gossip demo_env demo_ed rev demo_table 2 5"

definition demo_receiver :: RoutingTable where
  "demo_receiver = add_node (demo_node 4) (RoutingTable_new (replicate 16 9))"

lemma demo_receiver_reachable: "table_reachable demo_env demo_ed (replicate 16 9) demo_receiver"
  by (simp add: demo_receiver_def table_reachable.intros)

theorem process_gossip_safe_witness:
  "fst (process_gossip demo_env demo_ed demo_gossip demo_receiver) = 1 \<and>
   get_node (snd (process_gossip demo_env demo_ed demo_gossip demo_receiver)) (replicate 16 4) =
     Some (demo_node 4) \<and>
   node_count (snd (process_gossip demo_env demo_ed demo_gossip demo_receiver)) = node_count demo_receiver + 1"
proof -
  have c: "fst (process_gossip demo_env demo_ed demo_gossip demo_receiver) = 1" by code_simp
  have "get_node demo_receiver (replicate 16 4) = Some (demo_node 4)" by code_simp
  with c process_gossip_safe [OF demo_receiver_reachable, of demo_gossip] show ?thesis
    by (metis prod.collapse)
qed

text \<open>Gossip made by a node reveals no KEM key and no address, names at most
  \<open>MAX_GOSSIP_PEERS\<close> of the nodes it knows, and verifies. A receiver that does not know the sender
  under another identity key knows every gossiped node afterwards, except itself.\<close>

theorem signed_gossip_delivers:
  assumes "table_reachable env ed our_id t" and "is_shuffle sh" and "ed25519_correct ed"
    and "g = create_signed_gossip env ed sh t max_peers sk"
    and "\<And>known key. get_node t2 our_id = Some known \<Longrightarrow> kn_identity_public_key known = Some key \<Longrightarrow>
           key = ed_public ed sk"
  shows "gossip_verify env ed g \<and> from_node g = our_id \<and>
    length (gossip_peers g) = min (min max_peers MAX_GOSSIP_PEERS) (node_count t) \<and>
    (\<forall>p\<in>set (gossip_peers g). kn_kem_public_key p = None \<and> kn_address p = [] \<and>
       (\<exists>n. get_node t (kn_node_id p) = Some n \<and> p = n\<lparr>kn_kem_public_key := None, kn_address := []\<rparr>) \<and>
       (kn_node_id p \<noteq> our_node_id t2 \<longrightarrow>
          get_node (snd (process_gossip env ed g t2)) (kn_node_id p) \<noteq> None))"
proof -
  let ?u = "unsigned_gossip sh t max_peers"
  have wf: "table_wf t" and our: "our_node_id t = our_id" using reachable_wf assms(1) by auto
  have g: "gossip_peers g = gossip_peers ?u" "from_node g = our_id" "gossip_identity_key g = ed_public ed sk"
    "gossip_signature g = ed_sign ed sk (gossip_signing_bytes env g)"
    by (simp_all add: assms(4) create_signed_gossip_def gossip_sign_def unsigned_gossip_def our
        gossip_signing_bytes_def Let_def)
  have len: "length (gossip_peers g) = min (min max_peers MAX_GOSSIP_PEERS) (node_count t)"
    using is_shuffleD(1) [OF assms(2), of "hm_values (nodes t)"]
    by (simp add: g(1) unsigned_gossip_def node_count_def hm_len_def hm_values_def)
  then have v: "gossip_verify env ed g"
    using gossip_msg.sign_verifies [OF assms(3), of ?u env sk]
    by (simp add: assms(4) create_signed_gossip_def gossip_sign_def Let_def)
  have p: "kn_kem_public_key p = None \<and> kn_address p = [] \<and>
     (\<exists>n. get_node t (kn_node_id p) = Some n \<and> p = n\<lparr>kn_kem_public_key := None, kn_address := []\<rparr>)"
    if "p \<in> set (gossip_peers g)" for p
    using that is_shuffleD(2) [OF assms(2), of "hm_values (nodes t)"] set_values [OF wf]
    by (auto simp: g(1) unsigned_gossip_def dest!: in_set_takeD)
  have proc: "snd (process_gossip env ed g t2) = fst (fold (gossip_entry env) (gossip_peers g) (t2, 0))"
    using v assms(5) by (auto simp: process_gossip_def g(2,3) get_node_def split_beta split: option.splits)
  have "get_node (snd (process_gossip env ed g t2)) (kn_node_id p) \<noteq> None"
    if "p \<in> set (gossip_peers g)" "kn_node_id p \<noteq> our_node_id t2" for p
    using gossip_fold_learns [OF that(1), of env "(t2, 0)"] p [OF that(1)] that(2)
    by (simp add: proc gossip_acceptable_def)
  with v g(2) len p show ?thesis by blast
qed

theorem signed_gossip_delivers_witness:
  "gossip_verify demo_env demo_ed demo_gossip \<and> length (gossip_peers demo_gossip) = 2 \<and>
   get_node (snd (process_gossip demo_env demo_ed demo_gossip demo_receiver)) (replicate 16 3) \<noteq> None"
proof -
  have n: "get_node demo_receiver (replicate 16 0) = None" "node_count demo_table = 4"
    "our_node_id demo_receiver = replicate 16 9"
    "map kn_node_id (gossip_peers demo_gossip) = [replicate 16 4, replicate 16 3]" by code_simp+
  have "replicate 16 3 \<in> set (map kn_node_id (gossip_peers demo_gossip))"
    unfolding n(4) by (rule list.set_intros(2)) simp
  then obtain p where p: "p \<in> set (gossip_peers demo_gossip)" "kn_node_id p = replicate 16 3"
    unfolding set_map by (metis imageE)
  have "replicate 16 3 \<noteq> (replicate 16 9 :: bytes)" by code_simp
  with p n signed_gossip_delivers [OF demo_table_reachable is_shuffle_rev demo_ed_correct demo_gossip_def,
      of demo_receiver]
  show ?thesis by (auto simp: MAX_GOSSIP_PEERS_def)
qed

end
