(* ===== verification/StorageCore.thy ===== *)
theory StorageCore
  imports Crypto F64
begin

text \<open>
  \<^verbatim>\<open>crates/static-storage/src/lib.rs\<close>: chunk and file encryption, Reed-Solomon erasure coding,
  leases, the crate's simple credit table and the streaming decryptor. The cipher, HKDF and
  \<open>blake3\<close> are parameters, and so is \<open>reed_solomon_erasure\<close>, whose documented promise (any \<open>k\<close> of
  \<open>k + m\<close> shards restore all) is the predicate \<open>rs_correct\<close>. Buffers that Rust allocates up front
  (\<open>Vec::with_capacity\<close>) have no content and no counterpart here; \<open>usize\<close> is 64 bits wide.
\<close>

section \<open>Data\<close>

definition CHUNK_SIZE :: nat where "CHUNK_SIZE = 1024 * 1024"
definition SEGMENT_SIZE :: nat where "SEGMENT_SIZE = 4096"
definition SEGMENTS_PER_CHUNK :: nat where "SEGMENTS_PER_CHUNK = CHUNK_SIZE div SEGMENT_SIZE"
definition DEFAULT_DATA_SHARDS :: nat where "DEFAULT_DATA_SHARDS = 10"
definition DEFAULT_PARITY_SHARDS :: nat where "DEFAULT_PARITY_SHARDS = 5"

record EncryptedChunk =
  ec_id :: ChunkId
  ec_data :: bytes

record ChunkLease =
  lease_chunk_id :: ChunkId
  expires_at :: u64
  renewal_token :: bytes
  lease_content_pub_key :: bytes

record ContentManifest =
  manifest_content_id :: ContentId
  encrypted_master_key :: bytes
  chunk_ids :: "ChunkId list"
  original_size :: u64
  manifest_data_shards :: nat
  manifest_parity_shards :: nat
  manifest_nonce :: bytes
  segment_hashes :: "bytes list list"

text \<open>The cryptography the crate calls: cipher, HKDF and \<open>blake3::hash\<close>.\<close>

record storage_env =
  se_aead :: aead
  se_hkdf :: hkdf
  blake3 :: "bytes \<Rightarrow> bytes"

section \<open>The crate's credit table\<close>

record StorageAccountingState =
  bytes_contributed :: u64
  bytes_used :: u64
  peer_credits :: "(NodeId, i64) hashmap"

definition storage_ratio :: "StorageAccountingState \<Rightarrow> f64" where
  "storage_ratio s =
     (if bytes_used s = 0 then INFINITY
      else Fin (f64_div (f64_of_nat (unat (bytes_contributed s))) (f64_of_nat (unat (bytes_used s)))))"

definition peer_credit :: "StorageAccountingState \<Rightarrow> NodeId \<Rightarrow> i64" where
  "peer_credit s peer = (case hm_get (peer_credits s) peer of None \<Rightarrow> 0 | Some c \<Rightarrow> c)"

definition peer_has_credit :: "StorageAccountingState \<Rightarrow> NodeId \<Rightarrow> u64 \<Rightarrow> bool" where
  "peer_has_credit s peer needed \<longleftrightarrow> sint needed \<le> sint (peer_credit s peer)"

definition record_contribution :: "NodeId \<Rightarrow> u64 \<Rightarrow> StorageAccountingState \<Rightarrow> StorageAccountingState" where
  "record_contribution peer bytes s =
     s\<lparr>bytes_contributed := bytes_contributed s + bytes,
       peer_credits := hm_insert peer (peer_credit s peer + bytes) (peer_credits s)\<rparr>"

definition record_usage :: "NodeId \<Rightarrow> u64 \<Rightarrow> StorageAccountingState \<Rightarrow> StorageAccountingState" where
  "record_usage peer bytes s =
     s\<lparr>bytes_used := bytes_used s + bytes,
       peer_credits := hm_insert peer (peer_credit s peer - bytes) (peer_credits s)\<rparr>"

section \<open>Chunk and file encryption\<close>

text \<open>The nonce of chunk \<open>i\<close>: \<open>chunk_nonce_bytes[4..12].copy_from_slice(&(i as u64).to_le_bytes())\<close>.\<close>

definition chunk_nonce :: "bytes \<Rightarrow> nat \<Rightarrow> bytes" where
  "chunk_nonce nonce chunk_index = take 4 nonce @ to_le64 (word_of_nat chunk_index) @ drop 12 nonce"

definition chunk_key :: "storage_env \<Rightarrow> bytes \<Rightarrow> nat \<Rightarrow> bytes" where
  "chunk_key env master_key chunk_index =
     derive (se_hkdf env) master_key (ascii ''chunk:'' @ decimal chunk_index)"

definition encrypt_chunk :: "storage_env \<Rightarrow> bytes \<Rightarrow> bytes \<Rightarrow> nat \<Rightarrow> bytes \<Rightarrow> StorageError + EncryptedChunk" where
  "encrypt_chunk env master_key nonce chunk_index plaintext =
     (let len = min (length plaintext) CHUNK_SIZE;
          padded = take len plaintext @ replicate (CHUNK_SIZE - len) 0;
          ciphertext = encrypt (se_aead env) (chunk_key env master_key chunk_index)
            (chunk_nonce nonce chunk_index) padded
      in if length ciphertext \<noteq> CHUNK_SIZE + 16 then Inl EncryptionFailed
         else Inr \<lparr>ec_id = blake3 env ciphertext, ec_data = ciphertext\<rparr>)"

definition decrypt_chunk :: "storage_env \<Rightarrow> bytes \<Rightarrow> bytes \<Rightarrow> nat \<Rightarrow> EncryptedChunk \<Rightarrow> StorageError + bytes" where
  "decrypt_chunk env master_key nonce chunk_index chunk =
     (case decrypt (se_aead env) (chunk_key env master_key chunk_index)
        (chunk_nonce nonce chunk_index) (ec_data chunk) of
        Inl _ \<Rightarrow> Inl DecryptionFailed
      | Inr p \<Rightarrow> Inr p)"

text \<open>The loop of \<open>encrypt_file\<close> over the chunk indices, with the early return of \<open>?\<close>.\<close>

fun encrypt_chunks ::
  "storage_env \<Rightarrow> bytes \<Rightarrow> bytes \<Rightarrow> bytes \<Rightarrow> nat list \<Rightarrow> StorageError + EncryptedChunk list" where
  "encrypt_chunks env master_key nonce file_data [] = Inr []"
| "encrypt_chunks env master_key nonce file_data (i # is) =
     (let start = i * CHUNK_SIZE;
          stop = min (start + CHUNK_SIZE) (length file_data);
          chunk_plaintext = take (stop - start) (drop start file_data)
      in case encrypt_chunk env master_key nonce i chunk_plaintext of
           Inl e \<Rightarrow> Inl e
         | Inr c \<Rightarrow> (case encrypt_chunks env master_key nonce file_data is of
               Inl e \<Rightarrow> Inl e
             | Inr cs \<Rightarrow> Inr (c # cs)))"

definition encrypt_file ::
  "storage_env \<Rightarrow> bytes \<Rightarrow> bytes \<Rightarrow> bytes \<Rightarrow> StorageError + (EncryptedChunk list \<times> ContentManifest)" where
  "encrypt_file env master_key nonce file_data =
     (let num_chunks = max 1 ((length file_data + CHUNK_SIZE - 1) div CHUNK_SIZE)
      in case encrypt_chunks env master_key nonce file_data [0..<num_chunks] of
           Inl e \<Rightarrow> Inl e
         | Inr chunks \<Rightarrow>
             (let ids = map ec_id chunks
              in Inr (chunks, \<lparr>manifest_content_id = blake3 env (concat ids), encrypted_master_key = [],
                   chunk_ids = ids, original_size = word_of_nat (length file_data),
                   manifest_data_shards = DEFAULT_DATA_SHARDS, manifest_parity_shards = DEFAULT_PARITY_SHARDS,
                   manifest_nonce = nonce, segment_hashes = []\<rparr>)))"

fun decrypt_chunks ::
  "storage_env \<Rightarrow> bytes \<Rightarrow> bytes \<Rightarrow> u64 \<Rightarrow> nat \<Rightarrow> EncryptedChunk list \<Rightarrow> bytes \<Rightarrow> StorageError + bytes" where
  "decrypt_chunks env master_key nonce orig i [] result = Inr result"
| "decrypt_chunks env master_key nonce orig i (chunk # chunks) result =
     (case decrypt_chunk env master_key nonce i chunk of
        Inl e \<Rightarrow> Inl e
      | Inr plaintext \<Rightarrow>
          (let remaining = unat (orig - word_of_nat (length result));
               to_take = min (length plaintext) remaining
           in decrypt_chunks env master_key nonce orig (i + 1) chunks (result @ take to_take plaintext)))"

definition decrypt_file ::
  "storage_env \<Rightarrow> bytes \<Rightarrow> bytes \<Rightarrow> EncryptedChunk list \<Rightarrow> ContentManifest \<Rightarrow> StorageError + bytes" where
  "decrypt_file env master_key nonce chunks manifest =
     decrypt_chunks env master_key nonce (original_size manifest) 0 chunks []"

section \<open>Erasure coding\<close>

text \<open>\<open>reed_solomon_erasure\<close>: \<open>ReedSolomon::new\<close> (\<open>Some\<close> is its error), \<open>encode\<close> on data shards
  followed by zeroed parity shards, \<open>reconstruct\<close> on shards of which some are missing.\<close>

record reed_solomon =
  rs_new :: "nat \<Rightarrow> nat \<Rightarrow> string option"
  rs_encode :: "nat \<Rightarrow> nat \<Rightarrow> bytes list \<Rightarrow> string + bytes list"
  rs_reconstruct :: "nat \<Rightarrow> nat \<Rightarrow> bytes option list \<Rightarrow> string + bytes option list"

definition erasure_msg :: "string \<Rightarrow> nat \<Rightarrow> nat \<Rightarrow> string" where
  "erasure_msg what need have =
     ''expected '' @ map (\<lambda>b. char_of (unat b)) (decimal need) @ what @
     '', got '' @ map (\<lambda>b. char_of (unat b)) (decimal have)"

definition erasure_encode ::
  "storage_env \<Rightarrow> reed_solomon \<Rightarrow> EncryptedChunk list \<Rightarrow> nat \<Rightarrow> nat \<Rightarrow>
     StorageError + EncryptedChunk list" where
  "erasure_encode env rs chunks data_shards parity_shards =
     (if length chunks \<noteq> data_shards then Inl (ErasureError (erasure_msg '' data shards'' data_shards (length chunks)))
      else case rs_new rs data_shards parity_shards of
        Some e \<Rightarrow> Inl (ErasureError e)
      | None \<Rightarrow>
          (let shards = map ec_data chunks;
               shard_size = length (shards ! 0);
               shards = shards @ replicate parity_shards (replicate shard_size 0)
           in case rs_encode rs data_shards parity_shards shards of
                Inl e \<Rightarrow> Inl (ErasureError e)
              | Inr shards \<Rightarrow>
                  Inr (map (\<lambda>i. \<lparr>ec_id = ec_id (chunks ! i), ec_data = shards ! i\<rparr>) [0..<data_shards] @
                       map (\<lambda>i. \<lparr>ec_id = blake3 env (shards ! i), ec_data = shards ! i\<rparr>)
                         [data_shards..<data_shards + parity_shards])))"

definition erasure_decode ::
  "storage_env \<Rightarrow> reed_solomon \<Rightarrow> EncryptedChunk option list \<Rightarrow> nat \<Rightarrow> nat \<Rightarrow>
     StorageError + EncryptedChunk list" where
  "erasure_decode env rs shards data_shards parity_shards =
     (let expected = data_shards + parity_shards;
          present = length (filter (\<lambda>s. s \<noteq> None) shards)
      in if length shards \<noteq> expected then Inl (ErasureError (erasure_msg '' shards'' expected (length shards)))
         else if present < data_shards then Inl (InsufficientShards present data_shards)
         else case rs_new rs data_shards parity_shards of
           Some e \<Rightarrow> Inl (ErasureError e)
         | None \<Rightarrow>
             (case rs_reconstruct rs data_shards parity_shards (map (map_option ec_data) shards) of
                Inl e \<Rightarrow> Inl (ErasureError e)
              | Inr rs_shards \<Rightarrow>
                  Inr (map (\<lambda>i. let shard_data = the (rs_shards ! i)
                                in \<lparr>ec_id = blake3 env shard_data, ec_data = shard_data\<rparr>) [0..<data_shards])))"

section \<open>Leases\<close>

definition lease_token :: "storage_env \<Rightarrow> bytes \<Rightarrow> bytes" where
  "lease_token env master_key = blake3 env (derive (se_hkdf env) master_key (ascii ''lease_token''))"

definition create_lease :: "storage_env \<Rightarrow> ChunkId \<Rightarrow> bytes \<Rightarrow> u64 \<Rightarrow> u64 \<Rightarrow> ChunkLease" where
  "create_lease env chunk_id master_key duration_secs current_time =
     \<lparr>lease_chunk_id = chunk_id, expires_at = current_time + duration_secs,
      renewal_token = lease_token env master_key, lease_content_pub_key = replicate 32 0\<rparr>"

definition verify_renewal_token :: "storage_env \<Rightarrow> ChunkId \<Rightarrow> bytes \<Rightarrow> bytes \<Rightarrow> bool" where
  "verify_renewal_token env chunk_id master_key token \<longleftrightarrow> lease_token env master_key = token"

definition is_lease_valid :: "ChunkLease \<Rightarrow> u64 \<Rightarrow> bool" where
  "is_lease_valid lease current_time \<longleftrightarrow> current_time < expires_at lease"

definition refresh_lease :: "storage_env \<Rightarrow> ChunkLease \<Rightarrow> bytes \<Rightarrow> u64 \<Rightarrow> u64 \<Rightarrow> StorageError + ChunkLease" where
  "refresh_lease env lease master_key new_duration_secs current_time =
     (if \<not> verify_renewal_token env (lease_chunk_id lease) master_key (renewal_token lease)
      then Inl InvalidRenewalToken
      else Inr \<lparr>lease_chunk_id = lease_chunk_id lease, expires_at = current_time + new_duration_secs,
             renewal_token = renewal_token lease, lease_content_pub_key = lease_content_pub_key lease\<rparr>)"

section \<open>Streaming decryption\<close>

text \<open>\<open>zeroized\<close> is the memory released by the last operation: what \<open>zeroize_vec\<close> wrote over.\<close>

record StreamingDecryptor =
  sd_master_key :: bytes
  sd_nonce :: bytes
  current_index :: nat
  current_plaintext :: "bytes option"
  zeroized :: "bytes list"

definition zeroize_vec :: "bytes \<Rightarrow> bytes" where
  "zeroize_vec v = map (\<lambda>_. 0) v"

definition StreamingDecryptor_new :: "bytes \<Rightarrow> bytes \<Rightarrow> StreamingDecryptor" where
  "StreamingDecryptor_new master_key nonce =
     \<lparr>sd_master_key = master_key, sd_nonce = nonce, current_index = 0, current_plaintext = None, zeroized = []\<rparr>"

definition zeroize_current :: "StreamingDecryptor \<Rightarrow> StreamingDecryptor" where
  "zeroize_current d =
     (case current_plaintext d of
        None \<Rightarrow> d
      | Some pt \<Rightarrow> d\<lparr>current_plaintext := None, zeroized := zeroized d @ [zeroize_vec pt]\<rparr>)"

definition next_chunk ::
  "storage_env \<Rightarrow> EncryptedChunk \<Rightarrow> StreamingDecryptor \<Rightarrow> (StorageError + bytes) \<times> StreamingDecryptor" where
  "next_chunk env chunk d =
     (let d = zeroize_current d
      in case decrypt_chunk env (sd_master_key d) (sd_nonce d) (current_index d) chunk of
           Inl e \<Rightarrow> (Inl e, d)
         | Inr plaintext \<Rightarrow>
             (Inr plaintext, d\<lparr>current_plaintext := Some plaintext, current_index := current_index d + 1\<rparr>))"

text \<open>\<open>Drop\<close>: the plaintext is wiped. (The key bytes it overwrites are a copy.)\<close>

definition StreamingDecryptor_drop :: "StreamingDecryptor \<Rightarrow> StreamingDecryptor" where
  "StreamingDecryptor_drop d = zeroize_current d"

section \<open>Files survive encryption\<close>

definition file_piece :: "bytes \<Rightarrow> nat \<Rightarrow> bytes" where
  "file_piece file_data i = take CHUNK_SIZE (drop (i * CHUNK_SIZE) file_data)"

definition pad_chunk :: "bytes \<Rightarrow> bytes" where
  "pad_chunk p = take CHUNK_SIZE p @ replicate (CHUNK_SIZE - length p) 0"

definition sealed :: "storage_env \<Rightarrow> bytes \<Rightarrow> bytes \<Rightarrow> nat \<Rightarrow> bytes \<Rightarrow> EncryptedChunk" where
  "sealed env mk nonce i p =
     (let ct = encrypt (se_aead env) (chunk_key env mk i) (chunk_nonce nonce i) (pad_chunk p)
      in \<lparr>ec_id = blake3 env ct, ec_data = ct\<rparr>)"

lemma length_pad_chunk [simp]: "length (pad_chunk p) = CHUNK_SIZE"
  by (simp add: pad_chunk_def)

lemma pad_chunk_eq:
  "take (min (length p) CHUNK_SIZE) p @ replicate (CHUNK_SIZE - min (length p) CHUNK_SIZE) 0 = pad_chunk p"
  by (auto simp: pad_chunk_def min_def)

lemma encrypt_chunk_sealed:
  "aead_correct (se_aead env) \<Longrightarrow> encrypt_chunk env mk nonce i p = Inr (sealed env mk nonce i p)"
  by (simp add: encrypt_chunk_def sealed_def pad_chunk_eq Let_def)

lemma decrypt_chunk_sealed:
  "aead_correct (se_aead env) \<Longrightarrow> decrypt_chunk env mk nonce i (sealed env mk nonce i p) = Inr (pad_chunk p)"
  by (simp add: decrypt_chunk_def sealed_def Let_def)

lemma length_sealed: "aead_correct (se_aead env) \<Longrightarrow> length (ec_data (sealed env mk nonce i p)) = CHUNK_SIZE + 16"
  by (simp add: sealed_def Let_def)

lemma id_sealed: "ec_id (sealed env mk nonce i p) = blake3 env (ec_data (sealed env mk nonce i p))"
  by (simp add: sealed_def Let_def)

lemma piece_slice:
  "take (min (i * CHUNK_SIZE + CHUNK_SIZE) (length xs) - i * CHUNK_SIZE) (drop (i * CHUNK_SIZE) xs) =
     file_piece xs i"
  by (auto simp: file_piece_def min_def)

lemma encrypt_chunks_sealed:
  "aead_correct (se_aead env) \<Longrightarrow>
     encrypt_chunks env mk nonce xs is = Inr (map (\<lambda>i. sealed env mk nonce i (file_piece xs i)) is)"
  by (induction "is") (simp_all add: Let_def piece_slice encrypt_chunk_sealed)

lemma take_pad_piece:
  "take (min CHUNK_SIZE (length xs - length (take (i * CHUNK_SIZE) xs))) (pad_chunk (file_piece xs i)) = file_piece xs i"
  by (auto simp: pad_chunk_def file_piece_def min_def)

lemma decrypt_chunks_sealed:
  assumes "aead_correct (se_aead env)" and "length xs < 2 ^ 64"
  shows "decrypt_chunks env mk nonce (word_of_nat (length xs)) i
      (map (\<lambda>i. sealed env mk nonce i (file_piece xs i)) [i..<i + n]) (take (i * CHUNK_SIZE) xs) =
    Inr (take ((i + n) * CHUNK_SIZE) xs)"
proof (induction n arbitrary: i)
  case (Suc n)
  let ?r = "take (i * CHUNK_SIZE) xs"
  have le: "length ?r \<le> length xs" by simp
  have "(word_of_nat (length xs) :: u64) - word_of_nat (length ?r) = word_of_nat (length xs - length ?r)"
    using le by (simp only: of_nat_diff)
  moreover have "unat (word_of_nat (length xs - length ?r) :: u64) = length xs - length ?r"
    using assms(2) by (simp only: unat_of_nat) (simp add: less_imp_diff_less)
  ultimately have rem: "unat ((word_of_nat (length xs) :: u64) - word_of_nat (length ?r)) = length xs - length ?r"
    by simp
  have split: "[i..<i + Suc n] = i # [Suc i..<Suc i + n]" by (simp add: upt_conv_Cons)
  have step: "?r @ file_piece xs i = take (Suc i * CHUNK_SIZE) xs"
    using take_add [of "i * CHUNK_SIZE" CHUNK_SIZE xs] by (simp add: file_piece_def add.commute)
  show ?case
    using Suc [of "Suc i"]
    by (simp only: split list.map decrypt_chunks.simps decrypt_chunk_sealed [OF assms(1)] sum.case
        Let_def rem length_pad_chunk take_pad_piece step) simp
qed simp

lemma enough_chunks: "length xs \<le> max 1 ((length xs + CHUNK_SIZE - 1) div CHUNK_SIZE) * CHUNK_SIZE"
proof -
  have "length xs \<le> (length xs + CHUNK_SIZE - 1) div CHUNK_SIZE * CHUNK_SIZE"
    by (simp add: CHUNK_SIZE_def)
  then show ?thesis by (meson le_trans max.cobounded2 mult_le_mono1)
qed

lemma encrypt_file_result:
  assumes "aead_correct (se_aead env)" and "length file < 2 ^ 64"
    and "encrypt_file env mk nonce file = Inr (chunks, manifest)"
  shows "decrypt_file env mk nonce chunks manifest = Inr file"
    and "chunk_ids manifest = map ec_id chunks" and "manifest_nonce manifest = nonce"
    and "length chunks = max 1 ((length file + CHUNK_SIZE - 1) div CHUNK_SIZE)"
    and "c \<in> set chunks \<Longrightarrow> length (ec_data c) = CHUNK_SIZE + 16 \<and> ec_id c = blake3 env (ec_data c)"
    and "manifest_content_id manifest = blake3 env (concat (chunk_ids manifest))"
proof -
  let ?n = "max 1 ((length file + CHUNK_SIZE - 1) div CHUNK_SIZE)"
  have chunks: "chunks = map (\<lambda>i. sealed env mk nonce i (file_piece file i)) [0..<?n]"
    and m: "original_size manifest = word_of_nat (length file)" "chunk_ids manifest = map ec_id chunks"
      "manifest_nonce manifest = nonce" "manifest_content_id manifest = blake3 env (concat (map ec_id chunks))"
    using assms(3) by (auto simp: encrypt_file_def encrypt_chunks_sealed [OF assms(1)] Let_def)
  show "decrypt_file env mk nonce chunks manifest = Inr file"
    using decrypt_chunks_sealed [OF assms(1,2), of mk nonce 0 ?n] enough_chunks [of "file"]
    by (simp add: decrypt_file_def chunks m)
  show "chunk_ids manifest = map ec_id chunks" "manifest_nonce manifest = nonce"
    "manifest_content_id manifest = blake3 env (concat (chunk_ids manifest))" by (simp_all add: m)
  show "length chunks = ?n" by (simp add: chunks)
  show "length (ec_data c) = CHUNK_SIZE + 16 \<and> ec_id c = blake3 env (ec_data c)" if "c \<in> set chunks"
    using that length_sealed [OF assms(1)] id_sealed by (auto simp: chunks)
qed

text \<open>Every file shorter than \<open>2^64\<close> bytes is encrypted without error into uniform
  chunks of \<open>CHUNK_SIZE + 16\<close> bytes whose ids are their hashes, at least one and as few as needed,
  the manifest lists the ids and hashes them into the content id, and decryption with the same key
  returns exactly the file.\<close>

theorem file_roundtrip:
  assumes "aead_correct (se_aead env)" and "length file < 2 ^ 64"
  shows "\<exists>chunks manifest. encrypt_file env mk nonce file = Inr (chunks, manifest) \<and>
    length chunks = max 1 ((length file + CHUNK_SIZE - 1) div CHUNK_SIZE) \<and>
    (\<forall>c\<in>set chunks. length (ec_data c) = CHUNK_SIZE + 16 \<and> ec_id c = blake3 env (ec_data c)) \<and>
    chunk_ids manifest = map ec_id chunks \<and>
    manifest_content_id manifest = blake3 env (concat (chunk_ids manifest)) \<and>
    decrypt_file env mk nonce chunks manifest = Inr file"
proof -
  obtain chunks manifest where e: "encrypt_file env mk nonce file = Inr (chunks, manifest)"
    by (simp add: encrypt_file_def encrypt_chunks_sealed [OF assms(1)] Let_def)
  show ?thesis using encrypt_file_result [OF assms e] e by auto
qed

text \<open>A concrete environment, for witnesses.\<close>

definition demo_storage :: storage_env where
  "demo_storage = \<lparr>se_aead = demo_aead, se_hkdf = (\<lambda>s k c. take 32 (k @ c @ replicate 32 0)),
     blake3 = (\<lambda>m. take 32 (m @ replicate 32 0))\<rparr>"

lemma demo_storage_aead [simp]: "aead_correct (se_aead demo_storage)"
  by (simp add: demo_storage_def demo_aead_correct)

theorem file_roundtrip_witness:
  "\<exists>chunks manifest. encrypt_file demo_storage (replicate 32 7) (replicate 12 1) [1, 2, 3] = Inr (chunks, manifest) \<and>
     length chunks = 1 \<and> decrypt_file demo_storage (replicate 32 7) (replicate 12 1) chunks manifest = Inr [1, 2, 3]"
proof -
  have "length [1 :: u8, 2, 3] < 2 ^ 64" by simp
  moreover have "max 1 ((length [1 :: u8, 2, 3] + CHUNK_SIZE - 1) div CHUNK_SIZE) = 1"
    by (simp add: CHUNK_SIZE_def)
  ultimately show ?thesis
    using file_roundtrip [OF demo_storage_aead, of "[1, 2, 3]" "replicate 32 7" "replicate 12 1"] by auto
qed

section \<open>Streaming decryption\<close>

text \<open>A reader that streams all chunks and keeps what each call returned.\<close>

fun stream_all ::
  "storage_env \<Rightarrow> EncryptedChunk list \<Rightarrow> StreamingDecryptor \<Rightarrow> (StorageError + bytes) list \<times> StreamingDecryptor" where
  "stream_all env [] d = ([], d)"
| "stream_all env (c # cs) d =
     (let (r, d) = next_chunk env c d; (rs, d) = stream_all env cs d in (r # rs, d))"

definition wiped :: "StreamingDecryptor \<Rightarrow> bool" where
  "wiped d \<longleftrightarrow> (\<forall>v\<in>set (zeroized d). \<forall>b\<in>set v. b = 0)"

lemma wiped_zeroize: "wiped d \<Longrightarrow> wiped (zeroize_current d)"
  by (auto simp: wiped_def zeroize_current_def zeroize_vec_def split: option.splits)

lemma zeroize_current_simps [simp]:
  "sd_master_key (zeroize_current d) = sd_master_key d" "sd_nonce (zeroize_current d) = sd_nonce d"
  "current_index (zeroize_current d) = current_index d" "current_plaintext (zeroize_current d) = None"
  by (simp_all add: zeroize_current_def split: option.splits)

lemma next_chunk_wiped: "wiped d \<Longrightarrow> next_chunk env c d = (r, d') \<Longrightarrow> wiped d'"
  using wiped_zeroize [of d] by (auto simp: next_chunk_def wiped_def Let_def split: sum.splits)

lemma stream_all_wiped: "wiped d \<Longrightarrow> wiped (snd (stream_all env cs d))"
proof (induction cs arbitrary: d)
  case (Cons c cs)
  have "wiped (snd (next_chunk env c d))"
    by (rule next_chunk_wiped [OF Cons.prems surjective_pairing])
  then show ?case using Cons.IH by (simp add: split_beta)
qed simp

lemma stream_all_sealed:
  assumes "aead_correct (se_aead env)" and "sd_master_key d = mk" and "sd_nonce d = nonce"
  shows "fst (stream_all env (map (\<lambda>i. sealed env mk nonce i (f i)) [current_index d..<current_index d + n]) d) =
    map (\<lambda>i. Inr (pad_chunk (f i))) [current_index d..<current_index d + n]"
  using assms(2,3)
proof (induction n arbitrary: d)
  case (Suc n)
  let ?i = "current_index d"
  define d' where "d' = (zeroize_current d)\<lparr>current_plaintext := Some (pad_chunk (f ?i)), current_index := ?i + 1\<rparr>"
  have split: "[?i..<?i + Suc n] = ?i # [current_index d'..<current_index d' + n]"
    by (simp add: upt_conv_Cons d'_def)
  have "next_chunk env (sealed env mk nonce ?i (f ?i)) d = (Inr (pad_chunk (f ?i)), d')"
    using Suc.prems by (simp add: next_chunk_def decrypt_chunk_sealed [OF assms(1)] d'_def)
  moreover have "sd_master_key d' = mk" "sd_nonce d' = nonce" using Suc.prems by (simp_all add: d'_def)
  ultimately show ?case
    unfolding split using Suc.IH [of d'] by (simp add: split_beta)
qed simp

lemma concat_pieces: "concat (map (file_piece xs) [0..<n]) = take (n * CHUNK_SIZE) xs"
proof (induction n)
  case (Suc n)
  then show ?case
    using take_add [of "n * CHUNK_SIZE" CHUNK_SIZE xs] by (simp add: file_piece_def add.commute)
qed simp

text \<open>Streaming the chunks of an encrypted file returns its pieces in order, each
  padded to \<open>CHUNK_SIZE\<close>: cut to the file's pieces they are the file. At every point at most one
  plaintext is held, and every released plaintext, also the one held when the decryptor is dropped,
  has been overwritten with zeros.\<close>

theorem streaming_matches_file:
  assumes "aead_correct (se_aead env)" and "encrypt_file env mk nonce file = Inr (chunks, manifest)"
    and "stream_all env chunks (StreamingDecryptor_new mk nonce) = (results, d)"
  shows "results = map (\<lambda>i. Inr (pad_chunk (file_piece file i))) [0..<length chunks] \<and>
    concat (map (file_piece file) [0..<length chunks]) = file \<and>
    wiped d \<and> wiped (StreamingDecryptor_drop d) \<and> current_plaintext (StreamingDecryptor_drop d) = None"
proof -
  let ?n = "max 1 ((length file + CHUNK_SIZE - 1) div CHUNK_SIZE)"
  have chunks: "chunks = map (\<lambda>i. sealed env mk nonce i (file_piece file i)) [0..<?n]"
    using assms(2) by (simp add: encrypt_file_def encrypt_chunks_sealed [OF assms(1)] Let_def)
  have "fst (stream_all env chunks (StreamingDecryptor_new mk nonce)) =
      map (\<lambda>i. Inr (pad_chunk (file_piece file i))) [0..<?n]"
    using stream_all_sealed [OF assms(1), of "StreamingDecryptor_new mk nonce" mk nonce "file_piece file" ?n]
    by (simp add: chunks StreamingDecryptor_new_def)
  moreover have "length chunks = ?n" by (simp add: chunks)
  moreover have "wiped (StreamingDecryptor_new mk nonce)" by (simp add: wiped_def StreamingDecryptor_new_def)
  then have "wiped d" using stream_all_wiped [of _ env chunks] assms(3) by fastforce
  ultimately show ?thesis
    using assms(3) enough_chunks [of "file"]
    by (simp add: concat_pieces StreamingDecryptor_drop_def wiped_zeroize)
qed

theorem streaming_matches_file_witness:
  "\<exists>chunks manifest. encrypt_file demo_storage [7] (replicate 12 1) [1, 2, 3] = Inr (chunks, manifest) \<and>
     fst (stream_all demo_storage chunks (StreamingDecryptor_new [7] (replicate 12 1))) =
       [Inr (pad_chunk [1, 2, 3])]"
proof -
  have "length [1 :: u8, 2, 3] < 2 ^ 64" by simp
  then obtain chunks manifest where
    e: "encrypt_file demo_storage [7] (replicate 12 1) [1, 2, 3] = Inr (chunks, manifest)"
    and "length chunks = max 1 ((length [1 :: u8, 2, 3] + CHUNK_SIZE - 1) div CHUNK_SIZE)"
    by (auto simp: encrypt_file_def encrypt_chunks_sealed Let_def)
  then have "length chunks = 1" by (simp add: CHUNK_SIZE_def)
  moreover have "file_piece [1, 2, 3] 0 = [1, 2, 3]" by (simp add: file_piece_def CHUNK_SIZE_def)
  ultimately show ?thesis
    using streaming_matches_file [OF demo_storage_aead e surjective_pairing] e by fastforce
qed

section \<open>Erasure coding\<close>

text \<open>What the code relies on from \<open>reed_solomon_erasure\<close> for \<open>k\<close> data and \<open>m\<close> parity shards: encoding
  keeps the data shards and appends \<open>m\<close> parity shards, and any \<open>k\<close> of the encoded shards restore all.\<close>

definition keep :: "bool list \<Rightarrow> 'a list \<Rightarrow> 'a option list" where
  "keep sel xs = map2 (\<lambda>b x. if b then Some x else None) sel xs"

definition rs_restores :: "reed_solomon \<Rightarrow> nat \<Rightarrow> nat \<Rightarrow> bytes list \<Rightarrow> bytes list \<Rightarrow> bool" where
  "rs_restores rs k m ds ps \<longleftrightarrow> length ps = m \<and>
     rs_encode rs k m (ds @ replicate m (replicate (length (ds ! 0)) 0)) = Inr (ds @ ps) \<and>
     (\<forall>sel. length sel = k + m \<and> k \<le> length (filter id sel) \<longrightarrow>
        rs_reconstruct rs k m (keep sel (ds @ ps)) = Inr (map Some (ds @ ps)))"

definition rs_correct :: "reed_solomon \<Rightarrow> nat \<Rightarrow> nat \<Rightarrow> bool" where
  "rs_correct rs k m \<longleftrightarrow> rs_new rs k m = None \<and>
     (\<forall>ds. length ds = k \<and> (\<forall>d\<in>set ds. length d = length (ds ! 0) \<and> d \<noteq> []) \<longrightarrow>
       (\<exists>ps. rs_restores rs k m ds ps))"

lemma keep_present: "length sel = length xs \<Longrightarrow> length (filter (\<lambda>s. s \<noteq> None) (keep sel xs)) = length (filter id sel)"
  by (induction sel xs rule: list_induct2) (auto simp: keep_def)

lemma length_keep [simp]: "length (keep sel xs) = min (length sel) (length xs)"
  by (simp add: keep_def)

lemma map_keep: "map (map_option f) (keep sel xs) = keep sel (map f xs)"
  by (induction sel xs rule: list_induct2') (auto simp: keep_def)

lemma erasure_any_k:
  assumes "rs_correct rs k m" and "0 < k" and "length chunks = k"
    and "0 < n" and "\<forall>c\<in>set chunks. ec_id c = blake3 env (ec_data c) \<and> length (ec_data c) = n"
  shows "\<exists>shards. erasure_encode env rs chunks k m = Inr shards \<and> length shards = k + m \<and>
    take k shards = chunks \<and> (\<forall>s\<in>set shards. ec_id s = blake3 env (ec_data s)) \<and>
    (\<forall>sel. length sel = k + m \<longrightarrow>
       erasure_decode env rs (keep sel shards) k m =
         (if length (filter id sel) < k then Inl (InsufficientShards (length (filter id sel)) k)
          else Inr chunks))"
proof -
  let ?ds = "map ec_data chunks"
  have "\<forall>d\<in>set ?ds. length d = length (?ds ! 0) \<and> d \<noteq> []"
    using assms(2,3,4,5) by (auto simp: nth_map)
  moreover have "length ?ds = k" using assms(3) by simp
  ultimately obtain ps where "rs_restores rs k m ?ds ps"
    using assms(1) unfolding rs_correct_def by blast
  then have p: "length ps = m"
    "rs_encode rs k m (?ds @ replicate m (replicate (length (?ds ! 0)) 0)) = Inr (?ds @ ps)"
    "\<And>sel. length sel = k + m \<Longrightarrow> k \<le> length (filter id sel) \<Longrightarrow>
       rs_reconstruct rs k m (keep sel (?ds @ ps)) = Inr (map Some (?ds @ ps))"
    by (simp_all only: rs_restores_def)
  have new: "rs_new rs k m = None" using assms(1) by (simp add: rs_correct_def)
  define shards where "shards = chunks @ map (\<lambda>d. \<lparr>ec_id = blake3 env d, ec_data = d\<rparr>) ps"
  have ds: "map ec_data shards = ?ds @ ps" by (simp add: shards_def comp_def)
  have data: "map (\<lambda>i. \<lparr>ec_id = ec_id (chunks ! i), ec_data = (?ds @ ps) ! i\<rparr>) [0..<k] = chunks"
    using assms(3) by (intro nth_equalityI) (simp_all add: nth_append)
  have par: "map (\<lambda>i. \<lparr>ec_id = blake3 env ((?ds @ ps) ! i), ec_data = (?ds @ ps) ! i\<rparr>) [k..<k + m] =
      map (\<lambda>d. \<lparr>ec_id = blake3 env d, ec_data = d\<rparr>) ps"
    using assms(3) p(1) by (intro nth_equalityI) (simp_all add: nth_append)
  have enc: "erasure_encode env rs chunks k m = Inr shards"
    using assms(3) new p(2) data par by (simp add: erasure_encode_def Let_def shards_def)
  have dec: "map (\<lambda>i. let d = the (map Some (?ds @ ps) ! i) in \<lparr>ec_id = blake3 env d, ec_data = d\<rparr>) [0..<k] = chunks"
  proof (intro nth_equalityI)
    fix i
    assume "i < length (map (\<lambda>i. let d = the (map Some (?ds @ ps) ! i) in \<lparr>ec_id = blake3 env d, ec_data = d\<rparr>) [0..<k])"
    then have i: "i < k" by simp
    then have "ec_id (chunks ! i) = blake3 env (ec_data (chunks ! i))" using assms(3,5) nth_mem by blast
    with i assms(3) show "map (\<lambda>i. let d = the (map Some (?ds @ ps) ! i) in \<lparr>ec_id = blake3 env d, ec_data = d\<rparr>) [0..<k] ! i = chunks ! i"
      by (simp add: nth_append Let_def)
  qed (simp add: assms(3))
  have "erasure_decode env rs (keep sel shards) k m =
         (if length (filter id sel) < k then Inl (InsufficientShards (length (filter id sel)) k)
          else Inr chunks)" if "length sel = k + m" for sel
  proof -
    have len: "length shards = k + m" using assms(3) p(1) by (simp add: shards_def)
    with that have pres: "length (filter (\<lambda>s. s \<noteq> None) (keep sel shards)) = length (filter id sel)"
      by (intro keep_present) simp
    show ?thesis
    proof (cases "length (filter id sel) < k")
      case True
      with that len show ?thesis unfolding erasure_decode_def Let_def pres by simp
    next
      case False
      have "rs_reconstruct rs k m (map (map_option ec_data) (keep sel shards)) = Inr (map Some (?ds @ ps))"
        using p(3) [OF that] False by (simp only: map_keep ds not_less)
      with that len False new dec show ?thesis
        unfolding erasure_decode_def Let_def pres by (simp del: map_append)
    qed
  qed
  moreover have "ec_id s = blake3 env (ec_data s)" if "s \<in> set shards" for s
    using that assms(5) by (auto simp: shards_def)
  ultimately show ?thesis
    using enc assms(3) p(1) by (auto simp: shards_def)
qed

text \<open>Any \<open>k\<close> of the \<open>k + m\<close> shards restore the chunks. Encoding \<open>k\<close> equally long chunks
  keeps them as the first shards and gives every shard its hash as id; decoding whatever subset of the
  shards arrived returns the original chunks, ids included, or reports how many shards are missing.\<close>

theorem erasure_roundtrip:
  assumes "rs_correct rs k m" and "0 < k" and "length chunks = k"
    and "0 < n" and "\<forall>c\<in>set chunks. ec_id c = blake3 env (ec_data c) \<and> length (ec_data c) = n"
  shows "\<exists>shards. erasure_encode env rs chunks k m = Inr shards \<and> length shards = k + m \<and>
    take k shards = chunks \<and> (\<forall>s\<in>set shards. ec_id s = blake3 env (ec_data s)) \<and>
    (\<forall>sel. length sel = k + m \<longrightarrow>
       erasure_decode env rs (keep sel shards) k m =
         (if length (filter id sel) < k then Inl (InsufficientShards (length (filter id sel)) k)
          else Inr chunks))"
  by (rule erasure_any_k [OF assms])

text \<open>A code with the documented behaviour for one data shard: repetition.\<close>

definition demo_rs :: reed_solomon where
  "demo_rs = \<lparr>rs_new = (\<lambda>k m. None), rs_encode = (\<lambda>k m s. Inr (map (\<lambda>_. hd s) s)),
     rs_reconstruct = (\<lambda>k m s. Inr (map (\<lambda>_. hd (filter (\<lambda>x. x \<noteq> None) s)) s))\<rparr>"

lemma keep_replicate: "filter (\<lambda>s. s \<noteq> None) (keep sel (replicate (length sel) d)) = replicate (length (filter id sel)) (Some d)"
  by (induction sel) (auto simp: keep_def)

lemma demo_rs_restores: "rs_restores demo_rs 1 m [d] (replicate m d)"
proof -
  have "rs_reconstruct demo_rs 1 m (keep sel ([d] @ replicate m d)) = Inr (map Some ([d] @ replicate m d))"
    if "length sel = 1 + m" "1 \<le> length (filter id sel)" for sel
  proof -
    have r: "[d] @ replicate m d = replicate (length sel) d" using that by simp
    have h: "hd (replicate (length (filter id sel)) (Some d)) = Some d"
      using that(2) by (cases "length (filter id sel)") simp_all
    show ?thesis unfolding r using keep_replicate [of sel d] h
      by (simp add: demo_rs_def map_replicate_const)
  qed
  then show ?thesis by (simp add: rs_restores_def demo_rs_def map_replicate_const)
qed

lemma demo_rs_correct: "rs_correct demo_rs 1 m"
proof -
  have "\<exists>ps. rs_restores demo_rs 1 m ds ps" if "length ds = 1" for ds
  proof -
    have "ds = [hd ds]" using that by (cases ds) auto
    then show ?thesis using demo_rs_restores by metis
  qed
  then show ?thesis by (simp add: rs_correct_def demo_rs_def)
qed

theorem erasure_roundtrip_witness:
  "\<exists>shards. erasure_encode demo_storage demo_rs [\<lparr>ec_id = replicate 32 5, ec_data = replicate 32 5\<rparr>] 1 2 = Inr shards \<and>
     erasure_decode demo_storage demo_rs (keep [False, False, True] shards) 1 2 =
       Inr [\<lparr>ec_id = replicate 32 5, ec_data = replicate 32 5\<rparr>] \<and>
     erasure_decode demo_storage demo_rs (keep [False, False, False] shards) 1 2 = Inl (InsufficientShards 0 1)"
proof -
  let ?c = "\<lparr>ec_id = replicate 32 5, ec_data = replicate 32 5\<rparr> :: EncryptedChunk"
  have "\<forall>c\<in>set [?c]. ec_id c = blake3 demo_storage (ec_data c) \<and> length (ec_data c) = 32"
    by (simp add: demo_storage_def)
  from erasure_roundtrip [OF demo_rs_correct _ _ _ this, of 2] obtain shards where
    "erasure_encode demo_storage demo_rs [?c] 1 2 = Inr shards"
    "\<And>sel. length sel = 1 + 2 \<Longrightarrow> erasure_decode demo_storage demo_rs (keep sel shards) 1 2 =
       (if length (filter id sel) < 1 then Inl (InsufficientShards (length (filter id sel)) 1) else Inr [?c])"
    by auto
  from this(1) this(2) [of "[False, False, True]"] this(2) [of "[False, False, False]"]
  show ?thesis by simp
qed

section \<open>Leases\<close>

text \<open>A lease is valid exactly until its creation time plus its duration (while that
  sum fits in 64 bits); the owner's key refreshes it, which replaces the expiry and keeps everything
  else; a key that is not the owner's either fails to refresh it or yields two derived keys with the
  same hash.\<close>

theorem lease_lifecycle:
  assumes "unat now + unat duration < 2 ^ 64" and "lease = create_lease env chunk mk duration now"
  shows "(is_lease_valid lease t \<longleftrightarrow> unat t < unat now + unat duration) \<and>
    lease_chunk_id lease = chunk \<and>
    refresh_lease env lease mk duration' now' = Inr (lease\<lparr>expires_at := now' + duration'\<rparr>) \<and>
    (refresh_lease env lease other duration' now' = Inl InvalidRenewalToken \<or>
     blake3 env (derive (se_hkdf env) other (ascii ''lease_token'')) =
     blake3 env (derive (se_hkdf env) mk (ascii ''lease_token'')))"
  using assms(1)
  by (simp add: assms(2) create_lease_def is_lease_valid_def refresh_lease_def verify_renewal_token_def
      lease_token_def word_less_nat_alt unat_add_no_wrap)

theorem lease_lifecycle_witness:
  "is_lease_valid (create_lease demo_storage [1] [2] 60 1000) 1059 \<and>
   \<not> is_lease_valid (create_lease demo_storage [1] [2] 60 1000) 1060"
  using lease_lifecycle [of 1000 60 _ demo_storage "[1]" "[2]" 1059, OF _ refl]
    lease_lifecycle [of 1000 60 _ demo_storage "[1]" "[2]" 1060, OF _ refl] by simp

end
