(* ===== verification/Integrity.thy ===== *)
theory Integrity
  imports StorageCore
begin

unbundle bit_operations_syntax

text \<open>
  \<^verbatim>\<open>crates/static-storage/src/integrity.rs\<close>: Merkle trees over encrypted chunks. \<open>blake3\<close> is the
  parameter \<open>h\<close>. The results: proofs generated for a chunk set verify against its root, and a
  chunk that verifies with a proof of the tree's height either is one of the chunks or shows two
  different inputs, one hashed by the verifier and one hashed by the builder, with equal hash.
\<close>

section \<open>Trees\<close>

definition EMPTY_ROOT :: bytes where "EMPTY_ROOT = replicate 32 0"

record MerkleProof =
  leaf_index :: nat
  siblings :: "bytes list"

definition leaf_hash :: "(bytes \<Rightarrow> bytes) \<Rightarrow> bytes \<Rightarrow> bytes" where
  "leaf_hash h data = h data"

definition node_hash :: "(bytes \<Rightarrow> bytes) \<Rightarrow> bytes \<Rightarrow> bytes \<Rightarrow> bytes" where
  "node_hash h left right = h (left @ right)"

text \<open>The body of the level loop: an odd level is padded with a copy of its last node, then
  neighbours are hashed together.\<close>

definition pad_level :: "bytes list \<Rightarrow> bytes list" where
  "pad_level level = (if length level mod 2 = 1 then level @ [last level] else level)"

definition level_up :: "(bytes \<Rightarrow> bytes) \<Rightarrow> bytes list \<Rightarrow> bytes list" where
  "level_up h level = map (\<lambda>pair. node_hash h (pair ! 0) (pair ! 1)) (chunks_of 2 level)"

lemma length_pad_level: "length (pad_level level) = length level + length level mod 2"
  by (simp add: pad_level_def)

lemma length_level_up: "length (level_up h (pad_level level)) = (length level + 1) div 2"
  by (simp add: level_up_def length_chunks_of length_pad_level) presburger

function root_level :: "(bytes \<Rightarrow> bytes) \<Rightarrow> bytes list \<Rightarrow> bytes list" where
  "root_level h level =
     (if 1 < length level then root_level h (level_up h (pad_level level)) else level)"
  by pat_completeness auto
termination
  by (relation "measure (\<lambda>(h, level). length level)") (auto simp: length_level_up)

declare root_level.simps [simp del]

definition compute_root :: "(bytes \<Rightarrow> bytes) \<Rightarrow> EncryptedChunk list \<Rightarrow> bytes" where
  "compute_root h chunks =
     (if chunks = [] then EMPTY_ROOT
      else (let level = map (\<lambda>c. leaf_hash h (ec_data c)) chunks in root_level h level ! 0))"

text \<open>\<open>generate_proofs\<close>: all padded levels, the root, and per leaf the sibling at each level.\<close>

function tree_levels :: "(bytes \<Rightarrow> bytes) \<Rightarrow> bytes list \<Rightarrow> bytes list list \<times> bytes list" where
  "tree_levels h level =
     (if 1 < length level
      then (let level = pad_level level; (levels, top) = tree_levels h (level_up h level)
            in (level # levels, top))
      else ([], level))"
  by pat_completeness auto
termination
  by (relation "measure (\<lambda>(h, level). length level)") (auto simp: length_level_up)

declare tree_levels.simps [simp del]

fun sibling_path :: "bytes list list \<Rightarrow> nat \<Rightarrow> bytes list" where
  "sibling_path [] idx = []"
| "sibling_path (tree_level # levels) idx = tree_level ! (idx XOR 1) # sibling_path levels (idx div 2)"

definition generate_proofs :: "(bytes \<Rightarrow> bytes) \<Rightarrow> EncryptedChunk list \<Rightarrow> bytes \<times> MerkleProof list" where
  "generate_proofs h chunks =
     (if chunks = [] then (EMPTY_ROOT, [])
      else (let level = map (\<lambda>c. leaf_hash h (ec_data c)) chunks;
                (levels, top) = tree_levels h level
            in (top ! 0, map (\<lambda>i. \<lparr>leaf_index = i, siblings = sibling_path levels i\<rparr>) [0..<length chunks])))"

fun walk_proof :: "(bytes \<Rightarrow> bytes) \<Rightarrow> bytes \<Rightarrow> nat \<Rightarrow> bytes list \<Rightarrow> bytes" where
  "walk_proof h current idx [] = current"
| "walk_proof h current idx (sibling # sibs) =
     walk_proof h (if idx mod 2 = 0 then node_hash h current sibling else node_hash h sibling current)
       (idx div 2) sibs"

definition verify_chunk :: "(bytes \<Rightarrow> bytes) \<Rightarrow> EncryptedChunk \<Rightarrow> MerkleProof \<Rightarrow> bytes \<Rightarrow> bool" where
  "verify_chunk h chunk prf merkle_root \<longleftrightarrow>
     walk_proof h (leaf_hash h (ec_data chunk)) (leaf_index prf) (siblings prf) = merkle_root"

section \<open>Completeness\<close>

lemma pairs_of:
  assumes "length xs = 2 * n"
  shows "level_up h xs = map (\<lambda>j. node_hash h (xs ! (2 * j)) (xs ! (2 * j + 1))) [0..<n]"
proof -
  have len: "length (chunks_of 2 xs) = n"
    using assms by (simp add: length_chunks_of)
  show ?thesis
  proof (rule nth_equalityI)
    fix j
    assume "j < length (level_up h xs)"
    then have j: "j < n" by (simp add: level_up_def len)
    then have "chunks_of 2 xs ! j = take 2 (drop (j * 2) xs)"
      by (intro nth_chunks_of) (simp_all add: len)
    with j assms show "level_up h xs ! j = map (\<lambda>j. node_hash h (xs ! (2 * j)) (xs ! (2 * j + 1))) [0..<n] ! j"
      by (simp add: level_up_def len mult.commute)
  qed (simp add: level_up_def len)
qed

lemma pad_level_even: obtains n where "length (pad_level level) = 2 * n" "length level \<le> 2 * n" "n = (length level + 1) div 2"
  by (rule that [of "(length level + 1) div 2"]) (simp add: length_pad_level, presburger, presburger, simp)

lemma pad_level_nth: "i < length level \<Longrightarrow> pad_level level ! i = level ! i"
  by (simp add: pad_level_def nth_append)

lemma level_up_nth:
  "idx < length level \<Longrightarrow>
     level_up h (pad_level level) ! (idx div 2) =
     (if idx mod 2 = 0 then node_hash h (level ! idx) (pad_level level ! (idx XOR 1))
      else node_hash h (pad_level level ! (idx XOR 1)) (level ! idx))"
proof -
  assume i: "idx < length level"
  obtain n where n: "length (pad_level level) = 2 * n" "length level \<le> 2 * n" by (rule pad_level_even)
  have "idx div 2 < n" using i n by linarith
  then have u: "level_up h (pad_level level) ! (idx div 2) =
      node_hash h (pad_level level ! (2 * (idx div 2))) (pad_level level ! (2 * (idx div 2) + 1))"
    by (simp add: pairs_of [OF n(1)])
  show ?thesis
  proof (cases "even idx")
    case True
    then have "2 * (idx div 2) = idx" "idx XOR 1 = idx + 1" by (simp_all add: xor_Suc_0_eq)
    with True i show ?thesis by (simp add: u pad_level_nth even_iff_mod_2_eq_zero)
  next
    case False
    then have "2 * (idx div 2) + 1 = idx" "idx XOR 1 = idx - 1" "2 * (idx div 2) = idx - 1"
      by (simp_all add: xor_Suc_0_eq)
    with False i show ?thesis by (simp add: u pad_level_nth even_iff_mod_2_eq_zero)
  qed
qed

lemma root_level_levels: "snd (tree_levels h level) = root_level h level"
  by (induction h level rule: tree_levels.induct)
     (subst tree_levels.simps, subst root_level.simps, simp add: split_beta Let_def)

lemma walk_path:
  "idx < length level \<Longrightarrow>
     walk_proof h (level ! idx) idx (sibling_path (fst (tree_levels h level)) idx) = root_level h level ! 0"
proof (induction h level arbitrary: idx rule: tree_levels.induct)
  case (1 h level)
  show ?case
  proof (cases "1 < length level")
    case True
    let ?up = "level_up h (pad_level level)"
    have "idx div 2 < length ?up" using 1 by (simp add: length_level_up)
    then have "walk_proof h (?up ! (idx div 2)) (idx div 2) (sibling_path (fst (tree_levels h ?up)) (idx div 2)) =
        root_level h ?up ! 0"
      using 1 True by blast
    moreover have "fst (tree_levels h level) = pad_level level # fst (tree_levels h ?up)"
      using True by (subst tree_levels.simps) (simp add: Let_def split_beta)
    moreover have "root_level h level = root_level h ?up"
      using True by (subst root_level.simps) simp
    ultimately show ?thesis using level_up_nth [OF 1(2), of h] by (simp split: if_splits)
  next
    case False
    then have "level = [level ! 0]" using 1(2) by (cases level) auto
    with 1(2) False show ?thesis
      by (subst tree_levels.simps, subst root_level.simps) (auto simp: not_less le_Suc_eq)
  qed
qed

lemma sibling_path_length: "length (sibling_path levels idx) = length levels"
  by (induction levels arbitrary: idx) simp_all

text \<open>For every chunk set, the root returned with the proofs is the root of the set,
  there is one proof per chunk, with its index and one sibling per level of the tree above the root,
  and every chunk verifies with its own proof.\<close>

theorem merkle_proofs_verify:
  "fst (generate_proofs h chunks) = compute_root h chunks \<and>
   length (snd (generate_proofs h chunks)) = length chunks \<and>
   (\<forall>i<length chunks. leaf_index (snd (generate_proofs h chunks) ! i) = i \<and>
      length (siblings (snd (generate_proofs h chunks) ! i)) =
        length (fst (tree_levels h (map (\<lambda>c. leaf_hash h (ec_data c)) chunks))) \<and>
      verify_chunk h (chunks ! i) (snd (generate_proofs h chunks) ! i) (compute_root h chunks))"
proof (cases "chunks = []")
  case False
  let ?level = "map (\<lambda>c. leaf_hash h (ec_data c)) chunks"
  have gen: "generate_proofs h chunks = (root_level h ?level ! 0,
      map (\<lambda>i. \<lparr>leaf_index = i, siblings = sibling_path (fst (tree_levels h ?level)) i\<rparr>) [0..<length chunks])"
    using False by (simp add: generate_proofs_def Let_def split_beta root_level_levels)
  have "walk_proof h (?level ! i) i (sibling_path (fst (tree_levels h ?level)) i) = root_level h ?level ! 0"
    if "i < length chunks" for i
    using walk_path [of i ?level h] that by simp
  with False show ?thesis
    by (simp add: gen compute_root_def Let_def verify_chunk_def sibling_path_length)
qed (simp add: generate_proofs_def compute_root_def)

theorem merkle_proofs_verify_witness:
  "let cs = map (\<lambda>d. \<lparr>ec_id = [], ec_data = [d]\<rparr>) [1, 2, 3]
   in verify_chunk (\<lambda>m. m) (cs ! 2) (snd (generate_proofs (\<lambda>m. m) cs) ! 2) (compute_root (\<lambda>m. m) cs)"
  unfolding Let_def
  by (rule merkle_proofs_verify [THEN conjunct2, THEN conjunct2, rule_format, THEN conjunct2, THEN conjunct2]) simp

section \<open>Soundness\<close>

text \<open>The inputs hashed while a proof is walked, and those hashed while the tree is built.\<close>

fun walk_inputs :: "(bytes \<Rightarrow> bytes) \<Rightarrow> bytes \<Rightarrow> nat \<Rightarrow> bytes list \<Rightarrow> bytes list" where
  "walk_inputs h current idx [] = []"
| "walk_inputs h current idx (sibling # sibs) =
     (let input = (if idx mod 2 = 0 then current @ sibling else sibling @ current)
      in input # walk_inputs h (h input) (idx div 2) sibs)"

definition tree_inputs :: "(bytes \<Rightarrow> bytes) \<Rightarrow> EncryptedChunk list \<Rightarrow> bytes set" where
  "tree_inputs h chunks = set (map ec_data chunks) \<union>
     (\<Union>level\<in>set (fst (tree_levels h (map (\<lambda>c. leaf_hash h (ec_data c)) chunks))).
        (\<lambda>pair. pair ! 0 @ pair ! 1) ` set (chunks_of 2 level))"

definition level_inputs :: "(bytes \<Rightarrow> bytes) \<Rightarrow> bytes list \<Rightarrow> bytes set" where
  "level_inputs h level =
     (\<Union>l\<in>set (fst (tree_levels h level)). (\<lambda>pair. pair ! 0 @ pair ! 1) ` set (chunks_of 2 l))"

lemma level_inputs_step:
  "1 < length level \<Longrightarrow>
     level_inputs h level = (\<lambda>pair. pair ! 0 @ pair ! 1) ` set (chunks_of 2 (pad_level level)) \<union>
       level_inputs h (level_up h (pad_level level))"
  unfolding level_inputs_def by (subst tree_levels.simps) (simp add: Let_def split_beta)

lemma set_pad_level: "level \<noteq> [] \<Longrightarrow> set (pad_level level) = set level"
  by (auto simp: pad_level_def)

lemma chunk_pair:
  assumes "pair \<in> set (chunks_of 2 (pad_level level))" and "level \<noteq> []"
  shows "pair ! 0 \<in> set level \<and> pair ! 1 \<in> set level"
proof -
  obtain n where n: "length (pad_level level) = 2 * n" by (rule pad_level_even)
  obtain j where j: "j < length (chunks_of 2 (pad_level level))" "pair = chunks_of 2 (pad_level level) ! j"
    using assms(1) by (metis in_set_conv_nth)
  then have "j < n" using n by (simp add: length_chunks_of)
  moreover have "pair = take 2 (drop (j * 2) (pad_level level))"
    using j nth_chunks_of [of 2 j "pad_level level"] by simp
  ultimately have "pair ! 0 = pad_level level ! (j * 2)" "pair ! 1 = pad_level level ! (j * 2 + 1)"
    "j * 2 + 1 < length (pad_level level)" using n by simp_all
  then show ?thesis using set_pad_level [OF assms(2)] nth_mem [of _ "pad_level level"] by auto
qed

lemma walk_sound:
  assumes "\<forall>x. length (h x) = 32"
  shows "level \<noteq> [] \<Longrightarrow> \<forall>x\<in>set level. length x = 32 \<Longrightarrow> \<forall>s\<in>set sibs. length s = 32 \<Longrightarrow> length current = 32 \<Longrightarrow>
     length sibs = length (fst (tree_levels h level)) \<Longrightarrow>
     walk_proof h current idx sibs = root_level h level ! 0 \<Longrightarrow>
     current \<in> set level \<or> (\<exists>x\<in>set (walk_inputs h current idx sibs). \<exists>y\<in>level_inputs h level. x \<noteq> y \<and> h x = h y)"
proof (induction sibs arbitrary: current idx level)
  case Nil
  have l: "\<not> 1 < length level"
  proof
    assume "1 < length level"
    with Nil.prems(5) show False by (subst (asm) tree_levels.simps) (simp add: Let_def split_beta)
  qed
  then have "root_level h level = level" by (subst root_level.simps) simp
  with Nil.prems l show ?case by (cases level) auto
next
  case (Cons s sibs)
  have l: "1 < length level"
  proof (rule ccontr)
    assume "\<not> 1 < length level"
    with Cons.prems(5) show False by (subst (asm) tree_levels.simps) simp
  qed
  let ?up = "level_up h (pad_level level)"
  let ?in = "if idx mod 2 = 0 then current @ s else s @ current"
  have up: "set ?up = (\<lambda>pair. h (pair ! 0 @ pair ! 1)) ` set (chunks_of 2 (pad_level level))"
    by (simp add: level_up_def node_hash_def)
  have lens: "length sibs = length (fst (tree_levels h ?up))" "root_level h level = root_level h ?up"
    using Cons.prems(5) l by (subst (asm) tree_levels.simps, simp add: Let_def split_beta,
        subst root_level.simps, simp)
  have "length ?up = (length level + 1) div 2" by (rule length_level_up)
  then have ne: "?up \<noteq> []" using l by auto
  have "h ?in \<in> set ?up \<or> (\<exists>x\<in>set (walk_inputs h (h ?in) (idx div 2) sibs). \<exists>y\<in>level_inputs h ?up. x \<noteq> y \<and> h x = h y)"
  proof (rule Cons.IH [OF ne])
    show "\<forall>x\<in>set ?up. length x = 32" using assms up by auto
    show "walk_proof h (h ?in) (idx div 2) sibs = root_level h ?up ! 0"
      using Cons.prems(6) lens(2) by (simp add: node_hash_def split: if_splits)
  qed (use Cons.prems lens assms in simp_all)
  then show ?case
  proof
    assume "h ?in \<in> set ?up"
    then obtain pair where p: "pair \<in> set (chunks_of 2 (pad_level level))" "h ?in = h (pair ! 0 @ pair ! 1)"
      using up by auto
    have m: "pair ! 0 \<in> set level" "pair ! 1 \<in> set level" using chunk_pair [OF p(1) Cons.prems(1)] by auto
    show ?thesis
    proof (cases "?in = pair ! 0 @ pair ! 1")
      case True
      with m Cons.prems(2,3,4) show ?thesis by (auto split: if_splits)
    next
      case False
      with p level_inputs_step [OF l, of h] show ?thesis
        by (intro disjI2 bexI [of _ "pair ! 0 @ pair ! 1"] bexI [of _ ?in]) (auto simp: Let_def)
    qed
  next
    assume "\<exists>x\<in>set (walk_inputs h (h ?in) (idx div 2) sibs). \<exists>y\<in>level_inputs h ?up. x \<noteq> y \<and> h x = h y"
    with level_inputs_step [OF l, of h] show ?thesis by (auto simp: Let_def)
  qed
qed

text \<open>C31 (safety). A chunk that verifies against the root of a non-empty chunk set, with a proof of
  as many siblings as a proof of the set has, has the data of one of the chunks - or the verification
  hashed an input different from one the tree construction hashed, to the same value: a collision of
  \<open>blake3\<close> between two inputs that are given explicitly.\<close>

theorem merkle_sound:
  assumes "\<forall>x. length (h x) = 32" and "chunks \<noteq> []"
    and "\<forall>s\<in>set (siblings prf). length s = 32"
    and "length (siblings prf) = length (siblings (snd (generate_proofs h chunks) ! 0))"
    and "verify_chunk h c prf (compute_root h chunks)"
  shows "(\<exists>i<length chunks. ec_data c = ec_data (chunks ! i)) \<or>
    (\<exists>x\<in>set (ec_data c # walk_inputs h (h (ec_data c)) (leaf_index prf) (siblings prf)).
       \<exists>y\<in>tree_inputs h chunks. x \<noteq> y \<and> h x = h y)"
proof -
  let ?level = "map (\<lambda>c. leaf_hash h (ec_data c)) chunks"
  have "length (siblings prf) = length (fst (tree_levels h ?level))"
    using assms(2,4) by (simp add: generate_proofs_def Let_def split_beta sibling_path_length)
  moreover have "walk_proof h (h (ec_data c)) (leaf_index prf) (siblings prf) = root_level h ?level ! 0"
    using assms(2,5) by (simp add: verify_chunk_def compute_root_def leaf_hash_def)
  ultimately have w: "h (ec_data c) \<in> set ?level \<or>
     (\<exists>x\<in>set (walk_inputs h (h (ec_data c)) (leaf_index prf) (siblings prf)). \<exists>y\<in>level_inputs h ?level. x \<noteq> y \<and> h x = h y)"
    using assms(1,2,3) by (intro walk_sound) (auto simp: leaf_hash_def)
  have sub: "level_inputs h ?level \<subseteq> tree_inputs h chunks" "ec_data ` set chunks \<subseteq> tree_inputs h chunks"
    by (auto simp: tree_inputs_def level_inputs_def)
  from w show ?thesis
  proof
    assume "h (ec_data c) \<in> set ?level"
    then obtain d where d: "d \<in> set chunks" "h (ec_data c) = h (ec_data d)" by (auto simp: leaf_hash_def)
    then obtain i where "i < length chunks" "chunks ! i = d" by (metis in_set_conv_nth)
    with d sub(2) show ?thesis by (cases "ec_data c = ec_data d") auto
  next
    assume "\<exists>x\<in>set (walk_inputs h (h (ec_data c)) (leaf_index prf) (siblings prf)).
      \<exists>y\<in>level_inputs h ?level. x \<noteq> y \<and> h x = h y"
    with sub(1) show ?thesis by (meson list.set_intros(2) subset_iff)
  qed
qed

definition demo_hash :: "bytes \<Rightarrow> bytes" where
  "demo_hash m = take 32 (m @ replicate 32 0)"

lemma length_demo_hash: "\<forall>x. length (demo_hash x) = 32"
  by (auto simp: demo_hash_def)

definition demo_chunks :: "EncryptedChunk list" where
  "demo_chunks = map (\<lambda>d. \<lparr>ec_id = [], ec_data = [d]\<rparr>) [1, 2, 3]"

theorem merkle_sound_witness:
  "(\<exists>i<3. ec_data (demo_chunks ! 1) = ec_data (demo_chunks ! i)) \<or>
   (\<exists>x\<in>set (ec_data (demo_chunks ! 1) # walk_inputs demo_hash (demo_hash (ec_data (demo_chunks ! 1))) 1
       (siblings (snd (generate_proofs demo_hash demo_chunks) ! 1))).
      \<exists>y\<in>tree_inputs demo_hash demo_chunks. x \<noteq> y \<and> demo_hash x = demo_hash y)"
proof -
  let ?p = "snd (generate_proofs demo_hash demo_chunks) ! 1"
  have "\<forall>s\<in>set (siblings ?p). length s = 32" by code_simp
  moreover have "length (siblings ?p) = length (siblings (snd (generate_proofs demo_hash demo_chunks) ! 0))"
    by code_simp
  moreover have "verify_chunk demo_hash (demo_chunks ! 1) ?p (compute_root demo_hash demo_chunks)" by code_simp
  moreover have "leaf_index ?p = 1" "length demo_chunks = 3" "demo_chunks \<noteq> []" by code_simp+
  ultimately show ?thesis using merkle_sound [OF length_demo_hash, of demo_chunks ?p "demo_chunks ! 1"] by simp
qed

text \<open>
  Two limits of the construction. Chunk sets of odd size share their root with the set that has the
  last chunk twice; and since leaves and nodes are hashed alike, the concatenation of two sibling
  hashes verifies like a chunk, with a proof that is one sibling shorter.
\<close>

lemma compute_root_duplicate:
  assumes "odd (length chunks)" and "1 < length chunks"
  shows "compute_root h (chunks @ [last chunks]) = compute_root h chunks"
proof -
  let ?f = "\<lambda>c. leaf_hash h (ec_data c)"
  have ne: "chunks \<noteq> []" using assms by auto
  have "pad_level (map ?f chunks) = map ?f (chunks @ [last chunks])"
    using assms ne by (simp add: pad_level_def last_map odd_iff_mod_2_eq_one)
  moreover have "pad_level (map ?f (chunks @ [last chunks])) = map ?f (chunks @ [last chunks])"
    using assms by (simp add: pad_level_def even_iff_mod_2_eq_zero) presburger
  ultimately have "root_level h (map ?f (chunks @ [last chunks])) = root_level h (map ?f chunks)"
    using assms(2) ne by (subst (1 2) root_level.simps) simp
  then show ?thesis using ne by (simp add: compute_root_def)
qed

lemma inner_node_verifies:
  "verify_chunk h c \<lparr>leaf_index = 2 * i, siblings = s # ss\<rparr> r \<Longrightarrow> ec_data inner = leaf_hash h (ec_data c) @ s \<Longrightarrow>
     verify_chunk h inner \<lparr>leaf_index = i, siblings = ss\<rparr> r"
  by (simp add: verify_chunk_def leaf_hash_def node_hash_def)

end
