(* ===== verification/ReturnRoutes.thy ===== *)
theory ReturnRoutes
  imports StorageCore Routing
begin

text \<open>
  Return routes inside message bodies. The modules \<^verbatim>\<open>verification.rs\<close>, \<^verbatim>\<open>retrieval.rs\<close> and
  \<^verbatim>\<open>compute.rs\<close> of the storage crate declare the same \<open>ReturnRoute\<close> and encode it alike, but each
  reads it back with its own bounds checks; the three readers are interpretations of the codec
  interface for one encoding.
\<close>

record RouteHopInfo =
  hop_public_key :: bytes
  hop_node_id :: NodeId

record ReturnRoute =
  rr_hops :: "RouteHopInfo list"
  rr_destination :: NodeId

definition to_sphinx_route :: "ReturnRoute \<Rightarrow> Route" where
  "to_sphinx_route r = \<lparr>route_hops = map (\<lambda>h. \<lparr>rh_public_key = hop_public_key h, rh_node_id = hop_node_id h\<rparr>) (rr_hops r),
     route_destination = rr_destination r\<rparr>"

definition from_sphinx_route :: "Route \<Rightarrow> ReturnRoute" where
  "from_sphinx_route r = \<lparr>rr_hops = map (\<lambda>h. \<lparr>hop_public_key = rh_public_key h, hop_node_id = rh_node_id h\<rparr>) (route_hops r),
     rr_destination = route_destination r\<rparr>"

lemma sphinx_route_inverse [simp]:
  "to_sphinx_route (from_sphinx_route r) = r" "from_sphinx_route (to_sphinx_route rr) = rr"
proof -
  have "(\<lambda>x. \<lparr>rh_public_key = rh_public_key x, rh_node_id = rh_node_id x\<rparr>) = (\<lambda>x. x)"
    "(\<lambda>x. \<lparr>hop_public_key = hop_public_key x, hop_node_id = hop_node_id x\<rparr>) = (\<lambda>x. x)" by (simp_all add: fun_eq_iff)
  then show "to_sphinx_route (from_sphinx_route r) = r" "from_sphinx_route (to_sphinx_route rr) = rr"
    by (simp_all add: to_sphinx_route_def from_sphinx_route_def comp_def)
qed

definition hop_bytes :: "RouteHopInfo \<Rightarrow> bytes" where
  "hop_bytes hop = hop_public_key hop @ hop_node_id hop"

definition append_return_route :: "ReturnRoute \<Rightarrow> bytes" where
  "append_return_route r =
     len_be32 (length (rr_hops r)) @ concat (map hop_bytes (rr_hops r)) @ rr_destination r"

definition hop_ok :: "RouteHopInfo \<Rightarrow> bool" where
  "hop_ok hop \<longleftrightarrow> length (hop_public_key hop) = 32 \<and> length (hop_node_id hop) = 16"

definition route_ok :: "ReturnRoute \<Rightarrow> bool" where
  "route_ok r \<longleftrightarrow> length (rr_hops r) \<le> 32 \<and> (\<forall>h\<in>set (rr_hops r). hop_ok h) \<and> length (rr_destination r) = 16"

section \<open>verification.rs\<close>

definition take_hop :: "bytes \<Rightarrow> nat \<Rightarrow> StorageError + (RouteHopInfo \<times> nat)" where
  "take_hop data off =
     rd (take_array 32 data off) (\<lambda>public_key off.
     rd (take_array 16 data off) (\<lambda>node_id off.
       Inr (\<lparr>hop_public_key = public_key, hop_node_id = node_id\<rparr>, off)))"

definition take_return_route :: "bytes \<Rightarrow> nat \<Rightarrow> StorageError + (ReturnRoute \<times> nat)" where
  "take_return_route data off =
     rd (take_len data off) (\<lambda>hop_count off.
     fail_if (32 < hop_count) (InvalidChunkSize 32 hop_count) (
     rd (read_many take_hop hop_count data off) (\<lambda>hops off.
     rd (take_array 16 data off) (\<lambda>destination off.
       Inr (\<lparr>rr_hops = hops, rr_destination = destination\<rparr>, off)))))"

section \<open>retrieval.rs\<close>

definition MAX_RETRIEVAL_ROUTE_HOPS :: nat where "MAX_RETRIEVAL_ROUTE_HOPS = 32"

text \<open>The hop loop checks all 48 bytes of a hop at once.\<close>

definition take_hop48 :: "bytes \<Rightarrow> nat \<Rightarrow> StorageError + (RouteHopInfo \<times> nat)" where
  "take_hop48 data off =
     (if length data < off + 48 then Inl (InvalidChunkSize (off + 48) (length data))
      else Inr (\<lparr>hop_public_key = take 32 (drop off data), hop_node_id = take 16 (drop (off + 32) data)\<rparr>, off + 48))"

definition take_retrieval_route :: "bytes \<Rightarrow> nat \<Rightarrow> StorageError + (ReturnRoute \<times> nat)" where
  "take_retrieval_route data off =
     rd (take_len data off) (\<lambda>hop_count off.
     fail_if (MAX_RETRIEVAL_ROUTE_HOPS < hop_count) (InvalidChunkSize MAX_RETRIEVAL_ROUTE_HOPS hop_count) (
     rd (read_many take_hop48 hop_count data off) (\<lambda>hops off.
     rd (take_array 16 data off) (\<lambda>destination off.
       Inr (\<lparr>rr_hops = hops, rr_destination = destination\<rparr>, off)))))"

section \<open>compute.rs\<close>

definition MAX_COMPUTE_ROUTE_HOPS :: nat where "MAX_COMPUTE_ROUTE_HOPS = 32"

text \<open>The whole route is checked at once; the reads behind the check cannot fail.\<close>

definition take_compute_route :: "bytes \<Rightarrow> nat \<Rightarrow> StorageError + (ReturnRoute \<times> nat)" where
  "take_compute_route data off =
     rd (take_len data off) (\<lambda>hop_count off.
     fail_if (MAX_COMPUTE_ROUTE_HOPS < hop_count) (InvalidChunkSize MAX_COMPUTE_ROUTE_HOPS (length data)) (
     fail_if (length data < off + hop_count * 48 + 16) (InvalidChunkSize (off + hop_count * 48 + 16) (length data)) (
     let hops = map (\<lambda>i. \<lparr>hop_public_key = take 32 (drop (off + i * 48) data),
                          hop_node_id = take 16 (drop (off + i * 48 + 32) data)\<rparr>) [0..<hop_count];
         off = off + hop_count * 48
     in Inr (\<lparr>rr_hops = hops, rr_destination = take 16 (drop off data)\<rparr>, off + 16))))"

section \<open>The three readers decode the encoding\<close>

interpretation hop: codec hop_bytes take_hop hop_ok
proof unfold_locales
  fix x data off rest
  assume "hop_ok x" and a: "ahead data off (hop_bytes x @ rest)"
  then show "take_hop data off = Inr (x, off + length (hop_bytes x))"
    unfolding take_hop_def hop_bytes_def append_assoc
    by (elim dec_steps) (simp_all add: hop_ok_def)
qed (auto simp: take_hop_def rd_Inr_iff dest!: tarr.dec_bounds [rotated])

lemma take_hop48_eq: "off + 48 \<le> length data \<Longrightarrow> take_hop48 data off = take_hop data off"
  by (simp add: take_hop48_def take_hop_def take_array_def)

interpretation hop48: codec hop_bytes take_hop48 hop_ok
proof unfold_locales
  fix x data off rest
  assume x: "hop_ok x" and a: "ahead data off (hop_bytes x @ rest)"
  then have "off + 48 \<le> length data"
    using ahead_length [OF a] by (simp add: hop_ok_def hop_bytes_def)
  with hop.dec_enc [OF x a] show "take_hop48 data off = Inr (x, off + length (hop_bytes x))"
    by (simp add: take_hop48_eq)
qed (auto simp: take_hop48_def split: if_splits)

lemma length_hops: "\<forall>h\<in>set hops. hop_ok h \<Longrightarrow> length (concat (map hop_bytes hops)) = length hops * 48"
  by (induction hops) (auto simp: hop_ok_def hop_bytes_def)

text \<open>What the three readers find at each position of an encoded route.\<close>

lemma route_parts:
  assumes x: "route_ok x" and "ahead data off (append_return_route x @ rest)" and n: "n = length (rr_hops x)"
  shows "take_len data off = Inr (n, off + 4)"
    and "read_many take_hop n data (off + 4) = Inr (rr_hops x, off + 4 + n * 48)"
    and "read_many take_hop48 n data (off + 4) = Inr (rr_hops x, off + 4 + n * 48)"
    and "take_array 16 data (off + 4 + n * 48) = Inr (rr_destination x, off + 4 + n * 48 + 16)"
    and "length (append_return_route x) = 4 + n * 48 + 16" and "n \<le> 32"
    and "off + 4 + n * 48 + 16 \<le> length data"
proof -
  have le: "n \<le> 32" and d: "length (rr_destination x) = 16" and h: "\<forall>h\<in>set (rr_hops x). hop_ok h"
    using x n by (simp_all add: route_ok_def)
  have a: "ahead data off (len_be32 n @ concat (map hop_bytes (rr_hops x)) @ rr_destination x @ rest)"
    using assms(2) n by (simp add: append_return_route_def)
  have a2: "ahead data (off + 4) (concat (map hop_bytes (rr_hops x)) @ rr_destination x @ rest)"
    using ahead_append [OF a] by simp
  have a3: "ahead data (off + 4 + n * 48) (rr_destination x @ rest)"
    using ahead_append [OF a2] length_hops [OF h] n by simp
  show "take_len data off = Inr (n, off + 4)"
    using tlen.dec_enc [OF _ a] le by simp
  show "read_many take_hop n data (off + 4) = Inr (rr_hops x, off + 4 + n * 48)"
    using hop.dec_many_enc [OF h a2] length_hops [OF h] n by simp
  show "read_many take_hop48 n data (off + 4) = Inr (rr_hops x, off + 4 + n * 48)"
    using hop48.dec_many_enc [OF h a2] length_hops [OF h] n by simp
  show "take_array 16 data (off + 4 + n * 48) = Inr (rr_destination x, off + 4 + n * 48 + 16)"
    using tarr.dec_enc [OF d a3] d by simp
  show "length (append_return_route x) = 4 + n * 48 + 16"
    using length_hops [OF h] d n by (simp add: append_return_route_def)
  show "n \<le> 32" by (rule le)
  show "off + 4 + n * 48 + 16 \<le> length data"
    using ahead_length [OF a3] d by simp
qed

interpretation vroute: codec append_return_route take_return_route route_ok
proof unfold_locales
  fix x data off rest
  assume "route_ok x" "ahead data off (append_return_route x @ rest)"
  note route_parts [OF this refl]
  then show "take_return_route data off = Inr (x, off + length (append_return_route x))"
    by (simp add: take_return_route_def)
next
  fix x data off off'
  assume "off \<le> length data" "take_return_route data off = Inr (x, off')"
  then show "off \<le> off' \<and> off' \<le> length data"
    by (auto simp: take_return_route_def rd_Inr_iff dest!: tarr.dec_bounds [rotated] tlen.dec_bounds [rotated] hop.dec_many_bounds [rotated])
qed

interpretation rroute: codec append_return_route take_retrieval_route route_ok
proof unfold_locales
  fix x data off rest
  assume "route_ok x" "ahead data off (append_return_route x @ rest)"
  note route_parts [OF this refl]
  then show "take_retrieval_route data off = Inr (x, off + length (append_return_route x))"
    by (simp add: take_retrieval_route_def MAX_RETRIEVAL_ROUTE_HOPS_def)
next
  fix x data off off'
  assume "off \<le> length data" "take_retrieval_route data off = Inr (x, off')"
  then show "off \<le> off' \<and> off' \<le> length data"
    by (auto simp: take_retrieval_route_def rd_Inr_iff dest!: tarr.dec_bounds [rotated] tlen.dec_bounds [rotated] hop48.dec_many_bounds [rotated])
qed

text \<open>Reading the hops by position is the hop loop, when the bytes are there.\<close>

lemma read_many_hops:
  "off + n * 48 \<le> length data \<Longrightarrow>
     read_many take_hop48 n data off =
       Inr (map (\<lambda>i. \<lparr>hop_public_key = take 32 (drop (off + i * 48) data),
                      hop_node_id = take 16 (drop (off + i * 48 + 32) data)\<rparr>) [0..<n], off + n * 48)"
proof (induction n arbitrary: off)
  case (Suc n)
  have split: "[0..<Suc n] = 0 # map Suc [0..<n]"
    using upt_conv_Cons [OF zero_less_Suc, of n] by (simp only: map_Suc_upt)
  have "take_hop48 data off = Inr (\<lparr>hop_public_key = take 32 (drop off data),
      hop_node_id = take 16 (drop (off + 32) data)\<rparr>, off + 48)"
    using Suc.prems by (simp add: take_hop48_def)
  then show ?case
    using Suc.IH [of "off + 48"] Suc.prems unfolding split
    by (simp add: comp_def add.assoc add.left_commute del: upt_Suc)
qed simp

interpretation croute: codec append_return_route take_compute_route route_ok
proof unfold_locales
  fix x data off rest
  assume "route_ok x" "ahead data off (append_return_route x @ rest)"
  note parts = route_parts [OF this refl]
  let ?n = "length (rr_hops x)"
  have "map (\<lambda>i. \<lparr>hop_public_key = take 32 (drop (off + 4 + i * 48) data),
      hop_node_id = take 16 (drop (off + 4 + i * 48 + 32) data)\<rparr>) [0..<?n] = rr_hops x"
    using parts(3,7) read_many_hops [of "off + 4" ?n data] by simp
  moreover have "take 16 (drop (off + 4 + ?n * 48) data) = rr_destination x"
    using parts(4) by (simp add: take_array_def split: if_splits)
  ultimately show "take_compute_route data off = Inr (x, off + length (append_return_route x))"
    using parts(1,5,6,7) by (simp add: take_compute_route_def MAX_COMPUTE_ROUTE_HOPS_def Let_def not_less)
next
  fix x data off off'
  assume "off \<le> length data" "take_compute_route data off = Inr (x, off')"
  then show "off \<le> off' \<and> off' \<le> length data"
    by (auto simp: take_compute_route_def rd_Inr_iff Let_def dest!: tlen.dec_bounds [rotated])
qed

end
