(* ===== verification/Verification.thy ===== *)
theory Verification
  imports ReturnRoutes
begin

text \<open>
  \<^verbatim>\<open>crates/static-storage/src/verification.rs\<close>: segment challenges. A challenger names one segment of
  one chunk, the holder returns its bytes, and the challenger compares their hash with the one in
  the manifest. The results: both messages survive the wire with any padding behind them, honest
  answers pass, and an answer that passes with other bytes exhibits a hash collision.
\<close>

definition MSG_VERIFICATION_CHALLENGE :: u8 where "MSG_VERIFICATION_CHALLENGE = 0x07"
definition MSG_VERIFICATION_RESPONSE :: u8 where "MSG_VERIFICATION_RESPONSE = 0x08"
definition MAX_SEGMENT_DATA_SIZE :: nat where "MAX_SEGMENT_DATA_SIZE = SEGMENT_SIZE"

record VerificationChallenge =
  vc_chunk_id :: ChunkId
  vc_segment_index :: u32
  vc_nonce :: bytes
  vc_return_route :: ReturnRoute

record VerificationResponse =
  vr_chunk_id :: ChunkId
  vr_segment_index :: u32
  vr_segment_data :: bytes
  vr_nonce :: bytes
  vr_found :: bool

definition compute_segment_hashes :: "(bytes \<Rightarrow> bytes) \<Rightarrow> EncryptedChunk list \<Rightarrow> bytes list list" where
  "compute_segment_hashes h chunks = map (\<lambda>chunk. map h (chunks_of SEGMENT_SIZE (ec_data chunk))) chunks"

definition verify_segment_response :: "(bytes \<Rightarrow> bytes) \<Rightarrow> VerificationResponse \<Rightarrow> bytes \<Rightarrow> bool" where
  "verify_segment_response h response expected_hash =
     (if \<not> vr_found response then False else h (vr_segment_data response) = expected_hash)"

definition serialize_challenge :: "VerificationChallenge \<Rightarrow> bytes" where
  "serialize_challenge c =
     [MSG_VERIFICATION_CHALLENGE] @ vc_chunk_id c @ to_be32 (vc_segment_index c) @ vc_nonce c @
     append_return_route (vc_return_route c)"

definition deserialize_challenge :: "bytes \<Rightarrow> StorageError + VerificationChallenge" where
  "deserialize_challenge data =
     fail_if (data = []) (InvalidChunkSize 1 0) (
     fail_if (data ! 0 \<noteq> MSG_VERIFICATION_CHALLENGE)
       (InvalidChunkSize (unat MSG_VERIFICATION_CHALLENGE) (unat (data ! 0))) (
     rd (take_array 32 data 1) (\<lambda>chunk_id off.
     rd (take_u32 data off) (\<lambda>segment_index off.
     rd (take_array 32 data off) (\<lambda>nonce off.
     rd (take_return_route data off) (\<lambda>return_route off.
       Inr \<lparr>vc_chunk_id = chunk_id, vc_segment_index = segment_index, vc_nonce = nonce,
            vc_return_route = return_route\<rparr>))))))"

definition serialize_verification_response :: "VerificationResponse \<Rightarrow> StorageError + bytes" where
  "serialize_verification_response resp =
     fail_if (MAX_SEGMENT_DATA_SIZE < length (vr_segment_data resp))
       (InvalidChunkSize MAX_SEGMENT_DATA_SIZE (length (vr_segment_data resp))) (
     Inr ([MSG_VERIFICATION_RESPONSE] @ vr_chunk_id resp @ to_be32 (vr_segment_index resp) @ vr_nonce resp @
       [if vr_found resp then 1 else 0] @ len_be32 (length (vr_segment_data resp)) @ vr_segment_data resp))"

definition deserialize_verification_response :: "bytes \<Rightarrow> StorageError + VerificationResponse" where
  "deserialize_verification_response data =
     fail_if (data = []) (InvalidChunkSize 1 0) (
     fail_if (data ! 0 \<noteq> MSG_VERIFICATION_RESPONSE)
       (InvalidChunkSize (unat MSG_VERIFICATION_RESPONSE) (unat (data ! 0))) (
     rd (take_array 32 data 1) (\<lambda>chunk_id off.
     rd (take_u32 data off) (\<lambda>segment_index off.
     rd (take_array 32 data off) (\<lambda>nonce off.
     rd (take_u8 data off) (\<lambda>found off.
     rd (take_len data off) (\<lambda>data_len off.
     fail_if (MAX_SEGMENT_DATA_SIZE < data_len) (InvalidChunkSize MAX_SEGMENT_DATA_SIZE data_len) (
     rd (take_array data_len data off) (\<lambda>segment_data off.
       Inr \<lparr>vr_chunk_id = chunk_id, vr_segment_index = segment_index, vr_segment_data = segment_data,
            vr_nonce = nonce, vr_found = (found = 1)\<rparr>)))))))))"

section \<open>The wire format\<close>

text \<open>The sizes Rust's array types guarantee, and the hop bound of the reader.\<close>

definition challenge_ok :: "VerificationChallenge \<Rightarrow> bool" where
  "challenge_ok c \<longleftrightarrow> length (vc_chunk_id c) = 32 \<and> length (vc_nonce c) = 32 \<and> route_ok (vc_return_route c)"

definition verification_response_ok :: "VerificationResponse \<Rightarrow> bool" where
  "verification_response_ok r \<longleftrightarrow> length (vr_chunk_id r) = 32 \<and> length (vr_nonce r) = 32"

lemma challenge_roundtrip:
  assumes "challenge_ok c"
  shows "deserialize_challenge (serialize_challenge c @ padding) = Inr c"
proof -
  let ?d = "serialize_challenge c @ padding"
  have a: "ahead ?d 1 (vc_chunk_id c @ to_be32 (vc_segment_index c) @ vc_nonce c @
      append_return_route (vc_return_route c) @ padding)"
    by (simp add: serialize_challenge_def ahead_Cons)
  have "?d \<noteq> []" "?d ! 0 = MSG_VERIFICATION_CHALLENGE" by (simp_all add: serialize_challenge_def)
  then show ?thesis
    unfolding deserialize_challenge_def using a
    by (elim dec_steps vroute.dec_step_ahead) (use assms in \<open>simp_all add: challenge_ok_def\<close>)
qed

lemma verification_response_roundtrip:
  assumes "verification_response_ok r" and "length (vr_segment_data r) \<le> MAX_SEGMENT_DATA_SIZE"
  shows "\<exists>buf. serialize_verification_response r = Inr buf \<and>
    deserialize_verification_response (buf @ padding) = Inr r"
proof -
  define d where "d = [MSG_VERIFICATION_RESPONSE] @ vr_chunk_id r @ to_be32 (vr_segment_index r) @ vr_nonce r @
       [if vr_found r then 1 else 0] @ len_be32 (length (vr_segment_data r)) @ vr_segment_data r @ padding"
  have a: "ahead d 1 (vr_chunk_id r @ to_be32 (vr_segment_index r) @ vr_nonce r @
       (if vr_found r then 1 else 0) # len_be32 (length (vr_segment_data r)) @ vr_segment_data r @ padding)"
    by (simp add: d_def ahead_Cons)
  have "d \<noteq> []" "d ! 0 = MSG_VERIFICATION_RESPONSE" by (simp_all add: d_def)
  then have "deserialize_verification_response d = Inr r"
    unfolding deserialize_verification_response_def using a
    by (elim dec_steps)
       (use assms in \<open>simp_all add: verification_response_ok_def MAX_SEGMENT_DATA_SIZE_def SEGMENT_SIZE_def\<close>)
  then show ?thesis using assms(2) by (simp add: serialize_verification_response_def d_def)
qed

text \<open>Segment challenges end to end. Both messages are read back exactly as written,
  whatever padding follows. For the hashes in the manifest, the answer carrying the named segment of
  the stored chunk is serialized without error and passes; an answer that passes with other bytes
  has the hash of the stored segment, a collision; an answer that says "not found" never passes.\<close>

theorem segment_challenge:
  assumes "challenge_ok c" and "verification_response_ok r"
    and "i < length chunks" and "j < length (compute_segment_hashes h chunks ! i)"
    and "segment = take SEGMENT_SIZE (drop (j * SEGMENT_SIZE) (ec_data (chunks ! i)))"
  shows "deserialize_challenge (serialize_challenge c @ padding) = Inr c \<and>
    (\<exists>buf. serialize_verification_response (r\<lparr>vr_segment_data := segment, vr_found := True\<rparr>) = Inr buf \<and>
       deserialize_verification_response (buf @ padding) = Inr (r\<lparr>vr_segment_data := segment, vr_found := True\<rparr>)) \<and>
    verify_segment_response h (r\<lparr>vr_segment_data := segment, vr_found := True\<rparr>) (compute_segment_hashes h chunks ! i ! j) \<and>
    (verify_segment_response h r (compute_segment_hashes h chunks ! i ! j) \<longleftrightarrow>
       vr_found r \<and> h (vr_segment_data r) = h segment)"
proof -
  have j: "j < length (chunks_of SEGMENT_SIZE (ec_data (chunks ! i)))"
    using assms(3,4) by (simp add: compute_segment_hashes_def)
  have "chunks_of SEGMENT_SIZE (ec_data (chunks ! i)) ! j = segment"
    using nth_chunks_of [OF _ j] assms(5) by (simp add: SEGMENT_SIZE_def)
  then have hash: "compute_segment_hashes h chunks ! i ! j = h segment"
    using assms(3) j by (simp add: compute_segment_hashes_def)
  have "length segment \<le> MAX_SEGMENT_DATA_SIZE" by (simp add: assms(5) MAX_SEGMENT_DATA_SIZE_def)
  moreover have "verification_response_ok (r\<lparr>vr_segment_data := segment, vr_found := True\<rparr>)"
    using assms(2) by (simp add: verification_response_ok_def)
  ultimately show ?thesis
    using challenge_roundtrip [OF assms(1)]
      verification_response_roundtrip [of "r\<lparr>vr_segment_data := segment, vr_found := True\<rparr>" padding]
    by (simp add: hash verify_segment_response_def)
qed

definition demo_route :: ReturnRoute where
  "demo_route = \<lparr>rr_hops = [\<lparr>hop_public_key = replicate 32 1, hop_node_id = replicate 16 2\<rparr>],
     rr_destination = replicate 16 3\<rparr>"

lemma demo_route_ok [simp]: "route_ok demo_route"
  by (simp add: demo_route_def route_ok_def hop_ok_def)

definition demo_challenge :: VerificationChallenge where
  "demo_challenge = \<lparr>vc_chunk_id = replicate 32 4, vc_segment_index = 0, vc_nonce = replicate 32 5,
     vc_return_route = demo_route\<rparr>"

definition demo_response :: VerificationResponse where
  "demo_response = \<lparr>vr_chunk_id = replicate 32 4, vr_segment_index = 0, vr_segment_data = [9, 9],
     vr_nonce = replicate 32 5, vr_found = True\<rparr>"

theorem segment_challenge_witness:
  "deserialize_challenge (serialize_challenge demo_challenge @ replicate 100 0) = Inr demo_challenge \<and>
   \<not> verify_segment_response (\<lambda>m. m) demo_response
       (compute_segment_hashes (\<lambda>m. m) [\<lparr>ec_id = [], ec_data = [1, 2, 3]\<rparr>] ! 0 ! 0)"
proof -
  let ?cs = "[\<lparr>ec_id = [], ec_data = [1, 2, 3]\<rparr>] :: EncryptedChunk list"
  have "challenge_ok demo_challenge" "verification_response_ok demo_response" "0 < length ?cs"
    by (simp_all add: demo_challenge_def demo_response_def challenge_ok_def verification_response_ok_def)
  moreover have "0 < length (compute_segment_hashes (\<lambda>m. m) ?cs ! 0)"
    by (simp add: compute_segment_hashes_def length_chunks_of SEGMENT_SIZE_def)
  ultimately have "deserialize_challenge (serialize_challenge demo_challenge @ replicate 100 0) = Inr demo_challenge \<and>
    (verify_segment_response (\<lambda>m. m) demo_response (compute_segment_hashes (\<lambda>m. m) ?cs ! 0 ! 0) \<longleftrightarrow>
      vr_found demo_response \<and> vr_segment_data demo_response = take SEGMENT_SIZE (drop (0 * SEGMENT_SIZE) (ec_data (?cs ! 0))))"
    using segment_challenge [of demo_challenge demo_response 0 ?cs 0 "\<lambda>m. m", OF _ _ _ _ refl] by blast
  then show ?thesis by (simp add: demo_response_def SEGMENT_SIZE_def)
qed

end
