(* ===== verification/Retrieval.thy ===== *)
theory Retrieval
  imports ReturnRoutes
begin

text \<open>
  \<^verbatim>\<open>crates/static-storage/src/retrieval.rs\<close>: chunk requests and responses, the \<open>ContentRetriever\<close> that
  collects the chunks of a manifest, and the \<open>ChunkHolder\<close> that serves them. The results: requests
  and responses survive serialization behind the zero padding of a Sphinx body, and the chunks of
  an encrypted file, arriving in any order among anything else, assemble to the file.
\<close>

definition MSG_CHUNK_REQUEST :: u8 where "MSG_CHUNK_REQUEST = 0x01"
definition MSG_CHUNK_RESPONSE :: u8 where "MSG_CHUNK_RESPONSE = 0x02"
definition MAX_SERIALIZED_SURB_SIZE :: nat where "MAX_SERIALIZED_SURB_SIZE = 16 * 1024"

record ChunkRequest =
  cr_chunk_id :: ChunkId
  cr_return_route :: ReturnRoute
  cr_surb :: "bytes option"

record ChunkResponse =
  resp_chunk_id :: ChunkId
  resp_chunk_data :: bytes
  resp_found :: bool

definition serialize_chunk_request :: "ChunkRequest \<Rightarrow> bytes" where
  "serialize_chunk_request req =
     [MSG_CHUNK_REQUEST] @ cr_chunk_id req @ append_return_route (cr_return_route req) @
     (case cr_surb req of Some surb \<Rightarrow> [1] @ len_be32 (length surb) @ surb | None \<Rightarrow> [])"

text \<open>The optional SURB suffix: an all-zero tail is the padding of the Sphinx body.\<close>

definition take_surb :: "bytes \<Rightarrow> nat \<Rightarrow> StorageError + bytes option" where
  "take_surb data off =
     (let has_surb = off < length data \<and> (\<exists>b\<in>set (drop off data). b \<noteq> 0)
      in if has_surb then
           fail_if (length data < off + 5 \<or> data ! off \<noteq> 1) (InvalidChunkSize (off + 5) (length data)) (
           let surb_len = be32_len (take 4 (drop (off + 1) data))
           in fail_if (MAX_SERIALIZED_SURB_SIZE < surb_len \<or> length data < off + 5 + surb_len)
                (InvalidChunkSize MAX_SERIALIZED_SURB_SIZE surb_len) (
              Inr (Some (take surb_len (drop (off + 5) data)))))
         else Inr None)"

definition deserialize_chunk_request :: "bytes \<Rightarrow> StorageError + ChunkRequest" where
  "deserialize_chunk_request data =
     fail_if (data = []) (InvalidChunkSize 1 0) (
     fail_if (data ! 0 \<noteq> MSG_CHUNK_REQUEST) (InvalidChunkSize (unat MSG_CHUNK_REQUEST) (unat (data ! 0))) (
     rd (take_array 32 data 1) (\<lambda>chunk_id off.
     rd (take_retrieval_route data off) (\<lambda>return_route off.
       (case take_surb data off of
          Inl e \<Rightarrow> Inl e
        | Inr surb \<Rightarrow> Inr \<lparr>cr_chunk_id = chunk_id, cr_return_route = return_route, cr_surb = surb\<rparr>)))))"

definition serialize_chunk_response :: "ChunkResponse \<Rightarrow> bytes" where
  "serialize_chunk_response resp =
     [MSG_CHUNK_RESPONSE] @ resp_chunk_id resp @ [if resp_found resp then 1 else 0] @
     len_be32 (length (resp_chunk_data resp)) @ resp_chunk_data resp"

definition deserialize_chunk_response :: "bytes \<Rightarrow> StorageError + ChunkResponse" where
  "deserialize_chunk_response data =
     fail_if (data = []) (InvalidChunkSize 1 0) (
     fail_if (data ! 0 \<noteq> MSG_CHUNK_RESPONSE) (InvalidChunkSize (unat MSG_CHUNK_RESPONSE) (unat (data ! 0))) (
     rd (take_array 32 data 1) (\<lambda>chunk_id off.
     rd (take_u8 data off) (\<lambda>found off.
     rd (take_len data off) (\<lambda>data_len off.
     rd (take_array data_len data off) (\<lambda>chunk_data off.
       Inr \<lparr>resp_chunk_id = chunk_id, resp_chunk_data = chunk_data, resp_found = (found = 1)\<rparr>))))))"

section \<open>The retriever\<close>

record ContentRetriever =
  pending :: "(ChunkId, bool) hashmap"
  received :: "(ChunkId, EncryptedChunk) hashmap"
  cr_manifest :: "ContentManifest option"
  cr_master_key :: "bytes option"
  cr_nonce :: "bytes option"

definition ContentRetriever_new :: ContentRetriever where
  "ContentRetriever_new = \<lparr>pending = [], received = [], cr_manifest = None, cr_master_key = None, cr_nonce = None\<rparr>"

definition start_retrieval :: "ContentManifest \<Rightarrow> bytes \<Rightarrow> ContentRetriever \<Rightarrow> ContentRetriever" where
  "start_retrieval manifest master_key r =
     r\<lparr>cr_manifest := Some manifest, cr_master_key := Some master_key, cr_nonce := Some (manifest_nonce manifest),
       pending := fold (\<lambda>chunk_id. hm_insert chunk_id True) (chunk_ids manifest) (pending r)\<rparr>"

text \<open>\<open>record_chunk\<close> never fails; its \<open>Ok\<close> value says whether the chunk was expected.\<close>

definition record_chunk :: "EncryptedChunk \<Rightarrow> ContentRetriever \<Rightarrow> bool \<times> ContentRetriever" where
  "record_chunk chunk r =
     (if \<not> hm_contains (pending r) (ec_id chunk) then (False, r)
      else (True, r\<lparr>pending := hm_remove (ec_id chunk) (pending r),
                    received := hm_insert (ec_id chunk) chunk (received r)\<rparr>))"

definition retriever_is_complete :: "ContentRetriever \<Rightarrow> bool" where
  "retriever_is_complete r =
     (case cr_manifest r of
        Some manifest \<Rightarrow> pending r = [] \<and> hm_len (received r) = length (chunk_ids manifest)
      | None \<Rightarrow> False)"

fun collect_chunks :: "(ChunkId, EncryptedChunk) hashmap \<Rightarrow> ChunkId list \<Rightarrow> StorageError + EncryptedChunk list" where
  "collect_chunks m [] = Inr []"
| "collect_chunks m (k # ks) =
     (case hm_get m k of
        None \<Rightarrow> Inl ContentNotFound
      | Some chunk \<Rightarrow> (case collect_chunks m ks of Inl e \<Rightarrow> Inl e | Inr cs \<Rightarrow> Inr (chunk # cs)))"

definition assemble :: "storage_env \<Rightarrow> ContentRetriever \<Rightarrow> StorageError + bytes" where
  "assemble env r =
     (case (cr_manifest r, cr_master_key r, cr_nonce r) of
        (Some manifest, Some master_key, Some nonce) \<Rightarrow>
          (case collect_chunks (received r) (chunk_ids manifest) of
             Inl e \<Rightarrow> Inl e
           | Inr chunks \<Rightarrow> decrypt_file env master_key nonce chunks manifest)
      | _ \<Rightarrow> Inl ContentNotFound)"

definition pending_count :: "ContentRetriever \<Rightarrow> nat" where
  "pending_count r = hm_len (pending r)"

definition retriever_received_count :: "ContentRetriever \<Rightarrow> nat" where
  "retriever_received_count r = hm_len (received r)"

definition progress :: "ContentRetriever \<Rightarrow> f64" where
  "progress r =
     (case cr_manifest r of
        Some manifest \<Rightarrow>
          if chunk_ids manifest = [] then Fin 1
          else Fin (f64_div (f64_of_nat (hm_len (received r))) (f64_of_nat (length (chunk_ids manifest))))
      | None \<Rightarrow> Fin 0)"

section \<open>The holder\<close>

record ChunkHolder =
  holder_chunks :: "(ChunkId, bytes) hashmap"
  chunk_to_content :: "(ChunkId, ContentId) hashmap"

definition ChunkHolder_new :: ChunkHolder where
  "ChunkHolder_new = \<lparr>holder_chunks = [], chunk_to_content = []\<rparr>"

definition holder_add_chunk :: "ChunkId \<Rightarrow> bytes \<Rightarrow> ContentId \<Rightarrow> ChunkHolder \<Rightarrow> ChunkHolder" where
  "holder_add_chunk chunk_id data content_id s =
     s\<lparr>holder_chunks := hm_insert chunk_id data (holder_chunks s),
       chunk_to_content := hm_insert chunk_id content_id (chunk_to_content s)\<rparr>"

definition holder_remove_chunk :: "ChunkId \<Rightarrow> ChunkHolder \<Rightarrow> ChunkHolder" where
  "holder_remove_chunk chunk_id s =
     s\<lparr>holder_chunks := hm_remove chunk_id (holder_chunks s),
       chunk_to_content := hm_remove chunk_id (chunk_to_content s)\<rparr>"

definition holder_has_chunk :: "ChunkHolder \<Rightarrow> ChunkId \<Rightarrow> bool" where
  "holder_has_chunk s chunk_id = hm_contains (holder_chunks s) chunk_id"

definition holder_get_chunk :: "ChunkHolder \<Rightarrow> ChunkId \<Rightarrow> bytes option" where
  "holder_get_chunk s chunk_id = hm_get (holder_chunks s) chunk_id"

definition handle_request :: "ChunkHolder \<Rightarrow> ChunkRequest \<Rightarrow> ChunkResponse option" where
  "handle_request s request =
     (case hm_get (holder_chunks s) (cr_chunk_id request) of
        Some data \<Rightarrow> Some \<lparr>resp_chunk_id = cr_chunk_id request, resp_chunk_data = data, resp_found = True\<rparr>
      | None \<Rightarrow> Some \<lparr>resp_chunk_id = cr_chunk_id request, resp_chunk_data = [], resp_found = False\<rparr>)"

definition chunk_count :: "ChunkHolder \<Rightarrow> nat" where
  "chunk_count s = hm_len (holder_chunks s)"

definition total_bytes :: "ChunkHolder \<Rightarrow> u64" where
  "total_bytes s = sum_list (map (\<lambda>d. word_of_nat (length d)) (hm_values (holder_chunks s)))"

section \<open>Messages\<close>

definition chunk_request_ok :: "ChunkRequest \<Rightarrow> bool" where
  "chunk_request_ok r \<longleftrightarrow> length (cr_chunk_id r) = 32 \<and> route_ok (cr_return_route r) \<and>
     (\<forall>surb. cr_surb r = Some surb \<longrightarrow> length surb \<le> MAX_SERIALIZED_SURB_SIZE)"

definition surb_bytes :: "bytes option \<Rightarrow> bytes" where
  "surb_bytes s = (case s of Some surb \<Rightarrow> [1] @ len_be32 (length surb) @ surb | None \<Rightarrow> [])"

lemma take_surb_ahead:
  assumes "ahead data off (surb_bytes s @ replicate n 0)"
    and "\<And>surb. s = Some surb \<Longrightarrow> length surb \<le> MAX_SERIALIZED_SURB_SIZE"
  shows "take_surb data off = Inr s"
proof (cases s)
  case None
  then have "drop off data = replicate n 0" using assms(1) by (simp add: surb_bytes_def ahead_def)
  then have "\<not> (\<exists>b\<in>set (drop off data). b \<noteq> 0)" by simp
  then show ?thesis by (simp add: take_surb_def None)
next
  case (Some surb)
  have a: "ahead data off (1 # len_be32 (length surb) @ surb @ replicate n 0)"
    using assms(1) by (simp add: surb_bytes_def Some)
  have a1: "ahead data (off + 1) (len_be32 (length surb) @ surb @ replicate n 0)"
    using ahead_append [of data off "[1]"] a by simp
  have a5: "ahead data (off + 5) (surb @ replicate n 0)"
    using ahead_append [OF a1] by (simp add: add.commute)
  have le: "length surb \<le> MAX_SERIALIZED_SURB_SIZE" using assms(2) Some by simp
  then have len: "be32_len (len_be32 (length surb)) = length surb"
    by (intro be32_len_be32) (simp add: MAX_SERIALIZED_SURB_SIZE_def)
  have "drop off data = 1 # len_be32 (length surb) @ surb @ replicate n 0" using a by (simp add: ahead_def)
  then have "\<exists>b\<in>set (drop off data). b \<noteq> 0" by simp
  then show ?thesis
    using ahead_length [OF a] ahead_nth [OF a] ahead_take [OF a1] ahead_take [OF a5] le len
    by (simp add: take_surb_def Some Let_def)
qed

lemma chunk_request_roundtrip:
  assumes "chunk_request_ok r"
  shows "deserialize_chunk_request (serialize_chunk_request r @ replicate n 0) = Inr r"
proof -
  let ?d = "serialize_chunk_request r @ replicate n 0"
  have a: "ahead ?d 1 (cr_chunk_id r @ append_return_route (cr_return_route r) @ surb_bytes (cr_surb r) @ replicate n 0)"
    by (simp add: serialize_chunk_request_def surb_bytes_def ahead_Cons)
  have "?d \<noteq> []" "?d ! 0 = MSG_CHUNK_REQUEST" by (simp_all add: serialize_chunk_request_def)
  then show ?thesis
    unfolding deserialize_chunk_request_def using a
    by (elim dec_steps rroute.dec_step_ahead)
       (use assms in \<open>simp_all add: chunk_request_ok_def take_surb_ahead\<close>)
qed

lemma chunk_response_roundtrip:
  assumes "length (resp_chunk_id r) = 32" and "length (resp_chunk_data r) < 2 ^ 32"
  shows "deserialize_chunk_response (serialize_chunk_response r @ padding) = Inr r"
proof -
  let ?d = "serialize_chunk_response r @ padding"
  have a: "ahead ?d 1 (resp_chunk_id r @ (if resp_found r then 1 else 0) #
      len_be32 (length (resp_chunk_data r)) @ resp_chunk_data r @ padding)"
    by (simp add: serialize_chunk_response_def ahead_Cons)
  have "?d \<noteq> []" "?d ! 0 = MSG_CHUNK_RESPONSE" by (simp_all add: serialize_chunk_response_def)
  then show ?thesis
    unfolding deserialize_chunk_response_def using a
    by (elim dec_steps) (use assms in simp_all)
qed

text \<open>A chunk request behind the zero padding of a Sphinx body is read back exactly,
  SURB included; the holder that reads it answers in every case; and the answer, read back by the
  requester, carries the bytes held for the chunk exactly when the holder has it.\<close>

theorem chunk_exchange:
  assumes "chunk_request_ok req" and "\<And>d. hm_get (holder_chunks s) (cr_chunk_id req) = Some d \<Longrightarrow> length d < 2 ^ 32"
  shows "deserialize_chunk_request (serialize_chunk_request req @ replicate n 0) = Inr req \<and>
    (\<exists>resp. handle_request s req = Some resp \<and>
       deserialize_chunk_response (serialize_chunk_response resp @ padding) = Inr resp \<and>
       resp_chunk_id resp = cr_chunk_id req \<and>
       (resp_found resp \<longleftrightarrow> holder_has_chunk s (cr_chunk_id req)) \<and>
       (\<forall>d. holder_get_chunk s (cr_chunk_id req) = Some d \<longrightarrow> resp_chunk_data resp = d))"
  using assms chunk_request_roundtrip [OF assms(1)]
  by (cases "hm_get (holder_chunks s) (cr_chunk_id req)")
     (auto simp: handle_request_def chunk_request_ok_def holder_has_chunk_def hm_contains_def
       holder_get_chunk_def intro!: chunk_response_roundtrip)

definition demo_chunk_request :: ChunkRequest where
  "demo_chunk_request = \<lparr>cr_chunk_id = replicate 32 7,
     cr_return_route = \<lparr>rr_hops = [], rr_destination = replicate 16 3\<rparr>, cr_surb = Some [0, 0]\<rparr>"

theorem chunk_exchange_witness:
  "deserialize_chunk_request (serialize_chunk_request demo_chunk_request @ replicate 9 0) = Inr demo_chunk_request \<and>
   (\<exists>resp. handle_request (holder_add_chunk (replicate 32 7) [1, 2] [] ChunkHolder_new) demo_chunk_request = Some resp \<and>
      resp_found resp \<and> resp_chunk_data resp = [1, 2])"
proof -
  let ?s = "holder_add_chunk (replicate 32 7) [1, 2] [] ChunkHolder_new"
  have get: "hm_get (holder_chunks ?s) (cr_chunk_id demo_chunk_request) = Some [1, 2]"
    by (simp add: holder_add_chunk_def ChunkHolder_new_def demo_chunk_request_def)
  have "chunk_request_ok demo_chunk_request"
    by (simp add: demo_chunk_request_def chunk_request_ok_def route_ok_def MAX_SERIALIZED_SURB_SIZE_def)
  from chunk_exchange [OF this, of ?s 9 "[]"] get show ?thesis
    by (auto simp: holder_has_chunk_def hm_contains_def holder_get_chunk_def)
qed

section \<open>Assembly\<close>

text \<open>The retriever's state while it collects the chunks of a manifest: every id is either pending
  or received, never both, and what was received is genuine.\<close>

definition collecting :: "EncryptedChunk list \<Rightarrow> ContentRetriever \<Rightarrow> bool" where
  "collecting chunks r \<longleftrightarrow> hm_wf (pending r) \<and> hm_wf (received r) \<and>
     (\<forall>k. (hm_get (pending r) k \<noteq> None \<or> hm_get (received r) k \<noteq> None) \<longleftrightarrow> k \<in> ec_id ` set chunks) \<and>
     (\<forall>k. \<not> (hm_get (pending r) k \<noteq> None \<and> hm_get (received r) k \<noteq> None)) \<and>
     (\<forall>k c. hm_get (received r) k = Some c \<longrightarrow> c \<in> set chunks \<and> ec_id c = k)"

lemma get_insert_all:
  "hm_get (fold (\<lambda>k. hm_insert k True) ks m) k = (if k \<in> set ks then Some True else hm_get m k)"
  by (induction ks arbitrary: m) auto

lemma wf_insert_all: "hm_wf m \<Longrightarrow> hm_wf (fold (\<lambda>k. hm_insert k True) ks m)"
  by (induction ks arbitrary: m) auto

lemma collecting_start:
  "chunk_ids manifest = map ec_id chunks \<Longrightarrow> collecting chunks (start_retrieval manifest mk ContentRetriever_new)"
  by (auto simp: collecting_def start_retrieval_def ContentRetriever_new_def get_insert_all wf_insert_all)

lemma collecting_record:
  "collecting chunks r \<Longrightarrow> (ec_id a \<in> ec_id ` set chunks \<Longrightarrow> a \<in> set chunks) \<Longrightarrow>
     collecting chunks (snd (record_chunk a r))"
  unfolding collecting_def record_chunk_def hm_contains_def by (auto split: if_splits)

lemma collecting_fold:
  "collecting chunks r \<Longrightarrow> (\<And>a. a \<in> set arrivals \<Longrightarrow> ec_id a \<in> ec_id ` set chunks \<Longrightarrow> a \<in> set chunks) \<Longrightarrow>
     collecting chunks (fold (\<lambda>a r. snd (record_chunk a r)) arrivals r)"
  by (induction arrivals arbitrary: r) (simp_all add: collecting_record)

lemma record_keeps: "hm_get (pending r) k = None \<Longrightarrow> hm_get (pending (snd (record_chunk a r))) k = None"
  by (simp add: record_chunk_def)

lemma record_fold_pending:
  "hm_get (pending r) k = None \<or> (\<exists>a\<in>set arrivals. ec_id a = k) \<Longrightarrow>
     hm_get (pending (fold (\<lambda>a r. snd (record_chunk a r)) arrivals r)) k = None"
proof (induction arrivals arbitrary: r)
  case (Cons a arrivals)
  have "hm_get (pending (snd (record_chunk a r))) k = None \<or> (\<exists>a\<in>set arrivals. ec_id a = k)"
    using Cons.prems record_keeps by (auto simp: record_chunk_def hm_contains_def)
  then show ?case using Cons.IH by simp
qed simp

lemma record_fold_fixed:
  "cr_manifest (fold (\<lambda>a r. snd (record_chunk a r)) arrivals r) = cr_manifest r \<and>
   cr_master_key (fold (\<lambda>a r. snd (record_chunk a r)) arrivals r) = cr_master_key r \<and>
   cr_nonce (fold (\<lambda>a r. snd (record_chunk a r)) arrivals r) = cr_nonce r"
  by (induction arrivals arbitrary: r) (simp_all add: record_chunk_def)

lemma hm_empty_iff: "(\<forall>k. hm_get m k = None) \<longleftrightarrow> m = []"
  by (cases m) auto

lemma collect_all:
  "(\<And>c. c \<in> set cs \<Longrightarrow> hm_get m (ec_id c) = Some c) \<Longrightarrow> collect_chunks m (map ec_id cs) = Inr cs"
  by (induction cs) simp_all

lemma collecting_done:
  assumes "collecting chunks r" and "distinct (map ec_id chunks)" and "\<And>k. hm_get (pending r) k = None"
  shows "pending r = []" and "hm_len (received r) = length chunks"
    and "collect_chunks (received r) (map ec_id chunks) = Inr chunks"
proof -
  show "pending r = []" using assms(3) hm_empty_iff by blast
  have got: "hm_get (received r) (ec_id c) = Some c" if "c \<in> set chunks" for c
  proof -
    have "ec_id c \<in> ec_id ` set chunks" using that by simp
    then have "hm_get (pending r) (ec_id c) \<noteq> None \<or> hm_get (received r) (ec_id c) \<noteq> None"
      using assms(1) unfolding collecting_def by blast
    then obtain c' where c': "hm_get (received r) (ec_id c) = Some c'"
      using assms(3) by auto
    with assms(1) have "c' \<in> set chunks" "ec_id c' = ec_id c" by (auto simp: collecting_def)
    with that assms(2) have "c' = c" by (metis distinct_map inj_onD)
    with c' show ?thesis by simp
  qed
  then show "collect_chunks (received r) (map ec_id chunks) = Inr chunks" by (rule collect_all)
  have "set (map fst (received r)) = ec_id ` set chunks"
  proof (rule set_eqI)
    fix k
    have "(hm_get (pending r) k \<noteq> None \<or> hm_get (received r) k \<noteq> None) \<longleftrightarrow> k \<in> ec_id ` set chunks"
      using assms(1) unfolding collecting_def by blast
    then show "k \<in> set (map fst (received r)) \<longleftrightarrow> k \<in> ec_id ` set chunks"
      unfolding hm_contains_alt [symmetric] hm_contains_def using assms(3) by simp
  qed
  moreover have "distinct (map fst (received r))" using assms(1) by (simp add: collecting_def hm_wf_def)
  ultimately have "length (map fst (received r)) = length (map ec_id chunks)"
    using assms(2) by (metis distinct_card list.set_map)
  then show "hm_len (received r) = length chunks" by (simp add: hm_len_def)
qed

text \<open>Retrieval in any order. When every chunk of an encrypted file with distinct chunk
  ids has arrived at least once, in any order, any number of times and among any other chunks, the
  retriever is complete, nothing is pending, and it assembles exactly the file.\<close>

theorem retrieval_any_order:
  assumes "aead_correct (se_aead env)" and "length file < 2 ^ 64"
    and "encrypt_file env mk nonce file = Inr (chunks, manifest)" and "distinct (chunk_ids manifest)"
    and "\<And>a. a \<in> set arrivals \<Longrightarrow> ec_id a \<in> set (chunk_ids manifest) \<Longrightarrow> a \<in> set chunks"
    and "set chunks \<subseteq> set arrivals"
    and "r = fold (\<lambda>a r. snd (record_chunk a r)) arrivals (start_retrieval manifest mk ContentRetriever_new)"
  shows "retriever_is_complete r \<and> pending_count r = 0 \<and> assemble env r = Inr file"
proof -
  note enc = encrypt_file_result [OF assms(1-3)]
  have c: "collecting chunks r"
    unfolding assms(7) by (rule collecting_fold) (use assms(5) enc(2) in \<open>auto intro: collecting_start\<close>)
  have "hm_get (pending r) k = None" for k
  proof (cases "k \<in> ec_id ` set chunks")
    case True
    then show ?thesis unfolding assms(7) using assms(6) by (intro record_fold_pending) auto
  next
    case False
    then show ?thesis using c by (auto simp: collecting_def)
  qed
  note fin = collecting_done [OF c _ this]
  have m: "cr_manifest r = Some manifest" "cr_master_key r = Some mk" "cr_nonce r = Some nonce"
    by (simp_all add: assms(7) record_fold_fixed) (simp_all add: start_retrieval_def enc(3))
  show ?thesis
    using fin assms(4) enc(1,2) m
    by (simp add: retriever_is_complete_def pending_count_def hm_len_def assemble_def)
qed

theorem retrieval_any_order_witness:
  "\<exists>chunks manifest. encrypt_file demo_storage [7] (replicate 12 1) [1, 2, 3] = Inr (chunks, manifest) \<and>
     assemble demo_storage (fold (\<lambda>a r. snd (record_chunk a r)) (chunks @ chunks)
       (start_retrieval manifest [7] ContentRetriever_new)) = Inr [1, 2, 3]"
proof -
  have len: "length [1 :: u8, 2, 3] < 2 ^ 64" by simp
  obtain chunks manifest where e: "encrypt_file demo_storage [7] (replicate 12 1) [1, 2, 3] = Inr (chunks, manifest)"
    by (auto simp: encrypt_file_def encrypt_chunks_sealed Let_def)
  note enc = encrypt_file_result [OF demo_storage_aead len e]
  have "length chunks = 1" using enc(4) by (simp add: CHUNK_SIZE_def)
  then obtain c where "chunks = [c]" by (cases chunks) auto
  with enc(2) have "distinct (chunk_ids manifest)"
    "\<And>a. a \<in> set (chunks @ chunks) \<Longrightarrow> ec_id a \<in> set (chunk_ids manifest) \<Longrightarrow> a \<in> set chunks"
    "set chunks \<subseteq> set (chunks @ chunks)" by simp_all
  from retrieval_any_order [OF demo_storage_aead len e this refl] e show ?thesis by blast
qed

text \<open>With a repeated chunk id in the manifest, completion is never reported: the received table has
  fewer entries than the manifest has ids.\<close>

lemma duplicate_ids_never_complete:
  assumes "cr_manifest r = Some manifest" and "hm_wf (received r)"
    and "set (map fst (received r)) \<subseteq> set (chunk_ids manifest)" and "\<not> distinct (chunk_ids manifest)"
  shows "\<not> retriever_is_complete r"
proof -
  have "hm_len (received r) = card (set (map fst (received r)))"
    using assms(2) distinct_card by (metis hm_len_def hm_wf_def length_map)
  also have "\<dots> \<le> card (set (chunk_ids manifest))" by (rule card_mono [OF _ assms(3)]) simp
  also have "\<dots> < length (chunk_ids manifest)"
    using assms(4) card_distinct card_length le_neq_implies_less by blast
  finally show ?thesis by (simp add: retriever_is_complete_def assms(1))
qed

end
