(* ===== verification/ComputeProtocol.thy ===== *)
theory ComputeProtocol
  imports ReturnRoutes
begin

text \<open>
  \<^verbatim>\<open>crates/static-storage/src/compute.rs\<close>: the compute and payment messages. Strings are their UTF-8
  bytes. The results: all four messages survive the wire, whatever follows them, within the size
  limits the serializers enforce, and oversized fields are refused by writer and reader alike.
\<close>

definition MSG_COMPUTE_REQUEST :: u8 where "MSG_COMPUTE_REQUEST = 0x03"
definition MSG_COMPUTE_RESPONSE :: u8 where "MSG_COMPUTE_RESPONSE = 0x04"
definition MSG_PAYMENT_REQUEST :: u8 where "MSG_PAYMENT_REQUEST = 0x05"
definition MSG_PAYMENT_CONFIRMATION :: u8 where "MSG_PAYMENT_CONFIRMATION = 0x06"
definition MAX_COMPUTE_INPUT_SIZE :: nat where "MAX_COMPUTE_INPUT_SIZE = 32 * 1024"
definition MAX_COMPUTE_OUTPUT_SIZE :: nat where "MAX_COMPUTE_OUTPUT_SIZE = 32 * 1024"
definition MAX_PAYMENT_ADDRESS_SIZE :: nat where "MAX_PAYMENT_ADDRESS_SIZE = 1024"
definition MAX_TX_HASH_SIZE :: nat where "MAX_TX_HASH_SIZE = 1024"
definition MAX_PAYMENT_REQUEST_SIZE :: nat where "MAX_PAYMENT_REQUEST_SIZE = 2048"

lemmas compute_limits = MAX_COMPUTE_INPUT_SIZE_def MAX_COMPUTE_OUTPUT_SIZE_def MAX_PAYMENT_ADDRESS_SIZE_def
  MAX_TX_HASH_SIZE_def MAX_PAYMENT_REQUEST_SIZE_def

section \<open>Currencies\<close>

datatype Currency = Monero | Darkfi | Navio

text \<open>\<open>str::to_lowercase\<close> as far as a comparison with ASCII words can see it: ASCII letters, and the
  Kelvin sign (U+212A), the one other character whose lower case is an ASCII letter alone.\<close>

fun to_lowercase :: "bytes \<Rightarrow> bytes" where
  "to_lowercase [] = []"
| "to_lowercase (b # bs) =
     (if b = 0xE2 \<and> take 2 bs = [0x84, 0xAA] then 0x6B # to_lowercase (drop 2 bs)
      else (if 0x41 \<le> b \<and> b \<le> 0x5A then b + 0x20 else b) # to_lowercase bs)"

definition Currency_from_str :: "bytes \<Rightarrow> Currency option" where
  "Currency_from_str s =
     (let l = to_lowercase s
      in if l = ascii ''xmr'' \<or> l = ascii ''monero'' then Some Monero
         else if l = ascii ''dark'' \<or> l = ascii ''darkfi'' then Some Darkfi
         else if l = ascii ''nav'' \<or> l = ascii ''navio'' then Some Navio
         else None)"

fun Currency_as_str :: "Currency \<Rightarrow> bytes" where
  "Currency_as_str Monero = ascii ''XMR''"
| "Currency_as_str Darkfi = ascii ''DARK''"
| "Currency_as_str Navio = ascii ''NAV''"

fun Currency_to_byte :: "Currency \<Rightarrow> u8" where
  "Currency_to_byte Monero = 0"
| "Currency_to_byte Darkfi = 1"
| "Currency_to_byte Navio = 2"

definition Currency_from_byte :: "u8 \<Rightarrow> Currency option" where
  "Currency_from_byte b =
     (if b = 0 then Some Monero else if b = 1 then Some Darkfi else if b = 2 then Some Navio else None)"

lemma currency_byte [simp]: "Currency_from_byte (Currency_to_byte c) = Some c"
  by (cases c) (simp_all add: Currency_from_byte_def)

lemma currency_str: "Currency_from_str (Currency_as_str c) = Some c"
proof -
  have "Currency_from_str (Currency_as_str Monero) = Some Monero" by code_simp
  moreover have "Currency_from_str (Currency_as_str Darkfi) = Some Darkfi" by code_simp
  moreover have "Currency_from_str (Currency_as_str Navio) = Some Navio" by code_simp
  ultimately show ?thesis by (cases c) simp_all
qed

section \<open>Messages\<close>

record ComputeRequest =
  creq_from_node :: NodeId
  creq_module_content_id :: ContentId
  creq_module_content_pub_key :: bytes
  creq_currency :: u8
  creq_payment_address :: bytes
  creq_request_id :: bytes
  creq_return_route :: ReturnRoute
  creq_input_data :: bytes

record ComputeResponse =
  cresp_request_id :: bytes
  cresp_output_data :: bytes
  cresp_success :: bool
  cresp_error :: "bytes option"
  cresp_cpu_time_ms :: u64
  cresp_memory_used :: u64
  cresp_payment_required :: bool
  cresp_payment_request :: bytes

record PaymentRequest =
  preq_request_id :: bytes
  preq_currency :: Currency
  preq_amount :: u64
  preq_address :: bytes
  preq_required_confirmations :: u32

record PaymentConfirmation =
  pconf_request_id :: bytes
  pconf_tx_hash :: bytes
  pconf_currency :: Currency

text \<open>\<open>data.is_empty() || data[0] != tag\<close> and its error.\<close>

definition check_tag :: "u8 \<Rightarrow> bytes \<Rightarrow> StorageError + 'a \<Rightarrow> StorageError + 'a" where
  "check_tag tag data k =
     fail_if (data = [] \<or> data ! 0 \<noteq> tag)
       (InvalidChunkSize (unat tag) (case data of [] \<Rightarrow> 0 | b # _ \<Rightarrow> unat b)) k"

definition serialize_compute_request :: "ComputeRequest \<Rightarrow> StorageError + bytes" where
  "serialize_compute_request req =
     fail_if (MAX_COMPUTE_INPUT_SIZE < length (creq_input_data req))
       (InvalidChunkSize MAX_COMPUTE_INPUT_SIZE (length (creq_input_data req))) (
     fail_if (MAX_PAYMENT_ADDRESS_SIZE < length (creq_payment_address req))
       (InvalidChunkSize MAX_PAYMENT_ADDRESS_SIZE (length (creq_payment_address req))) (
     Inr ([MSG_COMPUTE_REQUEST] @ creq_from_node req @ creq_module_content_id req @
       creq_module_content_pub_key req @ [creq_currency req] @
       len_be32 (length (creq_payment_address req)) @ creq_payment_address req @ creq_request_id req @
       append_return_route (creq_return_route req) @
       len_be32 (length (creq_input_data req)) @ creq_input_data req)))"

definition deserialize_compute_request :: "bytes \<Rightarrow> StorageError + ComputeRequest" where
  "deserialize_compute_request data =
     check_tag MSG_COMPUTE_REQUEST data (
     rd (take_array 16 data 1) (\<lambda>from_node off.
     rd (take_array 32 data off) (\<lambda>module_content_id off.
     rd (take_array 32 data off) (\<lambda>module_content_pub_key off.
     rd (take_u8 data off) (\<lambda>currency off.
     rd (take_len data off) (\<lambda>addr_len off.
     fail_if (MAX_PAYMENT_ADDRESS_SIZE < addr_len) (InvalidChunkSize MAX_PAYMENT_ADDRESS_SIZE addr_len) (
     rd (take_array addr_len data off) (\<lambda>payment_address off.
     rd (take_array 32 data off) (\<lambda>request_id off.
     rd (take_compute_route data off) (\<lambda>return_route off.
     rd (take_len data off) (\<lambda>input_len off.
     rd (take_array input_len data off) (\<lambda>input_data off.
     fail_if (MAX_COMPUTE_INPUT_SIZE < length input_data) (InvalidChunkSize MAX_COMPUTE_INPUT_SIZE (length input_data)) (
       Inr \<lparr>creq_from_node = from_node, creq_module_content_id = module_content_id,
            creq_module_content_pub_key = module_content_pub_key, creq_currency = currency,
            creq_payment_address = payment_address, creq_request_id = request_id,
            creq_return_route = return_route, creq_input_data = input_data\<rparr>)))))))))))))"

definition serialize_compute_response :: "ComputeResponse \<Rightarrow> StorageError + bytes" where
  "serialize_compute_response resp =
     fail_if (MAX_COMPUTE_OUTPUT_SIZE < length (cresp_output_data resp))
       (InvalidChunkSize MAX_COMPUTE_OUTPUT_SIZE (length (cresp_output_data resp))) (
     fail_if (MAX_PAYMENT_REQUEST_SIZE < length (cresp_payment_request resp))
       (InvalidChunkSize MAX_PAYMENT_REQUEST_SIZE (length (cresp_payment_request resp))) (
     let err = (case cresp_error resp of None \<Rightarrow> [] | Some e \<Rightarrow> e)
     in Inr ([MSG_COMPUTE_RESPONSE] @ cresp_request_id resp @ [if cresp_success resp then 1 else 0] @
          len_be32 (length err) @ err @
          to_be64 (cresp_cpu_time_ms resp) @ to_be64 (cresp_memory_used resp) @
          [if cresp_payment_required resp then 1 else 0] @
          len_be32 (length (cresp_payment_request resp)) @ cresp_payment_request resp @
          len_be32 (length (cresp_output_data resp)) @ cresp_output_data resp)))"

text \<open>\<open>if error_len > 0 { Some(String::from_utf8(..)?) } else { None }\<close>\<close>

definition take_error :: "nat \<Rightarrow> bytes \<Rightarrow> nat \<Rightarrow> StorageError + (bytes option \<times> nat)" where
  "take_error error_len data off =
     rd (take_array error_len data off) (\<lambda>bs off.
     fail_if (0 < error_len \<and> \<not> utf8_ok bs) DecryptionFailed (
       Inr (if 0 < error_len then Some bs else None, off)))"

text \<open>\<open>cpu_time_ms\<close> and \<open>memory_used\<close> are read behind one check of 16 bytes.\<close>

definition take_usage :: "bytes \<Rightarrow> nat \<Rightarrow> StorageError + ((u64 \<times> u64) \<times> nat)" where
  "take_usage data off =
     rd (take_array 16 data off) (\<lambda>bs off.
       Inr ((from_be64 (take 8 bs), from_be64 (drop 8 bs)), off))"

definition deserialize_compute_response :: "bytes \<Rightarrow> StorageError + ComputeResponse" where
  "deserialize_compute_response data =
     check_tag MSG_COMPUTE_RESPONSE data (
     rd (take_array 32 data 1) (\<lambda>request_id off.
     rd (take_u8 data off) (\<lambda>success off.
     rd (take_len data off) (\<lambda>error_len off.
     rd (take_error error_len data off) (\<lambda>err off.
     rd (take_usage data off) (\<lambda>usage off.
     rd (take_u8 data off) (\<lambda>payment_required off.
     rd (take_len data off) (\<lambda>payreq_len off.
     fail_if (MAX_PAYMENT_REQUEST_SIZE < payreq_len) (InvalidChunkSize MAX_PAYMENT_REQUEST_SIZE payreq_len) (
     rd (take_array payreq_len data off) (\<lambda>payment_request off.
     rd (take_len data off) (\<lambda>output_len off.
     rd (take_array output_len data off) (\<lambda>output_data off.
     fail_if (MAX_COMPUTE_OUTPUT_SIZE < length output_data) (InvalidChunkSize MAX_COMPUTE_OUTPUT_SIZE (length output_data)) (
       Inr \<lparr>cresp_request_id = request_id, cresp_output_data = output_data, cresp_success = (success = 1),
            cresp_error = err, cresp_cpu_time_ms = fst usage, cresp_memory_used = snd usage,
            cresp_payment_required = (payment_required = 1), cresp_payment_request = payment_request\<rparr>)))))))))))))"

definition serialize_payment_request :: "PaymentRequest \<Rightarrow> StorageError + bytes" where
  "serialize_payment_request req =
     fail_if (MAX_PAYMENT_ADDRESS_SIZE < length (preq_address req))
       (InvalidChunkSize MAX_PAYMENT_ADDRESS_SIZE (length (preq_address req))) (
     Inr ([MSG_PAYMENT_REQUEST] @ preq_request_id req @ [Currency_to_byte (preq_currency req)] @
       to_be64 (preq_amount req) @ len_be32 (length (preq_address req)) @ preq_address req @
       to_be32 (preq_required_confirmations req)))"

text \<open>A length-prefixed string field: bound, bytes and UTF-8 check.\<close>

definition take_string :: "nat \<Rightarrow> bytes \<Rightarrow> nat \<Rightarrow> StorageError + (bytes \<times> nat)" where
  "take_string max_len data off =
     rd (take_len data off) (\<lambda>n off.
     fail_if (max_len < n) (InvalidChunkSize max_len n) (
     rd (take_array n data off) (\<lambda>bs off.
     fail_if (\<not> utf8_ok bs) DecryptionFailed (Inr (bs, off)))))"

definition take_currency :: "bytes \<Rightarrow> nat \<Rightarrow> StorageError + (Currency \<times> nat)" where
  "take_currency data off =
     rd (take_u8 data off) (\<lambda>b off.
       case Currency_from_byte b of None \<Rightarrow> Inl DecryptionFailed | Some c \<Rightarrow> Inr (c, off))"

definition deserialize_payment_request :: "bytes \<Rightarrow> StorageError + PaymentRequest" where
  "deserialize_payment_request data =
     check_tag MSG_PAYMENT_REQUEST data (
     rd (take_array 32 data 1) (\<lambda>request_id off.
     rd (take_currency data off) (\<lambda>currency off.
     rd (take_u64 data off) (\<lambda>amount off.
     rd (take_string MAX_PAYMENT_ADDRESS_SIZE data off) (\<lambda>address off.
     rd (take_u32 data off) (\<lambda>required_confirmations off.
       Inr \<lparr>preq_request_id = request_id, preq_currency = currency, preq_amount = amount,
            preq_address = address, preq_required_confirmations = required_confirmations\<rparr>))))))"

definition serialize_payment_confirmation :: "PaymentConfirmation \<Rightarrow> StorageError + bytes" where
  "serialize_payment_confirmation c =
     fail_if (MAX_TX_HASH_SIZE < length (pconf_tx_hash c))
       (InvalidChunkSize MAX_TX_HASH_SIZE (length (pconf_tx_hash c))) (
     Inr ([MSG_PAYMENT_CONFIRMATION] @ pconf_request_id c @ [Currency_to_byte (pconf_currency c)] @
       len_be32 (length (pconf_tx_hash c)) @ pconf_tx_hash c))"

definition deserialize_payment_confirmation :: "bytes \<Rightarrow> StorageError + PaymentConfirmation" where
  "deserialize_payment_confirmation data =
     check_tag MSG_PAYMENT_CONFIRMATION data (
     rd (take_array 32 data 1) (\<lambda>request_id off.
     rd (take_currency data off) (\<lambda>currency off.
     rd (take_string MAX_TX_HASH_SIZE data off) (\<lambda>tx_hash off.
       Inr \<lparr>pconf_request_id = request_id, pconf_tx_hash = tx_hash, pconf_currency = currency\<rparr>))))"

section \<open>Field codecs\<close>

interpretation tcur: codec "\<lambda>c. [Currency_to_byte c]" take_currency "\<lambda>_. True"
  by unfold_locales
     (auto simp: take_currency_def take_u8_def ahead_nth rd_Inr_iff dest: ahead_length
       split: option.splits if_splits)

lemma take_currency_step:
  "ahead data off (Currency_to_byte c # rest) \<Longrightarrow> (ahead data (off + 1) rest \<Longrightarrow> k c (off + 1) = r) \<Longrightarrow>
     rd (take_currency data off) k = r"
  using tcur.dec_step [of data off c rest k r] by simp

lemma take_string_step:
  assumes "ahead data off (len_be32 (length bs) @ bs @ rest)" and "length bs \<le> max_len \<and> length bs < 2 ^ 32 \<and> utf8_ok bs"
    and "ahead data (off + 4 + length bs) rest \<Longrightarrow> k bs (off + 4 + length bs) = r"
  shows "rd (take_string max_len data off) k = r"
proof -
  have "take_string max_len data off = Inr (bs, off + 4 + length bs)"
    unfolding take_string_def using assms(1)
    by (elim dec_steps) (use assms(2) in simp_all)
  moreover have "ahead data (off + 4 + length bs) rest"
    using ahead_append [OF ahead_append [OF assms(1)]] by simp
  ultimately show ?thesis using assms(3) by simp
qed

lemma take_error_step:
  assumes "ahead data off (err @ rest)" and "n = length err \<and> utf8_ok err"
    and "ahead data (off + length err) rest \<Longrightarrow> k (if err = [] then None else Some err) (off + length err) = r"
  shows "rd (take_error n data off) k = r"
proof -
  have "take_error n data off = Inr (if err = [] then None else Some err, off + length err)"
    unfolding take_error_def using assms(1) by (elim dec_steps) (use assms(2) in auto)
  then show ?thesis using assms(3) ahead_append [OF assms(1)] by simp
qed

lemma take_usage_step:
  assumes "ahead data off (to_be64 a @ to_be64 b @ rest)"
    and "ahead data (off + 16) rest \<Longrightarrow> k (a, b) (off + 16) = r"
  shows "rd (take_usage data off) k = r"
proof -
  have a: "ahead data off ((to_be64 a @ to_be64 b) @ rest)" using assms(1) by simp
  then have "take_usage data off = Inr ((a, b), off + 16)"
    unfolding take_usage_def by (elim dec_steps) simp_all
  then show ?thesis using assms(2) ahead_append [OF a] by simp
qed

lemmas compute_steps = take_currency_step take_string_step take_error_step take_usage_step
  croute.dec_step_ahead dec_steps

section \<open>Round trips\<close>

text \<open>The sizes of Rust's arrays and the UTF-8 invariant of its strings.\<close>

definition compute_request_ok :: "ComputeRequest \<Rightarrow> bool" where
  "compute_request_ok r \<longleftrightarrow> length (creq_from_node r) = 16 \<and> length (creq_module_content_id r) = 32 \<and>
     length (creq_module_content_pub_key r) = 32 \<and> length (creq_request_id r) = 32 \<and> route_ok (creq_return_route r)"

definition compute_response_ok :: "ComputeResponse \<Rightarrow> bool" where
  "compute_response_ok r \<longleftrightarrow> length (cresp_request_id r) = 32 \<and>
     (\<forall>e. cresp_error r = Some e \<longrightarrow> utf8_ok e \<and> length e < 2 ^ 32)"

lemma check_tag_step: "d = t # rest \<Longrightarrow> (ahead d 1 rest \<Longrightarrow> k = r) \<Longrightarrow> check_tag t d k = r"
  by (simp add: check_tag_def ahead_Cons)

lemma compute_request_roundtrip:
  assumes "compute_request_ok r" and "serialize_compute_request r = Inr buf"
  shows "deserialize_compute_request (buf @ padding) = Inr r"
proof -
  have le: "length (creq_input_data r) \<le> MAX_COMPUTE_INPUT_SIZE" "length (creq_payment_address r) \<le> MAX_PAYMENT_ADDRESS_SIZE"
    and buf: "buf @ padding = MSG_COMPUTE_REQUEST # creq_from_node r @ creq_module_content_id r @
       creq_module_content_pub_key r @ creq_currency r #
       len_be32 (length (creq_payment_address r)) @ creq_payment_address r @ creq_request_id r @
       append_return_route (creq_return_route r) @
       len_be32 (length (creq_input_data r)) @ creq_input_data r @ padding"
    using assms(2) by (auto simp: serialize_compute_request_def)
  show ?thesis
    unfolding deserialize_compute_request_def
    by (rule check_tag_step [OF buf], elim compute_steps)
       (use assms(1) le in \<open>simp_all add: compute_request_ok_def compute_limits\<close>)
qed

lemma compute_response_roundtrip:
  assumes "compute_response_ok r" and "serialize_compute_response r = Inr buf"
  shows "deserialize_compute_response (buf @ padding) =
    Inr (r\<lparr>cresp_error := (if cresp_error r = Some [] then None else cresp_error r)\<rparr>)"
proof -
  define err where "err = (case cresp_error r of None \<Rightarrow> [] | Some e \<Rightarrow> e)"
  have le: "length (cresp_output_data r) \<le> MAX_COMPUTE_OUTPUT_SIZE" "length (cresp_payment_request r) \<le> MAX_PAYMENT_REQUEST_SIZE"
    and buf: "buf @ padding = MSG_COMPUTE_RESPONSE # cresp_request_id r @ (if cresp_success r then 1 else 0) #
          len_be32 (length err) @ err @
          to_be64 (cresp_cpu_time_ms r) @ to_be64 (cresp_memory_used r) @
          (if cresp_payment_required r then 1 else 0) #
          len_be32 (length (cresp_payment_request r)) @ cresp_payment_request r @
          len_be32 (length (cresp_output_data r)) @ cresp_output_data r @ padding"
    using assms(2) by (auto simp: serialize_compute_response_def err_def Let_def)
  have err: "utf8_ok err" "length err < 2 ^ 32"
    "(if err = [] then None else Some err) = (if cresp_error r = Some [] then None else cresp_error r)"
    using assms(1) by (auto simp: compute_response_ok_def err_def split: option.splits)
  show ?thesis
    unfolding deserialize_compute_response_def
    by (rule check_tag_step [OF buf], elim compute_steps)
       (use assms(1) le err in \<open>simp_all add: compute_response_ok_def compute_limits\<close>)
qed

lemma payment_request_roundtrip:
  assumes "length (preq_request_id r) = 32" and "utf8_ok (preq_address r)" and "serialize_payment_request r = Inr buf"
  shows "deserialize_payment_request (buf @ padding) = Inr r"
proof -
  have le: "length (preq_address r) \<le> MAX_PAYMENT_ADDRESS_SIZE"
    and buf: "buf @ padding = MSG_PAYMENT_REQUEST # preq_request_id r @ Currency_to_byte (preq_currency r) #
       to_be64 (preq_amount r) @ len_be32 (length (preq_address r)) @ preq_address r @
       to_be32 (preq_required_confirmations r) @ padding"
    using assms(3) by (auto simp: serialize_payment_request_def)
  show ?thesis
    unfolding deserialize_payment_request_def
    by (rule check_tag_step [OF buf], elim compute_steps)
       (use assms(1,2) le in \<open>simp_all add: compute_limits\<close>)
qed

lemma payment_confirmation_roundtrip:
  assumes "length (pconf_request_id c) = 32" and "utf8_ok (pconf_tx_hash c)" and "serialize_payment_confirmation c = Inr buf"
  shows "deserialize_payment_confirmation (buf @ padding) = Inr c"
proof -
  have le: "length (pconf_tx_hash c) \<le> MAX_TX_HASH_SIZE"
    and buf: "buf @ padding = MSG_PAYMENT_CONFIRMATION # pconf_request_id c @ Currency_to_byte (pconf_currency c) #
       len_be32 (length (pconf_tx_hash c)) @ pconf_tx_hash c @ padding"
    using assms(3) by (auto simp: serialize_payment_confirmation_def)
  show ?thesis
    unfolding deserialize_payment_confirmation_def
    by (rule check_tag_step [OF buf], elim compute_steps)
       (use assms(1,2) le in \<open>simp_all add: compute_limits\<close>)
qed

text \<open>Compute requests and responses. A request is refused by the serializer exactly when
  its input or payment address is too long, and otherwise read back exactly, whatever follows it; the
  same for a response, except that an empty error message becomes "no error".\<close>

theorem compute_messages_roundtrip:
  assumes "compute_request_ok req" and "compute_response_ok resp"
  shows "(case serialize_compute_request req of
       Inl _ \<Rightarrow> MAX_COMPUTE_INPUT_SIZE < length (creq_input_data req) \<or>
                MAX_PAYMENT_ADDRESS_SIZE < length (creq_payment_address req)
     | Inr buf \<Rightarrow> length (creq_input_data req) \<le> MAX_COMPUTE_INPUT_SIZE \<and>
         length (creq_payment_address req) \<le> MAX_PAYMENT_ADDRESS_SIZE \<and>
         deserialize_compute_request (buf @ padding) = Inr req) \<and>
    (case serialize_compute_response resp of
       Inl _ \<Rightarrow> MAX_COMPUTE_OUTPUT_SIZE < length (cresp_output_data resp) \<or>
                MAX_PAYMENT_REQUEST_SIZE < length (cresp_payment_request resp)
     | Inr buf \<Rightarrow> length (cresp_output_data resp) \<le> MAX_COMPUTE_OUTPUT_SIZE \<and>
         length (cresp_payment_request resp) \<le> MAX_PAYMENT_REQUEST_SIZE \<and>
         deserialize_compute_response (buf @ padding) =
         Inr (resp\<lparr>cresp_error := (if cresp_error resp = Some [] then None else cresp_error resp)\<rparr>))"
proof -
  have "(\<exists>e. serialize_compute_request req = Inl e) \<longleftrightarrow> MAX_COMPUTE_INPUT_SIZE < length (creq_input_data req) \<or> MAX_PAYMENT_ADDRESS_SIZE < length (creq_payment_address req)"
    by (auto simp: serialize_compute_request_def fail_if_def split: if_splits)
  moreover have "(\<exists>e. serialize_compute_response resp = Inl e) \<longleftrightarrow> MAX_COMPUTE_OUTPUT_SIZE < length (cresp_output_data resp) \<or> MAX_PAYMENT_REQUEST_SIZE < length (cresp_payment_request resp)"
    by (auto simp: serialize_compute_response_def fail_if_def Let_def split: if_splits)
  ultimately show ?thesis
    using compute_request_roundtrip [OF assms(1)] compute_response_roundtrip [OF assms(2)]
    by (auto split: sum.split)
qed

definition demo_compute_request :: ComputeRequest where
  "demo_compute_request = \<lparr>creq_from_node = replicate 16 1, creq_module_content_id = replicate 32 2,
     creq_module_content_pub_key = replicate 32 3, creq_currency = 0, creq_payment_address = [],
     creq_request_id = replicate 32 4, creq_return_route = \<lparr>rr_hops = [], rr_destination = replicate 16 5\<rparr>,
     creq_input_data = [1, 2, 3]\<rparr>"

definition demo_compute_response :: ComputeResponse where
  "demo_compute_response = \<lparr>cresp_request_id = replicate 32 4, cresp_output_data = [7], cresp_success = True,
     cresp_error = None, cresp_cpu_time_ms = 5, cresp_memory_used = 6, cresp_payment_required = False,
     cresp_payment_request = []\<rparr>"

theorem compute_messages_roundtrip_witness:
  "(case serialize_compute_request demo_compute_request of
      Inl _ \<Rightarrow> False | Inr buf \<Rightarrow> deserialize_compute_request (buf @ [0]) = Inr demo_compute_request) \<and>
   (case serialize_compute_response demo_compute_response of
      Inl _ \<Rightarrow> False | Inr buf \<Rightarrow> deserialize_compute_response (buf @ [0]) = Inr demo_compute_response)"
proof -
  have "compute_request_ok demo_compute_request" "compute_response_ok demo_compute_response"
    by (simp_all add: demo_compute_request_def demo_compute_response_def compute_request_ok_def
        compute_response_ok_def route_ok_def)
  from compute_messages_roundtrip [OF this, of "[0]"] show ?thesis
    by (auto simp: demo_compute_request_def demo_compute_response_def compute_limits split: sum.splits)
qed

text \<open>Payment quotes and confirmations are refused exactly when their string is too long
  and otherwise read back exactly, currency and amount included; the wire byte and the ticker of a
  currency both identify it, and every other byte is rejected.\<close>

theorem payment_messages_roundtrip:
  assumes "length (preq_request_id req) = 32" and "utf8_ok (preq_address req)"
    and "length (pconf_request_id conf) = 32" and "utf8_ok (pconf_tx_hash conf)"
  shows "(case serialize_payment_request req of
       Inl _ \<Rightarrow> MAX_PAYMENT_ADDRESS_SIZE < length (preq_address req)
     | Inr buf \<Rightarrow> length (preq_address req) \<le> MAX_PAYMENT_ADDRESS_SIZE \<and>
         deserialize_payment_request (buf @ padding) = Inr req) \<and>
    (case serialize_payment_confirmation conf of
       Inl _ \<Rightarrow> MAX_TX_HASH_SIZE < length (pconf_tx_hash conf)
     | Inr buf \<Rightarrow> length (pconf_tx_hash conf) \<le> MAX_TX_HASH_SIZE \<and>
         deserialize_payment_confirmation (buf @ padding) = Inr conf) \<and>
    (\<forall>b c. Currency_from_byte b = Some c \<longleftrightarrow> b = Currency_to_byte c) \<and>
    (\<forall>c. Currency_from_str (Currency_as_str c) = Some c)"
proof -
  have "Currency_from_byte b = Some c \<longleftrightarrow> b = Currency_to_byte c" for b c
    by (cases c) (auto simp: Currency_from_byte_def)
  moreover have "(\<exists>e. serialize_payment_request req = Inl e) \<longleftrightarrow> MAX_PAYMENT_ADDRESS_SIZE < length (preq_address req)"
    by (auto simp: serialize_payment_request_def fail_if_def split: if_splits)
  moreover have "(\<exists>e. serialize_payment_confirmation conf = Inl e) \<longleftrightarrow> MAX_TX_HASH_SIZE < length (pconf_tx_hash conf)"
    by (auto simp: serialize_payment_confirmation_def fail_if_def split: if_splits)
  ultimately show ?thesis
    using payment_request_roundtrip [OF assms(1,2)] payment_confirmation_roundtrip [OF assms(3,4)] currency_str
    by (auto split: sum.split)
qed

theorem payment_messages_roundtrip_witness:
  "(case serialize_payment_request \<lparr>preq_request_id = replicate 32 4, preq_currency = Navio, preq_amount = 1000,
      preq_address = ascii ''addr'', preq_required_confirmations = 10\<rparr> of
      Inl _ \<Rightarrow> False
    | Inr buf \<Rightarrow> deserialize_payment_request (buf @ [0]) =
        Inr \<lparr>preq_request_id = replicate 32 4, preq_currency = Navio, preq_amount = 1000,
             preq_address = ascii ''addr'', preq_required_confirmations = 10\<rparr>)"
proof -
  let ?r = "\<lparr>preq_request_id = replicate 32 4, preq_currency = Navio, preq_amount = 1000,
      preq_address = ascii ''addr'', preq_required_confirmations = 10\<rparr>"
  let ?c = "\<lparr>pconf_request_id = replicate 32 4, pconf_tx_hash = ascii ''tx'', pconf_currency = Navio\<rparr>"
  have u: "utf8_ok (ascii ''addr'')" "utf8_ok (ascii ''tx'')" "length (ascii ''addr'') = 4" by code_simp+
  show ?thesis
    using payment_messages_roundtrip [of ?r ?c "[0]"] u by (auto simp: compute_limits split: sum.splits)
qed

end
