(* ===== verification/Swap.thy ===== *)
theory Swap
  imports Integrity
begin

text \<open>
  \<^verbatim>\<open>crates/static-storage/src/swap.rs\<close>: the messages of the two-phase storage barter, their signatures,
  the \<open>SwapState\<close> that tracks proposals and pending swaps, and \<open>StorageCapacity\<close>. The clock and the
  random nonces drawn while signing are arguments; Ed25519 and \<open>blake3\<close> are parameters. The results:
  signed messages verify and their signatures bind every covered field; the state stays within its
  bounds and every pending swap ends exactly once; capacity is never overcommitted; proposals are
  accepted exactly under the documented conditions.
\<close>

section \<open>Messages\<close>

definition SWAP_PROPOSAL :: u8 where "SWAP_PROPOSAL = 0x01"
definition SWAP_ACCEPT :: u8 where "SWAP_ACCEPT = 0x02"
definition SWAP_REJECT :: u8 where "SWAP_REJECT = 0x03"
definition DEFAULT_LEASE_DURATION_SECS :: u64 where "DEFAULT_LEASE_DURATION_SECS = 86400"
definition DEFAULT_PENDING_SWAP_TIMEOUT_SECS :: u64 where "DEFAULT_PENDING_SWAP_TIMEOUT_SECS = 300"
definition MAX_PENDING_SWAPS :: nat where "MAX_PENDING_SWAPS = 32"
definition MAX_PENDING_PROPOSALS :: nat where "MAX_PENDING_PROPOSALS = 128"
definition MAX_COMPLETED_SWAPS :: nat where "MAX_COMPLETED_SWAPS = 256"

datatype SwapRejectReason =
    NoCapacity
  | TooManyFromPeer
  | InvalidChunkSizeReason
  | InvalidLease
  | InvalidIntegrityTag
  | InvalidSignature

definition SwapRejectReason_try_from :: "u8 \<Rightarrow> StorageError + SwapRejectReason" where
  "SwapRejectReason_try_from v =
     (if v = 0 then Inr NoCapacity
      else if v = 1 then Inr TooManyFromPeer
      else if v = 2 then Inr InvalidChunkSizeReason
      else if v = 3 then Inr InvalidLease
      else if v = 4 then Inr InvalidIntegrityTag
      else if v = 5 then Inr InvalidSignature
      else Inl (InvalidChunkSize 0 (unat v)))"

record SwapProposal =
  prop_from_node :: NodeId
  prop_chunk_id :: ChunkId
  prop_lease :: ChunkLease
  prop_encrypted_master_key :: bytes
  prop_content_root :: bytes
  prop_merkle_proof :: MerkleProof
  proposal_nonce :: bytes
  prop_content_public_key :: bytes
  prop_content_signature :: bytes

record SwapAccept =
  acc_from_node :: NodeId
  acc_chunk_id :: ChunkId
  acc_lease :: ChunkLease
  acc_proposal_id :: bytes
  acc_encrypted_master_key :: bytes
  acc_return_content_root :: bytes
  acc_return_merkle_proof :: MerkleProof
  acc_return_content_signature :: bytes
  acc_nonce :: bytes
  acc_identity_public_key :: bytes
  acc_signature :: bytes

record SwapReject =
  rej_from_node :: NodeId
  rej_proposal_id :: bytes
  rej_reason :: SwapRejectReason

record SwapCommit =
  com_proposal_id :: bytes
  com_from_node :: NodeId
  com_nonce :: bytes
  com_identity_public_key :: bytes
  com_signature :: bytes

record SwapAbort =
  abo_proposal_id :: bytes
  abo_from_node :: NodeId
  abo_reason :: bytes
  abo_nonce :: bytes
  abo_identity_public_key :: bytes
  abo_signature :: bytes

text \<open>\<open>if nonce == [0; 32] { OsRng.fill_bytes(&mut nonce) }\<close>\<close>

definition fresh_nonce :: "bytes \<Rightarrow> bytes \<Rightarrow> bytes" where
  "fresh_nonce rnd nonce = (if nonce = replicate 32 0 then rnd else nonce)"

definition proposal_signing_bytes :: "SwapProposal \<Rightarrow> bytes" where
  "proposal_signing_bytes p = prop_content_root p @ prop_chunk_id p @ prop_from_node p @ proposal_nonce p"

definition proposal_sign :: "'sk ed25519 \<Rightarrow> bytes \<Rightarrow> 'sk \<Rightarrow> SwapProposal \<Rightarrow> SwapProposal" where
  "proposal_sign ed rnd sk p =
     (let p = p\<lparr>prop_content_public_key := ed_public ed sk\<rparr>;
          p = p\<lparr>proposal_nonce := fresh_nonce rnd (proposal_nonce p)\<rparr>
      in p\<lparr>prop_content_signature := ed_sign ed sk (proposal_signing_bytes p)\<rparr>)"

definition verify_content_signature :: "'sk ed25519 \<Rightarrow> SwapProposal \<Rightarrow> SwapRejectReason + unit" where
  "verify_content_signature ed p =
     (if length (prop_content_signature p) \<noteq> 64 then Inl InvalidSignature
      else if \<not> ed_parse ed (prop_content_public_key p) then Inl InvalidSignature
      else if ed_check ed (prop_content_public_key p) (proposal_signing_bytes p) (prop_content_signature p)
           then Inr () else Inl InvalidSignature)"

definition accept_signing_bytes :: "SwapAccept \<Rightarrow> bytes" where
  "accept_signing_bytes a =
     acc_proposal_id a @ acc_from_node a @ acc_chunk_id a @ acc_return_content_root a @ acc_nonce a"

definition accept_sign :: "'sk ed25519 \<Rightarrow> bytes \<Rightarrow> 'sk \<Rightarrow> SwapAccept \<Rightarrow> SwapAccept" where
  "accept_sign ed rnd sk a =
     (let a = a\<lparr>acc_identity_public_key := ed_public ed sk\<rparr>;
          a = a\<lparr>acc_nonce := fresh_nonce rnd (acc_nonce a)\<rparr>
      in a\<lparr>acc_signature := ed_sign ed sk (accept_signing_bytes a)\<rparr>)"

definition accept_verify_signature :: "'sk ed25519 \<Rightarrow> SwapAccept \<Rightarrow> bool" where
  "accept_verify_signature ed a =
     (if length (acc_signature a) \<noteq> 64 then False
      else if \<not> ed_parse ed (acc_identity_public_key a) then False
      else ed_check ed (acc_identity_public_key a) (accept_signing_bytes a) (acc_signature a))"

definition commit_signing_bytes :: "SwapCommit \<Rightarrow> bytes" where
  "commit_signing_bytes c = com_proposal_id c @ com_from_node c @ com_nonce c"

definition commit_sign :: "'sk ed25519 \<Rightarrow> bytes \<Rightarrow> 'sk \<Rightarrow> SwapCommit \<Rightarrow> SwapCommit" where
  "commit_sign ed rnd sk c =
     (let c = c\<lparr>com_identity_public_key := ed_public ed sk\<rparr>;
          c = c\<lparr>com_nonce := fresh_nonce rnd (com_nonce c)\<rparr>
      in c\<lparr>com_signature := ed_sign ed sk (commit_signing_bytes c)\<rparr>)"

definition commit_verify_signature :: "'sk ed25519 \<Rightarrow> SwapCommit \<Rightarrow> bool" where
  "commit_verify_signature ed c =
     (if length (com_signature c) \<noteq> 64 then False
      else if \<not> ed_parse ed (com_identity_public_key c) then False
      else ed_check ed (com_identity_public_key c) (commit_signing_bytes c) (com_signature c))"

definition abort_signing_bytes :: "SwapAbort \<Rightarrow> bytes" where
  "abort_signing_bytes a = abo_proposal_id a @ abo_from_node a @ abo_reason a @ abo_nonce a"

definition abort_sign :: "'sk ed25519 \<Rightarrow> bytes \<Rightarrow> 'sk \<Rightarrow> SwapAbort \<Rightarrow> SwapAbort" where
  "abort_sign ed rnd sk a =
     (let a = a\<lparr>abo_identity_public_key := ed_public ed sk\<rparr>;
          a = a\<lparr>abo_nonce := fresh_nonce rnd (abo_nonce a)\<rparr>
      in a\<lparr>abo_signature := ed_sign ed sk (abort_signing_bytes a)\<rparr>)"

definition abort_verify_signature :: "'sk ed25519 \<Rightarrow> SwapAbort \<Rightarrow> bool" where
  "abort_verify_signature ed a =
     (if length (abo_signature a) \<noteq> 64 then False
      else if \<not> ed_parse ed (abo_identity_public_key a) then False
      else ed_check ed (abo_identity_public_key a) (abort_signing_bytes a) (abo_signature a))"

section \<open>Swap state\<close>

record PendingSwap =
  ps_proposal_id :: bytes
  ps_peer :: NodeId
  our_chunk_id :: ChunkId
  their_chunk_id :: ChunkId
  their_chunk_data :: bytes
  ps_reserved_bytes :: u64
  received_their_chunk :: bool
  retrieval_requested :: bool
  ps_content_root :: bytes
  ps_merkle_proof :: MerkleProof
  sent_commit :: bool
  received_commit :: bool
  ps_renewal_token :: bytes
  lease_expires_at :: u64
  ps_content_pub_key :: bytes
  started_at :: u64

record SwapState =
  pending_proposals :: "(bytes, SwapProposal) hashmap"
  pending_swaps :: "(bytes, PendingSwap) hashmap"
  active_swaps :: "(ChunkId, NodeId) hashmap"
  completed_swaps :: "bytes list"
  aborted_swaps :: "bytes list"
  total_swapped_bytes :: u64
  successful_swaps :: u64
  rejected_swaps :: u64

record SwapStats =
  stat_pending_count :: nat
  stat_active_count :: nat
  stat_total_swapped_bytes :: u64
  stat_successful_swaps :: u64
  stat_rejected_swaps :: u64

definition proposal_id :: "(bytes \<Rightarrow> bytes) \<Rightarrow> SwapProposal \<Rightarrow> bytes" where
  "proposal_id h p =
     h (prop_chunk_id p @ prop_from_node p @ prop_content_root p @ to_be64 (expires_at (prop_lease p)) @
        proposal_nonce p)"

definition SwapState_new :: SwapState where
  "SwapState_new = \<lparr>pending_proposals = [], pending_swaps = [], active_swaps = [], completed_swaps = [],
     aborted_swaps = [], total_swapped_bytes = 0, successful_swaps = 0, rejected_swaps = 0\<rparr>"

definition record_proposal :: "(bytes \<Rightarrow> bytes) \<Rightarrow> SwapProposal \<Rightarrow> SwapState \<Rightarrow> SwapState" where
  "record_proposal h p s =
     s\<lparr>pending_proposals := hm_insert (proposal_id h p) p (hm_make_room MAX_PENDING_PROPOSALS (pending_proposals s))\<rparr>"

definition remove_proposal :: "bytes \<Rightarrow> SwapState \<Rightarrow> SwapProposal option \<times> SwapState" where
  "remove_proposal pid s = (hm_get (pending_proposals s) pid, s\<lparr>pending_proposals := hm_remove pid (pending_proposals s)\<rparr>)"

definition record_swap :: "ChunkId \<Rightarrow> NodeId \<Rightarrow> u64 \<Rightarrow> SwapState \<Rightarrow> SwapState" where
  "record_swap chunk_id partner bytes s =
     s\<lparr>active_swaps := hm_insert chunk_id partner (active_swaps s),
       total_swapped_bytes := total_swapped_bytes s + bytes,
       successful_swaps := successful_swaps s + 1\<rparr>"

definition remove_swap :: "ChunkId \<Rightarrow> SwapState \<Rightarrow> NodeId option \<times> SwapState" where
  "remove_swap chunk_id s = (hm_get (active_swaps s) chunk_id, s\<lparr>active_swaps := hm_remove chunk_id (active_swaps s)\<rparr>)"

definition get_swap_partner :: "SwapState \<Rightarrow> ChunkId \<Rightarrow> NodeId option" where
  "get_swap_partner s chunk_id = hm_get (active_swaps s) chunk_id"

definition start_pending_swap :: "PendingSwap \<Rightarrow> SwapState \<Rightarrow> SwapState" where
  "start_pending_swap swap s = s\<lparr>pending_swaps := hm_insert (ps_proposal_id swap) swap (pending_swaps s)\<rparr>"

definition mark_chunk_received :: "bytes \<Rightarrow> SwapState \<Rightarrow> SwapState" where
  "mark_chunk_received pid s =
     s\<lparr>pending_swaps := hm_modify pid (\<lambda>swap. swap\<lparr>received_their_chunk := True\<rparr>) (pending_swaps s)\<rparr>"

definition receive_their_chunk :: "bytes \<Rightarrow> bytes \<Rightarrow> SwapState \<Rightarrow> bool \<times> SwapState" where
  "receive_their_chunk pid data s =
     (case hm_get (pending_swaps s) pid of
        Some _ \<Rightarrow> (True, s\<lparr>pending_swaps := hm_modify pid
          (\<lambda>swap. swap\<lparr>their_chunk_data := data, received_their_chunk := True\<rparr>) (pending_swaps s)\<rparr>)
      | None \<Rightarrow> (False, s))"

definition mark_retrieval_requested :: "bytes \<Rightarrow> SwapState \<Rightarrow> SwapState" where
  "mark_retrieval_requested pid s =
     s\<lparr>pending_swaps := hm_modify pid (\<lambda>swap. swap\<lparr>retrieval_requested := True\<rparr>) (pending_swaps s)\<rparr>"

definition mark_commit_sent :: "bytes \<Rightarrow> SwapState \<Rightarrow> SwapState" where
  "mark_commit_sent pid s =
     s\<lparr>pending_swaps := hm_modify pid (\<lambda>swap. swap\<lparr>sent_commit := True\<rparr>) (pending_swaps s)\<rparr>"

definition mark_commit_received :: "bytes \<Rightarrow> SwapState \<Rightarrow> bool \<times> SwapState" where
  "mark_commit_received pid s =
     (case hm_get (pending_swaps s) pid of
        Some swap \<Rightarrow>
          (sent_commit swap \<and> received_their_chunk swap,
           s\<lparr>pending_swaps := hm_modify pid (\<lambda>swap. swap\<lparr>received_commit := True\<rparr>) (pending_swaps s)\<rparr>)
      | None \<Rightarrow> (False, s))"

definition complete_swap :: "bytes \<Rightarrow> SwapState \<Rightarrow> PendingSwap option \<times> SwapState" where
  "complete_swap pid s =
     (case hm_get (pending_swaps s) pid of
        None \<Rightarrow> (None, s)
      | Some swap \<Rightarrow>
          (Some swap,
           s\<lparr>pending_swaps := hm_remove pid (pending_swaps s),
             active_swaps := hm_insert (their_chunk_id swap) (ps_peer swap) (active_swaps s),
             successful_swaps := successful_swaps s + 1,
             total_swapped_bytes := total_swapped_bytes s + ps_reserved_bytes swap,
             completed_swaps := push_bounded MAX_COMPLETED_SWAPS pid (completed_swaps s)\<rparr>))"

definition abort_swap :: "bytes \<Rightarrow> SwapState \<Rightarrow> PendingSwap option \<times> SwapState" where
  "abort_swap pid s =
     (case hm_get (pending_swaps s) pid of
        None \<Rightarrow> (None, s)
      | Some swap \<Rightarrow>
          (Some swap,
           s\<lparr>pending_swaps := hm_remove pid (pending_swaps s),
             aborted_swaps := push_bounded MAX_COMPLETED_SWAPS pid (aborted_swaps s)\<rparr>))"

definition get_pending_swap :: "SwapState \<Rightarrow> bytes \<Rightarrow> PendingSwap option" where
  "get_pending_swap s pid = hm_get (pending_swaps s) pid"

text \<open>\<open>expire_pending_swaps\<close>: the ids are collected first, then every id is moved in turn.\<close>

definition expire_one :: "bytes \<Rightarrow> PendingSwap list \<times> SwapState \<Rightarrow> PendingSwap list \<times> SwapState" where
  "expire_one pid = (\<lambda>(out, s).
     (case hm_get (pending_swaps s) pid of None \<Rightarrow> out | Some swap \<Rightarrow> out @ [swap],
      s\<lparr>aborted_swaps := push_bounded MAX_COMPLETED_SWAPS pid (aborted_swaps s),
        pending_swaps := hm_remove pid (pending_swaps s)\<rparr>))"

definition expire_pending_swaps :: "u64 \<Rightarrow> u64 \<Rightarrow> SwapState \<Rightarrow> PendingSwap list \<times> SwapState" where
  "expire_pending_swaps current_time timeout_secs s =
     (let expired = map fst (filter (\<lambda>(pid, swap). timeout_secs < saturating_sub current_time (started_at swap)) (pending_swaps s))
      in fold expire_one expired ([], s))"

definition stats :: "SwapState \<Rightarrow> SwapStats" where
  "stats s = \<lparr>stat_pending_count = hm_len (pending_proposals s), stat_active_count = hm_len (active_swaps s),
     stat_total_swapped_bytes = total_swapped_bytes s, stat_successful_swaps = successful_swaps s,
     stat_rejected_swaps = rejected_swaps s\<rparr>"

section \<open>Building messages\<close>

definition create_swap_proposal ::
  "storage_env \<Rightarrow> 'sk ed25519 \<Rightarrow> u64 \<Rightarrow> bytes \<Rightarrow> NodeId \<Rightarrow> ChunkId \<Rightarrow> bytes \<Rightarrow> u64 \<Rightarrow> bytes \<Rightarrow> MerkleProof \<Rightarrow> bytes \<Rightarrow>
     'sk option \<Rightarrow> SwapProposal" where
  "create_swap_proposal env ed now rnd from_node chunk_id master_key lease_duration_secs content_root merkle_proof
       content_public_key content_signing_key =
     (let lease = create_lease env chunk_id master_key lease_duration_secs now;
          p = \<lparr>prop_from_node = from_node, prop_chunk_id = chunk_id, prop_lease = lease,
               prop_encrypted_master_key = [], prop_content_root = content_root, prop_merkle_proof = merkle_proof,
               proposal_nonce = replicate 32 0, prop_content_public_key = content_public_key,
               prop_content_signature = []\<rparr>
      in case content_signing_key of Some sk \<Rightarrow> proposal_sign ed rnd sk p | None \<Rightarrow> p)"

definition create_signed_swap_accept ::
  "storage_env \<Rightarrow> 'sk ed25519 \<Rightarrow> u64 \<Rightarrow> bytes \<Rightarrow> bytes \<Rightarrow> NodeId \<Rightarrow> ChunkId \<Rightarrow> bytes \<Rightarrow> bytes \<Rightarrow> u64 \<Rightarrow> bytes \<Rightarrow>
     MerkleProof \<Rightarrow> bytes \<Rightarrow> 'sk option \<Rightarrow> SwapAccept" where
  "create_signed_swap_accept env ed now rnd rnd2 from_node chunk_id master_key pid lease_duration_secs
       return_content_root return_merkle_proof return_content_signature identity_key =
     (let lease = create_lease env chunk_id master_key lease_duration_secs now;
          a = \<lparr>acc_from_node = from_node, acc_chunk_id = chunk_id, acc_lease = lease, acc_proposal_id = pid,
               acc_encrypted_master_key = [], acc_return_content_root = return_content_root,
               acc_return_merkle_proof = return_merkle_proof, acc_return_content_signature = return_content_signature,
               acc_nonce = rnd, acc_identity_public_key = replicate 32 0, acc_signature = []\<rparr>
      in case identity_key of Some sk \<Rightarrow> accept_sign ed rnd2 sk a | None \<Rightarrow> a)"

definition create_swap_accept ::
  "storage_env \<Rightarrow> 'sk ed25519 \<Rightarrow> u64 \<Rightarrow> bytes \<Rightarrow> bytes \<Rightarrow> NodeId \<Rightarrow> ChunkId \<Rightarrow> bytes \<Rightarrow> bytes \<Rightarrow> u64 \<Rightarrow> SwapAccept" where
  "create_swap_accept env ed now rnd rnd2 from_node chunk_id master_key pid lease_duration_secs =
     create_signed_swap_accept env ed now rnd rnd2 from_node chunk_id master_key pid lease_duration_secs
       (replicate 32 0) \<lparr>leaf_index = 0, siblings = []\<rparr> [] None"

definition create_swap_reject :: "NodeId \<Rightarrow> bytes \<Rightarrow> SwapRejectReason \<Rightarrow> SwapReject" where
  "create_swap_reject from_node pid reason = \<lparr>rej_from_node = from_node, rej_proposal_id = pid, rej_reason = reason\<rparr>"

definition create_swap_commit :: "'sk ed25519 \<Rightarrow> bytes \<Rightarrow> bytes \<Rightarrow> bytes \<Rightarrow> NodeId \<Rightarrow> 'sk option \<Rightarrow> SwapCommit" where
  "create_swap_commit ed rnd rnd2 pid from_node identity_key =
     (let c = \<lparr>com_proposal_id = pid, com_from_node = from_node, com_nonce = rnd,
               com_identity_public_key = replicate 32 0, com_signature = []\<rparr>
      in case identity_key of Some sk \<Rightarrow> commit_sign ed rnd2 sk c | None \<Rightarrow> c)"

definition create_swap_abort :: "'sk ed25519 \<Rightarrow> bytes \<Rightarrow> bytes \<Rightarrow> bytes \<Rightarrow> NodeId \<Rightarrow> bytes \<Rightarrow> 'sk option \<Rightarrow> SwapAbort" where
  "create_swap_abort ed rnd rnd2 pid from_node reason identity_key =
     (let a = \<lparr>abo_proposal_id = pid, abo_from_node = from_node, abo_reason = reason, abo_nonce = rnd,
               abo_identity_public_key = replicate 32 0, abo_signature = []\<rparr>
      in case identity_key of Some sk \<Rightarrow> abort_sign ed rnd2 sk a | None \<Rightarrow> a)"

definition validate_swap_proposal :: "'sk ed25519 \<Rightarrow> SwapProposal \<Rightarrow> u64 \<Rightarrow> SwapRejectReason + unit" where
  "validate_swap_proposal ed p current_time =
     (if \<not> is_lease_valid (prop_lease p) current_time then Inl InvalidLease
      else (case verify_content_signature ed p of Inl e \<Rightarrow> Inl e | Inr _ \<Rightarrow> Inr ()))"

section \<open>Capacity\<close>

record StorageCapacity =
  max_bytes :: u64
  current_bytes :: u64
  reserved_bytes :: u64
  max_chunks_per_peer :: nat

definition StorageCapacity_new :: "u64 \<Rightarrow> StorageCapacity" where
  "StorageCapacity_new max_b = \<lparr>max_bytes = max_b, current_bytes = 0, reserved_bytes = 0, max_chunks_per_peer = 100\<rparr>"

definition can_accept :: "StorageCapacity \<Rightarrow> u64 \<Rightarrow> nat \<Rightarrow> bool" where
  "can_accept c chunk_size peer_chunks =
     (if max_bytes c < current_bytes c + reserved_bytes c + chunk_size then False
      else if max_chunks_per_peer c \<le> peer_chunks then False
      else True)"

definition record_accept :: "u64 \<Rightarrow> StorageCapacity \<Rightarrow> StorageCapacity" where
  "record_accept chunk_size c = c\<lparr>current_bytes := current_bytes c + chunk_size\<rparr>"

definition record_remove :: "u64 \<Rightarrow> StorageCapacity \<Rightarrow> StorageCapacity" where
  "record_remove chunk_size c = c\<lparr>current_bytes := saturating_sub (current_bytes c) chunk_size\<rparr>"

definition reserve :: "u64 \<Rightarrow> StorageCapacity \<Rightarrow> StorageCapacity" where
  "reserve chunk_size c = c\<lparr>reserved_bytes := reserved_bytes c + chunk_size\<rparr>"

definition release_reserved :: "u64 \<Rightarrow> bool \<Rightarrow> StorageCapacity \<Rightarrow> StorageCapacity" where
  "release_reserved chunk_size store c =
     (let c = c\<lparr>reserved_bytes := saturating_sub (reserved_bytes c) chunk_size\<rparr>
      in if store then c\<lparr>current_bytes := current_bytes c + chunk_size\<rparr> else c)"

definition capacity_reconcile :: "u64 \<Rightarrow> StorageCapacity \<Rightarrow> StorageCapacity" where
  "capacity_reconcile actual_bytes c = c\<lparr>current_bytes := actual_bytes\<rparr>"

definition decide_on_swap ::
  "'sk ed25519 \<Rightarrow> SwapProposal \<Rightarrow> StorageCapacity \<Rightarrow> nat \<Rightarrow> nat \<Rightarrow> u64 \<Rightarrow> SwapRejectReason + unit" where
  "decide_on_swap ed p capacity peer_chunks expected_chunk_size current_time =
     (case validate_swap_proposal ed p current_time of
        Inl e \<Rightarrow> Inl e
      | Inr _ \<Rightarrow>
          (if \<not> can_accept capacity (word_of_nat expected_chunk_size) peer_chunks
           then (if max_chunks_per_peer capacity \<le> peer_chunks then Inl TooManyFromPeer else Inl NoCapacity)
           else Inr ()))"

section \<open>Signatures\<close>

text \<open>The sizes Rust's array types guarantee.\<close>

definition proposal_sized :: "SwapProposal \<Rightarrow> bool" where
  "proposal_sized p \<longleftrightarrow> length (prop_content_root p) = 32 \<and> length (prop_chunk_id p) = 32 \<and>
     length (prop_from_node p) = 16 \<and> length (proposal_nonce p) = 32"

definition accept_sized :: "SwapAccept \<Rightarrow> bool" where
  "accept_sized a \<longleftrightarrow> length (acc_proposal_id a) = 32 \<and> length (acc_from_node a) = 16 \<and>
     length (acc_chunk_id a) = 32 \<and> length (acc_return_content_root a) = 32 \<and> length (acc_nonce a) = 32"

definition commit_sized :: "SwapCommit \<Rightarrow> bool" where
  "commit_sized c \<longleftrightarrow> length (com_proposal_id c) = 32 \<and> length (com_from_node c) = 16 \<and> length (com_nonce c) = 32"

definition abort_sized :: "SwapAbort \<Rightarrow> bool" where
  "abort_sized a \<longleftrightarrow> length (abo_proposal_id a) = 32 \<and> length (abo_from_node a) = 16 \<and> length (abo_nonce a) = 32"

lemma abort_bytes_inj:
  assumes "abort_sized a" "abort_sized b" "abort_signing_bytes a = abort_signing_bytes b"
  shows "abo_proposal_id a = abo_proposal_id b \<and> abo_from_node a = abo_from_node b \<and>
    abo_reason a = abo_reason b \<and> abo_nonce a = abo_nonce b"
proof -
  have "abo_proposal_id a = abo_proposal_id b \<and> abo_from_node a = abo_from_node b \<and>
      abo_reason a @ abo_nonce a = abo_reason b @ abo_nonce b"
    using assms by (simp add: abort_sized_def abort_signing_bytes_def)
  then show ?thesis using assms(1,2) by (simp add: abort_sized_def)
qed

lemma verify_content_signature_iff:
  "verify_content_signature ed p = Inr () \<longleftrightarrow>
     signature_valid ed (prop_content_public_key p) (proposal_signing_bytes p) (prop_content_signature p)"
  by (simp add: verify_content_signature_def signature_valid_def)

lemma verify_content_signature_cases:
  "verify_content_signature ed p = Inr () \<or> verify_content_signature ed p = Inl InvalidSignature"
  by (simp add: verify_content_signature_def)

lemma swap_verify_iff:
  "accept_verify_signature ed a \<longleftrightarrow> signature_valid ed (acc_identity_public_key a) (accept_signing_bytes a) (acc_signature a)"
  "commit_verify_signature ed c \<longleftrightarrow> signature_valid ed (com_identity_public_key c) (commit_signing_bytes c) (com_signature c)"
  "abort_verify_signature ed b \<longleftrightarrow> signature_valid ed (abo_identity_public_key b) (abort_signing_bytes b) (abo_signature b)"
  by (simp_all add: accept_verify_signature_def commit_verify_signature_def abort_verify_signature_def signature_valid_def)

interpretation proposal_msg: signed_message ed proposal_signing_bytes prop_content_public_key prop_content_signature
    "\<lambda>_. True" "proposal_sign ed rnd" "\<lambda>p. verify_content_signature ed p = Inr ()" for ed rnd
  by unfold_locales (simp_all add: verify_content_signature_iff proposal_sign_def proposal_signing_bytes_def Let_def)

interpretation accept_msg: signed_message ed accept_signing_bytes acc_identity_public_key acc_signature
    "\<lambda>_. True" "accept_sign ed rnd" "accept_verify_signature ed" for ed rnd
  by unfold_locales (simp_all add: swap_verify_iff accept_sign_def accept_signing_bytes_def Let_def)

interpretation commit_msg: signed_message ed commit_signing_bytes com_identity_public_key com_signature
    "\<lambda>_. True" "commit_sign ed rnd" "commit_verify_signature ed" for ed rnd
  by unfold_locales (simp_all add: swap_verify_iff commit_sign_def commit_signing_bytes_def Let_def)

interpretation abort_msg: signed_message ed abort_signing_bytes abo_identity_public_key abo_signature
    "\<lambda>_. True" "abort_sign ed rnd" "abort_verify_signature ed" for ed rnd
  by unfold_locales (simp_all add: swap_verify_iff abort_sign_def abort_signing_bytes_def Let_def)

text \<open>Signed swap messages. Every message the constructors sign verifies; every
  message they leave unsigned is rejected; and the signed bytes of two
  messages of one kind are equal only when all covered fields are: a signature cannot be moved to a
  message about another proposal, node, chunk, root, reason or nonce.\<close>

theorem swap_messages_authentic:
  assumes "ed25519_correct ed"
  shows "verify_content_signature ed (create_swap_proposal env ed now r1 n c mk d rt mp pk (Some sk)) = Inr () \<and>
    accept_verify_signature ed (create_signed_swap_accept env ed now r1 r2 n c mk pid d rt mp sg (Some sk)) \<and>
    commit_verify_signature ed (create_swap_commit ed r1 r2 pid n (Some sk)) \<and>
    abort_verify_signature ed (create_swap_abort ed r1 r2 pid n reason (Some sk)) \<and>
    verify_content_signature ed (create_swap_proposal env ed now r1 n c mk d rt mp pk None) = Inl InvalidSignature \<and>
    \<not> accept_verify_signature ed (create_swap_accept env ed now r1 r2 n c mk pid d) \<and>
    \<not> commit_verify_signature ed (create_swap_commit ed r1 r2 pid n None) \<and>
    \<not> abort_verify_signature ed (create_swap_abort ed r1 r2 pid n reason None) \<and>
    (\<forall>p q. proposal_sized p \<and> proposal_sized q \<and> proposal_signing_bytes p = proposal_signing_bytes q \<longrightarrow>
       prop_content_root p = prop_content_root q \<and> prop_chunk_id p = prop_chunk_id q \<and>
       prop_from_node p = prop_from_node q \<and> proposal_nonce p = proposal_nonce q) \<and>
    (\<forall>a b. accept_sized a \<and> accept_sized b \<and> accept_signing_bytes a = accept_signing_bytes b \<longrightarrow>
       acc_proposal_id a = acc_proposal_id b \<and> acc_from_node a = acc_from_node b \<and>
       acc_chunk_id a = acc_chunk_id b \<and> acc_return_content_root a = acc_return_content_root b \<and> acc_nonce a = acc_nonce b) \<and>
    (\<forall>a b. commit_sized a \<and> commit_sized b \<and> commit_signing_bytes a = commit_signing_bytes b \<longrightarrow>
       com_proposal_id a = com_proposal_id b \<and> com_from_node a = com_from_node b \<and> com_nonce a = com_nonce b) \<and>
    (\<forall>a b. abort_sized a \<and> abort_sized b \<and> abort_signing_bytes a = abort_signing_bytes b \<longrightarrow>
       abo_proposal_id a = abo_proposal_id b \<and> abo_from_node a = abo_from_node b \<and>
       abo_reason a = abo_reason b \<and> abo_nonce a = abo_nonce b)"
proof (intro conjI)
  show "verify_content_signature ed (create_swap_proposal env ed now r1 n c mk d rt mp pk (Some sk)) = Inr ()"
    using assms by (simp add: create_swap_proposal_def proposal_msg.sign_verifies Let_def)
  show "accept_verify_signature ed (create_signed_swap_accept env ed now r1 r2 n c mk pid d rt mp sg (Some sk))"
    using assms by (simp add: create_signed_swap_accept_def accept_msg.sign_verifies Let_def)
  show "commit_verify_signature ed (create_swap_commit ed r1 r2 pid n (Some sk))"
    using assms by (simp add: create_swap_commit_def commit_msg.sign_verifies Let_def)
  show "abort_verify_signature ed (create_swap_abort ed r1 r2 pid n reason (Some sk))"
    using assms by (simp add: create_swap_abort_def abort_msg.sign_verifies Let_def)
qed (auto simp: verify_content_signature_def create_swap_proposal_def swap_verify_iff signature_valid_def
      create_swap_accept_def create_signed_swap_accept_def create_swap_commit_def create_swap_abort_def
      proposal_sized_def proposal_signing_bytes_def accept_sized_def accept_signing_bytes_def
      commit_sized_def commit_signing_bytes_def Let_def dest: abort_bytes_inj)

theorem swap_messages_authentic_witness:
  "commit_verify_signature demo_ed (create_swap_commit demo_ed (replicate 32 1) (replicate 32 2) (replicate 32 3) (replicate 16 4) (Some 5)) \<and>
   \<not> commit_verify_signature demo_ed (create_swap_commit demo_ed (replicate 32 1) (replicate 32 2) (replicate 32 3) (replicate 16 4) None)"
  using swap_messages_authentic [OF demo_ed_correct] by blast

text \<open>
  Signatures are not separated between kinds of messages: the signed bytes of a commit are those of an
  abort with an empty reason, so the signature of a commit also verifies on that abort.
\<close>

lemma commit_signature_verifies_as_abort:
  assumes "commit_verify_signature ed c"
  shows "abort_verify_signature ed \<lparr>abo_proposal_id = com_proposal_id c, abo_from_node = com_from_node c, abo_reason = [],
    abo_nonce = com_nonce c, abo_identity_public_key = com_identity_public_key c, abo_signature = com_signature c\<rparr>"
  using assms by (simp add: swap_verify_iff commit_signing_bytes_def abort_signing_bytes_def)

section \<open>Accepting proposals\<close>

definition fits :: "StorageCapacity \<Rightarrow> nat \<Rightarrow> bool" where
  "fits c n \<longleftrightarrow> unat (current_bytes c) + unat (reserved_bytes c) + n \<le> unat (max_bytes c)"

lemma can_accept_exact:
  assumes "unat (current_bytes c) + unat (reserved_bytes c) + n < 2 ^ 64"
  shows "can_accept c (word_of_nat n) k \<longleftrightarrow> fits c n \<and> k < max_chunks_per_peer c"
proof -
  have n: "unat (word_of_nat n :: u64) = n" using assms by (simp add: unat_of_nat)
  have "unat (current_bytes c + reserved_bytes c) = unat (current_bytes c) + unat (reserved_bytes c)"
    using assms by (intro unat_add_no_wrap) simp
  then have "unat (current_bytes c + reserved_bytes c + word_of_nat n) =
      unat (current_bytes c) + unat (reserved_bytes c) + n"
    using assms n by (subst unat_add_no_wrap) simp_all
  then show ?thesis by (simp add: can_accept_def fits_def word_less_nat_alt not_less not_le)
qed

text \<open>The decision on a proposal, with its error in every case and in this order: an
  expired lease, an invalid content signature, too many chunks of the peer, no capacity; otherwise, and
  only otherwise, it is accepted. Capacity counts stored and reserved bytes exactly while their sum
  with the new chunk stays below \<open>2^64\<close>.\<close>

theorem decide_on_swap_exact:
  assumes "unat (current_bytes cap) + unat (reserved_bytes cap) + size_b < 2 ^ 64"
  shows "decide_on_swap ed p cap k size_b now =
    (if expires_at (prop_lease p) \<le> now then Inl InvalidLease
     else if \<not> signature_valid ed (prop_content_public_key p)
                (prop_content_root p @ prop_chunk_id p @ prop_from_node p @ proposal_nonce p) (prop_content_signature p)
       then Inl InvalidSignature
     else if max_chunks_per_peer cap \<le> k then Inl TooManyFromPeer
     else if unat (max_bytes cap) < unat (current_bytes cap) + unat (reserved_bytes cap) + size_b then Inl NoCapacity
     else Inr ())"
proof -
  have "validate_swap_proposal ed p now =
    (if expires_at (prop_lease p) \<le> now then Inl InvalidLease
     else if \<not> signature_valid ed (prop_content_public_key p)
                (prop_content_root p @ prop_chunk_id p @ prop_from_node p @ proposal_nonce p) (prop_content_signature p)
       then Inl InvalidSignature else Inr ())"
    using verify_content_signature_iff [of ed p] verify_content_signature_cases [of ed p]
    by (auto simp: validate_swap_proposal_def is_lease_valid_def proposal_signing_bytes_def not_less)
  then show ?thesis
    using can_accept_exact [OF assms, of k] by (auto simp: decide_on_swap_def fits_def not_less not_le)
qed

definition demo_proposal :: SwapProposal where
  "demo_proposal = create_swap_proposal demo_storage demo_ed 1000 (replicate 32 1) (replicate 16 2) (replicate 32 3)
     (replicate 32 4) 600 (replicate 32 5) \<lparr>leaf_index = 0, siblings = []\<rparr> [] (Some 6)"

theorem decide_on_swap_exact_witness:
  "decide_on_swap demo_ed demo_proposal (StorageCapacity_new 100) 0 50 1599 = Inr () \<and>
   decide_on_swap demo_ed demo_proposal (StorageCapacity_new 100) 0 101 1599 = Inl NoCapacity \<and>
   decide_on_swap demo_ed demo_proposal (StorageCapacity_new 100) 0 50 1600 = Inl InvalidLease"
proof -
  let ?cap = "StorageCapacity_new 100"
  have e: "expires_at (prop_lease demo_proposal) = 1600"
    by (simp add: demo_proposal_def create_swap_proposal_def create_lease_def proposal_sign_def Let_def)
  have s: "signature_valid demo_ed (prop_content_public_key demo_proposal)
      (prop_content_root demo_proposal @ prop_chunk_id demo_proposal @ prop_from_node demo_proposal @
       proposal_nonce demo_proposal) (prop_content_signature demo_proposal)"
    by (simp add: demo_proposal_def create_swap_proposal_def proposal_sign_def Let_def demo_ed_correct
        proposal_signing_bytes_def)
  have b: "unat (current_bytes ?cap) + unat (reserved_bytes ?cap) + 50 < 2 ^ 64"
    "unat (current_bytes ?cap) + unat (reserved_bytes ?cap) + 101 < 2 ^ 64" by (simp_all add: StorageCapacity_new_def)
  show ?thesis
    unfolding decide_on_swap_exact [OF b(1)] decide_on_swap_exact [OF b(2)]
    using s by (simp add: e StorageCapacity_new_def)
qed

text \<open>Without that bound the sum in \<open>can_accept\<close> wraps: \<open>2^64 - 80\<close> bytes pass a limit of 100.\<close>

lemma can_accept_wraps:
  "can_accept \<lparr>max_bytes = 100, current_bytes = 90, reserved_bytes = 0, max_chunks_per_peer = 100\<rparr> (- 80) 0"
  by code_simp

section \<open>Capacity is never overcommitted\<close>

text \<open>The operations the swap handlers perform: reserving behind a successful \<open>can_accept\<close>, releasing
  a reservation by abort or commit, removing stored chunks, and the periodic reconciliation with a
  holder that stores no more than the counter.\<close>

inductive capacity_reachable :: "u64 \<Rightarrow> StorageCapacity \<Rightarrow> bool" for m :: u64 where
  start: "capacity_reachable m (StorageCapacity_new m)"
| reserve: "capacity_reachable m c \<Longrightarrow> can_accept c n k \<Longrightarrow>
    unat (current_bytes c) + unat (reserved_bytes c) + unat n < 2 ^ 64 \<Longrightarrow> capacity_reachable m (reserve n c)"
| release: "capacity_reachable m c \<Longrightarrow> n \<le> reserved_bytes c \<Longrightarrow> capacity_reachable m (release_reserved n store c)"
| remove: "capacity_reachable m c \<Longrightarrow> capacity_reachable m (record_remove n c)"
| snap: "capacity_reachable m c \<Longrightarrow> n \<le> current_bytes c \<Longrightarrow> capacity_reachable m (capacity_reconcile n c)"

lemma capacity_bound:
  "capacity_reachable m c \<Longrightarrow> max_bytes c = m \<and> unat (current_bytes c) + unat (reserved_bytes c) \<le> unat m"
proof (induction rule: capacity_reachable.induct)
  case (reserve c n k)
  then have "fits c (unat n)" using can_accept_exact [of c "unat n" k] by simp
  moreover have "unat (reserved_bytes c + n) = unat (reserved_bytes c) + unat n"
    using reserve.hyps by (intro unat_add_no_wrap) simp
  ultimately show ?case using reserve.IH by (simp add: fits_def reserve_def)
next
  case (release c n store)
  have le: "unat n \<le> unat (reserved_bytes c)" using release.hyps by (simp add: word_le_nat_alt)
  have "unat m < 2 ^ 64" using unsigned_less [of m, where ?'a = nat] by simp
  then have "unat (current_bytes c + n) = unat (current_bytes c) + unat n"
    using release.IH le by (intro unat_add_no_wrap) simp
  with release.IH le show ?case by (auto simp: release_reserved_def Let_def)
qed (auto simp: StorageCapacity_new_def record_remove_def capacity_reconcile_def word_le_nat_alt)

text \<open>In every state the capacity can reach, stored plus reserved bytes stay within the
  configured maximum; a commit moves a reservation into the stored bytes without changing the sum, an
  abort gives exactly the reserved bytes back.\<close>

theorem capacity_never_overcommitted:
  assumes "capacity_reachable m c"
  shows "unat (current_bytes c) + unat (reserved_bytes c) \<le> unat m \<and>
    (\<forall>n\<le>reserved_bytes c.
       unat (current_bytes (release_reserved n True c)) + unat (reserved_bytes (release_reserved n True c)) =
         unat (current_bytes c) + unat (reserved_bytes c) \<and>
       current_bytes (release_reserved n False c) = current_bytes c \<and>
       reserved_bytes (release_reserved n False c) = reserved_bytes c - n)"
proof -
  have b: "unat (current_bytes c) + unat (reserved_bytes c) \<le> unat m" using capacity_bound [OF assms] by simp
  moreover have "unat (current_bytes (release_reserved n True c)) + unat (reserved_bytes (release_reserved n True c)) =
         unat (current_bytes c) + unat (reserved_bytes c)" if "n \<le> reserved_bytes c" for n
  proof -
    have "unat n \<le> unat (reserved_bytes c)" using that by (simp add: word_le_nat_alt)
    moreover have "unat m < 2 ^ 64" using unsigned_less [of m, where ?'a = nat] by simp
    ultimately have "unat (current_bytes c + n) = unat (current_bytes c) + unat n"
      using b by (intro unat_add_no_wrap) simp
    then show ?thesis using \<open>unat n \<le> unat (reserved_bytes c)\<close> by (simp add: release_reserved_def Let_def)
  qed
  ultimately show ?thesis by (auto simp: release_reserved_def Let_def saturating_sub_def)
qed

theorem capacity_never_overcommitted_witness:
  "unat (current_bytes (reserve 60 (StorageCapacity_new 100))) + unat (reserved_bytes (reserve 60 (StorageCapacity_new 100))) \<le> 100 \<and>
   \<not> can_accept (reserve 60 (StorageCapacity_new 100)) 60 0"
proof -
  have "can_accept (StorageCapacity_new 100) 60 0" by code_simp
  then have "capacity_reachable 100 (reserve 60 (StorageCapacity_new 100))"
    by (intro capacity_reachable.reserve capacity_reachable.start) (simp_all add: StorageCapacity_new_def)
  moreover have "\<not> can_accept (reserve 60 (StorageCapacity_new 100)) 60 0" by code_simp
  ultimately show ?thesis using capacity_never_overcommitted by fastforce
qed

section \<open>The life of a pending swap\<close>

inductive swap_reachable :: "(bytes \<Rightarrow> bytes) \<Rightarrow> SwapState \<Rightarrow> bool" for h :: "bytes \<Rightarrow> bytes" where
  start: "swap_reachable h SwapState_new"
| proposal: "swap_reachable h s \<Longrightarrow> swap_reachable h (record_proposal h p s)"
| drop_proposal: "swap_reachable h s \<Longrightarrow> swap_reachable h (snd (remove_proposal pid s))"
| active: "swap_reachable h s \<Longrightarrow> swap_reachable h (record_swap c n b s)"
| inactive: "swap_reachable h s \<Longrightarrow> swap_reachable h (snd (remove_swap c s))"
| pend: "swap_reachable h s \<Longrightarrow> swap_reachable h (start_pending_swap swap s)"
| chunk_mark: "swap_reachable h s \<Longrightarrow> swap_reachable h (mark_chunk_received pid s)"
| chunk: "swap_reachable h s \<Longrightarrow> swap_reachable h (snd (receive_their_chunk pid d s))"
| requested: "swap_reachable h s \<Longrightarrow> swap_reachable h (mark_retrieval_requested pid s)"
| commit_out: "swap_reachable h s \<Longrightarrow> swap_reachable h (mark_commit_sent pid s)"
| commit_in: "swap_reachable h s \<Longrightarrow> swap_reachable h (snd (mark_commit_received pid s))"
| complete: "swap_reachable h s \<Longrightarrow> swap_reachable h (snd (complete_swap pid s))"
| abort: "swap_reachable h s \<Longrightarrow> swap_reachable h (snd (abort_swap pid s))"
| expire: "swap_reachable h s \<Longrightarrow> swap_reachable h (snd (expire_pending_swaps now timeout s))"

definition swap_wf :: "SwapState \<Rightarrow> bool" where
  "swap_wf s \<longleftrightarrow> hm_wf (pending_proposals s) \<and> hm_wf (pending_swaps s) \<and> hm_wf (active_swaps s) \<and>
     hm_len (pending_proposals s) \<le> MAX_PENDING_PROPOSALS \<and>
     length (completed_swaps s) \<le> MAX_COMPLETED_SWAPS \<and> length (aborted_swaps s) \<le> MAX_COMPLETED_SWAPS \<and>
     (\<forall>k swap. hm_get (pending_swaps s) k = Some swap \<longrightarrow> ps_proposal_id swap = k)"

lemma expire_one_wf: "swap_wf (snd x) \<Longrightarrow> swap_wf (snd (expire_one pid x))"
  by (auto simp: swap_wf_def expire_one_def split_beta)

lemma expire_fold_wf: "swap_wf (snd x) \<Longrightarrow> swap_wf (snd (fold expire_one ids x))"
  by (induction ids arbitrary: x) (simp_all add: expire_one_wf)

lemma record_proposal_wf: "swap_wf s \<Longrightarrow> swap_wf (record_proposal h p s)"
  by (auto simp: swap_wf_def record_proposal_def MAX_PENDING_PROPOSALS_def intro: hm_bounded_insert)

lemma modify_swap_wf:
  "swap_wf s \<Longrightarrow> (\<And>x. ps_proposal_id (f x) = ps_proposal_id x) \<Longrightarrow>
     swap_wf (s\<lparr>pending_swaps := hm_modify pid f (pending_swaps s)\<rparr>)"
  by (auto simp: swap_wf_def)

lemma swap_reachable_wf: "swap_reachable h s \<Longrightarrow> swap_wf s"
proof (induction rule: swap_reachable.induct)
  case start
  show ?case by (simp add: swap_wf_def SwapState_new_def hm_len_def)
next
  case (proposal s p)
  then show ?case by (simp add: record_proposal_wf)
next
  case (expire s now timeout)
  then show ?case by (simp add: expire_pending_swaps_def Let_def expire_fold_wf)
next
  case (drop_proposal s pid)
  then show ?case by (auto simp: swap_wf_def remove_proposal_def intro: le_trans [OF hm_len_remove_le])
next
  case (complete s pid)
  then show ?case by (auto simp: swap_wf_def complete_swap_def split: option.splits)
next
  case (abort s pid)
  then show ?case by (auto simp: swap_wf_def abort_swap_def split: option.splits)
next
  case (pend s swap)
  then show ?case by (auto simp: swap_wf_def start_pending_swap_def)
qed (auto simp: mark_chunk_received_def receive_their_chunk_def mark_retrieval_requested_def mark_commit_sent_def
      mark_commit_received_def modify_swap_wf split: option.splits, auto simp: swap_wf_def record_swap_def remove_swap_def)

text \<open>The expiry sweep splits the pending table.\<close>

lemma filter_not_removed: "hm_remove k m = filter (\<lambda>p. fst p \<noteq> k) m"
  by (induction m) (auto simp: hm_remove_def)

lemma expire_fold:
  "distinct ids \<Longrightarrow> (\<And>k. k \<in> set ids \<Longrightarrow> hm_get (pending_swaps s) k \<noteq> None) \<Longrightarrow> length (aborted_swaps s) \<le> MAX_COMPLETED_SWAPS \<Longrightarrow>
   fold expire_one ids (out, s) =
     (out @ map (\<lambda>k. the (hm_get (pending_swaps s) k)) ids,
      s\<lparr>pending_swaps := filter (\<lambda>p. fst p \<notin> set ids) (pending_swaps s),
        aborted_swaps := fold (push_bounded MAX_COMPLETED_SWAPS) ids (aborted_swaps s)\<rparr>)"
proof (induction ids arbitrary: out s)
  case (Cons k ids)
  let ?s = "s\<lparr>aborted_swaps := push_bounded MAX_COMPLETED_SWAPS k (aborted_swaps s),
        pending_swaps := hm_remove k (pending_swaps s)\<rparr>"
  obtain swap where k: "hm_get (pending_swaps s) k = Some swap" using Cons.prems(2) [of k] by auto
  have step: "expire_one k (out, s) = (out @ [swap], ?s)" by (simp add: expire_one_def k)
  have get: "hm_get (pending_swaps ?s) j = hm_get (pending_swaps s) j" if "j \<in> set ids" for j
    using that Cons.prems(1) by auto
  have "fold expire_one ids (out @ [swap], ?s) =
     ((out @ [swap]) @ map (\<lambda>k. the (hm_get (pending_swaps ?s) k)) ids,
      ?s\<lparr>pending_swaps := filter (\<lambda>p. fst p \<notin> set ids) (pending_swaps ?s),
        aborted_swaps := fold (push_bounded MAX_COMPLETED_SWAPS) ids (aborted_swaps ?s)\<rparr>)"
    using Cons.prems get by (intro Cons.IH) auto
  moreover have "map (\<lambda>k. the (hm_get (pending_swaps ?s) k)) ids = map (\<lambda>k. the (hm_get (pending_swaps s) k)) ids"
    using get by simp
  ultimately show ?case
    by (simp add: step k filter_not_removed conj_commute)
qed simp

lemma filter_keys_gone:
  assumes "hm_wf m"
  shows "filter (\<lambda>p. fst p \<notin> set (map fst (filter P m))) m = filter (\<lambda>p. \<not> P p) m"
proof (rule filter_cong [OF refl])
  fix p assume p: "p \<in> set m"
  have "q = p" if "q \<in> set m" "fst q = fst p" for q
    using assms p that by (metis eq_key_imp_eq_value hm_wf_def prod.collapse)
  then show "(fst p \<notin> set (map fst (filter P m))) = (\<not> P p)" using p by force
qed

lemma values_of_keys:
  assumes "hm_wf m"
  shows "map (\<lambda>k. the (hm_get m k)) (map fst (filter P m)) = map snd (filter P m)"
  using assms by (auto simp: hm_wf_get_iff hm_get_def hm_wf_def)

lemma expire_pending_swaps_eq:
  fixes now timeout :: u64 and s :: SwapState
  assumes "swap_wf s"
  defines "P \<equiv> (\<lambda>(pid :: bytes, swap). timeout < saturating_sub now (started_at swap))"
  shows "expire_pending_swaps now timeout s =
    (map snd (filter P (pending_swaps s)),
     s\<lparr>pending_swaps := filter (\<lambda>p. \<not> P p) (pending_swaps s),
       aborted_swaps := fold (push_bounded MAX_COMPLETED_SWAPS) (map fst (filter P (pending_swaps s))) (aborted_swaps s)\<rparr>)"
proof -
  let ?ids = "map fst (filter P (pending_swaps s))"
  have wf: "hm_wf (pending_swaps s)" using assms(1) by (simp add: swap_wf_def)
  have "distinct ?ids" using wf by (simp add: hm_wf_def distinct_map_filter)
  moreover have "hm_get (pending_swaps s) k \<noteq> None" if "k \<in> set ?ids" for k
    using that wf by (auto simp: hm_wf_get_iff)
  moreover have "length (aborted_swaps s) \<le> MAX_COMPLETED_SWAPS" using assms(1) by (simp add: swap_wf_def)
  ultimately have "fold expire_one ?ids ([], s) =
     ([] @ map (\<lambda>k. the (hm_get (pending_swaps s) k)) ?ids,
      s\<lparr>pending_swaps := filter (\<lambda>p. fst p \<notin> set ?ids) (pending_swaps s),
        aborted_swaps := fold (push_bounded MAX_COMPLETED_SWAPS) ?ids (aborted_swaps s)\<rparr>)"
    by (rule expire_fold)
  then show ?thesis
    by (simp add: expire_pending_swaps_def P_def [symmetric] filter_keys_gone [OF wf] values_of_keys [OF wf] del: map_map set_map)
qed

lemma hm_get_filter:
  "hm_wf m \<Longrightarrow> hm_get (filter P m) k = (case hm_get m k of None \<Rightarrow> None | Some v \<Rightarrow> if P (k, v) then Some v else None)"
  using hm_get_retain [of m "\<lambda>k v. P (k, v)" k] by (simp add: hm_retain_def)

text \<open>C17 (invariant). The life of a pending swap. In every reachable state the tables are within their
  bounds and every pending swap is filed under its own proposal id. A commit from the peer reports
  "ready" exactly when our commit is out and the peer's chunk is held. Completing or aborting a swap
  returns it and removes it, so that it can end only once: a second completion or abort finds nothing.
  The expiry sweep returns exactly the swaps older than the timeout, keeps all others untouched and
  logs the expired ids, dropping only the oldest log entries beyond \<open>MAX_COMPLETED_SWAPS\<close>.\<close>

theorem swap_lifecycle:
  assumes "swap_reachable h s"
  shows "hm_len (pending_proposals s) \<le> MAX_PENDING_PROPOSALS \<and>
    length (completed_swaps s) \<le> MAX_COMPLETED_SWAPS \<and> length (aborted_swaps s) \<le> MAX_COMPLETED_SWAPS \<and>
    (\<forall>pid swap. get_pending_swap s pid = Some swap \<longrightarrow> ps_proposal_id swap = pid \<and>
       fst (mark_commit_received pid s) = (sent_commit swap \<and> received_their_chunk swap) \<and>
       fst (complete_swap pid s) = Some swap \<and> get_pending_swap (snd (complete_swap pid s)) pid = None \<and>
       get_swap_partner (snd (complete_swap pid s)) (their_chunk_id swap) = Some (ps_peer swap) \<and>
       last (completed_swaps (snd (complete_swap pid s))) = pid \<and>
       fst (abort_swap pid s) = Some swap \<and> get_pending_swap (snd (abort_swap pid s)) pid = None \<and>
       active_swaps (snd (abort_swap pid s)) = active_swaps s) \<and>
    (\<forall>pid. get_pending_swap s pid = None \<longrightarrow> complete_swap pid s = (None, s) \<and> abort_swap pid s = (None, s)) \<and>
    (\<forall>now timeout swap. swap \<in> set (fst (expire_pending_swaps now timeout s)) \<longleftrightarrow>
       get_pending_swap s (ps_proposal_id swap) = Some swap \<and> timeout < saturating_sub now (started_at swap)) \<and>
    (\<forall>now timeout pid swap. get_pending_swap (snd (expire_pending_swaps now timeout s)) pid = Some swap \<longleftrightarrow>
       get_pending_swap s pid = Some swap \<and> \<not> timeout < saturating_sub now (started_at swap)) \<and>
    (\<forall>now timeout. let ids = map ps_proposal_id (fst (expire_pending_swaps now timeout s)) in
       aborted_swaps (snd (expire_pending_swaps now timeout s)) =
         drop (length (aborted_swaps s) + length ids - MAX_COMPLETED_SWAPS) (aborted_swaps s @ ids))"
proof -
  have wf: "swap_wf s" by (rule swap_reachable_wf [OF assms])
  then have pw: "hm_wf (pending_swaps s)" and ids: "\<And>k swap. hm_get (pending_swaps s) k = Some swap \<Longrightarrow> ps_proposal_id swap = k"
    by (auto simp: swap_wf_def)
  note ex = expire_pending_swaps_eq [OF wf]
  have a: "swap \<in> set (fst (expire_pending_swaps now timeout s)) \<longleftrightarrow>
       get_pending_swap s (ps_proposal_id swap) = Some swap \<and> timeout < saturating_sub now (started_at swap)" for now timeout swap
  proof -
    have "swap \<in> set (fst (expire_pending_swaps now timeout s)) \<longleftrightarrow>
        (\<exists>k. (k, swap) \<in> set (pending_swaps s) \<and> timeout < saturating_sub now (started_at swap))"
      by (auto simp: ex image_iff)
    then show ?thesis using ids by (auto simp: get_pending_swap_def hm_wf_get_iff [OF pw, symmetric])
  qed
  have b: "get_pending_swap (snd (expire_pending_swaps now timeout s)) pid = Some swap \<longleftrightarrow>
       get_pending_swap s pid = Some swap \<and> \<not> timeout < saturating_sub now (started_at swap)" for now timeout pid swap
    by (auto simp: ex get_pending_swap_def hm_get_filter [OF pw] split: option.splits if_splits)
  have "map fst (filter P (pending_swaps s)) = map ps_proposal_id (map snd (filter P (pending_swaps s)))" for P
    using ids by (auto simp: hm_wf_get_iff [OF pw])
  then have c: "let ids = map ps_proposal_id (fst (expire_pending_swaps now timeout s)) in
       aborted_swaps (snd (expire_pending_swaps now timeout s)) =
         drop (length (aborted_swaps s) + length ids - MAX_COMPLETED_SWAPS) (aborted_swaps s @ ids)" for now timeout
    using wf by (simp add: ex Let_def fold_push_bounded swap_wf_def del: map_map)
  have l: "last (push_bounded MAX_COMPLETED_SWAPS pid xs) = pid" for pid xs
    using push_bounded_last [of MAX_COMPLETED_SWAPS pid xs] by (simp add: MAX_COMPLETED_SWAPS_def)
  have d: "ps_proposal_id swap = pid \<and>
       fst (mark_commit_received pid s) = (sent_commit swap \<and> received_their_chunk swap) \<and>
       fst (complete_swap pid s) = Some swap \<and> get_pending_swap (snd (complete_swap pid s)) pid = None \<and>
       get_swap_partner (snd (complete_swap pid s)) (their_chunk_id swap) = Some (ps_peer swap) \<and>
       last (completed_swaps (snd (complete_swap pid s))) = pid \<and>
       fst (abort_swap pid s) = Some swap \<and> get_pending_swap (snd (abort_swap pid s)) pid = None \<and>
       active_swaps (snd (abort_swap pid s)) = active_swaps s" if "get_pending_swap s pid = Some swap" for pid swap
    using that ids by (simp add: get_pending_swap_def mark_commit_received_def complete_swap_def abort_swap_def
        get_swap_partner_def l)
  have e: "complete_swap pid s = (None, s) \<and> abort_swap pid s = (None, s)" if "get_pending_swap s pid = None" for pid
    using that by (simp add: get_pending_swap_def complete_swap_def abort_swap_def)
  show ?thesis
    using wf a b c d e by (simp add: swap_wf_def)
qed

definition demo_pending :: "u8 \<Rightarrow> u64 \<Rightarrow> PendingSwap" where
  "demo_pending i t = \<lparr>ps_proposal_id = [i], ps_peer = [9], our_chunk_id = [1], their_chunk_id = [2],
     their_chunk_data = [], ps_reserved_bytes = 10, received_their_chunk = False, retrieval_requested = False,
     ps_content_root = [], ps_merkle_proof = \<lparr>leaf_index = 0, siblings = []\<rparr>, sent_commit = False,
     received_commit = False, ps_renewal_token = [], lease_expires_at = 0, ps_content_pub_key = [], started_at = t\<rparr>"

theorem swap_lifecycle_witness:
  "let s = start_pending_swap (demo_pending 1 100) (start_pending_swap (demo_pending 2 500) SwapState_new)
   in fst (expire_pending_swaps 600 300 s) = [demo_pending 1 100] \<and>
      get_pending_swap (snd (expire_pending_swaps 600 300 s)) [2] = Some (demo_pending 2 500)"
proof -
  let ?s = "start_pending_swap (demo_pending 1 100) (start_pending_swap (demo_pending 2 500) SwapState_new)"
  have "swap_reachable (\<lambda>m. m) ?s" by (intro swap_reachable.pend swap_reachable.start)
  note l = swap_lifecycle [OF this]
  have "get_pending_swap ?s [2] = Some (demo_pending 2 500) \<and> \<not> 300 < saturating_sub 600 (started_at (demo_pending 2 500))"
    by (simp add: get_pending_swap_def start_pending_swap_def demo_pending_def SwapState_new_def saturating_sub_def)
  then have "get_pending_swap (snd (expire_pending_swaps 600 300 ?s)) [2] = Some (demo_pending 2 500)"
    using l by blast
  moreover have "map ps_proposal_id (fst (expire_pending_swaps 600 300 ?s)) = [[1]]" by code_simp
  moreover have "fst (expire_pending_swaps 600 300 ?s) = [demo_pending 1 100]"
    by (simp add: expire_pending_swaps_def expire_one_def start_pending_swap_def demo_pending_def SwapState_new_def
        saturating_sub_def hm_insert_def)
  ultimately show ?thesis by (simp add: Let_def)
qed

end
