(* ===== verification/Heartbeat.thy ===== *)
theory Heartbeat
  imports StorageCore
begin

text \<open>
  \<^verbatim>\<open>crates/static-storage/src/heartbeat.rs\<close>: owner-signed heartbeats that renew leases, the
  \<open>LeaseManager\<close> of a holder and the \<open>SeedManager\<close>. The clock, the random nonce and Ed25519 are
  parameters. Operations that can fail after changing the state return both. The results: heartbeats
  survive the wire (their local content id is zeroed), only a fresh heartbeat signed by the owner on
  record changes a lease, never beyond 24 hours and never for data that is not held, and the owner's
  heartbeats do renew.
\<close>

section \<open>Heartbeats\<close>

definition DEFAULT_HEARTBEAT_INTERVAL_SECS :: u64 where "DEFAULT_HEARTBEAT_INTERVAL_SECS = 1800"
definition HB_LEASE_DURATION_SECS :: u64 where "HB_LEASE_DURATION_SECS = 86400"
definition MAX_HEARTBEAT_CHUNKS :: nat where "MAX_HEARTBEAT_CHUNKS = 4096"
definition GRACE_PERIOD_SECS :: u64 where "GRACE_PERIOD_SECS = 7200"
definition MSG_HEARTBEAT :: u8 where "MSG_HEARTBEAT = 0x0A"

record Heartbeat =
  hb_content_id :: bytes
  hb_renewal_token :: bytes
  new_expires_at :: u64
  hb_chunk_ids :: "ChunkId list"
  hb_nonce :: bytes
  hb_signature :: bytes
  hb_content_pub_key :: bytes

datatype HeartbeatError =
    ReplayDetected u64
  | InvalidToken
  | ContentNotOwned
  | NoChunks
  | InvalidHeartbeatSignature

definition Heartbeat_new :: "u64 \<Rightarrow> bytes \<Rightarrow> bytes \<Rightarrow> bytes \<Rightarrow> ChunkId list \<Rightarrow> u64 \<Rightarrow> Heartbeat" where
  "Heartbeat_new now rnd content_id token ids new_duration_secs =
     \<lparr>hb_content_id = content_id, hb_renewal_token = token, new_expires_at = now + new_duration_secs,
      hb_chunk_ids = ids, hb_nonce = rnd, hb_signature = [], hb_content_pub_key = replicate 32 0\<rparr>"

definition heartbeat_signing_bytes :: "Heartbeat \<Rightarrow> bytes" where
  "heartbeat_signing_bytes hb = concat (hb_chunk_ids hb) @ to_be64 (new_expires_at hb) @ hb_nonce hb"

definition heartbeat_sign :: "'sk ed25519 \<Rightarrow> 'sk \<Rightarrow> Heartbeat \<Rightarrow> Heartbeat" where
  "heartbeat_sign ed sk hb =
     (let hb = hb\<lparr>hb_content_pub_key := ed_public ed sk\<rparr>
      in hb\<lparr>hb_signature := ed_sign ed sk (heartbeat_signing_bytes hb)\<rparr>)"

definition heartbeat_verify_signature :: "'sk ed25519 \<Rightarrow> Heartbeat \<Rightarrow> HeartbeatError + unit" where
  "heartbeat_verify_signature ed hb =
     (if length (hb_signature hb) \<noteq> 64 then Inl InvalidHeartbeatSignature
      else if \<not> ed_parse ed (hb_content_pub_key hb) then Inl InvalidHeartbeatSignature
      else if ed_check ed (hb_content_pub_key hb) (heartbeat_signing_bytes hb) (hb_signature hb)
           then Inr () else Inl InvalidHeartbeatSignature)"

definition serialize_heartbeat :: "Heartbeat \<Rightarrow> bytes" where
  "serialize_heartbeat hb =
     hb_renewal_token hb @ to_be64 (new_expires_at hb) @ len_be32 (length (hb_chunk_ids hb)) @
     concat (hb_chunk_ids hb) @ hb_nonce hb @ hb_content_pub_key hb @
     len_be32 (length (hb_signature hb)) @ hb_signature hb"

definition deserialize_heartbeat :: "bytes \<Rightarrow> StorageError + Heartbeat" where
  "deserialize_heartbeat data =
     fail_if (length data < 32 + 8 + 4 + 32 + 32 + 4) (InvalidChunkSize 112 (length data)) (
     rd (take_array 32 data 0) (\<lambda>token off.
     rd (take_u64 data off) (\<lambda>expires off.
     rd (take_len data off) (\<lambda>chunk_count off.
     fail_if (MAX_HEARTBEAT_CHUNKS < chunk_count) (InvalidChunkSize MAX_HEARTBEAT_CHUNKS chunk_count) (
     rd (read_many (take_array 32) chunk_count data off) (\<lambda>ids off.
     fail_if (length data < off + 32 + 32 + 4) (InvalidChunkSize (off + 32 + 32 + 4) (length data)) (
     rd (take_array 32 data off) (\<lambda>nonce off.
     rd (take_array 32 data off) (\<lambda>content_pub_key off.
     rd (take_len data off) (\<lambda>sig_len off.
     fail_if (64 < sig_len \<or> length data < off + sig_len) (InvalidChunkSize (off + sig_len) (length data)) (
     rd (take_array sig_len data off) (\<lambda>sig off.
       Inr \<lparr>hb_content_id = replicate 32 0, hb_renewal_token = token, new_expires_at = expires,
            hb_chunk_ids = ids, hb_nonce = nonce, hb_signature = sig, hb_content_pub_key = content_pub_key\<rparr>))))))))))))"

definition wire_serialize_heartbeat :: "Heartbeat \<Rightarrow> bytes" where
  "wire_serialize_heartbeat hb = [MSG_HEARTBEAT] @ serialize_heartbeat hb"

definition wire_deserialize_heartbeat :: "bytes \<Rightarrow> StorageError + Heartbeat" where
  "wire_deserialize_heartbeat data =
     fail_if (data = [] \<or> data ! 0 \<noteq> MSG_HEARTBEAT)
       (InvalidChunkSize (unat MSG_HEARTBEAT) (case data of [] \<Rightarrow> 0 | b # _ \<Rightarrow> unat b)) (
     deserialize_heartbeat (drop 1 data))"

section \<open>The lease manager\<close>

record LeaseManager =
  leases :: "(ChunkId, ChunkLease) hashmap"
  content_chunks :: "(bytes, ChunkId list) hashmap"
  seen_nonces :: "(bytes, u64) hashmap"
  owned_content :: "(bytes, bytes) hashmap"

definition LeaseManager_new :: LeaseManager where
  "LeaseManager_new = \<lparr>leases = [], content_chunks = [], seen_nonces = [], owned_content = []\<rparr>"

definition register_owned_content :: "bytes \<Rightarrow> bytes \<Rightarrow> ChunkId list \<Rightarrow> LeaseManager \<Rightarrow> LeaseManager" where
  "register_owned_content content_id master_key ids m =
     m\<lparr>owned_content := hm_insert content_id master_key (owned_content m),
       content_chunks := hm_insert content_id ids (content_chunks m)\<rparr>"

definition add_lease :: "ChunkId \<Rightarrow> ChunkLease \<Rightarrow> LeaseManager \<Rightarrow> LeaseManager" where
  "add_lease chunk_id lease m = m\<lparr>leases := hm_insert chunk_id lease (leases m)\<rparr>"

definition remove_lease :: "ChunkId \<Rightarrow> LeaseManager \<Rightarrow> ChunkLease option \<times> LeaseManager" where
  "remove_lease chunk_id m = (hm_get (leases m) chunk_id, m\<lparr>leases := hm_remove chunk_id (leases m)\<rparr>)"

definition lease_is_valid :: "LeaseManager \<Rightarrow> ChunkId \<Rightarrow> u64 \<Rightarrow> bool" where
  "lease_is_valid m chunk_id current_time =
     (case hm_get (leases m) chunk_id of Some lease \<Rightarrow> is_lease_valid lease current_time | None \<Rightarrow> False)"

definition get_expired_chunks :: "LeaseManager \<Rightarrow> u64 \<Rightarrow> ChunkId list" where
  "get_expired_chunks m current_time =
     (let threshold = saturating_sub current_time GRACE_PERIOD_SECS
      in map fst (filter (\<lambda>(_, lease). expires_at lease < threshold) (leases m)))"

text \<open>The lease with the owner key adopted, or the error.\<close>

definition match_lease_content_key :: "ChunkLease \<Rightarrow> Heartbeat \<Rightarrow> HeartbeatError + ChunkLease" where
  "match_lease_content_key lease hb =
     (if lease_content_pub_key lease = replicate 32 0
      then Inr (lease\<lparr>lease_content_pub_key := hb_content_pub_key hb\<rparr>)
      else if lease_content_pub_key lease \<noteq> hb_content_pub_key hb then Inl InvalidHeartbeatSignature
      else Inr lease)"

text \<open>The renewal loop of \<open>process_heartbeat\<close>: an error returns early and keeps what was renewed.\<close>

fun renew_loop ::
  "Heartbeat \<Rightarrow> ChunkId list \<Rightarrow> (ChunkId, ChunkLease) hashmap \<Rightarrow> ChunkId list \<Rightarrow>
     (HeartbeatError + ChunkId list) \<times> (ChunkId, ChunkLease) hashmap" where
  "renew_loop hb [] ls renewed = (Inr renewed, ls)"
| "renew_loop hb (chunk_id # ids) ls renewed =
     (case hm_get ls chunk_id of
        Some lease \<Rightarrow>
          if renewal_token lease \<noteq> hb_renewal_token hb then (Inl InvalidToken, ls)
          else (case match_lease_content_key lease hb of
             Inl e \<Rightarrow> (Inl e, ls)
           | Inr lease \<Rightarrow>
               renew_loop hb ids (hm_insert chunk_id (lease\<lparr>expires_at := new_expires_at hb\<rparr>) ls) (renewed @ [chunk_id]))
      | None \<Rightarrow> renew_loop hb ids ls renewed)"

definition process_heartbeat ::
  "'sk ed25519 \<Rightarrow> Heartbeat \<Rightarrow> u64 \<Rightarrow> LeaseManager \<Rightarrow> (HeartbeatError + ChunkId list) \<times> LeaseManager" where
  "process_heartbeat ed hb current_time m =
     (case heartbeat_verify_signature ed hb of
        Inl e \<Rightarrow> (Inl e, m)
      | Inr _ \<Rightarrow>
          (case hm_get (seen_nonces m) (hb_nonce hb) of
             Some seen_time \<Rightarrow> (Inl (ReplayDetected seen_time), m)
           | None \<Rightarrow>
               (let m = m\<lparr>seen_nonces := hm_insert (hb_nonce hb) current_time (seen_nonces m)\<rparr>;
                    (r, ls) = renew_loop hb (hb_chunk_ids hb) (leases m) []
                in (r, m\<lparr>leases := ls\<rparr>))))"

fun upsert_loop ::
  "Heartbeat \<Rightarrow> u64 \<Rightarrow> ChunkId set \<Rightarrow> ChunkId list \<Rightarrow> (ChunkId, ChunkLease) hashmap \<Rightarrow> ChunkId list \<Rightarrow>
     (HeartbeatError + ChunkId list) \<times> (ChunkId, ChunkLease) hashmap" where
  "upsert_loop hb expires held [] ls renewed = (Inr renewed, ls)"
| "upsert_loop hb expires held (chunk_id # ids) ls renewed =
     (if chunk_id \<notin> held then upsert_loop hb expires held ids ls renewed
      else (case hm_get ls chunk_id of
         Some lease \<Rightarrow>
           if renewal_token lease \<noteq> hb_renewal_token hb then (Inl InvalidToken, ls)
           else (case match_lease_content_key lease hb of
              Inl e \<Rightarrow> (Inl e, ls)
            | Inr lease \<Rightarrow>
                upsert_loop hb expires held ids (hm_insert chunk_id (lease\<lparr>expires_at := expires\<rparr>) ls) (renewed @ [chunk_id]))
       | None \<Rightarrow>
           upsert_loop hb expires held ids
             (hm_insert chunk_id \<lparr>lease_chunk_id = chunk_id, expires_at = expires,
                renewal_token = hb_renewal_token hb, lease_content_pub_key = hb_content_pub_key hb\<rparr> ls)
             (renewed @ [chunk_id])))"

definition process_heartbeat_upsert ::
  "'sk ed25519 \<Rightarrow> Heartbeat \<Rightarrow> u64 \<Rightarrow> ChunkId set \<Rightarrow> LeaseManager \<Rightarrow> (HeartbeatError + ChunkId list) \<times> LeaseManager" where
  "process_heartbeat_upsert ed hb current_time held m =
     (case heartbeat_verify_signature ed hb of
        Inl e \<Rightarrow> (Inl e, m)
      | Inr _ \<Rightarrow>
          (case hm_get (seen_nonces m) (hb_nonce hb) of
             Some seen_time \<Rightarrow> (Inl (ReplayDetected seen_time), m)
           | None \<Rightarrow>
               (let m = m\<lparr>seen_nonces := hm_insert (hb_nonce hb) current_time (seen_nonces m)\<rparr>;
                    max_expires = saturating_add current_time HB_LEASE_DURATION_SECS;
                    expires = min (new_expires_at hb) max_expires;
                    (r, ls) = upsert_loop hb expires held (hb_chunk_ids hb) (leases m) []
                in (r, m\<lparr>leases := ls\<rparr>))))"

definition create_heartbeat ::
  "storage_env \<Rightarrow> 'sk ed25519 \<Rightarrow> u64 \<Rightarrow> bytes \<Rightarrow> LeaseManager \<Rightarrow> bytes \<Rightarrow> u64 \<Rightarrow> 'sk \<Rightarrow> HeartbeatError + Heartbeat" where
  "create_heartbeat env ed now rnd m content_id new_duration_secs sk =
     (case hm_get (owned_content m) content_id of
        None \<Rightarrow> Inl ContentNotOwned
      | Some master_key \<Rightarrow>
          (let ids = (case hm_get (content_chunks m) content_id of None \<Rightarrow> [] | Some ids \<Rightarrow> ids)
           in if ids = [] then Inl NoChunks
              else (let first_chunk = ids ! 0;
                        lease = create_lease env first_chunk master_key HB_LEASE_DURATION_SECS now
                    in Inr (heartbeat_sign ed sk
                         (Heartbeat_new now rnd content_id (renewal_token lease) ids new_duration_secs)))))"

definition cleanup_nonces :: "u64 \<Rightarrow> LeaseManager \<Rightarrow> LeaseManager" where
  "cleanup_nonces current_time m =
     (let threshold = saturating_sub current_time HB_LEASE_DURATION_SECS
      in m\<lparr>seen_nonces := hm_retain (\<lambda>_ t. threshold < t) (seen_nonces m)\<rparr>)"

record LeaseStats =
  stat_active_leases :: nat
  stat_owned_content :: nat
  stat_seen_nonces :: nat

definition lease_stats :: "LeaseManager \<Rightarrow> LeaseStats" where
  "lease_stats m = \<lparr>stat_active_leases = hm_len (leases m), stat_owned_content = hm_len (owned_content m),
     stat_seen_nonces = hm_len (seen_nonces m)\<rparr>"

section \<open>Seeds\<close>

record SeedNodeConfig =
  seed_node_id :: NodeId
  seed_address :: bytes
  seed_active :: bool

type_synonym SeedManager = "(bytes, SeedNodeConfig list) hashmap"

definition SeedManager_new :: SeedManager where
  "SeedManager_new = []"

definition add_seed :: "bytes \<Rightarrow> SeedNodeConfig \<Rightarrow> SeedManager \<Rightarrow> SeedManager" where
  "add_seed content_id seed m =
     hm_insert content_id ((case hm_get m content_id of None \<Rightarrow> [] | Some ss \<Rightarrow> ss) @ [seed]) m"

definition get_active_seeds :: "SeedManager \<Rightarrow> bytes \<Rightarrow> SeedNodeConfig list" where
  "get_active_seeds m content_id =
     (case hm_get m content_id of None \<Rightarrow> [] | Some ss \<Rightarrow> filter seed_active ss)"

definition mark_inactive :: "bytes \<Rightarrow> NodeId \<Rightarrow> SeedManager \<Rightarrow> SeedManager" where
  "mark_inactive content_id node_id m =
     hm_modify content_id (map (\<lambda>s. if seed_node_id s = node_id then s\<lparr>seed_active := False\<rparr> else s)) m"

definition has_active_seeds :: "SeedManager \<Rightarrow> bytes \<Rightarrow> bool" where
  "has_active_seeds m content_id \<longleftrightarrow> get_active_seeds m content_id \<noteq> []"

definition get_orphaned_content :: "SeedManager \<Rightarrow> bytes list" where
  "get_orphaned_content m = map fst (filter (\<lambda>(content_id, _). \<not> has_active_seeds m content_id) m)"

section \<open>The wire format\<close>

definition heartbeat_sized :: "Heartbeat \<Rightarrow> bool" where
  "heartbeat_sized hb \<longleftrightarrow> length (hb_renewal_token hb) = 32 \<and> length (hb_chunk_ids hb) \<le> MAX_HEARTBEAT_CHUNKS \<and>
     (\<forall>k\<in>set (hb_chunk_ids hb). length k = 32) \<and> length (hb_nonce hb) = 32 \<and>
     length (hb_content_pub_key hb) = 32 \<and> length (hb_signature hb) \<le> 64"

lemma chunk_ids_step:
  assumes "ahead data off (concat ids @ rest)" and "n = length ids \<and> (\<forall>k\<in>set ids. length k = 32)"
    and "ahead data (off + length (concat ids)) rest \<Longrightarrow> k ids (off + length (concat ids)) = r"
  shows "rd (read_many (take_array 32) n data off) k = r"
  using tarr.dec_many_step [of ids 32 n data off rest k r] assms by simp

lemma heartbeat_roundtrip:
  assumes "heartbeat_sized hb"
  shows "deserialize_heartbeat (serialize_heartbeat hb @ padding) = Inr (hb\<lparr>hb_content_id := replicate 32 0\<rparr>)"
proof -
  let ?d = "serialize_heartbeat hb @ padding"
  have a: "ahead ?d 0 (hb_renewal_token hb @ to_be64 (new_expires_at hb) @ len_be32 (length (hb_chunk_ids hb)) @
     concat (hb_chunk_ids hb) @ hb_nonce hb @ hb_content_pub_key hb @
     len_be32 (length (hb_signature hb)) @ hb_signature hb @ padding)"
    by (simp add: serialize_heartbeat_def ahead_zero)
  have s: "length (hb_renewal_token hb) = 32" "length (hb_chunk_ids hb) \<le> 4096" "\<forall>k\<in>set (hb_chunk_ids hb). length k = 32"
    "length (hb_nonce hb) = 32" "length (hb_content_pub_key hb) = 32" "length (hb_signature hb) \<le> 64"
    using assms by (simp_all add: heartbeat_sized_def MAX_HEARTBEAT_CHUNKS_def)
  have len: "length ?d = 32 + 8 + 4 + length (concat (hb_chunk_ids hb)) + 32 + 32 + 4 + length (hb_signature hb) + length padding"
    using s by (simp add: serialize_heartbeat_def)
  show ?thesis
    unfolding deserialize_heartbeat_def using a
    by (elim chunk_ids_step dec_steps) (use s len in \<open>simp_all add: MAX_HEARTBEAT_CHUNKS_def\<close>)
qed

section \<open>Who can renew what\<close>

definition heartbeat_valid :: "'sk ed25519 \<Rightarrow> Heartbeat \<Rightarrow> bool" where
  "heartbeat_valid ed hb \<longleftrightarrow> signature_valid ed (hb_content_pub_key hb) (heartbeat_signing_bytes hb) (hb_signature hb)"

lemma heartbeat_verify_iff:
  "heartbeat_verify_signature ed hb = (if heartbeat_valid ed hb then Inr () else Inl InvalidHeartbeatSignature)"
  by (simp add: heartbeat_verify_signature_def heartbeat_valid_def signature_valid_def)

interpretation heartbeat_msg: signed_message ed heartbeat_signing_bytes hb_content_pub_key hb_signature
    "\<lambda>_. True" "heartbeat_sign ed" "heartbeat_valid ed" for ed
  by unfold_locales (simp_all add: heartbeat_valid_def heartbeat_sign_def heartbeat_signing_bytes_def Let_def)

text \<open>The lease on record may be renewed by this heartbeat: the token matches, and so does the owner
  key unless none is on record yet.\<close>

definition lease_matches :: "Heartbeat \<Rightarrow> ChunkLease \<Rightarrow> bool" where
  "lease_matches hb l \<longleftrightarrow> renewal_token l = hb_renewal_token hb \<and>
     (lease_content_pub_key l = replicate 32 0 \<or> lease_content_pub_key l = hb_content_pub_key hb)"

definition renewed_lease :: "Heartbeat \<Rightarrow> u64 \<Rightarrow> ChunkLease \<Rightarrow> bool" where
  "renewed_lease hb e l \<longleftrightarrow> expires_at l = e \<and> renewal_token l = hb_renewal_token hb \<and>
     lease_content_pub_key l = hb_content_pub_key hb"

lemma match_lease_iff:
  "renewal_token l = hb_renewal_token hb \<Longrightarrow>
     (case match_lease_content_key l hb of
        Inl e \<Rightarrow> \<not> lease_matches hb l \<and> e = InvalidHeartbeatSignature
      | Inr l' \<Rightarrow> lease_matches hb l \<and> renewed_lease hb x (l'\<lparr>expires_at := x\<rparr>))"
  by (simp add: match_lease_content_key_def lease_matches_def renewed_lease_def)

lemma renewed_matches: "renewed_lease hb e l \<Longrightarrow> lease_matches hb l"
  by (simp add: renewed_lease_def lease_matches_def)

definition loop_effect ::
  "Heartbeat \<Rightarrow> u64 \<Rightarrow> ChunkId set \<Rightarrow> (ChunkId, ChunkLease) hashmap \<Rightarrow> (ChunkId, ChunkLease) hashmap \<Rightarrow> bool" where
  "loop_effect hb e ks ls ls' \<longleftrightarrow> (\<forall>k. hm_get ls' k = hm_get ls k \<or>
     (k \<in> ks \<and> (\<forall>l. hm_get ls k = Some l \<longrightarrow> lease_matches hb l) \<and> (\<exists>l'. hm_get ls' k = Some l' \<and> renewed_lease hb e l')))"

lemma loop_effect_step:
  assumes "loop_effect hb e ks (hm_insert k l ls) ls'" and "renewed_lease hb e l"
    and "\<forall>l. hm_get ls k = Some l \<longrightarrow> lease_matches hb l"
  shows "loop_effect hb e (insert k ks) ls ls'"
  unfolding loop_effect_def
proof
  fix j
  show "hm_get ls' j = hm_get ls j \<or> (j \<in> insert k ks \<and> (\<forall>l. hm_get ls j = Some l \<longrightarrow> lease_matches hb l) \<and>
      (\<exists>l'. hm_get ls' j = Some l' \<and> renewed_lease hb e l'))"
    using assms(1) [unfolded loop_effect_def, rule_format, of j] assms(2,3) by (cases "j = k") auto
qed

lemma loop_effect_mono: "loop_effect hb e ks ls ls' \<Longrightarrow> ks \<subseteq> ks' \<Longrightarrow> loop_effect hb e ks' ls ls'"
  unfolding loop_effect_def by blast

lemma upsert_loop_effect:
  "loop_effect hb e (set ids \<inter> held) ls (snd (upsert_loop hb e held ids ls renewed))"
proof (induction ids arbitrary: ls renewed)
  case (Cons k ids)
  show ?case
  proof (cases "k \<in> held")
    case False
    then show ?thesis using Cons.IH [of ls renewed] by simp
  next
    case held: True
    show ?thesis
    proof (cases "hm_get ls k")
      case None
      let ?l = "\<lparr>lease_chunk_id = k, expires_at = e, renewal_token = hb_renewal_token hb,
        lease_content_pub_key = hb_content_pub_key hb\<rparr>"
      have "loop_effect hb e (insert k (set ids \<inter> held)) ls
          (snd (upsert_loop hb e held ids (hm_insert k ?l ls) (renewed @ [k])))"
        by (rule loop_effect_step [OF Cons.IH]) (simp_all add: renewed_lease_def None)
      then show ?thesis using held None by simp
    next
      case (Some l)
      show ?thesis
      proof (cases "renewal_token l = hb_renewal_token hb \<and> lease_matches hb l")
        case True
        then obtain l' where l': "match_lease_content_key l hb = Inr l'" "renewed_lease hb e (l'\<lparr>expires_at := e\<rparr>)"
          using match_lease_iff [of l hb e] by (auto split: sum.splits)
        have "loop_effect hb e (insert k (set ids \<inter> held)) ls
            (snd (upsert_loop hb e held ids (hm_insert k (l'\<lparr>expires_at := e\<rparr>) ls) (renewed @ [k])))"
          by (rule loop_effect_step [OF Cons.IH l'(2)]) (use True Some in simp)
        then show ?thesis using held Some True l'(1) by simp
      next
        case False
        have "snd (upsert_loop hb e held (k # ids) ls renewed) = ls"
          using False Some held match_lease_iff [of l hb e] by (auto split: sum.splits)
        then show ?thesis by (simp add: loop_effect_def)
      qed
    qed
  qed
qed (simp add: loop_effect_def)

lemma upsert_loop_ok:
  "(\<And>k l. k \<in> set ids \<Longrightarrow> k \<in> held \<Longrightarrow> hm_get ls k = Some l \<Longrightarrow> lease_matches hb l) \<Longrightarrow>
     fst (upsert_loop hb e held ids ls renewed) = Inr (renewed @ filter (\<lambda>k. k \<in> held) ids) \<and>
     (\<forall>k. k \<in> set ids \<inter> held \<or> (\<exists>l. hm_get ls k = Some l \<and> renewed_lease hb e l) \<longrightarrow>
        (\<exists>l. hm_get (snd (upsert_loop hb e held ids ls renewed)) k = Some l \<and> renewed_lease hb e l))"
proof (induction ids arbitrary: ls renewed)
  case (Cons k ids)
  show ?case
  proof (cases "k \<in> held")
    case False
    have "fst (upsert_loop hb e held ids ls renewed) = Inr (renewed @ filter (\<lambda>k. k \<in> held) ids) \<and>
     (\<forall>k. k \<in> set ids \<inter> held \<or> (\<exists>l. hm_get ls k = Some l \<and> renewed_lease hb e l) \<longrightarrow>
        (\<exists>l. hm_get (snd (upsert_loop hb e held ids ls renewed)) k = Some l \<and> renewed_lease hb e l))"
      by (rule Cons.IH) (use Cons.prems in auto)
    with False show ?thesis by auto
  next
    case held: True
    obtain l' where l': "renewed_lease hb e l'"
      "upsert_loop hb e held (k # ids) ls renewed = upsert_loop hb e held ids (hm_insert k l' ls) (renewed @ [k])"
    proof (cases "hm_get ls k")
      case None
      then show ?thesis using held by (intro that) (simp_all add: renewed_lease_def)
    next
      case (Some l)
      then have "lease_matches hb l" using Cons.prems [of k l] held by simp
      then obtain l2 where "match_lease_content_key l hb = Inr l2" "renewed_lease hb e (l2\<lparr>expires_at := e\<rparr>)"
        "renewal_token l = hb_renewal_token hb"
        using match_lease_iff [of l hb e] by (auto simp: lease_matches_def split: sum.splits)
      then show ?thesis using Some held by (intro that) simp_all
    qed
    have "fst (upsert_loop hb e held ids (hm_insert k l' ls) (renewed @ [k])) =
        Inr ((renewed @ [k]) @ filter (\<lambda>k. k \<in> held) ids) \<and>
      (\<forall>j. j \<in> set ids \<inter> held \<or> (\<exists>l. hm_get (hm_insert k l' ls) j = Some l \<and> renewed_lease hb e l) \<longrightarrow>
        (\<exists>l. hm_get (snd (upsert_loop hb e held ids (hm_insert k l' ls) (renewed @ [k]))) j = Some l \<and> renewed_lease hb e l))"
      by (rule Cons.IH) (use Cons.prems l'(1) renewed_matches in \<open>auto split: if_splits\<close>)
    then show ?thesis using l' held by (auto split: if_splits)
  qed
qed simp

lemma renew_loop_effect:
  "loop_effect hb (new_expires_at hb) (set ids \<inter> {k. hm_get ls0 k \<noteq> None}) ls (snd (renew_loop hb ids ls renewed))"
  if "\<And>k. hm_get ls k \<noteq> None \<Longrightarrow> hm_get ls0 k \<noteq> None"
  using that
proof (induction ids arbitrary: ls renewed)
  case (Cons k ids)
  show ?case
  proof (cases "hm_get ls k")
    case None
    have "loop_effect hb (new_expires_at hb) (set ids \<inter> {k. hm_get ls0 k \<noteq> None}) ls (snd (renew_loop hb ids ls renewed))"
      by (rule Cons.IH) (use Cons.prems in blast)
    then have "loop_effect hb (new_expires_at hb) (set (k # ids) \<inter> {k. hm_get ls0 k \<noteq> None}) ls (snd (renew_loop hb ids ls renewed))"
      by (rule loop_effect_mono) auto
    with None show ?thesis by simp
  next
    case (Some l)
    show ?thesis
    proof (cases "renewal_token l = hb_renewal_token hb \<and> lease_matches hb l")
      case True
      then obtain l' where l': "match_lease_content_key l hb = Inr l'" "renewed_lease hb (new_expires_at hb) (l'\<lparr>expires_at := new_expires_at hb\<rparr>)"
        using match_lease_iff [of l hb "new_expires_at hb"] by (auto split: sum.splits)
      have k0: "hm_get ls0 k \<noteq> None" using Cons.prems [of k] Some by simp
      have "loop_effect hb (new_expires_at hb) (set ids \<inter> {k. hm_get ls0 k \<noteq> None}) (hm_insert k (l'\<lparr>expires_at := new_expires_at hb\<rparr>) ls)
          (snd (renew_loop hb ids (hm_insert k (l'\<lparr>expires_at := new_expires_at hb\<rparr>) ls) (renewed @ [k])))"
        by (rule Cons.IH) (use Cons.prems k0 in \<open>auto split: if_splits\<close>)
      then have "loop_effect hb (new_expires_at hb) (insert k (set ids \<inter> {k. hm_get ls0 k \<noteq> None})) ls
          (snd (renew_loop hb ids (hm_insert k (l'\<lparr>expires_at := new_expires_at hb\<rparr>) ls) (renewed @ [k])))"
        by (rule loop_effect_step [OF _ l'(2)]) (use True Some in simp)
      then show ?thesis using Some True l'(1) k0 by (simp add: insert_commute Int_insert_left)
    next
      case False
      have "snd (renew_loop hb (k # ids) ls renewed) = ls"
        using False Some match_lease_iff [of l hb "new_expires_at hb"] by (auto split: sum.splits)
      then show ?thesis by (simp add: loop_effect_def)
    qed
  qed
qed (simp add: loop_effect_def)

text \<open>C25 (safety). Whatever heartbeat arrives, successful or not: one that is unsigned or forged
  changes nothing, and neither does one whose nonce is on record (nonces are forgotten after a day, and then a copy passes again). When \<open>process_heartbeat_upsert\<close> changes a lease, the
  lease belongs to a chunk the heartbeat names and the node holds; there was no lease on record for it, or one with the heartbeat's token and with its owner key or the
  all-zero key, which stands for none, so that the first valid heartbeat with the token becomes the owner; and the lease now has the heartbeat's owner key and
  expires at the requested time or 24 hours from now, whichever is earlier. \<open>process_heartbeat\<close> changes only leases on record, with the same conditions on token and key,
  and sets the requested time without a limit.\<close>

theorem heartbeat_only_owner_renews:
  assumes "process_heartbeat_upsert ed hb now held m = (r, m')" and "process_heartbeat ed hb now m = (r2, m2)"
  shows "(\<not> heartbeat_valid ed hb \<longrightarrow> r = Inl InvalidHeartbeatSignature \<and> m' = m \<and> m2 = m) \<and>
    (\<forall>t. heartbeat_valid ed hb \<and> hm_get (seen_nonces m) (hb_nonce hb) = Some t \<longrightarrow>
       r = Inl (ReplayDetected t) \<and> m' = m \<and> r2 = Inl (ReplayDetected t) \<and> m2 = m) \<and>
    (\<forall>k. hm_get (leases m') k \<noteq> hm_get (leases m) k \<longrightarrow>
       heartbeat_valid ed hb \<and> k \<in> set (hb_chunk_ids hb) \<and> k \<in> held \<and>
       (\<forall>l. hm_get (leases m) k = Some l \<longrightarrow> renewal_token l = hb_renewal_token hb \<and>
          (lease_content_pub_key l = replicate 32 0 \<or> lease_content_pub_key l = hb_content_pub_key hb)) \<and>
       (\<exists>l'. hm_get (leases m') k = Some l' \<and> expires_at l' = min (new_expires_at hb) (saturating_add now 86400) \<and>
          unat (expires_at l') \<le> unat now + 86400 \<and> renewal_token l' = hb_renewal_token hb \<and> lease_content_pub_key l' = hb_content_pub_key hb)) \<and>
    (\<forall>k. hm_get (leases m2) k \<noteq> hm_get (leases m) k \<longrightarrow>
       heartbeat_valid ed hb \<and> k \<in> set (hb_chunk_ids hb) \<and>
       (\<exists>l l'. hm_get (leases m) k = Some l \<and> renewal_token l = hb_renewal_token hb \<and>
          (lease_content_pub_key l = replicate 32 0 \<or> lease_content_pub_key l = hb_content_pub_key hb) \<and>
          hm_get (leases m2) k = Some l' \<and> expires_at l' = new_expires_at hb \<and> lease_content_pub_key l' = hb_content_pub_key hb))"
proof (cases "heartbeat_valid ed hb \<and> hm_get (seen_nonces m) (hb_nonce hb) = None")
  case False
  then consider "\<not> heartbeat_valid ed hb" | t where "heartbeat_valid ed hb" "hm_get (seen_nonces m) (hb_nonce hb) = Some t"
    by auto
  then show ?thesis
  proof cases
    case 1
    then show ?thesis
      using assms by (simp add: process_heartbeat_upsert_def process_heartbeat_def heartbeat_verify_iff)
  next
    case 2
    then show ?thesis
      using assms by (simp add: process_heartbeat_upsert_def process_heartbeat_def heartbeat_verify_iff)
  qed
next
  case True
  define e where "e = min (new_expires_at hb) (saturating_add now HB_LEASE_DURATION_SECS)"
  have m': "leases m' = snd (upsert_loop hb e held (hb_chunk_ids hb) (leases m) [])"
    and m2: "leases m2 = snd (renew_loop hb (hb_chunk_ids hb) (leases m) [])"
    using True assms by (auto simp: process_heartbeat_upsert_def process_heartbeat_def heartbeat_verify_iff e_def
        Let_def split_beta)
  have "unat e \<le> unat (saturating_add now HB_LEASE_DURATION_SECS)" by (simp add: e_def word_le_nat_alt [symmetric])
  also have "\<dots> \<le> unat now + 86400" by (simp add: unat_saturating_add HB_LEASE_DURATION_SECS_def)
  finally have e: "e \<le> new_expires_at hb" "unat e \<le> unat now + 86400" by (simp_all add: e_def)
  have up: "loop_effect hb e (set (hb_chunk_ids hb) \<inter> held) (leases m) (leases m')"
    unfolding m' by (rule upsert_loop_effect)
  have re: "loop_effect hb (new_expires_at hb) (set (hb_chunk_ids hb) \<inter> {k. hm_get (leases m) k \<noteq> None}) (leases m) (leases m2)"
    unfolding m2 by (rule renew_loop_effect)
  have u: "k \<in> set (hb_chunk_ids hb) \<and> k \<in> held \<and> (\<forall>l. hm_get (leases m) k = Some l \<longrightarrow> renewal_token l = hb_renewal_token hb \<and>
          (lease_content_pub_key l = replicate 32 0 \<or> lease_content_pub_key l = hb_content_pub_key hb)) \<and>
       (\<exists>l'. hm_get (leases m') k = Some l' \<and> expires_at l' = min (new_expires_at hb) (saturating_add now 86400) \<and>
          unat (expires_at l') \<le> unat now + 86400 \<and> renewal_token l' = hb_renewal_token hb \<and> lease_content_pub_key l' = hb_content_pub_key hb)"
    if "hm_get (leases m') k \<noteq> hm_get (leases m) k" for k
  proof -
    have "e = min (new_expires_at hb) (saturating_add now 86400)" by (simp add: e_def HB_LEASE_DURATION_SECS_def)
    with up [unfolded loop_effect_def, rule_format, of k] that e(2) show ?thesis
      unfolding renewed_lease_def lease_matches_def by auto
  qed
  have v: "k \<in> set (hb_chunk_ids hb) \<and>
       (\<exists>l l'. hm_get (leases m) k = Some l \<and> renewal_token l = hb_renewal_token hb \<and>
          (lease_content_pub_key l = replicate 32 0 \<or> lease_content_pub_key l = hb_content_pub_key hb) \<and>
          hm_get (leases m2) k = Some l' \<and> expires_at l' = new_expires_at hb \<and> lease_content_pub_key l' = hb_content_pub_key hb)"
    if "hm_get (leases m2) k \<noteq> hm_get (leases m) k" for k
    using re [unfolded loop_effect_def, rule_format, of k] that unfolding renewed_lease_def lease_matches_def by blast
  show ?thesis using True u v by simp
qed

definition demo_hb :: Heartbeat where
  "demo_hb = heartbeat_sign demo_ed 3 (Heartbeat_new 1000 (replicate 32 8) (replicate 32 0) (replicate 32 7) [replicate 32 1] 999999)"

theorem heartbeat_only_owner_renews_witness:
  "let m' = snd (process_heartbeat_upsert demo_ed demo_hb 1000 {replicate 32 1} LeaseManager_new)
   in \<exists>l. hm_get (leases m') (replicate 32 1) = Some l \<and> unat (expires_at l) \<le> unat (1000 :: u64) + 86400"
proof -
  let ?k = "replicate 32 1 :: bytes"
  let ?m = "snd (process_heartbeat_upsert demo_ed demo_hb 1000 {?k} LeaseManager_new)"
  have "hm_get (leases ?m) ?k \<noteq> hm_get (leases LeaseManager_new) ?k"
    by (simp add: process_heartbeat_upsert_def demo_hb_def heartbeat_verify_iff heartbeat_valid_def heartbeat_sign_def
        heartbeat_signing_bytes_def Heartbeat_new_def LeaseManager_new_def demo_ed_correct Let_def)
  from heartbeat_only_owner_renews [OF surjective_pairing surjective_pairing, of demo_ed demo_hb 1000 "{?k}" LeaseManager_new,
      THEN conjunct2, THEN conjunct2, THEN conjunct1, rule_format, OF this]
  show ?thesis unfolding Let_def by blast
qed

text \<open>The owner's heartbeats renew. A heartbeat created for owned content arrives unchanged
  (only its local content id is zeroed) and, at every holder that has not seen its nonce and whose
  leases for the chunks it holds carry the owner's token and key (or no key yet), it renews all the
  held chunks it names; each lease then expires at the requested time, capped at 24 hours from now.
  Processing it again is reported as a replay.\<close>

theorem owner_heartbeat_renews:
  assumes "ed25519_correct ed" and "create_heartbeat env ed now rnd owner cid duration sk = Inr hb"
    and "length rnd = 32" and "\<forall>x. length (blake3 env x) = 32"
    and "\<forall>k\<in>set (hb_chunk_ids hb). length k = 32" and "length (hb_chunk_ids hb) \<le> MAX_HEARTBEAT_CHUNKS"
    and "hb' = hb\<lparr>hb_content_id := replicate 32 0\<rparr>"
    and "hm_get (seen_nonces m) rnd = None" and "hm_get (owned_content owner) cid = Some mk"
    and "\<And>k l. k \<in> set (hb_chunk_ids hb) \<Longrightarrow> k \<in> held \<Longrightarrow> hm_get (leases m) k = Some l \<Longrightarrow>
           renewal_token l = lease_token env mk \<and>
           (lease_content_pub_key l = replicate 32 0 \<or> lease_content_pub_key l = ed_public ed sk)"
    and "process_heartbeat_upsert ed hb' t held m = (r, m')"
  shows "wire_deserialize_heartbeat (wire_serialize_heartbeat hb @ padding) = Inr hb' \<and>
    r = Inr (filter (\<lambda>k. k \<in> held) (hb_chunk_ids hb)) \<and>
    (\<forall>k\<in>set (hb_chunk_ids hb) \<inter> held. \<exists>l. hm_get (leases m') k = Some l \<and>
       expires_at l = min (now + duration) (saturating_add t HB_LEASE_DURATION_SECS) \<and>
       lease_content_pub_key l = ed_public ed sk) \<and>
    process_heartbeat_upsert ed hb' t2 held m' = (Inl (ReplayDetected t), m')"
proof -
  have hb: "hb_renewal_token hb = lease_token env mk" "new_expires_at hb = now + duration" "hb_nonce hb = rnd"
    "hb_content_pub_key hb = ed_public ed sk" "hb_signature hb = ed_sign ed sk (heartbeat_signing_bytes hb)"
    using assms(2,9) by (auto simp: create_heartbeat_def heartbeat_sign_def Heartbeat_new_def create_lease_def
        heartbeat_signing_bytes_def Let_def split: if_splits option.splits)
  have sized: "heartbeat_sized hb"
    using assms(1,3,4,5,6) by (simp add: heartbeat_sized_def hb lease_token_def)
  note hb' = assms(7)
  have wire: "wire_deserialize_heartbeat (wire_serialize_heartbeat hb @ padding) = Inr hb'"
    by (simp add: hb' wire_deserialize_heartbeat_def wire_serialize_heartbeat_def heartbeat_roundtrip [OF sized])
  have valid: "heartbeat_valid ed hb'"
    using assms(1) hb by (simp add: hb' heartbeat_valid_def heartbeat_signing_bytes_def)
  define e where "e = min (now + duration) (saturating_add t HB_LEASE_DURATION_SECS)"
  have loop: "process_heartbeat_upsert ed hb' t held m = (fst (upsert_loop hb' e held (hb_chunk_ids hb) (leases m) []),
      m\<lparr>seen_nonces := hm_insert rnd t (seen_nonces m), leases := snd (upsert_loop hb' e held (hb_chunk_ids hb) (leases m) [])\<rparr>)"
    using valid assms(8) hb by (simp add: process_heartbeat_upsert_def heartbeat_verify_iff hb' e_def Let_def split_beta)
  have ok: "fst (upsert_loop hb' e held (hb_chunk_ids hb) (leases m) []) = Inr ([] @ filter (\<lambda>k. k \<in> held) (hb_chunk_ids hb)) \<and>
     (\<forall>k. k \<in> set (hb_chunk_ids hb) \<inter> held \<or> (\<exists>l. hm_get (leases m) k = Some l \<and> renewed_lease hb' e l) \<longrightarrow>
        (\<exists>l. hm_get (snd (upsert_loop hb' e held (hb_chunk_ids hb) (leases m) [])) k = Some l \<and> renewed_lease hb' e l))"
    by (rule upsert_loop_ok) (use assms(10) hb in \<open>auto simp: lease_matches_def hb'\<close>)
  have ren: "\<exists>l. hm_get (leases m') k = Some l \<and> expires_at l = e \<and> lease_content_pub_key l = ed_public ed sk"
    if kk: "k \<in> set (hb_chunk_ids hb) \<inter> held" for k
  proof -
    obtain l where "hm_get (leases m') k = Some l" "renewed_lease hb' e l" using ok kk loop assms(11) by auto
    then show ?thesis by (auto simp: renewed_lease_def hb' hb)
  qed
  have "hm_get (seen_nonces m') (hb_nonce hb') = Some t" using loop assms(11) by (auto simp: hb' hb)
  then have "process_heartbeat_upsert ed hb' t2 held m' = (Inl (ReplayDetected t), m')"
    using valid by (simp add: process_heartbeat_upsert_def heartbeat_verify_iff)
  with wire ok ren loop assms(11) show ?thesis by (simp add: e_def)
qed

definition demo_owner :: LeaseManager where
  "demo_owner = register_owned_content [1] [2] [replicate 32 3] LeaseManager_new"

theorem owner_heartbeat_renews_witness:
  "\<exists>hb hb'. create_heartbeat demo_storage demo_ed 1000 (replicate 32 4) demo_owner [1] 600 5 = Inr hb \<and>
     wire_deserialize_heartbeat (wire_serialize_heartbeat hb @ [0, 0]) = Inr hb' \<and>
     fst (process_heartbeat_upsert demo_ed hb' 1001 {replicate 32 3} LeaseManager_new) = Inr [replicate 32 3]"
proof -
  have own: "hm_get (owned_content demo_owner) [1] = Some [2]"
    by (simp add: demo_owner_def register_owned_content_def LeaseManager_new_def)
  obtain hb where hb: "create_heartbeat demo_storage demo_ed 1000 (replicate 32 4) demo_owner [1] 600 5 = Inr hb"
    "hb_chunk_ids hb = [replicate 32 3]"
    by (simp add: create_heartbeat_def demo_owner_def register_owned_content_def LeaseManager_new_def heartbeat_sign_def
        Heartbeat_new_def create_lease_def heartbeat_signing_bytes_def Let_def)
  have h32: "\<forall>x. length (blake3 demo_storage x) = 32" by (auto simp: demo_storage_def)
  have "wire_deserialize_heartbeat (wire_serialize_heartbeat hb @ [0, 0]) = Inr (hb\<lparr>hb_content_id := replicate 32 0\<rparr>) \<and>
    fst (process_heartbeat_upsert demo_ed (hb\<lparr>hb_content_id := replicate 32 0\<rparr>) 1001 {replicate 32 3} LeaseManager_new) =
      Inr (filter (\<lambda>k. k \<in> {replicate 32 3}) (hb_chunk_ids hb))"
    using owner_heartbeat_renews [OF demo_ed_correct hb(1) _ h32 _ _ refl _ own, of LeaseManager_new "{replicate 32 3}" 1001,
        OF _ _ _ _ _ surjective_pairing] hb(2)
    by (simp add: LeaseManager_new_def MAX_HEARTBEAT_CHUNKS_def)
  with hb(1,2) show ?thesis by auto
qed

text \<open>
  Replay protection lasts 24 hours: \<open>cleanup_nonces\<close> forgets older nonces, and a renewal may move the
  expiry backwards. A heartbeat of the previous day, replayed after the sweep, is accepted and ends a
  lease that a later heartbeat had extended.
\<close>

lemma stale_heartbeat_ends_lease:
  assumes "heartbeat_valid ed hb" and "hm_wf (seen_nonces m)" and "hm_get (seen_nonces m) (hb_nonce hb) = Some t"
    and "unat t + 86400 \<le> unat now" and "k \<in> set (hb_chunk_ids hb)" and "k \<in> held"
    and "\<And>j l. hm_get (leases m) j = Some l \<Longrightarrow> lease_matches hb l" and "new_expires_at hb \<le> now"
  shows "\<not> lease_is_valid (snd (process_heartbeat_upsert ed hb now held (cleanup_nonces now m))) k now"
proof -
  define e where "e = min (new_expires_at hb) (saturating_add now HB_LEASE_DURATION_SECS)"
  have "unat (saturating_sub now HB_LEASE_DURATION_SECS) \<ge> unat t"
    using assms(4) by (simp add: HB_LEASE_DURATION_SECS_def)
  then have "\<not> saturating_sub now HB_LEASE_DURATION_SECS < t" by (simp add: word_less_nat_alt)
  then have "hm_get (seen_nonces (cleanup_nonces now m)) (hb_nonce hb) = None"
    using assms(2,3) by (simp add: cleanup_nonces_def Let_def hm_get_retain)
  then have "leases (snd (process_heartbeat_upsert ed hb now held (cleanup_nonces now m))) =
      snd (upsert_loop hb e held (hb_chunk_ids hb) (leases m) [])"
    using assms(1) by (simp add: process_heartbeat_upsert_def heartbeat_verify_iff e_def Let_def split_beta)
      (simp add: cleanup_nonces_def Let_def)
  moreover have "\<exists>l. hm_get (snd (upsert_loop hb e held (hb_chunk_ids hb) (leases m) [])) k = Some l \<and> renewed_lease hb e l"
    using upsert_loop_ok [of "hb_chunk_ids hb" held "leases m" hb e "[]"] assms(5,6,7) by blast
  moreover have "e \<le> now" using assms(8) by (simp add: e_def min.coboundedI1)
  ultimately show ?thesis by (auto simp: lease_is_valid_def is_lease_valid_def renewed_lease_def)
qed

text \<open>Chunks are reported for repopulation exactly when their lease ended more than the grace period ago.\<close>

lemma get_expired_chunks_exact:
  assumes "hm_wf (leases m)"
  shows "k \<in> set (get_expired_chunks m now) \<longleftrightarrow>
    (\<exists>l. hm_get (leases m) k = Some l \<and> unat (expires_at l) + 7200 < unat now)"
  using assms by (force simp: get_expired_chunks_def hm_wf_get_iff word_less_nat_alt GRACE_PERIOD_SECS_def)

lemma filter_inactive:
  "filter seed_active (map (\<lambda>s. if seed_node_id s = n then s\<lparr>seed_active := False\<rparr> else s) ss) =
     filter (\<lambda>s. seed_node_id s \<noteq> n) (filter seed_active ss)"
  by (induction ss) auto

lemma mark_inactive_active:
  "get_active_seeds (mark_inactive c n m) c' =
     (if c' = c then filter (\<lambda>s. seed_node_id s \<noteq> n) (get_active_seeds m c') else get_active_seeds m c')"
  by (simp only: get_active_seeds_def mark_inactive_def hm_get_modify)
     (cases "hm_get m c"; simp add: filter_inactive del: filter_filter)

lemma orphaned_exact:
  "c \<in> set (get_orphaned_content m) \<longleftrightarrow> hm_get m c \<noteq> None \<and> get_active_seeds m c = []"
proof -
  have "c \<in> set (get_orphaned_content m) \<longleftrightarrow> c \<in> set (map fst m) \<and> \<not> has_active_seeds m c"
    by (force simp: get_orphaned_content_def)
  then show ?thesis by (simp only: hm_contains_alt [symmetric] hm_contains_def has_active_seeds_def not_not)
qed

end
