(* ===== verification/MissingChunk.thy ===== *)
theory MissingChunk
  imports ReturnRoutes
begin

text \<open>
  \<^verbatim>\<open>crates/static-storage/src/gossip.rs\<close>: the report of a missing chunk. Its return route has the layout
  of a chunk request's and is read by the same checks.
\<close>

definition MSG_MISSING_CHUNK_GOSSIP :: u8 where "MSG_MISSING_CHUNK_GOSSIP = 0x09"
definition MAX_GOSSIP_ROUTE_HOPS :: nat where "MAX_GOSSIP_ROUTE_HOPS = 32"

record MissingChunkGossip =
  mcg_content_id :: ContentId
  mcg_chunk_id :: ChunkId
  mcg_timestamp :: u64
  mcg_return_route :: ReturnRoute

definition serialize_gossip :: "MissingChunkGossip \<Rightarrow> bytes" where
  "serialize_gossip g =
     [MSG_MISSING_CHUNK_GOSSIP] @ mcg_content_id g @ mcg_chunk_id g @ to_be64 (mcg_timestamp g) @
     append_return_route (mcg_return_route g)"

definition take_gossip_route :: "bytes \<Rightarrow> nat \<Rightarrow> StorageError + (ReturnRoute \<times> nat)" where
  "take_gossip_route data off =
     rd (take_len data off) (\<lambda>hop_count off.
     fail_if (MAX_GOSSIP_ROUTE_HOPS < hop_count) (InvalidChunkSize MAX_GOSSIP_ROUTE_HOPS hop_count) (
     rd (read_many take_hop48 hop_count data off) (\<lambda>hops off.
     rd (take_array 16 data off) (\<lambda>destination off.
       Inr (\<lparr>rr_hops = hops, rr_destination = destination\<rparr>, off)))))"

definition deserialize_gossip :: "bytes \<Rightarrow> StorageError + MissingChunkGossip" where
  "deserialize_gossip data =
     fail_if (data = []) (InvalidChunkSize 1 0) (
     fail_if (data ! 0 \<noteq> MSG_MISSING_CHUNK_GOSSIP) (InvalidChunkSize (unat MSG_MISSING_CHUNK_GOSSIP) (unat (data ! 0))) (
     rd (take_array 32 data 1) (\<lambda>content_id off.
     rd (take_array 32 data off) (\<lambda>chunk_id off.
     rd (take_u64 data off) (\<lambda>timestamp off.
     rd (take_gossip_route data off) (\<lambda>return_route off.
       Inr \<lparr>mcg_content_id = content_id, mcg_chunk_id = chunk_id, mcg_timestamp = timestamp,
            mcg_return_route = return_route\<rparr>))))))"

interpretation groute: codec append_return_route take_gossip_route route_ok
proof -
  have "take_gossip_route = take_retrieval_route"
    by (simp add: fun_eq_iff take_gossip_route_def take_retrieval_route_def MAX_GOSSIP_ROUTE_HOPS_def
        MAX_RETRIEVAL_ROUTE_HOPS_def)
  then show "codec append_return_route take_gossip_route route_ok"
    using rroute.codec_axioms by simp
qed

lemma gossip_route_bound: "take_gossip_route data off = Inr (rr, off') \<Longrightarrow> length (rr_hops rr) \<le> MAX_GOSSIP_ROUTE_HOPS"
  by (auto simp: take_gossip_route_def rd_Inr_iff not_less dest: length_read_many)

text \<open>A missing-chunk report is read back exactly, whatever padding follows; a body with
  another type byte, an empty one and one that claims more than 32 hops are rejected.\<close>

theorem missing_chunk_roundtrip:
  assumes "length (mcg_content_id g) = 32" and "length (mcg_chunk_id g) = 32" and "route_ok (mcg_return_route g)"
  shows "deserialize_gossip (serialize_gossip g @ padding) = Inr g \<and>
    deserialize_gossip [] = Inl (InvalidChunkSize 1 0) \<and>
    (\<forall>data g'. deserialize_gossip data = Inr g' \<longrightarrow>
       hd data = MSG_MISSING_CHUNK_GOSSIP \<and> length (rr_hops (mcg_return_route g')) \<le> MAX_GOSSIP_ROUTE_HOPS)"
proof (intro conjI allI impI)
  let ?d = "serialize_gossip g @ padding"
  have a: "ahead ?d 1 (mcg_content_id g @ mcg_chunk_id g @ to_be64 (mcg_timestamp g) @
      append_return_route (mcg_return_route g) @ padding)"
    by (simp add: serialize_gossip_def ahead_Cons)
  have "?d \<noteq> []" "?d ! 0 = MSG_MISSING_CHUNK_GOSSIP" by (simp_all add: serialize_gossip_def)
  then show "deserialize_gossip ?d = Inr g"
    unfolding deserialize_gossip_def using a
    by (elim dec_steps groute.dec_step_ahead) (use assms in simp_all)
  show "deserialize_gossip [] = Inl (InvalidChunkSize 1 0)" by (simp add: deserialize_gossip_def)
  fix data g'
  assume d: "deserialize_gossip data = Inr g'"
  then show "hd data = MSG_MISSING_CHUNK_GOSSIP" by (cases data) (simp_all add: deserialize_gossip_def)
  from d obtain off off' where "take_gossip_route data off = Inr (mcg_return_route g', off')"
    by (auto simp: deserialize_gossip_def rd_Inr_iff)
  then show "length (rr_hops (mcg_return_route g')) \<le> MAX_GOSSIP_ROUTE_HOPS" by (rule gossip_route_bound)
qed

theorem missing_chunk_roundtrip_witness:
  "deserialize_gossip (serialize_gossip \<lparr>mcg_content_id = replicate 32 1, mcg_chunk_id = replicate 32 2,
      mcg_timestamp = 7, mcg_return_route = \<lparr>rr_hops = [], rr_destination = replicate 16 3\<rparr>\<rparr> @ [0, 0]) =
   Inr \<lparr>mcg_content_id = replicate 32 1, mcg_chunk_id = replicate 32 2,
      mcg_timestamp = 7, mcg_return_route = \<lparr>rr_hops = [], rr_destination = replicate 16 3\<rparr>\<rparr>"
  by (rule missing_chunk_roundtrip [THEN conjunct1]) (simp_all add: route_ok_def)

end
