(* ===== verification/Repair.thy ===== *)
theory Repair
  imports StorageCore
begin

text \<open>
  \<^verbatim>\<open>crates/static-storage/src/repair.rs\<close>: health checks, repair plans and the repair state. The result:
  for erasure-coded content a plan is made exactly when some shard has too few copies and enough
  shards are left, and then the shards that are left restore the content and its parity.
\<close>

definition MIN_CHUNK_COPIES :: nat where "MIN_CHUNK_COPIES = 3"
definition MAX_CHUNK_COPIES :: nat where "MAX_CHUNK_COPIES = 10"

record ChunkHealth =
  ch_chunk_id :: ChunkId
  copy_count :: nat
  needs_repair :: bool

record ContentHealth =
  health_content_id :: ContentId
  chunk_health :: "ChunkHealth list"
  is_healthy :: bool
  is_recoverable :: bool

definition copies :: "(ChunkId, nat) hashmap \<Rightarrow> ChunkId \<Rightarrow> nat" where
  "copies copy_counts chunk_id = (case hm_get copy_counts chunk_id of None \<Rightarrow> 0 | Some c \<Rightarrow> c)"

text \<open>The loop of \<open>check_content_health\<close> over the chunk ids.\<close>

fun health_loop :: "(ChunkId, nat) hashmap \<Rightarrow> ChunkId list \<Rightarrow> ChunkHealth list \<times> bool \<Rightarrow> ChunkHealth list \<times> bool" where
  "health_loop counts [] (hs, healthy) = (hs, healthy)"
| "health_loop counts (chunk_id # ids) (hs, healthy) =
     (let n = copies counts chunk_id;
          repair = n < MIN_CHUNK_COPIES;
          healthy = (if repair then False else healthy)
      in health_loop counts ids (hs @ [\<lparr>ch_chunk_id = chunk_id, copy_count = n, needs_repair = repair\<rparr>], healthy))"

definition check_content_health :: "ContentId \<Rightarrow> ContentManifest \<Rightarrow> (ChunkId, nat) hashmap \<Rightarrow> ContentHealth" where
  "check_content_health content_id manifest copy_counts =
     (let (hs, healthy) = health_loop copy_counts (chunk_ids manifest) ([], True);
          total_shards = length (filter (\<lambda>h. 0 < copy_count h) hs)
      in \<lparr>health_content_id = content_id, chunk_health = hs, is_healthy = healthy,
          is_recoverable = (manifest_data_shards manifest \<le> total_shards)\<rparr>)"

definition get_chunks_needing_repair :: "ContentHealth \<Rightarrow> ChunkId list" where
  "get_chunks_needing_repair health = map ch_chunk_id (filter needs_repair (chunk_health health))"

definition reconstruct_missing_chunks ::
  "storage_env \<Rightarrow> reed_solomon \<Rightarrow> EncryptedChunk option list \<Rightarrow> nat \<Rightarrow> nat \<Rightarrow> StorageError + EncryptedChunk list" where
  "reconstruct_missing_chunks env rs available_shards data_shards parity_shards =
     erasure_decode env rs available_shards data_shards parity_shards"

definition regenerate_parity_shards ::
  "storage_env \<Rightarrow> reed_solomon \<Rightarrow> EncryptedChunk list \<Rightarrow> nat \<Rightarrow> nat \<Rightarrow> StorageError + EncryptedChunk list" where
  "regenerate_parity_shards env rs data_chunks data_shards parity_shards =
     erasure_encode env rs data_chunks data_shards parity_shards"

record RepairPlan =
  plan_content_id :: ContentId
  chunks_to_reconstruct :: "ChunkId list"
  chunks_to_redistribute :: "ChunkId list"
  target_copies :: nat

definition create_repair_plan :: "ContentHealth \<Rightarrow> ContentManifest \<Rightarrow> RepairPlan option" where
  "create_repair_plan health manifest =
     (if is_healthy health then None
      else if \<not> is_recoverable health then None
      else Some \<lparr>plan_content_id = health_content_id health,
                 chunks_to_reconstruct = get_chunks_needing_repair health,
                 chunks_to_redistribute = chunk_ids manifest, target_copies = MIN_CHUNK_COPIES\<rparr>)"

section \<open>Repair state\<close>

record RepairState =
  active_repairs :: "(ContentId, RepairPlan) hashmap"
  completed_repairs :: "ContentId list"
  failed_repairs :: "ContentId list"

definition RepairState_new :: RepairState where
  "RepairState_new = \<lparr>active_repairs = [], completed_repairs = [], failed_repairs = []\<rparr>"

definition start_repair :: "RepairPlan \<Rightarrow> RepairState \<Rightarrow> RepairState" where
  "start_repair plan s = s\<lparr>active_repairs := hm_insert (plan_content_id plan) plan (active_repairs s)\<rparr>"

definition complete_repair :: "ContentId \<Rightarrow> RepairState \<Rightarrow> RepairState" where
  "complete_repair content_id s =
     s\<lparr>active_repairs := hm_remove content_id (active_repairs s),
       completed_repairs := completed_repairs s @ [content_id]\<rparr>"

definition fail_repair :: "ContentId \<Rightarrow> RepairState \<Rightarrow> RepairState" where
  "fail_repair content_id s =
     s\<lparr>active_repairs := hm_remove content_id (active_repairs s),
       failed_repairs := failed_repairs s @ [content_id]\<rparr>"

definition is_being_repaired :: "RepairState \<Rightarrow> ContentId \<Rightarrow> bool" where
  "is_being_repaired s content_id = hm_contains (active_repairs s) content_id"

definition active_count :: "RepairState \<Rightarrow> nat" where
  "active_count s = hm_len (active_repairs s)"

definition completed_count :: "RepairState \<Rightarrow> nat" where
  "completed_count s = length (completed_repairs s)"

definition failed_count :: "RepairState \<Rightarrow> nat" where
  "failed_count s = length (failed_repairs s)"

section \<open>Plans repair the content\<close>

lemma health_loop_eq:
  "health_loop counts ids (hs, healthy) =
     (hs @ map (\<lambda>k. \<lparr>ch_chunk_id = k, copy_count = copies counts k, needs_repair = copies counts k < MIN_CHUNK_COPIES\<rparr>) ids,
      healthy \<and> (\<forall>k\<in>set ids. MIN_CHUNK_COPIES \<le> copies counts k))"
  by (induction ids arbitrary: hs healthy) (auto simp: Let_def)

lemma check_content_health_eq:
  "check_content_health cid manifest counts =
     \<lparr>health_content_id = cid,
      chunk_health = map (\<lambda>k. \<lparr>ch_chunk_id = k, copy_count = copies counts k, needs_repair = copies counts k < MIN_CHUNK_COPIES\<rparr>) (chunk_ids manifest),
      is_healthy = (\<forall>k\<in>set (chunk_ids manifest). MIN_CHUNK_COPIES \<le> copies counts k),
      is_recoverable = (manifest_data_shards manifest \<le> length (filter (\<lambda>k. 0 < copies counts k) (chunk_ids manifest)))\<rparr>"
  by (simp add: check_content_health_def health_loop_eq Let_def filter_map comp_def)

text \<open>Repair of erasure-coded content whose manifest lists all shards. A plan is made
  exactly when some shard has fewer than \<open>MIN_CHUNK_COPIES\<close> copies and at least as many shards as there
  are data shards have a copy left. The plan names exactly the shards with too few copies; the shards
  that are left reconstruct the original chunks, and these regenerate all shards.\<close>

theorem repair_restores:
  assumes "rs_correct rs k m" and "0 < k" and "length chunks = k" and "0 < n"
    and "\<forall>c\<in>set chunks. ec_id c = blake3 env (ec_data c) \<and> length (ec_data c) = n"
    and "erasure_encode env rs chunks k m = Inr shards"
    and "chunk_ids manifest = map ec_id shards" and "manifest_data_shards manifest = k"
  shows "(create_repair_plan (check_content_health cid manifest counts) manifest = None \<longleftrightarrow>
      (\<forall>i\<in>set (chunk_ids manifest). MIN_CHUNK_COPIES \<le> copies counts i) \<or>
      length (filter (\<lambda>i. 0 < copies counts i) (chunk_ids manifest)) < k) \<and>
    (\<forall>plan. create_repair_plan (check_content_health cid manifest counts) manifest = Some plan \<longrightarrow>
       chunks_to_reconstruct plan = filter (\<lambda>i. copies counts i < MIN_CHUNK_COPIES) (chunk_ids manifest) \<and>
       reconstruct_missing_chunks env rs (keep (map (\<lambda>i. 0 < copies counts i) (chunk_ids manifest)) shards) k m = Inr chunks \<and>
       regenerate_parity_shards env rs chunks k m = Inr shards)"
proof -
  let ?sel = "map (\<lambda>i. 0 < copies counts i) (chunk_ids manifest)"
  obtain shards' where e: "erasure_encode env rs chunks k m = Inr shards'" "length shards' = k + m"
    and dec: "\<And>sel. length sel = k + m \<Longrightarrow> erasure_decode env rs (keep sel shards') k m =
         (if length (filter id sel) < k then Inl (InsufficientShards (length (filter id sel)) k) else Inr chunks)"
    using erasure_any_k [OF assms(1-5)] by blast
  have s: "shards' = shards" using e(1) assms(6) by simp
  have "length ?sel = k + m" using e(2) s assms(7) by simp
  note dec' = dec [OF this, unfolded s]
  have cnt: "length (filter id ?sel) = length (filter (\<lambda>i. 0 < copies counts i) (chunk_ids manifest))"
    by (simp add: filter_map comp_def)
  show ?thesis
    using assms(6,8) dec' cnt
    by (auto simp: create_repair_plan_def check_content_health_eq get_chunks_needing_repair_def filter_map comp_def
        reconstruct_missing_chunks_def regenerate_parity_shards_def not_less not_le)
qed

definition demo_chunk :: EncryptedChunk where
  "demo_chunk = \<lparr>ec_id = replicate 32 5, ec_data = replicate 32 5\<rparr>"

theorem repair_restores_witness:
  "\<exists>shards. erasure_encode demo_storage demo_rs [demo_chunk] 1 2 = Inr shards \<and>
     (\<exists>manifest plan. chunk_ids manifest = map ec_id shards \<and>
        create_repair_plan (check_content_health [] manifest [(replicate 32 5, 1)]) manifest = Some plan)"
proof -
  have c: "\<forall>c\<in>set [demo_chunk]. ec_id c = blake3 demo_storage (ec_data c) \<and> length (ec_data c) = 32"
    by (simp add: demo_chunk_def demo_storage_def)
  obtain shards where e: "erasure_encode demo_storage demo_rs [demo_chunk] 1 2 = Inr shards"
    "length shards = 1 + 2" "take 1 shards = [demo_chunk]"
    using erasure_any_k [OF demo_rs_correct _ _ _ c, of 2] by auto
  obtain manifest :: ContentManifest where m: "chunk_ids manifest = map ec_id shards" "manifest_data_shards manifest = 1"
    using that [of "\<lparr>manifest_content_id = [], encrypted_master_key = [], chunk_ids = map ec_id shards, original_size = 0,
      manifest_data_shards = 1, manifest_parity_shards = 2, manifest_nonce = [], segment_hashes = []\<rparr>"] by simp
  let ?n = "copies [(replicate 32 5, 1)]"
  obtain rest where sh: "shards = demo_chunk # rest" using e(2,3) by (cases shards) auto
  have id: "ec_id demo_chunk = replicate 32 5" by (simp add: demo_chunk_def)
  have "?n (replicate 32 5) = 1" by (simp add: copies_def)
  then have "\<not> (\<forall>i\<in>set (chunk_ids manifest). MIN_CHUNK_COPIES \<le> ?n i)"
    "\<not> length (filter (\<lambda>i. 0 < ?n i) (chunk_ids manifest)) < 1"
    by (simp_all add: m(1) sh id MIN_CHUNK_COPIES_def)
  then have "create_repair_plan (check_content_health [] manifest [(replicate 32 5, 1)]) manifest \<noteq> None"
    using repair_restores [OF demo_rs_correct _ _ _ c e(1) m, of "[]" "[(replicate 32 5, 1)]"] by simp
  with e(1) m(1) show ?thesis by blast
qed

end
