(* ===== verification/Rotation.thy ===== *)
theory Rotation
  imports StorageCore
begin

text \<open>
  \<^verbatim>\<open>crates/static-storage/src/rotation.rs\<close>: which chunks rotate per epoch, the bounded rotation history
  and the cache bookkeeping. The random permutation is an argument. \<open>usize\<close> products do not overflow
  for lists that fit in memory and are exact here.
\<close>

record RotationConfig =
  rot_enabled :: bool
  epoch_duration_secs :: u64
  rotation_percentage :: u8
  enable_caching :: bool
  max_cached_chunks :: nat
  min_lease_remaining_secs :: u64

definition RotationConfig_default :: RotationConfig where
  "RotationConfig_default = \<lparr>rot_enabled = True, epoch_duration_secs = 86400, rotation_percentage = 10,
     enable_caching = True, max_cached_chunks = 100, min_lease_remaining_secs = 3600\<rparr>"

definition MAX_ROTATION_HISTORY :: nat where "MAX_ROTATION_HISTORY = 10000"

record RotationState =
  rotation_history :: "(ChunkId, u64) hashmap"
  cached_chunks :: "(ChunkId, u64) hashmap"
  last_epoch :: u64
  total_rotations :: u64
  total_cached :: u64

definition RotationState_new :: RotationState where
  "RotationState_new = \<lparr>rotation_history = [], cached_chunks = [], last_epoch = 0, total_rotations = 0, total_cached = 0\<rparr>"

definition should_rotate :: "RotationState \<Rightarrow> RotationConfig \<Rightarrow> u64 \<Rightarrow> bool" where
  "should_rotate s config current_time =
     (if \<not> rot_enabled config then False
      else epoch_duration_secs config \<le> saturating_sub current_time (last_epoch s))"

definition record_rotation :: "ChunkId \<Rightarrow> u64 \<Rightarrow> RotationState \<Rightarrow> RotationState" where
  "record_rotation chunk_id current_time s =
     s\<lparr>rotation_history := hm_insert chunk_id current_time (hm_make_room MAX_ROTATION_HISTORY (rotation_history s)),
       total_rotations := total_rotations s + 1\<rparr>"

definition record_cache :: "ChunkId \<Rightarrow> u64 \<Rightarrow> RotationState \<Rightarrow> RotationState" where
  "record_cache chunk_id current_time s =
     s\<lparr>cached_chunks := hm_insert chunk_id current_time (cached_chunks s), total_cached := total_cached s + 1\<rparr>"

definition remove_cache :: "ChunkId \<Rightarrow> RotationState \<Rightarrow> RotationState" where
  "remove_cache chunk_id s = s\<lparr>cached_chunks := hm_remove chunk_id (cached_chunks s)\<rparr>"

definition was_recently_rotated :: "RotationState \<Rightarrow> ChunkId \<Rightarrow> u64 \<Rightarrow> u64 \<Rightarrow> bool" where
  "was_recently_rotated s chunk_id current_time epoch_duration =
     (case hm_get (rotation_history s) chunk_id of
        Some rotation_time \<Rightarrow> saturating_sub current_time rotation_time < epoch_duration
      | None \<Rightarrow> False)"

definition select_chunks_for_rotation ::
  "(ChunkId list \<Rightarrow> ChunkId list) \<Rightarrow> RotationState \<Rightarrow> ChunkId list \<Rightarrow> RotationConfig \<Rightarrow> u64 \<Rightarrow> ChunkId list" where
  "select_chunks_for_rotation shuffle s all_chunks config current_time =
     (let eligible = filter (\<lambda>c. \<not> was_recently_rotated s c current_time (epoch_duration_secs config)) all_chunks;
          eligible = shuffle eligible;
          pct = unat (min (rotation_percentage config) 100);
          n = (length eligible * pct) div 100
      in take n eligible)"

text \<open>\<open>iter().min_by_key(..)\<close>: the first entry with the least key.\<close>

fun min_entry :: "('k \<times> u64) list \<Rightarrow> ('k \<times> u64) option" where
  "min_entry [] = None"
| "min_entry (e # es) =
     (case min_entry es of None \<Rightarrow> Some e | Some f \<Rightarrow> if snd e \<le> snd f then Some e else Some f)"

definition lru_cached_chunk :: "RotationState \<Rightarrow> ChunkId option" where
  "lru_cached_chunk s = map_option fst (min_entry (cached_chunks s))"

record RotationStats =
  rs_total_rotations :: u64
  rs_total_cached :: u64
  rs_active_cached :: nat
  rs_rotation_history_size :: nat

definition rotation_stats :: "RotationState \<Rightarrow> RotationStats" where
  "rotation_stats s = \<lparr>rs_total_rotations = total_rotations s, rs_total_cached = total_cached s,
     rs_active_cached = hm_len (cached_chunks s), rs_rotation_history_size = hm_len (rotation_history s)\<rparr>"

datatype RotationError = NoEligibleChunks | NoPeersAvailable | CapacityExceeded | LeaseTooShort

section \<open>Properties\<close>

inductive rotation_reachable :: "RotationState \<Rightarrow> bool" where
  start: "rotation_reachable RotationState_new"
| rotate: "rotation_reachable s \<Longrightarrow> rotation_reachable (record_rotation c t s)"
| cache: "rotation_reachable s \<Longrightarrow> rotation_reachable (record_cache c t s)"
| uncache: "rotation_reachable s \<Longrightarrow> rotation_reachable (remove_cache c s)"
| epoch: "rotation_reachable s \<Longrightarrow> rotation_reachable (s\<lparr>last_epoch := t\<rparr>)"

lemma rotation_wf:
  "rotation_reachable s \<Longrightarrow> hm_wf (rotation_history s) \<and> hm_wf (cached_chunks s) \<and>
     hm_len (rotation_history s) \<le> MAX_ROTATION_HISTORY"
  by (induction rule: rotation_reachable.induct)
     (auto simp: RotationState_new_def hm_len_def [of "[]"] record_rotation_def record_cache_def remove_cache_def
       MAX_ROTATION_HISTORY_def intro: hm_bounded_insert)

lemma min_entry_least:
  "(min_entry es = None \<longleftrightarrow> es = []) \<and> (\<forall>e. min_entry es = Some e \<longrightarrow> e \<in> set es \<and> (\<forall>f\<in>set es. snd e \<le> snd f))"
proof (induction es)
  case (Cons e es)
  show ?case
  proof (cases "min_entry es")
    case None
    with Cons show ?thesis by simp
  next
    case (Some f)
    with Cons have "f \<in> set es" "\<forall>g\<in>set es. snd f \<le> snd g" by auto
    with Some show ?thesis by (auto intro: order_trans)
  qed
qed simp

text \<open>Rotation. In every reachable state the history stays within its bound and the least
  recently cached chunk is reported for eviction, if any. For every random draw, the chunks selected
  in an epoch are distinct chunks the node holds, none of them rotated within the epoch, and exactly
  the configured share (at most all) of the eligible ones, rounded down.\<close>

theorem rotation_selection:
  assumes "rotation_reachable s" and "\<And>xs. mset (shuffle xs) = mset xs" and "distinct all_chunks"
    and "sel = select_chunks_for_rotation shuffle s all_chunks config now"
    and "eligible = filter (\<lambda>c. \<not> was_recently_rotated s c now (epoch_duration_secs config)) all_chunks"
  shows "hm_len (rotation_history s) \<le> MAX_ROTATION_HISTORY \<and>
    (case lru_cached_chunk s of
       None \<Rightarrow> cached_chunks s = []
     | Some c \<Rightarrow> \<exists>t. hm_get (cached_chunks s) c = Some t \<and> (\<forall>k u. hm_get (cached_chunks s) k = Some u \<longrightarrow> t \<le> u)) \<and>
    distinct sel \<and> set sel \<subseteq> set eligible \<and>
    length sel = length eligible * min (unat (rotation_percentage config)) 100 div 100"
proof -
  have wf: "hm_wf (cached_chunks s)" using rotation_wf [OF assms(1)] by simp
  have lru: "case lru_cached_chunk s of None \<Rightarrow> cached_chunks s = []
     | Some c \<Rightarrow> \<exists>t. hm_get (cached_chunks s) c = Some t \<and> (\<forall>k u. hm_get (cached_chunks s) k = Some u \<longrightarrow> t \<le> u)"
    using min_entry_least [of "cached_chunks s"]
    by (cases "min_entry (cached_chunks s)") (force simp: lru_cached_chunk_def hm_wf_get_iff [OF wf])+
  have m: "mset (shuffle eligible) = mset eligible" by (rule assms(2))
  have sh: "length (shuffle eligible) = length eligible" "set (shuffle eligible) = set eligible"
    "distinct (shuffle eligible)"
    using mset_eq_length [OF m] mset_eq_setD [OF m] mset_eq_imp_distinct_iff [OF m] assms(3,5) by simp_all
  have pct: "unat (min (rotation_percentage config) 100) = min (unat (rotation_percentage config)) 100"
    by (simp add: min_def word_le_nat_alt)
  have sel: "sel = take (length eligible * min (unat (rotation_percentage config)) 100 div 100) (shuffle eligible)"
    by (simp add: assms(4,5) select_chunks_for_rotation_def Let_def pct sh(1) [unfolded assms(5)])
  have "length eligible * min (unat (rotation_percentage config)) 100 \<le> length eligible * 100"
    by (rule mult_le_mono2) simp
  then have "length eligible * min (unat (rotation_percentage config)) 100 div 100 \<le> length eligible"
    by linarith
  then show ?thesis
    using rotation_wf [OF assms(1)] lru sh set_take_subset [of _ "shuffle eligible"]
    by (auto simp: sel)
qed

theorem rotation_selection_witness:
  "length (select_chunks_for_rotation rev (record_rotation [1] 100 RotationState_new) [[1], [2], [3]]
     (RotationConfig_default\<lparr>rotation_percentage := 50\<rparr>) 200) = 1"
proof -
  let ?s = "record_rotation [1] 100 RotationState_new"
  let ?c = "RotationConfig_default\<lparr>rotation_percentage := 50\<rparr>"
  have "rotation_reachable ?s" by (intro rotation_reachable.rotate rotation_reachable.start)
  moreover have "filter (\<lambda>c. \<not> was_recently_rotated ?s c 200 (epoch_duration_secs ?c)) [[1], [2], [3]] = [[2], [3]]"
    by code_simp
  ultimately show ?thesis
    using rotation_selection [of ?s rev "[[1], [2], [3]]", OF _ _ _ refl refl, of ?c 200] by simp
qed

end
