(* ===== verification/HiddenService.thy ===== *)
theory HiddenService
  imports StorageCore
begin

text \<open>
  \<^verbatim>\<open>crates/static-storage/src/hidden_service.rs\<close>: content ids, encrypted manifests and hints.
  \<open>serde_json\<close> is a parameter: a partial writer and reader that invert each other.
\<close>

record Hint =
  hint_content_id :: ContentId
  hint_manifest_chunk_id :: ChunkId
  node_id_ranges :: "(NodeId \<times> NodeId) list"

record EncryptedManifest =
  em_ciphertext :: bytes
  em_nonce :: bytes

record manifest_json =
  manifest_to_vec :: "ContentManifest \<Rightarrow> bytes option"
  manifest_from_slice :: "bytes \<Rightarrow> ContentManifest option"

definition json_correct :: "manifest_json \<Rightarrow> bool" where
  "json_correct js \<longleftrightarrow> (\<forall>m j. manifest_to_vec js m = Some j \<longrightarrow> manifest_from_slice js j = Some m)"

definition content_id_from_public :: "storage_env \<Rightarrow> bytes \<Rightarrow> ContentId" where
  "content_id_from_public env public_key = blake3 env public_key"

definition derive_symmetric_key :: "storage_env \<Rightarrow> bytes \<Rightarrow> bytes" where
  "derive_symmetric_key env public_key = derive (se_hkdf env) public_key (ascii ''static-hidden-service-manifest'')"

definition encrypt_manifest ::
  "storage_env \<Rightarrow> manifest_json \<Rightarrow> bytes \<Rightarrow> ContentManifest \<Rightarrow> bytes \<Rightarrow> StorageError + (EncryptedManifest \<times> ChunkId)" where
  "encrypt_manifest env js rnd manifest content_public_key =
     (case manifest_to_vec js manifest of
        None \<Rightarrow> Inl ManifestSerializationFailed
      | Some plaintext \<Rightarrow>
          (let symmetric_key = derive_symmetric_key env content_public_key;
               nonce = rnd;
               ciphertext = encrypt (se_aead env) symmetric_key nonce plaintext
           in Inr (\<lparr>em_ciphertext = ciphertext, em_nonce = nonce\<rparr>, blake3 env ciphertext)))"

definition decrypt_manifest ::
  "storage_env \<Rightarrow> manifest_json \<Rightarrow> EncryptedManifest \<Rightarrow> bytes \<Rightarrow> StorageError + ContentManifest" where
  "decrypt_manifest env js em content_public_key =
     (let symmetric_key = derive_symmetric_key env content_public_key
      in case decrypt (se_aead env) symmetric_key (em_nonce em) (em_ciphertext em) of
           Inl _ \<Rightarrow> Inl ManifestDecryptionFailed
         | Inr plaintext \<Rightarrow>
             (case manifest_from_slice js plaintext of
                None \<Rightarrow> Inl ManifestDeserializationFailed
              | Some manifest \<Rightarrow> Inr manifest))"

definition create_hint :: "ContentId \<Rightarrow> ChunkId \<Rightarrow> NodeId list \<Rightarrow> Hint" where
  "create_hint content_id manifest_chunk_id storing_node_ids =
     \<lparr>hint_content_id = content_id, hint_manifest_chunk_id = manifest_chunk_id,
      node_id_ranges = map (\<lambda>n. (n, n)) storing_node_ids\<rparr>"

text \<open>Whoever knows the content public key reads the manifest back exactly as it was
  published; the chunk id under which it is stored is the hash of its ciphertext; the only failure
  when publishing is serialization; and a hint names exactly the storing nodes, one range each.\<close>

theorem manifest_roundtrip:
  assumes "aead_correct (se_aead env)" and "json_correct js"
  shows "(case encrypt_manifest env js rnd manifest pk of
       Inl e \<Rightarrow> e = ManifestSerializationFailed \<and> manifest_to_vec js manifest = None
     | Inr (em, chunk_id) \<Rightarrow> decrypt_manifest env js em pk = Inr manifest \<and>
         chunk_id = blake3 env (em_ciphertext em) \<and> em_nonce em = rnd) \<and>
    (\<forall>n. n \<in> set ns \<longleftrightarrow> (n, n) \<in> set (node_id_ranges (create_hint cid c ns)))"
  using assms(2)
  by (auto simp: encrypt_manifest_def decrypt_manifest_def assms(1) json_correct_def create_hint_def Let_def
      split: option.split)

text \<open>A concrete instance: manifests identified by their chunk ids.\<close>

definition demo_manifest :: ContentManifest where
  "demo_manifest = \<lparr>manifest_content_id = [], encrypted_master_key = [], chunk_ids = [[1], [2]], original_size = 3,
     manifest_data_shards = 2, manifest_parity_shards = 1, manifest_nonce = [], segment_hashes = []\<rparr>"

definition demo_js :: manifest_json where
  "demo_js = \<lparr>manifest_to_vec = (\<lambda>m. if m = demo_manifest then Some [9] else None),
     manifest_from_slice = (\<lambda>j. if j = [9] then Some demo_manifest else None)\<rparr>"

theorem manifest_roundtrip_witness:
  "\<exists>em c. encrypt_manifest demo_storage demo_js (replicate 12 1) demo_manifest [3] = Inr (em, c) \<and>
     decrypt_manifest demo_storage demo_js em [3] = Inr demo_manifest"
proof -
  have js: "json_correct demo_js" by (simp add: json_correct_def demo_js_def)
  obtain em c where e: "encrypt_manifest demo_storage demo_js (replicate 12 1) demo_manifest [3] = Inr (em, c)"
    by (simp add: encrypt_manifest_def demo_js_def Let_def)
  with manifest_roundtrip [OF demo_storage_aead js, where rnd = "replicate 12 1" and manifest = demo_manifest and pk = "[3]"]
  show ?thesis by auto
qed

end
