(* ===== verification/Mesh.thy ===== *)
theory Mesh
  imports Prelude F64
begin

text \<open>
  \<^verbatim>\<open>crates/static-mesh/src/lib.rs\<close>: the peer table and the constant-rate cover traffic generator. An
  \<open>Instant\<close> is a number of nanoseconds of the monotonic clock; operations that read it take \<open>now\<close>.
  The random bytes of a node id or a dummy packet are arguments. The results: in every history the
  counters split what was sent into real and cover bytes exactly, and what an observer sees per
  interval does not depend on the real traffic while it stays within the target.
\<close>

section \<open>Peers\<close>

definition DEFAULT_SEND_RATE_BPS :: u64 where "DEFAULT_SEND_RATE_BPS = 100 * 1024"
definition DEFAULT_COVER_INTERVAL_MS :: u64 where "DEFAULT_COVER_INTERVAL_MS = 100"
definition DEFAULT_PEER_TIMEOUT_SECS :: u64 where "DEFAULT_PEER_TIMEOUT_SECS = 300"

datatype BandwidthTier = Low | Standard | High

fun tier_target_rate_bps :: "BandwidthTier \<Rightarrow> u64" where
  "tier_target_rate_bps Low = 50 * 1024"
| "tier_target_rate_bps Standard = 500 * 1024"
| "tier_target_rate_bps High = 5 * 1024 * 1024"

datatype PeerState = Connected | Disconnected | Connecting

record Peer =
  peer_node_id :: NodeId
  peer_address :: bytes
  peer_state :: PeerState
  peer_tier :: BandwidthTier
  peer_last_seen :: nat
  peer_bytes_sent :: u64
  peer_bytes_received :: u64

definition Peer_new :: "nat \<Rightarrow> NodeId \<Rightarrow> bytes \<Rightarrow> BandwidthTier \<Rightarrow> Peer" where
  "Peer_new now node_id address tier = \<lparr>peer_node_id = node_id, peer_address = address, peer_state = Disconnected,
     peer_tier = tier, peer_last_seen = now, peer_bytes_sent = 0, peer_bytes_received = 0\<rparr>"

definition mark_connected :: "nat \<Rightarrow> Peer \<Rightarrow> Peer" where
  "mark_connected now p = p\<lparr>peer_state := Connected, peer_last_seen := now\<rparr>"

definition mark_disconnected :: "Peer \<Rightarrow> Peer" where
  "mark_disconnected p = p\<lparr>peer_state := Disconnected\<rparr>"

definition touch :: "nat \<Rightarrow> Peer \<Rightarrow> Peer" where
  "touch now p = p\<lparr>peer_last_seen := now\<rparr>"

definition is_stale :: "nat \<Rightarrow> Peer \<Rightarrow> nat \<Rightarrow> bool" where
  "is_stale now p timeout \<longleftrightarrow> timeout < now - peer_last_seen p"

definition peer_record_sent :: "nat \<Rightarrow> u64 \<Rightarrow> Peer \<Rightarrow> Peer" where
  "peer_record_sent now n p = touch now (p\<lparr>peer_bytes_sent := peer_bytes_sent p + n\<rparr>)"

definition peer_record_received :: "nat \<Rightarrow> u64 \<Rightarrow> Peer \<Rightarrow> Peer" where
  "peer_record_received now n p = touch now (p\<lparr>peer_bytes_received := peer_bytes_received p + n\<rparr>)"

section \<open>Cover traffic\<close>

record CoverTrafficConfig =
  target_rate_bps :: u64
  interval_ms :: u64
  cover_enabled :: bool
  cover_tier :: BandwidthTier
  use_hybrid :: bool

definition CoverTrafficConfig_default :: CoverTrafficConfig where
  "CoverTrafficConfig_default = \<lparr>target_rate_bps = DEFAULT_SEND_RATE_BPS, interval_ms = DEFAULT_COVER_INTERVAL_MS,
     cover_enabled = True, cover_tier = Standard, use_hybrid = False\<rparr>"

record CoverTrafficGenerator =
  cover_config :: CoverTrafficConfig
  bytes_this_interval :: u64
  real_bytes_this_interval :: u64
  cover_bytes_this_interval :: u64
  total_bytes_sent :: u64
  total_real_bytes_sent :: u64
  total_cover_bytes_sent :: u64
  last_reset :: nat

definition CoverTrafficGenerator_new :: "nat \<Rightarrow> CoverTrafficConfig \<Rightarrow> CoverTrafficGenerator" where
  "CoverTrafficGenerator_new now config = \<lparr>cover_config = config, bytes_this_interval = 0,
     real_bytes_this_interval = 0, cover_bytes_this_interval = 0, total_bytes_sent = 0,
     total_real_bytes_sent = 0, total_cover_bytes_sent = 0, last_reset = now\<rparr>"

definition target_bytes_per_interval :: "CoverTrafficGenerator \<Rightarrow> u64" where
  "target_bytes_per_interval g = (target_rate_bps (cover_config g) * interval_ms (cover_config g)) div 1000"

definition record_real_traffic :: "u64 \<Rightarrow> CoverTrafficGenerator \<Rightarrow> CoverTrafficGenerator" where
  "record_real_traffic n g =
     g\<lparr>bytes_this_interval := bytes_this_interval g + n,
       real_bytes_this_interval := real_bytes_this_interval g + n,
       total_bytes_sent := total_bytes_sent g + n,
       total_real_bytes_sent := total_real_bytes_sent g + n\<rparr>"

definition generate_cover_traffic :: "CoverTrafficGenerator \<Rightarrow> u64 \<times> CoverTrafficGenerator" where
  "generate_cover_traffic g =
     (let target = target_bytes_per_interval g;
          remaining = saturating_sub target (bytes_this_interval g)
      in if 0 < remaining then
           (remaining,
            g\<lparr>bytes_this_interval := bytes_this_interval g + remaining,
              cover_bytes_this_interval := cover_bytes_this_interval g + remaining,
              total_bytes_sent := total_bytes_sent g + remaining,
              total_cover_bytes_sent := total_cover_bytes_sent g + remaining\<rparr>)
         else (0, g))"

definition should_reset_interval :: "nat \<Rightarrow> CoverTrafficGenerator \<Rightarrow> bool" where
  "should_reset_interval now g \<longleftrightarrow> unat (interval_ms (cover_config g)) * 1000000 \<le> now - last_reset g"

definition reset_interval :: "nat \<Rightarrow> CoverTrafficGenerator \<Rightarrow> CoverTrafficGenerator" where
  "reset_interval now g = g\<lparr>bytes_this_interval := 0, real_bytes_this_interval := 0,
     cover_bytes_this_interval := 0, last_reset := now\<rparr>"

record IntervalStats =
  is_target_bytes :: u64
  is_real_bytes :: u64
  is_cover_bytes :: u64
  is_total_bytes :: u64

record TotalStats =
  ts_total_bytes :: u64
  ts_total_real_bytes :: u64
  ts_total_cover_bytes :: u64
  ts_real_ratio :: f64

definition interval_stats :: "CoverTrafficGenerator \<Rightarrow> IntervalStats" where
  "interval_stats g = \<lparr>is_target_bytes = target_bytes_per_interval g, is_real_bytes = real_bytes_this_interval g,
     is_cover_bytes = cover_bytes_this_interval g, is_total_bytes = bytes_this_interval g\<rparr>"

definition total_stats :: "CoverTrafficGenerator \<Rightarrow> TotalStats" where
  "total_stats g = \<lparr>ts_total_bytes = total_bytes_sent g, ts_total_real_bytes = total_real_bytes_sent g,
     ts_total_cover_bytes = total_cover_bytes_sent g,
     ts_real_ratio = (if 0 < total_bytes_sent g
       then Fin (f64_div (f64_of_nat (unat (total_real_bytes_sent g))) (f64_of_nat (unat (total_bytes_sent g))))
       else Fin 0)\<rparr>"

text \<open>\<open>OsRng.fill_bytes\<close> on a buffer of the given size; \<open>rnd\<close> yields the drawn bytes.\<close>

definition generate_dummy_packet :: "(nat \<Rightarrow> u8) \<Rightarrow> nat \<Rightarrow> bytes" where
  "generate_dummy_packet rnd size_b = map rnd [0..<size_b]"

definition update_config :: "CoverTrafficConfig \<Rightarrow> CoverTrafficGenerator \<Rightarrow> CoverTrafficGenerator" where
  "update_config config g = g\<lparr>cover_config := config\<rparr>"

definition cover_is_enabled :: "CoverTrafficGenerator \<Rightarrow> bool" where
  "cover_is_enabled g = cover_enabled (cover_config g)"

section \<open>The mesh node\<close>

record MeshState =
  mesh_node_id :: NodeId
  mesh_peers :: "(NodeId, Peer) hashmap"
  cover_traffic :: CoverTrafficGenerator
  peer_timeout :: nat

datatype MeshError = PeerNotFound | PeerNotConnected | CoverTrafficDisabled

definition with_node_id :: "nat \<Rightarrow> NodeId \<Rightarrow> MeshState" where
  "with_node_id now node_id = \<lparr>mesh_node_id = node_id, mesh_peers = [],
     cover_traffic = CoverTrafficGenerator_new now CoverTrafficConfig_default,
     peer_timeout = unat DEFAULT_PEER_TIMEOUT_SECS * 1000000000\<rparr>"

definition MeshState_new :: "nat \<Rightarrow> bytes \<Rightarrow> MeshState" where
  "MeshState_new now rnd = \<lparr>mesh_node_id = rnd, mesh_peers = [],
     cover_traffic = CoverTrafficGenerator_new now CoverTrafficConfig_default,
     peer_timeout = unat DEFAULT_PEER_TIMEOUT_SECS * 1000000000\<rparr>"

definition add_peer :: "nat \<Rightarrow> NodeId \<Rightarrow> bytes \<Rightarrow> BandwidthTier \<Rightarrow> MeshState \<Rightarrow> MeshState" where
  "add_peer now node_id address tier s = s\<lparr>mesh_peers := hm_insert node_id (Peer_new now node_id address tier) (mesh_peers s)\<rparr>"

definition remove_peer :: "NodeId \<Rightarrow> MeshState \<Rightarrow> MeshState" where
  "remove_peer node_id s = s\<lparr>mesh_peers := hm_remove node_id (mesh_peers s)\<rparr>"

definition get_peer :: "MeshState \<Rightarrow> NodeId \<Rightarrow> Peer option" where
  "get_peer s node_id = hm_get (mesh_peers s) node_id"

definition connected_peers :: "MeshState \<Rightarrow> NodeId list" where
  "connected_peers s = map fst (filter (\<lambda>(_, p). peer_state p = Connected) (mesh_peers s))"

definition prune_stale_peers :: "nat \<Rightarrow> MeshState \<Rightarrow> MeshState" where
  "prune_stale_peers now s =
     (let timeout = peer_timeout s in s\<lparr>mesh_peers := hm_retain (\<lambda>_ peer. \<not> is_stale now peer timeout) (mesh_peers s)\<rparr>)"

definition mesh_record_sent :: "nat \<Rightarrow> NodeId \<Rightarrow> u64 \<Rightarrow> MeshState \<Rightarrow> MeshState" where
  "mesh_record_sent now peer n s =
     s\<lparr>mesh_peers := hm_modify peer (peer_record_sent now n) (mesh_peers s),
       cover_traffic := record_real_traffic n (cover_traffic s)\<rparr>"

definition mesh_record_received :: "nat \<Rightarrow> NodeId \<Rightarrow> u64 \<Rightarrow> MeshState \<Rightarrow> MeshState" where
  "mesh_record_received now peer n s =
     s\<lparr>mesh_peers := hm_modify peer (peer_record_received now n) (mesh_peers s)\<rparr>"

definition peer_count :: "MeshState \<Rightarrow> nat" where
  "peer_count s = hm_len (mesh_peers s)"

definition connected_count :: "MeshState \<Rightarrow> nat" where
  "connected_count s = length (filter (\<lambda>p. peer_state p = Connected) (hm_values (mesh_peers s)))"

section \<open>Constant rate\<close>

inductive cover_reachable :: "CoverTrafficGenerator \<Rightarrow> bool" where
  start: "cover_reachable (CoverTrafficGenerator_new now config)"
| real: "cover_reachable g \<Longrightarrow> cover_reachable (record_real_traffic n g)"
| fill: "cover_reachable g \<Longrightarrow> cover_reachable (snd (generate_cover_traffic g))"
| reset: "cover_reachable g \<Longrightarrow> cover_reachable (reset_interval now g)"
| config: "cover_reachable g \<Longrightarrow> cover_reachable (update_config c g)"

lemma cover_split:
  "cover_reachable g \<Longrightarrow> bytes_this_interval g = real_bytes_this_interval g + cover_bytes_this_interval g \<and>
     total_bytes_sent g = total_real_bytes_sent g + total_cover_bytes_sent g"
  by (induction rule: cover_reachable.induct)
     (auto simp: CoverTrafficGenerator_new_def record_real_traffic_def generate_cover_traffic_def reset_interval_def
       update_config_def Let_def)

text \<open>One interval as the node runs it: reset, then real traffic in any portions, then the fill.\<close>

definition run_interval :: "nat \<Rightarrow> u64 list \<Rightarrow> CoverTrafficGenerator \<Rightarrow> u64 \<times> CoverTrafficGenerator" where
  "run_interval now reals g = generate_cover_traffic (fold record_real_traffic reals (reset_interval now g))"

lemma fold_real:
  "fold record_real_traffic ns g =
     g\<lparr>bytes_this_interval := bytes_this_interval g + sum_list ns,
       real_bytes_this_interval := real_bytes_this_interval g + sum_list ns,
       total_bytes_sent := total_bytes_sent g + sum_list ns,
       total_real_bytes_sent := total_real_bytes_sent g + sum_list ns\<rparr>"
  by (induction ns arbitrary: g) (simp_all add: record_real_traffic_def add.assoc)

text \<open>Cover traffic hides the real traffic. In every reachable state the counters split the
  bytes sent into real and cover bytes. In an interval with any real traffic within the target, the
  bytes on the wire are exactly the target, whatever the real traffic was; beyond the target, cover
  adds nothing. Two runs with different real traffic within the target are indistinguishable by volume.\<close>

theorem cover_constant_rate:
  assumes "cover_reachable g" and "sum_list (map unat reals) < 2 ^ 64" and "run_interval now reals g = (cover, g')"
  shows "bytes_this_interval g = real_bytes_this_interval g + cover_bytes_this_interval g \<and>
    total_bytes_sent g = total_real_bytes_sent g + total_cover_bytes_sent g \<and>
    unat (bytes_this_interval g') = max (unat (target_bytes_per_interval g)) (sum_list (map unat reals)) \<and>
    unat cover = unat (target_bytes_per_interval g) - sum_list (map unat reals) \<and>
    unat (real_bytes_this_interval g') = sum_list (map unat reals) \<and>
    (\<forall>reals'. sum_list (map unat reals) \<le> unat (target_bytes_per_interval g) \<and>
       sum_list (map unat reals') \<le> unat (target_bytes_per_interval g) \<longrightarrow>
       bytes_this_interval (snd (run_interval now reals' g)) = bytes_this_interval g')"
proof -
  have T: "target_bytes_per_interval (fold record_real_traffic ns (reset_interval now g)) = target_bytes_per_interval g" for ns
    by (simp add: fold_real target_bytes_per_interval_def reset_interval_def)
  note T' = T [simplified fold_real reset_interval_def, simplified]
  have lt: "unat (target_bytes_per_interval g) < 2 ^ 64" using unsigned_less [of "target_bytes_per_interval g", where ?'a = nat] by simp
  have run: "unat (bytes_this_interval (snd (run_interval now ns g))) = max (unat (target_bytes_per_interval g)) (sum_list (map unat ns)) \<and>
      unat (fst (run_interval now ns g)) = unat (target_bytes_per_interval g) - sum_list (map unat ns) \<and>
      unat (real_bytes_this_interval (snd (run_interval now ns g))) = sum_list (map unat ns)"
    if "sum_list (map unat ns) < 2 ^ 64" for ns
  proof -
    let ?rem = "saturating_sub (target_bytes_per_interval g) (sum_list ns)"
    have s: "unat (sum_list ns) = sum_list (map unat ns)" by (rule unat_sum_list [OF that])
    have r: "unat ?rem = unat (target_bytes_per_interval g) - sum_list (map unat ns)" by (simp add: s)
    have "unat (sum_list ns + ?rem) = sum_list (map unat ns) + unat ?rem"
      using lt that by (subst unat_add_no_wrap) (simp_all add: s)
    with r s show ?thesis
      by (auto simp: run_interval_def generate_cover_traffic_def T' Let_def fold_real reset_interval_def
          word_less_nat_alt max_def)
  qed
  have "bytes_this_interval (snd (run_interval now reals' g)) = bytes_this_interval g'"
    if "sum_list (map unat reals) \<le> unat (target_bytes_per_interval g)"
      "sum_list (map unat reals') \<le> unat (target_bytes_per_interval g)" for reals'
  proof -
    have "unat (bytes_this_interval (snd (run_interval now reals' g))) = unat (bytes_this_interval g')"
      using run [of reals'] run [OF assms(2)] that lt assms(3) by (simp add: max_def)
    then show ?thesis by (rule unsigned_word_eqI)
  qed
  with cover_split [OF assms(1)] run [OF assms(2)] assms(3) show ?thesis by simp
qed

theorem cover_constant_rate_witness:
  "let g = CoverTrafficGenerator_new 0 CoverTrafficConfig_default
   in unat (fst (run_interval 5 [1000, 240] g)) = 9000"
proof -
  let ?g = "CoverTrafficGenerator_new 0 CoverTrafficConfig_default"
  have t: "unat (target_bytes_per_interval ?g) = 10240"
    by (simp add: target_bytes_per_interval_def CoverTrafficGenerator_new_def CoverTrafficConfig_default_def
        DEFAULT_SEND_RATE_BPS_def DEFAULT_COVER_INTERVAL_MS_def)
  have "sum_list (map unat [1000 :: u64, 240]) = 1240" by simp
  with t cover_constant_rate [where g = ?g and reals = "[1000, 240]" and now = 5, OF cover_reachable.start _ surjective_pairing]
  show ?thesis by (simp add: Let_def)
qed

lemma prune_stale_peers_exact:
  "hm_wf (mesh_peers s) \<Longrightarrow> get_peer (prune_stale_peers now s) k = Some p \<longleftrightarrow>
     get_peer s k = Some p \<and> now - peer_last_seen p \<le> peer_timeout s"
  by (auto simp: prune_stale_peers_def get_peer_def hm_get_retain is_stale_def split: option.splits if_splits)

lemma connected_count_eq: "connected_count s = length (connected_peers s)"
  by (simp add: connected_count_def connected_peers_def hm_values_def filter_map comp_def case_prod_unfold)

end
