(* ===== verification/BoundedFifo.thy ===== *)
theory BoundedFifo
  imports Prelude
begin

text \<open>
  Bounded caches with first-in-first-out eviction. The program keeps several of them, each as a set or
  map together with a \<open>VecDeque\<close> of its keys in insertion order: replay tags and reply sessions of a
  mix node, the nonces of a session, pending retrievals. The abstract cache is the list of its keys,
  oldest first; \<open>fifo_cache\<close> is the contract of an implementation, and its lemmas say how long an
  entry is guaranteed to stay.
\<close>

section \<open>The abstract cache\<close>

definition fifo_push :: "nat \<Rightarrow> 'k \<Rightarrow> 'k list \<Rightarrow> 'k list" where
  "fifo_push cap k ks = (if k \<in> set ks then ks else (if cap \<le> length ks then tl ks else ks) @ [k])"

lemma fifo_push_mem [simp]: "k \<in> set (fifo_push cap k ks)"
  by (simp add: fifo_push_def)

lemma fifo_push_subset: "set (fifo_push cap k ks) \<subseteq> insert k (set ks)"
  by (cases ks) (auto simp: fifo_push_def)

lemma distinct_fifo_push [simp]: "distinct ks \<Longrightarrow> distinct (fifo_push cap k ks)"
  by (cases ks) (auto simp: fifo_push_def)

lemma length_fifo_push [simp]: "0 < cap \<Longrightarrow> length ks \<le> cap \<Longrightarrow> length (fifo_push cap k ks) \<le> cap"
  by (cases ks) (auto simp: fifo_push_def)

lemma fifo_push_keeps:
  assumes "Suc (length b) < cap"
  shows "\<exists>a' b'. fifo_push cap k (a @ x # b) = a' @ x # b' \<and> length b' \<le> Suc (length b)"
proof -
  have "fifo_push cap k (a @ x # b) \<in> {a @ x # b, a @ x # (b @ [k]), tl a @ x # (b @ [k])}"
    using assms by (cases a) (auto simp: fifo_push_def)
  then consider "fifo_push cap k (a @ x # b) = a @ x # b" | "fifo_push cap k (a @ x # b) = a @ x # (b @ [k])"
    | "fifo_push cap k (a @ x # b) = tl a @ x # (b @ [k])" by blast
  then show ?thesis
  proof cases
    case 1
    show ?thesis by (rule exI [of _ a], rule exI [of _ b]) (simp add: 1)
  next
    case 2
    show ?thesis by (rule exI [of _ a], rule exI [of _ "b @ [k]"]) (simp add: 2)
  next
    case 3
    show ?thesis by (rule exI [of _ "tl a"], rule exI [of _ "b @ [k]"]) (simp add: 3)
  qed
qed

lemma fifo_window:
  "length b + length ks < cap \<Longrightarrow>
     \<exists>a' b'. fold (fifo_push cap) ks (a @ x # b) = a' @ x # b' \<and> length b' \<le> length b + length ks"
proof (induction ks arbitrary: a b)
  case (Cons k ks)
  obtain a1 b1 where 1: "fifo_push cap k (a @ x # b) = a1 @ x # b1" "length b1 \<le> Suc (length b)"
    using fifo_push_keeps [of b cap k a x] Cons.prems by auto
  with Cons.IH [of b1 a1] Cons.prems show ?case by fastforce
qed auto

section \<open>Implementations\<close>

locale fifo_cache =
  fixes cap :: nat
    and invar :: "'s \<Rightarrow> bool"
    and keys :: "'s \<Rightarrow> 'k list"
    and has :: "'s \<Rightarrow> 'k \<Rightarrow> bool"
    and add :: "'k \<Rightarrow> 's \<Rightarrow> 's"
  assumes cap_pos: "0 < cap"
    and invar_keys: "invar s \<Longrightarrow> distinct (keys s) \<and> length (keys s) \<le> cap"
    and has_iff: "invar s \<Longrightarrow> has s k \<longleftrightarrow> k \<in> set (keys s)"
    and keys_add: "invar s \<Longrightarrow> keys (add k s) = fifo_push cap k (keys s)"
    and invar_add: "invar s \<Longrightarrow> invar (add k s)"
begin

lemma has_add: "invar s \<Longrightarrow> has (add k s) k"
  by (simp add: has_iff keys_add invar_add)

lemma has_add_only: "invar s \<Longrightarrow> has (add k s) k' \<Longrightarrow> k' = k \<or> has s k'"
  using fifo_push_subset by (fastforce simp: has_iff keys_add invar_add)

lemma invar_fold: "invar s \<Longrightarrow> invar (fold add ks s)"
  by (induction ks arbitrary: s) (simp_all add: invar_add)

lemma keys_fold: "invar s \<Longrightarrow> keys (fold add ks s) = fold (fifo_push cap) ks (keys s)"
  by (induction ks arbitrary: s) (simp_all add: invar_add keys_add)

text \<open>A new entry survives the next \<open>cap - 1\<close> insertions, whatever they are.\<close>

lemma window: "invar s \<Longrightarrow> \<not> has s k \<Longrightarrow> length ks < cap \<Longrightarrow> has (fold add ks (add k s)) k"
proof -
  assume s: "invar s" "\<not> has s k" "length ks < cap"
  define older where "older = (if cap \<le> length (keys s) then tl (keys s) else keys s)"
  have new: "keys (add k s) = older @ k # []"
    using s by (simp add: keys_add has_iff fifo_push_def older_def)
  obtain a b where "fold (fifo_push cap) ks (older @ k # []) = a @ k # b"
    using fifo_window [of "[]" ks cap older k] s(3) by auto
  then have "k \<in> set (fold (fifo_push cap) ks (keys (add k s)))" by (simp only: new) simp
  with s show ?thesis by (simp add: has_iff invar_add invar_fold keys_fold)
qed

end

end
