(* ===== verification/SphinxNode.thy ===== *)
theory SphinxNode
  imports Routing BoundedFifo Fragment
begin

text \<open>
  \<^verbatim>\<open>crates/static-sphinx/src/lib.rs\<close>, first half: the constants and packet types, key derivation, the
  routing MAC, the slot and body stream ciphers, and the mix node with its bounded caches (replay tags,
  reply sessions, session nonces). Curve25519 scalar multiplication, HKDF, keyed blake3, the AEAD and
  ML-KEM are parameters, bundled in \<open>sphinx_env\<close>.
\<close>

unbundle bit_operations_syntax

section \<open>Constants and types\<close>

definition MAX_HOPS :: nat where "MAX_HOPS = 5"
definition NODE_ID_SIZE :: nat where "NODE_ID_SIZE = 16"
definition FLAG_SIZE :: nat where "FLAG_SIZE = 1"
definition MAC_SIZE :: nat where "MAC_SIZE = 16"
definition SESSION_ID_SIZE :: nat where "SESSION_ID_SIZE = 32"
definition MAX_SEEN_TAGS :: nat where "MAX_SEEN_TAGS = 100000"
definition MAX_SESSION_CACHE :: nat where "MAX_SESSION_CACHE = 4096"
definition SESSION_TTL_SECS :: u64 where "SESSION_TTL_SECS = 3600"
definition MAX_SESSION_NONCES :: nat where "MAX_SESSION_NONCES = 2048"
definition SLOT_SIZE :: nat where "SLOT_SIZE = NODE_ID_SIZE + FLAG_SIZE + MAC_SIZE"
definition ROUTING_INFO_SIZE :: nat where "ROUTING_INFO_SIZE = MAX_HOPS * SLOT_SIZE"
definition SPHINX_VERSION_CLASSICAL :: u8 where "SPHINX_VERSION_CLASSICAL = 0"
definition SPHINX_VERSION_HYBRID :: u8 where "SPHINX_VERSION_HYBRID = 1"
definition HYBRID_HOP_CONTEXT :: bytes where "HYBRID_HOP_CONTEXT = ascii ''sphinx/hybrid-hop''"
definition BODY_TAG_SIZE :: nat where "BODY_TAG_SIZE = 16"
definition WIRE_BODY_SIZE :: nat where "WIRE_BODY_SIZE = BODY_SIZE + BODY_TAG_SIZE"
definition BODY_AEAD_CONTEXT :: bytes where "BODY_AEAD_CONTEXT = ascii ''sphinx/body-aead''"
definition BODY_NONCE_CONTEXT :: bytes where "BODY_NONCE_CONTEXT = ascii ''sphinx/body-nonce''"
definition BASE_POINT :: bytes where "BASE_POINT = 9 # replicate 31 0"

lemmas sphinx_sizes = MAX_HOPS_def NODE_ID_SIZE_def FLAG_SIZE_def MAC_SIZE_def SESSION_ID_SIZE_def SLOT_SIZE_def
  ROUTING_INFO_SIZE_def BODY_SIZE_def BODY_TAG_SIZE_def WIRE_BODY_SIZE_def

datatype RoutingFlag = Forward | Destination

datatype SphinxError =
    MacVerificationFailed
  | SphinxReplayDetected
  | InvalidPacketSize
  | InvalidRoutingFlag
  | RouteTooLong
  | BodyTooLarge
  | UnsupportedVersion u8
  | InvalidKemCiphertext
  | InvalidKemPublicKey
  | BodyAuthFailed
  | SessionNotFound
  | SessionExpired

definition RoutingFlag_try_from :: "u8 \<Rightarrow> SphinxError + RoutingFlag" where
  "RoutingFlag_try_from value =
     (if value = 0 then Inr Forward else if value = 1 then Inr Destination else Inl InvalidRoutingFlag)"

definition flag_byte :: "RoutingFlag \<Rightarrow> u8" where
  "flag_byte flag = (case flag of Forward \<Rightarrow> 0 | Destination \<Rightarrow> 1)"

record SphinxHeader =
  sh_version :: u8
  ephemeral_key :: bytes
  sh_session_id :: bytes
  routing_info :: bytes
  sh_mac :: bytes

record SphinxPacket =
  sp_header :: SphinxHeader
  kem_ciphertexts :: bytes
  sp_body :: bytes

record ProcessedPacket =
  pp_next_hop :: NodeId
  pp_flag :: RoutingFlag
  forward_packet :: "SphinxPacket option"
  pp_body :: "bytes option"

record CachedSession =
  cs_next_hop :: NodeId
  cs_body_key :: bytes
  cs_is_final :: bool
  cs_seen_nonces :: "bytes set"
  nonce_order :: "bytes list"
  cs_created_at :: u64

record 'sc MixNode =
  private_key :: 'sc
  mn_public_key :: bytes
  mn_node_id :: NodeId
  seen_tags :: "bytes set"
  seen_order :: "bytes list"
  session_cache :: "(bytes, CachedSession) hashmap"
  session_order :: "bytes list"

section \<open>Parameters\<close>

record 'sc sphinx_env =
  point_mul :: "bytes \<Rightarrow> 'sc \<Rightarrow> bytes"            \<comment> \<open>\<open>MontgomeryPoint * Scalar\<close>\<close>
  scalar_mul :: "'sc \<Rightarrow> 'sc \<Rightarrow> 'sc"                \<comment> \<open>\<open>Scalar * Scalar\<close>\<close>
  scalar_from_bytes :: "bytes \<Rightarrow> 'sc"              \<comment> \<open>\<open>Scalar::from_bytes_mod_order\<close>\<close>
  keyed_hash :: "bytes \<Rightarrow> bytes \<Rightarrow> bytes"          \<comment> \<open>\<open>blake3::keyed_hash\<close>\<close>
  sx_hkdf :: hkdf
  sx_aead :: aead
  sx_kx :: key_exchange

text \<open>The documented laws: multiples of the base point form a group in which scalars act and commute,
  and outputs have their fixed sizes.\<close>

definition curve_correct :: "'sc sphinx_env \<Rightarrow> bool" where
  "curve_correct env \<longleftrightarrow>
     (\<forall>a b. point_mul env (point_mul env BASE_POINT a) b = point_mul env BASE_POINT (scalar_mul env a b)) \<and>
     (\<forall>a b. scalar_mul env a b = scalar_mul env b a)"

definition hashes_sized :: "'sc sphinx_env \<Rightarrow> bool" where
  "hashes_sized env \<longleftrightarrow> (\<forall>salt ikm info. length (sx_hkdf env salt ikm info) = 32) \<and>
     (\<forall>k m. length (keyed_hash env k m) = 32)"

abbreviation KEM_BLOCK_SIZE :: "'sc sphinx_env \<Rightarrow> nat" where
  "KEM_BLOCK_SIZE env \<equiv> MAX_HOPS * KEM_CIPHERTEXT_SIZE (sx_kx env)"

section \<open>Key derivation and MAC\<close>

record HopKeys =
  stream_key :: bytes
  mac_key :: bytes
  body_key :: bytes
  hop_tag :: bytes

definition derive_hop_keys :: "'sc sphinx_env \<Rightarrow> bytes \<Rightarrow> HopKeys" where
  "derive_hop_keys env shared =
     \<lparr>stream_key = derive (sx_hkdf env) shared (ascii ''sphinx/stream''),
      mac_key = derive (sx_hkdf env) shared (ascii ''sphinx/mac''),
      body_key = derive (sx_hkdf env) shared (ascii ''sphinx/body''),
      hop_tag = take MAC_SIZE (derive (sx_hkdf env) shared (ascii ''sphinx/tag''))\<rparr>"

definition compute_mac :: "'sc sphinx_env \<Rightarrow> bytes \<Rightarrow> u8 \<Rightarrow> bytes \<Rightarrow> bytes \<Rightarrow> bytes \<Rightarrow> bytes \<Rightarrow> bytes" where
  "compute_mac env mackey version eph session_id slot body =
     (let derived = derive (sx_hkdf env) mackey (ascii ''sphinx/mac/compute'')
      in take MAC_SIZE (keyed_hash env derived ([version] @ eph @ session_id @ slot @ body)))"

section \<open>Stream ciphers\<close>

definition slot_keystream :: "'sc sphinx_env \<Rightarrow> bytes \<Rightarrow> bytes" where
  "slot_keystream env key =
     (let block1 = derive (sx_hkdf env) key (ascii ''sphinx/slot:0'');
          block2 = derive (sx_hkdf env) key (ascii ''sphinx/slot:1'')
      in block1 @ [block2 ! 0])"

definition xor_bytes :: "bytes \<Rightarrow> bytes \<Rightarrow> bytes" where
  "xor_bytes ks xs = map2 (\<lambda>x k. x XOR k) xs ks"

definition xor_slot :: "'sc sphinx_env \<Rightarrow> bytes \<Rightarrow> bytes \<Rightarrow> bytes" where
  "xor_slot env key slot = xor_bytes (slot_keystream env key) slot"

text \<open>\<open>while keystream.len() < len\<close>. A block is a 32-byte array; that it is not empty is the guard the
  recursion ends by.\<close>

function keystream_loop :: "'sc sphinx_env \<Rightarrow> bytes \<Rightarrow> nat \<Rightarrow> nat \<Rightarrow> bytes \<Rightarrow> bytes" where
  "keystream_loop env key len counter ks =
     (let block = derive (sx_hkdf env) key (ascii ''sphinx/body:'' @ decimal counter)
      in if length ks < len \<and> block \<noteq> [] then keystream_loop env key len (counter + 1) (ks @ block) else ks)"
  by pat_completeness auto
termination
  by (relation "measure (\<lambda>(env, key, len, counter, ks). len - length ks)") (auto simp: diff_less_mono2)

declare keystream_loop.simps [simp del]

definition body_keystream :: "'sc sphinx_env \<Rightarrow> bytes \<Rightarrow> nat \<Rightarrow> bytes" where
  "body_keystream env key len = take len (keystream_loop env key len 0 [])"

definition xor_body :: "'sc sphinx_env \<Rightarrow> bytes \<Rightarrow> bytes \<Rightarrow> bytes" where
  "xor_body env key body = xor_bytes (body_keystream env key (length body)) body"

definition derive_body_aead_key :: "'sc sphinx_env \<Rightarrow> bytes \<Rightarrow> bytes" where
  "derive_body_aead_key env shared = derive (sx_hkdf env) shared BODY_AEAD_CONTEXT"

definition body_aead_nonce :: "'sc sphinx_env \<Rightarrow> bytes \<Rightarrow> bytes" where
  "body_aead_nonce env aead_key = take 12 (derive (sx_hkdf env) aead_key BODY_NONCE_CONTEXT)"

definition aead_encrypt_body :: "'sc sphinx_env \<Rightarrow> bytes \<Rightarrow> bytes \<Rightarrow> NodeId \<Rightarrow> bytes" where
  "aead_encrypt_body env aead_key plaintext_padded aad_destination =
     encrypt_aad (sx_aead env) aead_key (body_aead_nonce env aead_key) plaintext_padded aad_destination"

definition aead_decrypt_body :: "'sc sphinx_env \<Rightarrow> bytes \<Rightarrow> bytes \<Rightarrow> NodeId \<Rightarrow> SphinxError + bytes" where
  "aead_decrypt_body env aead_key wire_body aad_destination =
     (if length wire_body \<noteq> WIRE_BODY_SIZE then Inl InvalidPacketSize
      else (case decrypt_aad (sx_aead env) aead_key (body_aead_nonce env aead_key) wire_body aad_destination of
              Inl _ \<Rightarrow> Inl BodyAuthFailed | Inr p \<Rightarrow> Inr p))"

definition blinding_factor :: "'sc sphinx_env \<Rightarrow> bytes \<Rightarrow> 'sc" where
  "blinding_factor env shared = scalar_from_bytes env (derive (sx_hkdf env) shared (ascii ''sphinx/blind''))"

definition pad_body :: "bytes \<Rightarrow> bytes" where
  "pad_body body = body @ replicate (BODY_SIZE - length body) 0"

section \<open>The mix node\<close>

definition from_private_key :: "'sc sphinx_env \<Rightarrow> bytes \<Rightarrow> NodeId \<Rightarrow> 'sc MixNode" where
  "from_private_key env private_key_bytes node_id =
     (let k = scalar_from_bytes env private_key_bytes
      in \<lparr>private_key = k, mn_public_key = point_mul env BASE_POINT k, mn_node_id = node_id,
          seen_tags = {}, seen_order = [], session_cache = [], session_order = []\<rparr>)"

definition seen_count :: "'sc MixNode \<Rightarrow> nat" where
  "seen_count node = card (seen_tags node)"

definition insert_seen_tag :: "bytes \<Rightarrow> 'sc MixNode \<Rightarrow> 'sc MixNode" where
  "insert_seen_tag tag node =
     (if tag \<in> seen_tags node then node
      else let node = (if MAX_SEEN_TAGS \<le> card (seen_tags node) then
                         (case seen_order node of
                            [] \<Rightarrow> node
                          | oldest # rest \<Rightarrow> node\<lparr>seen_order := rest, seen_tags := seen_tags node - {oldest}\<rparr>)
                       else node)
           in node\<lparr>seen_tags := insert tag (seen_tags node), seen_order := seen_order node @ [tag]\<rparr>)"

definition record_nonce :: "bytes \<Rightarrow> CachedSession \<Rightarrow> CachedSession" where
  "record_nonce nonce s =
     (if nonce \<in> cs_seen_nonces s then s
      else let s = (if MAX_SESSION_NONCES \<le> card (cs_seen_nonces s) then
                      (case nonce_order s of
                         [] \<Rightarrow> s
                       | oldest # rest \<Rightarrow> s\<lparr>nonce_order := rest, cs_seen_nonces := cs_seen_nonces s - {oldest}\<rparr>)
                    else s)
           in s\<lparr>cs_seen_nonces := insert nonce (cs_seen_nonces s), nonce_order := nonce_order s @ [nonce]\<rparr>)"

definition insert_session :: "bytes \<Rightarrow> CachedSession \<Rightarrow> 'sc MixNode \<Rightarrow> 'sc MixNode" where
  "insert_session session_id session node =
     (if hm_contains (session_cache node) session_id
      then node\<lparr>session_cache := hm_insert session_id session (session_cache node)\<rparr>
      else let node = (if MAX_SESSION_CACHE \<le> hm_len (session_cache node) then
                         (case session_order node of
                            [] \<Rightarrow> node
                          | oldest # rest \<Rightarrow>
                              node\<lparr>session_order := rest, session_cache := hm_remove oldest (session_cache node)\<rparr>)
                       else node)
           in node\<lparr>session_cache := hm_insert session_id session (session_cache node),
                   session_order := session_order node @ [session_id]\<rparr>)"

definition clean_expired_sessions :: "u64 \<Rightarrow> 'sc MixNode \<Rightarrow> 'sc MixNode" where
  "clean_expired_sessions current_time node =
     (let cache = hm_retain (\<lambda>_ s. saturating_sub current_time (cs_created_at s) < SESSION_TTL_SECS) (session_cache node)
      in node\<lparr>session_cache := cache, session_order := filter (hm_contains cache) (session_order node)\<rparr>)"

section \<open>The ciphers are involutions\<close>

lemma length_xor_bytes [simp]: "length (xor_bytes ks xs) = min (length xs) (length ks)"
  by (simp add: xor_bytes_def)

lemma xor_bytes_twice [simp]: "length xs \<le> length ks \<Longrightarrow> xor_bytes ks (xor_bytes ks xs) = xs"
  by (rule nth_equalityI) (simp_all add: xor_bytes_def xor.assoc)

lemma xor_bytes_commute: "xor_bytes a (xor_bytes b xs) = xor_bytes b (xor_bytes a xs)"
  by (rule nth_equalityI) (simp_all add: xor_bytes_def ac_simps)

lemma length_derive [simp]: "hashes_sized env \<Longrightarrow> length (derive (sx_hkdf env) key c) = 32"
  by (simp add: hashes_sized_def derive_def)

lemma length_slot_keystream [simp]: "hashes_sized env \<Longrightarrow> length (slot_keystream env key) = SLOT_SIZE"
  by (simp add: slot_keystream_def sphinx_sizes)

lemma length_compute_mac [simp]: "hashes_sized env \<Longrightarrow> length (compute_mac env k v e sid slot b) = MAC_SIZE"
  by (simp add: compute_mac_def hashes_sized_def sphinx_sizes)

lemma xor_slot_twice [simp]:
  "hashes_sized env \<Longrightarrow> length slot = SLOT_SIZE \<Longrightarrow> xor_slot env key (xor_slot env key slot) = slot"
  by (simp add: xor_slot_def)

lemma length_xor_slot [simp]: "hashes_sized env \<Longrightarrow> length (xor_slot env key slot) = min (length slot) SLOT_SIZE"
  by (simp add: xor_slot_def)

text \<open>The keystream loop draws exactly as many blocks as the length needs.\<close>

lemma blocks_needed: "0 < d \<Longrightarrow> (d + 31) div 32 = Suc ((d - 32 + 31) div (32 :: nat))"
  by (cases "d < 32") (simp_all add: le_div_geq)

lemma keystream_loop_blocks:
  assumes "hashes_sized env"
  shows "keystream_loop env key len c ks =
    ks @ concat (map (\<lambda>i. derive (sx_hkdf env) key (ascii ''sphinx/body:'' @ decimal i)) [c..<c + (len - length ks + 31) div 32])"
proof (induction "len - length ks" arbitrary: c ks rule: less_induct)
  case less
  let ?b = "\<lambda>i. derive (sx_hkdf env) key (ascii ''sphinx/body:'' @ decimal i)"
  have b: "length (?b i) = 32" "?b i \<noteq> []" for i
    using length_derive [OF assms, of key] by (simp, metis length_0_conv zero_neq_numeral)
  show ?case
  proof (cases "length ks < len")
    case True
    then have n: "(len - length ks + 31) div 32 = Suc ((len - length (ks @ ?b c) + 31) div 32)"
      using blocks_needed [of "len - length ks"] by (simp only: b(1) length_append diff_diff_left [symmetric] zero_less_diff)
    have "keystream_loop env key len c ks = keystream_loop env key len (Suc c) (ks @ ?b c)"
      using True b by (subst keystream_loop.simps) simp
    also have "\<dots> = ks @ ?b c @ concat (map ?b [Suc c..<Suc c + (len - length (ks @ ?b c) + 31) div 32])"
      using less [of "ks @ ?b c" "Suc c"] True b by simp
    also have "\<dots> = ks @ concat (map ?b [c..<c + (len - length ks + 31) div 32])"
      unfolding n by (simp add: upt_conv_Cons)
    finally show ?thesis .
  next
    case False
    then show ?thesis by (subst keystream_loop.simps) simp
  qed
qed

lemma length_body_keystream [simp]: "hashes_sized env \<Longrightarrow> length (body_keystream env key len) = len"
proof -
  assume h: "hashes_sized env"
  have "length (concat (map f [0..<n])) = 32 * n" if "\<And>i. length (f i) = 32" for f :: "nat \<Rightarrow> bytes" and n
    using that by (induction n) simp_all
  note this [of "\<lambda>i. derive (sx_hkdf env) key (ascii ''sphinx/body:'' @ decimal i)", OF length_derive [OF h]]
  moreover have "len \<le> 32 * ((len + 31) div 32)" by simp
  ultimately show ?thesis by (simp add: body_keystream_def keystream_loop_blocks [OF h])
qed

lemma length_xor_body [simp]: "hashes_sized env \<Longrightarrow> length (xor_body env key body) = length body"
  by (simp add: xor_body_def)

lemma xor_body_twice [simp]: "hashes_sized env \<Longrightarrow> xor_body env key (xor_body env key body) = body"
  by (simp add: xor_body_def)

lemma aead_body_roundtrip [simp]:
  "aead_correct (sx_aead env) \<Longrightarrow> length p = BODY_SIZE \<Longrightarrow>
     aead_decrypt_body env k (aead_encrypt_body env k p dest) dest = Inr p"
  by (simp add: aead_decrypt_body_def aead_encrypt_body_def decrypt_aad_def encrypt_aad_def aead_correct_def sphinx_sizes)

lemma length_aead_encrypt_body [simp]:
  "aead_correct (sx_aead env) \<Longrightarrow> length p = BODY_SIZE \<Longrightarrow> length (aead_encrypt_body env k p dest) = WIRE_BODY_SIZE"
  by (simp add: aead_encrypt_body_def encrypt_aad_def aead_correct_def sphinx_sizes)

lemma length_pad_body [simp]: "length b \<le> BODY_SIZE \<Longrightarrow> length (pad_body b) = BODY_SIZE"
  by (simp add: pad_body_def)

section \<open>The caches\<close>

definition tags_wf :: "'sc MixNode \<Rightarrow> bool" where
  "tags_wf node \<longleftrightarrow> seen_tags node = set (seen_order node) \<and> distinct (seen_order node) \<and>
     length (seen_order node) \<le> MAX_SEEN_TAGS"

definition nonces_wf :: "CachedSession \<Rightarrow> bool" where
  "nonces_wf s \<longleftrightarrow> cs_seen_nonces s = set (nonce_order s) \<and> distinct (nonce_order s) \<and>
     length (nonce_order s) \<le> MAX_SESSION_NONCES"

definition sessions_wf :: "'sc MixNode \<Rightarrow> bool" where
  "sessions_wf node \<longleftrightarrow> hm_wf (session_cache node) \<and> mset (hm_keys (session_cache node)) = mset (session_order node) \<and>
     length (session_order node) \<le> MAX_SESSION_CACHE"

interpretation tags: fifo_cache MAX_SEEN_TAGS tags_wf seen_order "\<lambda>node tag. tag \<in> seen_tags node" insert_seen_tag
proof unfold_locales
  fix node :: "'sc MixNode" and k
  assume wf: "tags_wf node"
  show "seen_order (insert_seen_tag k node) = fifo_push MAX_SEEN_TAGS k (seen_order node)"
    using wf by (cases "seen_order node")
      (auto simp: insert_seen_tag_def fifo_push_def tags_wf_def distinct_card Let_def)
  show "tags_wf (insert_seen_tag k node)"
    using wf by (cases "seen_order node")
      (auto simp: insert_seen_tag_def tags_wf_def distinct_card MAX_SEEN_TAGS_def Let_def)
qed (auto simp: tags_wf_def MAX_SEEN_TAGS_def)

interpretation nonces: fifo_cache MAX_SESSION_NONCES nonces_wf nonce_order "\<lambda>s n. n \<in> cs_seen_nonces s" record_nonce
proof unfold_locales
  fix s :: CachedSession and k
  assume wf: "nonces_wf s"
  show "nonce_order (record_nonce k s) = fifo_push MAX_SESSION_NONCES k (nonce_order s)"
    using wf by (cases "nonce_order s")
      (auto simp: record_nonce_def fifo_push_def nonces_wf_def distinct_card Let_def)
  show "nonces_wf (record_nonce k s)"
    using wf by (cases "nonce_order s")
      (auto simp: record_nonce_def nonces_wf_def distinct_card MAX_SESSION_NONCES_def Let_def)
qed (auto simp: nonces_wf_def MAX_SESSION_NONCES_def)

lemma sessions_wfD:
  assumes "sessions_wf node"
  shows "hm_wf (session_cache node)" "distinct (session_order node)" "set (session_order node) = set (hm_keys (session_cache node))"
    "hm_len (session_cache node) = length (session_order node)" "length (session_order node) \<le> MAX_SESSION_CACHE"
  using assms mset_eq_length [of "hm_keys (session_cache node)" "session_order node"]
    mset_eq_imp_distinct_iff [of "hm_keys (session_cache node)" "session_order node"]
    mset_eq_setD [of "hm_keys (session_cache node)" "session_order node"]
  by (simp_all add: sessions_wf_def hm_wf_def hm_keys_def hm_len_def)

lemma hm_contains_keys: "hm_contains m k \<longleftrightarrow> k \<in> set (hm_keys m)"
  by (simp add: hm_contains_alt hm_keys_def)

lemma keys_hm_insert_new: "\<not> hm_contains m k \<Longrightarrow> hm_keys (hm_insert k v m) = hm_keys m @ [k]"
  by (simp add: hm_keys_def hm_insert_def update_keys hm_contains_alt)

lemma keys_hm_insert_old: "hm_contains m k \<Longrightarrow> hm_keys (hm_insert k v m) = hm_keys m"
  by (simp add: hm_keys_def hm_insert_def update_keys hm_contains_alt)

lemma keys_hm_remove: "hm_keys (hm_remove k m) = removeAll k (hm_keys m)"
  by (simp add: hm_keys_def hm_remove_def delete_keys)

interpretation sessions: fifo_cache MAX_SESSION_CACHE sessions_wf session_order
    "\<lambda>node sid. hm_contains (session_cache node) sid" "\<lambda>sid. insert_session sid (session sid)" for session
proof unfold_locales
  fix node :: "'sc MixNode" and k
  assume wf: "sessions_wf node"
  note d = sessions_wfD [OF wf]
  show "session_order (insert_session k (session k) node) = fifo_push MAX_SESSION_CACHE k (session_order node)"
    using d by (cases "session_order node")
      (auto simp: insert_session_def fifo_push_def hm_contains_keys Let_def)
  show "sessions_wf (insert_session k (session k) node)"
  proof (cases "hm_contains (session_cache node) k")
    case True
    with wf show ?thesis by (simp add: insert_session_def sessions_wf_def keys_hm_insert_old)
  next
    case False
    show ?thesis
    proof (cases "MAX_SESSION_CACHE \<le> hm_len (session_cache node)")
      case True
      then obtain x xs where o: "session_order node = x # xs"
        using d(4) by (cases "session_order node") (simp_all add: MAX_SESSION_CACHE_def)
      have "mset (removeAll x (hm_keys (session_cache node))) = mset xs"
        using wf o d(2) by (simp add: sessions_wf_def hm_wf_def hm_keys_def distinct_remove1_removeAll [symmetric])
      moreover have "\<not> hm_contains (hm_remove x (session_cache node)) k"
        using False by (simp add: hm_contains_def)
      ultimately show ?thesis
        using True False o d wf
        by (simp add: insert_session_def sessions_wf_def keys_hm_insert_new keys_hm_remove hm_wf_remove)
    next
      case small: False
      with False d wf show ?thesis
        by (simp add: insert_session_def sessions_wf_def keys_hm_insert_new)
    qed
  qed
qed (use sessions_wfD in \<open>auto simp: hm_contains_keys MAX_SESSION_CACHE_def\<close>)

lemma sessions_wf_clean [wf_intros]: "sessions_wf node \<Longrightarrow> sessions_wf (clean_expired_sessions t node)"
proof -
  assume wf: "sessions_wf node"
  note d = sessions_wfD [OF wf]
  let ?P = "\<lambda>_ s. saturating_sub t (cs_created_at s) < SESSION_TTL_SECS"
  let ?c = "hm_retain ?P (session_cache node)"
  have w: "hm_wf ?c" using d(1) by (rule hm_wf_retain)
  have "set (hm_keys ?c) = set (filter (hm_contains ?c) (session_order node))"
    using d(3) by (auto simp: hm_contains_keys hm_keys_def hm_retain_def)
  then have "mset (hm_keys ?c) = mset (filter (hm_contains ?c) (session_order node))"
    using w d(2) by (subst (asm) set_eq_iff_mset_eq_distinct) (simp_all add: hm_wf_def hm_keys_def)
  moreover have "length (filter (hm_contains ?c) (session_order node)) \<le> MAX_SESSION_CACHE"
    using d(5) length_filter_le [of "hm_contains ?c" "session_order node"] by linarith
  ultimately show ?thesis
    using w by (simp add: clean_expired_sessions_def sessions_wf_def Let_def)
qed

end
