(* ===== verification/Sphinx.thy ===== *)
theory Sphinx
  imports SphinxNode
begin

text \<open>
  \<^verbatim>\<open>crates/static-sphinx/src/lib.rs\<close>, second half: building classical and hybrid packets, processing
  them at a mix node, session replies. The theorems follow a packet along its route: every hop learns
  only its successor, sizes never change, and the last hop decrypts exactly the payload.
\<close>

section \<open>Building packets\<close>

text \<open>What \<open>OsRng\<close> draws while a packet is built: the session id, the ephemeral scalar, the padding of
  the routing information, one encapsulation seed per hop and the padding of the KEM block.\<close>

record 'sc PacketRandom =
  pr_session_id :: bytes
  pr_scalar :: 'sc
  pr_pad :: bytes
  pr_kem :: "nat \<Rightarrow> bytes"
  pr_kem_pad :: bytes

text \<open>The running-scalar loop: per hop the shared secret and the ephemeral key the hop will see.\<close>

fun hop_secrets :: "'sc sphinx_env \<Rightarrow> bytes list \<Rightarrow> bytes \<Rightarrow> 'sc \<Rightarrow> (bytes \<times> bytes) list" where
  "hop_secrets env [] current_alpha current_scalar = []"
| "hop_secrets env (pub_point # pubs) current_alpha current_scalar =
     (let shared = point_mul env pub_point current_scalar;
          blind = blinding_factor env shared
      in (shared, current_alpha) #
         hop_secrets env pubs (point_mul env current_alpha blind) (scalar_mul env current_scalar blind))"

text \<open>\<open>body_seen[i] = inner XOR keys[n-1] ... XOR keys[i]\<close>, innermost first.\<close>

fun body_seen :: "'sc sphinx_env \<Rightarrow> bytes list \<Rightarrow> bytes \<Rightarrow> bytes list" where
  "body_seen env [] inner = []"
| "body_seen env (key # keys) inner =
     (let below = body_seen env keys inner;
          buf = (case below of [] \<Rightarrow> inner | b # _ \<Rightarrow> b)
      in xor_body env key buf # below)"

text \<open>Routing blocks and MACs, last hop first. A hop is its keys, its ephemeral key, the body its MAC
  covers and its node id.\<close>

type_synonym hop_input = "HopKeys \<times> bytes \<times> bytes \<times> NodeId"

definition seal_slot :: "'sc sphinx_env \<Rightarrow> u8 \<Rightarrow> bytes \<Rightarrow> hop_input \<Rightarrow> bytes \<Rightarrow> bytes \<times> bytes" where
  "seal_slot env version session_id = (\<lambda>(keys, alpha, body, _) block.
     let enc_block = xor_slot env (stream_key keys) block
     in (enc_block, compute_mac env (mac_key keys) version alpha session_id enc_block body))"

fun seal_slots :: "'sc sphinx_env \<Rightarrow> u8 \<Rightarrow> bytes \<Rightarrow> NodeId \<Rightarrow> hop_input list \<Rightarrow> (bytes \<times> bytes) list" where
  "seal_slots env version session_id destination [] = []"
| "seal_slots env version session_id destination [hop] =
     [seal_slot env version session_id hop (destination @ [flag_byte Destination] @ replicate MAC_SIZE 0)]"
| "seal_slots env version session_id destination (hop # next # hops) =
     (let rest = seal_slots env version session_id destination (next # hops);
          next_id = snd (snd (snd next))
      in seal_slot env version session_id hop (next_id @ [flag_byte Forward] @ snd (hd rest)) # rest)"

definition build_header :: "'sc sphinx_env \<Rightarrow> u8 \<Rightarrow> bytes \<Rightarrow> NodeId \<Rightarrow> hop_input list \<Rightarrow> bytes \<Rightarrow> SphinxHeader" where
  "build_header env version session_id destination hops pad =
     (let slots = seal_slots env version session_id destination hops
      in \<lparr>sh_version = version, ephemeral_key = fst (snd (hd hops)), sh_session_id = session_id,
          routing_info = concat (map fst slots) @ pad, sh_mac = snd (hd slots)\<rparr>)"

definition hop_inputs :: "'sc sphinx_env \<Rightarrow> (bytes \<times> bytes) list \<Rightarrow> bytes list \<Rightarrow> NodeId list \<Rightarrow> hop_input list" where
  "hop_inputs env secrets bodies ids =
     map (\<lambda>((shared, alpha), body, node_id). (derive_hop_keys env shared, alpha, body, node_id)) (zip secrets (zip bodies ids))"

definition create_packet :: "'sc sphinx_env \<Rightarrow> 'sc PacketRandom \<Rightarrow> Route \<Rightarrow> bytes \<Rightarrow> SphinxError + SphinxPacket" where
  "create_packet env rnd route body =
     (let n = length (route_hops route) in
      if n = 0 \<or> MAX_HOPS < n then Inl RouteTooLong
      else if BODY_SIZE < length body then Inl BodyTooLarge
      else
        let ephemeral_pub = point_mul env BASE_POINT (pr_scalar rnd);
            secrets = hop_secrets env (map rh_public_key (route_hops route)) ephemeral_pub (pr_scalar rnd);
            inner_aead = derive_body_aead_key env (fst (last secrets));
            inner = aead_encrypt_body env inner_aead (pad_body body) (route_destination route);
            bodies = body_seen env (map (\<lambda>(shared, _). body_key (derive_hop_keys env shared)) secrets) inner;
            hops = hop_inputs env secrets bodies (map rh_node_id (route_hops route))
        in Inr \<lparr>sp_header = build_header env SPHINX_VERSION_CLASSICAL (pr_session_id rnd) (route_destination route) hops (pr_pad rnd),
                kem_ciphertexts = [], sp_body = hd bodies\<rparr>)"

fun hybrid_secrets ::
  "'sc sphinx_env \<Rightarrow> (nat \<Rightarrow> bytes) \<Rightarrow> nat \<Rightarrow> HybridRouteHop list \<Rightarrow> bytes \<Rightarrow> 'sc \<Rightarrow>
     SphinxError + ((bytes \<times> bytes) \<times> bytes) list" where
  "hybrid_secrets env kem_rnd i [] current_alpha current_scalar = Inr []"
| "hybrid_secrets env kem_rnd i (hop # hops) current_alpha current_scalar =
     (let classical_shared = point_mul env (hh_classical_public_key hop) current_scalar in
      case encapsulate_to (sx_kx env) (kem_rnd i) (hh_kem_public_key hop) of
        Inl _ \<Rightarrow> Inl InvalidKemPublicKey
      | Inr (kem_shared, ciphertext) \<Rightarrow>
          let hybrid_shared = derive_hybrid_shared_secret (sx_hkdf env) classical_shared kem_shared HYBRID_HOP_CONTEXT;
              blind = blinding_factor env hybrid_shared
          in (case hybrid_secrets env kem_rnd (i + 1) hops (point_mul env current_alpha blind)
                     (scalar_mul env current_scalar blind) of
                Inl e \<Rightarrow> Inl e
              | Inr rest \<Rightarrow> Inr (((hybrid_shared, current_alpha), ciphertext) # rest)))"

definition create_packet_hybrid ::
  "'sc sphinx_env \<Rightarrow> 'sc PacketRandom \<Rightarrow> HybridRoute \<Rightarrow> bytes \<Rightarrow> SphinxError + SphinxPacket" where
  "create_packet_hybrid env rnd route body =
     (let n = length (hybrid_hops route) in
      if n = 0 \<or> MAX_HOPS < n then Inl RouteTooLong
      else if BODY_SIZE < length body then Inl BodyTooLarge
      else if \<exists>hop\<in>set (hybrid_hops route). length (hh_kem_public_key hop) \<noteq> KEM_PUBLIC_KEY_SIZE (sx_kx env)
        then Inl InvalidKemPublicKey
      else
        let ephemeral_pub = point_mul env BASE_POINT (pr_scalar rnd) in
        case hybrid_secrets env (pr_kem rnd) 0 (hybrid_hops route) ephemeral_pub (pr_scalar rnd) of
          Inl e \<Rightarrow> Inl e
        | Inr hybrid \<Rightarrow>
            let secrets = map fst hybrid;
                kem_block = concat (map snd hybrid) @ pr_kem_pad rnd;
                inner_aead = derive_body_aead_key env (fst (last secrets));
                inner = aead_encrypt_body env inner_aead (pad_body body) (hybrid_destination route);
                bodies = body_seen env (map (\<lambda>(shared, _). body_key (derive_hop_keys env shared)) secrets) inner;
                hops = hop_inputs env secrets bodies (map hh_node_id (hybrid_hops route))
            in Inr \<lparr>sp_header = build_header env SPHINX_VERSION_HYBRID (pr_session_id rnd) (hybrid_destination route) hops (pr_pad rnd),
                    kem_ciphertexts = kem_block, sp_body = hd bodies\<rparr>)"

section \<open>Processing packets\<close>

text \<open>The part of \<open>process_packet\<close> and \<open>process_packet_hybrid_with_keys\<close> after the shared secret is known.
  The node is returned as it stands at each return: the tag is recorded before the flag is parsed, the
  session before the body is authenticated.\<close>

definition peel_hop ::
  "'sc sphinx_env \<Rightarrow> u64 \<Rightarrow> bytes \<Rightarrow> bytes \<Rightarrow> bytes \<Rightarrow> 'sc MixNode \<Rightarrow> SphinxPacket \<Rightarrow>
     (SphinxError + ProcessedPacket) \<times> 'sc MixNode" where
  "peel_hop env now slot_pad new_kem shared node packet =
     (let header = sp_header packet;
          keys = derive_hop_keys env shared;
          first_slot = take SLOT_SIZE (routing_info header);
          mac_of = (\<lambda>body. compute_mac env (mac_key keys) (sh_version header) (ephemeral_key header)
                      (sh_session_id header) first_slot body);
          matched_surb = (sh_mac header \<noteq> mac_of (sp_body packet))
      in
      if matched_surb \<and> sh_mac header \<noteq> mac_of (replicate WIRE_BODY_SIZE 0) then (Inl MacVerificationFailed, node)
      else if hop_tag keys \<in> seen_tags node then (Inl SphinxReplayDetected, node)
      else
        let node = insert_seen_tag (hop_tag keys) node;
            block = xor_slot env (stream_key keys) first_slot;
            next_hop = take NODE_ID_SIZE block
        in case RoutingFlag_try_from (block ! NODE_ID_SIZE) of
             Inl e \<Rightarrow> (Inl e, node)
           | Inr flag \<Rightarrow>
               let next_mac = drop (NODE_ID_SIZE + FLAG_SIZE) block;
                   node = (if matched_surb then
                             insert_session (sh_session_id header)
                               \<lparr>cs_next_hop = next_hop, cs_body_key = body_key keys, cs_is_final = (flag = Destination),
                                cs_seen_nonces = {}, nonce_order = [], cs_created_at = now\<rparr> node
                           else node);
                   new_routing_info = drop SLOT_SIZE (routing_info header) @ slot_pad;
                   new_ephemeral = point_mul env (ephemeral_key header) (blinding_factor env shared);
                   peeled_body = xor_body env (body_key keys) (sp_body packet)
               in case flag of
                    Destination \<Rightarrow>
                      (case aead_decrypt_body env (derive_body_aead_key env shared) peeled_body next_hop of
                         Inl e \<Rightarrow> (Inl e, node)
                       | Inr plaintext \<Rightarrow>
                           (Inr \<lparr>pp_next_hop = next_hop, pp_flag = flag, forward_packet = None, pp_body = Some plaintext\<rparr>, node))
                  | Forward \<Rightarrow>
                      (Inr \<lparr>pp_next_hop = next_hop, pp_flag = flag,
                            forward_packet = Some \<lparr>sp_header = \<lparr>sh_version = sh_version header, ephemeral_key = new_ephemeral,
                                sh_session_id = sh_session_id header, routing_info = new_routing_info, sh_mac = next_mac\<rparr>,
                              kem_ciphertexts = new_kem, sp_body = peeled_body\<rparr>,
                            pp_body = None\<rparr>, node))"

definition process_packet ::
  "'sc sphinx_env \<Rightarrow> u64 \<Rightarrow> bytes \<Rightarrow> 'sc MixNode \<Rightarrow> SphinxPacket \<Rightarrow> (SphinxError + ProcessedPacket) \<times> 'sc MixNode" where
  "process_packet env now slot_pad node packet =
     (let version = sh_version (sp_header packet) in
      if version = SPHINX_VERSION_HYBRID then (Inl (UnsupportedVersion version), node)
      else if version \<noteq> SPHINX_VERSION_CLASSICAL then (Inl (UnsupportedVersion version), node)
      else if length (routing_info (sp_header packet)) \<noteq> ROUTING_INFO_SIZE then (Inl InvalidPacketSize, node)
      else if length (sp_body packet) \<noteq> WIRE_BODY_SIZE then (Inl InvalidPacketSize, node)
      else
        let shared = point_mul env (ephemeral_key (sp_header packet)) (private_key node)
        in peel_hop env now slot_pad [] shared node packet)"

definition process_packet_hybrid_with_keys ::
  "'sc sphinx_env \<Rightarrow> u64 \<Rightarrow> bytes \<Rightarrow> bytes \<Rightarrow> 'sc MixNode \<Rightarrow> bytes \<Rightarrow> SphinxPacket \<Rightarrow>
     (SphinxError + ProcessedPacket) \<times> 'sc MixNode" where
  "process_packet_hybrid_with_keys env now slot_pad kem_pad node kem_secret packet =
     (let version = sh_version (sp_header packet) in
      if version \<noteq> SPHINX_VERSION_HYBRID then (Inl (UnsupportedVersion version), node)
      else if length (routing_info (sp_header packet)) \<noteq> ROUTING_INFO_SIZE then (Inl InvalidPacketSize, node)
      else if length (sp_body packet) \<noteq> WIRE_BODY_SIZE then (Inl InvalidPacketSize, node)
      else if length (kem_ciphertexts packet) \<noteq> KEM_BLOCK_SIZE env then (Inl InvalidKemCiphertext, node)
      else
        let our_ct = take (KEM_CIPHERTEXT_SIZE (sx_kx env)) (kem_ciphertexts packet);
            rest_cts = drop (KEM_CIPHERTEXT_SIZE (sx_kx env)) (kem_ciphertexts packet);
            classical_shared = point_mul env (ephemeral_key (sp_header packet)) (private_key node)
        in case decapsulate_with (sx_kx env) kem_secret our_ct of
             Inl _ \<Rightarrow> (Inl InvalidKemCiphertext, node)
           | Inr kem_shared \<Rightarrow>
               let hybrid_shared = derive_hybrid_shared_secret (sx_hkdf env) classical_shared kem_shared HYBRID_HOP_CONTEXT
               in peel_hop env now slot_pad (rest_cts @ kem_pad) hybrid_shared node packet)"

text \<open>A hybrid node is a classical node with its KEM secret.\<close>

record 'sc HybridMixNode =
  classical :: "'sc MixNode"
  kem_secret :: bytes

definition process_packet_hybrid ::
  "'sc sphinx_env \<Rightarrow> u64 \<Rightarrow> bytes \<Rightarrow> bytes \<Rightarrow> 'sc HybridMixNode \<Rightarrow> SphinxPacket \<Rightarrow>
     (SphinxError + ProcessedPacket) \<times> 'sc HybridMixNode" where
  "process_packet_hybrid env now slot_pad kem_pad node packet =
     (case process_packet_hybrid_with_keys env now slot_pad kem_pad (classical node) (kem_secret node) packet of
        (r, c) \<Rightarrow> (r, node\<lparr>classical := c\<rparr>))"

definition as_hop :: "'sc sphinx_env \<Rightarrow> 'sc HybridMixNode \<Rightarrow> HybridRouteHop" where
  "as_hop env node = \<lparr>hh_node_id = mn_node_id (classical node), hh_classical_public_key = mn_public_key (classical node),
     hh_kem_public_key = kem_public (sx_kx env) (kem_secret node)\<rparr>"

section \<open>Session replies\<close>

definition SPHINX_VERSION_SESSION_REPLY :: u8 where "SPHINX_VERSION_SESSION_REPLY = 2"

definition SESSION_REPLY_WIRE_SIZE :: "'sc sphinx_env \<Rightarrow> nat" where
  "SESSION_REPLY_WIRE_SIZE env =
     1 + 32 + SESSION_ID_SIZE + 4 + KEM_BLOCK_SIZE env + ROUTING_INFO_SIZE + MAC_SIZE + WIRE_BODY_SIZE"

record SessionReply =
  sr_session_id :: bytes
  sr_nonce :: bytes
  sr_body :: bytes

text \<open>\<open>while buf.len() < SESSION_REPLY_WIRE_SIZE { buf.push(random) }\<close>: \<open>pad\<close> is what the loop draws.\<close>

definition session_reply_serialize :: "bytes \<Rightarrow> SessionReply \<Rightarrow> bytes" where
  "session_reply_serialize pad r =
     (let n = min (length (sr_body r)) WIRE_BODY_SIZE;
          body = take n (sr_body r) @ replicate (WIRE_BODY_SIZE - n) 0
      in [SPHINX_VERSION_SESSION_REPLY] @ sr_session_id r @ sr_nonce r @ body @ pad)"

definition session_reply_deserialize :: "bytes \<Rightarrow> SphinxError + SessionReply" where
  "session_reply_deserialize data =
     (if length data < 1 + SESSION_ID_SIZE + SESSION_ID_SIZE + WIRE_BODY_SIZE then Inl InvalidPacketSize
      else if data ! 0 \<noteq> SPHINX_VERSION_SESSION_REPLY then Inl (UnsupportedVersion (data ! 0))
      else Inr \<lparr>sr_session_id = take SESSION_ID_SIZE (drop 1 data),
                sr_nonce = take SESSION_ID_SIZE (drop (1 + SESSION_ID_SIZE) data),
                sr_body = take WIRE_BODY_SIZE (drop (1 + 2 * SESSION_ID_SIZE) data)\<rparr>)"

record SessionReplyResult =
  srr_next_hop :: NodeId
  srr_reply :: SessionReply
  srr_is_final :: bool

definition process_session_reply ::
  "'sc sphinx_env \<Rightarrow> 'sc MixNode \<Rightarrow> SessionReply \<Rightarrow> u64 \<Rightarrow> (SphinxError + SessionReplyResult) \<times> 'sc MixNode" where
  "process_session_reply env node reply current_time =
     (if length (sr_body reply) \<noteq> WIRE_BODY_SIZE then (Inl InvalidPacketSize, node)
      else case hm_get (session_cache node) (sr_session_id reply) of
             None \<Rightarrow> (Inl SessionNotFound, node)
           | Some session \<Rightarrow>
               if SESSION_TTL_SECS \<le> saturating_sub current_time (cs_created_at session) then
                 (Inl SessionExpired,
                  node\<lparr>session_cache := hm_remove (sr_session_id reply) (session_cache node),
                       session_order := filter (\<lambda>sid. sid \<noteq> sr_session_id reply) (session_order node)\<rparr>)
               else if sr_nonce reply \<in> cs_seen_nonces session then (Inl SphinxReplayDetected, node)
               else
                 (Inr \<lparr>srr_next_hop = cs_next_hop session,
                       srr_reply = reply\<lparr>sr_body := xor_body env (cs_body_key session) (sr_body reply)\<rparr>,
                       srr_is_final = cs_is_final session\<rparr>,
                  node\<lparr>session_cache := hm_modify (sr_session_id reply) (record_nonce (sr_nonce reply)) (session_cache node)\<rparr>))"

section \<open>One hop\<close>

lemma hop_secrets_length [simp]: "length (hop_secrets env pubs a s) = length pubs"
  by (induction env pubs a s rule: hop_secrets.induct) (simp_all add: Let_def)

lemma length_body_seen [simp]: "length (body_seen env ks inner) = length ks"
  by (induction env ks inner rule: body_seen.induct) (simp_all add: Let_def)

lemma body_seen_sizes: "hashes_sized env \<Longrightarrow> b \<in> set (body_seen env ks inner) \<Longrightarrow> length b = length inner"
proof (induction env ks inner arbitrary: b rule: body_seen.induct)
  case (2 env key keys inner)
  then show ?case by (cases "body_seen env keys inner") (auto simp: Let_def)
qed simp

text \<open>What the hop with the remaining keys \<open>ks\<close> receives, and that peeling one layer gives the next.\<close>

lemma hd_body_seen_Cons:
  "hd (body_seen env (k # ks) inner) = xor_body env k (if ks = [] then inner else hd (body_seen env ks inner))"
  by (cases ks) (simp_all add: Let_def split: list.splits)

lemma length_seal_slots [simp]: "length (seal_slots env v sid dest hs) = length hs"
  by (induction env v sid dest hs rule: seal_slots.induct) (simp_all add: Let_def)

lemma seal_slot_simp [simp]:
  "seal_slot env v sid (keys, alpha, body, nid) block =
     (xor_slot env (stream_key keys) block,
      compute_mac env (mac_key keys) v alpha sid (xor_slot env (stream_key keys) block) body)"
  by (simp add: seal_slot_def Let_def)

definition ids_sized :: "hop_input list \<Rightarrow> bool" where
  "ids_sized hs \<longleftrightarrow> (\<forall>h\<in>set hs. length (snd (snd (snd h))) = NODE_ID_SIZE)"

lemma hd_mac_size:
  "hashes_sized env \<Longrightarrow> hs \<noteq> [] \<Longrightarrow> length (snd (hd (seal_slots env v sid dest hs))) = MAC_SIZE"
  by (induction env v sid dest hs rule: seal_slots.induct) (auto simp: Let_def seal_slot_def)

lemma seal_slots_sizes:
  "hashes_sized env \<Longrightarrow> length dest = NODE_ID_SIZE \<Longrightarrow> ids_sized hs \<Longrightarrow>
     \<forall>x\<in>set (seal_slots env v sid dest hs). length (fst x) = SLOT_SIZE"
proof (induction env v sid dest hs rule: seal_slots.induct)
  case (3 env v sid dest h1 h2 hs)
  then show ?case
    using hd_mac_size [of env "h2 # hs" v sid dest]
    by (cases h1) (auto simp: Let_def ids_sized_def sphinx_sizes)
qed (auto simp: seal_slot_def sphinx_sizes Let_def)

lemma flag_roundtrip [simp]: "RoutingFlag_try_from (flag_byte f) = Inr f"
  by (cases f) (simp_all add: flag_byte_def RoutingFlag_try_from_def)

text \<open>The plain routing block of a hop: its successor, the flag and the MAC of the next hop.\<close>

definition plain_slot :: "'sc sphinx_env \<Rightarrow> u8 \<Rightarrow> bytes \<Rightarrow> NodeId \<Rightarrow> hop_input list \<Rightarrow> bytes" where
  "plain_slot env v sid dest rest =
     (case rest of
        [] \<Rightarrow> dest @ [flag_byte Destination] @ replicate MAC_SIZE 0
      | next # _ \<Rightarrow> snd (snd (snd next)) @ [flag_byte Forward] @ snd (hd (seal_slots env v sid dest rest)))"

lemma seal_slots_Cons: "seal_slots env v sid dest (h # rest) =
    seal_slot env v sid h (plain_slot env v sid dest rest) # seal_slots env v sid dest rest"
  by (cases rest) (simp_all add: plain_slot_def Let_def)

lemma plain_slot_parts:
  assumes "hashes_sized env" "length dest = NODE_ID_SIZE" "ids_sized rest"
  shows "length (plain_slot env v sid dest rest) = SLOT_SIZE"
    and "take NODE_ID_SIZE (plain_slot env v sid dest rest) = (if rest = [] then dest else snd (snd (snd (hd rest))))"
    and "plain_slot env v sid dest rest ! NODE_ID_SIZE = flag_byte (if rest = [] then Destination else Forward)"
    and "rest \<noteq> [] \<Longrightarrow> drop (NODE_ID_SIZE + FLAG_SIZE) (plain_slot env v sid dest rest) = snd (hd (seal_slots env v sid dest rest))"
  using assms hd_mac_size [OF assms(1), of rest v sid dest]
  by (cases rest; simp add: plain_slot_def ids_sized_def sphinx_sizes nth_append)+

text \<open>The node after the packet: the tag is recorded, and the session when only the placeholder MAC matched.\<close>

definition hop_node :: "'sc sphinx_env \<Rightarrow> u64 \<Rightarrow> bytes \<Rightarrow> bool \<Rightarrow> bytes \<Rightarrow> NodeId \<Rightarrow> bool \<Rightarrow> 'sc MixNode \<Rightarrow> 'sc MixNode" where
  "hop_node env now shared surb sid next_hop final node =
     (let node = insert_seen_tag (hop_tag (derive_hop_keys env shared)) node
      in if surb then insert_session sid \<lparr>cs_next_hop = next_hop, cs_body_key = body_key (derive_hop_keys env shared),
            cs_is_final = final, cs_seen_nonces = {}, nonce_order = [], cs_created_at = now\<rparr> node else node)"

text \<open>Two bodies with the same MAC under some key and header.\<close>

definition mac_collision :: "'sc sphinx_env \<Rightarrow> bytes \<Rightarrow> bytes \<Rightarrow> bool" where
  "mac_collision env a b \<longleftrightarrow> (\<exists>k v e sid slot. compute_mac env k v e sid slot a = compute_mac env k v e sid slot b)"

lemma peel_hop_slot:
  assumes h: "hashes_sized env" and d: "length dest = NODE_ID_SIZE" "ids_sized rest"
    and p: "sp_header p = build_header env v sid dest ((derive_hop_keys env shared, alpha, covered, nid) # rest) junk"
    and c: "covered = sp_body p \<or> covered = replicate WIRE_BODY_SIZE 0"
    and t: "hop_tag (derive_hop_keys env shared) \<notin> seen_tags node"
  shows "\<exists>surb. (covered = sp_body p \<longrightarrow> \<not> surb) \<and>
    (\<not> surb \<longrightarrow> mac_collision env covered (sp_body p)) \<and>
    peel_hop env now pad kem shared node p =
      (let peeled = xor_body env (body_key (derive_hop_keys env shared)) (sp_body p) in
       if rest = [] then
         (case aead_decrypt_body env (derive_body_aead_key env shared) peeled dest of
            Inl e \<Rightarrow> (Inl e, hop_node env now shared surb sid dest True node)
          | Inr b \<Rightarrow> (Inr \<lparr>pp_next_hop = dest, pp_flag = Destination, forward_packet = None, pp_body = Some b\<rparr>,
                      hop_node env now shared surb sid dest True node))
       else
         (Inr \<lparr>pp_next_hop = snd (snd (snd (hd rest))), pp_flag = Forward,
               forward_packet = Some \<lparr>sp_header = \<lparr>sh_version = v, ephemeral_key = point_mul env alpha (blinding_factor env shared),
                   sh_session_id = sid, routing_info = concat (map fst (seal_slots env v sid dest rest)) @ junk @ pad,
                   sh_mac = snd (hd (seal_slots env v sid dest rest))\<rparr>,
                 kem_ciphertexts = kem, sp_body = peeled\<rparr>, pp_body = None\<rparr>,
          hop_node env now shared surb sid (snd (snd (snd (hd rest)))) False node))"
proof -
  let ?keys = "derive_hop_keys env shared"
  define block where "block = plain_slot env v sid dest rest"
  let ?enc = "xor_slot env (stream_key ?keys) block"
  note parts = plain_slot_parts [OF h d, of v sid, folded block_def]
  have hdr: "sh_version (sp_header p) = v" "ephemeral_key (sp_header p) = alpha" "sh_session_id (sp_header p) = sid"
    "routing_info (sp_header p) = ?enc @ concat (map fst (seal_slots env v sid dest rest)) @ junk"
    "sh_mac (sp_header p) = compute_mac env (mac_key ?keys) v alpha sid ?enc covered"
    by (simp_all add: p build_header_def seal_slots_Cons block_def Let_def)
  have enc: "length ?enc = SLOT_SIZE" using h parts(1) by simp
  have slot: "take SLOT_SIZE (routing_info (sp_header p)) = ?enc"
    "drop SLOT_SIZE (routing_info (sp_header p)) = concat (map fst (seal_slots env v sid dest rest)) @ junk"
    using enc by (simp_all add: hdr)
  have dec: "xor_slot env (stream_key ?keys) ?enc = block" using h parts(1) by simp
  define surb where "surb = (sh_mac (sp_header p) \<noteq> compute_mac env (mac_key ?keys) v alpha sid ?enc (sp_body p))"
  have mac: "(sh_mac (sp_header p) = compute_mac env (mac_key ?keys) v alpha sid ?enc (sp_body p)) \<longleftrightarrow> \<not> surb"
    "(sh_mac (sp_header p) = compute_mac env (mac_key ?keys) v alpha sid ?enc (replicate WIRE_BODY_SIZE 0)) \<or> \<not> surb"
    "covered = sp_body p \<longrightarrow> \<not> surb" "\<not> surb \<longrightarrow> mac_collision env covered (sp_body p)"
    using c unfolding surb_def hdr(5) mac_collision_def by blast+
  have "peel_hop env now pad kem shared node p =
      (let peeled = xor_body env (body_key ?keys) (sp_body p) in
       if rest = [] then
         (case aead_decrypt_body env (derive_body_aead_key env shared) peeled dest of
            Inl e \<Rightarrow> (Inl e, hop_node env now shared surb sid dest True node)
          | Inr b \<Rightarrow> (Inr \<lparr>pp_next_hop = dest, pp_flag = Destination, forward_packet = None, pp_body = Some b\<rparr>,
                      hop_node env now shared surb sid dest True node))
       else
         (Inr \<lparr>pp_next_hop = snd (snd (snd (hd rest))), pp_flag = Forward,
               forward_packet = Some \<lparr>sp_header = \<lparr>sh_version = v, ephemeral_key = point_mul env alpha (blinding_factor env shared),
                   sh_session_id = sid, routing_info = concat (map fst (seal_slots env v sid dest rest)) @ junk @ pad,
                   sh_mac = snd (hd (seal_slots env v sid dest rest))\<rparr>,
                 kem_ciphertexts = kem, sp_body = peeled\<rparr>, pp_body = None\<rparr>,
          hop_node env now shared surb sid (snd (snd (snd (hd rest)))) False node))"
    using mac(2) t parts(4)
    by (cases "rest = []"; cases surb)
       (auto simp: peel_hop_def Let_def slot dec hdr(1-3) mac(1) parts(2,3) hop_node_def split: sum.splits)
  with mac(3,4) show ?thesis by blast
qed

section \<open>Along the route\<close>

text \<open>What a hop brings to a packet: its clock, the random padding it draws and, for hybrid packets, its
  KEM secret.\<close>

record HopDraw =
  hd_now :: u64
  hd_slot_pad :: bytes
  hd_kem_pad :: bytes
  hd_kem_secret :: bytes

definition classical_step :: "'sc sphinx_env \<Rightarrow> HopDraw \<Rightarrow> 'sc MixNode \<Rightarrow> SphinxPacket \<Rightarrow> (SphinxError + ProcessedPacket) \<times> 'sc MixNode" where
  "classical_step env x node p = process_packet env (hd_now x) (hd_slot_pad x) node p"

definition hybrid_step :: "'sc sphinx_env \<Rightarrow> HopDraw \<Rightarrow> 'sc MixNode \<Rightarrow> SphinxPacket \<Rightarrow> (SphinxError + ProcessedPacket) \<times> 'sc MixNode" where
  "hybrid_step env x node p =
     process_packet_hybrid_with_keys env (hd_now x) (hd_slot_pad x) (hd_kem_pad x) node (hd_kem_secret x) p"

text \<open>Handing a packet from hop to hop until one of them keeps it: the successors the hops learn, the
  delivered body and the nodes afterwards.\<close>

fun relay ::
  "(HopDraw \<Rightarrow> 'sc MixNode \<Rightarrow> SphinxPacket \<Rightarrow> (SphinxError + ProcessedPacket) \<times> 'sc MixNode) \<Rightarrow>
     (HopDraw \<times> 'sc MixNode) list \<Rightarrow> SphinxPacket \<Rightarrow> (NodeId list \<times> bytes \<times> 'sc MixNode list) option" where
  "relay step [] p = None"
| "relay step ((x, n) # hops) p =
     (case step x n p of
        (Inl _, _) \<Rightarrow> None
      | (Inr r, n') \<Rightarrow>
          (case forward_packet r of
             Some p' \<Rightarrow>
               (case relay step hops p' of
                  None \<Rightarrow> None
                | Some (ids, body, ns) \<Rightarrow> Some (pp_next_hop r # ids, body, n' # ns))
           | None \<Rightarrow>
               (case pp_body r of None \<Rightarrow> None | Some body \<Rightarrow> Some ([pp_next_hop r], body, [n']))))"

text \<open>The hops of a route open the layers of a packet one after the other.\<close>

fun chain_ok ::
  "'sc sphinx_env \<Rightarrow> u8 \<Rightarrow> (HopDraw \<Rightarrow> 'sc MixNode \<Rightarrow> SphinxPacket \<Rightarrow> (SphinxError + ProcessedPacket) \<times> 'sc MixNode) \<Rightarrow>
     (HopDraw \<times> 'sc MixNode) list \<Rightarrow> (bytes \<times> bytes) list \<Rightarrow> bytes \<Rightarrow> bool" where
  "chain_ok env v step [] ss kem \<longleftrightarrow> ss = []"
| "chain_ok env v step ((x, n) # hops) ss kem \<longleftrightarrow>
     (case ss of
        [] \<Rightarrow> False
      | (shared, alpha) # rest \<Rightarrow>
          hop_tag (derive_hop_keys env shared) \<notin> seen_tags n \<and> length (hd_slot_pad x) = SLOT_SIZE \<and>
          (rest \<noteq> [] \<longrightarrow> snd (hd rest) = point_mul env alpha (blinding_factor env shared)) \<and>
          (\<exists>kem'. (\<forall>p. sh_version (sp_header p) = v \<and> ephemeral_key (sp_header p) = alpha \<and>
                 length (routing_info (sp_header p)) = ROUTING_INFO_SIZE \<and> length (sp_body p) = WIRE_BODY_SIZE \<and>
                 kem_ciphertexts p = kem \<longrightarrow>
                 step x n p = peel_hop env (hd_now x) (hd_slot_pad x) kem' shared n p) \<and>
             chain_ok env v step hops rest kem'))"

abbreviation "body_keys_of env ss \<equiv> map (\<lambda>(shared, _). body_key (derive_hop_keys env shared)) ss"

text \<open>The nodes after a packet with covered bodies \<open>cs\<close> and actual bodies \<open>bs\<close>.\<close>

definition nodes_after ::
  "'sc sphinx_env \<Rightarrow> bytes \<Rightarrow> NodeId list \<Rightarrow> (HopDraw \<times> 'sc MixNode) list \<Rightarrow> (bytes \<times> bytes) list \<Rightarrow> bytes list \<Rightarrow> bytes list \<Rightarrow>
     'sc MixNode list \<Rightarrow> bool" where
  "nodes_after env sid nexts hops ss cs bs ns \<longleftrightarrow> length ns = length ss \<and>
     (\<forall>i<length ss. \<exists>surb. (cs ! i = bs ! i \<longrightarrow> \<not> surb) \<and> (\<not> surb \<longrightarrow> mac_collision env (cs ! i) (bs ! i)) \<and>
        ns ! i = hop_node env (hd_now (fst (hops ! i))) (fst (ss ! i)) surb sid (nexts ! i) (Suc i = length ss) (snd (hops ! i)))"

lemma nodes_after_Cons:
  "(\<exists>surb. (c = b \<longrightarrow> \<not> surb) \<and> (\<not> surb \<longrightarrow> mac_collision env c b) \<and>
      n' = hop_node env (hd_now x) shared surb sid nx (ss = []) n) \<Longrightarrow>
   nodes_after env sid nexts hops ss cs bs ns \<Longrightarrow>
   nodes_after env sid (nx # nexts) ((x, n) # hops) ((shared, alpha) # ss) (c # cs) (b # bs) (n' # ns)"
  unfolding nodes_after_def by (auto simp: nth_Cons split: nat.splits)

lemma hop_inputs_Cons [simp]:
  "hop_inputs env ((shared, alpha) # ss) (c # cs) (i # ids) = (derive_hop_keys env shared, alpha, c, i) # hop_inputs env ss cs ids"
  by (simp add: hop_inputs_def)

lemma length_hop_inputs [simp]:
  "length cs = length ss \<Longrightarrow> length ids = length ss \<Longrightarrow> length (hop_inputs env ss cs ids) = length ss"
  by (simp add: hop_inputs_def)

lemma ids_sized_hop_inputs: "\<forall>i\<in>set ids. length i = NODE_ID_SIZE \<Longrightarrow> ids_sized (hop_inputs env ss cs ids)"
  by (fastforce simp: ids_sized_def hop_inputs_def dest!: set_zip_rightD)

lemma length_routing_info:
  assumes "hashes_sized env" "length dest = NODE_ID_SIZE" "ids_sized hs"
  shows "length (routing_info (build_header env v sid dest hs junk)) = SLOT_SIZE * length hs + length junk"
proof -
  have "length (concat (map fst xs)) = SLOT_SIZE * length xs" if "\<forall>x\<in>set xs. length (fst x) = SLOT_SIZE"
    for xs :: "(bytes \<times> bytes) list"
    using that by (induction xs) simp_all
  from this [OF seal_slots_sizes [OF assms]] show ?thesis by (simp add: build_header_def Let_def)
qed

lemma relay_chain:
  assumes h: "hashes_sized env" and a: "aead_correct (sx_aead env)" and d: "length dest = NODE_ID_SIZE" and pt: "length pt = BODY_SIZE"
  shows "chain_ok env v step hops ss kem \<Longrightarrow> ss \<noteq> [] \<Longrightarrow> length ids = length ss \<Longrightarrow> length cs = length ss \<Longrightarrow>
     \<forall>i\<in>set ids. length i = NODE_ID_SIZE \<Longrightarrow>
     inner = aead_encrypt_body env (derive_body_aead_key env (fst (last ss))) pt dest \<Longrightarrow>
     bs = body_seen env (body_keys_of env ss) inner \<Longrightarrow>
     \<forall>i<length ss. cs ! i = bs ! i \<or> cs ! i = replicate WIRE_BODY_SIZE 0 \<Longrightarrow>
     sp_header p = build_header env v sid dest (hop_inputs env ss cs ids) junk \<Longrightarrow>
     length junk + SLOT_SIZE * length ss = ROUTING_INFO_SIZE \<Longrightarrow> kem_ciphertexts p = kem \<Longrightarrow> sp_body p = hd bs \<Longrightarrow>
     \<exists>ns. relay step hops p = Some (tl ids @ [dest], pt, ns) \<and> nodes_after env sid (tl ids @ [dest]) hops ss cs bs ns"
proof (induction hops arbitrary: ss kem ids cs bs p junk)
  case (Cons xn hops)
  obtain x n where xn: "xn = (x, n)" by (cases xn)
  obtain shared alpha rest where ss: "ss = (shared, alpha) # rest" using Cons.prems(2) by (cases ss) auto
  obtain i ids' where ids: "ids = i # ids'" using Cons.prems(3) ss by (cases ids) auto
  obtain c cs' where cs: "cs = c # cs'" using Cons.prems(4) ss by (cases cs) auto
  define bs' where "bs' = body_seen env (body_keys_of env rest) inner"
  define key where "key = body_key (derive_hop_keys env shared)"
  define below where "below = (if rest = [] then inner else hd bs')"
  have nil: "bs' = [] \<longleftrightarrow> rest = []" using arg_cong [OF bs'_def, of length] by (cases bs') auto
  have bs: "bs = xor_body env key below # bs'"
    using Cons.prems(7) nil by (cases bs') (auto simp: ss bs'_def [symmetric] key_def below_def Let_def)
  have inner: "length inner = WIRE_BODY_SIZE" using a pt Cons.prems(6) by simp
  have below: "length below = WIRE_BODY_SIZE"
    using inner body_seen_sizes [OF h, of "hd bs'" "body_keys_of env rest" inner]
    by (cases bs') (auto simp: below_def bs'_def [symmetric] nil)
  have lens: "length ids' = length rest" "length cs' = length rest" using Cons.prems(3,4) by (simp_all add: ss ids cs)
  have ids': "\<forall>i\<in>set ids'. length i = NODE_ID_SIZE" using Cons.prems(5) ids by simp
  let ?hs = "hop_inputs env rest cs' ids'"
  have hs: "hop_inputs env ss cs ids = (derive_hop_keys env shared, alpha, c, i) # ?hs" by (simp add: ss ids cs)
  obtain kem' where chain: "chain_ok env v step hops rest kem'" "hop_tag (derive_hop_keys env shared) \<notin> seen_tags n"
    "rest \<noteq> [] \<longrightarrow> snd (hd rest) = point_mul env alpha (blinding_factor env shared)" "length (hd_slot_pad x) = SLOT_SIZE"
    and step: "\<And>p. sh_version (sp_header p) = v \<Longrightarrow> ephemeral_key (sp_header p) = alpha \<Longrightarrow>
       length (routing_info (sp_header p)) = ROUTING_INFO_SIZE \<Longrightarrow> length (sp_body p) = WIRE_BODY_SIZE \<Longrightarrow>
       kem_ciphertexts p = kem \<Longrightarrow> step x n p = peel_hop env (hd_now x) (hd_slot_pad x) kem' shared n p"
    using Cons.prems(1) by (auto simp: xn ss)
  have body: "sp_body p = xor_body env key below" using Cons.prems(12) bs by simp
  have "length (routing_info (sp_header p)) = ROUTING_INFO_SIZE"
    using length_routing_info [OF h d ids_sized_hop_inputs [OF Cons.prems(5), of env ss cs], of v sid junk] Cons.prems(3,4,9,10) by simp
  then have st: "step x n p = peel_hop env (hd_now x) (hd_slot_pad x) kem' shared n p"
    using h below Cons.prems(9,11) by (intro step) (simp_all add: hs build_header_def Let_def body)
  have "c = sp_body p \<or> c = replicate WIRE_BODY_SIZE 0"
    using Cons.prems(8) [rule_format, of 0] by (simp add: ss cs bs body)
  from peel_hop_slot [OF h d ids_sized_hop_inputs [OF ids'] Cons.prems(9) [unfolded hs] this chain(2), of "hd_now x" "hd_slot_pad x" kem']
  obtain surb where surb: "c = sp_body p \<longrightarrow> \<not> surb" "\<not> surb \<longrightarrow> mac_collision env c (sp_body p)"
    and peel: "peel_hop env (hd_now x) (hd_slot_pad x) kem' shared n p =
      (if ?hs = [] then
         (case aead_decrypt_body env (derive_body_aead_key env shared) below dest of
            Inl e \<Rightarrow> (Inl e, hop_node env (hd_now x) shared surb sid dest True n)
          | Inr b \<Rightarrow> (Inr \<lparr>pp_next_hop = dest, pp_flag = Destination, forward_packet = None, pp_body = Some b\<rparr>,
                      hop_node env (hd_now x) shared surb sid dest True n))
       else
         (Inr \<lparr>pp_next_hop = snd (snd (snd (hd ?hs))), pp_flag = Forward,
               forward_packet = Some \<lparr>sp_header = \<lparr>sh_version = v, ephemeral_key = point_mul env alpha (blinding_factor env shared),
                   sh_session_id = sid, routing_info = concat (map fst (seal_slots env v sid dest ?hs)) @ junk @ hd_slot_pad x,
                   sh_mac = snd (hd (seal_slots env v sid dest ?hs))\<rparr>,
                 kem_ciphertexts = kem', sp_body = below\<rparr>, pp_body = None\<rparr>,
          hop_node env (hd_now x) shared surb sid (snd (snd (snd (hd ?hs)))) False n))"
    using h by (auto simp: Let_def body key_def)
  show ?case
  proof (cases "rest = []")
    case True
    then have "below = aead_encrypt_body env (derive_body_aead_key env shared) pt dest"
      using Cons.prems(6) by (simp add: below_def ss)
    then have "relay step (xn # hops) p = Some ([dest], pt, [hop_node env (hd_now x) shared surb sid dest True n])"
      using a pt True lens by (simp add: xn st peel hop_inputs_def)
    moreover have "nodes_after env sid [dest] (xn # hops) ss cs bs [hop_node env (hd_now x) shared surb sid dest True n]"
      using surb True by (auto simp: nodes_after_def ss cs bs xn body)
    ultimately show ?thesis using True lens by (simp add: ids)
  next
    case False
    then obtain sh al r j js c2 c3 where r: "rest = (sh, al) # r" "ids' = j # js" "cs' = c2 # c3"
      using lens by (cases rest; cases ids'; cases cs') auto
    define p' where "p' = \<lparr>sp_header = build_header env v sid dest ?hs (junk @ hd_slot_pad x), kem_ciphertexts = kem', sp_body = below\<rparr>"
    have peel': "peel_hop env (hd_now x) (hd_slot_pad x) kem' shared n p =
        (Inr \<lparr>pp_next_hop = j, pp_flag = Forward, forward_packet = Some p', pp_body = None\<rparr>,
         hop_node env (hd_now x) shared surb sid j False n)"
      using chain(3) False by (simp add: peel p'_def r build_header_def Let_def)
    have cov: "cs' ! k = bs' ! k \<or> cs' ! k = replicate WIRE_BODY_SIZE 0" if "k < length rest" for k
      using Cons.prems(8) [rule_format, of "Suc k"] that by (simp add: ss cs bs)
    have "\<exists>ns. relay step hops p' = Some (tl ids' @ [dest], pt, ns) \<and> nodes_after env sid (tl ids' @ [dest]) hops rest cs' bs' ns"
      using Cons.prems(6,10) False lens ids' chain(4) cov
      by (intro Cons.IH [OF chain(1) False]) (auto simp: p'_def ss bs'_def below_def)
    then obtain ns where ns: "relay step hops p' = Some (js @ [dest], pt, ns)" "nodes_after env sid (js @ [dest]) hops rest cs' bs' ns"
      using r by auto
    have "nodes_after env sid (j # js @ [dest]) (xn # hops) ss cs bs (hop_node env (hd_now x) shared surb sid j False n # ns)"
      unfolding xn ss cs bs by (rule nodes_after_Cons [OF _ ns(2)]) (use surb False body in auto)
    then show ?thesis
      using ns(1) by (simp add: xn st peel' ids r)
  qed
qed simp

definition fresh_tags :: "'sc sphinx_env \<Rightarrow> (HopDraw \<times> 'sc MixNode) list \<Rightarrow> (bytes \<times> bytes) list \<Rightarrow> bool" where
  "fresh_tags env hops ss \<longleftrightarrow> list_all2 (\<lambda>(x, n) (shared, _). hop_tag (derive_hop_keys env shared) \<notin> seen_tags n) hops ss"

text \<open>Nodes with a proper key pair and a 16-byte id; the padding they draw has the right sizes.\<close>

definition hops_ok :: "'sc sphinx_env \<Rightarrow> (HopDraw \<times> 'sc MixNode) list \<Rightarrow> bool" where
  "hops_ok env hops \<longleftrightarrow> hops \<noteq> [] \<and> length hops \<le> MAX_HOPS \<and>
     (\<forall>(x, n)\<in>set hops. mn_public_key n = point_mul env BASE_POINT (private_key n) \<and> length (mn_node_id n) = NODE_ID_SIZE \<and>
        length (hd_slot_pad x) = SLOT_SIZE)"

definition kem_hops_ok :: "'sc sphinx_env \<Rightarrow> (HopDraw \<times> 'sc MixNode) list \<Rightarrow> bool" where
  "kem_hops_ok env hops \<longleftrightarrow> (\<forall>(x, n)\<in>set hops. length (hd_kem_secret x) = KEM_SECRET_KEY_SIZE (sx_kx env) \<and>
     length (hd_kem_pad x) = KEM_CIPHERTEXT_SIZE (sx_kx env))"

lemma shared_agree:
  "curve_correct env \<Longrightarrow> point_mul env (point_mul env BASE_POINT k) s = point_mul env (point_mul env BASE_POINT s) k"
  by (simp add: curve_correct_def)

lemma blind_agree:
  "curve_correct env \<Longrightarrow> point_mul env (point_mul env BASE_POINT s) b = point_mul env BASE_POINT (scalar_mul env s b)"
  by (simp add: curve_correct_def)

lemma hop_secrets_hd: "pubs \<noteq> [] \<Longrightarrow> snd (hd (hop_secrets env pubs a s)) = a"
  by (cases pubs) (simp_all add: Let_def)

lemma chain_classical:
  assumes c: "curve_correct env"
  shows "\<forall>(x, n)\<in>set hops. mn_public_key n = point_mul env BASE_POINT (private_key n) \<and> length (hd_slot_pad x) = SLOT_SIZE \<Longrightarrow>
     fresh_tags env hops (hop_secrets env (map (mn_public_key \<circ> snd) hops) (point_mul env BASE_POINT s) s) \<Longrightarrow>
     chain_ok env SPHINX_VERSION_CLASSICAL (classical_step env) hops
       (hop_secrets env (map (mn_public_key \<circ> snd) hops) (point_mul env BASE_POINT s) s) []"
proof (induction hops arbitrary: s)
  case (Cons xn hops)
  obtain x n where xn: "xn = (x, n)" by (cases xn)
  define shared where "shared = point_mul env (mn_public_key n) s"
  define s' where "s' = scalar_mul env s (blinding_factor env shared)"
  have a: "point_mul env (point_mul env BASE_POINT s) (blinding_factor env shared) = point_mul env BASE_POINT s'"
    by (simp add: blind_agree [OF c] s'_def)
  have sh: "point_mul env (point_mul env BASE_POINT s) (private_key n) = shared"
    using Cons.prems(1) shared_agree [OF c] by (simp add: xn shared_def)
  have ss: "hop_secrets env (map (mn_public_key \<circ> snd) (xn # hops)) (point_mul env BASE_POINT s) s =
      (shared, point_mul env BASE_POINT s) # hop_secrets env (map (mn_public_key \<circ> snd) hops) (point_mul env BASE_POINT s') s'"
    by (simp add: xn Let_def shared_def [symmetric] a s'_def [symmetric])
  have fr: "hop_tag (derive_hop_keys env shared) \<notin> seen_tags n"
    "fresh_tags env hops (hop_secrets env (map (mn_public_key \<circ> snd) hops) (point_mul env BASE_POINT s') s')"
    using Cons.prems(2) unfolding ss by (simp_all add: fresh_tags_def xn)
  have IH: "chain_ok env SPHINX_VERSION_CLASSICAL (classical_step env) hops
      (hop_secrets env (map (mn_public_key \<circ> snd) hops) (point_mul env BASE_POINT s') s') []"
    using Cons.prems(1) fr(2) by (intro Cons.IH) (auto simp: comp_def)
  have "classical_step env x n p = peel_hop env (hd_now x) (hd_slot_pad x) [] shared n p"
    if "sh_version (sp_header p) = SPHINX_VERSION_CLASSICAL" "ephemeral_key (sp_header p) = point_mul env BASE_POINT s"
      "length (routing_info (sp_header p)) = ROUTING_INFO_SIZE" "length (sp_body p) = WIRE_BODY_SIZE" for p
    using that by (simp add: classical_step_def process_packet_def Let_def sh SPHINX_VERSION_CLASSICAL_def SPHINX_VERSION_HYBRID_def)
  moreover have "hops \<noteq> [] \<longrightarrow> snd (hd (hop_secrets env (map (mn_public_key \<circ> snd) hops) (point_mul env BASE_POINT s') s')) = point_mul env BASE_POINT s'"
    by (simp add: hop_secrets_hd)
  ultimately show ?case
    using IH fr(1) Cons.prems(1) unfolding ss by (auto simp: xn a)
qed simp

lemma chain_hybrid:
  assumes c: "curve_correct env" and k: "key_exchange_correct (sx_kx env)"
  shows "\<forall>(x, n)\<in>set hops. mn_public_key n = point_mul env BASE_POINT (private_key n) \<and> length (hd_slot_pad x) = SLOT_SIZE \<Longrightarrow>
     kem_hops_ok env hops \<Longrightarrow>
     \<exists>hy. hybrid_secrets env kr i (map (\<lambda>(x, n). as_hop env \<lparr>classical = n, kem_secret = hd_kem_secret x\<rparr>) hops) (point_mul env BASE_POINT s) s = Inr hy \<and>
       length hy = length hops \<and> (\<forall>e\<in>set hy. length (snd e) = KEM_CIPHERTEXT_SIZE (sx_kx env)) \<and>
       (hops \<noteq> [] \<longrightarrow> snd (fst (hd hy)) = point_mul env BASE_POINT s) \<and>
       (\<forall>pad. length pad + KEM_CIPHERTEXT_SIZE (sx_kx env) * length hops = KEM_BLOCK_SIZE env \<and> fresh_tags env hops (map fst hy) \<longrightarrow>
          chain_ok env SPHINX_VERSION_HYBRID (hybrid_step env) hops (map fst hy) (concat (map snd hy) @ pad))"
proof (induction hops arbitrary: s i)
  case (Cons xn hops)
  obtain x n where xn: "xn = (x, n)" by (cases xn)
  have kx: "length (hd_kem_secret x) = KEM_SECRET_KEY_SIZE (sx_kx env)" "length (hd_kem_pad x) = KEM_CIPHERTEXT_SIZE (sx_kx env)"
    "kem_hops_ok env hops"
    using Cons.prems(2) by (auto simp: kem_hops_ok_def xn)
  obtain ct ks where enc: "kem_encapsulate (sx_kx env) (kr i) (kem_public (sx_kx env) (hd_kem_secret x)) = Some (ct, ks)"
    "length ct = KEM_CIPHERTEXT_SIZE (sx_kx env)" "kem_decapsulate (sx_kx env) ct (hd_kem_secret x) = Some ks"
    "length (kem_public (sx_kx env) (hd_kem_secret x)) = KEM_PUBLIC_KEY_SIZE (sx_kx env)"
    using k kx(1) unfolding key_exchange_correct_def by blast
  define shared where "shared = derive_hybrid_shared_secret (sx_hkdf env) (point_mul env (mn_public_key n) s) ks HYBRID_HOP_CONTEXT"
  define s' where "s' = scalar_mul env s (blinding_factor env shared)"
  let ?hop = "\<lambda>(x, n). as_hop env \<lparr>classical = n, kem_secret = hd_kem_secret x\<rparr>"
  have a: "point_mul env (point_mul env BASE_POINT s) (blinding_factor env shared) = point_mul env BASE_POINT s'"
    by (simp add: blind_agree [OF c] s'_def)
  have sh: "derive_hybrid_shared_secret (sx_hkdf env) (point_mul env (point_mul env BASE_POINT s) (private_key n)) ks HYBRID_HOP_CONTEXT = shared"
    using Cons.prems(1) shared_agree [OF c] by (simp add: xn shared_def)
  obtain hy where hy: "hybrid_secrets env kr (i + 1) (map ?hop hops) (point_mul env BASE_POINT s') s' = Inr hy"
      "length hy = length hops" "\<forall>e\<in>set hy. length (snd e) = KEM_CIPHERTEXT_SIZE (sx_kx env)"
      "hops \<noteq> [] \<longrightarrow> snd (fst (hd hy)) = point_mul env BASE_POINT s'"
    and chain: "\<And>pad. length pad + KEM_CIPHERTEXT_SIZE (sx_kx env) * length hops = KEM_BLOCK_SIZE env \<Longrightarrow> fresh_tags env hops (map fst hy) \<Longrightarrow>
        chain_ok env SPHINX_VERSION_HYBRID (hybrid_step env) hops (map fst hy) (concat (map snd hy) @ pad)"
    using Cons.IH [of "i + 1" s'] Cons.prems(1) kx(3) by auto
  define hy' where "hy' = ((shared, point_mul env BASE_POINT s), ct) # hy"
  have res: "hybrid_secrets env kr i (map ?hop (xn # hops)) (point_mul env BASE_POINT s) s = Inr hy'"
    using enc hy(1) by (simp add: xn as_hop_def encapsulate_to_def shared_def [symmetric] a s'_def [symmetric] hy'_def Let_def)
  have "chain_ok env SPHINX_VERSION_HYBRID (hybrid_step env) (xn # hops) (map fst hy') (concat (map snd hy') @ pad)"
    if pad: "length pad + KEM_CIPHERTEXT_SIZE (sx_kx env) * length (xn # hops) = KEM_BLOCK_SIZE env"
      and fr: "fresh_tags env (xn # hops) (map fst hy')" for pad
  proof -
    have cl: "length (concat (map snd hy)) = KEM_CIPHERTEXT_SIZE (sx_kx env) * length hops"
      using hy(2,3) by (simp add: length_concat comp_def sum_list_triv mult.commute add.commute cong: map_cong)
    have st: "hybrid_step env x n p = peel_hop env (hd_now x) (hd_slot_pad x) (concat (map snd hy) @ pad @ hd_kem_pad x) shared n p"
      if "sh_version (sp_header p) = SPHINX_VERSION_HYBRID" "ephemeral_key (sp_header p) = point_mul env BASE_POINT s"
        "length (routing_info (sp_header p)) = ROUTING_INFO_SIZE" "length (sp_body p) = WIRE_BODY_SIZE"
        "kem_ciphertexts p = concat (map snd hy') @ pad" for p
      using that pad enc kx cl sh
      by (simp add: hybrid_step_def process_packet_hybrid_with_keys_def decapsulate_with_def hy'_def Let_def)
    have f: "hop_tag (derive_hop_keys env shared) \<notin> seen_tags n" "fresh_tags env hops (map fst hy)"
      using fr by (simp_all add: fresh_tags_def hy'_def xn)
    have "chain_ok env SPHINX_VERSION_HYBRID (hybrid_step env) hops (map fst hy) (concat (map snd hy) @ pad @ hd_kem_pad x)"
      using pad kx(2) f(2) by (intro chain) simp_all
    moreover have "map fst hy \<noteq> [] \<longrightarrow> snd (hd (map fst hy)) = point_mul env (point_mul env BASE_POINT s) (blinding_factor env shared)"
      using hy(2,4) by (auto simp: a hd_map)
    moreover have "map fst hy' = (shared, point_mul env BASE_POINT s) # map fst hy" by (simp add: hy'_def)
    ultimately show ?thesis
      using f(1) st Cons.prems(1) by (auto simp: xn)
  qed
  with res hy(2,3) enc(2) show ?case by (intro exI [of _ hy']) (simp add: hy'_def)
qed (simp add: fresh_tags_def)

text \<open>A packet whose MACs cover its real bodies leaves only its tags behind.\<close>

definition tagged :: "'sc sphinx_env \<Rightarrow> (HopDraw \<times> 'sc MixNode) list \<Rightarrow> (bytes \<times> bytes) list \<Rightarrow> 'sc MixNode list" where
  "tagged env hops ss = map2 (\<lambda>(x, n) (shared, _). insert_seen_tag (hop_tag (derive_hop_keys env shared)) n) hops ss"

lemma nodes_after_normal: "nodes_after env sid nexts hops ss bs bs ns \<Longrightarrow> length hops = length ss \<Longrightarrow> ns = tagged env hops ss"
  by (rule nth_equalityI) (auto simp: nodes_after_def tagged_def hop_node_def Let_def split_beta)

text \<open>Both packet constructors end here.\<close>

lemma sealed_packet_delivers:
  assumes "hashes_sized env" "aead_correct (sx_aead env)" "length dest = NODE_ID_SIZE" "length body \<le> BODY_SIZE"
    and "chain_ok env v step hops ss kem" "length hops = length ss" "hops_ok env hops"
    and "length pad + SLOT_SIZE * length hops = ROUTING_INFO_SIZE"
    and "bs = body_seen env (body_keys_of env ss) (aead_encrypt_body env (derive_body_aead_key env (fst (last ss))) (pad_body body) dest)"
    and "p = \<lparr>sp_header = build_header env v sid dest (hop_inputs env ss bs (map (mn_node_id \<circ> snd) hops)) pad,
           kem_ciphertexts = kem, sp_body = hd bs\<rparr>"
  shows "length (routing_info (sp_header p)) = ROUTING_INFO_SIZE \<and> length (sp_body p) = WIRE_BODY_SIZE \<and>
    relay step hops p = Some (map (mn_node_id \<circ> snd) (tl hops) @ [dest], pad_body body, tagged env hops ss)"
proof -
  have len: "length bs = length ss" using arg_cong [OF assms(9), of length] by simp
  then have ne: "ss \<noteq> []" "bs \<noteq> []" "length bs = length ss"
    using assms(6,7) by (auto simp: hops_ok_def simp flip: length_greater_0_conv)
  have ids: "\<forall>i\<in>set (map (mn_node_id \<circ> snd) hops). length i = NODE_ID_SIZE"
    using assms(7) by (auto simp: hops_ok_def)
  have "length (hd bs) = WIRE_BODY_SIZE"
    using body_seen_sizes [OF assms(1), of "hd bs" "body_keys_of env ss" "aead_encrypt_body env (derive_body_aead_key env (fst (last ss))) (pad_body body) dest"]
      ne(2) assms(2,4,9) by simp
  moreover have "length (routing_info (sp_header p)) = ROUTING_INFO_SIZE"
    using length_routing_info [OF assms(1,3) ids_sized_hop_inputs [OF ids, of env ss bs], of v sid pad] assms(6,8,10) ne(3) by simp
  moreover obtain ns where "relay step hops p = Some (tl (map (mn_node_id \<circ> snd) hops) @ [dest], pad_body body, ns)"
      "nodes_after env sid (tl (map (mn_node_id \<circ> snd) hops) @ [dest]) hops ss bs bs ns"
    using relay_chain [OF assms(1,2,3) length_pad_body [OF assms(4)] assms(5) ne(1) _ ne(3) ids refl assms(9), of p sid pad]
      assms(6,8,10) by auto
  ultimately show ?thesis
    using nodes_after_normal assms(6,10) by (auto simp: map_tl)
qed

text \<open>Onion routing. A classical packet for a route of one to five nodes is built without
  error and has the fixed sizes. Handed from node to node, with any padding and any contents of their
  caches as long as none has seen the packet, every node learns exactly the id of its successor, the last
  one the destination, and it alone obtains the payload, zero-padded to \<open>BODY_SIZE\<close>. Each node records one
  replay tag and nothing else.\<close>

theorem sphinx_delivers:
  assumes "curve_correct env" "hashes_sized env" "aead_correct (sx_aead env)"
    and "hops_ok env hops" "length dest = NODE_ID_SIZE" "length body \<le> BODY_SIZE"
    and "length (pr_pad rnd) + SLOT_SIZE * length hops = ROUTING_INFO_SIZE"
    and "route = \<lparr>route_hops = map (\<lambda>(x, n). \<lparr>rh_public_key = mn_public_key n, rh_node_id = mn_node_id n\<rparr>) hops, route_destination = dest\<rparr>"
    and "ss = hop_secrets env (map rh_public_key (route_hops route)) (point_mul env BASE_POINT (pr_scalar rnd)) (pr_scalar rnd)"
    and "fresh_tags env hops ss"
  shows "\<exists>p. create_packet env rnd route body = Inr p \<and>
    length (routing_info (sp_header p)) = ROUTING_INFO_SIZE \<and> length (sp_body p) = WIRE_BODY_SIZE \<and>
    relay (classical_step env) hops p = Some (map (mn_node_id \<circ> snd) (tl hops) @ [dest], pad_body body, tagged env hops ss)"
proof -
  have pubs: "map rh_public_key (route_hops route) = map (mn_public_key \<circ> snd) hops" "map rh_node_id (route_hops route) = map (mn_node_id \<circ> snd) hops"
    by (simp_all add: assms(8) split_beta comp_def)
  have n: "length (route_hops route) = length hops" "hops \<noteq> []" "length hops \<le> MAX_HOPS"
    using assms(4) by (simp_all add: assms(8) hops_ok_def)
  have "chain_ok env SPHINX_VERSION_CLASSICAL (classical_step env) hops ss []"
    using chain_classical [OF assms(1), of hops "pr_scalar rnd"] assms(4,9,10) unfolding pubs by (auto simp: hops_ok_def)
  moreover define bs where "bs = body_seen env (body_keys_of env ss)
      (aead_encrypt_body env (derive_body_aead_key env (fst (last ss))) (pad_body body) dest)"
  moreover define p where "p = \<lparr>sp_header = build_header env SPHINX_VERSION_CLASSICAL (pr_session_id rnd) dest
      (hop_inputs env ss bs (map (mn_node_id \<circ> snd) hops)) (pr_pad rnd), kem_ciphertexts = [], sp_body = hd bs\<rparr>"
  moreover have "length hops = length ss" by (simp add: assms(9) n)
  moreover have "route_destination route = dest" by (simp add: assms(8))
  then have "create_packet env rnd route body = Inr p"
    using n assms(6) by (simp add: create_packet_def pubs(2) p_def bs_def assms(9) Let_def)
  ultimately show ?thesis
    using sealed_packet_delivers [OF assms(2,3,5,6) _ _ assms(4,7)] by blast
qed

text \<open>A concrete instance of the parameters, for witnesses: one-byte scalars acting on the first byte of a
  point, hashes by truncation.\<close>

definition demo_sphinx :: "u8 sphinx_env" where
  "demo_sphinx = \<lparr>point_mul = (\<lambda>p a. case p of [] \<Rightarrow> [] | b # bs \<Rightarrow> b * a # bs), scalar_mul = (*), scalar_from_bytes = (\<lambda>b. hd (b @ [0])),
     keyed_hash = (\<lambda>k m. take 32 (m @ k @ replicate 32 0)), sx_hkdf = (\<lambda>_ k c. take 32 (k @ c @ replicate 32 0)),
     sx_aead = demo_aead, sx_kx = demo_kx\<rparr>"

lemma demo_sphinx_correct:
  "curve_correct demo_sphinx" "hashes_sized demo_sphinx" "aead_correct (sx_aead demo_sphinx)"
  "key_exchange_correct (sx_kx demo_sphinx)"
  by (auto simp: curve_correct_def hashes_sized_def demo_sphinx_def BASE_POINT_def demo_aead_correct demo_kx_correct mult.assoc mult.commute min_def)

definition demo_hop :: "u8 \<Rightarrow> HopDraw \<times> u8 MixNode" where
  "demo_hop k = (\<lparr>hd_now = 100, hd_slot_pad = replicate 33 k, hd_kem_pad = [k], hd_kem_secret = [k]\<rparr>,
     from_private_key demo_sphinx [k] (replicate 16 k))"

definition demo_random :: "nat \<Rightarrow> u8 PacketRandom" where
  "demo_random n = \<lparr>pr_session_id = replicate 32 1, pr_scalar = 3, pr_pad = replicate (165 - 33 * n) 4,
     pr_kem = (\<lambda>i. [word_of_nat i]), pr_kem_pad = replicate (5 - n) 6\<rparr>"

lemma demo_hops_ok: "hops_ok demo_sphinx [demo_hop 5, demo_hop 7]" "kem_hops_ok demo_sphinx [demo_hop 5, demo_hop 7]"
  by (simp_all add: hops_ok_def kem_hops_ok_def demo_hop_def from_private_key_def sphinx_sizes demo_sphinx_def demo_kx_def BASE_POINT_def Let_def)

lemma demo_fresh: "length ss = 2 \<Longrightarrow> fresh_tags demo_sphinx [demo_hop 5, demo_hop 7] ss"
  by (cases ss; cases "tl ss") (auto simp: fresh_tags_def demo_hop_def from_private_key_def Let_def)

theorem sphinx_delivers_witness:
  "\<exists>p ns. create_packet demo_sphinx (demo_random 2)
      \<lparr>route_hops = [\<lparr>rh_public_key = mn_public_key (snd (demo_hop 5)), rh_node_id = replicate 16 5\<rparr>,
                      \<lparr>rh_public_key = mn_public_key (snd (demo_hop 7)), rh_node_id = replicate 16 7\<rparr>], route_destination = replicate 16 9\<rparr> [42] = Inr p \<and>
    relay (classical_step demo_sphinx) [demo_hop 5, demo_hop 7] p = Some ([replicate 16 7, replicate 16 9], 42 # replicate 1023 0, ns)"
proof -
  have pad: "length (pr_pad (demo_random 2)) + SLOT_SIZE * length [demo_hop 5, demo_hop 7] = ROUTING_INFO_SIZE"
    by (simp add: demo_random_def sphinx_sizes)
  have len: "length (replicate 16 9 :: bytes) = NODE_ID_SIZE" "length [42 :: u8] \<le> BODY_SIZE" "pad_body [42] = 42 # replicate 1023 0"
    by (simp_all add: sphinx_sizes BODY_SIZE_def pad_body_def)
  have ids: "mn_node_id (snd (demo_hop k)) = replicate 16 k" for k by (simp add: demo_hop_def from_private_key_def Let_def)
  note sphinx_delivers [OF demo_sphinx_correct(1-3) demo_hops_ok(1) len(1,2) pad refl refl demo_fresh]
  then show ?thesis by (simp add: ids len(3) split_beta Let_def) blast
qed

lemma hybrid_packet_delivers:
  assumes "curve_correct env" "hashes_sized env" "aead_correct (sx_aead env)" "key_exchange_correct (sx_kx env)"
    and "hops_ok env hops" "kem_hops_ok env hops" "length dest = NODE_ID_SIZE" "length body \<le> BODY_SIZE"
    and "length (pr_pad rnd) + SLOT_SIZE * length hops = ROUTING_INFO_SIZE"
    and "length (pr_kem_pad rnd) + KEM_CIPHERTEXT_SIZE (sx_kx env) * length hops = KEM_BLOCK_SIZE env"
    and "route = \<lparr>hybrid_hops = map (\<lambda>(x, n). as_hop env \<lparr>classical = n, kem_secret = hd_kem_secret x\<rparr>) hops, hybrid_destination = dest\<rparr>"
    and "\<And>hy. hybrid_secrets env (pr_kem rnd) 0 (hybrid_hops route) (point_mul env BASE_POINT (pr_scalar rnd)) (pr_scalar rnd) = Inr hy \<Longrightarrow>
           fresh_tags env hops (map fst hy)"
  shows "\<exists>p ns. create_packet_hybrid env rnd route body = Inr p \<and>
    length (routing_info (sp_header p)) = ROUTING_INFO_SIZE \<and> length (sp_body p) = WIRE_BODY_SIZE \<and>
    length (kem_ciphertexts p) = KEM_BLOCK_SIZE env \<and>
    relay (hybrid_step env) hops p = Some (map (mn_node_id \<circ> snd) (tl hops) @ [dest], pad_body body, ns)"
proof -
  have pubs: "map hh_node_id (hybrid_hops route) = map (mn_node_id \<circ> snd) hops" "hybrid_destination route = dest"
    by (simp_all add: assms(11) split_beta comp_def as_hop_def)
  have n: "length (hybrid_hops route) = length hops" "hops \<noteq> []" "length hops \<le> MAX_HOPS"
    using assms(5) by (simp_all add: assms(11) hops_ok_def)
  have kem: "\<not> (\<exists>hop\<in>set (hybrid_hops route). length (hh_kem_public_key hop) \<noteq> KEM_PUBLIC_KEY_SIZE (sx_kx env))"
    using assms(4,6) by (auto simp: assms(11) as_hop_def kem_hops_ok_def key_exchange_correct_def)
  obtain hy where hy: "hybrid_secrets env (pr_kem rnd) 0 (hybrid_hops route) (point_mul env BASE_POINT (pr_scalar rnd)) (pr_scalar rnd) = Inr hy"
      "length hy = length hops" "\<forall>e\<in>set hy. length (snd e) = KEM_CIPHERTEXT_SIZE (sx_kx env)"
    and chain: "fresh_tags env hops (map fst hy) \<Longrightarrow>
      chain_ok env SPHINX_VERSION_HYBRID (hybrid_step env) hops (map fst hy) (concat (map snd hy) @ pr_kem_pad rnd)"
    using chain_hybrid [OF assms(1,4), of hops "pr_kem rnd" 0 "pr_scalar rnd"] assms(5,6,10) by (auto simp: hops_ok_def assms(11))
  have block: "length (concat (map snd hy) @ pr_kem_pad rnd) = KEM_BLOCK_SIZE env"
    using hy(2,3) assms(10) by (simp add: length_concat comp_def sum_list_triv mult.commute add.commute cong: map_cong)
  define ss where "ss = map fst hy"
  define bs where "bs = body_seen env (body_keys_of env ss)
      (aead_encrypt_body env (derive_body_aead_key env (fst (last ss))) (pad_body body) dest)"
  define p where "p = \<lparr>sp_header = build_header env SPHINX_VERSION_HYBRID (pr_session_id rnd) dest
      (hop_inputs env ss bs (map (mn_node_id \<circ> snd) hops)) (pr_pad rnd), kem_ciphertexts = concat (map snd hy) @ pr_kem_pad rnd, sp_body = hd bs\<rparr>"
  have "create_packet_hybrid env rnd route body = Inr p"
    using n assms(8) kem by (simp add: create_packet_hybrid_def pubs hy(1) p_def bs_def ss_def Let_def)
  moreover have "chain_ok env SPHINX_VERSION_HYBRID (hybrid_step env) hops ss (kem_ciphertexts p)"
    using chain assms(12) [OF hy(1)] by (simp add: ss_def p_def)
  note sealed_packet_delivers [OF assms(2,3,7,8) this _ assms(5,9) bs_def, of p "pr_session_id rnd"]
  ultimately show ?thesis using block hy(2) by (simp add: p_def ss_def)
qed

text \<open>C26 (functional). The same for hybrid packets, which every node of the network sends: each hop
  decapsulates its own ML-KEM ciphertext and combines it with the classical secret; the KEM block keeps
  its size at every hop because the consumed ciphertext is replaced by random bytes.\<close>

theorem hybrid_delivers:
  assumes "curve_correct env" "hashes_sized env" "aead_correct (sx_aead env)" "key_exchange_correct (sx_kx env)"
    and "hops_ok env hops" "kem_hops_ok env hops" "length dest = NODE_ID_SIZE" "length body \<le> BODY_SIZE"
    and "length (pr_pad rnd) + SLOT_SIZE * length hops = ROUTING_INFO_SIZE"
    and "length (pr_kem_pad rnd) + KEM_CIPHERTEXT_SIZE (sx_kx env) * length hops = KEM_BLOCK_SIZE env"
    and "route = \<lparr>hybrid_hops = map (\<lambda>(x, n). as_hop env \<lparr>classical = n, kem_secret = hd_kem_secret x\<rparr>) hops, hybrid_destination = dest\<rparr>"
    and "\<And>hy. hybrid_secrets env (pr_kem rnd) 0 (hybrid_hops route) (point_mul env BASE_POINT (pr_scalar rnd)) (pr_scalar rnd) = Inr hy \<Longrightarrow>
           fresh_tags env hops (map fst hy)"
  shows "\<exists>p ns. create_packet_hybrid env rnd route body = Inr p \<and>
    length (routing_info (sp_header p)) = ROUTING_INFO_SIZE \<and> length (sp_body p) = WIRE_BODY_SIZE \<and>
    length (kem_ciphertexts p) = KEM_BLOCK_SIZE env \<and>
    relay (hybrid_step env) hops p = Some (map (mn_node_id \<circ> snd) (tl hops) @ [dest], pad_body body, ns)"
  using hybrid_packet_delivers [OF assms] .

theorem hybrid_delivers_witness:
  "\<exists>p ns. create_packet_hybrid demo_sphinx (demo_random 2)
      \<lparr>hybrid_hops = map (\<lambda>(x, n). as_hop demo_sphinx \<lparr>classical = n, kem_secret = hd_kem_secret x\<rparr>) [demo_hop 5, demo_hop 7],
        hybrid_destination = replicate 16 9\<rparr> [42] = Inr p \<and>
    relay (hybrid_step demo_sphinx) [demo_hop 5, demo_hop 7] p = Some ([replicate 16 7, replicate 16 9], 42 # replicate 1023 0, ns)"
proof -
  have pad: "length (pr_pad (demo_random 2)) + SLOT_SIZE * length [demo_hop 5, demo_hop 7] = ROUTING_INFO_SIZE"
    "length (pr_kem_pad (demo_random 2)) + KEM_CIPHERTEXT_SIZE (sx_kx demo_sphinx) * length [demo_hop 5, demo_hop 7] = KEM_BLOCK_SIZE demo_sphinx"
    by (simp_all add: demo_random_def sphinx_sizes demo_sphinx_def demo_kx_def)
  have len: "length (replicate 16 9 :: bytes) = NODE_ID_SIZE" "length [42 :: u8] \<le> BODY_SIZE" "pad_body [42] = 42 # replicate 1023 0"
    by (simp_all add: sphinx_sizes BODY_SIZE_def pad_body_def)
  have ids: "mn_node_id (snd (demo_hop k)) = replicate 16 k" for k by (simp add: demo_hop_def from_private_key_def Let_def)
  let ?r = "\<lparr>hybrid_hops = map (\<lambda>(x, n). as_hop demo_sphinx \<lparr>classical = n, kem_secret = hd_kem_secret x\<rparr>) [demo_hop 5, demo_hop 7],
        hybrid_destination = replicate 16 9\<rparr>"
  have "fresh_tags demo_sphinx [demo_hop 5, demo_hop 7] (map fst hy)"
    if "hybrid_secrets demo_sphinx (pr_kem (demo_random 2)) 0 (hybrid_hops ?r) (point_mul demo_sphinx BASE_POINT (pr_scalar (demo_random 2))) (pr_scalar (demo_random 2)) = Inr hy" for hy
    using that by (intro demo_fresh) (auto simp: Let_def split: sum.splits)
  from hybrid_delivers [OF demo_sphinx_correct demo_hops_ok len(1,2) pad refl this] show ?thesis
    by (simp add: ids len(3)) blast
qed

end
