(* ===== verification/MixState.thy ===== *)
theory MixState
  imports Sphinx
begin

text \<open>
  A mix node over time: packets of both versions, session replies and the expiry sweep in any order. The
  invariant of its three bounded caches, replay protection, what unauthenticated input can change
  (nothing) and the fixed format of everything a node emits.
\<close>

section \<open>Events\<close>

definition arrive ::
  "'sc sphinx_env \<Rightarrow> bool \<Rightarrow> HopDraw \<Rightarrow> 'sc MixNode \<Rightarrow> SphinxPacket \<Rightarrow> (SphinxError + ProcessedPacket) \<times> 'sc MixNode" where
  "arrive env hybrid x node p = (if hybrid then hybrid_step env x node p else classical_step env x node p)"

datatype node_event = Packet bool HopDraw SphinxPacket | Reply SessionReply u64 | Sweep u64

fun node_exec :: "'sc sphinx_env \<Rightarrow> node_event \<Rightarrow> 'sc MixNode \<Rightarrow> 'sc MixNode" where
  "node_exec env (Packet hybrid x p) node = snd (arrive env hybrid x node p)"
| "node_exec env (Reply reply now) node = snd (process_session_reply env node reply now)"
| "node_exec env (Sweep now) node = clean_expired_sessions now node"

abbreviation node_run :: "'sc sphinx_env \<Rightarrow> node_event list \<Rightarrow> 'sc MixNode \<Rightarrow> 'sc MixNode" where
  "node_run env \<equiv> fold (node_exec env)"

fun is_packet :: "node_event \<Rightarrow> bool" where
  "is_packet (Packet _ _ _) = True"
| "is_packet _ = False"

inductive reachable_node :: "'sc sphinx_env \<Rightarrow> 'sc MixNode \<Rightarrow> 'sc MixNode \<Rightarrow> bool" for env node where
  start: "reachable_node env node node"
| event: "reachable_node env node n \<Longrightarrow> reachable_node env node (node_exec env ev n)"

section \<open>What a packet does to a node\<close>

text \<open>The checks before the shared secret is known, and that secret. It depends on the packet and the
  long-term keys only.\<close>

definition packet_secret :: "'sc sphinx_env \<Rightarrow> bool \<Rightarrow> bytes \<Rightarrow> 'sc \<Rightarrow> SphinxPacket \<Rightarrow> SphinxError + bytes" where
  "packet_secret env hybrid kem_sk sk p =
     (let h = sp_header p; classical_shared = point_mul env (ephemeral_key h) sk in
      if sh_version h \<noteq> (if hybrid then SPHINX_VERSION_HYBRID else SPHINX_VERSION_CLASSICAL) then Inl (UnsupportedVersion (sh_version h))
      else if length (routing_info h) \<noteq> ROUTING_INFO_SIZE \<or> length (sp_body p) \<noteq> WIRE_BODY_SIZE then Inl InvalidPacketSize
      else if \<not> hybrid then Inr classical_shared
      else if length (kem_ciphertexts p) \<noteq> KEM_BLOCK_SIZE env then Inl InvalidKemCiphertext
      else case decapsulate_with (sx_kx env) kem_sk (take (KEM_CIPHERTEXT_SIZE (sx_kx env)) (kem_ciphertexts p)) of
             Inl _ \<Rightarrow> Inl InvalidKemCiphertext
           | Inr kem_shared \<Rightarrow> Inr (derive_hybrid_shared_secret (sx_hkdf env) classical_shared kem_shared HYBRID_HOP_CONTEXT))"

lemma arrive_secret:
  "arrive env hybrid x node p =
     (case packet_secret env hybrid (hd_kem_secret x) (private_key node) p of
        Inl e \<Rightarrow> (Inl e, node)
      | Inr shared \<Rightarrow> peel_hop env (hd_now x) (hd_slot_pad x)
          (if hybrid then drop (KEM_CIPHERTEXT_SIZE (sx_kx env)) (kem_ciphertexts p) @ hd_kem_pad x else []) shared node p)"
  by (auto simp: arrive_def hybrid_step_def classical_step_def process_packet_def process_packet_hybrid_with_keys_def
      packet_secret_def SPHINX_VERSION_CLASSICAL_def SPHINX_VERSION_HYBRID_def Let_def split: sum.splits)

text \<open>The MAC in the header covers the first slot together with the body or the reply placeholder.\<close>

definition authentic :: "'sc sphinx_env \<Rightarrow> bytes \<Rightarrow> SphinxPacket \<Rightarrow> bool" where
  "authentic env shared p \<longleftrightarrow> (\<exists>body\<in>{sp_body p, replicate WIRE_BODY_SIZE 0}. sh_mac (sp_header p) =
     compute_mac env (mac_key (derive_hop_keys env shared)) (sh_version (sp_header p)) (ephemeral_key (sp_header p))
       (sh_session_id (sp_header p)) (take SLOT_SIZE (routing_info (sp_header p))) body)"

abbreviation tag_of :: "'sc sphinx_env \<Rightarrow> bytes \<Rightarrow> bytes" where
  "tag_of env shared \<equiv> hop_tag (derive_hop_keys env shared)"

lemma peel_hop_forged: "\<not> authentic env shared p \<Longrightarrow> peel_hop env now pad kem shared n p = (Inl MacVerificationFailed, n)"
  by (simp add: peel_hop_def authentic_def Let_def)

lemma peel_hop_replay:
  "authentic env shared p \<Longrightarrow> tag_of env shared \<in> seen_tags n \<Longrightarrow> peel_hop env now pad kem shared n p = (Inl SphinxReplayDetected, n)"
  by (auto simp: peel_hop_def authentic_def Let_def)

text \<open>An accepted packet records its tag and at most one session.\<close>

lemma peel_hop_fresh:
  assumes "authentic env shared p" "tag_of env shared \<notin> seen_tags n"
  shows "snd (peel_hop env now pad kem shared n p) = insert_seen_tag (tag_of env shared) n \<or>
    (\<exists>s. snd (peel_hop env now pad kem shared n p) =
       insert_session (sh_session_id (sp_header p)) s (insert_seen_tag (tag_of env shared) n) \<and> nonces_wf s)"
proof -
  let ?keys = "derive_hop_keys env shared"
  let ?slot = "take SLOT_SIZE (routing_info (sp_header p))"
  let ?block = "xor_slot env (stream_key ?keys) ?slot"
  define surb where "surb = (sh_mac (sp_header p) \<noteq> compute_mac env (mac_key ?keys) (sh_version (sp_header p))
    (ephemeral_key (sp_header p)) (sh_session_id (sp_header p)) ?slot (sp_body p))"
  define s where "s = (\<lambda>flag. \<lparr>cs_next_hop = take NODE_ID_SIZE ?block, cs_body_key = body_key ?keys, cs_is_final = (flag = Destination),
    cs_seen_nonces = {}, nonce_order = [], cs_created_at = now\<rparr>)"
  have s: "nonces_wf (s f)" for f by (simp add: nonces_wf_def s_def)
  have mac: "surb \<Longrightarrow> sh_mac (sp_header p) = compute_mac env (mac_key ?keys) (sh_version (sp_header p))
    (ephemeral_key (sp_header p)) (sh_session_id (sp_header p)) ?slot (replicate WIRE_BODY_SIZE 0)"
    using assms(1) by (auto simp: authentic_def surb_def)
  then have mac2: "surb \<Longrightarrow> compute_mac env (mac_key ?keys) (sh_version (sp_header p)) (ephemeral_key (sp_header p)) (sh_session_id (sp_header p)) ?slot (replicate WIRE_BODY_SIZE 0)
    \<noteq> compute_mac env (mac_key ?keys) (sh_version (sp_header p)) (ephemeral_key (sp_header p)) (sh_session_id (sp_header p)) ?slot (sp_body p)"
    by (auto simp: surb_def)
  have "snd (peel_hop env now pad kem shared n p) =
      (case RoutingFlag_try_from (?block ! NODE_ID_SIZE) of
         Inl _ \<Rightarrow> insert_seen_tag (tag_of env shared) n
       | Inr f \<Rightarrow> if surb then insert_session (sh_session_id (sp_header p)) (s f) (insert_seen_tag (tag_of env shared) n)
                  else insert_seen_tag (tag_of env shared) n)"
    using assms(2) mac mac2
    by (cases surb) (simp_all add: peel_hop_def Let_def surb_def [symmetric] s_def split: sum.split RoutingFlag.split)
  then show ?thesis
  proof (cases "RoutingFlag_try_from (?block ! NODE_ID_SIZE)")
    case (Inr f)
    assume "snd (peel_hop env now pad kem shared n p) =
      (case RoutingFlag_try_from (?block ! NODE_ID_SIZE) of
         Inl _ \<Rightarrow> insert_seen_tag (tag_of env shared) n
       | Inr f \<Rightarrow> if surb then insert_session (sh_session_id (sp_header p)) (s f) (insert_seen_tag (tag_of env shared) n)
                  else insert_seen_tag (tag_of env shared) n)"
    with Inr s [of f] show ?thesis by (cases surb) auto
  qed simp
qed

lemma peel_hop_errors:
  assumes "authentic env shared p" "tag_of env shared \<notin> seen_tags n" "length (sp_body p) = WIRE_BODY_SIZE" "hashes_sized env"
    and "fst (peel_hop env now pad kem shared n p) = Inl e"
  shows "e = InvalidRoutingFlag \<or> e = BodyAuthFailed"
  using assms by (auto simp: peel_hop_def authentic_def RoutingFlag_try_from_def aead_decrypt_body_def Let_def
      split: sum.splits RoutingFlag.splits if_splits)

section \<open>The invariant\<close>

definition node_wf :: "'sc MixNode \<Rightarrow> bool" where
  "node_wf n \<longleftrightarrow> tags_wf n \<and> sessions_wf n \<and> (\<forall>s\<in>set (hm_values (session_cache n)). nonces_wf s)"

lemma seen_insert_session [simp]:
  "seen_tags (insert_session sid s n) = seen_tags n" "seen_order (insert_session sid s n) = seen_order n"
  "private_key (insert_session sid s n) = private_key n"
  "mn_public_key (insert_session sid s n) = mn_public_key n" "mn_node_id (insert_session sid s n) = mn_node_id n"
  by (auto simp: insert_session_def Let_def split: list.splits)

lemma cache_insert_tag [simp]:
  "session_cache (insert_seen_tag t n) = session_cache n" "session_order (insert_seen_tag t n) = session_order n"
  "private_key (insert_seen_tag t n) = private_key n"
  "mn_public_key (insert_seen_tag t n) = mn_public_key n" "mn_node_id (insert_seen_tag t n) = mn_node_id n"
  by (auto simp: insert_seen_tag_def Let_def split: list.splits)

lemma hm_values_insert: "v \<in> set (hm_values (hm_insert k w m)) \<Longrightarrow> v = w \<or> v \<in> set (hm_values m)"
  by (induction m) (auto simp: hm_values_def hm_insert_def split: if_splits)

lemma hm_values_remove: "v \<in> set (hm_values (hm_remove k m)) \<Longrightarrow> v \<in> set (hm_values m)"
  by (induction m) (auto simp: hm_values_def hm_remove_def split: if_splits)

lemma hm_values_modify: "v \<in> set (hm_values (hm_modify k f m)) \<Longrightarrow> \<exists>w\<in>set (hm_values m). v = w \<or> v = f w"
  by (induction m) (auto simp: hm_values_def hm_modify_def split: if_splits)

lemma values_insert_session:
  "s' \<in> set (hm_values (session_cache (insert_session sid s n))) \<Longrightarrow> s' = s \<or> s' \<in> set (hm_values (session_cache n))"
  by (auto simp: insert_session_def Let_def dest!: hm_values_insert hm_values_remove split: list.splits if_splits)

lemma node_wf_tag [wf_intros]: "node_wf n \<Longrightarrow> node_wf (insert_seen_tag t n)"
  by (simp add: node_wf_def tags.invar_add) (simp add: sessions_wf_def)

lemma node_wf_session [wf_intros]: "node_wf n \<Longrightarrow> nonces_wf s \<Longrightarrow> node_wf (insert_session sid s n)"
  using sessions.invar_add [of n sid "\<lambda>_. s"] by (auto simp: node_wf_def tags_wf_def dest: values_insert_session)

lemma node_wf_peel: "node_wf n \<Longrightarrow> node_wf (snd (peel_hop env now pad kem shared n p))"
proof -
  assume wf: "node_wf n"
  consider "\<not> authentic env shared p" | "authentic env shared p" "tag_of env shared \<in> seen_tags n"
    | "authentic env shared p" "tag_of env shared \<notin> seen_tags n" by blast
  then show ?thesis
  proof cases
    case 3
    from peel_hop_fresh [OF this] show ?thesis using wf by (metis node_wf_session node_wf_tag)
  qed (simp_all add: wf peel_hop_forged peel_hop_replay)
qed

lemma node_wf_reply: "node_wf n \<Longrightarrow> node_wf (snd (process_session_reply env n reply now))"
proof -
  assume wf: "node_wf n"
  let ?sid = "sr_session_id reply"
  note d = sessions_wfD [of n]
  have rm: "node_wf (n\<lparr>session_cache := hm_remove ?sid (session_cache n),
      session_order := filter (\<lambda>sid. sid \<noteq> ?sid) (session_order n)\<rparr>)"
  proof -
    have "mset (hm_keys (hm_remove ?sid (session_cache n))) = mset (filter (\<lambda>sid. sid \<noteq> ?sid) (session_order n))"
      using wf by (simp add: node_wf_def sessions_wf_def keys_hm_remove removeAll_filter_not_eq)
        (metis (no_types, lifting) filter_mset_cong mset_filter)
    moreover have "length (filter (\<lambda>sid. sid \<noteq> ?sid) (session_order n)) \<le> MAX_SESSION_CACHE"
      using wf length_filter_le [of "\<lambda>sid. sid \<noteq> ?sid" "session_order n"] unfolding node_wf_def sessions_wf_def by linarith
    ultimately show ?thesis
      using wf by (auto simp: node_wf_def sessions_wf_def tags_wf_def dest: hm_values_remove)
  qed
  have md: "node_wf (n\<lparr>session_cache := hm_modify ?sid (record_nonce (sr_nonce reply)) (session_cache n)\<rparr>)"
  proof -
    have "nonces_wf s" if "s \<in> set (hm_values (hm_modify ?sid (record_nonce (sr_nonce reply)) (session_cache n)))" for s
      using hm_values_modify [OF that] wf by (auto simp: node_wf_def nonces.invar_add)
    then show ?thesis using wf by (simp add: node_wf_def sessions_wf_def tags_wf_def hm_keys_def)
  qed
  show ?thesis using wf rm md by (simp add: process_session_reply_def split: option.splits)
qed

lemma node_wf_sweep: "node_wf n \<Longrightarrow> node_wf (clean_expired_sessions t n)"
  using sessions_wf_clean [of n t]
  by (auto simp: node_wf_def clean_expired_sessions_def tags_wf_def hm_values_def hm_retain_def Let_def)

lemma node_wf_exec [wf_intros]: "node_wf n \<Longrightarrow> node_wf (node_exec env ev n)"
  by (cases ev) (auto simp: arrive_secret node_wf_peel node_wf_reply node_wf_sweep split: sum.split)

lemma node_wf_run: "node_wf n \<Longrightarrow> node_wf (node_run env evs n)"
  by (induction evs arbitrary: n) (simp_all add: node_wf_exec)

lemma node_wf_new: "node_wf (from_private_key env k i)"
  by (simp add: node_wf_def tags_wf_def sessions_wf_def from_private_key_def hm_keys_def hm_values_def Let_def)

lemma keys_peel:
  assumes "snd (peel_hop env now pad kem shared n p) = n'"
  shows "private_key n' = private_key n" "mn_public_key n' = mn_public_key n" "mn_node_id n' = mn_node_id n"
proof -
  consider "\<not> authentic env shared p" | "authentic env shared p" "tag_of env shared \<in> seen_tags n"
    | "authentic env shared p" "tag_of env shared \<notin> seen_tags n" by blast
  then have "private_key n' = private_key n \<and> mn_public_key n' = mn_public_key n \<and> mn_node_id n' = mn_node_id n"
  proof cases
    case 3
    from peel_hop_fresh [OF this, of now pad kem] show ?thesis unfolding assms by auto
  qed (use assms in \<open>simp_all add: peel_hop_forged peel_hop_replay\<close>)
  then show "private_key n' = private_key n" "mn_public_key n' = mn_public_key n" "mn_node_id n' = mn_node_id n" by simp_all
qed

lemma keys_exec [simp]:
  "private_key (node_exec env ev n) = private_key n" "mn_public_key (node_exec env ev n) = mn_public_key n"
  "mn_node_id (node_exec env ev n) = mn_node_id n"
proof -
  have "private_key (node_exec env ev n) = private_key n \<and> mn_public_key (node_exec env ev n) = mn_public_key n \<and>
      mn_node_id (node_exec env ev n) = mn_node_id n"
  proof (cases ev)
    case (Packet h x p)
    then show ?thesis by (simp add: arrive_secret keys_peel [OF refl] split: sum.split)
  next
    case (Reply r t)
    then show ?thesis by (simp add: process_session_reply_def split: option.split)
  next
    case (Sweep t)
    then show ?thesis by (simp add: clean_expired_sessions_def Let_def)
  qed
  then show "private_key (node_exec env ev n) = private_key n" "mn_public_key (node_exec env ev n) = mn_public_key n"
    "mn_node_id (node_exec env ev n) = mn_node_id n" by simp_all
qed

lemma private_key_run [simp]: "private_key (node_run env evs n) = private_key n"
  by (induction evs arbitrary: n) simp_all

lemma node_wf_reachable: "reachable_node env n0 n \<Longrightarrow> node_wf n0 \<Longrightarrow> node_wf n"
  by (induction rule: reachable_node.induct) (auto intro: wf_intros)

lemma keys_reachable: "reachable_node env n0 n \<Longrightarrow>
    private_key n = private_key n0 \<and> mn_public_key n = mn_public_key n0 \<and> mn_node_id n = mn_node_id n0"
  by (induction rule: reachable_node.induct) simp_all

text \<open>Whatever packets, session replies and expiry sweeps a node sees, and in whatever
  order, its memory stays bounded: at most \<open>MAX_SEEN_TAGS\<close> replay tags, \<open>MAX_SESSION_CACHE\<close> sessions and
  \<open>MAX_SESSION_NONCES\<close> nonces per session, each cache consistent with the queue it is evicted by. The key
  pair and the id of the node never change.\<close>

theorem mix_node_bounded:
  assumes "reachable_node env (from_private_key env key_bytes node_id) n"
  shows "seen_count n \<le> MAX_SEEN_TAGS \<and> seen_tags n = set (seen_order n) \<and> distinct (seen_order n) \<and>
    hm_len (session_cache n) \<le> MAX_SESSION_CACHE \<and> mset (hm_keys (session_cache n)) = mset (session_order n) \<and>
    (\<forall>s\<in>set (hm_values (session_cache n)). card (cs_seen_nonces s) \<le> MAX_SESSION_NONCES \<and> cs_seen_nonces s = set (nonce_order s)) \<and>
    private_key n = scalar_from_bytes env key_bytes \<and> mn_public_key n = point_mul env BASE_POINT (private_key n) \<and> mn_node_id n = node_id"
proof -
  have wf: "node_wf n" by (rule node_wf_reachable [OF assms node_wf_new])
  have k: "private_key n = scalar_from_bytes env key_bytes" "mn_public_key n = point_mul env BASE_POINT (private_key n)" "mn_node_id n = node_id"
    using keys_reachable [OF assms] by (simp_all add: from_private_key_def Let_def)
  have n: "card (cs_seen_nonces s) \<le> MAX_SESSION_NONCES \<and> cs_seen_nonces s = set (nonce_order s)"
    if "s \<in> set (hm_values (session_cache n))" for s
    using wf that by (auto simp: node_wf_def nonces_wf_def distinct_card)
  have t: "tags_wf n" "sessions_wf n" using wf by (simp_all add: node_wf_def)
  have "seen_count n \<le> MAX_SEEN_TAGS" "seen_tags n = set (seen_order n)" "distinct (seen_order n)"
    using t(1) by (simp_all add: tags_wf_def seen_count_def distinct_card)
  moreover have "hm_len (session_cache n) \<le> MAX_SESSION_CACHE" "mset (hm_keys (session_cache n)) = mset (session_order n)"
    using sessions_wfD(4,5) [OF t(2)] t(2) by (simp_all add: sessions_wf_def)
  ultimately show ?thesis using k n by blast
qed

theorem mix_node_bounded_witness:
  "seen_count (node_exec demo_sphinx (Sweep 9) (from_private_key demo_sphinx [5] [1])) \<le> MAX_SEEN_TAGS"
proof -
  have "reachable_node demo_sphinx (from_private_key demo_sphinx [5] [1]) (node_exec demo_sphinx (Sweep 9) (from_private_key demo_sphinx [5] [1]))"
    by (intro reachable_node.intros)
  from mix_node_bounded [OF this] show ?thesis by blast
qed

section \<open>Replay protection\<close>

text \<open>Only packets push replay tags, at most one each.\<close>

lemma seen_order_exec:
  assumes "node_wf n"
  shows "\<exists>tags. length tags \<le> (if is_packet ev then 1 else 0) \<and>
    seen_order (node_exec env ev n) = fold (fifo_push MAX_SEEN_TAGS) tags (seen_order n)"
proof (cases ev)
  case (Packet h x p)
  have wf: "tags_wf n" using assms by (simp add: node_wf_def)
  have "seen_order (node_exec env ev n) = seen_order n \<or>
      (\<exists>t. seen_order (node_exec env ev n) = fifo_push MAX_SEEN_TAGS t (seen_order n))"
  proof (cases "packet_secret env h (hd_kem_secret x) (private_key n) p")
    case (Inr shared)
    let ?kem = "if h then drop (KEM_CIPHERTEXT_SIZE (sx_kx env)) (kem_ciphertexts p) @ hd_kem_pad x else []"
    have e: "node_exec env ev n = snd (peel_hop env (hd_now x) (hd_slot_pad x) ?kem shared n p)"
      using Packet Inr by (simp add: arrive_secret)
    consider "\<not> authentic env shared p" | "authentic env shared p" "tag_of env shared \<in> seen_tags n"
      | "authentic env shared p" "tag_of env shared \<notin> seen_tags n" by blast
    then show ?thesis
    proof cases
      case 3
      from peel_hop_fresh [OF this, of "hd_now x" "hd_slot_pad x" ?kem] show ?thesis
        unfolding e [symmetric] using tags.keys_add [OF wf] by auto
    qed (simp_all add: e peel_hop_forged peel_hop_replay)
  qed (simp add: Packet arrive_secret)
  then show ?thesis
  proof (elim disjE exE)
    fix t assume "seen_order (node_exec env ev n) = fifo_push MAX_SEEN_TAGS t (seen_order n)"
    then show ?thesis using Packet by (intro exI [of _ "[t]"]) simp
  qed (intro exI [of _ "[]"], simp)
next
  case (Reply r t)
  then show ?thesis by (intro exI [of _ "[]"]) (simp add: process_session_reply_def split: option.split)
next
  case (Sweep t)
  then show ?thesis by (intro exI [of _ "[]"]) (simp add: clean_expired_sessions_def Let_def)
qed

lemma seen_order_run:
  "node_wf n \<Longrightarrow> \<exists>tags. length tags \<le> length (filter is_packet evs) \<and>
     seen_order (node_run env evs n) = fold (fifo_push MAX_SEEN_TAGS) tags (seen_order n)"
proof (induction evs arbitrary: n)
  case (Cons ev evs)
  obtain t1 where 1: "length t1 \<le> (if is_packet ev then 1 else 0)"
    "seen_order (node_exec env ev n) = fold (fifo_push MAX_SEEN_TAGS) t1 (seen_order n)"
    using seen_order_exec [OF Cons.prems] by blast
  obtain t2 where 2: "length t2 \<le> length (filter is_packet evs)"
    "seen_order (node_run env evs (node_exec env ev n)) = fold (fifo_push MAX_SEEN_TAGS) t2 (seen_order (node_exec env ev n))"
    using Cons.IH [OF node_wf_exec [OF Cons.prems]] by blast
  show ?case using 1 2 by (intro exI [of _ "t1 @ t2"]) (auto split: if_splits)
qed simp

text \<open>A tag recorded now is still known while fewer than \<open>MAX_SEEN_TAGS\<close> packets have arrived since.\<close>

lemma tag_remembered:
  assumes "node_wf n" "node_wf n'" "t \<notin> seen_tags n" "seen_order n' = seen_order (insert_seen_tag t n)"
    "length (filter is_packet evs) < MAX_SEEN_TAGS"
  shows "t \<in> seen_tags (node_run env evs n')"
proof -
  obtain tags where tags: "length tags \<le> length (filter is_packet evs)"
    "seen_order (node_run env evs n') = fold (fifo_push MAX_SEEN_TAGS) tags (seen_order n')"
    using seen_order_run [OF assms(2)] by blast
  have wf: "tags_wf n" "tags_wf (node_run env evs n')"
    using assms(1) node_wf_run [OF assms(2)] by (simp_all add: node_wf_def)
  have "seen_order (node_run env evs n') = seen_order (fold insert_seen_tag tags (insert_seen_tag t n))"
    using tags(2) assms(4) tags.keys_fold [OF tags.invar_add [OF wf(1)]] by simp
  moreover have "t \<in> seen_tags (fold insert_seen_tag tags (insert_seen_tag t n))"
    using tags.window [OF wf(1) assms(3)] tags(1) assms(5) by simp
  ultimately show ?thesis
    using tags.has_iff [OF wf(2)] tags.has_iff [OF tags.invar_fold [OF tags.invar_add [OF wf(1)]]] by simp
qed

lemma authentic_accepted: "fst (peel_hop env now pad kem shared n p) = Inr r \<Longrightarrow> authentic env shared p \<and> tag_of env shared \<notin> seen_tags n"
  using peel_hop_forged peel_hop_replay by (metis fst_conv sum.distinct(1))

text \<open>After a packet was accepted, no packet that leads to the same shared secret is: it is a replay, or
  its MAC fails.\<close>

lemma same_secret_refused:
  assumes "reachable_node env (from_private_key env key_bytes node_id) n"
    and "arrive env hybrid x n p = (Inr r, n')" "hd_kem_secret y = hd_kem_secret x"
    and "length (filter is_packet evs) < MAX_SEEN_TAGS"
    and "packet_secret env hybrid (hd_kem_secret x) (private_key n) p = Inr shared"
    and "packet_secret env hybrid (hd_kem_secret x) (private_key n) q = Inr shared"
  shows "authentic env shared p"
    and "arrive env hybrid y (node_run env evs n') q =
      (Inl (if authentic env shared q then SphinxReplayDetected else MacVerificationFailed), node_run env evs n')"
proof -
  let ?m = "node_run env evs n'"
  let ?kem = "\<lambda>x p. if hybrid then drop (KEM_CIPHERTEXT_SIZE (sx_kx env)) (kem_ciphertexts p) @ hd_kem_pad x else []"
  have peel: "peel_hop env (hd_now x) (hd_slot_pad x) (?kem x p) shared n p = (Inr r, n')"
    using assms(2,5) by (simp add: arrive_secret)
  have a: "authentic env shared p" "tag_of env shared \<notin> seen_tags n"
    using authentic_accepted [of env "hd_now x" "hd_slot_pad x" "?kem x p" shared n p r] peel by simp_all
  have wf: "node_wf n" by (rule node_wf_reachable [OF assms(1) node_wf_new])
  have n': "node_wf n'" "seen_order n' = seen_order (insert_seen_tag (tag_of env shared) n)" "private_key n' = private_key n"
    using node_wf_peel [OF wf, of env "hd_now x" "hd_slot_pad x" "?kem x p" shared p]
      peel_hop_fresh [OF a, of "hd_now x" "hd_slot_pad x" "?kem x p"] peel keys_peel(1) by auto
  have seen: "tag_of env shared \<in> seen_tags ?m" by (rule tag_remembered [OF wf n'(1) a(2) n'(2) assms(4)])
  have any: "arrive env hybrid y ?m q = peel_hop env (hd_now y) (hd_slot_pad y) (?kem y q) shared ?m q"
    using assms(3,6) n'(3) by (simp add: arrive_secret)
  show "authentic env shared p" by (rule a(1))
  show "arrive env hybrid y ?m q = (Inl (if authentic env shared q then SphinxReplayDetected else MacVerificationFailed), ?m)"
    by (cases "authentic env shared q") (simp_all add: any peel_hop_forged peel_hop_replay seen)
qed

lemma accepted_secret:
  assumes "arrive env hybrid x n p = (Inr r, n')"
  obtains shared where "packet_secret env hybrid (hd_kem_secret x) (private_key n) p = Inr shared"
  using assms by (cases "packet_secret env hybrid (hd_kem_secret x) (private_key n) p") (auto simp: arrive_secret)

text \<open>C8 (safety). Replay protection. Once a node in any reachable state has accepted a packet, the same
  packet is refused as a replay, without any change of the node, as long as fewer than \<open>MAX_SEEN_TAGS\<close>
  other packets arrive in between, whatever else happens. Every other packet that leads to the same shared
  secret, an altered copy for instance, is refused too.\<close>

theorem replay_rejected:
  assumes "reachable_node env (from_private_key env key_bytes node_id) n"
    and "arrive env hybrid x n p = (Inr r, n')" "hd_kem_secret y = hd_kem_secret x"
    and "length (filter is_packet evs) < MAX_SEEN_TAGS"
  shows "arrive env hybrid y (node_run env evs n') p = (Inl SphinxReplayDetected, node_run env evs n') \<and>
    (\<forall>q. packet_secret env hybrid (hd_kem_secret x) (private_key n) q = packet_secret env hybrid (hd_kem_secret x) (private_key n) p \<longrightarrow>
       arrive env hybrid y (node_run env evs n') q \<in> {Inl SphinxReplayDetected, Inl MacVerificationFailed} \<times> {node_run env evs n'})"
proof -
  obtain shared where s: "packet_secret env hybrid (hd_kem_secret x) (private_key n) p = Inr shared"
    using accepted_secret [OF assms(2)] .
  note r = same_secret_refused [OF assms(1-4) s]
  from r(2) [OF s] r(1) [OF s] r(2) show ?thesis by (auto simp: s)
qed

lemma relay_first: "relay step ((x, n) # hops) p = Some res \<Longrightarrow> \<exists>r n'. step x n p = (Inr r, n')"
  by (cases "step x n p"; cases "fst (step x n p)") auto

text \<open>For the witness: a node that accepts a packet built for it.\<close>

lemma demo_accepts: "\<exists>p r n'. arrive demo_sphinx False (fst (demo_hop 5)) (snd (demo_hop 5)) p = (Inr r, n')"
proof -
  let ?ss = "hop_secrets demo_sphinx (map (mn_public_key \<circ> snd) [demo_hop 5]) (point_mul demo_sphinx BASE_POINT 3) 3"
  have ok: "hops_ok demo_sphinx [demo_hop 5]" using demo_hops_ok(1) by (simp add: hops_ok_def)
  have "fresh_tags demo_sphinx [demo_hop 5] ?ss"
    by (simp add: fresh_tags_def demo_hop_def from_private_key_def Let_def)
  then have "chain_ok demo_sphinx SPHINX_VERSION_CLASSICAL (classical_step demo_sphinx) [demo_hop 5] ?ss []"
    using ok by (intro chain_classical [OF demo_sphinx_correct(1)]) (auto simp: hops_ok_def)
  from sealed_packet_delivers [OF demo_sphinx_correct(2,3) _ _ this _ ok, of "replicate 16 9" "[42]" "replicate 132 0"]
  have "\<exists>p res. relay (classical_step demo_sphinx) [demo_hop 5] p = Some res"
    by (simp add: sphinx_sizes) blast
  then show ?thesis
    using relay_first [of "classical_step demo_sphinx" "fst (demo_hop 5)" "snd (demo_hop 5)" "[]"] unfolding prod.collapse arrive_def by simp metis
qed

theorem replay_rejected_witness:
  "\<exists>p r n'. arrive demo_sphinx False (fst (demo_hop 5)) (snd (demo_hop 5)) p = (Inr r, n') \<and>
     arrive demo_sphinx False (fst (demo_hop 5)) (node_run demo_sphinx [Sweep 200, Packet True (fst (demo_hop 5)) p] n') p =
       (Inl SphinxReplayDetected, node_run demo_sphinx [Sweep 200, Packet True (fst (demo_hop 5)) p] n')"
proof -
  obtain p r n' where p: "arrive demo_sphinx False (fst (demo_hop 5)) (snd (demo_hop 5)) p = (Inr r, n')" using demo_accepts by blast
  have "reachable_node demo_sphinx (from_private_key demo_sphinx [5] (replicate 16 5)) (snd (demo_hop 5))"
    by (simp add: demo_hop_def reachable_node.start)
  from replay_rejected [OF this p refl, of "[Sweep 200, Packet True (fst (demo_hop 5)) p]"] p show ?thesis
    by (auto simp: MAX_SEEN_TAGS_def)
qed

section \<open>Rejected input\<close>

text \<open>C33 (error). What a node rejects and what a rejection may change. A packet of the wrong version or
  size is refused with its own error; so are a KEM block of the wrong size or one that does not open, a packet whose MAC does not
  verify, and a packet whose tag was seen. None of these touches the node. A refused packet changes the node in two cases only, an unknown
  routing flag and a body that fails its own authentication: such a packet is authenticated under the shared secret and was not seen before, and, like an
  accepted one, it leaves its tag and at most one session behind. Nothing else ever changes the node.\<close>

theorem rejected_packets_harmless:
  assumes "hashes_sized env" and "arrive env hybrid x n p = (res, n')"
  shows "(sh_version (sp_header p) \<noteq> (if hybrid then SPHINX_VERSION_HYBRID else SPHINX_VERSION_CLASSICAL) \<longrightarrow>
      res = Inl (UnsupportedVersion (sh_version (sp_header p))) \<and> n' = n) \<and>
    (sh_version (sp_header p) = (if hybrid then SPHINX_VERSION_HYBRID else SPHINX_VERSION_CLASSICAL) \<longrightarrow>
      (length (routing_info (sp_header p)) \<noteq> ROUTING_INFO_SIZE \<or> length (sp_body p) \<noteq> WIRE_BODY_SIZE \<longrightarrow>
        res = Inl InvalidPacketSize \<and> n' = n) \<and>
      (length (routing_info (sp_header p)) = ROUTING_INFO_SIZE \<and> length (sp_body p) = WIRE_BODY_SIZE \<and>
       hybrid \<and> length (kem_ciphertexts p) \<noteq> KEM_BLOCK_SIZE env \<longrightarrow> res = Inl InvalidKemCiphertext \<and> n' = n)) \<and>
    (\<forall>shared. packet_secret env hybrid (hd_kem_secret x) (private_key n) p = Inr shared \<and> \<not> authentic env shared p \<longrightarrow>
      res = Inl MacVerificationFailed \<and> n' = n) \<and>
    (\<forall>e. packet_secret env hybrid (hd_kem_secret x) (private_key n) p = Inl e \<longrightarrow> res = Inl e \<and> n' = n) \<and>
    (\<forall>shared. packet_secret env hybrid (hd_kem_secret x) (private_key n) p = Inr shared \<and> authentic env shared p \<and> tag_of env shared \<in> seen_tags n \<longrightarrow>
      res = Inl SphinxReplayDetected \<and> n' = n) \<and>
    (\<forall>e. res = Inl e \<and> e \<noteq> InvalidRoutingFlag \<and> e \<noteq> BodyAuthFailed \<longrightarrow> n' = n) \<and>
    (n' \<noteq> n \<longrightarrow> (\<exists>shared. packet_secret env hybrid (hd_kem_secret x) (private_key n) p = Inr shared \<and>
      authentic env shared p \<and> tag_of env shared \<notin> seen_tags n \<and>
      (n' = insert_seen_tag (tag_of env shared) n \<or>
       (\<exists>s. n' = insert_session (sh_session_id (sp_header p)) s (insert_seen_tag (tag_of env shared) n))) \<and>
      (\<forall>e. res = Inl e \<longrightarrow> e = InvalidRoutingFlag \<or> e = BodyAuthFailed)))" (is "?A \<and> ?B \<and> ?C \<and> ?S \<and> ?R \<and> ?E \<and> ?D")
proof -
  let ?kem = "if hybrid then drop (KEM_CIPHERTEXT_SIZE (sx_kx env)) (kem_ciphertexts p) @ hd_kem_pad x else []"
  have AB: ?A ?B using assms(2) by (auto simp: arrive_secret packet_secret_def Let_def)
  have C: ?C using assms(2) by (auto simp: arrive_secret peel_hop_forged)
  have S: ?S using assms(2) by (auto simp: arrive_secret)
  have R: ?R using assms(2) by (auto simp: arrive_secret peel_hop_replay)
  have D: ?D
  proof
    assume ne: "n' \<noteq> n"
    obtain shared where s: "packet_secret env hybrid (hd_kem_secret x) (private_key n) p = Inr shared"
      using assms(2) ne by (cases "packet_secret env hybrid (hd_kem_secret x) (private_key n) p") (auto simp: arrive_secret)
    have peel: "peel_hop env (hd_now x) (hd_slot_pad x) ?kem shared n p = (res, n')"
      using assms(2) s by (simp add: arrive_secret)
    have a: "authentic env shared p" "tag_of env shared \<notin> seen_tags n"
      using peel ne peel_hop_forged peel_hop_replay by (metis snd_conv)+
    have "length (sp_body p) = WIRE_BODY_SIZE" using s by (auto simp: packet_secret_def Let_def split: if_splits)
    with peel_hop_errors [OF a this assms(1), of "hd_now x" "hd_slot_pad x" ?kem]
      peel_hop_fresh [OF a, of "hd_now x" "hd_slot_pad x" ?kem] peel s a
    show "\<exists>shared. packet_secret env hybrid (hd_kem_secret x) (private_key n) p = Inr shared \<and>
      authentic env shared p \<and> tag_of env shared \<notin> seen_tags n \<and>
      (n' = insert_seen_tag (tag_of env shared) n \<or>
       (\<exists>s. n' = insert_session (sh_session_id (sp_header p)) s (insert_seen_tag (tag_of env shared) n))) \<and>
      (\<forall>e. res = Inl e \<longrightarrow> e = InvalidRoutingFlag \<or> e = BodyAuthFailed)" by auto
  qed
  then have ?E by blast
  with AB C S R D show ?thesis by blast
qed

text \<open>A wrong version, and a packet that arrives a second time at the node that accepted it.\<close>

theorem rejected_packets_harmless_witness:
  "arrive demo_sphinx True (fst (demo_hop 5)) (snd (demo_hop 5))
     \<lparr>sp_header = \<lparr>sh_version = 0, ephemeral_key = [], sh_session_id = [], routing_info = [], sh_mac = []\<rparr>, kem_ciphertexts = [], sp_body = []\<rparr> =
   (Inl (UnsupportedVersion 0), snd (demo_hop 5)) \<and>
   (\<exists>p r n'. arrive demo_sphinx False (fst (demo_hop 5)) (snd (demo_hop 5)) p = (Inr r, n') \<and> n' \<noteq> snd (demo_hop 5) \<and>
      arrive demo_sphinx False (fst (demo_hop 5)) n' p = (Inl SphinxReplayDetected, n'))"
proof
  show "arrive demo_sphinx True (fst (demo_hop 5)) (snd (demo_hop 5))
     \<lparr>sp_header = \<lparr>sh_version = 0, ephemeral_key = [], sh_session_id = [], routing_info = [], sh_mac = []\<rparr>, kem_ciphertexts = [], sp_body = []\<rparr> =
   (Inl (UnsupportedVersion 0), snd (demo_hop 5))"
    using rejected_packets_harmless [OF demo_sphinx_correct(2) prod.collapse [symmetric], where hybrid = True and x = "fst (demo_hop 5)" and n = "snd (demo_hop 5)"
      and p = "\<lparr>sp_header = \<lparr>sh_version = 0, ephemeral_key = [], sh_session_id = [], routing_info = [], sh_mac = []\<rparr>, kem_ciphertexts = [], sp_body = []\<rparr>"]
    by (simp add: SPHINX_VERSION_HYBRID_def prod_eq_iff)
  let ?n = "snd (demo_hop 5)" and ?x = "fst (demo_hop 5)"
  obtain p r n' where p: "arrive demo_sphinx False ?x ?n p = (Inr r, n')" using demo_accepts by blast
  obtain shared where s: "packet_secret demo_sphinx False (hd_kem_secret ?x) (private_key ?n) p = Inr shared" using accepted_secret [OF p] .
  have peel: "peel_hop demo_sphinx (hd_now ?x) (hd_slot_pad ?x) [] shared ?n p = (Inr r, n')" using p s by (simp add: arrive_secret)
  have a: "authentic demo_sphinx shared p" "tag_of demo_sphinx shared \<notin> seen_tags ?n"
    using authentic_accepted [of demo_sphinx "hd_now ?x" "hd_slot_pad ?x" "[]" shared ?n p r] peel by simp_all
  have "seen_tags (insert_seen_tag t ?n) = {t}" for t
    by (simp add: insert_seen_tag_def demo_hop_def from_private_key_def Let_def MAX_SEEN_TAGS_def)
  then have seen: "tag_of demo_sphinx shared \<in> seen_tags n'"
    using peel_hop_fresh [OF a, of "hd_now ?x" "hd_slot_pad ?x" "[]"] peel by auto
  have k: "private_key n' = private_key ?n" using keys_peel(1) [of demo_sphinx "hd_now ?x" "hd_slot_pad ?x" "[]" shared ?n p] peel by simp
  have "arrive demo_sphinx False ?x n' p = (Inl SphinxReplayDetected, n')"
    using rejected_packets_harmless [OF demo_sphinx_correct(2) prod.collapse [symmetric], where hybrid = False and x = ?x and n = n' and p = p] s a(1) seen k
    by (simp add: prod_eq_iff)
  then show "\<exists>p r n'. arrive demo_sphinx False ?x ?n p = (Inr r, n') \<and> n' \<noteq> ?n \<and> arrive demo_sphinx False ?x n' p = (Inl SphinxReplayDetected, n')"
    using p seen a(2) by blast
qed

section \<open>Everything on the wire looks the same\<close>

text \<open>A ciphertext that opens is its plaintext and a 16-byte tag.\<close>

definition aead_opens_sized :: "aead \<Rightarrow> bool" where
  "aead_opens_sized c \<longleftrightarrow> (\<forall>k n ct a p. aead_open c k n ct a = Some p \<longrightarrow> length ct = length p + 16)"

lemma peel_hop_format:
  assumes h: "hashes_sized env" and o: "aead_opens_sized (sx_aead env)"
    and l: "length (routing_info (sp_header p)) = ROUTING_INFO_SIZE" "length (sp_body p) = WIRE_BODY_SIZE" "length pad = SLOT_SIZE"
    and r: "peel_hop env now pad kem shared n p = (Inr r, n')"
  shows "length (pp_next_hop r) = NODE_ID_SIZE \<and>
    (case pp_flag r of
       Forward \<Rightarrow> pp_body r = None \<and> (\<exists>q. forward_packet r = Some q \<and> sh_version (sp_header q) = sh_version (sp_header p) \<and>
         sh_session_id (sp_header q) = sh_session_id (sp_header p) \<and> length (routing_info (sp_header q)) = ROUTING_INFO_SIZE \<and>
         length (sh_mac (sp_header q)) = MAC_SIZE \<and> length (sp_body q) = WIRE_BODY_SIZE \<and> kem_ciphertexts q = kem)
     | Destination \<Rightarrow> forward_packet r = None \<and> (\<exists>b. pp_body r = Some b \<and> length b = BODY_SIZE))"
proof -
  have a: "authentic env shared p" "tag_of env shared \<notin> seen_tags n"
    using authentic_accepted [of env now pad kem shared n p r] r by simp_all
  define block where "block = xor_slot env (stream_key (derive_hop_keys env shared)) (take SLOT_SIZE (routing_info (sp_header p)))"
  have len: "length block = SLOT_SIZE" using h l(1) by (simp add: block_def sphinx_sizes)
  have dec: "length b = BODY_SIZE" if "aead_decrypt_body env k c d = Inr b" for k c d b
    using that o by (fastforce simp: aead_opens_sized_def aead_decrypt_body_def decrypt_aad_def sphinx_sizes split: if_splits option.splits)
  obtain f where f: "RoutingFlag_try_from (block ! NODE_ID_SIZE) = Inr f"
    using r a by (cases "RoutingFlag_try_from (block ! NODE_ID_SIZE)") (auto simp: peel_hop_def authentic_def Let_def block_def split: if_splits)
  have parts: "length (take NODE_ID_SIZE block) = NODE_ID_SIZE" "length (drop (NODE_ID_SIZE + FLAG_SIZE) block) = MAC_SIZE"
    "length (drop SLOT_SIZE (routing_info (sp_header p)) @ pad) = ROUTING_INFO_SIZE"
    using len l by (simp_all add: sphinx_sizes)
  define peeled where "peeled = xor_body env (body_key (derive_hop_keys env shared)) (sp_body p)"
  have pl: "length peeled = WIRE_BODY_SIZE" using h l(2) by (simp add: peeled_def)
  have "pp_flag r = f \<and> pp_next_hop r = take NODE_ID_SIZE block \<and>
    (case f of Forward \<Rightarrow> pp_body r = None \<and> forward_packet r = Some \<lparr>sp_header = \<lparr>sh_version = sh_version (sp_header p),
          ephemeral_key = point_mul env (ephemeral_key (sp_header p)) (blinding_factor env shared),
          sh_session_id = sh_session_id (sp_header p), routing_info = drop SLOT_SIZE (routing_info (sp_header p)) @ pad,
          sh_mac = drop (NODE_ID_SIZE + FLAG_SIZE) block\<rparr>, kem_ciphertexts = kem, sp_body = peeled\<rparr>
     | Destination \<Rightarrow> forward_packet r = None \<and>
          (\<exists>b. aead_decrypt_body env (derive_body_aead_key env shared) peeled (take NODE_ID_SIZE block) = Inr b \<and> pp_body r = Some b))"
    using r a(2) f by (cases f) (auto simp: peel_hop_def Let_def block_def [symmetric] peeled_def [symmetric] split: if_splits sum.splits)
  then show ?thesis using parts pl dec by (cases f) auto
qed

text \<open>C39 (type). Packets keep their format at every hop, so that size and layout reveal neither the
  position on the route nor the kind of traffic. Whatever a node accepts, it either forwards a packet with
  the same version and session id, the full routing information, MAC, body and KEM block sizes, and keeps
  no body; or it delivers a body of exactly \<open>BODY_SIZE\<close> bytes and forwards nothing.\<close>

theorem packet_format_kept:
  assumes "hashes_sized env" "aead_opens_sized (sx_aead env)"
    and "length (hd_slot_pad x) = SLOT_SIZE" "hybrid \<longrightarrow> length (hd_kem_pad x) = KEM_CIPHERTEXT_SIZE (sx_kx env)"
    and "arrive env hybrid x n p = (Inr r, n')"
  shows "length (pp_next_hop r) = NODE_ID_SIZE \<and>
    (case pp_flag r of
       Forward \<Rightarrow> pp_body r = None \<and> (\<exists>q. forward_packet r = Some q \<and> sh_version (sp_header q) = sh_version (sp_header p) \<and>
         sh_session_id (sp_header q) = sh_session_id (sp_header p) \<and> length (routing_info (sp_header q)) = ROUTING_INFO_SIZE \<and>
         length (sh_mac (sp_header q)) = MAC_SIZE \<and> length (sp_body q) = WIRE_BODY_SIZE \<and>
         length (kem_ciphertexts q) = (if hybrid then KEM_BLOCK_SIZE env else 0))
     | Destination \<Rightarrow> forward_packet r = None \<and> (\<exists>b. pp_body r = Some b \<and> length b = BODY_SIZE))"
proof -
  obtain shared where s: "packet_secret env hybrid (hd_kem_secret x) (private_key n) p = Inr shared"
    using assms(5) by (cases "packet_secret env hybrid (hd_kem_secret x) (private_key n) p") (auto simp: arrive_secret)
  define kem where "kem = (if hybrid then drop (KEM_CIPHERTEXT_SIZE (sx_kx env)) (kem_ciphertexts p) @ hd_kem_pad x else [])"
  have l: "length (routing_info (sp_header p)) = ROUTING_INFO_SIZE" "length (sp_body p) = WIRE_BODY_SIZE"
    "length kem = (if hybrid then KEM_BLOCK_SIZE env else 0)"
    using s assms(4) by (auto simp: packet_secret_def kem_def sphinx_sizes Let_def split: if_splits)
  have "peel_hop env (hd_now x) (hd_slot_pad x) kem shared n p = (Inr r, n')"
    using assms(5) s by (simp add: arrive_secret kem_def)
  from peel_hop_format [OF assms(1,2) l(1,2) assms(3) this] l(3) show ?thesis
    by (cases "pp_flag r") auto
qed

theorem packet_format_kept_witness:
  "\<exists>p r n'. arrive demo_sphinx False (fst (demo_hop 5)) (snd (demo_hop 5)) p = (Inr r, n') \<and> length (pp_next_hop r) = NODE_ID_SIZE"
proof -
  obtain p r n' where p: "arrive demo_sphinx False (fst (demo_hop 5)) (snd (demo_hop 5)) p = (Inr r, n')" using demo_accepts by blast
  have "aead_opens_sized (sx_aead demo_sphinx)"
    by (auto simp: aead_opens_sized_def demo_sphinx_def demo_aead_def split: if_splits)
  from packet_format_kept [OF demo_sphinx_correct(2) this _ _ p] p show ?thesis
    by (auto simp: demo_hop_def sphinx_sizes)
qed

text \<open>C40 (termination). The keystream loop that masks the bodies ends: it draws exactly one 32-byte block per
  started 32 bytes, numbered from zero, and masking twice with the same key restores the body.\<close>

theorem keystream_terminates:
  assumes "hashes_sized env"
  shows "keystream_loop env key len 0 [] =
      concat (map (\<lambda>i. derive (sx_hkdf env) key (ascii ''sphinx/body:'' @ decimal i)) [0..<(len + 31) div 32]) \<and>
    length (body_keystream env key len) = len \<and> xor_body env key (xor_body env key body) = body"
  using assms by (simp add: keystream_loop_blocks)

theorem keystream_terminates_witness: "length (body_keystream demo_sphinx [1] 1040) = 1040"
  using keystream_terminates [OF demo_sphinx_correct(2)] by blast

section \<open>Session replies on the wire\<close>

text \<open>A reply is read back exactly behind its random padding, and has the size of a hybrid packet on the
  wire: \<open>pad\<close> is what the loop draws up to \<open>SESSION_REPLY_WIRE_SIZE\<close>.\<close>

lemma session_reply_roundtrip:
  assumes "length (sr_session_id r) = SESSION_ID_SIZE" "length (sr_nonce r) = SESSION_ID_SIZE" "length (sr_body r) = WIRE_BODY_SIZE"
  shows "session_reply_deserialize (session_reply_serialize pad r) = Inr r"
  using assms by (cases r) (simp add: session_reply_serialize_def session_reply_deserialize_def sphinx_sizes Let_def)

end
