(* ===== verification/Surb.thy ===== *)
theory Surb
  imports MixState Codec
begin

text \<open>
  \<^verbatim>\<open>crates/static-sphinx/src/surb.rs\<close>: single-use reply blocks. The requester builds a header for the way
  back whose MACs cover a placeholder; the responder wraps a payload with it without learning the route.
  Shown: the reply reaches the requester and reads as the payload, the hops cache the reply session, a
  block works once, and its encoding is read back.
\<close>

section \<open>Reply blocks\<close>

record Surb =
  surb_header :: SphinxHeader
  surb_kem_ciphertexts :: bytes
  body_keys :: "bytes list"
  body_aead_key :: bytes
  aad_destination :: NodeId
  first_hop :: NodeId

record SurbSecret =
  secret_fragment_id :: u32
  hop_count :: nat

definition create_surb :: "'sc sphinx_env \<Rightarrow> 'sc PacketRandom \<Rightarrow> Route \<Rightarrow> SphinxError + (Surb \<times> SurbSecret)" where
  "create_surb env rnd route =
     (let n = length (route_hops route) in
      if n = 0 \<or> MAX_HOPS < n then Inl RouteTooLong
      else
        let ephemeral_pub = point_mul env BASE_POINT (pr_scalar rnd);
            secrets = hop_secrets env (map rh_public_key (route_hops route)) ephemeral_pub (pr_scalar rnd);
            placeholder = replicate WIRE_BODY_SIZE 0;
            hops = hop_inputs env secrets (replicate n placeholder) (map rh_node_id (route_hops route))
        in Inr (\<lparr>surb_header = build_header env SPHINX_VERSION_CLASSICAL (pr_session_id rnd) (route_destination route) hops (pr_pad rnd),
                 surb_kem_ciphertexts = [],
                 body_keys = map (\<lambda>(shared, _). body_key (derive_hop_keys env shared)) secrets,
                 body_aead_key = derive_body_aead_key env (fst (last secrets)),
                 aad_destination = route_destination route, first_hop = rh_node_id (hd (route_hops route))\<rparr>,
                \<lparr>secret_fragment_id = 0, hop_count = n\<rparr>))"

text \<open>\<open>for i in (0..body_keys.len()).rev() { xor_body(&body_keys[i], &mut body) }\<close>\<close>

definition onion_encrypt :: "'sc sphinx_env \<Rightarrow> bytes list \<Rightarrow> bytes \<Rightarrow> bytes" where
  "onion_encrypt env keys body = foldr (xor_body env) keys body"

definition wrap_with_surb :: "'sc sphinx_env \<Rightarrow> Surb \<Rightarrow> bytes \<Rightarrow> SphinxError + SphinxPacket" where
  "wrap_with_surb env surb payload =
     (if BODY_SIZE < length payload then Inl BodyTooLarge
      else
        let body = aead_encrypt_body env (body_aead_key surb) (pad_body payload) (aad_destination surb)
        in Inr \<lparr>sp_header = surb_header surb, kem_ciphertexts = surb_kem_ciphertexts surb,
                sp_body = onion_encrypt env (body_keys surb) body\<rparr>)"

definition create_surb_hybrid :: "'sc sphinx_env \<Rightarrow> 'sc PacketRandom \<Rightarrow> HybridRoute \<Rightarrow> SphinxError + (Surb \<times> SurbSecret)" where
  "create_surb_hybrid env rnd route =
     (let n = length (hybrid_hops route) in
      if n = 0 \<or> MAX_HOPS < n then Inl RouteTooLong
      else if \<exists>hop\<in>set (hybrid_hops route). length (hh_kem_public_key hop) \<noteq> KEM_PUBLIC_KEY_SIZE (sx_kx env)
        then Inl InvalidKemPublicKey
      else
        let ephemeral_pub = point_mul env BASE_POINT (pr_scalar rnd) in
        case hybrid_secrets env (pr_kem rnd) 0 (hybrid_hops route) ephemeral_pub (pr_scalar rnd) of
          Inl e \<Rightarrow> Inl e
        | Inr hybrid \<Rightarrow>
            let secrets = map fst hybrid;
                kem_block = concat (map snd hybrid) @ pr_kem_pad rnd;
                placeholder = replicate WIRE_BODY_SIZE 0;
                hops = hop_inputs env secrets (replicate n placeholder) (map hh_node_id (hybrid_hops route))
            in Inr (\<lparr>surb_header = build_header env SPHINX_VERSION_HYBRID (pr_session_id rnd) (hybrid_destination route) hops (pr_pad rnd),
                     surb_kem_ciphertexts = kem_block,
                     body_keys = map (\<lambda>(shared, _). body_key (derive_hop_keys env shared)) secrets,
                     body_aead_key = derive_body_aead_key env (fst (last secrets)),
                     aad_destination = hybrid_destination route, first_hop = hh_node_id (hd (hybrid_hops route))\<rparr>,
                    \<lparr>secret_fragment_id = 0, hop_count = n\<rparr>))"

definition wrap_with_surb_hybrid :: "'sc sphinx_env \<Rightarrow> Surb \<Rightarrow> bytes \<Rightarrow> SphinxError + SphinxPacket" where
  "wrap_with_surb_hybrid env surb payload =
     (if sh_version (surb_header surb) \<noteq> SPHINX_VERSION_HYBRID then Inl (UnsupportedVersion (sh_version (surb_header surb)))
      else if BODY_SIZE < length payload then Inl BodyTooLarge
      else
        let body = aead_encrypt_body env (body_aead_key surb) (pad_body payload) (aad_destination surb)
        in Inr \<lparr>sp_header = surb_header surb, kem_ciphertexts = surb_kem_ciphertexts surb,
                sp_body = onion_encrypt env (body_keys surb) body\<rparr>)"

definition process_surb_hybrid ::
  "'sc sphinx_env \<Rightarrow> u64 \<Rightarrow> bytes \<Rightarrow> bytes \<Rightarrow> 'sc HybridMixNode \<Rightarrow> SphinxPacket \<Rightarrow>
     (SphinxError + ProcessedPacket) \<times> 'sc HybridMixNode" where
  "process_surb_hybrid env now slot_pad kem_pad node packet = process_packet_hybrid env now slot_pad kem_pad node packet"

text \<open>A batch: fresh randomness per block, stopping at the first error, ids in order.\<close>

fun surb_loop :: "(nat \<Rightarrow> SphinxError + (Surb \<times> SurbSecret)) \<Rightarrow> nat list \<Rightarrow> SphinxError + (Surb \<times> SurbSecret) list" where
  "surb_loop create [] = Inr []"
| "surb_loop create (i # is) =
     (case create i of
        Inl e \<Rightarrow> Inl e
      | Inr (surb, secret) \<Rightarrow>
          (case surb_loop create is of
             Inl e \<Rightarrow> Inl e
           | Inr surbs \<Rightarrow> Inr ((surb, secret\<lparr>secret_fragment_id := of_nat i\<rparr>) # surbs)))"

definition create_surb_batch ::
  "'sc sphinx_env \<Rightarrow> (nat \<Rightarrow> 'sc PacketRandom) \<Rightarrow> Route \<Rightarrow> nat \<Rightarrow> SphinxError + (Surb \<times> SurbSecret) list" where
  "create_surb_batch env rnd route batch = surb_loop (\<lambda>i. create_surb env (rnd i) route) [0..<batch]"

definition create_surb_batch_hybrid ::
  "'sc sphinx_env \<Rightarrow> (nat \<Rightarrow> 'sc PacketRandom) \<Rightarrow> HybridRoute \<Rightarrow> nat \<Rightarrow> SphinxError + (Surb \<times> SurbSecret) list" where
  "create_surb_batch_hybrid env rnd route batch = surb_loop (\<lambda>i. create_surb_hybrid env (rnd i) route) [0..<batch]"

definition session_id :: "Surb \<Rightarrow> bytes" where
  "session_id surb = sh_session_id (surb_header surb)"

definition surb_serialize :: "Surb \<Rightarrow> bytes" where
  "surb_serialize s =
     [sh_version (surb_header s)] @ ephemeral_key (surb_header s) @ sh_session_id (surb_header s) @
     len_be32 (length (surb_kem_ciphertexts s)) @ surb_kem_ciphertexts s @ routing_info (surb_header s) @ sh_mac (surb_header s) @
     [of_nat (length (body_keys s))] @ concat (body_keys s) @ body_aead_key s @ aad_destination s @ first_hop s"

definition surb_deserialize :: "'sc sphinx_env \<Rightarrow> bytes \<Rightarrow> SphinxError + Surb" where
  "surb_deserialize env data =
     (if length data < 1 + 32 + 32 + 4 + ROUTING_INFO_SIZE + MAC_SIZE + 1 + 32 + 32 + 16 + 16 then Inl InvalidPacketSize
      else
        let version = data ! 0; offset = 1 in
        if version \<noteq> SPHINX_VERSION_CLASSICAL \<and> version \<noteq> SPHINX_VERSION_HYBRID then Inl (UnsupportedVersion version)
        else
          let ephemeral = take 32 (drop offset data); offset = offset + 32;
              sid = take SESSION_ID_SIZE (drop offset data); offset = offset + SESSION_ID_SIZE;
              kem_len = be32_len (take 4 (drop offset data)); offset = offset + 4
          in if KEM_BLOCK_SIZE env < kem_len \<or> length data < offset + kem_len then Inl InvalidPacketSize
             else
               let kem = take kem_len (drop offset data); offset = offset + kem_len in
               if version = SPHINX_VERSION_HYBRID \<and> kem_len \<noteq> KEM_BLOCK_SIZE env then Inl InvalidKemCiphertext
               else if length data < offset + ROUTING_INFO_SIZE + MAC_SIZE then Inl InvalidPacketSize
               else
                 let routing = take ROUTING_INFO_SIZE (drop offset data); offset = offset + ROUTING_INFO_SIZE;
                     mac = take MAC_SIZE (drop offset data); offset = offset + MAC_SIZE
                 in if length data \<le> offset then Inl InvalidPacketSize
                    else
                      let n_keys = unat (data ! offset); offset = offset + 1 in
                      if n_keys = 0 \<or> MAX_HOPS < n_keys \<or> length data < offset + n_keys * 32 + 32 + 16 + 16
                      then Inl InvalidPacketSize
                      else
                        let keys = map (\<lambda>i. take 32 (drop (offset + i * 32) data)) [0..<n_keys]; offset = offset + n_keys * 32;
                            aead_key = take 32 (drop offset data); offset = offset + 32;
                            dest = take NODE_ID_SIZE (drop offset data); offset = offset + NODE_ID_SIZE;
                            hop = take NODE_ID_SIZE (drop offset data)
                        in Inr \<lparr>surb_header = \<lparr>sh_version = version, ephemeral_key = ephemeral, sh_session_id = sid,
                                  routing_info = routing, sh_mac = mac\<rparr>,
                                surb_kem_ciphertexts = kem, body_keys = keys, body_aead_key = aead_key,
                                aad_destination = dest, first_hop = hop\<rparr>)"

section \<open>Replies arrive\<close>

text \<open>Wrapping all layers at once gives the body the first hop receives; dropping keys gives the later ones.\<close>

lemma nth_body_seen:
  "i < length keys \<Longrightarrow> body_seen env keys inner ! i = onion_encrypt env (drop i keys) inner"
proof (induction env keys inner arbitrary: i rule: body_seen.induct)
  case (2 env key keys inner)
  have "(case body_seen env keys inner of [] \<Rightarrow> inner | b # _ \<Rightarrow> b) = onion_encrypt env keys inner"
  proof (cases keys)
    case (Cons k ks)
    then have "body_seen env keys inner ! 0 = onion_encrypt env keys inner" using 2(1) [of 0] by simp
    moreover obtain b bs where "body_seen env keys inner = b # bs"
      using length_body_seen [of env keys inner] Cons by (cases "body_seen env keys inner") auto
    ultimately show ?thesis by simp
  qed (simp add: onion_encrypt_def)
  then show ?case using 2 by (cases i) (simp_all add: Let_def onion_encrypt_def)
qed simp

lemma hd_body_seen: "keys \<noteq> [] \<Longrightarrow> hd (body_seen env keys inner) = onion_encrypt env keys inner"
  using nth_body_seen [of 0 keys env inner] length_body_seen [of env keys inner]
  by (cases "body_seen env keys inner") auto

lemma get_insert_session: "hm_get (session_cache (insert_session sid s n)) sid = Some s"
  by (auto simp: insert_session_def Let_def split: list.splits)

text \<open>The reply session of a block at a hop.\<close>

definition reply_session :: "Surb \<Rightarrow> NodeId list \<Rightarrow> (HopDraw \<times> 'sc MixNode) list \<Rightarrow> nat \<Rightarrow> CachedSession" where
  "reply_session surb nexts hops i = \<lparr>cs_next_hop = nexts ! i, cs_body_key = body_keys surb ! i,
     cs_is_final = (Suc i = length hops), cs_seen_nonces = {}, nonce_order = [], cs_created_at = hd_now (fst (hops ! i))\<rparr>"

text \<open>Both kinds of block end here.\<close>

lemma wrapped_packet_delivers:
  assumes "hashes_sized env" "aead_correct (sx_aead env)" "length dest = NODE_ID_SIZE" "length payload \<le> BODY_SIZE"
    and "chain_ok env v step hops ss kem" "length hops = length ss" "hops_ok env hops"
    and "length pad + SLOT_SIZE * length hops = ROUTING_INFO_SIZE"
    and "surb_header surb = build_header env v sid dest
           (hop_inputs env ss (replicate (length hops) (replicate WIRE_BODY_SIZE 0)) (map (mn_node_id \<circ> snd) hops)) pad"
    and "surb_kem_ciphertexts surb = kem" "body_keys surb = body_keys_of env ss"
    and "body_aead_key surb = derive_body_aead_key env (fst (last ss))" "aad_destination surb = dest"
    and "inner = aead_encrypt_body env (body_aead_key surb) (pad_body payload) dest"
    and "p = \<lparr>sp_header = surb_header surb, kem_ciphertexts = kem, sp_body = onion_encrypt env (body_keys surb) inner\<rparr>"
    and "nexts = map (mn_node_id \<circ> snd) (tl hops) @ [dest]"
  shows "\<exists>ns. relay step hops p = Some (nexts, pad_body payload, ns) \<and> length ns = length hops \<and>
    (\<forall>i<length hops. hm_get (session_cache (ns ! i)) sid = Some (reply_session surb nexts hops i) \<or>
       mac_collision env (replicate WIRE_BODY_SIZE 0) (onion_encrypt env (drop i (body_keys surb)) inner))"
proof -
  let ?cs = "replicate (length hops) (replicate WIRE_BODY_SIZE 0)"
  define bs where "bs = body_seen env (body_keys_of env ss) inner"
  have ne: "ss \<noteq> []" using assms(6,7) by (auto simp: hops_ok_def simp flip: length_greater_0_conv)
  have nth: "bs ! i = onion_encrypt env (drop i (body_keys surb)) inner" if "i < length hops" for i
    using that assms(6) by (simp add: bs_def nth_body_seen assms(11))
  have hdb: "onion_encrypt env (body_keys surb) inner = hd bs" using ne by (simp add: bs_def hd_body_seen assms(11))
  have ids: "\<forall>i\<in>set (map (mn_node_id \<circ> snd) hops). length i = NODE_ID_SIZE" using assms(7) by (auto simp: hops_ok_def)
  obtain ns where ns: "relay step hops p = Some (tl (map (mn_node_id \<circ> snd) hops) @ [dest], pad_body payload, ns)"
      "nodes_after env sid (tl (map (mn_node_id \<circ> snd) hops) @ [dest]) hops ss ?cs bs ns"
    using relay_chain [OF assms(1,2,3) length_pad_body [OF assms(4)] assms(5) ne _ _ ids _ bs_def, of ?cs p sid pad]
      assms(6,8,9,12,14,15) hdb by auto
  have nx: "tl (map (mn_node_id \<circ> snd) hops) @ [dest] = nexts" by (simp add: assms(16) map_tl)
  have "hm_get (session_cache (ns ! i)) sid = Some (reply_session surb nexts hops i) \<or>
      mac_collision env (replicate WIRE_BODY_SIZE 0) (onion_encrypt env (drop i (body_keys surb)) inner)"
    if i: "i < length hops" for i
  proof -
    obtain s where s: "\<not> s \<longrightarrow> mac_collision env (?cs ! i) (bs ! i)"
      "ns ! i = hop_node env (hd_now (fst (hops ! i))) (fst (ss ! i)) s sid (nexts ! i) (Suc i = length ss) (snd (hops ! i))"
      using ns(2) i assms(6) unfolding nodes_after_def nx by auto
    have "body_keys surb ! i = body_key (derive_hop_keys env (fst (ss ! i)))"
      using i assms(6) by (simp add: assms(11) split_beta)
    then show ?thesis using s i assms(6)
      by (cases s) (simp_all add: nth hop_node_def reply_session_def get_insert_session Let_def)
  qed
  with ns show ?thesis using assms(6) unfolding nx by (auto simp: nodes_after_def)
qed

lemma surb_delivers:
  assumes "curve_correct env" "hashes_sized env" "aead_correct (sx_aead env)" "key_exchange_correct (sx_kx env)"
    and "hops_ok env hops" "kem_hops_ok env hops" "length dest = NODE_ID_SIZE" "length payload \<le> BODY_SIZE"
    and "length (pr_pad rnd) + SLOT_SIZE * length hops = ROUTING_INFO_SIZE"
    and "length (pr_kem_pad rnd) + KEM_CIPHERTEXT_SIZE (sx_kx env) * length hops = KEM_BLOCK_SIZE env"
    and "route = \<lparr>hybrid_hops = map (\<lambda>(x, n). as_hop env \<lparr>classical = n, kem_secret = hd_kem_secret x\<rparr>) hops, hybrid_destination = dest\<rparr>"
    and "\<And>hy. hybrid_secrets env (pr_kem rnd) 0 (hybrid_hops route) (point_mul env BASE_POINT (pr_scalar rnd)) (pr_scalar rnd) = Inr hy \<Longrightarrow>
           fresh_tags env hops (map fst hy)"
    and "nexts = map (mn_node_id \<circ> snd) (tl hops) @ [dest]"
  shows "\<exists>surb p ns. create_surb_hybrid env rnd route = Inr (surb, \<lparr>secret_fragment_id = 0, hop_count = length hops\<rparr>) \<and>
    first_hop surb = mn_node_id (snd (hd hops)) \<and> session_id surb = pr_session_id rnd \<and>
    wrap_with_surb_hybrid env surb payload = Inr p \<and> wrap_with_surb env surb payload = Inr p \<and>
    relay (hybrid_step env) hops p = Some (nexts, pad_body payload, ns) \<and>
    (\<forall>i<length hops. hm_get (session_cache (ns ! i)) (session_id surb) = Some (reply_session surb nexts hops i) \<or>
       mac_collision env (replicate WIRE_BODY_SIZE 0)
         (onion_encrypt env (drop i (body_keys surb)) (aead_encrypt_body env (body_aead_key surb) (pad_body payload) dest)))"
proof -
  have pubs: "map hh_node_id (hybrid_hops route) = map (mn_node_id \<circ> snd) hops" "hybrid_destination route = dest"
    by (simp_all add: assms(11) split_beta comp_def as_hop_def)
  have n: "length (hybrid_hops route) = length hops" "hops \<noteq> []" "length hops \<le> MAX_HOPS"
    using assms(5) by (simp_all add: assms(11) hops_ok_def)
  have hd: "hh_node_id (hd (hybrid_hops route)) = mn_node_id (snd (hd hops))"
    using n(2) by (simp add: assms(11) hd_map split_beta as_hop_def)
  have kem: "\<not> (\<exists>hop\<in>set (hybrid_hops route). length (hh_kem_public_key hop) \<noteq> KEM_PUBLIC_KEY_SIZE (sx_kx env))"
    using assms(4,6) by (auto simp: assms(11) as_hop_def kem_hops_ok_def key_exchange_correct_def)
  obtain hy where hy: "hybrid_secrets env (pr_kem rnd) 0 (hybrid_hops route) (point_mul env BASE_POINT (pr_scalar rnd)) (pr_scalar rnd) = Inr hy"
      "length hy = length hops"
    and chain: "fresh_tags env hops (map fst hy) \<Longrightarrow>
      chain_ok env SPHINX_VERSION_HYBRID (hybrid_step env) hops (map fst hy) (concat (map snd hy) @ pr_kem_pad rnd)"
    using chain_hybrid [OF assms(1,4), of hops "pr_kem rnd" 0 "pr_scalar rnd"] assms(5,6,10) by (auto simp: hops_ok_def assms(11))
  define ss where "ss = map fst hy"
  define surb where "surb = \<lparr>surb_header = build_header env SPHINX_VERSION_HYBRID (pr_session_id rnd) dest
      (hop_inputs env ss (replicate (length hops) (replicate WIRE_BODY_SIZE 0)) (map (mn_node_id \<circ> snd) hops)) (pr_pad rnd),
    surb_kem_ciphertexts = concat (map snd hy) @ pr_kem_pad rnd, body_keys = body_keys_of env ss,
    body_aead_key = derive_body_aead_key env (fst (last ss)), aad_destination = dest, first_hop = mn_node_id (snd (hd hops))\<rparr>"
  have created: "create_surb_hybrid env rnd route = Inr (surb, \<lparr>secret_fragment_id = 0, hop_count = length hops\<rparr>)"
    using n kem by (simp add: create_surb_hybrid_def pubs hy(1) hd surb_def ss_def Let_def)
  have ver: "sh_version (surb_header surb) = SPHINX_VERSION_HYBRID" "session_id surb = pr_session_id rnd"
    by (simp_all add: surb_def build_header_def session_id_def Let_def)
  have chain': "chain_ok env SPHINX_VERSION_HYBRID (hybrid_step env) hops ss (surb_kem_ciphertexts surb)"
    using chain assms(12) [OF hy(1)] by (simp add: ss_def surb_def)
  define p where "p = \<lparr>sp_header = surb_header surb, kem_ciphertexts = surb_kem_ciphertexts surb,
    sp_body = onion_encrypt env (body_keys surb) (aead_encrypt_body env (body_aead_key surb) (pad_body payload) dest)\<rparr>"
  have surb: "surb_header surb = build_header env SPHINX_VERSION_HYBRID (pr_session_id rnd) dest
      (hop_inputs env ss (replicate (length hops) (replicate WIRE_BODY_SIZE 0)) (map (mn_node_id \<circ> snd) hops)) (pr_pad rnd)"
    "body_keys surb = body_keys_of env ss" "body_aead_key surb = derive_body_aead_key env (fst (last ss))" "aad_destination surb = dest"
    "first_hop surb = mn_node_id (snd (hd hops))" "length hops = length ss"
    by (simp_all add: surb_def ss_def hy(2))
  obtain ns where "relay (hybrid_step env) hops p = Some (nexts, pad_body payload, ns)"
    "\<forall>i<length hops. hm_get (session_cache (ns ! i)) (pr_session_id rnd) = Some (reply_session surb nexts hops i) \<or>
       mac_collision env (replicate WIRE_BODY_SIZE 0) (onion_encrypt env (drop i (body_keys surb))
         (aead_encrypt_body env (body_aead_key surb) (pad_body payload) dest))"
    using wrapped_packet_delivers [OF assms(2,3,7,8) chain' surb(6) assms(5,9) surb(1) refl surb(2,3,4) refl p_def assms(13)] by blast
  moreover have "wrap_with_surb_hybrid env surb payload = Inr p" "wrap_with_surb env surb payload = Inr p"
    using assms(8) ver(1) by (simp_all add: wrap_with_surb_hybrid_def wrap_with_surb_def p_def surb(4) Let_def)
  ultimately show ?thesis using created surb(5) ver(2) by fastforce
qed

text \<open>Anonymous replies. A responder who holds a hybrid reply block wraps any payload of up
  to \<open>BODY_SIZE\<close> bytes; handed from node to node, the packet arrives at the end of the route the requester
  chose and is decrypted to the padded payload, although the responder knew neither route nor requester.
  On its way every hop caches the reply session under the session id of the block, with its successor,
  its body key and whether it is the last, ready for session replies; unless the placeholder body and the
  body the hop saw have the same MAC.\<close>

theorem surb_reply_delivered:
  assumes "curve_correct env" "hashes_sized env" "aead_correct (sx_aead env)" "key_exchange_correct (sx_kx env)"
    and "hops_ok env hops" "kem_hops_ok env hops" "length dest = NODE_ID_SIZE" "length payload \<le> BODY_SIZE"
    and "length (pr_pad rnd) + SLOT_SIZE * length hops = ROUTING_INFO_SIZE"
    and "length (pr_kem_pad rnd) + KEM_CIPHERTEXT_SIZE (sx_kx env) * length hops = KEM_BLOCK_SIZE env"
    and "route = \<lparr>hybrid_hops = map (\<lambda>(x, n). as_hop env \<lparr>classical = n, kem_secret = hd_kem_secret x\<rparr>) hops, hybrid_destination = dest\<rparr>"
    and "\<And>hy. hybrid_secrets env (pr_kem rnd) 0 (hybrid_hops route) (point_mul env BASE_POINT (pr_scalar rnd)) (pr_scalar rnd) = Inr hy \<Longrightarrow>
           fresh_tags env hops (map fst hy)"
    and "nexts = map (mn_node_id \<circ> snd) (tl hops) @ [dest]"
  shows "\<exists>surb p ns. create_surb_hybrid env rnd route = Inr (surb, \<lparr>secret_fragment_id = 0, hop_count = length hops\<rparr>) \<and>
    first_hop surb = mn_node_id (snd (hd hops)) \<and> session_id surb = pr_session_id rnd \<and>
    wrap_with_surb_hybrid env surb payload = Inr p \<and> wrap_with_surb env surb payload = Inr p \<and>
    relay (hybrid_step env) hops p = Some (nexts, pad_body payload, ns) \<and>
    (\<forall>i<length hops. hm_get (session_cache (ns ! i)) (session_id surb) = Some (reply_session surb nexts hops i) \<or>
       mac_collision env (replicate WIRE_BODY_SIZE 0)
         (onion_encrypt env (drop i (body_keys surb)) (aead_encrypt_body env (body_aead_key surb) (pad_body payload) dest)))"
  using surb_delivers [OF assms] .

theorem surb_reply_delivered_witness:
  "\<exists>surb p ns. create_surb_hybrid demo_sphinx (demo_random 2)
      \<lparr>hybrid_hops = map (\<lambda>(x, n). as_hop demo_sphinx \<lparr>classical = n, kem_secret = hd_kem_secret x\<rparr>) [demo_hop 5, demo_hop 7],
        hybrid_destination = replicate 16 9\<rparr> = Inr (surb, \<lparr>secret_fragment_id = 0, hop_count = 2\<rparr>) \<and>
    wrap_with_surb_hybrid demo_sphinx surb [42] = Inr p \<and>
    relay (hybrid_step demo_sphinx) [demo_hop 5, demo_hop 7] p = Some ([replicate 16 7, replicate 16 9], 42 # replicate 1023 0, ns)"
proof -
  have pad: "length (pr_pad (demo_random 2)) + SLOT_SIZE * length [demo_hop 5, demo_hop 7] = ROUTING_INFO_SIZE"
    "length (pr_kem_pad (demo_random 2)) + KEM_CIPHERTEXT_SIZE (sx_kx demo_sphinx) * length [demo_hop 5, demo_hop 7] = KEM_BLOCK_SIZE demo_sphinx"
    by (simp_all add: demo_random_def sphinx_sizes demo_sphinx_def demo_kx_def)
  have len: "length (replicate 16 9 :: bytes) = NODE_ID_SIZE" "length [42 :: u8] \<le> BODY_SIZE" "pad_body [42] = 42 # replicate 1023 0"
    by (simp_all add: sphinx_sizes BODY_SIZE_def pad_body_def)
  have ids: "mn_node_id (snd (demo_hop k)) = replicate 16 k" for k by (simp add: demo_hop_def from_private_key_def Let_def)
  let ?r = "\<lparr>hybrid_hops = map (\<lambda>(x, n). as_hop demo_sphinx \<lparr>classical = n, kem_secret = hd_kem_secret x\<rparr>) [demo_hop 5, demo_hop 7],
        hybrid_destination = replicate 16 9\<rparr>"
  have "fresh_tags demo_sphinx [demo_hop 5, demo_hop 7] (map fst hy)"
    if "hybrid_secrets demo_sphinx (pr_kem (demo_random 2)) 0 (hybrid_hops ?r) (point_mul demo_sphinx BASE_POINT (pr_scalar (demo_random 2))) (pr_scalar (demo_random 2)) = Inr hy" for hy
    using that by (intro demo_fresh) (auto simp: Let_def split: sum.splits)
  from surb_reply_delivered [OF demo_sphinx_correct demo_hops_ok len(1,2) pad refl this refl] show ?thesis
    by (simp add: ids len(3) numeral_2_eq_2) blast
qed

section \<open>Blocks work once\<close>

lemma surb_packet_secret:
  assumes "wrap_with_surb_hybrid env surb a = Inr p" "wrap_with_surb_hybrid env surb b = Inr q"
    "hashes_sized env" "aead_correct (sx_aead env)"
  shows "packet_secret env True k sk p = packet_secret env True k sk q"
proof -
  have onion: "length (onion_encrypt env ks x) = length x" for ks x
    using assms(3) by (induction ks) (simp_all add: onion_encrypt_def)
  have "length (sp_body p) = WIRE_BODY_SIZE" "length (sp_body q) = WIRE_BODY_SIZE"
    using assms by (auto simp: wrap_with_surb_hybrid_def onion Let_def split: if_splits)
  moreover have "sp_header p = sp_header q" "kem_ciphertexts p = kem_ciphertexts q"
    using assms(1,2) by (auto simp: wrap_with_surb_hybrid_def Let_def split: if_splits)
  ultimately show ?thesis by (simp add: packet_secret_def Let_def)
qed

text \<open>A reply block is good for one reply. After a node has accepted a packet wrapped with a
  block, every packet wrapped with the same block, whatever its payload, is refused by that node, which
  stays as it is, while fewer than \<open>MAX_SEEN_TAGS\<close> other packets have arrived.\<close>

theorem surb_single_use:
  assumes "hashes_sized env" "aead_correct (sx_aead env)"
    and "wrap_with_surb_hybrid env surb payload = Inr p" "wrap_with_surb_hybrid env surb payload' = Inr q"
    and "reachable_node env (from_private_key env key_bytes node_id) n"
    and "arrive env True x n p = (Inr r, n')" "hd_kem_secret y = hd_kem_secret x"
    and "length (filter is_packet evs) < MAX_SEEN_TAGS"
  shows "fst (arrive env True y (node_run env evs n') q) \<in> {Inl SphinxReplayDetected, Inl MacVerificationFailed} \<and>
    snd (arrive env True y (node_run env evs n') q) = node_run env evs n'"
proof -
  obtain shared where s: "packet_secret env True (hd_kem_secret x) (private_key n) p = Inr shared"
    using accepted_secret [OF assms(6)] .
  then have "packet_secret env True (hd_kem_secret x) (private_key n) q = Inr shared"
    using surb_packet_secret [OF assms(3,4,1,2)] by simp
  from same_secret_refused(2) [OF assms(5-8) s this] show ?thesis by simp
qed

lemma demo_surb_accepts:
  "\<exists>surb p q r n'. wrap_with_surb_hybrid demo_sphinx surb [1] = Inr p \<and> wrap_with_surb_hybrid demo_sphinx surb [2] = Inr q \<and>
     arrive demo_sphinx True (fst (demo_hop 5)) (snd (demo_hop 5)) p = (Inr r, n')"
proof -
  have ok: "hops_ok demo_sphinx [demo_hop 5]" "kem_hops_ok demo_sphinx [demo_hop 5]"
    using demo_hops_ok by (simp_all add: hops_ok_def kem_hops_ok_def)
  obtain hy where hy: "length hy = 1" and chain: "fresh_tags demo_sphinx [demo_hop 5] (map fst hy) \<Longrightarrow>
      chain_ok demo_sphinx SPHINX_VERSION_HYBRID (hybrid_step demo_sphinx) [demo_hop 5] (map fst hy) (concat (map snd hy) @ [0, 0, 0, 0])"
    using chain_hybrid [OF demo_sphinx_correct(1,4), of "[demo_hop 5]" "\<lambda>_. []" 0 3] ok
    by (auto simp: hops_ok_def demo_sphinx_def demo_kx_def sphinx_sizes)
  have fresh: "fresh_tags demo_sphinx [demo_hop 5] (map fst hy)"
    using hy by (cases hy) (auto simp: fresh_tags_def demo_hop_def from_private_key_def Let_def)
  define surb where "surb = \<lparr>surb_header = build_header demo_sphinx SPHINX_VERSION_HYBRID [] (replicate 16 9)
      (hop_inputs demo_sphinx (map fst hy) (replicate (length [demo_hop 5]) (replicate WIRE_BODY_SIZE 0)) (map (mn_node_id \<circ> snd) [demo_hop 5])) (replicate 132 0),
    surb_kem_ciphertexts = concat (map snd hy) @ [0, 0, 0, 0], body_keys = body_keys_of demo_sphinx (map fst hy),
    body_aead_key = derive_body_aead_key demo_sphinx (fst (last (map fst hy))), aad_destination = replicate 16 9, first_hop = []\<rparr>"
  have v: "sh_version (surb_header surb) = SPHINX_VERSION_HYBRID" by (simp add: surb_def build_header_def Let_def)
  define p where "p = \<lparr>sp_header = surb_header surb, kem_ciphertexts = concat (map snd hy) @ [0, 0, 0, 0],
    sp_body = onion_encrypt demo_sphinx (body_keys surb) (aead_encrypt_body demo_sphinx (body_aead_key surb) (pad_body [1]) (replicate 16 9))\<rparr>"
  have surb: "surb_kem_ciphertexts surb = concat (map snd hy) @ [0, 0, 0, 0]" "aad_destination surb = replicate 16 9"
    "body_keys surb = body_keys_of demo_sphinx (map fst hy)" "body_aead_key surb = derive_body_aead_key demo_sphinx (fst (last (map fst hy)))"
    by (simp_all add: surb_def)
  have "\<exists>res. relay (hybrid_step demo_sphinx) [demo_hop 5] p = Some res"
    using wrapped_packet_delivers [OF demo_sphinx_correct(2,3) _ _ chain [OF fresh] _ ok(1), where surb = surb and dest = "replicate 16 9"
        and payload = "[1]" and pad = "replicate 132 0" and sid = "[]", OF _ _ _ _ _ surb(1,3,4,2) refl p_def refl] hy
    by (auto simp: sphinx_sizes surb_def)
  then obtain r n' where "hybrid_step demo_sphinx (fst (demo_hop 5)) (snd (demo_hop 5)) p = (Inr r, n')"
    using relay_first [of "hybrid_step demo_sphinx" "fst (demo_hop 5)" "snd (demo_hop 5)" "[]" p] by auto
  moreover have "wrap_with_surb_hybrid demo_sphinx surb [1] = Inr p"
    using v by (simp add: wrap_with_surb_hybrid_def p_def surb(1,2) BODY_SIZE_def)
  moreover have "\<exists>q. wrap_with_surb_hybrid demo_sphinx surb [2] = Inr q"
    using v by (simp add: wrap_with_surb_hybrid_def BODY_SIZE_def)
  ultimately show ?thesis by (auto simp: arrive_def)
qed

theorem surb_single_use_witness:
  "\<exists>surb p q r n'. wrap_with_surb_hybrid demo_sphinx surb [1] = Inr p \<and> wrap_with_surb_hybrid demo_sphinx surb [2] = Inr q \<and>
     arrive demo_sphinx True (fst (demo_hop 5)) (snd (demo_hop 5)) p = (Inr r, n') \<and>
     snd (arrive demo_sphinx True (fst (demo_hop 5)) n' q) = n'"
proof -
  obtain surb p q r n' where d: "wrap_with_surb_hybrid demo_sphinx surb [1] = Inr p" "wrap_with_surb_hybrid demo_sphinx surb [2] = Inr q"
    "arrive demo_sphinx True (fst (demo_hop 5)) (snd (demo_hop 5)) p = (Inr r, n')" using demo_surb_accepts by blast
  have "reachable_node demo_sphinx (from_private_key demo_sphinx [5] (replicate 16 5)) (snd (demo_hop 5))"
    by (simp add: demo_hop_def reachable_node.start)
  from surb_single_use [OF demo_sphinx_correct(2,3) d(1,2) this d(3) refl, of "[]"]
  have "snd (arrive demo_sphinx True (fst (demo_hop 5)) n' q) = n'" by (simp add: MAX_SEEN_TAGS_def)
  with d show ?thesis by blast
qed

section \<open>The encoding\<close>

definition surb_ok :: "'sc sphinx_env \<Rightarrow> Surb \<Rightarrow> bool" where
  "surb_ok env s \<longleftrightarrow>
     (let h = surb_header s in
      (sh_version h = SPHINX_VERSION_CLASSICAL \<and> length (surb_kem_ciphertexts s) \<le> KEM_BLOCK_SIZE env \<or>
       sh_version h = SPHINX_VERSION_HYBRID \<and> length (surb_kem_ciphertexts s) = KEM_BLOCK_SIZE env) \<and>
      length (ephemeral_key h) = 32 \<and> length (sh_session_id h) = SESSION_ID_SIZE \<and>
      length (routing_info h) = ROUTING_INFO_SIZE \<and> length (sh_mac h) = MAC_SIZE \<and>
      0 < length (body_keys s) \<and> length (body_keys s) \<le> MAX_HOPS \<and> (\<forall>k\<in>set (body_keys s). length k = 32) \<and>
      length (body_aead_key s) = 32 \<and> length (aad_destination s) = NODE_ID_SIZE \<and> length (first_hop s) = NODE_ID_SIZE)"

lemma take_drop_concat:
  "\<forall>x\<in>set xs. length x = n \<Longrightarrow> i < length xs \<Longrightarrow> take n (drop (i * n) (concat xs @ rest)) = xs ! i"
proof (induction xs arbitrary: i)
  case (Cons x xs)
  then show ?case by (cases i) simp_all
qed simp

lemma surb_roundtrip:
  assumes ok: "surb_ok env s" and small: "KEM_BLOCK_SIZE env < 2 ^ 32"
  shows "surb_deserialize env (surb_serialize s @ rest) = Inr s"
proof -
  let ?h = "surb_header s" and ?k = "surb_kem_ciphertexts s" and ?n = "length (body_keys s)"
  have h: "length (ephemeral_key ?h) = 32" "length (sh_session_id ?h) = 32" "length (routing_info ?h) = 165" "length (sh_mac ?h) = 16"
    "length (body_aead_key s) = 32" "length (aad_destination s) = 16" "length (first_hop s) = 16" "0 < ?n" "?n \<le> 5"
    "\<forall>k\<in>set (body_keys s). length k = 32"
    and kem: "length ?k \<le> KEM_BLOCK_SIZE env" "sh_version ?h = SPHINX_VERSION_HYBRID \<longrightarrow> length ?k = KEM_BLOCK_SIZE env"
    and ver: "sh_version ?h = SPHINX_VERSION_CLASSICAL \<or> sh_version ?h = SPHINX_VERSION_HYBRID"
    using ok by (auto simp: surb_ok_def sphinx_sizes Let_def SPHINX_VERSION_CLASSICAL_def SPHINX_VERSION_HYBRID_def)
  have cl: "length (concat (body_keys s)) = ?n * 32"
    using h(10) by (induction "body_keys s" arbitrary: s) (auto simp: length_concat sum_list_triv cong: map_cong)
  have n: "unat (of_nat ?n :: u8) = ?n" using h(9) by (simp add: unat_of_nat)
  have kl: "be32_len (len_be32 (length ?k)) = length ?k" using kem(1) small by simp
  define data where "data = surb_serialize s @ rest"
  define suf where "suf = routing_info ?h @ sh_mac ?h @ [of_nat ?n] @ concat (body_keys s) @ body_aead_key s @ aad_destination s @ first_hop s @ rest"
  define pre where "pre = [sh_version ?h] @ ephemeral_key ?h @ sh_session_id ?h @ len_be32 (length ?k) @ ?k"
  have split: "data = pre @ suf" "length pre = 69 + length ?k" by (simp_all add: data_def surb_serialize_def suf_def pre_def h)
  have dropk: "drop (69 + length ?k + m) data = drop m suf" for m
    unfolding split(2) [symmetric] split(1) by simp
  have f0: "data ! 0 = sh_version ?h" "take 32 (drop (Suc 0) data) = ephemeral_key ?h" "take 32 (drop 33 data) = sh_session_id ?h"
    "take 4 (drop 65 data) = len_be32 (length ?k)" "take (length ?k) (drop 69 data) = ?k"
    by (simp_all add: data_def surb_serialize_def h)
  have f1: "take 165 (drop (69 + length ?k) data) = routing_info ?h" "take 16 (drop (234 + length ?k) data) = sh_mac ?h"
    "data ! (250 + length ?k) = of_nat ?n" "take 32 (drop (251 + length ?k + ?n * 32) data) = body_aead_key s"
    "take 16 (drop (283 + (length ?k + ?n * 32)) data) = aad_destination s"
    "take 16 (drop (299 + (length ?k + ?n * 32)) data) = first_hop s"
    using dropk [of 0] dropk [of 165] dropk [of "182 + ?n * 32"] dropk [of "214 + ?n * 32"] dropk [of "230 + ?n * 32"]
    by (simp_all add: suf_def h cl add.assoc drop_Cons') (simp add: data_def surb_serialize_def h nth_append)
  have keys: "map (\<lambda>i. take 32 (drop (251 + length ?k + i * 32) data)) [0..<?n] = body_keys s"
  proof (rule nth_equalityI)
    fix i assume "i < length (map (\<lambda>i. take 32 (drop (251 + length ?k + i * 32) data)) [0..<?n])"
    then show "map (\<lambda>i. take 32 (drop (251 + length ?k + i * 32) data)) [0..<?n] ! i = body_keys s ! i"
      using take_drop_concat [OF h(10), of i "body_aead_key s @ aad_destination s @ first_hop s @ rest"] dropk [of "182 + i * 32"]
      by (simp add: suf_def h add.assoc)
  qed simp
  have len: "length data = 315 + (length ?k + ?n * 32) + length rest"
    by (simp add: data_def surb_serialize_def h cl)
  have "1 \<le> ?n" "body_keys s \<noteq> []" using h(8) by (linarith, auto)
  then have "surb_deserialize env data = Inr s"
    using ver kem h(9) by (simp add: surb_deserialize_def Let_def sphinx_sizes f0 f1 keys len n kl)
  then show ?thesis by (simp add: data_def)
qed

text \<open>Sizes of the curve points and of ML-KEM ciphertexts.\<close>

definition outputs_sized :: "'sc sphinx_env \<Rightarrow> bool" where
  "outputs_sized env \<longleftrightarrow> hashes_sized env \<and> (\<forall>p a. length p = 32 \<longrightarrow> length (point_mul env p a) = 32) \<and>
     (\<forall>rnd pk ct ss. kem_encapsulate (sx_kx env) rnd pk = Some (ct, ss) \<longrightarrow> length ct = KEM_CIPHERTEXT_SIZE (sx_kx env)) \<and>
     KEM_BLOCK_SIZE env < 2 ^ 32"

lemma hybrid_secrets_sizes:
  "hybrid_secrets env kr i hops alpha s = Inr hy \<Longrightarrow> outputs_sized env \<Longrightarrow>
     length hy = length hops \<and> (\<forall>e\<in>set hy. length (snd e) = KEM_CIPHERTEXT_SIZE (sx_kx env)) \<and> (hops \<noteq> [] \<longrightarrow> snd (fst (hd hy)) = alpha)"
proof (induction hops arbitrary: i alpha s hy)
  case (Cons hop hops)
  obtain ks ct where e: "encapsulate_to (sx_kx env) (kr i) (hh_kem_public_key hop) = Inr (ks, ct)"
    using Cons.prems(1) by (auto simp: Let_def split: sum.splits)
  then have ct: "length ct = KEM_CIPHERTEXT_SIZE (sx_kx env)"
    using Cons.prems(2) unfolding outputs_sized_def by (force simp: encapsulate_to_def split: if_splits option.splits)
  obtain sh a s' rest where "hybrid_secrets env kr (i + 1) hops a s' = Inr rest" "hy = ((sh, alpha), ct) # rest"
    using Cons.prems(1) e by (auto simp: Let_def split: sum.splits)
  with Cons.IH [OF this(1) Cons.prems(2)] ct show ?case by auto
qed simp

lemma built_surb_ok:
  assumes o: "outputs_sized env" and l: "length sid = SESSION_ID_SIZE" "length dest = NODE_ID_SIZE" "\<forall>i\<in>set ids. length i = NODE_ID_SIZE"
    and n: "ids \<noteq> []" "length ids \<le> MAX_HOPS" "length ss = length ids" "length pad + SLOT_SIZE * length ids = ROUTING_INFO_SIZE"
    and a: "snd (hd ss) = point_mul env BASE_POINT k"
    and v: "v = SPHINX_VERSION_CLASSICAL \<and> kem = [] \<or> v = SPHINX_VERSION_HYBRID \<and> length kem = KEM_BLOCK_SIZE env"
  shows "surb_ok env \<lparr>surb_header = build_header env v sid dest (hop_inputs env ss (replicate (length ids) c) ids) pad,
    surb_kem_ciphertexts = kem, body_keys = body_keys_of env ss, body_aead_key = derive_body_aead_key env (fst (last ss)),
    aad_destination = dest, first_hop = hd ids\<rparr>"
proof -
  let ?hs = "hop_inputs env ss (replicate (length ids) c) ids"
  have h: "hashes_sized env" using o by (simp add: outputs_sized_def)
  have hs: "?hs \<noteq> []" "length ?hs = length ids" using n by (auto simp flip: length_greater_0_conv)
  obtain sh al ss' where ss: "ss = (sh, al) # ss'" using n by (cases ss) auto
  obtain i js where ids: "ids = i # js" using n by (cases ids) auto
  have "length (ephemeral_key (build_header env v sid dest ?hs pad)) = 32"
    using o a by (simp add: build_header_def ss ids Let_def outputs_sized_def BASE_POINT_def)
  moreover have "length (routing_info (build_header env v sid dest ?hs pad)) = ROUTING_INFO_SIZE"
    using length_routing_info [OF h l(2) ids_sized_hop_inputs [OF l(3), of env ss "replicate (length ids) c"], of v sid pad] n hs by simp
  moreover have "length (sh_mac (build_header env v sid dest ?hs pad)) = MAC_SIZE"
    using hd_mac_size [OF h hs(1)] by (simp add: build_header_def Let_def)
  moreover have "\<forall>k\<in>set (body_keys_of env ss). length k = 32" "length (derive_body_aead_key env (fst (last ss))) = 32"
    using h by (auto simp: derive_hop_keys_def derive_body_aead_key_def)
  moreover have "length (hd ids) = NODE_ID_SIZE" using l(3) ids by simp
  moreover have "sh_version (build_header env v sid dest ?hs pad) = v" "sh_session_id (build_header env v sid dest ?hs pad) = sid"
    by (simp_all add: build_header_def Let_def)
  ultimately show ?thesis using l n v by (auto simp: surb_ok_def Let_def)
qed

lemma created_surb_hybrid_ok:
  assumes "outputs_sized env" "length (pr_session_id rnd) = SESSION_ID_SIZE"
    and c: "create_surb_hybrid env rnd route = Inr (s, sec)" "length (hybrid_destination route) = NODE_ID_SIZE"
    "\<forall>h\<in>set (hybrid_hops route). length (hh_node_id h) = NODE_ID_SIZE"
    "length (pr_pad rnd) + SLOT_SIZE * length (hybrid_hops route) = ROUTING_INFO_SIZE"
    "length (pr_kem_pad rnd) + KEM_CIPHERTEXT_SIZE (sx_kx env) * length (hybrid_hops route) = KEM_BLOCK_SIZE env"
  shows "surb_ok env s"
proof -
  obtain hy where hy: "hybrid_secrets env (pr_kem rnd) 0 (hybrid_hops route) (point_mul env BASE_POINT (pr_scalar rnd)) (pr_scalar rnd) = Inr hy"
    using c(1) by (auto simp: create_surb_hybrid_def Let_def split: if_splits sum.splits)
  note sz = hybrid_secrets_sizes [OF hy assms(1)]
  have n: "hybrid_hops route \<noteq> []" "length (hybrid_hops route) \<le> MAX_HOPS"
    using c(1) by (auto simp: create_surb_hybrid_def Let_def split: if_splits)
  have ne: "hy \<noteq> []" using sz n by auto
  have kem: "length (concat (map snd hy) @ pr_kem_pad rnd) = KEM_BLOCK_SIZE env"
    using sz c(5) by (simp add: length_concat comp_def sum_list_triv mult.commute add.commute cong: map_cong)
  show ?thesis
    using built_surb_ok [OF assms(1,2) c(2), of "map hh_node_id (hybrid_hops route)" "map fst hy" "pr_pad rnd" "pr_scalar rnd"
        SPHINX_VERSION_HYBRID "concat (map snd hy) @ pr_kem_pad rnd" "replicate WIRE_BODY_SIZE 0"] c n kem sz ne
    by (auto simp: create_surb_hybrid_def hy hd_map Let_def split: if_splits)
qed

text \<open>Reply blocks survive the transport inside a request body: every block that
  \<open>create_surb\<close> or \<open>create_surb_hybrid\<close> produces is read back exactly from its encoding, whatever follows
  it in the body.\<close>

theorem created_surbs_roundtrip:
  assumes "outputs_sized env" and "length (pr_session_id rnd) = SESSION_ID_SIZE"
  shows "(\<forall>route s sec. create_surb env rnd route = Inr (s, sec) \<and> length (route_destination route) = NODE_ID_SIZE \<and>
      (\<forall>h\<in>set (route_hops route). length (rh_node_id h) = NODE_ID_SIZE) \<and>
      length (pr_pad rnd) + SLOT_SIZE * length (route_hops route) = ROUTING_INFO_SIZE \<longrightarrow>
      surb_deserialize env (surb_serialize s @ rest) = Inr s) \<and>
    (\<forall>route s sec. create_surb_hybrid env rnd route = Inr (s, sec) \<and> length (hybrid_destination route) = NODE_ID_SIZE \<and>
      (\<forall>h\<in>set (hybrid_hops route). length (hh_node_id h) = NODE_ID_SIZE) \<and>
      length (pr_pad rnd) + SLOT_SIZE * length (hybrid_hops route) = ROUTING_INFO_SIZE \<and>
      length (pr_kem_pad rnd) + KEM_CIPHERTEXT_SIZE (sx_kx env) * length (hybrid_hops route) = KEM_BLOCK_SIZE env \<longrightarrow>
      surb_deserialize env (surb_serialize s @ rest) = Inr s)"
proof (intro conjI allI impI; elim conjE)
  fix route s sec
  assume c: "create_surb env rnd route = Inr (s, sec)" "length (route_destination route) = NODE_ID_SIZE"
    "\<forall>h\<in>set (route_hops route). length (rh_node_id h) = NODE_ID_SIZE"
    "length (pr_pad rnd) + SLOT_SIZE * length (route_hops route) = ROUTING_INFO_SIZE"
  let ?ss = "hop_secrets env (map rh_public_key (route_hops route)) (point_mul env BASE_POINT (pr_scalar rnd)) (pr_scalar rnd)"
  have n: "route_hops route \<noteq> []" "length (route_hops route) \<le> MAX_HOPS"
    using c(1) by (auto simp: create_surb_def Let_def split: if_splits)
  have "surb_ok env s"
    using built_surb_ok [OF assms(1,2) c(2), of "map rh_node_id (route_hops route)" ?ss "pr_pad rnd" "pr_scalar rnd"
        SPHINX_VERSION_CLASSICAL "[]" "replicate WIRE_BODY_SIZE 0"] c n
    by (auto simp: create_surb_def hop_secrets_hd hd_map Let_def split: if_splits)
  then show "surb_deserialize env (surb_serialize s @ rest) = Inr s"
    using assms(1) by (intro surb_roundtrip) (auto simp: outputs_sized_def)
next
  fix route s sec
  assume c: "create_surb_hybrid env rnd route = Inr (s, sec)" "length (hybrid_destination route) = NODE_ID_SIZE"
    "\<forall>h\<in>set (hybrid_hops route). length (hh_node_id h) = NODE_ID_SIZE"
    "length (pr_pad rnd) + SLOT_SIZE * length (hybrid_hops route) = ROUTING_INFO_SIZE"
    "length (pr_kem_pad rnd) + KEM_CIPHERTEXT_SIZE (sx_kx env) * length (hybrid_hops route) = KEM_BLOCK_SIZE env"
  have "surb_ok env s" by (rule created_surb_hybrid_ok [OF assms c])
  then show "surb_deserialize env (surb_serialize s @ rest) = Inr s"
    using assms(1) by (intro surb_roundtrip) (auto simp: outputs_sized_def)
qed

lemma demo_outputs_sized: "outputs_sized demo_sphinx"
  by (auto simp: outputs_sized_def demo_sphinx_correct) (auto simp: demo_sphinx_def demo_kx_def sphinx_sizes split: list.splits)

theorem created_surbs_roundtrip_witness:
  "\<exists>s sec. create_surb demo_sphinx (demo_random 1)
      \<lparr>route_hops = [\<lparr>rh_public_key = replicate 32 5, rh_node_id = replicate 16 5\<rparr>], route_destination = replicate 16 9\<rparr> = Inr (s, sec) \<and>
     surb_deserialize demo_sphinx (surb_serialize s @ [7]) = Inr s"
proof -
  let ?r = "\<lparr>route_hops = [\<lparr>rh_public_key = replicate 32 5, rh_node_id = replicate 16 5\<rparr>], route_destination = replicate 16 9\<rparr>"
  obtain s sec where c: "create_surb demo_sphinx (demo_random 1) ?r = Inr (s, sec)"
    by (simp add: create_surb_def MAX_HOPS_def Let_def)
  have "length (pr_session_id (demo_random 1)) = SESSION_ID_SIZE" by (simp add: demo_random_def sphinx_sizes)
  from created_surbs_roundtrip [OF demo_outputs_sized this, THEN conjunct1, rule_format, of ?r s sec "[7]"] c show ?thesis
    by (auto simp: demo_random_def sphinx_sizes)
qed

end
