(* ===== verification/MeshRetrieval.thy ===== *)
theory MeshRetrieval
  imports Surb Retrieval
begin

text \<open>
  \<^verbatim>\<open>crates/static-mesh/src/retrieval.rs\<close>: anonymous retrieval. The requester's table of pending
  retrievals, the holder's answers over a return route or a reply block, session replies. This is where
  Sphinx, reply blocks, fragmentation and the chunk messages meet: the theorems follow a chunk from the
  holder through the mixnet back into the requester's table.
\<close>

definition MSG_SURB_CHUNK_REQUEST :: u8 where "MSG_SURB_CHUNK_REQUEST = 0x03"
definition SURB_REQUEST_CHUNK_SIZE :: nat where "SURB_REQUEST_CHUNK_SIZE = BODY_SIZE - 1 - 32 - 12"
definition MAX_PENDING_RETRIEVALS :: nat where "MAX_PENDING_RETRIEVALS = 64"
definition RETRIEVAL_TIMEOUT_SECS :: u64 where "RETRIEVAL_TIMEOUT_SECS = 600"

datatype RetrievalError =
    RequestTooLarge
  | SphinxFailure
  | InvalidRequest
  | InvalidFragment
  | ReassemblyFailed
  | InvalidResponse
  | NoMatchingRetrieval

section \<open>Pending retrievals\<close>

text \<open>Instants are nanoseconds.\<close>

record PendingRetrieval =
  pend_chunk_id :: ChunkId
  reassembler :: Reassembler
  pend_created_at :: nat

record RetrievalManager =
  mgr_pending :: "(ChunkId, PendingRetrieval) hashmap"
  mgr_order :: "ChunkId list"

definition RetrievalManager_new :: RetrievalManager where
  "RetrievalManager_new = \<lparr>mgr_pending = [], mgr_order = []\<rparr>"

definition mgr_start_retrieval :: "nat \<Rightarrow> ChunkId \<Rightarrow> RetrievalManager \<Rightarrow> RetrievalManager" where
  "mgr_start_retrieval now chunk_id m =
     (if hm_contains (mgr_pending m) chunk_id then
        m\<lparr>mgr_order := filter (\<lambda>i. i \<noteq> chunk_id) (mgr_order m) @ [chunk_id],
          mgr_pending := hm_modify chunk_id (\<lambda>p. p\<lparr>pend_created_at := now\<rparr>) (mgr_pending m)\<rparr>
      else
        let m = (if MAX_PENDING_RETRIEVALS \<le> hm_len (mgr_pending m) then
                   (case mgr_order m of
                      [] \<Rightarrow> m
                    | oldest # rest \<Rightarrow> m\<lparr>mgr_order := rest, mgr_pending := hm_remove oldest (mgr_pending m)\<rparr>)
                 else m)
        in m\<lparr>mgr_pending := hm_insert chunk_id \<lparr>pend_chunk_id = chunk_id, reassembler = Reassembler_new now, pend_created_at = now\<rparr> (mgr_pending m),
             mgr_order := mgr_order m @ [chunk_id]\<rparr>)"

text \<open>Removing a retrieval from the table and the queue.\<close>

definition mgr_drop :: "ChunkId \<Rightarrow> RetrievalManager \<Rightarrow> RetrievalManager" where
  "mgr_drop i m = m\<lparr>mgr_pending := hm_remove i (mgr_pending m), mgr_order := filter (\<lambda>kept. kept \<noteq> i) (mgr_order m)\<rparr>"

definition cleanup_expired_with_timeout :: "nat \<Rightarrow> u64 \<Rightarrow> RetrievalManager \<Rightarrow> nat \<times> RetrievalManager" where
  "cleanup_expired_with_timeout now timeout_secs m =
     (let expired = map fst (filter (\<lambda>(_, p). unat timeout_secs * 10 ^ 9 \<le> now - pend_created_at p) (mgr_pending m))
      in (length expired, fold mgr_drop expired m))"

definition mgr_cleanup_expired :: "nat \<Rightarrow> RetrievalManager \<Rightarrow> nat \<times> RetrievalManager" where
  "mgr_cleanup_expired now m = cleanup_expired_with_timeout now RETRIEVAL_TIMEOUT_SECS m"

text \<open>The scan runs over the table in its iteration order.\<close>

definition process_fragment :: "bytes \<Rightarrow> RetrievalManager \<Rightarrow> (RetrievalError + ChunkResponse option) \<times> RetrievalManager" where
  "process_fragment fragment_body m =
     (case deserialize_fragment fragment_body of
        Inl _ \<Rightarrow> (Inl InvalidFragment, m)
      | Inr f \<Rightarrow>
          if total_fragments f = 0 \<or> MAX_FRAGMENTS_PER_MESSAGE < total_fragments f \<or> total_fragments f \<le> fragment_id f
          then (Inl InvalidFragment, m)
          else case find (\<lambda>(i, p). can_accept_fragment (reassembler p) f) (mgr_pending m) of
                 None \<Rightarrow> (Inl NoMatchingRetrieval, m)
               | Some (target, p) \<Rightarrow>
                   let (was_new, r) = Reassembler_add_fragment f (reassembler p);
                       m = m\<lparr>mgr_pending := hm_modify target (\<lambda>p. p\<lparr>reassembler := r\<rparr>) (mgr_pending m)\<rparr>
                   in if \<not> was_new then (Inl NoMatchingRetrieval, m)
                      else if is_complete r then
                        (case reassemble r of
                           Inl _ \<Rightarrow> (Inl ReassemblyFailed, m)
                         | Inr data \<Rightarrow>
                             (case deserialize_chunk_response data of
                                Inl _ \<Rightarrow> (Inl InvalidResponse, m)
                              | Inr response \<Rightarrow>
                                  let chunk_id = resp_chunk_id response;
                                      m = mgr_drop chunk_id m;
                                      m = (if chunk_id \<noteq> target then mgr_drop target m else m)
                                  in (Inr (Some response), m)))
                      else (Inr None, m))"

definition is_pending :: "RetrievalManager \<Rightarrow> ChunkId \<Rightarrow> bool" where
  "is_pending m chunk_id = hm_contains (mgr_pending m) chunk_id"

definition mgr_pending_count :: "RetrievalManager \<Rightarrow> nat" where
  "mgr_pending_count m = hm_len (mgr_pending m)"

definition reassembler_progress :: "Reassembler \<Rightarrow> f64" where
  "reassembler_progress r =
     (case total_expected r of
        Some total_frags \<Rightarrow> if total_frags = 0 then Fin 1
                            else Fin (f64_div (f64_of_nat (hm_len (fragments r))) (f64_of_nat (unat total_frags)))
      | None \<Rightarrow> Fin 0)"

definition mgr_progress :: "RetrievalManager \<Rightarrow> ChunkId \<Rightarrow> f64 option" where
  "mgr_progress m chunk_id = map_option (\<lambda>p. reassembler_progress (reassembler p)) (hm_get (mgr_pending m) chunk_id)"

section \<open>Requests and answers over a return route\<close>

definition create_anonymous_request_hybrid ::
  "'sc sphinx_env \<Rightarrow> 'sc PacketRandom \<Rightarrow> ChunkId \<Rightarrow> Route \<Rightarrow> HybridRoute \<Rightarrow> RetrievalError + SphinxPacket" where
  "create_anonymous_request_hybrid env rnd chunk_id return_route forward_route =
     (let request = \<lparr>cr_chunk_id = chunk_id, cr_return_route = from_sphinx_route return_route, cr_surb = None\<rparr>;
          request_bytes = serialize_chunk_request request
      in if BODY_SIZE < length request_bytes then Inl RequestTooLarge
         else case create_packet_hybrid env rnd forward_route request_bytes of
                Inl _ \<Rightarrow> Inl SphinxFailure
              | Inr packet \<Rightarrow> Inr packet)"

text \<open>The KEM-capable form of a return route: every hop needs a key, the destination is appended when it
  is not the last hop.\<close>

fun lookup_hops :: "(NodeId \<Rightarrow> bytes option) \<Rightarrow> RouteHop list \<Rightarrow> RetrievalError + HybridRouteHop list" where
  "lookup_hops kem_lookup [] = Inr []"
| "lookup_hops kem_lookup (hop # hops) =
     (case kem_lookup (rh_node_id hop) of
        None \<Rightarrow> Inl SphinxFailure
      | Some kem \<Rightarrow>
          (case lookup_hops kem_lookup hops of
             Inl e \<Rightarrow> Inl e
           | Inr rest \<Rightarrow> Inr (\<lparr>hh_node_id = rh_node_id hop, hh_classical_public_key = rh_public_key hop, hh_kem_public_key = kem\<rparr> # rest)))"

definition effective_route :: "(NodeId \<Rightarrow> bytes option) \<Rightarrow> Route \<Rightarrow> RetrievalError + HybridRoute" where
  "effective_route kem_lookup route =
     (case lookup_hops kem_lookup (route_hops route) of
        Inl e \<Rightarrow> Inl e
      | Inr hops \<Rightarrow>
          if hops \<noteq> [] \<and> hh_node_id (last hops) = route_destination route then
            Inr \<lparr>hybrid_hops = hops, hybrid_destination = route_destination route\<rparr>
          else case kem_lookup (route_destination route) of
                 None \<Rightarrow> Inl SphinxFailure
               | Some kem \<Rightarrow>
                   let last_key = (if route_hops route = [] then replicate 32 0 else rh_public_key (last (route_hops route)))
                   in Inr \<lparr>hybrid_hops = hops @ [\<lparr>hh_node_id = route_destination route, hh_classical_public_key = last_key, hh_kem_public_key = kem\<rparr>],
                           hybrid_destination = route_destination route\<rparr>)"

text \<open>One packet per body, each with its own randomness.\<close>

fun packets_for :: "'sc sphinx_env \<Rightarrow> (nat \<Rightarrow> 'sc PacketRandom) \<Rightarrow> HybridRoute \<Rightarrow> nat \<Rightarrow> bytes list \<Rightarrow> RetrievalError + SphinxPacket list" where
  "packets_for env rnd route i [] = Inr []"
| "packets_for env rnd route i (body # bodies) =
     (case create_packet_hybrid env (rnd i) route body of
        Inl _ \<Rightarrow> Inl SphinxFailure
      | Inr packet \<Rightarrow>
          (case packets_for env rnd route (i + 1) bodies of Inl e \<Rightarrow> Inl e | Inr packets \<Rightarrow> Inr (packet # packets)))"

definition answer :: "ChunkId \<Rightarrow> bytes option \<Rightarrow> ChunkResponse" where
  "answer chunk_id chunk_data = \<lparr>resp_chunk_id = chunk_id, resp_chunk_data = (case chunk_data of Some d \<Rightarrow> d | None \<Rightarrow> []),
     resp_found = (chunk_data \<noteq> None)\<rparr>"

definition handle_retrieval_request ::
  "'sc sphinx_env \<Rightarrow> (nat \<Rightarrow> 'sc PacketRandom) \<Rightarrow> bytes \<Rightarrow> bytes option \<Rightarrow> (NodeId \<Rightarrow> bytes option) \<Rightarrow>
     RetrievalError + SphinxPacket list" where
  "handle_retrieval_request env rnd request_body chunk_data kem_lookup =
     (case deserialize_chunk_request request_body of
        Inl _ \<Rightarrow> Inl InvalidRequest
      | Inr request \<Rightarrow>
          let response_bytes = serialize_chunk_response (answer (cr_chunk_id request) chunk_data);
              return_route = to_sphinx_route (cr_return_route request);
              frags = fragment_payload response_bytes
          in case effective_route kem_lookup return_route of
               Inl e \<Rightarrow> Inl e
             | Inr effective \<Rightarrow> packets_for env rnd effective 0 (map serialize_fragment frags))"

definition create_hybrid_payload_packets ::
  "'sc sphinx_env \<Rightarrow> (nat \<Rightarrow> 'sc PacketRandom) \<Rightarrow> bytes \<Rightarrow> Route \<Rightarrow> (NodeId \<Rightarrow> bytes option) \<Rightarrow>
     RetrievalError + SphinxPacket list" where
  "create_hybrid_payload_packets env rnd payload route kem_lookup =
     (case effective_route kem_lookup route of
        Inl e \<Rightarrow> Inl e
      | Inr effective \<Rightarrow> packets_for env rnd effective 0 (map serialize_fragment (fragment_payload payload)))"

section \<open>Requests and answers over a reply block\<close>

definition build_surb_request_bodies :: "bytes \<Rightarrow> bytes \<Rightarrow> bytes list" where
  "build_surb_request_bodies request_bytes sid =
     (let n = max ((length request_bytes + SURB_REQUEST_CHUNK_SIZE - 1) div SURB_REQUEST_CHUNK_SIZE) 1
      in map (\<lambda>i.
           let start = i * SURB_REQUEST_CHUNK_SIZE;
               stop = min (start + SURB_REQUEST_CHUNK_SIZE) (length request_bytes);
               data = take (stop - start) (drop start request_bytes)
           in [MSG_SURB_CHUNK_REQUEST] @ sid @ len_be32 i @ len_be32 n @ len_be32 (length data) @ data) [0..<n])"

definition surb_request :: "ChunkId \<Rightarrow> Surb \<Rightarrow> ChunkRequest" where
  "surb_request chunk_id surb = \<lparr>cr_chunk_id = chunk_id, cr_return_route = \<lparr>rr_hops = [], rr_destination = aad_destination surb\<rparr>,
     cr_surb = Some (surb_serialize surb)\<rparr>"

definition create_surb_request_packets ::
  "'sc sphinx_env \<Rightarrow> (nat \<Rightarrow> 'sc PacketRandom) \<Rightarrow> ChunkId \<Rightarrow> Surb \<Rightarrow> HybridRoute \<Rightarrow> RetrievalError + SphinxPacket list" where
  "create_surb_request_packets env rnd chunk_id surb forward_route =
     (let bodies = build_surb_request_bodies (serialize_chunk_request (surb_request chunk_id surb)) (session_id surb)
      in packets_for env rnd forward_route 0 bodies)"

record SurbReplyPackets =
  first_packet :: SphinxPacket
  session_replies :: "SessionReply list"
  reply_first_hop :: NodeId

text \<open>The nonces are drawn at random, one per fragment; the AEAD nonce is their first twelve bytes.\<close>

definition build_session_replies :: "'sc sphinx_env \<Rightarrow> (nat \<Rightarrow> bytes) \<Rightarrow> Surb \<Rightarrow> Fragment list \<Rightarrow> SessionReply list" where
  "build_session_replies env nonces surb frags =
     map (\<lambda>(i, f).
       let body = encrypt_aad (sx_aead env) (body_aead_key surb) (take 12 (nonces i)) (serialize_fragment f) (aad_destination surb)
       in \<lparr>sr_session_id = session_id surb, sr_nonce = nonces i, sr_body = onion_encrypt env (body_keys surb) body\<rparr>)
     (enumerate 0 frags)"

definition handle_retrieval_request_with_surb ::
  "'sc sphinx_env \<Rightarrow> (nat \<Rightarrow> bytes) \<Rightarrow> bytes \<Rightarrow> bytes option \<Rightarrow> RetrievalError + SurbReplyPackets" where
  "handle_retrieval_request_with_surb env nonces request_body chunk_data =
     (case deserialize_chunk_request request_body of
        Inl _ \<Rightarrow> Inl InvalidRequest
      | Inr request \<Rightarrow>
          (case cr_surb request of
             None \<Rightarrow> Inl InvalidRequest
           | Some surb_data \<Rightarrow>
               (case surb_deserialize env surb_data of
                  Inl _ \<Rightarrow> Inl SphinxFailure
                | Inr surb \<Rightarrow>
                    let frags = fragment_payload (serialize_chunk_response (answer (cr_chunk_id request) chunk_data))
                    in case wrap_with_surb_hybrid env surb (serialize_fragment (frags ! 0)) of
                         Inl _ \<Rightarrow> Inl SphinxFailure
                       | Inr packet \<Rightarrow>
                           Inr \<lparr>first_packet = packet, session_replies = build_session_replies env nonces surb (drop 1 frags),
                                reply_first_hop = first_hop surb\<rparr>)))"

definition decrypt_session_reply_body ::
  "'sc sphinx_env \<Rightarrow> SessionReply \<Rightarrow> bytes \<Rightarrow> NodeId \<Rightarrow> RetrievalError + bytes" where
  "decrypt_session_reply_body env reply aead_key destination =
     (case decrypt_aad (sx_aead env) aead_key (take 12 (sr_nonce reply)) (sr_body reply) destination of
        Inl _ \<Rightarrow> Inl SphinxFailure
      | Inr p \<Rightarrow> Inr p)"

definition process_response_packet ::
  "'sc sphinx_env \<Rightarrow> u64 \<Rightarrow> bytes \<Rightarrow> RetrievalManager \<Rightarrow> 'sc MixNode \<Rightarrow> SphinxPacket \<Rightarrow>
     (RetrievalError + ChunkResponse option) \<times> RetrievalManager \<times> 'sc MixNode" where
  "process_response_packet env now slot_pad m node packet =
     (case process_packet env now slot_pad node packet of
        (Inl _, node) \<Rightarrow> (Inl SphinxFailure, m, node)
      | (Inr result, node) \<Rightarrow>
          (case (pp_flag result, pp_body result) of
             (Destination, Some body) \<Rightarrow> (case process_fragment body m of (r, m) \<Rightarrow> (r, m, node))
           | _ \<Rightarrow> (Inr None, m, node)))"

section \<open>The table stays bounded\<close>

definition mgr_inv :: "RetrievalManager \<Rightarrow> bool" where
  "mgr_inv m \<longleftrightarrow> hm_wf (mgr_pending m) \<and> distinct (mgr_order m) \<and> set (mgr_order m) = set (hm_keys (mgr_pending m)) \<and>
     hm_len (mgr_pending m) \<le> MAX_PENDING_RETRIEVALS \<and> (\<forall>(i, p)\<in>set (mgr_pending m). reassembler_inv (reassembler p))"

datatype mgr_event = Start nat ChunkId | Fragment_in bytes | Expire nat u64

fun mgr_exec :: "mgr_event \<Rightarrow> RetrievalManager \<Rightarrow> RetrievalManager" where
  "mgr_exec (Start now i) m = mgr_start_retrieval now i m"
| "mgr_exec (Fragment_in body) m = snd (process_fragment body m)"
| "mgr_exec (Expire now timeout) m = snd (cleanup_expired_with_timeout now timeout m)"

inductive mgr_reachable :: "RetrievalManager \<Rightarrow> bool" where
  mgr_initial: "mgr_reachable RetrievalManager_new"
| mgr_event: "mgr_reachable m \<Longrightarrow> mgr_reachable (mgr_exec ev m)"

lemma hm_keys_hm_modify [simp]: "hm_keys (hm_modify k f m) = hm_keys m"
  by (simp add: hm_keys_def)

lemma hm_len_keys: "hm_len m = length (hm_keys m)"
  by (simp add: hm_len_def hm_keys_def)

lemma set_hm_modify: "(i, v) \<in> set (hm_modify k f m) \<Longrightarrow> (i, v) \<in> set m \<or> (i = k \<and> (\<exists>w. (k, w) \<in> set m \<and> v = f w))"
  by (induction m) (auto simp: hm_modify_def split: if_splits)

lemma mgr_inv_drop [wf_intros]: "mgr_inv m \<Longrightarrow> mgr_inv (mgr_drop i m)"
proof -
  assume m: "mgr_inv m"
  have "hm_len (hm_remove i (mgr_pending m)) \<le> MAX_PENDING_RETRIEVALS"
    using m hm_len_remove_le [of i "mgr_pending m"] unfolding mgr_inv_def by linarith
  with m show ?thesis by (auto simp: mgr_inv_def mgr_drop_def keys_hm_remove dest: subsetD [OF set_hm_remove])
qed

lemma mgr_inv_modify:
  "mgr_inv m \<Longrightarrow> (\<And>p. (k, p) \<in> set (mgr_pending m) \<Longrightarrow> reassembler_inv (reassembler (f p))) \<Longrightarrow>
     mgr_inv (m\<lparr>mgr_pending := hm_modify k f (mgr_pending m)\<rparr>)"
  by (auto simp: mgr_inv_def dest!: set_hm_modify)

lemma mgr_inv_length: "mgr_inv m \<Longrightarrow> hm_len (mgr_pending m) = length (mgr_order m)"
  using distinct_card [of "mgr_order m"] distinct_card [of "hm_keys (mgr_pending m)"]
  by (simp add: mgr_inv_def hm_wf_def hm_len_keys) (simp add: hm_keys_def)

text \<open>A new retrieval in a full table evicts the oldest one, and only that one.\<close>

lemma mgr_start_full:
  assumes "mgr_inv m" "\<not> hm_contains (mgr_pending m) i" "hm_len (mgr_pending m) = MAX_PENDING_RETRIEVALS"
  obtains oldest rest where "mgr_order m = oldest # rest"
    and "mgr_start_retrieval now i m =
      m\<lparr>mgr_pending := hm_insert i \<lparr>pend_chunk_id = i, reassembler = Reassembler_new now, pend_created_at = now\<rparr> (hm_remove oldest (mgr_pending m)),
        mgr_order := rest @ [i]\<rparr>"
proof (cases "mgr_order m")
  case Nil
  then show ?thesis using mgr_inv_length [OF assms(1)] assms(3) by (simp add: MAX_PENDING_RETRIEVALS_def)
next
  case (Cons o1 rest)
  then show ?thesis using assms(2,3) that by (simp add: mgr_start_retrieval_def)
qed

lemma mgr_inv_insert:
  assumes "mgr_inv m" "\<not> hm_contains (mgr_pending m) i" "hm_len (mgr_pending m) < MAX_PENDING_RETRIEVALS"
  shows "mgr_inv (m\<lparr>mgr_pending := hm_insert i \<lparr>pend_chunk_id = i, reassembler = Reassembler_new now, pend_created_at = now\<rparr> (mgr_pending m),
    mgr_order := mgr_order m @ [i]\<rparr>)"
  using assms set_hm_insert [of i "\<lparr>pend_chunk_id = i, reassembler = Reassembler_new now, pend_created_at = now\<rparr>" "mgr_pending m"]
  by (auto simp: mgr_inv_def keys_hm_insert_new hm_contains_keys hm_len_keys reassembler_inv_new)

lemma mgr_inv_start [wf_intros]: "mgr_inv m \<Longrightarrow> mgr_inv (mgr_start_retrieval now i m)"
proof -
  assume inv: "mgr_inv m"
  show ?thesis
  proof (cases "hm_contains (mgr_pending m) i")
    case True
    have "mgr_inv (m\<lparr>mgr_pending := hm_modify i (\<lambda>p. p\<lparr>pend_created_at := now\<rparr>) (mgr_pending m)\<rparr>)"
      using inv by (intro mgr_inv_modify) (auto simp: mgr_inv_def)
    with True show ?thesis by (auto simp: mgr_start_retrieval_def mgr_inv_def hm_contains_keys)
  next
    case False
    show ?thesis
    proof (cases "hm_len (mgr_pending m) < MAX_PENDING_RETRIEVALS")
      case True
      with inv False show ?thesis by (simp add: mgr_start_retrieval_def mgr_inv_insert)
    next
      case full: False
      then have "hm_len (mgr_pending m) = MAX_PENDING_RETRIEVALS" using inv by (simp add: mgr_inv_def)
      from mgr_start_full [OF inv False this, of now] obtain oldest rest where o: "mgr_order m = oldest # rest"
        and s: "mgr_start_retrieval now i m =
          m\<lparr>mgr_pending := hm_insert i \<lparr>pend_chunk_id = i, reassembler = Reassembler_new now, pend_created_at = now\<rparr> (hm_remove oldest (mgr_pending m)),
            mgr_order := rest @ [i]\<rparr>" by blast
      have f: "filter (\<lambda>kept. kept \<noteq> oldest) (mgr_order m) = rest" using inv o by (auto simp: mgr_inv_def filter_id_conv)
      have "mgr_inv (mgr_drop oldest m)" using inv by (rule mgr_inv_drop)
      moreover have "\<not> hm_contains (mgr_pending (mgr_drop oldest m)) i" using False by (simp add: mgr_drop_def hm_contains_def)
      moreover have "hm_len (mgr_pending (mgr_drop oldest m)) < MAX_PENDING_RETRIEVALS"
        using mgr_inv_length [OF inv] mgr_inv_length [OF calculation(1)] o f inv by (simp add: mgr_drop_def mgr_inv_def)
      ultimately have "mgr_inv ((mgr_drop oldest m)\<lparr>mgr_pending := hm_insert i \<lparr>pend_chunk_id = i, reassembler = Reassembler_new now, pend_created_at = now\<rparr> (mgr_pending (mgr_drop oldest m)),
          mgr_order := mgr_order (mgr_drop oldest m) @ [i]\<rparr>)" by (rule mgr_inv_insert)
      then show ?thesis by (simp add: s mgr_drop_def f)
    qed
  qed
qed

lemma mgr_inv_cleanup [wf_intros]: "mgr_inv m \<Longrightarrow> mgr_inv (snd (cleanup_expired_with_timeout now t m))"
proof -
  have "mgr_inv m \<Longrightarrow> mgr_inv (fold mgr_drop ids m)" for ids
    by (induction ids arbitrary: m) (simp_all add: mgr_inv_drop)
  then show "mgr_inv m \<Longrightarrow> mgr_inv (snd (cleanup_expired_with_timeout now t m))"
    by (simp add: cleanup_expired_with_timeout_def Let_def)
qed

lemma mgr_inv_process [wf_intros]:
  assumes "mgr_inv m"
  shows "mgr_inv (snd (process_fragment body m))"
proof (cases "deserialize_fragment body")
  case (Inr f)
  show ?thesis
  proof (cases "find (\<lambda>(i, p). can_accept_fragment (reassembler p) f) (mgr_pending m)")
    case (Some ip)
    obtain i p where ip: "ip = (i, p)" by (cases ip)
    then have "(i, p) \<in> set (mgr_pending m)" using Some by (auto simp: find_Some_iff set_conv_nth)
    then have "reassembler_inv (snd (Reassembler_add_fragment f (reassembler p)))"
      using assms by (auto simp: mgr_inv_def intro: reassembler_inv_add)
    then have m1: "mgr_inv (m\<lparr>mgr_pending := hm_modify i (\<lambda>p'. p'\<lparr>reassembler := snd (Reassembler_add_fragment f (reassembler p))\<rparr>) (mgr_pending m)\<rparr>)"
      using assms by (intro mgr_inv_modify) simp_all
    let ?bad = "total_fragments f = 0 \<or> MAX_FRAGMENTS_PER_MESSAGE < total_fragments f \<or> total_fragments f \<le> fragment_id f"
    show ?thesis using assms m1
      by (cases ?bad) (simp_all add: process_fragment_def Inr Some ip Let_def split_beta mgr_inv_drop split: sum.split)
  qed (simp add: process_fragment_def Inr assms)
qed (simp add: process_fragment_def assms)

lemma mgr_reachable_inv: "mgr_reachable m \<Longrightarrow> mgr_inv m"
proof (induction rule: mgr_reachable.induct)
  case mgr_initial
  show ?case by (simp add: mgr_inv_def RetrievalManager_new_def hm_keys_def hm_len_def MAX_PENDING_RETRIEVALS_def)
next
  case (mgr_event m ev)
  then show ?case by (cases ev) (simp_all add: mgr_inv_start mgr_inv_process mgr_inv_cleanup)
qed

section \<open>One retrieval\<close>

fun mgr_feed :: "bytes list \<Rightarrow> RetrievalManager \<Rightarrow> (RetrievalError + ChunkResponse option) list \<times> RetrievalManager" where
  "mgr_feed [] m = ([], m)"
| "mgr_feed (body # bodies) m =
     (case process_fragment body m of (r, m) \<Rightarrow> (case mgr_feed bodies m of (rs, m) \<Rightarrow> (r # rs, m)))"

text \<open>The only pending retrieval has received the fragments \<open>S\<close>.\<close>

definition collecting_one :: "ChunkId \<Rightarrow> u32 \<Rightarrow> Fragment set \<Rightarrow> RetrievalManager \<Rightarrow> bool" where
  "collecting_one i t S m \<longleftrightarrow> (\<exists>p. m = \<lparr>mgr_pending = [(i, p)], mgr_order = [i]\<rparr> \<and> holds t S (reassembler p))"

lemma collecting_one_start: "collecting_one i t {} (mgr_start_retrieval now i RetrievalManager_new)"
  by (simp add: collecting_one_def mgr_start_retrieval_def RetrievalManager_new_def hm_len_def hm_contains_def MAX_PENDING_RETRIEVALS_def holds_new)

lemma holds_contains: "holds t S r \<Longrightarrow> inj_on fragment_id F \<Longrightarrow> S \<subseteq> F \<Longrightarrow> f \<in> F \<Longrightarrow> hm_contains (fragments r) (fragment_id f) \<longleftrightarrow> f \<in> S"
  using holds_keys [of t S r] hm_contains_alt [of "fragments r"] by (auto simp: inj_on_def)

lemma process_one:
  assumes resp: "length (resp_chunk_id resp) = 32" "length (resp_chunk_data resp) < 2 ^ 32"
    and pay: "payload = serialize_chunk_response resp" "length payload \<le> 2048 * 1012"
    and F: "F = set (fragment_payload payload)" "t = word_of_nat (fragment_count payload)"
    and m: "collecting_one (resp_chunk_id resp) t S m" "S \<subset> F" and f: "f \<in> F"
  shows "f \<in> S \<Longrightarrow> process_fragment (serialize_fragment f) m = (Inl NoMatchingRetrieval, m)"
    and "f \<notin> S \<Longrightarrow> insert f S \<noteq> F \<Longrightarrow> \<exists>m'. process_fragment (serialize_fragment f) m = (Inr None, m') \<and>
           collecting_one (resp_chunk_id resp) t (insert f S) m'"
    and "f \<notin> S \<Longrightarrow> insert f S = F \<Longrightarrow> process_fragment (serialize_fragment f) m = (Inr (Some resp), RetrievalManager_new)"
proof -
  let ?i = "resp_chunk_id resp"
  obtain p where p: "m = \<lparr>mgr_pending = [(?i, p)], mgr_order = [?i]\<rparr>" and h: "holds t S (reassembler p)"
    using m(1) by (auto simp: collecting_one_def)
  have msg: "message t F" unfolding F by (rule message_payload [OF pay(2)])
  then have ff: "total_fragments f = t" "fragment_id f < t" "0 < t" "t \<le> MAX_FRAGMENTS_PER_MESSAGE"
    "length (frag_data f) \<le> MAX_FRAGMENT_DATA" "inj_on fragment_id F"
    using f by (auto simp: message_def)
  have dec: "deserialize_fragment (serialize_fragment f) = Inr f" by (rule deserialize_serialize_fragment [OF ff(5)])
  have inv: "reassembler_inv (reassembler p)" using h by (simp add: holds_def)
  have acc: "can_accept_fragment (reassembler p) f \<longleftrightarrow> f \<notin> S"
    using ff h holds_contains [OF h ff(6) _ f] m(2) by (auto simp: can_accept_fragment_def holds_def not_le not_less)
  define r where "r = snd (Reassembler_add_fragment f (reassembler p))"
  have h': "holds t (insert f S) r" unfolding r_def using m(2) by (intro holds_add [OF msg _ f h]) auto
  have add: "Reassembler_add_fragment f (reassembler p) = (f \<notin> S, r)"
    using can_accept_add [OF inv, of f] acc by (simp add: r_def prod_eq_iff)
  have cpl: "is_complete r \<longleftrightarrow> insert f S = F"
    using holds_complete [OF msg _ _ h'] fragment_ids [OF pay(2)] f m(2) unfolding F by auto
  have bad: "\<not> (t = 0 \<or> MAX_FRAGMENTS_PER_MESSAGE < t \<or> t \<le> fragment_id f)" using ff by auto
  have upd: "hm_modify ?i (\<lambda>p. p\<lparr>reassembler := r\<rparr>) [(?i, p)] = [(?i, p\<lparr>reassembler := r\<rparr>)]" by (simp add: hm_modify_def)
  show "f \<in> S \<Longrightarrow> process_fragment (serialize_fragment f) m = (Inl NoMatchingRetrieval, m)"
    using bad by (simp add: process_fragment_def dec ff(1) p acc)
  show "f \<notin> S \<Longrightarrow> insert f S \<noteq> F \<Longrightarrow> \<exists>m'. process_fragment (serialize_fragment f) m = (Inr None, m') \<and> collecting_one ?i t (insert f S) m'"
    using bad h' by (simp add: process_fragment_def dec ff(1) p acc add cpl upd collecting_one_def)
  have "insert f S = F \<Longrightarrow> reassemble r = Inr payload" using holds_reassemble [OF pay(2)] h' unfolding F by simp
  then show "f \<notin> S \<Longrightarrow> insert f S = F \<Longrightarrow> process_fragment (serialize_fragment f) m = (Inr (Some resp), RetrievalManager_new)"
    using bad chunk_response_roundtrip [OF resp, of "[]"]
    by (simp add: process_fragment_def dec ff(1) p acc add cpl upd pay(1) mgr_drop_def RetrievalManager_new_def hm_remove_def Let_def)
qed

lemma feed_one:
  assumes resp: "length (resp_chunk_id resp) = 32" "length (resp_chunk_data resp) < 2 ^ 32"
    and pay: "payload = serialize_chunk_response resp" "length payload \<le> 2048 * 1012"
    and F: "F = set (fragment_payload payload)" "t = word_of_nat (fragment_count payload)"
  shows "collecting_one (resp_chunk_id resp) t S m \<Longrightarrow> S \<subset> F \<Longrightarrow> set fs \<subseteq> F \<Longrightarrow> S \<union> set fs = F \<Longrightarrow>
    \<exists>rs. mgr_feed (map serialize_fragment fs) m = (rs, RetrievalManager_new) \<and> length rs = length fs \<and>
      filter (\<lambda>r. r \<noteq> Inr None \<and> r \<noteq> Inl NoMatchingRetrieval) rs = [Inr (Some resp)]"
proof (induction fs arbitrary: S m)
  case (Cons f fs)
  note one = process_one [OF resp pay F Cons.prems(1,2), of f]
  have f: "f \<in> F" using Cons.prems(3) by simp
  consider "f \<in> S" | "f \<notin> S" "insert f S \<noteq> F" | "f \<notin> S" "insert f S = F" by blast
  then show ?case
  proof cases
    case 1
    with Cons.IH [OF Cons.prems(1,2)] Cons.prems(3,4) one(1) [OF f] show ?thesis by (auto simp: insert_absorb)
  next
    case 2
    then obtain m' where "process_fragment (serialize_fragment f) m = (Inr None, m')" "collecting_one (resp_chunk_id resp) t (insert f S) m'"
      using one(2) [OF f] by blast
    moreover have "insert f S \<subset> F" using 2 f Cons.prems(2) by auto
    ultimately show ?thesis using Cons.IH [of "insert f S" m'] Cons.prems(3,4) by auto
  next
    case 3
    have "mgr_feed (map serialize_fragment gs) RetrievalManager_new = (replicate (length gs) (Inl NoMatchingRetrieval), RetrievalManager_new)"
      if "set gs \<subseteq> F" for gs
      using that
    proof (induction gs)
      case (Cons g gs)
      have g: "total_fragments g = t" "fragment_id g < t" "0 < t" "t \<le> MAX_FRAGMENTS_PER_MESSAGE" "length (frag_data g) \<le> MAX_FRAGMENT_DATA"
        using Cons.prems message_payload [OF pay(2)] F by (auto simp: message_def)
      then have "process_fragment (serialize_fragment g) RetrievalManager_new = (Inl NoMatchingRetrieval, RetrievalManager_new)"
        by (auto simp: process_fragment_def deserialize_serialize_fragment RetrievalManager_new_def)
      with Cons show ?case by simp
    qed simp
    from this [of fs] one(3) [OF f 3] Cons.prems(3) show ?thesis by simp
  qed
qed auto

section \<open>Through the mixnet\<close>

text \<open>A path that can carry a hybrid packet: proper nodes, randomness of the right sizes, and none of the
  nodes has seen the packet before.\<close>

definition path_route :: "'sc sphinx_env \<Rightarrow> (HopDraw \<times> 'sc MixNode) list \<Rightarrow> NodeId \<Rightarrow> HybridRoute" where
  "path_route env hops dest = \<lparr>hybrid_hops = map (\<lambda>(x, n). as_hop env \<lparr>classical = n, kem_secret = hd_kem_secret x\<rparr>) hops, hybrid_destination = dest\<rparr>"

definition path_ready :: "'sc sphinx_env \<Rightarrow> 'sc PacketRandom \<Rightarrow> (HopDraw \<times> 'sc MixNode) list \<Rightarrow> NodeId \<Rightarrow> bool" where
  "path_ready env rnd hops dest \<longleftrightarrow> hops_ok env hops \<and> kem_hops_ok env hops \<and> length dest = NODE_ID_SIZE \<and>
     length (pr_pad rnd) + SLOT_SIZE * length hops = ROUTING_INFO_SIZE \<and>
     length (pr_kem_pad rnd) + KEM_CIPHERTEXT_SIZE (sx_kx env) * length hops = KEM_BLOCK_SIZE env \<and>
     (\<forall>hy. hybrid_secrets env (pr_kem rnd) 0 (hybrid_hops (path_route env hops dest)) (point_mul env BASE_POINT (pr_scalar rnd)) (pr_scalar rnd) = Inr hy \<longrightarrow>
        fresh_tags env hops (map fst hy))"

definition sphinx_laws :: "'sc sphinx_env \<Rightarrow> bool" where
  "sphinx_laws env \<longleftrightarrow> curve_correct env \<and> hashes_sized env \<and> aead_correct (sx_aead env) \<and> key_exchange_correct (sx_kx env)"

lemma path_delivers:
  assumes "sphinx_laws env" "path_ready env rnd hops dest" "length body \<le> BODY_SIZE"
  shows "\<exists>p ns. create_packet_hybrid env rnd (path_route env hops dest) body = Inr p \<and>
    relay (hybrid_step env) hops p = Some (map (mn_node_id \<circ> snd) (tl hops) @ [dest], pad_body body, ns)"
proof -
  have l: "curve_correct env" "hashes_sized env" "aead_correct (sx_aead env)" "key_exchange_correct (sx_kx env)"
    using assms(1) by (simp_all add: sphinx_laws_def)
  have r: "hops_ok env hops" "kem_hops_ok env hops" "length dest = NODE_ID_SIZE"
    "length (pr_pad rnd) + SLOT_SIZE * length hops = ROUTING_INFO_SIZE"
    "length (pr_kem_pad rnd) + KEM_CIPHERTEXT_SIZE (sx_kx env) * length hops = KEM_BLOCK_SIZE env"
    and f: "\<And>hy. hybrid_secrets env (pr_kem rnd) 0 (hybrid_hops (path_route env hops dest)) (point_mul env BASE_POINT (pr_scalar rnd)) (pr_scalar rnd) = Inr hy \<Longrightarrow>
        fresh_tags env hops (map fst hy)"
    using assms(2) by (simp_all add: path_ready_def)
  from hybrid_packet_delivers [OF l r(1-3) assms(3) r(4,5) path_route_def f] show ?thesis by blast
qed

lemma pad_body_id: "length body = BODY_SIZE \<Longrightarrow> pad_body body = body"
  by (simp add: pad_body_def)

text \<open>A batch of bodies over one route, each packet with its own randomness and its own state of the path.\<close>

lemma packets_deliver:
  assumes "sphinx_laws env"
    and "\<And>i. i < k + length bodies \<Longrightarrow> path_ready env (rnd i) (hops i) dest \<and> path_route env (hops i) dest = route"
    and "\<And>b. b \<in> set bodies \<Longrightarrow> length b = BODY_SIZE"
  shows "\<exists>packets. packets_for env rnd route k bodies = Inr packets \<and> length packets = length bodies \<and>
    (\<forall>i<length bodies. \<exists>ns. relay (hybrid_step env) (hops (k + i)) (packets ! i) =
       Some (map (mn_node_id \<circ> snd) (tl (hops (k + i))) @ [dest], bodies ! i, ns))"
  using assms(2,3)
proof (induction bodies arbitrary: k)
  case (Cons b bodies)
  have pr: "path_ready env (rnd k) (hops k) dest" "path_route env (hops k) dest = route" using Cons.prems(1) [of k] by simp_all
  have lb: "length b \<le> BODY_SIZE" "pad_body b = b" using Cons.prems(2) [of b] by (simp_all add: pad_body_id)
  from path_delivers [OF assms(1) pr(1) lb(1)]
  obtain p ns where p: "create_packet_hybrid env (rnd k) route b = Inr p"
    "relay (hybrid_step env) (hops k) p = Some (map (mn_node_id \<circ> snd) (tl (hops k)) @ [dest], b, ns)"
    unfolding pr(2) lb(2) by blast
  have "\<exists>packets. packets_for env rnd route (k + 1) bodies = Inr packets \<and> length packets = length bodies \<and>
    (\<forall>i<length bodies. \<exists>ns. relay (hybrid_step env) (hops (k + 1 + i)) (packets ! i) =
       Some (map (mn_node_id \<circ> snd) (tl (hops (k + 1 + i))) @ [dest], bodies ! i, ns))"
    by (rule Cons.IH) (use Cons.prems in auto)
  then obtain packets where ps: "packets_for env rnd route (k + 1) bodies = Inr packets" "length packets = length bodies"
    "\<forall>i<length bodies. \<exists>ns. relay (hybrid_step env) (hops (k + 1 + i)) (packets ! i) =
       Some (map (mn_node_id \<circ> snd) (tl (hops (k + 1 + i))) @ [dest], bodies ! i, ns)" by blast
  have "\<exists>ns. relay (hybrid_step env) (hops (k + i)) ((p # packets) ! i) =
      Some (map (mn_node_id \<circ> snd) (tl (hops (k + i))) @ [dest], (b # bodies) ! i, ns)" if "i < Suc (length bodies)" for i
    using that p(2) ps(3) by (cases i) auto
  with p(1) ps(1,2) show ?case by (simp add: comp_def)
qed simp

text \<open>The KEM lookup turns a return route into the hybrid route of the same nodes.\<close>

lemma lookup_hops_path:
  "\<forall>(x, n)\<in>set hops. kem_lookup (mn_node_id n) = Some (kem_public (sx_kx env) (hd_kem_secret x)) \<Longrightarrow>
   lookup_hops kem_lookup (map (\<lambda>(x, n). \<lparr>rh_public_key = mn_public_key n, rh_node_id = mn_node_id n\<rparr>) hops) =
     Inr (map (\<lambda>(x, n). as_hop env \<lparr>classical = n, kem_secret = hd_kem_secret x\<rparr>) hops)"
  by (induction hops) (auto simp: as_hop_def)

definition return_path :: "(HopDraw \<times> 'sc MixNode) list \<Rightarrow> Route" where
  "return_path hops = \<lparr>route_hops = map (\<lambda>(x, n). \<lparr>rh_public_key = mn_public_key n, rh_node_id = mn_node_id n\<rparr>) hops,
     route_destination = mn_node_id (snd (last hops))\<rparr>"

lemma effective_route_path:
  assumes "\<forall>(x, n)\<in>set hops. kem_lookup (mn_node_id n) = Some (kem_public (sx_kx env) (hd_kem_secret x))" "hops \<noteq> []"
  shows "effective_route kem_lookup (return_path hops) = Inr (path_route env hops (mn_node_id (snd (last hops))))"
  using assms lookup_hops_path [OF assms(1)]
  by (auto simp: effective_route_def return_path_def path_route_def last_map split_beta as_hop_def)

lemma arrivals_fragments:
  assumes "length payload \<le> 2048 * 1012" and a: "set arrivals = set (map serialize_fragment (fragment_payload payload))"
  shows "\<exists>gs. arrivals = map serialize_fragment gs \<and> set gs = set (fragment_payload payload)"
proof -
  define un where "un = projr \<circ> deserialize_fragment"
  have inv: "un (serialize_fragment f) = f" if "f \<in> set (fragment_payload payload)" for f
    using that message_payload [OF assms(1)] by (auto simp: un_def message_def deserialize_serialize_fragment)
  have "serialize_fragment (un b) = b" if "b \<in> set arrivals" for b using that inv by (auto simp: a)
  then have "arrivals = map serialize_fragment (map un arrivals)" by (simp add: map_idI)
  moreover have "set (map un arrivals) = set (fragment_payload payload)" using inv by (force simp: a)
  ultimately show ?thesis by blast
qed

text \<open>What a table with this one retrieval makes of the fragments of its answer.\<close>

lemma answer_completes:
  assumes "length chunk_id = 32" "\<forall>d. chunk_data = Some d \<longrightarrow> length d + 38 \<le> 2048 * MAX_FRAGMENT_DATA"
    and "frags = fragment_payload (serialize_chunk_response (answer chunk_id chunk_data))"
  shows "\<And>f. f \<in> set frags \<Longrightarrow> length (frag_data f) \<le> MAX_FRAGMENT_DATA" and "frags \<noteq> []"
    and "set arrivals = set (map serialize_fragment frags) \<Longrightarrow>
      \<exists>rs. mgr_feed arrivals (mgr_start_retrieval now chunk_id RetrievalManager_new) = (rs, RetrievalManager_new) \<and>
        filter (\<lambda>r. r \<noteq> Inr None \<and> r \<noteq> Inl NoMatchingRetrieval) rs = [Inr (Some (answer chunk_id chunk_data))]"
proof -
  define resp where "resp = answer chunk_id chunk_data"
  have resp: "length (resp_chunk_id resp) = 32" "length (resp_chunk_data resp) + 38 \<le> 2048 * 1012" "resp_chunk_id resp = chunk_id"
    using assms by (auto simp: resp_def answer_def fragment_consts split: option.splits)
  define payload where "payload = serialize_chunk_response resp"
  have pay: "length payload \<le> 2048 * 1012" using resp by (simp add: payload_def serialize_chunk_response_def)
  have fr: "frags = fragment_payload payload" by (simp add: assms(3) payload_def resp_def)
  show "length (frag_data f) \<le> MAX_FRAGMENT_DATA" if "f \<in> set frags" for f
    using that message_payload [OF pay] by (auto simp: message_def fr)
  show ne: "frags \<noteq> []" using fragment_count_pos [of payload] by (simp add: fr fragment_payload_eq [OF pay])
  assume arr: "set arrivals = set (map serialize_fragment frags)"
  obtain gs where gs: "arrivals = map serialize_fragment gs" "set gs = set frags"
    using arrivals_fragments [OF pay arr [unfolded fr]] unfolding fr by blast
  have "collecting_one (resp_chunk_id resp) (word_of_nat (fragment_count payload)) {} (mgr_start_retrieval now chunk_id RetrievalManager_new)"
    unfolding resp(3) by (rule collecting_one_start)
  moreover have "{} \<subset> set frags" using ne by auto
  ultimately show "\<exists>rs. mgr_feed arrivals (mgr_start_retrieval now chunk_id RetrievalManager_new) = (rs, RetrievalManager_new) \<and>
      filter (\<lambda>r. r \<noteq> Inr None \<and> r \<noteq> Inl NoMatchingRetrieval) rs = [Inr (Some (answer chunk_id chunk_data))]"
    using feed_one [OF resp(1) _ payload_def pay fr [THEN arg_cong, of set] refl, of "{}" _ gs] resp(2) gs by (auto simp: resp_def [symmetric])
qed

text \<open>C3 (functional). Anonymous retrieval end to end. The requester builds a request with a return route
  that ends at itself; carried by a hybrid packet, it reaches the holder, who sees the request and
  nothing of the forward path. The holder answers with hybrid packets along the return route, one per
  fragment; each of them, relayed by nodes with any caches that have not seen it, ends at the requester
  with that fragment as its body. Whatever the order and repetition in which these bodies reach the
  requester's table, exactly one of them completes the retrieval, with the chunk the holder had (or the
  statement that it has none), and the table is empty again.\<close>

theorem anonymous_retrieval:
  assumes laws: "sphinx_laws env"
    and fwd: "path_ready env frnd fhops fdest"
    and ret: "\<And>i. path_ready env (rnd i) (hops i) (mn_node_id (snd (last (hops 0)))) \<and> path_route env (hops i) (mn_node_id (snd (last (hops 0)))) = path_route env (hops 0) (mn_node_id (snd (last (hops 0))))"
    and keys: "\<forall>(x, n)\<in>set (hops 0). length (mn_public_key n) = 32 \<and> kem_lookup (mn_node_id n) = Some (kem_public (sx_kx env) (hd_kem_secret x))"
    and chunk: "length chunk_id = 32" "\<forall>d. chunk_data = Some d \<longrightarrow> length d + 38 \<le> 2048 * MAX_FRAGMENT_DATA"
  shows "\<exists>p body ns packets bodies.
    create_anonymous_request_hybrid env frnd chunk_id (return_path (hops 0)) (path_route env fhops fdest) = Inr p \<and>
    relay (hybrid_step env) fhops p = Some (map (mn_node_id \<circ> snd) (tl fhops) @ [fdest], body, ns) \<and>
    handle_retrieval_request env rnd body chunk_data kem_lookup = Inr packets \<and> length bodies = length packets \<and>
    (\<forall>i<length packets. \<exists>ns. relay (hybrid_step env) (hops i) (packets ! i) =
       Some (map (mn_node_id \<circ> snd) (tl (hops i)) @ [mn_node_id (snd (last (hops 0)))], bodies ! i, ns)) \<and>
    (\<forall>arrivals. set arrivals = set bodies \<longrightarrow>
       (\<exists>rs. mgr_feed arrivals (mgr_start_retrieval now chunk_id RetrievalManager_new) = (rs, RetrievalManager_new) \<and>
          filter (\<lambda>r. r \<noteq> Inr None \<and> r \<noteq> Inl NoMatchingRetrieval) rs = [Inr (Some (answer chunk_id chunk_data))]))"
proof -
  let ?self = "mn_node_id (snd (last (hops 0)))"
  define req where "req = \<lparr>cr_chunk_id = chunk_id, cr_return_route = from_sphinx_route (return_path (hops 0)), cr_surb = None\<rparr>"
  have ok: "hops_ok env (hops 0)" "length ?self = NODE_ID_SIZE" using ret [of 0] by (simp_all add: path_ready_def)
  have h: "hops 0 \<noteq> []" "length (hops 0) \<le> 5" using ok(1) by (simp_all add: hops_ok_def sphinx_sizes)
  have rok: "route_ok (from_sphinx_route (return_path (hops 0)))"
    using ok h(2) keys by (auto simp: route_ok_def hop_ok_def from_sphinx_route_def return_path_def hops_ok_def sphinx_sizes)
  have req: "chunk_request_ok req" using rok chunk(1) by (simp add: chunk_request_ok_def req_def)
  have len: "length (serialize_chunk_request req) \<le> BODY_SIZE"
    using rok h(2) chunk(1) length_hops [of "rr_hops (from_sphinx_route (return_path (hops 0)))"]
    by (auto simp: serialize_chunk_request_def req_def append_return_route_def route_ok_def from_sphinx_route_def return_path_def BODY_SIZE_def)
  obtain p ns where p: "create_packet_hybrid env frnd (path_route env fhops fdest) (serialize_chunk_request req) = Inr p"
    "relay (hybrid_step env) fhops p = Some (map (mn_node_id \<circ> snd) (tl fhops) @ [fdest], pad_body (serialize_chunk_request req), ns)"
    using path_delivers [OF laws fwd len] by blast
  have c1: "create_anonymous_request_hybrid env frnd chunk_id (return_path (hops 0)) (path_route env fhops fdest) = Inr p"
    using p(1) len by (simp add: create_anonymous_request_hybrid_def req_def)
  define fs where "fs = fragment_payload (serialize_chunk_response (answer chunk_id chunk_data))"
  note fs = answer_completes [OF chunk fs_def]
  have fl: "length (serialize_fragment f) = BODY_SIZE" if "f \<in> set fs" for f
    using fs(1) [OF that] by (rule length_serialize_fragment)
  have req_in: "deserialize_chunk_request (pad_body (serialize_chunk_request req)) = Inr req"
    using chunk_request_roundtrip [OF req] by (simp add: pad_body_def)
  have eff: "effective_route kem_lookup (return_path (hops 0)) = Inr (path_route env (hops 0) ?self)"
    using effective_route_path [of "hops 0" kem_lookup env] keys h(1) by fast
  obtain packets where ps: "packets_for env rnd (path_route env (hops 0) ?self) 0 (map serialize_fragment fs) = Inr packets"
    "length packets = length fs"
    "\<forall>i<length fs. \<exists>ns. relay (hybrid_step env) (hops i) (packets ! i) =
       Some (map (mn_node_id \<circ> snd) (tl (hops i)) @ [?self], map serialize_fragment fs ! i, ns)"
    using packets_deliver [OF laws, of 0 "map serialize_fragment fs" rnd hops ?self "path_route env (hops 0) ?self"] ret fl by auto
  have c2: "handle_retrieval_request env rnd (pad_body (serialize_chunk_request req)) chunk_data kem_lookup = Inr packets"
    using ps(1) eff by (simp add: handle_retrieval_request_def req_in Let_def) (simp add: req_def fs_def)
  show ?thesis
    by (rule exI [of _ p], rule exI [of _ "pad_body (serialize_chunk_request req)"], rule exI [of _ ns], rule exI [of _ packets],
        rule exI [of _ "map serialize_fragment fs"])
       (use c1 c2 fs(3) p(2) ps(2,3) in \<open>simp\<close>)
qed

definition demo_kem_lookup :: "NodeId \<Rightarrow> bytes option" where
  "demo_kem_lookup i = Some (kem_public (sx_kx demo_sphinx) [hd i])"

lemma demo_laws: "sphinx_laws demo_sphinx"
  using demo_sphinx_correct by (simp add: sphinx_laws_def)

lemma demo_path_ready: "path_ready demo_sphinx (demo_random 2) [demo_hop 5, demo_hop 7] (replicate 16 k)"
proof -
  have pad: "length (pr_pad (demo_random 2)) + SLOT_SIZE * length [demo_hop 5, demo_hop 7] = ROUTING_INFO_SIZE"
    "length (pr_kem_pad (demo_random 2)) + KEM_CIPHERTEXT_SIZE (sx_kx demo_sphinx) * length [demo_hop 5, demo_hop 7] = KEM_BLOCK_SIZE demo_sphinx"
    by (simp_all add: demo_random_def sphinx_sizes demo_sphinx_def demo_kx_def)
  have "fresh_tags demo_sphinx [demo_hop 5, demo_hop 7] (map fst hy)"
    if "hybrid_secrets demo_sphinx kr 0 (hybrid_hops (path_route demo_sphinx [demo_hop 5, demo_hop 7] d)) a s = Inr hy" for kr d a s hy
    using that by (intro demo_fresh) (auto simp: path_route_def Let_def split: sum.splits)
  with pad demo_hops_ok show ?thesis by (simp add: path_ready_def NODE_ID_SIZE_def)
qed

theorem anonymous_retrieval_witness:
  "\<exists>p body ns packets. create_anonymous_request_hybrid demo_sphinx (demo_random 2) (replicate 32 1) (return_path [demo_hop 5, demo_hop 7])
      (path_route demo_sphinx [demo_hop 5, demo_hop 7] (replicate 16 9)) = Inr p \<and>
    relay (hybrid_step demo_sphinx) [demo_hop 5, demo_hop 7] p = Some ([replicate 16 7, replicate 16 9], body, ns) \<and>
    handle_retrieval_request demo_sphinx (\<lambda>_. demo_random 2) body (Some [42]) demo_kem_lookup = Inr packets"
proof -
  have ids: "mn_node_id (snd (demo_hop k)) = replicate 16 k" for k by (simp add: demo_hop_def from_private_key_def Let_def)
  have keys: "\<forall>(x, n)\<in>set [demo_hop 5, demo_hop 7]. length (mn_public_key n) = 32 \<and>
      demo_kem_lookup (mn_node_id n) = Some (kem_public (sx_kx demo_sphinx) (hd_kem_secret x))"
    by (simp add: demo_hop_def from_private_key_def demo_kem_lookup_def Let_def)
       (simp add: demo_sphinx_def BASE_POINT_def)
  have ret: "path_ready demo_sphinx (demo_random 2) [demo_hop 5, demo_hop 7] (mn_node_id (snd (last [demo_hop 5, demo_hop 7]))) \<and>
      path_route demo_sphinx [demo_hop 5, demo_hop 7] (mn_node_id (snd (last [demo_hop 5, demo_hop 7]))) =
      path_route demo_sphinx [demo_hop 5, demo_hop 7] (mn_node_id (snd (last [demo_hop 5, demo_hop 7])))"
    using demo_path_ready [of 7] by (simp add: ids)
  have data: "\<forall>d. Some [42 :: u8] = Some d \<longrightarrow> length d + 38 \<le> 2048 * MAX_FRAGMENT_DATA" by (simp add: fragment_consts)
  from anonymous_retrieval [OF demo_laws demo_path_ready [of 9], where hops = "\<lambda>_. [demo_hop 5, demo_hop 7]" and rnd = "\<lambda>_. demo_random 2"
      and kem_lookup = demo_kem_lookup and chunk_id = "replicate 32 1" and chunk_data = "Some [42]", OF ret keys _ data]
  show ?thesis by (simp add: ids) blast
qed

section \<open>Session replies\<close>

text \<open>A reply handed from hop to hop until one of them is the last of its session.\<close>

fun relay_reply ::
  "'sc sphinx_env \<Rightarrow> (u64 \<times> 'sc MixNode) list \<Rightarrow> SessionReply \<Rightarrow> (NodeId list \<times> SessionReply \<times> 'sc MixNode list) option" where
  "relay_reply env [] r = None"
| "relay_reply env ((now, n) # hops) r =
     (case process_session_reply env n r now of
        (Inl _, _) \<Rightarrow> None
      | (Inr res, n') \<Rightarrow>
          if srr_is_final res then Some ([srr_next_hop res], srr_reply res, [n'])
          else (case relay_reply env hops (srr_reply res) of
                  None \<Rightarrow> None
                | Some (ids, r', ns) \<Rightarrow> Some (srr_next_hop res # ids, r', n' # ns)))"

text \<open>The hops still hold the session of a reply block, it is not expired and the nonce is new.\<close>

definition session_live :: "bytes \<Rightarrow> bytes \<Rightarrow> u64 \<times> 'sc MixNode \<Rightarrow> bytes \<Rightarrow> NodeId \<Rightarrow> bool \<Rightarrow> bool" where
  "session_live sid nonce = (\<lambda>(now, n) key next final. \<exists>s. hm_get (session_cache n) sid = Some s \<and> cs_body_key s = key \<and>
     cs_next_hop s = next \<and> cs_is_final s = final \<and> saturating_sub now (cs_created_at s) < SESSION_TTL_SECS \<and> nonce \<notin> cs_seen_nonces s)"

definition route_live :: "bytes \<Rightarrow> bytes \<Rightarrow> bytes list \<Rightarrow> NodeId list \<Rightarrow> (u64 \<times> 'sc MixNode) list \<Rightarrow> bool" where
  "route_live sid nonce keys nexts hops \<longleftrightarrow> hops \<noteq> [] \<and> length keys = length hops \<and> length nexts = length hops \<and>
     (\<forall>i<length hops. session_live sid nonce (hops ! i) (keys ! i) (nexts ! i) (Suc i = length hops))"

lemma reply_relayed:
  assumes h: "hashes_sized env" and l: "length inner = WIRE_BODY_SIZE"
  shows "route_live sid nonce keys nexts hops \<Longrightarrow>
    \<exists>ns. relay_reply env hops \<lparr>sr_session_id = sid, sr_nonce = nonce, sr_body = onion_encrypt env keys inner\<rparr> =
      Some (nexts, \<lparr>sr_session_id = sid, sr_nonce = nonce, sr_body = inner\<rparr>, ns)"
proof (induction hops arbitrary: keys nexts)
  case (Cons hop hops)
  obtain now n where hop: "hop = (now, n)" by (cases hop)
  obtain key keys' where keys: "keys = key # keys'" using Cons.prems by (cases keys) (auto simp: route_live_def)
  obtain nx nexts' where nexts: "nexts = nx # nexts'" using Cons.prems by (cases nexts) (auto simp: route_live_def)
  have len: "length (onion_encrypt env ks inner) = WIRE_BODY_SIZE" for ks
    using h l by (induction ks) (simp_all add: onion_encrypt_def)
  obtain s where s: "hm_get (session_cache n) sid = Some s" "cs_body_key s = key" "cs_next_hop s = nx" "cs_is_final s = (hops = [])"
    "saturating_sub now (cs_created_at s) < SESSION_TTL_SECS" "nonce \<notin> cs_seen_nonces s"
    using Cons.prems by (auto simp: route_live_def session_live_def hop keys nexts dest!: spec [of _ 0])
  have peel: "xor_body env key (onion_encrypt env keys inner) = onion_encrypt env keys' inner"
    using h by (simp add: keys onion_encrypt_def)
  have step: "\<exists>n'. process_session_reply env n \<lparr>sr_session_id = sid, sr_nonce = nonce, sr_body = onion_encrypt env keys inner\<rparr> now =
      (Inr \<lparr>srr_next_hop = nx, srr_reply = \<lparr>sr_session_id = sid, sr_nonce = nonce, sr_body = onion_encrypt env keys' inner\<rparr>, srr_is_final = (hops = [])\<rparr>, n')"
    using s len peel by (simp add: process_session_reply_def not_le)
  show ?case
  proof (cases "hops = []")
    case True
    then have "keys' = []" "nexts' = []" using Cons.prems by (simp_all add: route_live_def keys nexts)
    with True step show ?thesis by (auto simp: hop nexts onion_encrypt_def)
  next
    case False
    have "route_live sid nonce keys' nexts' hops"
      using Cons.prems False by (auto simp: route_live_def keys nexts dest: spec [of _ "Suc _"])
    from Cons.IH [OF this] step False show ?thesis by (auto simp: hop nexts)
  qed
qed (simp add: route_live_def)

text \<open>What the requester decrypts from a relayed session reply is the fragment it was built from.\<close>

lemma session_reply_decrypts:
  assumes h: "hashes_sized env" and a: "aead_correct (sx_aead env)" and j: "j < length frags" "length (frag_data (frags ! j)) \<le> MAX_FRAGMENT_DATA"
    and r: "r = build_session_replies env nonces surb frags ! j"
    and live: "route_live (session_id surb) (nonces j) (body_keys surb) nexts hops"
  shows "\<exists>r' ns. relay_reply env hops r = Some (nexts, r', ns) \<and>
    decrypt_session_reply_body env r' (body_aead_key surb) (aad_destination surb) = Inr (serialize_fragment (frags ! j))"
proof -
  define inner where "inner = encrypt_aad (sx_aead env) (body_aead_key surb) (take 12 (nonces j)) (serialize_fragment (frags ! j)) (aad_destination surb)"
  have "length inner = WIRE_BODY_SIZE"
    using a length_serialize_fragment [OF j(2)] by (simp add: inner_def encrypt_aad_def aead_correct_def WIRE_BODY_SIZE_def BODY_TAG_SIZE_def)
  moreover have "r = \<lparr>sr_session_id = session_id surb, sr_nonce = nonces j, sr_body = onion_encrypt env (body_keys surb) inner\<rparr>"
    using j(1) by (simp add: r build_session_replies_def nth_enumerate_eq inner_def Let_def)
  ultimately obtain ns where "relay_reply env hops r = Some (nexts, \<lparr>sr_session_id = session_id surb, sr_nonce = nonces j, sr_body = inner\<rparr>, ns)"
    using reply_relayed [OF h _ live, of inner] by blast
  moreover have "decrypt_session_reply_body env \<lparr>sr_session_id = session_id surb, sr_nonce = nonces j, sr_body = inner\<rparr>
      (body_aead_key surb) (aad_destination surb) = Inr (serialize_fragment (frags ! j))"
    using a by (simp add: decrypt_session_reply_body_def inner_def decrypt_aad_def encrypt_aad_def aead_correct_def)
  ultimately show ?thesis by blast
qed

lemma surb_request_roundtrip:
  assumes "surb_ok env surb" "length chunk_id = 32" "KEM_BLOCK_SIZE env + 475 \<le> MAX_SERIALIZED_SURB_SIZE"
  shows "deserialize_chunk_request (serialize_chunk_request (surb_request chunk_id surb) @ replicate n 0) = Inr (surb_request chunk_id surb)"
proof -
  have k: "length (concat (body_keys surb)) = 32 * length (body_keys surb)"
    using assms(1) by (simp add: surb_ok_def Let_def length_concat sum_list_triv cong: map_cong)
  have "length (surb_serialize surb) \<le> MAX_SERIALIZED_SURB_SIZE"
    using assms(1,3) k by (auto simp: surb_ok_def surb_serialize_def sphinx_sizes Let_def)
  then show ?thesis
    using assms(1,2) by (intro chunk_request_roundtrip) (simp add: chunk_request_ok_def surb_request_def route_ok_def surb_ok_def Let_def sphinx_sizes)
qed

text \<open>Retrieval over a reply block. A holder that reads a request with the requester's
  reply block answers it whole: the first fragment travels as a Sphinx packet built from the block and
  ends, decrypted, at the requester; on its way every hop caches the session (unless the MACs of the
  placeholder and the body collide). Each further fragment is a session reply that any route of nodes
  holding that session unexpired, and not this nonce, peels and hands to the same destination, where it
  decrypts to its fragment. The requester's table completes from these bodies in any order with the
  holder's answer. The holder sees nothing of the route but its first hop.\<close>

theorem surb_retrieval:
  assumes laws: "sphinx_laws env" "outputs_sized env" "KEM_BLOCK_SIZE env + 475 \<le> MAX_SERIALIZED_SURB_SIZE"
    and path: "path_ready env rnd hops dest" "length (pr_session_id rnd) = SESSION_ID_SIZE"
    and chunk: "length chunk_id = 32" "\<forall>d. chunk_data = Some d \<longrightarrow> length d + 38 \<le> 2048 * MAX_FRAGMENT_DATA"
    and fr: "frags = fragment_payload (serialize_chunk_response (answer chunk_id chunk_data))"
    and nx: "nexts = map (mn_node_id \<circ> snd) (tl hops) @ [dest]"
  shows "\<exists>surb sec reply ns. create_surb_hybrid env rnd (path_route env hops dest) = Inr (surb, sec) \<and>
    handle_retrieval_request_with_surb env nonces (serialize_chunk_request (surb_request chunk_id surb) @ replicate n 0) chunk_data = Inr reply \<and>
    reply_first_hop reply = mn_node_id (snd (hd hops)) \<and> length (session_replies reply) = length frags - 1 \<and>
    relay (hybrid_step env) hops (first_packet reply) = Some (nexts, serialize_fragment (frags ! 0), ns) \<and>
    (\<forall>i<length hops. hm_get (session_cache (ns ! i)) (session_id surb) = Some (reply_session surb nexts hops i) \<or>
       mac_collision env (replicate WIRE_BODY_SIZE 0)
         (onion_encrypt env (drop i (body_keys surb)) (aead_encrypt_body env (body_aead_key surb) (serialize_fragment (frags ! 0)) dest))) \<and>
    (\<forall>j<length frags - 1. \<forall>rhops. route_live (session_id surb) (nonces j) (body_keys surb) nexts rhops \<longrightarrow>
       (\<exists>r' ns. relay_reply env rhops (session_replies reply ! j) = Some (nexts, r', ns) \<and>
          decrypt_session_reply_body env r' (body_aead_key surb) dest = Inr (serialize_fragment (frags ! Suc j)))) \<and>
    (\<forall>arrivals. set arrivals = set (map serialize_fragment frags) \<longrightarrow>
       (\<exists>rs. mgr_feed arrivals (mgr_start_retrieval now chunk_id RetrievalManager_new) = (rs, RetrievalManager_new) \<and>
          filter (\<lambda>r. r \<noteq> Inr None \<and> r \<noteq> Inl NoMatchingRetrieval) rs = [Inr (Some (answer chunk_id chunk_data))]))"
proof -
  have l: "curve_correct env" "hashes_sized env" "aead_correct (sx_aead env)" "key_exchange_correct (sx_kx env)"
    using laws(1) by (simp_all add: sphinx_laws_def)
  have r: "hops_ok env hops" "kem_hops_ok env hops" "length dest = NODE_ID_SIZE"
    "length (pr_pad rnd) + SLOT_SIZE * length hops = ROUTING_INFO_SIZE"
    "length (pr_kem_pad rnd) + KEM_CIPHERTEXT_SIZE (sx_kx env) * length hops = KEM_BLOCK_SIZE env"
    and f: "\<And>hy. hybrid_secrets env (pr_kem rnd) 0 (hybrid_hops (path_route env hops dest)) (point_mul env BASE_POINT (pr_scalar rnd)) (pr_scalar rnd) = Inr hy \<Longrightarrow>
        fresh_tags env hops (map fst hy)"
    using path(1) by (simp_all add: path_ready_def)
  note ans = answer_completes [OF chunk fr]
  let ?b = "serialize_fragment (frags ! 0)"
  have b: "length ?b = BODY_SIZE" using ans(1) [of "frags ! 0"] ans(2) by (intro length_serialize_fragment) simp
  then have bl: "length ?b \<le> BODY_SIZE" "pad_body ?b = ?b" by (simp_all add: pad_body_id)
  from surb_delivers [OF l r(1-3) bl(1) r(4,5) path_route_def f nx, unfolded bl(2)]
  obtain surb p ns where s: "create_surb_hybrid env rnd (path_route env hops dest) = Inr (surb, \<lparr>secret_fragment_id = 0, hop_count = length hops\<rparr>)"
    "first_hop surb = mn_node_id (snd (hd hops))" "wrap_with_surb_hybrid env surb ?b = Inr p"
    "relay (hybrid_step env) hops p = Some (nexts, ?b, ns)"
    "\<forall>i<length hops. hm_get (session_cache (ns ! i)) (session_id surb) = Some (reply_session surb nexts hops i) \<or>
       mac_collision env (replicate WIRE_BODY_SIZE 0) (onion_encrypt env (drop i (body_keys surb)) (aead_encrypt_body env (body_aead_key surb) ?b dest))"
    by blast
  have ok: "surb_ok env surb"
    using r by (intro created_surb_hybrid_ok [OF laws(2) path(2) s(1)]) (auto simp: path_route_def as_hop_def hops_ok_def)
  have small: "KEM_BLOCK_SIZE env < 2 ^ 32" using laws(3) by (simp add: MAX_SERIALIZED_SURB_SIZE_def)
  have dest: "aad_destination surb = dest" using s(1) by (auto simp: create_surb_hybrid_def path_route_def Let_def split: if_splits sum.splits)
  define reply where "reply = \<lparr>first_packet = p, session_replies = build_session_replies env nonces surb (drop 1 frags), reply_first_hop = first_hop surb\<rparr>"
  have h: "handle_retrieval_request_with_surb env nonces (serialize_chunk_request (surb_request chunk_id surb) @ replicate n 0) chunk_data = Inr reply"
    using surb_request_roundtrip [OF ok chunk(1) laws(3), of n] surb_roundtrip [OF ok small, of "[]"] s(3)
    by (simp add: handle_retrieval_request_with_surb_def surb_request_def reply_def fr Let_def)
  have "\<exists>r' ns. relay_reply env rhops (session_replies reply ! j) = Some (nexts, r', ns) \<and>
      decrypt_session_reply_body env r' (body_aead_key surb) dest = Inr (serialize_fragment (frags ! Suc j))"
    if "j < length frags - 1" "route_live (session_id surb) (nonces j) (body_keys surb) nexts rhops" for j rhops
    using session_reply_decrypts [OF l(2,3), where j = j and nonces = nonces and surb = surb and hops = rhops and nexts = nexts
        and frags = "drop 1 frags" and r = "session_replies reply ! j"] that ans(1)
    by (simp add: reply_def dest)
  moreover have "length (session_replies reply) = length frags - 1" by (simp add: reply_def build_session_replies_def)
  moreover have "reply_first_hop reply = mn_node_id (snd (hd hops))" "first_packet reply = p" using s(2) by (simp_all add: reply_def)
  ultimately show ?thesis using s h ans(3)
    by (intro exI [of _ surb] exI [of _ "\<lparr>secret_fragment_id = 0, hop_count = length hops\<rparr>"] exI [of _ reply] exI [of _ ns]) simp
qed

theorem surb_retrieval_witness:
  "\<exists>surb sec reply ns. create_surb_hybrid demo_sphinx (demo_random 2) (path_route demo_sphinx [demo_hop 5, demo_hop 7] (replicate 16 9)) = Inr (surb, sec) \<and>
    handle_retrieval_request_with_surb demo_sphinx (\<lambda>_. replicate 32 1) (serialize_chunk_request (surb_request (replicate 32 1) surb) @ replicate 3 0) None = Inr reply \<and>
    relay (hybrid_step demo_sphinx) [demo_hop 5, demo_hop 7] (first_packet reply) =
      Some ([replicate 16 7, replicate 16 9], serialize_fragment (fragment_payload (serialize_chunk_response (answer (replicate 32 1) None)) ! 0), ns)"
proof -
  have ids: "mn_node_id (snd (demo_hop k)) = replicate 16 k" for k by (simp add: demo_hop_def from_private_key_def Let_def)
  have k: "KEM_BLOCK_SIZE demo_sphinx + 475 \<le> MAX_SERIALIZED_SURB_SIZE" "length (pr_session_id (demo_random 2)) = SESSION_ID_SIZE"
    "length (replicate 32 1 :: bytes) = 32" "\<forall>d. (None :: bytes option) = Some d \<longrightarrow> length d + 38 \<le> 2048 * MAX_FRAGMENT_DATA"
    by (simp_all add: demo_sphinx_def demo_kx_def demo_random_def sphinx_sizes MAX_SERIALIZED_SURB_SIZE_def)
  from surb_retrieval [OF demo_laws demo_outputs_sized k(1) demo_path_ready [of 9] k(2,3,4) refl refl, of "\<lambda>_. replicate 32 1" 3]
  show ?thesis by (simp add: ids) blast
qed

text \<open>The requester's memory stays bounded whatever is started, received or expired: at most
  \<open>MAX_PENDING_RETRIEVALS\<close> retrievals, each with a bounded reassembler, the eviction queue naming every
  retrieval once. Starting one more in a full table evicts exactly the retrieval that was started or
  refreshed longest ago.\<close>

theorem pending_retrievals_bounded:
  assumes "mgr_reachable m"
  shows "mgr_pending_count m \<le> MAX_PENDING_RETRIEVALS \<and> distinct (mgr_order m) \<and> (\<forall>i. is_pending m i \<longleftrightarrow> i \<in> set (mgr_order m)) \<and>
    (\<forall>(i, p)\<in>set (mgr_pending m). received_count (reassembler p) \<le> 2048 \<and>
       sum_list (map (length \<circ> snd) (fragments (reassembler p))) \<le> 2048 * 1012) \<and>
    is_pending (mgr_start_retrieval now i m) i \<and>
    (mgr_pending_count m = MAX_PENDING_RETRIEVALS \<and> \<not> is_pending m i \<longrightarrow>
       (\<forall>j. is_pending (mgr_start_retrieval now i m) j \<longleftrightarrow> j = i \<or> is_pending m j \<and> j \<noteq> hd (mgr_order m)))"
proof -
  have inv: "mgr_inv m" by (rule mgr_reachable_inv [OF assms])
  then have 1: "mgr_pending_count m \<le> MAX_PENDING_RETRIEVALS" "distinct (mgr_order m)" "\<forall>i. is_pending m i \<longleftrightarrow> i \<in> set (mgr_order m)"
    "\<forall>(i, p)\<in>set (mgr_pending m). received_count (reassembler p) \<le> 2048 \<and> sum_list (map (length \<circ> snd) (fragments (reassembler p))) \<le> 2048 * 1012"
    using reassembler_bounds by (auto simp: mgr_inv_def mgr_pending_count_def is_pending_def hm_contains_keys)
  have 2: "is_pending (mgr_start_retrieval now i m) i"
    by (simp add: is_pending_def mgr_start_retrieval_def hm_contains_def Let_def)
  have "is_pending (mgr_start_retrieval now i m) j \<longleftrightarrow> j = i \<or> is_pending m j \<and> j \<noteq> hd (mgr_order m)"
    if full: "mgr_pending_count m = MAX_PENDING_RETRIEVALS" "\<not> is_pending m i" for j
  proof -
    obtain oldest rest where "mgr_order m = oldest # rest" "mgr_start_retrieval now i m =
        m\<lparr>mgr_pending := hm_insert i \<lparr>pend_chunk_id = i, reassembler = Reassembler_new now, pend_created_at = now\<rparr> (hm_remove oldest (mgr_pending m)),
          mgr_order := rest @ [i]\<rparr>"
      using mgr_start_full [OF inv] full by (metis is_pending_def mgr_pending_count_def)
    then show ?thesis by (auto simp: is_pending_def hm_contains_def)
  qed
  with 1 2 show ?thesis by blast
qed

theorem pending_retrievals_bounded_witness:
  "mgr_pending_count (mgr_exec (Start 5 [1]) RetrievalManager_new) \<le> MAX_PENDING_RETRIEVALS"
  using pending_retrievals_bounded [OF mgr_reachable.mgr_event [OF mgr_initial, of "Start 5 [1]"]] by blast

section \<open>Requests too large for one body\<close>

abbreviation request_slice :: "bytes \<Rightarrow> nat \<Rightarrow> bytes" where
  "request_slice req i \<equiv> take 979 (drop (i * 979) req)"

definition request_count :: "bytes \<Rightarrow> nat" where
  "request_count req = max ((length req + 978) div 979) 1"

lemma request_bodies_eq:
  "build_surb_request_bodies req sid = map (\<lambda>i. [MSG_SURB_CHUNK_REQUEST] @ sid @ len_be32 i @ len_be32 (request_count req) @
     len_be32 (length (request_slice req i)) @ request_slice req i) [0..<request_count req]"
proof -
  have "take (min (i * 979 + 979) (length req) - i * 979) (drop (i * 979) req) = request_slice req i" for i
    by (auto simp: min_def)
  moreover have "min (i * 979 + 979) (length req) - i * 979 = min (length req - i * 979) 979" for i
    by (simp add: min_def) linarith
  ultimately show ?thesis
    by (simp add: build_surb_request_bodies_def request_count_def SURB_REQUEST_CHUNK_SIZE_def BODY_SIZE_def add.commute [of 978] Let_def)
qed

lemma concat_request_slices: "concat (map (request_slice req) [0..<request_count req]) = req"
proof (cases "req = []")
  case False
  then have "1 \<le> (length req + 978) div 979" by (cases req) simp_all
  then have "request_count req = length (chunks_of 979 req)" by (simp add: request_count_def length_chunks_of)
  then have "map (request_slice req) [0..<request_count req] = chunks_of 979 req"
    by (intro nth_equalityI) (simp_all add: nth_chunks_of)
  then show ?thesis by simp
qed (simp add: request_count_def)

lemma request_body_read:
  assumes "length sid = 32" "i < 2 ^ 32" "n < 2 ^ 32" "length d \<le> 979"
  shows "length ([MSG_SURB_CHUNK_REQUEST] @ sid @ len_be32 i @ len_be32 n @ len_be32 (length d) @ d) \<le> BODY_SIZE"
    and "deserialize_fragment (drop 33 (pad_body ([MSG_SURB_CHUNK_REQUEST] @ sid @ len_be32 i @ len_be32 n @ len_be32 (length d) @ d))) =
      Inr \<lparr>fragment_id = word_of_nat i, total_fragments = word_of_nat n, frag_data = d\<rparr>"
  using assms by (simp_all add: BODY_SIZE_def pad_body_def deserialize_fragment_def FRAGMENT_HEADER_SIZE_def len_be32_def Let_def)
    (simp add: be32_len_def unat_of_nat)

text \<open>A request with a reply block is too large for one Sphinx body and is cut into bodies
  that each fit, start with the request marker and the session id, and frame one fragment. Delivered in
  any order and with repetitions, padded as Sphinx pads them, they reassemble to exactly the request.\<close>

theorem surb_request_bodies_reassemble:
  assumes "length sid = 32" "length req \<le> 2048 * SURB_REQUEST_CHUNK_SIZE"
    and "set arrivals = set (build_surb_request_bodies req sid)"
  shows "\<exists>fs. map (\<lambda>b. deserialize_fragment (drop 33 (pad_body b))) arrivals = map Inr fs \<and>
    (\<forall>b\<in>set arrivals. length b \<le> BODY_SIZE \<and> take 33 b = MSG_SURB_CHUNK_REQUEST # sid) \<and>
    is_complete (feed (Reassembler_new now) fs) \<and> reassemble (feed (Reassembler_new now) fs) = Inr req"
proof -
  let ?n = "request_count req"
  have le: "length req \<le> 2048 * 979" using assms(2) by (simp add: SURB_REQUEST_CHUNK_SIZE_def BODY_SIZE_def)
  then have "(length req + 978) div 979 \<le> (2048 * 979 + 978) div 979" by (intro div_le_mono) simp
  then have n: "0 < ?n" "?n \<le> 2048" by (simp_all add: request_count_def)
  define body where "body = (\<lambda>i. [MSG_SURB_CHUNK_REQUEST] @ sid @ len_be32 i @ len_be32 ?n @ len_be32 (length (request_slice req i)) @ request_slice req i)"
  have set_arr: "set arrivals = body ` {0..<?n}" by (simp add: assms(3) request_bodies_eq body_def)
  have read: "length (body i) \<le> BODY_SIZE" "take 33 (body i) = MSG_SURB_CHUNK_REQUEST # sid"
    "deserialize_fragment (drop 33 (pad_body (body i))) = Inr (slices ?n (request_slice req) ! i)" if "i < ?n" for i
    using request_body_read [OF assms(1), of i ?n "request_slice req i"] that n assms(1) by (simp_all add: body_def slices_def)
  define un where "un = (\<lambda>b. projr (deserialize_fragment (drop 33 (pad_body b))))"
  have fs: "map (\<lambda>b. deserialize_fragment (drop 33 (pad_body b))) arrivals = map Inr (map un arrivals)"
    using read(3) by (auto simp: set_arr un_def)
  have "set (map un arrivals) = un ` body ` {0..<?n}" by (simp add: set_arr)
  also have "\<dots> = (\<lambda>i. slices ?n (request_slice req) ! i) ` {0..<?n}" using read(3) by (force simp: un_def image_image intro!: image_cong)
  also have "\<dots> = set (slices ?n (request_slice req))" by (auto simp: slices_def)
  finally have set_fs: "set (map un arrivals) = set (slices ?n (request_slice req))" .
  have msg: "message (word_of_nat ?n) (set (slices ?n (request_slice req)))"
    using n by (intro slices_message) (simp_all add: fragment_consts)
  have h: "holds (word_of_nat ?n) (set (slices ?n (request_slice req))) (feed (Reassembler_new now) (map un arrivals))"
    using holds_feed [OF msg _ _ holds_new, of "map un arrivals" now] set_fs by simp
  have "is_complete (feed (Reassembler_new now) (map un arrivals))"
    using holds_complete [OF msg slices_ids [OF n(2)] _ h] by simp
  moreover have "reassemble (feed (Reassembler_new now) (map un arrivals)) = Inr req"
    using slices_reassemble [OF n h] by (simp add: concat_request_slices)
  moreover have "\<forall>b\<in>set arrivals. length b \<le> BODY_SIZE \<and> take 33 b = MSG_SURB_CHUNK_REQUEST # sid"
    using read(1,2) by (auto simp: set_arr)
  ultimately show ?thesis using fs by blast
qed

theorem surb_request_bodies_reassemble_witness:
  "\<exists>fs. reassemble (feed (Reassembler_new 0) fs) = Inr (replicate 2000 7)"
  using surb_request_bodies_reassemble [of "replicate 32 1" "replicate 2000 7" _ 0, OF _ _ refl]
  by (auto simp: SURB_REQUEST_CHUNK_SIZE_def BODY_SIZE_def)

section \<open>Observations\<close>

text \<open>\<open>process_response_packet\<close> hands every packet to the classical processor, which refuses the hybrid
  packets that \<open>handle_retrieval_request\<close> answers with.\<close>

lemma response_packets_refused:
  "create_packet_hybrid env rnd route body = Inr p \<Longrightarrow>
     process_response_packet env now pad m node p = (Inl SphinxFailure, m, node)"
  by (auto simp: create_packet_hybrid_def build_header_def process_response_packet_def process_packet_def Let_def split: if_splits sum.splits)

text \<open>A destination that is not the last hop of the return route is appended with the classical key of the
  hop before it.\<close>

lemma appended_destination_key:
  assumes "lookup_hops kem_lookup (route_hops route) = Inr hops" "route_hops route \<noteq> []"
    "rh_node_id (last (route_hops route)) \<noteq> route_destination route" "hh_node_id (last hops) = rh_node_id (last (route_hops route))"
    "effective_route kem_lookup route = Inr r"
  shows "hh_classical_public_key (last (hybrid_hops r)) = rh_public_key (last (route_hops route))"
  using assms by (auto simp: effective_route_def Let_def split: if_splits option.splits)

text \<open>Fragments name no chunk: with two retrievals pending, answers of equal length that arrive interleaved
  end in the same reassembler.\<close>

definition third :: "u8 \<Rightarrow> nat \<Rightarrow> Fragment" where
  "third a i = \<lparr>fragment_id = word_of_nat i, total_fragments = 3, frag_data = [a]\<rparr>"

lemma interleaved_answers_mix:
  defines "m \<equiv> mgr_start_retrieval 0 [2] (mgr_start_retrieval 0 [1] RetrievalManager_new)"
  shows "\<exists>p. hm_get (mgr_pending (snd (mgr_feed (map serialize_fragment [third 7 0, third 8 1]) m))) [1] = Some p \<and>
    fragments (reassembler p) = [(0, [7]), (1, [8])]"
proof -
  have d: "deserialize_fragment (serialize_fragment (third a i)) = Inr (third a i)" for a i
    by (rule deserialize_serialize_fragment) (simp add: third_def fragment_consts)
  show ?thesis
    by (simp add: m_def process_fragment_def d)
       (simp add: third_def mgr_start_retrieval_def RetrievalManager_new_def hm_len_def hm_contains_def MAX_PENDING_RETRIEVALS_def
         Reassembler_new_def can_accept_fragment_def Reassembler_add_fragment_def MAX_FRAGMENTS_PER_MESSAGE_def fragment_consts hm_modify_def
         is_complete_def hm_insert_def word_le_nat_alt Let_def)
qed

end
