(* ===== verification/Wire.thy ===== *)
theory Wire
  imports Surb
begin

text \<open>
  \<^verbatim>\<open>crates/static-mesh/src/wire.rs\<close>: the frames on a connection. Handshake messages and their encrypted
  identities, Sphinx packets and session replies, the length-prefixed framing with its caps, and the
  signed maintenance messages that travel inside Sphinx bodies.
\<close>

section \<open>Constants\<close>

definition MSG_HANDSHAKE :: u8 where "MSG_HANDSHAKE = 0x01"
definition MSG_SPHINX :: u8 where "MSG_SPHINX = 0x02"
definition MSG_BODY_GOSSIP :: u8 where "MSG_BODY_GOSSIP = 0x12"
definition MSG_BODY_SWAP_PROPOSAL :: u8 where "MSG_BODY_SWAP_PROPOSAL = 0x13"
definition MSG_BODY_SWAP_ACCEPT :: u8 where "MSG_BODY_SWAP_ACCEPT = 0x14"
definition MSG_BODY_SWAP_REJECT :: u8 where "MSG_BODY_SWAP_REJECT = 0x15"
definition MSG_BODY_PREPAYMENT :: u8 where "MSG_BODY_PREPAYMENT = 0x16"
definition MSG_BODY_RECONCILIATION :: u8 where "MSG_BODY_RECONCILIATION = 0x17"
definition MSG_BODY_SWAP_COMMIT :: u8 where "MSG_BODY_SWAP_COMMIT = 0x18"
definition MSG_BODY_SWAP_ABORT :: u8 where "MSG_BODY_SWAP_ABORT = 0x19"
definition MSG_HELLO :: u8 where "MSG_HELLO = 0x0D"
definition MSG_WELCOME :: u8 where "MSG_WELCOME = 0x0E"
definition MSG_AUTH_IDENTITY :: u8 where "MSG_AUTH_IDENTITY = 0x0F"
definition HANDSHAKE_CONTEXT :: bytes where "HANDSHAKE_CONTEXT = ascii ''static-handshake-v1''"
definition HANDSHAKE_AUTH_CONTEXT :: bytes where "HANDSHAKE_AUTH_CONTEXT = ascii ''handshake/auth''"
definition MAX_RECONCILIATION_ENTRIES :: nat where "MAX_RECONCILIATION_ENTRIES = 50"
definition EPHEMERAL_KEY_SIZE :: nat where "EPHEMERAL_KEY_SIZE = 32"

definition MAX_MESSAGE_SIZE :: nat where
  "MAX_MESSAGE_SIZE = 1 + 4 + 1 + 4 + EPHEMERAL_KEY_SIZE + SESSION_ID_SIZE + ROUTING_INFO_SIZE + MAC_SIZE + WIRE_BODY_SIZE"

definition HYBRID_MAX_MESSAGE_SIZE :: "'sc sphinx_env \<Rightarrow> nat" where
  "HYBRID_MAX_MESSAGE_SIZE env =
     1 + 4 + 1 + 4 + SESSION_ID_SIZE + KEM_BLOCK_SIZE env + EPHEMERAL_KEY_SIZE + ROUTING_INFO_SIZE + MAC_SIZE + WIRE_BODY_SIZE"

definition PADDED_MESSAGE_SIZE :: "'sc sphinx_env \<Rightarrow> nat" where
  "PADDED_MESSAGE_SIZE env = HYBRID_MAX_MESSAGE_SIZE env"

datatype WireError =
    MessageTooLarge nat nat
  | InvalidMessageType u8
  | BufferTooShort nat nat
  | InvalidSphinxPacket

text \<open>\<open>(n as u16).to_be_bytes()\<close> and back.\<close>

definition len_be16 :: "nat \<Rightarrow> bytes" where
  "len_be16 n = nat_be 2 (unat (word_of_nat n :: 16 word))"

definition be16_len :: "bytes \<Rightarrow> nat" where
  "be16_len bs = unat (word_of_nat (be_nat bs) :: 16 word)"

section \<open>Handshake messages\<close>

record Handshake =
  hs_node_id :: NodeId
  hs_public_key :: bytes
  hs_kem_public_key :: "bytes option"
  compute_enabled :: bool
  compute_capacity :: u8
  hs_identity_public_key :: bytes
  hs_nonce :: bytes
  hs_signature :: bytes

definition handshake_signing_bytes :: "Handshake \<Rightarrow> bytes" where
  "handshake_signing_bytes h =
     (let kem = (case hs_kem_public_key h of Some k \<Rightarrow> k | None \<Rightarrow> [])
      in hs_node_id h @ hs_public_key h @ len_be16 (length kem) @ kem @ [if compute_enabled h then 1 else 0, compute_capacity h] @
         hs_identity_public_key h @ hs_nonce h)"

definition handshake_sign :: "'sk ed25519 \<Rightarrow> 'sk \<Rightarrow> Handshake \<Rightarrow> Handshake" where
  "handshake_sign ed sk h =
     (let h = h\<lparr>hs_identity_public_key := ed_public ed sk\<rparr> in h\<lparr>hs_signature := ed_sign ed sk (handshake_signing_bytes h)\<rparr>)"

definition handshake_verify :: "'sk ed25519 \<Rightarrow> key_exchange \<Rightarrow> Handshake \<Rightarrow> bool" where
  "handshake_verify ed kx h =
     (if length (hs_signature h) \<noteq> 64 then False
      else if \<not> ed_parse ed (hs_identity_public_key h) then False
      else if (\<exists>k. hs_kem_public_key h = Some k \<and> length k \<noteq> KEM_PUBLIC_KEY_SIZE kx) then False
      else ed_check ed (hs_identity_public_key h) (handshake_signing_bytes h) (hs_signature h))"

record Hello =
  hello_eph_pub_key :: bytes
  hello_eph_kem_pub_key :: bytes
  hello_nonce :: bytes

record Welcome =
  welcome_eph_pub_key :: bytes
  welcome_eph_kem_pub_key :: bytes
  welcome_nonce :: bytes
  welcome_kem_ciphertext :: bytes

record EncryptedIdentity =
  aead_nonce :: bytes
  id_ciphertext :: bytes

definition handshake_session_aad :: "bytes \<Rightarrow> bytes \<Rightarrow> bytes" where
  "handshake_session_aad nonce_c nonce_s = nonce_c @ nonce_s"

definition derive_handshake_secret :: "hkdf \<Rightarrow> bytes \<Rightarrow> bytes \<Rightarrow> bytes" where
  "derive_handshake_secret hk dh_shared kem_shared = derive_hybrid_shared_secret hk dh_shared kem_shared HANDSHAKE_CONTEXT"

definition serialize_handshake :: "Handshake \<Rightarrow> bytes" where
  "serialize_handshake h =
     (let kem = (case hs_kem_public_key h of Some k \<Rightarrow> k | None \<Rightarrow> []);
          n = min (length (hs_signature h)) 64
      in hs_node_id h @ hs_public_key h @ len_be16 (length kem) @ kem @ [if compute_enabled h then 1 else 0, compute_capacity h] @
         hs_identity_public_key h @ hs_nonce h @ take n (hs_signature h) @ replicate (64 - n) 0)"

definition deserialize_handshake :: "bytes \<Rightarrow> WireError + Handshake" where
  "deserialize_handshake data =
     (let least = 16 + 32 + 2 + 2 + 32 + 32 + 64 in
      if length data < least then Inl (BufferTooShort least (length data))
      else
        let kem_len = be16_len (take 2 (drop 48 data)); offset = 50 in
        if 4096 < kem_len \<or> length data < offset + kem_len + 2 + 32 + 32 + 64
        then Inl (BufferTooShort (offset + kem_len + 2 + 32 + 32 + 64) (length data))
        else
          let kem = (if kem_len = 0 then None else Some (take kem_len (drop offset data))); offset = offset + kem_len
          in Inr \<lparr>hs_node_id = take 16 data, hs_public_key = take 32 (drop 16 data), hs_kem_public_key = kem,
                  compute_enabled = (data ! offset = 1), compute_capacity = data ! (offset + 1),
                  hs_identity_public_key = take 32 (drop (offset + 2) data), hs_nonce = take 32 (drop (offset + 34) data),
                  hs_signature = take 64 (drop (offset + 66) data)\<rparr>)"

text \<open>The AEAD nonce is drawn at random.\<close>

definition encrypt_identity :: "hkdf \<Rightarrow> aead \<Rightarrow> bytes \<Rightarrow> bytes \<Rightarrow> Handshake \<Rightarrow> bytes \<Rightarrow> EncryptedIdentity" where
  "encrypt_identity hk c nonce_bytes handshake_secret handshake aad =
     \<lparr>aead_nonce = nonce_bytes,
      id_ciphertext = encrypt_aad c (derive hk handshake_secret HANDSHAKE_AUTH_CONTEXT) nonce_bytes (serialize_handshake handshake) aad\<rparr>"

definition decrypt_identity :: "hkdf \<Rightarrow> aead \<Rightarrow> bytes \<Rightarrow> EncryptedIdentity \<Rightarrow> bytes \<Rightarrow> Handshake option" where
  "decrypt_identity hk c handshake_secret enc aad =
     (case decrypt_aad c (derive hk handshake_secret HANDSHAKE_AUTH_CONTEXT) (aead_nonce enc) (id_ciphertext enc) aad of
        Inl _ \<Rightarrow> None
      | Inr plaintext \<Rightarrow> (case deserialize_handshake plaintext of Inl _ \<Rightarrow> None | Inr h \<Rightarrow> Some h))"

definition serialize_hello :: "Hello \<Rightarrow> bytes" where
  "serialize_hello h = hello_eph_pub_key h @ len_be16 (length (hello_eph_kem_pub_key h)) @ hello_eph_kem_pub_key h @ hello_nonce h"

definition deserialize_hello :: "key_exchange \<Rightarrow> bytes \<Rightarrow> WireError + Hello" where
  "deserialize_hello kx data =
     (let least = 32 + 2 + 32 in
      if length data < least then Inl (BufferTooShort least (length data))
      else
        let kem_len = be16_len (take 2 (drop 32 data)) in
        if kem_len \<noteq> KEM_PUBLIC_KEY_SIZE kx then Inl InvalidSphinxPacket
        else if length data < 32 + 2 + kem_len + 32 then Inl (BufferTooShort (32 + 2 + kem_len + 32) (length data))
        else Inr \<lparr>hello_eph_pub_key = take 32 data, hello_eph_kem_pub_key = take kem_len (drop 34 data),
                  hello_nonce = take 32 (drop (34 + kem_len) data)\<rparr>)"

definition serialize_welcome :: "Welcome \<Rightarrow> bytes" where
  "serialize_welcome w = welcome_eph_pub_key w @ len_be16 (length (welcome_eph_kem_pub_key w)) @ welcome_eph_kem_pub_key w @
     welcome_nonce w @ len_be16 (length (welcome_kem_ciphertext w)) @ welcome_kem_ciphertext w"

definition deserialize_welcome :: "key_exchange \<Rightarrow> bytes \<Rightarrow> WireError + Welcome" where
  "deserialize_welcome kx data =
     (if length data < 32 + 2 + 32 + 2 then Inl (BufferTooShort (32 + 2 + 32 + 2) (length data))
      else
        let kem_len = be16_len (take 2 (drop 32 data)) in
        if kem_len \<noteq> KEM_PUBLIC_KEY_SIZE kx then Inl InvalidSphinxPacket
        else if length data < 32 + 2 + kem_len + 32 + 2 then Inl (BufferTooShort (32 + 2 + kem_len + 32 + 2) (length data))
        else
          let ct_off = 34 + kem_len + 32; ct_len = be16_len (take 2 (drop ct_off data)) in
          if ct_len \<noteq> KEM_CIPHERTEXT_SIZE kx then Inl InvalidSphinxPacket
          else if length data < ct_off + 2 + ct_len then Inl (BufferTooShort (ct_off + 2 + ct_len) (length data))
          else Inr \<lparr>welcome_eph_pub_key = take 32 data, welcome_eph_kem_pub_key = take kem_len (drop 34 data),
                    welcome_nonce = take 32 (drop (34 + kem_len) data), welcome_kem_ciphertext = take ct_len (drop (ct_off + 2) data)\<rparr>)"

definition serialize_auth_identity :: "EncryptedIdentity \<Rightarrow> bytes" where
  "serialize_auth_identity e = aead_nonce e @ len_be16 (length (id_ciphertext e)) @ id_ciphertext e"

definition deserialize_auth_identity :: "bytes \<Rightarrow> WireError + EncryptedIdentity" where
  "deserialize_auth_identity data =
     (if length data < 12 + 2 then Inl (BufferTooShort 14 (length data))
      else
        let ct_len = be16_len (take 2 (drop 12 data)) in
        if ct_len = 0 \<or> 4096 < ct_len \<or> length data < 14 + ct_len then Inl (BufferTooShort (14 + ct_len) (length data))
        else Inr \<lparr>aead_nonce = take 12 data, id_ciphertext = take ct_len (drop 14 data)\<rparr>)"

text \<open>\<open>rnd\<close> is the random source: \<open>pad_len\<close> bytes of it are appended.\<close>

definition pad_handshake :: "'sc sphinx_env \<Rightarrow> (nat \<Rightarrow> bytes) \<Rightarrow> bytes \<Rightarrow> bytes" where
  "pad_handshake env rnd payload =
     (if PADDED_MESSAGE_SIZE env < length payload then payload
      else payload @ rnd (PADDED_MESSAGE_SIZE env - length payload))"

definition wrap_maintenance_payload :: "u8 \<Rightarrow> bytes \<Rightarrow> bytes" where
  "wrap_maintenance_payload body_type payload = body_type # payload"

definition split_maintenance_payload :: "bytes \<Rightarrow> (u8 \<times> bytes) option" where
  "split_maintenance_payload data = (case data of [] \<Rightarrow> None | first # rest \<Rightarrow> Some (first, rest))"

section \<open>Sphinx packets\<close>

definition serialize_sphinx :: "SphinxPacket \<Rightarrow> bytes" where
  "serialize_sphinx p =
     (let h = sp_header p
      in [sh_version h] @ ephemeral_key h @ sh_session_id h @ len_be32 (length (kem_ciphertexts p)) @ kem_ciphertexts p @
         routing_info h @ sh_mac h @ sp_body p)"

text \<open>\<open>remaining\<close> is computed in \<open>usize\<close>, here 64 bits with wrap-around.\<close>

definition deserialize_sphinx :: "'sc sphinx_env \<Rightarrow> bytes \<Rightarrow> WireError + SphinxPacket" where
  "deserialize_sphinx env data =
     (let legacy_len = EPHEMERAL_KEY_SIZE + ROUTING_INFO_SIZE + MAC_SIZE + BODY_SIZE in
      if length data = legacy_len then
        Inr \<lparr>sp_header = \<lparr>sh_version = SPHINX_VERSION_CLASSICAL, ephemeral_key = take EPHEMERAL_KEY_SIZE data,
               sh_session_id = replicate SESSION_ID_SIZE 0,
               routing_info = take ROUTING_INFO_SIZE (drop EPHEMERAL_KEY_SIZE data),
               sh_mac = take MAC_SIZE (drop (EPHEMERAL_KEY_SIZE + ROUTING_INFO_SIZE) data)\<rparr>,
             kem_ciphertexts = [], sp_body = take BODY_SIZE (drop (EPHEMERAL_KEY_SIZE + ROUTING_INFO_SIZE + MAC_SIZE) data)\<rparr>
      else
        let min_len = 1 + EPHEMERAL_KEY_SIZE + SESSION_ID_SIZE + 4 + ROUTING_INFO_SIZE + MAC_SIZE + BODY_SIZE in
        if length data < min_len then Inl (BufferTooShort min_len (length data))
        else
          let version = data ! 0; offset = 1;
              eph = take EPHEMERAL_KEY_SIZE (drop offset data); offset = offset + EPHEMERAL_KEY_SIZE;
              sid = take SESSION_ID_SIZE (drop offset data); offset = offset + SESSION_ID_SIZE;
              kem_len = be32_len (take 4 (drop offset data)); offset = offset + 4;
              kem_ok = (if version = SPHINX_VERSION_HYBRID then kem_len = KEM_BLOCK_SIZE env
                        else kem_len = 0 \<or> kem_len mod KEM_CIPHERTEXT_SIZE (sx_kx env) = 0)
          in if \<not> kem_ok then Inl InvalidSphinxPacket
             else
               let remaining = (word_of_nat (length data) - word_of_nat offset - word_of_nat kem_len - word_of_nat ROUTING_INFO_SIZE - word_of_nat MAC_SIZE :: u64);
                   needed = offset + kem_len + ROUTING_INFO_SIZE + MAC_SIZE
               in case (if unat remaining = WIRE_BODY_SIZE then Some WIRE_BODY_SIZE else if unat remaining = BODY_SIZE then Some BODY_SIZE else None) of
                    None \<Rightarrow> Inl (BufferTooShort (needed + WIRE_BODY_SIZE) (length data))
                  | Some body_len \<Rightarrow>
                      if length data < needed + body_len then Inl (BufferTooShort (needed + body_len) (length data))
                      else
                        let kem = take kem_len (drop offset data); offset = offset + kem_len;
                            routing = take ROUTING_INFO_SIZE (drop offset data); offset = offset + ROUTING_INFO_SIZE;
                            mac = take MAC_SIZE (drop offset data); offset = offset + MAC_SIZE
                        in Inr \<lparr>sp_header = \<lparr>sh_version = version, ephemeral_key = eph, sh_session_id = sid, routing_info = routing, sh_mac = mac\<rparr>,
                                kem_ciphertexts = kem, sp_body = take body_len (drop offset data)\<rparr>)"

section \<open>Framing\<close>

datatype WireMessage =
    HandshakeMsg Handshake
  | HelloMsg Hello
  | WelcomeMsg Welcome
  | AuthIdentityMsg EncryptedIdentity
  | SphinxMsg SphinxPacket
  | SessionReplyMsg SessionReply

definition serialize_message :: "'sc sphinx_env \<Rightarrow> (nat \<Rightarrow> bytes) \<Rightarrow> WireMessage \<Rightarrow> WireError + bytes" where
  "serialize_message env rnd msg =
     (let (msg_type, payload) = (case msg of
            HandshakeMsg hs \<Rightarrow> (MSG_HANDSHAKE, serialize_handshake hs)
          | HelloMsg h \<Rightarrow> (MSG_HELLO, pad_handshake env rnd (serialize_hello h))
          | WelcomeMsg w \<Rightarrow> (MSG_WELCOME, pad_handshake env rnd (serialize_welcome w))
          | AuthIdentityMsg a \<Rightarrow> (MSG_AUTH_IDENTITY, pad_handshake env rnd (serialize_auth_identity a))
          | SphinxMsg p \<Rightarrow> (MSG_SPHINX, serialize_sphinx p)
          | SessionReplyMsg r \<Rightarrow> (MSG_SPHINX, session_reply_serialize
              (rnd (SESSION_REPLY_WIRE_SIZE env - (1 + length (sr_session_id r) + length (sr_nonce r) + WIRE_BODY_SIZE))) r));
          total_len = 1 + 4 + length payload;
          cap = (case msg of
                   SphinxMsg _ \<Rightarrow> HYBRID_MAX_MESSAGE_SIZE env | SessionReplyMsg _ \<Rightarrow> HYBRID_MAX_MESSAGE_SIZE env
                 | HandshakeMsg _ \<Rightarrow> HYBRID_MAX_MESSAGE_SIZE env | _ \<Rightarrow> 1 + 4 + PADDED_MESSAGE_SIZE env)
      in if cap < total_len then Inl (MessageTooLarge total_len cap)
         else Inr ([msg_type] @ len_be32 (length payload) @ payload))"

definition map_ok :: "('a \<Rightarrow> 'b) \<Rightarrow> 'e + 'a \<Rightarrow> 'e + 'b" where
  "map_ok f r = (case r of Inl e \<Rightarrow> Inl e | Inr x \<Rightarrow> Inr (f x))"

definition deserialize_message :: "'sc sphinx_env \<Rightarrow> bytes \<Rightarrow> WireError + (WireMessage \<times> nat)" where
  "deserialize_message env data =
     (if length data < 5 then Inl (BufferTooShort 5 (length data))
      else
        let msg_type = data ! 0; payload_len = be32_len (take 4 (drop 1 data)); total_len = 5 + payload_len in
        if length data < total_len then Inl (BufferTooShort total_len (length data))
        else
          let payload = take payload_len (drop 5 data);
              msg =
                (if msg_type = MSG_HANDSHAKE then map_ok HandshakeMsg (deserialize_handshake payload)
                 else if msg_type = MSG_HELLO then map_ok HelloMsg (deserialize_hello (sx_kx env) payload)
                 else if msg_type = MSG_WELCOME then map_ok WelcomeMsg (deserialize_welcome (sx_kx env) payload)
                 else if msg_type = MSG_AUTH_IDENTITY then map_ok AuthIdentityMsg (deserialize_auth_identity payload)
                 else if msg_type = MSG_SPHINX then
                   (if length payload = SESSION_REPLY_WIRE_SIZE env \<and> payload ! 0 = SPHINX_VERSION_SESSION_REPLY then
                      (case session_reply_deserialize payload of Inl _ \<Rightarrow> Inl InvalidSphinxPacket | Inr r \<Rightarrow> Inr (SessionReplyMsg r))
                    else map_ok SphinxMsg (deserialize_sphinx env payload))
                 else Inl (InvalidMessageType msg_type))
          in map_ok (\<lambda>m. (m, total_len)) msg)"

text \<open>The reader's buffer is returned as it stands: \<open>split_to\<close> consumes a complete frame before it is parsed.\<close>

definition try_read_message :: "'sc sphinx_env \<Rightarrow> bytes \<Rightarrow> (WireError + WireMessage option) \<times> bytes" where
  "try_read_message env buf =
     (if length buf < 5 then (Inr None, buf)
      else
        let payload_len = be32_len (take 4 (drop 1 buf)) in
        if PADDED_MESSAGE_SIZE env < payload_len then (Inl (MessageTooLarge (5 + payload_len) (5 + PADDED_MESSAGE_SIZE env)), buf)
        else
          let total_len = 5 + payload_len in
          if length buf < total_len then (Inr None, buf)
          else (case deserialize_message env (take total_len buf) of
                  Inl e \<Rightarrow> (Inl e, drop total_len buf)
                | Inr (msg, _) \<Rightarrow> (Inr (Some msg), drop total_len buf)))"

definition write_message :: "'sc sphinx_env \<Rightarrow> (nat \<Rightarrow> bytes) \<Rightarrow> bytes \<Rightarrow> WireMessage \<Rightarrow> WireError + bytes" where
  "write_message env rnd buf msg = (case serialize_message env rnd msg of Inl e \<Rightarrow> Inl e | Inr serialized \<Rightarrow> Inr (buf @ serialized))"

section \<open>Signed maintenance messages\<close>

record Prepayment =
  pp_from_node :: NodeId
  pp_bytes :: u64
  pp_content_id :: bytes
  pp_identity_public_key :: bytes
  pp_signature :: bytes

definition prepayment_signing_bytes :: "Prepayment \<Rightarrow> bytes" where
  "prepayment_signing_bytes p = pp_from_node p @ to_be64 (pp_bytes p) @ pp_content_id p"

definition prepayment_sign :: "'sk ed25519 \<Rightarrow> NodeId \<Rightarrow> u64 \<Rightarrow> bytes \<Rightarrow> 'sk \<Rightarrow> Prepayment" where
  "prepayment_sign ed node amount cid sk =
     (let proto = \<lparr>pp_from_node = node, pp_bytes = amount, pp_content_id = cid,
                   pp_identity_public_key = ed_public ed sk, pp_signature = []\<rparr>
      in proto\<lparr>pp_signature := ed_sign ed sk (prepayment_signing_bytes proto)\<rparr>)"

definition prepayment_validate :: "'sk ed25519 \<Rightarrow> Prepayment \<Rightarrow> bool" where
  "prepayment_validate ed p =
     (if pp_bytes p = 0 \<or> length (pp_signature p) \<noteq> 64 then False
      else if \<not> ed_parse ed (pp_identity_public_key p) then False
      else ed_check ed (pp_identity_public_key p) (prepayment_signing_bytes p) (pp_signature p))"

record ReconciliationEntry =
  re_peer_id :: NodeId
  re_bytes_served :: u64
  re_bytes_received :: u64
  re_net_credit :: "64 word"
  re_last_interaction :: u64
  re_prepaid_bytes :: u64
  re_successful_challenges :: u32
  re_failed_challenges :: u32

record AccountingReconciliation =
  ar_from_node :: NodeId
  ar_peer_credits :: "ReconciliationEntry list"
  ar_total_bytes_served :: u64
  ar_total_bytes_received :: u64
  ar_timestamp :: u64
  ar_identity_public_key :: bytes
  ar_signature :: bytes

text \<open>The JSON encoding of the entries and blake3 are parameters.\<close>

definition reconciliation_signing_bytes ::
  "(ReconciliationEntry list \<Rightarrow> bytes) \<Rightarrow> (bytes \<Rightarrow> bytes) \<Rightarrow> AccountingReconciliation \<Rightarrow> bytes" where
  "reconciliation_signing_bytes json h r = ar_from_node r @ to_be64 (ar_timestamp r) @ h (json (ar_peer_credits r))"

definition reconciliation_sign ::
  "'sk ed25519 \<Rightarrow> (ReconciliationEntry list \<Rightarrow> bytes) \<Rightarrow> (bytes \<Rightarrow> bytes) \<Rightarrow> 'sk \<Rightarrow> AccountingReconciliation \<Rightarrow> AccountingReconciliation" where
  "reconciliation_sign ed json h sk r =
     (let r = r\<lparr>ar_identity_public_key := ed_public ed sk\<rparr>
      in r\<lparr>ar_signature := ed_sign ed sk (reconciliation_signing_bytes json h r)\<rparr>)"

definition reconciliation_verify ::
  "'sk ed25519 \<Rightarrow> (ReconciliationEntry list \<Rightarrow> bytes) \<Rightarrow> (bytes \<Rightarrow> bytes) \<Rightarrow> u64 \<Rightarrow> AccountingReconciliation \<Rightarrow> bool" where
  "reconciliation_verify ed json h now_secs r =
     (if MAX_RECONCILIATION_ENTRIES < length (ar_peer_credits r) then False
      else if saturating_add now_secs 300 < ar_timestamp r then False
      else if length (ar_signature r) \<noteq> 64 then False
      else if \<not> ed_parse ed (ar_identity_public_key r) then False
      else if (\<exists>e\<in>set (ar_peer_credits r). 2 ^ 60 < re_bytes_served e \<or> 2 ^ 60 < re_bytes_received e \<or> 2 ^ 60 < re_prepaid_bytes e) then False
      else ed_check ed (ar_identity_public_key r) (reconciliation_signing_bytes json h r) (ar_signature r))"

section \<open>Signatures\<close>

lemma handshake_verify_iff:
  "handshake_verify ed kx h \<longleftrightarrow> (\<forall>k. hs_kem_public_key h = Some k \<longrightarrow> length k = KEM_PUBLIC_KEY_SIZE kx) \<and>
     signature_valid ed (hs_identity_public_key h) (handshake_signing_bytes h) (hs_signature h)"
  by (auto simp: handshake_verify_def signature_valid_def)

interpretation handshake_msg: signed_message ed handshake_signing_bytes hs_identity_public_key hs_signature
    "\<lambda>h. \<forall>k. hs_kem_public_key h = Some k \<longrightarrow> length k = KEM_PUBLIC_KEY_SIZE kx" "handshake_sign ed" "handshake_verify ed kx" for ed kx
  by unfold_locales (simp_all add: handshake_verify_iff handshake_sign_def handshake_signing_bytes_def Let_def)

definition prepayment_resign :: "'sk ed25519 \<Rightarrow> 'sk \<Rightarrow> Prepayment \<Rightarrow> Prepayment" where
  "prepayment_resign ed sk p = prepayment_sign ed (pp_from_node p) (pp_bytes p) (pp_content_id p) sk"

interpretation prepayment_msg: signed_message ed prepayment_signing_bytes pp_identity_public_key pp_signature
    "\<lambda>p. pp_bytes p \<noteq> 0" "prepayment_resign ed" "prepayment_validate ed" for ed
  by unfold_locales (auto simp: prepayment_validate_def signature_valid_def prepayment_resign_def prepayment_sign_def prepayment_signing_bytes_def Let_def)

definition reconciliation_sane :: "u64 \<Rightarrow> AccountingReconciliation \<Rightarrow> bool" where
  "reconciliation_sane now r \<longleftrightarrow> length (ar_peer_credits r) \<le> MAX_RECONCILIATION_ENTRIES \<and> ar_timestamp r \<le> saturating_add now 300 \<and>
     (\<forall>e\<in>set (ar_peer_credits r). re_bytes_served e \<le> 2 ^ 60 \<and> re_bytes_received e \<le> 2 ^ 60 \<and> re_prepaid_bytes e \<le> 2 ^ 60)"

interpretation reconciliation_msg: signed_message ed "reconciliation_signing_bytes json h" ar_identity_public_key ar_signature
    "reconciliation_sane now" "reconciliation_sign ed json h" "reconciliation_verify ed json h now" for ed json h now
proof unfold_locales
  fix m
  show "reconciliation_verify ed json h now m \<longleftrightarrow>
      reconciliation_sane now m \<and> signature_valid ed (ar_identity_public_key m) (reconciliation_signing_bytes json h m) (ar_signature m)"
    by (simp add: reconciliation_verify_def reconciliation_sane_def signature_valid_def not_le not_less)
qed (simp_all add: reconciliation_sign_def reconciliation_signing_bytes_def reconciliation_sane_def Let_def)

section \<open>Every message is read back\<close>

lemma length_len_be16 [simp]: "length (len_be16 n) = 2"
  by (simp add: len_be16_def)

lemma be16_len_be16 [simp]: "n < 2 ^ 16 \<Longrightarrow> be16_len (len_be16 n) = n"
  by (simp add: be16_len_def len_be16_def unat_of_nat be_nat_nat_be)

definition handshake_ok :: "Handshake \<Rightarrow> bool" where
  "handshake_ok h \<longleftrightarrow> length (hs_node_id h) = 16 \<and> length (hs_public_key h) = 32 \<and> length (hs_identity_public_key h) = 32 \<and>
     length (hs_nonce h) = 32 \<and> length (hs_signature h) = 64 \<and> (\<forall>k. hs_kem_public_key h = Some k \<longrightarrow> k \<noteq> [] \<and> length k \<le> 4096)"

lemma handshake_roundtrip: "handshake_ok h \<Longrightarrow> deserialize_handshake (serialize_handshake h @ rest) = Inr h"
  by (cases h; cases "hs_kem_public_key h")
     (auto simp: handshake_ok_def serialize_handshake_def deserialize_handshake_def Let_def nth_append)

lemma hello_roundtrip:
  "length (hello_eph_pub_key h) = 32 \<Longrightarrow> length (hello_nonce h) = 32 \<Longrightarrow> length (hello_eph_kem_pub_key h) = KEM_PUBLIC_KEY_SIZE kx \<Longrightarrow>
     KEM_PUBLIC_KEY_SIZE kx < 2 ^ 16 \<Longrightarrow> deserialize_hello kx (serialize_hello h @ rest) = Inr h"
  by (cases h) (simp add: serialize_hello_def deserialize_hello_def Let_def)

lemma welcome_roundtrip:
  "length (welcome_eph_pub_key w) = 32 \<Longrightarrow> length (welcome_nonce w) = 32 \<Longrightarrow> length (welcome_eph_kem_pub_key w) = KEM_PUBLIC_KEY_SIZE kx \<Longrightarrow>
     length (welcome_kem_ciphertext w) = KEM_CIPHERTEXT_SIZE kx \<Longrightarrow> KEM_PUBLIC_KEY_SIZE kx < 2 ^ 16 \<Longrightarrow> KEM_CIPHERTEXT_SIZE kx < 2 ^ 16 \<Longrightarrow>
     deserialize_welcome kx (serialize_welcome w @ rest) = Inr w"
  by (cases w) (simp add: serialize_welcome_def deserialize_welcome_def Let_def)

lemma auth_identity_roundtrip:
  "length (aead_nonce e) = 12 \<Longrightarrow> 0 < length (id_ciphertext e) \<Longrightarrow> length (id_ciphertext e) \<le> 4096 \<Longrightarrow>
     deserialize_auth_identity (serialize_auth_identity e @ rest) = Inr e"
  by (cases e) (simp add: serialize_auth_identity_def deserialize_auth_identity_def Let_def)

definition packet_ok :: "'sc sphinx_env \<Rightarrow> SphinxPacket \<Rightarrow> bool" where
  "packet_ok env p \<longleftrightarrow>
     (sh_version (sp_header p) = SPHINX_VERSION_CLASSICAL \<and> kem_ciphertexts p = [] \<or>
      sh_version (sp_header p) = SPHINX_VERSION_HYBRID \<and> length (kem_ciphertexts p) = KEM_BLOCK_SIZE env) \<and>
     length (ephemeral_key (sp_header p)) = 32 \<and> length (sh_session_id (sp_header p)) = SESSION_ID_SIZE \<and>
     length (routing_info (sp_header p)) = ROUTING_INFO_SIZE \<and> length (sh_mac (sp_header p)) = MAC_SIZE \<and> length (sp_body p) = WIRE_BODY_SIZE"

lemma sphinx_roundtrip:
  assumes "packet_ok env p" "KEM_BLOCK_SIZE env < 2 ^ 32"
  shows "deserialize_sphinx env (serialize_sphinx p) = Inr p"
proof -
  let ?h = "sp_header p" and ?k = "kem_ciphertexts p"
  have h: "length (ephemeral_key ?h) = 32" "length (sh_session_id ?h) = 32" "length (routing_info ?h) = 165" "length (sh_mac ?h) = 16"
    "length (sp_body p) = 1040" using assms(1) by (simp_all add: packet_ok_def sphinx_sizes)
  have k: "length ?k < 2 ^ 32" "sh_version ?h = SPHINX_VERSION_HYBRID \<longrightarrow> length ?k = KEM_BLOCK_SIZE env"
    "sh_version ?h \<noteq> SPHINX_VERSION_HYBRID \<longrightarrow> length ?k = 0"
    using assms by (auto simp: packet_ok_def SPHINX_VERSION_CLASSICAL_def SPHINX_VERSION_HYBRID_def)
  have len: "length (serialize_sphinx p) = 1290 + length ?k" by (simp add: serialize_sphinx_def h Let_def)
  have "word_of_nat (1290 + length ?k) - 69 - word_of_nat (length ?k) - 165 - 16 = (1040 :: u64)" by simp
  then have rem: "unat (word_of_nat (1290 + length ?k) - 69 - word_of_nat (length ?k) - 165 - 16 :: u64) = 1040" by simp
  define pre where "pre = [sh_version ?h] @ ephemeral_key ?h @ sh_session_id ?h @ len_be32 (length ?k) @ ?k"
  have split: "serialize_sphinx p = pre @ routing_info ?h @ sh_mac ?h @ sp_body p" "length pre = 69 + length ?k"
    by (simp_all add: serialize_sphinx_def pre_def h Let_def)
  have dropk: "drop (69 + length ?k + m) (serialize_sphinx p) = drop m (routing_info ?h @ sh_mac ?h @ sp_body p)" for m
    unfolding split(2) [symmetric] split(1) by simp
  have f: "serialize_sphinx p ! 0 = sh_version ?h" "take 32 (drop (Suc 0) (serialize_sphinx p)) = ephemeral_key ?h"
    "take 32 (drop 33 (serialize_sphinx p)) = sh_session_id ?h" "take 4 (drop 65 (serialize_sphinx p)) = len_be32 (length ?k)"
    "take (length ?k) (drop 69 (serialize_sphinx p)) = ?k" "take 165 (drop (69 + length ?k) (serialize_sphinx p)) = routing_info ?h"
    "take 16 (drop (234 + length ?k) (serialize_sphinx p)) = sh_mac ?h" "take 1040 (drop (250 + length ?k) (serialize_sphinx p)) = sp_body p"
    using dropk [of 0] dropk [of 165] dropk [of 181]
    by (simp_all add: h) (simp_all add: serialize_sphinx_def h Let_def)
  have kl: "be32_len (len_be32 (length ?k)) = length ?k" using k(1) by simp
  show ?thesis
    using k rem assms(2) by (simp add: deserialize_sphinx_def EPHEMERAL_KEY_SIZE_def sphinx_sizes len f kl Let_def)
qed

section \<open>Frames\<close>

text \<open>The sizes of ML-KEM-768.\<close>

definition ml_kem_768 :: "key_exchange \<Rightarrow> bool" where
  "ml_kem_768 kx \<longleftrightarrow> KEM_PUBLIC_KEY_SIZE kx = 1184 \<and> KEM_CIPHERTEXT_SIZE kx = 1088"

fun wire_ok :: "'sc sphinx_env \<Rightarrow> WireMessage \<Rightarrow> bool" where
  "wire_ok env (HandshakeMsg h) \<longleftrightarrow> handshake_ok h"
| "wire_ok env (HelloMsg h) \<longleftrightarrow> length (hello_eph_pub_key h) = 32 \<and> length (hello_nonce h) = 32 \<and>
     length (hello_eph_kem_pub_key h) = KEM_PUBLIC_KEY_SIZE (sx_kx env)"
| "wire_ok env (WelcomeMsg w) \<longleftrightarrow> length (welcome_eph_pub_key w) = 32 \<and> length (welcome_nonce w) = 32 \<and>
     length (welcome_eph_kem_pub_key w) = KEM_PUBLIC_KEY_SIZE (sx_kx env) \<and> length (welcome_kem_ciphertext w) = KEM_CIPHERTEXT_SIZE (sx_kx env)"
| "wire_ok env (AuthIdentityMsg e) \<longleftrightarrow> length (aead_nonce e) = 12 \<and> 0 < length (id_ciphertext e) \<and> length (id_ciphertext e) \<le> 4096"
| "wire_ok env (SphinxMsg p) \<longleftrightarrow> packet_ok env p"
| "wire_ok env (SessionReplyMsg r) \<longleftrightarrow> length (sr_session_id r) = SESSION_ID_SIZE \<and> length (sr_nonce r) = SESSION_ID_SIZE \<and> length (sr_body r) = WIRE_BODY_SIZE"

lemmas msg_types = MSG_HANDSHAKE_def MSG_HELLO_def MSG_WELCOME_def MSG_AUTH_IDENTITY_def MSG_SPHINX_def
lemmas wire_sizes = HYBRID_MAX_MESSAGE_SIZE_def PADDED_MESSAGE_SIZE_def SESSION_REPLY_WIRE_SIZE_def EPHEMERAL_KEY_SIZE_def sphinx_sizes

lemma deserialize_frame:
  assumes "length payload = n" "n < 2 ^ 32"
  shows "deserialize_message env (t # len_be32 n @ payload @ rest) =
    map_ok (\<lambda>m. (m, 5 + length payload))
      (if t = MSG_HANDSHAKE then map_ok HandshakeMsg (deserialize_handshake payload)
       else if t = MSG_HELLO then map_ok HelloMsg (deserialize_hello (sx_kx env) payload)
       else if t = MSG_WELCOME then map_ok WelcomeMsg (deserialize_welcome (sx_kx env) payload)
       else if t = MSG_AUTH_IDENTITY then map_ok AuthIdentityMsg (deserialize_auth_identity payload)
       else if t = MSG_SPHINX then
         (if length payload = SESSION_REPLY_WIRE_SIZE env \<and> payload ! 0 = SPHINX_VERSION_SESSION_REPLY then
            (case session_reply_deserialize payload of Inl _ \<Rightarrow> Inl InvalidSphinxPacket | Inr r \<Rightarrow> Inr (SessionReplyMsg r))
          else map_ok SphinxMsg (deserialize_sphinx env payload))
       else Inl (InvalidMessageType t))"
  using assms by (simp add: deserialize_message_def Let_def)

lemma serialized_frame:
  assumes k: "ml_kem_768 (sx_kx env)" and rnd: "\<And>n. length (rnd n) = n" and ok: "wire_ok env msg"
  shows "\<exists>t payload. serialize_message env rnd msg = Inr ([t] @ len_be32 (length payload) @ payload) \<and> length payload \<le> PADDED_MESSAGE_SIZE env \<and>
    (\<forall>rest. deserialize_message env ([t] @ len_be32 (length payload) @ payload @ rest) = Inr (msg, 5 + length payload))"
proof -
  have kem: "KEM_PUBLIC_KEY_SIZE (sx_kx env) = 1184" "KEM_CIPHERTEXT_SIZE (sx_kx env) = 1088" using k by (simp_all add: ml_kem_768_def)
  have P: "PADDED_MESSAGE_SIZE env = 6735" "HYBRID_MAX_MESSAGE_SIZE env = 6735" "SESSION_REPLY_WIRE_SIZE env = 6730"
    by (simp_all add: wire_sizes kem)
  have pad: "pad_handshake env rnd b = b @ rnd (6735 - length b)" "length (pad_handshake env rnd b) = 6735" if "length b \<le> 6735" for b
    using that rnd by (simp_all add: pad_handshake_def P)
  show ?thesis
  proof (cases msg)
    case (HandshakeMsg h)
    then have l: "length (serialize_handshake h) \<le> 4350"
      using ok by (auto simp: serialize_handshake_def handshake_ok_def Let_def split: option.splits)
    have "deserialize_handshake (serialize_handshake h) = Inr h" using handshake_roundtrip [of h "[]"] ok HandshakeMsg by simp
    with l HandshakeMsg show ?thesis
      by (intro exI [of _ MSG_HANDSHAKE] exI [of _ "serialize_handshake h"])
         (simp add: serialize_message_def P deserialize_frame map_ok_def)
  next
    case (HelloMsg h)
    then have l: "length (serialize_hello h) \<le> 6735" using ok by (simp add: serialize_hello_def kem)
    have "deserialize_hello (sx_kx env) (pad_handshake env rnd (serialize_hello h)) = Inr h"
      unfolding pad(1) [OF l] using ok HelloMsg by (intro hello_roundtrip) (simp_all add: kem)
    with pad(2) [OF l] HelloMsg show ?thesis
      by (intro exI [of _ MSG_HELLO] exI [of _ "pad_handshake env rnd (serialize_hello h)"])
         (simp add: serialize_message_def P deserialize_frame map_ok_def msg_types)
  next
    case (WelcomeMsg w)
    then have l: "length (serialize_welcome w) \<le> 6735" using ok by (simp add: serialize_welcome_def kem)
    have "deserialize_welcome (sx_kx env) (pad_handshake env rnd (serialize_welcome w)) = Inr w"
      unfolding pad(1) [OF l] using ok WelcomeMsg by (intro welcome_roundtrip) (simp_all add: kem)
    with pad(2) [OF l] WelcomeMsg show ?thesis
      by (intro exI [of _ MSG_WELCOME] exI [of _ "pad_handshake env rnd (serialize_welcome w)"])
         (simp add: serialize_message_def P deserialize_frame map_ok_def msg_types)
  next
    case (AuthIdentityMsg e)
    then have l: "length (serialize_auth_identity e) \<le> 6735" using ok by (simp add: serialize_auth_identity_def)
    have "deserialize_auth_identity (pad_handshake env rnd (serialize_auth_identity e)) = Inr e"
      unfolding pad(1) [OF l] using ok AuthIdentityMsg by (intro auth_identity_roundtrip) simp_all
    with pad(2) [OF l] AuthIdentityMsg show ?thesis
      by (intro exI [of _ MSG_AUTH_IDENTITY] exI [of _ "pad_handshake env rnd (serialize_auth_identity e)"])
         (simp add: serialize_message_def P deserialize_frame map_ok_def msg_types)
  next
    case (SphinxMsg p)
    then have p: "packet_ok env p" using ok by simp
    then have l: "length (serialize_sphinx p) \<le> 6730" "serialize_sphinx p ! 0 \<noteq> SPHINX_VERSION_SESSION_REPLY"
      by (auto simp: serialize_sphinx_def packet_ok_def sphinx_sizes kem Let_def SPHINX_VERSION_CLASSICAL_def SPHINX_VERSION_HYBRID_def SPHINX_VERSION_SESSION_REPLY_def)
    have "deserialize_sphinx env (serialize_sphinx p) = Inr p" by (rule sphinx_roundtrip [OF p]) (simp add: kem sphinx_sizes)
    with l SphinxMsg show ?thesis
      by (intro exI [of _ MSG_SPHINX] exI [of _ "serialize_sphinx p"])
         (simp add: serialize_message_def P deserialize_frame map_ok_def msg_types)
  next
    case (SessionReplyMsg r)
    let ?b = "session_reply_serialize (rnd (SESSION_REPLY_WIRE_SIZE env - (1 + length (sr_session_id r) + length (sr_nonce r) + WIRE_BODY_SIZE))) r"
    have r: "length (sr_session_id r) = 32" "length (sr_nonce r) = 32" "length (sr_body r) = 1040"
      using ok SessionReplyMsg by (simp_all add: sphinx_sizes)
    then have l: "length ?b = 6730" "?b ! 0 = SPHINX_VERSION_SESSION_REPLY"
      using rnd by (simp_all add: session_reply_serialize_def sphinx_sizes P Let_def)
    have "session_reply_deserialize ?b = Inr r" using ok SessionReplyMsg by (intro session_reply_roundtrip) simp_all
    with l SessionReplyMsg show ?thesis
      by (intro exI [of _ MSG_SPHINX] exI [of _ ?b])
         (simp add: serialize_message_def P deserialize_frame map_ok_def msg_types)
  qed
qed

section \<open>Reading a byte stream\<close>

text \<open>The inner loop of the connection task: every complete frame at the front of the buffer is taken off it,
an error ends the connection. \<open>receive\<close> feeds the reads of the socket to it one after the other, and
\<open>write_all\<close> appends messages to the outgoing buffer, the \<open>i\<close>-th of them padded with \<open>rnd i\<close>.\<close>

lemma try_read_shrinks: "try_read_message env buf = (Inr (Some msg), rest) \<Longrightarrow> length rest < length buf"
  by (auto simp: try_read_message_def Let_def split: if_splits sum.splits)

function read_frames :: "'sc sphinx_env \<Rightarrow> bytes \<Rightarrow> WireMessage list \<times> WireError option \<times> bytes" where
  "read_frames env buf =
     (case try_read_message env buf of
        (Inr (Some msg), rest) \<Rightarrow> (case read_frames env rest of (msgs, err, rem) \<Rightarrow> (msg # msgs, err, rem))
      | (Inr None, rest) \<Rightarrow> ([], None, rest)
      | (Inl e, rest) \<Rightarrow> ([], Some e, rest))"
  by pat_completeness auto

termination read_frames
  by (relation "measure (\<lambda>(env, buf). length buf)") (auto dest: try_read_shrinks [OF sym])

declare read_frames.simps [simp del]

fun receive :: "'sc sphinx_env \<Rightarrow> bytes \<Rightarrow> bytes list \<Rightarrow> WireMessage list \<times> WireError option \<times> bytes" where
  "receive env buf [] = ([], None, buf)"
| "receive env buf (c # cs) =
     (case read_frames env (buf @ c) of
        (msgs, Some e, rem) \<Rightarrow> (msgs, Some e, rem)
      | (msgs, None, rem) \<Rightarrow> (case receive env rem cs of (msgs', err, rem') \<Rightarrow> (msgs @ msgs', err, rem')))"

fun write_all :: "'sc sphinx_env \<Rightarrow> (nat \<Rightarrow> nat \<Rightarrow> bytes) \<Rightarrow> bytes \<Rightarrow> nat \<Rightarrow> WireMessage list \<Rightarrow> WireError + bytes" where
  "write_all env rnd buf i [] = Inr buf"
| "write_all env rnd buf i (msg # msgs) =
     (case write_message env (rnd i) buf msg of Inl e \<Rightarrow> Inl e | Inr buf' \<Rightarrow> write_all env rnd buf' (i + 1) msgs)"

text \<open>A frame of a message: read as that message whatever follows, and not touched while it is incomplete.\<close>

definition framed :: "'sc sphinx_env \<Rightarrow> WireMessage \<Rightarrow> bytes \<Rightarrow> bool" where
  "framed env msg frame \<longleftrightarrow> (\<forall>rest. try_read_message env (frame @ rest) = (Inr (Some msg), rest)) \<and>
     (\<forall>part later. part @ later = frame \<and> later \<noteq> [] \<longrightarrow> try_read_message env part = (Inr None, part))"

lemma framed_nonempty: "framed env msg frame \<Longrightarrow> 0 < length frame"
  by (auto simp: framed_def try_read_message_def dest!: spec [of _ "[]"])

lemma serialized_framed:
  assumes "ml_kem_768 (sx_kx env)" "\<And>n. length (rnd n) = n" "wire_ok env msg"
  shows "\<exists>frame. serialize_message env rnd msg = Inr frame \<and> framed env msg frame"
proof -
  obtain t payload where p: "serialize_message env rnd msg = Inr ([t] @ len_be32 (length payload) @ payload)"
      "length payload \<le> PADDED_MESSAGE_SIZE env"
      "\<And>rest. deserialize_message env ([t] @ len_be32 (length payload) @ payload @ rest) = Inr (msg, 5 + length payload)"
    using serialized_frame [OF assms] by blast
  have P: "PADDED_MESSAGE_SIZE env = 6735" using assms(1) by (simp add: wire_sizes ml_kem_768_def)
  let ?f = "[t] @ len_be32 (length payload) @ payload"
  have len: "length ?f = 5 + length payload" by simp
  have hd: "be32_len (take 4 (drop 1 (?f @ rest))) = length payload" for rest using p(2) P by simp
  have "try_read_message env (?f @ rest) = (Inr (Some msg), rest)" for rest
  proof -
    have "take (length ?f) (?f @ rest) = ?f" "drop (length ?f) (?f @ rest) = rest" by (metis append_eq_conv_conj)+
    then have "take (5 + length payload) (?f @ rest) = ?f" "drop (5 + length payload) (?f @ rest) = rest" unfolding len .
    then show ?thesis using p(2) p(3) [of "[]"] hd [of rest] by (simp add: try_read_message_def Let_def del: append_Cons)
  qed
  moreover have "try_read_message env part = (Inr None, part)" if part: "part @ later = ?f" "later \<noteq> []" for part later
  proof (cases "length part < 5")
    case False
    have "0 < length later" using part(2) by (simp only: length_greater_0_conv not_False_eq_True)
    moreover have "length part + length later = 5 + length payload" using arg_cong [OF part(1), of length] by simp
    ultimately have l: "length part < 5 + length payload" by linarith
    have "take 4 (drop 1 (part @ later)) = take 4 (drop 1 part)" using False by simp
    then have "be32_len (take 4 (drop 1 part)) = length payload" using hd [of "[]"] unfolding append_Nil2 part(1) [symmetric] by metis
    then show ?thesis using False l p(2) by (simp add: try_read_message_def Let_def)
  qed (simp add: try_read_message_def)
  ultimately show ?thesis using p(1) unfolding framed_def by blast
qed

lemma written_stream:
  assumes "ml_kem_768 (sx_kx env)" "\<And>i n. length (rnd i n) = n" "\<forall>m\<in>set msgs. wire_ok env m"
  shows "\<exists>frames. list_all2 (framed env) msgs frames \<and> write_all env rnd buf i msgs = Inr (buf @ concat frames)"
  using assms(3)
proof (induction msgs arbitrary: buf i)
  case (Cons msg msgs)
  obtain frame where f: "serialize_message env (rnd i) msg = Inr frame" "framed env msg frame"
    using serialized_framed [OF assms(1), of "rnd i" msg] assms(2) Cons.prems by auto
  obtain frames where "list_all2 (framed env) msgs frames" "write_all env rnd (buf @ frame) (i + 1) msgs = Inr ((buf @ frame) @ concat frames)"
    using Cons by fastforce
  with f show ?case by (intro exI [of _ "frame # frames"]) (simp add: write_message_def)
qed simp

text \<open>A prefix of a stream of frames: the complete ones are read, an incomplete one stays in the buffer.\<close>

definition leaves :: "bytes list \<Rightarrow> bytes \<Rightarrow> bytes \<Rightarrow> bool" where
  "leaves frames rem later \<longleftrightarrow> rem @ later = concat frames \<and> (frames = [] \<or> length rem < length (hd frames))"

lemma read_frames_prefix:
  assumes "list_all2 (framed env) msgs frames" "buf @ later = concat frames"
  shows "\<exists>k rem. read_frames env buf = (take k msgs, None, rem) \<and> leaves (drop k frames) rem later"
  using assms
proof (induction msgs frames arbitrary: buf rule: list_all2_induct)
  case Nil
  then show ?case
    by (simp add: read_frames.simps [of env "[]"] try_read_message_def leaves_def)
next
  case (Cons msg msgs frame frames)
  show ?case
  proof (cases "length buf < length frame")
    case True
    then have b: "buf = take (length buf) frame" using Cons.prems by (simp add: append_eq_append_conv_if)
    have "buf @ drop (length buf) frame = frame" by (subst (1) b) (rule append_take_drop_id)
    moreover have "drop (length buf) frame \<noteq> []" using True by simp
    ultimately have "try_read_message env buf = (Inr None, buf)" using Cons.hyps(1) unfolding framed_def by blast
    then show ?thesis using True Cons.prems
      by (intro exI [of _ 0] exI [of _ buf]) (simp add: read_frames.simps [of env buf] leaves_def)
  next
    case False
    then obtain rest where buf: "buf = frame @ rest" "rest @ later = concat frames"
      using Cons.prems by (auto simp: append_eq_append_conv2)
    obtain k rem where k: "read_frames env rest = (take k msgs, None, rem)" "leaves (drop k frames) rem later"
      using Cons.IH [OF buf(2)] by blast
    have "try_read_message env buf = (Inr (Some msg), rest)" using Cons.hyps(1) buf(1) by (simp add: framed_def)
    with k show ?thesis
      by (intro exI [of _ "Suc k"] exI [of _ rem]) (simp add: read_frames.simps [of env buf])
  qed
qed

lemma receive_prefix:
  assumes "list_all2 (framed env) msgs frames" "leaves frames buf (concat chunks @ later)"
  shows "\<exists>k rem. receive env buf chunks = (take k msgs, None, rem) \<and> leaves (drop k frames) rem later"
  using assms
proof (induction chunks arbitrary: msgs frames buf)
  case Nil
  then show ?case by (intro exI [of _ 0]) simp
next
  case (Cons c cs)
  obtain k rem where k: "read_frames env (buf @ c) = (take k msgs, None, rem)" "leaves (drop k frames) rem (concat cs @ later)"
    using read_frames_prefix [OF Cons.prems(1), of "buf @ c" "concat cs @ later"] Cons.prems(2) by (auto simp: leaves_def)
  have "list_all2 (framed env) (drop k msgs) (drop k frames)" using Cons.prems(1) by simp
  from Cons.IH [OF this k(2)] obtain k' rem' where
    "receive env rem cs = (take k' (drop k msgs), None, rem')" "leaves (drop k' (drop k frames)) rem' later" by blast
  with k show ?case
    by (intro exI [of _ "k + k'"] exI [of _ rem']) (simp add: take_add [symmetric] add.commute [of k' k])
qed

text \<open>Messages written to a connection are read back by the peer exactly and in order, however the
bytes are cut into reads: every read delivers the frames completed so far and keeps the incomplete one in the
buffer; when all bytes have arrived all messages have been delivered and the buffer is empty.\<close>

theorem stream_framing:
  assumes "ml_kem_768 (sx_kx env)" "\<And>i n. length (rnd i n) = n" "\<forall>m\<in>set msgs. wire_ok env m"
  shows "\<exists>stream. write_all env rnd [] 0 msgs = Inr stream \<and>
    (\<forall>chunks. concat chunks = stream \<longrightarrow> receive env [] chunks = (msgs, None, [])) \<and>
    (\<forall>chunks later. concat chunks @ later = stream \<longrightarrow> (\<exists>k rem. receive env [] chunks = (take k msgs, None, rem)))"
proof -
  obtain frames where f: "list_all2 (framed env) msgs frames" "write_all env rnd [] 0 msgs = Inr (concat frames)"
    using written_stream [of env rnd msgs "[]" 0] assms by auto
  have start: "leaves frames [] (concat frames)"
    using f(1) by (cases frames) (auto simp: leaves_def list_all2_Cons2 dest: framed_nonempty)
  have "receive env [] chunks = (msgs, None, [])" if c: "concat chunks = concat frames" for chunks
  proof -
    obtain k rem where r: "receive env [] chunks = (take k msgs, None, rem)" "leaves (drop k frames) rem []"
      using receive_prefix [OF f(1), of "[]" chunks "[]"] start c by auto
    have "drop k frames = [] \<and> rem = []" using r(2) by (cases "drop k frames") (auto simp: leaves_def)
    moreover have "length msgs = length frames" using f(1) by (rule list_all2_lengthD)
    ultimately show ?thesis using r(1) by simp
  qed
  moreover have "\<exists>k rem. receive env [] chunks = (take k msgs, None, rem)" if "concat chunks @ later = concat frames" for chunks later
    using receive_prefix [OF f(1), of "[]" chunks later] start that by auto
  ultimately show ?thesis using f(2) by blast
qed

text \<open>A key exchange with the sizes of ML-KEM-768 and the documented behaviour.\<close>

definition wire_kx :: key_exchange where
  "wire_kx = \<lparr>dh_public = (\<lambda>s. take 32 (s @ replicate 32 0)),
     diffie_hellman = (\<lambda>s p. [hd (s @ [0]) + hd (p @ [0])]),
     KEM_PUBLIC_KEY_SIZE = 1184, KEM_CIPHERTEXT_SIZE = 1088, KEM_SECRET_KEY_SIZE = 1,
     kem_public = (\<lambda>s. take 1184 (s @ replicate 1184 0)),
     kem_encapsulate = (\<lambda>r p. Some ((hd (r @ [0]) + hd (p @ [0])) # replicate 1087 0, [hd (r @ [0])])),
     kem_decapsulate = (\<lambda>c s. Some [hd (c @ [0]) - hd (s @ [0])])\<rparr>"

definition wire_env :: "u8 sphinx_env" where
  "wire_env = demo_sphinx\<lparr>sx_kx := wire_kx\<rparr>"

lemma wire_kx_correct: "key_exchange_correct wire_kx" "ml_kem_768 wire_kx"
proof -
  have "hd (take 32 (b @ replicate 32 0) @ [0]) = hd (b @ [0])" for b :: bytes
    by (cases b) (simp_all add: eval_nat_numeral)
  moreover have "hd (take 1184 (sk @ replicate 1184 0) @ [0]) = hd (sk @ [0])" if "length sk = Suc 0" for sk :: bytes
    using that by (cases sk) (simp_all add: eval_nat_numeral)
  ultimately show "key_exchange_correct wire_kx"
    by (simp add: key_exchange_correct_def wire_kx_def add.commute min_def)
  show "ml_kem_768 wire_kx" by (simp add: ml_kem_768_def wire_kx_def)
qed

definition demo_handshake :: "u8 \<Rightarrow> Handshake" where
  "demo_handshake k = \<lparr>hs_node_id = replicate 16 k, hs_public_key = replicate 32 k, hs_kem_public_key = None, compute_enabled = True,
     compute_capacity = 3, hs_identity_public_key = replicate 32 k, hs_nonce = replicate 32 k, hs_signature = replicate 64 k\<rparr>"

theorem stream_framing_witness:
  "\<exists>stream. write_all wire_env (\<lambda>_ n. replicate n 0) [] 0 [HandshakeMsg (demo_handshake 1), HandshakeMsg (demo_handshake 2)] = Inr stream \<and>
    receive wire_env [] [take 7 stream, take 200 (drop 7 stream), drop 207 stream] =
      ([HandshakeMsg (demo_handshake 1), HandshakeMsg (demo_handshake 2)], None, [])"
proof -
  let ?msgs = "[HandshakeMsg (demo_handshake 1), HandshakeMsg (demo_handshake 2)]"
  have "ml_kem_768 (sx_kx wire_env)" using wire_kx_correct(2) by (simp add: wire_env_def)
  moreover have "\<forall>m\<in>set ?msgs. wire_ok wire_env m" by (simp add: demo_handshake_def handshake_ok_def)
  ultimately obtain stream where s: "write_all wire_env (\<lambda>_ n. replicate n 0) [] 0 ?msgs = Inr stream"
      "\<And>chunks. concat chunks = stream \<Longrightarrow> receive wire_env [] chunks = (?msgs, None, [])"
    using stream_framing [of wire_env "\<lambda>_ n. replicate n 0" ?msgs] by auto
  have "drop 207 stream = drop 200 (drop 7 stream)" by simp
  then have "concat [take 7 stream, take 200 (drop 7 stream), drop 207 stream] = stream"
    by (simp del: drop_drop)
  from s(2) [OF this] s(1) show ?thesis by blast
qed

text \<open>The comments promise one size for every frame. Handshake payloads are padded to the size of a
whole frame, framing bytes included, and then framed again: they are five bytes longer on the wire
than a Sphinx frame, and so told apart from it.\<close>

lemma handshake_frames_longer:
  assumes k: "ml_kem_768 (sx_kx env)" and rnd: "\<And>n. length (rnd n) = n" and h: "wire_ok env (HelloMsg h)"
    and p: "packet_ok env p" "sh_version (sp_header p) = SPHINX_VERSION_HYBRID"
  shows "\<exists>hello sphinx. serialize_message env rnd (HelloMsg h) = Inr hello \<and> serialize_message env rnd (SphinxMsg p) = Inr sphinx \<and>
    length sphinx = HYBRID_MAX_MESSAGE_SIZE env \<and> length hello = length sphinx + 5"
proof -
  have kem: "KEM_PUBLIC_KEY_SIZE (sx_kx env) = 1184" "KEM_CIPHERTEXT_SIZE (sx_kx env) = 1088" using k by (simp_all add: ml_kem_768_def)
  have P: "PADDED_MESSAGE_SIZE env = 6735" "HYBRID_MAX_MESSAGE_SIZE env = 6735" by (simp_all add: wire_sizes kem)
  have l: "length (serialize_hello h) \<le> 6735" using h by (simp add: serialize_hello_def kem)
  have s: "length (serialize_sphinx p) = 6730"
    using p by (auto simp: serialize_sphinx_def packet_ok_def sphinx_sizes kem Let_def SPHINX_VERSION_CLASSICAL_def SPHINX_VERSION_HYBRID_def)
  have pad: "length (pad_handshake env rnd (serialize_hello h)) = 6735" using l rnd by (simp add: pad_handshake_def P)
  show ?thesis using s pad by (simp add: serialize_message_def P)
qed

text \<open>The length check of a Sphinx packet lets a packet through whose announced ciphertexts are longer than
the rest of the data; the remaining length is then computed below zero. The release build wraps and
rejects the packet by its length, a build with overflow checks panics.\<close>

lemma remaining_underflows:
  "\<exists>data. length data = 1274 \<and> data ! 0 = SPHINX_VERSION_HYBRID \<and> be32_len (take 4 (drop 65 data)) = KEM_BLOCK_SIZE wire_env \<and>
    int (length data) - 69 - int (KEM_BLOCK_SIZE wire_env) - int ROUTING_INFO_SIZE - int MAC_SIZE < 0 \<and>
    deserialize_sphinx wire_env data = Inl (BufferTooShort 6730 1274)"
proof -
  have kem: "KEM_BLOCK_SIZE wire_env = 5440" "KEM_CIPHERTEXT_SIZE (sx_kx wire_env) = 1088"
    by (simp_all add: wire_env_def wire_kx_def sphinx_sizes)
  let ?data = "[SPHINX_VERSION_HYBRID] @ replicate 64 0 @ len_be32 5440 @ replicate 1205 0"
  have l: "length ?data = 1274" "?data ! 0 = SPHINX_VERSION_HYBRID" by simp_all
  have k: "be32_len (take 4 (drop 65 ?data)) = 5440" by simp
  have r: "unat (1274 - 69 - 5440 - 165 - 16 :: u64) = 18446744073709547200" by simp
  have "deserialize_sphinx wire_env ?data = Inl (BufferTooShort 6730 1274)"
    unfolding deserialize_sphinx_def EPHEMERAL_KEY_SIZE_def sphinx_sizes Let_def l kem
    using k r by simp
  with l k show ?thesis
    by (intro exI [of _ ?data]) (simp add: kem sphinx_sizes)
qed

end
