(* ===== verification/Shaper.thy ===== *)
theory Shaper
  imports Wire Mesh
begin

text \<open>
  \<^verbatim>\<open>crates/static-mesh/src/transport.rs\<close>, traffic shaping: the token bucket a node shares between its
  connections, and the sending arms of \<open>connection_loop\<close> with their bounded queue and cover messages.
  The shared part of the transport state is \<open>Shared\<close>, what one connection task keeps is \<open>Conn\<close>; the
  frames handed to the sockets are logged. The wall clock (milliseconds), the random source and the
  outcome of each \<open>send_bytes\<close> are arguments. The results: all real traffic of a node stays below the
  burst plus the configured rate, whatever the connections do, and the queues stay bounded; the
  counters are exact; cover traffic does not respect the bucket or the budget its comments promise.
\<close>

section \<open>The token bucket\<close>

record TokenBucket =
  tokens :: u64
  max_tokens :: u64
  refill_rate :: u64
  last_refill :: u64

definition TokenBucket_new :: "u64 \<Rightarrow> u64 \<Rightarrow> u64 \<Rightarrow> TokenBucket" where
  "TokenBucket_new cap rate now_secs =
     \<lparr>tokens = cap, max_tokens = cap, refill_rate = rate, last_refill = saturating_mul now_secs 1000\<rparr>"

definition refill :: "u64 \<Rightarrow> TokenBucket \<Rightarrow> TokenBucket" where
  "refill now b =
     (let elapsed_ms = saturating_sub now (last_refill b) in
      if 0 < elapsed_ms then
        b\<lparr>tokens := min (saturating_add (tokens b) (saturating_mul elapsed_ms (refill_rate b) div 1000)) (max_tokens b),
          last_refill := now\<rparr>
      else b)"

definition try_consume :: "u64 \<Rightarrow> u64 \<Rightarrow> TokenBucket \<Rightarrow> bool \<times> TokenBucket" where
  "try_consume now n b =
     (let b = refill now b in
      if n \<le> tokens b then (True, b\<lparr>tokens := tokens b - n\<rparr>) else (False, b))"

definition set_rate :: "u64 \<Rightarrow> u64 \<Rightarrow> TokenBucket \<Rightarrow> TokenBucket" where
  "set_rate rate cap b = b\<lparr>refill_rate := rate, max_tokens := cap, tokens := min (tokens b) cap\<rparr>"

section \<open>Cover messages\<close>

text \<open>The random draws of one cover message: the bytes and session id of the dummy, the two fresh nodes,
  the destination, the body and the randomness of the packet.\<close>

record 'sc CoverDraw =
  cd_dummy :: bytes
  cd_session :: bytes
  cd_first :: "'sc HybridMixNode"
  cd_second :: "'sc HybridMixNode"
  cd_destination :: NodeId
  cd_body :: bytes
  cd_packet :: "'sc PacketRandom"

definition dummy_sphinx_message :: "'sc sphinx_env \<Rightarrow> 'sc CoverDraw \<Rightarrow> WireMessage" where
  "dummy_sphinx_message env d =
     (let fixed = 32 + ROUTING_INFO_SIZE + 16 + WIRE_BODY_SIZE;
          kem_len = KEM_BLOCK_SIZE env;
          total = fixed + kem_len;
          dummy = take (max total 32) (cd_dummy d);
          routing_end = 32 + ROUTING_INFO_SIZE;
          mac_end = routing_end + 16
      in SphinxMsg \<lparr>sp_header = \<lparr>sh_version = SPHINX_VERSION_HYBRID, ephemeral_key = take 32 dummy, sh_session_id = cd_session d,
                      routing_info = take ROUTING_INFO_SIZE (drop 32 dummy), sh_mac = take 16 (drop routing_end dummy)\<rparr>,
                    kem_ciphertexts = take kem_len (drop mac_end dummy), sp_body = drop (mac_end + kem_len) dummy\<rparr>)"

definition valid_cover_message :: "'sc sphinx_env \<Rightarrow> 'sc CoverDraw \<Rightarrow> NodeId \<Rightarrow> RoutingTable \<Rightarrow> WireMessage option" where
  "valid_cover_message env d peer_id table =
     (case get_node table peer_id of
        None \<Rightarrow> None
      | Some peer \<Rightarrow>
          (case kn_kem_public_key peer of
             None \<Rightarrow> None
           | Some peer_kem \<Rightarrow>
               if length peer_kem \<noteq> KEM_PUBLIC_KEY_SIZE (sx_kx env) then None
               else
                 let route = \<lparr>hybrid_hops =
                        [\<lparr>hh_node_id = kn_node_id peer, hh_classical_public_key = kn_public_key peer, hh_kem_public_key = peer_kem\<rparr>,
                         as_hop env (cd_first d), as_hop env (cd_second d)], hybrid_destination = cd_destination d\<rparr>
                 in case create_packet_hybrid env (cd_packet d) route (cd_body d) of Inl _ \<Rightarrow> None | Inr p \<Rightarrow> Some (SphinxMsg p)))"

definition cover_message :: "'sc sphinx_env \<Rightarrow> 'sc CoverDraw \<Rightarrow> NodeId \<Rightarrow> RoutingTable \<Rightarrow> WireMessage" where
  "cover_message env d peer_id table =
     (case valid_cover_message env d peer_id table of Some msg \<Rightarrow> msg | None \<Rightarrow> dummy_sphinx_message env d)"

section \<open>The connection loop\<close>

definition MAX_PENDING :: nat where "MAX_PENDING = 512"

record Shared =
  cover_bucket :: TokenBucket
  total_bytes_sent :: u64
  total_real_bytes_sent :: u64
  total_cover_bytes_sent :: u64
  wire_log :: "(NodeId \<times> bool \<times> bytes) list"   \<comment> \<open>connection, real traffic, frame\<close>

record Conn =
  pending_real :: "WireMessage list"
  bytes_this_interval :: u64
  conn_open :: bool

text \<open>The clock, the padding and the socket, read once per message that is tried; the last three for the
  cover message of the tick.\<close>

record conn_io =
  io_now :: "nat \<Rightarrow> u64"
  io_rnd :: "nat \<Rightarrow> nat \<Rightarrow> bytes"
  io_send_ok :: "nat \<Rightarrow> bool"
  io_cover_now :: u64
  io_cover_rnd :: "nat \<Rightarrow> bytes"
  io_cover_ok :: bool

definition count_real :: "NodeId \<Rightarrow> bytes \<Rightarrow> u64 \<Rightarrow> Shared \<times> Conn \<Rightarrow> Shared \<times> Conn" where
  "count_real peer frame n sc =
     ((fst sc)\<lparr>total_bytes_sent := total_bytes_sent (fst sc) + n, total_real_bytes_sent := total_real_bytes_sent (fst sc) + n,
               wire_log := wire_log (fst sc) @ [(peer, True, frame)]\<rparr>,
      (snd sc)\<lparr>bytes_this_interval := bytes_this_interval (snd sc) + n\<rparr>)"

fun flush_pending ::
  "'sc sphinx_env \<Rightarrow> conn_io \<Rightarrow> NodeId \<Rightarrow> nat \<Rightarrow> WireMessage list \<Rightarrow> Shared \<times> Conn \<Rightarrow> Shared \<times> Conn" where
  "flush_pending env io peer i [] sc = (fst sc, (snd sc)\<lparr>pending_real := []\<rparr>)"
| "flush_pending env io peer i (front # rest) sc =
     (case write_message env (io_rnd io (2 * i)) [] front of
        Inl _ \<Rightarrow> flush_pending env io peer (Suc i) rest sc
      | Inr wire_buf \<Rightarrow>
          (let msg_bytes = word_of_nat (length wire_buf);
               (can_send, bucket) = try_consume (io_now io i) msg_bytes (cover_bucket (fst sc));
               sc = ((fst sc)\<lparr>cover_bucket := bucket\<rparr>, snd sc)
           in if \<not> can_send then (fst sc, (snd sc)\<lparr>pending_real := front # rest\<rparr>)
              else (case write_message env (io_rnd io (2 * i + 1)) [] front of
                      Inl _ \<Rightarrow> flush_pending env io peer (Suc i) rest sc
                    | Inr wire_buf \<Rightarrow>
                        if \<not> io_send_ok io i then (fst sc, (snd sc)\<lparr>pending_real := rest\<rparr>)
                        else flush_pending env io peer (Suc i) rest (count_real peer wire_buf msg_bytes sc))))"

text \<open>A message taken off the channel of the connection.\<close>

definition send_real :: "'sc sphinx_env \<Rightarrow> conn_io \<Rightarrow> NodeId \<Rightarrow> WireMessage \<Rightarrow> Shared \<times> Conn \<Rightarrow> Shared \<times> Conn" where
  "send_real env io peer msg sc =
     (case write_message env (io_rnd io 0) [] msg of
        Inl _ \<Rightarrow> sc
      | Inr wire_buf \<Rightarrow>
          (let msg_bytes = word_of_nat (length wire_buf);
               (can_send, bucket) = try_consume (io_now io 0) msg_bytes (cover_bucket (fst sc));
               sc = ((fst sc)\<lparr>cover_bucket := bucket\<rparr>, snd sc)
           in if can_send then
                (if \<not> io_send_ok io 0 then (fst sc, (snd sc)\<lparr>conn_open := False\<rparr>) else count_real peer wire_buf msg_bytes sc)
              else
                (let queue = pending_real (snd sc);
                     queue = (if MAX_PENDING \<le> length queue then drop 1 queue else queue)
                 in (fst sc, (snd sc)\<lparr>pending_real := queue @ [msg]\<rparr>))))"

definition bucket_cap :: "CoverTrafficConfig \<Rightarrow> u64" where
  "bucket_cap cfg = max (saturating_mul (target_rate_bps cfg) 2) 4096"

text \<open>The tick of a connection while the node has \<open>peers\<close> connections.\<close>

definition cover_tick ::
  "'sc sphinx_env \<Rightarrow> conn_io \<Rightarrow> CoverTrafficConfig \<Rightarrow> u64 \<Rightarrow> 'sc CoverDraw \<Rightarrow> RoutingTable \<Rightarrow> NodeId \<Rightarrow> Shared \<times> Conn \<Rightarrow> Shared \<times> Conn" where
  "cover_tick env io cfg peers draw table peer sc =
     (let sc = ((fst sc)\<lparr>cover_bucket := set_rate (target_rate_bps cfg) (bucket_cap cfg) (cover_bucket (fst sc))\<rparr>, snd sc);
          peer_count = max peers 1;
          total_target = (target_rate_bps cfg * interval_ms cfg) div 1000;
          target_bytes_per_interval = total_target div max peer_count 1;
          sc = flush_pending env io peer 0 (pending_real (snd sc)) sc;
          remaining = saturating_sub target_bytes_per_interval (bytes_this_interval (snd sc))
      in if 0 < remaining \<and> cover_enabled cfg then
           (case write_message env (io_cover_rnd io) [] (cover_message env draw peer table) of
              Inl _ \<Rightarrow> (fst sc, (snd sc)\<lparr>bytes_this_interval := 0\<rparr>)
            | Inr wire_buf \<Rightarrow>
                (let cover_bytes = word_of_nat (length wire_buf);
                     bucket = snd (try_consume (io_cover_now io) cover_bytes (cover_bucket (fst sc)));
                     sc = ((fst sc)\<lparr>cover_bucket := bucket\<rparr>, snd sc)
                 in if \<not> io_cover_ok io then (fst sc, (snd sc)\<lparr>conn_open := False\<rparr>)
                    else ((fst sc)\<lparr>total_bytes_sent := total_bytes_sent (fst sc) + cover_bytes,
                                   total_cover_bytes_sent := total_cover_bytes_sent (fst sc) + cover_bytes,
                                   wire_log := wire_log (fst sc) @ [(peer, False, wire_buf)]\<rparr>,
                          (snd sc)\<lparr>bytes_this_interval := 0\<rparr>)))
         else (fst sc, (snd sc)\<lparr>bytes_this_interval := 0\<rparr>))"

text \<open>A node with any number of connections: each step belongs to one of them.\<close>

datatype 'sc shaper_event =
    Outgoing NodeId conn_io WireMessage
  | Tick NodeId conn_io u64 "'sc CoverDraw" RoutingTable

fun event_peer :: "'sc shaper_event \<Rightarrow> NodeId" where
  "event_peer (Outgoing peer _ _) = peer"
| "event_peer (Tick peer _ _ _ _) = peer"

fun event_io :: "'sc shaper_event \<Rightarrow> conn_io" where
  "event_io (Outgoing _ io _) = io"
| "event_io (Tick _ io _ _ _) = io"

fun conn_step :: "'sc sphinx_env \<Rightarrow> CoverTrafficConfig \<Rightarrow> 'sc shaper_event \<Rightarrow> Shared \<times> Conn \<Rightarrow> Shared \<times> Conn" where
  "conn_step env cfg (Outgoing peer io msg) sc = send_real env io peer msg sc"
| "conn_step env cfg (Tick peer io peers draw table) sc = cover_tick env io cfg peers draw table peer sc"

definition shaper_step ::
  "'sc sphinx_env \<Rightarrow> CoverTrafficConfig \<Rightarrow> 'sc shaper_event \<Rightarrow> Shared \<times> (NodeId \<Rightarrow> Conn) \<Rightarrow> Shared \<times> (NodeId \<Rightarrow> Conn)" where
  "shaper_step env cfg ev s =
     (let peer = event_peer ev in
      if \<not> conn_open (snd s peer) then s
      else (case conn_step env cfg ev (fst s, snd s peer) of (sh, c) \<Rightarrow> (sh, (snd s)(peer := c))))"

definition Conn_new :: Conn where
  "Conn_new = \<lparr>pending_real = [], bytes_this_interval = 0, conn_open = True\<rparr>"

definition Shared_new :: "CoverTrafficConfig \<Rightarrow> u64 \<Rightarrow> Shared" where
  "Shared_new cfg now_secs = \<lparr>cover_bucket = TokenBucket_new (bucket_cap cfg) (target_rate_bps cfg) now_secs,
     total_bytes_sent = 0, total_real_bytes_sent = 0, total_cover_bytes_sent = 0, wire_log = []\<rparr>"

definition shaper_run ::
  "'sc sphinx_env \<Rightarrow> CoverTrafficConfig \<Rightarrow> u64 \<Rightarrow> 'sc shaper_event list \<Rightarrow> Shared \<times> (NodeId \<Rightarrow> Conn)" where
  "shaper_run env cfg now_secs evs = fold (shaper_step env cfg) evs (Shared_new cfg now_secs, \<lambda>_. Conn_new)"

section \<open>The rate\<close>

definition logged :: "(bool \<Rightarrow> bool) \<Rightarrow> Shared \<Rightarrow> nat" where
  "logged P sh = sum_list (map (\<lambda>(_, r, frame). if P r then length frame else 0) (wire_log sh))"

definition counters_exact :: "Shared \<Rightarrow> bool" where
  "counters_exact sh \<longleftrightarrow> total_real_bytes_sent sh = word_of_nat (logged (\<lambda>r. r) sh) \<and>
     total_cover_bytes_sent sh = word_of_nat (logged Not sh) \<and> total_bytes_sent sh = total_real_bytes_sent sh + total_cover_bytes_sent sh"

text \<open>What has been sent, \<open>n\<close> bytes, and what could still be sent at once never exceeds the burst and the refills.\<close>

definition bucket_ok :: "CoverTrafficConfig \<Rightarrow> u64 \<Rightarrow> nat \<Rightarrow> nat \<Rightarrow> TokenBucket \<Rightarrow> bool" where
  "bucket_ok cfg start tmax n b \<longleftrightarrow>
     refill_rate b = target_rate_bps cfg \<and> max_tokens b = bucket_cap cfg \<and>
     start \<le> last_refill b \<and> unat (last_refill b) \<le> max (unat start) tmax \<and>
     1000 * (n + unat (tokens b)) \<le> 1000 * unat (bucket_cap cfg) + unat (target_rate_bps cfg) * (unat (last_refill b) - unat start)"

lemma unat_saturating_mul_le: "unat (saturating_mul a b) \<le> unat a * unat b"
  by (simp add: unat_saturating_mul)

lemma refill_cases:
  "refill now b = b \<or> last_refill b < now \<and> last_refill (refill now b) = now \<and>
     unat (tokens (refill now b)) \<le> unat (tokens b) + (unat now - unat (last_refill b)) * unat (refill_rate b) div 1000 \<and>
     refill_rate (refill now b) = refill_rate b \<and> max_tokens (refill now b) = max_tokens b"
proof (cases "0 < saturating_sub now (last_refill b)")
  case True
  let ?e = "saturating_sub now (last_refill b)"
  have lt: "last_refill b < now" using True by (simp add: saturating_sub_def split: if_splits)
  let ?add = "saturating_add (tokens b) (saturating_mul ?e (refill_rate b) div 1000)"
  have "unat (min ?add (max_tokens b)) \<le> unat ?add" by (simp add: min_def word_le_nat_alt)
  also have "\<dots> \<le> unat (tokens b) + unat (saturating_mul ?e (refill_rate b) div 1000)" by (simp add: unat_saturating_add)
  also have "unat (saturating_mul ?e (refill_rate b) div 1000) = unat (saturating_mul ?e (refill_rate b)) div 1000"
    by (simp add: unat_div)
  also have "\<dots> \<le> (unat now - unat (last_refill b)) * unat (refill_rate b) div 1000"
    using unat_saturating_mul_le [of ?e "refill_rate b"] by (intro div_le_mono) simp
  finally have "unat (min ?add (max_tokens b)) \<le> unat (tokens b) + (unat now - unat (last_refill b)) * unat (refill_rate b) div 1000"
    by simp
  with lt True show ?thesis by (simp add: refill_def Let_def)
qed (simp add: refill_def Let_def)

lemma bucket_ok_refill:
  assumes "bucket_ok cfg start tmax n b" "unat now \<le> tmax"
  shows "bucket_ok cfg start tmax n (refill now b)"
  using refill_cases [of now b]
proof (elim disjE conjE)
  assume r: "last_refill b < now" "last_refill (refill now b) = now" "refill_rate (refill now b) = refill_rate b"
    "max_tokens (refill now b) = max_tokens b"
    "unat (tokens (refill now b)) \<le> unat (tokens b) + (unat now - unat (last_refill b)) * unat (refill_rate b) div 1000"
  let ?r = "unat (target_rate_bps cfg)" and ?l = "unat (last_refill b)"
  have b: "refill_rate b = target_rate_bps cfg" "max_tokens b = bucket_cap cfg" "start \<le> last_refill b"
    "1000 * (n + unat (tokens b)) \<le> 1000 * unat (bucket_cap cfg) + ?r * (?l - unat start)"
    using assms(1) by (simp_all add: bucket_ok_def)
  have le: "unat start \<le> ?l" "?l \<le> unat now" using b(3) r(1) by (simp_all add: word_le_nat_alt word_less_nat_alt)
  have "1000 * ((unat now - ?l) * ?r div 1000) \<le> ?r * (unat now - ?l)" by (simp add: mult.commute)
  moreover have "?r * (?l - unat start) + ?r * (unat now - ?l) = ?r * (unat now - unat start)"
    using le by (simp add: distrib_left [symmetric])
  ultimately have "1000 * (n + unat (tokens (refill now b))) \<le> 1000 * unat (bucket_cap cfg) + ?r * (unat now - unat start)"
    using r(5) b(1,4) by simp
  moreover have "start \<le> now" using b(3) r(1) by simp
  ultimately show ?thesis using r(2-4) b(1,2) assms(2) by (simp add: bucket_ok_def)
qed (use assms in simp)

lemma bucket_ok_less: "bucket_ok cfg start tmax n b \<Longrightarrow> m \<le> n \<Longrightarrow> bucket_ok cfg start tmax m b"
  by (simp add: bucket_ok_def)

lemma bucket_ok_consume:
  assumes "bucket_ok cfg start tmax n b" "unat now \<le> tmax"
  shows "try_consume now k b = (True, b') \<Longrightarrow> bucket_ok cfg start tmax (n + unat k) b'"
    and "bucket_ok cfg start tmax n (snd (try_consume now k b))"
proof -
  have r: "bucket_ok cfg start tmax n (refill now b)" by (rule bucket_ok_refill [OF assms])
  show 1: "bucket_ok cfg start tmax (n + unat k) b'" if "try_consume now k b = (True, b')" for b'
    using r that by (auto simp: try_consume_def Let_def bucket_ok_def word_le_nat_alt unat_sub split: if_splits)
  show "bucket_ok cfg start tmax n (snd (try_consume now k b))"
  proof (cases "fst (try_consume now k b)")
    case True
    then have "try_consume now k b = (True, snd (try_consume now k b))" by (metis prod.collapse)
    from 1 [OF this] show ?thesis by (rule bucket_ok_less) simp
  next
    case False
    then show ?thesis using r by (auto simp: try_consume_def Let_def split: if_splits)
  qed
qed

lemma bucket_ok_set_rate: "bucket_ok cfg start tmax n b \<Longrightarrow> bucket_ok cfg start tmax n (set_rate (target_rate_bps cfg) (bucket_cap cfg) b)"
  by (auto simp: bucket_ok_def set_rate_def min_def word_le_nat_alt)

section \<open>Frames\<close>

definition sized_io :: "conn_io \<Rightarrow> bool" where
  "sized_io io \<longleftrightarrow> (\<forall>i n. length (io_rnd io i n) = n) \<and> (\<forall>n. length (io_cover_rnd io n) = n)"

lemma written_size:
  assumes "write_message env r [] msg = Inr f" "\<And>n. length (r n) = n" "ml_kem_768 (sx_kx env)"
  shows "unat (word_of_nat (length f) :: u64) = length f"
proof -
  have "PADDED_MESSAGE_SIZE env = 6735" "HYBRID_MAX_MESSAGE_SIZE env = 6735" using assms(3) by (simp_all add: wire_sizes ml_kem_768_def)
  then have "length f \<le> 6740"
    using assms(1) by (auto simp: write_message_def serialize_message_def Let_def split: sum.splits prod.splits if_splits WireMessage.splits)
  then show ?thesis by (simp add: unat_of_nat)
qed

lemma rewritten_size:
  assumes "write_message env r [] msg = Inr f" "write_message env r' [] msg = Inr f'" "\<And>n. length (r n) = n" "\<And>n. length (r' n) = n"
  shows "length f' = length f"
  using assms
  by (cases msg) (auto simp: write_message_def serialize_message_def pad_handshake_def session_reply_serialize_def Let_def split: sum.splits if_splits)

section \<open>What every step keeps\<close>

definition shared_ok :: "CoverTrafficConfig \<Rightarrow> u64 \<Rightarrow> nat \<Rightarrow> Shared \<Rightarrow> bool" where
  "shared_ok cfg start tmax sh \<longleftrightarrow> bucket_ok cfg start tmax (logged (\<lambda>r. r) sh) (cover_bucket sh) \<and> counters_exact sh"

lemma logged_simps [simp]:
  "logged P (sh\<lparr>cover_bucket := b\<rparr>) = logged P sh"
  "logged P (sh\<lparr>total_bytes_sent := x, total_real_bytes_sent := y, wire_log := wire_log sh @ [(p, r, f)]\<rparr>) = logged P sh + (if P r then length f else 0)"
  "logged P (sh\<lparr>total_bytes_sent := x, total_cover_bytes_sent := y, wire_log := wire_log sh @ [(p, r, f)]\<rparr>) = logged P sh + (if P r then length f else 0)"
  by (simp_all add: logged_def)

lemma shared_ok_count_real:
  assumes "counters_exact (fst sc)" "bucket_ok cfg start tmax (logged (\<lambda>r. r) (fst sc) + length f) (cover_bucket (fst sc))"
  shows "shared_ok cfg start tmax (fst (count_real peer f (word_of_nat (length f)) sc))"
  using assms by (simp add: shared_ok_def count_real_def counters_exact_def)

lemma counters_exact_bucket [simp]: "counters_exact (sh\<lparr>cover_bucket := b\<rparr>) = counters_exact sh"
  by (simp add: counters_exact_def)

lemma flush_pending_ok:
  assumes io: "sized_io io" "\<And>i. unat (io_now io i) \<le> tmax" and kem: "ml_kem_768 (sx_kx env)" and ok: "shared_ok cfg start tmax (fst sc)"
  shows "shared_ok cfg start tmax (fst (flush_pending env io peer i q sc)) \<and>
    length (pending_real (snd (flush_pending env io peer i q sc))) \<le> length q \<and>
    conn_open (snd (flush_pending env io peer i q sc)) = conn_open (snd sc)"
  using ok
proof (induction q arbitrary: i sc)
  case (Cons front rest)
  note I = Cons.IH [of _ "Suc i"]
  have rnd: "\<And>k n. length (io_rnd io k n) = n" using io(1) by (simp add: sized_io_def)
  show ?case
  proof (cases "write_message env (io_rnd io (2 * i)) [] front")
    case (Inl e)
    then show ?thesis using I [OF Cons.prems] by auto
  next
    case (Inr f)
    obtain can b where c: "try_consume (io_now io i) (word_of_nat (length f)) (cover_bucket (fst sc)) = (can, b)" by fastforce
    let ?sc = "((fst sc)\<lparr>cover_bucket := b\<rparr>, snd sc)"
    have B: "bucket_ok cfg start tmax (logged (\<lambda>r. r) (fst sc)) (cover_bucket (fst sc))" "counters_exact (fst sc)"
      using Cons.prems by (simp_all add: shared_ok_def)
    have keep: "shared_ok cfg start tmax (fst ?sc)"
      using bucket_ok_consume(2) [OF B(1) io(2), of i "word_of_nat (length f)"] c B(2) by (simp add: shared_ok_def)
    show ?thesis
    proof (cases can)
      case False
      then show ?thesis using keep Inr c by simp
    next
      case True
      have paid: "bucket_ok cfg start tmax (logged (\<lambda>r. r) (fst sc) + length f) b"
        using bucket_ok_consume(1) [OF B(1) io(2), of i "word_of_nat (length f)" b] c True written_size [OF Inr rnd kem] by simp
      show ?thesis
      proof (cases "write_message env (io_rnd io (Suc (2 * i))) [] front")
        case (Inl e)
        then show ?thesis using I [OF keep] Inr c True by auto
      next
        case f': (Inr f')
        have l: "length f' = length f" by (rule rewritten_size [OF Inr f' rnd rnd])
        have "shared_ok cfg start tmax (fst (count_real peer f' (word_of_nat (length f)) ?sc))"
          using shared_ok_count_real [of ?sc cfg start tmax f' peer] paid B(2) l by simp
        from I [OF this] show ?thesis using f' keep Inr c True by (cases "io_send_ok io i") (auto simp: count_real_def Let_def)
      qed
    qed
  qed
qed simp

lemma send_real_ok:
  assumes io: "sized_io io" "\<And>i. unat (io_now io i) \<le> tmax" and kem: "ml_kem_768 (sx_kx env)"
    and ok: "shared_ok cfg start tmax (fst sc)" "length (pending_real (snd sc)) \<le> MAX_PENDING"
  shows "shared_ok cfg start tmax (fst (send_real env io peer msg sc)) \<and> length (pending_real (snd (send_real env io peer msg sc))) \<le> MAX_PENDING"
proof (cases "write_message env (io_rnd io 0) [] msg")
  case (Inl e)
  then show ?thesis using ok by (simp add: send_real_def)
next
  case (Inr f)
  obtain can b where c: "try_consume (io_now io 0) (word_of_nat (length f)) (cover_bucket (fst sc)) = (can, b)" by fastforce
  have rnd: "\<And>k n. length (io_rnd io k n) = n" using io(1) by (simp add: sized_io_def)
  have B: "bucket_ok cfg start tmax (logged (\<lambda>r. r) (fst sc)) (cover_bucket (fst sc))" "counters_exact (fst sc)"
    using ok by (simp_all add: shared_ok_def)
  have keep: "shared_ok cfg start tmax ((fst sc)\<lparr>cover_bucket := b\<rparr>)"
    using bucket_ok_consume(2) [OF B(1) io(2), of 0 "word_of_nat (length f)"] c B(2) by (simp add: shared_ok_def)
  have "shared_ok cfg start tmax (fst (count_real peer f (word_of_nat (length f)) ((fst sc)\<lparr>cover_bucket := b\<rparr>, snd sc)))" if can
    using shared_ok_count_real [of "((fst sc)\<lparr>cover_bucket := b\<rparr>, snd sc)"] B(2) c that written_size [OF Inr rnd kem]
      bucket_ok_consume(1) [OF B(1) io(2), of 0 "word_of_nat (length f)" b] by simp
  with keep ok(2) Inr c show ?thesis by (auto simp: send_real_def count_real_def MAX_PENDING_def Let_def)
qed

lemma cover_tick_ok:
  assumes io: "sized_io io" "\<And>i. unat (io_now io i) \<le> tmax" "unat (io_cover_now io) \<le> tmax" and kem: "ml_kem_768 (sx_kx env)"
    and ok: "shared_ok cfg start tmax (fst sc)" "length (pending_real (snd sc)) \<le> MAX_PENDING"
  shows "shared_ok cfg start tmax (fst (cover_tick env io cfg peers draw table peer sc)) \<and>
    length (pending_real (snd (cover_tick env io cfg peers draw table peer sc))) \<le> MAX_PENDING"
proof -
  define sc0 where "sc0 = ((fst sc)\<lparr>cover_bucket := set_rate (target_rate_bps cfg) (bucket_cap cfg) (cover_bucket (fst sc))\<rparr>, snd sc)"
  define sc1 where "sc1 = flush_pending env io peer 0 (pending_real (snd sc0)) sc0"
  have "shared_ok cfg start tmax (fst sc0)"
    using ok(1) by (simp add: sc0_def shared_ok_def bucket_ok_set_rate)
  from flush_pending_ok [OF io(1,2) kem this, of peer 0 "pending_real (snd sc0)"] ok(2)
  have s1: "shared_ok cfg start tmax (fst sc1)" "length (pending_real (snd sc1)) \<le> MAX_PENDING" by (auto simp: sc1_def sc0_def)
  let ?w = "write_message env (io_cover_rnd io) [] (cover_message env draw peer table)"
  have "shared_ok cfg start tmax ((fst sc1)\<lparr>cover_bucket := snd (try_consume (io_cover_now io) n (cover_bucket (fst sc1)))\<rparr>)" for n
    using s1(1) bucket_ok_consume(2) [OF _ io(3)] by (simp add: shared_ok_def)
  then have cov: "shared_ok cfg start tmax ((fst sc1)\<lparr>cover_bucket := snd (try_consume (io_cover_now io) n (cover_bucket (fst sc1))),
      total_bytes_sent := total_bytes_sent (fst sc1) + word_of_nat (length f), total_cover_bytes_sent := total_cover_bytes_sent (fst sc1) + word_of_nat (length f),
      wire_log := wire_log (fst sc1) @ [(peer, False, f)]\<rparr>)"
    and keep: "shared_ok cfg start tmax ((fst sc1)\<lparr>cover_bucket := snd (try_consume (io_cover_now io) n (cover_bucket (fst sc1)))\<rparr>)" for n f
    by (simp_all add: shared_ok_def counters_exact_def logged_def)
  show ?thesis
    using s1 cov keep unfolding cover_tick_def Let_def sc0_def [symmetric] sc1_def [symmetric]
    by (cases ?w) simp_all
qed

definition event_ok :: "nat \<Rightarrow> 'sc shaper_event \<Rightarrow> bool" where
  "event_ok tmax ev \<longleftrightarrow> sized_io (event_io ev) \<and> (\<forall>i. unat (io_now (event_io ev) i) \<le> tmax) \<and> unat (io_cover_now (event_io ev)) \<le> tmax"

definition node_ok :: "CoverTrafficConfig \<Rightarrow> u64 \<Rightarrow> nat \<Rightarrow> Shared \<times> (NodeId \<Rightarrow> Conn) \<Rightarrow> bool" where
  "node_ok cfg start tmax s \<longleftrightarrow> shared_ok cfg start tmax (fst s) \<and> (\<forall>peer. length (pending_real (snd s peer)) \<le> MAX_PENDING)"

lemma shaper_step_ok:
  assumes kem: "ml_kem_768 (sx_kx env)" and ev: "event_ok tmax ev" and ok: "node_ok cfg start tmax s"
  shows "node_ok cfg start tmax (shaper_step env cfg ev s)"
proof -
  let ?sc = "(fst s, snd s (event_peer ev))"
  have io: "sized_io (event_io ev)" "\<And>i. unat (io_now (event_io ev) i) \<le> tmax" "unat (io_cover_now (event_io ev)) \<le> tmax"
    using ev by (simp_all add: event_ok_def)
  have s: "shared_ok cfg start tmax (fst ?sc)" "length (pending_real (snd ?sc)) \<le> MAX_PENDING" using ok by (simp_all add: node_ok_def)
  have "shared_ok cfg start tmax (fst (conn_step env cfg ev ?sc)) \<and> length (pending_real (snd (conn_step env cfg ev ?sc))) \<le> MAX_PENDING"
    using send_real_ok [OF io(1,2) kem s] cover_tick_ok [OF io kem s] by (cases ev) simp_all
  then show ?thesis using ok by (auto simp: shaper_step_def node_ok_def Let_def split: prod.splits)
qed

lemma shaper_fold_ok:
  "ml_kem_768 (sx_kx env) \<Longrightarrow> \<forall>ev\<in>set evs. event_ok tmax ev \<Longrightarrow> node_ok cfg start tmax s \<Longrightarrow>
     node_ok cfg start tmax (fold (shaper_step env cfg) evs s)"
  by (induction evs arbitrary: s) (simp_all add: shaper_step_ok)

text \<open>C28 (bounds). However many connections a node has and in whatever order they send, queue and tick: up to any
time, all real bytes the node has put on the wire are at most the burst capacity plus the configured rate times
the time since the start (in bytes and milliseconds); no connection ever queues more than 512 messages, and the
three byte counters are exactly the real, the cover and all bytes sent, modulo their width.\<close>

theorem real_traffic_shaped:
  assumes "ml_kem_768 (sx_kx env)" "\<forall>ev\<in>set evs. event_ok tmax ev" "shaper_run env cfg now_secs evs = (sh, conns)"
  shows "1000 * logged (\<lambda>r. r) sh \<le>
      1000 * unat (bucket_cap cfg) + unat (target_rate_bps cfg) * (tmax - unat (saturating_mul now_secs 1000)) \<and>
    (\<forall>peer. length (pending_real (conns peer)) \<le> MAX_PENDING) \<and>
    total_real_bytes_sent sh = word_of_nat (logged (\<lambda>r. r) sh) \<and> total_cover_bytes_sent sh = word_of_nat (logged Not sh) \<and>
    total_bytes_sent sh = total_real_bytes_sent sh + total_cover_bytes_sent sh"
proof -
  let ?start = "saturating_mul now_secs 1000" and ?r = "unat (target_rate_bps cfg)" and ?b = "cover_bucket sh"
  have "node_ok cfg ?start tmax (Shared_new cfg now_secs, \<lambda>_. Conn_new)"
    by (simp add: node_ok_def shared_ok_def bucket_ok_def counters_exact_def logged_def Shared_new_def Conn_new_def TokenBucket_new_def)
  from shaper_fold_ok [OF assms(1,2) this] have ok: "node_ok cfg ?start tmax (sh, conns)"
    using assms(3) by (simp add: shaper_run_def)
  then have b: "1000 * (logged (\<lambda>r. r) sh + unat (tokens ?b)) \<le> 1000 * unat (bucket_cap cfg) + ?r * (unat (last_refill ?b) - unat ?start)"
    "unat (last_refill ?b) \<le> max (unat ?start) tmax" by (simp_all add: node_ok_def shared_ok_def bucket_ok_def)
  have "?r * (unat (last_refill ?b) - unat ?start) \<le> ?r * (tmax - unat ?start)" using b(2) by (intro mult_le_mono2) linarith
  then have "1000 * unat (bucket_cap cfg) + ?r * (unat (last_refill ?b) - unat ?start) \<le> 1000 * unat (bucket_cap cfg) + ?r * (tmax - unat ?start)"
    by (rule add_left_mono)
  moreover have "1000 * logged (\<lambda>r. r) sh \<le> 1000 * (logged (\<lambda>r. r) sh + unat (tokens ?b))" by simp
  ultimately have "1000 * logged (\<lambda>r. r) sh \<le> 1000 * unat (bucket_cap cfg) + ?r * (tmax - unat ?start)" using b(1) le_trans by blast
  with ok show ?thesis by (simp add: node_ok_def shared_ok_def counters_exact_def)
qed

definition demo_io :: "u64 \<Rightarrow> conn_io" where
  "demo_io now = \<lparr>io_now = \<lambda>_. now, io_rnd = \<lambda>_ n. replicate n 7, io_send_ok = \<lambda>_. True, io_cover_now = now,
     io_cover_rnd = \<lambda>n. replicate n 9, io_cover_ok = True\<rparr>"

definition demo_outgoing :: "u8 shaper_event list" where
  "demo_outgoing = map (\<lambda>k. Outgoing [k] (demo_io 2500) (HandshakeMsg (demo_handshake k))) [1, 2, 3]"

theorem real_traffic_shaped_witness:
  "1000 * logged (\<lambda>r. r) (fst (shaper_run wire_env CoverTrafficConfig_default 2 demo_outgoing)) \<le> 1000 * (200 * 1024) + 100 * 1024 * 500 \<and>
   length (pending_real (snd (shaper_run wire_env CoverTrafficConfig_default 2 demo_outgoing) [1])) \<le> 512"
proof -
  obtain sh conns where r: "shaper_run wire_env CoverTrafficConfig_default 2 demo_outgoing = (sh, conns)" by fastforce
  have "ml_kem_768 (sx_kx wire_env)" using wire_kx_correct(2) by (simp add: wire_env_def)
  moreover have "\<forall>ev\<in>set demo_outgoing. event_ok 2500 ev" by (simp add: demo_outgoing_def event_ok_def sized_io_def demo_io_def)
  ultimately have "1000 * logged (\<lambda>r. r) sh \<le> 1000 * unat (bucket_cap CoverTrafficConfig_default) +
      unat (target_rate_bps CoverTrafficConfig_default) * (2500 - unat (saturating_mul 2 1000)) \<and> length (pending_real (conns [1])) \<le> MAX_PENDING"
    using real_traffic_shaped [OF _ _ r] by blast
  moreover have "unat (bucket_cap CoverTrafficConfig_default) = 200 * 1024" "unat (target_rate_bps CoverTrafficConfig_default) = 100 * 1024"
    "unat (saturating_mul 2 1000) = 2000"
    by (simp_all add: bucket_cap_def CoverTrafficConfig_default_def DEFAULT_SEND_RATE_BPS_def saturating_mul_def)
  ultimately show ?thesis using r by (simp add: MAX_PENDING_def)
qed

text \<open>A cover message is one whole frame whatever the budget, and it is sent whether or not the bucket can pay for it:
neither the tokens nor the size of the remaining budget occur below. So cover traffic alone may exceed the rate
(a positive share of one byte costs a frame on every connection) and may also stay below it (a large budget is
filled with one frame).\<close>

lemma cover_frame_regardless:
  assumes kem: "ml_kem_768 (sx_kx env)" and io: "sized_io io" "io_cover_ok io" and idle: "pending_real c = []" "bytes_this_interval c = 0"
    and cfg: "cover_enabled cfg" "0 < (target_rate_bps cfg * interval_ms cfg) div 1000 div max (max peers 1) 1"
    and draw: "get_node table peer = None" "length (cd_dummy d) = 6693" "length (cd_session d) = 32"
  shows "\<exists>frame. length frame = 6735 \<and> wire_log (fst (cover_tick env io cfg peers d table peer (sh, c))) = wire_log sh @ [(peer, False, frame)]"
proof -
  have kem': "KEM_BLOCK_SIZE env = 5440" "HYBRID_MAX_MESSAGE_SIZE env = 6735" "KEM_CIPHERTEXT_SIZE (sx_kx env) = 1088" using kem by (simp_all add: wire_sizes ml_kem_768_def)
  have m: "cover_message env d peer table = dummy_sphinx_message env d" using draw(1) by (simp add: cover_message_def valid_cover_message_def)
  have "\<exists>frame. length frame = 6735 \<and> write_message env (io_cover_rnd io) [] (dummy_sphinx_message env d) = Inr frame"
    using draw(2,3)
    by (simp add: dummy_sphinx_message_def write_message_def serialize_message_def serialize_sphinx_def Let_def kem' sphinx_sizes)
  then obtain frame where f: "length frame = 6735" "write_message env (io_cover_rnd io) [] (dummy_sphinx_message env d) = Inr frame" by blast
  show ?thesis using f io(2) idle cfg by (simp add: cover_tick_def Let_def m saturating_sub_def)
qed

end
