(* ===== verification/Transport.thy ===== *)
theory Transport
  imports MeshRetrieval Wire Swap Heartbeat Rotation
begin

text \<open>
  \<^verbatim>\<open>crates/static-mesh/src/transport.rs\<close>, the state of a node's transport and the encrypted handshake:
  the replay cache of nonces, the signed identity, key continuity against the routing table, the four
  messages of \<open>handle_incoming_connection\<close> and \<open>connect_to_peer\<close> and what both do when they succeed.
  Locks, tasks and sockets are left out: a handler is one transition of \<open>TransportState\<close>, a channel is
  the list of messages sent into it, a socket the list of reads it delivers. The clock and all random
  draws are arguments. The results: two honest nodes always finish the handshake over any cutting of
  the byte stream, with each other's keys in their routing tables; keys once pinned are never replaced;
  the nonce caches stay bounded and refuse replays.
\<close>

section \<open>State\<close>

definition SURB_REQUEST_TIMEOUT_SECS :: u64 where "SURB_REQUEST_TIMEOUT_SECS = 120"
definition HANDSHAKE_NONCE_TTL_SECS :: u64 where "HANDSHAKE_NONCE_TTL_SECS = 300"
definition MAX_HANDSHAKE_NONCES :: nat where "MAX_HANDSHAKE_NONCES = 4096"

record InboundMessage =
  im_from :: NodeId
  im_message :: WireMessage
  is_reconnection :: bool

datatype TransportError =
    Io
  | WireFailure WireError
  | SphinxFault SphinxError
  | ConnectionNotFound NodeId
  | HandshakeFailed string
  | ChannelSend

text \<open>What the transport calls and does not define: the curve, hashes and ciphers of the Sphinx layer,
  Ed25519, the hash of the storage layer, and \<open>serde_json\<close> for each message it sends.\<close>

record ('sc, 'sk) transport_env =
  te_sphinx :: "'sc sphinx_env"
  te_ed :: "'sk ed25519"
  te_storage :: storage_env
  te_gossip :: gossip_env
  accept_json :: "SwapAccept \<Rightarrow> bytes option"
  reject_json :: "SwapReject \<Rightarrow> bytes option"
  commit_json :: "SwapCommit \<Rightarrow> bytes option"
  abort_json :: "SwapAbort \<Rightarrow> bytes option"
  gossip_json :: "PeerGossip \<Rightarrow> bytes option"
  prepayment_json :: "Prepayment \<Rightarrow> bytes option"
  reconciliation_json :: "AccountingReconciliation \<Rightarrow> bytes option"

abbreviation te_kx :: "('sc, 'sk) transport_env \<Rightarrow> key_exchange" where
  "te_kx env \<equiv> sx_kx (te_sphinx env)"

text \<open>The cover traffic fields are in \<^verbatim>\<open>Shaper\<close>. A connection is the list of messages queued on its channel.\<close>

record ('sc, 'sk) TransportState =
  ts_node_id :: NodeId
  mix_node :: "'sc MixNode"
  connections :: "(NodeId, WireMessage list) hashmap"
  inbound :: "InboundMessage list"
  routing_table :: RoutingTable
  swap_state :: SwapState
  lease_manager :: "LeaseManager option"
  pending_swap_timeout_secs :: u64
  storage_capacity :: StorageCapacity
  storage_key :: bytes
  chunk_holder :: ChunkHolder
  ts_kem :: bytes
  identity_key :: 'sk
  identity_public_key :: bytes
  peer_chunk_counts :: "(NodeId, nat) hashmap"
  previously_connected :: "NodeId set"
  serve_enabled :: bool
  peer_activity :: "(NodeId, u64) hashmap"
  ts_compute_enabled :: bool
  ts_compute_capacity :: u8
  handshake_nonces :: "(bytes, u64) hashmap"
  maintenance_nonces :: "(bytes, u64) hashmap"
  pending_requests :: ReassemblyManager

definition create_transport_state ::
  "('sc, 'sk) transport_env \<Rightarrow> bytes \<Rightarrow> bytes \<Rightarrow> 'sk \<Rightarrow> NodeId \<Rightarrow> 'sc MixNode \<Rightarrow> StorageCapacity \<Rightarrow> SwapState \<Rightarrow>
     LeaseManager option \<Rightarrow> ('sc, 'sk) TransportState" where
  "create_transport_state env storage_key_bytes kem_secret_bytes signing_key node_id mix capacity swaps lm =
     \<lparr>ts_node_id = node_id, mix_node = mix, connections = [], inbound = [], routing_table = RoutingTable_new node_id,
      swap_state = swaps, lease_manager = lm, pending_swap_timeout_secs = DEFAULT_PENDING_SWAP_TIMEOUT_SECS,
      storage_capacity = capacity, storage_key = storage_key_bytes, chunk_holder = ChunkHolder_new, ts_kem = kem_secret_bytes,
      identity_key = signing_key, identity_public_key = ed_public (te_ed env) signing_key, peer_chunk_counts = [],
      previously_connected = {}, serve_enabled = True, peer_activity = [], ts_compute_enabled = False, ts_compute_capacity = 0,
      handshake_nonces = [], maintenance_nonces = [], pending_requests = ReassemblyManager_new\<rparr>"

definition note_peer_activity :: "u64 \<Rightarrow> NodeId \<Rightarrow> ('sc, 'sk) TransportState \<Rightarrow> ('sc, 'sk) TransportState" where
  "note_peer_activity now peer s = s\<lparr>peer_activity := hm_insert peer now (peer_activity s)\<rparr>"

definition peer_activity_snapshot :: "('sc, 'sk) TransportState \<Rightarrow> (NodeId, u64) hashmap" where
  "peer_activity_snapshot s = peer_activity s"

section \<open>Replay caches\<close>

definition nonce_check :: "u64 \<Rightarrow> bytes \<Rightarrow> (bytes, u64) hashmap \<Rightarrow> bool \<times> (bytes, u64) hashmap" where
  "nonce_check now nonce cache =
     (let cache = hm_retain (\<lambda>_ ts. saturating_sub now ts \<le> HANDSHAKE_NONCE_TTL_SECS) cache in
      if hm_contains cache nonce then (False, cache)
      else
        let cache = (if MAX_HANDSHAKE_NONCES \<le> hm_len cache then
                       (case min_entry cache of Some (oldest, _) \<Rightarrow> hm_remove oldest cache | None \<Rightarrow> cache)
                     else cache)
        in (True, hm_insert nonce now cache))"

definition check_handshake_nonce :: "u64 \<Rightarrow> bytes \<Rightarrow> ('sc, 'sk) TransportState \<Rightarrow> bool \<times> ('sc, 'sk) TransportState" where
  "check_handshake_nonce now nonce s =
     (case nonce_check now nonce (handshake_nonces s) of (fresh, cache) \<Rightarrow> (fresh, s\<lparr>handshake_nonces := cache\<rparr>))"

definition check_maintenance_nonce :: "u64 \<Rightarrow> bytes \<Rightarrow> ('sc, 'sk) TransportState \<Rightarrow> bool \<times> ('sc, 'sk) TransportState" where
  "check_maintenance_nonce now nonce s =
     (case nonce_check now nonce (maintenance_nonces s) of (fresh, cache) \<Rightarrow> (fresh, s\<lparr>maintenance_nonces := cache\<rparr>))"

section \<open>Identities\<close>

definition signed_handshake :: "('sc, 'sk) transport_env \<Rightarrow> bytes \<Rightarrow> ('sc, 'sk) TransportState \<Rightarrow> Handshake" where
  "signed_handshake env nonce s =
     (let hs = \<lparr>hs_node_id = ts_node_id s, hs_public_key = mn_public_key (mix_node s),
                hs_kem_public_key = Some (kem_public (te_kx env) (ts_kem s)),
                compute_enabled = ts_compute_enabled s, compute_capacity = ts_compute_capacity s,
                hs_identity_public_key = identity_public_key s, hs_nonce = nonce, hs_signature = []\<rparr>
      in hs\<lparr>hs_signature := ed_sign (te_ed env) (identity_key s) (handshake_signing_bytes hs)\<rparr>)"

definition key_continuity :: "RoutingTable \<Rightarrow> Handshake \<Rightarrow> bool" where
  "key_continuity table hs =
     (case get_node table (hs_node_id hs) of
        None \<Rightarrow> True
      | Some known \<Rightarrow>
          if kn_public_key known \<noteq> hs_public_key hs then False
          else (case kn_identity_public_key known of Some stored \<Rightarrow> stored = hs_identity_public_key hs | None \<Rightarrow> True))"

definition verify_handshake ::
  "('sc, 'sk) transport_env \<Rightarrow> u64 \<Rightarrow> Handshake \<Rightarrow> ('sc, 'sk) TransportState \<Rightarrow> bool \<times> ('sc, 'sk) TransportState" where
  "verify_handshake env now hs s =
     (if \<not> handshake_verify (te_ed env) (te_kx env) hs then (False, s)
      else if (case hs_kem_public_key hs of Some k \<Rightarrow> length k | None \<Rightarrow> 0) \<noteq> KEM_PUBLIC_KEY_SIZE (te_kx env) then (False, s)
      else case check_handshake_nonce now (hs_nonce hs) s of
             (False, s) \<Rightarrow> (False, s)
           | (True, s) \<Rightarrow> (key_continuity (routing_table s) hs, s))"

definition known_node_of :: "Handshake \<Rightarrow> bytes \<Rightarrow> KnownNode" where
  "known_node_of hs addr = \<lparr>kn_node_id = hs_node_id hs, kn_public_key = hs_public_key hs, kn_address = addr,
     kn_kem_public_key = hs_kem_public_key hs, kn_compute_enabled = compute_enabled hs, kn_compute_capacity = compute_capacity hs,
     kn_identity_public_key = Some (hs_identity_public_key hs)\<rparr>"

text \<open>The tail of both handshake functions: the peer enters the table, gets a channel and counts as alive;
  a peer that was connected before is announced to the runner.\<close>

definition finish_handshake :: "u64 \<Rightarrow> bytes \<Rightarrow> Handshake \<Rightarrow> ('sc, 'sk) TransportState \<Rightarrow> ('sc, 'sk) TransportState" where
  "finish_handshake now addr hs s =
     (let s = s\<lparr>routing_table := add_node (known_node_of hs addr) (routing_table s)\<rparr>;
          s = s\<lparr>connections := hm_insert (hs_node_id hs) [] (connections s)\<rparr>;
          s = note_peer_activity now (hs_node_id hs) s
      in if hs_node_id hs \<in> previously_connected s then
           s\<lparr>previously_connected := previously_connected s - {hs_node_id hs},
             inbound := inbound s @ [\<lparr>im_from = hs_node_id hs, im_message = HandshakeMsg hs, is_reconnection = True\<rparr>]\<rparr>
         else s)"

text \<open>The end of \<open>connection_loop\<close>.\<close>

definition connection_closed :: "NodeId \<Rightarrow> ('sc, 'sk) TransportState \<Rightarrow> ('sc, 'sk) TransportState" where
  "connection_closed peer_id s =
     s\<lparr>previously_connected := insert peer_id (previously_connected s), connections := hm_remove peer_id (connections s)\<rparr>"

section \<open>The handshake messages\<close>

text \<open>The draws of one side: ephemeral X25519 and KEM secrets, its nonce, the encapsulation randomness, the
  nonce of its signed identity and the AEAD nonce.\<close>

record HandshakeDraw =
  dr_dh :: bytes
  dr_kem :: bytes
  dr_nonce :: bytes
  dr_encaps :: bytes
  dr_hs_nonce :: bytes
  dr_aead :: bytes

record HandshakeSession =
  handshake_secret :: bytes
  session_aad :: bytes

fun read_wire_message :: "'sc sphinx_env \<Rightarrow> bytes \<Rightarrow> bytes list \<Rightarrow> WireMessage option \<times> bytes list" where
  "read_wire_message env read_buf [] = (None, [])"
| "read_wire_message env read_buf (chunk # reads) =
     (case try_read_message env (read_buf @ chunk) of
        (Inr (Some msg), _) \<Rightarrow> (Some msg, reads)
      | (Inr None, buf) \<Rightarrow> read_wire_message env buf reads
      | (Inl _, _) \<Rightarrow> (None, reads))"

definition identity_reply ::
  "('sc, 'sk) transport_env \<Rightarrow> HandshakeDraw \<Rightarrow> HandshakeSession \<Rightarrow> ('sc, 'sk) TransportState \<Rightarrow> WireMessage" where
  "identity_reply env d sess s =
     AuthIdentityMsg (encrypt_identity (sx_hkdf (te_sphinx env)) (sx_aead (te_sphinx env)) (dr_aead d) (handshake_secret sess)
       (signed_handshake env (dr_hs_nonce d) s) (session_aad sess))"

text \<open>The responder: from the hello to the welcome, and from the peer's identity to its own.\<close>

definition server_hello ::
  "('sc, 'sk) transport_env \<Rightarrow> u64 \<Rightarrow> HandshakeDraw \<Rightarrow> WireMessage option \<Rightarrow> ('sc, 'sk) TransportState \<Rightarrow>
     (WireMessage \<times> HandshakeSession) option \<times> ('sc, 'sk) TransportState" where
  "server_hello env now d msg s =
     (case msg of
        Some (HelloMsg hello) \<Rightarrow>
          (case check_handshake_nonce now (hello_nonce hello) s of
             (False, s) \<Rightarrow> (None, s)
           | (True, s) \<Rightarrow>
               (case encapsulate_to (te_kx env) (dr_encaps d) (hello_eph_kem_pub_key hello) of
                  Inl _ \<Rightarrow> (None, s)
                | Inr (kem_shared, kem_ct) \<Rightarrow>
                    let dh_shared = dh (te_kx env) (dr_dh d) (hello_eph_pub_key hello);
                        secret = derive_handshake_secret (sx_hkdf (te_sphinx env)) dh_shared kem_shared;
                        welcome = \<lparr>welcome_eph_pub_key = dh_public (te_kx env) (dr_dh d),
                                   welcome_eph_kem_pub_key = kem_public (te_kx env) (dr_kem d),
                                   welcome_nonce = dr_nonce d, welcome_kem_ciphertext = kem_ct\<rparr>
                    in (Some (WelcomeMsg welcome,
                              \<lparr>handshake_secret = secret, session_aad = handshake_session_aad (hello_nonce hello) (dr_nonce d)\<rparr>), s)))
      | _ \<Rightarrow> (None, s))"

definition peer_identity ::
  "('sc, 'sk) transport_env \<Rightarrow> HandshakeSession \<Rightarrow> EncryptedIdentity \<Rightarrow> Handshake option" where
  "peer_identity env sess enc =
     decrypt_identity (sx_hkdf (te_sphinx env)) (sx_aead (te_sphinx env)) (handshake_secret sess) enc (session_aad sess)"

definition server_identity ::
  "('sc, 'sk) transport_env \<Rightarrow> u64 \<Rightarrow> HandshakeDraw \<Rightarrow> bytes \<Rightarrow> HandshakeSession \<Rightarrow> WireMessage option \<Rightarrow> bool \<Rightarrow>
     ('sc, 'sk) TransportState \<Rightarrow> WireMessage option \<times> ('sc, 'sk) TransportState" where
  "server_identity env now d addr sess msg sent s =
     (case msg of
        Some (AuthIdentityMsg client_enc) \<Rightarrow>
          (case peer_identity env sess client_enc of
             None \<Rightarrow> (None, s)
           | Some client_hs \<Rightarrow>
               (case verify_handshake env now client_hs s of
                  (False, s) \<Rightarrow> (None, s)
                | (True, s) \<Rightarrow>
                    let reply = identity_reply env d sess s in
                    if \<not> sent then (None, s) else (Some reply, finish_handshake now addr client_hs s)))
      | _ \<Rightarrow> (None, s))"

definition handle_incoming_connection ::
  "('sc, 'sk) transport_env \<Rightarrow> u64 \<Rightarrow> HandshakeDraw \<Rightarrow> bytes \<Rightarrow> WireMessage option \<Rightarrow> bool \<Rightarrow> WireMessage option \<Rightarrow> bool \<Rightarrow>
     ('sc, 'sk) TransportState \<Rightarrow> WireMessage list \<times> ('sc, 'sk) TransportState" where
  "handle_incoming_connection env now d addr read1 sent2 read3 sent4 s =
     (case server_hello env now d read1 s of
        (None, s) \<Rightarrow> ([], s)
      | (Some (welcome, sess), s) \<Rightarrow>
          if \<not> sent2 then ([], s)
          else (case server_identity env now d addr sess read3 sent4 s of
                  (None, s) \<Rightarrow> ([welcome], s)
                | (Some reply, s) \<Rightarrow> ([welcome, reply], s)))"

text \<open>The initiator.\<close>

definition client_hello :: "('sc, 'sk) transport_env \<Rightarrow> HandshakeDraw \<Rightarrow> WireMessage" where
  "client_hello env d = HelloMsg \<lparr>hello_eph_pub_key = dh_public (te_kx env) (dr_dh d),
     hello_eph_kem_pub_key = kem_public (te_kx env) (dr_kem d), hello_nonce = dr_nonce d\<rparr>"

definition client_welcome ::
  "('sc, 'sk) transport_env \<Rightarrow> u64 \<Rightarrow> HandshakeDraw \<Rightarrow> WireMessage option \<Rightarrow> ('sc, 'sk) TransportState \<Rightarrow>
     (TransportError + WireMessage \<times> HandshakeSession) \<times> ('sc, 'sk) TransportState" where
  "client_welcome env now d msg s =
     (case msg of
        Some (WelcomeMsg welcome) \<Rightarrow>
          (case check_handshake_nonce now (welcome_nonce welcome) s of
             (False, s) \<Rightarrow> (Inl (HandshakeFailed ''welcome nonce replay''), s)
           | (True, s) \<Rightarrow>
               (case decapsulate_with (te_kx env) (dr_kem d) (welcome_kem_ciphertext welcome) of
                  Inl _ \<Rightarrow> (Inl (HandshakeFailed ''KEM decapsulation failed''), s)
                | Inr kem_shared \<Rightarrow>
                    let dh_shared = dh (te_kx env) (dr_dh d) (welcome_eph_pub_key welcome);
                        secret = derive_handshake_secret (sx_hkdf (te_sphinx env)) dh_shared kem_shared;
                        sess = \<lparr>handshake_secret = secret, session_aad = handshake_session_aad (dr_nonce d) (welcome_nonce welcome)\<rparr>
                    in (Inr (identity_reply env d sess s, sess), s)))
      | Some _ \<Rightarrow> (Inl (HandshakeFailed ''expected welcome''), s)
      | None \<Rightarrow> (Inl (HandshakeFailed ''peer disconnected''), s))"

definition client_identity ::
  "('sc, 'sk) transport_env \<Rightarrow> u64 \<Rightarrow> bytes \<Rightarrow> HandshakeSession \<Rightarrow> WireMessage option \<Rightarrow> ('sc, 'sk) TransportState \<Rightarrow>
     (TransportError + unit) \<times> ('sc, 'sk) TransportState" where
  "client_identity env now addr sess msg s =
     (case msg of
        Some (AuthIdentityMsg a) \<Rightarrow>
          (case peer_identity env sess a of
             None \<Rightarrow> (Inl (HandshakeFailed ''server identity decrypt failed''), s)
           | Some server_hs \<Rightarrow>
               (case verify_handshake env now server_hs s of
                  (False, s) \<Rightarrow> (Inl (HandshakeFailed ''bad server identity/KEM''), s)
                | (True, s) \<Rightarrow> (Inr (), finish_handshake now addr server_hs s)))
      | Some _ \<Rightarrow> (Inl (HandshakeFailed ''expected server identity''), s)
      | None \<Rightarrow> (Inl (HandshakeFailed ''peer disconnected''), s))"

definition connect_to_peer ::
  "('sc, 'sk) transport_env \<Rightarrow> u64 \<Rightarrow> HandshakeDraw \<Rightarrow> bytes \<Rightarrow> bool \<Rightarrow> WireMessage option \<Rightarrow> bool \<Rightarrow> WireMessage option \<Rightarrow>
     ('sc, 'sk) TransportState \<Rightarrow> (TransportError + unit) \<times> ('sc, 'sk) TransportState" where
  "connect_to_peer env now d addr sent1 read2 sent3 read4 s =
     (if \<not> sent1 then (Inl (HandshakeFailed ''hello send''), s)
      else case client_welcome env now d read2 s of
             (Inl e, s) \<Rightarrow> (Inl e, s)
           | (Inr (auth, sess), s) \<Rightarrow>
               if \<not> sent3 then (Inl (HandshakeFailed ''identity send''), s)
               else client_identity env now addr sess read4 s)"

section \<open>Replays\<close>

definition nonces_ok :: "(bytes, u64) hashmap \<Rightarrow> bool" where
  "nonces_ok cache \<longleftrightarrow> hm_wf cache \<and> hm_len cache \<le> MAX_HANDSHAKE_NONCES"

lemma nonce_check_fresh:
  "hm_wf cache \<Longrightarrow> fst (nonce_check now nonce cache) \<longleftrightarrow>
     (\<forall>ts. hm_get cache nonce = Some ts \<longrightarrow> HANDSHAKE_NONCE_TTL_SECS < saturating_sub now ts)"
  by (auto simp: nonce_check_def Let_def hm_contains_def hm_get_retain not_le split: option.splits if_splits)

lemma nonce_check_get:
  assumes "hm_wf cache"
  shows "hm_get (snd (nonce_check now nonce cache)) k = Some ts \<Longrightarrow> k = nonce \<and> ts = now \<or> hm_get cache k = Some ts"
  using assms by (auto simp: nonce_check_def Let_def hm_get_retain split: option.splits if_splits)

lemma nonce_check_ok: 
  assumes "nonces_ok cache"
  shows "nonces_ok (snd (nonce_check now nonce cache))"
proof -
  define c where "c = hm_retain (\<lambda>_ ts. saturating_sub now ts \<le> HANDSHAKE_NONCE_TTL_SECS) cache"
  define c' where "c' = (if MAX_HANDSHAKE_NONCES \<le> hm_len c then (case min_entry c of Some (oldest, _) \<Rightarrow> hm_remove oldest c | None \<Rightarrow> c) else c)"
  have wf: "hm_wf c" "hm_len c \<le> MAX_HANDSHAKE_NONCES"
    using assms by (auto simp: c_def nonces_ok_def intro: le_trans [OF hm_len_retain_le])
  have "hm_wf c' \<and> hm_len c' < MAX_HANDSHAKE_NONCES"
  proof (cases "MAX_HANDSHAKE_NONCES \<le> hm_len c")
    case True
    then have "c \<noteq> []" by (auto simp: hm_len_def MAX_HANDSHAKE_NONCES_def)
    then obtain k ts where m: "min_entry c = Some (k, ts)" "(k, ts) \<in> set c" using min_entry_least [of c] by (metis option.exhaust prod.exhaust)
    then have "hm_contains c k" by (force simp: hm_contains_alt)
    with m wf True show ?thesis by (auto simp: c'_def hm_len_remove MAX_HANDSHAKE_NONCES_def)
  qed (use wf in \<open>auto simp: c'_def\<close>)
  then have "hm_wf (hm_insert nonce now c') \<and> hm_len (hm_insert nonce now c') \<le> MAX_HANDSHAKE_NONCES" by (auto simp: hm_len_insert)
  then show ?thesis using wf unfolding nonce_check_def Let_def c_def [symmetric] c'_def [symmetric] by (auto simp: nonces_ok_def)
qed

text \<open>As long as the cache has room, an entry that has not expired is not lost.\<close>

lemma nonce_check_keeps:
  assumes "hm_wf cache" "hm_len cache < MAX_HANDSHAKE_NONCES" "hm_get cache k = Some ts" "saturating_sub now ts \<le> HANDSHAKE_NONCE_TTL_SECS"
  shows "\<exists>ts'. hm_get (snd (nonce_check now nonce cache)) k = Some ts' \<and> (ts' = ts \<or> ts' = now)"
    and "hm_len (snd (nonce_check now nonce cache)) \<le> Suc (hm_len cache)"
proof -
  define c where "c = hm_retain (\<lambda>_ ts. saturating_sub now ts \<le> HANDSHAKE_NONCE_TTL_SECS) cache"
  have l: "hm_len c \<le> hm_len cache" by (simp add: c_def)
  have c: "hm_get c k = Some ts" "\<not> MAX_HANDSHAKE_NONCES \<le> hm_len c"
    using assms l by (simp add: c_def hm_get_retain, simp)
  have n: "snd (nonce_check now nonce cache) = (if hm_contains c nonce then c else hm_insert nonce now c)"
    unfolding nonce_check_def Let_def c_def [symmetric] using c(2) by simp
  show "\<exists>ts'. hm_get (snd (nonce_check now nonce cache)) k = Some ts' \<and> (ts' = ts \<or> ts' = now)" using c(1) by (simp add: n)
  show "hm_len (snd (nonce_check now nonce cache)) \<le> Suc (hm_len cache)" using l by (simp add: n hm_len_insert)
qed

definition nonce_checks :: "(u64 \<times> bytes) list \<Rightarrow> (bytes, u64) hashmap \<Rightarrow> (bytes, u64) hashmap" where
  "nonce_checks = fold (\<lambda>(now, nonce) cache. snd (nonce_check now nonce cache))"

lemma nonce_checks_ok: "nonces_ok cache \<Longrightarrow> nonces_ok (nonce_checks checks cache)"
  by (induction checks arbitrary: cache) (auto simp: nonce_checks_def intro: nonce_check_ok)

lemma nonce_checks_keep:
  assumes "nonces_ok cache" "hm_get cache k = Some ts" "hm_len cache + length checks \<le> MAX_HANDSHAKE_NONCES"
    "start \<le> ts" "\<forall>(now, nonce)\<in>set checks. start \<le> now \<and> saturating_sub now start \<le> HANDSHAKE_NONCE_TTL_SECS"
  shows "\<exists>ts'. hm_get (nonce_checks checks cache) k = Some ts' \<and> start \<le> ts'"
  using assms
proof (induction checks arbitrary: cache ts)
  case (Cons check checks)
  obtain now nonce where ch: "check = (now, nonce)" by fastforce
  have "saturating_sub now ts \<le> HANDSHAKE_NONCE_TTL_SECS"
    using Cons.prems(4,5) ch by (auto simp: word_le_nat_alt)
  with Cons.prems obtain ts' where ts': "hm_get (snd (nonce_check now nonce cache)) k = Some ts'" "ts' = ts \<or> ts' = now"
    and l: "hm_len (snd (nonce_check now nonce cache)) \<le> Suc (hm_len cache)"
    using nonce_check_keeps [of cache k ts now nonce] by (auto simp: nonces_ok_def)
  have "\<exists>ts'. hm_get (nonce_checks checks (snd (nonce_check now nonce cache))) k = Some ts' \<and> start \<le> ts'"
    by (rule Cons.IH [OF nonce_check_ok [OF Cons.prems(1)] ts'(1)]) (use Cons.prems ts'(2) l ch in auto)
  then show ?case by (simp add: nonce_checks_def ch)
qed (auto simp: nonce_checks_def)

text \<open>A nonce cache never holds more than 4096 entries, whatever is checked against it; and a nonce that
was accepted is refused for the next 300 seconds, however many others are checked meanwhile, as long as the cache
does not fill up. The cache is used for handshakes and for swap messages alike.\<close>

theorem nonces_not_replayed:
  assumes "nonces_ok cache" "nonce_check start nonce cache = (True, cache')"
    "hm_len cache' + length checks \<le> MAX_HANDSHAKE_NONCES"
    "\<forall>(now, n)\<in>set checks. start \<le> now \<and> saturating_sub now start \<le> HANDSHAKE_NONCE_TTL_SECS"
    "start \<le> later" "saturating_sub later start \<le> HANDSHAKE_NONCE_TTL_SECS"
  shows "\<not> fst (nonce_check later nonce (nonce_checks checks cache')) \<and> hm_len (nonce_checks checks' cache) \<le> MAX_HANDSHAKE_NONCES"
proof
  show "hm_len (nonce_checks checks' cache) \<le> MAX_HANDSHAKE_NONCES" using nonce_checks_ok [OF assms(1)] by (simp add: nonces_ok_def)
  have c: "nonces_ok cache'" using nonce_check_ok [OF assms(1), of start nonce] assms(2) by simp
  have "hm_get cache' nonce = Some start" using assms(2) by (auto simp: nonce_check_def Let_def split: if_splits)
  from nonce_checks_keep [OF c this assms(3) order_refl assms(4)] obtain ts
    where ts: "hm_get (nonce_checks checks cache') nonce = Some ts" "start \<le> ts" by blast
  have "hm_wf (nonce_checks checks cache')" using nonce_checks_ok [OF c] by (simp add: nonces_ok_def)
  then show "\<not> fst (nonce_check later nonce (nonce_checks checks cache'))"
    using ts assms(6) by (auto simp: nonce_check_fresh word_le_nat_alt word_less_nat_alt)
qed

theorem nonces_not_replayed_witness:
  "\<not> fst (nonce_check 350 [1] (nonce_checks [(120, [2]), (340, [3])] [([1], 100)])) \<and>
   hm_len (nonce_checks [(100, [1]), (900, [2])] []) \<le> 4096"
proof -
  have "nonces_ok []" "nonce_check 100 [1] [] = (True, [([1], 100)])"
    by (simp_all add: nonces_ok_def nonce_check_def hm_len_def hm_contains_def hm_retain_def MAX_HANDSHAKE_NONCES_def)
  from nonces_not_replayed [OF this, of "[(120, [2]), (340, [3])]" 350 "[(100, [1]), (900, [2])]"]
  show ?thesis by (simp add: hm_len_def MAX_HANDSHAKE_NONCES_def HANDSHAKE_NONCE_TTL_SECS_def saturating_sub_def)
qed

section \<open>Two honest nodes\<close>

lemma kem_agreement:
  assumes "key_exchange_correct kx" "length sk = KEM_SECRET_KEY_SIZE kx"
  shows "\<exists>ss ct. encapsulate_to kx rnd (kem_public kx sk) = Inr (ss, ct) \<and> decapsulate_with kx sk ct = Inr ss \<and> length ct = KEM_CIPHERTEXT_SIZE kx"
proof -
  obtain ct ss where "kem_encapsulate kx rnd (kem_public kx sk) = Some (ct, ss)" "length ct = KEM_CIPHERTEXT_SIZE kx" "kem_decapsulate kx ct sk = Some ss"
    using assms unfolding key_exchange_correct_def by blast
  moreover have "length (kem_public kx sk) = KEM_PUBLIC_KEY_SIZE kx" using assms unfolding key_exchange_correct_def by blast
  ultimately show ?thesis using assms(2) by (auto simp: encapsulate_to_def decapsulate_with_def)
qed

lemma read_framed:
  assumes "framed env msg frame" "buf @ concat reads = frame" "length buf < length frame"
  shows "fst (read_wire_message env buf reads) = Some msg"
  using assms(2,3)
proof (induction reads arbitrary: buf)
  case (Cons chunk reads)
  show ?case
  proof (cases "length (buf @ chunk) < length frame")
    case True
    have f: "(buf @ chunk) @ concat reads = frame" using Cons.prems by simp
    then have "concat reads \<noteq> []" using True by auto
    then have "try_read_message env (buf @ chunk) = (Inr None, buf @ chunk)" using assms(1) f unfolding framed_def by blast
    then show ?thesis using Cons.IH [OF f True] by simp
  next
    case False
    have "length ((buf @ chunk) @ concat reads) = length frame" using Cons.prems by simp
    then have "length (concat reads) = 0" using False by (simp only: length_append)
    then have "concat reads = []" by (simp only: length_0_conv)
    with Cons.prems(1) have "buf @ chunk = frame" by (simp only: concat.simps append_Nil2)
    moreover have "try_read_message env (frame @ []) = (Inr (Some msg), [])" using assms(1) unfolding framed_def by blast
    ultimately show ?thesis by simp
  qed
qed simp

text \<open>A message on its way: written, cut into reads by the network, read by the peer.\<close>

definition transfer :: "'sc sphinx_env \<Rightarrow> (nat \<Rightarrow> bytes) \<Rightarrow> (bytes \<Rightarrow> bytes list) \<Rightarrow> WireMessage \<Rightarrow> WireMessage option" where
  "transfer env rnd split_reads msg =
     (case write_message env rnd [] msg of Inl _ \<Rightarrow> None | Inr frame \<Rightarrow> fst (read_wire_message env [] (split_reads frame)))"

lemma transfer_ok:
  assumes "ml_kem_768 (sx_kx env)" "\<And>n. length (rnd n) = n" "\<And>b. concat (split_reads b) = b" "wire_ok env msg"
  shows "transfer env rnd split_reads msg = Some msg"
proof -
  obtain frame where f: "serialize_message env rnd msg = Inr frame" "framed env msg frame"
    using serialized_framed [OF assms(1,2,4)] by blast
  have "fst (read_wire_message env [] (split_reads frame)) = Some msg"
    by (rule read_framed [OF f(2)]) (use assms(3) framed_nonempty [OF f(2)] in simp_all)
  then show ?thesis by (simp add: transfer_def write_message_def f(1))
qed

record network =
  net_rnd :: "nat \<Rightarrow> nat \<Rightarrow> bytes"
  net_cut :: "nat \<Rightarrow> bytes \<Rightarrow> bytes list"

definition network_ok :: "network \<Rightarrow> bool" where
  "network_ok net \<longleftrightarrow> (\<forall>i n. length (net_rnd net i n) = n) \<and> (\<forall>i b. concat (net_cut net i b) = b)"

text \<open>The four messages between an initiator and a responder; the first component says whether both finished.\<close>

definition exchange ::
  "('sc, 'sk) transport_env \<Rightarrow> network \<Rightarrow> u64 \<Rightarrow> HandshakeDraw \<Rightarrow> HandshakeDraw \<Rightarrow> bytes \<Rightarrow> bytes \<Rightarrow>
     ('sc, 'sk) TransportState \<Rightarrow> ('sc, 'sk) TransportState \<Rightarrow> bool \<times> ('sc, 'sk) TransportState \<times> ('sc, 'sk) TransportState" where
  "exchange env net now dc ds client_addr server_addr cli srv =
     (let send = (\<lambda>i. transfer (te_sphinx env) (net_rnd net i) (net_cut net i)) in
      case server_hello env now ds (send 0 (client_hello env dc)) srv of
        (None, srv) \<Rightarrow> (False, cli, srv)
      | (Some (welcome, sess), srv) \<Rightarrow>
          (case client_welcome env now dc (send 1 welcome) cli of
             (Inl _, cli) \<Rightarrow> (False, cli, srv)
           | (Inr (auth, csess), cli) \<Rightarrow>
               (case server_identity env now ds client_addr sess (send 2 auth) True srv of
                  (None, srv) \<Rightarrow> (False, cli, srv)
                | (Some reply, srv) \<Rightarrow>
                    (case client_identity env now server_addr csess (send 3 reply) cli of
                       (Inl _, cli) \<Rightarrow> (False, cli, srv)
                     | (Inr _, cli) \<Rightarrow> (True, cli, srv)))))"

definition handshake_laws :: "('sc, 'sk) transport_env \<Rightarrow> bool" where
  "handshake_laws env \<longleftrightarrow> ml_kem_768 (te_kx env) \<and> key_exchange_correct (te_kx env) \<and> aead_correct (sx_aead (te_sphinx env)) \<and>
     ed25519_correct (te_ed env) \<and> (\<forall>sk. length (dh_public (te_kx env) sk) = 32)"

definition honest :: "('sc, 'sk) transport_env \<Rightarrow> ('sc, 'sk) TransportState \<Rightarrow> bool" where
  "honest env s \<longleftrightarrow> length (ts_node_id s) = 16 \<and> length (mn_public_key (mix_node s)) = 32 \<and> length (ts_kem s) = KEM_SECRET_KEY_SIZE (te_kx env) \<and>
     identity_public_key s = ed_public (te_ed env) (identity_key s) \<and> hm_wf (handshake_nonces s) \<and> our_node_id (routing_table s) = ts_node_id s"

definition draw_ok :: "('sc, 'sk) transport_env \<Rightarrow> HandshakeDraw \<Rightarrow> bool" where
  "draw_ok env d \<longleftrightarrow> length (dr_kem d) = KEM_SECRET_KEY_SIZE (te_kx env) \<and> length (dr_nonce d) = 32 \<and> length (dr_hs_nonce d) = 32 \<and>
     length (dr_aead d) = 12 \<and> dr_nonce d \<noteq> dr_hs_nonce d"

text \<open>A node has not seen the nonces of a draw, and knows its owner under no other keys.\<close>

definition accepts_peer :: "('sc, 'sk) TransportState \<Rightarrow> HandshakeDraw \<Rightarrow> ('sc, 'sk) TransportState \<Rightarrow> bool" where
  "accepts_peer s d peer \<longleftrightarrow> ts_node_id peer \<noteq> ts_node_id s \<and>
     hm_get (handshake_nonces s) (dr_nonce d) = None \<and> hm_get (handshake_nonces s) (dr_hs_nonce d) = None \<and>
     (\<forall>known. get_node (routing_table s) (ts_node_id peer) = Some known \<longrightarrow> kn_public_key known = mn_public_key (mix_node peer) \<and>
        (kn_identity_public_key known = None \<or> kn_identity_public_key known = Some (identity_public_key peer)))"

lemma handshake_fields [simp]:
  "hs_node_id (signed_handshake env n s) = ts_node_id s" "hs_public_key (signed_handshake env n s) = mn_public_key (mix_node s)"
  "hs_kem_public_key (signed_handshake env n s) = Some (kem_public (te_kx env) (ts_kem s))"
  "hs_identity_public_key (signed_handshake env n s) = identity_public_key s" "hs_nonce (signed_handshake env n s) = n"
  by (simp_all add: signed_handshake_def Let_def)

lemma signed_handshake_nonces [simp]:
  "signed_handshake env n (s\<lparr>handshake_nonces := c\<rparr>) = signed_handshake env n s"
  by (simp add: signed_handshake_def Let_def)

lemma identity_reply_nonces [simp]:
  "identity_reply env d sess (s\<lparr>handshake_nonces := c\<rparr>) = identity_reply env d sess s"
  by (simp add: identity_reply_def)

lemma signed_handshake_ok:
  assumes "handshake_laws env" "honest env s" "length n = 32"
  shows "handshake_ok (signed_handshake env n s)" "handshake_verify (te_ed env) (te_kx env) (signed_handshake env n s)"
    "length (kem_public (te_kx env) (ts_kem s)) = KEM_PUBLIC_KEY_SIZE (te_kx env)"
    "length (serialize_handshake (signed_handshake env n s)) = 1364"
proof -
  show k: "length (kem_public (te_kx env) (ts_kem s)) = KEM_PUBLIC_KEY_SIZE (te_kx env)"
    using assms by (simp add: handshake_laws_def honest_def key_exchange_correct_def)
  have k': "length (kem_public (te_kx env) (ts_kem s)) = 1184" using k assms(1) by (simp add: handshake_laws_def ml_kem_768_def)
  then have ne: "kem_public (te_kx env) (ts_kem s) \<noteq> []" by auto
  have "ed25519_correct (te_ed env)" and i: "identity_public_key s = ed_public (te_ed env) (identity_key s)"
    using assms(1,2) unfolding handshake_laws_def honest_def by blast+
  then have e: "length (identity_public_key s) = 32" "\<And>m. length (ed_sign (te_ed env) (identity_key s) m) = 64"
      "ed_parse (te_ed env) (identity_public_key s)" "\<And>m. ed_check (te_ed env) (identity_public_key s) m (ed_sign (te_ed env) (identity_key s) m)"
    unfolding ed25519_correct_def i by blast+
  show ok: "handshake_ok (signed_handshake env n s)"
    using assms(2,3) k' ne e by (simp add: handshake_ok_def signed_handshake_def honest_def Let_def)
  show "length (serialize_handshake (signed_handshake env n s)) = 1364"
    using ok k' by (simp add: serialize_handshake_def handshake_ok_def Let_def)
  show "handshake_verify (te_ed env) (te_kx env) (signed_handshake env n s)"
    using k e by (simp add: handshake_verify_def signed_handshake_def Let_def handshake_signing_bytes_def)
qed

lemma identity_reply_ok:
  assumes "handshake_laws env" "honest env s" "draw_ok env d"
  shows "wire_ok (te_sphinx env) (identity_reply env d sess s)"
    "\<exists>enc. identity_reply env d sess s = AuthIdentityMsg enc \<and> peer_identity env sess enc = Some (signed_handshake env (dr_hs_nonce d) s)"
proof -
  have n: "length (dr_hs_nonce d) = 32" using assms(3) by (simp add: draw_ok_def)
  note ok = signed_handshake_ok [OF assms(1,2) n]
  have a: "aead_correct (sx_aead (te_sphinx env))" using assms(1) by (simp add: handshake_laws_def)
  then have l: "length (aead_seal (sx_aead (te_sphinx env)) k m (serialize_handshake (signed_handshake env (dr_hs_nonce d) s)) v) = 1380" for k m v
    using ok(4) by (simp add: aead_correct_def)
  show "wire_ok (te_sphinx env) (identity_reply env d sess s)"
    using assms(3) l by (simp add: identity_reply_def encrypt_identity_def encrypt_aad_def draw_ok_def)
  have "deserialize_handshake (serialize_handshake (signed_handshake env (dr_hs_nonce d) s)) = Inr (signed_handshake env (dr_hs_nonce d) s)"
    using handshake_roundtrip [OF ok(1), of "[]"] by simp
  with a show "\<exists>enc. identity_reply env d sess s = AuthIdentityMsg enc \<and> peer_identity env sess enc = Some (signed_handshake env (dr_hs_nonce d) s)"
    by (simp add: identity_reply_def peer_identity_def encrypt_identity_def decrypt_identity_def encrypt_aad_def decrypt_aad_def aead_correct_def)
qed

text \<open>Checking a nonce the cache does not hold.\<close>

lemma check_fresh:
  assumes "hm_wf (handshake_nonces s)" "hm_get (handshake_nonces s) nonce = None"
  shows "\<exists>c. check_handshake_nonce now nonce s = (True, s\<lparr>handshake_nonces := c\<rparr>) \<and> hm_wf c \<and>
    (\<forall>k. k \<noteq> nonce \<longrightarrow> hm_get (handshake_nonces s) k = None \<longrightarrow> hm_get c k = None)"
proof -
  obtain f c where n: "nonce_check now nonce (handshake_nonces s) = (f, c)" by fastforce
  have "f" using nonce_check_fresh [OF assms(1), of now nonce] assms(2) n by simp
  moreover have "hm_wf c" using assms(1) n by (auto simp: nonce_check_def Let_def split: if_splits option.splits)
  moreover have "hm_get c k = None" if "k \<noteq> nonce" "hm_get (handshake_nonces s) k = None" for k
    using nonce_check_get [OF assms(1), of now nonce k] n that by (cases "hm_get c k") auto
  ultimately show ?thesis using n by (auto simp: check_handshake_nonce_def)
qed

lemma verify_fresh:
  assumes "handshake_laws env" "honest env peer" "length n = 32" "hm_wf (handshake_nonces s)" "hm_get (handshake_nonces s) n = None"
    "\<And>known. get_node (routing_table s) (ts_node_id peer) = Some known \<Longrightarrow> kn_public_key known = mn_public_key (mix_node peer) \<and>
        (kn_identity_public_key known = None \<or> kn_identity_public_key known = Some (identity_public_key peer))"
  shows "\<exists>c. verify_handshake env now (signed_handshake env n peer) s = (True, s\<lparr>handshake_nonces := c\<rparr>)"
proof -
  obtain c where c: "check_handshake_nonce now n s = (True, s\<lparr>handshake_nonces := c\<rparr>)" using check_fresh [OF assms(4,5)] by blast
  have "key_continuity (routing_table s) (signed_handshake env n peer)"
    using assms(6) by (auto simp: key_continuity_def split: option.splits)
  then show ?thesis
    using c signed_handshake_ok [OF assms(1-3)] by (intro exI [of _ c]) (simp add: verify_handshake_def)
qed

lemma server_hello_fresh:
  assumes laws: "handshake_laws env" and dc: "draw_ok env dc" and srv: "hm_wf (handshake_nonces srv)" "hm_get (handshake_nonces srv) (dr_nonce dc) = None"
    and ds: "draw_ok env ds"
  shows "\<exists>welcome sess c. server_hello env now ds (Some (client_hello env dc)) srv = (Some (WelcomeMsg welcome, sess), srv\<lparr>handshake_nonces := c\<rparr>) \<and>
     wire_ok (te_sphinx env) (WelcomeMsg welcome) \<and> welcome_nonce welcome = dr_nonce ds \<and> hm_wf c \<and>
     (\<forall>k. k \<noteq> dr_nonce dc \<longrightarrow> hm_get (handshake_nonces srv) k = None \<longrightarrow> hm_get c k = None) \<and>
     (\<forall>cli cc. check_handshake_nonce now (dr_nonce ds) cli = (True, cli\<lparr>handshake_nonces := cc\<rparr>) \<longrightarrow>
        client_welcome env now dc (Some (WelcomeMsg welcome)) cli = (Inr (identity_reply env dc sess cli, sess), cli\<lparr>handshake_nonces := cc\<rparr>))"
proof -
  have kx: "key_exchange_correct (te_kx env)" "\<And>sk. length (dh_public (te_kx env) sk) = 32" using laws by (simp_all add: handshake_laws_def)
  have sk: "length (dr_kem dc) = KEM_SECRET_KEY_SIZE (te_kx env)" "length (dr_kem ds) = KEM_SECRET_KEY_SIZE (te_kx env)" "length (dr_nonce ds) = 32"
    using dc ds by (simp_all add: draw_ok_def)
  obtain ss ct where k: "encapsulate_to (te_kx env) (dr_encaps ds) (kem_public (te_kx env) (dr_kem dc)) = Inr (ss, ct)"
      "decapsulate_with (te_kx env) (dr_kem dc) ct = Inr ss" "length ct = KEM_CIPHERTEXT_SIZE (te_kx env)"
    using kem_agreement [OF kx(1) sk(1)] by blast
  have pk: "length (kem_public (te_kx env) (dr_kem ds)) = KEM_PUBLIC_KEY_SIZE (te_kx env)" using kx(1) sk(2) by (simp add: key_exchange_correct_def)
  have d: "dh (te_kx env) (dr_dh dc) (dh_public (te_kx env) (dr_dh ds)) = dh (te_kx env) (dr_dh ds) (dh_public (te_kx env) (dr_dh dc))"
    using kx(1) unfolding key_exchange_correct_def dh_def by blast
  obtain c where c: "check_handshake_nonce now (dr_nonce dc) srv = (True, srv\<lparr>handshake_nonces := c\<rparr>)" "hm_wf c"
      "\<forall>k. k \<noteq> dr_nonce dc \<longrightarrow> hm_get (handshake_nonces srv) k = None \<longrightarrow> hm_get c k = None"
    using check_fresh [OF srv] by blast
  let ?w = "\<lparr>welcome_eph_pub_key = dh_public (te_kx env) (dr_dh ds), welcome_eph_kem_pub_key = kem_public (te_kx env) (dr_kem ds),
      welcome_nonce = dr_nonce ds, welcome_kem_ciphertext = ct\<rparr>"
  let ?s = "\<lparr>handshake_secret = derive_handshake_secret (sx_hkdf (te_sphinx env)) (dh (te_kx env) (dr_dh ds) (dh_public (te_kx env) (dr_dh dc))) ss,
      session_aad = handshake_session_aad (dr_nonce dc) (dr_nonce ds)\<rparr>"
  have 1: "server_hello env now ds (Some (client_hello env dc)) srv = (Some (WelcomeMsg ?w, ?s), srv\<lparr>handshake_nonces := c\<rparr>)"
    by (simp add: server_hello_def client_hello_def c(1) k(1) Let_def)
  have 2: "wire_ok (te_sphinx env) (WelcomeMsg ?w)" using kx(2) pk k(3) sk(3) by simp
  have 3: "client_welcome env now dc (Some (WelcomeMsg ?w)) cli = (Inr (identity_reply env dc ?s cli, ?s), cli\<lparr>handshake_nonces := cc\<rparr>)"
    if "check_handshake_nonce now (dr_nonce ds) cli = (True, cli\<lparr>handshake_nonces := cc\<rparr>)" for cli cc
    using that by (simp add: client_welcome_def k(2) d Let_def identity_reply_def)
  show ?thesis
    by (intro exI [of _ ?w] exI [of _ ?s] exI [of _ c]) (use 1 2 3 c(2,3) in simp)
qed

lemma finish_handshake_effect:
  "routing_table (finish_handshake now addr hs s) = add_node (known_node_of hs addr) (routing_table s)"
  "connections (finish_handshake now addr hs s) = hm_insert (hs_node_id hs) [] (connections s)"
  "hm_get (peer_activity (finish_handshake now addr hs s)) (hs_node_id hs) = Some now"
  by (simp_all add: finish_handshake_def note_peer_activity_def Let_def)

text \<open>C27 (functional). Two honest nodes that do not know each other under other keys always complete the encrypted handshake,
whatever the padding and however the network cuts the four messages into reads: both derive the same secret, read
the other's encrypted identity and accept it. Afterwards each has the other in its routing table with exactly the
mix, KEM and identity keys the other holds, an open channel to it, and a fresh activity mark.\<close>

theorem handshake_completes:
  assumes laws: "handshake_laws env" and net: "network_ok net"
    and cli: "honest env cli" "draw_ok env dc" "accepts_peer cli ds srv"
    and srv: "honest env srv" "draw_ok env ds" "accepts_peer srv dc cli"
  shows "\<exists>cli' srv'. exchange env net now dc ds client_addr server_addr cli srv = (True, cli', srv') \<and>
    get_node (routing_table srv') (ts_node_id cli) = Some (known_node_of (signed_handshake env (dr_hs_nonce dc) cli) client_addr) \<and>
    get_node (routing_table cli') (ts_node_id srv) = Some (known_node_of (signed_handshake env (dr_hs_nonce ds) srv) server_addr) \<and>
    hm_get (connections srv') (ts_node_id cli) = Some [] \<and> hm_get (connections cli') (ts_node_id srv) = Some [] \<and>
    hm_get (peer_activity srv') (ts_node_id cli) = Some now \<and> hm_get (peer_activity cli') (ts_node_id srv) = Some now"
proof -
  let ?send = "\<lambda>i. transfer (te_sphinx env) (net_rnd net i) (net_cut net i)"
  have kem: "ml_kem_768 (te_kx env)" using laws by (simp add: handshake_laws_def)
  have send: "?send i msg = Some msg" if "wire_ok (te_sphinx env) msg" for i msg
    using net that by (intro transfer_ok [OF kem]) (simp_all add: network_ok_def)
  have hello: "wire_ok (te_sphinx env) (client_hello env dc)"
    using laws cli(2) by (simp add: client_hello_def handshake_laws_def draw_ok_def key_exchange_correct_def)
  have wf: "hm_wf (handshake_nonces cli)" "hm_wf (handshake_nonces srv)" using cli(1) srv(1) by (simp_all add: honest_def)
  have fresh: "hm_get (handshake_nonces srv) (dr_nonce dc) = None" "hm_get (handshake_nonces srv) (dr_hs_nonce dc) = None"
    "hm_get (handshake_nonces cli) (dr_nonce ds) = None" "hm_get (handshake_nonces cli) (dr_hs_nonce ds) = None"
    using cli(3) srv(3) by (simp_all add: accepts_peer_def)
  have ne: "dr_hs_nonce dc \<noteq> dr_nonce dc" "dr_hs_nonce ds \<noteq> dr_nonce ds" "length (dr_hs_nonce dc) = 32" "length (dr_hs_nonce ds) = 32"
    using cli(2) srv(2) by (auto simp: draw_ok_def)
  from server_hello_fresh [OF laws cli(2) wf(2) fresh(1) srv(2), of now] obtain wel sess c
    where w: "server_hello env now ds (Some (client_hello env dc)) srv = (Some (WelcomeMsg wel, sess), srv\<lparr>handshake_nonces := c\<rparr>)"
      "wire_ok (te_sphinx env) (WelcomeMsg wel)" "hm_wf c"
      "\<forall>k. k \<noteq> dr_nonce dc \<longrightarrow> hm_get (handshake_nonces srv) k = None \<longrightarrow> hm_get c k = None"
      "\<forall>cli cc. check_handshake_nonce now (dr_nonce ds) cli = (True, cli\<lparr>handshake_nonces := cc\<rparr>) \<longrightarrow>
        client_welcome env now dc (Some (WelcomeMsg wel)) cli = (Inr (identity_reply env dc sess cli, sess), cli\<lparr>handshake_nonces := cc\<rparr>)"
    by blast
  obtain cc where cc: "check_handshake_nonce now (dr_nonce ds) cli = (True, cli\<lparr>handshake_nonces := cc\<rparr>)" "hm_wf cc"
      "\<forall>k. k \<noteq> dr_nonce ds \<longrightarrow> hm_get (handshake_nonces cli) k = None \<longrightarrow> hm_get cc k = None"
    using check_fresh [OF wf(1) fresh(3)] by blast
  note idc = identity_reply_ok [OF laws cli(1,2), of sess] and ids = identity_reply_ok [OF laws srv(1,2), of sess]
  obtain encc where ec: "identity_reply env dc sess cli = AuthIdentityMsg encc" "peer_identity env sess encc = Some (signed_handshake env (dr_hs_nonce dc) cli)"
    using idc(2) by blast
  obtain encs where es: "identity_reply env ds sess srv = AuthIdentityMsg encs" "peer_identity env sess encs = Some (signed_handshake env (dr_hs_nonce ds) srv)"
    using ids(2) by blast
  let ?srv = "srv\<lparr>handshake_nonces := c\<rparr>" and ?cli = "cli\<lparr>handshake_nonces := cc\<rparr>"
  obtain c' where vs: "verify_handshake env now (signed_handshake env (dr_hs_nonce dc) cli) ?srv = (True, ?srv\<lparr>handshake_nonces := c'\<rparr>)"
    using verify_fresh [OF laws cli(1) ne(3), of ?srv now] w(3,4) fresh(2) ne(1) srv(3) by (auto simp: accepts_peer_def)
  obtain cc' where vc: "verify_handshake env now (signed_handshake env (dr_hs_nonce ds) srv) ?cli = (True, ?cli\<lparr>handshake_nonces := cc'\<rparr>)"
    using verify_fresh [OF laws srv(1) ne(4), of ?cli now] cc(2,3) fresh(4) ne(2) cli(3) by (auto simp: accepts_peer_def)
  let ?srv' = "finish_handshake now client_addr (signed_handshake env (dr_hs_nonce dc) cli) (?srv\<lparr>handshake_nonces := c'\<rparr>)"
  let ?cli' = "finish_handshake now server_addr (signed_handshake env (dr_hs_nonce ds) srv) (?cli\<lparr>handshake_nonces := cc'\<rparr>)"
  have S: "server_identity env now ds client_addr sess (?send 2 (identity_reply env dc sess cli)) True ?srv = (Some (AuthIdentityMsg encs), ?srv')"
    unfolding send [OF idc(1)] by (simp add: server_identity_def ec vs es(1) Let_def)
  have "wire_ok (te_sphinx env) (AuthIdentityMsg encs)" using ids(1) es(1) by simp
  then have C: "client_identity env now server_addr sess (?send 3 (AuthIdentityMsg encs)) ?cli = (Inr (), ?cli')"
    by (subst send, assumption) (simp add: client_identity_def es(2) vc)
  have X: "exchange env net now dc ds client_addr server_addr cli srv = (True, ?cli', ?srv')"
    unfolding exchange_def Let_def using send [OF hello] send [OF w(2)] w(1) w(5) [rule_format, OF cc(1)] S C by simp
  have ids: "ts_node_id cli \<noteq> our_node_id (routing_table srv)" "ts_node_id srv \<noteq> our_node_id (routing_table cli)"
    using cli srv by (auto simp: accepts_peer_def honest_def)
  show ?thesis
    by (rule exI [of _ ?cli'], rule exI [of _ ?srv'])
       (use X ids finish_handshake_effect(3) [of now client_addr "signed_handshake env (dr_hs_nonce dc) cli" "srv\<lparr>handshake_nonces := c'\<rparr>"]
          finish_handshake_effect(3) [of now server_addr "signed_handshake env (dr_hs_nonce ds) srv" "cli\<lparr>handshake_nonces := cc'\<rparr>"]
        in \<open>simp add: finish_handshake_effect(1,2) add_node_def get_node_def known_node_of_def\<close>)
qed

text \<open>Two concrete nodes.\<close>

definition demo_transport :: "(u8, nat) transport_env" where
  "demo_transport = \<lparr>te_sphinx = wire_env, te_ed = demo_ed,
     te_storage = \<lparr>se_aead = demo_aead, se_hkdf = \<lambda>_ k c. take 32 (k @ c @ replicate 32 0), blake3 = \<lambda>b. b\<rparr>,
     te_gossip = demo_env, accept_json = \<lambda>_. None, reject_json = \<lambda>_. None, commit_json = \<lambda>_. None, abort_json = \<lambda>_. None,
     gossip_json = \<lambda>_. None, prepayment_json = \<lambda>_. None, reconciliation_json = \<lambda>_. None\<rparr>"

definition demo_peer :: "u8 \<Rightarrow> (u8, nat) TransportState" where
  "demo_peer k = create_transport_state demo_transport [] [k] (unat k) (replicate 16 k) (from_private_key wire_env [k] (replicate 16 k))
     (StorageCapacity_new 0) SwapState_new None"

definition demo_draw :: "u8 \<Rightarrow> HandshakeDraw" where
  "demo_draw k = \<lparr>dr_dh = [k], dr_kem = [k], dr_nonce = replicate 32 k, dr_encaps = [k], dr_hs_nonce = replicate 32 (k + 100), dr_aead = replicate 12 k\<rparr>"

lemma demo_handshake_laws: "handshake_laws demo_transport"
proof -
  have "aead_correct (sx_aead wire_env)" using demo_sphinx_correct(3) by (simp add: wire_env_def)
  moreover have "length (dh_public wire_kx sk) = 32" for sk by (simp add: wire_kx_def)
  ultimately show ?thesis
    using wire_kx_correct demo_ed_correct by (simp add: handshake_laws_def demo_transport_def wire_env_def)
qed

lemma demo_peers_ready:
  "honest demo_transport (demo_peer k)" "draw_ok demo_transport (demo_draw k)" "j \<noteq> k \<Longrightarrow> accepts_peer (demo_peer j) (demo_draw k) (demo_peer k)"
proof -
  have m: "length (mn_public_key (from_private_key wire_env [k] i)) = 32" for i
    by (simp add: from_private_key_def wire_env_def demo_sphinx_def BASE_POINT_def)
  then show "honest demo_transport (demo_peer k)"
    by (simp add: honest_def demo_peer_def create_transport_state_def demo_transport_def wire_env_def wire_kx_def RoutingTable_new_def)
  have "k \<noteq> k + 100" by (simp add: word_eq_iff_unsigned)
  then show "draw_ok demo_transport (demo_draw k)"
    by (simp add: draw_ok_def demo_draw_def demo_transport_def wire_env_def wire_kx_def)
  show "accepts_peer (demo_peer j) (demo_draw k) (demo_peer k)" if "j \<noteq> k"
    using that by (auto simp: accepts_peer_def demo_peer_def create_transport_state_def RoutingTable_new_def get_node_def)
qed

theorem handshake_completes_witness:
  "\<exists>cli srv. exchange demo_transport \<lparr>net_rnd = \<lambda>i n. replicate n 0, net_cut = \<lambda>i b. [take 100 b, drop 100 b]\<rparr> 1000
      (demo_draw 1) (demo_draw 2) [1] [2] (demo_peer 1) (demo_peer 2) = (True, cli, srv) \<and>
    hm_get (connections srv) (replicate 16 1) = Some []"
proof -
  have "network_ok \<lparr>net_rnd = \<lambda>i n. replicate n 0, net_cut = \<lambda>i b. [take 100 b, drop 100 b]\<rparr>" by (simp add: network_ok_def)
  moreover have "accepts_peer (demo_peer 1) (demo_draw 2) (demo_peer 2)" "accepts_peer (demo_peer 2) (demo_draw 1) (demo_peer 1)"
    by (rule demo_peers_ready(3); simp)+
  moreover have "ts_node_id (demo_peer 1) = replicate 16 1" by (simp add: demo_peer_def create_transport_state_def)
  ultimately show ?thesis
    using handshake_completes [OF demo_handshake_laws _ demo_peers_ready(1,2) _ demo_peers_ready(1,2), where now = 1000 and client_addr = "[1]" and server_addr = "[2]"]
    by fastforce
qed

section \<open>Pinned keys\<close>

definition handle_maintenance_gossip ::
  "('sc, 'sk) transport_env \<Rightarrow> u64 \<Rightarrow> PeerGossip \<Rightarrow> ('sc, 'sk) TransportState \<Rightarrow> ('sc, 'sk) TransportState" where
  "handle_maintenance_gossip env now gossip s =
     (let s = note_peer_activity now (from_node gossip) s
      in s\<lparr>routing_table := snd (process_gossip (te_gossip env) (te_ed env) gossip (routing_table s))\<rparr>)"

text \<open>Everything that touches the routing table: connections from and to anyone who sends anything, gossip from anyone,
  and connections that end.\<close>

datatype peer_event =
    Incoming u64 HandshakeDraw bytes "WireMessage option" bool "WireMessage option" bool
  | Dialled u64 HandshakeDraw bytes bool "WireMessage option" bool "WireMessage option"
  | Gossiped u64 PeerGossip
  | Closed NodeId

fun peer_exec :: "('sc, 'sk) transport_env \<Rightarrow> peer_event \<Rightarrow> ('sc, 'sk) TransportState \<Rightarrow> ('sc, 'sk) TransportState" where
  "peer_exec env (Incoming now d addr r1 s2 r3 s4) s = snd (handle_incoming_connection env now d addr r1 s2 r3 s4 s)"
| "peer_exec env (Dialled now d addr s1 r2 s3 r4) s = snd (connect_to_peer env now d addr s1 r2 s3 r4 s)"
| "peer_exec env (Gossiped now gossip) s = handle_maintenance_gossip env now gossip s"
| "peer_exec env (Closed peer) s = connection_closed peer s"

definition authenticated :: "('sc, 'sk) transport_env \<Rightarrow> Handshake \<Rightarrow> bool" where
  "authenticated env hs \<longleftrightarrow> handshake_verify (te_ed env) (te_kx env) hs \<and>
     (case hs_kem_public_key hs of Some k \<Rightarrow> length k | None \<Rightarrow> 0) = KEM_PUBLIC_KEY_SIZE (te_kx env)"

lemma check_nonce_table [simp]: "routing_table (snd (check_handshake_nonce now n s)) = routing_table s"
  by (simp add: check_handshake_nonce_def split: prod.splits)

lemma check_nonce_state: "check_handshake_nonce now n s = (b, s') \<Longrightarrow> routing_table s' = routing_table s"
  using check_nonce_table [of now n s] by simp

lemma verify_handshake_sound:
  assumes "verify_handshake env now hs s = (b, s')"
  shows "routing_table s' = routing_table s" "b \<Longrightarrow> authenticated env hs \<and> key_continuity (routing_table s) hs"
  using assms
  by (auto simp: verify_handshake_def authenticated_def split: if_splits prod.splits bool.splits option.splits dest: check_nonce_state)

text \<open>Either the table is unchanged, or the peer of a verified, continuous handshake entered it.\<close>

definition table_step :: "('sc, 'sk) transport_env \<Rightarrow> RoutingTable \<Rightarrow> RoutingTable \<Rightarrow> bool" where
  "table_step env t t' \<longleftrightarrow> t' = t \<or> (\<exists>hs addr. t' = add_node (known_node_of hs addr) t \<and> authenticated env hs \<and> key_continuity t hs)"

lemma server_hello_table: "server_hello env now d msg s = (r, s') \<Longrightarrow> routing_table s' = routing_table s"
  by (auto simp: server_hello_def Let_def split: option.splits WireMessage.splits prod.splits bool.splits sum.splits dest: check_nonce_state)

lemma client_welcome_table: "client_welcome env now d msg s = (r, s') \<Longrightarrow> routing_table s' = routing_table s"
  by (auto simp: client_welcome_def Let_def split: option.splits WireMessage.splits prod.splits bool.splits sum.splits dest: check_nonce_state)

lemma finish_table_step:
  assumes "verify_handshake env now hs s = (b, s')"
  shows "b \<Longrightarrow> table_step env (routing_table s) (routing_table (finish_handshake now addr hs s'))" "table_step env (routing_table s) (routing_table s')"
  using verify_handshake_sound [OF assms] by (auto simp: table_step_def finish_handshake_effect(1))

lemma server_identity_table:
  "server_identity env now d addr sess msg sent s = (r, s') \<Longrightarrow> table_step env (routing_table s) (routing_table s')"
  using finish_table_step [of env now _ s]
  by (auto simp: server_identity_def Let_def table_step_def split: option.splits WireMessage.splits prod.splits bool.splits if_splits)

lemma client_identity_table:
  "client_identity env now addr sess msg s = (r, s') \<Longrightarrow> table_step env (routing_table s) (routing_table s')"
  using finish_table_step [of env now _ s]
  by (auto simp: client_identity_def table_step_def split: option.splits WireMessage.splits prod.splits bool.splits)

lemma table_step_refl [simp]: "table_step env t t"
  by (simp add: table_step_def)

lemma handshake_table_step:
  "table_step env (routing_table s) (routing_table (snd (handle_incoming_connection env now d addr r1 s2 r3 s4 s)))"
  "table_step env (routing_table s) (routing_table (snd (connect_to_peer env now d addr s1 r2 s3 r4 s)))"
proof -
  show "table_step env (routing_table s) (routing_table (snd (handle_incoming_connection env now d addr r1 s2 r3 s4 s)))"
    by (auto simp: handle_incoming_connection_def split: option.splits prod.splits dest!: server_hello_table server_identity_table)
  show "table_step env (routing_table s) (routing_table (snd (connect_to_peer env now d addr s1 r2 s3 r4 s)))"
  proof (cases "client_welcome env now d r2 s")
    case (Pair r s')
    obtain b s'' where i: "client_identity env now addr (snd (projr r)) r4 s' = (b, s'')" by fastforce
    show ?thesis using client_welcome_table [OF Pair] client_identity_table [OF i] i
      by (auto simp: connect_to_peer_def Pair split: sum.splits prod.splits)
  qed
qed

definition key_pinned :: "RoutingTable \<Rightarrow> NodeId \<Rightarrow> bytes \<Rightarrow> bytes \<Rightarrow> bool" where
  "key_pinned t i pub ident \<longleftrightarrow> (\<exists>known. get_node t i = Some known \<and> kn_public_key known = pub \<and> kn_identity_public_key known = Some ident)"

lemma pinned_table_step:
  assumes "table_step env t t'" "key_pinned t i pub ident"
  shows "key_pinned t' i pub ident"
proof (cases "t' = t")
  case False
  then obtain hs addr where t': "t' = add_node (known_node_of hs addr) t" and c: "key_continuity t hs"
    using assms(1) by (auto simp: table_step_def)
  obtain known where k: "get_node t i = Some known" "kn_public_key known = pub" "kn_identity_public_key known = Some ident"
    using assms(2) by (auto simp: key_pinned_def)
  show ?thesis
  proof (cases "hs_node_id hs = i")
    case True
    then have "hs_public_key hs = pub" "hs_identity_public_key hs = ident" using c k by (auto simp: key_continuity_def split: if_splits)
    then show ?thesis using True k by (auto simp: t' key_pinned_def add_node_def get_node_def known_node_of_def)
  next
    case False
    then show ?thesis using k by (simp add: t' key_pinned_def add_node_def get_node_def known_node_of_def)
  qed
qed (use assms in simp)

lemma pinned_gossip: "key_pinned t i pub ident \<Longrightarrow> key_pinned (snd (process_gossip env ed g t)) i pub ident"
  using gossip_fold_extends [of env "gossip_peers g" "(t, 0)"]
  by (auto simp: process_gossip_def key_pinned_def gossip_extends_def split_beta split: option.splits)

lemma pinned_exec: "key_pinned (routing_table s) i pub ident \<Longrightarrow> key_pinned (routing_table (peer_exec env ev s)) i pub ident"
  by (cases ev) (auto simp: connection_closed_def handle_maintenance_gossip_def note_peer_activity_def Let_def
      intro: pinned_table_step [OF handshake_table_step(1)] pinned_table_step [OF handshake_table_step(2)] pinned_gossip)

lemma gossip_keeps: "get_node t i = Some known \<Longrightarrow> get_node (snd (process_gossip env ed g t)) i = Some known"
  using gossip_fold_extends [of env "gossip_peers g" "(t, 0)"]
  by (auto simp: process_gossip_def gossip_extends_def split_beta split: option.splits)

text \<open>C4 (invariant). Once a node is known with an identity key, its mix key and its identity key are never replaced, whatever anyone
sends: not by handshakes in either direction, not by gossip, not by disconnecting. Gossip changes nothing of its entry; the rest of the
entry (its KEM key and its address) changes only by a handshake that carries the same mix key and a valid signature of the same identity key. Every entry that a
connection adds or changes belongs to a handshake with a valid signature of its own identity key and a KEM key of the right size that agreed with the
keys known before.\<close>

theorem pinned_keys_kept:
  assumes "get_node (routing_table s) i = Some known" "kn_identity_public_key known = Some ident"
  shows "(\<exists>known'. get_node (routing_table (fold (peer_exec env) evs s)) i = Some known' \<and>
      kn_public_key known' = kn_public_key known \<and> kn_identity_public_key known' = Some ident) \<and>
    (\<forall>ev j n. (\<forall>now g. ev \<noteq> Gossiped now g) \<and> get_node (routing_table (peer_exec env ev s)) j = Some n \<and> get_node (routing_table s) j \<noteq> Some n \<longrightarrow>
      (\<exists>hs addr. n = known_node_of hs addr \<and> hs_node_id hs = j \<and> authenticated env hs \<and> key_continuity (routing_table s) hs)) \<and>
    (\<forall>now g. get_node (routing_table (peer_exec env (Gossiped now g) s)) i = Some known) \<and>
    (\<forall>ev n. get_node (routing_table (peer_exec env ev s)) i = Some n \<and> n \<noteq> known \<longrightarrow>
      (\<exists>hs addr. n = known_node_of hs addr \<and> authenticated env hs \<and> hs_public_key hs = kn_public_key known \<and> hs_identity_public_key hs = ident))"
proof (intro conjI)
  have "key_pinned (routing_table (fold (peer_exec env) evs s)) i (kn_public_key known) ident"
    if "key_pinned (routing_table s) i (kn_public_key known) ident" for s
    using that by (induction evs arbitrary: s) (simp_all add: pinned_exec)
  then show "\<exists>known'. get_node (routing_table (fold (peer_exec env) evs s)) i = Some known' \<and>
      kn_public_key known' = kn_public_key known \<and> kn_identity_public_key known' = Some ident"
    using assms by (simp add: key_pinned_def)
  have new: "\<exists>hs addr. n = known_node_of hs addr \<and> hs_node_id hs = j \<and> authenticated env hs \<and> key_continuity (routing_table s) hs"
    if "table_step env (routing_table s) t'" "get_node t' j = Some n" "get_node (routing_table s) j \<noteq> Some n" for t' j n
    using that by (fastforce simp: table_step_def add_node_def get_node_def known_node_of_def split: if_splits)
  have "table_step env (routing_table s) (routing_table (peer_exec env ev s))" if "\<forall>now g. ev \<noteq> Gossiped now g" for ev
    using that handshake_table_step [of env s] by (cases ev) (auto simp: connection_closed_def)
  with new show all: "\<forall>ev j n. (\<forall>now g. ev \<noteq> Gossiped now g) \<and> get_node (routing_table (peer_exec env ev s)) j = Some n \<and> get_node (routing_table s) j \<noteq> Some n \<longrightarrow>
      (\<exists>hs addr. n = known_node_of hs addr \<and> hs_node_id hs = j \<and> authenticated env hs \<and> key_continuity (routing_table s) hs)"
    by blast
  show gossip: "\<forall>now g. get_node (routing_table (peer_exec env (Gossiped now g) s)) i = Some known"
    by (simp add: handle_maintenance_gossip_def note_peer_activity_def Let_def gossip_keeps [OF assms(1)])
  show "\<forall>ev n. get_node (routing_table (peer_exec env ev s)) i = Some n \<and> n \<noteq> known \<longrightarrow>
      (\<exists>hs addr. n = known_node_of hs addr \<and> authenticated env hs \<and> hs_public_key hs = kn_public_key known \<and> hs_identity_public_key hs = ident)"
  proof (intro allI impI)
    fix ev n
    assume n: "get_node (routing_table (peer_exec env ev s)) i = Some n \<and> n \<noteq> known"
    have "\<forall>now g. ev \<noteq> Gossiped now g"
    proof (intro allI notI)
      fix now g
      assume "ev = Gossiped now g"
      with n gossip show False by (auto simp del: peer_exec.simps)
    qed
    moreover have "get_node (routing_table s) i \<noteq> Some n" using n assms(1) by auto
    ultimately obtain hs addr where "n = known_node_of hs addr" "hs_node_id hs = i" "authenticated env hs" "key_continuity (routing_table s) hs"
      using all n by meson
    with assms show "\<exists>hs addr. n = known_node_of hs addr \<and> authenticated env hs \<and> hs_public_key hs = kn_public_key known \<and> hs_identity_public_key hs = ident"
      by (intro exI [of _ hs] exI [of _ addr]) (auto simp: key_continuity_def split: if_splits)
  qed
qed

definition demo_meeting :: "(u8, nat) TransportState" where
  "demo_meeting = finish_handshake 5 [9] (demo_handshake 3) (demo_peer 1)"

theorem pinned_keys_kept_witness:
  "\<exists>known'. get_node (routing_table (peer_exec demo_transport (Incoming 7 (demo_draw 1) [8] (Some (client_hello demo_transport (demo_draw 2))) True None True)
      (peer_exec demo_transport (Closed (replicate 16 3)) demo_meeting))) (replicate 16 3) = Some known' \<and>
    kn_public_key known' = replicate 32 3 \<and> kn_identity_public_key known' = Some (replicate 32 3)"
proof -
  have "get_node (routing_table demo_meeting) (replicate 16 3) = Some (known_node_of (demo_handshake 3) [9])"
    by (simp add: demo_meeting_def finish_handshake_effect add_node_def get_node_def known_node_of_def demo_handshake_def
        demo_peer_def create_transport_state_def RoutingTable_new_def)
  moreover have keys: "kn_identity_public_key (known_node_of (demo_handshake 3) [9]) = Some (replicate 32 3)"
      "kn_public_key (known_node_of (demo_handshake 3) [9]) = replicate 32 3"
    by (simp_all add: known_node_of_def demo_handshake_def)
  ultimately show ?thesis
    using pinned_keys_kept [THEN conjunct1, of demo_meeting "replicate 16 3" "known_node_of (demo_handshake 3) [9]" "replicate 32 3" demo_transport
        "[Closed (replicate 16 3), Incoming 7 (demo_draw 1) [8] (Some (client_hello demo_transport (demo_draw 2))) True None True]"]
    by (simp only: fold_simps)
qed

section \<open>Bytes lost at the end of a handshake\<close>

text \<open>The buffer of \<open>read_wire_message\<close> is local: what a read delivers beyond the first frame is dropped with it. The
responder may send its first packets right behind its identity, so the initiator can lose the start of a
frame; its connection loop then reads from the middle of that frame and closes the connection.\<close>

lemma handshake_read_drops:
  assumes "framed env msg frame"
  shows "read_wire_message env [] ((frame @ next) # reads) = (Some msg, reads)"
  using assms by (simp add: framed_def)

lemma dropped_bytes_break_connection:
  "\<exists>frame. serialize_message wire_env (\<lambda>n. replicate n 0) (HandshakeMsg (demo_handshake 2)) = Inr frame \<and>
     receive wire_env [] [drop 10 frame] = ([], Some (MessageTooLarge 33686023 6740), drop 10 frame)"
proof -
  let ?frame = "MSG_HANDSHAKE # len_be32 180 @ serialize_handshake (demo_handshake 2)"
  have P: "HYBRID_MAX_MESSAGE_SIZE wire_env = 6735" "PADDED_MESSAGE_SIZE wire_env = 6735"
    using wire_kx_correct(2) by (simp_all add: wire_env_def wire_sizes ml_kem_768_def)
  have s: "serialize_handshake (demo_handshake 2) = replicate 48 2 @ [0, 0] @ [1, 3] @ replicate 128 2"
  proof -
    have "len_be16 0 = [0, 0]" by code_simp
    then show ?thesis by (simp add: serialize_handshake_def demo_handshake_def replicate_add [symmetric] append_assoc [symmetric] del: append_assoc)
  qed
  have d: "drop 10 ?frame = replicate 43 2 @ [0, 0] @ [1, 3] @ replicate 128 2"
  proof -
    have "drop 10 ((MSG_HANDSHAKE # len_be32 180) @ serialize_handshake (demo_handshake 2)) = drop 5 (serialize_handshake (demo_handshake 2))"
      by (simp only: drop_append) simp
    also have "\<dots> = replicate 43 2 @ [0, 0] @ [1, 3] @ replicate 128 2" unfolding s by (simp only: drop_append) simp
    finally show ?thesis by simp
  qed
  have "take 4 (drop 1 (drop 10 ?frame)) = replicate 4 2" unfolding d by simp
  moreover have "be32_len (replicate 4 2) = 33686018"
  proof -
    have "replicate 4 (2 :: u8) = [2, 2, 2, 2]" by (simp add: numeral_eq_Suc)
    then have "be_nat (replicate 4 2) = 33686018" by (simp add: be_nat_def)
    then show ?thesis by (simp add: be32_len_def from_be32_def)
  qed
  ultimately have "try_read_message wire_env (drop 10 ?frame) = (Inl (MessageTooLarge 33686023 6740), drop 10 ?frame)"
    unfolding try_read_message_def Let_def P by (simp add: s)
  then have "receive wire_env [] [drop 10 ?frame] = ([], Some (MessageTooLarge 33686023 6740), drop 10 ?frame)"
    by (simp add: read_frames.simps [of wire_env "drop 5 (serialize_handshake (demo_handshake 2))"])
  moreover have "serialize_message wire_env (\<lambda>n. replicate n 0) (HandshakeMsg (demo_handshake 2)) = Inr ?frame"
    by (simp add: serialize_message_def P s)
  ultimately show ?thesis by blast
qed

end
