(* ===== verification/SwapFlow.thy ===== *)
theory SwapFlow
  imports Transport
begin

text \<open>
  \<^verbatim>\<open>crates/static-mesh/src/transport.rs\<close>, the storage barter on a node: maintenance messages wrapped into
  Sphinx packets, the handlers of proposal, accept, commit, abort and rejection, the retrieval of the
  peer's chunk and the commit that stores it. A handler runs as one step; its clock and random draws are
  arguments. The results, for every sequence of messages, retrievals and timeouts: stored and reserved
  bytes stay within the configured maximum; a chunk is stored only when both commits and the chunk
  itself have arrived, under the terms of the swap; and a pending swap is completed by the chunk and the
  peer's commit in either order.
\<close>

section \<open>Routes\<close>

definition build_route_to_destination :: "shuffle \<Rightarrow> NodeId \<Rightarrow> ('sc, 'sk) TransportState \<Rightarrow> HybridRoute option" where
  "build_route_to_destination shuffle dest s =
     (case get_node (routing_table s) dest of
        None \<Rightarrow> None
      | Some dest_node \<Rightarrow>
          (case kn_kem_public_key dest_node of
             None \<Rightarrow> None
           | Some dest_kem \<Rightarrow>
               (case build_hybrid_route shuffle (routing_table s) dest (kn_public_key dest_node) dest_kem of
                  Some route \<Rightarrow> Some route
                | None \<Rightarrow>
                    Some \<lparr>hybrid_hops = [\<lparr>hh_node_id = dest, hh_classical_public_key = kn_public_key dest_node,
                                           hh_kem_public_key = dest_kem\<rparr>],
                          hybrid_destination = dest\<rparr>)))"

definition build_self_return_route :: "('sc, 'sk) transport_env \<Rightarrow> shuffle \<Rightarrow> ('sc, 'sk) TransportState \<Rightarrow> HybridRoute" where
  "build_self_return_route env shuffle s =
     (let our_pub = mn_public_key (mix_node s);
          our_kem = kem_public (te_kx env) (ts_kem s);
          candidates = filter (\<lambda>n. kn_node_id n \<noteq> ts_node_id s \<and> kn_kem_public_key n \<noteq> None) (hm_values (nodes (routing_table s)));
          intermediates = (if length candidates < MIN_HOPS then [] else map hybrid_hop (take MIN_HOPS (shuffle candidates)))
      in \<lparr>hybrid_hops = intermediates @ [\<lparr>hh_node_id = ts_node_id s, hh_classical_public_key = our_pub, hh_kem_public_key = our_kem\<rparr>],
          hybrid_destination = ts_node_id s\<rparr>)"

section \<open>Sending maintenance messages\<close>

text \<open>The draws of one send: the shuffle of the route candidates, the randomness of the packets, and the two nonces
  a signed message draws, one when it is built and one when it is signed with an all-zero nonce.\<close>

record 'sc SendDraw =
  sd_shuffle :: shuffle
  sd_packets :: "nat \<Rightarrow> 'sc PacketRandom"
  sd_nonce :: bytes
  sd_sign_nonce :: bytes

definition table_kem_lookup :: "RoutingTable \<Rightarrow> NodeId \<Rightarrow> bytes option" where
  "table_kem_lookup table i = (case hm_get (nodes table) i of None \<Rightarrow> None | Some n \<Rightarrow> kn_kem_public_key n)"

definition classical_route :: "HybridRoute \<Rightarrow> Route" where
  "classical_route route =
     \<lparr>route_hops = map (\<lambda>h. \<lparr>rh_public_key = hh_classical_public_key h, rh_node_id = hh_node_id h\<rparr>) (hybrid_hops route),
      route_destination = hybrid_destination route\<rparr>"

text \<open>\<open>connections.get(peer)\<close>, then \<open>sender.send(msg)\<close> for every message.\<close>

definition queue_messages :: "NodeId \<Rightarrow> WireMessage list \<Rightarrow> ('sc, 'sk) TransportState \<Rightarrow> ('sc, 'sk) TransportState" where
  "queue_messages peer msgs s = s\<lparr>connections := hm_modify peer (\<lambda>queue. queue @ msgs) (connections s)\<rparr>"

definition send_maintenance_sphinx ::
  "('sc, 'sk) transport_env \<Rightarrow> 'sc SendDraw \<Rightarrow> NodeId \<Rightarrow> u8 \<Rightarrow> bytes \<Rightarrow> ('sc, 'sk) TransportState \<Rightarrow> ('sc, 'sk) TransportState" where
  "send_maintenance_sphinx env d dest body_type payload s =
     (let body = wrap_maintenance_payload body_type payload in
      case build_route_to_destination (sd_shuffle d) dest s of
        None \<Rightarrow> s
      | Some route \<Rightarrow>
          let first_hop = hh_node_id (hd (hybrid_hops route)) in
          (case create_hybrid_payload_packets (te_sphinx env) (sd_packets d) body (classical_route route)
                  (table_kem_lookup (routing_table s)) of
             Inl _ \<Rightarrow> s
           | Inr packets \<Rightarrow> queue_messages first_hop (map SphinxMsg packets) s))"

definition send_swap_control_sphinx ::
  "('sc, 'sk) transport_env \<Rightarrow> 'sc SendDraw \<Rightarrow> NodeId \<Rightarrow> u8 \<Rightarrow> bytes \<Rightarrow> ('sc, 'sk) TransportState \<Rightarrow> ('sc, 'sk) TransportState" where
  "send_swap_control_sphinx env d peer body_type payload_json s = send_maintenance_sphinx env d peer body_type payload_json s"

text \<open>\<open>if let Ok(json) = serde_json::to_vec(&message)\<close> around a send.\<close>

definition send_json ::
  "('sc, 'sk) transport_env \<Rightarrow> 'sc SendDraw \<Rightarrow> NodeId \<Rightarrow> u8 \<Rightarrow> bytes option \<Rightarrow> ('sc, 'sk) TransportState \<Rightarrow> ('sc, 'sk) TransportState" where
  "send_json env d dest body_type json s =
     (case json of Some payload \<Rightarrow> send_maintenance_sphinx env d dest body_type payload s | None \<Rightarrow> s)"

definition send_maintenance_reject ::
  "('sc, 'sk) transport_env \<Rightarrow> 'sc SendDraw \<Rightarrow> NodeId \<Rightarrow> bytes \<Rightarrow> SwapRejectReason \<Rightarrow> ('sc, 'sk) TransportState \<Rightarrow> ('sc, 'sk) TransportState" where
  "send_maintenance_reject env d dest pid reason s =
     send_json env d dest MSG_BODY_SWAP_REJECT (reject_json env (create_swap_reject (ts_node_id s) pid reason)) s"

text \<open>A signed abort; the three handlers that give a swap up send the same message.\<close>

definition send_abort ::
  "('sc, 'sk) transport_env \<Rightarrow> 'sc SendDraw \<Rightarrow> NodeId \<Rightarrow> bytes \<Rightarrow> bytes \<Rightarrow> ('sc, 'sk) TransportState \<Rightarrow> ('sc, 'sk) TransportState" where
  "send_abort env d dest pid reason s =
     (let abort = create_swap_abort (te_ed env) (sd_nonce d) [] pid (ts_node_id s) reason None;
          abort = abort_sign (te_ed env) (sd_sign_nonce d) (identity_key s) abort
      in send_json env d dest MSG_BODY_SWAP_ABORT (abort_json env abort) s)"

definition check_maintenance_sender :: "('sc, 'sk) TransportState \<Rightarrow> NodeId \<Rightarrow> bytes \<Rightarrow> bool" where
  "check_maintenance_sender s claimed presented_identity =
     (case get_node (routing_table s) claimed of
        Some known \<Rightarrow> (case kn_identity_public_key known of Some stored \<Rightarrow> stored = presented_identity | None \<Rightarrow> True)
      | None \<Rightarrow> True)"

section \<open>Proposals\<close>

definition CHUNK_LEN :: u64 where "CHUNK_LEN = word_of_nat (CHUNK_SIZE + 16)"

definition begin_swap_proposal ::
  "('sc, 'sk) transport_env \<Rightarrow> u64 \<Rightarrow> NodeId \<Rightarrow> SwapProposal \<Rightarrow> ('sc, 'sk) TransportState \<Rightarrow> bytes \<times> ('sc, 'sk) TransportState" where
  "begin_swap_proposal env now peer p s =
     (let pid = proposal_id (blake3 (te_storage env)) p;
          swap = \<lparr>ps_proposal_id = pid, ps_peer = peer, our_chunk_id = prop_chunk_id p, their_chunk_id = replicate 32 0,
                  their_chunk_data = [], ps_reserved_bytes = 0, received_their_chunk = False, retrieval_requested = False,
                  ps_content_root = replicate 32 0, ps_merkle_proof = \<lparr>leaf_index = 0, siblings = []\<rparr>,
                  sent_commit = False, received_commit = False, ps_renewal_token = replicate 32 0, lease_expires_at = 0,
                  ps_content_pub_key = replicate 32 0, started_at = now\<rparr>
      in (pid, s\<lparr>swap_state := start_pending_swap swap (swap_state s)\<rparr>))"

text \<open>The end of the prepare phase: the swap is recorded and the signed accept goes out.\<close>

definition accepted_swap :: "u64 \<Rightarrow> bytes \<Rightarrow> SwapProposal \<Rightarrow> ChunkId \<Rightarrow> PendingSwap" where
  "accepted_swap now pid p ret_id =
     \<lparr>ps_proposal_id = pid, ps_peer = prop_from_node p, our_chunk_id = ret_id, their_chunk_id = prop_chunk_id p,
      their_chunk_data = [], ps_reserved_bytes = CHUNK_LEN, received_their_chunk = False, retrieval_requested = False,
      ps_content_root = prop_content_root p, ps_merkle_proof = prop_merkle_proof p,
      sent_commit = False, received_commit = False, ps_renewal_token = renewal_token (prop_lease p),
      lease_expires_at = expires_at (prop_lease p), ps_content_pub_key = prop_content_public_key p, started_at = now\<rparr>"

definition accept_message ::
  "('sc, 'sk) transport_env \<Rightarrow> u64 \<Rightarrow> 'sc SendDraw \<Rightarrow> ChunkId \<Rightarrow> bytes \<Rightarrow> ('sc, 'sk) TransportState \<Rightarrow> SwapAccept" where
  "accept_message env now d ret_id pid s =
     accept_sign (te_ed env) (sd_sign_nonce d) (identity_key s)
       (create_swap_accept (te_storage env) (te_ed env) now (sd_nonce d) [] (ts_node_id s) ret_id (storage_key s) pid 86400)"

definition accept_proposal ::
  "('sc, 'sk) transport_env \<Rightarrow> u64 \<Rightarrow> 'sc SendDraw \<Rightarrow> bytes \<Rightarrow> SwapProposal \<Rightarrow> ChunkId \<Rightarrow> ('sc, 'sk) TransportState \<Rightarrow> ('sc, 'sk) TransportState" where
  "accept_proposal env now d pid p ret_id s =
     (let s = s\<lparr>storage_capacity := reserve CHUNK_LEN (storage_capacity s)\<rparr>;
          s = s\<lparr>swap_state := start_pending_swap (accepted_swap now pid p ret_id) (snd (remove_proposal pid (swap_state s)))\<rparr>
      in send_json env d (prop_from_node p) MSG_BODY_SWAP_ACCEPT (accept_json env (accept_message env now d ret_id pid s)) s)"

definition handle_maintenance_proposal ::
  "('sc, 'sk) transport_env \<Rightarrow> u64 \<Rightarrow> 'sc SendDraw \<Rightarrow> SwapProposal \<Rightarrow> ('sc, 'sk) TransportState \<Rightarrow> ('sc, 'sk) TransportState" where
  "handle_maintenance_proposal env now d p s =
     (let sender = prop_from_node p;
          s = note_peer_activity now sender s;
          s = s\<lparr>storage_capacity := capacity_reconcile (total_bytes (chunk_holder s)) (storage_capacity s)\<rparr>;
          peer_chunks = (case hm_get (peer_chunk_counts s) sender of Some n \<Rightarrow> n | None \<Rightarrow> 0);
          pid = proposal_id (blake3 (te_storage env)) p
      in case decide_on_swap (te_ed env) p (storage_capacity s) peer_chunks (CHUNK_SIZE + 16) now of
           Inr _ \<Rightarrow>
             (case find (\<lambda>(i, _). i \<noteq> prop_chunk_id p) (holder_chunks (chunk_holder s)) of
                None \<Rightarrow> send_maintenance_reject env d sender pid NoCapacity s
              | Some (ret_id, _) \<Rightarrow>
                  if MAX_PENDING_SWAPS \<le> hm_len (pending_swaps (swap_state s)) then send_maintenance_reject env d sender pid NoCapacity s
                  else if \<not> can_accept (storage_capacity s) CHUNK_LEN peer_chunks then send_maintenance_reject env d sender pid NoCapacity s
                  else accept_proposal env now d pid p ret_id s)
         | Inl reason \<Rightarrow>
             let swaps = snd (remove_proposal pid (swap_state s));
                 s = s\<lparr>swap_state := swaps\<lparr>rejected_swaps := rejected_swaps swaps + 1\<rparr>\<rparr>
             in send_maintenance_reject env d sender pid reason s)"

section \<open>Finishing and giving up\<close>

text \<open>\<open>abort_swap\<close> and, when a swap was pending, the release of its reservation.\<close>

definition drop_swap :: "bytes \<Rightarrow> ('sc, 'sk) TransportState \<Rightarrow> ('sc, 'sk) TransportState" where
  "drop_swap pid s =
     (case abort_swap pid (swap_state s) of
        (None, swaps) \<Rightarrow> s\<lparr>swap_state := swaps\<rparr>
      | (Some swap, swaps) \<Rightarrow>
          s\<lparr>swap_state := swaps, storage_capacity := release_reserved (ps_reserved_bytes swap) False (storage_capacity s)\<rparr>)"

definition swap_lease :: "PendingSwap \<Rightarrow> ChunkLease" where
  "swap_lease swap = \<lparr>lease_chunk_id = their_chunk_id swap, expires_at = lease_expires_at swap,
     renewal_token = ps_renewal_token swap, lease_content_pub_key = ps_content_pub_key swap\<rparr>"

definition store_swap :: "PendingSwap \<Rightarrow> ('sc, 'sk) TransportState \<Rightarrow> ('sc, 'sk) TransportState" where
  "store_swap swap s =
     (let already = holder_has_chunk (chunk_holder s) (their_chunk_id swap);
          s = (if \<not> already then
                 s\<lparr>chunk_holder := holder_add_chunk (their_chunk_id swap) (their_chunk_data swap) (replicate 32 0) (chunk_holder s)\<rparr>
               else s);
          stored_new = (\<not> already);
          s = s\<lparr>storage_capacity := release_reserved (ps_reserved_bytes swap) stored_new (storage_capacity s)\<rparr>
      in if stored_new then
           let s = s\<lparr>peer_chunk_counts := hm_insert (ps_peer swap)
                       ((case hm_get (peer_chunk_counts s) (ps_peer swap) of Some n \<Rightarrow> n | None \<Rightarrow> 0) + 1) (peer_chunk_counts s)\<rparr>
           in s\<lparr>lease_manager := map_option (add_lease (their_chunk_id swap) (swap_lease swap)) (lease_manager s)\<rparr>
         else s)"

definition finalize_swap_if_ready :: "bytes \<Rightarrow> ('sc, 'sk) TransportState \<Rightarrow> bool \<times> ('sc, 'sk) TransportState" where
  "finalize_swap_if_ready pid s =
     (let ready = (case get_pending_swap (swap_state s) pid of
                     Some swap \<Rightarrow> sent_commit swap \<and> received_commit swap \<and> received_their_chunk swap
                   | None \<Rightarrow> False)
      in if \<not> ready then (False, s)
         else case complete_swap pid (swap_state s) of
                (None, swaps) \<Rightarrow> (False, s\<lparr>swap_state := swaps\<rparr>)
              | (Some swap, swaps) \<Rightarrow> (True, store_swap swap (s\<lparr>swap_state := swaps\<rparr>)))"

section \<open>Answers of the peer\<close>

text \<open>The checks in front of every signed message: signature, key continuity and a fresh nonce.\<close>

definition authentic_sender :: "u64 \<Rightarrow> bool \<Rightarrow> NodeId \<Rightarrow> bytes \<Rightarrow> bytes \<Rightarrow> ('sc, 'sk) TransportState \<Rightarrow> bool \<times> ('sc, 'sk) TransportState" where
  "authentic_sender now signature_ok sender identity nonce s =
     (let s = note_peer_activity now sender s in
      if \<not> signature_ok then (False, s)
      else if \<not> check_maintenance_sender s sender identity then (False, s)
      else check_maintenance_nonce now nonce s)"

definition swap_with :: "bytes \<Rightarrow> NodeId \<Rightarrow> ('sc, 'sk) TransportState \<Rightarrow> bool" where
  "swap_with pid sender s =
     (case get_pending_swap (swap_state s) pid of Some swap \<Rightarrow> ps_peer swap = sender | None \<Rightarrow> False)"

definition bind_accept :: "SwapAccept \<Rightarrow> PendingSwap \<Rightarrow> PendingSwap" where
  "bind_accept a swap =
     (let swap = swap\<lparr>their_chunk_id := acc_chunk_id a, ps_reserved_bytes := CHUNK_LEN,
                      ps_renewal_token := renewal_token (acc_lease a), lease_expires_at := expires_at (acc_lease a)\<rparr>
      in if acc_return_content_root a \<noteq> replicate 32 0
         then swap\<lparr>ps_content_root := acc_return_content_root a, ps_merkle_proof := acc_return_merkle_proof a\<rparr> else swap)"

definition handle_maintenance_accept ::
  "('sc, 'sk) transport_env \<Rightarrow> u64 \<Rightarrow> 'sc SendDraw \<Rightarrow> SwapAccept \<Rightarrow> ('sc, 'sk) TransportState \<Rightarrow> ('sc, 'sk) TransportState" where
  "handle_maintenance_accept env now d a s =
     (let sender = acc_from_node a; pid = acc_proposal_id a in
      case authentic_sender now (accept_verify_signature (te_ed env) a) sender (acc_identity_public_key a) (acc_nonce a) s of
        (False, s) \<Rightarrow> s
      | (True, s) \<Rightarrow>
          if \<not> swap_with pid sender s then s
          else if \<not> can_accept (storage_capacity s) CHUNK_LEN 0 then
            send_abort env d sender pid (ascii_bytes ''no capacity for return chunk'') (drop_swap pid s)
          else
            let s = s\<lparr>storage_capacity := reserve CHUNK_LEN (storage_capacity s)\<rparr>
            in s\<lparr>swap_state := (swap_state s)\<lparr>pending_swaps := hm_modify pid (bind_accept a) (pending_swaps (swap_state s))\<rparr>\<rparr>)"

definition handle_maintenance_commit ::
  "('sc, 'sk) transport_env \<Rightarrow> u64 \<Rightarrow> SwapCommit \<Rightarrow> ('sc, 'sk) TransportState \<Rightarrow> ('sc, 'sk) TransportState" where
  "handle_maintenance_commit env now c s =
     (let sender = com_from_node c; pid = com_proposal_id c in
      case authentic_sender now (commit_verify_signature (te_ed env) c) sender (com_identity_public_key c) (com_nonce c) s of
        (False, s) \<Rightarrow> s
      | (True, s) \<Rightarrow>
          if \<not> swap_with pid sender s then s
          else
            let s = s\<lparr>swap_state := snd (mark_commit_received pid (swap_state s))\<rparr>
            in snd (finalize_swap_if_ready pid s))"

definition handle_maintenance_abort ::
  "('sc, 'sk) transport_env \<Rightarrow> u64 \<Rightarrow> SwapAbort \<Rightarrow> ('sc, 'sk) TransportState \<Rightarrow> ('sc, 'sk) TransportState" where
  "handle_maintenance_abort env now a s =
     (let sender = abo_from_node a; pid = abo_proposal_id a in
      case authentic_sender now (abort_verify_signature (te_ed env) a) sender (abo_identity_public_key a) (abo_nonce a) s of
        (False, s) \<Rightarrow> s
      | (True, s) \<Rightarrow>
          if \<not> swap_with pid sender s then s\<lparr>swap_state := snd (remove_proposal pid (swap_state s))\<rparr>
          else drop_swap pid s)"

definition handle_maintenance_reject :: "SwapReject \<Rightarrow> ('sc, 'sk) TransportState \<Rightarrow> ('sc, 'sk) TransportState" where
  "handle_maintenance_reject r s =
     (let swaps = (swap_state s)\<lparr>rejected_swaps := rejected_swaps (swap_state s) + 1\<rparr>
      in s\<lparr>swap_state := snd (remove_proposal (rej_proposal_id r) swaps)\<rparr>)"

section \<open>The chunk of the peer\<close>

definition commit_message :: "('sc, 'sk) transport_env \<Rightarrow> 'sc SendDraw \<Rightarrow> bytes \<Rightarrow> ('sc, 'sk) TransportState \<Rightarrow> SwapCommit" where
  "commit_message env d pid s =
     commit_sign (te_ed env) (sd_sign_nonce d) (identity_key s) (create_swap_commit (te_ed env) (sd_nonce d) [] pid (ts_node_id s) None)"

definition waiting_swap :: "ChunkId \<Rightarrow> SwapState \<Rightarrow> PendingSwap option" where
  "waiting_swap chunk_id swaps = find (\<lambda>swap. \<not> received_their_chunk swap \<and> their_chunk_id swap = chunk_id) (hm_values (pending_swaps swaps))"

definition handle_swap_chunk_retrieval ::
  "('sc, 'sk) transport_env \<Rightarrow> 'sc SendDraw \<Rightarrow> ChunkId \<Rightarrow> bytes \<Rightarrow> ('sc, 'sk) TransportState \<Rightarrow> bool \<times> ('sc, 'sk) TransportState" where
  "handle_swap_chunk_retrieval env d chunk_id data s =
     (if length data \<noteq> CHUNK_SIZE + 16 then (False, s)
      else case waiting_swap chunk_id (swap_state s) of
             None \<Rightarrow> (False, s)
           | Some swap \<Rightarrow>
               let pid = ps_proposal_id swap; peer = ps_peer swap; root' = ps_content_root swap; prf = ps_merkle_proof swap in
               if root' \<noteq> replicate 32 0 \<and>
                  \<not> verify_chunk (blake3 (te_storage env)) \<lparr>ec_id = chunk_id, ec_data = data\<rparr> prf root' then
                 (True, send_abort env d peer pid (ascii_bytes ''retrieved chunk failed integrity verification'') (drop_swap pid s))
               else (case receive_their_chunk pid data (swap_state s) of
                       (False, swaps) \<Rightarrow> (False, s\<lparr>swap_state := swaps\<rparr>)
                     | (True, swaps) \<Rightarrow>
                         let s = s\<lparr>swap_state := swaps\<rparr>;
                             already = (case get_pending_swap (swap_state s) pid of Some swap \<Rightarrow> sent_commit swap | None \<Rightarrow> False);
                             s = (if \<not> already then
                                    (let s = s\<lparr>swap_state := mark_commit_sent pid (swap_state s)\<rparr>
                                     in send_json env d peer MSG_BODY_SWAP_COMMIT (commit_json env (commit_message env d pid s)) s)
                                  else s)
                         in (True, snd (finalize_swap_if_ready pid s))))"

text \<open>The lifecycle loop's timeout of pending swaps; \<open>ds\<close> are the draws, one for every abort sent.\<close>

definition expire_notice ::
  "('sc, 'sk) transport_env \<Rightarrow> (nat \<Rightarrow> 'sc SendDraw) \<Rightarrow> nat \<times> PendingSwap \<Rightarrow> ('sc, 'sk) TransportState \<Rightarrow> ('sc, 'sk) TransportState" where
  "expire_notice env ds = (\<lambda>(i, swap) s.
     (let s = s\<lparr>storage_capacity := release_reserved (ps_reserved_bytes swap) False (storage_capacity s)\<rparr>
      in send_abort env (ds i) (ps_peer swap) (ps_proposal_id swap) (ascii_bytes ''pending swap timed out'') s))"

definition transport_expire_swaps ::
  "('sc, 'sk) transport_env \<Rightarrow> u64 \<Rightarrow> (nat \<Rightarrow> 'sc SendDraw) \<Rightarrow> ('sc, 'sk) TransportState \<Rightarrow> nat \<times> ('sc, 'sk) TransportState" where
  "transport_expire_swaps env now ds s =
     (case expire_pending_swaps now (pending_swap_timeout_secs s) (swap_state s) of
        (expired, swaps) \<Rightarrow>
          (length expired, fold (expire_notice env ds) (enumerate 0 expired) (s\<lparr>swap_state := swaps\<rparr>)))"

section \<open>Sending changes only the queues\<close>

lemma send_frame:
  "\<exists>q. send_maintenance_sphinx env d dest ty p s = s\<lparr>connections := q\<rparr>"
proof -
  have "\<exists>q. s = s\<lparr>connections := q\<rparr>" by (rule exI [of _ "connections s"]) simp
  then show ?thesis
    by (auto simp: send_maintenance_sphinx_def Let_def queue_messages_def split: option.splits sum.splits)
qed

lemma send_json_frame: "\<exists>q. send_json env d dest ty json s = s\<lparr>connections := q\<rparr>"
proof (cases json)
  case None
  then have "send_json env d dest ty json s = s\<lparr>connections := connections s\<rparr>" by (simp add: send_json_def)
  then show ?thesis by blast
qed (simp add: send_json_def send_frame)

lemma send_json_fields [simp]:
  "swap_state (send_json env d dest ty json s) = swap_state s"
  "storage_capacity (send_json env d dest ty json s) = storage_capacity s"
  "chunk_holder (send_json env d dest ty json s) = chunk_holder s"
  "lease_manager (send_json env d dest ty json s) = lease_manager s"
  "peer_chunk_counts (send_json env d dest ty json s) = peer_chunk_counts s"
  "routing_table (send_json env d dest ty json s) = routing_table s"
  "maintenance_nonces (send_json env d dest ty json s) = maintenance_nonces s"
  using send_json_frame [of env d dest ty json s] by auto

lemmas sends = send_abort_def send_maintenance_reject_def Let_def

definition same_swaps :: "('sc, 'sk) TransportState \<Rightarrow> ('sc, 'sk) TransportState \<Rightarrow> bool" where
  "same_swaps s s' \<longleftrightarrow> swap_state s' = swap_state s \<and> storage_capacity s' = storage_capacity s \<and> chunk_holder s' = chunk_holder s \<and>
     lease_manager s' = lease_manager s \<and> peer_chunk_counts s' = peer_chunk_counts s"

lemma authentic_sender_frame:
  assumes "authentic_sender now sig sender ident nonce s = (ok, s')"
  shows "same_swaps s s'" "ok \<Longrightarrow> sig"
  using assms
  by (auto simp: authentic_sender_def note_peer_activity_def check_maintenance_nonce_def same_swaps_def Let_def split: if_splits prod.splits)

section \<open>The abstract barter\<close>

text \<open>What the handlers do to the pending swaps, the capacity and the stored chunks, one change at a time. With \<open>strict\<close>
  an accept never brings a new content root to a swap whose chunk has already been received.\<close>

record swap_view =
  v_pending :: "(bytes, PendingSwap) hashmap"
  v_capacity :: StorageCapacity
  v_holder :: ChunkHolder

definition swap_view :: "('sc, 'sk) TransportState \<Rightarrow> swap_view" where
  "swap_view s = \<lparr>v_pending = pending_swaps (swap_state s), v_capacity = storage_capacity s, v_holder = chunk_holder s\<rparr>"

definition untouched :: "PendingSwap \<Rightarrow> bool" where
  "untouched swap \<longleftrightarrow> \<not> received_their_chunk swap \<and> \<not> sent_commit swap \<and> \<not> received_commit swap"

definition chunk_verified :: "(bytes \<Rightarrow> bytes) \<Rightarrow> PendingSwap \<Rightarrow> bytes \<Rightarrow> bool" where
  "chunk_verified h swap data \<longleftrightarrow> ps_content_root swap = replicate 32 0 \<or>
     verify_chunk h \<lparr>ec_id = their_chunk_id swap, ec_data = data\<rparr> (ps_merkle_proof swap) (ps_content_root swap)"

definition rebinds :: "SwapAccept \<Rightarrow> PendingSwap \<Rightarrow> bool" where
  "rebinds a swap \<longleftrightarrow> received_their_chunk swap \<and> acc_return_content_root a \<noteq> replicate 32 0"

inductive swap_step :: "bool \<Rightarrow> (bytes \<Rightarrow> bytes) \<Rightarrow> swap_view \<Rightarrow> swap_view \<Rightarrow> bool" for strict h where
  reconcile: "swap_step strict h v (v\<lparr>v_capacity := capacity_reconcile (total_bytes (v_holder v)) (v_capacity v)\<rparr>)"
| begin_swap: "untouched swap \<Longrightarrow> their_chunk_id swap = replicate 32 0 \<Longrightarrow> ps_reserved_bytes swap = 0 \<Longrightarrow>
    swap_step strict h v (v\<lparr>v_pending := hm_insert (ps_proposal_id swap) swap (v_pending v)\<rparr>)"
| prepare: "untouched swap \<Longrightarrow> ps_reserved_bytes swap = CHUNK_LEN \<Longrightarrow> can_accept (v_capacity v) CHUNK_LEN n \<Longrightarrow>
    swap_step strict h v (v\<lparr>v_pending := hm_insert (ps_proposal_id swap) swap (v_pending v),
                            v_capacity := reserve CHUNK_LEN (v_capacity v)\<rparr>)"
| bind: "hm_get (v_pending v) pid = Some swap \<Longrightarrow> can_accept (v_capacity v) CHUNK_LEN 0 \<Longrightarrow> (strict \<Longrightarrow> \<not> rebinds a swap) \<Longrightarrow>
    swap_step strict h v (v\<lparr>v_pending := hm_modify pid (bind_accept a) (v_pending v),
                            v_capacity := reserve CHUNK_LEN (v_capacity v)\<rparr>)"
| receive_chunk: "hm_get (v_pending v) pid = Some swap \<Longrightarrow> \<not> received_their_chunk swap \<Longrightarrow> length data = CHUNK_SIZE + 16 \<Longrightarrow>
    chunk_verified h swap data \<Longrightarrow>
    swap_step strict h v (v\<lparr>v_pending := hm_modify pid (\<lambda>x. x\<lparr>their_chunk_data := data, received_their_chunk := True, sent_commit := True\<rparr>) (v_pending v)\<rparr>)"
| receive_commit: "swap_step strict h v (v\<lparr>v_pending := hm_modify pid (\<lambda>x. x\<lparr>received_commit := True\<rparr>) (v_pending v)\<rparr>)"
| give_up: "hm_get (v_pending v) pid = Some swap \<Longrightarrow>
    swap_step strict h v (v\<lparr>v_pending := hm_remove pid (v_pending v),
                            v_capacity := release_reserved (ps_reserved_bytes swap) False (v_capacity v)\<rparr>)"
| store_chunk: "hm_get (v_pending v) pid = Some swap \<Longrightarrow> sent_commit swap \<Longrightarrow> received_commit swap \<Longrightarrow> received_their_chunk swap \<Longrightarrow>
    new = (\<not> holder_has_chunk (v_holder v) (their_chunk_id swap)) \<Longrightarrow>
    swap_step strict h v
      (v\<lparr>v_pending := hm_remove pid (v_pending v),
         v_holder := (if new then holder_add_chunk (their_chunk_id swap) (their_chunk_data swap) (replicate 32 0) (v_holder v) else v_holder v),
         v_capacity := release_reserved (ps_reserved_bytes swap) new (v_capacity v)\<rparr>)"

definition keyed :: "(bytes, PendingSwap) hashmap \<Rightarrow> bool" where
  "keyed m \<longleftrightarrow> hm_wf m \<and> (\<forall>k swap. hm_get m k = Some swap \<longrightarrow> ps_proposal_id swap = k)"

text \<open>Everything that reaches the barter of a node.\<close>

datatype 'sc swap_event =
    ProposalSent u64 NodeId SwapProposal
  | ProposalIn u64 "'sc SendDraw" SwapProposal
  | AcceptIn u64 "'sc SendDraw" SwapAccept
  | CommitIn u64 SwapCommit
  | AbortIn u64 SwapAbort
  | RejectIn SwapReject
  | ChunkIn "'sc SendDraw" ChunkId bytes
  | SwapTimeout u64 "nat \<Rightarrow> 'sc SendDraw"

fun swap_exec :: "('sc, 'sk) transport_env \<Rightarrow> 'sc swap_event \<Rightarrow> ('sc, 'sk) TransportState \<Rightarrow> ('sc, 'sk) TransportState" where
  "swap_exec env (ProposalSent now peer p) s = snd (begin_swap_proposal env now peer p s)"
| "swap_exec env (ProposalIn now d p) s = handle_maintenance_proposal env now d p s"
| "swap_exec env (AcceptIn now d a) s = handle_maintenance_accept env now d a s"
| "swap_exec env (CommitIn now c) s = handle_maintenance_commit env now c s"
| "swap_exec env (AbortIn now a) s = handle_maintenance_abort env now a s"
| "swap_exec env (RejectIn r) s = handle_maintenance_reject r s"
| "swap_exec env (ChunkIn d i data) s = snd (handle_swap_chunk_retrieval env d i data s)"
| "swap_exec env (SwapTimeout now ds) s = snd (transport_expire_swaps env now ds s)"

fun timely :: "('sc, 'sk) TransportState \<Rightarrow> 'sc swap_event \<Rightarrow> bool" where
  "timely s (AcceptIn now d a) = (case get_pending_swap (swap_state s) (acc_proposal_id a) of Some swap \<Rightarrow> \<not> rebinds a swap | None \<Rightarrow> True)"
| "timely s _ = True"

section \<open>The handlers implement the abstract barter\<close>

abbreviation steps :: "bool \<Rightarrow> (bytes \<Rightarrow> bytes) \<Rightarrow> swap_view \<Rightarrow> swap_view \<Rightarrow> bool" where
  "steps strict h \<equiv> (swap_step strict h)\<^sup>*\<^sup>*"

lemma same_view: "same_swaps s s' \<Longrightarrow> swap_view s' = swap_view s"
  by (simp add: same_swaps_def swap_view_def)

lemma view_send [simp]: "swap_view (send_json env d dest ty json s) = swap_view s"
  by (simp add: swap_view_def)

lemma drop_swap_steps: "steps strict h (swap_view s) (swap_view (drop_swap pid s))"
proof (cases "hm_get (pending_swaps (swap_state s)) pid")
  case (Some swap)
  then have "swap_step strict h (swap_view s) (swap_view (drop_swap pid s))"
    using swap_step.give_up [of "swap_view s" pid swap strict h]
    by (simp add: swap_view_def drop_swap_def abort_swap_def)
  then show ?thesis by blast
qed (simp add: swap_view_def drop_swap_def abort_swap_def)

lemma finalize_steps: "steps strict h (swap_view s) (swap_view (snd (finalize_swap_if_ready pid s)))"
proof (cases "\<exists>swap. hm_get (pending_swaps (swap_state s)) pid = Some swap \<and> sent_commit swap \<and> received_commit swap \<and> received_their_chunk swap")
  case True
  then obtain swap where sw: "hm_get (pending_swaps (swap_state s)) pid = Some swap" "sent_commit swap" "received_commit swap" "received_their_chunk swap"
    by blast
  then have "swap_step strict h (swap_view s) (swap_view (snd (finalize_swap_if_ready pid s)))"
    using swap_step.store_chunk [of "swap_view s" pid swap "\<not> holder_has_chunk (chunk_holder s) (their_chunk_id swap)" strict h]
    by (auto simp: swap_view_def finalize_swap_if_ready_def get_pending_swap_def complete_swap_def store_swap_def Let_def)
  then show ?thesis by blast
qed (auto simp: finalize_swap_if_ready_def get_pending_swap_def Let_def split: option.splits)

lemma view_reject: "swap_view (send_maintenance_reject env d dest pid reason s) = swap_view s"
  by (simp add: send_maintenance_reject_def)

lemma view_prepare:
  "swap_view (accept_proposal env now d pid p ret_id s) = (swap_view s)\<lparr>v_pending := hm_insert pid (accepted_swap now pid p ret_id) (v_pending (swap_view s)),
     v_capacity := reserve CHUNK_LEN (v_capacity (swap_view s))\<rparr>"
  by (simp add: accept_proposal_def Let_def swap_view_def remove_proposal_def start_pending_swap_def accepted_swap_def)

lemma proposal_steps: "steps strict h (swap_view s) (swap_view (handle_maintenance_proposal env now d p s))"
proof -
  let ?cap = "capacity_reconcile (total_bytes (chunk_holder s)) (storage_capacity s)"
  let ?v = "(swap_view s)\<lparr>v_capacity := ?cap\<rparr>"
  have r: "swap_step strict h (swap_view s) ?v"
    using swap_step.reconcile [of strict h "swap_view s"] by (simp add: swap_view_def)
  have a: "swap_step strict h ?v (?v\<lparr>v_pending := hm_insert pid (accepted_swap now pid p ret_id) (v_pending ?v), v_capacity := reserve CHUNK_LEN ?cap\<rparr>)"
    if "can_accept ?cap CHUNK_LEN n" for pid ret_id n
    using swap_step.prepare [of "accepted_swap now pid p ret_id" ?v n strict h] that
    by (simp add: untouched_def accepted_swap_def)
  have "swap_view (handle_maintenance_proposal env now d p s) = ?v \<or>
     (\<exists>pid ret_id n. can_accept ?cap CHUNK_LEN n \<and> swap_view (handle_maintenance_proposal env now d p s) =
        ?v\<lparr>v_pending := hm_insert pid (accepted_swap now pid p ret_id) (v_pending ?v), v_capacity := reserve CHUNK_LEN ?cap\<rparr>)"
    unfolding handle_maintenance_proposal_def note_peer_activity_def Let_def
    by (simp split: sum.split option.split add: view_reject view_prepare split_beta) (auto simp: swap_view_def remove_proposal_def)
  then show ?thesis
  proof
    assume "\<exists>pid ret_id n. can_accept ?cap CHUNK_LEN n \<and> swap_view (handle_maintenance_proposal env now d p s) =
        ?v\<lparr>v_pending := hm_insert pid (accepted_swap now pid p ret_id) (v_pending ?v), v_capacity := reserve CHUNK_LEN ?cap\<rparr>"
    then have "swap_step strict h ?v (swap_view (handle_maintenance_proposal env now d p s))" using a by metis
    with r show ?thesis by (blast intro: converse_rtranclp_into_rtranclp)
  qed (use r in auto)
qed

lemma accept_steps:
  assumes "strict \<Longrightarrow> timely s (AcceptIn now d a)"
  shows "steps strict h (swap_view s) (swap_view (handle_maintenance_accept env now d a s))"
proof -
  obtain ok s1 where au: "authentic_sender now (accept_verify_signature (te_ed env) a) (acc_from_node a) (acc_identity_public_key a) (acc_nonce a) s = (ok, s1)"
    by fastforce
  have same: "same_swaps s s1" using authentic_sender_frame(1) [OF au] .
  show ?thesis
  proof (cases "ok \<and> swap_with (acc_proposal_id a) (acc_from_node a) s1 \<and> can_accept (storage_capacity s1) CHUNK_LEN 0")
    case True
    then obtain swap where sw: "hm_get (pending_swaps (swap_state s)) (acc_proposal_id a) = Some swap"
      using same by (auto simp: swap_with_def get_pending_swap_def same_swaps_def split: option.splits)
    have "swap_step strict h (swap_view s) (swap_view (handle_maintenance_accept env now d a s))"
      using swap_step.bind [of "swap_view s" "acc_proposal_id a" swap strict a h] True sw assms same au
      by (simp add: swap_view_def handle_maintenance_accept_def get_pending_swap_def same_swaps_def Let_def)
    then show ?thesis by blast
  next
    case False
    then have "swap_view (handle_maintenance_accept env now d a s) = swap_view s1 \<or>
      swap_view (handle_maintenance_accept env now d a s) = swap_view (drop_swap (acc_proposal_id a) s1)"
      by (auto simp: handle_maintenance_accept_def au sends split: bool.splits)
    then show ?thesis using same_view [OF same] drop_swap_steps [of strict h s1 "acc_proposal_id a"] by auto
  qed
qed

lemma commit_steps: "steps strict h (swap_view s) (swap_view (handle_maintenance_commit env now c s))"
proof -
  obtain ok s1 where au: "authentic_sender now (commit_verify_signature (te_ed env) c) (com_from_node c) (com_identity_public_key c) (com_nonce c) s = (ok, s1)"
    by fastforce
  have v: "swap_view s1 = swap_view s" using same_view [OF authentic_sender_frame(1) [OF au]] .
  let ?s2 = "s1\<lparr>swap_state := snd (mark_commit_received (com_proposal_id c) (swap_state s1))\<rparr>"
  have "swap_view ?s2 = swap_view s1 \<or> swap_step strict h (swap_view s1) (swap_view ?s2)"
    using swap_step.receive_commit [of strict h "swap_view s1" "com_proposal_id c"]
    by (simp add: mark_commit_received_def swap_view_def split: option.split)
  then have "steps strict h (swap_view s1) (swap_view ?s2)" by (auto simp del: swap_view.simps)
  then have "steps strict h (swap_view s1) (swap_view (snd (finalize_swap_if_ready (com_proposal_id c) ?s2)))"
    by (rule rtranclp_trans [OF _ finalize_steps])
  then show ?thesis
    by (cases ok) (simp_all add: handle_maintenance_commit_def au v Let_def)
qed

lemma abort_steps: "steps strict h (swap_view s) (swap_view (handle_maintenance_abort env now a s))"
proof -
  obtain ok s1 where au: "authentic_sender now (abort_verify_signature (te_ed env) a) (abo_from_node a) (abo_identity_public_key a) (abo_nonce a) s = (ok, s1)"
    by fastforce
  have v: "swap_view s1 = swap_view s" using same_view [OF authentic_sender_frame(1) [OF au]] .
  moreover have "swap_view (s1\<lparr>swap_state := snd (remove_proposal pid (swap_state s1))\<rparr>) = swap_view s1" for pid
    by (simp add: swap_view_def remove_proposal_def)
  ultimately show ?thesis
    using drop_swap_steps [of strict h s1 "abo_proposal_id a"] by (cases ok) (simp_all add: handle_maintenance_abort_def au Let_def)
qed

lemma waiting_swapD:
  assumes "waiting_swap chunk_id swaps = Some swap" "keyed (pending_swaps swaps)"
  shows "hm_get (pending_swaps swaps) (ps_proposal_id swap) = Some swap" "\<not> received_their_chunk swap" "their_chunk_id swap = chunk_id"
proof -
  have sw: "swap \<in> set (hm_values (pending_swaps swaps))" "\<not> received_their_chunk swap \<and> their_chunk_id swap = chunk_id"
    using assms(1) by (auto simp: waiting_swap_def find_Some_iff)
  then show "\<not> received_their_chunk swap" "their_chunk_id swap = chunk_id" by auto
  from sw(1) obtain k where k: "hm_get (pending_swaps swaps) k = Some swap"
    using assms(2) by (auto simp: hm_values_def keyed_def hm_wf_get_iff)
  then show "hm_get (pending_swaps swaps) (ps_proposal_id swap) = Some swap"
    using assms(2) by (auto simp: keyed_def)
qed

text \<open>The chunk and our own commit are recorded in one go, unless the chunk fails verification.\<close>

definition take_chunk :: "bytes \<Rightarrow> bytes \<Rightarrow> SwapState \<Rightarrow> SwapState" where
  "take_chunk pid data swaps = swaps\<lparr>pending_swaps :=
     hm_modify pid (\<lambda>x. x\<lparr>their_chunk_data := data, received_their_chunk := True, sent_commit := True\<rparr>) (pending_swaps swaps)\<rparr>"

lemma hm_modify_twice: "hm_modify k f (hm_modify k g m) = hm_modify k (f \<circ> g) m"
  by (induction m) (auto simp: hm_modify_def)

lemma hm_modify_cong: "hm_get m k = Some v \<Longrightarrow> f v = g v \<Longrightarrow> hm_modify k f m = hm_modify k g m"
  by (induction m) (auto simp: hm_modify_def hm_get_def split: if_splits)

lemma take_chunk_alt:
  assumes "hm_get (pending_swaps swaps) pid = Some swap"
  obtains swaps' where "receive_their_chunk pid data swaps = (True, swaps')"
    "get_pending_swap swaps' pid = Some (swap\<lparr>their_chunk_data := data, received_their_chunk := True\<rparr>)"
    "mark_commit_sent pid swaps' = take_chunk pid data swaps" "sent_commit swap \<Longrightarrow> swaps' = take_chunk pid data swaps"
proof -
  let ?s = "swaps\<lparr>pending_swaps := hm_modify pid (\<lambda>x. x\<lparr>their_chunk_data := data, received_their_chunk := True\<rparr>) (pending_swaps swaps)\<rparr>"
  have "mark_commit_sent pid ?s = take_chunk pid data swaps"
    by (simp add: mark_commit_sent_def take_chunk_def hm_modify_twice comp_def)
  moreover have "?s = take_chunk pid data swaps" if "sent_commit swap"
    using hm_modify_cong [OF assms, of "\<lambda>x. x\<lparr>their_chunk_data := data, received_their_chunk := True\<rparr>"
      "\<lambda>x. x\<lparr>their_chunk_data := data, received_their_chunk := True, sent_commit := True\<rparr>"] that
    by (simp add: take_chunk_def)
  ultimately show ?thesis using assms by (intro that [of ?s]) (simp_all add: receive_their_chunk_def get_pending_swap_def)
qed

lemma retrieval_taken:
  assumes keyed: "keyed (pending_swaps (swap_state s))" and w: "waiting_swap i (swap_state s) = Some swap"
    and data: "length data = CHUNK_SIZE + 16" "chunk_verified (blake3 (te_storage env)) swap data"
  obtains s1 where "same_swaps (s\<lparr>swap_state := take_chunk (ps_proposal_id swap) data (swap_state s)\<rparr>) s1"
    "handle_swap_chunk_retrieval env d i data s = (True, snd (finalize_swap_if_ready (ps_proposal_id swap) s1))"
proof -
  let ?pid = "ps_proposal_id swap"
  note D = waiting_swapD [OF w keyed]
  obtain swaps' where T: "receive_their_chunk ?pid data (swap_state s) = (True, swaps')"
      "get_pending_swap swaps' ?pid = Some (swap\<lparr>their_chunk_data := data, received_their_chunk := True\<rparr>)"
      "mark_commit_sent ?pid swaps' = take_chunk ?pid data (swap_state s)" "sent_commit swap \<Longrightarrow> swaps' = take_chunk ?pid data (swap_state s)"
    using take_chunk_alt [OF D(1)] by metis
  let ?s2 = "s\<lparr>swap_state := take_chunk ?pid data (swap_state s)\<rparr>"
  let ?s3 = "if sent_commit swap then ?s2
     else send_json env d (ps_peer swap) MSG_BODY_SWAP_COMMIT (commit_json env (commit_message env d ?pid ?s2)) ?s2"
  have "\<not> (ps_content_root swap \<noteq> replicate 32 0 \<and>
      \<not> verify_chunk (blake3 (te_storage env)) \<lparr>ec_id = i, ec_data = data\<rparr> (ps_merkle_proof swap) (ps_content_root swap))"
    using data(2) D(3) by (simp add: chunk_verified_def)
  then have "handle_swap_chunk_retrieval env d i data s = (True, snd (finalize_swap_if_ready ?pid ?s3))"
    unfolding handle_swap_chunk_retrieval_def using data(1) by (simp only: if_False w option.case Let_def T(1)) (simp add: T(2-4))
  moreover have "same_swaps ?s2 ?s3" by (simp add: same_swaps_def)
  ultimately show ?thesis using that by blast
qed

lemma retrieval_cases:
  assumes "keyed (pending_swaps (swap_state s))"
  obtains (ignored) "handle_swap_chunk_retrieval env d i data s = (False, s)"
  | (refused) swap s1 where "waiting_swap i (swap_state s) = Some swap" "handle_swap_chunk_retrieval env d i data s = (True, s1)"
      "same_swaps (drop_swap (ps_proposal_id swap) s) s1"
  | (taken) swap s1 where "waiting_swap i (swap_state s) = Some swap" "length data = CHUNK_SIZE + 16"
      "chunk_verified (blake3 (te_storage env)) swap data" "same_swaps (s\<lparr>swap_state := take_chunk (ps_proposal_id swap) data (swap_state s)\<rparr>) s1"
      "handle_swap_chunk_retrieval env d i data s = (True, snd (finalize_swap_if_ready (ps_proposal_id swap) s1))"
proof (cases "length data = CHUNK_SIZE + 16 \<and> waiting_swap i (swap_state s) \<noteq> None")
  case True
  then obtain swap where w: "waiting_swap i (swap_state s) = Some swap" by auto
  show ?thesis
  proof (cases "chunk_verified (blake3 (te_storage env)) swap data")
    case False
    then show ?thesis using True w waiting_swapD(3) [OF w assms] refused
      by (simp add: handle_swap_chunk_retrieval_def chunk_verified_def sends same_swaps_def)
  next
    case ok: True
    then show ?thesis using retrieval_taken [OF assms w _ ok, of d] taken [OF w _ ok] True by metis
  qed
qed (use ignored in \<open>auto simp: handle_swap_chunk_retrieval_def\<close>)

lemma chunk_steps:
  assumes "keyed (pending_swaps (swap_state s))"
  shows "steps strict (blake3 (te_storage env)) (swap_view s) (swap_view (snd (handle_swap_chunk_retrieval env d i data s)))"
  using assms
proof (cases rule: retrieval_cases [where env = env and d = d and i = i and data = data])
  case (refused swap s1)
  then show ?thesis using drop_swap_steps [of strict "blake3 (te_storage env)" s "ps_proposal_id swap"] same_view [OF refused(3)] by simp
next
  case (taken swap s1)
  note D = waiting_swapD [OF taken(1) assms]
  have "swap_step strict (blake3 (te_storage env)) (swap_view s) (swap_view s1)"
    using swap_step.receive_chunk [of "swap_view s" "ps_proposal_id swap" swap data "blake3 (te_storage env)" strict] D taken(2,3) same_view [OF taken(4)]
    by (simp add: swap_view_def take_chunk_def)
  then show ?thesis using taken(5) finalize_steps [of strict "blake3 (te_storage env)" s1 "ps_proposal_id swap"]
    by (simp add: converse_rtranclp_into_rtranclp)
qed simp

lemma expire_fold_pending:
  assumes "distinct ids" "\<forall>k\<in>set ids. hm_get (pending_swaps swaps) k \<noteq> None"
  shows "\<exists>swaps'. fold expire_one ids (out, swaps) = (out @ map (\<lambda>k. the (hm_get (pending_swaps swaps) k)) ids, swaps') \<and>
    pending_swaps swaps' = fold hm_remove ids (pending_swaps swaps)"
  using assms
proof (induction ids arbitrary: out swaps)
  case (Cons k ids)
  then obtain swap where k: "hm_get (pending_swaps swaps) k = Some swap" by auto
  define s1 where "s1 = swaps\<lparr>aborted_swaps := push_bounded MAX_COMPLETED_SWAPS k (aborted_swaps swaps), pending_swaps := hm_remove k (pending_swaps swaps)\<rparr>"
  have one: "expire_one k (out, swaps) = (out @ [swap], s1)" by (simp add: expire_one_def k s1_def)
  have same: "hm_get (pending_swaps s1) j = hm_get (pending_swaps swaps) j" if "j \<in> set ids" for j
    using Cons.prems(1) that by (auto simp: s1_def)
  have "map (\<lambda>k. the (hm_get (pending_swaps s1) k)) ids = map (\<lambda>k. the (hm_get (pending_swaps swaps) k)) ids" using same by simp
  moreover have "pending_swaps s1 = hm_remove k (pending_swaps swaps)" by (simp add: s1_def)
  ultimately show ?case
    using Cons.IH [of s1 "out @ [swap]"] Cons.prems same k one by auto
qed simp

lemma give_up_steps:
  assumes "distinct ids" "\<forall>k\<in>set ids. hm_get (v_pending v) k \<noteq> None"
  shows "steps strict h v (v\<lparr>v_pending := fold hm_remove ids (v_pending v),
    v_capacity := fold (\<lambda>swap. release_reserved (ps_reserved_bytes swap) False) (map (\<lambda>k. the (hm_get (v_pending v) k)) ids) (v_capacity v)\<rparr>)"
  using assms
proof (induction ids arbitrary: v)
  case (Cons k ids)
  then obtain swap where k: "hm_get (v_pending v) k = Some swap" by auto
  define w where "w = v\<lparr>v_pending := hm_remove k (v_pending v), v_capacity := release_reserved (ps_reserved_bytes swap) False (v_capacity v)\<rparr>"
  have "swap_step strict h v w" unfolding w_def by (rule swap_step.give_up [OF k])
  moreover have same: "hm_get (v_pending w) j = hm_get (v_pending v) j" if "j \<in> set ids" for j
    using Cons.prems(1) that by (auto simp: w_def)
  have vals: "map (\<lambda>k. the (hm_get (v_pending w) k)) ids = map (\<lambda>k. the (hm_get (v_pending v) k)) ids" using same by simp
  have "steps strict h w (v\<lparr>v_pending := fold hm_remove (k # ids) (v_pending v),
    v_capacity := fold (\<lambda>swap. release_reserved (ps_reserved_bytes swap) False) (map (\<lambda>k. the (hm_get (v_pending v) k)) (k # ids)) (v_capacity v)\<rparr>)"
    using Cons.IH [of w] Cons.prems same unfolding vals by (simp add: w_def k)
  ultimately show ?case by (rule converse_rtranclp_into_rtranclp)
qed simp

lemma notices_view:
  "swap_view (fold (expire_notice env ds) (enumerate n swaps) s) =
     (swap_view s)\<lparr>v_capacity := fold (\<lambda>swap. release_reserved (ps_reserved_bytes swap) False) swaps (storage_capacity s)\<rparr>"
proof (induction swaps arbitrary: n s)
  case (Cons swap swaps)
  have "storage_capacity (expire_notice env ds (n, swap) s) = release_reserved (ps_reserved_bytes swap) False (storage_capacity s)"
    "swap_view (expire_notice env ds (n, swap) s) = (swap_view s)\<lparr>v_capacity := release_reserved (ps_reserved_bytes swap) False (storage_capacity s)\<rparr>"
    by (simp_all add: expire_notice_def sends swap_view_def)
  then show ?case by (simp add: Cons.IH)
qed (simp add: swap_view_def)

lemma timeout_steps:
  assumes "keyed (pending_swaps (swap_state s))"
  shows "steps strict h (swap_view s) (swap_view (snd (transport_expire_swaps env now ds s)))"
proof -
  define ids where "ids = map fst (filter (\<lambda>(pid, swap). pending_swap_timeout_secs s < saturating_sub now (started_at swap)) (pending_swaps (swap_state s)))"
  have ids: "distinct ids" "\<forall>k\<in>set ids. hm_get (pending_swaps (swap_state s)) k \<noteq> None"
    using assms by (auto simp: ids_def keyed_def hm_wf_def distinct_map_filter hm_get_def map_of_eq_None_iff)
  obtain swaps' where e: "fold expire_one ids ([], swap_state s) = (map (\<lambda>k. the (hm_get (pending_swaps (swap_state s)) k)) ids, swaps')"
      "pending_swaps swaps' = fold hm_remove ids (pending_swaps (swap_state s))"
    using expire_fold_pending [OF ids, of "[]"] by auto
  have "swap_view (snd (transport_expire_swaps env now ds s)) = (swap_view s)\<lparr>v_pending := fold hm_remove ids (v_pending (swap_view s)),
    v_capacity := fold (\<lambda>swap. release_reserved (ps_reserved_bytes swap) False) (map (\<lambda>k. the (hm_get (v_pending (swap_view s)) k)) ids) (v_capacity (swap_view s))\<rparr>"
    unfolding transport_expire_swaps_def expire_pending_swaps_def Let_def ids_def [symmetric] e(1)
    by (simp add: notices_view) (simp add: swap_view_def e(2))
  then show ?thesis using give_up_steps [OF ids(1), of "swap_view s" strict h] ids(2) by (simp add: swap_view_def)
qed

lemma exec_steps:
  assumes "keyed (pending_swaps (swap_state s))" "strict \<Longrightarrow> timely s ev"
  shows "steps strict (blake3 (te_storage env)) (swap_view s) (swap_view (swap_exec env ev s))"
proof (cases ev)
  case (ProposalSent now peer p)
  define swap where "swap = the (hm_get (pending_swaps (swap_state (swap_exec env ev s))) (proposal_id (blake3 (te_storage env)) p))"
  have "swap_step strict (blake3 (te_storage env)) (swap_view s) (swap_view (swap_exec env ev s))"
    using swap_step.begin_swap [of swap strict "blake3 (te_storage env)" "swap_view s"]
    by (simp add: swap_def ProposalSent begin_swap_proposal_def Let_def start_pending_swap_def swap_view_def untouched_def)
  then show ?thesis by blast
next
  case (RejectIn r)
  then show ?thesis by (simp add: handle_maintenance_reject_def remove_proposal_def swap_view_def Let_def)
qed (use assms in \<open>simp_all add: proposal_steps accept_steps commit_steps abort_steps chunk_steps timeout_steps del: timely.simps\<close>)

section \<open>Storage stays within the maximum\<close>

definition held_bytes :: "ChunkHolder \<Rightarrow> nat" where
  "held_bytes holder = sum_list (map length (hm_values (holder_chunks holder)))"

text \<open>The chunk filed under the all-zero identifier is the one chunk that can be stored without a reservation.\<close>

definition unreserved :: "ChunkHolder \<Rightarrow> nat" where
  "unreserved holder = (if holder_has_chunk holder (replicate 32 0) then CHUNK_SIZE + 16 else 0)"

definition reserved_sum :: "(bytes, PendingSwap) hashmap \<Rightarrow> nat" where
  "reserved_sum m = sum_list (map (\<lambda>swap. unat (ps_reserved_bytes swap)) (hm_values m))"

definition pending_ok :: "bool \<Rightarrow> (bytes \<Rightarrow> bytes) \<Rightarrow> PendingSwap \<Rightarrow> bool" where
  "pending_ok strict h swap \<longleftrightarrow> sent_commit swap = received_their_chunk swap \<and>
     (received_their_chunk swap \<longrightarrow> length (their_chunk_data swap) = CHUNK_SIZE + 16 \<and> (strict \<longrightarrow> chunk_verified h swap (their_chunk_data swap))) \<and>
     (ps_reserved_bytes swap = CHUNK_LEN \<or> ps_reserved_bytes swap = 0 \<and> their_chunk_id swap = replicate 32 0)"

definition pendings_ok :: "bool \<Rightarrow> (bytes \<Rightarrow> bytes) \<Rightarrow> (bytes, PendingSwap) hashmap \<Rightarrow> bool" where
  "pendings_ok strict h m \<longleftrightarrow> keyed m \<and> (\<forall>k swap. hm_get m k = Some swap \<longrightarrow> pending_ok strict h swap)"

definition storage_ok :: "swap_view \<Rightarrow> bool" where
  "storage_ok v \<longleftrightarrow> hm_wf (holder_chunks (v_holder v)) \<and> unat (max_bytes (v_capacity v)) \<le> 2 ^ 63 \<and>
     held_bytes (v_holder v) \<le> unat (current_bytes (v_capacity v)) + unreserved (v_holder v) \<and>
     held_bytes (v_holder v) + unat (reserved_bytes (v_capacity v)) \<le> unat (max_bytes (v_capacity v)) + unreserved (v_holder v) \<and>
     unat (current_bytes (v_capacity v)) + unat (reserved_bytes (v_capacity v)) \<le> unat (max_bytes (v_capacity v)) + unreserved (v_holder v) \<and>
     reserved_sum (v_pending v) \<le> unat (reserved_bytes (v_capacity v))"

lemma chunk_len: "unat CHUNK_LEN = 1048592" "CHUNK_SIZE + 16 = 1048592" "CHUNK_LEN = word_of_nat 1048592" "CHUNK_LEN \<noteq> 0"
proof -
  show c: "CHUNK_SIZE + 16 = 1048592" by (simp add: CHUNK_SIZE_def)
  show w: "CHUNK_LEN = word_of_nat 1048592" unfolding CHUNK_LEN_def c ..
  show u: "unat CHUNK_LEN = 1048592" unfolding w by simp
  then show "CHUNK_LEN \<noteq> 0" by auto
qed

lemma pendings_ok_insert: "pendings_ok strict h m \<Longrightarrow> pending_ok strict h swap \<Longrightarrow> pendings_ok strict h (hm_insert (ps_proposal_id swap) swap m)"
  by (auto simp: pendings_ok_def keyed_def)

lemma pendings_ok_remove: "pendings_ok strict h m \<Longrightarrow> pendings_ok strict h (hm_remove k m)"
  by (auto simp: pendings_ok_def keyed_def)

lemma pendings_ok_modify:
  "pendings_ok strict h m \<Longrightarrow> (\<And>x. ps_proposal_id (f x) = ps_proposal_id x) \<Longrightarrow> (\<And>x. hm_get m k = Some x \<Longrightarrow> pending_ok strict h x \<Longrightarrow> pending_ok strict h (f x)) \<Longrightarrow>
     pendings_ok strict h (hm_modify k f m)"
  by (auto simp: pendings_ok_def keyed_def)

lemma bind_accept_fields [simp]:
  "ps_proposal_id (bind_accept a swap) = ps_proposal_id swap" "ps_reserved_bytes (bind_accept a swap) = CHUNK_LEN"
  "received_their_chunk (bind_accept a swap) = received_their_chunk swap" "sent_commit (bind_accept a swap) = sent_commit swap"
  "their_chunk_data (bind_accept a swap) = their_chunk_data swap"
  by (simp_all add: bind_accept_def Let_def)

lemma pending_ok_bind: "pending_ok strict h x \<Longrightarrow> (strict \<Longrightarrow> \<not> rebinds a x) \<Longrightarrow> pending_ok strict h (bind_accept a x)"
  by (auto simp: pending_ok_def rebinds_def chunk_verified_def verify_chunk_def bind_accept_def Let_def)

lemma step_pendings_ok: "swap_step strict h v w \<Longrightarrow> pendings_ok strict h (v_pending v) \<Longrightarrow> pendings_ok strict h (v_pending w)"
proof (induction rule: swap_step.induct)
  case (bind v pid swap a)
  then show ?case by (auto intro!: pendings_ok_modify pending_ok_bind)
next
  case (receive_chunk v pid swap data)
  then show ?case
    by (auto intro!: pendings_ok_modify) (auto simp: pending_ok_def chunk_verified_def)
next
  case (receive_commit v pid)
  then show ?case by (auto intro!: pendings_ok_modify) (auto simp: pending_ok_def chunk_verified_def)
next
  case (begin_swap swap v)
  then show ?case by (auto intro!: pendings_ok_insert simp: pending_ok_def untouched_def)
next
  case (prepare swap v n)
  then show ?case by (auto intro!: pendings_ok_insert simp: pending_ok_def untouched_def)
qed (auto intro: pendings_ok_remove)

text \<open>The sums over tables.\<close>

lemma sum_insert_le: "sum_list (map f (hm_values (hm_insert k v m))) \<le> sum_list (map f (hm_values m)) + (f v :: nat)"
  by (induction m) (auto simp: hm_insert_def hm_values_def)

lemma sum_insert_new: "hm_get m k = None \<Longrightarrow> sum_list (map f (hm_values (hm_insert k v m))) = sum_list (map f (hm_values m)) + (f v :: nat)"
  by (induction m) (auto simp: hm_insert_def hm_values_def hm_get_def split: if_splits)

lemma sum_remove: "hm_wf m \<Longrightarrow> hm_get m k = Some v \<Longrightarrow> sum_list (map f (hm_values (hm_remove k m))) + (f v :: nat) = sum_list (map f (hm_values m))"
proof (induction m)
  case (Cons p m)
  have gone: "hm_remove k m = m" if "fst p = k"
  proof -
    have "k \<notin> fst ` set m" using Cons.prems that by (auto simp: hm_wf_def)
    then show ?thesis by (simp add: hm_remove_def delete_idem)
  qed
  have wf: "hm_wf m" using Cons.prems by (simp add: hm_wf_def)
  obtain i x where p: "p = (i, x)" by fastforce
  show ?case
  proof (cases "i = k")
    case True
    then show ?thesis using gone Cons.prems by (simp add: p hm_values_def hm_remove_def)
  next
    case False
    then show ?thesis using Cons.IH [OF wf] Cons.prems by (simp add: p hm_values_def hm_remove_def)
  qed
qed simp

lemma sum_modify_le:
  "(\<And>x. f (g x) \<le> f x + c) \<Longrightarrow> sum_list (map f (hm_values (hm_modify k g m))) \<le> sum_list (map f (hm_values m)) + (c :: nat)"
proof (induction m)
  case (Cons p m)
  obtain i x where p: "p = (i, x)" by fastforce
  show ?case using Cons.prems [of x] Cons.IH [OF Cons.prems] by (simp add: p hm_values_def hm_modify_def)
qed (simp add: hm_values_def hm_modify_def)

lemma total_bytes_held: "held_bytes holder < 2 ^ 64 \<Longrightarrow> unat (total_bytes holder) = held_bytes holder"
proof -
  assume small: "held_bytes holder < 2 ^ 64"
  have le: "length d \<le> held_bytes holder" if "d \<in> set (hm_values (holder_chunks holder))" for d
    using that by (simp add: held_bytes_def member_le_sum_list)
  have "map unat (map (\<lambda>d. word_of_nat (length d) :: u64) (hm_values (holder_chunks holder))) = map length (hm_values (holder_chunks holder))"
    unfolding map_map
  proof (rule map_cong [OF refl])
    fix d assume "d \<in> set (hm_values (holder_chunks holder))"
    then have "length d < 2 ^ 64" using le small by (meson le_less_trans)
    then show "(unat \<circ> (\<lambda>d. word_of_nat (length d) :: u64)) d = length d" by (simp add: unat_of_nat)
  qed
  then show ?thesis
    using small unat_sum_list [of "map (\<lambda>d. word_of_nat (length d)) (hm_values (holder_chunks holder))"]
    unfolding total_bytes_def held_bytes_def by (simp only:)
qed

lemma held_add:
  assumes "\<not> holder_has_chunk holder i"
  shows "held_bytes (holder_add_chunk i data c holder) = held_bytes holder + length data"
  using assms sum_insert_new [of "holder_chunks holder" i length data]
  by (simp add: held_bytes_def holder_add_chunk_def holder_has_chunk_def hm_contains_def)

lemma unreserved_add: "unreserved (holder_add_chunk i data c holder) = (if i = replicate 32 0 then CHUNK_SIZE + 16 else unreserved holder)"
  by (auto simp: unreserved_def holder_add_chunk_def holder_has_chunk_def hm_contains_def)

lemma reserve_exact:
  assumes "storage_ok v" "can_accept (v_capacity v) CHUNK_LEN n"
  shows "unat (current_bytes (v_capacity v)) + unat (reserved_bytes (v_capacity v)) + 1048592 \<le> unat (max_bytes (v_capacity v))"
    "unat (reserved_bytes (v_capacity v) + CHUNK_LEN) = unat (reserved_bytes (v_capacity v)) + 1048592"
proof -
  have "unat (current_bytes (v_capacity v)) + unat (reserved_bytes (v_capacity v)) + 1048592 < 2 ^ 64"
    using assms(1) by (simp add: storage_ok_def unreserved_def chunk_len(2) split: if_splits)
  note small = this and exact = can_accept_exact [OF this, of n, folded chunk_len(3)]
  show "unat (current_bytes (v_capacity v)) + unat (reserved_bytes (v_capacity v)) + 1048592 \<le> unat (max_bytes (v_capacity v))"
    using exact assms(2) by (simp add: fits_def)
  show "unat (reserved_bytes (v_capacity v) + CHUNK_LEN) = unat (reserved_bytes (v_capacity v)) + 1048592"
    using small chunk_len(1) by (simp add: unat_add_no_wrap)
qed

lemma storage_ok_reserve:
  assumes "storage_ok v" "can_accept (v_capacity v) CHUNK_LEN n" "reserved_sum m \<le> reserved_sum (v_pending v) + 1048592"
  shows "storage_ok (v\<lparr>v_pending := m, v_capacity := reserve CHUNK_LEN (v_capacity v)\<rparr>)"
  using assms(1,3) reserve_exact [OF assms(1,2)] by (auto simp: storage_ok_def reserve_def)

lemma storage_ok_release:
  assumes "storage_ok v" "hm_wf (v_pending v)" "hm_get (v_pending v) pid = Some swap"
  shows "storage_ok (v\<lparr>v_pending := hm_remove pid (v_pending v), v_capacity := release_reserved (ps_reserved_bytes swap) False (v_capacity v)\<rparr>)"
  using assms(1) sum_remove [OF assms(2,3), of "\<lambda>swap. unat (ps_reserved_bytes swap)"]
  by (auto simp: storage_ok_def release_reserved_def Let_def reserved_sum_def)

lemma storage_ok_store:
  assumes ok: "storage_ok v" "hm_wf (v_pending v)" and get: "hm_get (v_pending v) pid = Some swap" "pending_ok strict h swap" "received_their_chunk swap"
    and new: "\<not> holder_has_chunk (v_holder v) (their_chunk_id swap)"
  shows "storage_ok (v\<lparr>v_pending := hm_remove pid (v_pending v),
    v_holder := holder_add_chunk (their_chunk_id swap) (their_chunk_data swap) (replicate 32 0) (v_holder v),
    v_capacity := release_reserved (ps_reserved_bytes swap) True (v_capacity v)\<rparr>)"
proof -
  have held: "held_bytes (holder_add_chunk (their_chunk_id swap) (their_chunk_data swap) (replicate 32 0) (v_holder v)) = held_bytes (v_holder v) + 1048592"
    using held_add [OF new] get(2,3) chunk_len(2) by (simp add: pending_ok_def)
  have wf: "hm_wf (holder_chunks (holder_add_chunk (their_chunk_id swap) (their_chunk_data swap) (replicate 32 0) (v_holder v)))"
    using ok(1) by (simp add: storage_ok_def holder_add_chunk_def)
  have sum: "reserved_sum (hm_remove pid (v_pending v)) + unat (ps_reserved_bytes swap) = reserved_sum (v_pending v)"
    using sum_remove [OF ok(2) get(1)] by (simp add: reserved_sum_def)
  have U: "unreserved (v_holder v) \<le> 1048592" by (simp add: unreserved_def chunk_len(2))
  have cur: "unat (current_bytes (v_capacity v) + ps_reserved_bytes swap) = unat (current_bytes (v_capacity v)) + unat (ps_reserved_bytes swap)"
  proof (rule unat_add_no_wrap)
    have "unat (current_bytes (v_capacity v)) + unat (ps_reserved_bytes swap) \<le> 2 ^ 63 + 1048592"
      using ok(1) sum U by (simp add: storage_ok_def)
    then show "unat (current_bytes (v_capacity v)) + unat (ps_reserved_bytes swap) < 2 ^ LENGTH(64)" by simp
  qed
  show ?thesis
  proof (cases "ps_reserved_bytes swap = CHUNK_LEN")
    case True
    have "unreserved (v_holder v) \<le> unreserved (holder_add_chunk (their_chunk_id swap) (their_chunk_data swap) (replicate 32 0) (v_holder v))"
      using U by (simp add: unreserved_add chunk_len(2))
    then show ?thesis using ok(1) sum cur held wf chunk_len(1) True
      by (auto simp: storage_ok_def release_reserved_def Let_def)
  next
    case False
    then have z: "ps_reserved_bytes swap = 0" "their_chunk_id swap = replicate 32 0" using get(2) by (auto simp: pending_ok_def)
    then have "unreserved (v_holder v) = 0" using new by (simp add: unreserved_def)
    then show ?thesis using ok(1) sum cur held wf z
      by (simp add: storage_ok_def release_reserved_def Let_def unreserved_add chunk_len(2))
  qed
qed

lemma step_storage_ok:
  "swap_step strict h v w \<Longrightarrow> pendings_ok strict h (v_pending v) \<Longrightarrow> storage_ok v \<Longrightarrow> storage_ok w"
proof (induction rule: swap_step.induct)
  case (reconcile v)
  have "held_bytes (v_holder v) < 2 ^ 64"
    using reconcile by (simp add: storage_ok_def unreserved_def chunk_len(2) split: if_splits)
  then show ?case using reconcile total_bytes_held by (simp add: storage_ok_def capacity_reconcile_def)
next
  case (begin_swap swap v)
  then have "reserved_sum (hm_insert (ps_proposal_id swap) swap (v_pending v)) \<le> reserved_sum (v_pending v)"
    using sum_insert_le [of "\<lambda>x. unat (ps_reserved_bytes x)" "ps_proposal_id swap" swap] by (simp add: reserved_sum_def)
  then show ?case using begin_swap by (auto simp: storage_ok_def)
next
  case (prepare swap v n)
  then have "reserved_sum (hm_insert (ps_proposal_id swap) swap (v_pending v)) \<le> reserved_sum (v_pending v) + 1048592"
    using sum_insert_le [of "\<lambda>x. unat (ps_reserved_bytes x)" "ps_proposal_id swap" swap "v_pending v"] chunk_len(1) by (simp add: reserved_sum_def)
  then show ?case using prepare storage_ok_reserve by blast
next
  case (bind v pid swap a)
  have "reserved_sum (hm_modify pid (bind_accept a) (v_pending v)) \<le> reserved_sum (v_pending v) + 1048592"
    unfolding reserved_sum_def by (rule sum_modify_le) (simp add: chunk_len(1))
  then show ?case using bind storage_ok_reserve by blast
next
  case (receive_chunk v pid swap data)
  have "reserved_sum (hm_modify pid (\<lambda>x. x\<lparr>their_chunk_data := data, received_their_chunk := True, sent_commit := True\<rparr>) (v_pending v)) \<le> reserved_sum (v_pending v) + 0"
    unfolding reserved_sum_def by (rule sum_modify_le) simp
  then show ?case using receive_chunk by (auto simp: storage_ok_def)
next
  case (receive_commit v pid)
  have "reserved_sum (hm_modify pid (\<lambda>x. x\<lparr>received_commit := True\<rparr>) (v_pending v)) \<le> reserved_sum (v_pending v) + 0"
    unfolding reserved_sum_def by (rule sum_modify_le) simp
  then show ?case using receive_commit by (auto simp: storage_ok_def)
next
  case (give_up v pid swap)
  then show ?case using storage_ok_release [of v pid swap] by (auto simp: pendings_ok_def keyed_def)
next
  case (store_chunk v pid swap new)
  have p: "hm_wf (v_pending v)" "pending_ok strict h swap" using store_chunk by (auto simp: pendings_ok_def keyed_def)
  show ?case
  proof (cases new)
    case True
    then show ?thesis using storage_ok_store [OF store_chunk.prems(2) p(1) store_chunk.hyps(1) p(2)] store_chunk.hyps by simp
  next
    case False
    then show ?thesis using storage_ok_release [OF store_chunk.prems(2) p(1) store_chunk.hyps(1)] by simp
  qed
qed

lemma steps_ok:
  assumes "steps strict h v w" "pendings_ok strict h (v_pending v)"
  shows "pendings_ok strict h (v_pending w)" "storage_ok v \<Longrightarrow> storage_ok w"
  using assms by (induction rule: rtranclp_induct) (auto intro: step_pendings_ok step_storage_ok)

section \<open>Runs\<close>

definition swap_start :: "('sc, 'sk) TransportState \<Rightarrow> bool" where
  "swap_start s \<longleftrightarrow> pending_swaps (swap_state s) = [] \<and> reserved_bytes (storage_capacity s) = 0 \<and>
     hm_wf (holder_chunks (chunk_holder s)) \<and> unat (current_bytes (storage_capacity s)) = held_bytes (chunk_holder s) \<and>
     held_bytes (chunk_holder s) \<le> unat (max_bytes (storage_capacity s)) \<and> unat (max_bytes (storage_capacity s)) \<le> 2 ^ 63"

fun timely_run :: "('sc, 'sk) transport_env \<Rightarrow> 'sc swap_event list \<Rightarrow> ('sc, 'sk) TransportState \<Rightarrow> bool" where
  "timely_run env [] s = True"
| "timely_run env (ev # evs) s = (timely s ev \<and> timely_run env evs (swap_exec env ev s))"

lemma start_ok: "swap_start s \<Longrightarrow> pendings_ok strict h (v_pending (swap_view s)) \<and> storage_ok (swap_view s)"
  by (simp add: swap_start_def swap_view_def pendings_ok_def keyed_def storage_ok_def reserved_sum_def hm_values_def)

lemma run_steps:
  assumes "pendings_ok strict (blake3 (te_storage env)) (pending_swaps (swap_state s))" "strict \<Longrightarrow> timely_run env evs s"
  shows "steps strict (blake3 (te_storage env)) (swap_view s) (swap_view (fold (swap_exec env) evs s))"
  using assms
proof (induction evs arbitrary: s)
  case (Cons ev evs)
  have one: "steps strict (blake3 (te_storage env)) (swap_view s) (swap_view (swap_exec env ev s))"
    using Cons.prems by (intro exec_steps) (auto simp: pendings_ok_def)
  then have "pendings_ok strict (blake3 (te_storage env)) (pending_swaps (swap_state (swap_exec env ev s)))"
    using steps_ok(1) [OF one] Cons.prems(1) by (simp add: swap_view_def)
  then show ?case using Cons one by (auto intro: rtranclp_trans)
qed simp

lemma steps_max: "steps strict h v w \<Longrightarrow> max_bytes (v_capacity w) = max_bytes (v_capacity v)"
  by (induction rule: rtranclp_induct)
     (auto elim!: swap_step.cases simp: capacity_reconcile_def reserve_def release_reserved_def Let_def)

lemma run_ok:
  assumes "swap_start s" "strict \<Longrightarrow> timely_run env evs s"
  shows "pendings_ok strict (blake3 (te_storage env)) (pending_swaps (swap_state (fold (swap_exec env) evs s)))"
    "storage_ok (swap_view (fold (swap_exec env) evs s))"
    "max_bytes (storage_capacity (fold (swap_exec env) evs s)) = max_bytes (storage_capacity s)"
proof -
  note st = start_ok [OF assms(1)]
  have run: "steps strict (blake3 (te_storage env)) (swap_view s) (swap_view (fold (swap_exec env) evs s))"
    using st assms(2) by (intro run_steps) (simp_all add: swap_view_def)
  show "pendings_ok strict (blake3 (te_storage env)) (pending_swaps (swap_state (fold (swap_exec env) evs s)))"
    using steps_ok(1) [OF run] st by (simp add: swap_view_def)
  show "storage_ok (swap_view (fold (swap_exec env) evs s))" using steps_ok(2) [OF run] st by simp
  show "max_bytes (storage_capacity (fold (swap_exec env) evs s)) = max_bytes (storage_capacity s)"
    using steps_max [OF run] by (simp add: swap_view_def)
qed

text \<open>C5 (invariant). Whatever proposals, answers, chunks and timeouts arrive, in any order and from anyone, the stored bytes plus all
reservations stay within the configured maximum, except for the one chunk that may be filed under the all-zero
identifier; every pending swap is covered by the reservations, and a received chunk has the full size.\<close>

theorem swap_storage_bounded:
  assumes "swap_start s0" and s: "s = fold (swap_exec env) evs s0"
  shows "held_bytes (chunk_holder s) + unat (reserved_bytes (storage_capacity s)) \<le>
      unat (max_bytes (storage_capacity s0)) + (if holder_has_chunk (chunk_holder s) (replicate 32 0) then CHUNK_SIZE + 16 else 0) \<and>
    sum_list (map (\<lambda>swap. unat (ps_reserved_bytes swap)) (hm_values (pending_swaps (swap_state s)))) \<le> unat (reserved_bytes (storage_capacity s)) \<and>
    (\<forall>pid swap. get_pending_swap (swap_state s) pid = Some swap \<longrightarrow> ps_proposal_id swap = pid \<and>
      (unat (ps_reserved_bytes swap) = CHUNK_SIZE + 16 \<or> their_chunk_id swap = replicate 32 0) \<and>
      (received_their_chunk swap \<longrightarrow> length (their_chunk_data swap) = CHUNK_SIZE + 16))"
proof -
  note ok = run_ok [OF assms(1), of False env evs, folded s, simplified]
  have "unat (ps_reserved_bytes swap) = CHUNK_SIZE + 16 \<or> their_chunk_id swap = replicate 32 0" if "pending_ok False h swap" for h swap
    using that chunk_len(1,2) by (auto simp: pending_ok_def)
  with ok show ?thesis
    by (auto simp: pendings_ok_def keyed_def get_pending_swap_def pending_ok_def storage_ok_def swap_view_def reserved_sum_def unreserved_def)
qed

section \<open>Nothing is stored without both commits\<close>

lemma finalize_holder:
  assumes "chunk_holder (snd (finalize_swap_if_ready pid s)) \<noteq> chunk_holder s"
  obtains swap where "get_pending_swap (swap_state s) pid = Some swap" "sent_commit swap" "received_commit swap" "received_their_chunk swap"
    "\<not> holder_has_chunk (chunk_holder s) (their_chunk_id swap)"
    "snd (finalize_swap_if_ready pid s) = store_swap swap (s\<lparr>swap_state := snd (complete_swap pid (swap_state s))\<rparr>)"
proof -
  from assms obtain swap where sw: "get_pending_swap (swap_state s) pid = Some swap" "sent_commit swap \<and> received_commit swap \<and> received_their_chunk swap"
    by (auto simp: finalize_swap_if_ready_def Let_def split: option.splits if_splits)
  then have eq: "snd (finalize_swap_if_ready pid s) = store_swap swap (s\<lparr>swap_state := snd (complete_swap pid (swap_state s))\<rparr>)"
    by (simp add: finalize_swap_if_ready_def complete_swap_def get_pending_swap_def)
  then have "\<not> holder_has_chunk (chunk_holder s) (their_chunk_id swap)"
    using assms by (auto simp: store_swap_def Let_def)
  with sw eq show ?thesis by (intro that) auto
qed

definition stored_as :: "bytes \<Rightarrow> PendingSwap \<Rightarrow> bytes \<Rightarrow> ('sc, 'sk) TransportState \<Rightarrow> ('sc, 'sk) TransportState \<Rightarrow> bool" where
  "stored_as pid swap data s s' \<longleftrightarrow>
     chunk_holder s' = holder_add_chunk (their_chunk_id swap) data (replicate 32 0) (chunk_holder s) \<and>
     lease_manager s' = map_option (add_lease (their_chunk_id swap) (swap_lease swap)) (lease_manager s) \<and>
     hm_get (peer_chunk_counts s') (ps_peer swap) = Some (case hm_get (peer_chunk_counts s) (ps_peer swap) of Some n \<Rightarrow> n + 1 | None \<Rightarrow> 1) \<and>
     storage_capacity s' = release_reserved (ps_reserved_bytes swap) True (storage_capacity s) \<and>
     get_pending_swap (swap_state s') pid = None \<and> get_swap_partner (swap_state s') (their_chunk_id swap) = Some (ps_peer swap) \<and>
     pid \<in> set (completed_swaps (swap_state s'))"

lemma store_swap_effect:
  assumes "\<not> holder_has_chunk (chunk_holder s) (their_chunk_id swap)" "get_pending_swap (swap_state s) pid = Some swap"
  shows "stored_as pid swap (their_chunk_data swap) s (store_swap swap (s\<lparr>swap_state := snd (complete_swap pid (swap_state s))\<rparr>))"
  using assms push_bounded_last [of MAX_COMPLETED_SWAPS pid]
  by (auto simp: stored_as_def store_swap_def Let_def complete_swap_def get_pending_swap_def get_swap_partner_def MAX_COMPLETED_SWAPS_def split: option.splits)

lemma stored_as_same:
  assumes "stored_as pid swap data s1 s'" "same_swaps (s\<lparr>swap_state := x\<rparr>) s1"
  shows "stored_as pid swap data s s'"
  using assms by (simp add: stored_as_def same_swaps_def)

lemma drop_swap_frame: "chunk_holder (drop_swap pid s) = chunk_holder s"
  by (simp add: drop_swap_def split: prod.splits option.splits)

lemma holder_view: "chunk_holder s = v_holder (swap_view s)"
  by (simp add: swap_view_def)

lemma expire_holder: "chunk_holder (snd (transport_expire_swaps env now ds s)) = chunk_holder s"
  by (simp add: transport_expire_swaps_def split_beta holder_view notices_view) (simp add: swap_view_def)

lemma proposal_holder: "chunk_holder (handle_maintenance_proposal env now d p s) = chunk_holder s"
  by (simp add: handle_maintenance_proposal_def holder_view Let_def split_beta view_reject view_prepare split: sum.split option.split)
     (simp add: swap_view_def note_peer_activity_def)

lemma accept_holder: "chunk_holder (handle_maintenance_accept env now d a s) = chunk_holder s"
proof -
  obtain ok s1 where au: "authentic_sender now (accept_verify_signature (te_ed env) a) (acc_from_node a) (acc_identity_public_key a) (acc_nonce a) s = (ok, s1)"
    by fastforce
  have "chunk_holder s1 = chunk_holder s" using authentic_sender_frame(1) [OF au] by (simp add: same_swaps_def)
  then show ?thesis by (cases ok) (simp_all add: handle_maintenance_accept_def au sends drop_swap_frame)
qed

lemma abort_holder: "chunk_holder (handle_maintenance_abort env now a s) = chunk_holder s"
proof -
  obtain ok s1 where au: "authentic_sender now (abort_verify_signature (te_ed env) a) (abo_from_node a) (abo_identity_public_key a) (abo_nonce a) s = (ok, s1)"
    by fastforce
  have "chunk_holder s1 = chunk_holder s" using authentic_sender_frame(1) [OF au] by (simp add: same_swaps_def)
  then show ?thesis by (cases ok) (simp_all add: handle_maintenance_abort_def au Let_def drop_swap_frame)
qed

lemma exec_holder:
  "chunk_holder (swap_exec env ev s) \<noteq> chunk_holder s \<Longrightarrow> (\<exists>now c. ev = CommitIn now c) \<or> (\<exists>d i data. ev = ChunkIn d i data)"
  by (cases ev) (simp_all add: begin_swap_proposal_def Let_def handle_maintenance_reject_def proposal_holder accept_holder abort_holder expire_holder)

lemma commit_stores:
  assumes "chunk_holder (handle_maintenance_commit env now c s) \<noteq> chunk_holder s"
  obtains swap where "get_pending_swap (swap_state s) (com_proposal_id c) = Some swap" "com_from_node c = ps_peer swap"
    "commit_verify_signature (te_ed env) c" "sent_commit swap" "received_their_chunk swap"
    "\<not> holder_has_chunk (chunk_holder s) (their_chunk_id swap)"
    "stored_as (com_proposal_id c) swap (their_chunk_data swap) s (handle_maintenance_commit env now c s)"
proof -
  let ?pid = "com_proposal_id c"
  obtain ok s1 where au: "authentic_sender now (commit_verify_signature (te_ed env) c) (com_from_node c) (com_identity_public_key c) (com_nonce c) s = (ok, s1)"
    by fastforce
  note F = authentic_sender_frame [OF au]
  let ?s2 = "s1\<lparr>swap_state := snd (mark_commit_received ?pid (swap_state s1))\<rparr>"
  have eq: "handle_maintenance_commit env now c s = (if ok \<and> swap_with ?pid (com_from_node c) s1 then snd (finalize_swap_if_ready ?pid ?s2) else s1)"
    by (cases ok) (simp_all add: handle_maintenance_commit_def au Let_def)
  with assms F(1) have go: "ok" "swap_with ?pid (com_from_node c) s1" "chunk_holder (snd (finalize_swap_if_ready ?pid ?s2)) \<noteq> chunk_holder ?s2"
    by (auto simp: same_swaps_def split: if_splits)
  from finalize_holder [OF go(3)] obtain sw where sw: "get_pending_swap (swap_state ?s2) ?pid = Some sw" "sent_commit sw" "received_their_chunk sw"
      "\<not> holder_has_chunk (chunk_holder ?s2) (their_chunk_id sw)"
      "snd (finalize_swap_if_ready ?pid ?s2) = store_swap sw (?s2\<lparr>swap_state := snd (complete_swap ?pid (swap_state ?s2))\<rparr>)"
    by metis
  from go(2) obtain swap where p: "get_pending_swap (swap_state s) ?pid = Some swap" "ps_peer swap = com_from_node c"
    using F(1) by (auto simp: swap_with_def same_swaps_def split: option.splits)
  have swap: "sw = swap\<lparr>received_commit := True\<rparr>"
    using sw(1) p F(1) by (simp add: get_pending_swap_def mark_commit_received_def same_swaps_def)
  have "stored_as ?pid sw (their_chunk_data sw) ?s2 (handle_maintenance_commit env now c s)"
    using store_swap_effect [OF sw(4,1)] sw(5) eq go(1,2) by simp
  then have "stored_as ?pid swap (their_chunk_data swap) s (handle_maintenance_commit env now c s)"
    using F(1) by (simp add: swap stored_as_def same_swaps_def swap_lease_def)
  with p sw F go(1) show ?thesis
    by (intro that [of swap]) (auto simp: swap same_swaps_def)
qed

lemma chunk_stores:
  assumes "keyed (pending_swaps (swap_state s))"
    and "chunk_holder (snd (handle_swap_chunk_retrieval env d i data s)) \<noteq> chunk_holder s"
  obtains swap where "waiting_swap i (swap_state s) = Some swap" "received_commit swap" "length data = CHUNK_SIZE + 16"
    "chunk_verified (blake3 (te_storage env)) swap data" "\<not> holder_has_chunk (chunk_holder s) (their_chunk_id swap)"
    "stored_as (ps_proposal_id swap) swap data s (snd (handle_swap_chunk_retrieval env d i data s))"
  using assms(1)
proof (cases rule: retrieval_cases [where env = env and d = d and i = i and data = data])
  case ignored
  with assms show ?thesis by simp
next
  case (refused swap s1)
  with assms show ?thesis by (simp add: same_swaps_def drop_swap_frame)
next
  case (taken swap s1)
  let ?pid = "ps_proposal_id swap"
  note D = waiting_swapD [OF taken(1) assms(1)]
  have h: "chunk_holder s1 = chunk_holder s" using taken(4) by (simp add: same_swaps_def)
  have "chunk_holder (snd (finalize_swap_if_ready ?pid s1)) \<noteq> chunk_holder s1" using assms(2) taken(5) h by simp
  from finalize_holder [OF this] obtain sw where sw: "get_pending_swap (swap_state s1) ?pid = Some sw" "received_commit sw"
      "\<not> holder_has_chunk (chunk_holder s1) (their_chunk_id sw)"
      "snd (finalize_swap_if_ready ?pid s1) = store_swap sw (s1\<lparr>swap_state := snd (complete_swap ?pid (swap_state s1))\<rparr>)"
    by metis
  have swap: "sw = swap\<lparr>their_chunk_data := data, received_their_chunk := True, sent_commit := True\<rparr>"
    using sw(1) D(1) taken(4) by (simp add: get_pending_swap_def take_chunk_def same_swaps_def)
  have "stored_as ?pid sw (their_chunk_data sw) s1 (snd (handle_swap_chunk_retrieval env d i data s))"
    using store_swap_effect [OF sw(3,1)] sw(4) taken(5) by simp
  then have "stored_as ?pid swap data s (snd (handle_swap_chunk_retrieval env d i data s))"
    using taken(4) by (simp add: swap stored_as_def same_swaps_def swap_lease_def)
  with taken sw h show ?thesis by (intro that [of swap]) (auto simp: swap)
qed

text \<open>C1 (safety). Whatever arrived before, the only events that change what a node stores are a commit of the peer and the chunk itself, and they
store a chunk only for a pending swap with that peer: at that moment both commits are out and in, the chunk has the full size, and it was not held
before. The lease, the count of the peer and the reservation follow the terms of the swap, which ends. Unless the swap has the all-zero content root, which
stands for no root, the chunk hashes up to the root; always when the chunk's own arrival stores it, and when the commit stores it provided that no
accept brought a new root to a swap whose chunk had already arrived (the case that \<open>late_accept_rebinds\<close> shows to be possible).\<close>

theorem swap_stores_only_committed:
  assumes "swap_start s0"
    and s: "s = fold (swap_exec env) evs s0" and s': "s' = swap_exec env ev s" and "chunk_holder s' \<noteq> chunk_holder s"
  shows "\<exists>pid swap data. get_pending_swap (swap_state s) pid = Some swap \<and>
    ((\<exists>now c. ev = CommitIn now c \<and> com_proposal_id c = pid \<and> com_from_node c = ps_peer swap \<and> commit_verify_signature (te_ed env) c \<and>
        sent_commit swap \<and> received_their_chunk swap \<and> their_chunk_data swap = data) \<or>
     (\<exists>d. ev = ChunkIn d (their_chunk_id swap) data \<and> received_commit swap \<and> \<not> received_their_chunk swap)) \<and>
    length data = CHUNK_SIZE + 16 \<and>
    (timely_run env evs s0 \<or> (\<forall>now c. ev \<noteq> CommitIn now c) \<longrightarrow> ps_content_root swap = replicate 32 0 \<or>
       verify_chunk (blake3 (te_storage env)) \<lparr>ec_id = their_chunk_id swap, ec_data = data\<rparr> (ps_merkle_proof swap) (ps_content_root swap)) \<and>
    \<not> holder_has_chunk (chunk_holder s) (their_chunk_id swap) \<and> stored_as pid swap data s s'"
proof -
  have ok: "pendings_ok False (blake3 (te_storage env)) (pending_swaps (swap_state s))"
    using run_ok(1) [OF assms(1), of False env evs] s by simp
  have timely: "pendings_ok True (blake3 (te_storage env)) (pending_swaps (swap_state s))" if "timely_run env evs s0"
    using run_ok(1) [OF assms(1), of True env evs] that s by simp
  from ok have keyed: "keyed (pending_swaps (swap_state s))" by (simp add: pendings_ok_def)
  from exec_holder [of env ev s] assms(4) s' consider now c where "ev = CommitIn now c" | d i data where "ev = ChunkIn d i data" by blast
  then show ?thesis
  proof cases
    case (1 now c)
    with assms(4) s' have "chunk_holder (handle_maintenance_commit env now c s) \<noteq> chunk_holder s" by simp
    from commit_stores [OF this] obtain swap where "get_pending_swap (swap_state s) (com_proposal_id c) = Some swap" "com_from_node c = ps_peer swap"
        "commit_verify_signature (te_ed env) c" "sent_commit swap" "received_their_chunk swap" "\<not> holder_has_chunk (chunk_holder s) (their_chunk_id swap)"
        "stored_as (com_proposal_id c) swap (their_chunk_data swap) s (handle_maintenance_commit env now c s)" .
    moreover from this ok have "pending_ok False (blake3 (te_storage env)) swap" by (simp add: pendings_ok_def get_pending_swap_def)
    moreover from calculation timely have "pending_ok True (blake3 (te_storage env)) swap" if "timely_run env evs s0"
      using that by (simp add: pendings_ok_def get_pending_swap_def)
    ultimately show ?thesis using 1 s'
      by (intro exI [of _ "com_proposal_id c"] exI [of _ swap] exI [of _ "their_chunk_data swap"]) (auto simp: pending_ok_def chunk_verified_def)
  next
    case (2 d i data)
    with assms(4) s' have "chunk_holder (snd (handle_swap_chunk_retrieval env d i data s)) \<noteq> chunk_holder s" by simp
    from chunk_stores [OF keyed this] obtain swap where w: "waiting_swap i (swap_state s) = Some swap" and "received_commit swap" "length data = CHUNK_SIZE + 16"
      "chunk_verified (blake3 (te_storage env)) swap data" "\<not> holder_has_chunk (chunk_holder s) (their_chunk_id swap)"
      "stored_as (ps_proposal_id swap) swap data s (snd (handle_swap_chunk_retrieval env d i data s))" .
    moreover note waiting_swapD [OF w keyed]
    ultimately show ?thesis using 2 s'
      by (intro exI [of _ "ps_proposal_id swap"] exI [of _ swap] exI [of _ data]) (simp add: get_pending_swap_def chunk_verified_def)
  qed
qed

section \<open>A swap completes in either order\<close>

lemma finalize_not_ready:
  "get_pending_swap (swap_state s) pid = Some swap \<Longrightarrow> \<not> (sent_commit swap \<and> received_commit swap \<and> received_their_chunk swap) \<Longrightarrow>
     finalize_swap_if_ready pid s = (False, s)"
  by (simp add: finalize_swap_if_ready_def Let_def)

lemma finalize_ready:
  assumes "get_pending_swap (swap_state s) pid = Some swap" "sent_commit swap" "received_commit swap" "received_their_chunk swap"
    "\<not> holder_has_chunk (chunk_holder s) (their_chunk_id swap)"
  shows "stored_as pid swap (their_chunk_data swap) s (snd (finalize_swap_if_ready pid s))"
proof -
  have "snd (finalize_swap_if_ready pid s) = store_swap swap (s\<lparr>swap_state := snd (complete_swap pid (swap_state s))\<rparr>)"
    using assms by (simp add: finalize_swap_if_ready_def complete_swap_def get_pending_swap_def)
  then show ?thesis using store_swap_effect [OF assms(5,1)] by simp
qed

lemma drop_swap_other [simp]: "routing_table (drop_swap pid s) = routing_table s" "maintenance_nonces (drop_swap pid s) = maintenance_nonces s"
  by (simp_all add: drop_swap_def split: prod.splits option.splits)

lemma finalize_other [simp]:
  "routing_table (snd (finalize_swap_if_ready pid s)) = routing_table s" "maintenance_nonces (snd (finalize_swap_if_ready pid s)) = maintenance_nonces s"
  by (simp_all add: finalize_swap_if_ready_def store_swap_def Let_def split: prod.split option.split)

lemma chunk_other [simp]:
  "routing_table (snd (handle_swap_chunk_retrieval env d i data s)) = routing_table s"
  "maintenance_nonces (snd (handle_swap_chunk_retrieval env d i data s)) = maintenance_nonces s"
  by (simp_all add: handle_swap_chunk_retrieval_def sends split: prod.split option.split bool.split)

lemma authentic_fresh:
  assumes "check_maintenance_sender s sender ident" "hm_wf (maintenance_nonces s)" "hm_get (maintenance_nonces s) nonce = None"
  shows "\<exists>s1. authentic_sender now True sender ident nonce s = (True, s1)"
proof -
  have "check_maintenance_sender (note_peer_activity now sender s) sender ident"
    using assms(1) by (simp add: check_maintenance_sender_def note_peer_activity_def)
  moreover have "\<exists>c. nonce_check now nonce (maintenance_nonces s) = (True, c)"
    using nonce_check_fresh [OF assms(2), of now nonce] assms(3) by (metis option.distinct(1) prod.collapse)
  ultimately show ?thesis by (auto simp: authentic_sender_def check_maintenance_nonce_def note_peer_activity_def Let_def)
qed

lemma find_memD: "find P xs = Some x \<Longrightarrow> x \<in> set xs \<and> P x"
  by (auto simp: find_Some_iff)

lemma find_modify:
  assumes "hm_wf m" "\<And>v. P (f v) = P v"
  shows "find P (hm_values (hm_modify k f m)) = map_option (\<lambda>(i, v). if i = k then f v else v) (find (\<lambda>(i, v). P v) m)"
  using assms(1)
proof (induction m)
  case (Cons p m)
  obtain i x where p: "p = (i, x)" by fastforce
  have other: "j \<noteq> i" if "find (\<lambda>(i, v). P v) m = Some (j, y)" for j y
    using Cons.prems find_memD [OF that] by (force simp: p hm_wf_def)
  have "find P (map snd m) = map_option snd (find (\<lambda>(i, v). P v) m)" by (induction m) auto
  also have "\<dots> = map_option (\<lambda>(j, v). if j = i then f v else v) (find (\<lambda>(i, v). P v) m)"
    using other by (auto intro!: option.map_cong)
  finally show ?case using Cons by (auto simp: p hm_values_def hm_modify_def hm_wf_def assms(2))
qed (simp add: hm_values_def hm_modify_def)

lemma find_values: "find P (hm_values m) = map_option snd (find (\<lambda>(i, v). P v) m)"
  by (induction m) (auto simp: hm_values_def)

lemma waiting_after_commit:
  assumes "keyed (pending_swaps swaps)" "waiting_swap i swaps = Some swap"
  shows "waiting_swap i (snd (mark_commit_received (ps_proposal_id swap) swaps)) = Some (swap\<lparr>received_commit := True\<rparr>)"
proof -
  let ?P = "\<lambda>swap. \<not> received_their_chunk swap \<and> their_chunk_id swap = i"
  note D = waiting_swapD [OF assms(2,1)]
  from assms(2) obtain k where k: "find (\<lambda>(i, v). ?P v) (pending_swaps swaps) = Some (k, swap)"
    by (auto simp: waiting_swap_def find_values)
  then have "(k, swap) \<in> set (pending_swaps swaps)" using find_memD by fast
  then have "k = ps_proposal_id swap" using assms(1) by (auto simp: keyed_def hm_wf_get_iff)
  with k find_modify [of "pending_swaps swaps" ?P "\<lambda>x. x\<lparr>received_commit := True\<rparr>" k] assms(1)
  show ?thesis by (simp add: waiting_swap_def mark_commit_received_def D(1) keyed_def)
qed

text \<open>What makes a commit acceptable to a node.\<close>

definition commit_ok :: "('sc, 'sk) transport_env \<Rightarrow> SwapCommit \<Rightarrow> PendingSwap \<Rightarrow> ('sc, 'sk) TransportState \<Rightarrow> bool" where
  "commit_ok env c swap s \<longleftrightarrow> com_proposal_id c = ps_proposal_id swap \<and> com_from_node c = ps_peer swap \<and> commit_verify_signature (te_ed env) c \<and>
     check_maintenance_sender s (com_from_node c) (com_identity_public_key c) \<and> hm_wf (maintenance_nonces s) \<and> hm_get (maintenance_nonces s) (com_nonce c) = None"

lemma commit_handled:
  assumes "commit_ok env c swap s" "get_pending_swap (swap_state s) (ps_proposal_id swap) = Some sw" "ps_peer sw = ps_peer swap"
  shows "\<exists>s1. same_swaps s s1 \<and> handle_maintenance_commit env now c s =
    snd (finalize_swap_if_ready (ps_proposal_id swap) (s1\<lparr>swap_state := snd (mark_commit_received (ps_proposal_id swap) (swap_state s))\<rparr>))"
proof -
  from assms(1) obtain s1 where au: "authentic_sender now (commit_verify_signature (te_ed env) c) (com_from_node c) (com_identity_public_key c) (com_nonce c) s = (True, s1)"
    using authentic_fresh [of s "com_from_node c" "com_identity_public_key c" "com_nonce c" now] by (auto simp: commit_ok_def)
  have same: "same_swaps s s1" using authentic_sender_frame(1) [OF au] .
  have "com_proposal_id c = ps_proposal_id swap" "com_from_node c = ps_peer swap" using assms(1) by (auto simp: commit_ok_def)
  then have "handle_maintenance_commit env now c s =
    snd (finalize_swap_if_ready (ps_proposal_id swap) (s1\<lparr>swap_state := snd (mark_commit_received (ps_proposal_id swap) (swap_state s))\<rparr>))"
    using same au assms(2,3) by (simp add: handle_maintenance_commit_def swap_with_def same_swaps_def Let_def)
  with same show ?thesis by blast
qed

lemma keyed_commit: "keyed (pending_swaps swaps) \<Longrightarrow> keyed (pending_swaps (snd (mark_commit_received pid swaps)))"
  by (auto simp: keyed_def mark_commit_received_def split: option.split)

lemma chunk_then_commit:
  assumes keyed: "keyed (pending_swaps (swap_state s))" and w: "waiting_swap i (swap_state s) = Some swap" and un: "untouched swap"
    and data: "length data = CHUNK_SIZE + 16" "chunk_verified (blake3 (te_storage env)) swap data" "\<not> holder_has_chunk (chunk_holder s) i"
    and c: "commit_ok env c swap s"
  shows "stored_as (ps_proposal_id swap) swap data s (swap_exec env (CommitIn now c) (swap_exec env (ChunkIn d i data) s))"
proof -
  let ?pid = "ps_proposal_id swap"
  note D = waiting_swapD [OF w keyed]
  let ?t = "swap_exec env (ChunkIn d i data) s"
  let ?sw = "swap\<lparr>their_chunk_data := data, received_their_chunk := True, sent_commit := True\<rparr>"
  obtain s1 where s1: "same_swaps (s\<lparr>swap_state := take_chunk ?pid data (swap_state s)\<rparr>) s1" "?t = snd (finalize_swap_if_ready ?pid s1)"
    using retrieval_taken [OF keyed w data(1,2), of d] by (metis snd_conv swap_exec.simps(7))
  have g1: "get_pending_swap (swap_state s1) ?pid = Some ?sw" using s1(1) D(1) by (simp add: same_swaps_def take_chunk_def get_pending_swap_def)
  then have t: "?t = s1" using s1(2) finalize_not_ready [OF g1] un by (simp add: untouched_def)
  have "commit_ok env c swap ?t" using c by (auto simp: commit_ok_def check_maintenance_sender_def)
  from commit_handled [OF this, of ?sw now] g1 t obtain s2 where s2: "same_swaps s1 s2"
      "swap_exec env (CommitIn now c) ?t = snd (finalize_swap_if_ready ?pid (s2\<lparr>swap_state := snd (mark_commit_received ?pid (swap_state s1))\<rparr>))" by auto
  have "stored_as ?pid (?sw\<lparr>received_commit := True\<rparr>) data (s2\<lparr>swap_state := snd (mark_commit_received ?pid (swap_state s1))\<rparr>) (swap_exec env (CommitIn now c) ?t)"
    unfolding s2(2) using finalize_ready [of "s2\<lparr>swap_state := snd (mark_commit_received ?pid (swap_state s1))\<rparr>" ?pid "?sw\<lparr>received_commit := True\<rparr>"]
      g1 s1(1) s2(1) data(3) D(3) by (simp add: get_pending_swap_def mark_commit_received_def same_swaps_def)
  then show ?thesis
    using s1(1) s2(1) by (simp add: stored_as_def same_swaps_def swap_lease_def)
qed

lemma commit_then_chunk:
  assumes keyed: "keyed (pending_swaps (swap_state s))" and w: "waiting_swap i (swap_state s) = Some swap" and un: "untouched swap"
    and data: "length data = CHUNK_SIZE + 16" "chunk_verified (blake3 (te_storage env)) swap data" "\<not> holder_has_chunk (chunk_holder s) i"
    and c: "commit_ok env c swap s"
  shows "stored_as (ps_proposal_id swap) swap data s (swap_exec env (ChunkIn d i data) (swap_exec env (CommitIn now c) s))"
proof -
  let ?pid = "ps_proposal_id swap"
  note D = waiting_swapD [OF w keyed]
  define t where "t = swap_exec env (CommitIn now c) s"
  let ?sw = "swap\<lparr>received_commit := True\<rparr>"
  obtain s1 where s1: "same_swaps s s1" "t = snd (finalize_swap_if_ready ?pid (s1\<lparr>swap_state := snd (mark_commit_received ?pid (swap_state s))\<rparr>))"
    using commit_handled [OF c, of swap now] D(1) by (auto simp: get_pending_swap_def t_def)
  have "get_pending_swap (swap_state (s1\<lparr>swap_state := snd (mark_commit_received ?pid (swap_state s))\<rparr>)) ?pid = Some ?sw"
    using D(1) by (simp add: get_pending_swap_def mark_commit_received_def)
  from finalize_not_ready [OF this] have t: "t = s1\<lparr>swap_state := snd (mark_commit_received ?pid (swap_state s))\<rparr>"
    unfolding s1(2) using un by (simp add: untouched_def)
  have w': "waiting_swap i (swap_state t) = Some ?sw" using waiting_after_commit [OF keyed w] by (simp add: t)
  have keyed': "keyed (pending_swaps (swap_state t))" using keyed_commit [OF keyed] by (simp add: t)
  have h: "chunk_holder t = chunk_holder s" using s1(1) by (simp add: t same_swaps_def)
  have "chunk_verified (blake3 (te_storage env)) ?sw data" using data(2) by (simp add: chunk_verified_def)
  then obtain s2 where r: "same_swaps (t\<lparr>swap_state := take_chunk (ps_proposal_id ?sw) data (swap_state t)\<rparr>) s2"
      "handle_swap_chunk_retrieval env d i data t = (True, snd (finalize_swap_if_ready (ps_proposal_id ?sw) s2))"
    by (rule retrieval_taken [OF keyed' w' data(1)])
  have s2: "same_swaps (t\<lparr>swap_state := take_chunk ?pid data (swap_state t)\<rparr>) s2"
      "snd (handle_swap_chunk_retrieval env d i data t) = snd (finalize_swap_if_ready ?pid s2)"
    using r(1) unfolding r(2) by simp_all
  let ?sw2 = "?sw\<lparr>their_chunk_data := data, received_their_chunk := True, sent_commit := True\<rparr>"
  have "get_pending_swap (swap_state s2) ?pid = Some ?sw2"
    using s2(1) waiting_swapD(1) [OF w' keyed'] by (simp add: same_swaps_def take_chunk_def get_pending_swap_def)
  from finalize_ready [OF this] have "stored_as ?pid ?sw2 data s2 (snd (handle_swap_chunk_retrieval env d i data t))"
    unfolding s2(2) using s2(1) h data(3) D(3) by (simp add: same_swaps_def)
  then have "stored_as ?pid swap data s (snd (handle_swap_chunk_retrieval env d i data t))"
    using s1(1) s2(1) by (simp add: t stored_as_def same_swaps_def swap_lease_def)
  then show ?thesis by (simp add: t_def)
qed

text \<open>C7 (liveness). A pending swap always completes once its chunk and the commit of its peer have both arrived, whichever comes first: the chunk
is stored with the lease of the swap, the reservation becomes stored bytes, the peer's count grows by one, and the swap is
logged as completed and no longer pending.\<close>

theorem swap_commits_either_order:
  assumes keyed: "keyed (pending_swaps (swap_state s))" and w: "waiting_swap i (swap_state s) = Some swap" and un: "untouched swap"
    and data: "length data = CHUNK_SIZE + 16" "chunk_verified (blake3 (te_storage env)) swap data" "\<not> holder_has_chunk (chunk_holder s) i"
    and c: "commit_ok env c swap s"
  shows "stored_as (ps_proposal_id swap) swap data s (swap_exec env (CommitIn now c) (swap_exec env (ChunkIn d i data) s)) \<and>
    stored_as (ps_proposal_id swap) swap data s (swap_exec env (ChunkIn d i data) (swap_exec env (CommitIn now c) s))"
  using chunk_then_commit [OF assms] commit_then_chunk [OF assms] by blast

text \<open>A swap proposed by one concrete node to another.\<close>

definition demo_send :: "u8 SendDraw" where
  "demo_send = \<lparr>sd_shuffle = id, sd_packets = undefined, sd_nonce = replicate 32 8, sd_sign_nonce = replicate 32 9\<rparr>"

definition demo_pid :: bytes where "demo_pid = proposal_id (blake3 (te_storage demo_transport)) demo_proposal"

definition demo_commit :: SwapCommit where "demo_commit = commit_message demo_transport demo_send demo_pid (demo_peer 3)"

definition demo_proposed :: "(u8, nat) TransportState" where
  "demo_proposed = swap_exec demo_transport (ProposalSent 5 (replicate 16 3) demo_proposal) (demo_peer 1)"

lemma demo_proposed_ready:
  obtains swap where "keyed (pending_swaps (swap_state demo_proposed))" "waiting_swap (replicate 32 0) (swap_state demo_proposed) = Some swap"
    "untouched swap" "ps_content_root swap = replicate 32 0" "ps_proposal_id swap = demo_pid" "ps_peer swap = replicate 16 3"
    "their_chunk_id swap = replicate 32 0" "commit_ok demo_transport demo_commit swap demo_proposed" "chunk_holder demo_proposed = ChunkHolder_new"
proof -
  define swap where "swap = the (hm_get (pending_swaps (swap_state demo_proposed)) demo_pid)"
  have p: "pending_swaps (swap_state demo_proposed) = [(demo_pid, swap)]" "ps_proposal_id swap = demo_pid" "ps_peer swap = replicate 16 3"
    "untouched swap" "ps_content_root swap = replicate 32 0" "their_chunk_id swap = replicate 32 0"
    by (simp_all add: swap_def demo_proposed_def begin_swap_proposal_def start_pending_swap_def demo_pid_def demo_peer_def
        create_transport_state_def SwapState_new_def untouched_def Let_def)
  have s: "routing_table demo_proposed = RoutingTable_new (replicate 16 1)" "maintenance_nonces demo_proposed = []" "chunk_holder demo_proposed = ChunkHolder_new"
    by (simp_all add: demo_proposed_def begin_swap_proposal_def demo_peer_def create_transport_state_def Let_def)
  have "commit_verify_signature (te_ed demo_transport) demo_commit"
    using commit_msg.sign_verifies [OF demo_ed_correct]
    by (simp add: demo_commit_def commit_message_def demo_transport_def)
  moreover have "com_proposal_id demo_commit = demo_pid" "com_from_node demo_commit = replicate 16 3"
    by (simp_all add: demo_commit_def commit_message_def commit_sign_def create_swap_commit_def Let_def demo_peer_def create_transport_state_def)
  ultimately have "commit_ok demo_transport demo_commit swap demo_proposed"
    using p s by (simp add: commit_ok_def check_maintenance_sender_def get_node_def RoutingTable_new_def)
  with p s show ?thesis by (intro that [of swap]) (simp_all add: keyed_def waiting_swap_def hm_values_def untouched_def)
qed

lemma demo_swap_stored:
  "\<exists>swap. get_pending_swap (swap_state demo_proposed) demo_pid = Some swap \<and> their_chunk_id swap = replicate 32 0 \<and>
     stored_as demo_pid swap (replicate (CHUNK_SIZE + 16) 7) demo_proposed (swap_exec demo_transport (CommitIn 9 demo_commit)
       (swap_exec demo_transport (ChunkIn demo_send (replicate 32 0) (replicate (CHUNK_SIZE + 16) 7)) demo_proposed))"
proof -
  obtain swap where r: "keyed (pending_swaps (swap_state demo_proposed))" "waiting_swap (replicate 32 0) (swap_state demo_proposed) = Some swap"
    "untouched swap" "ps_content_root swap = replicate 32 0" "ps_proposal_id swap = demo_pid" "ps_peer swap = replicate 16 3"
    "their_chunk_id swap = replicate 32 0" "commit_ok demo_transport demo_commit swap demo_proposed" "chunk_holder demo_proposed = ChunkHolder_new"
    by (rule demo_proposed_ready)
  have "\<not> holder_has_chunk (chunk_holder demo_proposed) (replicate 32 0)" by (simp add: r(9) ChunkHolder_new_def holder_has_chunk_def hm_contains_def)
  moreover have "chunk_verified h swap data" for h data by (simp add: chunk_verified_def r(4))
  ultimately have "stored_as demo_pid swap (replicate (CHUNK_SIZE + 16) 7) demo_proposed (swap_exec demo_transport (CommitIn 9 demo_commit)
       (swap_exec demo_transport (ChunkIn demo_send (replicate 32 0) (replicate (CHUNK_SIZE + 16) 7)) demo_proposed))"
    unfolding r(5) [symmetric] by (intro chunk_then_commit [OF r(1-3)] r(8) length_replicate)
  then show ?thesis using waiting_swapD(1) [OF r(2,1)] r(5,7) by (auto simp: get_pending_swap_def)
qed

theorem swap_commits_either_order_witness:
  "holder_get_chunk (chunk_holder (swap_exec demo_transport (ChunkIn demo_send (replicate 32 0) (replicate (CHUNK_SIZE + 16) 7))
     (swap_exec demo_transport (CommitIn 9 demo_commit) demo_proposed))) (replicate 32 0) = Some (replicate (CHUNK_SIZE + 16) 7)"
proof -
  obtain swap where r: "keyed (pending_swaps (swap_state demo_proposed))" "waiting_swap (replicate 32 0) (swap_state demo_proposed) = Some swap"
    "untouched swap" "ps_content_root swap = replicate 32 0" "ps_proposal_id swap = demo_pid" "ps_peer swap = replicate 16 3"
    "their_chunk_id swap = replicate 32 0" "commit_ok demo_transport demo_commit swap demo_proposed" "chunk_holder demo_proposed = ChunkHolder_new"
    by (rule demo_proposed_ready)
  have "\<not> holder_has_chunk (chunk_holder demo_proposed) (replicate 32 0)" by (simp add: r(9) ChunkHolder_new_def holder_has_chunk_def hm_contains_def)
  moreover have "chunk_verified h swap data" for h data by (simp add: chunk_verified_def r(4))
  ultimately show ?thesis
    using swap_commits_either_order [OF r(1-3) length_replicate [of "CHUNK_SIZE + 16" 7] _ _ r(8), of 9 demo_send] r(7)
    by (simp add: stored_as_def holder_get_chunk_def holder_add_chunk_def del: swap_exec.simps)
qed

lemma demo_swap_start: "swap_start (demo_peer 1)"
  by (simp add: swap_start_def demo_peer_def create_transport_state_def SwapState_new_def StorageCapacity_new_def ChunkHolder_new_def held_bytes_def hm_values_def)

theorem swap_storage_bounded_witness:
  "held_bytes (chunk_holder (fold (swap_exec demo_transport) [ProposalSent 5 (replicate 16 3) demo_proposal, CommitIn 9 demo_commit] (demo_peer 1))) \<le> CHUNK_SIZE + 16"
  using swap_storage_bounded [OF demo_swap_start refl, of demo_transport "[ProposalSent 5 (replicate 16 3) demo_proposal, CommitIn 9 demo_commit]"]
  by (simp add: demo_peer_def create_transport_state_def StorageCapacity_new_def del: swap_exec.simps fold_simps split: if_splits)

theorem swap_stores_only_committed_witness:
  "\<exists>swap data s. s = fold (swap_exec demo_transport) [ProposalSent 5 (replicate 16 3) demo_proposal, ChunkIn demo_send (replicate 32 0) (replicate (CHUNK_SIZE + 16) 7)] (demo_peer 1) \<and>
     length data = CHUNK_SIZE + 16 \<and> ps_peer swap = com_from_node demo_commit \<and>
     stored_as (com_proposal_id demo_commit) swap data s (swap_exec demo_transport (CommitIn 9 demo_commit) s)"
proof -
  let ?evs = "[ProposalSent 5 (replicate 16 3) demo_proposal, ChunkIn demo_send (replicate 32 0) (replicate (CHUNK_SIZE + 16) 7)]"
  define t where "t = swap_exec demo_transport (ChunkIn demo_send (replicate 32 0) (replicate (CHUNK_SIZE + 16) 7)) demo_proposed"
  have run: "fold (swap_exec demo_transport) ?evs (demo_peer 1) = t"
    by (simp only: fold_simps t_def demo_proposed_def)
  obtain swap where r: "keyed (pending_swaps (swap_state demo_proposed))" "waiting_swap (replicate 32 0) (swap_state demo_proposed) = Some swap"
    "untouched swap" "ps_content_root swap = replicate 32 0" "ps_proposal_id swap = demo_pid" "ps_peer swap = replicate 16 3"
    "their_chunk_id swap = replicate 32 0" "commit_ok demo_transport demo_commit swap demo_proposed" "chunk_holder demo_proposed = ChunkHolder_new"
    by (rule demo_proposed_ready)
  have "chunk_holder t = ChunkHolder_new"
  proof (rule ccontr)
    assume "chunk_holder t \<noteq> ChunkHolder_new"
    then have "chunk_holder (snd (handle_swap_chunk_retrieval demo_transport demo_send (replicate 32 0) (replicate (CHUNK_SIZE + 16) 7) demo_proposed)) \<noteq> chunk_holder demo_proposed"
      by (simp add: t_def r(9))
    from chunk_stores [OF r(1) this] show False using r(2,3) by (auto simp: untouched_def)
  qed
  moreover have "chunk_holder (swap_exec demo_transport (CommitIn 9 demo_commit) t) = holder_add_chunk (replicate 32 0) (replicate (CHUNK_SIZE + 16) 7) (replicate 32 0) ChunkHolder_new"
    using demo_swap_stored unfolding t_def [symmetric] by (auto simp: stored_as_def r(9))
  ultimately have ne: "chunk_holder (swap_exec demo_transport (CommitIn 9 demo_commit) t) \<noteq> chunk_holder t"
    by (simp add: holder_add_chunk_def ChunkHolder_new_def)
  from swap_stores_only_committed [OF demo_swap_start run [symmetric] refl ne] show ?thesis
    unfolding run by fastforce
qed

text \<open>C34 (refinement). Every handler implements the abstract barter: whatever arrives, its effect on the pending swaps, the capacity and the
stored chunks is a sequence of the abstract steps, each with its guard; and it is a sequence of the strict steps
whenever no accept brings a new content root to a swap whose chunk has already been received.\<close>

theorem swap_handlers_refine:
  assumes "keyed (pending_swaps (swap_state s))"
  shows "(swap_step False (blake3 (te_storage env)))\<^sup>*\<^sup>* (swap_view s) (swap_view (swap_exec env ev s)) \<and>
    (timely s ev \<longrightarrow> (swap_step True (blake3 (te_storage env)))\<^sup>*\<^sup>* (swap_view s) (swap_view (swap_exec env ev s)))"
  using exec_steps [OF assms, of False ev env] exec_steps [OF assms, of True ev env] by simp

theorem swap_handlers_refine_witness:
  "(swap_step True (blake3 (te_storage demo_transport)))\<^sup>*\<^sup>* (swap_view demo_proposed) (swap_view (swap_exec demo_transport (CommitIn 9 demo_commit) demo_proposed))"
proof -
  have "keyed (pending_swaps (swap_state demo_proposed))" by (rule demo_proposed_ready)
  from swap_handlers_refine [OF this, of demo_transport "CommitIn 9 demo_commit"] show ?thesis by simp
qed

section \<open>What a malicious partner can do\<close>

text \<open>\<open>handle_maintenance_accept\<close> checks neither that this node made the proposal nor that no accept came before. A second accept
with a fresh nonce reserves the bytes again while the swap records them once, so giving the swap up leaves them reserved;
and an accept for a swap whose chunk has already been received and verified files that chunk under another identifier.\<close>

definition accept_ok :: "('sc, 'sk) transport_env \<Rightarrow> SwapAccept \<Rightarrow> PendingSwap \<Rightarrow> ('sc, 'sk) TransportState \<Rightarrow> bool" where
  "accept_ok env a swap s \<longleftrightarrow> get_pending_swap (swap_state s) (acc_proposal_id a) = Some swap \<and> acc_from_node a = ps_peer swap \<and>
     accept_verify_signature (te_ed env) a \<and> check_maintenance_sender s (acc_from_node a) (acc_identity_public_key a) \<and>
     hm_wf (maintenance_nonces s) \<and> hm_get (maintenance_nonces s) (acc_nonce a) = None \<and> can_accept (storage_capacity s) CHUNK_LEN 0"

lemma accept_handled:
  assumes "accept_ok env a swap s"
  shows "get_pending_swap (swap_state (handle_maintenance_accept env now d a s)) (acc_proposal_id a) = Some (bind_accept a swap)"
    "storage_capacity (handle_maintenance_accept env now d a s) = reserve CHUNK_LEN (storage_capacity s)"
proof -
  from assms obtain s1 where au: "authentic_sender now (accept_verify_signature (te_ed env) a) (acc_from_node a) (acc_identity_public_key a) (acc_nonce a) s = (True, s1)"
    using authentic_fresh [of s "acc_from_node a" "acc_identity_public_key a" "acc_nonce a" now] by (auto simp: accept_ok_def)
  have "same_swaps s s1" using authentic_sender_frame(1) [OF au] .
  then show "get_pending_swap (swap_state (handle_maintenance_accept env now d a s)) (acc_proposal_id a) = Some (bind_accept a swap)"
    "storage_capacity (handle_maintenance_accept env now d a s) = reserve CHUNK_LEN (storage_capacity s)"
    using assms au by (simp_all add: handle_maintenance_accept_def accept_ok_def swap_with_def same_swaps_def get_pending_swap_def Let_def)
qed

lemma repeated_accept_leaks:
  assumes "accept_ok env a swap s" "unat (reserved_bytes (storage_capacity s)) + unat CHUNK_LEN < 2 ^ 64"
  shows "reserved_bytes (storage_capacity (drop_swap (acc_proposal_id a) (handle_maintenance_accept env now d a s))) = reserved_bytes (storage_capacity s)"
proof -
  have "unat (reserved_bytes (storage_capacity s) + CHUNK_LEN) = unat (reserved_bytes (storage_capacity s)) + unat CHUNK_LEN"
    using assms(2) by (intro unat_add_no_wrap) simp
  then have "saturating_sub (reserved_bytes (storage_capacity s) + CHUNK_LEN) CHUNK_LEN = reserved_bytes (storage_capacity s)"
    by (simp add: word_unat_eq_iff)
  then show ?thesis
    using accept_handled [OF assms(1), of now d]
    by (simp add: drop_swap_def abort_swap_def get_pending_swap_def release_reserved_def reserve_def)
qed

lemma late_accept_rebinds:
  assumes "accept_ok env a swap s" "received_their_chunk swap"
  shows "\<exists>swap'. get_pending_swap (swap_state (handle_maintenance_accept env now d a s)) (acc_proposal_id a) = Some swap' \<and>
    received_their_chunk swap' \<and> their_chunk_data swap' = their_chunk_data swap \<and> their_chunk_id swap' = acc_chunk_id a"
  using accept_handled(1) [OF assms(1), of now d] assms(2) by (simp add: bind_accept_def Let_def)

end
