(* ===== verification/Dispatch.thy ===== *)
theory Dispatch
  imports SwapFlow Shaper
begin

text \<open>
  \<^verbatim>\<open>crates/static-mesh/src/transport.rs\<close>, what a node does with a message of a connected peer: forwarding packets and
  session replies, collecting fragmented requests, serving chunks, and handing everything else to the application;
  and the senders built on the same queues. A task that the handler spawns is returned as the request it will
  serve, so that it may run at any later time. The result: a packet crosses a network of connected nodes hop by hop and
  is served or delivered at its end.
\<close>

section \<open>Collecting requests\<close>

definition try_feed_surb_request_fragment ::
  "nat \<Rightarrow> bytes \<Rightarrow> ('sc, 'sk) TransportState \<Rightarrow> bytes option option \<times> ('sc, 'sk) TransportState" where
  "try_feed_surb_request_fragment instant body s =
     (if length body < 1 + SESSION_ID_SIZE + FRAGMENT_HEADER_SIZE then (None, s)
      else if body ! 0 \<noteq> MSG_SURB_CHUNK_REQUEST then (None, s)
      else
        let session_id = take SESSION_ID_SIZE (drop 1 body) in
        case deserialize_fragment (drop (1 + SESSION_ID_SIZE) body) of
          Inl _ \<Rightarrow> (None, s)
        | Inr f \<Rightarrow>
            let key = from_be64 (take 8 session_id);
                mgr = snd (manager_cleanup_expired instant SURB_REQUEST_TIMEOUT_SECS (pending_requests s))
            in case manager_add_fragment instant key f mgr of
                 (False, mgr) \<Rightarrow> (Some None, s\<lparr>pending_requests := mgr\<rparr>)
               | (True, mgr) \<Rightarrow>
                   let s = s\<lparr>pending_requests := mgr\<rparr> in
                   (case hm_get (sessions mgr) key of
                      None \<Rightarrow> (None, s)
                    | Some session \<Rightarrow>
                        if \<not> is_complete session then (Some None, s)
                        else (case reassemble session of
                                Inl _ \<Rightarrow> (None, s)
                              | Inr data \<Rightarrow> (Some (Some data), s\<lparr>pending_requests := snd (manager_remove key mgr)\<rparr>))))"

section \<open>Serving chunks\<close>

record 'sc ServeDraw =
  sv_packets :: "nat \<Rightarrow> 'sc PacketRandom"
  sv_nonces :: "nat \<Rightarrow> bytes"

definition serve_chunk_request ::
  "('sc, 'sk) transport_env \<Rightarrow> 'sc ServeDraw \<Rightarrow> bytes \<Rightarrow> ('sc, 'sk) TransportState \<Rightarrow> ('sc, 'sk) TransportState" where
  "serve_chunk_request env d request_body s =
     (if \<not> serve_enabled s then s
      else case deserialize_chunk_request request_body of
             Inl _ \<Rightarrow> s
           | Inr request \<Rightarrow>
               let chunk_data = holder_get_chunk (chunk_holder s) (cr_chunk_id request) in
               if cr_surb request \<noteq> None then
                 (case handle_retrieval_request_with_surb (te_sphinx env) (sv_nonces d) request_body chunk_data of
                    Inr packets \<Rightarrow>
                      queue_messages (reply_first_hop packets)
                        (SphinxMsg (first_packet packets) # map SessionReplyMsg (session_replies packets)) s
                  | Inl _ \<Rightarrow> s)
               else
                 (case handle_retrieval_request (te_sphinx env) (sv_packets d) request_body chunk_data (table_kem_lookup (routing_table s)) of
                    Inr response_packets \<Rightarrow>
                      (case rr_hops (cr_return_route request) of
                         [] \<Rightarrow> s
                       | hop # _ \<Rightarrow> queue_messages (hop_node_id hop) (map SphinxMsg response_packets) s)
                  | Inl _ \<Rightarrow> s))"

section \<open>Dispatch\<close>

text \<open>The draws of one message: the clock in seconds and as an instant, and the padding of the packet processing.\<close>

record DispatchDraw =
  dd_now :: u64
  dd_instant :: nat
  dd_slot_pad :: bytes
  dd_kem_pad :: bytes

definition to_application :: "NodeId \<Rightarrow> WireMessage \<Rightarrow> ('sc, 'sk) TransportState \<Rightarrow> ('sc, 'sk) TransportState" where
  "to_application from' msg s = s\<lparr>inbound := inbound s @ [\<lparr>im_from = from', im_message = msg, is_reconnection = False\<rparr>]\<rparr>"

definition application_packet :: "bytes \<Rightarrow> WireMessage" where
  "application_packet body =
     SphinxMsg \<lparr>sp_header = \<lparr>sh_version = SPHINX_VERSION_HYBRID, ephemeral_key = replicate 32 0, sh_session_id = replicate SESSION_ID_SIZE 0,
                               routing_info = [], sh_mac = replicate 16 0\<rparr>,
                kem_ciphertexts = [], sp_body = body\<rparr>"

text \<open>The body of a packet that ends here: a request to serve, part of one, or a message for the application. The
  list holds the requests for which a serving task is spawned.\<close>

definition deliver_body ::
  "DispatchDraw \<Rightarrow> bytes \<Rightarrow> NodeId \<Rightarrow> ('sc, 'sk) TransportState \<Rightarrow> bytes list \<times> ('sc, 'sk) TransportState" where
  "deliver_body d body from' s =
     (case deserialize_chunk_request body of
        Inr _ \<Rightarrow> ([body], s)
      | Inl _ \<Rightarrow>
          (case try_feed_surb_request_fragment (dd_instant d) body s of
             (None, s) \<Rightarrow> ([], to_application from' (application_packet body) s)
           | (Some None, s) \<Rightarrow> ([], s)
           | (Some (Some request_bytes), s) \<Rightarrow> ([request_bytes], s)))"

definition handle_message ::
  "('sc, 'sk) transport_env \<Rightarrow> DispatchDraw \<Rightarrow> WireMessage \<Rightarrow> NodeId \<Rightarrow> ('sc, 'sk) TransportState \<Rightarrow>
     (TransportError + bytes list) \<times> ('sc, 'sk) TransportState" where
  "handle_message env d msg from' s =
     (let s = note_peer_activity (dd_now d) from' s in
      case msg of
        SphinxMsg packet \<Rightarrow>
          if sh_version (sp_header packet) \<noteq> SPHINX_VERSION_HYBRID then (Inr [], s)
          else (case process_packet_hybrid_with_keys (te_sphinx env) (dd_now d) (dd_slot_pad d) (dd_kem_pad d) (mix_node s) (ts_kem s) packet of
                  (Inl e, node) \<Rightarrow> (Inl (SphinxFault e), s\<lparr>mix_node := node\<rparr>)
                | (Inr outcome, node) \<Rightarrow>
                    let s = s\<lparr>mix_node := node\<rparr> in
                    (case pp_flag outcome of
                       Destination \<Rightarrow>
                         (case pp_body outcome of
                            Some body \<Rightarrow> (case deliver_body d body from' s of (spawned, s) \<Rightarrow> (Inr spawned, s))
                          | None \<Rightarrow> (Inr [], s))
                     | Forward \<Rightarrow>
                         (case forward_packet outcome of
                            Some forward \<Rightarrow> (Inr [], queue_messages (pp_next_hop outcome) [SphinxMsg forward] s)
                          | None \<Rightarrow> (Inr [], s))))
      | SessionReplyMsg reply \<Rightarrow>
          (case process_session_reply (te_sphinx env) (mix_node s) reply (dd_now d) of
             (Inl _, node) \<Rightarrow> (Inr [], s\<lparr>mix_node := node\<rparr>)
           | (Inr outcome, node) \<Rightarrow>
               let s = s\<lparr>mix_node := node\<rparr> in
               if srr_is_final outcome then (Inr [], to_application (srr_next_hop outcome) (SessionReplyMsg (srr_reply outcome)) s)
               else (Inr [], queue_messages (srr_next_hop outcome) [SessionReplyMsg (srr_reply outcome)] s))
      | _ \<Rightarrow> (Inr [], s))"

section \<open>Other senders\<close>

definition send_sphinx :: "NodeId \<Rightarrow> SphinxPacket \<Rightarrow> ('sc, 'sk) TransportState \<Rightarrow> (TransportError + unit) \<times> ('sc, 'sk) TransportState" where
  "send_sphinx peer packet s =
     (if \<not> hm_contains (connections s) peer then (Inl (ConnectionNotFound peer), s)
      else (Inr (), queue_messages peer [SphinxMsg packet] s))"

definition send_prepayment ::
  "('sc, 'sk) transport_env \<Rightarrow> 'sc SendDraw \<Rightarrow> NodeId \<Rightarrow> Prepayment \<Rightarrow> ('sc, 'sk) TransportState \<Rightarrow> (TransportError + unit) \<times> ('sc, 'sk) TransportState" where
  "send_prepayment env d peer prepayment s =
     (case prepayment_json env prepayment of
        None \<Rightarrow> (Inl ChannelSend, s)
      | Some json \<Rightarrow> (Inr (), send_maintenance_sphinx env d peer MSG_BODY_PREPAYMENT json s))"

definition send_reconciliation ::
  "('sc, 'sk) transport_env \<Rightarrow> 'sc SendDraw \<Rightarrow> NodeId \<Rightarrow> AccountingReconciliation \<Rightarrow> ('sc, 'sk) TransportState \<Rightarrow>
     (TransportError + unit) \<times> ('sc, 'sk) TransportState" where
  "send_reconciliation env d peer reconciliation s =
     (case reconciliation_json env reconciliation of
        None \<Rightarrow> (Inl ChannelSend, s)
      | Some json \<Rightarrow> (Inr (), send_maintenance_sphinx env d peer MSG_BODY_RECONCILIATION json s))"

text \<open>One round of \<open>gossip_loop\<close>: \<open>table_shuffle\<close> orders the gossiped nodes, \<open>peer_shuffle\<close> the connected peers.\<close>

definition gossip_round ::
  "('sc, 'sk) transport_env \<Rightarrow> shuffle \<Rightarrow> (NodeId list \<Rightarrow> NodeId list) \<Rightarrow> (nat \<Rightarrow> 'sc SendDraw) \<Rightarrow> ('sc, 'sk) TransportState \<Rightarrow> ('sc, 'sk) TransportState" where
  "gossip_round env table_shuffle peer_shuffle ds s =
     (let gossip = create_signed_gossip (te_gossip env) (te_ed env) table_shuffle (routing_table s) 50 (identity_key s) in
      case gossip_json env gossip of
        None \<Rightarrow> s
      | Some json \<Rightarrow>
          let peers = take 10 (peer_shuffle (hm_keys (connections s)))
          in fold (\<lambda>(i, peer) s. send_maintenance_sphinx env (ds i) peer MSG_BODY_GOSSIP json s) (enumerate 0 peers) s)"

record TransportStats =
  st_total_bytes_sent :: u64
  st_total_real_bytes_sent :: u64
  st_total_cover_bytes_sent :: u64
  connected_peers :: nat

definition get_stats :: "Shared \<Rightarrow> ('sc, 'sk) TransportState \<Rightarrow> TransportStats" where
  "get_stats sh s = \<lparr>st_total_bytes_sent = Shaper.total_bytes_sent sh, st_total_real_bytes_sent = total_real_bytes_sent sh,
     st_total_cover_bytes_sent = total_cover_bytes_sent sh, connected_peers = hm_len (connections s)\<rparr>"

section \<open>A packet crosses the network\<close>

text \<open>A route through connected nodes: each handles the message of its predecessor, and whatever it newly queues on the
  channel to the next node is what the next node receives. The result is what the last node spawns and all the nodes afterwards.\<close>

definition newly_queued :: "NodeId \<Rightarrow> ('sc, 'sk) TransportState \<Rightarrow> ('sc, 'sk) TransportState \<Rightarrow> WireMessage list" where
  "newly_queued peer s s' = (case (hm_get (connections s) peer, hm_get (connections s') peer) of
     (Some before, Some after) \<Rightarrow> drop (length before) after | _ \<Rightarrow> [])"

fun travel ::
  "('sc, 'sk) transport_env \<Rightarrow> NodeId \<Rightarrow> (DispatchDraw \<times> ('sc, 'sk) TransportState) list \<Rightarrow> WireMessage \<Rightarrow>
     (bytes list \<times> ('sc, 'sk) TransportState list) option" where
  "travel env from' [] msg = None"
| "travel env from' [(d, s)] msg =
     (case handle_message env d msg from' s of (Inl _, _) \<Rightarrow> None | (Inr spawned, s') \<Rightarrow> Some (spawned, [s']))"
| "travel env from' ((d, s) # (d2, s2) # hops) msg =
     (case handle_message env d msg from' s of
        (Inr [], s') \<Rightarrow>
          (case newly_queued (ts_node_id s2) s s' of
             [msg'] \<Rightarrow> map_option (\<lambda>(spawned, ss). (spawned, s' # ss)) (travel env (ts_node_id s) ((d2, s2) # hops) msg')
           | _ \<Rightarrow> None)
      | _ \<Rightarrow> None)"

definition hop_of :: "DispatchDraw \<times> ('sc, 'sk) TransportState \<Rightarrow> HopDraw \<times> 'sc MixNode" where
  "hop_of = (\<lambda>(d, s). (\<lparr>hd_now = dd_now d, hd_slot_pad = dd_slot_pad d, hd_kem_pad = dd_kem_pad d, hd_kem_secret = ts_kem s\<rparr>, mix_node s))"

fun linked :: "(DispatchDraw \<times> ('sc, 'sk) TransportState) list \<Rightarrow> bool" where
  "linked [] = False"
| "linked [(d, s)] = (mn_node_id (mix_node s) = ts_node_id s)"
| "linked ((d, s) # (d2, s2) # hops) =
     (mn_node_id (mix_node s) = ts_node_id s \<and> hm_contains (connections s) (ts_node_id s2) \<and> linked ((d2, s2) # hops))"

fun predecessor :: "NodeId \<Rightarrow> (DispatchDraw \<times> ('sc, 'sk) TransportState) list \<Rightarrow> NodeId" where
  "predecessor from' [] = from'"
| "predecessor from' [_] = from'"
| "predecessor from' ((d, s) # hops) = predecessor (ts_node_id s) hops"

lemma peel_outcome:
  assumes "hybrid_step env x n p = (Inr r, n')"
  shows "sh_version (sp_header p) = SPHINX_VERSION_HYBRID"
    "case pp_flag r of Forward \<Rightarrow> (\<exists>q. forward_packet r = Some q) \<and> pp_body r = None | Destination \<Rightarrow> forward_packet r = None \<and> (\<exists>b. pp_body r = Some b)"
  using assms
  by (auto simp: hybrid_step_def process_packet_hybrid_with_keys_def peel_hop_def Let_def split: if_splits sum.splits RoutingFlag.splits)

lemma handle_forward:
  assumes "hybrid_step (te_sphinx env) (fst (hop_of (d, s))) (mix_node s) p = (Inr r, n')" "forward_packet r = Some q" "hm_contains (connections s) (pp_next_hop r)"
  shows "\<exists>s'. handle_message env d (SphinxMsg p) from' s = (Inr [], s') \<and> newly_queued (pp_next_hop r) s s' = [SphinxMsg q]"
proof -
  have "pp_flag r = Forward" using peel_outcome(2) [OF assms(1)] assms(2) by (auto split: RoutingFlag.splits)
  then have "handle_message env d (SphinxMsg p) from' s =
      (Inr [], queue_messages (pp_next_hop r) [SphinxMsg q] ((note_peer_activity (dd_now d) from' s)\<lparr>mix_node := n'\<rparr>))"
    using assms peel_outcome(1) [OF assms(1)] by (simp add: handle_message_def hop_of_def hybrid_step_def note_peer_activity_def Let_def)
  then show ?thesis using assms(3)
    by (auto simp: newly_queued_def queue_messages_def note_peer_activity_def hm_contains_def)
qed

lemma handle_arrival:
  assumes "hybrid_step (te_sphinx env) (fst (hop_of (d, s))) (mix_node s) p = (Inr r, n')" "pp_body r = Some body"
  shows "handle_message env d (SphinxMsg p) from' s =
    (case deliver_body d body from' ((note_peer_activity (dd_now d) from' s)\<lparr>mix_node := n'\<rparr>) of (spawned, s') \<Rightarrow> (Inr spawned, s'))"
proof -
  have "pp_flag r = Destination" using peel_outcome(2) [OF assms(1)] assms(2) by (auto split: RoutingFlag.splits)
  then show ?thesis
    using assms peel_outcome(1) [OF assms(1)] by (simp add: handle_message_def hop_of_def hybrid_step_def note_peer_activity_def Let_def)
qed

lemma relay_travels:
  assumes "relay (hybrid_step (te_sphinx env)) (map hop_of hops) p = Some (map (mn_node_id \<circ> snd) (tl (map hop_of hops)) @ [dest], body, ns)" "linked hops"
  shows "\<exists>n' ss. travel env from' hops (SphinxMsg p) =
      Some (fst (deliver_body (fst (last hops)) body (predecessor from' hops) ((note_peer_activity (dd_now (fst (last hops))) (predecessor from' hops) (snd (last hops)))\<lparr>mix_node := n'\<rparr>)),
        ss @ [snd (deliver_body (fst (last hops)) body (predecessor from' hops) ((note_peer_activity (dd_now (fst (last hops))) (predecessor from' hops) (snd (last hops)))\<lparr>mix_node := n'\<rparr>))]) \<and>
      Suc (length ss) = length hops"
  using assms
proof (induction hops arbitrary: from' p ns rule: linked.induct)
  case (2 d s)
  obtain r n' where st: "hybrid_step (te_sphinx env) (fst (hop_of (d, s))) (mix_node s) p = (Inr r, n')" "forward_packet r = None" "pp_body r = Some body"
    using 2 by (auto simp: hop_of_def split: prod.splits sum.splits option.splits)
  show ?case using handle_arrival [OF st(1,3)] by (auto simp: split_beta intro!: exI [of _ n'])
next
  case (3 d s d2 s2 hops)
  obtain r n' where st: "hybrid_step (te_sphinx env) (fst (hop_of (d, s))) (mix_node s) p = (Inr r, n')"
    using 3 by (auto simp: hop_of_def split: prod.splits sum.splits)
  obtain q ns' where q: "forward_packet r = Some q" "pp_next_hop r = mn_node_id (mix_node s2)"
      "relay (hybrid_step (te_sphinx env)) (map hop_of ((d2, s2) # hops)) q = Some (map (mn_node_id \<circ> snd) (tl (map hop_of ((d2, s2) # hops))) @ [dest], body, ns')"
    using "3.prems" st by (auto simp: hop_of_def split: option.splits prod.splits)
  have ids: "mn_node_id (mix_node s2) = ts_node_id s2" "hm_contains (connections s) (ts_node_id s2)" "linked ((d2, s2) # hops)"
    using "3.prems"(2) by (cases hops; force)+
  obtain s' where s': "handle_message env d (SphinxMsg p) from' s = (Inr [], s')" "newly_queued (ts_node_id s2) s s' = [SphinxMsg q]"
    using handle_forward [OF st q(1), of from'] q(2) ids by auto
  from "3.IH" [OF q(3) ids(3), of "ts_node_id s"] obtain n2 ss where
    "travel env (ts_node_id s) ((d2, s2) # hops) (SphinxMsg q) =
      Some (fst (deliver_body (fst (last ((d2, s2) # hops))) body (predecessor (ts_node_id s) ((d2, s2) # hops)) ((note_peer_activity (dd_now (fst (last ((d2, s2) # hops)))) (predecessor (ts_node_id s) ((d2, s2) # hops)) (snd (last ((d2, s2) # hops))))\<lparr>mix_node := n2\<rparr>)),
        ss @ [snd (deliver_body (fst (last ((d2, s2) # hops))) body (predecessor (ts_node_id s) ((d2, s2) # hops)) ((note_peer_activity (dd_now (fst (last ((d2, s2) # hops)))) (predecessor (ts_node_id s) ((d2, s2) # hops)) (snd (last ((d2, s2) # hops))))\<lparr>mix_node := n2\<rparr>))])"
    "Suc (length ss) = length ((d2, s2) # hops)" by blast
  then show ?case using s' by (intro exI [of _ n2] exI [of _ "s' # ss"]) simp
qed simp

lemma deliver_request: "deserialize_chunk_request body = Inr req \<Longrightarrow> deliver_body d body from' s = ([body], s)"
  by (simp add: deliver_body_def)

lemma try_feed_frame:
  "\<exists>mgr. snd (try_feed_surb_request_fragment instant body s) = s\<lparr>pending_requests := mgr\<rparr>"
  by (rule exI [of _ "pending_requests (snd (try_feed_surb_request_fragment instant body s))"])
     (simp add: try_feed_surb_request_fragment_def Let_def split: sum.split prod.split bool.split option.split)

lemma try_feed_cong:
  "pending_requests s = pending_requests s' \<Longrightarrow>
     fst (try_feed_surb_request_fragment instant body s) = fst (try_feed_surb_request_fragment instant body s')"
  by (simp add: try_feed_surb_request_fragment_def Let_def split: sum.split prod.split bool.split option.split)

lemma deliver_parts:
  assumes "deserialize_chunk_request body = Inl e" "pending_requests s = pending_requests s0" "inbound s = inbound s0"
  shows "case fst (try_feed_surb_request_fragment (dd_instant d) body s0) of
      None \<Rightarrow> fst (deliver_body d body from' s) = [] \<and> inbound (snd (deliver_body d body from' s)) = inbound s0 @
        [\<lparr>im_from = from', im_message = application_packet body, is_reconnection = False\<rparr>]
    | Some None \<Rightarrow> fst (deliver_body d body from' s) = [] \<and> inbound (snd (deliver_body d body from' s)) = inbound s0
    | Some (Some request) \<Rightarrow> fst (deliver_body d body from' s) = [request] \<and> inbound (snd (deliver_body d body from' s)) = inbound s0"
proof -
  obtain fed s1 where f: "try_feed_surb_request_fragment (dd_instant d) body s = (fed, s1)" by fastforce
  have "inbound s1 = inbound s0" using try_feed_frame [of "dd_instant d" body s] f assms(3) by auto
  moreover have "fst (try_feed_surb_request_fragment (dd_instant d) body s0) = fed" using try_feed_cong [OF assms(2)] f by (metis fst_conv)
  ultimately show ?thesis using f assms(1) by (auto simp: deliver_body_def to_application_def split: option.split)
qed

lemma deliver_serve_enabled: "serve_enabled (snd (deliver_body d body from' s)) = serve_enabled s"
proof -
  obtain mgr where "snd (try_feed_surb_request_fragment (dd_instant d) body s) = s\<lparr>pending_requests := mgr\<rparr>" using try_feed_frame by blast
  then show ?thesis
    by (cases "try_feed_surb_request_fragment (dd_instant d) body s")
      (auto simp: deliver_body_def to_application_def split: sum.split option.split)
qed


definition demo_relay :: "u8 \<Rightarrow> DispatchDraw \<times> (u8, nat) TransportState" where
  "demo_relay k = (\<lparr>dd_now = 100, dd_instant = 0, dd_slot_pad = replicate 33 k, dd_kem_pad = [k]\<rparr>,
     (demo_peer k)\<lparr>mix_node := snd (demo_hop k), connections := [(replicate 16 7, [])]\<rparr>)"


end
