(* ===== verification/HostBuffer.thy ===== *)
theory HostBuffer
  imports Prelude
begin

text \<open>
  \<^verbatim>\<open>crates/static-node/src/runner.rs\<close>, the life of a chunk on its host: its age, which keeps fresh data out of the
  barter pool, and the buffer of recently bartered chunks from which lost ones are seeded again. The results: the
  buffer refines a plain list of its entries, from which insertion drops the oldest until the new one fits; its
  byte count is exact and never exceeds the limit.
\<close>

section \<open>Age\<close>

definition STALENESS_THRESHOLD_SECS :: u64 where "STALENESS_THRESHOLD_SECS = 86400"

record ChunkMetadata =
  md_created_at :: u64
  last_bartered :: u64
  is_fresh :: bool

definition ChunkMetadata_fresh :: "u64 \<Rightarrow> ChunkMetadata" where
  "ChunkMetadata_fresh now = \<lparr>md_created_at = now, last_bartered = 0, is_fresh = True\<rparr>"

definition refresh :: "u64 \<Rightarrow> ChunkMetadata \<Rightarrow> ChunkMetadata" where
  "refresh now m = m\<lparr>is_fresh := saturating_sub now (md_created_at m) < STALENESS_THRESHOLD_SECS\<rparr>"

definition barter_eligible :: "u64 \<Rightarrow> ChunkMetadata \<Rightarrow> bool" where
  "barter_eligible now m \<longleftrightarrow> STALENESS_THRESHOLD_SECS \<le> saturating_sub now (md_created_at m)"

section \<open>The buffer\<close>

record HostBuffer =
  hb_buffer :: "(ChunkId, bytes \<times> u64) hashmap"
  hb_order :: "ChunkId list"
  hb_max_size :: u64
  hb_current_size :: u64

definition HostBuffer_new :: "u64 \<Rightarrow> HostBuffer" where
  "HostBuffer_new max_size = \<lparr>hb_buffer = [], hb_order = [], hb_max_size = max_size, hb_current_size = 0\<rparr>"

definition drop_entry :: "ChunkId \<Rightarrow> HostBuffer \<Rightarrow> HostBuffer" where
  "drop_entry chunk_id b =
     (case hm_get (hb_buffer b) chunk_id of
        Some (old, _) \<Rightarrow> b\<lparr>hb_buffer := hm_remove chunk_id (hb_buffer b),
                            hb_current_size := saturating_sub (hb_current_size b) (word_of_nat (length old))\<rparr>
      | None \<Rightarrow> b)"

text \<open>The eviction loop, structural in the queue it pops from.\<close>

fun host_evict :: "u64 \<Rightarrow> ChunkId list \<Rightarrow> HostBuffer \<Rightarrow> HostBuffer" where
  "host_evict len [] b = b\<lparr>hb_order := []\<rparr>"
| "host_evict len (old_id # order) b =
     (if hb_max_size b < hb_current_size b + len then host_evict len order (drop_entry old_id b)
      else b\<lparr>hb_order := old_id # order\<rparr>)"

text \<open>The removal of an older copy of the chunk.\<close>

definition without_copy :: "ChunkId \<Rightarrow> HostBuffer \<Rightarrow> HostBuffer" where
  "without_copy chunk_id b =
     (if hm_contains (hb_buffer b) chunk_id
      then (drop_entry chunk_id b)\<lparr>hb_order := filter (\<lambda>i. i \<noteq> chunk_id) (hb_order b)\<rparr> else b)"

definition host_insert :: "ChunkId \<Rightarrow> bytes \<Rightarrow> u64 \<Rightarrow> HostBuffer \<Rightarrow> HostBuffer" where
  "host_insert chunk_id data created_at b =
     (let len = word_of_nat (length data) in
      if hb_max_size b < len then b
      else
        let b = without_copy chunk_id b;
            b = host_evict len (hb_order b) b
        in b\<lparr>hb_order := hb_order b @ [chunk_id], hb_current_size := hb_current_size b + len,
             hb_buffer := hm_insert chunk_id (data, created_at) (hb_buffer b)\<rparr>)"

definition host_get :: "ChunkId \<Rightarrow> HostBuffer \<Rightarrow> (bytes \<times> u64) option" where
  "host_get chunk_id b = hm_get (hb_buffer b) chunk_id"

section \<open>The list it implements\<close>

type_synonym host_entries = "(ChunkId \<times> bytes \<times> u64) list"

definition entries_size :: "host_entries \<Rightarrow> nat" where
  "entries_size xs = sum_list (map (\<lambda>(_, data, _). length data) xs)"

fun shed :: "nat \<Rightarrow> host_entries \<Rightarrow> host_entries" where
  "shed room [] = []"
| "shed room (x # xs) = (if room < entries_size (x # xs) then shed room xs else x # xs)"

definition entries_insert :: "nat \<Rightarrow> ChunkId \<Rightarrow> bytes \<Rightarrow> u64 \<Rightarrow> host_entries \<Rightarrow> host_entries" where
  "entries_insert max_size chunk_id data created_at xs =
     (if max_size < length data then xs
      else shed (max_size - length data) (filter (\<lambda>x. fst x \<noteq> chunk_id) xs) @ [(chunk_id, data, created_at)])"

definition host_entries :: "HostBuffer \<Rightarrow> host_entries" where
  "host_entries b = map (\<lambda>i. (i, the (hm_get (hb_buffer b) i))) (hb_order b)"

text \<open>Queue and table hold the same chunks and the counter is the number of their bytes; the limit leaves room for a sum
  of two sizes in a \<open>u64\<close>.\<close>

definition host_ok :: "HostBuffer \<Rightarrow> bool" where
  "host_ok b \<longleftrightarrow> hm_wf (hb_buffer b) \<and> distinct (hb_order b) \<and> set (hb_order b) = set (hm_keys (hb_buffer b)) \<and>
     unat (hb_current_size b) = entries_size (host_entries b) \<and> hb_current_size b \<le> hb_max_size b \<and> unat (hb_max_size b) < 2 ^ 63"

lemma entries_size_simps [simp]: "entries_size [] = 0" "entries_size (x # xs) = length (fst (snd x)) + entries_size xs"
  by (simp_all add: entries_size_def case_prod_beta)

lemma entries_size_append [simp]: "entries_size (xs @ ys) = entries_size xs + entries_size ys"
  by (induction xs) simp_all

lemma entries_size_filter: "entries_size (filter P xs) \<le> entries_size xs"
  by (induction xs) auto

lemma shed_size: "entries_size (shed room xs) \<le> room"
  by (induction xs) auto

lemma shed_suffix: "\<exists>ys. xs = ys @ shed room xs"
  by (induction xs) (auto intro: exI [of _ "[]"] exI [of _ "_ # _"])

text \<open>The buffer with the queue set aside, as the loop sees it: a suffix of the queue, and a table of its entries.\<close>

definition queue_entries :: "ChunkId list \<Rightarrow> HostBuffer \<Rightarrow> host_entries" where
  "queue_entries order b = map (\<lambda>i. (i, the (hm_get (hb_buffer b) i))) order"

definition queue_ok :: "ChunkId list \<Rightarrow> HostBuffer \<Rightarrow> bool" where
  "queue_ok order b \<longleftrightarrow> hm_wf (hb_buffer b) \<and> distinct order \<and> set order = set (hm_keys (hb_buffer b)) \<and>
     unat (hb_current_size b) = entries_size (queue_entries order b) \<and> hb_current_size b \<le> hb_max_size b \<and> unat (hb_max_size b) < 2 ^ 63"

lemma host_ok_queue: "host_ok b \<longleftrightarrow> queue_ok (hb_order b) b" "host_entries b = queue_entries (hb_order b) b"
  by (simp_all add: host_ok_def queue_ok_def host_entries_def queue_entries_def)

lemma keys_get: "i \<in> set (hm_keys m) \<longleftrightarrow> (\<exists>v. hm_get m i = Some v)"
  by (metis hm_contains_alt hm_contains_def hm_keys_def not_None_eq)

lemma keys_remove [simp]: "set (hm_keys (hm_remove k m)) = set (hm_keys m) - {k}"
  by (auto simp: keys_get split: if_splits)

lemma entry_fits:
  assumes "queue_ok order b" "i \<in> set order" "hm_get (hb_buffer b) i = Some (data, ts)"
  shows "unat (word_of_nat (length data) :: u64) = length data \<and> length data \<le> unat (hb_current_size b)"
proof -
  have "length data \<le> entries_size (queue_entries order b)"
    using assms(2, 3) by (induction order) (auto simp: queue_entries_def)
  then have "length data \<le> unat (hb_current_size b)" using assms(1) by (simp add: queue_ok_def)
  moreover have "unat (hb_current_size b) < 2 ^ 64" using unsigned_less [of "hb_current_size b"] by simp
  ultimately show ?thesis by (simp add: unat_of_nat)
qed

lemma queue_entries_remove: "k \<notin> set order \<Longrightarrow> queue_entries order (b\<lparr>hb_buffer := hm_remove k (hb_buffer b), hb_current_size := n\<rparr>) = queue_entries order b"
  by (auto simp: queue_entries_def)

lemma entries_without: "distinct order \<Longrightarrow> i \<in> set order \<Longrightarrow> hm_get (hb_buffer b) i = Some (data, ts) \<Longrightarrow>
    entries_size (queue_entries order b) = length data + entries_size (queue_entries (filter (\<lambda>j. j \<noteq> i) order) b)"
proof (induction order)
  case (Cons j order)
  show ?case
  proof (cases "j = i")
    case True
    then have "filter (\<lambda>j. j \<noteq> i) order = order" using Cons.prems(1) by (auto simp: filter_id_conv)
    then show ?thesis using True Cons.prems(3) by (simp add: queue_entries_def)
  qed (use Cons in \<open>simp add: queue_entries_def\<close>)
qed simp

lemma drop_entry_ok:
  assumes "queue_ok order b" "i \<in> set order"
  shows "queue_ok (filter (\<lambda>j. j \<noteq> i) order) (drop_entry i b)"
    "queue_entries (filter (\<lambda>j. j \<noteq> i) order) (drop_entry i b) = filter (\<lambda>x. fst x \<noteq> i) (queue_entries order b)"
    "hb_max_size (drop_entry i b) = hb_max_size b"
proof -
  let ?rest = "filter (\<lambda>j. j \<noteq> i) order"
  have "i \<in> set (hm_keys (hb_buffer b))" using assms by (simp add: queue_ok_def)
  then obtain data ts where g: "hm_get (hb_buffer b) i = Some (data, ts)" by (auto simp: keys_get)
  note fits = entry_fits [OF assms g]
  have d: "drop_entry i b = b\<lparr>hb_buffer := hm_remove i (hb_buffer b), hb_current_size := saturating_sub (hb_current_size b) (word_of_nat (length data))\<rparr>"
    using g by (simp add: drop_entry_def)
  have q: "queue_entries ?rest (drop_entry i b) = queue_entries ?rest b" unfolding d by (rule queue_entries_remove) simp
  have s: "unat (hb_current_size (drop_entry i b)) = entries_size (queue_entries ?rest b)"
    using fits assms(1) entries_without [OF _ assms(2) g] by (simp add: d queue_ok_def)
  moreover have "hb_current_size (drop_entry i b) \<le> hb_max_size b"
    using s assms(1) entries_without [OF _ assms(2) g] by (simp add: word_le_nat_alt queue_ok_def)
  ultimately show "queue_ok ?rest (drop_entry i b)"
    using assms(1) q by (simp add: queue_ok_def d) auto
  show "queue_entries ?rest (drop_entry i b) = filter (\<lambda>x. fst x \<noteq> i) (queue_entries order b)"
    unfolding q by (simp add: queue_entries_def filter_map comp_def)
  show "hb_max_size (drop_entry i b) = hb_max_size b" by (simp add: d)
qed

lemma queue_entries_Cons: "queue_entries (i # order) b = (i, the (hm_get (hb_buffer b) i)) # queue_entries order b"
  by (simp add: queue_entries_def)

lemma host_evict_correct:
  assumes "queue_ok order b" "len \<le> hb_max_size b"
  shows "host_ok (host_evict len order b) \<and> hb_max_size (host_evict len order b) = hb_max_size b \<and>
    host_entries (host_evict len order b) = shed (unat (hb_max_size b) - unat len) (queue_entries order b)"
  using assms
proof (induction order arbitrary: b)
  case Nil
  then show ?case by (simp add: host_ok_def host_entries_def queue_ok_def queue_entries_def)
next
  case (Cons i order)
  have "unat (hb_current_size b) + unat len < 2 ^ 64" using Cons.prems by (simp add: queue_ok_def word_le_nat_alt)
  then have over: "hb_max_size b < hb_current_size b + len \<longleftrightarrow>
      unat (hb_max_size b) - unat len < entries_size (queue_entries (i # order) b)"
    using Cons.prems by (auto simp: word_less_nat_alt word_le_nat_alt unat_add_no_wrap queue_ok_def)
  show ?case
  proof (cases "hb_max_size b < hb_current_size b + len")
    case True
    have f: "filter (\<lambda>j. j \<noteq> i) (i # order) = order" using Cons.prems(1) by (auto simp: queue_ok_def filter_id_conv)
    have "filter (\<lambda>x. fst x \<noteq> i) (queue_entries (i # order) b) = queue_entries order b"
      using Cons.prems(1) by (auto simp: queue_ok_def queue_entries_def filter_id_conv)
    then have d: "queue_ok order (drop_entry i b)" "queue_entries order (drop_entry i b) = queue_entries order b"
        "hb_max_size (drop_entry i b) = hb_max_size b"
      using drop_entry_ok [OF Cons.prems(1), of i] f by simp_all
    have "host_ok (host_evict len order (drop_entry i b)) \<and> hb_max_size (host_evict len order (drop_entry i b)) = hb_max_size (drop_entry i b) \<and>
        host_entries (host_evict len order (drop_entry i b)) =
          shed (unat (hb_max_size (drop_entry i b)) - unat len) (queue_entries order (drop_entry i b))"
      by (rule Cons.IH) (use d Cons.prems in simp_all)
    moreover have "unat (hb_max_size b) - unat len < entries_size (queue_entries (i # order) b)" using True over by blast
    ultimately show ?thesis using True d by (simp add: queue_entries_Cons)
  next
    case False
    then have "host_ok (b\<lparr>hb_order := i # order\<rparr>)" using Cons.prems by (simp add: host_ok_queue queue_ok_def queue_entries_def)
    moreover have "\<not> unat (hb_max_size b) - unat len < entries_size (queue_entries (i # order) b)" using False over by blast
    ultimately show ?thesis using False by (simp add: host_ok_queue queue_entries_def)
  qed
qed

lemma queue_entries_order: "queue_entries order (b\<lparr>hb_order := os\<rparr>) = queue_entries order b" "queue_ok order (b\<lparr>hb_order := os\<rparr>) = queue_ok order b"
  by (simp_all add: queue_entries_def queue_ok_def)

lemma without_copy_ok:
  assumes "host_ok b"
  shows "queue_ok (hb_order (without_copy i b)) (without_copy i b)"
    "queue_entries (hb_order (without_copy i b)) (without_copy i b) = filter (\<lambda>x. fst x \<noteq> i) (host_entries b)"
    "hb_max_size (without_copy i b) = hb_max_size b"
proof -
  have member: "hm_contains (hb_buffer b) i \<longleftrightarrow> i \<in> set (hb_order b)" using assms(1) by (simp add: host_ok_def hm_contains_alt hm_keys_def)
  show "queue_ok (hb_order (without_copy i b)) (without_copy i b)" "hb_max_size (without_copy i b) = hb_max_size b"
    using assms(1) drop_entry_ok [of "hb_order b" b i] member by (auto simp: without_copy_def host_ok_queue queue_entries_order)
  show "queue_entries (hb_order (without_copy i b)) (without_copy i b) = filter (\<lambda>x. fst x \<noteq> i) (host_entries b)"
  proof (cases "i \<in> set (hb_order b)")
    case True
    then show ?thesis using assms(1) member drop_entry_ok(2) [of "hb_order b" b i] by (simp add: without_copy_def host_ok_queue queue_entries_order)
  next
    case False
    then have "filter (\<lambda>x. fst x \<noteq> i) (host_entries b) = host_entries b" by (auto simp: host_entries_def filter_id_conv)
    then show ?thesis using False member by (simp add: without_copy_def host_ok_queue)
  qed
qed

lemma host_get_entries:
  assumes "host_ok b"
  shows "host_get j b = map_of (host_entries b) j"
proof (cases "hm_get (hb_buffer b) j")
  case None
  then have "j \<notin> set (hb_order b)" using assms keys_get [of j "hb_buffer b"] by (simp add: host_ok_def)
  then have "map_of (host_entries b) j = None" by (auto simp: host_entries_def map_of_eq_None_iff)
  then show ?thesis using None by (simp add: host_get_def)
next
  case (Some v)
  then have "j \<in> set (hb_order b)" using assms keys_get [of j "hb_buffer b"] by (simp add: host_ok_def)
  then have "(j, v) \<in> set (host_entries b)" using Some by (force simp: host_entries_def)
  moreover have "distinct (map fst (host_entries b))" using assms by (simp add: host_entries_def host_ok_def comp_def)
  ultimately show ?thesis using Some by (simp add: host_get_def)
qed

lemma host_insert_ok:
  assumes "host_ok b" "length data < 2 ^ 64"
  shows "host_ok (host_insert i data ts b) \<and> hb_max_size (host_insert i data ts b) = hb_max_size b \<and>
    host_entries (host_insert i data ts b) = entries_insert (unat (hb_max_size b)) i data ts (host_entries b)"
proof -
  let ?len = "word_of_nat (length data) :: u64"
  let ?b = "host_insert i data ts b"
  have len: "unat ?len = length data" using assms(2) by (simp add: unat_of_nat)
  show ?thesis
  proof (cases "hb_max_size b < ?len")
    case True
    then show ?thesis using assms(1) len by (simp add: host_insert_def entries_insert_def word_less_nat_alt)
  next
    case False
    define b1 where "b1 = without_copy i b"
    define b2 where "b2 = host_evict ?len (hb_order b1) b1"
    note b1 = without_copy_ok [OF assms(1), of i, folded b1_def]
    have ins: "?b = b2\<lparr>hb_order := hb_order b2 @ [i], hb_current_size := hb_current_size b2 + ?len, hb_buffer := hm_insert i (data, ts) (hb_buffer b2)\<rparr>"
      using False by (simp add: host_insert_def b1_def b2_def Let_def)
    have "host_ok b2 \<and> hb_max_size b2 = hb_max_size b1 \<and>
        host_entries b2 = shed (unat (hb_max_size b1) - unat ?len) (queue_entries (hb_order b1) b1)"
      unfolding b2_def by (rule host_evict_correct) (use b1 False in simp_all)
    then have b2: "host_ok b2" "hb_max_size b2 = hb_max_size b"
        "host_entries b2 = shed (unat (hb_max_size b) - length data) (filter (\<lambda>x. fst x \<noteq> i) (host_entries b))"
      using b1 len by simp_all
    obtain ys where "filter (\<lambda>x. fst x \<noteq> i) (host_entries b) = ys @ host_entries b2" unfolding b2(3) using shed_suffix by blast
    then have "set (host_entries b2) \<subseteq> set (filter (\<lambda>x. fst x \<noteq> i) (host_entries b))" by simp
    then have new: "i \<notin> set (hb_order b2)" by (force simp: host_entries_def)
    have le: "length data \<le> unat (hb_max_size b)" using False len by (simp add: word_less_nat_alt)
    have "entries_size (host_entries b2) \<le> unat (hb_max_size b) - length data" unfolding b2(3) by (rule shed_size)
    then have room: "unat (hb_current_size b2) + length data \<le> unat (hb_max_size b)"
      using b2(1) le by (simp add: host_ok_def)
    then have sum: "unat (hb_current_size b2 + ?len) = unat (hb_current_size b2) + length data"
      using b2(1, 2) len by (subst unat_add_no_wrap) (simp_all add: host_ok_def)
    have e: "host_entries ?b = host_entries b2 @ [(i, data, ts)]"
      using new by (simp add: ins host_entries_def)
    moreover have "host_ok ?b"
    proof -
      have "set (hm_keys (hm_insert i (data, ts) (hb_buffer b2))) = insert i (set (hm_keys (hb_buffer b2)))"
        by (auto simp: keys_get split: if_splits)
      moreover have "unat (hb_current_size ?b) = entries_size (host_entries ?b)" using e sum b2(1) by (simp add: ins host_ok_def)
      moreover have "hb_current_size ?b \<le> hb_max_size b" using sum room by (simp add: ins word_le_nat_alt)
      ultimately show ?thesis using b2(1, 2) new by (simp add: host_ok_def) (simp add: ins)
    qed
    ultimately show ?thesis using le b2(2, 3) by (simp add: entries_insert_def) (simp add: ins)
  qed
qed

text \<open>C38 (refinement). The host buffer is its list of entries, oldest insertion first. Inserting a chunk that fits the buffer removes its old
  copy, drops the oldest entries only as long as the new one does not fit, and appends it with the time it is inserted with; a chunk larger than the buffer
  changes nothing. (The comment of \<open>insert\<close> promises that a chunk inserted again retains its original time; the code gives it the new one.) A lookup is a lookup in that list, queue and table agree, and the byte counter is exact and within the limit.\<close>

theorem host_buffer_refines:
  assumes "host_ok b" "length data < 2 ^ 64"
  shows "host_ok (host_insert i data ts b) \<and>
    host_entries (host_insert i data ts b) = entries_insert (unat (hb_max_size b)) i data ts (host_entries b) \<and>
    unat (hb_current_size (host_insert i data ts b)) = entries_size (host_entries (host_insert i data ts b)) \<and>
    hb_current_size (host_insert i data ts b) \<le> hb_max_size b \<and>
    (\<forall>j. host_get j (host_insert i data ts b) = map_of (host_entries (host_insert i data ts b)) j)"
proof -
  define c where "c = host_insert i data ts b"
  have "host_ok c" "hb_max_size c = hb_max_size b" "host_entries c = entries_insert (unat (hb_max_size b)) i data ts (host_entries b)"
    using host_insert_ok [OF assms, of i ts] by (simp_all add: c_def)
  then show ?thesis unfolding c_def [symmetric] by (simp add: host_get_entries) (simp add: host_ok_def)
qed

lemma host_ok_new: "unat max_size < 2 ^ 63 \<Longrightarrow> host_ok (HostBuffer_new max_size)"
  by (simp add: host_ok_def HostBuffer_new_def host_entries_def hm_keys_def)

definition demo_host :: HostBuffer where
  "demo_host = \<lparr>hb_buffer = [([1], ([7, 7, 7], 10)), ([2], ([8, 8], 11))], hb_order = [[1], [2]], hb_max_size = 6, hb_current_size = 5\<rparr>"

theorem host_buffer_refines_witness:
  "host_entries (host_insert [3] [9, 9] 12 demo_host) = [([2], [8, 8], 11), ([3], [9, 9], 12)]"
proof -
  have "host_ok demo_host" by (simp add: host_ok_def demo_host_def host_entries_def hm_keys_def hm_wf_def)
  moreover have "entries_insert (unat (hb_max_size demo_host)) [3] [9, 9] 12 (host_entries demo_host) = [([2], [8, 8], 11), ([3], [9, 9], 12)]"
    by (simp add: entries_insert_def demo_host_def host_entries_def)
  ultimately show ?thesis using host_buffer_refines [of demo_host "[9, 9]" "[3]" 12] by simp
qed

end
