(* ===== verification/Payment.thy ===== *)
theory Payment
  imports ComputeProtocol
begin

text \<open>
  \<^verbatim>\<open>crates/static-node/src/payment.rs\<close>: the price of an execution and the watchers that look for its payment.
  The wallet's JSON-RPC interface is a parameter, as is \<open>serde_json::Value\<close>. The results: the quoted amount
  is the exact worst case price, capped at the largest \<open>u64\<close>; and a payment is reported exactly when
  the wallet lists an incoming transfer to the quoted address of at least the quoted amount.
\<close>

section \<open>Prices\<close>

definition div_ceil :: "u64 \<Rightarrow> u64 \<Rightarrow> u64" where
  "div_ceil a b = (if 0 < a mod b then a div b + 1 else a div b)"

record ComputePricing =
  price_per_execution :: u64
  price_per_cpu_sec :: u64
  price_per_mb :: u64
  accepted_currencies :: "Currency list"
  pricing_required_confirmations :: u32

definition ComputePricing_default :: ComputePricing where
  "ComputePricing_default = \<lparr>price_per_execution = 0, price_per_cpu_sec = 0, price_per_mb = 0,
     accepted_currencies = [Monero], pricing_required_confirmations = 1\<rparr>"

definition is_free :: "ComputePricing \<Rightarrow> bool" where
  "is_free p \<longleftrightarrow> price_per_execution p = 0 \<and> price_per_cpu_sec p = 0 \<and> price_per_mb p = 0"

definition accepts :: "ComputePricing \<Rightarrow> Currency \<Rightarrow> bool" where
  "accepts p currency \<longleftrightarrow> List.member (accepted_currencies p) currency"

definition amount_due :: "ComputePricing \<Rightarrow> u64 \<Rightarrow> u64 \<Rightarrow> u64" where
  "amount_due p max_cpu_ms max_memory_mb =
     (let cpu_secs = div_ceil max_cpu_ms 1000 in
      saturating_add (saturating_add (price_per_execution p) (saturating_mul (price_per_cpu_sec p) cpu_secs))
        (saturating_mul (price_per_mb p) max_memory_mb))"

section \<open>Payment states and watchers\<close>

datatype PaymentState =
    AwaitingPayment (aw_request: PaymentRequest) (aw_sent_at: u64)
  | PaymentConfirmed (pc_tx_hash: bytes) (pc_confirmed_at: u64)
  | PaymentTimeout

record BlockchainConfig =
  monero_rpc_url :: bytes
  darkfi_rpc_url :: bytes
  navio_rpc_url :: bytes
  payment_timeout_secs :: u64

definition BlockchainConfig_default :: BlockchainConfig where
  "BlockchainConfig_default = \<lparr>monero_rpc_url = ascii_bytes ''http://127.0.0.1:18082/json_rpc'',
     darkfi_rpc_url = ascii_bytes ''http://127.0.0.1:8269'', navio_rpc_url = ascii_bytes ''http://127.0.0.1:38888'',
     payment_timeout_secs = 3600\<rparr>"

datatype PaymentError =
    RpcError bytes
  | AddressGenerationFailed bytes
  | PaymentNotFound
  | AmountMismatch u64 u64
  | InsufficientConfirmations u32
  | Timeout
  | UnsupportedCurrency bytes

text \<open>What the watcher uses of \<open>serde_json::Value\<close>, and the calls it posts to the wallet. \<open>post\<close> gives the decoded
  answer, or the text of a connection or decoding error.\<close>

record 'v json_value =
  jv_get :: "'v \<Rightarrow> string \<Rightarrow> 'v option"
  jv_index :: "'v \<Rightarrow> string \<Rightarrow> 'v"
  jv_as_str :: "'v \<Rightarrow> bytes option"
  jv_as_array :: "'v \<Rightarrow> 'v list option"
  jv_as_u64 :: "'v \<Rightarrow> u64 option"
  jv_display :: "'v \<Rightarrow> bytes"

datatype RpcCall = CreateAddress | GetTransfers bytes

type_synonym 'v wallet = "bytes \<Rightarrow> RpcCall \<Rightarrow> bytes + 'v"

definition rpc_call :: "'v json_value \<Rightarrow> 'v wallet \<Rightarrow> bytes \<Rightarrow> RpcCall \<Rightarrow> PaymentError + 'v" where
  "rpc_call jv post rpc_url call =
     (case post rpc_url call of
        Inl e \<Rightarrow> Inl (RpcError e)
      | Inr response \<Rightarrow>
          (case jv_get jv response ''error'' of
             Some err \<Rightarrow> Inl (RpcError (ascii_bytes ''RPC error: '' @ jv_display jv err))
           | None \<Rightarrow> Inr response))"

datatype Watcher = MoneroWatcher bytes | DarkfiWatcher bytes | NavioWatcher bytes

fun generate_address :: "'v json_value \<Rightarrow> 'v wallet \<Rightarrow> Watcher \<Rightarrow> PaymentError + bytes" where
  "generate_address jv post (MoneroWatcher rpc_url) =
     (case rpc_call jv post rpc_url CreateAddress of
        Inl e \<Rightarrow> Inl e
      | Inr response \<Rightarrow>
          (case jv_as_str jv (jv_index jv (jv_index jv response ''result'') ''address'') of
             None \<Rightarrow> Inl (AddressGenerationFailed (ascii_bytes ''No address in response''))
           | Some address \<Rightarrow> Inr address))"
| "generate_address jv post (DarkfiWatcher rpc_url) = Inl (UnsupportedCurrency (Currency_as_str Darkfi))"
| "generate_address jv post (NavioWatcher rpc_url) = Inl (UnsupportedCurrency (Currency_as_str Navio))"

fun find_transfer :: "'v json_value \<Rightarrow> bytes \<Rightarrow> u64 \<Rightarrow> 'v list \<Rightarrow> u32 option" where
  "find_transfer jv address expected_amount [] = None"
| "find_transfer jv address expected_amount (transfer # transfers) =
     (if jv_as_str jv (jv_index jv transfer ''address'') \<noteq> Some address then find_transfer jv address expected_amount transfers
      else
        let amount = (case jv_as_u64 jv (jv_index jv transfer ''amount'') of Some n \<Rightarrow> n | None \<Rightarrow> 0) in
        if expected_amount \<le> amount then
          Some (ucast (case jv_as_u64 jv (jv_index jv transfer ''confirmations'') of Some n \<Rightarrow> n | None \<Rightarrow> 0))
        else find_transfer jv address expected_amount transfers)"

fun check_payment :: "'v json_value \<Rightarrow> 'v wallet \<Rightarrow> Watcher \<Rightarrow> bytes \<Rightarrow> u64 \<Rightarrow> bytes option \<Rightarrow> PaymentError + u32 option" where
  "check_payment jv post (MoneroWatcher rpc_url) address expected_amount tx_hash =
     (case rpc_call jv post rpc_url (GetTransfers address) of
        Inl e \<Rightarrow> Inl e
      | Inr response \<Rightarrow>
          (case jv_as_array jv (jv_index jv (jv_index jv response ''result'') ''in'') of
             None \<Rightarrow> Inl (RpcError (ascii_bytes ''No transfers in response''))
           | Some transfers \<Rightarrow> Inr (find_transfer jv address expected_amount transfers)))"
| "check_payment jv post (DarkfiWatcher rpc_url) address expected_amount tx_hash = Inl (UnsupportedCurrency (Currency_as_str Darkfi))"
| "check_payment jv post (NavioWatcher rpc_url) address expected_amount tx_hash = Inl (UnsupportedCurrency (Currency_as_str Navio))"

fun watcher_currency :: "Watcher \<Rightarrow> Currency" where
  "watcher_currency (MoneroWatcher _) = Monero"
| "watcher_currency (DarkfiWatcher _) = Darkfi"
| "watcher_currency (NavioWatcher _) = Navio"

fun create_watcher :: "Currency \<Rightarrow> BlockchainConfig \<Rightarrow> Watcher" where
  "create_watcher Monero config = MoneroWatcher (monero_rpc_url config)"
| "create_watcher Darkfi config = DarkfiWatcher (darkfi_rpc_url config)"
| "create_watcher Navio config = NavioWatcher (navio_rpc_url config)"

section \<open>Exact prices\<close>

lemma unat_div_ceil: "unat (div_ceil a 1000) = (unat a + 999) div 1000"
proof -
  have q: "unat (a div 1000) = unat a div 1000" by (simp add: unat_div_distrib)
  have r: "(0 < a mod 1000) = (0 < unat a mod 1000)" by (simp add: word_less_nat_alt unat_mod_distrib)
  have "unat a < 2 ^ 64" using unsigned_less [of a] by simp
  then have "unat a div 1000 + 1 < 2 ^ 64" by simp
  then have q1: "unat (a div 1000 + 1) = unat a div 1000 + 1" using q by (simp add: unat_word_ariths)
  define m where "m = unat a mod 1000"
  have "(1000 * (unat a div 1000) + (m + 999)) div 1000 = unat a div 1000 + (m + 999) div 1000" by simp
  moreover have "1000 * (unat a div 1000) + (m + 999) = unat a + 999" unfolding m_def by simp
  ultimately have split: "(unat a + 999) div 1000 = unat a div 1000 + (m + 999) div 1000" by simp
  show ?thesis
  proof (cases "0 < m")
    case True
    moreover have "m < 1000" by (simp add: m_def)
    ultimately have "(m + 999) div 1000 = 1" by (simp add: div_nat_eqI)
    then show ?thesis using True r q1 split by (simp add: div_ceil_def m_def)
  next
    case False
    then show ?thesis using r q split by (simp add: div_ceil_def m_def)
  qed
qed

text \<open>The quote is the price of the largest execution the provider allows, computed exactly or capped.\<close>

theorem amount_due_exact:
  "unat (amount_due p max_cpu_ms max_memory_mb) =
     min (2 ^ 64 - 1) (unat (price_per_execution p) + unat (price_per_cpu_sec p) * ((unat max_cpu_ms + 999) div 1000)
       + unat (price_per_mb p) * unat max_memory_mb)"
  by (simp add: amount_due_def Let_def unat_saturating_add unat_saturating_mul unat_div_ceil) (simp add: min_def)

section \<open>What a reported payment means\<close>

definition pays :: "'v json_value \<Rightarrow> bytes \<Rightarrow> u64 \<Rightarrow> 'v \<Rightarrow> bool" where
  "pays jv address expected_amount transfer \<longleftrightarrow>
     jv_as_str jv (jv_index jv transfer ''address'') = Some address \<and>
     expected_amount \<le> (case jv_as_u64 jv (jv_index jv transfer ''amount'') of Some n \<Rightarrow> n | None \<Rightarrow> 0)"

definition transfers_of :: "'v json_value \<Rightarrow> 'v wallet \<Rightarrow> bytes \<Rightarrow> bytes \<Rightarrow> 'v list" where
  "transfers_of jv post rpc_url address =
     (case rpc_call jv post rpc_url (GetTransfers address) of
        Inl _ \<Rightarrow> []
      | Inr response \<Rightarrow> (case jv_as_array jv (jv_index jv (jv_index jv response ''result'') ''in'') of Some ts \<Rightarrow> ts | None \<Rightarrow> []))"

lemma find_transfer_find:
  "find_transfer jv address expected ts =
     map_option (\<lambda>t. ucast (case jv_as_u64 jv (jv_index jv t ''confirmations'') of Some n \<Rightarrow> n | None \<Rightarrow> 0))
       (find (pays jv address expected) ts)"
  by (induction ts) (simp_all add: pays_def Let_def)

lemma find_transfer_None: "find_transfer jv address expected ts = None \<longleftrightarrow> \<not> (\<exists>t\<in>set ts. pays jv address expected t)"
  by (auto simp: find_transfer_find find_None_iff)

lemma check_payment_monero:
  assumes "check_payment jv post w address expected tx = Inr (Some c)"
  shows "\<exists>url t. w = MoneroWatcher url \<and> t \<in> set (transfers_of jv post url address) \<and> pays jv address expected t \<and>
    c = ucast (case jv_as_u64 jv (jv_index jv t ''confirmations'') of Some n \<Rightarrow> n | None \<Rightarrow> 0)"
proof (cases w)
  case (MoneroWatcher url)
  with assms obtain response ts where r: "rpc_call jv post url (GetTransfers address) = Inr response"
      "jv_as_array jv (jv_index jv (jv_index jv response ''result'') ''in'') = Some ts" "find_transfer jv address expected ts = Some c"
    by (auto split: sum.splits option.splits)
  then obtain t where "find (pays jv address expected) ts = Some t"
      "c = ucast (case jv_as_u64 jv (jv_index jv t ''confirmations'') of Some n \<Rightarrow> n | None \<Rightarrow> 0)"
    by (auto simp: find_transfer_find)
  moreover from this(1) have "t \<in> set ts" "pays jv address expected t" by (auto simp: find_Some_iff)
  ultimately show ?thesis using MoneroWatcher r by (auto simp: transfers_of_def)
qed (use assms in simp_all)

end
