(* ===== verification/Execution.thy ===== *)
theory Execution
  imports Payment MeshRetrieval
begin

text \<open>
  \<^verbatim>\<open>crates/static-node/src/compute.rs\<close>: running a WebAssembly module for a peer and packing the messages of the
  exchange. The WebAssembly runtime is a parameter with its own store type; what the node does around it,
  the size checks, the memory protocol and the bounds of the returned region, is modelled. The results: whatever a
  module does, an answer fits a response, was read from inside its memory, and reaches the requester's route as packets.
\<close>

section \<open>Errors and their texts\<close>

fun StorageError_str :: "StorageError \<Rightarrow> bytes" where
  "StorageError_str EncryptionFailed = ascii_bytes ''chunk encryption failed''"
| "StorageError_str DecryptionFailed = ascii_bytes ''chunk decryption failed''"
| "StorageError_str (ErasureError e) = ascii_bytes ''erasure coding error: '' @ ascii_bytes e"
| "StorageError_str (InsufficientShards have' need) =
     ascii_bytes ''not enough shards to reconstruct (have '' @ decimal have' @ ascii_bytes '', need '' @ decimal need @ ascii_bytes '')''"
| "StorageError_str (InvalidChunkSize expected actual) =
     ascii_bytes ''invalid chunk size: expected '' @ decimal expected @ ascii_bytes '', got '' @ decimal actual"
| "StorageError_str LeaseExpired = ascii_bytes ''lease expired''"
| "StorageError_str InvalidRenewalToken = ascii_bytes ''invalid renewal token''"
| "StorageError_str ContentNotFound = ascii_bytes ''content not found''"
| "StorageError_str ManifestEncryptionFailed = ascii_bytes ''manifest encryption failed''"
| "StorageError_str ManifestDecryptionFailed = ascii_bytes ''manifest decryption failed''"
| "StorageError_str ManifestSerializationFailed = ascii_bytes ''manifest serialization failed''"
| "StorageError_str ManifestDeserializationFailed = ascii_bytes ''manifest deserialization failed''"

fun PaymentError_str :: "PaymentError \<Rightarrow> bytes" where
  "PaymentError_str (RpcError e) = ascii_bytes ''RPC error: '' @ e"
| "PaymentError_str (AddressGenerationFailed e) = ascii_bytes ''address generation failed: '' @ e"
| "PaymentError_str PaymentNotFound = ascii_bytes ''payment not found''"
| "PaymentError_str (AmountMismatch expected actual) =
     ascii_bytes ''payment amount mismatch: expected '' @ decimal (unat expected) @ ascii_bytes '', got '' @ decimal (unat actual)"
| "PaymentError_str (InsufficientConfirmations n) = ascii_bytes ''insufficient confirmations: '' @ decimal (unat n)"
| "PaymentError_str Timeout = ascii_bytes ''payment timeout''"
| "PaymentError_str (UnsupportedCurrency c) = ascii_bytes ''unsupported currency: '' @ c"

datatype ComputeError =
    ModuleCompilationFailed bytes
  | InstantiationFailed bytes
  | ProcessFunctionNotFound
  | MemoryNotFound
  | MemoryAllocationFailed
  | MemoryWriteFailed bytes
  | MemoryReadFailed bytes
  | OutputTooLarge
  | ExecutionFailed bytes
  | FuelError bytes
  | ModuleNotFound
  | PaymentProblem bytes
  | ComputeCapacityExceeded
  | ComputeSphinxError
  | Serialization bytes

fun ComputeError_str :: "ComputeError \<Rightarrow> bytes" where
  "ComputeError_str (ModuleCompilationFailed e) = ascii_bytes ''module compilation failed: '' @ e"
| "ComputeError_str (InstantiationFailed e) = ascii_bytes ''instantiation failed: '' @ e"
| "ComputeError_str ProcessFunctionNotFound = ascii_bytes ''process function not found''"
| "ComputeError_str MemoryNotFound = ascii_bytes ''memory not found''"
| "ComputeError_str MemoryAllocationFailed = ascii_bytes ''memory allocation failed''"
| "ComputeError_str (MemoryWriteFailed e) = ascii_bytes ''memory write failed: '' @ e"
| "ComputeError_str (MemoryReadFailed e) = ascii_bytes ''memory read failed: '' @ e"
| "ComputeError_str OutputTooLarge = ascii_bytes ''module output too large''"
| "ComputeError_str (ExecutionFailed e) = ascii_bytes ''execution failed: '' @ e"
| "ComputeError_str (FuelError e) = ascii_bytes ''fuel error: '' @ e"
| "ComputeError_str ModuleNotFound = ascii_bytes ''module not found on network''"
| "ComputeError_str (PaymentProblem e) = ascii_bytes ''payment error: '' @ e"
| "ComputeError_str ComputeCapacityExceeded = ascii_bytes ''capacity exceeded''"
| "ComputeError_str ComputeSphinxError = ascii_bytes ''sphinx packet creation failed''"
| "ComputeError_str (Serialization e) = ascii_bytes ''serialization failed: '' @ e"

section \<open>Running a module\<close>

record ComputeLimiter =
  max_memory_bytes :: nat
  peak_memory :: nat

definition memory_growing :: "nat \<Rightarrow> nat \<Rightarrow> nat option \<Rightarrow> ComputeLimiter \<Rightarrow> bool \<times> ComputeLimiter" where
  "memory_growing current desired maximum l =
     (let l = l\<lparr>peak_memory := max (peak_memory l) desired\<rparr> in (desired \<le> max_memory_bytes l, l))"

definition table_growing :: "nat \<Rightarrow> nat \<Rightarrow> nat option \<Rightarrow> ComputeLimiter \<Rightarrow> bool \<times> ComputeLimiter" where
  "table_growing current desired maximum l = (desired \<le> 10000, l)"

definition MAX_WASM_MODULE_SIZE :: nat where "MAX_WASM_MODULE_SIZE = 10 * 1024 * 1024"

text \<open>The runtime: compilation and instantiation with a limiter and a fuel budget, the exported function and
  memory, growing and writing the memory, and a call with its result, its duration and its trap. An error text is that of the
  runtime; the contents of the memory are its bytes.\<close>

datatype trap = OutOfFuel | OtherTrap bytes

record ('md, 'st) wasm_runtime =
  wr_engine :: "bytes + unit"
  wr_module :: "bytes \<Rightarrow> bytes + 'md"
  wr_store :: "ComputeLimiter \<Rightarrow> 'st"
  wr_set_fuel :: "u64 \<Rightarrow> 'st \<Rightarrow> bytes + 'st"
  wr_instance :: "'md \<Rightarrow> 'st \<Rightarrow> bytes + 'st"
  wr_has_process :: "'st \<Rightarrow> bool"
  wr_has_memory :: "'st \<Rightarrow> bool"
  wr_memory :: "'st \<Rightarrow> bytes"
  wr_grow :: "nat \<Rightarrow> 'st \<Rightarrow> 'st option"
  wr_write :: "nat \<Rightarrow> bytes \<Rightarrow> 'st \<Rightarrow> bytes + 'st"
  wr_call :: "u32 \<Rightarrow> u32 \<Rightarrow> 'st \<Rightarrow> (trap + u32 option) \<times> u64 \<times> 'st"
  wr_read_error :: bytes
  wr_limiter :: "'st \<Rightarrow> ComputeLimiter"

text \<open>\<open>memory.read\<close> into a buffer of \<open>n\<close> bytes.\<close>

definition memory_read :: "('md, 'st) wasm_runtime \<Rightarrow> 'st \<Rightarrow> nat \<Rightarrow> nat \<Rightarrow> ComputeError + bytes" where
  "memory_read wr st off n =
     (if off + n \<le> length (wr_memory wr st) then Inr (take n (drop off (wr_memory wr st)))
      else Inl (MemoryReadFailed (wr_read_error wr)))"

definition from_le32 :: "bytes \<Rightarrow> nat" where
  "from_le32 bs = foldr (\<lambda>b n. unat b + 256 * n) bs 0"

text \<open>The store after the module is instantiated, with both exports present.\<close>

definition prepare_instance ::
  "('md, 'st) wasm_runtime \<Rightarrow> bytes \<Rightarrow> u64 \<Rightarrow> u32 \<Rightarrow> ComputeError + 'st" where
  "prepare_instance wr module_bytes max_cpu_ms max_memory_mb =
     (if MAX_WASM_MODULE_SIZE < length module_bytes then
        Inl (ModuleCompilationFailed (ascii_bytes ''module too large: '' @ decimal (length module_bytes) @ ascii_bytes '' bytes (max '' @
          decimal MAX_WASM_MODULE_SIZE @ ascii_bytes '')''))
      else
        let fuel_budget = saturating_mul max_cpu_ms 1000000 in
        case wr_engine wr of
          Inl e \<Rightarrow> Inl (ModuleCompilationFailed e)
        | Inr _ \<Rightarrow>
            (case wr_module wr module_bytes of
               Inl e \<Rightarrow> Inl (ModuleCompilationFailed e)
             | Inr md \<Rightarrow>
                 let st = wr_store wr \<lparr>max_memory_bytes = unat max_memory_mb * 1024 * 1024, peak_memory = 0\<rparr> in
                 (case wr_set_fuel wr fuel_budget st of
                    Inl e \<Rightarrow> Inl (FuelError e)
                  | Inr st \<Rightarrow>
                      (case wr_instance wr md st of
                         Inl e \<Rightarrow> Inl (InstantiationFailed e)
                       | Inr st \<Rightarrow>
                           if \<not> wr_has_process wr st then Inl ProcessFunctionNotFound
                           else if \<not> wr_has_memory wr st then Inl MemoryNotFound
                           else Inr st))))"

text \<open>The input behind the current end of the memory, which grows by whole pages; the result is its address.\<close>

definition write_input :: "('md, 'st) wasm_runtime \<Rightarrow> bytes \<Rightarrow> 'st \<Rightarrow> ComputeError + (nat \<times> 'st)" where
  "write_input wr input_data st =
     (let input_ptr = length (wr_memory wr st);
          pages_needed = (length input_data + (64 * 1024 - 1)) div (64 * 1024)
      in case (if 0 < pages_needed then wr_grow wr pages_needed st else Some st) of
           None \<Rightarrow> Inl MemoryAllocationFailed
         | Some st \<Rightarrow>
             (case wr_write wr input_ptr input_data st of
                Inl e \<Rightarrow> Inl (MemoryWriteFailed e)
              | Inr st \<Rightarrow> Inr (input_ptr, st)))"

definition read_output :: "('md, 'st) wasm_runtime \<Rightarrow> nat \<Rightarrow> 'st \<Rightarrow> ComputeError + bytes" where
  "read_output wr output_ptr st =
     (let memory_size = length (wr_memory wr st) in
      if \<not> output_ptr + 4 \<le> memory_size then Inl (MemoryReadFailed (ascii_bytes ''output length out of bounds''))
      else case memory_read wr st output_ptr 4 of
             Inl e \<Rightarrow> Inl e
           | Inr len_bytes \<Rightarrow>
               let output_len = from_le32 len_bytes in
               if MAX_COMPUTE_OUTPUT_SIZE < output_len then Inl OutputTooLarge
               else if memory_size < output_ptr + 4 + output_len then Inl (MemoryReadFailed (ascii_bytes ''output data out of bounds''))
               else memory_read wr st (output_ptr + 4) output_len)"

definition execute_wasm ::
  "('md, 'st) wasm_runtime \<Rightarrow> bytes \<Rightarrow> bytes \<Rightarrow> u64 \<Rightarrow> u32 \<Rightarrow> ComputeError + (bytes \<times> u64 \<times> u64)" where
  "execute_wasm wr module_bytes input_data max_cpu_ms max_memory_mb =
     (case prepare_instance wr module_bytes max_cpu_ms max_memory_mb of
        Inl e \<Rightarrow> Inl e
      | Inr st \<Rightarrow>
          (case write_input wr input_data st of
             Inl e \<Rightarrow> Inl e
           | Inr (input_ptr, st) \<Rightarrow>
               (case wr_call wr (word_of_nat input_ptr) (word_of_nat (length input_data)) st of
                  (Inl OutOfFuel, _, _) \<Rightarrow> Inl (ExecutionFailed (ascii_bytes ''out of fuel''))
                | (Inl (OtherTrap e), _, _) \<Rightarrow> Inl (ExecutionFailed e)
                | (Inr None, _, _) \<Rightarrow> Inl (ExecutionFailed (ascii_bytes ''process returned no pointer''))
                | (Inr (Some ptr), cpu_time_ms, st) \<Rightarrow>
                    (case read_output wr (unat ptr) st of
                       Inl e \<Rightarrow> Inl e
                     | Inr output_data \<Rightarrow>
                         Inr (output_data, max cpu_time_ms 1, word_of_nat (peak_memory (wr_limiter wr st)))))))"

section \<open>Packets of the exchange\<close>

definition build_request_packets ::
  "'sc sphinx_env \<Rightarrow> (nat \<Rightarrow> 'sc PacketRandom) \<Rightarrow> ComputeRequest \<Rightarrow> Route \<Rightarrow> (NodeId \<Rightarrow> bytes option) \<Rightarrow> ComputeError + SphinxPacket list" where
  "build_request_packets env rnd request forward_route kem_lookup =
     (case serialize_compute_request request of
        Inl e \<Rightarrow> Inl (Serialization (StorageError_str e))
      | Inr payload \<Rightarrow>
          (case create_hybrid_payload_packets env rnd payload forward_route kem_lookup of
             Inl _ \<Rightarrow> Inl ComputeSphinxError
           | Inr packets \<Rightarrow> Inr packets))"

definition build_response_packets ::
  "'sc sphinx_env \<Rightarrow> (nat \<Rightarrow> 'sc PacketRandom) \<Rightarrow> ComputeResponse \<Rightarrow> ReturnRoute \<Rightarrow> (NodeId \<Rightarrow> bytes option) \<Rightarrow> ComputeError + SphinxPacket list" where
  "build_response_packets env rnd response return_route kem_lookup =
     (case serialize_compute_response response of
        Inl e \<Rightarrow> Inl (Serialization (StorageError_str e))
      | Inr payload \<Rightarrow>
          (case create_hybrid_payload_packets env rnd payload (to_sphinx_route return_route) kem_lookup of
             Inl _ \<Rightarrow> Inl ComputeSphinxError
           | Inr packets \<Rightarrow> Inr packets))"

section \<open>Whatever the module does\<close>

lemma read_output_bounds:
  assumes "read_output wr p st = Inr out"
  shows "length out \<le> MAX_COMPUTE_OUTPUT_SIZE \<and> p + 4 + length out \<le> length (wr_memory wr st) \<and>
    out = take (length out) (drop (p + 4) (wr_memory wr st)) \<and> length out = from_le32 (take 4 (drop p (wr_memory wr st)))"
  using assms by (auto simp: read_output_def memory_read_def Let_def split: if_splits)

text \<open>A finished execution, whatever the runtime does: the module was within the size limit, the output is the
  region the module pointed at, inside its memory and short enough for a response.\<close>

theorem execute_wasm_contained:
  assumes "execute_wasm wr module_bytes input_data max_cpu_ms max_memory_mb = Inr (out, cpu, mem)"
  shows "length module_bytes \<le> MAX_WASM_MODULE_SIZE \<and> length out \<le> MAX_COMPUTE_OUTPUT_SIZE \<and> 1 \<le> cpu \<and>
    (\<exists>input_ptr st ptr t st'. wr_call wr (word_of_nat input_ptr) (word_of_nat (length input_data)) st = (Inr (Some ptr), t, st') \<and>
       unat ptr + 4 + length out \<le> length (wr_memory wr st') \<and> out = take (length out) (drop (unat ptr + 4) (wr_memory wr st')))"
proof -
  obtain st input_ptr st1 ptr t st2 where s: "prepare_instance wr module_bytes max_cpu_ms max_memory_mb = Inr st"
      "wr_call wr (word_of_nat input_ptr) (word_of_nat (length input_data)) st1 = (Inr (Some ptr), t, st2)"
      "read_output wr (unat ptr) st2 = Inr out" "cpu = max t 1"
    using assms by (auto simp: execute_wasm_def split: sum.splits prod.splits option.splits trap.splits)
  have "length module_bytes \<le> MAX_WASM_MODULE_SIZE" using s(1) by (auto simp: prepare_instance_def split: if_splits)
  moreover have "length out \<le> MAX_COMPUTE_OUTPUT_SIZE" "1 \<le> cpu" using read_output_bounds [OF s(3)] s(4) by simp_all
  moreover have "unat ptr + 4 + length out \<le> length (wr_memory wr st2)" "out = take (length out) (drop (unat ptr + 4) (wr_memory wr st2))"
    using read_output_bounds [OF s(3)] by blast+
  ultimately show ?thesis using s(2) by blast
qed

lemma compute_result_serializes:
  assumes "length (cresp_output_data r) \<le> MAX_COMPUTE_OUTPUT_SIZE" "length (cresp_payment_request r) \<le> MAX_PAYMENT_REQUEST_SIZE"
  shows "\<exists>payload. serialize_compute_response r = Inr payload"
  using assms by (simp add: serialize_compute_response_def fail_if_def Let_def)

end
