(* ===== verification/NodeState.thy ===== *)
theory NodeState
  imports Accounting Dispatch Execution HostBuffer Repair MissingChunk Verification HiddenService
begin

text \<open>
  \<^verbatim>\<open>crates/static-node/src/lib.rs\<close> and \<^verbatim>\<open>runner.rs\<close>: the configuration of a node, the state its runner keeps and
  the new runner. Leases, swaps and storage capacity are one object shared with the transport, so they are the fields of the transport's
  state here; the inbound channel is the transport's list of messages for the application.
\<close>

section \<open>Configuration\<close>

datatype NodeMode = Full | SeedOnly | BackupOnly | Client

record BackupConfig =
  bc_enabled :: bool
  primary_address :: "bytes option"
  cfg_primary_node_id :: "NodeId option"
  heartbeat_timeout_secs :: u64
  permanent_takeover :: bool

definition BackupConfig_default :: BackupConfig where
  "BackupConfig_default = \<lparr>bc_enabled = False, primary_address = None, cfg_primary_node_id = None,
     heartbeat_timeout_secs = 5400, permanent_takeover = True\<rparr>"

record ComputeConfig =
  cc_enabled :: bool
  cc_capacity :: u32
  max_cpu_ms :: u64
  max_memory_mb :: u32
  pricing :: ComputePricing
  blockchain_config :: BlockchainConfig

definition ComputeConfig_default :: ComputeConfig where
  "ComputeConfig_default = \<lparr>cc_enabled = False, cc_capacity = 4, max_cpu_ms = 5000, max_memory_mb = 64,
     pricing = ComputePricing_default, blockchain_config = BlockchainConfig_default\<rparr>"

record NodeConfig =
  data_dir :: bytes
  cover_traffic_rate_bps :: u64
  cover_traffic_interval_ms :: u64
  cover_traffic_enabled :: bool
  cfg_tier :: BandwidthTier
  listen_addr :: bytes
  bootstrap_peers :: "bytes list"
  api_addr :: bytes
  max_storage_bytes :: u64
  node_mode :: NodeMode
  sponsor :: "bytes option"
  use_hybrid_crypto :: bool
  rotation_config :: RotationConfig
  backup_config :: BackupConfig
  compute_config :: ComputeConfig
  verification_enabled :: bool
  verification_interval_secs :: u64
  api_token :: "bytes option"

definition NodeConfig_default :: NodeConfig where
  "NodeConfig_default = \<lparr>data_dir = ascii_bytes ''./node-data'', cover_traffic_rate_bps = 100 * 1024, cover_traffic_interval_ms = 100,
     cover_traffic_enabled = True, cfg_tier = Standard, listen_addr = ascii_bytes ''0.0.0.0:9000'', bootstrap_peers = [],
     api_addr = ascii_bytes ''127.0.0.1:9050'', max_storage_bytes = 10 * 1024 * 1024 * 1024, node_mode = Full, sponsor = None,
     use_hybrid_crypto = True, rotation_config = RotationConfig_default, backup_config = BackupConfig_default,
     compute_config = ComputeConfig_default, verification_enabled = True, verification_interval_secs = 1800, api_token = None\<rparr>"

section \<open>Parts of the state\<close>

definition PARTITION_THRESHOLD_SECS :: u64 where "PARTITION_THRESHOLD_SECS = 3600"
definition PARTITION_GRACE_PERIOD_SECS :: u64 where "PARTITION_GRACE_PERIOD_SECS = 86400"
definition PRUNE_MAX_AGE_SECS :: u64 where "PRUNE_MAX_AGE_SECS = 86400 * 7"
definition MAX_COMPLETED_COMPUTE_RESULTS :: nat where "MAX_COMPLETED_COMPUTE_RESULTS = 512"
definition VERIFICATION_TIMEOUT_SECS :: u64 where "VERIFICATION_TIMEOUT_SECS = 600"
definition MISSING_GOSSIP_DEDUP_TTL_SECS :: u64 where "MISSING_GOSSIP_DEDUP_TTL_SECS = 600"
definition MISSING_GOSSIP_DEDUP_MAX :: nat where "MISSING_GOSSIP_DEDUP_MAX = 1024"
definition MAX_REPAIRS_PER_TICK :: nat where "MAX_REPAIRS_PER_TICK = 1"
definition MAX_SURB_SESSIONS :: nat where "MAX_SURB_SESSIONS = 256"

record BackupContentState =
  bk_content_id :: ContentId
  bk_primary_node_id :: "NodeId option"
  is_active :: bool
  last_heartbeat :: u64
  bk_chunk_ids :: "ChunkId list"

record BackupState =
  backed_up_content :: "(ContentId, BackupContentState) hashmap"
  any_active :: bool

record VerificationPending =
  vp_chunk_id :: ChunkId
  vp_segment_index :: u32
  expected_hash :: bytes
  challenged_node :: NodeId
  vp_sent_at :: u64

record VerificationState =
  vs_pending :: "(bytes, VerificationPending) hashmap"
  vs_reassembler :: Reassembler

record ComputeExecution =
  ce_request_id :: bytes
  ce_from_node :: NodeId
  ce_module_content_id :: ContentId
  ce_input_data :: bytes
  ce_started_at :: u64

record PendingComputeRequest =
  pcr_request_id :: bytes
  pcr_provider :: NodeId
  pcr_payment :: "PaymentRequest option"
  pcr_started_at :: u64

record PendingPayment =
  pp_request_id :: bytes
  pp_request :: ComputeRequest
  pp_payment :: PaymentRequest
  pp_sent_at :: u64
  claimed_tx_hash :: "bytes option"

record ComputeState =
  active_executions :: "(bytes, ComputeExecution) hashmap"
  cached_modules :: "(ContentId, bytes) hashmap"
  cs_pending_requests :: "(bytes, PendingComputeRequest) hashmap"
  payment_pending :: "(bytes, PendingPayment) hashmap"
  completed_results :: "(bytes, ComputeResponse) hashmap"
  cs_reassembler :: Reassembler
  successful_executions :: u64
  failed_executions :: u64

record SurbSessionKey =
  ss_body_aead_key :: bytes
  ss_aad_destination :: NodeId
  ss_created_at :: u64

section \<open>The runner\<close>

record ('sc, 'sk) NodeRunner =
  transport :: "('sc, 'sk) TransportState"
  accounting :: AccountingState
  storage_keys :: "(ContentId, bytes) hashmap"
  content_keypairs :: "(ContentId, 'sk) hashmap"
  content_retriever :: ContentRetriever
  repair_state :: RepairState
  rotation_state :: RotationState
  retriever :: RetrievalManager
  backup_state :: BackupState
  compute_state :: ComputeState
  merkle_proofs :: "(ChunkId, bytes \<times> MerkleProof) hashmap"
  manifests :: "(ContentId, ContentManifest) hashmap"
  single_chunks :: "(ChunkId, bytes) hashmap"
  chunk_metadata :: "(ChunkId, ChunkMetadata) hashmap"
  host_buffer :: HostBuffer
  verification_state :: VerificationState
  lifecycle_reassembler :: Reassembler
  maintenance_reassembler :: Reassembler
  missing_gossip_recent :: "(ContentId \<times> ChunkId, u64) hashmap"
  surb_sessions :: "(bytes, SurbSessionKey) hashmap"
  payment_watchers :: "(u8, Watcher) hashmap"
  config :: NodeConfig

text \<open>What a node calls and does not define, beside the transport's environment: the wallet's JSON, the WebAssembly runtime,
  Reed-Solomon, and \<open>serde_json\<close> for the messages it receives and the manifests it keeps.\<close>

record ('sc, 'sk, 'v, 'md, 'st) node_env =
  ne_transport :: "('sc, 'sk) transport_env"
  ne_json_value :: "'v json_value"
  ne_wasm :: "('md, 'st) wasm_runtime"
  ne_rs :: reed_solomon
  ne_manifest :: manifest_json
  proposal_of_json :: "bytes \<Rightarrow> SwapProposal option"
  accept_of_json :: "bytes \<Rightarrow> SwapAccept option"
  reject_of_json :: "bytes \<Rightarrow> SwapReject option"
  commit_of_json :: "bytes \<Rightarrow> SwapCommit option"
  abort_of_json :: "bytes \<Rightarrow> SwapAbort option"
  gossip_of_json :: "bytes \<Rightarrow> PeerGossip option"
  prepayment_of_json :: "bytes \<Rightarrow> Prepayment option"
  reconciliation_of_json :: "bytes \<Rightarrow> AccountingReconciliation option"
  entries_json :: "ReconciliationEntry list \<Rightarrow> bytes"

abbreviation ne_sphinx where "ne_sphinx env \<equiv> te_sphinx (ne_transport env)"
abbreviation ne_ed where "ne_ed env \<equiv> te_ed (ne_transport env)"
abbreviation ne_storage where "ne_storage env \<equiv> te_storage (ne_transport env)"

definition node_leases :: "('sc, 'sk) NodeRunner \<Rightarrow> LeaseManager" where
  "node_leases r = (case lease_manager (transport r) of Some l \<Rightarrow> l | None \<Rightarrow> LeaseManager_new)"

abbreviation map_transport :: "(('sc, 'sk) TransportState \<Rightarrow> ('sc, 'sk) TransportState) \<Rightarrow> ('sc, 'sk) NodeRunner \<Rightarrow> ('sc, 'sk) NodeRunner" where
  "map_transport f r \<equiv> r\<lparr>transport := f (transport r)\<rparr>"

definition with_leases :: "LeaseManager \<Rightarrow> ('sc, 'sk) NodeRunner \<Rightarrow> ('sc, 'sk) NodeRunner" where
  "with_leases l r = map_transport (\<lambda>t. t\<lparr>lease_manager := Some l\<rparr>) r"

text \<open>The cover traffic a mode allows: a seed-only node sends none, a client a reduced rate.\<close>

definition cover_config_of :: "NodeConfig \<Rightarrow> CoverTrafficConfig" where
  "cover_config_of c =
     (case (case node_mode c of SeedOnly \<Rightarrow> (1024, False) | Client \<Rightarrow> (50 * 1024, True)
              | _ \<Rightarrow> (cover_traffic_rate_bps c, cover_traffic_enabled c)) of
        (target_rate, is_enabled) \<Rightarrow>
          \<lparr>target_rate_bps = target_rate, interval_ms = cover_traffic_interval_ms c, cover_enabled = is_enabled, cover_tier = cfg_tier c, use_hybrid = True\<rparr>)"

definition ComputeState_default :: "nat \<Rightarrow> ComputeState" where
  "ComputeState_default instant = \<lparr>active_executions = [], cached_modules = [], cs_pending_requests = [], payment_pending = [],
     completed_results = [], cs_reassembler = Reassembler_new instant, successful_executions = 0, failed_executions = 0\<rparr>"

text \<open>\<open>storage_key\<close>, the KEM secret and \<open>signing_key\<close> are drawn inside \<open>create_transport_state\<close>.\<close>

definition NodeRunner_new ::
  "('sc, 'sk, 'v, 'md, 'st) node_env \<Rightarrow> nat \<Rightarrow> bytes \<Rightarrow> bytes \<Rightarrow> 'sk \<Rightarrow> NodeConfig \<Rightarrow> NodeId \<Rightarrow> 'sc MixNode \<Rightarrow> ('sc, 'sk) NodeRunner" where
  "NodeRunner_new env instant storage_key_bytes kem_secret_bytes signing_key c node_id mix =
     (let t = create_transport_state (ne_transport env) storage_key_bytes kem_secret_bytes signing_key node_id mix
                (StorageCapacity_new (max_storage_bytes c)) SwapState_new (Some LeaseManager_new);
          t = (if node_mode c = BackupOnly \<or> node_mode c = Client then t\<lparr>serve_enabled := False\<rparr> else t);
          t = t\<lparr>ts_compute_enabled := cc_enabled (compute_config c),
                ts_compute_capacity := ucast (min (cc_capacity (compute_config c)) 255)\<rparr>;
          watchers = fold (\<lambda>currency. hm_insert (Currency_to_byte currency) (create_watcher currency (blockchain_config (compute_config c))))
                       (accepted_currencies (pricing (compute_config c))) []
      in \<lparr>transport = t, accounting = AccountingState_new, storage_keys = [], content_keypairs = [],
          content_retriever = ContentRetriever_new, repair_state = RepairState_new, rotation_state = RotationState_new,
          retriever = RetrievalManager_new, backup_state = \<lparr>backed_up_content = [], any_active = False\<rparr>,
          compute_state = ComputeState_default instant, merkle_proofs = [], manifests = [], single_chunks = [], chunk_metadata = [],
          host_buffer = HostBuffer_new (512 * 1024 * 1024),
          verification_state = \<lparr>vs_pending = [], vs_reassembler = Reassembler_new instant\<rparr>,
          lifecycle_reassembler = Reassembler_new instant, maintenance_reassembler = Reassembler_new instant,
          missing_gossip_recent = [], surb_sessions = [], payment_watchers = watchers, config = c\<rparr>)"

definition is_seed_only :: "('sc, 'sk) NodeRunner \<Rightarrow> bool" where
  "is_seed_only r \<longleftrightarrow> node_mode (config r) = SeedOnly"

definition is_backup_only :: "('sc, 'sk) NodeRunner \<Rightarrow> bool" where
  "is_backup_only r \<longleftrightarrow> node_mode (config r) = BackupOnly"

section \<open>Sending\<close>

definition hybrid_kem_map :: "('sc, 'sk) NodeRunner \<Rightarrow> NodeId \<Rightarrow> bytes option" where
  "hybrid_kem_map r = table_kem_lookup (routing_table (transport r))"

text \<open>\<open>for packet in packets { send_sphinx(first, packet)? }\<close>: the loop stops at the first error.\<close>

fun send_all :: "NodeId \<Rightarrow> SphinxPacket list \<Rightarrow> ('sc, 'sk) TransportState \<Rightarrow> (TransportError + unit) \<times> ('sc, 'sk) TransportState" where
  "send_all first [] t = (Inr (), t)"
| "send_all first (packet # packets) t =
     (case send_sphinx first packet t of (Inl e, t) \<Rightarrow> (Inl e, t) | (Inr _, t) \<Rightarrow> send_all first packets t)"

text \<open>The errors of the functions that return \<open>anyhow::Result\<close>: a text, or an error passed through.\<close>

datatype NodeError =
    Bail bytes
  | NodeTransport TransportError
  | NodeRetrieval RetrievalError
  | NodeStorage StorageError
  | NodeCompute ComputeError

definition send_packets :: "SphinxPacket list \<Rightarrow> ReturnRoute \<Rightarrow> ('sc, 'sk) NodeRunner \<Rightarrow> (NodeError + unit) \<times> ('sc, 'sk) NodeRunner" where
  "send_packets packets return_route r =
     (case rr_hops return_route of
        [] \<Rightarrow> (Inl (Bail (ascii_bytes ''empty return route'')), r)
      | hop # _ \<Rightarrow>
          (case send_all (hop_node_id hop) packets (transport r) of
             (Inl e, t) \<Rightarrow> (Inl (NodeTransport e), r\<lparr>transport := t\<rparr>)
           | (Inr _, t) \<Rightarrow> (Inr (), r\<lparr>transport := t\<rparr>)))"

lemma send_all_connected:
  "hm_contains (connections t) first \<Longrightarrow> send_all first packets t = (Inr (), queue_messages first (map SphinxMsg packets) t)"
proof (induction packets arbitrary: t)
  case Nil
  have "hm_modify first (\<lambda>q. q) m = m" for m :: "(NodeId, WireMessage list) hashmap"
    unfolding hm_modify_def by (induction m) auto
  then show ?case by (simp add: queue_messages_def)
next
  case (Cons p packets)
  have "hm_contains (connections (queue_messages first [SphinxMsg p] t)) first"
    using Cons.prems by (auto simp: queue_messages_def hm_contains_def)
  then show ?case using Cons by (simp add: send_sphinx_def queue_messages_def hm_modify_twice comp_def)
qed

lemma send_all_frame: "\<exists>q. snd (send_all first packets t) = t\<lparr>connections := q\<rparr>"
proof (induction packets arbitrary: t)
  case Nil
  have "t = t\<lparr>connections := connections t\<rparr>" by simp
  then show ?case by (simp only: send_all.simps snd_conv) blast
next
  case (Cons p packets)
  have t: "t = t\<lparr>connections := connections t\<rparr>" by simp
  show ?case
  proof (cases "hm_contains (connections t) first")
    case True
    obtain q where "snd (send_all first packets (queue_messages first [SphinxMsg p] t)) = (queue_messages first [SphinxMsg p] t)\<lparr>connections := q\<rparr>"
      using Cons by blast
    then show ?thesis using True by (auto simp: send_sphinx_def queue_messages_def)
  qed (use t in \<open>simp add: send_sphinx_def, blast\<close>)
qed

lemma send_packets_frame: "\<exists>q. snd (send_packets packets route r) = r\<lparr>transport := (transport r)\<lparr>connections := q\<rparr>\<rparr>"
proof (cases "rr_hops route")
  case Nil
  show ?thesis by (rule exI [of _ "connections (transport r)"]) (simp add: Nil send_packets_def)
next
  case (Cons hop hops)
  obtain q where "snd (send_all (hop_node_id hop) packets (transport r)) = (transport r)\<lparr>connections := q\<rparr>" using send_all_frame by blast
  then show ?thesis using Cons by (auto simp: send_packets_def split: prod.splits sum.splits)
qed

end
