(* ===== verification/NodeCompute.thy ===== *)
theory NodeCompute
  imports NodeState
begin

text \<open>
  \<^verbatim>\<open>crates/static-node/src/runner.rs\<close>, computing for peers: admission of requests, payment quotes, the sweep that looks for payments,
  execution and its answers, and the requester's side. A task a handler spawns is returned and runs as a later step; quoting is two
  steps, because the wallet is asked for an address in between, and a sweep is one step per time it locks the state. The results, for every interleaving of a provider's
  steps: registered executions stay within the configured capacity, and with the staged requests exceed it by at most one; a paid node that gets no request id twice
  runs at most that many executions, each of a different request; and it starts one only when its wallet lists a transfer of the full price to the quoted address with
  enough confirmations.
\<close>

section \<open>Answers\<close>

definition send_compute_response ::
  "('sc, 'sk, 'v, 'md, 'st) node_env \<Rightarrow> (nat \<Rightarrow> 'sc PacketRandom) \<Rightarrow> ComputeResponse \<Rightarrow> ReturnRoute \<Rightarrow> ('sc, 'sk) NodeRunner \<Rightarrow>
     (NodeError + unit) \<times> ('sc, 'sk) NodeRunner" where
  "send_compute_response env rnd response return_route r =
     (case build_response_packets (ne_sphinx env) rnd response return_route (hybrid_kem_map r) of
        Inl e \<Rightarrow> (Inl (Bail (ascii_bytes ''response packet build failed: '' @ ComputeError_str e)), r)
      | Inr packets \<Rightarrow> send_packets packets return_route r)"

definition send_payment_request ::
  "('sc, 'sk, 'v, 'md, 'st) node_env \<Rightarrow> (nat \<Rightarrow> 'sc PacketRandom) \<Rightarrow> PaymentRequest \<Rightarrow> ReturnRoute \<Rightarrow> ('sc, 'sk) NodeRunner \<Rightarrow>
     (NodeError + unit) \<times> ('sc, 'sk) NodeRunner" where
  "send_payment_request env rnd quote return_route r =
     (case serialize_payment_request quote of
        Inl e \<Rightarrow> (Inl (NodeStorage e), r)
      | Inr payload \<Rightarrow>
          (case create_hybrid_payload_packets (ne_sphinx env) rnd payload (to_sphinx_route return_route) (hybrid_kem_map r) of
             Inl e \<Rightarrow> (Inl (NodeRetrieval e), r)
           | Inr packets \<Rightarrow> send_packets packets return_route r))"

definition failure_response :: "ComputeRequest \<Rightarrow> ComputeError \<Rightarrow> bool \<Rightarrow> bytes \<Rightarrow> ComputeResponse" where
  "failure_response request err payment_required payment_request =
     \<lparr>cresp_request_id = creq_request_id request, cresp_output_data = [], cresp_success = False, cresp_error = Some (ComputeError_str err),
      cresp_cpu_time_ms = 0, cresp_memory_used = 0, cresp_payment_required = payment_required, cresp_payment_request = payment_request\<rparr>"

definition send_compute_error ::
  "('sc, 'sk, 'v, 'md, 'st) node_env \<Rightarrow> (nat \<Rightarrow> 'sc PacketRandom) \<Rightarrow> ComputeRequest \<Rightarrow> ComputeError \<Rightarrow> bool \<Rightarrow> PaymentRequest option \<Rightarrow>
     ('sc, 'sk) NodeRunner \<Rightarrow> ('sc, 'sk) NodeRunner" where
  "send_compute_error env rnd request err payment_required quote r =
     (let payment_request = (case quote of Some q \<Rightarrow> (case serialize_payment_request q of Inr bs \<Rightarrow> bs | Inl _ \<Rightarrow> []) | None \<Rightarrow> [])
      in snd (send_compute_response env rnd (failure_response request err payment_required payment_request) (creq_return_route request) r))"

section \<open>Admission\<close>

datatype compute_task = ExecuteTask ComputeRequest | QuoteTask ComputeRequest

definition with_compute :: "(ComputeState \<Rightarrow> ComputeState) \<Rightarrow> ('sc, 'sk) NodeRunner \<Rightarrow> ('sc, 'sk) NodeRunner" where
  "with_compute f r = r\<lparr>compute_state := f (compute_state r)\<rparr>"

definition execution_of :: "u64 \<Rightarrow> ComputeRequest \<Rightarrow> ComputeExecution" where
  "execution_of now request = \<lparr>ce_request_id = creq_request_id request, ce_from_node = creq_from_node request,
     ce_module_content_id = creq_module_content_id request, ce_input_data = creq_input_data request, ce_started_at = now\<rparr>"

definition accept_compute_request :: "u64 \<Rightarrow> ComputeRequest \<Rightarrow> ('sc, 'sk) NodeRunner \<Rightarrow> (ComputeError + unit) \<times> ('sc, 'sk) NodeRunner" where
  "accept_compute_request now request r =
     (let active = active_executions (compute_state r) in
      if hm_contains active (creq_request_id request) then (Inr (), r)
      else if unat (ts_compute_capacity (transport r)) \<le> hm_len active then (Inl ComputeCapacityExceeded, r)
      else (Inr (), with_compute (active_executions_update (hm_insert (creq_request_id request) (execution_of now request))) r))"

definition handle_compute_request ::
  "('sc, 'sk, 'v, 'md, 'st) node_env \<Rightarrow> u64 \<Rightarrow> (nat \<Rightarrow> 'sc PacketRandom) \<Rightarrow> ComputeRequest \<Rightarrow> ('sc, 'sk) NodeRunner \<Rightarrow>
     compute_task list \<times> ('sc, 'sk) NodeRunner" where
  "handle_compute_request env now rnd request r =
     (if \<not> ts_compute_enabled (transport r) then ([], r)
      else if is_free (pricing (compute_config (config r))) then
        (case accept_compute_request now request r of
           (Inl err, r) \<Rightarrow> ([], send_compute_error env rnd request err False None r)
         | (Inr _, r) \<Rightarrow> ([ExecuteTask request], r))
      else ([QuoteTask request], r))"

section \<open>Quotes\<close>

definition placeholder_quote :: "bytes \<Rightarrow> PaymentRequest" where
  "placeholder_quote request_id = \<lparr>preq_request_id = request_id, preq_currency = Monero, preq_amount = 0, preq_address = [], preq_required_confirmations = 0\<rparr>"

definition reserve_payment_slot :: "u64 \<Rightarrow> ComputeRequest \<Rightarrow> ('sc, 'sk) NodeRunner \<Rightarrow> (ComputeError + bool) \<times> ('sc, 'sk) NodeRunner" where
  "reserve_payment_slot now request r =
     (let st = compute_state r; rid = creq_request_id request in
      if hm_contains (active_executions st) rid \<or> hm_contains (payment_pending st) rid then (Inr False, r)
      else if unat (ts_compute_capacity (transport r)) \<le> hm_len (active_executions st) + hm_len (payment_pending st) then (Inl ComputeCapacityExceeded, r)
      else (Inr True, with_compute (payment_pending_update (hm_insert rid
              \<lparr>pp_request_id = rid, pp_request = request, pp_payment = placeholder_quote rid, pp_sent_at = now, claimed_tx_hash = None\<rparr>)) r))"

text \<open>\<open>initiate_paid_execution\<close> up to the call of \<open>generate_address\<close>, which the result asks for.\<close>

definition begin_paid_execution ::
  "('sc, 'sk, 'v, 'md, 'st) node_env \<Rightarrow> u64 \<Rightarrow> (nat \<Rightarrow> 'sc PacketRandom) \<Rightarrow> ComputeRequest \<Rightarrow> ('sc, 'sk) NodeRunner \<Rightarrow>
     Watcher option \<times> ('sc, 'sk) NodeRunner" where
  "begin_paid_execution env now rnd request r =
     (case (case Currency_from_byte (creq_currency request) of
              Some currency \<Rightarrow>
                if accepts (pricing (compute_config (config r))) currency then hm_get (payment_watchers r) (Currency_to_byte currency) else None
            | None \<Rightarrow> None) of
        None \<Rightarrow>
          (None, send_compute_error env rnd request
             (PaymentProblem (ascii_bytes ''unsupported payment currency byte '' @ decimal (unat (creq_currency request)))) False None r)
      | Some watcher \<Rightarrow>
          (case reserve_payment_slot now request r of
             (Inl err, r) \<Rightarrow> (None, send_compute_error env rnd request err False None r)
           | (Inr False, r) \<Rightarrow> (None, r)
           | (Inr True, r) \<Rightarrow> (Some watcher, r)))"

definition quote_for :: "NodeConfig \<Rightarrow> Watcher \<Rightarrow> bytes \<Rightarrow> bytes \<Rightarrow> PaymentRequest" where
  "quote_for c watcher request_id address =
     \<lparr>preq_request_id = request_id, preq_currency = watcher_currency watcher,
      preq_amount = amount_due (pricing (compute_config c)) (max_cpu_ms (compute_config c)) (ucast (max_memory_mb (compute_config c))),
      preq_address = address, preq_required_confirmations = pricing_required_confirmations (pricing (compute_config c))\<rparr>"

text \<open>Its rest, once the wallet has answered.\<close>

definition finish_paid_execution ::
  "('sc, 'sk, 'v, 'md, 'st) node_env \<Rightarrow> u64 \<Rightarrow> (nat \<Rightarrow> 'sc PacketRandom) \<Rightarrow> ComputeRequest \<Rightarrow> Watcher \<Rightarrow> PaymentError + bytes \<Rightarrow>
     ('sc, 'sk) NodeRunner \<Rightarrow> ('sc, 'sk) NodeRunner" where
  "finish_paid_execution env now rnd request watcher generated r =
     (let rid = creq_request_id request in
      case generated of
        Inl e \<Rightarrow>
          send_compute_error env rnd request (PaymentProblem (PaymentError_str e)) False None
            (with_compute (payment_pending_update (hm_remove rid)) r)
      | Inr address \<Rightarrow>
          let payment = quote_for (config r) watcher rid address in
          if \<not> hm_contains (payment_pending (compute_state r)) rid then r
          else snd (send_payment_request env rnd payment (creq_return_route request)
                 (with_compute (payment_pending_update (hm_modify rid (\<lambda>entry. entry\<lparr>pp_payment := payment, pp_sent_at := now\<rparr>))) r)))"

definition initiate_paid_execution ::
  "('sc, 'sk, 'v, 'md, 'st) node_env \<Rightarrow> 'v wallet \<Rightarrow> u64 \<Rightarrow> u64 \<Rightarrow> (nat \<Rightarrow> 'sc PacketRandom) \<Rightarrow> ComputeRequest \<Rightarrow> ('sc, 'sk) NodeRunner \<Rightarrow> ('sc, 'sk) NodeRunner" where
  "initiate_paid_execution env post now now' rnd request r =
     (case begin_paid_execution env now rnd request r of
        (None, r) \<Rightarrow> r
      | (Some watcher, r) \<Rightarrow> finish_paid_execution env now' rnd request watcher (generate_address (ne_json_value env) post watcher) r)"

section \<open>Execution\<close>

text \<open>\<open>while m.len() > cap { remove an arbitrary key }\<close>\<close>

fun trim_to :: "nat \<Rightarrow> ('k, 'v) hashmap \<Rightarrow> ('k, 'v) hashmap" where
  "trim_to cap [] = []"
| "trim_to cap (x # xs) = (if cap < length (x # xs) then trim_to cap xs else x # xs)"

definition MAX_CACHED_MODULES :: nat where "MAX_CACHED_MODULES = 16"

text \<open>\<open>fetched\<close> is the outcome of retrieving the module's content from the network.\<close>

definition obtain_module :: "bytes option \<Rightarrow> ComputeRequest \<Rightarrow> ('sc, 'sk) NodeRunner \<Rightarrow> ComputeError + bytes" where
  "obtain_module fetched request r =
     (case hm_get (cached_modules (compute_state r)) (creq_module_content_id request) of
        Some module_bytes \<Rightarrow> Inr module_bytes
      | None \<Rightarrow> (case fetched of Some bs \<Rightarrow> if bs = [] then Inl ModuleNotFound else Inr bs | None \<Rightarrow> Inl ModuleNotFound))"

definition finish_failed_execution ::
  "('sc, 'sk, 'v, 'md, 'st) node_env \<Rightarrow> (nat \<Rightarrow> 'sc PacketRandom) \<Rightarrow> ComputeRequest \<Rightarrow> ComputeError \<Rightarrow> ('sc, 'sk) NodeRunner \<Rightarrow> ('sc, 'sk) NodeRunner" where
  "finish_failed_execution env rnd request err r =
     (let r = with_compute (\<lambda>st. st\<lparr>active_executions := hm_remove (creq_request_id request) (active_executions st),
                                    failed_executions := failed_executions st + 1\<rparr>) r
      in snd (send_compute_response env rnd (failure_response request err False []) (creq_return_route request) r))"

text \<open>\<open>panicked\<close> is the text of the error with which the blocking task was joined, if it was.\<close>

definition run_compute_execution ::
  "('sc, 'sk, 'v, 'md, 'st) node_env \<Rightarrow> bytes option \<Rightarrow> bytes option \<Rightarrow> (nat \<Rightarrow> 'sc PacketRandom) \<Rightarrow> ComputeRequest \<Rightarrow> ('sc, 'sk) NodeRunner \<Rightarrow> ('sc, 'sk) NodeRunner" where
  "run_compute_execution env fetched panicked rnd request r =
     (case obtain_module fetched request r of
        Inl err \<Rightarrow> finish_failed_execution env rnd request err r
      | Inr module_bytes \<Rightarrow>
          let r = with_compute (cached_modules_update (\<lambda>m. trim_to MAX_CACHED_MODULES (hm_insert (creq_module_content_id request) module_bytes m))) r;
              c = compute_config (config r)
          in case (case panicked of
                     Some e \<Rightarrow> Inl (ExecutionFailed e)
                   | None \<Rightarrow> execute_wasm (ne_wasm env) module_bytes (creq_input_data request) (max_cpu_ms c) (max_memory_mb c)) of
               Inl err \<Rightarrow> finish_failed_execution env rnd request err r
             | Inr (output_data, cpu_time_ms, memory_used) \<Rightarrow>
                 let r = with_compute (\<lambda>st. st\<lparr>active_executions := hm_remove (creq_request_id request) (active_executions st),
                                                successful_executions := successful_executions st + 1\<rparr>) r;
                     response = \<lparr>cresp_request_id = creq_request_id request, cresp_output_data = output_data, cresp_success = True, cresp_error = None,
                                 cresp_cpu_time_ms = cpu_time_ms, cresp_memory_used = memory_used, cresp_payment_required = False, cresp_payment_request = []\<rparr>
                 in snd (send_compute_response env rnd response (creq_return_route request) r))"

section \<open>The sweep for payments\<close>

definition expired_payments :: "u64 \<Rightarrow> ('sc, 'sk) NodeRunner \<Rightarrow> bytes list" where
  "expired_payments now r =
     map fst (filter (\<lambda>(_, entry). payment_timeout_secs (blockchain_config (compute_config (config r))) < saturating_sub now (pp_sent_at entry))
       (payment_pending (compute_state r)))"

definition expire_payment ::
  "('sc, 'sk, 'v, 'md, 'st) node_env \<Rightarrow> (nat \<Rightarrow> 'sc PacketRandom) \<Rightarrow> bytes \<Rightarrow> ('sc, 'sk) NodeRunner \<Rightarrow> ('sc, 'sk) NodeRunner" where
  "expire_payment env rnd request_id r =
     (case hm_get (payment_pending (compute_state r)) request_id of
        None \<Rightarrow> r
      | Some entry \<Rightarrow>
          send_compute_error env rnd (pp_request entry) (PaymentProblem (ascii_bytes ''payment timeout'')) True (Some (pp_payment entry))
            (with_compute (payment_pending_update (hm_remove request_id)) r))"

text \<open>The state is locked twice for a confirmed entry, once to take it out of the table and once to start it or to put it back, and not in between.
  \<open>watcher_confirms\<close> is the question to the watcher, asked with no lock held.\<close>

definition watcher_confirms :: "('sc, 'sk, 'v, 'md, 'st) node_env \<Rightarrow> 'v wallet \<Rightarrow> (u8, Watcher) hashmap \<Rightarrow> PendingPayment \<Rightarrow> bool" where
  "watcher_confirms env post watchers entry =
     (case hm_get watchers (Currency_to_byte (preq_currency (pp_payment entry))) of
        None \<Rightarrow> False
      | Some watcher \<Rightarrow>
          (case check_payment (ne_json_value env) post watcher (preq_address (pp_payment entry)) (preq_amount (pp_payment entry)) (claimed_tx_hash entry) of
             Inr (Some confirmations) \<Rightarrow> preq_required_confirmations (pp_payment entry) \<le> confirmations
           | _ \<Rightarrow> False))"

definition take_staged ::
  "('sc, 'sk, 'v, 'md, 'st) node_env \<Rightarrow> 'v wallet \<Rightarrow> PendingPayment \<Rightarrow> ('sc, 'sk) NodeRunner \<Rightarrow> PendingPayment option \<times> ('sc, 'sk) NodeRunner" where
  "take_staged env post entry r =
     (if watcher_confirms env post (payment_watchers r) entry
      then (hm_get (payment_pending (compute_state r)) (pp_request_id entry), with_compute (payment_pending_update (hm_remove (pp_request_id entry))) r)
      else (None, r))"

definition settle_staged :: "u64 \<Rightarrow> PendingPayment \<Rightarrow> ('sc, 'sk) NodeRunner \<Rightarrow> compute_task list \<times> ('sc, 'sk) NodeRunner" where
  "settle_staged now staged r =
     (if unat (ts_compute_capacity (transport r)) \<le> hm_len (active_executions (compute_state r))
      then ([], with_compute (payment_pending_update (hm_insert (pp_request_id staged) staged)) r)
      else ([ExecuteTask (pp_request staged)],
        with_compute (active_executions_update (hm_insert (pp_request_id staged) (execution_of now (pp_request staged)\<lparr>ce_request_id := pp_request_id staged\<rparr>))) r))"

definition confirm_staged ::
  "('sc, 'sk, 'v, 'md, 'st) node_env \<Rightarrow> 'v wallet \<Rightarrow> u64 \<Rightarrow> PendingPayment \<Rightarrow> compute_task list \<times> ('sc, 'sk) NodeRunner \<Rightarrow>
     compute_task list \<times> ('sc, 'sk) NodeRunner" where
  "confirm_staged env post now entry = (\<lambda>(tasks, r).
     (case take_staged env post entry r of
        (None, r) \<Rightarrow> (tasks, r)
      | (Some staged, r) \<Rightarrow> (case settle_staged now staged r of (new, r) \<Rightarrow> (tasks @ new, r))))"

text \<open>A whole sweep when nothing else runs between its steps; its steps, with anything in between, are in the state machine below.\<close>

definition run_payment_watch_tick ::
  "('sc, 'sk, 'v, 'md, 'st) node_env \<Rightarrow> 'v wallet \<Rightarrow> u64 \<Rightarrow> u64 \<Rightarrow> (nat \<Rightarrow> nat \<Rightarrow> 'sc PacketRandom) \<Rightarrow> ('sc, 'sk) NodeRunner \<Rightarrow>
     compute_task list \<times> ('sc, 'sk) NodeRunner" where
  "run_payment_watch_tick env post now started rnds r =
     (let r = fold (\<lambda>(i, rid). expire_payment env (rnds i) rid) (enumerate 0 (expired_payments now r)) r;
          staged = hm_values (payment_pending (compute_state r))
      in fold (confirm_staged env post started) staged ([], r))"

section \<open>The requester\<close>

definition handle_compute_response :: "ComputeResponse \<Rightarrow> ('sc, 'sk) NodeRunner \<Rightarrow> ('sc, 'sk) NodeRunner" where
  "handle_compute_response response r =
     (let st = compute_state r; rid = cresp_request_id response in
      if \<not> hm_contains (cs_pending_requests st) rid then r
      else
        let st = st\<lparr>cs_pending_requests := hm_remove rid (cs_pending_requests st)\<rparr>;
            results = (if MAX_COMPLETED_COMPUTE_RESULTS \<le> hm_len (completed_results st) then [] else completed_results st)
        in r\<lparr>compute_state := st\<lparr>completed_results := hm_insert rid response results\<rparr>\<rparr>)"

definition handle_payment_request :: "PaymentRequest \<Rightarrow> ('sc, 'sk) NodeRunner \<Rightarrow> ('sc, 'sk) NodeRunner" where
  "handle_payment_request quote r =
     with_compute (cs_pending_requests_update (hm_modify (preq_request_id quote) (\<lambda>pending. pending\<lparr>pcr_payment := Some quote\<rparr>))) r"

definition handle_payment_confirmation :: "PaymentConfirmation \<Rightarrow> ('sc, 'sk) NodeRunner \<Rightarrow> ('sc, 'sk) NodeRunner" where
  "handle_payment_confirmation c r =
     (case hm_get (payment_pending (compute_state r)) (pconf_request_id c) of
        None \<Rightarrow> r
      | Some entry \<Rightarrow>
          if preq_currency (pp_payment entry) \<noteq> pconf_currency c then r
          else with_compute (payment_pending_update (hm_modify (pconf_request_id c) (\<lambda>entry. entry\<lparr>claimed_tx_hash := Some (pconf_tx_hash c)\<rparr>))) r)"

text \<open>\<open>iter.max_by_key(key)\<close> returns the last of the largest.\<close>

fun last_max_by :: "('a \<Rightarrow> 'b::linorder) \<Rightarrow> 'a option \<Rightarrow> 'a list \<Rightarrow> 'a option" where
  "last_max_by key best [] = best"
| "last_max_by key None (x # xs) = last_max_by key (Some x) xs"
| "last_max_by key (Some b) (x # xs) = last_max_by key (Some (if key b \<le> key x then x else b)) xs"

text \<open>\<open>{:02x?}\<close> of a byte array.\<close>

definition hex_digit :: "u8 \<Rightarrow> u8" where
  "hex_digit n = (if n < 10 then 0x30 + n else 0x57 + n)"

fun hex_list :: "bytes \<Rightarrow> bytes" where
  "hex_list [] = []"
| "hex_list [b] = [hex_digit (b div 16), hex_digit (b mod 16)]"
| "hex_list (b # bs) = [hex_digit (b div 16), hex_digit (b mod 16)] @ ascii_bytes '', '' @ hex_list bs"

definition debug_hex :: "bytes \<Rightarrow> bytes" where
  "debug_hex bs = ascii_bytes ''['' @ hex_list bs @ ascii_bytes '']''"

definition submit_compute_request ::
  "('sc, 'sk, 'v, 'md, 'st) node_env \<Rightarrow> u64 \<Rightarrow> bytes \<Rightarrow> shuffle \<Rightarrow> 'sc SendDraw \<Rightarrow> bytes \<Rightarrow> bytes \<Rightarrow> Currency \<Rightarrow> ('sc, 'sk) NodeRunner \<Rightarrow>
     (NodeError + bytes) \<times> ('sc, 'sk) NodeRunner" where
  "submit_compute_request env now request_id return_shuffle d module_content_pub_key input_data currency r =
     (if MAX_COMPUTE_INPUT_SIZE < length input_data then
        (Inl (Bail (ascii_bytes ''input too large: '' @ decimal (length input_data) @ ascii_bytes '' bytes (max '' @ decimal MAX_COMPUTE_INPUT_SIZE @ ascii_bytes '')'')), r)
      else case last_max_by kn_compute_capacity None (filter kn_compute_enabled (hm_values (nodes (routing_table (transport r))))) of
        None \<Rightarrow> (Inl (Bail (ascii_bytes ''No compute-capable peers available'')), r)
      | Some peer \<Rightarrow>
          if (case kn_kem_public_key peer of Some k \<Rightarrow> length k \<noteq> KEM_PUBLIC_KEY_SIZE (te_kx (ne_transport env)) | None \<Rightarrow> True) then
            (Inl (Bail (ascii_bytes ''Compute peer '' @ debug_hex (kn_node_id peer) @ ascii_bytes '' has no KEM key (hybrid-only transport)'')), r)
          else
            let return_route = from_sphinx_route (classical_route (build_self_return_route (ne_transport env) return_shuffle (transport r)));
                request = \<lparr>creq_from_node = ts_node_id (transport r), creq_module_content_id = content_id_from_public (ne_storage env) module_content_pub_key,
                           creq_module_content_pub_key = module_content_pub_key, creq_currency = Currency_to_byte currency,
                           creq_payment_address = [], creq_request_id = request_id, creq_return_route = return_route, creq_input_data = input_data\<rparr>
            in case build_route_to_destination (sd_shuffle d) (kn_node_id peer) (transport r) of
                 None \<Rightarrow> (Inl (Bail (ascii_bytes ''no route to compute provider'')), r)
               | Some fwd \<Rightarrow>
                   (case build_request_packets (ne_sphinx env) (sd_packets d) request (classical_route fwd) (hybrid_kem_map r) of
                      Inl e \<Rightarrow> (Inl (NodeCompute e), r)
                    | Inr packets \<Rightarrow>
                        let r = with_compute (cs_pending_requests_update (hm_insert request_id
                                  \<lparr>pcr_request_id = request_id, pcr_provider = kn_node_id peer, pcr_payment = None, pcr_started_at = now\<rparr>)) r
                        in (case send_all (hh_node_id (hd (hybrid_hops fwd))) packets (transport r) of
                              (Inl e, t) \<Rightarrow> (Inl (NodeTransport e), r\<lparr>transport := t\<rparr>)
                            | (Inr _, t) \<Rightarrow> (Inr request_id, r\<lparr>transport := t\<rparr>))))"

definition pending_payment :: "bytes \<Rightarrow> ('sc, 'sk) NodeRunner \<Rightarrow> PaymentRequest option" where
  "pending_payment request_id r =
     (case hm_get (cs_pending_requests (compute_state r)) request_id of None \<Rightarrow> None | Some waiting \<Rightarrow> pcr_payment waiting)"

definition confirm_compute_payment ::
  "('sc, 'sk, 'v, 'md, 'st) node_env \<Rightarrow> 'sc SendDraw \<Rightarrow> bytes \<Rightarrow> bytes \<Rightarrow> ('sc, 'sk) NodeRunner \<Rightarrow> (NodeError + unit) \<times> ('sc, 'sk) NodeRunner" where
  "confirm_compute_payment env d request_id tx_hash r =
     (case hm_get (cs_pending_requests (compute_state r)) request_id of
        None \<Rightarrow> (Inl (Bail (ascii_bytes ''unknown compute request'')), r)
      | Some waiting \<Rightarrow>
          (case pcr_payment waiting of
             None \<Rightarrow> (Inl (Bail (ascii_bytes ''no payment quote received yet'')), r)
           | Some quote \<Rightarrow>
               (case serialize_payment_confirmation \<lparr>pconf_request_id = request_id, pconf_tx_hash = tx_hash, pconf_currency = preq_currency quote\<rparr> of
                  Inl e \<Rightarrow> (Inl (NodeStorage e), r)
                | Inr payload \<Rightarrow>
                    (case build_route_to_destination (sd_shuffle d) (pcr_provider waiting) (transport r) of
                       None \<Rightarrow> (Inl (Bail (ascii_bytes ''no route to compute provider'')), r)
                     | Some fwd \<Rightarrow>
                         (case create_hybrid_payload_packets (ne_sphinx env) (sd_packets d) payload (classical_route fwd) (hybrid_kem_map r) of
                            Inl e \<Rightarrow> (Inl (NodeRetrieval e), r)
                          | Inr packets \<Rightarrow>
                              (case send_all (hh_node_id (hd (hybrid_hops fwd))) packets (transport r) of
                                 (Inl e, t) \<Rightarrow> (Inl (NodeTransport e), r\<lparr>transport := t\<rparr>)
                               | (Inr _, t) \<Rightarrow> (Inr (), r\<lparr>transport := t\<rparr>)))))))"

definition compute_result :: "bytes \<Rightarrow> ('sc, 'sk) NodeRunner \<Rightarrow> ComputeResponse option" where
  "compute_result request_id r = hm_get (completed_results (compute_state r)) request_id"

section \<open>The provider as a state machine\<close>

text \<open>Where the one sweep task stands between two of its steps: it expires the requests it listed, it goes through its snapshot of the staged requests, or
  it has taken a confirmed one (the entry of the snapshot that was confirmed, and what the table held for it) and has not settled it.\<close>

datatype sweep = NoSweep | Expiring "bytes list" | Checking "PendingPayment list" | Taken PendingPayment PendingPayment "PendingPayment list"

text \<open>Beside the node: the tasks that have been spawned and not finished, the quotes that wait for an address, and the sweep.\<close>

record ('sc, 'sk) provider =
  pv_tasks :: "compute_task list"
  pv_quotes :: "(ComputeRequest \<times> Watcher) list"
  pv_sweep :: sweep
  pv_node :: "('sc, 'sk) NodeRunner"

datatype ('sc, 'v) provider_event =
    Request u64 "nat \<Rightarrow> 'sc PacketRandom" ComputeRequest
  | Quote u64 "nat \<Rightarrow> 'sc PacketRandom" ComputeRequest
  | Address u64 "nat \<Rightarrow> 'sc PacketRandom" ComputeRequest Watcher "PaymentError + bytes"
  | SweepBegin u64
  | SweepExpire "nat \<Rightarrow> 'sc PacketRandom"
  | SweepSnapshot
  | SweepCheck "'v wallet"
  | SweepSettle u64
  | SweepEnd
  | Execute "bytes option" "bytes option" "nat \<Rightarrow> 'sc PacketRandom" ComputeRequest
  | Confirmation PaymentConfirmation
  | Response ComputeResponse
  | QuoteReceived PaymentRequest

text \<open>Each step holds the lock of the compute state once. \<open>W\<close> are the answers the wallet gives over the time.\<close>

inductive provider_step ::
  "('sc, 'sk, 'v, 'md, 'st) node_env \<Rightarrow> 'v wallet set \<Rightarrow> ('sc, 'v) provider_event \<Rightarrow> ('sc, 'sk) provider \<Rightarrow> ('sc, 'sk) provider \<Rightarrow> bool"
  for env W where
  request: "handle_compute_request env now rnd q (pv_node s) = (new, r) \<Longrightarrow>
     provider_step env W (Request now rnd q) s (s\<lparr>pv_tasks := pv_tasks s @ new, pv_node := r\<rparr>)"
| quote: "QuoteTask q \<in> set (pv_tasks s) \<Longrightarrow> begin_paid_execution env now rnd q (pv_node s) = (w, r) \<Longrightarrow>
     provider_step env W (Quote now rnd q) s
       (s\<lparr>pv_tasks := remove1 (QuoteTask q) (pv_tasks s),
          pv_quotes := pv_quotes s @ (case w of Some w \<Rightarrow> [(q, w)] | None \<Rightarrow> []), pv_node := r\<rparr>)"
| address: "(q, w) \<in> set (pv_quotes s) \<Longrightarrow>
     provider_step env W (Address now rnd q w generated) s
       (s\<lparr>pv_quotes := remove1 (q, w) (pv_quotes s), pv_node := finish_paid_execution env now rnd q w generated (pv_node s)\<rparr>)"
| sweep_begin: "pv_sweep s = NoSweep \<Longrightarrow>
     provider_step env W (SweepBegin now) s (s\<lparr>pv_sweep := Expiring (expired_payments now (pv_node s))\<rparr>)"
| sweep_expire: "pv_sweep s = Expiring (rid # rids) \<Longrightarrow>
     provider_step env W (SweepExpire rnd) s (s\<lparr>pv_sweep := Expiring rids, pv_node := expire_payment env rnd rid (pv_node s)\<rparr>)"
| sweep_snapshot: "pv_sweep s = Expiring [] \<Longrightarrow>
     provider_step env W SweepSnapshot s (s\<lparr>pv_sweep := Checking (hm_values (payment_pending (compute_state (pv_node s))))\<rparr>)"
| sweep_check: "pv_sweep s = Checking (entry # entries) \<Longrightarrow> post \<in> W \<Longrightarrow> take_staged env post entry (pv_node s) = (taken, r) \<Longrightarrow>
     provider_step env W (SweepCheck post) s
       (s\<lparr>pv_sweep := (case taken of Some staged \<Rightarrow> Taken entry staged entries | None \<Rightarrow> Checking entries), pv_node := r\<rparr>)"
| sweep_settle: "pv_sweep s = Taken entry staged entries \<Longrightarrow> settle_staged now staged (pv_node s) = (new, r) \<Longrightarrow>
     provider_step env W (SweepSettle now) s (s\<lparr>pv_tasks := pv_tasks s @ new, pv_sweep := Checking entries, pv_node := r\<rparr>)"
| sweep_end: "pv_sweep s = Checking [] \<Longrightarrow> provider_step env W SweepEnd s (s\<lparr>pv_sweep := NoSweep\<rparr>)"
| execute: "ExecuteTask q \<in> set (pv_tasks s) \<Longrightarrow>
     provider_step env W (Execute fetched panicked rnd q) s
       (s\<lparr>pv_tasks := remove1 (ExecuteTask q) (pv_tasks s), pv_node := run_compute_execution env fetched panicked rnd q (pv_node s)\<rparr>)"
| confirmation: "provider_step env W (Confirmation c) s (s\<lparr>pv_node := handle_payment_confirmation c (pv_node s)\<rparr>)"
| response: "provider_step env W (Response resp) s (s\<lparr>pv_node := handle_compute_response resp (pv_node s)\<rparr>)"
| received: "provider_step env W (QuoteReceived p) s (s\<lparr>pv_node := handle_payment_request p (pv_node s)\<rparr>)"

inductive provider_run ::
  "('sc, 'sk, 'v, 'md, 'st) node_env \<Rightarrow> 'v wallet set \<Rightarrow> ('sc, 'sk) NodeRunner \<Rightarrow> ('sc, 'v) provider_event list \<Rightarrow> ('sc, 'sk) provider \<Rightarrow> bool"
  for env W r0 where
  start: "provider_run env W r0 [] \<lparr>pv_tasks = [], pv_quotes = [], pv_sweep = NoSweep, pv_node = r0\<rparr>"
| step: "provider_run env W r0 es s \<Longrightarrow> provider_step env W e s s' \<Longrightarrow> provider_run env W r0 (es @ [e]) s'"

definition idle_provider :: "('sc, 'sk) NodeRunner \<Rightarrow> bool" where
  "idle_provider r \<longleftrightarrow> active_executions (compute_state r) = [] \<and> payment_pending (compute_state r) = []"

text \<open>The requests being executed and those waiting for a quote; the ids of the requests a run received; the request a sweep has taken.\<close>

fun running :: "compute_task list \<Rightarrow> bytes list" where
  "running [] = []"
| "running (ExecuteTask q # tasks) = creq_request_id q # running tasks"
| "running (QuoteTask q # tasks) = running tasks"

fun quoting :: "compute_task list \<Rightarrow> bytes list" where
  "quoting [] = []"
| "quoting (ExecuteTask q # tasks) = quoting tasks"
| "quoting (QuoteTask q # tasks) = creq_request_id q # quoting tasks"

definition request_ids :: "('sc, 'v) provider_event list \<Rightarrow> bytes list" where
  "request_ids es = concat (map (\<lambda>e. case e of Request _ _ q \<Rightarrow> [creq_request_id q] | _ \<Rightarrow> []) es)"

fun in_transit :: "sweep \<Rightarrow> bytes list" where
  "in_transit (Taken entry staged entries) = [pp_request_id staged]"
| "in_transit _ = []"

section \<open>Slots\<close>

text \<open>What is staged: under its own request, with the placeholder or a quote at the configured price.\<close>

definition entry_ok :: "NodeConfig \<Rightarrow> bytes \<Rightarrow> PendingPayment \<Rightarrow> bool" where
  "entry_ok c k e \<longleftrightarrow> pp_request_id e = k \<and> creq_request_id (pp_request e) = k \<and>
     (pp_payment e = placeholder_quote k \<or> (\<exists>w a. pp_payment e = quote_for c w k a))"

definition slots_ok :: "NodeConfig \<Rightarrow> nat \<Rightarrow> nat \<Rightarrow> ComputeState \<Rightarrow> bool" where
  "slots_ok c cap transit st \<longleftrightarrow>
     hm_wf (active_executions st) \<and> hm_wf (payment_pending st) \<and> hm_len (active_executions st) \<le> cap \<and>
     hm_len (active_executions st) + hm_len (payment_pending st) + transit \<le> cap + 1 \<and>
     (\<forall>k e. hm_get (payment_pending st) k = Some e \<longrightarrow> entry_ok c k e)"

lemma contains_simps [simp]:
  "hm_contains (hm_insert k v m) k' \<longleftrightarrow> k' = k \<or> hm_contains m k'"
  "hm_contains (hm_remove k m) k' \<longleftrightarrow> k' \<noteq> k \<and> hm_contains m k'"
  "hm_contains (hm_modify k f m) k' \<longleftrightarrow> hm_contains m k'"
  by (auto simp: hm_contains_def)

lemma hm_len_insert_le: "hm_len (hm_insert k v m) \<le> Suc (hm_len m)"
  by (simp add: hm_len_insert)

lemma slots_stage:
  assumes "slots_ok c cap t st" "hm_len (active_executions st) + hm_len (payment_pending st) < cap" "t \<le> 1" "entry_ok c k e"
  shows "slots_ok c cap t (payment_pending_update (hm_insert k e) st)"
  using assms hm_len_insert_le [of k e "payment_pending st"] by (auto simp: slots_ok_def)

lemma slots_start:
  assumes "slots_ok c cap t st" "hm_len (active_executions st) < cap" "t = 1 \<or> payment_pending st = []"
  shows "slots_ok c cap 0 (active_executions_update (hm_insert k x) st)"
  using assms hm_len_insert_le [of k x "active_executions st"] by (auto simp: slots_ok_def hm_len_def)

lemma slots_take:
  assumes "slots_ok c cap 0 st" "hm_contains (payment_pending st) k"
  shows "slots_ok c cap 1 (payment_pending_update (hm_remove k) st)"
proof -
  have "0 < hm_len (payment_pending st)" using assms(2) by (auto simp: hm_contains_def hm_len_def hm_get_def)
  then show ?thesis using assms by (auto simp: slots_ok_def hm_len_remove split: if_splits)
qed

lemma slots_put_back:
  assumes "slots_ok c cap 1 st" "entry_ok c k e"
  shows "slots_ok c cap 0 (payment_pending_update (hm_insert k e) st)"
  using assms hm_len_insert_le [of k e "payment_pending st"] by (auto simp: slots_ok_def)

lemma slots_drop:
  assumes "slots_ok c cap t st"
  shows "slots_ok c cap t (payment_pending_update (hm_remove k) st)" "slots_ok c cap t (active_executions_update (hm_remove k) st)"
  using assms hm_len_remove_le [of k "payment_pending st"] hm_len_remove_le [of k "active_executions st"]
  by (auto simp: slots_ok_def simp del: hm_len_remove_le split: if_splits)

lemma slots_modify:
  assumes "slots_ok c cap t st" "\<And>e. entry_ok c k e \<Longrightarrow> entry_ok c k (f e)"
  shows "slots_ok c cap t (payment_pending_update (hm_modify k f) st)"
  using assms by (auto simp: slots_ok_def split: if_splits)

lemma slots_other [simp]:
  "slots_ok c cap t (cached_modules_update f st) = slots_ok c cap t st"
  "slots_ok c cap t (successful_executions_update g st) = slots_ok c cap t st"
  "slots_ok c cap t (failed_executions_update g st) = slots_ok c cap t st"
  "slots_ok c cap t (cs_pending_requests_update h st) = slots_ok c cap t st"
  "slots_ok c cap t (completed_results_update i st) = slots_ok c cap t st"
  by (simp_all add: slots_ok_def)

section \<open>Sending keeps the slots\<close>

definition same_provider :: "('sc, 'sk) NodeRunner \<Rightarrow> ('sc, 'sk) NodeRunner \<Rightarrow> bool" where
  "same_provider r r' \<longleftrightarrow> compute_state r' = compute_state r \<and> config r' = config r \<and> payment_watchers r' = payment_watchers r \<and>
     ts_compute_capacity (transport r') = ts_compute_capacity (transport r) \<and> ts_compute_enabled (transport r') = ts_compute_enabled (transport r)"

lemma same_provider_packets: "same_provider r (snd (send_packets packets route r))"
  using send_packets_frame [of packets route r] by (auto simp: same_provider_def)

lemma same_provider_send:
  "same_provider r (snd (send_compute_response env rnd resp route r))"
  "same_provider r (snd (send_payment_request env rnd p route r))"
  "same_provider r (send_compute_error env rnd q err b o' r)"
  by (auto simp: send_compute_response_def send_payment_request_def send_compute_error_def Let_def same_provider_packets
        split: sum.splits) (simp_all add: same_provider_def)

lemma same_providerD:
  assumes "same_provider r r'"
  shows "compute_state r' = compute_state r" "config r' = config r" "payment_watchers r' = payment_watchers r"
    "ts_compute_capacity (transport r') = ts_compute_capacity (transport r)" "ts_compute_enabled (transport r') = ts_compute_enabled (transport r)"
  using assms by (simp_all add: same_provider_def)

lemmas sent = same_provider_send [THEN same_providerD(1)] same_provider_send [THEN same_providerD(2)]
  same_provider_send [THEN same_providerD(3)] same_provider_send [THEN same_providerD(4)] same_provider_send [THEN same_providerD(5)]

lemma with_compute_simps [simp]:
  "compute_state (with_compute f r) = f (compute_state r)" "config (with_compute f r) = config r"
  "payment_watchers (with_compute f r) = payment_watchers r" "transport (with_compute f r) = transport r"
  by (simp_all add: with_compute_def)

section \<open>Every step\<close>

text \<open>What a sweep has seen: entries at the configured price, and for the one it has taken a report of enough confirmations on the entry of the snapshot.\<close>

fun sweep_inv :: "('sc, 'sk, 'v, 'md, 'st) node_env \<Rightarrow> 'v wallet set \<Rightarrow> NodeConfig \<Rightarrow> sweep \<Rightarrow> bool" where
  "sweep_inv env W c (Checking entries) \<longleftrightarrow> (\<forall>e\<in>set entries. entry_ok c (pp_request_id e) e)"
| "sweep_inv env W c (Taken entry staged entries) \<longleftrightarrow> (\<forall>e\<in>set (entry # staged # entries). entry_ok c (pp_request_id e) e) \<and>
     pp_request_id entry = pp_request_id staged \<and> (\<exists>post\<in>W. \<exists>watchers. watcher_confirms env post watchers entry)"
| "sweep_inv env W c _ \<longleftrightarrow> True"

text \<open>How often a request waits for a quote, is staged, is in transit or executes: no more often than it was received.\<close>

definition places :: "('sc, 'sk) provider \<Rightarrow> bytes \<Rightarrow> nat" where
  "places s k = count_list (quoting (pv_tasks s)) k + of_bool (hm_contains (payment_pending (compute_state (pv_node s))) k) +
     count_list (in_transit (pv_sweep s)) k + of_bool (hm_contains (active_executions (compute_state (pv_node s))) k)"

definition provider_inv ::
  "('sc, 'sk, 'v, 'md, 'st) node_env \<Rightarrow> 'v wallet set \<Rightarrow> NodeConfig \<Rightarrow> nat \<Rightarrow> bytes list \<Rightarrow> ('sc, 'sk) provider \<Rightarrow> bool" where
  "provider_inv env W c cap ids s \<longleftrightarrow>
     (let r = pv_node s; st = compute_state r in
      config r = c \<and> unat (ts_compute_capacity (transport r)) = cap \<and> slots_ok c cap (length (in_transit (pv_sweep s))) st \<and> sweep_inv env W c (pv_sweep s) \<and>
      (if is_free (pricing (compute_config c)) then payment_pending st = [] \<and> pv_quotes s = [] \<and> (\<forall>q. QuoteTask q \<notin> set (pv_tasks s)) \<and> in_transit (pv_sweep s) = []
       else (\<forall>k. places s k \<le> count_list ids k) \<and> (distinct ids \<longrightarrow> mset (running (pv_tasks s)) = mset (hm_keys (active_executions st)))))"

lemma running_append [simp]: "running (xs @ ys) = running xs @ running ys"
  by (induction xs rule: running.induct) simp_all

lemma quoting_append [simp]: "quoting (xs @ ys) = quoting xs @ quoting ys"
  by (induction xs rule: quoting.induct) simp_all

lemma transit_le: "length (in_transit sw) \<le> 1"
  by (cases sw) simp_all

lemma keys_insert: "\<not> hm_contains m k \<Longrightarrow> mset (hm_keys (hm_insert k v m)) = mset (hm_keys m) + {#k#}"
  by (simp add: hm_keys_def hm_insert_def update_keys hm_contains_alt)

lemma keys_remove_mset: "hm_wf m \<Longrightarrow> mset (hm_keys (hm_remove k m)) = mset (hm_keys m) - {#k#}"
proof (cases "k \<in> set (map fst m)")
  case True
  assume "hm_wf m"
  then show ?thesis by (simp add: hm_keys_def hm_remove_def delete_keys hm_wf_def distinct_remove1_removeAll [symmetric])
next
  case False
  assume "hm_wf m"
  show ?thesis using False by (simp add: hm_keys_def hm_remove_def delete_keys diff_single_trivial)
qed

lemma running_remove1: "ExecuteTask q \<in> set tasks \<Longrightarrow> mset (running (remove1 (ExecuteTask q) tasks)) = mset (running tasks) - {#creq_request_id q#}"
proof (induction tasks)
  case (Cons t tasks)
  show ?case
  proof (cases t)
    case (ExecuteTask q')
    have "creq_request_id q \<in># mset (running tasks)" if "ExecuteTask q \<in> set tasks"
      using that by (induction tasks rule: running.induct) auto
    then show ?thesis using Cons ExecuteTask by auto
  qed (use Cons in auto)
qed simp

lemma running_remove_quote: "running (remove1 (QuoteTask q) tasks) = running tasks"
  by (induction tasks rule: running.induct) auto

lemma quoting_remove_execute: "quoting (remove1 (ExecuteTask q) tasks) = quoting tasks"
  by (induction tasks rule: quoting.induct) auto

lemma quoting_remove1:
  "QuoteTask q \<in> set tasks \<Longrightarrow> count_list (quoting tasks) k = count_list (quoting (remove1 (QuoteTask q) tasks)) k + of_bool (creq_request_id q = k)"
  by (induction tasks rule: quoting.induct) auto

lemma hm_remove_Nil [simp]: "hm_remove k [] = []"
  by (simp add: hm_remove_def)

lemma count_distinct: "distinct xs \<Longrightarrow> count_list xs x \<le> 1"
  by (induction xs) (auto simp: count_list_0_iff)

lemma expire_slots:
  "config (expire_payment env rnd rid r) = config r"
  "ts_compute_capacity (transport (expire_payment env rnd rid r)) = ts_compute_capacity (transport r)"
  "active_executions (compute_state (expire_payment env rnd rid r)) = active_executions (compute_state r)"
  "payment_watchers (expire_payment env rnd rid r) = payment_watchers r"
  "payment_pending (compute_state (expire_payment env rnd rid r)) = hm_remove rid (payment_pending (compute_state r))"
proof -
  have "hm_get m k = None \<Longrightarrow> hm_remove k m = m" for m :: "(bytes, PendingPayment) hashmap" and k
    by (simp add: hm_get_def hm_remove_def map_of_eq_None_iff AList.delete_id)
  then show "payment_pending (compute_state (expire_payment env rnd rid r)) = hm_remove rid (payment_pending (compute_state r))"
    by (auto simp: expire_payment_def sent split: option.splits)
qed (auto simp: expire_payment_def sent split: option.splits)

lemma inv_request:
  assumes "provider_inv env W c cap ids s" "handle_compute_request env now rnd q (pv_node s) = (new, r)"
  shows "provider_inv env W c cap (ids @ [creq_request_id q]) (s\<lparr>pv_tasks := pv_tasks s @ new, pv_node := r\<rparr>)"
proof (cases "ts_compute_enabled (transport (pv_node s)) \<and> is_free (pricing (compute_config c))")
  case False
  then have n: "(new = [] \<or> new = [QuoteTask q]) \<and> r = pv_node s \<and> (is_free (pricing (compute_config c)) \<longrightarrow> new = [])"
    using assms by (auto simp: handle_compute_request_def provider_inv_def Let_def split: if_splits)
  have p: "places (s\<lparr>pv_tasks := pv_tasks s @ new, pv_node := r\<rparr>) k \<le> count_list (ids @ [creq_request_id q]) k" if "places s k \<le> count_list ids k" for k
    using n that by (auto simp: places_def)
  have "running new = []" using n by auto
  then show ?thesis using assms(1) n p unfolding provider_inv_def Let_def by (simp split: if_splits)
next
  case True
  then have free: "is_free (pricing (compute_config c))" and on: "ts_compute_enabled (transport (pv_node s))" by simp_all
  have inv: "config (pv_node s) = c" "unat (ts_compute_capacity (transport (pv_node s))) = cap" "slots_ok c cap 0 (compute_state (pv_node s))"
      "payment_pending (compute_state (pv_node s)) = []"
    using assms(1) free by (auto simp: provider_inv_def Let_def)
  obtain res r1 where a: "accept_compute_request now q (pv_node s) = (res, r1)" by fastforce
  have r1: "config r1 = c \<and> unat (ts_compute_capacity (transport r1)) = cap \<and> slots_ok c cap 0 (compute_state r1) \<and> payment_pending (compute_state r1) = []"
    using a inv slots_start [of c cap 0 "compute_state (pv_node s)" "creq_request_id q" "execution_of now q"]
    by (auto simp: accept_compute_request_def Let_def split: if_splits)
  have "(new, r) = (case res of Inl err \<Rightarrow> ([], send_compute_error env rnd q err False None r1) | Inr _ \<Rightarrow> ([ExecuteTask q], r1))"
    using assms(2) on free inv(1) a by (simp add: handle_compute_request_def)
  then have "config r = c \<and> unat (ts_compute_capacity (transport r)) = cap \<and> compute_state r = compute_state r1 \<and> (\<forall>q. QuoteTask q \<notin> set new)"
    using r1 by (auto simp: sent split: sum.splits)
  then show ?thesis using assms(1) free r1 by (simp add: provider_inv_def Let_def)
qed

lemma begin_slots:
  assumes "begin_paid_execution env now rnd q r = (w, r')" "slots_ok (config r) (unat (ts_compute_capacity (transport r))) t (compute_state r)" "t \<le> 1"
  shows "config r' = config r" "ts_compute_capacity (transport r') = ts_compute_capacity (transport r)"
    "active_executions (compute_state r') = active_executions (compute_state r)"
    "slots_ok (config r) (unat (ts_compute_capacity (transport r))) t (compute_state r')"
    "\<forall>k. hm_contains (payment_pending (compute_state r')) k \<longrightarrow> hm_contains (payment_pending (compute_state r)) k \<or>
       k = creq_request_id q \<and> \<not> hm_contains (active_executions (compute_state r)) k"
proof -
  have "entry_ok c (creq_request_id q) \<lparr>pp_request_id = creq_request_id q, pp_request = q, pp_payment = placeholder_quote (creq_request_id q),
      pp_sent_at = now, claimed_tx_hash = None\<rparr>" for c by (simp add: entry_ok_def)
  then show "config r' = config r" "ts_compute_capacity (transport r') = ts_compute_capacity (transport r)"
    "active_executions (compute_state r') = active_executions (compute_state r)"
    "slots_ok (config r) (unat (ts_compute_capacity (transport r))) t (compute_state r')"
    "\<forall>k. hm_contains (payment_pending (compute_state r')) k \<longrightarrow> hm_contains (payment_pending (compute_state r)) k \<or>
       k = creq_request_id q \<and> \<not> hm_contains (active_executions (compute_state r)) k"
    using assms
    by (auto simp: begin_paid_execution_def reserve_payment_slot_def Let_def sent intro!: slots_stage split: option.splits if_splits)
qed

lemma entry_quoted: "entry_ok c k e \<Longrightarrow> entry_ok c k (e\<lparr>pp_payment := quote_for c w k a, pp_sent_at := now\<rparr>)"
  by (auto simp: entry_ok_def)

lemma finish_slots:
  assumes "slots_ok (config r) cap t (compute_state r)"
  shows "config (finish_paid_execution env now rnd q w g r) = config r"
    "ts_compute_capacity (transport (finish_paid_execution env now rnd q w g r)) = ts_compute_capacity (transport r)"
    "active_executions (compute_state (finish_paid_execution env now rnd q w g r)) = active_executions (compute_state r)"
    "slots_ok (config r) cap t (compute_state (finish_paid_execution env now rnd q w g r))"
    "hm_contains (payment_pending (compute_state (finish_paid_execution env now rnd q w g r))) k \<Longrightarrow> hm_contains (payment_pending (compute_state r)) k"
  using assms
  by (auto simp: finish_paid_execution_def Let_def sent intro!: slots_drop slots_modify entry_quoted split: sum.splits if_splits)

lemma run_slots:
  assumes "slots_ok (config r) cap t (compute_state r)"
  shows "config (run_compute_execution env f p rnd q r) = config r"
    "ts_compute_capacity (transport (run_compute_execution env f p rnd q r)) = ts_compute_capacity (transport r)"
    "active_executions (compute_state (run_compute_execution env f p rnd q r)) = hm_remove (creq_request_id q) (active_executions (compute_state r))"
    "payment_pending (compute_state (run_compute_execution env f p rnd q r)) = payment_pending (compute_state r)"
    "slots_ok (config r) cap t (compute_state (run_compute_execution env f p rnd q r))"
proof -
  let ?r = "run_compute_execution env f p rnd q r"
  show "config ?r = config r" "ts_compute_capacity (transport ?r) = ts_compute_capacity (transport r)"
    and a: "active_executions (compute_state ?r) = hm_remove (creq_request_id q) (active_executions (compute_state r))"
    and b: "payment_pending (compute_state ?r) = payment_pending (compute_state r)"
    by (auto simp: run_compute_execution_def finish_failed_execution_def Let_def sent split: sum.splits option.splits)
  show "slots_ok (config r) cap t (compute_state ?r)"
    using slots_drop(2) [OF assms, of "creq_request_id q"] by (simp add: slots_ok_def a b)
qed

lemma requester_slots:
  "config (handle_payment_confirmation c r) = config r" "transport (handle_payment_confirmation c r) = transport r"
  "active_executions (compute_state (handle_payment_confirmation c r)) = active_executions (compute_state r)"
  "slots_ok c' cap t (compute_state r) \<Longrightarrow> slots_ok c' cap t (compute_state (handle_payment_confirmation c r))"
  "payment_pending (compute_state r) = [] \<Longrightarrow> payment_pending (compute_state (handle_payment_confirmation c r)) = []"
  "hm_contains (payment_pending (compute_state (handle_payment_confirmation c r))) k \<longleftrightarrow> hm_contains (payment_pending (compute_state r)) k"
  by (auto simp: handle_payment_confirmation_def entry_ok_def intro!: slots_modify split: option.splits)

text \<open>Steps that neither spawn nor start nor receive anything.\<close>

lemma inv_quiet:
  assumes "provider_inv env W c cap ids s" "config (pv_node s') = config (pv_node s)"
    "ts_compute_capacity (transport (pv_node s')) = ts_compute_capacity (transport (pv_node s))"
    "slots_ok c cap (length (in_transit (pv_sweep s'))) (compute_state (pv_node s'))" "sweep_inv env W c (pv_sweep s')"
    "active_executions (compute_state (pv_node s')) = active_executions (compute_state (pv_node s))"
    "running (pv_tasks s') = running (pv_tasks s)" "\<And>k. places s' k \<le> places s k"
    "is_free (pricing (compute_config c)) \<Longrightarrow> payment_pending (compute_state (pv_node s')) = [] \<and> pv_quotes s' = [] \<and> (\<forall>q. QuoteTask q \<notin> set (pv_tasks s')) \<and> in_transit (pv_sweep s') = []"
    "new = []"
  shows "provider_inv env W c cap (ids @ new) s'"
  using assms order_trans [OF assms(8)] by (simp add: provider_inv_def Let_def split: if_splits)

lemma inv_settle:
  assumes "provider_inv env W c cap ids s" "pv_sweep s = Taken entry staged entries" "settle_staged now staged (pv_node s) = (new, r)"
  shows "provider_inv env W c cap ids (s\<lparr>pv_tasks := pv_tasks s @ new, pv_sweep := Checking entries, pv_node := r\<rparr>)"
proof -
  have inv: "config (pv_node s) = c" "unat (ts_compute_capacity (transport (pv_node s))) = cap" "slots_ok c cap 1 (compute_state (pv_node s))"
      "entry_ok c (pp_request_id staged) staged" "sweep_inv env W c (Checking entries)" "\<not> is_free (pricing (compute_config c))"
      "\<And>k. places s k \<le> count_list ids k" "distinct ids \<Longrightarrow> mset (running (pv_tasks s)) = mset (hm_keys (active_executions (compute_state (pv_node s))))"
    using assms(1,2) by (auto simp: provider_inv_def Let_def split: if_splits)
  have id: "creq_request_id (pp_request staged) = pp_request_id staged" using inv(4) by (simp add: entry_ok_def)
  show ?thesis
  proof (cases "cap \<le> hm_len (active_executions (compute_state (pv_node s)))")
    case True
    then have r: "new = []" "r = with_compute (payment_pending_update (hm_insert (pp_request_id staged) staged)) (pv_node s)"
      using assms(3) inv(2) by (simp_all add: settle_staged_def)
    have "places (s\<lparr>pv_tasks := pv_tasks s @ new, pv_sweep := Checking entries, pv_node := r\<rparr>) k \<le> places s k" for k
      by (simp add: places_def r assms(2))
    then show ?thesis using slots_put_back [OF inv(3,4)] inv order_trans [OF _ inv(7)] by (simp add: provider_inv_def r)
  next
    case False
    define x where "x = execution_of now (pp_request staged)\<lparr>ce_request_id := pp_request_id staged\<rparr>"
    have r: "new = [ExecuteTask (pp_request staged)]" "r = with_compute (active_executions_update (hm_insert (pp_request_id staged) x)) (pv_node s)"
      using False assms(3) inv(2) by (simp_all add: settle_staged_def x_def)
    have "places (s\<lparr>pv_tasks := pv_tasks s @ new, pv_sweep := Checking entries, pv_node := r\<rparr>) k \<le> places s k" for k
      by (simp add: places_def r assms(2))
    moreover have "\<not> hm_contains (active_executions (compute_state (pv_node s))) (pp_request_id staged)" if "distinct ids"
    proof -
      have "count_list ids (pp_request_id staged) \<le> 1" using that by (rule count_distinct)
      then show ?thesis using inv(7) [of "pp_request_id staged"] by (auto simp: places_def assms(2))
    qed
    ultimately show ?thesis using slots_start [OF inv(3), of "pp_request_id staged" x] False inv order_trans [OF _ inv(7)]
      by (auto simp: provider_inv_def r id keys_insert)
  qed
qed

lemma provider_inv_step:
  assumes "provider_step env W e s s'" "provider_inv env W c cap ids s"
  shows "provider_inv env W c cap (ids @ request_ids [e]) s'"
proof -
  have inv: "config (pv_node s) = c" "unat (ts_compute_capacity (transport (pv_node s))) = cap"
      "slots_ok c cap (length (in_transit (pv_sweep s))) (compute_state (pv_node s))" "sweep_inv env W c (pv_sweep s)"
    using assms(2) by (simp_all add: provider_inv_def Let_def)
  have wf: "hm_wf (active_executions (compute_state (pv_node s)))" "hm_wf (payment_pending (compute_state (pv_node s)))" using inv(3) by (simp_all add: slots_ok_def)
  have free: "payment_pending (compute_state (pv_node s)) = [] \<and> pv_quotes s = [] \<and> (\<forall>q. QuoteTask q \<notin> set (pv_tasks s)) \<and> in_transit (pv_sweep s) = []"
    if "is_free (pricing (compute_config c))" using assms(2) that by (simp add: provider_inv_def Let_def)
  show ?thesis using assms(1)
  proof (cases rule: provider_step.cases)
    case (request now rnd q new r)
    then show ?thesis using inv_request [OF assms(2)] by (simp add: request_ids_def)
  next
    case (quote q now rnd w r)
    note b = begin_slots [OF quote(4) _ transit_le [of "pv_sweep s"]]
    have "places s' k \<le> places s k" for k
      using b(5) b(3) inv quoting_remove1 [OF quote(3), of k] by (auto simp: places_def quote(2))
    then show ?thesis using b inv free quote(3)
      by (intro inv_quiet [OF assms(2)]) (auto simp: quote(1,2) request_ids_def running_remove_quote)
  next
    case (address q w now rnd g)
    note b = finish_slots [of "pv_node s" cap "length (in_transit (pv_sweep s))" env now rnd q w g]
    have "places s' k \<le> places s k" for k using b(3,5) inv by (auto simp: places_def address(2))
    then show ?thesis using b inv free address(3)
      by (intro inv_quiet [OF assms(2)]) (auto simp: address(1,2) request_ids_def)
  next
    case (sweep_begin now)
    then show ?thesis using inv free assms(2) by (intro inv_quiet [OF assms(2)]) (auto simp: request_ids_def places_def)
  next
    case (sweep_expire rid rids rnd)
    have "slots_ok c cap 0 (compute_state (expire_payment env rnd rid (pv_node s)))"
      using slots_drop(1) [of c cap 0 "compute_state (pv_node s)" rid] inv(3) sweep_expire(3) by (simp add: slots_ok_def expire_slots)
    then show ?thesis using inv free by (intro inv_quiet [OF assms(2)]) (auto simp: sweep_expire request_ids_def places_def expire_slots)
  next
    case sweep_snapshot
    have "entry_ok c (pp_request_id x) x" if x: "x \<in> set (hm_values (payment_pending (compute_state (pv_node s))))" for x
    proof -
      obtain k where "(k, x) \<in> set (payment_pending (compute_state (pv_node s)))" using x by (auto simp: hm_values_def)
      then have "entry_ok c k x" using inv(3) wf(2) by (auto simp: slots_ok_def hm_wf_get_iff [OF wf(2)])
      then show ?thesis by (simp add: entry_ok_def)
    qed
    then show ?thesis using inv free by (intro inv_quiet [OF assms(2)]) (auto simp: sweep_snapshot request_ids_def places_def)
  next
    case (sweep_check entry entries post taken r)
    show ?thesis
    proof (cases taken)
      case None
      then have "r = pv_node s \<or> r = with_compute (payment_pending_update (hm_remove (pp_request_id entry))) (pv_node s)"
        using sweep_check(5) by (auto simp: take_staged_def split: if_splits)
      moreover have "slots_ok c cap 0 (compute_state (pv_node s))" using inv(3) sweep_check(3) by simp
      ultimately show ?thesis using inv free None sweep_check(3) slots_drop(1)
        by (intro inv_quiet [OF assms(2)]) (auto simp: sweep_check(1,2) request_ids_def places_def)
    next
      case (Some staged)
      then have t: "watcher_confirms env post (payment_watchers (pv_node s)) entry" "hm_get (payment_pending (compute_state (pv_node s))) (pp_request_id entry) = Some staged"
          "r = with_compute (payment_pending_update (hm_remove (pp_request_id entry))) (pv_node s)"
        using sweep_check(5) by (auto simp: take_staged_def split: if_splits)
      have e: "entry_ok c (pp_request_id entry) entry" "entry_ok c (pp_request_id entry) staged" using inv(3,4) t(2) sweep_check(3) by (simp_all add: slots_ok_def)
      then have id: "pp_request_id staged = pp_request_id entry" by (simp add: entry_ok_def)
      have c: "hm_contains (payment_pending (compute_state (pv_node s))) (pp_request_id entry)" using t(2) by (simp add: hm_contains_def)
      have "\<not> is_free (pricing (compute_config c))" using free t(2) by auto
      moreover have "slots_ok c cap 1 (compute_state r)" using slots_take [OF _ c] inv(3) sweep_check(3) t(3) by simp
      moreover have "places s' k \<le> places s k" for k using c by (cases "pp_request_id entry = k") (simp_all add: places_def sweep_check(2,3) Some t(3) id)
      ultimately show ?thesis using inv e id sweep_check(3,4) t(1)
        by (intro inv_quiet [OF assms(2)]) (auto simp: sweep_check(1,2) request_ids_def Some t(3))
    qed
  next
    case (sweep_settle entry staged entries now new r)
    then show ?thesis using inv_settle [OF assms(2)] by (simp add: request_ids_def)
  next
    case sweep_end
    then show ?thesis using inv free by (intro inv_quiet [OF assms(2)]) (auto simp: request_ids_def places_def)
  next
    case (execute q f p rnd)
    note run = run_slots [of "pv_node s" cap _ env f p rnd q]
    have "set (remove1 (ExecuteTask q) (pv_tasks s)) \<subseteq> set (pv_tasks s)" by (rule set_remove1_subset)
    moreover have "places s' k \<le> places s k" for k
      using run(3,4) inv by (simp add: places_def execute(2) quoting_remove_execute)
    moreover from this have "places s' k \<le> count_list ids k" if "\<not> is_free (pricing (compute_config c))" for k
      using assms(2) that order_trans by (fastforce simp: provider_inv_def Let_def)
    ultimately show ?thesis using execute run inv assms(2) wf
      by (auto simp: provider_inv_def Let_def request_ids_def running_remove1 keys_remove_mset split: if_splits)
  next
    case (confirmation x)
    then show ?thesis using inv free by (intro inv_quiet [OF assms(2)]) (auto simp: request_ids_def places_def requester_slots)
  next
    case (response x)
    then show ?thesis using inv free by (intro inv_quiet [OF assms(2)]) (auto simp: request_ids_def places_def handle_compute_response_def Let_def)
  next
    case (received x)
    then show ?thesis using inv free by (intro inv_quiet [OF assms(2)]) (auto simp: request_ids_def places_def handle_payment_request_def)
  qed
qed

lemma provider_inv_run:
  assumes "provider_run env W r0 es s" "idle_provider r0"
  shows "provider_inv env W (config r0) (unat (ts_compute_capacity (transport r0))) (request_ids es) s"
  using assms
proof (induction rule: provider_run.induct)
  case start
  then show ?case by (simp add: provider_inv_def Let_def idle_provider_def slots_ok_def places_def hm_contains_def hm_len_def hm_keys_def)
next
  case (step es s e s')
  have "request_ids (es @ [e]) = request_ids es @ request_ids [e]" by (simp add: request_ids_def)
  with provider_inv_step [OF step(2)] step show ?case by simp
qed

section \<open>Capacity and payment\<close>

text \<open>C18 (invariant). Whatever happens between the steps of a payment sweep and in whatever order requests, quotes, addresses, confirmations and
  executions come, the registered executions stay within the configured capacity, and together with the requests staged for payment and the one a sweep has taken out of
  the table they exceed it by at most one (that one: the sweep unlocks the state while it has taken it, and a reservation may get its slot). On a provider that charges, and that
  received no request id twice, the execution tasks that have been spawned and not finished are exactly the registered executions: no request is
  executed twice at once, and no more of them run than the capacity allows.\<close>

theorem provider_capacity_kept:
  assumes "provider_run env W r0 es s" "idle_provider r0"
  shows "hm_len (active_executions (compute_state (pv_node s))) \<le> unat (ts_compute_capacity (transport r0)) \<and>
    hm_len (active_executions (compute_state (pv_node s))) + hm_len (payment_pending (compute_state (pv_node s))) + length (in_transit (pv_sweep s))
      \<le> unat (ts_compute_capacity (transport r0)) + 1 \<and>
    (\<not> is_free (pricing (compute_config (config r0))) \<and> distinct (request_ids es) \<longrightarrow>
      distinct (running (pv_tasks s)) \<and> set (running (pv_tasks s)) = set (hm_keys (active_executions (compute_state (pv_node s)))) \<and>
      length (running (pv_tasks s)) \<le> unat (ts_compute_capacity (transport r0)))"
proof -
  define st where "st = compute_state (pv_node s)"
  define cap where "cap = unat (ts_compute_capacity (transport r0))"
  have inv: "slots_ok (config r0) cap (length (in_transit (pv_sweep s))) st"
      "\<not> is_free (pricing (compute_config (config r0))) \<and> distinct (request_ids es) \<Longrightarrow> mset (running (pv_tasks s)) = mset (hm_keys (active_executions st))"
    using provider_inv_run [OF assms] by (simp_all add: provider_inv_def Let_def st_def cap_def)
  then have "distinct (hm_keys (active_executions st))" "hm_len (active_executions st) \<le> cap"
      "hm_len (active_executions st) + hm_len (payment_pending st) + length (in_transit (pv_sweep s)) \<le> cap + 1"
    by (simp_all add: slots_ok_def hm_wf_def hm_keys_def)
  moreover have "length (hm_keys (active_executions st)) = hm_len (active_executions st)" by (simp add: hm_keys_def hm_len_def)
  moreover have "length (running (pv_tasks s)) = length (hm_keys (active_executions st))"
    if "\<not> is_free (pricing (compute_config (config r0))) \<and> distinct (request_ids es)"
    using inv(2) [OF that] by (rule mset_eq_length)
  ultimately show ?thesis using inv(2) unfolding st_def [symmetric] cap_def [symmetric]
    by (auto dest: mset_eq_setD mset_eq_imp_distinct_iff)
qed

text \<open>The slot of a request that a sweep has taken is free for another one: on a full provider a reservation in between succeeds, and once the
  taken request is started, one request more is staged and executing than the capacity allows.\<close>

lemma taken_slot_given_away:
  assumes "take_staged env post entry r = (Some staged, r1)" "hm_wf (payment_pending (compute_state r))"
    "hm_len (active_executions (compute_state r)) + hm_len (payment_pending (compute_state r)) = unat (ts_compute_capacity (transport r))"
    "\<not> hm_contains (active_executions (compute_state r)) (creq_request_id q)" "\<not> hm_contains (payment_pending (compute_state r)) (creq_request_id q)"
    "\<not> hm_contains (active_executions (compute_state r)) (pp_request_id staged)"
  obtains r2 r3 where "reserve_payment_slot now q r1 = (Inr True, r2)" "settle_staged now' staged r2 = ([ExecuteTask (pp_request staged)], r3)"
    "hm_len (active_executions (compute_state r3)) + hm_len (payment_pending (compute_state r3)) = unat (ts_compute_capacity (transport r3)) + 1"
proof -
  have t: "hm_get (payment_pending (compute_state r)) (pp_request_id entry) = Some staged"
      "r1 = with_compute (payment_pending_update (hm_remove (pp_request_id entry))) r"
    using assms(1) by (auto simp: take_staged_def split: if_splits)
  have c: "hm_contains (payment_pending (compute_state r)) (pp_request_id entry)" using t(1) by (simp add: hm_contains_def)
  then have pos: "0 < hm_len (payment_pending (compute_state r))" by (auto simp: hm_contains_def hm_len_def hm_get_def)
  define e where "e = \<lparr>pp_request_id = creq_request_id q, pp_request = q, pp_payment = placeholder_quote (creq_request_id q), pp_sent_at = now, claimed_tx_hash = None\<rparr>"
  define r2 where "r2 = with_compute (payment_pending_update (hm_insert (creq_request_id q) e)) r1"
  have "reserve_payment_slot now q r1 = (Inr True, r2)"
    using assms(2-5) c pos by (simp add: reserve_payment_slot_def t(2) hm_len_remove Let_def r2_def e_def)
  moreover define r3 where "r3 = with_compute (active_executions_update (hm_insert (pp_request_id staged)
     (execution_of now' (pp_request staged)\<lparr>ce_request_id := pp_request_id staged\<rparr>))) r2"
  moreover have "settle_staged now' staged r2 = ([ExecuteTask (pp_request staged)], r3)"
    using assms(3) pos by (simp add: settle_staged_def r2_def r3_def t(2))
  moreover have "hm_len (active_executions (compute_state r3)) + hm_len (payment_pending (compute_state r3)) = unat (ts_compute_capacity (transport r3)) + 1"
    using assms(2-6) c pos by (simp add: r3_def r2_def t(2) hm_len_insert hm_len_remove)
  ultimately show thesis using that by blast
qed

section \<open>A sweep that is not interrupted\<close>

lemma sweep_node_swap: "s\<lparr>pv_node := r, pv_sweep := w\<rparr> = s\<lparr>pv_sweep := w, pv_node := r\<rparr>" for s :: "('sc, 'sk) provider"
  by simp

text \<open>Its steps are steps of the machine.\<close>

lemma expiring_run:
  assumes "provider_run env W r0 es s" "pv_sweep s = Expiring (map snd xs)"
  shows "\<exists>es'. provider_run env W r0 es' (s\<lparr>pv_sweep := Expiring [], pv_node := fold (\<lambda>(i, rid). expire_payment env (rnds i) rid) xs (pv_node s)\<rparr>)"
  using assms
proof (induction xs arbitrary: es s)
  case Nil
  then have "s\<lparr>pv_sweep := Expiring [], pv_node := pv_node s\<rparr> = s" by simp
  with Nil(1) show ?case by (intro exI [of _ es]) simp
next
  case (Cons x xs)
  let ?s = "s\<lparr>pv_sweep := Expiring (map snd xs), pv_node := expire_payment env (rnds (fst x)) (snd x) (pv_node s)\<rparr>"
  have "provider_run env W r0 (es @ [SweepExpire (rnds (fst x))]) ?s"
    using Cons.prems provider_step.sweep_expire [of s "snd x" "map snd xs" env W "rnds (fst x)"] by (intro provider_run.step) simp_all
  from Cons.IH [OF this] show ?case by (simp add: split_beta)
qed

lemma checking_run:
  assumes "provider_run env W r0 es s" "pv_sweep s = Checking entries" "post \<in> W" "fold (confirm_staged env post started) entries (pv_tasks s, pv_node s) = (tasks, r)"
  shows "\<exists>es'. provider_run env W r0 es' (s\<lparr>pv_tasks := tasks, pv_sweep := Checking [], pv_node := r\<rparr>)"
  using assms
proof (induction entries arbitrary: es s)
  case Nil
  then have "s\<lparr>pv_tasks := tasks, pv_sweep := Checking [], pv_node := r\<rparr> = s" by simp
  with Nil(1) show ?case by (intro exI [of _ es]) simp
next
  case (Cons e entries)
  obtain taken r1 where t: "take_staged env post e (pv_node s) = (taken, r1)" by fastforce
  let ?s1 = "s\<lparr>pv_sweep := (case taken of Some staged \<Rightarrow> Taken e staged entries | None \<Rightarrow> Checking entries), pv_node := r1\<rparr>"
  have s1: "provider_run env W r0 (es @ [SweepCheck post]) ?s1"
    using Cons.prems(1) provider_step.sweep_check [OF Cons.prems(2,3) t] by (rule provider_run.step)
  show ?case
  proof (cases taken)
    case None
    then show ?thesis using Cons.IH [OF s1] Cons.prems(3,4) t by (simp add: confirm_staged_def)
  next
    case (Some staged)
    obtain new r2 where n: "settle_staged started staged r1 = (new, r2)" by fastforce
    let ?s2 = "?s1\<lparr>pv_tasks := pv_tasks s @ new, pv_sweep := Checking entries, pv_node := r2\<rparr>"
    have "provider_step env W (SweepSettle started) ?s1 (?s1\<lparr>pv_tasks := pv_tasks ?s1 @ new, pv_sweep := Checking entries, pv_node := r2\<rparr>)"
      using n by (intro provider_step.sweep_settle [where entry = e and staged = staged]) (simp_all add: Some)
    then have "provider_run env W r0 ((es @ [SweepCheck post]) @ [SweepSettle started]) ?s2"
      using provider_run.step [OF s1] by simp
    from Cons.IH [OF this] show ?thesis using Cons.prems(3,4) t n by (simp add: confirm_staged_def Some)
  qed
qed

lemma tick_fold_tasks:
  "fold (confirm_staged env post started) entries (tasks @ tasks', r) =
     (case fold (confirm_staged env post started) entries (tasks', r) of (new, r') \<Rightarrow> (tasks @ new, r'))"
proof (induction entries arbitrary: tasks' r)
  case (Cons e entries)
  obtain new r' where "confirm_staged env post started e ([], r) = (new, r')" by fastforce
  then have c: "confirm_staged env post started e (ts, r) = (ts @ new, r')" for ts
    by (auto simp: confirm_staged_def split: prod.splits option.splits)
  show ?case using Cons [of "tasks' @ new" r'] by (simp add: c)
qed simp

lemma tick_is_run:
  assumes "provider_run env W r0 es s" "pv_sweep s = NoSweep" "post \<in> W" "run_payment_watch_tick env post now started rnds (pv_node s) = (new, r)"
  shows "\<exists>es'. provider_run env W r0 es' (s\<lparr>pv_tasks := pv_tasks s @ new, pv_node := r\<rparr>)"
proof -
  define xs where "xs = enumerate 0 (expired_payments now (pv_node s))"
  define r1 where "r1 = fold (\<lambda>(i, rid). expire_payment env (rnds i) rid) xs (pv_node s)"
  let ?es = "hm_values (payment_pending (compute_state r1))"
  have "provider_run env W r0 (es @ [SweepBegin now]) (s\<lparr>pv_sweep := Expiring (map snd xs)\<rparr>)"
    using assms(1) provider_step.sweep_begin [OF assms(2)] by (auto simp: xs_def intro: provider_run.step)
  from expiring_run [OF this, of xs rnds] obtain e1 where "provider_run env W r0 e1 (s\<lparr>pv_sweep := Expiring [], pv_node := r1\<rparr>)"
    by (auto simp: r1_def)
  from provider_run.step [OF this provider_step.sweep_snapshot] have "provider_run env W r0 (e1 @ [SweepSnapshot]) (s\<lparr>pv_sweep := Checking ?es, pv_node := r1\<rparr>)"
    by (simp add: sweep_node_swap)
  moreover have "fold (confirm_staged env post started) ?es (pv_tasks s, r1) = (pv_tasks s @ new, r)"
    using assms(4) tick_fold_tasks [of env post started ?es "pv_tasks s" "[]" r1] by (simp add: run_payment_watch_tick_def Let_def r1_def xs_def)
  ultimately obtain e2 where "provider_run env W r0 e2 (s\<lparr>pv_tasks := pv_tasks s @ new, pv_sweep := Checking [], pv_node := r\<rparr>)"
    using checking_run [of env W r0 _ "s\<lparr>pv_sweep := Checking ?es, pv_node := r1\<rparr>" ?es post started] assms(3) by auto
  from provider_run.step [OF this provider_step.sweep_end] have "provider_run env W r0 (e2 @ [SweepEnd]) (s\<lparr>pv_tasks := pv_tasks s @ new, pv_sweep := NoSweep, pv_node := r\<rparr>)"
    by (simp add: sweep_node_swap)
  moreover have "s\<lparr>pv_tasks := pv_tasks s @ new, pv_sweep := NoSweep, pv_node := r\<rparr> = s\<lparr>pv_tasks := pv_tasks s @ new, pv_node := r\<rparr>"
    using assms(2) by (cases s) simp
  ultimately show ?thesis by auto
qed

lemma expire_all_pending:
  "payment_pending (compute_state (fold (\<lambda>(i, rid). expire_payment env (rnds i) rid) (enumerate n ks) r)) =
     fold hm_remove ks (payment_pending (compute_state r)) \<and>
   payment_watchers (fold (\<lambda>(i, rid). expire_payment env (rnds i) rid) (enumerate n ks) r) = payment_watchers r \<and>
   active_executions (compute_state (fold (\<lambda>(i, rid). expire_payment env (rnds i) rid) (enumerate n ks) r)) = active_executions (compute_state r) \<and>
   ts_compute_capacity (transport (fold (\<lambda>(i, rid). expire_payment env (rnds i) rid) (enumerate n ks) r)) = ts_compute_capacity (transport r)"
  by (induction ks arbitrary: n r) (simp_all add: expire_slots)

lemma wf_remove_all: "hm_wf m \<Longrightarrow> hm_wf (fold hm_remove ks m)"
  by (induction ks arbitrary: m) simp_all

text \<open>What it starts was staged at its beginning, and confirmed.\<close>

definition sweep_ok ::
  "('sc, 'sk, 'v, 'md, 'st) node_env \<Rightarrow> 'v wallet \<Rightarrow> ('sc, 'sk) NodeRunner \<Rightarrow> compute_task list \<times> ('sc, 'sk) NodeRunner \<Rightarrow> bool" where
  "sweep_ok env post r0 = (\<lambda>(tasks, r). payment_watchers r = payment_watchers r0 \<and>
     (\<forall>k e. hm_get (payment_pending (compute_state r)) k = Some e \<longrightarrow> hm_get (payment_pending (compute_state r0)) k = Some e) \<and>
     (\<forall>q. ExecuteTask q \<in> set tasks \<longrightarrow> (\<exists>e. hm_get (payment_pending (compute_state r0)) (creq_request_id q) = Some e \<and> pp_request e = q \<and>
        watcher_confirms env post (payment_watchers r0) e)))"

lemma sweep_expire_all:
  assumes "sweep_ok env post r0 ([], r)"
  shows "sweep_ok env post r0 ([], fold (\<lambda>(i, rid). expire_payment env (rnds i) rid) xs r)"
  using assms
proof (induction xs arbitrary: r)
  case (Cons x xs)
  obtain i rid where x: "x = (i, rid)" by fastforce
  have "sweep_ok env post r0 ([], expire_payment env (rnds i) rid r)"
    using Cons.prems unfolding sweep_ok_def by (simp add: expire_slots)
  then show ?case using Cons.IH by (simp add: x)
qed simp

lemma sweep_confirm:
  assumes "sweep_ok env post r0 (tasks, r)" "hm_get (payment_pending (compute_state r0)) (pp_request_id e) = Some e" "creq_request_id (pp_request e) = pp_request_id e"
  shows "sweep_ok env post r0 (confirm_staged env post now e (tasks, r))"
proof (cases "watcher_confirms env post (payment_watchers r) e \<and> hm_get (payment_pending (compute_state r)) (pp_request_id e) \<noteq> None")
  case True
  have old: "hm_get (payment_pending (compute_state r0)) k = Some x" if "hm_get (payment_pending (compute_state r)) k = Some x" for k x
    using assms(1) that by (simp add: sweep_ok_def)
  obtain x where x: "hm_get (payment_pending (compute_state r)) (pp_request_id e) = Some x" using True by blast
  then have "x = e" using old [OF x] assms(2) by simp
  with x have e: "hm_get (payment_pending (compute_state r)) (pp_request_id e) = Some e" "watcher_confirms env post (payment_watchers r0) e"
    using True assms(1) by (simp_all add: sweep_ok_def)
  obtain new r' where s: "settle_staged now e (with_compute (payment_pending_update (hm_remove (pp_request_id e))) r) = (new, r')" by fastforce
  then have c: "confirm_staged env post now e (tasks, r) = (tasks @ new, r')" using True e(1) by (simp add: confirm_staged_def take_staged_def)
  have "set new \<subseteq> {ExecuteTask (pp_request e)}" "payment_watchers r' = payment_watchers r"
    "hm_get (payment_pending (compute_state r')) k \<in> {None, hm_get (payment_pending (compute_state r)) k}" for k
    using s e(1) by (auto simp: settle_staged_def split: if_splits)
  then have r': "set new \<subseteq> {ExecuteTask (pp_request e)}" "payment_watchers r' = payment_watchers r"
    "\<And>k x. hm_get (payment_pending (compute_state r')) k = Some x \<Longrightarrow> hm_get (payment_pending (compute_state r0)) k = Some x"
    using old by (simp, simp, metis empty_iff insert_iff option.distinct(1))
  show ?thesis using assms(1) r' e(2) assms(2,3) unfolding c sweep_ok_def prod.case by auto
next
  case False
  then have "\<exists>r'. confirm_staged env post now e (tasks, r) = (tasks, r') \<and> payment_watchers r' = payment_watchers r \<and>
      (\<forall>k x. hm_get (payment_pending (compute_state r')) k = Some x \<longrightarrow> hm_get (payment_pending (compute_state r)) k = Some x)"
    by (auto simp: confirm_staged_def take_staged_def)
  then show ?thesis using assms(1) by (auto simp: sweep_ok_def)
qed

lemma sweep:
  assumes "slots_ok c cap t (compute_state r)"
  shows "sweep_ok env post r (run_payment_watch_tick env post now started rnds r)"
proof -
  define r1 where "r1 = fold (\<lambda>(i, rid). expire_payment env (rnds i) rid) (enumerate 0 (expired_payments now r)) r"
  have r1: "sweep_ok env post r ([], r1)"
    unfolding r1_def by (rule sweep_expire_all) (simp add: sweep_ok_def)
  have wf: "hm_wf (payment_pending (compute_state r1))"
    using assms expire_all_pending [of env rnds 0 "expired_payments now r" r] by (simp add: r1_def slots_ok_def wf_remove_all)
  have "sweep_ok env post r (fold (confirm_staged env post started) (hm_values (payment_pending (compute_state r1))) ([], r1))"
  proof (rule fold_invariant [where Q = "\<lambda>e. hm_get (payment_pending (compute_state r)) (pp_request_id e) = Some e \<and> creq_request_id (pp_request e) = pp_request_id e"])
    fix e assume "e \<in> set (hm_values (payment_pending (compute_state r1)))"
    then obtain k where "(k, e) \<in> set (payment_pending (compute_state r1))" by (auto simp: hm_values_def)
    then have g: "hm_get (payment_pending (compute_state r)) k = Some e" using wf r1 by (simp add: hm_wf_get_iff sweep_ok_def)
    then have "entry_ok c k e" using assms by (simp add: slots_ok_def)
    then show "hm_get (payment_pending (compute_state r)) (pp_request_id e) = Some e \<and> creq_request_id (pp_request e) = pp_request_id e"
      using g by (simp add: entry_ok_def)
  next
    fix e x
    assume "hm_get (payment_pending (compute_state r)) (pp_request_id e) = Some e \<and> creq_request_id (pp_request e) = pp_request_id e" "sweep_ok env post r x"
    then show "sweep_ok env post r (confirm_staged env post started e x)" by (cases x) (simp add: sweep_confirm)
  qed (rule r1)
  then show ?thesis by (simp add: run_payment_watch_tick_def Let_def r1_def)
qed

text \<open>When a sweep executes an entry: it has not timed out and its watcher reports enough confirmations.\<close>

definition timed_out :: "NodeConfig \<Rightarrow> u64 \<Rightarrow> PendingPayment \<Rightarrow> bool" where
  "timed_out c now e \<longleftrightarrow> payment_timeout_secs (blockchain_config (compute_config c)) < saturating_sub now (pp_sent_at e)"

text \<open>With room for everything that is staged, a step of the sweep keeps it so.\<close>

definition booked_within :: "('sc, 'sk) NodeRunner \<Rightarrow> bool" where
  "booked_within r \<longleftrightarrow> hm_wf (payment_pending (compute_state r)) \<and>
     hm_len (active_executions (compute_state r)) + hm_len (payment_pending (compute_state r)) \<le> unat (ts_compute_capacity (transport r))"

lemma confirm_within:
  assumes "booked_within r" "hm_get (payment_pending (compute_state r)) (pp_request_id e) = Some e"
  obtains r' where "confirm_staged env post now e (tasks, r) =
      ((if watcher_confirms env post (payment_watchers r) e then tasks @ [ExecuteTask (pp_request e)] else tasks), r')"
    "booked_within r'" "payment_watchers r' = payment_watchers r"
    "\<And>k. k \<noteq> pp_request_id e \<Longrightarrow> hm_get (payment_pending (compute_state r')) k = hm_get (payment_pending (compute_state r)) k"
proof (cases "watcher_confirms env post (payment_watchers r) e")
  case True
  have c: "hm_contains (payment_pending (compute_state r)) (pp_request_id e)" using assms(2) by (simp add: hm_contains_def)
  then have pos: "0 < hm_len (payment_pending (compute_state r))" by (auto simp: hm_contains_def hm_len_def hm_get_def)
  define r' where "r' = with_compute (active_executions_update (hm_insert (pp_request_id e) (execution_of now (pp_request e)\<lparr>ce_request_id := pp_request_id e\<rparr>)))
    (with_compute (payment_pending_update (hm_remove (pp_request_id e))) r)"
  have "confirm_staged env post now e (tasks, r) = (tasks @ [ExecuteTask (pp_request e)], r')"
    using True assms pos by (simp add: confirm_staged_def take_staged_def settle_staged_def r'_def booked_within_def)
  moreover have "booked_within r'"
    using assms(1) c pos hm_len_insert_le [of "pp_request_id e" "execution_of now (pp_request e)\<lparr>ce_request_id := pp_request_id e\<rparr>" "active_executions (compute_state r)"]
    by (auto simp: booked_within_def r'_def hm_len_remove)
  moreover have "payment_watchers r' = payment_watchers r"
    "\<And>k. k \<noteq> pp_request_id e \<Longrightarrow> hm_get (payment_pending (compute_state r')) k = hm_get (payment_pending (compute_state r)) k"
    by (simp_all add: r'_def)
  ultimately show thesis using that True by simp
qed (use that [of r] assms in \<open>simp add: confirm_staged_def take_staged_def\<close>)

lemma sweep_all:
  assumes "booked_within r" "distinct (map pp_request_id es)" "\<forall>e\<in>set es. hm_get (payment_pending (compute_state r)) (pp_request_id e) = Some e"
  shows "fst (fold (confirm_staged env post now) es (tasks, r)) = tasks @ map (\<lambda>e. ExecuteTask (pp_request e)) (filter (watcher_confirms env post (payment_watchers r)) es)"
  using assms
proof (induction es arbitrary: tasks r)
  case (Cons e es)
  have "hm_get (payment_pending (compute_state r)) (pp_request_id e) = Some e" using Cons.prems(3) by simp
  then obtain r' where c: "confirm_staged env post now e (tasks, r) =
      ((if watcher_confirms env post (payment_watchers r) e then tasks @ [ExecuteTask (pp_request e)] else tasks), r')"
    and r': "booked_within r'" "payment_watchers r' = payment_watchers r"
      "\<And>k. k \<noteq> pp_request_id e \<Longrightarrow> hm_get (payment_pending (compute_state r')) k = hm_get (payment_pending (compute_state r)) k"
    using confirm_within [OF Cons.prems(1)] by metis
  have "pp_request_id x \<noteq> pp_request_id e" if "x \<in> set es" for x using Cons.prems(2) that by (metis distinct.simps(2) image_eqI list.set_map list.simps(9))
  then have "\<forall>e\<in>set es. hm_get (payment_pending (compute_state r')) (pp_request_id e) = Some e" using r'(3) Cons.prems(3) by simp
  with Cons.IH [OF r'(1)] Cons.prems(2) r'(2) show ?case by (simp add: c)
qed simp

lemma remove_all_keys: "fold hm_remove ks m = filter (\<lambda>(k, v). k \<notin> set ks) m"
proof (induction ks arbitrary: m)
  case (Cons k ks)
  have "hm_remove k m = filter (\<lambda>(k', v). k' \<noteq> k) m" by (auto simp: hm_remove_def AList.delete_eq intro!: filter_cong)
  then show ?case using Cons [of "hm_remove k m"] by (auto intro!: filter_cong)
qed simp

lemma not_expired:
  assumes "hm_wf m"
  shows "filter (\<lambda>(k, v). k \<notin> set (map fst (filter (\<lambda>(_, v). P v) m))) m = filter (\<lambda>(_, v). \<not> P v) m"
proof (rule filter_cong [OF refl])
  fix x assume x: "x \<in> set m"
  obtain k w where kw: "x = (k, w)" by (cases x)
  then have kw': "hm_get m k = Some w" using assms x by (simp add: hm_wf_get_iff)
  have same: "v = w" if "(k, v) \<in> set m" for v
  proof -
    have "hm_get m k = Some v" using assms that by (simp add: hm_wf_get_iff)
    then show ?thesis using kw' by simp
  qed
  have "k \<in> set (map fst (filter (\<lambda>(_, v). P v) m)) \<longleftrightarrow> P w"
  proof
    assume "k \<in> set (map fst (filter (\<lambda>(_, v). P v) m))"
    then obtain v where "(k, v) \<in> set m" "P v" by auto
    then show "P w" using same by blast
  next
    assume "P w"
    then have "(k, w) \<in> set (filter (\<lambda>(_, v). P v) m)" using x kw by simp
    then show "k \<in> set (map fst (filter (\<lambda>(_, v). P v) m))" by (metis fst_conv image_eqI list.set_map)
  qed
  then show "(case x of (k, v) \<Rightarrow> k \<notin> set (map fst (filter (\<lambda>(_, v). P v) m))) = (case x of (_, v) \<Rightarrow> \<not> P v)" by (simp add: kw)
qed

text \<open>A sweep of the payment watcher that is not interrupted, on a provider whose staged and executing requests fit its capacity, starts exactly the
  staged requests that have not timed out and for which the watcher of the quoted currency reports at least the required confirmations, each once and in the order of
  the table: the capacity check holds back no paid request.\<close>

theorem payment_sweep_exact:
  assumes "slots_ok (config r) cap t (compute_state r)" "booked_within r"
  shows "fst (run_payment_watch_tick env post now started rnds r) =
    map (\<lambda>(_, e). ExecuteTask (pp_request e))
      (filter (\<lambda>(_, e). \<not> timed_out (config r) now e \<and> watcher_confirms env post (payment_watchers r) e) (payment_pending (compute_state r)))"
proof -
  define m where "m = payment_pending (compute_state r)"
  define r1 where "r1 = fold (\<lambda>(i, rid). expire_payment env (rnds i) rid) (enumerate 0 (expired_payments now r)) r"
  note all = expire_all_pending [of env rnds 0 "expired_payments now r" r]
  have wf: "hm_wf m" using assms(2) by (simp add: booked_within_def m_def)
  have p1: "payment_pending (compute_state r1) = filter (\<lambda>(_, e). \<not> timed_out (config r) now e) m" "payment_watchers r1 = payment_watchers r"
    using all not_expired [OF wf, of "timed_out (config r) now"]
    by (simp_all add: r1_def remove_all_keys m_def [symmetric] expired_payments_def timed_out_def)
  have wf1: "hm_wf (payment_pending (compute_state r1))" using all wf by (simp add: r1_def m_def wf_remove_all)
  have "hm_len (payment_pending (compute_state r1)) \<le> hm_len m" unfolding p1(1) by (simp add: hm_len_def)
  then have booked_within: "booked_within r1" using assms(2) wf1 all by (simp add: booked_within_def r1_def m_def)
  define es where "es = hm_values (payment_pending (compute_state r1))"
  have ids: "pp_request_id e = k" if "(k, e) \<in> set (payment_pending (compute_state r1))" for k e
    using that assms(1) wf by (auto simp: p1(1) slots_ok_def m_def entry_ok_def hm_wf_get_iff)
  then have "map pp_request_id es = map fst (payment_pending (compute_state r1))" by (auto simp: es_def hm_values_def)
  then have "distinct (map pp_request_id es)" using wf1 by (simp add: hm_wf_def)
  moreover have "\<forall>e\<in>set es. hm_get (payment_pending (compute_state r1)) (pp_request_id e) = Some e"
    using ids wf1 by (auto simp: es_def hm_values_def hm_wf_get_iff)
  ultimately have "fst (fold (confirm_staged env post started) es ([], r1)) =
      map (\<lambda>e. ExecuteTask (pp_request e)) (filter (watcher_confirms env post (payment_watchers r1)) es)"
    using sweep_all [OF booked_within, of es env post started "[]"] by simp
  moreover have "run_payment_watch_tick env post now started rnds r = fold (confirm_staged env post started) es ([], r1)"
    by (simp add: run_payment_watch_tick_def Let_def r1_def es_def)
  moreover have "map (\<lambda>e. ExecuteTask (pp_request e)) (filter (watcher_confirms env post (payment_watchers r1)) es) =
      map (\<lambda>(_, e). ExecuteTask (pp_request e)) (filter (\<lambda>(_, e). \<not> timed_out (config r) now e \<and> watcher_confirms env post (payment_watchers r) e) m)"
    by (simp add: es_def p1 hm_values_def filter_map comp_def split_beta' conj_commute)
  ultimately show ?thesis by (simp add: m_def)
qed

section \<open>Only paid executions\<close>

text \<open>The wallet lists no transfer to the empty address.\<close>

definition no_unnamed_transfers :: "'v json_value \<Rightarrow> 'v wallet \<Rightarrow> bool" where
  "no_unnamed_transfers jv post \<longleftrightarrow> (\<forall>url. \<forall>t\<in>set (transfers_of jv post url []). jv_as_str jv (jv_index jv t ''address'') \<noteq> Some [])"

text \<open>A quote at the configured price was paid: the wallet lists an incoming transfer to its address, of at least the worst case price of an execution and with at
  least the required number of confirmations.\<close>

definition quote_paid :: "('sc, 'sk, 'v, 'md, 'st) node_env \<Rightarrow> 'v wallet \<Rightarrow> NodeConfig \<Rightarrow> PaymentRequest \<Rightarrow> bool" where
  "quote_paid env post c quote \<longleftrightarrow>
     (let jv = ne_json_value env; due = amount_due (pricing (compute_config c)) (max_cpu_ms (compute_config c)) (ucast (max_memory_mb (compute_config c))) in
      \<exists>url. \<exists>t\<in>set (transfers_of jv post url (preq_address quote)). pays jv (preq_address quote) due t \<and>
        pricing_required_confirmations (pricing (compute_config c))
          \<le> ucast (case jv_as_u64 jv (jv_index jv t ''confirmations'') of Some n \<Rightarrow> n | None \<Rightarrow> 0))"

lemma confirms_paid:
  assumes "watcher_confirms env post watchers e" "entry_ok c k e" "no_unnamed_transfers (ne_json_value env) post"
  shows "quote_paid env post c (pp_payment e)" "\<exists>w a. pp_payment e = quote_for c w k a"
proof -
  obtain w n where g: "check_payment (ne_json_value env) post w (preq_address (pp_payment e)) (preq_amount (pp_payment e)) (claimed_tx_hash e) = Inr (Some n)"
      "preq_required_confirmations (pp_payment e) \<le> n"
    using assms(1) by (auto simp: watcher_confirms_def split: option.splits sum.splits)
  obtain url t where t: "t \<in> set (transfers_of (ne_json_value env) post url (preq_address (pp_payment e)))"
      "pays (ne_json_value env) (preq_address (pp_payment e)) (preq_amount (pp_payment e)) t"
      "n = ucast (case jv_as_u64 (ne_json_value env) (jv_index (ne_json_value env) t ''confirmations'') of Some n \<Rightarrow> n | None \<Rightarrow> 0)"
    using check_payment_monero [OF g(1)] by blast
  have "preq_address (pp_payment e) \<noteq> []" using t(1,2) assms(3) by (auto simp: no_unnamed_transfers_def pays_def)
  then show q: "\<exists>w a. pp_payment e = quote_for c w k a" using assms(2) by (auto simp: entry_ok_def placeholder_quote_def)
  then have "preq_amount (pp_payment e) = amount_due (pricing (compute_config c)) (max_cpu_ms (compute_config c)) (ucast (max_memory_mb (compute_config c)))"
      "preq_required_confirmations (pp_payment e) = pricing_required_confirmations (pricing (compute_config c))"
    by (auto simp: quote_for_def)
  then show "quote_paid env post c (pp_payment e)" using t g(2) unfolding quote_paid_def Let_def by auto
qed

lemma spawned_by_sweep:
  assumes "provider_step env W e s s'" "provider_inv env W c cap ids s" "\<not> is_free (pricing (compute_config c))"
    "ExecuteTask q \<in> set (pv_tasks s')" "ExecuteTask q \<notin> set (pv_tasks s)"
  shows "\<exists>now entry staged entries. e = SweepSettle now \<and> pv_sweep s = Taken entry staged entries \<and> q = pp_request staged"
  using assms(1)
proof (cases rule: provider_step.cases)
  case (request now rnd x new r)
  have "config (pv_node s) = c" using assms(2) by (simp add: provider_inv_def Let_def)
  then have "ExecuteTask q \<notin> set new" using request(3) assms(3) by (auto simp: handle_compute_request_def split: if_splits)
  then show ?thesis using request assms by simp
next
  case (sweep_settle entry staged entries now new r)
  then show ?thesis using assms(4,5) by (auto simp: settle_staged_def split: if_splits)
qed (use assms set_remove1_subset in \<open>fastforce+\<close>)

text \<open>C2 (safety). A provider that charges starts an execution only in a sweep of the payment watcher, whatever runs between the steps of the sweep, and only for a request that
  was taken from the table because the wallet lists an incoming transfer to the address quoted for its request id, of at least the worst case price of an execution and with
  at least the required number of confirmations. A sweep that is not interrupted starts only requests that are staged when it begins, each with such a transfer to the
  address quoted for that very request.\<close>

theorem paid_execution_is_paid:
  assumes "provider_run env W r0 es s" "idle_provider r0" "\<not> is_free (pricing (compute_config (config r0)))"
    "\<forall>post\<in>W. no_unnamed_transfers (ne_json_value env) post"
  shows "(\<forall>e s' q. provider_step env W e s s' \<and> ExecuteTask q \<in> set (pv_tasks s') \<and> ExecuteTask q \<notin> set (pv_tasks s) \<longrightarrow>
      (\<exists>now entry staged entries. e = SweepSettle now \<and> pv_sweep s = Taken entry staged entries \<and> pp_request staged = q \<and>
         (\<exists>w a. pp_payment entry = quote_for (config r0) w (creq_request_id q) a) \<and> (\<exists>post\<in>W. quote_paid env post (config r0) (pp_payment entry)))) \<and>
    (\<forall>post now started rnds q. post \<in> W \<and> ExecuteTask q \<in> set (fst (run_payment_watch_tick env post now started rnds (pv_node s))) \<longrightarrow>
      (\<exists>entry w a. hm_get (payment_pending (compute_state (pv_node s))) (creq_request_id q) = Some entry \<and> pp_request entry = q \<and>
         pp_payment entry = quote_for (config r0) w (creq_request_id q) a \<and> quote_paid env post (config r0) (pp_payment entry)))"
proof (intro conjI allI impI)
  note inv = provider_inv_run [OF assms(1, 2)]
  fix e s' q
  assume a: "provider_step env W e s s' \<and> ExecuteTask q \<in> set (pv_tasks s') \<and> ExecuteTask q \<notin> set (pv_tasks s)"
  then obtain now entry staged entries where t: "e = SweepSettle now" "pv_sweep s = Taken entry staged entries" "q = pp_request staged"
    using spawned_by_sweep [OF _ inv assms(3)] by blast
  have i: "entry_ok (config r0) (pp_request_id entry) entry" "entry_ok (config r0) (pp_request_id staged) staged" "pp_request_id entry = pp_request_id staged"
      "\<exists>post\<in>W. \<exists>watchers. watcher_confirms env post watchers entry"
    using inv t(2) by (auto simp: provider_inv_def Let_def)
  then have id: "pp_request_id entry = creq_request_id q" by (simp add: entry_ok_def t(3))
  obtain post watchers where "post \<in> W" "watcher_confirms env post watchers entry" using i(4) by blast
  with confirms_paid [OF _ i(1)] assms(4) have "(\<exists>w a. pp_payment entry = quote_for (config r0) w (creq_request_id q) a) \<and> (\<exists>post\<in>W. quote_paid env post (config r0) (pp_payment entry))"
    unfolding id by blast
  with t show "\<exists>now entry staged entries. e = SweepSettle now \<and> pv_sweep s = Taken entry staged entries \<and> pp_request staged = q \<and>
      (\<exists>w a. pp_payment entry = quote_for (config r0) w (creq_request_id q) a) \<and> (\<exists>post\<in>W. quote_paid env post (config r0) (pp_payment entry))" by blast
next
  note inv = provider_inv_run [OF assms(1, 2)]
  fix post now started rnds q
  assume a: "post \<in> W \<and> ExecuteTask q \<in> set (fst (run_payment_watch_tick env post now started rnds (pv_node s)))"
  have slots: "slots_ok (config r0) (unat (ts_compute_capacity (transport r0))) (length (in_transit (pv_sweep s))) (compute_state (pv_node s))"
    using inv by (simp add: provider_inv_def Let_def)
  obtain entry where e: "hm_get (payment_pending (compute_state (pv_node s))) (creq_request_id q) = Some entry" "pp_request entry = q"
      "watcher_confirms env post (payment_watchers (pv_node s)) entry"
    using sweep [OF slots, of env post now started rnds] a by (auto simp: sweep_ok_def split: prod.splits)
  have "entry_ok (config r0) (creq_request_id q) entry" using slots e(1) by (simp add: slots_ok_def)
  with confirms_paid [OF e(3) this] a assms(4) e(1,2)
  show "\<exists>entry w a. hm_get (payment_pending (compute_state (pv_node s))) (creq_request_id q) = Some entry \<and> pp_request entry = q \<and>
      pp_payment entry = quote_for (config r0) w (creq_request_id q) a \<and> quote_paid env post (config r0) (pp_payment entry)" by blast
qed

section \<open>A paid execution\<close>

text \<open>A wallet whose answers are lists of transfers: address, amount, confirmations.\<close>

definition demo_json :: "(bytes \<times> u64 \<times> u64) list json_value" where
  "demo_json = \<lparr>jv_get = (\<lambda>_ _. None),
     jv_index = (\<lambda>v key. if key = ''amount'' then map (\<lambda>(a, n, c). ([], n, 0)) v
                          else if key = ''confirmations'' then map (\<lambda>(a, n, c). ([], c, 0)) v else v),
     jv_as_str = (\<lambda>v. Some (fst (hd v))), jv_as_array = (\<lambda>v. Some (map (\<lambda>t. [t]) v)), jv_as_u64 = (\<lambda>v. Some (fst (snd (hd v)))),
     jv_display = (\<lambda>_. [])\<rparr>"

definition demo_wallet :: "(bytes \<times> u64 \<times> u64) list wallet" where
  "demo_wallet url call = Inr [([7], 100, 3), ([9, 9], 50, 2)]"

definition demo_wasm :: "(unit, unit) wasm_runtime" where
  "demo_wasm = \<lparr>wr_engine = Inl [], wr_module = (\<lambda>_. Inl []), wr_store = (\<lambda>_. ()), wr_set_fuel = (\<lambda>_ _. Inl []), wr_instance = (\<lambda>_ _. Inl []),
     wr_has_process = (\<lambda>_. False), wr_has_memory = (\<lambda>_. False), wr_memory = (\<lambda>_. []), wr_grow = (\<lambda>_ _. None), wr_write = (\<lambda>_ _ _. Inl []),
     wr_call = (\<lambda>_ _ _. (Inl OutOfFuel, 0, ())), wr_read_error = [], wr_limiter = (\<lambda>_. \<lparr>max_memory_bytes = 0, peak_memory = 0\<rparr>)\<rparr>"

definition demo_node_env :: "(u8, nat, (bytes \<times> u64 \<times> u64) list, unit, unit) node_env" where
  "demo_node_env = \<lparr>ne_transport = demo_transport, ne_json_value = demo_json, ne_wasm = demo_wasm, ne_rs = demo_rs, ne_manifest = demo_js,
     proposal_of_json = (\<lambda>_. None), accept_of_json = (\<lambda>_. None), reject_of_json = (\<lambda>_. None), commit_of_json = (\<lambda>_. None),
     abort_of_json = (\<lambda>_. None), gossip_of_json = (\<lambda>_. None), prepayment_of_json = (\<lambda>_. None), reconciliation_of_json = (\<lambda>_. None),
     entries_json = (\<lambda>_. [])\<rparr>"

definition demo_config :: NodeConfig where
  "demo_config = NodeConfig_default\<lparr>compute_config := ComputeConfig_default\<lparr>cc_enabled := True, pricing := ComputePricing_default\<lparr>price_per_cpu_sec := 10\<rparr>\<rparr>\<rparr>"

definition demo_runner :: "(u8, nat) NodeRunner" where
  "demo_runner = NodeRunner_new demo_node_env 0 [] [] 0 demo_config (replicate 16 3) (mix_node (demo_peer 3))"

definition demo_request :: ComputeRequest where
  "demo_request = demo_compute_request\<lparr>creq_currency := 0, creq_return_route := \<lparr>rr_hops = [], rr_destination = []\<rparr>\<rparr>"

definition demo_staged :: "PaymentRequest \<Rightarrow> (u8, nat) NodeRunner" where
  "demo_staged p = with_compute (payment_pending_update (\<lambda>_. [(creq_request_id demo_request,
     \<lparr>pp_request_id = creq_request_id demo_request, pp_request = demo_request, pp_payment = p, pp_sent_at = 100, claimed_tx_hash = None\<rparr>)])) demo_runner"

abbreviation demo_quote :: PaymentRequest where
  "demo_quote \<equiv> quote_for demo_config (MoneroWatcher (monero_rpc_url BlockchainConfig_default)) (creq_request_id demo_request) [9, 9]"

abbreviation demo_rnd :: "nat \<Rightarrow> u8 PacketRandom" where "demo_rnd \<equiv> (\<lambda>_. demo_random 2)"

lemma demo_runner_fields:
  "compute_state demo_runner = ComputeState_default 0" "config demo_runner = demo_config" "ts_compute_enabled (transport demo_runner)"
  "ts_compute_capacity (transport demo_runner) = 4" "payment_watchers demo_runner = [(0, MoneroWatcher (monero_rpc_url BlockchainConfig_default))]"
  "routing_table (transport demo_runner) = RoutingTable_new (replicate 16 3)"
  by (simp_all add: demo_runner_def NodeRunner_new_def Let_def demo_config_def NodeConfig_default_def ComputeConfig_default_def
        ComputePricing_default_def create_transport_state_def)

lemma demo_paid: "\<not> is_free (pricing (compute_config demo_config))" "idle_provider demo_runner"
  by (simp_all add: demo_config_def NodeConfig_default_def ComputeConfig_default_def is_free_def idle_provider_def demo_runner_fields ComputeState_default_def)

lemma demo_accepts_monero: "accepts (pricing (compute_config demo_config)) Monero"
  by (simp add: accepts_def demo_config_def NodeConfig_default_def ComputeConfig_default_def ComputePricing_default_def)

lemma demo_quote_step:
  "begin_paid_execution demo_node_env 100 demo_rnd demo_request demo_runner =
     (Some (MoneroWatcher (monero_rpc_url BlockchainConfig_default)), demo_staged (placeholder_quote (creq_request_id demo_request)))"
  by (simp add: begin_paid_execution_def reserve_payment_slot_def demo_runner_fields demo_accepts_monero demo_request_def Currency_from_byte_def
        ComputeState_default_def hm_contains_def hm_len_def demo_staged_def with_compute_def Let_def)

lemma demo_address_step:
  "finish_paid_execution demo_node_env 100 demo_rnd demo_request (MoneroWatcher (monero_rpc_url BlockchainConfig_default)) (Inr [9, 9])
     (demo_staged (placeholder_quote (creq_request_id demo_request))) = demo_staged demo_quote"
  by (simp add: finish_paid_execution_def demo_staged_def hm_contains_def hm_modify_def demo_runner_fields Let_def
        send_payment_request_def serialize_payment_request_def fail_if_def quote_for_def MAX_PAYMENT_ADDRESS_SIZE_def
        create_hybrid_payload_packets_def effective_route_def demo_request_def to_sphinx_route_def hybrid_kem_map_def table_kem_lookup_def
        RoutingTable_new_def) (simp add: with_compute_def comp_def hm_modify_def)

abbreviation demo_run :: "(u8, (bytes \<times> u64 \<times> u64) list) provider_event list \<Rightarrow> (u8, nat) provider \<Rightarrow> bool" where
  "demo_run \<equiv> provider_run demo_node_env {demo_wallet} demo_runner"

lemma demo_reached:
  "demo_run [Request 100 demo_rnd demo_request, Quote 100 demo_rnd demo_request,
      Address 100 demo_rnd demo_request (MoneroWatcher (monero_rpc_url BlockchainConfig_default)) (Inr [9, 9])]
     \<lparr>pv_tasks = [], pv_quotes = [], pv_sweep = NoSweep, pv_node = demo_staged demo_quote\<rparr>"
proof -
  let ?w = "MoneroWatcher (monero_rpc_url BlockchainConfig_default)" and ?step = "provider_step demo_node_env {demo_wallet}"
  let ?s0 = "\<lparr>pv_tasks = [], pv_quotes = [], pv_sweep = NoSweep, pv_node = demo_runner\<rparr>"
  let ?s1 = "\<lparr>pv_tasks = [QuoteTask demo_request], pv_quotes = [], pv_sweep = NoSweep, pv_node = demo_runner\<rparr>"
  let ?s2 = "\<lparr>pv_tasks = [], pv_quotes = [(demo_request, ?w)], pv_sweep = NoSweep, pv_node = demo_staged (placeholder_quote (creq_request_id demo_request))\<rparr>"
  have "handle_compute_request demo_node_env 100 demo_rnd demo_request demo_runner = ([QuoteTask demo_request], demo_runner)"
    by (simp add: handle_compute_request_def demo_runner_fields demo_paid)
  then have "?step (Request 100 demo_rnd demo_request) ?s0 ?s1"
    using provider_step.request [of demo_node_env 100 demo_rnd demo_request ?s0] by simp
  moreover have "?step (Quote 100 demo_rnd demo_request) ?s1 ?s2"
    using provider_step.quote [of demo_request ?s1 demo_node_env 100 demo_rnd "Some ?w"] demo_quote_step by simp
  moreover have "?step (Address 100 demo_rnd demo_request ?w (Inr [9, 9])) ?s2
      \<lparr>pv_tasks = [], pv_quotes = [], pv_sweep = NoSweep, pv_node = demo_staged demo_quote\<rparr>"
    using provider_step.address [of demo_request ?w ?s2 demo_node_env "{demo_wallet}" 100 demo_rnd "Inr [9, 9]"] demo_address_step by simp
  ultimately have "demo_run ((([] @ [Request 100 demo_rnd demo_request]) @ [Quote 100 demo_rnd demo_request]) @ [Address 100 demo_rnd demo_request ?w (Inr [9, 9])])
      \<lparr>pv_tasks = [], pv_quotes = [], pv_sweep = NoSweep, pv_node = demo_staged demo_quote\<rparr>"
    by (rule provider_run.step [OF provider_run.step [OF provider_run.step [OF provider_run.start]]])
  then show ?thesis by simp
qed

lemma demo_transfers:
  "transfers_of demo_json demo_wallet url a = [[([7], 100, 3)], [([9, 9], 50, 2)]]" "no_unnamed_transfers demo_json demo_wallet"
proof -
  show "transfers_of demo_json demo_wallet url a = [[([7], 100, 3)], [([9, 9], 50, 2)]]" for url a
    by (simp add: transfers_of_def rpc_call_def demo_json_def demo_wallet_def)
  then show "no_unnamed_transfers demo_json demo_wallet" by (simp add: no_unnamed_transfers_def) (simp add: demo_json_def)
qed

lemma demo_price: "amount_due (pricing (compute_config demo_config)) (max_cpu_ms (compute_config demo_config)) (ucast (max_memory_mb (compute_config demo_config))) = 50"
  by (simp add: demo_config_def NodeConfig_default_def ComputeConfig_default_def ComputePricing_default_def amount_due_def Let_def div_ceil_def
        saturating_mul_def saturating_add_def)

text \<open>The quoted 50 units arrived with two confirmations: the sweep starts the execution.\<close>

lemma demo_confirms: "watcher_confirms demo_node_env demo_wallet (payment_watchers demo_runner)
    \<lparr>pp_request_id = rid, pp_request = q, pp_payment = demo_quote, pp_sent_at = 100, claimed_tx_hash = None\<rparr>"
  by (simp add: watcher_confirms_def demo_runner_fields quote_for_def demo_price demo_node_env_def rpc_call_def)
     (simp add: demo_json_def demo_wallet_def demo_config_def NodeConfig_default_def ComputeConfig_default_def ComputePricing_default_def Let_def)

lemma demo_not_timed_out: "\<not> timed_out demo_config 200 \<lparr>pp_request_id = rid, pp_request = q, pp_payment = x, pp_sent_at = 100, claimed_tx_hash = None\<rparr>"
  by (simp add: timed_out_def demo_config_def NodeConfig_default_def ComputeConfig_default_def BlockchainConfig_default_def saturating_sub_def)

abbreviation demo_entry :: PendingPayment where
  "demo_entry \<equiv> \<lparr>pp_request_id = creq_request_id demo_request, pp_request = demo_request, pp_payment = demo_quote, pp_sent_at = 100, claimed_tx_hash = None\<rparr>"

lemma demo_staged_fields:
  "payment_pending (compute_state (demo_staged demo_quote)) = [(creq_request_id demo_request, demo_entry)]"
  "payment_watchers (demo_staged demo_quote) = payment_watchers demo_runner" "config (demo_staged demo_quote) = demo_config"
  "active_executions (compute_state (demo_staged demo_quote)) = []" "ts_compute_capacity (transport (demo_staged demo_quote)) = 4"
  by (simp_all add: demo_staged_def demo_runner_fields ComputeState_default_def)

text \<open>A sweep up to the point where it has taken the paid request.\<close>

definition demo_taken :: "(u8, nat) provider" where
  "demo_taken = \<lparr>pv_tasks = [], pv_quotes = [], pv_sweep = Taken demo_entry demo_entry [],
     pv_node = with_compute (payment_pending_update (hm_remove (creq_request_id demo_request))) (demo_staged demo_quote)\<rparr>"

lemma demo_taken_reached: "\<exists>es. demo_run es demo_taken \<and> request_ids es = [creq_request_id demo_request]"
proof -
  let ?s3 = "\<lparr>pv_tasks = [], pv_quotes = [], pv_sweep = NoSweep, pv_node = demo_staged demo_quote\<rparr>" and ?step = "provider_step demo_node_env {demo_wallet}"
  have "expired_payments 200 (demo_staged demo_quote) = []"
    using demo_not_timed_out by (simp add: expired_payments_def demo_staged_fields timed_out_def)
  then have "?step (SweepBegin 200) ?s3 (?s3\<lparr>pv_sweep := Expiring []\<rparr>)"
    using provider_step.sweep_begin [of ?s3 demo_node_env "{demo_wallet}" 200] by simp
  moreover have "?step SweepSnapshot (?s3\<lparr>pv_sweep := Expiring []\<rparr>) (?s3\<lparr>pv_sweep := Checking [demo_entry]\<rparr>)"
    using provider_step.sweep_snapshot [of "?s3\<lparr>pv_sweep := Expiring []\<rparr>" demo_node_env "{demo_wallet}"] by (simp add: demo_staged_fields hm_values_def)
  moreover have "take_staged demo_node_env demo_wallet demo_entry (demo_staged demo_quote) = (Some demo_entry, pv_node demo_taken)"
    by (simp add: take_staged_def demo_staged_fields demo_confirms demo_taken_def)
  then have "?step (SweepCheck demo_wallet) (?s3\<lparr>pv_sweep := Checking [demo_entry]\<rparr>) demo_taken"
    using provider_step.sweep_check [of "?s3\<lparr>pv_sweep := Checking [demo_entry]\<rparr>" demo_entry "[]" demo_wallet "{demo_wallet}" demo_node_env "Some demo_entry" "pv_node demo_taken"]
    by (simp add: demo_taken_def)
  ultimately have "\<exists>es. demo_run ([Request 100 demo_rnd demo_request, Quote 100 demo_rnd demo_request,
      Address 100 demo_rnd demo_request (MoneroWatcher (monero_rpc_url BlockchainConfig_default)) (Inr [9, 9]), SweepBegin 200, SweepSnapshot, SweepCheck demo_wallet]) demo_taken"
    using provider_run.step [OF provider_run.step [OF provider_run.step [OF demo_reached]]] by simp
  then show ?thesis by (auto simp: request_ids_def)
qed

theorem payment_sweep_exact_witness:
  "fst (run_payment_watch_tick demo_node_env demo_wallet 200 201 (\<lambda>_. demo_rnd) (demo_staged demo_quote)) = [ExecuteTask demo_request]"
proof -
  have "slots_ok (config (demo_staged demo_quote)) 4 0 (compute_state (demo_staged demo_quote))"
    using provider_inv_run [OF demo_reached demo_paid(2)] by (simp add: provider_inv_def Let_def demo_runner_fields demo_staged_fields)
  moreover have "booked_within (demo_staged demo_quote)" by (simp add: booked_within_def demo_staged_fields hm_len_def)
  ultimately show ?thesis
    using payment_sweep_exact [of "demo_staged demo_quote" 4 0 demo_node_env demo_wallet 200 201 "\<lambda>_. demo_rnd"] demo_confirms demo_not_timed_out
    by (simp add: demo_staged_fields)
qed

theorem provider_capacity_kept_witness:
  "\<exists>es. demo_run es demo_taken \<and> distinct (request_ids es) \<and>
     hm_len (active_executions (compute_state (pv_node demo_taken))) + hm_len (payment_pending (compute_state (pv_node demo_taken))) + length (in_transit (pv_sweep demo_taken)) \<le> 5 \<and>
     distinct (running (pv_tasks demo_taken)) \<and> length (running (pv_tasks demo_taken)) \<le> 4"
proof -
  obtain es where es: "demo_run es demo_taken" "request_ids es = [creq_request_id demo_request]" using demo_taken_reached by blast
  with provider_capacity_kept [OF es(1) demo_paid(2)] show ?thesis by (auto simp: demo_runner_fields demo_paid(1))
qed

theorem paid_execution_is_paid_witness:
  "(\<exists>s'. provider_step demo_node_env {demo_wallet} (SweepSettle 201) demo_taken s' \<and> ExecuteTask demo_request \<in> set (pv_tasks s')) \<and>
   quote_paid demo_node_env demo_wallet demo_config demo_quote"
proof -
  obtain es where run: "demo_run es demo_taken" using demo_taken_reached by blast
  have "\<exists>r. settle_staged 201 demo_entry (pv_node demo_taken) = ([ExecuteTask demo_request], r)"
    by (simp add: settle_staged_def demo_taken_def demo_staged_fields hm_len_def)
  then obtain r where "provider_step demo_node_env {demo_wallet} (SweepSettle 201) demo_taken (demo_taken\<lparr>pv_tasks := [ExecuteTask demo_request], pv_sweep := Checking [], pv_node := r\<rparr>)"
    using provider_step.sweep_settle [of demo_taken demo_entry demo_entry "[]" 201] by (fastforce simp: demo_taken_def)
  then obtain s' where s': "provider_step demo_node_env {demo_wallet} (SweepSettle 201) demo_taken s'" "ExecuteTask demo_request \<in> set (pv_tasks s')" by fastforce
  moreover have "ExecuteTask demo_request \<notin> set (pv_tasks demo_taken)" by (simp add: demo_taken_def)
  moreover have "ne_json_value demo_node_env = demo_json" by (simp add: demo_node_env_def)
  ultimately have "\<exists>post\<in>{demo_wallet}. quote_paid demo_node_env post (config demo_runner) (pp_payment demo_entry)"
    using paid_execution_is_paid [THEN conjunct1, OF run demo_paid(2)] demo_transfers(2)
    by (fastforce simp: demo_runner_fields demo_paid(1) demo_taken_def)
  then show ?thesis using s' by (auto simp: demo_runner_fields)
qed

section \<open>Where the provider falls short of its comments\<close>

text \<open>A free provider executes a repeated request again, although its execution is registered only once; the executions it runs
  are therefore not bounded by its capacity.\<close>

lemma free_duplicate_executes_again:
  assumes "ts_compute_enabled (transport r)" "is_free (pricing (compute_config (config r)))"
    "hm_contains (active_executions (compute_state r)) (creq_request_id q)"
  shows "handle_compute_request env now rnd q r = ([ExecuteTask q], r)"
  using assms by (simp add: handle_compute_request_def accept_compute_request_def Let_def)

text \<open>A full table of results loses all of them, not the oldest; and polling a result leaves it in the table.\<close>

lemma full_results_are_cleared:
  assumes "hm_contains (cs_pending_requests (compute_state r)) (cresp_request_id resp)"
    "MAX_COMPLETED_COMPUTE_RESULTS \<le> hm_len (completed_results (compute_state r))"
  shows "completed_results (compute_state (handle_compute_response resp r)) = [(cresp_request_id resp, resp)]"
  using assms by (simp add: handle_compute_response_def Let_def)

end
