(* ===== verification/NodeUpkeep.thy ===== *)
theory NodeUpkeep
  imports NodeCompute
begin

text \<open>
  \<^verbatim>\<open>crates/static-node/src/runner.rs\<close>, what a node does to its storage on its own: caching and reseeding of chunks, the expiry sweep, the
  eviction of cached chunks, its own heartbeat, and the watch a backup keeps on its primary. A sweep is one step; the clock is an argument.
  The results: the capacity counter is the number of stored bytes throughout and the maximum is kept; the eviction loop ends with the
  cache within its limit; a backup starts to serve exactly when its primary was silent for longer than the timeout, and the
  chunks it guards survive every expiry sweep within a lease of its last check.
\<close>

section \<open>Caching and reseeding\<close>

definition chunk_len_of :: "bytes option \<Rightarrow> u64" where
  "chunk_len_of d = (case d of Some bs \<Rightarrow> word_of_nat (length bs) | None \<Rightarrow> 0)"

text \<open>A cached chunk is dropped: from the holder, from the cache, from the counter.\<close>

definition drop_cached :: "ChunkId \<Rightarrow> ('sc, 'sk) NodeRunner \<Rightarrow> ('sc, 'sk) NodeRunner" where
  "drop_cached lru r =
     (let evicted_len = chunk_len_of (holder_get_chunk (chunk_holder (transport r)) lru);
          r = map_transport (\<lambda>t. t\<lparr>chunk_holder := holder_remove_chunk lru (chunk_holder t)\<rparr>) r;
          r = r\<lparr>rotation_state := remove_cache lru (rotation_state r)\<rparr>
      in map_transport (\<lambda>t. t\<lparr>storage_capacity := record_remove evicted_len (storage_capacity t)\<rparr>) r)"

definition add_cached :: "ChunkId \<Rightarrow> bytes \<Rightarrow> u64 \<Rightarrow> ('sc, 'sk) NodeRunner \<Rightarrow> ('sc, 'sk) NodeRunner" where
  "add_cached chunk_id data now r =
     (let r = map_transport (\<lambda>t. t\<lparr>chunk_holder := holder_add_chunk chunk_id data (replicate 32 0) (chunk_holder t)\<rparr>) r;
          r = map_transport (\<lambda>t. t\<lparr>storage_capacity := record_accept (word_of_nat (length data)) (storage_capacity t)\<rparr>) r
      in r\<lparr>rotation_state := record_cache chunk_id now (rotation_state r)\<rparr>)"

definition cache_retrieved_chunk :: "u64 \<Rightarrow> ChunkId \<Rightarrow> bytes \<Rightarrow> ('sc, 'sk) NodeRunner \<Rightarrow> ('sc, 'sk) NodeRunner" where
  "cache_retrieved_chunk now chunk_id data r =
     (if node_mode (config r) \<noteq> Full then r
      else if \<not> enable_caching (rotation_config (config r)) then r
      else if holder_has_chunk (chunk_holder (transport r)) chunk_id then r
      else
        let chunk_len = word_of_nat (length data) in
        if can_accept (storage_capacity (transport r)) chunk_len 0 then add_cached chunk_id data now r
        else if 0 < max_cached_chunks (rotation_config (config r)) then
          (case lru_cached_chunk (rotation_state r) of
             None \<Rightarrow> r
           | Some lru_id \<Rightarrow>
               let r = drop_cached lru_id r in
               if can_accept (storage_capacity (transport r)) chunk_len 0 then add_cached chunk_id data now r else r)
        else r)"

definition store_repaired_chunk ::
  "u64 \<Rightarrow> ContentId \<Rightarrow> ChunkId \<Rightarrow> bytes \<Rightarrow> u64 \<Rightarrow> ('sc, 'sk) NodeRunner \<Rightarrow> bool \<times> ('sc, 'sk) NodeRunner" where
  "store_repaired_chunk now content_id chunk_id data created r =
     (let size' = word_of_nat (length data);
          r = map_transport (\<lambda>t. t\<lparr>storage_capacity := capacity_reconcile (total_bytes (chunk_holder t)) (storage_capacity t)\<rparr>) r
      in if \<not> can_accept (storage_capacity (transport r)) size' 0 then (False, r)
         else
           let r = (if \<not> holder_has_chunk (chunk_holder (transport r)) chunk_id then
                      map_transport (\<lambda>t. t\<lparr>chunk_holder := holder_add_chunk chunk_id data content_id (chunk_holder t),
                                           storage_capacity := record_accept size' (storage_capacity t)\<rparr>) r
                    else r);
               entry = (case hm_get (chunk_metadata r) chunk_id of Some md \<Rightarrow> md | None \<Rightarrow> ChunkMetadata_fresh created)
           in (True, r\<lparr>chunk_metadata := hm_insert chunk_id (refresh now entry) (chunk_metadata r)\<rparr>))"

section \<open>Sweeps\<close>

definition expire_chunk :: "ChunkId \<Rightarrow> ('sc, 'sk) NodeRunner \<Rightarrow> ('sc, 'sk) NodeRunner" where
  "expire_chunk chunk_id r =
     (let chunk_size = chunk_len_of (holder_get_chunk (chunk_holder (transport r)) chunk_id);
          r = map_transport (\<lambda>t. t\<lparr>chunk_holder := holder_remove_chunk chunk_id (chunk_holder t)\<rparr>) r;
          r = with_leases (snd (remove_lease chunk_id (node_leases r))) r
      in map_transport (\<lambda>t. t\<lparr>storage_capacity := record_remove chunk_size (storage_capacity t)\<rparr>) r)"

definition expire_chunks_once :: "u64 \<Rightarrow> ('sc, 'sk) NodeRunner \<Rightarrow> nat \<times> ('sc, 'sk) NodeRunner" where
  "expire_chunks_once now r =
     (let expired = get_expired_chunks (node_leases r) now;
          r = fold expire_chunk expired r
      in (length expired, with_leases (cleanup_nonces now (node_leases r)) r))"

definition reconcile_capacity_once :: "('sc, 'sk) NodeRunner \<Rightarrow> u64 \<times> ('sc, 'sk) NodeRunner" where
  "reconcile_capacity_once r =
     (let actual_bytes = total_bytes (chunk_holder (transport r))
      in (actual_bytes, map_transport (\<lambda>t. t\<lparr>storage_capacity := capacity_reconcile actual_bytes (storage_capacity t)\<rparr>) r))"

lemma min_entry_mem: "min_entry xs = Some e \<Longrightarrow> e \<in> set xs"
  by (induction xs arbitrary: e) (auto split: option.splits if_splits)

lemma lru_shrinks:
  assumes "lru_cached_chunk (rotation_state r) = Some k"
  shows "hm_len (cached_chunks (rotation_state (drop_cached k r))) < hm_len (cached_chunks (rotation_state r))"
proof -
  obtain v where "(k, v) \<in> set (cached_chunks (rotation_state r))"
    using assms min_entry_mem by (force simp: lru_cached_chunk_def)
  then have "length (filter (\<lambda>(k', _). k \<noteq> k') (cached_chunks (rotation_state r))) < length (cached_chunks (rotation_state r))"
    by (intro length_filter_less) auto
  then show ?thesis by (simp add: drop_cached_def Let_def remove_cache_def hm_remove_def hm_len_def AList.delete_eq)
qed

function evict_loop :: "nat \<Rightarrow> ('sc, 'sk) NodeRunner \<Rightarrow> ('sc, 'sk) NodeRunner" where
  "evict_loop max_cached r =
     (if hm_len (cached_chunks (rotation_state r)) \<le> max_cached then r
      else case lru_cached_chunk (rotation_state r) of None \<Rightarrow> r | Some lru \<Rightarrow> evict_loop max_cached (drop_cached lru r))"
  by pat_completeness auto

termination evict_loop
  by (relation "measure (\<lambda>(_, r). hm_len (cached_chunks (rotation_state r)))") (simp_all add: lru_shrinks)

declare evict_loop.simps [simp del]

definition evict_excess_cache :: "nat \<Rightarrow> ('sc, 'sk) NodeRunner \<Rightarrow> ('sc, 'sk) NodeRunner" where
  "evict_excess_cache max_cached r = (if max_cached = 0 then r else evict_loop max_cached r)"

definition renew_chunk :: "u64 \<Rightarrow> ChunkId \<Rightarrow> nat \<times> LeaseManager \<Rightarrow> nat \<times> LeaseManager" where
  "renew_chunk new_expires cid = (\<lambda>(refreshed, mgr).
     if hm_contains (leases mgr) cid
     then (refreshed + 1, mgr\<lparr>leases := hm_modify cid (\<lambda>lease. lease\<lparr>expires_at := new_expires\<rparr>) (leases mgr)\<rparr>)
     else (refreshed, mgr))"

definition heartbeat_tick_once :: "u64 \<Rightarrow> ('sc, 'sk) NodeRunner \<Rightarrow> nat \<times> ('sc, 'sk) NodeRunner" where
  "heartbeat_tick_once now r =
     (let new_expires = now + HB_LEASE_DURATION_SECS;
          owned = hm_values (content_chunks (node_leases r))
      in case fold (fold (renew_chunk new_expires)) owned (0, node_leases r) of
           (refreshed, mgr) \<Rightarrow> (refreshed, with_leases mgr r))"

section \<open>The counter is exact\<close>

definition stored_ok :: "ChunkHolder \<Rightarrow> StorageCapacity \<Rightarrow> bool" where
  "stored_ok h c \<longleftrightarrow> hm_wf (holder_chunks h) \<and> unat (current_bytes c) = held_bytes h \<and>
     unat (current_bytes c) + unat (reserved_bytes c) \<le> unat (max_bytes c) \<and> unat (max_bytes c) < 2 ^ 63"

lemma stored_add:
  assumes "stored_ok h c" "\<not> holder_has_chunk h k" "length data < 2 ^ 63" "can_accept c (word_of_nat (length data)) 0"
  shows "stored_ok (holder_add_chunk k data content h) (record_accept (word_of_nat (length data)) c)"
proof -
  have small: "unat (current_bytes c) + unat (reserved_bytes c) + length data < 2 ^ 64" using assms(1, 3) by (simp add: stored_ok_def)
  then have "fits c (length data)" using can_accept_exact [OF small] assms(4) by blast
  moreover have "unat (current_bytes c + word_of_nat (length data)) = unat (current_bytes c) + length data"
    using small by (subst unat_add_no_wrap) (simp_all add: unat_of_nat)
  ultimately show ?thesis using assms(1) held_add [OF assms(2)]
    by (simp add: stored_ok_def record_accept_def fits_def holder_add_chunk_def)
qed

lemma stored_drop:
  assumes "stored_ok h c"
  shows "stored_ok (holder_remove_chunk k h) (record_remove (chunk_len_of (holder_get_chunk h k)) c)"
proof (cases "holder_get_chunk h k")
  case None
  then have "hm_remove k (holder_chunks h) = holder_chunks h"
    by (simp add: holder_get_chunk_def hm_get_def hm_remove_def map_of_eq_None_iff delete_idem)
  then show ?thesis using assms None
    by (simp add: stored_ok_def chunk_len_of_def record_remove_def holder_remove_chunk_def held_bytes_def)
next
  case (Some data)
  then have sum: "held_bytes (holder_remove_chunk k h) + length data = held_bytes h"
    using sum_remove [of "holder_chunks h" k data length] assms
    by (simp add: stored_ok_def held_bytes_def holder_remove_chunk_def holder_get_chunk_def)
  moreover have "length data < 2 ^ 64" using sum assms by (simp add: stored_ok_def)
  moreover have "hm_wf (holder_chunks (holder_remove_chunk k h))" using assms by (simp add: stored_ok_def holder_remove_chunk_def)
  ultimately show ?thesis using assms Some by (auto simp: stored_ok_def chunk_len_of_def record_remove_def unat_of_nat)
qed

lemma stored_reconcile: "stored_ok h c \<Longrightarrow> stored_ok h (capacity_reconcile (total_bytes h) c)"
  using total_bytes_held [of h] by (simp add: stored_ok_def capacity_reconcile_def)

definition counter_ok :: "('sc, 'sk) NodeRunner \<Rightarrow> bool" where
  "counter_ok r \<longleftrightarrow> stored_ok (chunk_holder (transport r)) (storage_capacity (transport r))"

lemma with_leases_fields [simp]:
  "chunk_holder (transport (with_leases l r)) = chunk_holder (transport r)" "storage_capacity (transport (with_leases l r)) = storage_capacity (transport r)"
  "node_leases (with_leases l r) = l" "rotation_state (with_leases l r) = rotation_state r" "config (with_leases l r) = config r"
  by (simp_all add: with_leases_def node_leases_def)

lemma node_leases_frame [simp]:
  "node_leases (r\<lparr>rotation_state := x\<rparr>) = node_leases r"
  "node_leases (map_transport (\<lambda>t. t\<lparr>chunk_holder := f t\<rparr>) r) = node_leases r"
  "node_leases (map_transport (\<lambda>t. t\<lparr>storage_capacity := g t\<rparr>) r) = node_leases r"
  by (simp_all add: node_leases_def)

lemma drop_cached_ok: "counter_ok r \<Longrightarrow> counter_ok (drop_cached k r)"
  using stored_drop [of "chunk_holder (transport r)" "storage_capacity (transport r)" k]
  by (simp add: counter_ok_def drop_cached_def Let_def)

lemma drop_cached_fields: "config (drop_cached k r) = config r"
    "holder_has_chunk (chunk_holder (transport (drop_cached k r))) i \<Longrightarrow> holder_has_chunk (chunk_holder (transport r)) i"
  by (auto simp: drop_cached_def Let_def holder_has_chunk_def holder_remove_chunk_def hm_contains_def split: if_splits)

lemma add_cached_ok:
  assumes "counter_ok r" "\<not> holder_has_chunk (chunk_holder (transport r)) k" "length data < 2 ^ 63"
    "can_accept (storage_capacity (transport r)) (word_of_nat (length data)) 0"
  shows "counter_ok (add_cached k data now r)"
  using stored_add [OF _ assms(2-4)] assms(1) by (simp add: counter_ok_def add_cached_def Let_def)

lemma cache_ok:
  assumes "counter_ok r" "length data < 2 ^ 63"
  shows "counter_ok (cache_retrieved_chunk now k data r)"
proof -
  have "counter_ok (add_cached k data now (drop_cached i r))"
    if "\<not> holder_has_chunk (chunk_holder (transport r)) k" "can_accept (storage_capacity (transport (drop_cached i r))) (word_of_nat (length data)) 0" for i
    by (rule add_cached_ok) (use that assms drop_cached_ok drop_cached_fields in blast)+
  then show ?thesis using assms add_cached_ok [of r k data] drop_cached_ok
    by (auto simp: cache_retrieved_chunk_def Let_def split: option.splits)
qed

lemma repaired_ok:
  assumes "counter_ok r" "length data < 2 ^ 63"
  shows "counter_ok (snd (store_repaired_chunk now content_id k data created r))"
proof -
  have ok: "stored_ok (chunk_holder (transport r)) (capacity_reconcile (total_bytes (chunk_holder (transport r))) (storage_capacity (transport r)))"
    using assms(1) by (simp add: counter_ok_def stored_reconcile)
  then show ?thesis using stored_add [OF ok _ assms(2)] by (simp add: store_repaired_chunk_def Let_def counter_ok_def)
qed

lemma expire_chunk_ok: "counter_ok r \<Longrightarrow> counter_ok (expire_chunk k r)"
  using stored_drop [of "chunk_holder (transport r)" "storage_capacity (transport r)" k]
  by (simp add: counter_ok_def expire_chunk_def Let_def)

lemma expire_ok: "counter_ok r \<Longrightarrow> counter_ok (snd (expire_chunks_once now r))"
proof -
  assume "counter_ok r"
  then have "counter_ok (fold expire_chunk ks r)" for ks by (induction ks arbitrary: r) (simp_all add: expire_chunk_ok)
  then show ?thesis by (simp add: expire_chunks_once_def Let_def counter_ok_def)
qed

lemma evict_ok: "counter_ok r \<Longrightarrow> counter_ok (evict_loop n r)"
proof (induction n r rule: evict_loop.induct)
  case (1 n r)
  then show ?case by (subst evict_loop.simps) (auto simp: drop_cached_ok split: option.splits)
qed

lemma evict_bound: "hm_len (cached_chunks (rotation_state (evict_loop n r))) \<le> n"
proof (induction n r rule: evict_loop.induct)
  case (1 n r)
  have "hm_len (cached_chunks (rotation_state r)) \<le> n \<or> lru_cached_chunk (rotation_state r) \<noteq> None"
    by (cases "cached_chunks (rotation_state r)") (auto simp: hm_len_def lru_cached_chunk_def split: option.splits)
  then show ?case using 1 by (subst evict_loop.simps) (auto split: option.splits)
qed

datatype upkeep_event =
    CacheChunk u64 ChunkId bytes
  | StoreRepaired u64 ContentId ChunkId bytes u64
  | ExpireChunks u64
  | EvictCache nat
  | ReconcileCapacity

fun upkeep_exec :: "upkeep_event \<Rightarrow> ('sc, 'sk) NodeRunner \<Rightarrow> ('sc, 'sk) NodeRunner" where
  "upkeep_exec (CacheChunk now chunk_id data) r = cache_retrieved_chunk now chunk_id data r"
| "upkeep_exec (StoreRepaired now content_id chunk_id data created) r = snd (store_repaired_chunk now content_id chunk_id data created r)"
| "upkeep_exec (ExpireChunks now) r = snd (expire_chunks_once now r)"
| "upkeep_exec (EvictCache n) r = evict_excess_cache n r"
| "upkeep_exec ReconcileCapacity r = snd (reconcile_capacity_once r)"

fun sized_event :: "upkeep_event \<Rightarrow> bool" where
  "sized_event (CacheChunk now chunk_id data) \<longleftrightarrow> length data < 2 ^ 63"
| "sized_event (StoreRepaired now content_id chunk_id data created) \<longleftrightarrow> length data < 2 ^ 63"
| "sized_event _ \<longleftrightarrow> True"

text \<open>C37 (invariant). While the swaps are quiet, whatever a node caches, reseeds, repairs, lets expire, evicts or reconciles, its capacity counter is exactly the
  number of bytes it holds, and held and reserved bytes stay within the configured maximum. An eviction leaves at most the allowed
  number of cached chunks, unless the limit is zero, which means none.\<close>

theorem storage_counter_exact:
  assumes "counter_ok r" "\<forall>e\<in>set es. sized_event e"
  shows "unat (current_bytes (storage_capacity (transport (fold upkeep_exec es r)))) = held_bytes (chunk_holder (transport (fold upkeep_exec es r))) \<and>
    held_bytes (chunk_holder (transport (fold upkeep_exec es r))) + unat (reserved_bytes (storage_capacity (transport (fold upkeep_exec es r))))
      \<le> unat (max_bytes (storage_capacity (transport (fold upkeep_exec es r)))) \<and>
    (0 < n \<longrightarrow> hm_len (cached_chunks (rotation_state (upkeep_exec (EvictCache n) (fold upkeep_exec es r)))) \<le> n)"
proof -
  have step: "counter_ok (upkeep_exec e r')" if "counter_ok r'" "sized_event e" for e and r' :: "('a, 'b) NodeRunner"
    using that by (cases e) (simp_all add: cache_ok repaired_ok expire_ok evict_ok evict_excess_cache_def reconcile_capacity_once_def Let_def,
        simp add: counter_ok_def stored_reconcile)
  have "counter_ok (fold upkeep_exec es r)"
    by (rule fold_invariant [where Q = sized_event]) (use assms step in auto)
  then show ?thesis by (simp add: counter_ok_def stored_ok_def evict_excess_cache_def evict_bound)
qed

theorem storage_counter_exact_witness:
  "unat (current_bytes (storage_capacity (transport (fold upkeep_exec [CacheChunk 5 [1] [7, 7, 7], EvictCache 1] demo_runner)))) =
     held_bytes (chunk_holder (transport (fold upkeep_exec [CacheChunk 5 [1] [7, 7, 7], EvictCache 1] demo_runner)))"
proof -
  have "counter_ok demo_runner"
    by (simp add: demo_runner_def NodeRunner_new_def Let_def counter_ok_def stored_ok_def create_transport_state_def StorageCapacity_new_def
          ChunkHolder_new_def held_bytes_def hm_values_def demo_config_def NodeConfig_default_def)
  then show ?thesis using storage_counter_exact [of demo_runner "[CacheChunk 5 [1] [7, 7, 7], EvictCache 1]" 1] by simp
qed

section \<open>The backup\<close>

definition register_backup_content :: "u64 \<Rightarrow> ContentId \<Rightarrow> NodeId \<Rightarrow> ChunkId list \<Rightarrow> ('sc, 'sk) NodeRunner \<Rightarrow> ('sc, 'sk) NodeRunner" where
  "register_backup_content now content_id primary ids r =
     r\<lparr>backup_state := (backup_state r)\<lparr>backed_up_content := hm_insert content_id
         \<lparr>bk_content_id = content_id, bk_primary_node_id = Some primary, is_active = False, last_heartbeat = now, bk_chunk_ids = ids\<rparr>
         (backed_up_content (backup_state r))\<rparr>\<rparr>"

definition resolve_primary :: "BackupConfig \<Rightarrow> RoutingTable \<Rightarrow> NodeId option" where
  "resolve_primary c table =
     (case cfg_primary_node_id c of
        Some i \<Rightarrow> Some i
      | None \<Rightarrow>
          (case primary_address c of
             Some addr \<Rightarrow> map_option kn_node_id (find (\<lambda>n. kn_address n = addr) (hm_values (nodes table)))
           | None \<Rightarrow> None))"

definition auto_register :: "u64 \<Rightarrow> ChunkId \<Rightarrow> (ContentId, BackupContentState) hashmap \<Rightarrow> (ContentId, BackupContentState) hashmap" where
  "auto_register now chunk_id m =
     (if \<not> hm_contains m chunk_id then
        hm_insert chunk_id \<lparr>bk_content_id = chunk_id, bk_primary_node_id = None, is_active = False, last_heartbeat = now, bk_chunk_ids = [chunk_id]\<rparr> m
      else m)"

text \<open>One entry: its new state, whether it was activated, and the chunks whose leases are extended.\<close>

definition check_entry ::
  "BackupConfig \<Rightarrow> NodeId option \<Rightarrow> (NodeId, u64) hashmap \<Rightarrow> u64 \<Rightarrow> BackupContentState \<Rightarrow> BackupContentState \<times> bool \<times> ChunkId list" where
  "check_entry c resolved activity now entry =
     (let entry = (if bk_primary_node_id entry = None then entry\<lparr>bk_primary_node_id := resolved\<rparr> else entry);
          entry = (case bk_primary_node_id entry of
                     Some primary \<Rightarrow>
                       (case hm_get activity primary of
                          Some seen \<Rightarrow> if last_heartbeat entry < seen then entry\<lparr>last_heartbeat := seen\<rparr> else entry
                        | None \<Rightarrow> entry)
                   | None \<Rightarrow> entry)
      in if is_active entry then (entry, False, if permanent_takeover c then bk_chunk_ids entry else [])
         else if bk_primary_node_id entry = None then (entry, False, [])
         else if saturating_sub now (last_heartbeat entry) \<le> heartbeat_timeout_secs c then (entry, False, bk_chunk_ids entry)
         else (entry\<lparr>is_active := True\<rparr>, True, bk_chunk_ids entry))"

definition extend_lease :: "u64 \<Rightarrow> ChunkId \<Rightarrow> LeaseManager \<Rightarrow> LeaseManager" where
  "extend_lease new_expiry chunk_id mgr =
     mgr\<lparr>leases := hm_modify chunk_id (\<lambda>lease. if expires_at lease < new_expiry then lease\<lparr>expires_at := new_expiry\<rparr> else lease) (leases mgr)\<rparr>"

text \<open>The first half of the sweep: chunks that are held and not tracked get an entry, then every entry is checked.\<close>

definition checked_entries :: "u64 \<Rightarrow> ('sc, 'sk) NodeRunner \<Rightarrow> (ContentId \<times> BackupContentState \<times> bool \<times> ChunkId list) list" where
  "checked_entries now r =
     (let c = backup_config (config r);
          resolved = resolve_primary c (routing_table (transport r));
          activity = peer_activity_snapshot (transport r);
          entries = fold (auto_register now) (hm_keys (holder_chunks (chunk_holder (transport r)))) (backed_up_content (backup_state r))
      in map (\<lambda>(k, e). (k, check_entry c resolved activity now e)) entries)"

definition run_backup_health_tick :: "u64 \<Rightarrow> ('sc, 'sk) NodeRunner \<Rightarrow> nat \<times> ('sc, 'sk) NodeRunner" where
  "run_backup_health_tick now r =
     (let checked = checked_entries now r;
          newly_activated = filter (\<lambda>(_, _, newly, _). newly) checked;
          extend_lease_ids = concat (map (\<lambda>(_, _, _, ids). ids) checked);
          r = r\<lparr>backup_state := \<lparr>backed_up_content = map (\<lambda>(k, e, _). (k, e)) checked,
                                  any_active = (any_active (backup_state r) \<or> newly_activated \<noteq> [])\<rparr>\<rparr>;
          r = (if newly_activated \<noteq> [] then map_transport (\<lambda>t. t\<lparr>serve_enabled := True\<rparr>) r else r);
          r = (if extend_lease_ids \<noteq> [] then with_leases (fold (extend_lease (now + DEFAULT_LEASE_DURATION_SECS)) extend_lease_ids (node_leases r)) r else r)
      in (length newly_activated, r))"

section \<open>When a backup takes over\<close>

text \<open>A dormant entry whose primary is known and was last heard longer ago than the timeout.\<close>

definition primary_silent :: "BackupConfig \<Rightarrow> NodeId option \<Rightarrow> (NodeId, u64) hashmap \<Rightarrow> u64 \<Rightarrow> BackupContentState \<Rightarrow> bool" where
  "primary_silent c resolved activity now e \<longleftrightarrow>
     \<not> is_active e \<and>
     (case (if bk_primary_node_id e = None then resolved else bk_primary_node_id e) of
        None \<Rightarrow> False
      | Some p \<Rightarrow>
          heartbeat_timeout_secs c < saturating_sub now (last_heartbeat e) \<and>
          (case hm_get activity p of None \<Rightarrow> True | Some seen \<Rightarrow> heartbeat_timeout_secs c < saturating_sub now seen))"

definition primary_failed :: "u64 \<Rightarrow> ('sc, 'sk) NodeRunner \<Rightarrow> bool" where
  "primary_failed now r \<longleftrightarrow>
     (\<exists>e\<in>set (hm_values (backed_up_content (backup_state r))).
        primary_silent (backup_config (config r)) (resolve_primary (backup_config (config r)) (routing_table (transport r)))
          (peer_activity (transport r)) now e)"

lemma saturating_sub_max: "c < saturating_sub now (max a b :: u64) \<longleftrightarrow> c < saturating_sub now a \<and> c < saturating_sub now b"
  by (auto simp: word_less_nat_alt max_def word_le_nat_alt)

lemma check_entry_activates: "fst (snd (check_entry c resolved activity now e)) \<longleftrightarrow> primary_silent c resolved activity now e"
proof -
  show ?thesis
  proof (cases "if bk_primary_node_id e = None then resolved else bk_primary_node_id e")
    case None
    then show ?thesis by (auto simp: check_entry_def primary_silent_def Let_def split: if_splits)
  next
    case (Some p)
    show ?thesis
    proof (cases "hm_get activity p")
      case None
      then show ?thesis using Some by (auto simp: check_entry_def primary_silent_def Let_def split: if_splits)
    next
      case (Some seen)
      have newest: "(if last_heartbeat e < seen then seen else last_heartbeat e) = max (last_heartbeat e) seen" by (auto simp: max_def)
      have "heartbeat_timeout_secs c < saturating_sub now (if last_heartbeat e < seen then seen else last_heartbeat e) \<longleftrightarrow>
          heartbeat_timeout_secs c < saturating_sub now (last_heartbeat e) \<and> heartbeat_timeout_secs c < saturating_sub now seen"
        unfolding newest by (rule saturating_sub_max)
      then show ?thesis using Some \<open>(if bk_primary_node_id e = None then resolved else bk_primary_node_id e) = Some p\<close>
        by (auto simp: check_entry_def primary_silent_def Let_def not_le [symmetric] split: if_splits)
    qed
  qed
qed

lemma insert_new: "\<not> hm_contains m k \<Longrightarrow> hm_insert k v m = m @ [(k, v)]"
  by (induction m) (auto simp: hm_insert_def hm_contains_alt)

lemma auto_register_entries:
  "\<exists>new. fold (auto_register now) ks m = m @ new \<and> (\<forall>(k, e)\<in>set new. last_heartbeat e = now)"
proof (induction ks arbitrary: m)
  case (Cons k ks)
  show ?case
  proof (cases "hm_contains m k")
    case True
    then show ?thesis using Cons [of m] by (simp add: auto_register_def)
  next
    case False
    define m' where "m' = auto_register now k m"
    then obtain e where m': "m' = m @ [(k, e)]" "last_heartbeat e = now" using False by (simp add: auto_register_def insert_new)
    obtain new where "fold (auto_register now) ks m' = m' @ new" "\<forall>(k, e)\<in>set new. last_heartbeat e = now" using Cons [of m'] by blast
    then show ?thesis using m' by (intro exI [of _ "(k, e) # new"]) (simp add: m'_def [symmetric])
  qed
qed simp

lemma tick_serves:
  "serve_enabled (transport (snd (run_backup_health_tick now r))) \<longleftrightarrow> serve_enabled (transport r) \<or> primary_failed now r"
proof -
  let ?c = "backup_config (config r)"
  let ?res = "resolve_primary ?c (routing_table (transport r))" and ?act = "peer_activity (transport r)"
  obtain new where e: "fold (auto_register now) (hm_keys (holder_chunks (chunk_holder (transport r)))) (backed_up_content (backup_state r)) = backed_up_content (backup_state r) @ new"
      "\<forall>(k, e)\<in>set new. last_heartbeat e = now"
    using auto_register_entries by blast
  have "\<forall>x\<in>set new. \<not> primary_silent ?c ?res ?act now (snd x)"
    using e(2) by (auto simp: primary_silent_def split: option.splits)
  then have "(\<exists>(k, x)\<in>set (backed_up_content (backup_state r) @ new). primary_silent ?c ?res ?act now x) \<longleftrightarrow> primary_failed now r"
    by (simp add: primary_failed_def hm_values_def split_beta' bex_Un)
  moreover have "filter (\<lambda>(_, _, newly, _). newly) (map (\<lambda>(k, e). (k, check_entry ?c ?res ?act now e)) xs) \<noteq> [] \<longleftrightarrow>
      (\<exists>(k, x)\<in>set xs. primary_silent ?c ?res ?act now x)" for xs :: "(ContentId \<times> BackupContentState) list"
    by (auto simp: filter_empty_conv check_entry_activates [symmetric] split_beta')
  ultimately have "filter (\<lambda>(_, _, newly, _). newly) (map (\<lambda>(k, e). (k, check_entry ?c ?res ?act now e)) (backed_up_content (backup_state r) @ new)) \<noteq> []
      \<longleftrightarrow> primary_failed now r" by blast
  then show ?thesis by (simp add: run_backup_health_tick_def checked_entries_def Let_def e(1) peer_activity_snapshot_def with_leases_def del: map_append filter_append)
qed

datatype backup_event = Heard u64 NodeId | Register u64 ContentId NodeId "ChunkId list" | HealthTick u64 | Sweep upkeep_event

fun backup_exec :: "backup_event \<Rightarrow> ('sc, 'sk) NodeRunner \<Rightarrow> ('sc, 'sk) NodeRunner" where
  "backup_exec (Heard now peer) r = map_transport (note_peer_activity now peer) r"
| "backup_exec (Register now content_id primary ids) r = register_backup_content now content_id primary ids r"
| "backup_exec (HealthTick now) r = snd (run_backup_health_tick now r)"
| "backup_exec (Sweep e) r = upkeep_exec e r"

lemma drop_cached_serves: "serve_enabled (transport (drop_cached k r)) = serve_enabled (transport r)"
  by (simp add: drop_cached_def Let_def)

lemma evict_serves: "serve_enabled (transport (evict_loop n r)) = serve_enabled (transport r)"
proof (induction n r rule: evict_loop.induct)
  case (1 n r)
  then show ?case by (subst evict_loop.simps) (auto simp: drop_cached_serves split: option.splits)
qed

lemma expire_serves: "serve_enabled (transport (fold expire_chunk ks r)) = serve_enabled (transport r)"
  by (induction ks arbitrary: r) (simp_all add: expire_chunk_def Let_def with_leases_def)

lemma upkeep_serves: "serve_enabled (transport (upkeep_exec e r)) = serve_enabled (transport r)"
  by (cases e) (auto simp: cache_retrieved_chunk_def add_cached_def store_repaired_chunk_def expire_chunks_once_def expire_serves
      evict_excess_cache_def evict_serves reconcile_capacity_once_def drop_cached_serves with_leases_def Let_def split: option.splits)

text \<open>C35 (liveness). A dormant backup starts to serve exactly when a health check finds a primary that is known and has been silent, by every inbound
  message and by its last recorded heartbeat, for longer than the timeout; nothing else makes it serve, and it never stops. A primary heard
  within the timeout keeps its backup dormant.\<close>

theorem backup_serves_iff_primary_failed:
  assumes "\<not> serve_enabled (transport r)"
  shows "serve_enabled (transport (fold backup_exec es r)) \<longleftrightarrow>
    (\<exists>es1 now es2. es = es1 @ HealthTick now # es2 \<and> primary_failed now (fold backup_exec es1 r))"
proof (induction es rule: rev_induct)
  case Nil
  then show ?case using assms by simp
next
  case (snoc e es)
  let ?r = "fold backup_exec es r"
  have step: "serve_enabled (transport (backup_exec e ?r)) \<longleftrightarrow> serve_enabled (transport ?r) \<or> (\<exists>now. e = HealthTick now \<and> primary_failed now ?r)"
    by (cases e) (simp_all add: tick_serves upkeep_serves note_peer_activity_def register_backup_content_def)
  have split: "es @ [e] = es1 @ HealthTick now # es2 \<longleftrightarrow> es2 = [] \<and> es1 = es \<and> e = HealthTick now \<or> (\<exists>es3. es2 = es3 @ [e] \<and> es = es1 @ HealthTick now # es3)" for es1 now es2
    by (cases es2 rule: rev_cases) auto
  show ?case using snoc step unfolding split by auto
qed

text \<open>A runner whose backup entry names a primary that was last heard at time 100, with one leased chunk.\<close>

definition demo_backup :: "(u8, nat) NodeRunner" where
  "demo_backup = with_leases (LeaseManager_new\<lparr>leases := [([1], \<lparr>lease_chunk_id = [1], expires_at = 200, renewal_token = [], lease_content_pub_key = []\<rparr>)]\<rparr>)
     (map_transport (\<lambda>t. t\<lparr>serve_enabled := False, chunk_holder := holder_add_chunk [1] [7, 7] [2] (chunk_holder t)\<rparr>) (register_backup_content 100 [2] [9] [[1]] demo_runner))"

lemma demo_backup_fields:
  "\<not> serve_enabled (transport demo_backup)" "config demo_backup = demo_config" "peer_activity (transport demo_backup) = []"
  "backed_up_content (backup_state demo_backup) =
     [([2], \<lparr>bk_content_id = [2], bk_primary_node_id = Some [9], is_active = False, last_heartbeat = 100, bk_chunk_ids = [[1]]\<rparr>)]"
  by (simp_all add: demo_backup_def with_leases_def register_backup_content_def demo_runner_def NodeRunner_new_def Let_def create_transport_state_def
        hm_insert_def)

theorem backup_serves_iff_primary_failed_witness:
  "\<not> serve_enabled (transport (fold backup_exec [HealthTick 5500] demo_backup)) \<and> serve_enabled (transport (fold backup_exec [HealthTick 5501] demo_backup))"
proof -
  have failed: "primary_failed t demo_backup \<longleftrightarrow> 5400 < saturating_sub t (100 :: u64)" for t
    by (simp add: primary_failed_def primary_silent_def demo_backup_fields hm_values_def demo_config_def NodeConfig_default_def BackupConfig_default_def)
  have one: "[HealthTick t] = es1 @ HealthTick now # es2 \<longleftrightarrow> es1 = [] \<and> es2 = [] \<and> t = now" for t now :: u64 and es1 es2
    by (cases es1) auto
  show ?thesis
    using backup_serves_iff_primary_failed [OF demo_backup_fields(1), of "[HealthTick 5500]"]
      backup_serves_iff_primary_failed [OF demo_backup_fields(1), of "[HealthTick 5501]"]
    by (simp add: one failed saturating_sub_def)
qed

section \<open>What it keeps alive\<close>

lemma extend_get: "hm_get (leases (fold (extend_lease x) ks mgr)) k =
    (if k \<in> set ks then map_option (\<lambda>l. if expires_at l < x then l\<lparr>expires_at := x\<rparr> else l) (hm_get (leases mgr) k) else hm_get (leases mgr) k)"
proof (induction ks arbitrary: mgr)
  case (Cons j ks)
  let ?f = "\<lambda>l :: ChunkLease. if expires_at l < x then l\<lparr>expires_at := x\<rparr> else l"
  have twice: "map_option ?f (map_option ?f y) = map_option ?f y" for y by (cases y) simp_all
  have "hm_get (leases (extend_lease x j mgr)) k = (if k = j then map_option ?f (hm_get (leases mgr) j) else hm_get (leases mgr) k)"
    by (simp add: extend_lease_def)
  then show ?case using Cons [of "extend_lease x j mgr"] twice [of "hm_get (leases mgr) j"] by (cases "k = j") simp_all
qed simp

lemma extend_wf: "hm_wf (leases mgr) \<Longrightarrow> hm_wf (leases (fold (extend_lease x) ks mgr))"
  by (induction ks arbitrary: mgr) (simp_all add: extend_lease_def)

definition guarded :: "('sc, 'sk) NodeRunner \<Rightarrow> BackupContentState \<Rightarrow> bool" where
  "guarded r e \<longleftrightarrow>
     (if is_active e then permanent_takeover (backup_config (config r))
      else bk_primary_node_id e \<noteq> None \<or> resolve_primary (backup_config (config r)) (routing_table (transport r)) \<noteq> None)"

lemma check_entry_extends:
  assumes "guarded r e"
  shows "snd (snd (check_entry (backup_config (config r)) (resolve_primary (backup_config (config r)) (routing_table (transport r))) activity now e)) = bk_chunk_ids e"
  using assms by (auto simp: guarded_def check_entry_def Let_def split: option.splits if_splits)

lemma tick_extends:
  assumes "hm_get (backed_up_content (backup_state r)) k = Some e" "guarded r e" "cid \<in> set (bk_chunk_ids e)"
    "hm_get (leases (node_leases r)) cid = Some l" "hm_wf (leases (node_leases r))"
    and r': "r' = snd (run_backup_health_tick now r)"
  shows "\<exists>l'. hm_get (leases (node_leases r')) cid = Some l' \<and> now + DEFAULT_LEASE_DURATION_SECS \<le> expires_at l'"
    "hm_wf (leases (node_leases r'))" "chunk_holder (transport r') = chunk_holder (transport r)"
proof -
  let ?c = "backup_config (config r)"
  let ?check = "check_entry ?c (resolve_primary ?c (routing_table (transport r))) (peer_activity_snapshot (transport r)) now"
  define ids where "ids = concat (map (\<lambda>(_, _, _, ids). ids) (checked_entries now r))"
  obtain new where new: "fold (auto_register now) (hm_keys (holder_chunks (chunk_holder (transport r)))) (backed_up_content (backup_state r)) =
      backed_up_content (backup_state r) @ new"
    using auto_register_entries by blast
  have "(k, ?check e) \<in> set (checked_entries now r)"
    using hm_get_SomeD [OF assms(1)] by (force simp: checked_entries_def Let_def new)
  moreover have "cid \<in> set (snd (snd (?check e)))" using check_entry_extends [OF assms(2)] assms(3) by simp
  ultimately have cid: "cid \<in> set ids" unfolding ids_def by (force simp: split_beta')
  then have "ids \<noteq> []" by auto
  then have leases: "node_leases r' = fold (extend_lease (now + DEFAULT_LEASE_DURATION_SECS)) ids (node_leases r)"
    unfolding r' run_backup_health_tick_def Let_def ids_def [symmetric] by (simp add: node_leases_def with_leases_def)
  show "\<exists>l'. hm_get (leases (node_leases r')) cid = Some l' \<and> now + DEFAULT_LEASE_DURATION_SECS \<le> expires_at l'"
    using assms(4) cid by (auto simp: leases extend_get)
  show "hm_wf (leases (node_leases r'))" using assms(5) by (simp add: leases extend_wf)
  show "chunk_holder (transport r') = chunk_holder (transport r)"
    unfolding r' by (simp add: run_backup_health_tick_def Let_def with_leases_def)
qed

lemma expire_keeps: "cid \<notin> set ks \<Longrightarrow> holder_get_chunk (chunk_holder (transport (fold expire_chunk ks r))) cid = holder_get_chunk (chunk_holder (transport r)) cid"
  by (induction ks arbitrary: r) (simp_all add: expire_chunk_def Let_def holder_get_chunk_def holder_remove_chunk_def with_leases_def)

text \<open>C36 (safety). A health check of a backup protects what it guards: the leased chunks of every entry that is dormant with a known primary, or
  active under permanent takeover, survive any expiry sweep until a lease duration and the grace period after the check.\<close>

theorem backup_guards_chunks:
  assumes "hm_get (backed_up_content (backup_state r)) k = Some e" "guarded r e" "cid \<in> set (bk_chunk_ids e)"
    "hm_get (leases (node_leases r)) cid = Some l" "hm_wf (leases (node_leases r))"
    "unat now + 86400 < 2 ^ 64" "unat t \<le> unat now + 86400 + 7200"
  shows "holder_get_chunk (chunk_holder (transport (snd (expire_chunks_once t (snd (run_backup_health_tick now r)))))) cid =
    holder_get_chunk (chunk_holder (transport r)) cid"
proof -
  define r' where "r' = snd (run_backup_health_tick now r)"
  note ext = tick_extends [OF assms(1-5) r'_def]
  obtain l' where l': "hm_get (leases (node_leases r')) cid = Some l'" "now + DEFAULT_LEASE_DURATION_SECS \<le> expires_at l'" using ext(1) by blast
  have "unat (now + DEFAULT_LEASE_DURATION_SECS) = unat now + 86400"
    using assms(6) by (subst unat_add_no_wrap) (simp_all add: DEFAULT_LEASE_DURATION_SECS_def)
  then have "unat now + 86400 \<le> unat (expires_at l')" using l'(2) by (simp add: word_le_nat_alt)
  then have "\<not> expires_at l' < saturating_sub t GRACE_PERIOD_SECS" using assms(7) by (simp add: word_less_nat_alt GRACE_PERIOD_SECS_def)
  moreover have "x = l'" if "(cid, x) \<in> set (leases (node_leases r'))" for x
  proof -
    have "hm_get (leases (node_leases r')) cid = Some x" using that ext(2) by (simp add: hm_wf_get_iff)
    then show ?thesis using l'(1) by simp
  qed
  ultimately have "cid \<notin> set (get_expired_chunks (node_leases r') t)" unfolding get_expired_chunks_def Let_def by fastforce
  from expire_keeps [OF this, of r'] show ?thesis using ext(3) by (simp add: expire_chunks_once_def Let_def r'_def)
qed

theorem backup_guards_chunks_witness:
  "holder_get_chunk (chunk_holder (transport (snd (expire_chunks_once 90000 (snd (run_backup_health_tick 5501 demo_backup)))))) [1] = Some [7, 7]"
proof -
  let ?e = "\<lparr>bk_content_id = [2], bk_primary_node_id = Some [9], is_active = False, last_heartbeat = 100, bk_chunk_ids = [[1]]\<rparr>"
    and ?l = "\<lparr>lease_chunk_id = [1], expires_at = 200, renewal_token = [], lease_content_pub_key = []\<rparr>"
  have "hm_get (backed_up_content (backup_state demo_backup)) [2] = Some ?e"
    by (simp add: demo_backup_fields hm_get_def)
  moreover have "hm_get (leases (node_leases demo_backup)) [1] = Some ?l" "hm_wf (leases (node_leases demo_backup))"
    by (simp_all add: demo_backup_def LeaseManager_new_def hm_get_def hm_wf_def)
  moreover have "holder_get_chunk (chunk_holder (transport demo_backup)) [1] = Some [7, 7]"
    by (simp add: demo_backup_def with_leases_def holder_get_chunk_def holder_add_chunk_def)
  ultimately show ?thesis using backup_guards_chunks [of demo_backup "[2]" ?e "[1]" ?l 5501 90000] by (simp add: guarded_def)
qed

end
