(* ===== verification/NodeInbound.thy ===== *)
theory NodeInbound
  imports NodeUpkeep
begin

text \<open>
  \<^verbatim>\<open>crates/static-node/src/runner.rs\<close>, what a node does with a message the transport hands to it: the four pipelines that collect
  fragments and dispatch the payload, the handlers behind them, the accounting exchanges, and the requests for the chunks of
  pending swaps. A handler runs as one step; its clock, its shuffles and the randomness of its packets are arguments.
\<close>

section \<open>Collecting fragments\<close>

text \<open>The block the four pipelines share: expire, add, and reassemble a complete message; a completed collection starts afresh.\<close>

definition collect_fragment :: "nat \<Rightarrow> Fragment \<Rightarrow> Reassembler \<Rightarrow> bytes option \<times> Reassembler" where
  "collect_fragment instant fragment ra =
     (let ra = snd (Reassembler_cleanup_expired instant 300 ra) in
      case Reassembler_add_fragment fragment ra of
        (False, ra) \<Rightarrow> (None, ra)
      | (True, ra) \<Rightarrow>
          if \<not> is_complete ra then (None, ra)
          else (case reassemble ra of
                  Inr payload \<Rightarrow> (Some payload, Reassembler_new instant)
                | Inl _ \<Rightarrow> (None, Reassembler_new instant)))"

text \<open>The draws of one inbound message: the monotone clock in nanoseconds, the clock in seconds, the randomness of the packets it answers
  with, of one swap message, the shuffle of a return route, and the draws of the messages it sends to several peers.\<close>

record 'sc InboundDraw =
  id_instant :: nat
  id_now :: u64
  id_packets :: "nat \<Rightarrow> 'sc PacketRandom"
  id_send :: "'sc SendDraw"
  id_return_shuffle :: shuffle
  id_peers :: "nat \<Rightarrow> 'sc SendDraw"

section \<open>Missing chunks and heartbeats\<close>

definition MAX_GOSSIP_AGE_SECS :: u64 where "MAX_GOSSIP_AGE_SECS = 3600"
definition GOSSIP_FUTURE_SKEW_SECS :: u64 where "GOSSIP_FUTURE_SKEW_SECS = 300"

text \<open>\<open>for pkt in packets { let _ = send_sphinx(hop, pkt) }\<close>\<close>

definition send_each :: "NodeId \<Rightarrow> SphinxPacket list \<Rightarrow> ('sc, 'sk) NodeRunner \<Rightarrow> ('sc, 'sk) NodeRunner" where
  "send_each hop packets r = map_transport (fold (\<lambda>pkt t. snd (send_sphinx hop pkt t)) packets) r"

definition handle_missing_chunk_gossip ::
  "('sc, 'sk, 'v, 'md, 'st) node_env \<Rightarrow> u64 \<Rightarrow> (nat \<Rightarrow> 'sc PacketRandom) \<Rightarrow> MissingChunkGossip \<Rightarrow> ('sc, 'sk) NodeRunner \<Rightarrow> ('sc, 'sk) NodeRunner" where
  "handle_missing_chunk_gossip env now rnd gossip r =
     (if saturating_add now GOSSIP_FUTURE_SKEW_SECS < mcg_timestamp gossip \<or> MAX_GOSSIP_AGE_SECS < saturating_sub now (mcg_timestamp gossip) then r
      else case host_get (mcg_chunk_id gossip) (host_buffer r) of
        None \<Rightarrow> r
      | Some (data, created) \<Rightarrow>
          (case store_repaired_chunk now (mcg_content_id gossip) (mcg_chunk_id gossip) data created r of
             (False, r) \<Rightarrow> r
           | (True, r) \<Rightarrow>
               let payload = serialize_chunk_response \<lparr>resp_chunk_id = mcg_chunk_id gossip, resp_chunk_data = data, resp_found = True\<rparr>;
                   route = to_sphinx_route (mcg_return_route gossip)
               in case route_hops route of
                    [] \<Rightarrow> r
                  | hop # _ \<Rightarrow>
                      (case create_hybrid_payload_packets (ne_sphinx env) rnd payload route (hybrid_kem_map r) of
                         Inl _ \<Rightarrow> r
                       | Inr packets \<Rightarrow> send_each (rh_node_id hop) packets r)))"

definition handle_heartbeat :: "('sc, 'sk, 'v, 'md, 'st) node_env \<Rightarrow> u64 \<Rightarrow> Heartbeat \<Rightarrow> ('sc, 'sk) NodeRunner \<Rightarrow> ('sc, 'sk) NodeRunner" where
  "handle_heartbeat env now hb r =
     (let held = set (filter (holder_has_chunk (chunk_holder (transport r))) (hb_chunk_ids hb))
      in with_leases (snd (process_heartbeat_upsert (ne_ed env) hb now held (node_leases r))) r)"

text \<open>The source of a report: at most one per key within \<open>MISSING_GOSSIP_DEDUP_TTL_SECS\<close>.\<close>

definition note_missing :: "u64 \<Rightarrow> ContentId \<times> ChunkId \<Rightarrow> (ContentId \<times> ChunkId, u64) hashmap \<Rightarrow> bool \<times> (ContentId \<times> ChunkId, u64) hashmap" where
  "note_missing now key recent =
     (let recent = (if MISSING_GOSSIP_DEDUP_MAX \<le> hm_len recent
                    then hm_retain (\<lambda>_ sent. saturating_sub now sent < MISSING_GOSSIP_DEDUP_TTL_SECS) recent else recent)
      in case hm_get recent key of
           Some sent \<Rightarrow> if saturating_sub now sent < MISSING_GOSSIP_DEDUP_TTL_SECS then (False, recent) else (True, hm_insert key now recent)
         | None \<Rightarrow> (True, hm_insert key now recent))"

definition hybrid_capable :: "('sc, 'sk, 'v, 'md, 'st) node_env \<Rightarrow> KnownNode \<Rightarrow> bool" where
  "hybrid_capable env p \<longleftrightarrow> (case kn_kem_public_key p of Some k \<Rightarrow> length k | None \<Rightarrow> 0) = KEM_PUBLIC_KEY_SIZE (te_kx (ne_transport env))"

definition report_missing_to ::
  "('sc, 'sk, 'v, 'md, 'st) node_env \<Rightarrow> bytes \<Rightarrow> 'sc SendDraw \<Rightarrow> KnownNode \<Rightarrow> ('sc, 'sk) NodeRunner \<Rightarrow> ('sc, 'sk) NodeRunner" where
  "report_missing_to env payload d peer r =
     (case build_route_to_destination (sd_shuffle d) (kn_node_id peer) (transport r) of
        None \<Rightarrow> r
      | Some route \<Rightarrow>
          (case create_hybrid_payload_packets (ne_sphinx env) (sd_packets d) payload (classical_route route) (hybrid_kem_map r) of
             Inl _ \<Rightarrow> r
           | Inr packets \<Rightarrow> send_each (kn_node_id peer) packets r))"

definition send_missing_chunk_gossip ::
  "('sc, 'sk, 'v, 'md, 'st) node_env \<Rightarrow> u64 \<Rightarrow> shuffle \<Rightarrow> (nat \<Rightarrow> 'sc SendDraw) \<Rightarrow> ContentId \<Rightarrow> ChunkId \<Rightarrow> ('sc, 'sk) NodeRunner \<Rightarrow> ('sc, 'sk) NodeRunner" where
  "send_missing_chunk_gossip env now return_shuffle ds content_id chunk_id r =
     (case note_missing now (content_id, chunk_id) (missing_gossip_recent r) of
        (False, recent) \<Rightarrow> r\<lparr>missing_gossip_recent := recent\<rparr>
      | (True, recent) \<Rightarrow>
          let r = r\<lparr>missing_gossip_recent := recent\<rparr>;
              capable = filter (hybrid_capable env) (hm_values (nodes (routing_table (transport r))))
          in if capable = [] then r
             else
               let return_route = from_sphinx_route (classical_route (build_self_return_route (ne_transport env) return_shuffle (transport r)));
                   payload = serialize_gossip \<lparr>mcg_content_id = content_id, mcg_chunk_id = chunk_id, mcg_timestamp = now, mcg_return_route = return_route\<rparr>
               in fold (\<lambda>(i, peer). report_missing_to env payload (ds i) peer) (enumerate 0 capable) r)"

section \<open>Storage verification\<close>

definition segment_of :: "u32 \<Rightarrow> bytes \<Rightarrow> bytes option" where
  "segment_of segment_index data =
     (let start = unat segment_index * SEGMENT_SIZE
      in if length data \<le> start then None else Some (take SEGMENT_SIZE (drop start data)))"

definition held_segment :: "VerificationChallenge \<Rightarrow> ('sc, 'sk) NodeRunner \<Rightarrow> bytes option" where
  "held_segment asked r =
     (case holder_get_chunk (chunk_holder (transport r)) (vc_chunk_id asked) of
        Some data \<Rightarrow> segment_of (vc_segment_index asked) data
      | None \<Rightarrow> None)"

definition verification_answer :: "VerificationChallenge \<Rightarrow> ('sc, 'sk) NodeRunner \<Rightarrow> VerificationResponse" where
  "verification_answer asked r =
     (let segment_data = held_segment asked r
      in \<lparr>vr_chunk_id = vc_chunk_id asked, vr_segment_index = vc_segment_index asked,
          vr_segment_data = (case segment_data of Some bs \<Rightarrow> bs | None \<Rightarrow> []), vr_nonce = vc_nonce asked, vr_found = (segment_data \<noteq> None)\<rparr>)"

definition send_verification_response ::
  "('sc, 'sk, 'v, 'md, 'st) node_env \<Rightarrow> (nat \<Rightarrow> 'sc PacketRandom) \<Rightarrow> VerificationResponse \<Rightarrow> ReturnRoute \<Rightarrow> ('sc, 'sk) NodeRunner \<Rightarrow>
     (NodeError + unit) \<times> ('sc, 'sk) NodeRunner" where
  "send_verification_response env rnd response return_route r =
     (case serialize_verification_response response of
        Inl e \<Rightarrow> (Inl (NodeStorage e), r)
      | Inr payload \<Rightarrow>
          (case create_hybrid_payload_packets (ne_sphinx env) rnd payload (to_sphinx_route return_route) (hybrid_kem_map r) of
             Inl e \<Rightarrow> (Inl (NodeRetrieval e), r)
           | Inr packets \<Rightarrow>
               (case rr_hops return_route of
                  [] \<Rightarrow> (Inl (Bail (ascii_bytes ''empty return route'')), r)
                | hop # _ \<Rightarrow>
                    if hm_contains (connections (transport r)) (hop_node_id hop)
                    then (Inr (), map_transport (queue_messages (hop_node_id hop) (map SphinxMsg packets)) r)
                    else (Inl (Bail (ascii_bytes ''no connection to return route first hop'')), r))))"

definition handle_verification_challenge ::
  "('sc, 'sk, 'v, 'md, 'st) node_env \<Rightarrow> (nat \<Rightarrow> 'sc PacketRandom) \<Rightarrow> VerificationChallenge \<Rightarrow> ('sc, 'sk) NodeRunner \<Rightarrow> ('sc, 'sk) NodeRunner" where
  "handle_verification_challenge env rnd asked r =
     snd (send_verification_response env rnd (verification_answer asked r) (vc_return_route asked) r)"

definition handle_verification_response :: "('sc, 'sk, 'v, 'md, 'st) node_env \<Rightarrow> u64 \<Rightarrow> VerificationResponse \<Rightarrow> ('sc, 'sk) NodeRunner \<Rightarrow> ('sc, 'sk) NodeRunner" where
  "handle_verification_response env now response r =
     (case hm_get (vs_pending (verification_state r)) (vr_nonce response) of
        None \<Rightarrow> r
      | Some entry \<Rightarrow>
          let r = r\<lparr>verification_state := (verification_state r)\<lparr>vs_pending := hm_remove (vr_nonce response) (vs_pending (verification_state r))\<rparr>\<rparr>
          in if verify_segment_response (blake3 (ne_storage env)) response (expected_hash entry)
             then r\<lparr>accounting := record_challenge_success now (challenged_node entry) (accounting r)\<rparr>
             else r\<lparr>accounting := record_challenge_failure now (challenged_node entry) (accounting r)\<rparr>)"

section \<open>Accounting exchanges\<close>

definition entry_of_credit :: "NodeId \<times> PeerCredit \<Rightarrow> ReconciliationEntry" where
  "entry_of_credit = (\<lambda>(peer_id, credit).
     \<lparr>re_peer_id = peer_id, re_bytes_served = bytes_served credit, re_bytes_received = bytes_received credit, re_net_credit = net_credit credit,
      re_last_interaction = last_interaction credit, re_prepaid_bytes = prepaid_bytes credit,
      re_successful_challenges = successful_challenges credit, re_failed_challenges = failed_challenges credit\<rparr>)"

definition credit_of_entry :: "ReconciliationEntry \<Rightarrow> NodeId \<times> PeerCredit" where
  "credit_of_entry e =
     (re_peer_id e, PeerCredit_new\<lparr>bytes_served := re_bytes_served e, bytes_received := re_bytes_received e, net_credit := re_net_credit e,
        prepaid_bytes := re_prepaid_bytes e, successful_challenges := re_successful_challenges e, failed_challenges := re_failed_challenges e,
        last_interaction := re_last_interaction e\<rparr>)"

definition reconciliation_batches :: "(NodeId, PeerCredit) hashmap \<Rightarrow> u64 \<Rightarrow> u64 \<Rightarrow> NodeId \<Rightarrow> u64 \<Rightarrow> AccountingReconciliation list" where
  "reconciliation_batches credits total_served total_received sender now =
     (let batch = (\<lambda>es. \<lparr>ar_from_node = sender, ar_peer_credits = es, ar_total_bytes_served = total_served, ar_total_bytes_received = total_received,
                          ar_timestamp = now, ar_identity_public_key = replicate 32 0, ar_signature = []\<rparr>);
          entries = map entry_of_credit credits
      in if entries = [] then [batch []] else map batch (chunks_of MAX_RECONCILIATION_ENTRIES entries))"

text \<open>\<open>for mut batch in batches { batch.sign(&sk); send_reconciliation(peer, batch)? }\<close>\<close>

fun send_batches ::
  "('sc, 'sk, 'v, 'md, 'st) node_env \<Rightarrow> (nat \<Rightarrow> 'sc SendDraw) \<Rightarrow> NodeId \<Rightarrow> AccountingReconciliation list \<Rightarrow> ('sc, 'sk) NodeRunner \<Rightarrow>
     (NodeError + unit) \<times> ('sc, 'sk) NodeRunner" where
  "send_batches env ds peer [] r = (Inr (), r)"
| "send_batches env ds peer (batch # batches) r =
     (let signed = reconciliation_sign (ne_ed env) (entries_json env) (blake3 (ne_storage env)) (identity_key (transport r)) batch in
      case send_reconciliation (ne_transport env) (ds 0) peer signed (transport r) of
        (Inl e, t) \<Rightarrow> (Inl (NodeTransport e), r\<lparr>transport := t\<rparr>)
      | (Inr _, t) \<Rightarrow> send_batches env (\<lambda>i. ds (Suc i)) peer batches (r\<lparr>transport := t\<rparr>))"

definition trigger_reconciliation ::
  "('sc, 'sk, 'v, 'md, 'st) node_env \<Rightarrow> u64 \<Rightarrow> (nat \<Rightarrow> 'sc SendDraw) \<Rightarrow> NodeId \<Rightarrow> ('sc, 'sk) NodeRunner \<Rightarrow> (NodeError + unit) \<times> ('sc, 'sk) NodeRunner" where
  "trigger_reconciliation env now ds peer r =
     (let a = accounting r;
          delta = export_reconciliation_delta a (last_sync_time a peer);
          batches = reconciliation_batches (fold (\<lambda>(i, credit). hm_insert i credit) delta []) (total_bytes_served a) (total_bytes_received a)
                      (ts_node_id (transport r)) now
      in case send_batches env ds peer batches r of
           (Inl e, r) \<Rightarrow> (Inl e, r)
         | (Inr _, r) \<Rightarrow> (Inr (), r\<lparr>accounting := mark_reconciled peer now (accounting r)\<rparr>))"

definition process_reconciliation ::
  "('sc, 'sk, 'v, 'md, 'st) node_env \<Rightarrow> u64 \<Rightarrow> AccountingReconciliation \<Rightarrow> ('sc, 'sk) NodeRunner \<Rightarrow> (NodeError + unit) \<times> ('sc, 'sk) NodeRunner" where
  "process_reconciliation env now recon r =
     (if \<not> reconciliation_verify (ne_ed env) (entries_json env) (blake3 (ne_storage env)) now recon then
        (Inl (Bail (ascii_bytes ''Invalid reconciliation signature/timestamp'')), r)
      else if (case get_node (routing_table (transport r)) (ar_from_node recon) of
                 Some known \<Rightarrow> (case kn_identity_public_key known of Some stored \<Rightarrow> stored \<noteq> ar_identity_public_key recon | None \<Rightarrow> False)
               | None \<Rightarrow> False) then
        (Inl (Bail (ascii_bytes ''Reconciliation identity key mismatch'')), r)
      else (Inr (), r\<lparr>accounting := reconcile now (map credit_of_entry (ar_peer_credits recon)) (accounting r)\<rparr>))"

text \<open>The accounting side of \<open>handle_prepayment\<close>, in the order of its checks.\<close>

definition admit_prepayment :: "u64 \<Rightarrow> NodeId \<Rightarrow> Prepayment \<Rightarrow> AccountingState \<Rightarrow> bool \<times> AccountingState" where
  "admit_prepayment now from' p a =
     (if is_seed_misbehaving a from' then (False, a)
      else if \<not> check_prepay_rate_limit a from' (pp_content_id p) now then (False, record_seed_violation from' a)
      else
        let a = record_prepay_attempt from' (pp_content_id p) now a;
            fresh = (total_bytes_served a = 0 \<and> total_bytes_received a = 0)
        in if \<not> has_excess_capacity a 0 \<and> \<not> (fresh \<and> sponsor_seed_count a = 0) then (False, a)
           else if \<not> is_sponsored a from' \<and> \<not> can_sponsor a then (False, a)
           else
             (case register_sponsored_seed from' (pp_content_id p) (pp_bytes p) now (record_prepayment from' (pp_bytes p) a) of
                (Inr _, a) \<Rightarrow> (True, a)
              | (Inl _, a) \<Rightarrow> (False, a)))"

definition handle_prepayment ::
  "('sc, 'sk, 'v, 'md, 'st) node_env \<Rightarrow> u64 \<Rightarrow> NodeId \<Rightarrow> Prepayment \<Rightarrow> ('sc, 'sk) NodeRunner \<Rightarrow> bool \<times> ('sc, 'sk) NodeRunner" where
  "handle_prepayment env now from' p r =
     (if node_mode (config r) = BackupOnly then (False, r)
      else if \<not> prepayment_validate (ne_ed env) p then (False, r)
      else (case admit_prepayment now from' p (accounting r) of (accepted, a) \<Rightarrow> (accepted, r\<lparr>accounting := a\<rparr>)))"

section \<open>Dispatch by type byte\<close>

definition dispatch_compute :: "('sc, 'sk, 'v, 'md, 'st) node_env \<Rightarrow> 'sc InboundDraw \<Rightarrow> bytes \<Rightarrow> ('sc, 'sk) NodeRunner \<Rightarrow> compute_task list \<times> ('sc, 'sk) NodeRunner" where
  "dispatch_compute env d payload r =
     (case payload of
        [] \<Rightarrow> ([], r)
      | m # _ \<Rightarrow>
          if m = MSG_COMPUTE_REQUEST then
            (case deserialize_compute_request payload of Inr request \<Rightarrow> handle_compute_request env (id_now d) (id_packets d) request r | Inl _ \<Rightarrow> ([], r))
          else if m = MSG_COMPUTE_RESPONSE then
            (case deserialize_compute_response payload of Inr response \<Rightarrow> ([], handle_compute_response response r) | Inl _ \<Rightarrow> ([], r))
          else if m = MSG_PAYMENT_REQUEST then
            (case deserialize_payment_request payload of Inr quote \<Rightarrow> ([], handle_payment_request quote r) | Inl _ \<Rightarrow> ([], r))
          else if m = MSG_PAYMENT_CONFIRMATION then
            (case deserialize_payment_confirmation payload of Inr c \<Rightarrow> ([], handle_payment_confirmation c r) | Inl _ \<Rightarrow> ([], r))
          else ([], r))"

definition handle_compute_fragment :: "('sc, 'sk, 'v, 'md, 'st) node_env \<Rightarrow> 'sc InboundDraw \<Rightarrow> bytes \<Rightarrow> ('sc, 'sk) NodeRunner \<Rightarrow> compute_task list \<times> ('sc, 'sk) NodeRunner" where
  "handle_compute_fragment env d body r =
     (case deserialize_fragment body of
        Inl _ \<Rightarrow> ([], r)
      | Inr fragment \<Rightarrow>
          (case collect_fragment (id_instant d) fragment (cs_reassembler (compute_state r)) of
             (None, ra) \<Rightarrow> ([], with_compute (cs_reassembler_update (\<lambda>_. ra)) r)
           | (Some payload, ra) \<Rightarrow> dispatch_compute env d payload (with_compute (cs_reassembler_update (\<lambda>_. ra)) r)))"

definition dispatch_verification :: "('sc, 'sk, 'v, 'md, 'st) node_env \<Rightarrow> 'sc InboundDraw \<Rightarrow> bytes \<Rightarrow> ('sc, 'sk) NodeRunner \<Rightarrow> ('sc, 'sk) NodeRunner" where
  "dispatch_verification env d payload r =
     (case payload of
        [] \<Rightarrow> r
      | m # _ \<Rightarrow>
          if m = MSG_VERIFICATION_CHALLENGE then
            (case deserialize_challenge payload of Inr asked \<Rightarrow> handle_verification_challenge env (id_packets d) asked r | Inl _ \<Rightarrow> r)
          else if m = MSG_VERIFICATION_RESPONSE then
            (case deserialize_verification_response payload of Inr response \<Rightarrow> handle_verification_response env (id_now d) response r | Inl _ \<Rightarrow> r)
          else r)"

definition handle_verification_fragment :: "('sc, 'sk, 'v, 'md, 'st) node_env \<Rightarrow> 'sc InboundDraw \<Rightarrow> bytes \<Rightarrow> ('sc, 'sk) NodeRunner \<Rightarrow> ('sc, 'sk) NodeRunner" where
  "handle_verification_fragment env d body r =
     (case deserialize_fragment body of
        Inl _ \<Rightarrow> r
      | Inr fragment \<Rightarrow>
          (case collect_fragment (id_instant d) fragment (vs_reassembler (verification_state r)) of
             (None, ra) \<Rightarrow> r\<lparr>verification_state := (verification_state r)\<lparr>vs_reassembler := ra\<rparr>\<rparr>
           | (Some payload, ra) \<Rightarrow> dispatch_verification env d payload (r\<lparr>verification_state := (verification_state r)\<lparr>vs_reassembler := ra\<rparr>\<rparr>)))"

definition dispatch_lifecycle :: "('sc, 'sk, 'v, 'md, 'st) node_env \<Rightarrow> 'sc InboundDraw \<Rightarrow> bytes \<Rightarrow> ('sc, 'sk) NodeRunner \<Rightarrow> ('sc, 'sk) NodeRunner" where
  "dispatch_lifecycle env d payload r =
     (case payload of
        [] \<Rightarrow> r
      | m # _ \<Rightarrow>
          if m = MSG_MISSING_CHUNK_GOSSIP then
            (case deserialize_gossip payload of Inr gossip \<Rightarrow> handle_missing_chunk_gossip env (id_now d) (id_packets d) gossip r | Inl _ \<Rightarrow> r)
          else if m = MSG_HEARTBEAT then
            (case wire_deserialize_heartbeat payload of Inr hb \<Rightarrow> handle_heartbeat env (id_now d) hb r | Inl _ \<Rightarrow> r)
          else r)"

definition handle_lifecycle_fragment :: "('sc, 'sk, 'v, 'md, 'st) node_env \<Rightarrow> 'sc InboundDraw \<Rightarrow> bytes \<Rightarrow> ('sc, 'sk) NodeRunner \<Rightarrow> ('sc, 'sk) NodeRunner" where
  "handle_lifecycle_fragment env d body r =
     (case deserialize_fragment body of
        Inl _ \<Rightarrow> r
      | Inr fragment \<Rightarrow>
          (case collect_fragment (id_instant d) fragment (lifecycle_reassembler r) of
             (None, ra) \<Rightarrow> r\<lparr>lifecycle_reassembler := ra\<rparr>
           | (Some payload, ra) \<Rightarrow> dispatch_lifecycle env d payload (r\<lparr>lifecycle_reassembler := ra\<rparr>)))"

definition dispatch_maintenance :: "('sc, 'sk, 'v, 'md, 'st) node_env \<Rightarrow> 'sc InboundDraw \<Rightarrow> bytes \<Rightarrow> ('sc, 'sk) NodeRunner \<Rightarrow> ('sc, 'sk) NodeRunner" where
  "dispatch_maintenance env d payload r =
     (let now = id_now d; tenv = ne_transport env in
      case split_maintenance_payload payload of
        None \<Rightarrow> r
      | Some (msg_type, json) \<Rightarrow>
          if msg_type = MSG_BODY_GOSSIP then
            (case gossip_of_json env json of Some gossip \<Rightarrow> map_transport (handle_maintenance_gossip tenv now gossip) r | None \<Rightarrow> r)
          else if msg_type = MSG_BODY_SWAP_PROPOSAL then
            (case proposal_of_json env json of
               Some p \<Rightarrow>
                 (case validate_swap_proposal (ne_ed env) p now of
                    Inl _ \<Rightarrow> r
                  | Inr _ \<Rightarrow> map_transport (handle_maintenance_proposal tenv now (id_send d) p) r)
             | None \<Rightarrow> r)
          else if msg_type = MSG_BODY_SWAP_ACCEPT then
            (case accept_of_json env json of Some a \<Rightarrow> map_transport (handle_maintenance_accept tenv now (id_send d) a) r | None \<Rightarrow> r)
          else if msg_type = MSG_BODY_SWAP_REJECT then
            (case reject_of_json env json of Some x \<Rightarrow> map_transport (handle_maintenance_reject x) r | None \<Rightarrow> r)
          else if msg_type = MSG_BODY_PREPAYMENT then
            (case prepayment_of_json env json of Some p \<Rightarrow> snd (handle_prepayment env now (pp_from_node p) p r) | None \<Rightarrow> r)
          else if msg_type = MSG_BODY_RECONCILIATION then
            (case reconciliation_of_json env json of Some recon \<Rightarrow> snd (process_reconciliation env now recon r) | None \<Rightarrow> r)
          else if msg_type = MSG_BODY_SWAP_COMMIT then
            (case commit_of_json env json of Some c \<Rightarrow> map_transport (handle_maintenance_commit tenv now c) r | None \<Rightarrow> r)
          else if msg_type = MSG_BODY_SWAP_ABORT then
            (case abort_of_json env json of Some a \<Rightarrow> map_transport (handle_maintenance_abort tenv now a) r | None \<Rightarrow> r)
          else r)"

text \<open>The claim gate: only a fragment that starts a maintenance message, or one that the collection in progress can take.\<close>

definition claims_fragment :: "Reassembler \<Rightarrow> Fragment \<Rightarrow> bool" where
  "claims_fragment ra f \<longleftrightarrow>
     fragment_id f = 0 \<and> (case frag_data f of t # _ \<Rightarrow> MSG_BODY_GOSSIP \<le> t \<and> t \<le> MSG_BODY_SWAP_ABORT | [] \<Rightarrow> False) \<or>
     total_expected ra \<noteq> None \<and> can_accept_fragment ra f"

definition handle_maintenance_fragment :: "('sc, 'sk, 'v, 'md, 'st) node_env \<Rightarrow> 'sc InboundDraw \<Rightarrow> bytes \<Rightarrow> ('sc, 'sk) NodeRunner \<Rightarrow> ('sc, 'sk) NodeRunner" where
  "handle_maintenance_fragment env d body r =
     (case deserialize_fragment body of
        Inl _ \<Rightarrow> r
      | Inr fragment \<Rightarrow>
          if \<not> claims_fragment (maintenance_reassembler r) fragment then r
          else (case collect_fragment (id_instant d) fragment (maintenance_reassembler r) of
                  (None, ra) \<Rightarrow> r\<lparr>maintenance_reassembler := ra\<rparr>
                | (Some payload, ra) \<Rightarrow> dispatch_maintenance env d payload (r\<lparr>maintenance_reassembler := ra\<rparr>)))"

section \<open>Chunk answers and the entry point\<close>

definition MAX_SINGLE_CHUNKS :: nat where "MAX_SINGLE_CHUNKS = 2048"

definition record_response :: "u64 \<Rightarrow> ChunkResponse \<Rightarrow> ('sc, 'sk) NodeRunner \<Rightarrow> ('sc, 'sk) NodeRunner" where
  "record_response now response r =
     (let chunk = \<lparr>ec_id = resp_chunk_id response, ec_data = resp_chunk_data response\<rparr>;
          r = (case record_chunk chunk (content_retriever r) of
                 (True, cr) \<Rightarrow> r\<lparr>content_retriever := cr\<rparr>
               | (False, cr) \<Rightarrow> r\<lparr>content_retriever := cr, single_chunks := trim_to MAX_SINGLE_CHUNKS (hm_insert (ec_id chunk) (ec_data chunk) (single_chunks r))\<rparr>)
      in cache_retrieved_chunk now (ec_id chunk) (ec_data chunk) r)"

definition handle_chunk_response_body :: "('sc, 'sk, 'v, 'md, 'st) node_env \<Rightarrow> 'sc InboundDraw \<Rightarrow> bytes \<Rightarrow> ('sc, 'sk) NodeRunner \<Rightarrow> ('sc, 'sk) NodeRunner" where
  "handle_chunk_response_body env d body r =
     (case process_fragment body (retriever r) of
        (Inr (Some response), m) \<Rightarrow>
          let r = r\<lparr>retriever := m\<rparr> in
          if resp_found response then
            (case handle_swap_chunk_retrieval (ne_transport env) (id_send d) (resp_chunk_id response) (resp_chunk_data response) (transport r) of
               (True, t) \<Rightarrow> r\<lparr>transport := t\<rparr>
             | (False, t) \<Rightarrow> record_response (id_now d) response (r\<lparr>transport := t\<rparr>))
          else send_missing_chunk_gossip env (id_now d) (id_return_shuffle d) (id_peers d) (resp_chunk_id response) (resp_chunk_id response) r
      | (_, m) \<Rightarrow> r\<lparr>retriever := m\<rparr>)"

definition handle_sphinx_body :: "('sc, 'sk, 'v, 'md, 'st) node_env \<Rightarrow> 'sc InboundDraw \<Rightarrow> bytes \<Rightarrow> ('sc, 'sk) NodeRunner \<Rightarrow> compute_task list \<times> ('sc, 'sk) NodeRunner" where
  "handle_sphinx_body env d body r =
     (let r = handle_chunk_response_body env d body r;
          r = handle_maintenance_fragment env d body r;
          (tasks, r) = handle_compute_fragment env d body r;
          r = handle_verification_fragment env d body r;
          r = handle_lifecycle_fragment env d body r
      in (tasks, r))"

definition handle_session_reply :: "('sc, 'sk, 'v, 'md, 'st) node_env \<Rightarrow> 'sc InboundDraw \<Rightarrow> SessionReply \<Rightarrow> ('sc, 'sk) NodeRunner \<Rightarrow> ('sc, 'sk) NodeRunner" where
  "handle_session_reply env d reply r =
     (case hm_get (surb_sessions r) (sr_session_id reply) of
        None \<Rightarrow> r
      | Some key \<Rightarrow>
          (case decrypt_session_reply_body (ne_sphinx env) reply (ss_body_aead_key key) (ss_aad_destination key) of
             Inr plaintext \<Rightarrow> handle_chunk_response_body env d plaintext r
           | Inl _ \<Rightarrow> r))"

definition handle_inbound :: "('sc, 'sk, 'v, 'md, 'st) node_env \<Rightarrow> 'sc InboundDraw \<Rightarrow> InboundMessage \<Rightarrow> ('sc, 'sk) NodeRunner \<Rightarrow> compute_task list \<times> ('sc, 'sk) NodeRunner" where
  "handle_inbound env d msg r =
     (let r = (if is_reconnection msg then snd (trigger_reconciliation env (id_now d) (id_peers d) (im_from msg) r) else r) in
      case im_message msg of
        SphinxMsg packet \<Rightarrow> if node_mode (config r) = BackupOnly then ([], r) else handle_sphinx_body env d (sp_body packet) r
      | SessionReplyMsg reply \<Rightarrow> if node_mode (config r) = BackupOnly then ([], r) else ([], handle_session_reply env d reply r)
      | _ \<Rightarrow> ([], r))"

section \<open>Fetching the chunks of pending swaps\<close>

fun SphinxError_str :: "SphinxError \<Rightarrow> bytes" where
  "SphinxError_str MacVerificationFailed = ascii_bytes ''MAC verification failed''"
| "SphinxError_str SphinxReplayDetected = ascii_bytes ''replay detected''"
| "SphinxError_str InvalidPacketSize = ascii_bytes ''invalid packet size''"
| "SphinxError_str InvalidRoutingFlag = ascii_bytes ''invalid routing flag''"
| "SphinxError_str RouteTooLong = ascii_bytes ''route too long''"
| "SphinxError_str BodyTooLarge = ascii_bytes ''body too large''"
| "SphinxError_str (UnsupportedVersion v) = ascii_bytes ''unsupported sphinx packet version: '' @ decimal (unat v)"
| "SphinxError_str InvalidKemCiphertext = ascii_bytes ''invalid ML-KEM ciphertext''"
| "SphinxError_str InvalidKemPublicKey = ascii_bytes ''invalid ML-KEM public key size''"
| "SphinxError_str BodyAuthFailed = ascii_bytes ''AEAD body authentication failed''"
| "SphinxError_str SessionNotFound = ascii_bytes ''reply session not found''"
| "SphinxError_str SessionExpired = ascii_bytes ''reply session expired''"

definition new_reply_session ::
  "('sc, 'sk, 'v, 'md, 'st) node_env \<Rightarrow> u64 \<Rightarrow> shuffle \<Rightarrow> 'sc PacketRandom \<Rightarrow> ('sc, 'sk) NodeRunner \<Rightarrow> (NodeError + Surb) \<times> ('sc, 'sk) NodeRunner" where
  "new_reply_session env now return_shuffle rnd r =
     (case create_surb_hybrid (ne_sphinx env) rnd (build_self_return_route (ne_transport env) return_shuffle (transport r)) of
        Inl e \<Rightarrow> (Inl (Bail (ascii_bytes ''SURB creation failed: '' @ SphinxError_str e)), r)
      | Inr (surb, _) \<Rightarrow>
          let open_sessions = surb_sessions r;
              open_sessions = (if MAX_SURB_SESSIONS \<le> hm_len open_sessions
                          then (case open_sessions of (oldest, _) # _ \<Rightarrow> hm_remove oldest open_sessions | [] \<Rightarrow> []) else open_sessions)
          in (Inr surb, r\<lparr>surb_sessions := hm_insert (session_id surb)
                \<lparr>ss_body_aead_key = body_aead_key surb, ss_aad_destination = aad_destination surb, ss_created_at = now\<rparr> open_sessions\<rparr>))"

definition send_surb_request ::
  "('sc, 'sk, 'v, 'md, 'st) node_env \<Rightarrow> 'sc SendDraw \<Rightarrow> ChunkId \<Rightarrow> KnownNode \<Rightarrow> Surb \<Rightarrow> ('sc, 'sk) NodeRunner \<Rightarrow> (NodeError + unit) \<times> ('sc, 'sk) NodeRunner" where
  "send_surb_request env d chunk_id peer surb r =
     (case build_route_to_destination (sd_shuffle d) (kn_node_id peer) (transport r) of
        None \<Rightarrow> (Inl (Bail (ascii_bytes ''No route to candidate holder'')), r)
      | Some forward \<Rightarrow>
          (case create_surb_request_packets (ne_sphinx env) (sd_packets d) chunk_id surb forward of
             Inl e \<Rightarrow> (Inl (NodeRetrieval e), r)
           | Inr packets \<Rightarrow>
               (case send_all (hh_node_id (hd (hybrid_hops forward))) packets (transport r) of
                  (Inl e, t) \<Rightarrow> (Inl (NodeTransport e), r\<lparr>transport := t\<rparr>)
                | (Inr _, t) \<Rightarrow> (Inr (), r\<lparr>transport := t\<rparr>))))"

definition request_swap_chunk ::
  "('sc, 'sk, 'v, 'md, 'st) node_env \<Rightarrow> nat \<Rightarrow> Surb \<Rightarrow> 'sc SendDraw \<Rightarrow> bytes \<times> NodeId \<times> ChunkId \<Rightarrow> nat \<times> ('sc, 'sk) NodeRunner \<Rightarrow> nat \<times> ('sc, 'sk) NodeRunner" where
  "request_swap_chunk env instant surb d target = (\<lambda>(sent, r).
     (case target of (pid, peer, chunk_id) \<Rightarrow>
        (case hm_get (nodes (routing_table (transport r))) peer of
           None \<Rightarrow> (sent, r)
         | Some peer_node \<Rightarrow>
             (case send_surb_request env d chunk_id peer_node surb r of
                (Inl _, r) \<Rightarrow> (sent, r)
              | (Inr _, r) \<Rightarrow>
                  (sent + 1,
                   map_transport (\<lambda>t. t\<lparr>swap_state := mark_retrieval_requested pid (swap_state t)\<rparr>)
                     (r\<lparr>retriever := mgr_start_retrieval instant pid (retriever r)\<rparr>))))))"

definition swap_targets :: "SwapState \<Rightarrow> (bytes \<times> NodeId \<times> ChunkId) list" where
  "swap_targets s =
     map (\<lambda>x. (ps_proposal_id x, ps_peer x, their_chunk_id x))
       (filter (\<lambda>x. \<not> received_their_chunk x \<and> \<not> retrieval_requested x \<and> their_chunk_id x \<noteq> replicate 32 0) (hm_values (pending_swaps s)))"

definition process_swap_retrievals ::
  "('sc, 'sk, 'v, 'md, 'st) node_env \<Rightarrow> nat \<Rightarrow> u64 \<Rightarrow> shuffle \<Rightarrow> 'sc PacketRandom \<Rightarrow> (nat \<Rightarrow> 'sc SendDraw) \<Rightarrow> ('sc, 'sk) NodeRunner \<Rightarrow> nat \<times> ('sc, 'sk) NodeRunner" where
  "process_swap_retrievals env instant now return_shuffle rnd ds r =
     (let targets = swap_targets (swap_state (transport r)) in
      if targets = [] then (0, r)
      else case new_reply_session env now return_shuffle rnd r of
             (Inl _, r) \<Rightarrow> (0, r)
           | (Inr surb, r) \<Rightarrow> fold (\<lambda>(i, target). request_swap_chunk env instant surb (ds i) target) (enumerate 0 targets) (0, r))"

end
