(* ===== verification/InboundDelivery.thy ===== *)
theory InboundDelivery
  imports NodeInbound
begin

text \<open>
  What the fragment pipelines of \<^verbatim>\<open>NodeInbound\<close> deliver. The contract of a pipeline is the interface \<open>fragment_pipeline\<close>, interpreted on the
  compute, verification, lifecycle and maintenance pipelines: the bodies of one message, in any order and with repetitions, are
  collected and its payload is dispatched once, at the body that completes it. On top of it, a storage challenge is decided by the
  data the challenged node holds, and a compute request and its quote reach their handlers.
\<close>

section \<open>A pipeline delivers\<close>

definition idle :: "Reassembler \<Rightarrow> bool" where
  "idle ra \<longleftrightarrow> total_expected ra = None \<and> fragments ra = []"

lemma idle_holds: "idle ra \<Longrightarrow> holds t {} ra"
  by (auto simp: idle_def holds_def reassembler_inv_def)

lemma idle_new: "idle (Reassembler_new now)"
  by (simp add: idle_def Reassembler_new_def)

lemma created_at_add: "created_at (snd (Reassembler_add_fragment f ra)) = created_at ra"
  by (auto simp: Reassembler_add_fragment_def Let_def split: option.splits)

lemma holds_add_new:
  assumes "message t F" "S \<subseteq> F" "f \<in> F" "holds t S ra"
  shows "fst (Reassembler_add_fragment f ra) \<longleftrightarrow> f \<notin> S" "can_accept_fragment ra f \<longleftrightarrow> f \<notin> S"
proof -
  have "hm_contains (fragments ra) (fragment_id f) \<longleftrightarrow> fragment_id f \<in> fragment_id ` S"
    using holds_keys [OF assms(4)] by (simp add: hm_contains_alt)
  also have "\<dots> \<longleftrightarrow> f \<in> S" using assms(1-3) by (auto simp: message_def inj_on_def)
  finally show "can_accept_fragment ra f \<longleftrightarrow> f \<notin> S"
    using assms by (auto simp: can_accept_fragment_def message_def holds_def split: option.splits if_splits)
  then show "fst (Reassembler_add_fragment f ra) \<longleftrightarrow> f \<notin> S" using can_accept_add assms(4) by (auto simp: holds_def)
qed

lemma collect_cases:
  assumes "message t F" "fragment_id ` F = {i. i < t}" "S \<subseteq> F" "f \<in> F" "holds t S ra" "instant - created_at ra < 300 * 10 ^ 9"
    and ra': "ra' = snd (Reassembler_add_fragment f ra)"
  shows "insert f S \<noteq> F \<or> f \<in> S \<Longrightarrow> collect_fragment instant f ra = (None, ra')"
    "insert f S = F \<Longrightarrow> f \<notin> S \<Longrightarrow> reassemble ra' = Inr payload \<Longrightarrow> collect_fragment instant f ra = (Some payload, Reassembler_new instant)"
    "holds t (insert f S) ra'" "created_at ra' = created_at ra"
proof -
  show h: "holds t (insert f S) ra'" unfolding ra' by (rule holds_add [OF assms(1, 3-5)])
  show "created_at ra' = created_at ra" by (simp add: ra' created_at_add)
  have young: "snd (Reassembler_cleanup_expired instant 300 ra) = ra"
    using assms(6) by (simp add: Reassembler_cleanup_expired_def is_expired_def not_le)
  have add: "Reassembler_add_fragment f ra = (f \<notin> S, ra')"
    using holds_add_new(1) [OF assms(1, 3-5)] by (simp add: ra' prod_eq_iff)
  have full: "is_complete ra' \<longleftrightarrow> insert f S = F" using holds_complete [OF assms(1, 2) _ h] assms(3, 4) by simp
  show "insert f S \<noteq> F \<or> f \<in> S \<Longrightarrow> collect_fragment instant f ra = (None, ra')"
    by (cases "f \<in> S") (auto simp: collect_fragment_def young add full)
  show "insert f S = F \<Longrightarrow> f \<notin> S \<Longrightarrow> reassemble ra' = Inr payload \<Longrightarrow> collect_fragment instant f ra = (Some payload, Reassembler_new instant)"
    by (simp add: collect_fragment_def young add full)
qed

text \<open>A collection that is 300 seconds old when a fragment comes is given up and started again at that moment.\<close>

lemma aged_collection_restarts:
  assumes "300 * 10 ^ 9 \<le> instant - created_at ra"
  shows "collect_fragment instant f ra = collect_fragment instant f (Reassembler_new instant)"
  using assms by (cases ra) (simp add: collect_fragment_def Reassembler_cleanup_expired_def is_expired_def Reassembler_new_def)

definition collection_start :: "nat \<Rightarrow> Reassembler \<Rightarrow> nat" where
  "collection_start first ra = (if 300 * 10 ^ 9 \<le> first - created_at ra then first else created_at ra)"

fun run_steps :: "('d \<Rightarrow> bytes \<Rightarrow> 'r \<Rightarrow> 'o \<times> 'r) \<Rightarrow> ('d \<times> bytes) list \<Rightarrow> 'r \<Rightarrow> 'o list \<times> 'r" where
  "run_steps step [] r = ([], r)"
| "run_steps step ((d, body) # msgs) r =
     (case step d body r of (out, r) \<Rightarrow> (case run_steps step msgs r of (outs, r) \<Rightarrow> (out # outs, r)))"

lemma run_steps_snoc:
  "run_steps step (msgs @ [(d, body)]) r =
     (case run_steps step msgs r of (outs, r) \<Rightarrow> (case step d body r of (out, r) \<Rightarrow> (outs @ [out], r)))"
  by (induction msgs arbitrary: r) (auto simp: split_beta')

text \<open>The contract of a pipeline: where its collection lives, which fragments it claims, and what it does with a complete payload.\<close>

locale fragment_pipeline =
  fixes get :: "'r \<Rightarrow> Reassembler" and put :: "Reassembler \<Rightarrow> 'r \<Rightarrow> 'r" and claim :: "Reassembler \<Rightarrow> Fragment \<Rightarrow> bool"
    and clock :: "'d \<Rightarrow> nat" and nothing :: 'o
    and dispatch :: "'d \<Rightarrow> bytes \<Rightarrow> 'r \<Rightarrow> 'o \<times> 'r" and step :: "'d \<Rightarrow> bytes \<Rightarrow> 'r \<Rightarrow> 'o \<times> 'r"
  assumes get_put: "get (put ra r) = ra" and put_get: "put (get r) r = r" and put_put: "put ra' (put ra r) = put ra' r"
    and claim_open: "\<lbrakk>total_expected ra \<noteq> None; can_accept_fragment ra f\<rbrakk> \<Longrightarrow> claim ra f"
    and step: "step d body r =
      (case deserialize_fragment body of
         Inl _ \<Rightarrow> (nothing, r)
       | Inr f \<Rightarrow>
           if \<not> claim (get r) f then (nothing, r)
           else (case collect_fragment (clock d) f (get r) of
                   (None, ra) \<Rightarrow> (nothing, put ra r)
                 | (Some payload, ra) \<Rightarrow> dispatch d payload (put ra r)))"
begin

lemma claimed:
  assumes "message t F" "S \<subseteq> F" "f \<in> F" "holds t S (get r)" "S = {} \<Longrightarrow> claim (get r) f" "f \<notin> S"
  shows "claim (get r) f"
  using assms holds_add_new(2) [OF assms(1-4)] claim_open [of "get r" f] by (cases "S = {}") (auto simp: holds_def)

lemma collects:
  assumes "message t F" "fragment_id ` F = {i. i < t}" "S \<subseteq> F" "f \<in> F" "holds t S (get r)" "clock d - created_at (get r) < 300 * 10 ^ 9"
    "S = {} \<Longrightarrow> claim (get r) f" "insert f S \<noteq> F"
  shows "\<exists>ra. step d (serialize_fragment f) r = (nothing, put ra r) \<and> holds t (insert f S) ra \<and> created_at ra = created_at (get r)"
proof -
  have f: "deserialize_fragment (serialize_fragment f) = Inr f"
    using assms(1, 4) by (intro deserialize_serialize_fragment) (auto simp: message_def)
  note c = collect_cases [OF assms(1-6) refl]
  show ?thesis
  proof (cases "claim (get r) f")
    case True
    then show ?thesis using c(1) assms(8) by (intro exI [of _ "snd (Reassembler_add_fragment f (get r))"]) (simp add: step f c(3, 4))
  next
    case False
    then have "f \<in> S" using claimed [OF assms(1, 3-5, 7)] by blast
    then show ?thesis using False assms(5) by (intro exI [of _ "get r"]) (simp add: step f put_get insert_absorb)
  qed
qed

lemma collects_all:
  assumes "message t F" "fragment_id ` F = {i. i < t}" "S \<union> set (map snd fs) \<subset> F" "holds t S (get r)"
    "\<forall>d\<in>set (map fst fs). clock d - created_at (get r) < 300 * 10 ^ 9" "S = {} \<Longrightarrow> fs \<noteq> [] \<Longrightarrow> claim (get r) (snd (hd fs))"
  shows "\<exists>ra. run_steps step (map (\<lambda>(d, f). (d, serialize_fragment f)) fs) r = (replicate (length fs) nothing, put ra r) \<and>
    holds t (S \<union> set (map snd fs)) ra \<and> created_at ra = created_at (get r)"
  using assms(3-6)
proof (induction fs arbitrary: S r)
  case Nil
  then show ?case by (intro exI [of _ "get r"]) (simp add: put_get)
next
  case (Cons x fs)
  obtain d f where x: "x = (d, f)" by (cases x)
  have "S \<subseteq> F" "f \<in> F" "insert f S \<noteq> F" using Cons.prems(1) by (auto simp: x)
  then obtain ra where ra: "step d (serialize_fragment f) r = (nothing, put ra r)" "holds t (insert f S) ra" "created_at ra = created_at (get r)"
    using collects [OF assms(1, 2) _ _ Cons.prems(2), of f d] Cons.prems(3, 4) by (auto simp: x)
  then obtain ra' where "run_steps step (map (\<lambda>(d, f). (d, serialize_fragment f)) fs) (put ra r) = (replicate (length fs) nothing, put ra' (put ra r))"
      "holds t (insert f S \<union> set (map snd fs)) ra'" "created_at ra' = created_at (get (put ra r))"
    using Cons.IH [of "insert f S" "put ra r"] Cons.prems by (auto simp: x get_put)
  then show ?case using ra by (intro exI [of _ ra']) (simp add: x get_put put_put insert_commute)
qed

lemma delivers:
  assumes "length payload \<le> 2048 * 1012" "idle (get r)" "\<forall>(d, _)\<in>set (fs @ [(d, f)]). clock d - created_at (get r) < 300 * 10 ^ 9"
    "snd ` set (fs @ [(d, f)]) = set (fragment_payload payload)" "f \<notin> snd ` set fs" "claim (get r) (snd (hd (fs @ [(d, f)])))"
  shows "run_steps step (map (\<lambda>(d, f). (d, serialize_fragment f)) (fs @ [(d, f)])) r =
    (replicate (length fs) nothing @ [fst (dispatch d payload (put (Reassembler_new (clock d)) r))], snd (dispatch d payload (put (Reassembler_new (clock d)) r)))"
proof -
  let ?t = "word_of_nat (fragment_count payload)" and ?F = "set (fragment_payload payload)"
  note m = message_payload [OF assms(1)] and ids = fragment_ids [OF assms(1)]
  have F: "?F = insert f (set (map snd fs))" "f \<notin> set (map snd fs)" using assms(4, 5) by auto
  then have sub: "{} \<union> set (map snd fs) \<subset> ?F" by auto
  have young: "\<forall>d\<in>set (map fst fs). clock d - created_at (get r) < 300 * 10 ^ 9" using assms(3) by auto
  have first: "claim (get r) (snd (hd fs))" if "fs \<noteq> []" using assms(6) that by simp
  obtain ra where ra: "run_steps step (map (\<lambda>(d, f). (d, serialize_fragment f)) fs) r = (replicate (length fs) nothing, put ra r)"
      "holds ?t (set (map snd fs)) ra" "created_at ra = created_at (get r)"
    using collects_all [OF m ids sub idle_holds [OF assms(2)] young first] by auto
  have dec: "deserialize_fragment (serialize_fragment f) = Inr f"
    using m F by (intro deserialize_serialize_fragment) (auto simp: message_def)
  have young_f: "clock d - created_at ra < 300 * 10 ^ 9" using assms(3) ra(3) by simp
  have in_F: "set (map snd fs) \<subseteq> ?F" "f \<in> ?F" using F by auto
  have "reassemble (snd (Reassembler_add_fragment f ra)) = Inr payload"
    using holds_add [OF m in_F ra(2)] F(1) by (intro holds_reassemble [OF assms(1)]) simp
  then have collect: "collect_fragment (clock d) f ra = (Some payload, Reassembler_new (clock d))"
    using collect_cases(2) [OF m ids in_F ra(2) young_f refl] F by simp
  have "claim ra f"
  proof (cases "fs = []")
    case True
    then have "get (put ra r) = get r" using ra(1) by simp
    then show ?thesis using True assms(6) by (simp add: get_put)
  next
    case False
    then show ?thesis using claimed [OF m in_F, of "put ra r"] ra(2) F(2) by (simp add: get_put)
  qed
  then have last: "step d (serialize_fragment f) (put ra r) = dispatch d payload (put (Reassembler_new (clock d)) r)"
    by (simp add: step dec get_put collect put_put)
  show ?thesis by (simp add: run_steps_snoc ra(1) last prod.case_eq_if)
qed

lemma restarts:
  assumes "300 * 10 ^ 9 \<le> clock d - created_at (get r)" "deserialize_fragment body = Inr f" "claim (get r) f" "claim (Reassembler_new (clock d)) f"
  shows "step d body r = step d body (put (Reassembler_new (clock d)) r)"
  using assms aged_collection_restarts [OF assms(1), of f] by (simp add: step get_put put_put split: prod.split option.split)

text \<open>The collection the first body meets may be of any age: an idle one that is young enough, or any one that is so old that it is started again.\<close>

lemma delivers_any_age:
  assumes "length payload \<le> 2048 * 1012" "msgs = fs @ [(d, f)]" "idle (get r) \<or> 300 * 10 ^ 9 \<le> clock (fst (hd msgs)) - created_at (get r)"
    "\<forall>(d, _)\<in>set msgs. clock d - collection_start (clock (fst (hd msgs))) (get r) < 300 * 10 ^ 9"
    "snd ` set msgs = set (fragment_payload payload)" "f \<notin> snd ` set fs" "claim (get r) (snd (hd msgs))" "claim (Reassembler_new (clock (fst (hd msgs)))) (snd (hd msgs))"
  shows "run_steps step (map (\<lambda>(d, f). (d, serialize_fragment f)) msgs) r =
    (replicate (length fs) nothing @ [fst (dispatch d payload (put (Reassembler_new (clock d)) r))], snd (dispatch d payload (put (Reassembler_new (clock d)) r)))"
proof (cases "300 * 10 ^ 9 \<le> clock (fst (hd msgs)) - created_at (get r)")
  case True
  obtain d1 f1 rest where m: "msgs = (d1, f1) # rest" using assms(2) by (metis append_is_Nil_conv list.distinct(1) neq_Nil_conv surj_pair)
  have "f1 \<in> set (fragment_payload payload)" using assms(5) m by force
  then have f1: "deserialize_fragment (serialize_fragment f1) = Inr f1"
    using message_payload [OF assms(1)] by (intro deserialize_serialize_fragment) (auto simp: message_def)
  let ?r = "put (Reassembler_new (clock d1)) r"
  have "step d1 (serialize_fragment f1) r = step d1 (serialize_fragment f1) ?r"
    using restarts [of d1 r "serialize_fragment f1" f1] True f1 assms(7,8) m by simp
  then have "run_steps step (map (\<lambda>(d, f). (d, serialize_fragment f)) msgs) r = run_steps step (map (\<lambda>(d, f). (d, serialize_fragment f)) msgs) ?r"
    by (simp add: m)
  also have "\<dots> = (replicate (length fs) nothing @ [fst (dispatch d payload (put (Reassembler_new (clock d)) ?r))], snd (dispatch d payload (put (Reassembler_new (clock d)) ?r)))"
    unfolding assms(2)
  proof (rule delivers [OF assms(1)])
    show "idle (get ?r)" by (simp add: get_put idle_new)
    show "\<forall>(d, _)\<in>set (fs @ [(d, f)]). clock d - created_at (get ?r) < 300 * 10 ^ 9"
      using assms(4) True m by (simp add: assms(2) [symmetric] collection_start_def get_put Reassembler_new_def)
    show "snd ` set (fs @ [(d, f)]) = set (fragment_payload payload)" using assms(2,5) by simp
    show "claim (get ?r) (snd (hd (fs @ [(d, f)])))" using assms(8) m by (simp add: assms(2) [symmetric] get_put)
  qed (rule assms(6))
  finally show ?thesis by (simp add: put_put)
next
  case False
  then show ?thesis using assms unfolding assms(2) by (intro delivers) (simp_all add: collection_start_def)
qed

end

abbreviation put_compute :: "Reassembler \<Rightarrow> ('sc, 'sk) NodeRunner \<Rightarrow> ('sc, 'sk) NodeRunner" where
  "put_compute ra \<equiv> with_compute (cs_reassembler_update (\<lambda>_. ra))"

abbreviation put_verification :: "Reassembler \<Rightarrow> ('sc, 'sk) NodeRunner \<Rightarrow> ('sc, 'sk) NodeRunner" where
  "put_verification ra r \<equiv> r\<lparr>verification_state := (verification_state r)\<lparr>vs_reassembler := ra\<rparr>\<rparr>"

abbreviation with_unit :: "('d \<Rightarrow> bytes \<Rightarrow> 'r \<Rightarrow> 'r) \<Rightarrow> 'd \<Rightarrow> bytes \<Rightarrow> 'r \<Rightarrow> unit \<times> 'r" where
  "with_unit f d body r \<equiv> ((), f d body r)"

interpretation compute_pipe: fragment_pipeline "\<lambda>r. cs_reassembler (compute_state r)" put_compute "\<lambda>_ _. True" id_instant "[]"
    "dispatch_compute env" "handle_compute_fragment env" for env
  by unfold_locales (simp_all add: with_compute_def handle_compute_fragment_def split: sum.split option.split)

interpretation verification_pipe: fragment_pipeline "\<lambda>r. vs_reassembler (verification_state r)" put_verification "\<lambda>_ _. True" id_instant "()"
    "with_unit (dispatch_verification env)" "with_unit (handle_verification_fragment env)" for env
  by unfold_locales (auto simp: handle_verification_fragment_def split_beta' split: sum.split option.split prod.split)

interpretation lifecycle_pipe: fragment_pipeline lifecycle_reassembler "\<lambda>ra r. r\<lparr>lifecycle_reassembler := ra\<rparr>" "\<lambda>_ _. True" id_instant "()"
    "with_unit (dispatch_lifecycle env)" "with_unit (handle_lifecycle_fragment env)" for env
  by unfold_locales (auto simp: handle_lifecycle_fragment_def split_beta' split: sum.split option.split prod.split)

interpretation maintenance_pipe: fragment_pipeline maintenance_reassembler "\<lambda>ra r. r\<lparr>maintenance_reassembler := ra\<rparr>" claims_fragment id_instant "()"
    "with_unit (dispatch_maintenance env)" "with_unit (handle_maintenance_fragment env)" for env
  by unfold_locales (auto simp: handle_maintenance_fragment_def claims_fragment_def split_beta' split: sum.split option.split prod.split)

section \<open>Messages reach their handlers\<close>

text \<open>The bodies of one message as they arrive: every fragment of the payload, in any order and possibly repeated, the last one completing it. The collection they meet is
  idle or at least 300 seconds old, and all of them come within 300 seconds of its start: of its last reset, or of the first body when the collection was so old then.\<close>

definition arrives :: "bytes \<Rightarrow> ('sc InboundDraw \<times> Fragment) list \<Rightarrow> 'sc InboundDraw \<Rightarrow> Fragment \<Rightarrow> Reassembler \<Rightarrow> bool" where
  "arrives payload fs d f ra \<longleftrightarrow>
     (let first = id_instant (fst (hd (fs @ [(d, f)]))) in
      length payload \<le> 2048 * 1012 \<and> (idle ra \<or> 300 * 10 ^ 9 \<le> first - created_at ra) \<and>
      (\<forall>(d, _)\<in>set (fs @ [(d, f)]). id_instant d - collection_start first ra < 300 * 10 ^ 9)) \<and>
     snd ` set (fs @ [(d, f)]) = set (fragment_payload payload) \<and> f \<notin> snd ` set fs"

abbreviation as_bodies :: "('sc InboundDraw \<times> Fragment) list \<Rightarrow> ('sc InboundDraw \<times> bytes) list" where
  "as_bodies \<equiv> map (\<lambda>(d, f). (d, serialize_fragment f))"

lemma compute_delivers:
  "arrives payload fs d f (cs_reassembler (compute_state r)) \<Longrightarrow>
     run_steps (handle_compute_fragment env) (as_bodies (fs @ [(d, f)])) r =
       (replicate (length fs) [] @ [fst (dispatch_compute env d payload (put_compute (Reassembler_new (id_instant d)) r))],
        snd (dispatch_compute env d payload (put_compute (Reassembler_new (id_instant d)) r)))"
  unfolding arrives_def Let_def by (intro compute_pipe.delivers_any_age [OF _ refl]) simp_all

lemma verification_delivers:
  "arrives payload fs d f (vs_reassembler (verification_state r)) \<Longrightarrow>
     snd (run_steps (with_unit (handle_verification_fragment env)) (as_bodies (fs @ [(d, f)])) r) =
       dispatch_verification env d payload (put_verification (Reassembler_new (id_instant d)) r)"
  unfolding arrives_def Let_def by (subst verification_pipe.delivers_any_age [OF _ refl]) simp_all

lemma lifecycle_delivers:
  "arrives payload fs d f (lifecycle_reassembler r) \<Longrightarrow>
     snd (run_steps (with_unit (handle_lifecycle_fragment env)) (as_bodies (fs @ [(d, f)])) r) =
       dispatch_lifecycle env d payload (r\<lparr>lifecycle_reassembler := Reassembler_new (id_instant d)\<rparr>)"
  unfolding arrives_def Let_def by (subst lifecycle_pipe.delivers_any_age [OF _ refl]) simp_all

lemma segment_of_bound: "segment_of i data = Some bs \<Longrightarrow> length bs \<le> SEGMENT_SIZE"
  by (auto simp: segment_of_def Let_def split: if_splits)

lemma answer_roundtrip:
  assumes "length (vc_chunk_id c) = 32" "length (vc_nonce c) = 32"
  shows "\<exists>payload. serialize_verification_response (verification_answer c r) = Inr payload \<and> hd payload = MSG_VERIFICATION_RESPONSE \<and> payload \<noteq> [] \<and>
    deserialize_verification_response payload = Inr (verification_answer c r)"
proof -
  have ok: "verification_response_ok (verification_answer c r)" using assms by (simp add: verification_response_ok_def verification_answer_def Let_def)
  have "length (vr_segment_data (verification_answer c r)) \<le> MAX_SEGMENT_DATA_SIZE"
    using segment_of_bound by (auto simp: verification_answer_def held_segment_def Let_def MAX_SEGMENT_DATA_SIZE_def split: option.splits)
  with verification_response_roundtrip [OF ok this, of "[]"] show ?thesis
    by (auto simp: serialize_verification_response_def)
qed

text \<open>C20 (functional). A storage challenge is decided by what the challenged node holds. When the bodies of its answer reach the challenger's collection, in
  whatever order and with repetitions, and the collection is idle or at least 300 seconds old at the first body and younger than 300 seconds at every later one (counted from its last reset, or from
  the first body if that restarted it), the challenge is settled: the challenger records a success if the node holds the very segment whose hash was published, and
  a failure if it does not, unless the node found another segment with the same hash.\<close>

theorem storage_challenge_decides:
  assumes "length (vc_chunk_id c) = 32" "length (vc_nonce c) = 32"
    "hm_get (vs_pending (verification_state r)) (vc_nonce c) = Some entry" "expected_hash entry = blake3 (ne_storage env) original"
    "serialize_verification_response (verification_answer c holder) = Inr payload" "arrives payload fs d f (vs_reassembler (verification_state r))"
    "r' = snd (run_steps (with_unit (handle_verification_fragment env)) (as_bodies (fs @ [(d, f)])) r)"
  shows "hm_get (vs_pending (verification_state r')) (vc_nonce c) = None \<and>
    (if held_segment c holder = Some original
     then accounting r' = record_challenge_success (id_now d) (challenged_node entry) (accounting r)
     else accounting r' = record_challenge_failure (id_now d) (challenged_node entry) (accounting r) \<or>
       (\<exists>other. held_segment c holder = Some other \<and> other \<noteq> original \<and> blake3 (ne_storage env) other = blake3 (ne_storage env) original))"
proof -
  let ?a = "verification_answer c holder" and ?r = "put_verification (Reassembler_new (id_instant d)) r"
  have p: "payload \<noteq> []" "hd payload = MSG_VERIFICATION_RESPONSE" "deserialize_verification_response payload = Inr ?a"
    using answer_roundtrip [OF assms(1, 2), of holder] assms(5) by auto
  have "r' = dispatch_verification env d payload ?r" unfolding assms(7) by (rule verification_delivers [OF assms(6)])
  then have "r' = handle_verification_response env (id_now d) ?a ?r"
    using p by (cases payload) (simp_all add: dispatch_verification_def MSG_VERIFICATION_RESPONSE_def MSG_VERIFICATION_CHALLENGE_def)
  moreover have "vr_nonce ?a = vc_nonce c" "verify_segment_response h ?a e \<longleftrightarrow> (\<exists>bs. held_segment c holder = Some bs \<and> h bs = e)" for h e
    by (auto simp: verification_answer_def Let_def verify_segment_response_def split: option.splits)
  ultimately show ?thesis using assms(3, 4) by (auto simp: handle_verification_response_def Let_def)
qed

definition demo_draw_at :: "nat \<Rightarrow> u8 InboundDraw" where
  "demo_draw_at t = \<lparr>id_instant = t, id_now = 50, id_packets = demo_rnd, id_send = \<lparr>sd_shuffle = id, sd_packets = demo_rnd, sd_nonce = [], sd_sign_nonce = []\<rparr>,
     id_return_shuffle = id, id_peers = (\<lambda>_. \<lparr>sd_shuffle = id, sd_packets = demo_rnd, sd_nonce = [], sd_sign_nonce = []\<rparr>)\<rparr>"

definition demo_query :: VerificationChallenge where
  "demo_query = \<lparr>vc_chunk_id = replicate 32 1, vc_segment_index = 0, vc_nonce = replicate 32 2, vc_return_route = \<lparr>rr_hops = [], rr_destination = []\<rparr>\<rparr>"

definition demo_holder :: "(u8, nat) NodeRunner" where
  "demo_holder = map_transport (\<lambda>t. t\<lparr>chunk_holder := holder_add_chunk (replicate 32 1) [7, 8, 9] [] (chunk_holder t)\<rparr>) demo_runner"

definition demo_challenger :: "(u8, nat) NodeRunner" where
  "demo_challenger = demo_runner\<lparr>verification_state := \<lparr>vs_pending = [(replicate 32 2,
     \<lparr>vp_chunk_id = replicate 32 1, vp_segment_index = 0, expected_hash = [7, 8, 9], challenged_node = [4], vp_sent_at = 10\<rparr>)], vs_reassembler = Reassembler_new 0\<rparr>\<rparr>"

lemma arrives_single:
  assumes "length payload \<le> 1012" "idle ra"
  shows "arrives payload [] d \<lparr>fragment_id = 0, total_fragments = 1, frag_data = payload\<rparr> ra"
proof -
  have "(length payload + 1011) div 1012 \<le> 1" using assms(1) by (simp add: div_le_mono [of _ "1012 + 1011" 1012, simplified])
  then have "fragment_count payload = 1" by (simp add: fragment_count_def)
  then show ?thesis using assms by (simp add: arrives_def fragment_payload_eq collection_start_def)
qed

definition demo_answer_fragment :: Fragment where
  "demo_answer_fragment = \<lparr>fragment_id = 0, total_fragments = 1,
     frag_data = MSG_VERIFICATION_RESPONSE # replicate 32 1 @ to_be32 0 @ replicate 32 2 @ [1] @ len_be32 3 @ [7, 8, 9]\<rparr>"

lemma demo_held: "held_segment demo_query demo_holder = Some [7, 8, 9]"
  by (simp add: held_segment_def demo_query_def demo_holder_def holder_get_chunk_def holder_add_chunk_def segment_of_def SEGMENT_SIZE_def)

lemma demo_answer: "serialize_verification_response (verification_answer demo_query demo_holder) = Inr (frag_data demo_answer_fragment)"
proof -
  have "verification_answer demo_query demo_holder =
      \<lparr>vr_chunk_id = replicate 32 1, vr_segment_index = 0, vr_segment_data = [7, 8, 9], vr_nonce = replicate 32 2, vr_found = True\<rparr>"
    unfolding verification_answer_def demo_held by (simp add: demo_query_def)
  then show ?thesis by (simp add: demo_answer_fragment_def serialize_verification_response_def MAX_SEGMENT_DATA_SIZE_def SEGMENT_SIZE_def numeral_3_eq_3)
qed

lemma demo_answer_arrives:
  assumes "verification_state r = verification_state demo_challenger"
  shows "arrives (frag_data demo_answer_fragment) [] (demo_draw_at 5) demo_answer_fragment (vs_reassembler (verification_state r))"
proof -
  have f: "demo_answer_fragment = \<lparr>fragment_id = 0, total_fragments = 1, frag_data = frag_data demo_answer_fragment\<rparr>" by (simp add: demo_answer_fragment_def)
  have "length (frag_data demo_answer_fragment) \<le> 1012" by (simp add: demo_answer_fragment_def)
  then show ?thesis
    by (subst (2) f, intro arrives_single) (simp_all add: assms demo_challenger_def demo_draw_at_def idle_def Reassembler_new_def)
qed

lemma demo_pending:
  "hm_get (vs_pending (verification_state demo_challenger)) (vc_nonce demo_query) = Some
     \<lparr>vp_chunk_id = replicate 32 1, vp_segment_index = 0, expected_hash = [7, 8, 9], challenged_node = [4], vp_sent_at = 10\<rparr>"
  by (simp add: demo_challenger_def demo_query_def hm_get_def)

lemma demo_hash: "blake3 (ne_storage demo_node_env) data = data"
  by (simp add: demo_node_env_def demo_transport_def)

lemma demo_query_sizes: "length (vc_chunk_id demo_query) = 32" "length (vc_nonce demo_query) = 32" "id_now (demo_draw_at t) = 50"
  by (simp_all add: demo_query_def demo_draw_at_def)

theorem storage_challenge_decides_witness:
  "accounting (snd (run_steps (with_unit (handle_verification_fragment demo_node_env)) (as_bodies ([] @ [(demo_draw_at 5, demo_answer_fragment)])) demo_challenger)) =
     record_challenge_success 50 [4] (accounting demo_challenger)"
  using storage_challenge_decides [OF demo_query_sizes(1, 2) demo_pending _ demo_answer demo_answer_arrives [OF refl] refl, where original = "[7, 8, 9]" and env = demo_node_env]
  by (simp add: demo_held demo_hash demo_query_sizes)

text \<open>C23 (functional). A compute request sent in fragments reaches the provider's handler: its bodies, in any order and with repetitions, cause no
  task until the last of them, at which the request is handled once, and the collection is empty again; provided that the collection is idle or at least 300 seconds old at
  the first body and younger than 300 seconds at every later one (counted from its last reset, or from the first body if that restarted it).\<close>

theorem compute_request_handled:
  assumes "compute_request_ok q" "serialize_compute_request q = Inr payload" "arrives payload fs d f (cs_reassembler (compute_state r))"
    "handle_compute_request env (id_now d) (id_packets d) q (put_compute (Reassembler_new (id_instant d)) r) = (tasks, r')"
  shows "run_steps (handle_compute_fragment env) (as_bodies (fs @ [(d, f)])) r = (replicate (length fs) [] @ [tasks], r')"
proof -
  have "deserialize_compute_request payload = Inr q" using compute_request_roundtrip [OF assms(1, 2), of "[]"] by simp
  moreover have "\<exists>rest. payload = MSG_COMPUTE_REQUEST # rest"
    using assms(2) by (auto simp: serialize_compute_request_def fail_if_def split: if_splits)
  ultimately have "dispatch_compute env d payload (put_compute (Reassembler_new (id_instant d)) r) = (tasks, r')"
    using assms(4) by (auto simp: dispatch_compute_def)
  then show ?thesis using compute_delivers [OF assms(3), of env] by simp
qed

theorem compute_request_handled_witness:
  "\<exists>payload. serialize_compute_request demo_compute_request = Inr payload \<and>
     fst (run_steps (handle_compute_fragment demo_node_env)
         (as_bodies ([] @ [(demo_draw_at 5, \<lparr>fragment_id = 0, total_fragments = 1, frag_data = payload\<rparr>)])) demo_runner) = [[QuoteTask demo_compute_request]]"
proof -
  define payload where "payload = projr (serialize_compute_request demo_compute_request)"
  let ?f = "\<lparr>fragment_id = 0, total_fragments = 1, frag_data = payload\<rparr>"
  have p: "serialize_compute_request demo_compute_request = Inr payload" "length payload \<le> 1012"
    by (simp_all add: payload_def serialize_compute_request_def demo_compute_request_def compute_limits append_return_route_def)
  have ok: "compute_request_ok demo_compute_request" by (simp add: demo_compute_request_def compute_request_ok_def route_ok_def)
  have a: "arrives payload [] (demo_draw_at 5) ?f (cs_reassembler (compute_state demo_runner))"
    by (rule arrives_single) (simp_all add: p(2) demo_runner_fields ComputeState_default_def demo_draw_at_def idle_def Reassembler_new_def)
  have "handle_compute_request demo_node_env (id_now (demo_draw_at 5)) (id_packets (demo_draw_at 5)) demo_compute_request
      (put_compute (Reassembler_new (id_instant (demo_draw_at 5))) demo_runner) =
      ([QuoteTask demo_compute_request], put_compute (Reassembler_new (id_instant (demo_draw_at 5))) demo_runner)"
    using demo_paid(1) by (simp add: handle_compute_request_def with_compute_def demo_runner_fields)
  from compute_request_handled [OF ok p(1) a this] p(1) show ?thesis by simp
qed

section \<open>Where collecting falls short\<close>

text \<open>A maintenance message is collected only from its first fragment on: a later fragment that comes first is dropped, and the rest of
  the message then waits for it until the collection expires.\<close>

lemma maintenance_needs_first:
  assumes "idle (maintenance_reassembler r)" "deserialize_fragment body = Inr f" "fragment_id f \<noteq> 0"
  shows "handle_maintenance_fragment env d body r = r"
  using assms by (simp add: handle_maintenance_fragment_def claims_fragment_def idle_def)

lemma reordered_maintenance_lost:
  assumes "length payload \<le> 2048 * 1012" "set (fragment_payload payload) = {f, g}" "f \<noteq> g" "fragment_id g \<noteq> 0"
    "idle (maintenance_reassembler r)" "id_instant e - created_at (maintenance_reassembler r) < 300 * 10 ^ 9"
  shows "\<exists>ra. handle_maintenance_fragment env e (serialize_fragment f) (handle_maintenance_fragment env d (serialize_fragment g) r) = r\<lparr>maintenance_reassembler := ra\<rparr>"
proof -
  note m = message_payload [OF assms(1), unfolded assms(2)] and ids = fragment_ids [OF assms(1), unfolded assms(2)]
  have dec: "deserialize_fragment (serialize_fragment x) = Inr x" if "x \<in> {f, g}" for x
    using m that by (intro deserialize_serialize_fragment) (auto simp: message_def)
  have "handle_maintenance_fragment env d (serialize_fragment g) r = r" using maintenance_needs_first [OF assms(5) dec assms(4)] by simp
  moreover have "collect_fragment (id_instant e) f (maintenance_reassembler r) = (None, snd (Reassembler_add_fragment f (maintenance_reassembler r)))"
    using collect_cases(1) [OF m ids _ _ idle_holds [OF assms(5)] assms(6) refl, of f] assms(3) by auto
  ultimately show ?thesis using dec [of f]
    by (cases "claims_fragment (maintenance_reassembler r) f") (auto simp: handle_maintenance_fragment_def intro: exI [of _ "maintenance_reassembler r"])
qed

text \<open>The age of a collection is counted from its last reset and not from the first fragment: when the collection turns 300 seconds old between two
  fragments of a message, the second discards the first, however shortly before it came.\<close>

lemma aging_collection_forgets:
  assumes "deserialize_fragment body = Inr g" "collect_fragment (id_instant d) f (cs_reassembler (compute_state r)) = (None, ra)" "ra = snd (Reassembler_add_fragment f (cs_reassembler (compute_state r)))"
    "300 * 10 ^ 9 \<le> id_instant e - created_at (cs_reassembler (compute_state r))"
  shows "handle_compute_fragment env e body (put_compute ra r) = handle_compute_fragment env e body (put_compute (Reassembler_new (id_instant e)) r)"
proof -
  have "created_at ra = created_at (cs_reassembler (compute_state r))" by (simp add: assms(3) created_at_add)
  then show ?thesis using compute_pipe.restarts [of e "put_compute ra r" body g env] assms(1,4) by (simp add: with_compute_def)
qed

end
