(* ===== verification/InboundSafety.thy ===== *)
theory InboundSafety
  imports InboundDelivery
begin

text \<open>
  What a node keeps whatever it is sent. \<open>outer\<close> collects the parts of the state that only few handlers change; each other handler has a
  frame lemma in \<open>node_frames\<close>. The results: the accounting changes only on an authenticated message; a prepayment is recorded together with its
  sponsorship or not at all, once per content and hour; and the memory that strangers can fill is bounded.
\<close>

named_theorems node_frames

section \<open>Frames\<close>

definition outer where
  "outer r = (accounting r, verification_state r, surb_sessions r, config r, retriever r, maintenance_reassembler r, lifecycle_reassembler r,
     single_chunks r, completed_results (compute_state r), cs_reassembler (compute_state r))"

lemma outer_transport [node_frames]: "outer (map_transport f r) = outer r"
  by (simp add: outer_def)

lemma outer_with_leases [node_frames]: "outer (with_leases l r) = outer r"
  by (simp add: outer_def with_leases_def)

lemma outer_send_each [node_frames]: "outer (send_each hop packets r) = outer r"
  by (simp add: outer_def send_each_def)

lemma outer_store_repaired [node_frames]: "outer (snd (store_repaired_chunk now content_id chunk_id data created r)) = outer r"
  by (simp add: outer_def store_repaired_chunk_def Let_def)

lemma outer_missing_gossip [node_frames]: "outer (handle_missing_chunk_gossip env now rnd gossip r) = outer r"
proof (cases "host_get (mcg_chunk_id gossip) (host_buffer r)")
  case (Some x)
  obtain stored r' where s: "store_repaired_chunk now (mcg_content_id gossip) (mcg_chunk_id gossip) (fst x) (snd x) r = (stored, r')" by fastforce
  then have "outer r' = outer r" using outer_store_repaired [of now "mcg_content_id gossip" "mcg_chunk_id gossip" "fst x" "snd x" r] by simp
  then show ?thesis using Some s
    by (cases stored) (simp_all add: handle_missing_chunk_gossip_def Let_def split_beta outer_send_each split: list.split sum.split)
qed (simp add: handle_missing_chunk_gossip_def)

lemma outer_heartbeat [node_frames]: "outer (handle_heartbeat env now hb r) = outer r"
  by (simp add: handle_heartbeat_def Let_def node_frames)

lemma outer_report [node_frames]: "outer (report_missing_to env payload d peer r) = outer r"
  by (simp add: report_missing_to_def node_frames split: option.split sum.split)

lemma outer_send_missing [node_frames]: "outer (send_missing_chunk_gossip env now sh ds content_id chunk_id r) = outer r"
proof -
  have "outer (fold (\<lambda>(i, peer). report_missing_to env payload (ds i) peer) ps r) = outer r" for payload ps r
    by (induction ps arbitrary: r) (auto simp: node_frames)
  moreover have "outer (r\<lparr>missing_gossip_recent := x\<rparr>) = outer r" for x by (simp add: outer_def)
  ultimately show ?thesis by (simp add: send_missing_chunk_gossip_def Let_def split: prod.split bool.split)
qed

lemma outer_challenge [node_frames]: "outer (handle_verification_challenge env rnd c r) = outer r"
  by (auto simp: handle_verification_challenge_def send_verification_response_def node_frames split: sum.split list.split)

lemma outer_with_compute [node_frames]:
  "outer (with_compute (active_executions_update f) r) = outer r" "outer (with_compute (payment_pending_update g) r) = outer r"
  "outer (with_compute (cs_pending_requests_update h) r) = outer r"
  by (simp_all add: outer_def with_compute_def)

lemma outer_send_packets [node_frames]: "outer (snd (send_packets packets route r)) = outer r"
  by (auto simp: outer_def send_packets_def split: list.split sum.split prod.split)

lemma outer_compute_error [node_frames]: "outer (send_compute_error env rnd q err required quote r) = outer r"
  by (simp add: send_compute_error_def send_compute_response_def Let_def node_frames split: sum.split)

lemma outer_compute_request [node_frames]: "outer (snd (handle_compute_request env now rnd q r)) = outer r"
  by (auto simp: handle_compute_request_def accept_compute_request_def Let_def node_frames split: sum.split prod.split)

lemma outer_payment [node_frames]: "outer (handle_payment_request quote r) = outer r" "outer (handle_payment_confirmation c r) = outer r"
  by (auto simp: handle_payment_request_def handle_payment_confirmation_def node_frames split: option.split)

lemma outer_cached [node_frames]: "outer (add_cached chunk_id data now r) = outer r" "outer (drop_cached chunk_id r) = outer r"
  by (simp_all add: add_cached_def drop_cached_def Let_def outer_def)

lemma outer_cache [node_frames]: "outer (cache_retrieved_chunk now chunk_id data r) = outer r"
  by (auto simp: cache_retrieved_chunk_def Let_def node_frames split: option.split)

lemma outer_lifecycle [node_frames]: "outer (dispatch_lifecycle env d payload r) = outer r"
  by (auto simp: dispatch_lifecycle_def node_frames split: list.split sum.split)

section \<open>The books\<close>

lemmas maintenance_tags = MSG_BODY_GOSSIP_def MSG_BODY_SWAP_PROPOSAL_def MSG_BODY_SWAP_ACCEPT_def MSG_BODY_SWAP_REJECT_def MSG_BODY_PREPAYMENT_def
  MSG_BODY_RECONCILIATION_def MSG_BODY_SWAP_COMMIT_def MSG_BODY_SWAP_ABORT_def

lemma outerD:
  assumes "outer r = outer r'"
  shows "accounting r = accounting r'" "verification_state r = verification_state r'" "surb_sessions r = surb_sessions r'" "config r = config r'"
    "retriever r = retriever r'" "maintenance_reassembler r = maintenance_reassembler r'" "lifecycle_reassembler r = lifecycle_reassembler r'"
    "single_chunks r = single_chunks r'" "completed_results (compute_state r) = completed_results (compute_state r')"
    "cs_reassembler (compute_state r) = cs_reassembler (compute_state r')"
  using assms by (simp_all add: outer_def)

text \<open>An answer changes, of these parts, the table of retrievals and the stash of single chunks.\<close>

lemma outer_record_response:
  "\<exists>x. outer (record_response now response r) = outer (r\<lparr>single_chunks := x\<rparr>) \<and>
     (x = single_chunks r \<or> x = trim_to MAX_SINGLE_CHUNKS (hm_insert (resp_chunk_id response) (resp_chunk_data response) (single_chunks r)))"
proof -
  obtain expected cr where c: "record_chunk \<lparr>ec_id = resp_chunk_id response, ec_data = resp_chunk_data response\<rparr> (content_retriever r) = (expected, cr)"
    by fastforce
  let ?x = "if expected then single_chunks r else trim_to MAX_SINGLE_CHUNKS (hm_insert (resp_chunk_id response) (resp_chunk_data response) (single_chunks r))"
  have "outer (record_response now response r) = outer (r\<lparr>single_chunks := ?x\<rparr>)"
    by (cases expected) (simp_all add: record_response_def Let_def outer_cache c, simp_all add: outer_def)
  then show ?thesis by (intro exI [of _ ?x]) simp
qed

lemma outer_chunk_body:
  obtains x where "outer (handle_chunk_response_body env d body r) = outer (r\<lparr>retriever := snd (process_fragment body (retriever r)), single_chunks := x\<rparr>)"
    "x = single_chunks r \<or> (\<exists>k v. x = trim_to MAX_SINGLE_CHUNKS (hm_insert k v (single_chunks r)))"
proof (cases "\<exists>response. fst (process_fragment body (retriever r)) = Inr (Some response)")
  case False
  then have "outer (handle_chunk_response_body env d body r) = outer (r\<lparr>retriever := snd (process_fragment body (retriever r)), single_chunks := single_chunks r\<rparr>)"
    by (cases "process_fragment body (retriever r)") (auto simp: handle_chunk_response_body_def outer_def split: sum.split option.split)
  then show ?thesis using that by blast
next
  case True
  then obtain response m where m: "process_fragment body (retriever r) = (Inr (Some response), m)" by (cases "process_fragment body (retriever r)") auto
  define r1 where "r1 = r\<lparr>retriever := m\<rparr>"
  obtain consumed t where c: "handle_swap_chunk_retrieval (ne_transport env) (id_send d) (resp_chunk_id response) (resp_chunk_data response) (transport r1) = (consumed, t)" by fastforce
  have eq: "handle_chunk_response_body env d body r =
      (if resp_found response then (if consumed then r1\<lparr>transport := t\<rparr> else record_response (id_now d) response (r1\<lparr>transport := t\<rparr>))
       else send_missing_chunk_gossip env (id_now d) (id_return_shuffle d) (id_peers d) (resp_chunk_id response) (resp_chunk_id response) r1)"
    using c by (simp add: handle_chunk_response_body_def m r1_def Let_def split: bool.split)
  obtain x where x: "outer (record_response (id_now d) response (r1\<lparr>transport := t\<rparr>)) = outer (r1\<lparr>transport := t, single_chunks := x\<rparr>)"
      "x = single_chunks r \<or> (\<exists>k v. x = trim_to MAX_SINGLE_CHUNKS (hm_insert k v (single_chunks r)))"
    using outer_record_response [of "id_now d" response "r1\<lparr>transport := t\<rparr>"] by (auto simp: r1_def)
  have same: "outer r1 = outer (r\<lparr>retriever := snd (process_fragment body (retriever r)), single_chunks := single_chunks r\<rparr>)"
    "outer (r1\<lparr>transport := t\<rparr>) = outer r1" "outer (r1\<lparr>transport := t, single_chunks := x\<rparr>) = outer (r\<lparr>retriever := snd (process_fragment body (retriever r)), single_chunks := x\<rparr>)"
    by (simp_all add: outer_def r1_def m)
  show ?thesis
  proof (cases "resp_found response \<and> \<not> consumed")
    case True
    then show ?thesis using that [of x] x same(3) eq by simp
  next
    case False
    then show ?thesis using that [of "single_chunks r"] same(1, 2) eq by (simp add: outer_send_missing)
  qed
qed

lemma chunk_body_fields:
  "accounting (handle_chunk_response_body env d body r) = accounting r" "verification_state (handle_chunk_response_body env d body r) = verification_state r"
  "config (handle_chunk_response_body env d body r) = config r" "maintenance_reassembler (handle_chunk_response_body env d body r) = maintenance_reassembler r"
  "lifecycle_reassembler (handle_chunk_response_body env d body r) = lifecycle_reassembler r" "surb_sessions (handle_chunk_response_body env d body r) = surb_sessions r"
  "completed_results (compute_state (handle_chunk_response_body env d body r)) = completed_results (compute_state r)"
  "cs_reassembler (compute_state (handle_chunk_response_body env d body r)) = cs_reassembler (compute_state r)"
  using outer_chunk_body [of env d body r] by (fastforce simp: outer_def)+

lemma process_reconciliation_cases:
  "accounting (snd (process_reconciliation env now recon r)) \<noteq> accounting r \<Longrightarrow>
     reconciliation_verify (ne_ed env) (entries_json env) (blake3 (ne_storage env)) now recon \<and>
     (\<forall>known k. get_node (routing_table (transport r)) (ar_from_node recon) = Some known \<longrightarrow> kn_identity_public_key known = Some k \<longrightarrow> k = ar_identity_public_key recon)"
  by (auto simp: process_reconciliation_def split: if_splits)

lemma handle_prepayment_cases:
  "accounting (snd (handle_prepayment env now from' p r)) \<noteq> accounting r \<Longrightarrow> prepayment_validate (ne_ed env) p \<and> node_mode (config r) \<noteq> BackupOnly"
  by (auto simp: handle_prepayment_def split: if_splits)

text \<open>A maintenance message changes the transport and the books only.\<close>

definition touches :: "('sc, 'sk) NodeRunner \<Rightarrow> ('sc, 'sk) NodeRunner \<Rightarrow> bool" where
  "touches r r' \<longleftrightarrow> r' = r\<lparr>transport := transport r', accounting := accounting r'\<rparr>"

lemma touches_simps [simp]: "touches r r" "touches r (r\<lparr>transport := t\<rparr>)" "touches r (r\<lparr>accounting := a\<rparr>)"
  by (simp_all add: touches_def)

text \<open>A predicate that holds in every branch.\<close>

lemma branches:
  "P x \<Longrightarrow> P y \<Longrightarrow> P (if b then x else y)" "P n \<Longrightarrow> (\<And>x. P (f x)) \<Longrightarrow> P (case z of None \<Rightarrow> n | Some x \<Rightarrow> f x)"
  "(\<And>x. P (g x)) \<Longrightarrow> (\<And>x. P (h x)) \<Longrightarrow> P (case w of Inl x \<Rightarrow> g x | Inr x \<Rightarrow> h x)" "(\<And>x y. P (k x y)) \<Longrightarrow> P (case v of (x, y) \<Rightarrow> k x y)"
  by (auto split: option.split sum.split prod.split)

lemma touches_maintenance: "touches r (dispatch_maintenance env d payload r)"
proof -
  have "touches r (snd (handle_prepayment env now from' p r))" "touches r (snd (process_reconciliation env now recon r))" for now from' p recon
    by (simp_all add: handle_prepayment_def process_reconciliation_def split: prod.split)
  then show ?thesis unfolding dispatch_maintenance_def Let_def by (intro branches [where P = "touches r"] touches_simps) simp_all
qed

lemma maintenance_fields:
  fixes env :: "('sc, 'sk, 'v, 'md, 'st) node_env"
  defines "r' \<equiv> \<lambda>d payload r. dispatch_maintenance env d payload r"
  shows "config (r' d payload r) = config r" "verification_state (r' d payload r) = verification_state r" "lifecycle_reassembler (r' d payload r) = lifecycle_reassembler r"
    "maintenance_reassembler (r' d payload r) = maintenance_reassembler r" "surb_sessions (r' d payload r) = surb_sessions r"
    "compute_state (r' d payload r) = compute_state r" "retriever (r' d payload r) = retriever r" "single_chunks (r' d payload r) = single_chunks r"
proof -
  have "touches r (r' d payload r)" unfolding r'_def by (rule touches_maintenance)
  then obtain t a where "r' d payload r = r\<lparr>transport := t, accounting := a\<rparr>" unfolding touches_def by blast
  then show "config (r' d payload r) = config r" "verification_state (r' d payload r) = verification_state r" "lifecycle_reassembler (r' d payload r) = lifecycle_reassembler r"
    "maintenance_reassembler (r' d payload r) = maintenance_reassembler r" "surb_sessions (r' d payload r) = surb_sessions r"
    "compute_state (r' d payload r) = compute_state r" "retriever (r' d payload r) = retriever r" "single_chunks (r' d payload r) = single_chunks r"
    by simp_all
qed

lemma dispatch_maintenance_books:
  assumes "accounting (dispatch_maintenance env d payload r) \<noteq> accounting r"
  shows "(\<exists>json recon. payload = MSG_BODY_RECONCILIATION # json \<and> reconciliation_of_json env json = Some recon \<and>
      reconciliation_verify (ne_ed env) (entries_json env) (blake3 (ne_storage env)) (id_now d) recon \<and>
      (\<forall>known k. get_node (routing_table (transport r)) (ar_from_node recon) = Some known \<longrightarrow> kn_identity_public_key known = Some k \<longrightarrow> k = ar_identity_public_key recon)) \<or>
    (\<exists>json p. payload = MSG_BODY_PREPAYMENT # json \<and> prepayment_of_json env json = Some p \<and> prepayment_validate (ne_ed env) p)"
proof (cases payload)
  case Nil
  then show ?thesis using assms by (simp add: dispatch_maintenance_def split_maintenance_payload_def)
next
  case (Cons t json)
  consider "t = MSG_BODY_RECONCILIATION" | "t = MSG_BODY_PREPAYMENT" | "t \<noteq> MSG_BODY_RECONCILIATION" "t \<noteq> MSG_BODY_PREPAYMENT" by blast
  then show ?thesis
  proof cases
    case 1
    then have "dispatch_maintenance env d payload r = (case reconciliation_of_json env json of Some recon \<Rightarrow> snd (process_reconciliation env (id_now d) recon r) | None \<Rightarrow> r)"
      by (simp add: Cons dispatch_maintenance_def split_maintenance_payload_def maintenance_tags)
    then show ?thesis using assms process_reconciliation_cases Cons 1 by (auto split: option.splits)
  next
    case 2
    then have "dispatch_maintenance env d payload r = (case prepayment_of_json env json of Some p \<Rightarrow> snd (handle_prepayment env (id_now d) (pp_from_node p) p r) | None \<Rightarrow> r)"
      by (simp add: Cons dispatch_maintenance_def split_maintenance_payload_def maintenance_tags)
    then show ?thesis using assms Cons 2 by (auto split: option.splits dest: handle_prepayment_cases)
  next
    case 3
    have "accounting (dispatch_maintenance env d payload r) = accounting r"
      unfolding Cons dispatch_maintenance_def Let_def split_maintenance_payload_def option.case list.case prod.case if_not_P [OF 3(1)] if_not_P [OF 3(2)]
      by (intro branches [where P = "\<lambda>x. accounting x = accounting r"]) simp_all
    then show ?thesis using assms by simp
  qed
qed

lemma maintenance_step_fields:
  fixes env :: "('sc, 'sk, 'v, 'md, 'st) node_env"
  defines "r' \<equiv> \<lambda>d body r. handle_maintenance_fragment env d body r"
  shows "config (r' d body r) = config r" "verification_state (r' d body r) = verification_state r" "lifecycle_reassembler (r' d body r) = lifecycle_reassembler r"
    "surb_sessions (r' d body r) = surb_sessions r" "compute_state (r' d body r) = compute_state r" "retriever (r' d body r) = retriever r" "single_chunks (r' d body r) = single_chunks r"
  unfolding r'_def by (auto simp: handle_maintenance_fragment_def maintenance_fields split: sum.split option.split prod.split)

lemma compute_step_fields:
  fixes env :: "('sc, 'sk, 'v, 'md, 'st) node_env"
  defines "r' \<equiv> \<lambda>d body r. snd (handle_compute_fragment env d body r)"
  shows "accounting (r' d body r) = accounting r" "config (r' d body r) = config r" "verification_state (r' d body r) = verification_state r"
    "lifecycle_reassembler (r' d body r) = lifecycle_reassembler r" "maintenance_reassembler (r' d body r) = maintenance_reassembler r"
    "surb_sessions (r' d body r) = surb_sessions r" "retriever (r' d body r) = retriever r" "single_chunks (r' d body r) = single_chunks r"
proof -
  have "(accounting x, config x, verification_state x, lifecycle_reassembler x, maintenance_reassembler x, surb_sessions x, retriever x, single_chunks x) =
      (accounting s, config s, verification_state s, lifecycle_reassembler s, maintenance_reassembler s, surb_sessions s, retriever s, single_chunks s)"
    if "x = snd (dispatch_compute env d payload s)" for x s payload
  proof -
    have "outer (snd (handle_compute_request env (id_now d) (id_packets d) q s)) = outer s" "outer (handle_payment_request u s) = outer s"
        "outer (handle_payment_confirmation c s) = outer s" for q u c by (simp_all add: node_frames)
    note o = this [THEN outerD(1)] this [THEN outerD(2)] this [THEN outerD(3)] this [THEN outerD(4)] this [THEN outerD(5)] this [THEN outerD(6)]
      this [THEN outerD(7)] this [THEN outerD(8)]
    show ?thesis unfolding that dispatch_compute_def
      by (auto simp: o handle_compute_response_def Let_def split: list.split sum.split)
  qed
  from this [OF refl] show "accounting (r' d body r) = accounting r" "config (r' d body r) = config r" "verification_state (r' d body r) = verification_state r"
    "lifecycle_reassembler (r' d body r) = lifecycle_reassembler r" "maintenance_reassembler (r' d body r) = maintenance_reassembler r"
    "surb_sessions (r' d body r) = surb_sessions r" "retriever (r' d body r) = retriever r" "single_chunks (r' d body r) = single_chunks r"
    unfolding r'_def by (auto simp: handle_compute_fragment_def with_compute_def split: sum.split option.split prod.split)
qed

lemma lifecycle_step_fields:
  fixes env :: "('sc, 'sk, 'v, 'md, 'st) node_env"
  defines "r' \<equiv> \<lambda>d body r. handle_lifecycle_fragment env d body r"
  shows "accounting (r' d body r) = accounting r" "config (r' d body r) = config r" "verification_state (r' d body r) = verification_state r"
    "maintenance_reassembler (r' d body r) = maintenance_reassembler r" "surb_sessions (r' d body r) = surb_sessions r" "retriever (r' d body r) = retriever r"
    "single_chunks (r' d body r) = single_chunks r" "completed_results (compute_state (r' d body r)) = completed_results (compute_state r)"
    "cs_reassembler (compute_state (r' d body r)) = cs_reassembler (compute_state r)"
  unfolding r'_def
  by (auto simp: handle_lifecycle_fragment_def outerD [OF outer_lifecycle] split: sum.split option.split prod.split)

lemma verification_step_fields:
  fixes env :: "('sc, 'sk, 'v, 'md, 'st) node_env"
  defines "r' \<equiv> \<lambda>d body r. handle_verification_fragment env d body r"
  shows "config (r' d body r) = config r" "lifecycle_reassembler (r' d body r) = lifecycle_reassembler r"
    "maintenance_reassembler (r' d body r) = maintenance_reassembler r" "surb_sessions (r' d body r) = surb_sessions r" "retriever (r' d body r) = retriever r"
    "single_chunks (r' d body r) = single_chunks r" "completed_results (compute_state (r' d body r)) = completed_results (compute_state r)"
    "cs_reassembler (compute_state (r' d body r)) = cs_reassembler (compute_state r)"
  unfolding r'_def
  by (auto simp: handle_verification_fragment_def dispatch_verification_def handle_verification_response_def Let_def outerD [OF outer_challenge]
      split: sum.split option.split prod.split list.split)

lemma verification_books:
  assumes "accounting (handle_verification_fragment env d body r) \<noteq> accounting r"
  shows "\<exists>f payload ra response entry. deserialize_fragment body = Inr f \<and>
    collect_fragment (id_instant d) f (vs_reassembler (verification_state r)) = (Some payload, ra) \<and>
    deserialize_verification_response payload = Inr response \<and> hm_get (vs_pending (verification_state r)) (vr_nonce response) = Some entry"
proof -
  have "\<exists>response entry. deserialize_verification_response payload = Inr response \<and> hm_get (vs_pending (verification_state s)) (vr_nonce response) = Some entry"
    if "accounting (dispatch_verification env d payload s) \<noteq> accounting s" for payload s
    using that by (auto simp: dispatch_verification_def handle_verification_response_def outerD [OF outer_challenge] split: list.splits sum.splits option.splits if_splits)
  moreover obtain f payload ra where f: "deserialize_fragment body = Inr f"
      "collect_fragment (id_instant d) f (vs_reassembler (verification_state r)) = (Some payload, ra)"
      "accounting (dispatch_verification env d payload (put_verification ra r)) \<noteq> accounting (put_verification ra r)"
    using assms by (auto simp: handle_verification_fragment_def split: sum.splits option.splits prod.splits)
  ultimately obtain response entry where "deserialize_verification_response payload = Inr response"
      "hm_get (vs_pending (verification_state (put_verification ra r))) (vr_nonce response) = Some entry" by blast
  then show ?thesis using f(1, 2) by auto
qed

lemma maintenance_books:
  assumes "accounting (handle_maintenance_fragment env d body r) \<noteq> accounting r"
  shows "\<exists>f payload ra. deserialize_fragment body = Inr f \<and> collect_fragment (id_instant d) f (maintenance_reassembler r) = (Some payload, ra) \<and>
    accounting (dispatch_maintenance env d payload (r\<lparr>maintenance_reassembler := ra\<rparr>)) \<noteq> accounting (r\<lparr>maintenance_reassembler := ra\<rparr>)"
  using assms by (auto simp: handle_maintenance_fragment_def split: sum.splits option.splits prod.splits if_splits)

text \<open>C19 (safety). An inbound message changes the books of a node only if it is authenticated: handling any message, apart from the exchange that follows a
  reconnection, changes the accounting only at a packet that completes a reconciliation, signed and, from a known node, with its pinned key, or a
  prepayment with a valid signature, or a response that carries the nonce of a challenge this node has pending. (The books also change without a message: in the node's own
  ticks, when it publishes through a sponsor, and when old entries are pruned. These are not inbound messages and not the subject here.)\<close>

theorem books_change_authenticated:
  assumes "\<not> is_reconnection msg" "accounting (snd (handle_inbound env d msg r)) \<noteq> accounting r"
  shows "\<exists>packet f. im_message msg = SphinxMsg packet \<and> deserialize_fragment (sp_body packet) = Inr f \<and>
    ((\<exists>json ra recon. collect_fragment (id_instant d) f (maintenance_reassembler r) = (Some (MSG_BODY_RECONCILIATION # json), ra) \<and>
        reconciliation_of_json env json = Some recon \<and> reconciliation_verify (ne_ed env) (entries_json env) (blake3 (ne_storage env)) (id_now d) recon \<and>
        (\<forall>known k. get_node (routing_table (transport (handle_chunk_response_body env d (sp_body packet) r))) (ar_from_node recon) = Some known \<longrightarrow>
           kn_identity_public_key known = Some k \<longrightarrow> k = ar_identity_public_key recon)) \<or>
     (\<exists>json ra p. collect_fragment (id_instant d) f (maintenance_reassembler r) = (Some (MSG_BODY_PREPAYMENT # json), ra) \<and>
        prepayment_of_json env json = Some p \<and> prepayment_validate (ne_ed env) p) \<or>
     (\<exists>payload ra response entry. collect_fragment (id_instant d) f (vs_reassembler (verification_state r)) = (Some payload, ra) \<and>
        deserialize_verification_response payload = Inr response \<and> hm_get (vs_pending (verification_state r)) (vr_nonce response) = Some entry))"
proof -
  obtain packet where p: "im_message msg = SphinxMsg packet" "node_mode (config r) \<noteq> BackupOnly"
    using assms by (cases "im_message msg")
      (auto simp: handle_inbound_def handle_session_reply_def chunk_body_fields split: if_splits option.splits sum.splits)
  define body where "body = sp_body packet"
  define r1 where "r1 = handle_chunk_response_body env d body r"
  define r2 where "r2 = handle_maintenance_fragment env d body r1"
  define r3 where "r3 = snd (handle_compute_fragment env d body r2)"
  have "snd (handle_inbound env d msg r) = handle_lifecycle_fragment env d body (handle_verification_fragment env d body r3)"
    using assms(1) p by (simp add: handle_inbound_def handle_sphinx_body_def Let_def r1_def r2_def r3_def body_def split_beta)
  then have changed: "accounting (handle_verification_fragment env d body r3) \<noteq> accounting r" using assms(2) by (simp add: lifecycle_step_fields)
  have same: "accounting r3 = accounting r2" "verification_state r3 = verification_state r" "accounting r1 = accounting r" "maintenance_reassembler r1 = maintenance_reassembler r"
    by (simp_all add: r3_def r2_def r1_def compute_step_fields maintenance_step_fields chunk_body_fields)
  show ?thesis
  proof (cases "accounting r2 = accounting r1")
    case True
    then obtain f payload ra response entry where "deserialize_fragment body = Inr f"
        "collect_fragment (id_instant d) f (vs_reassembler (verification_state r)) = (Some payload, ra)"
        "deserialize_verification_response payload = Inr response" "hm_get (vs_pending (verification_state r)) (vr_nonce response) = Some entry"
      using verification_books [of env d body r3] changed same by metis
    then show ?thesis using p(1) body_def by blast
  next
    case False
    then obtain f payload ra where f: "deserialize_fragment body = Inr f" "collect_fragment (id_instant d) f (maintenance_reassembler r) = (Some payload, ra)"
        "accounting (dispatch_maintenance env d payload (r1\<lparr>maintenance_reassembler := ra\<rparr>)) \<noteq> accounting (r1\<lparr>maintenance_reassembler := ra\<rparr>)"
      using maintenance_books [of env d body r1] same(4) unfolding r2_def by metis
    then show ?thesis using p(1) dispatch_maintenance_books [OF f(3)] unfolding body_def r1_def by auto
  qed
qed

lemma demo_answer_settles:
  assumes "verification_state r = verification_state demo_challenger" "accounting r = AccountingState_new"
  shows "accounting (handle_verification_fragment demo_node_env (demo_draw_at 5) (serialize_fragment demo_answer_fragment) r) \<noteq> AccountingState_new"
proof -
  have "handle_verification_fragment demo_node_env (demo_draw_at 5) (serialize_fragment demo_answer_fragment) r =
      dispatch_verification demo_node_env (demo_draw_at 5) (frag_data demo_answer_fragment) (put_verification (Reassembler_new 5) r)"
    using verification_delivers [OF demo_answer_arrives [OF assms(1)], of demo_node_env] by (simp add: demo_draw_at_def)
  moreover have "deserialize_verification_response (frag_data demo_answer_fragment) = Inr (verification_answer demo_query demo_holder)"
    using answer_roundtrip [of demo_query demo_holder] demo_answer by (simp add: demo_query_def)
  moreover have "vr_nonce (verification_answer demo_query demo_holder) = vc_nonce demo_query" by (simp add: verification_answer_def Let_def)
  ultimately show ?thesis using demo_pending assms
    by (simp add: dispatch_verification_def demo_answer_fragment_def handle_verification_response_def Let_def MSG_VERIFICATION_RESPONSE_def MSG_VERIFICATION_CHALLENGE_def
        record_challenge_success_def record_challenge_failure_def)
      (simp add: update_peer_def get_or_create_peer_def AccountingState_new_def hm_contains_def hm_modify_def hm_insert_def)
qed

definition demo_answer_message :: InboundMessage where
  "demo_answer_message = \<lparr>im_from = [9], im_message = application_packet (serialize_fragment demo_answer_fragment), is_reconnection = False\<rparr>"

text \<open>A challenger whose books change at the answer to its challenge.\<close>

theorem books_change_authenticated_witness:
  "accounting (snd (handle_inbound demo_node_env (demo_draw_at 5) demo_answer_message demo_challenger)) \<noteq> accounting demo_challenger \<and>
   (\<exists>packet f payload ra response entry. im_message demo_answer_message = SphinxMsg packet \<and> deserialize_fragment (sp_body packet) = Inr f \<and>
      collect_fragment 5 f (vs_reassembler (verification_state demo_challenger)) = (Some payload, ra) \<and> deserialize_verification_response payload = Inr response \<and>
      hm_get (vs_pending (verification_state demo_challenger)) (vr_nonce response) = Some entry)"
proof -
  define body where "body = serialize_fragment demo_answer_fragment"
  define msg where "msg = demo_answer_message"
  define r1 where "r1 = handle_chunk_response_body demo_node_env (demo_draw_at 5) body demo_challenger"
  define r3 where "r3 = snd (handle_compute_fragment demo_node_env (demo_draw_at 5) body (handle_maintenance_fragment demo_node_env (demo_draw_at 5) body r1))"
  have dec: "deserialize_fragment body = Inr demo_answer_fragment"
    unfolding body_def by (rule deserialize_serialize_fragment) (simp add: demo_answer_fragment_def fragment_consts)
  have start: "accounting demo_challenger = AccountingState_new" "total_expected (maintenance_reassembler demo_challenger) = None"
    by (simp_all add: demo_challenger_def demo_runner_def NodeRunner_new_def Let_def Reassembler_new_def)
  have "handle_maintenance_fragment demo_node_env (demo_draw_at 5) body r1 = r1"
    by (simp add: handle_maintenance_fragment_def dec claims_fragment_def r1_def chunk_body_fields start demo_answer_fragment_def MSG_VERIFICATION_RESPONSE_def MSG_BODY_GOSSIP_def)
  then have r3: "verification_state r3 = verification_state demo_challenger" "accounting r3 = AccountingState_new"
    by (simp_all add: r3_def compute_step_fields r1_def chunk_body_fields start)
  have "node_mode (config demo_challenger) = Full" by (simp add: demo_challenger_def demo_runner_fields demo_config_def NodeConfig_default_def)
  then have "accounting (snd (handle_inbound demo_node_env (demo_draw_at 5) msg demo_challenger)) =
      accounting (handle_verification_fragment demo_node_env (demo_draw_at 5) body r3)"
    by (simp add: handle_inbound_def msg_def demo_answer_message_def application_packet_def handle_sphinx_body_def Let_def split_beta lifecycle_step_fields r3_def r1_def body_def)
  then have changed: "accounting (snd (handle_inbound demo_node_env (demo_draw_at 5) msg demo_challenger)) \<noteq> accounting demo_challenger"
    using demo_answer_settles [OF r3] start body_def by simp
  have "sp_body packet = body" if "im_message msg = SphinxMsg packet" for packet
    using that by (simp add: msg_def demo_answer_message_def application_packet_def body_def) auto
  then have f: "f = demo_answer_fragment" if "im_message msg = SphinxMsg packet" "deserialize_fragment (sp_body packet) = Inr f" for packet f
    using that dec by simp
  have other: "collect_fragment t demo_answer_fragment (maintenance_reassembler demo_challenger) \<noteq> (Some (tag # json), ra)" if "tag \<noteq> MSG_VERIFICATION_RESPONSE" for t tag json ra
    using that by (auto simp: collect_fragment_def demo_challenger_def demo_runner_def NodeRunner_new_def Let_def Reassembler_new_def Reassembler_cleanup_expired_def
        is_expired_def Reassembler_add_fragment_def demo_answer_fragment_def reassemble_def is_complete_def hm_insert_def hm_contains_def hm_len_def hm_get_def fragment_consts split: prod.splits sum.splits if_splits)
  have "MSG_BODY_RECONCILIATION \<noteq> MSG_VERIFICATION_RESPONSE" "MSG_BODY_PREPAYMENT \<noteq> MSG_VERIFICATION_RESPONSE"
    by (simp_all add: MSG_BODY_RECONCILIATION_def MSG_BODY_PREPAYMENT_def MSG_VERIFICATION_RESPONSE_def)
  then have none: "collect_fragment t x (maintenance_reassembler demo_challenger) \<noteq> (Some (MSG_BODY_RECONCILIATION # json), ra)"
      "collect_fragment t x (maintenance_reassembler demo_challenger) \<noteq> (Some (MSG_BODY_PREPAYMENT # json), ra)"
    if "im_message msg = SphinxMsg packet" "deserialize_fragment (sp_body packet) = Inr x" for packet x t json ra
    using other f [OF that] by simp_all
  have five: "id_instant (demo_draw_at 5) = 5" by (simp add: demo_draw_at_def)
  have "\<not> is_reconnection msg" by (simp add: msg_def demo_answer_message_def)
  from books_change_authenticated [OF this changed] none
  have "\<exists>packet f payload ra response entry. im_message msg = SphinxMsg packet \<and> deserialize_fragment (sp_body packet) = Inr f \<and>
      collect_fragment 5 f (vs_reassembler (verification_state demo_challenger)) = (Some payload, ra) \<and> deserialize_verification_response payload = Inr response \<and>
      hm_get (vs_pending (verification_state demo_challenger)) (vr_nonce response) = Some entry"
    unfolding five by blast
  with changed show ?thesis unfolding msg_def by (rule conjI)
qed

section \<open>Prepayments\<close>

lemma attempt_fields [simp]:
  "peers (record_prepay_attempt seed cid now a) = peers a" "sponsored_seeds (record_prepay_attempt seed cid now a) = sponsored_seeds a"
  "hm_get (prepayment_attempts (record_prepay_attempt seed cid now a)) (seed, cid) = Some now"
  by (simp_all add: record_prepay_attempt_def Let_def)

lemma record_prepayment_fields [simp]:
  "prepayment_attempts (record_prepayment seed n a) = prepayment_attempts a" "sponsored_seeds (record_prepayment seed n a) = sponsored_seeds a"
  by (simp_all add: record_prepayment_def update_peer_def get_or_create_peer_def Let_def)

lemma register_fields:
  assumes "register_sponsored_seed seed cid n now a = (res, a')"
  shows "peers a' = peers a" "prepayment_attempts a' = prepayment_attempts a" "res = Inr () \<Longrightarrow> is_sponsored a' seed" "res = Inr () \<longleftrightarrow> is_sponsored a seed \<or> can_sponsor a"
  using assms by (auto simp: register_sponsored_seed_def is_sponsored_def hm_contains_def split: if_splits)

lemma admit_outcome:
  obtains "admit_prepayment now seed p a = (False, a)" | "admit_prepayment now seed p a = (False, record_seed_violation seed a)"
  | "admit_prepayment now seed p a = (False, record_prepay_attempt seed (pp_content_id p) now a)"
  | c where "admit_prepayment now seed p a = (True, c)" "check_prepay_rate_limit a seed (pp_content_id p) now"
      "register_sponsored_seed seed (pp_content_id p) (pp_bytes p) now (record_prepayment seed (pp_bytes p) (record_prepay_attempt seed (pp_content_id p) now a)) = (Inr (), c)"
proof -
  define b where "b = record_prepay_attempt seed (pp_content_id p) now a"
  obtain res c where c: "register_sponsored_seed seed (pp_content_id p) (pp_bytes p) now (record_prepayment seed (pp_bytes p) b) = (res, c)" by fastforce
  have "is_sponsored (record_prepayment seed (pp_bytes p) b) seed = is_sponsored b seed" "can_sponsor (record_prepayment seed (pp_bytes p) b) = can_sponsor b"
    by (simp_all add: is_sponsored_def can_sponsor_def sponsor_seed_count_def)
  then have res: "is_sponsored b seed \<or> can_sponsor b \<Longrightarrow> res = Inr ()" using register_fields(4) [OF c] by simp
  define poor where "poor = (\<not> has_excess_capacity b 0 \<and> \<not> ((total_bytes_served b = 0 \<and> total_bytes_received b = 0) \<and> sponsor_seed_count b = 0))"
  have eq: "admit_prepayment now seed p a =
      (if is_seed_misbehaving a seed then (False, a) else if \<not> check_prepay_rate_limit a seed (pp_content_id p) now then (False, record_seed_violation seed a)
       else if poor then (False, b) else if \<not> is_sponsored b seed \<and> \<not> can_sponsor b then (False, b) else (True, c))"
    unfolding admit_prepayment_def Let_def b_def [symmetric] poor_def [symmetric] c using res by (auto split: sum.split)
  show ?thesis
  proof (cases "is_seed_misbehaving a seed \<or> \<not> check_prepay_rate_limit a seed (pp_content_id p) now \<or> poor \<or> (\<not> is_sponsored b seed \<and> \<not> can_sponsor b)")
    case True
    then show ?thesis using that(1-3) eq unfolding b_def [symmetric] by presburger
  next
    case False
    then show ?thesis using that(4) [of c] eq c res unfolding b_def [symmetric] by simp
  qed
qed

lemma refused_keeps_peers:
  assumes "admit_prepayment now seed p a = (False, a')"
  shows "peers a' = peers a"
  by (rule admit_outcome [of now seed p a]) (use assms in \<open>simp_all add: record_seed_violation_def\<close>)

lemma accepted_prepayment:
  assumes "admit_prepayment now seed p a = (True, a')"
  shows "peers a' = peers (record_prepayment seed (pp_bytes p) (record_prepay_attempt seed (pp_content_id p) now a))"
    "hm_get (prepayment_attempts a') (seed, pp_content_id p) = Some now" "is_sponsored a' seed"
proof -
  have "register_sponsored_seed seed (pp_content_id p) (pp_bytes p) now (record_prepayment seed (pp_bytes p) (record_prepay_attempt seed (pp_content_id p) now a)) = (Inr (), a')"
    by (rule admit_outcome [of now seed p a]) (use assms in simp_all)
  from register_fields [OF this]
  show "peers a' = peers (record_prepayment seed (pp_bytes p) (record_prepay_attempt seed (pp_content_id p) now a))"
    "hm_get (prepayment_attempts a') (seed, pp_content_id p) = Some now" "is_sponsored a' seed" by simp_all
qed

lemma admit_sponsors:
  assumes "sponsor_seed_count a \<le> 5"
  shows "sponsor_seed_count (snd (admit_prepayment now seed p a)) \<le> 5"
proof -
  let ?b = "record_prepayment seed (pp_bytes p) (record_prepay_attempt seed (pp_content_id p) now a)"
  have "sponsor_seed_count ?b \<le> 5" "sponsor_seed_count (record_prepay_attempt seed (pp_content_id p) now a) \<le> 5"
    using assms by (simp_all add: sponsor_seed_count_def)
  moreover have "sponsor_seed_count (record_seed_violation seed a) \<le> 5" using sponsor_count_violation [of seed a] assms by linarith
  ultimately show ?thesis using assms sponsor_count_register [of ?b seed "pp_content_id p" "pp_bytes p" now]
    by (cases rule: admit_outcome [of now seed p a]) simp_all
qed

text \<open>C22 (invariant). A prepayment is accepted as a whole or not at all. An accepted one is validly signed, credits exactly its bytes to its sender and to nobody
  else, makes the sender a sponsored seed, and is recorded with its time: in every later state that still has the record, a prepayment of the same sender for the same content is refused for an
  hour. (The record is dropped after a day, and earlier when the table of attempts is full and evicts it.) A refused prepayment
  leaves every credit as it was, and no prepayment, accepted or refused, makes the node sponsor more than five seeds at a time.\<close>

theorem prepayment_all_or_nothing:
  assumes "handle_prepayment env now seed p r = (accepted, r')" "sponsor_seed_count (accounting r) \<le> 5"
  shows "sponsor_seed_count (accounting r') \<le> 5 \<and>
    (if accepted then
       prepayment_validate (ne_ed env) p \<and> is_sponsored (accounting r') seed \<and>
       (\<forall>q. hm_get (peers (accounting r')) q =
          (if q = seed then Some (let c = (case hm_get (peers (accounting r)) seed of Some c \<Rightarrow> c | None \<Rightarrow> PeerCredit_new) in c\<lparr>prepaid_bytes := prepaid_bytes c + pp_bytes p\<rparr>)
           else hm_get (peers (accounting r)) q)) \<and>
       hm_get (prepayment_attempts (accounting r')) (seed, pp_content_id p) = Some now \<and>
       (\<forall>t p' later. hm_get (prepayment_attempts (accounting later)) (seed, pp_content_id p) = Some now \<and> pp_content_id p' = pp_content_id p \<and> unat t < unat now + 3600 \<longrightarrow>
          \<not> fst (handle_prepayment env t seed p' later))
     else peers (accounting r') = peers (accounting r))"
proof -
  let ?a = "accounting r"
  have five: "sponsor_seed_count (snd (admit_prepayment now seed p ?a)) \<le> 5" using assms(2) by (rule admit_sponsors)
  show ?thesis
  proof (cases "node_mode (config r) = BackupOnly \<or> \<not> prepayment_validate (ne_ed env) p")
    case True
    then have "accepted = False" "r' = r" using assms(1) by (auto simp: handle_prepayment_def split: if_splits)
    then show ?thesis using assms(2) by simp
  next
    case False
    then obtain a' where a': "admit_prepayment now seed p ?a = (accepted, a')" "r' = r\<lparr>accounting := a'\<rparr>"
      using assms(1) by (auto simp: handle_prepayment_def split: prod.splits)
    show ?thesis
    proof (cases accepted)
      case True
      then have "admit_prepayment now seed p ?a = (True, a')" using a'(1) by simp
      note acc = accepted_prepayment [OF this]
      have "\<not> check_prepay_rate_limit b seed (pp_content_id p) t" if "hm_get (prepayment_attempts b) (seed, pp_content_id p) = Some now" "unat t < unat now + 3600" for t b
        using that by (simp add: check_prepay_rate_limit_def PREPAY_RATE_LIMIT_SECS_def word_le_nat_alt)
      then have "\<not> fst (handle_prepayment env t seed p' later)"
        if "hm_get (prepayment_attempts (accounting later)) (seed, pp_content_id p) = Some now" "pp_content_id p' = pp_content_id p" "unat t < unat now + 3600" for t p' later
        using that by (auto simp: handle_prepayment_def admit_prepayment_def split: prod.split)
      then show ?thesis using True False five a' acc by (simp add: record_prepayment_def Let_def split: option.split)
    next
      case False
      then show ?thesis using refused_keeps_peers [of now seed p ?a a'] a' five by simp
    qed
  qed
qed

theorem prepayment_all_or_nothing_witness:
  "\<exists>r'. handle_prepayment demo_node_env 100 [3] (prepayment_sign demo_ed [3] 50 [8] 7) demo_runner = (True, r') \<and>
     \<not> fst (handle_prepayment demo_node_env 3699 [3] (prepayment_sign demo_ed [3] 9 [8] 7) r')"
proof -
  let ?p = "prepayment_sign demo_ed [3] 50 [8] 7"
  have ed: "ne_ed demo_node_env = demo_ed" by (simp add: demo_node_env_def demo_transport_def)
  have start: "accounting demo_runner = AccountingState_new" "node_mode (config demo_runner) = Full"
    by (simp_all add: demo_runner_def NodeRunner_new_def Let_def demo_config_def NodeConfig_default_def)
  have valid: "prepayment_validate demo_ed ?p"
    using prepayment_msg.sign_verifies [OF demo_ed_correct, of "prepayment_sign demo_ed [3] 50 [8] 7" 7]
    by (simp add: prepayment_resign_def prepayment_sign_def Let_def)
  have fits: "fst (admit_prepayment 100 [3] ?p AccountingState_new)"
    by (simp add: admit_prepayment_def Let_def is_seed_misbehaving_def check_prepay_rate_limit_def record_prepay_attempt_def AccountingState_new_def sponsor_seed_count_def
        can_sponsor_def MAX_SPONSORED_SEEDS_def is_sponsored_def register_sponsored_seed_def record_prepayment_def update_peer_def get_or_create_peer_def
        hm_values_def hm_contains_def split: prod.split)
  then have "fst (handle_prepayment demo_node_env 100 [3] ?p demo_runner)" by (simp add: handle_prepayment_def ed valid start split_beta)
  then obtain r' where r': "handle_prepayment demo_node_env 100 [3] ?p demo_runner = (True, r')" by (metis prod.collapse)
  have "sponsor_seed_count (accounting demo_runner) \<le> 5" by (simp add: start AccountingState_new_def sponsor_seed_count_def hm_values_def)
  from prepayment_all_or_nothing [OF r' this] show ?thesis using r' by (auto simp: prepayment_sign_def Let_def)
qed

text \<open>A full table of attempts evicts one of them, whatever its age: the hour of the evicted one is over at once.\<close>

lemma full_table_reopens:
  assumes "prepayment_attempts a = ((seed, cid), ts) # rest" "hm_wf (prepayment_attempts a)" "MAX_PREPAY_ATTEMPTS \<le> length (prepayment_attempts a)"
    "\<forall>(_, ts)\<in>set (prepayment_attempts a). saturating_sub now ts \<le> 86400" "(seed', cid') \<noteq> (seed, cid)"
  shows "check_prepay_rate_limit (record_prepay_attempt seed' cid' now a) seed cid now"
proof -
  have "hm_retain (\<lambda>_ ts. saturating_sub now ts \<le> 86400) (prepayment_attempts a) = prepayment_attempts a"
    using assms(4) by (auto simp: hm_retain_def intro!: filter_True)
  then show ?thesis using assms(1,3,5)
    by (auto simp: check_prepay_rate_limit_def record_prepay_attempt_def hm_make_room_def hm_len_def hm_keys_def Let_def)
qed

text \<open>A prepayment names its sender and carries the key it is verified with; nothing ties the one to the other, so that anybody can sign
  one in the name of any node, while a reconciliation of a known node must use the pinned key.\<close>

lemma prepayment_in_any_name:
  assumes "ed25519_correct ed" "amount \<noteq> 0"
  shows "prepayment_validate ed (prepayment_sign ed anybody amount cid sk) \<and> pp_from_node (prepayment_sign ed anybody amount cid sk) = anybody"
proof -
  have "prepayment_resign ed sk (prepayment_sign ed anybody amount cid sk) = prepayment_sign ed anybody amount cid sk"
    by (simp add: prepayment_resign_def prepayment_sign_def Let_def)
  then show ?thesis using prepayment_msg.sign_verifies [OF assms(1), of "prepayment_sign ed anybody amount cid sk" sk] assms(2)
    by (simp add: prepayment_sign_def Let_def)
qed

section \<open>Memory\<close>

definition node_bounded :: "('sc, 'sk) NodeRunner \<Rightarrow> bool" where
  "node_bounded r \<longleftrightarrow>
     reassembler_inv (maintenance_reassembler r) \<and> reassembler_inv (cs_reassembler (compute_state r)) \<and>
     reassembler_inv (vs_reassembler (verification_state r)) \<and> reassembler_inv (lifecycle_reassembler r) \<and> mgr_inv (retriever r) \<and>
     hm_len (single_chunks r) \<le> MAX_SINGLE_CHUNKS \<and> hm_len (surb_sessions r) \<le> MAX_SURB_SESSIONS \<and>
     hm_len (completed_results (compute_state r)) \<le> MAX_COMPLETED_COMPUTE_RESULTS"

lemma collect_inv: "reassembler_inv ra \<Longrightarrow> reassembler_inv (snd (collect_fragment instant f ra))"
proof -
  assume "reassembler_inv ra"
  then have "reassembler_inv (snd (Reassembler_add_fragment f (snd (Reassembler_cleanup_expired instant 300 ra))))"
    by (intro reassembler_inv_add reassembler_inv_cleanup)
  then show ?thesis by (auto simp: collect_fragment_def Let_def reassembler_inv_new split: prod.split bool.split sum.split)
qed

lemma trim_to_bound: "hm_len (trim_to n xs) \<le> n"
  by (induction xs) (auto simp: hm_len_def)

lemma trigger_touches: "touches r (snd (trigger_reconciliation env now ds peer r))"
proof -
  have "touches s (snd (send_batches env ds peer bs s))" for bs s ds
  proof (induction bs arbitrary: s ds)
    case (Cons batch bs)
    show ?case
    proof (cases "send_reconciliation (ne_transport env) (ds 0) peer
        (reconciliation_sign (ne_ed env) (entries_json env) (blake3 (ne_storage env)) (identity_key (transport s)) batch) (transport s)")
      case (Pair res t)
      then show ?thesis using Cons [of "s\<lparr>transport := t\<rparr>" "\<lambda>i. ds (Suc i)"] by (cases res) (simp_all add: touches_def)
    qed
  qed simp
  note batches = this
  let ?a = "accounting r"
  define bs where "bs = reconciliation_batches (fold (\<lambda>(i, credit). hm_insert i credit) (export_reconciliation_delta ?a (last_sync_time ?a peer)) [])
    (total_bytes_served ?a) (total_bytes_received ?a) (ts_node_id (transport r)) now"
  obtain res s where s: "send_batches env ds peer bs r = (res, s)" by fastforce
  then have "touches r s" using batches [of r ds bs] by simp
  then obtain t a where "s = r\<lparr>transport := t, accounting := a\<rparr>" unfolding touches_def by blast
  then show ?thesis unfolding trigger_reconciliation_def Let_def bs_def [symmetric] s by (cases res) (simp_all add: touches_def)
qed

lemma touches_bounded: "touches r r' \<Longrightarrow> node_bounded r \<Longrightarrow> node_bounded r'"
proof -
  assume "touches r r'" "node_bounded r"
  moreover from this obtain t a where "r' = r\<lparr>transport := t, accounting := a\<rparr>" unfolding touches_def by blast
  ultimately show ?thesis by (simp add: node_bounded_def)
qed

lemma chunk_body_bounded:
  assumes "node_bounded r"
  shows "node_bounded (handle_chunk_response_body env d body r)"
proof -
  obtain x where x: "outer (handle_chunk_response_body env d body r) = outer (r\<lparr>retriever := snd (process_fragment body (retriever r)), single_chunks := x\<rparr>)"
      "x = single_chunks r \<or> (\<exists>k v. x = trim_to MAX_SINGLE_CHUNKS (hm_insert k v (single_chunks r)))"
    by (rule outer_chunk_body)
  have "mgr_inv (snd (process_fragment body (retriever r)))" using assms mgr_inv_process by (auto simp: node_bounded_def)
  moreover have "hm_len x \<le> MAX_SINGLE_CHUNKS" using x(2) assms trim_to_bound by (auto simp: node_bounded_def)
  ultimately show ?thesis using assms outerD [OF x(1)] by (simp add: node_bounded_def)
qed

lemma maintenance_bounded:
  assumes "node_bounded r"
  shows "node_bounded (handle_maintenance_fragment env d body r)"
proof -
  have "node_bounded (r\<lparr>maintenance_reassembler := snd (collect_fragment (id_instant d) f (maintenance_reassembler r))\<rparr>)" for f
    using assms collect_inv by (simp add: node_bounded_def)
  then show ?thesis unfolding handle_maintenance_fragment_def
    by (auto simp: assms split: sum.split option.split prod.split intro!: touches_bounded [OF touches_maintenance]) (metis snd_conv)+
qed

lemma compute_bounded:
  assumes "node_bounded r"
  shows "node_bounded (snd (handle_compute_fragment env d body r))"
proof -
  have put: "node_bounded (put_compute (snd (collect_fragment (id_instant d) f (cs_reassembler (compute_state r)))) r)" for f
    using assms collect_inv by (simp add: node_bounded_def with_compute_def)
  have outer: "node_bounded x" if "outer x = outer y" "node_bounded y" for x y :: "('a, 'b) NodeRunner"
    using that(2) outerD [OF that(1)] by (simp add: node_bounded_def)
  have result: "node_bounded (handle_compute_response response s)" if "node_bounded s" for response s
  proof -
    let ?m = "completed_results (compute_state s)"
    have "hm_len (hm_insert k v ?m) \<le> MAX_COMPLETED_COMPUTE_RESULTS" if "\<not> MAX_COMPLETED_COMPUTE_RESULTS \<le> hm_len ?m" for k v
      using that by (simp add: hm_len_insert)
    moreover have "hm_len [x] \<le> MAX_COMPLETED_COMPUTE_RESULTS" for x :: "bytes \<times> ComputeResponse" by (simp add: hm_len_def MAX_COMPLETED_COMPUTE_RESULTS_def)
    ultimately show ?thesis using that by (simp add: handle_compute_response_def Let_def node_bounded_def)
  qed
  have "node_bounded (snd (dispatch_compute env d payload s))" if "node_bounded s" for payload s
    using that result outer [OF outer_compute_request that] outer [OF outer_payment(1) that] outer [OF outer_payment(2) that]
    by (auto simp: dispatch_compute_def split: list.split sum.split)
  note dispatch = this
  show ?thesis
  proof (cases "deserialize_fragment body")
    case (Inr f)
    obtain out ra where "collect_fragment (id_instant d) f (cs_reassembler (compute_state r)) = (out, ra)" by fastforce
    then show ?thesis using put [of f] dispatch by (cases out) (simp_all add: handle_compute_fragment_def Inr)
  qed (simp add: handle_compute_fragment_def assms)
qed

lemma verification_bounded:
  assumes "node_bounded r"
  shows "node_bounded (handle_verification_fragment env d body r)"
proof (cases "deserialize_fragment body")
  case (Inr f)
  obtain out ra where c: "collect_fragment (id_instant d) f (vs_reassembler (verification_state r)) = (out, ra)" by fastforce
  have "reassembler_inv (vs_reassembler (verification_state (dispatch_verification env d payload s)))"
    if "reassembler_inv (vs_reassembler (verification_state s))" for payload s
    using that by (auto simp: dispatch_verification_def handle_verification_response_def Let_def outerD(2) [OF outer_challenge]
        split: list.split sum.split option.split)
  moreover have "reassembler_inv ra" using collect_inv [of "vs_reassembler (verification_state r)" "id_instant d" f] c assms by (simp add: node_bounded_def)
  ultimately have "reassembler_inv (vs_reassembler (verification_state (handle_verification_fragment env d body r)))"
    by (cases out) (simp_all add: handle_verification_fragment_def Inr c)
  then show ?thesis using assms by (simp add: node_bounded_def verification_step_fields)
qed (simp add: handle_verification_fragment_def assms)

lemma lifecycle_bounded:
  assumes "node_bounded r"
  shows "node_bounded (handle_lifecycle_fragment env d body r)"
proof (cases "deserialize_fragment body")
  case (Inr f)
  obtain out ra where c: "collect_fragment (id_instant d) f (lifecycle_reassembler r) = (out, ra)" by fastforce
  have "reassembler_inv ra" using collect_inv [of "lifecycle_reassembler r" "id_instant d" f] c assms by (simp add: node_bounded_def)
  then have "reassembler_inv (lifecycle_reassembler (handle_lifecycle_fragment env d body r))"
    by (cases out) (simp_all add: handle_lifecycle_fragment_def Inr c outerD(7) [OF outer_lifecycle])
  then show ?thesis using assms by (simp add: node_bounded_def lifecycle_step_fields)
qed (simp add: handle_lifecycle_fragment_def assms)

lemma inbound_bounded:
  assumes "node_bounded r"
  shows "node_bounded (snd (handle_inbound env d msg r))"
proof -
  define r0 where "r0 = (if is_reconnection msg then snd (trigger_reconciliation env (id_now d) (id_peers d) (im_from msg) r) else r)"
  have r0: "node_bounded r0" using assms touches_bounded [OF trigger_touches assms, of env "id_now d" "id_peers d" "im_from msg"] by (simp add: r0_def)
  have sphinx: "node_bounded (snd (handle_sphinx_body env d body r0))" for body
    by (simp add: handle_sphinx_body_def Let_def split_beta lifecycle_bounded verification_bounded compute_bounded maintenance_bounded chunk_body_bounded r0)
  have reply: "node_bounded (handle_session_reply env d reply r0)" for reply
    by (simp add: handle_session_reply_def chunk_body_bounded r0 split: option.split sum.split)
  show ?thesis unfolding handle_inbound_def r0_def [symmetric] Let_def by (simp add: sphinx reply r0 split: WireMessage.split)
qed

lemma session_bounded:
  assumes "node_bounded r"
  shows "node_bounded (snd (new_reply_session env now sh rnd r))"
proof -
  define m where "m = (if MAX_SURB_SESSIONS \<le> hm_len (surb_sessions r)
    then (case surb_sessions r of (oldest, _) # _ \<Rightarrow> hm_remove oldest (surb_sessions r) | [] \<Rightarrow> []) else surb_sessions r)"
  have "hm_len m < MAX_SURB_SESSIONS"
  proof (cases "surb_sessions r")
    case (Cons x xs)
    have "length (AList.delete (fst x) xs) \<le> length xs" by (rule length_delete_le)
    then show ?thesis using assms Cons by (cases x) (auto simp: m_def node_bounded_def hm_len_def hm_remove_def not_le)
  qed (simp add: m_def hm_len_def MAX_SURB_SESSIONS_def)
  then have "hm_len (hm_insert k v m) \<le> MAX_SURB_SESSIONS" for k v by (simp add: hm_len_insert)
  then show ?thesis using assms unfolding new_reply_session_def Let_def m_def [symmetric]
    by (auto simp: node_bounded_def split: sum.split prod.split)
qed

lemma request_bounded: "node_bounded (snd x) \<Longrightarrow> node_bounded (snd (request_swap_chunk env instant surb d target x))"
proof -
  assume b: "node_bounded (snd x)"
  obtain sent r where x: "x = (sent, r)" by fastforce
  obtain pid peer cid where t: "target = (pid, peer, cid)" by (cases target)
  have "\<exists>res t. send_surb_request env d cid p surb r = (res, r\<lparr>transport := t\<rparr>)" for p
    by (auto simp: send_surb_request_def split: option.split sum.split prod.split intro: exI [of _ "transport r"])
  then obtain res tr where "\<And>p. send_surb_request env d cid p surb r = (res p, r\<lparr>transport := tr p\<rparr>)" by metis
  then show ?thesis using b mgr_inv_start
    by (auto simp: request_swap_chunk_def x t node_bounded_def split: option.split sum.split)
qed

lemma retrievals_bounded:
  assumes "node_bounded r"
  shows "node_bounded (snd (process_swap_retrievals env instant now sh rnd ds r))"
proof -
  have fold: "node_bounded (snd x) \<Longrightarrow> node_bounded (snd (fold (\<lambda>(i, target). request_swap_chunk env instant surb (ds i) target) ts x))" for ts x surb
    by (induction ts arbitrary: x) (simp_all add: split_beta request_bounded)
  obtain res s where "new_reply_session env now sh rnd r = (res, s)" "node_bounded s"
    using session_bounded [OF assms, of env now sh rnd] by (cases "new_reply_session env now sh rnd r") simp
  then show ?thesis using assms fold [of "(0, s)"] by (simp add: process_swap_retrievals_def Let_def split: sum.split)
qed

datatype 'sc node_input =
    Received "'sc InboundDraw" InboundMessage
  | SwapRetrievals nat u64 shuffle "'sc PacketRandom" "nat \<Rightarrow> 'sc SendDraw"

fun node_input_exec :: "('sc, 'sk, 'v, 'md, 'st) node_env \<Rightarrow> 'sc node_input \<Rightarrow> ('sc, 'sk) NodeRunner \<Rightarrow> ('sc, 'sk) NodeRunner" where
  "node_input_exec env (Received d msg) r = snd (handle_inbound env d msg r)"
| "node_input_exec env (SwapRetrievals instant now sh rnd ds) r = snd (process_swap_retrievals env instant now sh rnd ds r)"

definition node_after ::
  "('sc, 'sk, 'v, 'md, 'st) node_env \<Rightarrow> nat \<Rightarrow> bytes \<Rightarrow> bytes \<Rightarrow> 'sk \<Rightarrow> NodeConfig \<Rightarrow> NodeId \<Rightarrow> 'sc MixNode \<Rightarrow> 'sc node_input list \<Rightarrow> ('sc, 'sk) NodeRunner" where
  "node_after env instant storage_key_bytes kem_secret_bytes signing_key c node_id mix inputs =
     fold (node_input_exec env) inputs (NodeRunner_new env instant storage_key_bytes kem_secret_bytes signing_key c node_id mix)"

definition collection_bounded :: "Reassembler \<Rightarrow> bool" where
  "collection_bounded ra \<longleftrightarrow> received_count ra \<le> 2048 \<and> sum_list (map (length \<circ> snd) (fragments ra)) \<le> 2048 * 1012"

lemma inv_collection: "reassembler_inv ra \<Longrightarrow> collection_bounded ra"
  unfolding collection_bounded_def by (intro conjI reassembler_bounds)

lemma start_bounded: "node_bounded (NodeRunner_new env instant sk kem key c node_id mix)"
  by (simp add: node_bounded_def NodeRunner_new_def Let_def reassembler_inv_new ComputeState_default_def hm_len_def mgr_inv_def RetrievalManager_new_def hm_keys_def)

text \<open>C21 (bounds). Whatever a node receives, and however often it asks for the chunks of its swaps, the tables that its peers fill stay within their
  limits: each of its four collections holds at most 2048 fragments of 1012 bytes, and there are at most 2048 stashed chunks, 256 reply
  sessions, 512 results of computations and \<open>MAX_PENDING_RETRIEVALS\<close> retrievals.\<close>

theorem inbound_memory_bounded:
  "let r = node_after env instant sk kem key c node_id mix inputs in
     collection_bounded (maintenance_reassembler r) \<and> collection_bounded (cs_reassembler (compute_state r)) \<and>
     collection_bounded (vs_reassembler (verification_state r)) \<and> collection_bounded (lifecycle_reassembler r) \<and>
     hm_len (single_chunks r) \<le> 2048 \<and> hm_len (surb_sessions r) \<le> 256 \<and> hm_len (completed_results (compute_state r)) \<le> 512 \<and>
     hm_len (mgr_pending (retriever r)) \<le> MAX_PENDING_RETRIEVALS"
proof -
  have "node_bounded s \<Longrightarrow> node_bounded (fold (node_input_exec env) inputs s)" for s
  proof (induction inputs arbitrary: s)
    case (Cons x xs)
    then show ?case by (cases x) (simp_all add: inbound_bounded retrievals_bounded)
  qed simp
  then have "node_bounded (node_after env instant sk kem key c node_id mix inputs)" unfolding node_after_def by (simp add: start_bounded)
  then show ?thesis
    by (simp add: node_bounded_def inv_collection mgr_inv_def Let_def MAX_SINGLE_CHUNKS_def MAX_SURB_SESSIONS_def MAX_COMPLETED_COMPUTE_RESULTS_def)
qed

section \<open>Where the node falls short of its comments\<close>

text \<open>The table of reported misses is not bounded: a full table drops the entries that have expired only.\<close>

lemma missing_reports_unbounded:
  assumes "distinct keys"
  shows "hm_len (fold (\<lambda>key recent. snd (note_missing now key recent)) keys []) = length keys"
proof -
  have "hm_len (fold (\<lambda>key recent. snd (note_missing now key recent)) keys m) = hm_len m + length keys"
    if "distinct keys" "\<forall>(k, t)\<in>set m. k \<notin> set keys \<and> t = now" for m
    using that
  proof (induction keys arbitrary: m)
    case (Cons k keys)
    have keep: "hm_retain (\<lambda>_ sent. saturating_sub now sent < MISSING_GOSSIP_DEDUP_TTL_SECS) m = m"
      using Cons.prems(2) by (auto simp: hm_retain_def MISSING_GOSSIP_DEDUP_TTL_SECS_def intro!: filter_True)
    have "hm_get m k = None" using Cons.prems(2) by (auto simp: hm_get_def map_of_eq_None_iff)
    then have step: "snd (note_missing now k m) = m @ [(k, now)]"
      by (simp add: note_missing_def keep Let_def insert_new hm_contains_def)
    show ?case using Cons.IH [of "m @ [(k, now)]"] Cons.prems by (auto simp: step hm_len_def)
  qed simp
  from this [OF assms, of "[]"] show ?thesis by (simp add: hm_len_def)
qed

text \<open>A backup-only node drops every packet and session reply for good, also once it has taken over: the swaps and chunk answers that
  would give it something to keep never reach it.\<close>

lemma backup_node_deaf:
  assumes "node_mode (config r) = BackupOnly" "\<not> is_reconnection msg"
  shows "handle_inbound env d msg r = ([], r)"
  using assms by (simp add: handle_inbound_def split: WireMessage.split)

end
