(* ===== verification/NodeContent.thy ===== *)
theory NodeContent
  imports InboundSafety
begin

text \<open>
  \<^verbatim>\<open>crates/static-node/src/runner.rs\<close>, content: what publishing stores, registers and prepays, and how content is retrieved from the node's
  own storage and from its peers. Keys, nonces and packet randomness are arguments. Where the code sleeps between two looks at its
  state, the rest of the node runs: a wait is a list of arbitrary changes of the state, one per look, and its end is the deadline.
\<close>

section \<open>Publishing\<close>

text \<open>\<open>serde_json\<close> for the encrypted manifest and for a chunk answer.\<close>

record content_json =
  em_to_vec :: "EncryptedManifest \<Rightarrow> bytes option"
  em_from_slice :: "bytes \<Rightarrow> EncryptedManifest option"
  answer_from_slice :: "bytes \<Rightarrow> ChunkResponse option"

text \<open>What one call of \<open>publish_content\<close> draws: the content's signing key, the master key, the file's nonce, the manifest's nonce, the clock,
  and the randomness of the prepayment.\<close>

record ('sc, 'sk) PublishDraw =
  pd_content_sk :: 'sk
  pd_master_key :: bytes
  pd_nonce :: bytes
  pd_manifest_nonce :: bytes
  pd_now :: u64
  pd_send :: "'sc SendDraw"

definition MAX_MANIFESTS :: nat where "MAX_MANIFESTS = 2048"
definition MAX_MERKLE_PROOFS :: nat where "MAX_MERKLE_PROOFS = 8192"

definition parity_count :: "nat \<Rightarrow> nat" where
  "parity_count num = (if num = 1 then 1 else min num 5)"

text \<open>Steps 2 and 2b: the encrypted, erasure-coded shards and the manifest that lists them.\<close>

definition make_shards ::
  "storage_env \<Rightarrow> reed_solomon \<Rightarrow> bytes \<Rightarrow> bytes \<Rightarrow> ContentId \<Rightarrow> bytes \<Rightarrow> StorageError + (EncryptedChunk list \<times> ContentManifest)" where
  "make_shards se rs master_key nonce cid file_data =
     (case encrypt_file se master_key nonce file_data of
        Inl e \<Rightarrow> Inl e
      | Inr (raw_chunks, manifest) \<Rightarrow>
          let num = length raw_chunks in
          (case erasure_encode se rs raw_chunks num (parity_count num) of
             Inl e \<Rightarrow> Inl e
           | Inr chunks \<Rightarrow>
               Inr (chunks, manifest\<lparr>chunk_ids := map ec_id chunks, manifest_data_shards := num, manifest_parity_shards := parity_count num,
                      encrypted_master_key := master_key, manifest_nonce := nonce, manifest_content_id := cid,
                      segment_hashes := compute_segment_hashes (blake3 se) chunks\<rparr>)))"

definition find_sponsor :: "('sc, 'sk) NodeRunner \<Rightarrow> NodeId option" where
  "find_sponsor r =
     (let known = hm_values (nodes (routing_table (transport r)));
          found = (case sponsor (config r) of
                     Some want \<Rightarrow> (case filter (\<lambda>n. kn_address n = want) known of n # _ \<Rightarrow> Some (kn_node_id n) | [] \<Rightarrow> None)
                   | None \<Rightarrow> None)
      in case found of
           Some i \<Rightarrow> Some i
         | None \<Rightarrow>
             (case known of
                n # _ \<Rightarrow> Some (kn_node_id n)
              | [] \<Rightarrow> (case connections (transport r) of (i, _) # _ \<Rightarrow> Some i | [] \<Rightarrow> None)))"

definition own_content :: "ContentId \<Rightarrow> bytes \<Rightarrow> ChunkId list \<Rightarrow> ('sc, 'sk) NodeRunner \<Rightarrow> ('sc, 'sk) NodeRunner" where
  "own_content cid master_key ids r = with_leases (register_owned_content cid master_key ids (node_leases r)) r"

definition publish_via_sponsor ::
  "('sc, 'sk, 'v, 'md, 'st) node_env \<Rightarrow> 'sc SendDraw \<Rightarrow> ContentId \<Rightarrow> ContentManifest \<Rightarrow> bytes \<Rightarrow> bytes \<Rightarrow> EncryptedChunk list \<Rightarrow> ChunkId \<Rightarrow> u64 \<Rightarrow>
     ('sc, 'sk) NodeRunner \<Rightarrow> (NodeError + ContentId \<times> ContentManifest \<times> bytes) \<times> ('sc, 'sk) NodeRunner" where
  "publish_via_sponsor env d cid manifest content_pub_key master_key chunks manifest_chunk_id stake r =
     (case find_sponsor r of
        None \<Rightarrow> (Inl (Bail (ascii_bytes ''Seed-only node has no sponsor connection; configure --sponsor and connect first'')), r)
      | Some sponsor_id \<Rightarrow>
          let prepayment = prepayment_sign (ne_ed env) (ts_node_id (transport r)) stake cid (identity_key (transport r)) in
          (case send_prepayment (ne_transport env) d sponsor_id prepayment (transport r) of
             (Inl e, t) \<Rightarrow> (Inl (NodeTransport e), r\<lparr>transport := t\<rparr>)
           | (Inr _, t) \<Rightarrow>
               let r = r\<lparr>transport := t, accounting := record_prepayment sponsor_id stake (accounting r),
                         storage_keys := hm_insert cid master_key (storage_keys r)\<rparr>
               in (Inr (cid, manifest, content_pub_key), own_content cid master_key (map ec_id chunks @ [manifest_chunk_id]) r)))"

definition keep_proofs :: "(bytes \<Rightarrow> bytes) \<Rightarrow> EncryptedChunk list \<Rightarrow> (ChunkId, bytes \<times> MerkleProof) hashmap \<Rightarrow> (ChunkId, bytes \<times> MerkleProof) hashmap" where
  "keep_proofs h chunks proofs =
     (case generate_proofs h chunks of
        (content_root, chunk_proofs) \<Rightarrow>
          trim_to MAX_MERKLE_PROOFS (fold (\<lambda>(chunk, prf). hm_insert (ec_id chunk) (content_root, prf)) (zip chunks chunk_proofs) proofs))"

definition hold_all :: "ContentId \<Rightarrow> EncryptedChunk list \<Rightarrow> ChunkHolder \<Rightarrow> ChunkHolder" where
  "hold_all cid chunks = fold (\<lambda>chunk. holder_add_chunk (ec_id chunk) (ec_data chunk) cid) chunks"

definition hold_manifest :: "ContentId \<Rightarrow> ChunkId \<Rightarrow> bytes \<Rightarrow> ChunkHolder \<Rightarrow> ChunkHolder" where
  "hold_manifest cid manifest_chunk_id manifest_bytes h =
     (let h = holder_add_chunk manifest_chunk_id manifest_bytes cid h
      in if manifest_chunk_id \<noteq> cid then holder_add_chunk cid manifest_bytes cid h else h)"

text \<open>Steps 3 to 7 of a node that stores what it publishes.\<close>

definition publish_locally ::
  "('sc, 'sk, 'v, 'md, 'st) node_env \<Rightarrow> content_json \<Rightarrow> u64 \<Rightarrow> ContentId \<Rightarrow> ContentManifest \<Rightarrow> bytes \<Rightarrow> bytes \<Rightarrow> EncryptedChunk list \<Rightarrow>
     EncryptedManifest \<Rightarrow> ChunkId \<Rightarrow> ('sc, 'sk) NodeRunner \<Rightarrow> (NodeError + ContentId \<times> ContentManifest \<times> bytes) \<times> ('sc, 'sk) NodeRunner" where
  "publish_locally env js now cid manifest content_pub_key master_key chunks em manifest_chunk_id r =
     (let r = r\<lparr>merkle_proofs := keep_proofs (blake3 (ne_storage env)) chunks (merkle_proofs r)\<rparr>;
          r = map_transport (\<lambda>t. t\<lparr>chunk_holder := hold_all cid chunks (chunk_holder t)\<rparr>) r;
          r = r\<lparr>storage_keys := hm_insert cid master_key (storage_keys r)\<rparr>
      in case em_to_vec js em of
           None \<Rightarrow> (Inl (Bail (ascii_bytes ''Manifest serialization failed'')), r)
         | Some manifest_bytes \<Rightarrow>
             let r = map_transport (\<lambda>t. t\<lparr>chunk_holder := hold_manifest cid manifest_chunk_id manifest_bytes (chunk_holder t)\<rparr>) r;
                 r = snd (reconcile_capacity_once r);
                 r = own_content cid master_key (map ec_id chunks @ [manifest_chunk_id]) r
             in (Inr (cid, manifest, content_pub_key),
                 r\<lparr>chunk_metadata := fold (\<lambda>chunk. hm_insert (ec_id chunk) (ChunkMetadata_fresh now)) chunks (chunk_metadata r)\<rparr>))"

definition publish_content ::
  "('sc, 'sk, 'v, 'md, 'st) node_env \<Rightarrow> content_json \<Rightarrow> ('sc, 'sk) PublishDraw \<Rightarrow> bytes \<Rightarrow> ('sc, 'sk) NodeRunner \<Rightarrow>
     (NodeError + ContentId \<times> ContentManifest \<times> bytes) \<times> ('sc, 'sk) NodeRunner" where
  "publish_content env js d file_data r =
     (let content_pub_key = ed_public (ne_ed env) (pd_content_sk d);
          cid = content_id_from_public (ne_storage env) content_pub_key;
          r = r\<lparr>content_keypairs := hm_insert cid (pd_content_sk d) (content_keypairs r)\<rparr>
      in case make_shards (ne_storage env) (ne_rs env) (pd_master_key d) (pd_nonce d) cid file_data of
           Inl e \<Rightarrow> (Inl (NodeStorage e), r)
         | Inr (chunks, manifest) \<Rightarrow>
             let r = r\<lparr>manifests := trim_to MAX_MANIFESTS (hm_insert cid manifest (manifests r))\<rparr> in
             (case encrypt_manifest (ne_storage env) (ne_manifest env) (pd_manifest_nonce d) manifest content_pub_key of
                Inl e \<Rightarrow> (Inl (NodeStorage e), r)
              | Inr (em, manifest_chunk_id) \<Rightarrow>
                  let stake = sum_list (map (\<lambda>c. word_of_nat (length (ec_data c))) chunks) + word_of_nat (length (em_ciphertext em)) in
                  if node_mode (config r) = SeedOnly
                  then publish_via_sponsor env (pd_send d) cid manifest content_pub_key (pd_master_key d) chunks manifest_chunk_id stake r
                  else publish_locally env js (pd_now d) cid manifest content_pub_key (pd_master_key d) chunks em manifest_chunk_id r))"

section \<open>Retrieving\<close>

definition decrypt_manifest_bytes ::
  "storage_env \<Rightarrow> manifest_json \<Rightarrow> content_json \<Rightarrow> bytes \<Rightarrow> bytes \<Rightarrow> StorageError + ContentManifest" where
  "decrypt_manifest_bytes se mj js raw content_pub_key =
     (case em_from_slice js raw of
        Some em \<Rightarrow> decrypt_manifest se mj em content_pub_key
      | None \<Rightarrow> decrypt_manifest se mj \<lparr>em_ciphertext = raw, em_nonce = replicate 12 0\<rparr> content_pub_key)"

text \<open>The errors of a manifest are wrapped in a text; the model keeps the error that was wrapped.\<close>

definition decrypt_manifest_response ::
  "storage_env \<Rightarrow> manifest_json \<Rightarrow> content_json \<Rightarrow> bytes \<Rightarrow> bytes \<Rightarrow> NodeError + ContentManifest" where
  "decrypt_manifest_response se mj js raw content_pub_key =
     (let read = (\<lambda>bs. case decrypt_manifest_bytes se mj js bs content_pub_key of Inl e \<Rightarrow> Inl (NodeStorage e) | Inr m \<Rightarrow> Inr m) in
      case answer_from_slice js raw of
        Some response \<Rightarrow> if \<not> resp_found response then Inl (Bail (ascii_bytes ''Manifest not found on peer'')) else read (resp_chunk_data response)
      | None \<Rightarrow> read raw)"

text \<open>The shards the node holds itself, given to the shared retriever.\<close>

definition record_local :: "ChunkId \<Rightarrow> ('sc, 'sk) NodeRunner \<Rightarrow> ('sc, 'sk) NodeRunner" where
  "record_local chunk_id r =
     (case holder_get_chunk (chunk_holder (transport r)) chunk_id of
        Some data \<Rightarrow> r\<lparr>content_retriever := snd (record_chunk \<lparr>ec_id = chunk_id, ec_data = data\<rparr> (content_retriever r))\<rparr>
      | None \<Rightarrow> r)"

definition start_local :: "ContentManifest \<Rightarrow> ('sc, 'sk) NodeRunner \<Rightarrow> ('sc, 'sk) NodeRunner" where
  "start_local manifest r =
     (let r = r\<lparr>content_retriever := start_retrieval manifest (encrypted_master_key manifest) (content_retriever r)\<rparr>
      in fold record_local (map fst (pending (content_retriever r))) r)"

text \<open>The holder's mutex. \<open>held\<close> says that a guard of it is alive in the calling task. The mutex is not reentrant: a task that holds a guard and locks again
  waits for itself, so locking succeeds exactly when no guard of the task is alive.\<close>

definition lock_holder :: "bool \<Rightarrow> ('sc, 'sk) NodeRunner \<Rightarrow> ChunkHolder option" where
  "lock_holder held r = (if held then None else Some (chunk_holder (transport r)))"

text \<open>The loop of \<open>assemble_from_manifest\<close> over the pending shards: the holder is locked for every shard. The flag is \<open>False\<close> when the loop
  waits for the lock forever.\<close>

fun record_pending :: "bool \<Rightarrow> ChunkId list \<Rightarrow> ('sc, 'sk) NodeRunner \<Rightarrow> bool \<times> ('sc, 'sk) NodeRunner" where
  "record_pending held [] r = (True, r)"
| "record_pending held (chunk_id # ids) r =
     (case lock_holder held r of
        None \<Rightarrow> (False, r)
      | Some holder \<Rightarrow>
          record_pending held ids
            (case holder_get_chunk holder chunk_id of
               Some data \<Rightarrow> r\<lparr>content_retriever := snd (record_chunk \<lparr>ec_id = chunk_id, ec_data = data\<rparr> (content_retriever r))\<rparr>
             | None \<Rightarrow> r))"

definition release_retriever :: "('sc, 'sk) NodeRunner \<Rightarrow> ('sc, 'sk) NodeRunner" where
  "release_retriever r = r\<lparr>content_retriever := ContentRetriever_new\<rparr>"

definition missing_master_key :: NodeError where
  "missing_master_key = Bail (ascii_bytes ''Manifest missing master key'')"

text \<open>\<open>None\<close>: the call does not return.\<close>

definition assemble_from_manifest ::
  "bool \<Rightarrow> storage_env \<Rightarrow> ContentManifest \<Rightarrow> ('sc, 'sk) NodeRunner \<Rightarrow> (NodeError + bytes) option \<times> ('sc, 'sk) NodeRunner" where
  "assemble_from_manifest held se manifest r =
     (if length (encrypted_master_key manifest) \<noteq> 32 then (Some (Inl missing_master_key), r)
      else let r = r\<lparr>content_retriever := start_retrieval manifest (encrypted_master_key manifest) (content_retriever r)\<rparr> in
        (case record_pending held (map fst (pending (content_retriever r))) r of
           (False, r) \<Rightarrow> (None, r)
         | (True, r) \<Rightarrow>
             if retriever_is_complete (content_retriever r) then
               (case assemble se (content_retriever r) of
                  Inl e \<Rightarrow> (Some (Inl (NodeStorage e)), r)
                | Inr out \<Rightarrow> (Some (Inr out), release_retriever r))
             else (Some (Inl (Bail (ascii_bytes ''Local shards incomplete''))), r)))"

definition received_shards :: "ContentManifest \<Rightarrow> ('sc, 'sk) NodeRunner \<Rightarrow> EncryptedChunk option list" where
  "received_shards manifest r = map (hm_get (received (content_retriever r))) (chunk_ids manifest)"

text \<open>A wait until the shared retriever is complete, and the wait for the manifest among the single chunks.\<close>

fun await_shards :: "(('sc, 'sk) NodeRunner \<Rightarrow> ('sc, 'sk) NodeRunner) list \<Rightarrow> ('sc, 'sk) NodeRunner \<Rightarrow> ('sc, 'sk) NodeRunner" where
  "await_shards [] r = r"
| "await_shards (w # ws) r = (if retriever_is_complete (content_retriever r) then r else await_shards ws (w r))"

fun await_manifest ::
  "ContentId \<Rightarrow> (('sc, 'sk) NodeRunner \<Rightarrow> ('sc, 'sk) NodeRunner) list \<Rightarrow> ('sc, 'sk) NodeRunner \<Rightarrow> bytes option \<times> ('sc, 'sk) NodeRunner" where
  "await_manifest cid ws r =
     (case hm_get (single_chunks r) cid of
        Some b \<Rightarrow> (Some b, r\<lparr>single_chunks := hm_remove cid (single_chunks r)\<rparr>)
      | None \<Rightarrow> (case ws of [] \<Rightarrow> (None, r) | w # ws \<Rightarrow> await_manifest cid ws (w r)))"

declare await_manifest.simps [simp del]

definition request_from ::
  "('sc, 'sk, 'v, 'md, 'st) node_env \<Rightarrow> Surb \<Rightarrow> ((ChunkId \<times> KnownNode) \<Rightarrow> 'sc SendDraw) \<Rightarrow> (ChunkId \<times> KnownNode) list \<Rightarrow> ('sc, 'sk) NodeRunner \<Rightarrow> ('sc, 'sk) NodeRunner" where
  "request_from env surb ds = fold (\<lambda>(chunk_id, peer) r. snd (send_surb_request env (ds (chunk_id, peer)) chunk_id peer surb r))"

definition fetch_shards ::
  "('sc, 'sk, 'v, 'md, 'st) node_env \<Rightarrow> ((ChunkId \<times> KnownNode) \<Rightarrow> 'sc SendDraw) \<Rightarrow> (('sc, 'sk) NodeRunner \<Rightarrow> ('sc, 'sk) NodeRunner) list \<Rightarrow> ContentManifest \<Rightarrow> Surb \<Rightarrow>
     KnownNode list \<Rightarrow> ('sc, 'sk) NodeRunner \<Rightarrow> (NodeError + EncryptedChunk option list) \<times> ('sc, 'sk) NodeRunner" where
  "fetch_shards env ds waits manifest surb known r =
     (if length (encrypted_master_key manifest) \<noteq> 32 then (Inl missing_master_key, r)
      else let r = start_local manifest r in
        if retriever_is_complete (content_retriever r) then (Inr (received_shards manifest r), release_retriever r)
        else
          let requests = List.product (map fst (pending (content_retriever r))) known;
              r = await_shards waits (request_from env surb ds requests r)
          in (Inr (received_shards manifest r), release_retriever r))"

definition assemble_shards :: "storage_env \<Rightarrow> ContentManifest \<Rightarrow> EncryptedChunk option list \<Rightarrow> StorageError + bytes" where
  "assemble_shards se manifest shards =
     assemble se (fold (\<lambda>shard r. snd (record_chunk shard r)) (concat (map (\<lambda>s. case s of Some c \<Rightarrow> [c] | None \<Rightarrow> []) shards))
       (start_retrieval manifest (encrypted_master_key manifest) ContentRetriever_new))"

definition fetch_and_assemble ::
  "('sc, 'sk, 'v, 'md, 'st) node_env \<Rightarrow> ((ChunkId \<times> KnownNode) \<Rightarrow> 'sc SendDraw) \<Rightarrow> (('sc, 'sk) NodeRunner \<Rightarrow> ('sc, 'sk) NodeRunner) list \<Rightarrow> ContentManifest \<Rightarrow> Surb \<Rightarrow>
     KnownNode list \<Rightarrow> ('sc, 'sk) NodeRunner \<Rightarrow> (NodeError + bytes) \<times> ('sc, 'sk) NodeRunner" where
  "fetch_and_assemble env ds waits manifest surb known r =
     (case fetch_shards env ds waits manifest surb known r of
        (Inl e, r) \<Rightarrow> (Inl e, r)
      | (Inr shards, r) \<Rightarrow>
          (case assemble_shards (ne_storage env) manifest shards of Inl e \<Rightarrow> (Inl (NodeStorage e), r) | Inr out \<Rightarrow> (Inr out, r)))"

text \<open>What one call of \<open>retrieve_content\<close> draws, and what happens while it waits.\<close>

record ('sc, 'sk) RetrieveDraw =
  rd_instant :: nat
  rd_now :: u64
  rd_return_shuffle :: shuffle
  rd_surb :: "'sc PacketRandom"
  rd_requests :: "(ChunkId \<times> KnownNode) \<Rightarrow> 'sc SendDraw"
  rd_manifest_wait :: "(('sc, 'sk) NodeRunner \<Rightarrow> ('sc, 'sk) NodeRunner) list"
  rd_shard_wait :: "(('sc, 'sk) NodeRunner \<Rightarrow> ('sc, 'sk) NodeRunner) list"

text \<open>The local path. No guard of the task is alive when it starts. The guard of the look-up is a temporary of the \<open>if let\<close>, so it lives to the end of its
  body: \<open>assemble_from_manifest\<close>, called there, runs with the holder locked.\<close>

definition retrieve_local ::
  "storage_env \<Rightarrow> manifest_json \<Rightarrow> content_json \<Rightarrow> ContentId \<Rightarrow> bytes \<Rightarrow> ('sc, 'sk) NodeRunner \<Rightarrow> bytes option option \<times> ('sc, 'sk) NodeRunner" where
  "retrieve_local se mj js cid content_pub_key r =
     (case lock_holder False r of
        None \<Rightarrow> (None, r)
      | Some holder \<Rightarrow>
          (case holder_get_chunk holder cid of
             None \<Rightarrow> (Some None, r)
           | Some bs \<Rightarrow>
               (case decrypt_manifest_bytes se mj js bs content_pub_key of
                  Inl _ \<Rightarrow> (Some None, r)
                | Inr manifest \<Rightarrow>
                    (case assemble_from_manifest True se manifest r of
                       (None, r) \<Rightarrow> (None, r)
                     | (Some (Inr data), r) \<Rightarrow> (Some (Some data), r)
                     | (Some (Inl _), r) \<Rightarrow> (Some None, r)))))"

definition retrieve_from_peers ::
  "('sc, 'sk, 'v, 'md, 'st) node_env \<Rightarrow> content_json \<Rightarrow> ('sc, 'sk) RetrieveDraw \<Rightarrow> ContentId \<Rightarrow> bytes \<Rightarrow> ('sc, 'sk) NodeRunner \<Rightarrow>
     (NodeError + bytes) \<times> ('sc, 'sk) NodeRunner" where
  "retrieve_from_peers env js d cid content_pub_key r =
     (let known = hm_values (nodes (routing_table (transport r))) in
      if known = [] then (Inl (Bail (ascii_bytes ''No known peers to request manifest from'')), r)
      else case new_reply_session env (rd_now d) (rd_return_shuffle d) (rd_surb d) r of
        (Inl e, r) \<Rightarrow> (Inl e, r)
      | (Inr surb, r) \<Rightarrow>
          let capable = filter (hybrid_capable env) known in
          if capable = [] then (Inl (Bail (ascii_bytes ''No hybrid-capable peers for retrieval'')), r)
          else
            let r = r\<lparr>retriever := mgr_start_retrieval (rd_instant d) cid (retriever r)\<rparr>;
                r = request_from env surb (rd_requests d) (map (Pair cid) capable) r
            in case await_manifest cid (rd_manifest_wait d) r of
                 (None, r) \<Rightarrow> (Inl (Bail (ascii_bytes ''Timeout waiting for manifest'')), r)
               | (Some manifest_bytes, r) \<Rightarrow>
                   (case decrypt_manifest_response (ne_storage env) (ne_manifest env) js manifest_bytes content_pub_key of
                      Inl e \<Rightarrow> (Inl e, r)
                    | Inr manifest \<Rightarrow> fetch_and_assemble env (rd_requests d) (rd_shard_wait d) manifest surb capable r))"

text \<open>The result is \<open>None\<close> when the call never returns.\<close>

definition retrieve_content ::
  "('sc, 'sk, 'v, 'md, 'st) node_env \<Rightarrow> content_json \<Rightarrow> ('sc, 'sk) RetrieveDraw \<Rightarrow> bytes \<Rightarrow> ('sc, 'sk) NodeRunner \<Rightarrow>
     (NodeError + bytes) option \<times> ('sc, 'sk) NodeRunner" where
  "retrieve_content env js d content_pub_key r =
     (let cid = content_id_from_public (ne_storage env) content_pub_key in
      case retrieve_local (ne_storage env) (ne_manifest env) js cid content_pub_key r of
        (None, r) \<Rightarrow> (None, r)
      | (Some (Some data), r) \<Rightarrow> (Some (Inr data), r)
      | (Some None, r) \<Rightarrow> (case retrieve_from_peers env js d cid content_pub_key r of (res, r) \<Rightarrow> (Some res, r)))"

section \<open>Status\<close>

record NodeStatus =
  node_running :: bool
  status_node_id :: NodeId
  status_peer_count :: nat
  status_connected_peers :: nat
  stored_chunks :: nat
  published_content :: nat
  status_cover_traffic_enabled :: bool
  status_bytes_served :: u64
  status_bytes_received :: u64

definition status :: "Shared \<Rightarrow> ('sc, 'sk) NodeRunner \<Rightarrow> NodeStatus" where
  "status sh r =
     (let stats = get_stats sh (transport r)
      in \<lparr>node_running = True, status_node_id = ts_node_id (transport r), status_peer_count = connected_peers stats,
          status_connected_peers = connected_peers stats, stored_chunks = chunk_count (chunk_holder (transport r)),
          published_content = hm_len (storage_keys r), status_cover_traffic_enabled = cover_traffic_enabled (config r),
          status_bytes_served = total_bytes_served (accounting r), status_bytes_received = total_bytes_received (accounting r)\<rparr>)"

definition node_sponsor_seed_count :: "('sc, 'sk) NodeRunner \<Rightarrow> nat" where
  "node_sponsor_seed_count r = sponsor_seed_count (accounting r)"

end
