(* ===== verification/ContentFlow.thy ===== *)
theory ContentFlow
  imports NodeContent
begin

text \<open>
  What publishing and retrieving achieve. As long as nothing about a publication is forged, what a retrieval returns is the published file. Published
  shards restore the file from any sufficient subset, and a publishing node serves them, the manifest and verifying proofs. But content that was published is
  hardly ever read back: the publisher's own retrieval waits for a lock it holds, every retrieval needs all shards and decrypts the parity shards as if they
  were data, and the shards a retrieval requests are not registered, so their answers are dropped.
\<close>

section \<open>Only authentic content\<close>

lemma decrypt_chunks_all:
  "decrypt_chunks se mk n orig i cs res = Inr out \<Longrightarrow> j < length cs \<Longrightarrow> \<exists>p. decrypt_chunk se mk n (i + j) (cs ! j) = Inr p"
proof (induction cs arbitrary: i res j)
  case (Cons c cs)
  obtain p where p: "decrypt_chunk se mk n i c = Inr p"
    using Cons.prems(1) by (cases "decrypt_chunk se mk n i c") simp_all
  show ?case
  proof (cases j)
    case (Suc j')
    have "\<exists>q. decrypt_chunk se mk n (i + 1 + j') (cs ! j') = Inr q"
      using Cons.prems p Suc by (intro Cons.IH) (simp_all add: Let_def)
    then show ?thesis by (simp add: Suc)
  qed (use p in simp)
qed simp

lemma decrypt_chunks_append:
  "decrypt_chunks se mk n orig i (cs @ ds) res =
     (case decrypt_chunks se mk n orig i cs res of Inl e \<Rightarrow> Inl e | Inr out \<Rightarrow> decrypt_chunks se mk n orig (i + length cs) ds out)"
  by (induction cs arbitrary: i res) (simp_all add: Let_def split: sum.splits)

text \<open>Past the size of the file nothing is added.\<close>

lemma decrypt_past_end:
  "\<forall>j<length cs. \<exists>p. decrypt_chunk se mk n (i + j) (cs ! j) = Inr p \<Longrightarrow> orig = word_of_nat (length res) \<Longrightarrow>
   decrypt_chunks se mk n orig i cs res = Inr res"
proof (induction cs arbitrary: i)
  case (Cons c cs)
  obtain p where p: "decrypt_chunk se mk n i c = Inr p" using Cons.prems(1) by force
  have "\<forall>j<length cs. \<exists>p. decrypt_chunk se mk n (Suc i + j) (cs ! j) = Inr p" using Cons.prems(1) by force
  then show ?case using Cons.IH Cons.prems(2) p by simp
qed simp

lemma decrypt_chunk_data: "ec_data c = ec_data c' \<Longrightarrow> decrypt_chunk se mk n i c = decrypt_chunk se mk n i c'"
  by (simp add: decrypt_chunk_def)

lemma decrypt_chunks_data:
  "map ec_data cs = map ec_data cs' \<Longrightarrow> decrypt_chunks se mk n orig i cs res = decrypt_chunks se mk n orig i cs' res"
proof (induction cs arbitrary: cs' i res)
  case (Cons c cs)
  then obtain c' ds where "cs' = c' # ds" "ec_data c = ec_data c'" "map ec_data cs = map ec_data ds" by (cases cs') auto
  with Cons.IH [of ds] decrypt_chunk_data [of c c' se mk n i] show ?case by (simp add: Let_def split: sum.splits)
qed simp

lemma collect_chunks_nth:
  "collect_chunks m ks = Inr cs \<Longrightarrow> length cs = length ks \<and> (\<forall>i<length ks. hm_get m (ks ! i) = Some (cs ! i))"
proof (induction ks arbitrary: cs)
  case (Cons k ks)
  then obtain c cs' where "hm_get m k = Some c" "collect_chunks m ks = Inr cs'" "cs = c # cs'"
    by (auto split: option.splits sum.splits)
  with Cons.IH [of cs'] show ?case by (auto simp: less_Suc_eq_0_disj)
qed simp

text \<open>What an assembled file is made of: one received chunk per id of the manifest, each opened at its position.\<close>

definition opens_all :: "storage_env \<Rightarrow> ContentManifest \<Rightarrow> EncryptedChunk list \<Rightarrow> bytes \<Rightarrow> bool" where
  "opens_all se manifest chunks out \<longleftrightarrow>
     length chunks = length (chunk_ids manifest) \<and>
     (\<forall>i<length chunks. \<exists>p. decrypt_chunk se (encrypted_master_key manifest) (manifest_nonce manifest) i (chunks ! i) = Inr p) \<and>
     decrypt_file se (encrypted_master_key manifest) (manifest_nonce manifest) chunks manifest = Inr out"

lemma assemble_opens:
  assumes "assemble se r = Inr out" "cr_manifest r = Some manifest" "cr_master_key r = Some (encrypted_master_key manifest)"
    "cr_nonce r = Some (manifest_nonce manifest)"
  obtains chunks where "opens_all se manifest chunks out"
    "\<And>i. i < length chunks \<Longrightarrow> hm_get (received r) (chunk_ids manifest ! i) = Some (chunks ! i)"
proof -
  obtain cs where c: "collect_chunks (received r) (chunk_ids manifest) = Inr cs"
    and f: "decrypt_file se (encrypted_master_key manifest) (manifest_nonce manifest) cs manifest = Inr out"
    using assms by (auto simp: assemble_def split: sum.splits)
  note n = collect_chunks_nth [OF c]
  have "opens_all se manifest cs out"
    using n f decrypt_chunks_all [of se _ _ _ 0 cs "[]" out]
    by (fastforce simp: opens_all_def decrypt_file_def)
  with n show ?thesis using that by metis
qed

text \<open>The shared retriever works for one manifest, and what it received it either had or took from the node's own storage.\<close>

definition retrieving :: "ContentManifest \<Rightarrow> ContentRetriever \<Rightarrow> bool" where
  "retrieving manifest r \<longleftrightarrow> cr_manifest r = Some manifest \<and> cr_master_key r = Some (encrypted_master_key manifest) \<and>
     cr_nonce r = Some (manifest_nonce manifest)"

lemma retrieving_start: "retrieving manifest (start_retrieval manifest (encrypted_master_key manifest) r)"
  by (simp add: retrieving_def start_retrieval_def)

lemma retrieving_record: "retrieving manifest r \<Longrightarrow> retrieving manifest (snd (record_chunk c r))"
  by (simp add: retrieving_def record_chunk_def)

lemma retrieving_fold: "retrieving manifest r \<Longrightarrow> retrieving manifest (fold (\<lambda>c r. snd (record_chunk c r)) cs r)"
  by (induction cs arbitrary: r) (simp_all add: retrieving_record)

lemma retrieving_assemble:
  assumes "assemble se r = Inr out" "retrieving manifest r"
  obtains chunks where "opens_all se manifest chunks out"
    "\<And>i. i < length chunks \<Longrightarrow> hm_get (received r) (chunk_ids manifest ! i) = Some (chunks ! i)"
  using assms assemble_opens unfolding retrieving_def by metis

lemma record_local_retriever:
  "record_local k r = r\<lparr>content_retriever := (case holder_get_chunk (chunk_holder (transport r)) k of
     Some data \<Rightarrow> snd (record_chunk \<lparr>ec_id = k, ec_data = data\<rparr> (content_retriever r)) | None \<Rightarrow> content_retriever r)\<rparr>"
  by (simp add: record_local_def split: option.splits)

definition from_holder :: "ChunkHolder \<Rightarrow> (ChunkId, EncryptedChunk) hashmap \<Rightarrow> (ChunkId, EncryptedChunk) hashmap \<Rightarrow> bool" where
  "from_holder h old new \<longleftrightarrow>
     (\<forall>k c. hm_get new k = Some c \<longrightarrow> hm_get old k = Some c \<or> ec_id c = k \<and> holder_get_chunk h k = Some (ec_data c))"

lemma record_locals:
  fixes r :: "('sc, 'sk) NodeRunner"
  assumes "retrieving manifest (content_retriever r)"
  shows "\<exists>cr. fold record_local ks r = r\<lparr>content_retriever := cr\<rparr> \<and> retrieving manifest cr \<and>
    from_holder (chunk_holder (transport r)) (received (content_retriever r)) (received cr)"
  using assms
proof (induction ks arbitrary: r)
  case Nil
  show ?case using Nil by (intro exI [of _ "content_retriever r"]) (simp add: from_holder_def)
next
  case (Cons k ks)
  define cr where "cr = content_retriever (record_local k r)"
  have r1: "record_local k r = r\<lparr>content_retriever := cr\<rparr>" by (simp add: cr_def record_local_retriever)
  have "retrieving manifest cr"
    using Cons.prems by (simp add: cr_def record_local_retriever retrieving_record split: option.splits)
  moreover have step: "from_holder (chunk_holder (transport r)) (received (content_retriever r)) (received cr)"
    by (auto simp: from_holder_def cr_def record_local_retriever record_chunk_def split: option.splits if_splits)
  ultimately obtain cr' where "fold record_local ks (r\<lparr>content_retriever := cr\<rparr>) = r\<lparr>content_retriever := cr'\<rparr>" "retrieving manifest cr'"
    "from_holder (chunk_holder (transport r)) (received cr) (received cr')"
    using Cons.IH [of "r\<lparr>content_retriever := cr\<rparr>"] by auto
  with step r1 show ?case unfolding from_holder_def by (intro exI [of _ cr']) (simp, blast)
qed

lemma start_local_retriever:
  fixes r :: "('sc, 'sk) NodeRunner"
  obtains cr where "start_local manifest r = r\<lparr>content_retriever := cr\<rparr>" "retrieving manifest cr"
    "from_holder (chunk_holder (transport r)) (received (content_retriever r)) (received cr)"
proof -
  let ?cr = "start_retrieval manifest (encrypted_master_key manifest) (content_retriever r)"
  let ?r = "r\<lparr>content_retriever := ?cr\<rparr>"
  have "received ?cr = received (content_retriever r)" by (simp add: start_retrieval_def)
  with record_locals [of manifest ?r "map fst (pending ?cr)"] retrieving_start [of manifest "content_retriever r"] that
  show thesis by (auto simp: start_local_def Let_def)
qed

lemma record_fold_received:
  "hm_get (received (fold (\<lambda>c r. snd (record_chunk c r)) cs r)) k = Some c \<Longrightarrow> hm_get (received r) k = Some c \<or> c \<in> set cs \<and> ec_id c = k"
proof (induction cs arbitrary: r)
  case (Cons a cs)
  then show ?case by (fastforce simp: record_chunk_def split: if_splits)
qed simp

text \<open>What \<open>fetch_and_assemble\<close> puts together: one of the shards it was given per listed id, each opened at its position.\<close>

lemma assemble_shards_opens:
  assumes "assemble_shards se manifest got = Inr out"
  obtains cs where "opens_all se manifest cs out" "\<And>i. i < length cs \<Longrightarrow> Some (cs ! i) \<in> set got \<and> ec_id (cs ! i) = chunk_ids manifest ! i"
proof -
  let ?cs = "concat (map (\<lambda>s. case s of Some c \<Rightarrow> [c] | None \<Rightarrow> []) got)"
  let ?r = "fold (\<lambda>c r. snd (record_chunk c r)) ?cs (start_retrieval manifest (encrypted_master_key manifest) ContentRetriever_new)"
  have "assemble se ?r = Inr out" using assms by (simp add: assemble_shards_def)
  then obtain cs where cs: "opens_all se manifest cs out" "\<And>i. i < length cs \<Longrightarrow> hm_get (received ?r) (chunk_ids manifest ! i) = Some (cs ! i)"
    by (rule retrieving_assemble [OF _ retrieving_fold [OF retrieving_start]]) blast
  have "cs ! i \<in> set ?cs \<and> ec_id (cs ! i) = chunk_ids manifest ! i" if "i < length cs" for i
    using record_fold_received [OF cs(2) [OF that]] by (auto simp: start_retrieval_def ContentRetriever_new_def)
  moreover have "Some c \<in> set got" if "c \<in> set ?cs" for c using that by (auto split: option.splits)
  ultimately show thesis using that cs(1) by metis
qed

text \<open>The holder's lock: with the guard alive the loop over the pending shards stops at the first; without it, it does what \<open>start_local\<close> does.\<close>

lemma record_pending_held: "record_pending True ks r = (ks = [], r)"
  by (cases ks) (simp_all add: lock_holder_def)

lemma record_pending_free: "record_pending False ks r = (True, fold record_local ks r)"
  by (induction ks arbitrary: r) (simp_all add: lock_holder_def record_local_def)

lemma started_pending: "chunk_ids manifest \<noteq> [] \<Longrightarrow> pending (start_retrieval manifest mk cr) \<noteq> []"
  using hd_in_set [of "chunk_ids manifest"]
    get_insert_all [of "chunk_ids manifest" "pending cr" "hd (chunk_ids manifest)"] by (auto simp: start_retrieval_def)

lemma assemble_blocked:
  "chunk_ids manifest \<noteq> [] \<Longrightarrow> length (encrypted_master_key manifest) = 32 \<Longrightarrow>
   assemble_from_manifest True se manifest r = (None, r\<lparr>content_retriever := start_retrieval manifest (encrypted_master_key manifest) (content_retriever r)\<rparr>)"
  by (simp add: assemble_from_manifest_def Let_def record_pending_held started_pending)

lemma blocked_pending:
  assumes "assemble_from_manifest True se manifest r = (None, r')"
  shows "pending (content_retriever r') \<noteq> []"
  using assms by (auto simp: assemble_from_manifest_def Let_def record_pending_held split: if_splits sum.splits bool.splits)

text \<open>What is held is found: a manifest under the content id whose chunks are all in the node's own storage.\<close>

definition held_chunk :: "ChunkHolder \<Rightarrow> ChunkId \<Rightarrow> EncryptedChunk" where
  "held_chunk h k = \<lparr>ec_id = k, ec_data = the (holder_get_chunk h k)\<rparr>"

lemma record_locals_held:
  "\<forall>k\<in>set ks. holder_get_chunk (chunk_holder (transport r)) k \<noteq> None \<Longrightarrow>
   fold record_local ks r = r\<lparr>content_retriever :=
     fold (\<lambda>c r. snd (record_chunk c r)) (map (held_chunk (chunk_holder (transport r))) ks) (content_retriever r)\<rparr>"
proof (induction ks arbitrary: r)
  case (Cons k ks)
  have "record_local k r = r\<lparr>content_retriever := snd (record_chunk (held_chunk (chunk_holder (transport r)) k) (content_retriever r))\<rparr>"
    using Cons.prems by (auto simp: record_local_def held_chunk_def)
  with Cons show ?case by simp
qed simp

lemma start_local_held:
  fixes r :: "('sc, 'sk) NodeRunner"
  assumes "chunk_ids manifest = map ec_id chunks" "distinct (chunk_ids manifest)" "content_retriever r = ContentRetriever_new"
    "\<forall>c\<in>set chunks. holder_get_chunk (chunk_holder (transport r)) (ec_id c) = Some (ec_data c)"
  obtains cr where "start_local manifest r = r\<lparr>content_retriever := cr\<rparr>" "retriever_is_complete cr" "retrieving manifest cr"
    "collect_chunks (received cr) (chunk_ids manifest) = Inr chunks"
proof -
  let ?h = "chunk_holder (transport r)" and ?cr0 = "start_retrieval manifest (encrypted_master_key manifest) ContentRetriever_new"
  let ?ks = "map fst (pending ?cr0)"
  define cr where "cr = fold (\<lambda>c r. snd (record_chunk c r)) (map (held_chunk ?h) ?ks) ?cr0"
  have ks: "set ?ks = ec_id ` set chunks"
  proof (rule set_eqI)
    fix k
    show "k \<in> set ?ks \<longleftrightarrow> k \<in> ec_id ` set chunks"
      unfolding hm_contains_alt [symmetric] hm_contains_def
      by (auto simp: start_retrieval_def get_insert_all assms(1) ContentRetriever_new_def)
  qed
  have held: "held_chunk ?h (ec_id c) = c" if "c \<in> set chunks" for c using assms(4) that by (simp add: held_chunk_def)
  have loc: "\<forall>k\<in>set ?ks. holder_get_chunk ?h k \<noteq> None" unfolding ks using assms(4) by auto
  have "start_local manifest r = r\<lparr>content_retriever := cr\<rparr>"
    using record_locals_held [of ?ks "r\<lparr>content_retriever := ?cr0\<rparr>"] loc by (simp add: start_local_def Let_def assms(3) cr_def)
  moreover have "a \<in> set chunks" if a: "a \<in> set (map (held_chunk ?h) ?ks)" for a
  proof -
    obtain k where "k \<in> set ?ks" "a = held_chunk ?h k" using a by auto
    then show ?thesis using ks held by auto
  qed
  then have coll: "collecting chunks cr" unfolding cr_def by (intro collecting_fold collecting_start assms(1))
  moreover have "hm_get (pending cr) k = None" for k
  proof (cases "k \<in> ec_id ` set chunks")
    case True
    then have "k \<in> set ?ks" using ks by simp
    then show ?thesis unfolding cr_def by (intro record_fold_pending) (auto simp: held_chunk_def)
  next
    case False
    then show ?thesis using coll by (auto simp: collecting_def)
  qed
  note fin = collecting_done [OF coll _ this]
  have "retrieving manifest cr" unfolding cr_def by (intro retrieving_fold retrieving_start)
  moreover from this have "retriever_is_complete cr"
    using fin(1,2) assms(1,2) by (simp add: retriever_is_complete_def retrieving_def)
  ultimately show thesis using that fin(3) assms(1,2) by simp
qed

lemma fetch_held:
  fixes r :: "('sc, 'sk) NodeRunner"
  assumes "chunk_ids manifest = map ec_id chunks" "distinct (chunk_ids manifest)" "content_retriever r = ContentRetriever_new"
    "\<forall>c\<in>set chunks. holder_get_chunk (chunk_holder (transport r)) (ec_id c) = Some (ec_data c)" "length (encrypted_master_key manifest) = 32"
  shows "fetch_shards env ds ws manifest surb known r = (Inr (map Some chunks), release_retriever r)"
proof -
  obtain cr where cr: "start_local manifest r = r\<lparr>content_retriever := cr\<rparr>" "retriever_is_complete cr" "retrieving manifest cr"
    "collect_chunks (received cr) (chunk_ids manifest) = Inr chunks" by (rule start_local_held [OF assms(1-4)])
  have "map (hm_get (received cr)) (chunk_ids manifest) = map Some chunks"
    using collect_chunks_nth [OF cr(4)] by (intro nth_equalityI) auto
  then show ?thesis using cr(1,2) assms(5) by (simp add: fetch_shards_def Let_def received_shards_def release_retriever_def)
qed

section \<open>What publishing makes\<close>

text \<open>The number of data shards of a file.\<close>

definition data_count :: "bytes \<Rightarrow> nat" where
  "data_count file_data = max 1 ((length file_data + CHUNK_SIZE - 1) div CHUNK_SIZE)"

lemma made_shards:
  assumes "aead_correct (se_aead se)" and "length f < 2 ^ 64" and "rs_correct rs (data_count f) (parity_count (data_count f))"
  obtains shards manifest where "make_shards se rs mk nonce cid f = Inr (shards, manifest)"
    "length shards = data_count f + parity_count (data_count f)" "chunk_ids manifest = map ec_id shards" "encrypted_master_key manifest = mk"
    "manifest_content_id manifest = cid" "manifest_data_shards manifest = data_count f" "manifest_parity_shards manifest = parity_count (data_count f)"
    "original_size manifest = word_of_nat (length f)" "manifest_nonce manifest = nonce"
    "decrypt_file se mk nonce (take (data_count f) shards) manifest = Inr f"
    "\<And>s. s \<in> set (take (data_count f) shards) \<Longrightarrow> length (ec_data s) = CHUNK_SIZE + 16"
    "\<And>sel. length sel = length shards \<Longrightarrow> erasure_decode se rs (keep sel shards) (data_count f) (parity_count (data_count f)) =
       (if length (filter id sel) < data_count f then Inl (InsufficientShards (length (filter id sel)) (data_count f)) else Inr (take (data_count f) shards))"
proof -
  obtain chunks m where e: "encrypt_file se mk nonce f = Inr (chunks, m)"
    by (simp add: encrypt_file_def encrypt_chunks_sealed [OF assms(1)] Let_def)
  note enc = encrypt_file_result [OF assms(1,2) e]
  let ?k = "data_count f" and ?m = "parity_count (data_count f)"
  have k: "length chunks = ?k" "0 < ?k" using enc(4) by (simp_all add: data_count_def)
  have "\<forall>c\<in>set chunks. ec_id c = blake3 se (ec_data c) \<and> length (ec_data c) = CHUNK_SIZE + 16" using enc(5) by blast
  from erasure_any_k [OF assms(3) k(2,1) _ this] obtain shards where s: "erasure_encode se rs chunks ?k ?m = Inr shards" "length shards = ?k + ?m"
    "take ?k shards = chunks"
    and dec: "\<And>sel. length sel = ?k + ?m \<Longrightarrow> erasure_decode se rs (keep sel shards) ?k ?m =
       (if length (filter id sel) < ?k then Inl (InsufficientShards (length (filter id sel)) ?k) else Inr chunks)" by auto
  define man where "man = m\<lparr>chunk_ids := map ec_id shards, manifest_data_shards := ?k, manifest_parity_shards := ?m,
     encrypted_master_key := mk, manifest_nonce := nonce, manifest_content_id := cid, segment_hashes := compute_segment_hashes (blake3 se) shards\<rparr>"
  have "make_shards se rs mk nonce cid f = Inr (shards, man)" using e s(1) k(1) by (simp add: make_shards_def man_def Let_def)
  moreover have "decrypt_file se mk nonce chunks man = Inr f" using enc(1) by (simp add: decrypt_file_def man_def)
  moreover have "original_size man = word_of_nat (length f)" "manifest_nonce man = nonce"
    using e by (auto simp: man_def encrypt_file_def Let_def split: sum.splits)
  moreover have "chunk_ids man = map ec_id shards" "encrypted_master_key man = mk" "manifest_content_id man = cid"
    "manifest_data_shards man = ?k" "manifest_parity_shards man = ?m" by (simp_all add: man_def)
  ultimately show thesis using that [of shards man] s(2,3) dec enc(5) by simp
qed

text \<open>C12 (roundtrip). The published shards restore the file. Publishing makes, for every file, as many data shards as the file needs and
  between one and five parity shards, lists all of them with the master key in the manifest, and from any selection of shards that is at least as
  large as the number of data shards, erasure decoding and decryption under the manifest return exactly the file; a smaller selection is refused
  with the number that is missing.\<close>

theorem published_shards_restore:
  assumes "aead_correct (se_aead se)" and "length f < 2 ^ 64" and "rs_correct rs (data_count f) (parity_count (data_count f))"
  shows "\<exists>shards manifest. make_shards se rs mk nonce cid f = Inr (shards, manifest) \<and>
    length shards = data_count f + parity_count (data_count f) \<and> 1 \<le> parity_count (data_count f) \<and> parity_count (data_count f) \<le> 5 \<and>
    chunk_ids manifest = map ec_id shards \<and> encrypted_master_key manifest = mk \<and> manifest_content_id manifest = cid \<and>
    (\<forall>sel. length sel = length shards \<longrightarrow>
       (case erasure_decode se rs (keep sel shards) (manifest_data_shards manifest) (manifest_parity_shards manifest) of
          Inr chunks \<Rightarrow> data_count f \<le> length (filter id sel) \<and> decrypt_file se mk nonce chunks manifest = Inr f
        | Inl e \<Rightarrow> length (filter id sel) < data_count f \<and> e = InsufficientShards (length (filter id sel)) (data_count f)))"
proof -
  let ?k = "data_count f" and ?m = "parity_count (data_count f)"
  obtain shards manifest where m: "make_shards se rs mk nonce cid f = Inr (shards, manifest)" "length shards = ?k + ?m"
    "chunk_ids manifest = map ec_id shards" "encrypted_master_key manifest = mk" "manifest_content_id manifest = cid"
    "manifest_data_shards manifest = ?k" "manifest_parity_shards manifest = ?m" "decrypt_file se mk nonce (take ?k shards) manifest = Inr f"
    and dec: "\<And>sel. length sel = length shards \<Longrightarrow> erasure_decode se rs (keep sel shards) ?k ?m =
       (if length (filter id sel) < ?k then Inl (InsufficientShards (length (filter id sel)) ?k) else Inr (take ?k shards))"
    by (rule made_shards [OF assms]) blast
  have "1 \<le> ?m" "?m \<le> 5" by (auto simp: parity_count_def data_count_def)
  moreover have "case erasure_decode se rs (keep sel shards) ?k ?m of
      Inr chunks \<Rightarrow> ?k \<le> length (filter id sel) \<and> decrypt_file se mk nonce chunks manifest = Inr f
    | Inl e \<Rightarrow> length (filter id sel) < ?k \<and> e = InsufficientShards (length (filter id sel)) ?k" if "length sel = length shards" for sel
    using that m(8) by (simp add: dec not_less)
  ultimately show ?thesis using m by (intro exI [of _ shards] exI [of _ manifest]) simp
qed

section \<open>What publishing leaves behind\<close>

lemma hold_all_other: "k \<notin> ec_id ` set cs \<Longrightarrow> holder_get_chunk (hold_all cid cs h) k = holder_get_chunk h k"
  by (induction cs arbitrary: h) (simp_all add: hold_all_def holder_get_chunk_def holder_add_chunk_def)

definition one_data_per_id :: "EncryptedChunk list \<Rightarrow> bool" where
  "one_data_per_id cs \<longleftrightarrow> (\<forall>c\<in>set cs. \<forall>c'\<in>set cs. ec_id c = ec_id c' \<longrightarrow> ec_data c = ec_data c')"

lemma hold_all_get: "one_data_per_id cs \<Longrightarrow> c \<in> set cs \<Longrightarrow> holder_get_chunk (hold_all cid cs h) (ec_id c) = Some (ec_data c)"
proof (induction cs arbitrary: h c)
  case (Cons a cs)
  have one: "one_data_per_id cs" using Cons.prems(1) unfolding one_data_per_id_def by (meson list.set_intros(2))
  have step: "hold_all cid (a # cs) h = hold_all cid cs (holder_add_chunk (ec_id a) (ec_data a) cid h)" by (simp add: hold_all_def)
  show ?case
  proof (cases "ec_id c \<in> ec_id ` set cs")
    case True
    then obtain c' where c': "c' \<in> set cs" "ec_id c = ec_id c'" by auto
    then have d: "ec_data c = ec_data c'" using Cons.prems unfolding one_data_per_id_def by (meson list.set_intros(2))
    show ?thesis unfolding step c'(2) d by (rule Cons.IH [OF one c'(1)])
  next
    case False
    with Cons.prems(2) have a: "a = c" by auto
    have "holder_get_chunk (holder_add_chunk (ec_id a) (ec_data a) cid h) (ec_id c) = Some (ec_data c)"
      by (simp add: a holder_get_chunk_def holder_add_chunk_def)
    then show ?thesis unfolding step hold_all_other [OF False] .
  qed
qed simp

lemma hold_manifest_get:
  "holder_get_chunk (hold_manifest cid mid bs h) k = (if k = cid \<or> k = mid then Some bs else holder_get_chunk h k)"
  by (simp add: hold_manifest_def holder_get_chunk_def holder_add_chunk_def Let_def)

text \<open>The ids a publication uses do not collide: equal ids name equal data, and the manifest's two ids are no shard's.\<close>

definition ids_apart :: "EncryptedChunk list \<Rightarrow> ChunkId \<Rightarrow> ContentId \<Rightarrow> bool" where
  "ids_apart shards mid cid \<longleftrightarrow> one_data_per_id shards \<and> mid \<notin> ec_id ` set shards \<and> cid \<notin> ec_id ` set shards"

definition em_json_correct :: "content_json \<Rightarrow> bool" where
  "em_json_correct js \<longleftrightarrow> (\<forall>em j. em_to_vec js em = Some j \<longrightarrow> em_from_slice js j = Some em)"

text \<open>One publication: its shards, manifest and encrypted manifest, and the key and id they go by.\<close>

definition publication ::
  "('sc, 'sk, 'v, 'md, 'st) node_env \<Rightarrow> content_json \<Rightarrow> ('sc, 'sk) PublishDraw \<Rightarrow> bytes \<Rightarrow> ContentId \<Rightarrow> bytes \<Rightarrow> EncryptedChunk list \<Rightarrow>
     ContentManifest \<Rightarrow> EncryptedManifest \<Rightarrow> ChunkId \<Rightarrow> bytes \<Rightarrow> bool" where
  "publication env js d f cid pk shards manifest em mid bs \<longleftrightarrow>
     pk = ed_public (ne_ed env) (pd_content_sk d) \<and> cid = content_id_from_public (ne_storage env) pk \<and>
     make_shards (ne_storage env) (ne_rs env) (pd_master_key d) (pd_nonce d) cid f = Inr (shards, manifest) \<and>
     encrypt_manifest (ne_storage env) (ne_manifest env) (pd_manifest_nonce d) manifest pk = Inr (em, mid) \<and>
     em_to_vec js em = Some bs"

lemma publish_locally_eq:
  assumes "publication env js d f cid pk shards manifest em mid bs" "node_mode (config r) \<noteq> SeedOnly"
  shows "publish_content env js d f r = publish_locally env js (pd_now d) cid manifest pk (pd_master_key d) shards em mid
    (r\<lparr>content_keypairs := hm_insert cid (pd_content_sk d) (content_keypairs r),
       manifests := trim_to MAX_MANIFESTS (hm_insert cid manifest (manifests r))\<rparr>)"
proof -
  have e: "ed_public (ne_ed env) (pd_content_sk d) = pk" "content_id_from_public (ne_storage env) pk = cid"
    "make_shards (ne_storage env) (ne_rs env) (pd_master_key d) (pd_nonce d) cid f = Inr (shards, manifest)"
    "encrypt_manifest (ne_storage env) (ne_manifest env) (pd_manifest_nonce d) manifest pk = Inr (em, mid)"
    using assms(1) unfolding publication_def by blast+
  show ?thesis unfolding publish_content_def Let_def e sum.case prod.case using assms(2) by simp
qed

lemma publish_stores:
  assumes "publication env js d f cid pk shards manifest em mid bs" "node_mode (config r) \<noteq> SeedOnly"
  obtains r' where "publish_content env js d f r = (Inr (cid, manifest, pk), r')"
    "chunk_holder (transport r') = hold_manifest cid mid bs (hold_all cid shards (chunk_holder (transport r)))"
    "current_bytes (storage_capacity (transport r')) = total_bytes (chunk_holder (transport r'))"
    "hm_get (content_chunks (node_leases r')) cid = Some (map ec_id shards @ [mid])"
    "hm_get (owned_content (node_leases r')) cid = Some (pd_master_key d)"
    "hm_get (content_keypairs r') cid = Some (pd_content_sk d)" "hm_get (storage_keys r') cid = Some (pd_master_key d)"
    "merkle_proofs r' = keep_proofs (blake3 (ne_storage env)) shards (merkle_proofs r)"
    "content_retriever r' = content_retriever r" "routing_table (transport r') = routing_table (transport r)"
proof -
  have bs: "em_to_vec js em = Some bs" using assms(1) by (simp add: publication_def)
  obtain r0 where r0: "publish_content env js d f r = publish_locally env js (pd_now d) cid manifest pk (pd_master_key d) shards em mid r0"
    "transport r0 = transport r" "content_keypairs r0 = hm_insert cid (pd_content_sk d) (content_keypairs r)" "storage_keys r0 = storage_keys r"
    "merkle_proofs r0 = merkle_proofs r" "content_retriever r0 = content_retriever r"
    using publish_locally_eq [OF assms] by fastforce
  define p where "p = publish_locally env js (pd_now d) cid manifest pk (pd_master_key d) shards em mid r0"
  have "fst p = Inr (cid, manifest, pk)" by (simp add: p_def publish_locally_def Let_def bs)
  then have "publish_content env js d f r = (Inr (cid, manifest, pk), snd p)" by (simp add: r0(1) p_def prod_eq_iff)
  note that = that [OF this]
  show thesis
    by (rule that; simp add: p_def publish_locally_def Let_def bs own_content_def with_leases_def node_leases_def
        register_owned_content_def reconcile_capacity_once_def capacity_reconcile_def r0(2-))
qed

lemma published_manifest_reads:
  assumes "publication env js d f cid pk shards manifest em mid bs"
    "aead_correct (se_aead (ne_storage env))" "json_correct (ne_manifest env)" "em_json_correct js"
  shows "decrypt_manifest_bytes (ne_storage env) (ne_manifest env) js bs pk = Inr manifest"
proof -
  have "em_from_slice js bs = Some em" using assms(1,4) by (simp add: publication_def em_json_correct_def)
  moreover have "decrypt_manifest (ne_storage env) (ne_manifest env) em pk = Inr manifest"
    using manifest_roundtrip [OF assms(2,3), where rnd = "pd_manifest_nonce d" and manifest = manifest and pk = pk] assms(1)
    unfolding publication_def by auto
  ultimately show ?thesis by (simp add: decrypt_manifest_bytes_def)
qed

lemma publication_manifest:
  assumes "publication env js d f cid pk shards manifest em mid bs"
  shows "chunk_ids manifest = map ec_id shards" "encrypted_master_key manifest = pd_master_key d" "manifest_nonce manifest = pd_nonce d"
proof -
  have "make_shards (ne_storage env) (ne_rs env) (pd_master_key d) (pd_nonce d) cid f = Inr (shards, manifest)"
    using assms unfolding publication_def by blast
  then show "chunk_ids manifest = map ec_id shards" "encrypted_master_key manifest = pd_master_key d" "manifest_nonce manifest = pd_nonce d"
    by (auto simp: make_shards_def Let_def split: sum.splits)
qed

lemma publication_some:
  assumes "publication env js d f cid pk shards manifest em mid bs" "aead_correct (se_aead (ne_storage env))" "length f < 2 ^ 64"
    "rs_correct (ne_rs env) (data_count f) (parity_count (data_count f))"
  shows "shards \<noteq> []"
proof -
  have "make_shards (ne_storage env) (ne_rs env) (pd_master_key d) (pd_nonce d) cid f = Inr (shards, manifest)"
    using assms(1) unfolding publication_def by blast
  then have "length shards = data_count f + parity_count (data_count f)"
    using made_shards [OF assms(2-4), of "pd_master_key d" "pd_nonce d" cid] by (metis Inr_inject prod.inject)
  then show ?thesis by (auto simp: data_count_def)
qed

text \<open>The proofs kept for the shards.\<close>

lemma fold_insert_pairs:
  assumes "\<And>x y. x \<in> set ps \<Longrightarrow> y \<in> set ps \<Longrightarrow> f (fst x) = f (fst y) \<Longrightarrow> P (fst x) (snd y)" "z \<in> set ps"
  shows "\<exists>v. hm_get (fold (\<lambda>(c, v). hm_insert (f c) (g v)) ps m) (f (fst z)) = Some (g v) \<and> P (fst z) v"
  using assms
proof (induction ps arbitrary: m rule: rev_induct)
  case (snoc q ps)
  show ?case
  proof (cases "f (fst q) = f (fst z)")
    case True
    have "P (fst z) (snd q)" using snoc.prems(1) [OF snoc.prems(2), of q] True by simp
    with True show ?thesis by (cases q) auto
  next
    case False
    then have z: "z \<in> set ps" using snoc.prems(2) by auto
    have "\<exists>v. hm_get (fold (\<lambda>(c, v). hm_insert (f c) (g v)) ps m) (f (fst z)) = Some (g v) \<and> P (fst z) v"
    proof (rule snoc.IH [OF _ z])
      fix x y
      assume "x \<in> set ps" "y \<in> set ps" "f (fst x) = f (fst y)"
      then show "P (fst x) (snd y)" by (intro snoc.prems(1)) simp_all
    qed
    with False show ?thesis by (cases q) simp
  qed
qed simp

lemma fold_insert_len: "hm_len (fold (\<lambda>(c, v). hm_insert (f c) (g v)) ps m) \<le> hm_len m + length ps"
proof (induction ps arbitrary: m)
  case (Cons p ps)
  obtain c v where p: "p = (c, v)" by fastforce
  have "hm_len (hm_insert (f c) (g v) m) \<le> hm_len m + 1" by (simp add: hm_len_insert)
  with Cons [of "hm_insert (f c) (g v) m"] show ?case by (simp add: p)
qed simp

lemma trim_to_fits: "hm_len m \<le> n \<Longrightarrow> trim_to n m = m"
  by (cases m) (simp_all add: hm_len_def)

lemma proofs_kept:
  assumes "one_data_per_id shards" "s \<in> set shards" "hm_len proofs + length shards \<le> MAX_MERKLE_PROOFS"
  shows "\<exists>prf. hm_get (keep_proofs h shards proofs) (ec_id s) = Some (compute_root h shards, prf) \<and> verify_chunk h s prf (compute_root h shards)"
proof -
  obtain prfs where g: "generate_proofs h shards = (compute_root h shards, prfs)" "length prfs = length shards"
    and v: "\<And>i. i < length shards \<Longrightarrow> verify_chunk h (shards ! i) (prfs ! i) (compute_root h shards)"
    using merkle_proofs_verify [of h shards] by (cases "generate_proofs h shards") auto
  let ?ps = "zip shards prfs"
  have fits: "trim_to MAX_MERKLE_PROOFS (fold (\<lambda>(c, p). hm_insert (ec_id c) (compute_root h shards, p)) ?ps proofs) =
      fold (\<lambda>(c, p). hm_insert (ec_id c) (compute_root h shards, p)) ?ps proofs"
    using fold_insert_len [of ec_id "Pair (compute_root h shards)" ?ps proofs] assms(3) g(2) by (intro trim_to_fits) simp
  obtain i where i: "i < length shards" "shards ! i = s" using assms(2) by (meson in_set_conv_nth)
  have "\<exists>p. hm_get (fold (\<lambda>(c, p). hm_insert (ec_id c) (Pair (compute_root h shards) p)) ?ps proofs) (ec_id (fst (s, prfs ! i))) =
      Some (Pair (compute_root h shards) p) \<and> verify_chunk h (fst (s, prfs ! i)) p (compute_root h shards)"
  proof (rule fold_insert_pairs [where P = "\<lambda>c p. verify_chunk h c p (compute_root h shards)"])
    fix x y
    assume xy: "x \<in> set ?ps" "y \<in> set ?ps" "ec_id (fst x) = ec_id (fst y)"
    then obtain j where j: "j < length shards" "y = (shards ! j, prfs ! j)" using g(2) by (auto simp: set_zip)
    have "fst x \<in> set shards" using xy(1) by (metis in_set_zipE prod.collapse)
    then have "ec_data (fst x) = ec_data (shards ! j)" using assms(1) xy(3) j unfolding one_data_per_id_def by (metis fst_conv nth_mem)
    then have "verify_chunk h (fst x) (prfs ! j) (compute_root h shards)" using v [OF j(1)] by (simp add: verify_chunk_def)
    then show "verify_chunk h (fst x) (snd y) (compute_root h shards)" using j(2) by simp
  next
    show "(s, prfs ! i) \<in> set ?ps" using i g(2) by (auto simp: set_zip)
  qed
  then show ?thesis by (simp add: keep_proofs_def g(1) fits)
qed

text \<open>C13 (functional). A node in any mode but seed-only, publishing under ids that do not collide (equal shard ids name equal data, the manifest's two ids are
  no shard's), ends with every shard in its storage under its id, with the encrypted manifest under both the manifest's chunk id and the content id,
  readable with the public key alone, with the keys and the list of leased chunks registered, and with its capacity counter equal to the bytes it holds;
  and, when its table of at most 8192 proofs has room for the shards, with a proof for every shard that verifies against the root of all of them (a fuller
  table is trimmed to 8192 entries). A seed-only node stores none of this.\<close>

theorem publishing_serves_content:
  assumes "publication env js d f cid pk shards manifest em mid bs" "node_mode (config r) \<noteq> SeedOnly" "ids_apart shards mid cid"
    "aead_correct (se_aead (ne_storage env))" "json_correct (ne_manifest env)" "em_json_correct js"
  shows "\<exists>r'. publish_content env js d f r = (Inr (cid, manifest, pk), r') \<and>
    (\<forall>s\<in>set shards. holder_get_chunk (chunk_holder (transport r')) (ec_id s) = Some (ec_data s)) \<and>
    (\<forall>k\<in>{cid, mid}. holder_get_chunk (chunk_holder (transport r')) k = Some bs) \<and>
    decrypt_manifest_bytes (ne_storage env) (ne_manifest env) js bs pk = Inr manifest \<and>
    (hm_len (merkle_proofs r) + length shards \<le> MAX_MERKLE_PROOFS \<longrightarrow>
       (\<forall>s\<in>set shards. \<exists>prf. hm_get (merkle_proofs r') (ec_id s) = Some (compute_root (blake3 (ne_storage env)) shards, prf) \<and>
          verify_chunk (blake3 (ne_storage env)) s prf (compute_root (blake3 (ne_storage env)) shards))) \<and>
    hm_len (merkle_proofs r') \<le> MAX_MERKLE_PROOFS \<and>
    hm_get (content_chunks (node_leases r')) cid = Some (map ec_id shards @ [mid]) \<and>
    hm_get (owned_content (node_leases r')) cid = Some (pd_master_key d) \<and> hm_get (content_keypairs r') cid = Some (pd_content_sk d) \<and>
    current_bytes (storage_capacity (transport r')) = total_bytes (chunk_holder (transport r'))"
proof -
  obtain r' where r': "publish_content env js d f r = (Inr (cid, manifest, pk), r')"
    "chunk_holder (transport r') = hold_manifest cid mid bs (hold_all cid shards (chunk_holder (transport r)))"
    "current_bytes (storage_capacity (transport r')) = total_bytes (chunk_holder (transport r'))"
    "hm_get (content_chunks (node_leases r')) cid = Some (map ec_id shards @ [mid])"
    "hm_get (owned_content (node_leases r')) cid = Some (pd_master_key d)"
    "hm_get (content_keypairs r') cid = Some (pd_content_sk d)"
    "merkle_proofs r' = keep_proofs (blake3 (ne_storage env)) shards (merkle_proofs r)"
    by (rule publish_stores [OF assms(1,2)])
  have one: "one_data_per_id shards" using assms(3) by (simp add: ids_apart_def)
  have shards: "holder_get_chunk (chunk_holder (transport r')) (ec_id s) = Some (ec_data s)" if "s \<in> set shards" for s
    using assms(3) that hold_all_get [OF one that] by (auto simp: r'(2) hold_manifest_get ids_apart_def)
  have man: "decrypt_manifest_bytes (ne_storage env) (ne_manifest env) js bs pk = Inr manifest"
    by (rule published_manifest_reads [OF assms(1,4,5,6)])
  have proofs: "\<exists>prf. hm_get (merkle_proofs r') (ec_id s) = Some (compute_root (blake3 (ne_storage env)) shards, prf) \<and>
      verify_chunk (blake3 (ne_storage env)) s prf (compute_root (blake3 (ne_storage env)) shards)" if "s \<in> set shards" "hm_len (merkle_proofs r) + length shards \<le> MAX_MERKLE_PROOFS" for s
    unfolding r'(7) by (rule proofs_kept [OF one that])
  have cap: "hm_len (merkle_proofs r') \<le> MAX_MERKLE_PROOFS"
    by (simp add: r'(7) keep_proofs_def trim_to_bound split: prod.split)
  have "\<forall>k\<in>{cid, mid}. holder_get_chunk (chunk_holder (transport r')) k = Some bs" by (simp add: r'(2) hold_manifest_get)
  with r'(1,3-6) shards man proofs cap show ?thesis by (intro exI [of _ r'] conjI ballI impI) auto
qed

section \<open>What retrieval misses\<close>

text \<open>The shards of a publication, put together as a retrieval does it: the data shards give the file, and the parity shards after them add nothing, but each
  of them has to open under the key of its position.\<close>

lemma published_shards_open:
  assumes "publication env js d f cid pk shards manifest em mid bs" "aead_correct (se_aead (ne_storage env))" "length f < 2 ^ 64"
    "rs_correct (ne_rs env) (data_count f) (parity_count (data_count f))"
  shows "opens_all (ne_storage env) manifest shards out \<longleftrightarrow> out = f \<and>
    (\<forall>i. data_count f \<le> i \<and> i < length shards \<longrightarrow> (\<exists>p. decrypt_chunk (ne_storage env) (pd_master_key d) (pd_nonce d) i (shards ! i) = Inr p))"
    (is "?opens \<longleftrightarrow> out = f \<and> ?par")
proof -
  let ?se = "ne_storage env" and ?k = "data_count f"
  have "make_shards ?se (ne_rs env) (pd_master_key d) (pd_nonce d) cid f = Inr (shards, manifest)" using assms(1) unfolding publication_def by blast
  then have m: "length shards = ?k + parity_count ?k" "chunk_ids manifest = map ec_id shards" "encrypted_master_key manifest = pd_master_key d"
    "manifest_nonce manifest = pd_nonce d" "original_size manifest = word_of_nat (length f)"
    "decrypt_file ?se (pd_master_key d) (pd_nonce d) (take ?k shards) manifest = Inr f"
    using made_shards [OF assms(2-4), of "pd_master_key d" "pd_nonce d" cid] by (metis Inr_inject prod.inject)+
  let ?dec = "decrypt_chunks ?se (pd_master_key d) (pd_nonce d) (word_of_nat (length f))"
  have k: "length (take ?k shards) = ?k" using m(1) by simp
  have data: "?dec 0 (take ?k shards) [] = Inr f" using m(5,6) by (simp add: decrypt_file_def)
  have "?dec 0 (take ?k shards @ drop ?k shards) [] = ?dec ?k (drop ?k shards) f"
    unfolding decrypt_chunks_append data k by simp
  then have all: "decrypt_file ?se (pd_master_key d) (pd_nonce d) shards manifest = ?dec ?k (drop ?k shards) f"
    by (simp add: decrypt_file_def m(5))
  show ?thesis
  proof
    assume o: ?opens
    then have par: ?par by (auto simp: opens_all_def m(3,4))
    then have "?dec ?k (drop ?k shards) f = Inr f" by (intro decrypt_past_end) (simp_all add: m(1))
    with o all par show "out = f \<and> ?par" by (simp add: opens_all_def m(3,4))
  next
    assume r: "out = f \<and> ?par"
    have "\<exists>p. decrypt_chunk ?se (pd_master_key d) (pd_nonce d) i (shards ! i) = Inr p" if i: "i < length shards" for i
    proof (cases "i < ?k")
      case True
      then show ?thesis using decrypt_chunks_all [OF data, of i] k by simp
    qed (use r i in simp)
    moreover have "?dec ?k (drop ?k shards) f = Inr f" using r by (intro decrypt_past_end) (simp_all add: m(1))
    ultimately show ?opens using r all by (simp add: opens_all_def m(2,3,4))
  qed
qed

lemma genuine_shards_assemble:
  assumes "chunk_ids manifest = map ec_id shards" "one_data_per_id shards" "set got \<subseteq> insert None (Some ` set shards)"
  shows "assemble_shards se manifest got = Inr out \<longleftrightarrow> Some ` set shards \<subseteq> set got \<and> opens_all se manifest shards out"
proof -
  have same: "c = c'" if "c \<in> set shards" "c' \<in> set shards" "ec_id c = ec_id c'" for c c'
  proof -
    have "ec_data c = ec_data c'" using assms(2) that unfolding one_data_per_id_def by blast
    with that(3) show ?thesis by simp
  qed
  show ?thesis
  proof
    assume "assemble_shards se manifest got = Inr out"
    then obtain cs where cs: "opens_all se manifest cs out"
      "\<And>i. i < length cs \<Longrightarrow> Some (cs ! i) \<in> set got \<and> ec_id (cs ! i) = chunk_ids manifest ! i"
      by (rule assemble_shards_opens) blast
    have n: "length cs = length shards" using cs(1) assms(1) by (simp add: opens_all_def)
    have "cs ! i = shards ! i" if "i < length cs" for i
    proof (rule same)
      show "cs ! i \<in> set shards" using cs(2) [OF that] assms(3) by auto
    qed (use that n cs(2) [OF that] assms(1) in auto)
    then have "cs = shards" using n by (intro nth_equalityI) simp_all
    moreover from this cs(2) have "Some ` set shards \<subseteq> set got" by (auto simp: in_set_conv_nth)
    ultimately show "Some ` set shards \<subseteq> set got \<and> opens_all se manifest shards out" using cs(1) by simp
  next
    assume a: "Some ` set shards \<subseteq> set got \<and> opens_all se manifest shards out"
    let ?cs = "concat (map (\<lambda>s. case s of Some c \<Rightarrow> [c] | None \<Rightarrow> []) got)"
    let ?r0 = "start_retrieval manifest (encrypted_master_key manifest) ContentRetriever_new"
    let ?r = "fold (\<lambda>c r. snd (record_chunk c r)) ?cs ?r0"
    have "set ?cs = {c. Some c \<in> set got}" by (auto split: option.splits)
    also have "\<dots> = set shards" using a assms(3) by blast
    finally have set: "set ?cs = set shards" .
    have coll: "collecting shards ?r" by (rule collecting_fold [OF collecting_start [OF assms(1)]]) (simp only: set)
    have "hm_get (received ?r) (ec_id c) = Some c" if c: "c \<in> set shards" for c
    proof -
      have "hm_get (pending ?r) (ec_id c) = None" using c by (intro record_fold_pending disjI2) (simp only: set, blast)
      moreover have "hm_get (pending ?r) (ec_id c) \<noteq> None \<or> hm_get (received ?r) (ec_id c) \<noteq> None"
        using coll c unfolding collecting_def by blast
      ultimately obtain c' where c': "hm_get (received ?r) (ec_id c) = Some c'" by blast
      then have "c' \<in> set shards \<and> ec_id c' = ec_id c" using coll unfolding collecting_def by blast
      then have "c' = c" using same [OF _ c] by blast
      with c' show ?thesis by simp
    qed
    then have "collect_chunks (received ?r) (chunk_ids manifest) = Inr shards" unfolding assms(1) by (rule collect_all)
    moreover have "retrieving manifest ?r" by (intro retrieving_fold retrieving_start)
    ultimately show "assemble_shards se manifest got = Inr out"
      using a by (simp add: assemble_shards_def assemble_def retrieving_def opens_all_def)
  qed
qed

text \<open>C9 (error). Content that was published is not read back. Retrieving it on the node that published it, in any mode but seed-only, never returns, however the call
  draws and whatever happens while it runs: the manifest is found in the node's own storage, and the holder's lock is still held when the shards are looked up, which lock it again. A node
  that gathered any of the genuine shards assembles exactly the file if and only if none of the shards is missing and every parity shard happens to open
  under the key of its position, under which nothing was sealed; every other selection is refused, those that erasure decoding restores included.\<close>

theorem published_content_unreadable:
  assumes "publication env js d f cid pk shards manifest em mid bs" "node_mode (config r) \<noteq> SeedOnly" "ids_apart shards mid cid"
    "aead_correct (se_aead (ne_storage env))" "json_correct (ne_manifest env)" "em_json_correct js" "length (pd_master_key d) = 32"
    "length f < 2 ^ 64" "rs_correct (ne_rs env) (data_count f) (parity_count (data_count f))"
  shows "\<exists>r'. publish_content env js d f r = (Inr (cid, manifest, pk), r') \<and> (\<forall>draw. fst (retrieve_content env js draw pk r') = None) \<and>
    (\<forall>got out. set got \<subseteq> insert None (Some ` set shards) \<longrightarrow>
       (assemble_shards (ne_storage env) manifest got = Inr out \<longleftrightarrow> out = f \<and> Some ` set shards \<subseteq> set got \<and>
          (\<forall>i. data_count f \<le> i \<and> i < length shards \<longrightarrow>
             (\<exists>p. decrypt_chunk (ne_storage env) (pd_master_key d) (pd_nonce d) i (shards ! i) = Inr p))))"
proof -
  let ?se = "ne_storage env"
  obtain r' where r': "publish_content env js d f r = (Inr (cid, manifest, pk), r')"
    "chunk_holder (transport r') = hold_manifest cid mid bs (hold_all cid shards (chunk_holder (transport r)))"
    by (rule publish_stores [OF assms(1,2)])
  note m = publication_manifest [OF assms(1)]
  have one: "one_data_per_id shards" using assms(3) by (simp add: ids_apart_def)
  have man: "decrypt_manifest_bytes ?se (ne_manifest env) js bs pk = Inr manifest"
    by (rule published_manifest_reads [OF assms(1,4,5,6)])
  have cid: "cid = content_id_from_public ?se pk" using assms(1) by (simp add: publication_def)
  have ids: "chunk_ids manifest \<noteq> []" using publication_some [OF assms(1,4,8,9)] m(1) by simp
  have "holder_get_chunk (chunk_holder (transport r')) cid = Some bs" by (simp add: r'(2) hold_manifest_get)
  then have "fst (retrieve_content env js draw pk r') = None" for draw
    using man m(2) assms(7) assemble_blocked [OF ids, of ?se r']
    by (simp add: retrieve_content_def retrieve_local_def Let_def lock_holder_def cid [symmetric])
  moreover have "assemble_shards ?se manifest got = Inr out \<longleftrightarrow> out = f \<and> Some ` set shards \<subseteq> set got \<and>
      (\<forall>i. data_count f \<le> i \<and> i < length shards \<longrightarrow> (\<exists>p. decrypt_chunk ?se (pd_master_key d) (pd_nonce d) i (shards ! i) = Inr p))"
    if "set got \<subseteq> insert None (Some ` set shards)" for got out
    using genuine_shards_assemble [OF m(1) one that, of ?se out] published_shards_open [OF assms(1,4,8,9), of out] by blast
  ultimately show ?thesis using r'(1) by blast
qed

lemma no_retrieval_no_answer:
  "mgr_pending (retriever r) = [] \<Longrightarrow> handle_chunk_response_body env d body r = r"
  by (simp add: handle_chunk_response_body_def process_fragment_def split: sum.splits prod.splits)

lemma no_retrieval_no_reply: "mgr_pending (retriever r) = [] \<Longrightarrow> handle_session_reply env d reply r = r"
  by (simp add: handle_session_reply_def no_retrieval_no_answer split: option.splits sum.splits)

lemma await_nothing: "\<forall>w\<in>set ws. w r = r \<Longrightarrow> await_shards ws r = r"
  by (induction ws) simp_all

definition sends_only :: "('sc, 'sk) NodeRunner \<Rightarrow> ('sc, 'sk) NodeRunner \<Rightarrow> bool" where
  "sends_only r r' \<longleftrightarrow> (\<exists>q. r' = map_transport (\<lambda>t. t\<lparr>connections := q\<rparr>) r)"

lemma sends_only_trans: "sends_only r r' \<Longrightarrow> sends_only r' r'' \<Longrightarrow> sends_only r r''"
  by (auto simp: sends_only_def)

lemma send_surb_request_sends: "sends_only r (snd (send_surb_request env d chunk_id peer surb r))"
proof -
  have self: "sends_only r r" unfolding sends_only_def by (rule exI [of _ "connections (transport r)"]) simp
  have "sends_only r (r\<lparr>transport := snd (send_all first packets (transport r))\<rparr>)" for first packets
    using send_all_frame [of first packets "transport r"] by (auto simp: sends_only_def)
  with self show ?thesis unfolding send_surb_request_def
    by (auto split: option.splits sum.splits prod.splits) (metis snd_conv)+
qed

lemma request_from_sends: "sends_only r (request_from env surb ds requests r)"
proof (induction requests arbitrary: r)
  case Nil
  show ?case by (auto simp: request_from_def sends_only_def intro: exI [of _ "connections (transport r)"])
next
  case (Cons q qs)
  obtain c p where q: "q = (c, p)" by fastforce
  have "sends_only r (snd (send_surb_request env (ds (c, p)) c p surb r))" by (rule send_surb_request_sends)
  moreover have "request_from env surb ds (q # qs) r = request_from env surb ds qs (snd (send_surb_request env (ds (c, p)) c p surb r))"
    by (simp add: request_from_def q)
  ultimately show ?case using sends_only_trans [OF _ Cons.IH] by simp
qed

text \<open>The shards a node asks its peers for do not arrive. Asking does not open a retrieval, and an answer that belongs to no open retrieval is
  dropped: when no retrieval is open, whatever replies come in while \<open>fetch_shards\<close> waits, every shard it returns was already in the node's own
  storage or in the retriever before the call.\<close>

theorem requested_shards_dropped:
  assumes "mgr_pending (retriever r) = []" and "fetch_shards env ds (map (\<lambda>(d, reply). handle_session_reply env d reply) replies) manifest surb known r = (Inr shards, r')"
    and "i < length shards" and "shards ! i = Some c"
  shows "holder_get_chunk (chunk_holder (transport r)) (chunk_ids manifest ! i) = Some (ec_data c) \<or>
    hm_get (received (content_retriever r)) (chunk_ids manifest ! i) = Some c"
proof -
  let ?ws = "map (\<lambda>(d, reply). handle_session_reply env d reply) replies"
  obtain cr where cr: "start_local manifest r = r\<lparr>content_retriever := cr\<rparr>"
    "from_holder (chunk_holder (transport r)) (received (content_retriever r)) (received cr)" by (rule start_local_retriever)
  define r1 where "r1 = request_from env surb ds (List.product (map fst (pending cr)) known) (r\<lparr>content_retriever := cr\<rparr>)"
  have r1: "retriever r1 = retriever r" "content_retriever r1 = cr"
    using request_from_sends [of "r\<lparr>content_retriever := cr\<rparr>" env surb ds "List.product (map fst (pending cr)) known"]
    by (auto simp: sends_only_def r1_def)
  have "await_shards ?ws r1 = r1" using assms(1) r1(1) by (intro await_nothing) (auto simp: no_retrieval_no_reply)
  then have "shards = map (hm_get (received cr)) (chunk_ids manifest)"
    using assms(2) cr(1) r1 unfolding fetch_shards_def Let_def r1_def [symmetric]
    by (auto simp: received_shards_def r1_def [symmetric] split: if_splits)
  with assms(3,4) have "hm_get (received cr) (chunk_ids manifest ! i) = Some c" by simp
  with cr(2) show ?thesis by (auto simp: from_holder_def)
qed

section \<open>Only what was published\<close>

text \<open>Nothing about a publication is forged: a manifest the node holds or receives for it and can open is the published one, and a chunk held or
  received under the id of a shard is that shard or does not open at its position. What the retriever received is filed under its own id.\<close>

definition unforged :: "storage_env \<Rightarrow> manifest_json \<Rightarrow> content_json \<Rightarrow> bytes \<Rightarrow> ContentManifest \<Rightarrow> EncryptedChunk list \<Rightarrow> ('sc, 'sk) NodeRunner \<Rightarrow> bool" where
  "unforged se mj js pk manifest shards r \<longleftrightarrow>
     (\<forall>bs m. holder_get_chunk (chunk_holder (transport r)) (content_id_from_public se pk) = Some bs \<and> decrypt_manifest_bytes se mj js bs pk = Inr m \<longrightarrow> m = manifest) \<and>
     (\<forall>bs m. hm_get (single_chunks r) (content_id_from_public se pk) = Some bs \<and> decrypt_manifest_response se mj js bs pk = Inr m \<longrightarrow> m = manifest) \<and>
     (\<forall>k c. hm_get (received (content_retriever r)) k = Some c \<longrightarrow> ec_id c = k) \<and>
     (\<forall>i c p. i < length shards \<and> decrypt_chunk se (encrypted_master_key manifest) (manifest_nonce manifest) i c = Inr p \<and>
        (hm_get (received (content_retriever r)) (ec_id (shards ! i)) = Some c \<or>
         holder_get_chunk (chunk_holder (transport r)) (ec_id (shards ! i)) = Some (ec_data c)) \<longrightarrow> ec_data c = ec_data (shards ! i))"

lemma unforged_cong:
  "chunk_holder (transport r') = chunk_holder (transport r) \<Longrightarrow> single_chunks r' = single_chunks r \<Longrightarrow> content_retriever r' = content_retriever r \<Longrightarrow>
   unforged se mj js pk manifest shards r \<Longrightarrow> unforged se mj js pk manifest shards r'"
  unfolding unforged_def by (simp only:)

lemma unforged_sends: "sends_only r r' \<Longrightarrow> unforged se mj js pk manifest shards r \<Longrightarrow> unforged se mj js pk manifest shards r'"
  by (erule unforged_cong [rotated 3]) (auto simp: sends_only_def)

lemma unforged_single:
  fixes r :: "('sc, 'sk) NodeRunner"
  assumes "unforged se mj js pk manifest shards r" "decrypt_manifest_response se mj js bs pk = Inr manifest"
  shows "unforged se mj js pk manifest shards (r\<lparr>single_chunks := hm_insert (content_id_from_public se pk) bs (single_chunks r)\<rparr>)"
  using assms unfolding unforged_def NodeRunner.simps by (elim conjE, intro conjI) simp_all

lemma unforged_start:
  assumes "unforged se mj js pk manifest shards r"
  shows "unforged se mj js pk manifest shards (start_local m r)"
proof -
  obtain cr where cr: "start_local m r = r\<lparr>content_retriever := cr\<rparr>"
    "from_holder (chunk_holder (transport r)) (received (content_retriever r)) (received cr)" by (rule start_local_retriever)
  have new: "hm_get (received (content_retriever r)) k = Some c \<or> ec_id c = k \<and> holder_get_chunk (chunk_holder (transport r)) k = Some (ec_data c)"
    if "hm_get (received cr) k = Some c" for k c using cr(2) that unfolding from_holder_def by blast
  show ?thesis
    using assms new unfolding unforged_def cr(1) by (simp, blast)
qed

lemma unforged_await:
  "\<forall>w\<in>set ws. \<forall>r. unforged se mj js pk manifest shards r \<longrightarrow> unforged se mj js pk manifest shards (w r) \<Longrightarrow>
   unforged se mj js pk manifest shards r \<Longrightarrow> unforged se mj js pk manifest shards (await_shards ws r)"
  by (induction ws arbitrary: r) simp_all

lemma unforged_manifest:
  assumes "\<forall>w\<in>set ws. \<forall>r. unforged se mj js pk manifest shards r \<longrightarrow> unforged se mj js pk manifest shards (w r)"
    "unforged se mj js pk manifest shards r" "await_manifest (content_id_from_public se pk) ws r = (Some raw, r')"
    "decrypt_manifest_response se mj js raw pk = Inr m"
  shows "m = manifest" "unforged se mj js pk manifest shards r'"
proof -
  have "m = manifest \<and> unforged se mj js pk manifest shards r'"
    using assms
  proof (induction ws arbitrary: r)
    case Nil
    then show ?case by (subst (asm) await_manifest.simps) (auto simp: unforged_def split: option.splits if_splits)
  next
    case (Cons w ws)
    show ?case
    proof (cases "hm_get (single_chunks r) (content_id_from_public se pk)")
      case None
      then have "await_manifest (content_id_from_public se pk) ws (w r) = (Some raw, r')"
        using Cons.prems(3) by (subst (asm) await_manifest.simps) simp
      then show ?thesis using Cons.prems(1,2,4) by (intro Cons.IH) simp_all
    next
      case (Some b)
      with Cons.prems(3) have "b = raw" "r' = r\<lparr>single_chunks := hm_remove (content_id_from_public se pk) (single_chunks r)\<rparr>"
        by (simp_all add: await_manifest.simps)
      then show ?thesis using Some Cons.prems(2,4) by (auto simp: unforged_def)
    qed
  qed
  then show "m = manifest" "unforged se mj js pk manifest shards r'" by simp_all
qed

lemma unforged_local:
  assumes "unforged se mj js pk manifest shards r" "chunk_ids manifest \<noteq> []"
    "retrieve_local se mj js (content_id_from_public se pk) pk r = (Some x, r')"
  shows "x = None" "r' = r"
proof -
  have "x = None \<and> r' = r"
  proof (cases "holder_get_chunk (chunk_holder (transport r)) (content_id_from_public se pk)")
    case None
    then show ?thesis using assms(3) by (simp add: retrieve_local_def lock_holder_def)
  next
    case (Some bs)
    show ?thesis
    proof (cases "decrypt_manifest_bytes se mj js bs pk")
      case (Inl e)
      then show ?thesis using Some assms(3) by (simp add: retrieve_local_def lock_holder_def)
    next
      case (Inr m)
      then have "m = manifest" using Some assms(1) unfolding unforged_def by blast
      then have "length (encrypted_master_key manifest) \<noteq> 32"
        using Some Inr assms(3) assemble_blocked [OF assms(2), of se r] by (auto simp: retrieve_local_def lock_holder_def)
      then show ?thesis
        using Some Inr assms(3) \<open>m = manifest\<close> by (simp add: retrieve_local_def lock_holder_def assemble_from_manifest_def)
    qed
  qed
  then show "x = None" "r' = r" by simp_all
qed

text \<open>Shards gathered in a state where nothing is forged assemble to what the published shards give.\<close>

lemma unforged_assembles:
  assumes "unforged se mj js pk manifest shards r" "chunk_ids manifest = map ec_id shards"
    "assemble_shards se manifest (received_shards manifest r) = Inr out"
  shows "opens_all se manifest shards out"
proof -
  obtain cs where cs: "opens_all se manifest cs out"
    "\<And>i. i < length cs \<Longrightarrow> Some (cs ! i) \<in> set (received_shards manifest r) \<and> ec_id (cs ! i) = chunk_ids manifest ! i"
    by (rule assemble_shards_opens [OF assms(3)]) blast
  have n: "length cs = length shards" using cs(1) assms(2) by (simp add: opens_all_def)
  have "ec_data (cs ! i) = ec_data (shards ! i)" if i: "i < length cs" for i
  proof -
    obtain k where "hm_get (received (content_retriever r)) k = Some (cs ! i)" using cs(2) [OF i] by (auto simp: received_shards_def)
    moreover from this have "k = ec_id (shards ! i)" using assms(1,2) cs(2) [OF i] i n by (simp add: unforged_def)
    moreover obtain p where "decrypt_chunk se (encrypted_master_key manifest) (manifest_nonce manifest) i (cs ! i) = Inr p"
      using cs(1) i unfolding opens_all_def by blast
    ultimately show ?thesis using assms(1) i n unfolding unforged_def by metis
  qed
  then have d: "map ec_data cs = map ec_data shards" using n by (intro nth_equalityI) simp_all
  have "\<exists>p. decrypt_chunk se (encrypted_master_key manifest) (manifest_nonce manifest) i (shards ! i) = Inr p" if "i < length shards" for i
    using cs(1) that n d decrypt_chunk_data [of "cs ! i" "shards ! i"] unfolding opens_all_def by (metis nth_map)
  then show ?thesis using cs(1) n decrypt_chunks_data [OF d] by (simp add: opens_all_def decrypt_file_def)
qed


section \<open>A publication to witness\<close>

text \<open>Two key derivations: one that gives every shard its own key, and one that gives all the same, so that a copy of a shard opens at another position.\<close>

definition spread_keys :: hkdf where
  "spread_keys = (\<lambda>_ k c. c @ replicate 16 0)"

definition flat_keys :: hkdf where
  "flat_keys = (\<lambda>_ k c. replicate 32 0)"

definition sample_storage :: "hkdf \<Rightarrow> storage_env" where
  "sample_storage hk = \<lparr>se_aead = demo_aead, se_hkdf = hk, blake3 = (\<lambda>b. b)\<rparr>"

definition one_manifest :: "ContentManifest \<Rightarrow> manifest_json" where
  "one_manifest m = \<lparr>manifest_to_vec = (\<lambda>x. if x = m then Some [9] else None), manifest_from_slice = (\<lambda>j. if j = [9] then Some m else None)\<rparr>"

definition content_js :: content_json where
  "content_js = \<lparr>em_to_vec = (\<lambda>em. if length (em_nonce em) = 12 then Some (em_nonce em @ em_ciphertext em) else None),
     em_from_slice = (\<lambda>b. Some \<lparr>em_ciphertext = drop 12 b, em_nonce = take 12 b\<rparr>), answer_from_slice = (\<lambda>_. None)\<rparr>"

definition sample_env :: "hkdf \<Rightarrow> ContentManifest \<Rightarrow> (u8, nat, (bytes \<times> u64 \<times> u64) list, unit, unit) node_env" where
  "sample_env hk m = demo_node_env\<lparr>ne_transport := demo_transport\<lparr>te_storage := sample_storage hk\<rparr>, ne_manifest := one_manifest m\<rparr>"

definition content_draw :: "(u8, nat) PublishDraw" where
  "content_draw = \<lparr>pd_content_sk = 7, pd_master_key = replicate 32 7, pd_nonce = replicate 12 1, pd_manifest_nonce = replicate 12 2, pd_now = 100,
     pd_send = \<lparr>sd_shuffle = (\<lambda>l. l), sd_packets = (\<lambda>_. demo_random 2), sd_nonce = [], sd_sign_nonce = []\<rparr>\<rparr>"

abbreviation sample_shard :: "hkdf \<Rightarrow> EncryptedChunk" where
  "sample_shard hk \<equiv> sealed (sample_storage hk) (replicate 32 7) (replicate 12 1) 0 [1, 2, 3]"

definition sample_manifest :: "hkdf \<Rightarrow> ContentManifest" where
  "sample_manifest hk =
     (case make_shards (sample_storage hk) demo_rs (replicate 32 7) (replicate 12 1) (demo_public 7) [1, 2, 3] of Inr (_, m) \<Rightarrow> m | Inl _ \<Rightarrow> demo_manifest)"

lemma content_aead: "aead_correct (se_aead (sample_storage hk))"
  by (simp add: sample_storage_def demo_aead_correct)

lemma content_shards:
  "make_shards (sample_storage hk) demo_rs (replicate 32 7) (replicate 12 1) (demo_public 7) [1, 2, 3] = Inr ([(sample_shard hk), (sample_shard hk)], (sample_manifest hk))"
proof -
  have "file_piece [1, 2, 3] 0 = [1, 2, 3]" by (simp add: file_piece_def CHUNK_SIZE_def)
  moreover have "max 1 ((length [1 :: u8, 2, 3] + CHUNK_SIZE - 1) div CHUNK_SIZE) = 1" by (simp add: CHUNK_SIZE_def)
  moreover have "[0..<1] = [0 :: nat]" by simp
  ultimately obtain m where e: "encrypt_file (sample_storage hk) (replicate 32 7) (replicate 12 1) [1, 2, 3] = Inr ([(sample_shard hk)], m)"
    by (simp add: encrypt_file_def encrypt_chunks_sealed [OF content_aead] Let_def del: One_nat_def length_Cons list.size)
  have id: "\<lparr>ec_id = blake3 (sample_storage hk) (ec_data (sample_shard hk)), ec_data = ec_data (sample_shard hk)\<rparr> = (sample_shard hk)"
    by (simp add: id_sealed [symmetric])
  have "erasure_encode (sample_storage hk) demo_rs [(sample_shard hk)] 1 1 = Inr [(sample_shard hk), (sample_shard hk)]"
    by (simp add: erasure_encode_def demo_rs_def Let_def id)
  with e obtain m' where "make_shards (sample_storage hk) demo_rs (replicate 32 7) (replicate 12 1) (demo_public 7) [1, 2, 3] =
      Inr ([(sample_shard hk), (sample_shard hk)], m')"
    by (simp add: make_shards_def Let_def parity_count_def)
  then show ?thesis by (simp add: sample_manifest_def)
qed

abbreviation sample_em :: "hkdf \<Rightarrow> EncryptedManifest" where
  "sample_em hk \<equiv> \<lparr>em_ciphertext = encrypt demo_aead (derive_symmetric_key (sample_storage hk) (demo_public 7)) (replicate 12 2) [9], em_nonce = replicate 12 2\<rparr>"

lemma content_publication:
  "publication ((sample_env hk) (sample_manifest hk)) content_js content_draw [1, 2, 3] (demo_public 7) (demo_public 7) [(sample_shard hk), (sample_shard hk)]
     (sample_manifest hk) (sample_em hk) (em_ciphertext (sample_em hk)) (replicate 12 2 @ em_ciphertext (sample_em hk))"
proof -
  have env: "ne_storage ((sample_env hk) (sample_manifest hk)) = (sample_storage hk)" "ne_rs ((sample_env hk) (sample_manifest hk)) = demo_rs"
    "ne_ed ((sample_env hk) (sample_manifest hk)) = demo_ed" "ne_manifest ((sample_env hk) (sample_manifest hk)) = one_manifest (sample_manifest hk)"
    by (simp_all add: sample_env_def demo_node_env_def demo_transport_def)
  have "encrypt_manifest (sample_storage hk) (one_manifest (sample_manifest hk)) (replicate 12 2) (sample_manifest hk) (demo_public 7) =
      Inr ((sample_em hk), em_ciphertext (sample_em hk))"
    by (simp add: encrypt_manifest_def one_manifest_def Let_def) (simp add: sample_storage_def)
  moreover have "content_id_from_public (sample_storage hk) (demo_public 7) = demo_public 7"
    by (simp add: content_id_from_public_def sample_storage_def)
  moreover have "ed_public demo_ed (pd_content_sk content_draw) = demo_public 7" by (simp add: demo_ed_def content_draw_def)
  moreover have "em_to_vec content_js (sample_em hk) = Some (replicate 12 2 @ em_ciphertext (sample_em hk))" by (simp add: content_js_def)
  ultimately show ?thesis using content_shards unfolding publication_def env by (simp add: content_draw_def)
qed

lemma content_correct:
  "aead_correct (se_aead (ne_storage ((sample_env hk) m)))" "json_correct (ne_manifest ((sample_env hk) m))" "em_json_correct content_js"
  by (simp_all add: sample_env_def demo_node_env_def demo_transport_def content_aead json_correct_def one_manifest_def em_json_correct_def content_js_def)

lemma content_apart: "ids_apart [(sample_shard hk), (sample_shard hk)] (em_ciphertext (sample_em hk)) (demo_public 7)"
proof -
  have "length (ec_id (sample_shard hk)) = CHUNK_SIZE + 16"
    using length_sealed [OF content_aead] id_sealed [of "sample_storage hk"] by (simp add: sample_storage_def)
  moreover have "length (em_ciphertext (sample_em hk)) = 17" using demo_aead_correct by simp
  moreover have "length (demo_public 7) = 32" by (simp add: demo_public_def)
  ultimately show ?thesis by (auto simp: ids_apart_def one_data_per_id_def CHUNK_SIZE_def)
qed

abbreviation content_storage :: storage_env where
  "content_storage \<equiv> sample_storage spread_keys"

abbreviation content_env :: "ContentManifest \<Rightarrow> (u8, nat, (bytes \<times> u64 \<times> u64) list, unit, unit) node_env" where
  "content_env \<equiv> sample_env spread_keys"

abbreviation content_shard :: EncryptedChunk where
  "content_shard \<equiv> sample_shard spread_keys"

abbreviation content_manifest :: ContentManifest where
  "content_manifest \<equiv> sample_manifest spread_keys"

lemma content_parity_closed:
  "decrypt_chunk content_storage (replicate 32 7) (replicate 12 1) 1 content_shard = Inl DecryptionFailed"
proof -
  have "demo_tag (chunk_key content_storage (replicate 32 7) 0) \<noteq> demo_tag (chunk_key content_storage (replicate 32 7) 1)"
    by code_simp
  moreover have "length (demo_tag k) = 16" for k by (simp add: demo_tag_def)
  ultimately show ?thesis
    by (simp add: decrypt_chunk_def decrypt_def sealed_def Let_def encrypt_def) (simp add: sample_storage_def demo_aead_def)
qed

lemma content_node_fields:
  "node_mode (config demo_runner) = Full" "content_retriever demo_runner = ContentRetriever_new" "merkle_proofs demo_runner = []"
  "nodes (routing_table (transport demo_runner)) = []"
  by (simp_all add: demo_runner_def NodeRunner_new_def Let_def demo_config_def NodeConfig_default_def create_transport_state_def RoutingTable_new_def)

theorem publishing_serves_content_witness:
  "\<exists>r'. publish_content (content_env content_manifest) content_js content_draw [1, 2, 3] demo_runner = (Inr (demo_public 7, content_manifest, demo_public 7), r') \<and>
     holder_get_chunk (chunk_holder (transport r')) (ec_id content_shard) = Some (ec_data content_shard) \<and>
     (\<exists>prf. hm_get (merkle_proofs r') (ec_id content_shard) = Some (compute_root (\<lambda>b. b) [content_shard, content_shard], prf) \<and>
        verify_chunk (\<lambda>b. b) content_shard prf (compute_root (\<lambda>b. b) [content_shard, content_shard]))"
proof -
  have "hm_len (merkle_proofs demo_runner) + length [content_shard, content_shard] \<le> MAX_MERKLE_PROOFS"
    by (simp add: content_node_fields MAX_MERKLE_PROOFS_def hm_len_def)
  moreover have "node_mode (config demo_runner) \<noteq> SeedOnly" by (simp add: content_node_fields)
  moreover have "blake3 (ne_storage (content_env content_manifest)) = (\<lambda>b. b)" by (simp add: sample_env_def sample_storage_def)
  ultimately show ?thesis
    using publishing_serves_content [OF content_publication _ content_apart content_correct] by (metis list.set_intros(1))
qed

lemma sample_laws:
  "length [1 :: u8, 2, 3] < 2 ^ 64" "rs_correct (ne_rs (sample_env hk m)) (data_count [1, 2, 3]) (parity_count (data_count [1, 2, 3]))" "data_count [1, 2, 3] = 1"
proof -
  show k: "data_count [1, 2, 3] = 1" by (simp add: data_count_def CHUNK_SIZE_def)
  have "ne_rs (sample_env hk m) = demo_rs" by (simp add: sample_env_def demo_node_env_def)
  then show "rs_correct (ne_rs (sample_env hk m)) (data_count [1, 2, 3]) (parity_count (data_count [1, 2, 3]))"
    unfolding k using demo_rs_correct [of 1] by (simp add: parity_count_def)
qed simp

theorem published_content_unreadable_witness:
  "\<exists>r'. publish_content (content_env content_manifest) content_js content_draw [1, 2, 3] demo_runner = (Inr (demo_public 7, content_manifest, demo_public 7), r') \<and>
     fst (retrieve_content (content_env content_manifest) content_js \<lparr>rd_instant = 0, rd_now = 100, rd_return_shuffle = id, rd_surb = demo_random 2,
       rd_requests = (\<lambda>_. pd_send content_draw), rd_manifest_wait = [], rd_shard_wait = []\<rparr> (demo_public 7) r') = None \<and>
     (\<forall>out. assemble_shards content_storage content_manifest [Some content_shard, Some content_shard] \<noteq> Inr out)"
proof -
  let ?env = "content_env content_manifest" and ?shards = "[content_shard, content_shard]"
  have s: "ne_storage ?env = content_storage" "pd_master_key content_draw = replicate 32 7" "pd_nonce content_draw = replicate 12 1"
    by (simp_all add: sample_env_def content_draw_def)
  have m: "node_mode (config demo_runner) \<noteq> SeedOnly" "length (pd_master_key content_draw) = 32" by (simp_all add: content_node_fields content_draw_def)
  obtain r' where r': "publish_content ?env content_js content_draw [1, 2, 3] demo_runner = (Inr (demo_public 7, content_manifest, demo_public 7), r')"
    "\<forall>draw. fst (retrieve_content ?env content_js draw (demo_public 7) r') = None"
    "\<forall>got out. set got \<subseteq> insert None (Some ` set ?shards) \<longrightarrow>
       (assemble_shards content_storage content_manifest got = Inr out \<longleftrightarrow> out = [1, 2, 3] \<and> Some ` set ?shards \<subseteq> set got \<and>
          (\<forall>i. 1 \<le> i \<and> i < length ?shards \<longrightarrow> (\<exists>p. decrypt_chunk content_storage (replicate 32 7) (replicate 12 1) i (?shards ! i) = Inr p)))"
    using published_content_unreadable [OF content_publication [of spread_keys] m(1) content_apart content_correct m(2) sample_laws(1,2)]
    unfolding s sample_laws(3) by blast
  have "set [Some content_shard, Some content_shard] \<subseteq> insert None (Some ` set ?shards)" by simp
  note r'(3) [rule_format, OF this]
  moreover have "1 \<le> (1 :: nat) \<and> 1 < length ?shards" by simp
  moreover have "\<nexists>p. decrypt_chunk content_storage (replicate 32 7) (replicate 12 1) 1 (?shards ! 1) = Inr p"
    using content_parity_closed by simp
  ultimately have "assemble_shards content_storage content_manifest [Some content_shard, Some content_shard] \<noteq> Inr out" for out
    by meson
  with r'(1,2) show ?thesis by blast
qed

theorem published_shards_restore_witness:
  "\<exists>shards manifest. make_shards demo_storage demo_rs (replicate 32 7) (replicate 12 1) [5] [1, 2, 3] = Inr (shards, manifest) \<and>
     (\<exists>chunks. erasure_decode demo_storage demo_rs (keep [False, True] shards) (manifest_data_shards manifest) (manifest_parity_shards manifest) = Inr chunks \<and>
        decrypt_file demo_storage (replicate 32 7) (replicate 12 1) chunks manifest = Inr [1, 2, 3])"
proof -
  have k: "data_count [1, 2, 3] = 1" "parity_count 1 = 1" by (simp_all add: data_count_def CHUNK_SIZE_def parity_count_def)
  have "length [1 :: u8, 2, 3] < 2 ^ 64" "rs_correct demo_rs (data_count [1, 2, 3]) (parity_count (data_count [1, 2, 3]))"
    unfolding k using demo_rs_correct [of 1] by simp_all
  from published_shards_restore [OF demo_storage_aead this, of "replicate 32 7" "replicate 12 1" "[5]"] obtain shards manifest where
    m: "make_shards demo_storage demo_rs (replicate 32 7) (replicate 12 1) [5] [1, 2, 3] = Inr (shards, manifest)" and len: "length shards = 2"
    and sel: "\<forall>sel. length sel = length shards \<longrightarrow>
       (case erasure_decode demo_storage demo_rs (keep sel shards) (manifest_data_shards manifest) (manifest_parity_shards manifest) of
          Inr chunks \<Rightarrow> 1 \<le> length (filter id sel) \<and> decrypt_file demo_storage (replicate 32 7) (replicate 12 1) chunks manifest = Inr [1, 2, 3]
        | Inl e \<Rightarrow> length (filter id sel) < 1 \<and> e = InsufficientShards (length (filter id sel)) 1)"
    unfolding k by auto
  have "length [False, True] = length shards" by (simp add: len)
  with sel have "case erasure_decode demo_storage demo_rs (keep [False, True] shards) (manifest_data_shards manifest) (manifest_parity_shards manifest) of
          Inr chunks \<Rightarrow> decrypt_file demo_storage (replicate 32 7) (replicate 12 1) chunks manifest = Inr [1, 2, 3]
        | Inl e \<Rightarrow> False"
    by (auto split: sum.splits dest!: spec [where x = "[False, True]"])
  with m show ?thesis by (auto split: sum.splits)
qed

text \<open>A node that holds the shard, and one that also holds a manifest of the data shard alone.\<close>

definition holding :: "(ChunkId \<times> bytes) list \<Rightarrow> (u8, nat) NodeRunner" where
  "holding cs = map_transport (\<lambda>t. t\<lparr>chunk_holder := \<lparr>holder_chunks = cs, chunk_to_content = []\<rparr>\<rparr>) demo_runner"

lemma holding_fields:
  "chunk_holder (transport (holding cs)) = \<lparr>holder_chunks = cs, chunk_to_content = []\<rparr>" "content_retriever (holding cs) = ContentRetriever_new"
  "mgr_pending (retriever (holding cs)) = []"
  by (simp_all add: holding_def content_node_fields demo_runner_def NodeRunner_new_def Let_def RetrievalManager_new_def)

lemma content_manifest_fields:
  "chunk_ids (sample_manifest hk) = [ec_id (sample_shard hk), ec_id (sample_shard hk)]" "encrypted_master_key (sample_manifest hk) = replicate 32 7"
  using publication_manifest [OF content_publication] by (simp_all add: content_draw_def)

lemma shard_held_locally:
  "content_retriever (start_local content_manifest (holding [(ec_id content_shard, ec_data content_shard)])) =
     (start_retrieval content_manifest (replicate 32 7) ContentRetriever_new)\<lparr>pending := [], received := [(ec_id content_shard, content_shard)]\<rparr>"
  by (simp add: start_local_def Let_def holding_fields content_manifest_fields start_retrieval_def ContentRetriever_new_def record_local_def
      holder_get_chunk_def record_chunk_def hm_contains_def hm_get_def hm_insert_def hm_remove_def)

theorem requested_shards_dropped_witness:
  "\<forall>surb replies. \<exists>r'. fetch_shards (content_env content_manifest) (\<lambda>_. pd_send content_draw)
      (map (\<lambda>(d, reply). handle_session_reply (content_env content_manifest) d reply) replies) content_manifest surb []
      (holding [(ec_id content_shard, ec_data content_shard)]) = (Inr [Some content_shard, Some content_shard], r') \<and>
    (holder_get_chunk (chunk_holder (transport (holding [(ec_id content_shard, ec_data content_shard)]))) (chunk_ids content_manifest ! 0) =
       Some (ec_data content_shard) \<or>
     hm_get (received (content_retriever (holding [(ec_id content_shard, ec_data content_shard)]))) (chunk_ids content_manifest ! 0) = Some content_shard)"
proof (intro allI)
  fix surb replies
  let ?r = "holding [(ec_id content_shard, ec_data content_shard)]"
  let ?ws = "map (\<lambda>(d, reply). handle_session_reply (content_env content_manifest) d reply) replies"
  obtain cr where cr: "start_local content_manifest ?r = ?r\<lparr>content_retriever := cr\<rparr>" by (rule start_local_retriever)
  have "pending cr = []" "received cr = [(ec_id content_shard, content_shard)]" using shard_held_locally cr by simp_all
  moreover have "await_shards ?ws (?r\<lparr>content_retriever := cr\<rparr>) = ?r\<lparr>content_retriever := cr\<rparr>"
    by (rule await_nothing) (auto simp: no_retrieval_no_reply holding_fields)
  ultimately have f: "fetch_shards (content_env content_manifest) (\<lambda>_. pd_send content_draw) ?ws content_manifest surb [] ?r =
      (Inr [Some content_shard, Some content_shard], release_retriever (?r\<lparr>content_retriever := cr\<rparr>))"
    by (simp add: fetch_shards_def cr content_manifest_fields received_shards_def request_from_def hm_get_def Let_def)
  show "\<exists>r'. fetch_shards (content_env content_manifest) (\<lambda>_. pd_send content_draw) ?ws content_manifest surb [] ?r =
      (Inr [Some content_shard, Some content_shard], r') \<and>
    (holder_get_chunk (chunk_holder (transport ?r)) (chunk_ids content_manifest ! 0) = Some (ec_data content_shard) \<or>
     hm_get (received (content_retriever ?r)) (chunk_ids content_manifest ! 0) = Some content_shard)"
    using f requested_shards_dropped [OF holding_fields(3) f, of 0 content_shard] by auto
qed

text \<open>A node that holds the data shard and knows one peer, which sends it the manifest while it waits.\<close>

definition asking_node :: "(u8, nat) NodeRunner" where
  "asking_node = map_transport (\<lambda>t. t\<lparr>routing_table := (routing_table t)\<lparr>nodes := [(replicate 16 5, (demo_node 5)\<lparr>kn_kem_public_key := Some (replicate 1184 5)\<rparr>)]\<rparr>\<rparr>)
     (holding [(ec_id (sample_shard flat_keys), ec_data (sample_shard flat_keys))])"

definition asking_draw :: "(u8, nat) RetrieveDraw" where
  "asking_draw = \<lparr>rd_instant = 0, rd_now = 100, rd_return_shuffle = id, rd_surb = demo_random 1, rd_requests = (\<lambda>_. pd_send content_draw),
     rd_manifest_wait = [\<lambda>r. r\<lparr>single_chunks := hm_insert (demo_public 7) (replicate 12 2 @ em_ciphertext (sample_em flat_keys)) (single_chunks r)\<rparr>], rd_shard_wait = []\<rparr>"

lemma asking_session:
  "\<exists>surb sessions. new_reply_session (sample_env hk m) now id (demo_random 1) asking_node = (Inr surb, asking_node\<lparr>surb_sessions := sessions\<rparr>)"
proof -
  let ?route = "build_self_return_route (ne_transport (sample_env hk m)) id (transport asking_node)"
  have "length (hybrid_hops ?route) = 1" "length (hh_kem_public_key (hd (hybrid_hops ?route))) = 1184"
    by (simp_all add: build_self_return_route_def asking_node_def MIN_HOPS_def hm_values_def Let_def sample_env_def demo_transport_def wire_env_def wire_kx_def min_def)
  then obtain hop where hop: "hybrid_hops ?route = [hop]" "length (hh_kem_public_key hop) = 1184"
    by (cases "hybrid_hops ?route") auto
  have kx: "sx_kx (ne_sphinx (sample_env hk m)) = wire_kx" by (simp add: sample_env_def demo_transport_def wire_env_def)
  have "\<exists>x. create_surb_hybrid (ne_sphinx (sample_env hk m)) (demo_random 1) ?route = Inr x"
    by (simp add: create_surb_hybrid_def hop kx encapsulate_to_def Let_def MAX_HOPS_def) (simp add: wire_kx_def)
  then show ?thesis by (fastforce simp: new_reply_session_def Let_def)
qed

text \<open>Under the flat keys the copy of the shard opens at the second position, so that the retrieval succeeds.\<close>

abbreviation flat_shard :: EncryptedChunk where
  "flat_shard \<equiv> sample_shard flat_keys"

abbreviation flat_manifest :: ContentManifest where
  "flat_manifest \<equiv> sample_manifest flat_keys"

abbreviation flat_env :: "(u8, nat, (bytes \<times> u64 \<times> u64) list, unit, unit) node_env" where
  "flat_env \<equiv> sample_env flat_keys flat_manifest"

lemma flat_opens: "opens_all (ne_storage flat_env) flat_manifest [flat_shard, flat_shard] [1, 2, 3]"
proof -
  have s: "ne_storage flat_env = sample_storage flat_keys" "pd_master_key content_draw = replicate 32 7" "pd_nonce content_draw = replicate 12 1"
    by (simp_all add: sample_env_def content_draw_def)
  have "length (demo_tag k) = 16" for k by (simp add: demo_tag_def)
  then have "\<exists>p. decrypt_chunk (sample_storage flat_keys) (replicate 32 7) (replicate 12 1) 1 flat_shard = Inr p"
    by (simp add: decrypt_chunk_def decrypt_def sealed_def Let_def encrypt_def chunk_key_def) (simp add: sample_storage_def demo_aead_def flat_keys_def derive_def)
  moreover have "i = 1" if "1 \<le> i \<and> i < length [flat_shard, flat_shard]" for i :: nat using that by auto
  ultimately have "\<forall>i. 1 \<le> i \<and> i < length [flat_shard, flat_shard] \<longrightarrow>
      (\<exists>p. decrypt_chunk (sample_storage flat_keys) (replicate 32 7) (replicate 12 1) i ([flat_shard, flat_shard] ! i) = Inr p)"
    by (intro allI impI) (metis nth_Cons_0 nth_Cons_Suc One_nat_def)
  with published_shards_open [OF content_publication content_correct(1) sample_laws(1,2), of flat_keys "[1, 2, 3]"] show ?thesis
    unfolding s sample_laws(3) by blast
qed

lemma flat_manifest_reads:
  "decrypt_manifest_response (ne_storage flat_env) (ne_manifest flat_env) content_js (replicate 12 2 @ em_ciphertext (sample_em flat_keys)) (demo_public 7) = Inr flat_manifest"
  using published_manifest_reads [OF content_publication content_correct, of flat_keys] by (simp add: decrypt_manifest_response_def content_js_def)

lemma flat_ids: "content_id_from_public (ne_storage flat_env) (demo_public 7) = demo_public 7" "demo_public 7 \<noteq> ec_id flat_shard"
  using content_apart [of flat_keys] by (simp_all add: content_id_from_public_def sample_storage_def sample_env_def ids_apart_def)

lemma asking_fields:
  "chunk_holder (transport asking_node) = \<lparr>holder_chunks = [(ec_id flat_shard, ec_data flat_shard)], chunk_to_content = []\<rparr>"
  "content_retriever asking_node = ContentRetriever_new" "single_chunks asking_node = []"
  by (simp_all add: asking_node_def holding_fields) (simp add: holding_def demo_runner_def NodeRunner_new_def Let_def)

lemma asking_unforged:
  "unforged (ne_storage flat_env) (ne_manifest flat_env) content_js (demo_public 7) flat_manifest [flat_shard, flat_shard] asking_node"
  using flat_ids by (auto simp: unforged_def asking_fields holder_get_chunk_def ContentRetriever_new_def less_Suc_eq)

lemma asking_wait_unforged:
  "\<forall>w\<in>set (rd_manifest_wait asking_draw @ rd_shard_wait asking_draw). \<forall>r.
     unforged (ne_storage flat_env) (ne_manifest flat_env) content_js (demo_public 7) flat_manifest [flat_shard, flat_shard] r \<longrightarrow>
     unforged (ne_storage flat_env) (ne_manifest flat_env) content_js (demo_public 7) flat_manifest [flat_shard, flat_shard] (w r)"
proof -
  have "unforged (ne_storage flat_env) (ne_manifest flat_env) content_js (demo_public 7) flat_manifest [flat_shard, flat_shard]
      (r\<lparr>single_chunks := hm_insert (demo_public 7) (replicate 12 2 @ em_ciphertext (sample_em flat_keys)) (single_chunks r)\<rparr>)"
    if "unforged (ne_storage flat_env) (ne_manifest flat_env) content_js (demo_public 7) flat_manifest [flat_shard, flat_shard] r" for r :: "(u8, nat) NodeRunner"
    using unforged_single [OF that flat_manifest_reads] unfolding flat_ids(1) .
  then show ?thesis by (simp add: asking_draw_def)
qed

lemma flat_retrieval: "\<exists>r'. retrieve_content flat_env content_js asking_draw (demo_public 7) asking_node = (Some (Inr [1, 2, 3]), r')"
proof -
  let ?bs = "replicate 12 2 @ em_ciphertext (sample_em flat_keys)" and ?peer = "(demo_node 5)\<lparr>kn_kem_public_key := Some (replicate 1184 5)\<rparr>"
  obtain surb ss where s: "new_reply_session flat_env 100 id (demo_random 1) asking_node = (Inr surb, asking_node\<lparr>surb_sessions := ss\<rparr>)"
    using asking_session by blast
  have known: "hm_values (nodes (routing_table (transport asking_node))) = [?peer]" "hybrid_capable flat_env ?peer"
    by (simp_all add: asking_node_def hm_values_def hybrid_capable_def sample_env_def demo_transport_def wire_env_def wire_kx_def)
  define r0 where "r0 = asking_node\<lparr>surb_sessions := ss, retriever := mgr_start_retrieval 0 (demo_public 7) (retriever asking_node)\<rparr>"
  obtain q where q: "request_from flat_env surb (\<lambda>_. pd_send content_draw) [(demo_public 7, ?peer)] r0 = map_transport (\<lambda>t. t\<lparr>connections := q\<rparr>) r0"
    using request_from_sends unfolding sends_only_def by blast
  define r1 where "r1 = map_transport (\<lambda>t. t\<lparr>connections := q\<rparr>) r0"
  have r1: "chunk_holder (transport r1) = chunk_holder (transport asking_node)" "content_retriever r1 = ContentRetriever_new" "single_chunks r1 = []"
    by (simp_all add: r1_def r0_def asking_fields)
  have loc: "retrieve_local (ne_storage flat_env) (ne_manifest flat_env) content_js (demo_public 7) (demo_public 7) asking_node = (Some None, asking_node)"
    using flat_ids(2) by (simp add: retrieve_local_def lock_holder_def asking_fields holder_get_chunk_def)
  define r2 where "r2 = r1\<lparr>single_chunks := []\<rparr>"
  have wait: "await_manifest (demo_public 7) (rd_manifest_wait asking_draw) r1 = (Some ?bs, r2)"
    by (simp add: await_manifest.simps asking_draw_def r1(3) r2_def hm_insert_def hm_remove_def hm_get_def)
  have "content_retriever (start_local flat_manifest r2) =
      (start_retrieval flat_manifest (replicate 32 7) ContentRetriever_new)\<lparr>pending := [], received := [(ec_id flat_shard, flat_shard)]\<rparr>"
    by (simp add: start_local_def Let_def r2_def r1 asking_fields content_manifest_fields start_retrieval_def ContentRetriever_new_def record_local_def
      holder_get_chunk_def record_chunk_def hm_contains_def hm_get_def hm_insert_def hm_remove_def)
  then obtain r3 where "fetch_shards flat_env (\<lambda>_. pd_send content_draw) [] flat_manifest surb [?peer] r2 = (Inr [Some flat_shard, Some flat_shard], r3)"
    by (simp add: fetch_shards_def content_manifest_fields received_shards_def request_from_def hm_get_def Let_def)
  moreover have "assemble_shards (ne_storage flat_env) flat_manifest [Some flat_shard, Some flat_shard] = Inr [1, 2, 3]"
    using flat_opens publication_manifest(1) [OF content_publication, of flat_keys] content_apart [of flat_keys]
    by (subst genuine_shards_assemble [where shards = "[flat_shard, flat_shard]"]) (simp_all add: ids_apart_def)
  ultimately have asm: "fetch_and_assemble flat_env (\<lambda>_. pd_send content_draw) [] flat_manifest surb [?peer] r2 = (Inr [1, 2, 3], r3)"
    by (simp add: fetch_and_assemble_def)
  have "retrieve_from_peers flat_env content_js asking_draw (demo_public 7) (demo_public 7) asking_node = (Inr [1, 2, 3], r3)"
    using s q wait flat_manifest_reads asm known unfolding retrieve_from_peers_def Let_def
    by (simp add: asking_draw_def r0_def [symmetric] r1_def [symmetric])
  then show ?thesis by (simp add: retrieve_content_def flat_ids(1) loc)
qed


end
