(* ===== verification/NodeMaintenance.thy ===== *)
theory NodeMaintenance
  imports NodeContent
begin

text \<open>
  \<^verbatim>\<open>crates/static-node/src/runner.rs\<close>, the background loops of a node: storage challenges, repair and expiry, heartbeats to the holders
  of its content, rotation of chunks, and what \<open>run\<close> starts in which mode. A definition is one tick of a loop; clocks, random choices
  and what happens while a tick waits for shards are arguments.
\<close>

section \<open>Storage challenges\<close>

definition single_peer_kem_lookup :: "NodeId \<Rightarrow> bytes \<Rightarrow> NodeId \<Rightarrow> bytes option" where
  "single_peer_kem_lookup peer_id kem = (\<lambda>i. if i = peer_id then Some kem else None)"

record 'sc ChallengeDraw =
  cd_now :: u64
  cd_candidate :: nat
  cd_segment :: nat
  cd_nonce :: bytes
  cd_return_shuffle :: shuffle
  cd_send :: "'sc SendDraw"

abbreviation with_pending :: "((bytes, VerificationPending) hashmap \<Rightarrow> (bytes, VerificationPending) hashmap) \<Rightarrow> ('sc, 'sk) NodeRunner \<Rightarrow> ('sc, 'sk) NodeRunner" where
  "with_pending f r \<equiv> r\<lparr>verification_state := (verification_state r)\<lparr>vs_pending := f (vs_pending (verification_state r))\<rparr>\<rparr>"

definition expire_challenges :: "u64 \<Rightarrow> ('sc, 'sk) NodeRunner \<Rightarrow> ('sc, 'sk) NodeRunner" where
  "expire_challenges now r =
     (let late = (\<lambda>p. VERIFICATION_TIMEOUT_SECS < saturating_sub now (vp_sent_at p));
          expired = filter late (hm_values (vs_pending (verification_state r)));
          r = with_pending (hm_retain (\<lambda>_ p. \<not> late p)) r
      in r\<lparr>accounting := fold (\<lambda>p. record_challenge_failure now (challenged_node p)) expired (accounting r)\<rparr>)"

text \<open>The chunks a peer is taken to hold, among those the node can check.\<close>

definition challenge_candidates :: "('sc, 'sk) NodeRunner \<Rightarrow> (ChunkId \<times> NodeId) list" where
  "challenge_candidates r =
     filter (\<lambda>(chunk_id, partner). hm_contains (connections (transport r)) partner \<and> partner \<noteq> ts_node_id (transport r) \<and>
               (\<exists>m\<in>set (hm_values (manifests r)). chunk_id \<in> set (chunk_ids m)))
       (active_swaps (swap_state (transport r)))"

definition hashes_in :: "ChunkId \<Rightarrow> ContentManifest \<Rightarrow> bytes list option" where
  "hashes_in chunk_id manifest =
     (case find (\<lambda>i. chunk_ids manifest ! i = chunk_id) [0..<length (chunk_ids manifest)] of
        Some index \<Rightarrow> if index < length (segment_hashes manifest) then Some (segment_hashes manifest ! index) else None
      | None \<Rightarrow> None)"

fun find_map :: "('a \<Rightarrow> 'b option) \<Rightarrow> 'a list \<Rightarrow> 'b option" where
  "find_map f [] = None"
| "find_map f (x # xs) = (case f x of Some y \<Rightarrow> Some y | None \<Rightarrow> find_map f xs)"

text \<open>Building and sending one challenge: \<open>False\<close> on every path that withdraws the pending entry.\<close>

definition send_challenge ::
  "('sc, 'sk, 'v, 'md, 'st) node_env \<Rightarrow> 'sc SendDraw \<Rightarrow> NodeId \<Rightarrow> VerificationChallenge \<Rightarrow> ('sc, 'sk) NodeRunner \<Rightarrow> bool \<times> ('sc, 'sk) NodeRunner" where
  "send_challenge env d partner asked r =
     (case find (\<lambda>n. kn_node_id n = partner) (hm_values (nodes (routing_table (transport r)))) of
        None \<Rightarrow> (False, r)
      | Some n \<Rightarrow>
          (case kn_kem_public_key n of
             None \<Rightarrow> (False, r)
           | Some peer_kem \<Rightarrow>
               (case build_route_to_destination (sd_shuffle d) partner (transport r) of
                  None \<Rightarrow> (False, r)
                | Some fwd \<Rightarrow>
                    (case create_hybrid_payload_packets (ne_sphinx env) (sd_packets d) (serialize_challenge asked) (classical_route fwd)
                            (single_peer_kem_lookup partner peer_kem) of
                       Inl _ \<Rightarrow> (False, r)
                     | Inr packets \<Rightarrow>
                         (case send_all (hh_node_id (hd (hybrid_hops fwd))) packets (transport r) of
                            (Inl _, t) \<Rightarrow> (False, r\<lparr>transport := t\<rparr>)
                          | (Inr _, t) \<Rightarrow> (True, r\<lparr>transport := t\<rparr>))))))"

definition issue_challenge ::
  "('sc, 'sk, 'v, 'md, 'st) node_env \<Rightarrow> 'sc ChallengeDraw \<Rightarrow> ChunkId \<Rightarrow> NodeId \<Rightarrow> bytes list \<Rightarrow> ('sc, 'sk) NodeRunner \<Rightarrow> ('sc, 'sk) NodeRunner" where
  "issue_challenge env d chunk_id partner hashes r =
     (let segment_index = cd_segment d mod length hashes;
          asked = \<lparr>vc_chunk_id = chunk_id, vc_segment_index = word_of_nat segment_index, vc_nonce = cd_nonce d,
                   vc_return_route = from_sphinx_route (classical_route (build_self_return_route (ne_transport env) (cd_return_shuffle d) (transport r)))\<rparr>;
          r = with_pending (hm_insert (cd_nonce d)
                \<lparr>vp_chunk_id = chunk_id, vp_segment_index = word_of_nat segment_index, expected_hash = hashes ! segment_index,
                 challenged_node = partner, vp_sent_at = cd_now d\<rparr>) r
      in case send_challenge env (cd_send d) partner asked r of
           (True, r) \<Rightarrow> r
         | (False, r) \<Rightarrow> with_pending (hm_remove (cd_nonce d)) r)"

definition run_verification_tick :: "('sc, 'sk, 'v, 'md, 'st) node_env \<Rightarrow> 'sc ChallengeDraw \<Rightarrow> ('sc, 'sk) NodeRunner \<Rightarrow> ('sc, 'sk) NodeRunner" where
  "run_verification_tick env d r =
     (let r = expire_challenges (cd_now d) r;
          candidates = challenge_candidates r
      in if candidates = [] then r
         else case candidates ! (cd_candidate d mod length candidates) of
           (chunk_id, partner) \<Rightarrow>
             (case find_map (hashes_in chunk_id) (hm_values (manifests r)) of
                None \<Rightarrow> r
              | Some hashes \<Rightarrow> if hashes = [] then r else issue_challenge env d chunk_id partner hashes r))"

definition verification_loop_step :: "('sc, 'sk, 'v, 'md, 'st) node_env \<Rightarrow> 'sc ChallengeDraw \<Rightarrow> ('sc, 'sk) NodeRunner \<Rightarrow> ('sc, 'sk) NodeRunner" where
  "verification_loop_step env d r = (if verification_enabled (config r) then run_verification_tick env d r else r)"

section \<open>Repair\<close>

record ('sc, 'sk) RepairDraw =
  rp_now :: u64
  rp_return_shuffle :: shuffle
  rp_surb :: "'sc PacketRandom"
  rp_gossip :: "nat \<Rightarrow> nat \<Rightarrow> 'sc SendDraw"
  rp_requests :: "(ChunkId \<times> KnownNode) \<Rightarrow> 'sc SendDraw"
  rp_wait :: "(('sc, 'sk) NodeRunner \<Rightarrow> ('sc, 'sk) NodeRunner) list"

text \<open>Pass 1: a chunk the node lacks and its host buffer has.\<close>

definition reseed_chunk :: "u64 \<Rightarrow> ContentId \<Rightarrow> ChunkId \<Rightarrow> nat \<times> ('sc, 'sk) NodeRunner \<Rightarrow> nat \<times> ('sc, 'sk) NodeRunner" where
  "reseed_chunk now cid chunk_id = (\<lambda>(stored, r).
     if holder_has_chunk (chunk_holder (transport r)) chunk_id then (stored, r)
     else case host_get chunk_id (host_buffer r) of
            None \<Rightarrow> (stored, r)
          | Some (data, created) \<Rightarrow>
              (case store_repaired_chunk now cid chunk_id data created r of
                 (True, r) \<Rightarrow> (stored + 1, r)
               | (False, r) \<Rightarrow> (stored, r)))"

definition local_shards :: "ContentManifest \<Rightarrow> ('sc, 'sk) NodeRunner \<Rightarrow> EncryptedChunk option list" where
  "local_shards manifest r =
     map (\<lambda>k. map_option (\<lambda>data. \<lparr>ec_id = k, ec_data = data\<rparr>) (holder_get_chunk (chunk_holder (transport r)) k)) (chunk_ids manifest)"

definition present :: "'a option list \<Rightarrow> nat" where
  "present xs = length (filter (\<lambda>s. s \<noteq> None) xs)"

text \<open>Pass 2: report the misses, open a reply session, fetch; \<open>None\<close> when no session can be opened.\<close>

definition fetch_missing ::
  "('sc, 'sk, 'v, 'md, 'st) node_env \<Rightarrow> ('sc, 'sk) RepairDraw \<Rightarrow> ContentManifest \<Rightarrow> EncryptedChunk option list \<Rightarrow> ('sc, 'sk) NodeRunner \<Rightarrow>
     EncryptedChunk option list option \<times> ('sc, 'sk) NodeRunner" where
  "fetch_missing env d manifest available r =
     (let capable = filter (hybrid_capable env) (hm_values (nodes (routing_table (transport r))));
          r = fold (\<lambda>(idx, shard) r. if shard = None
                then send_missing_chunk_gossip env (rp_now d) (rp_return_shuffle d) (rp_gossip d idx) (manifest_content_id manifest) (chunk_ids manifest ! idx) r
                else r) (enumerate 0 available) r
      in case new_reply_session env (rp_now d) (rp_return_shuffle d) (rp_surb d) r of
           (Inl _, r) \<Rightarrow> (None, r)
         | (Inr surb, r) \<Rightarrow>
             (case fetch_shards env (rp_requests d) (rp_wait d) manifest surb capable r of
                (fetched, r) \<Rightarrow>
                  let fetched = (case fetched of Inr shards \<Rightarrow> shards | Inl _ \<Rightarrow> [])
                  in (Some (map (\<lambda>(idx, shard). if shard = None \<and> idx < length fetched then fetched ! idx else shard) (enumerate 0 available)), r)))"

text \<open>Pass 3: the decoded data shards at their positions in the manifest.\<close>

definition store_decoded :: "u64 \<Rightarrow> ContentManifest \<Rightarrow> nat \<times> EncryptedChunk \<Rightarrow> nat \<times> ('sc, 'sk) NodeRunner \<Rightarrow> nat \<times> ('sc, 'sk) NodeRunner" where
  "store_decoded now manifest = (\<lambda>(idx, chunk) (stored, r).
     if manifest_data_shards manifest \<le> idx then (stored, r)
     else
       let chunk_id = chunk_ids manifest ! idx in
       if holder_has_chunk (chunk_holder (transport r)) chunk_id then (stored, r)
       else case store_repaired_chunk now (manifest_content_id manifest) chunk_id (ec_data chunk) now r of
              (True, r) \<Rightarrow> (stored + 1, r)
            | (False, r) \<Rightarrow> (stored, r))"

definition decode_and_store ::
  "('sc, 'sk, 'v, 'md, 'st) node_env \<Rightarrow> u64 \<Rightarrow> ContentManifest \<Rightarrow> EncryptedChunk option list \<Rightarrow> nat \<times> ('sc, 'sk) NodeRunner \<Rightarrow>
     (NodeError + nat) \<times> ('sc, 'sk) NodeRunner" where
  "decode_and_store env now manifest available = (\<lambda>(stored, r).
     if present available < manifest_data_shards manifest
     then (Inl (Bail (ascii_bytes ''insufficient shards for reconstruction (have '' @ decimal (present available) @
       ascii_bytes '', need '' @ decimal (manifest_data_shards manifest) @ ascii_bytes '')'')), r)
     else case reconstruct_missing_chunks (ne_storage env) (ne_rs env) available (manifest_data_shards manifest) (manifest_parity_shards manifest) of
            Inl e \<Rightarrow> (Inl (NodeStorage e), r)
          | Inr reconstructed \<Rightarrow>
              (case fold (store_decoded now manifest) (enumerate 0 reconstructed) (stored, r) of (stored, r) \<Rightarrow> (Inr stored, r)))"

definition repair_content_once ::
  "('sc, 'sk, 'v, 'md, 'st) node_env \<Rightarrow> ('sc, 'sk) RepairDraw \<Rightarrow> ContentManifest \<Rightarrow> ('sc, 'sk) NodeRunner \<Rightarrow> (NodeError + nat) \<times> ('sc, 'sk) NodeRunner" where
  "repair_content_once env d manifest r =
     (case fold (reseed_chunk (rp_now d) (manifest_content_id manifest)) (chunk_ids manifest) (0, r) of
        (stored, r) \<Rightarrow>
          let available = local_shards manifest r in
          if manifest_data_shards manifest \<le> present available
          then decode_and_store env (rp_now d) manifest available (stored, r)
          else case fetch_missing env d manifest available r of
                 (None, r) \<Rightarrow> (Inr 0, r)
               | (Some available, r) \<Rightarrow> decode_and_store env (rp_now d) manifest available (stored, r))"

definition count_copy :: "(ChunkId \<Rightarrow> bool) \<Rightarrow> ChunkId list \<Rightarrow> (ChunkId, nat) hashmap \<Rightarrow> (ChunkId, nat) hashmap" where
  "count_copy has = fold (\<lambda>k counts. if has k then hm_insert k (copies counts k + 1) counts else counts)"

definition copy_counts :: "ContentManifest \<Rightarrow> ('sc, 'sk) NodeRunner \<Rightarrow> (ChunkId, nat) hashmap" where
  "copy_counts manifest r =
     count_copy (\<lambda>k. host_get k (host_buffer r) \<noteq> None) (chunk_ids manifest)
       (count_copy (hm_contains (active_swaps (swap_state (transport r)))) (chunk_ids manifest)
          (count_copy (holder_has_chunk (chunk_holder (transport r))) (chunk_ids manifest) []))"

definition repair_one :: "('sc, 'sk, 'v, 'md, 'st) node_env \<Rightarrow> ('sc, 'sk) RepairDraw \<Rightarrow> ContentId \<Rightarrow> ('sc, 'sk) NodeRunner \<Rightarrow> ('sc, 'sk) NodeRunner" where
  "repair_one env d cid r =
     (case hm_get (manifests r) cid of
        None \<Rightarrow> r
      | Some manifest \<Rightarrow>
          if is_being_repaired (repair_state r) cid then r
          else
            let health = check_content_health cid manifest (copy_counts manifest r) in
            if is_healthy health then r
            else if \<not> is_recoverable health then r
            else case create_repair_plan health manifest of
              None \<Rightarrow> r
            | Some plan \<Rightarrow>
                let r = r\<lparr>repair_state := start_repair plan (repair_state r)\<rparr> in
                (case repair_content_once env d manifest r of
                   (Inr _, r) \<Rightarrow> r\<lparr>repair_state := complete_repair cid (repair_state r)\<rparr>
                 | (Inl _, r) \<Rightarrow> r\<lparr>repair_state := fail_repair cid (repair_state r)\<rparr>))"

definition run_repair_tick :: "('sc, 'sk, 'v, 'md, 'st) node_env \<Rightarrow> (ContentId \<Rightarrow> ('sc, 'sk) RepairDraw) \<Rightarrow> ('sc, 'sk) NodeRunner \<Rightarrow> ('sc, 'sk) NodeRunner" where
  "run_repair_tick env ds r =
     (if pending (content_retriever r) \<noteq> [] then r
      else fold (\<lambda>cid. repair_one env (ds cid) cid) (take MAX_REPAIRS_PER_TICK (map fst (content_chunks (node_leases r)))) r)"

text \<open>One round of \<open>lease_expiration_and_repair_loop\<close>.\<close>

definition lifecycle_step ::
  "('sc, 'sk, 'v, 'md, 'st) node_env \<Rightarrow> (ContentId \<Rightarrow> ('sc, 'sk) RepairDraw) \<Rightarrow> nat \<Rightarrow> u64 \<Rightarrow> (nat \<Rightarrow> 'sc SendDraw) \<Rightarrow> ('sc, 'sk) NodeRunner \<Rightarrow> ('sc, 'sk) NodeRunner" where
  "lifecycle_step env ds instant now aborts r =
     (let r = run_repair_tick env ds r;
          r = snd (expire_chunks_once now r);
          r = map_transport (\<lambda>t. snd (transport_expire_swaps (ne_transport env) now aborts t)) r;
          r = map_transport (\<lambda>t. t\<lparr>mix_node := clean_expired_sessions now (mix_node t)\<rparr>) r;
          r = map_transport (\<lambda>t. t\<lparr>pending_requests := snd (manager_cleanup_expired instant SURB_REQUEST_TIMEOUT_SECS (pending_requests t))\<rparr>) r
      in r\<lparr>surb_sessions := hm_retain (\<lambda>_ key. saturating_sub now (ss_created_at key) < SESSION_TTL_SECS) (surb_sessions r)\<rparr>)"

section \<open>Heartbeats to holders\<close>

record 'sc HeartbeatDraw =
  hd_now :: u64
  hd_nonce :: "ContentId \<Rightarrow> bytes"
  hd_send :: "ContentId \<Rightarrow> NodeId \<Rightarrow> 'sc SendDraw"

definition holders_of :: "ChunkId list \<Rightarrow> ('sc, 'sk) NodeRunner \<Rightarrow> NodeId list" where
  "holders_of ids r =
     filter (\<lambda>p. p \<noteq> ts_node_id (transport r))
       (remdups (concat (map (\<lambda>k. case hm_get (active_swaps (swap_state (transport r))) k of Some p \<Rightarrow> [p] | None \<Rightarrow> []) ids)))"

definition notify_holder ::
  "('sc, 'sk, 'v, 'md, 'st) node_env \<Rightarrow> 'sc SendDraw \<Rightarrow> bytes \<Rightarrow> NodeId \<Rightarrow> nat \<times> ('sc, 'sk) NodeRunner \<Rightarrow> nat \<times> ('sc, 'sk) NodeRunner" where
  "notify_holder env d payload peer = (\<lambda>(notified, r).
     (case build_route_to_destination (sd_shuffle d) peer (transport r) of
        None \<Rightarrow> (notified, r)
      | Some fwd \<Rightarrow>
          (case create_hybrid_payload_packets (ne_sphinx env) (sd_packets d) payload (classical_route fwd) (hybrid_kem_map r) of
             Inl _ \<Rightarrow> (notified, r)
           | Inr packets \<Rightarrow> (notified + 1, send_each (hh_node_id (hd (hybrid_hops fwd))) packets r))))"

definition propagate_content ::
  "('sc, 'sk, 'v, 'md, 'st) node_env \<Rightarrow> 'sc HeartbeatDraw \<Rightarrow> ContentId \<times> ChunkId list \<Rightarrow> nat \<times> ('sc, 'sk) NodeRunner \<Rightarrow> nat \<times> ('sc, 'sk) NodeRunner" where
  "propagate_content env d = (\<lambda>(cid, ids) (notified, r).
     case hm_get (content_keypairs r) cid of
       None \<Rightarrow> (notified, r)
     | Some sk \<Rightarrow>
         (case create_heartbeat (ne_storage env) (ne_ed env) (hd_now d) (hd_nonce d cid) (node_leases r) cid HB_LEASE_DURATION_SECS sk of
            Inl _ \<Rightarrow> (notified, r)
          | Inr heartbeat \<Rightarrow>
              fold (\<lambda>peer. notify_holder env (hd_send d cid peer) (wire_serialize_heartbeat heartbeat) peer) (holders_of ids r) (notified, r)))"

definition propagate_heartbeats_once ::
  "('sc, 'sk, 'v, 'md, 'st) node_env \<Rightarrow> 'sc HeartbeatDraw \<Rightarrow> ('sc, 'sk) NodeRunner \<Rightarrow> nat \<times> ('sc, 'sk) NodeRunner" where
  "propagate_heartbeats_once env d r = fold (propagate_content env d) (content_chunks (node_leases r)) (0, r)"

definition heartbeat_sender_step ::
  "('sc, 'sk, 'v, 'md, 'st) node_env \<Rightarrow> 'sc HeartbeatDraw \<Rightarrow> ('sc, 'sk) NodeRunner \<Rightarrow> ('sc, 'sk) NodeRunner" where
  "heartbeat_sender_step env d r = snd (propagate_heartbeats_once env d (snd (heartbeat_tick_once (hd_now d) r)))"

section \<open>Rotation\<close>

record ('sc, 'sk) RotationDraw =
  ro_now :: u64
  ro_shuffle :: "ChunkId list \<Rightarrow> ChunkId list"
  ro_peer :: "ChunkId \<Rightarrow> nat"
  ro_content_sk :: "ChunkId \<Rightarrow> 'sk"
  ro_nonce :: "ChunkId \<Rightarrow> bytes"
  ro_send :: "ChunkId \<Rightarrow> 'sc SendDraw"

definition rotation_eligible :: "u64 \<Rightarrow> ('sc, 'sk) NodeRunner \<Rightarrow> ChunkId \<Rightarrow> bool" where
  "rotation_eligible now r chunk_id \<longleftrightarrow>
     (case hm_get (leases (node_leases r)) chunk_id of
        Some lease \<Rightarrow> min_lease_remaining_secs (rotation_config (config r)) < saturating_sub (expires_at lease) now
      | None \<Rightarrow> False) \<and>
     (case hm_get (chunk_metadata r) chunk_id of Some m \<Rightarrow> barter_eligible now m | None \<Rightarrow> True)"

definition note_bartered :: "u64 \<Rightarrow> ChunkId \<Rightarrow> bytes \<Rightarrow> ('sc, 'sk) NodeRunner \<Rightarrow> ('sc, 'sk) NodeRunner" where
  "note_bartered now chunk_id data r =
     (let created = (case hm_get (chunk_metadata r) chunk_id of Some m \<Rightarrow> md_created_at m | None \<Rightarrow> now)
      in r\<lparr>host_buffer := host_insert chunk_id data created (host_buffer r),
           chunk_metadata := hm_modify chunk_id (\<lambda>m. m\<lparr>last_bartered := now\<rparr>) (chunk_metadata r)\<rparr>)"

text \<open>One proposal: the chunks dispatched so far and the node.\<close>

definition offer_chunk ::
  "('sc, 'sk, 'v, 'md, 'st) node_env \<Rightarrow> (SwapProposal \<Rightarrow> bytes option) \<Rightarrow> ('sc, 'sk) RotationDraw \<Rightarrow> KnownNode list \<Rightarrow> NodeId set \<Rightarrow> ChunkId \<times> bytes \<Rightarrow>
     ChunkId list \<times> ('sc, 'sk) NodeRunner \<Rightarrow> ChunkId list \<times> ('sc, 'sk) NodeRunner" where
  "offer_chunk env proposal_json d known senders = (\<lambda>(chunk_id, data) (dispatched, r).
     (let peer = known ! (ro_peer d chunk_id mod length known) in
      if kn_node_id peer = ts_node_id (transport r) then (dispatched, r)
      else if kn_node_id peer \<notin> senders then (dispatched, r)
      else case hm_get (merkle_proofs r) chunk_id of
             None \<Rightarrow> (dispatched, r)
           | Some (content_root, merkle_proof) \<Rightarrow>
               let sk = ro_content_sk d chunk_id;
                   proposal = create_swap_proposal (ne_storage env) (ne_ed env) (ro_now d) (ro_nonce d chunk_id) (ts_node_id (transport r)) chunk_id
                     (storage_key (transport r)) DEFAULT_LEASE_DURATION_SECS content_root merkle_proof (ed_public (ne_ed env) sk) (Some sk);
                   r = map_transport (\<lambda>t. t\<lparr>swap_state := record_proposal (blake3 (ne_storage env)) proposal (swap_state t)\<rparr>) r
               in case proposal_json proposal of
                    None \<Rightarrow> (dispatched, r)
                  | Some json \<Rightarrow>
                      (dispatched @ [chunk_id],
                       note_bartered (ro_now d) chunk_id data
                         (map_transport (send_maintenance_sphinx (ne_transport env) (ro_send d chunk_id) (kn_node_id peer) MSG_BODY_SWAP_PROPOSAL json) r))))"

definition stamp_epoch :: "u64 \<Rightarrow> ('sc, 'sk) NodeRunner \<Rightarrow> ('sc, 'sk) NodeRunner" where
  "stamp_epoch now r = r\<lparr>rotation_state := (rotation_state r)\<lparr>last_epoch := now\<rparr>\<rparr>"

definition rotation_offers :: "('sc, 'sk) RotationDraw \<Rightarrow> ('sc, 'sk) NodeRunner \<Rightarrow> (ChunkId \<times> bytes) list" where
  "rotation_offers d r =
     (let selected = select_chunks_for_rotation (ro_shuffle d) (rotation_state r) (map fst (holder_chunks (chunk_holder (transport r)))) (rotation_config (config r)) (ro_now d);
          held = concat (map (\<lambda>k. case holder_get_chunk (chunk_holder (transport r)) k of Some data \<Rightarrow> [(k, data)] | None \<Rightarrow> []) selected)
      in filter (\<lambda>(k, _). rotation_eligible (ro_now d) r k) held)"

definition rotation_tick ::
  "('sc, 'sk, 'v, 'md, 'st) node_env \<Rightarrow> (SwapProposal \<Rightarrow> bytes option) \<Rightarrow> ('sc, 'sk) RotationDraw \<Rightarrow> ('sc, 'sk) NodeRunner \<Rightarrow> ('sc, 'sk) NodeRunner" where
  "rotation_tick env proposal_json d r =
     (if \<not> rot_enabled (rotation_config (config r)) then r
      else
        let eligible = rotation_offers d r;
            known = hm_values (nodes (routing_table (transport r)));
            stamped = stamp_epoch (ro_now d) r
        in if eligible = [] \<or> known = [] then stamped
           else
             (case fold (offer_chunk env proposal_json d known (set (map fst (connections (transport r))))) eligible ([], stamped) of
                (dispatched, r) \<Rightarrow>
                  evict_excess_cache (max_cached_chunks (rotation_config (config r)))
                    (r\<lparr>rotation_state := fold (\<lambda>k. record_rotation k (ro_now d)) dispatched (rotation_state r)\<rparr>)))"

section \<open>What a node runs\<close>

datatype node_task =
    BackupHealthLoop | Listener | DialPeer bytes | LifecycleLoop | HeartbeatLoop | SwapRetrievalLoop | GossipLoop | PruneLoop
  | CapacityLoop | ReconnectLoop | RotationLoop | PaymentLoop | VerificationLoop | ApiServer

definition dial_addrs :: "NodeConfig \<Rightarrow> bytes list" where
  "dial_addrs c =
     (if node_mode c = SeedOnly then (case sponsor c of Some s \<Rightarrow> [s] | None \<Rightarrow> []) else []) @
     (if node_mode c = BackupOnly then (case primary_address (backup_config c) of Some p \<Rightarrow> [p] | None \<Rightarrow> []) else []) @
     bootstrap_peers c"

text \<open>\<open>parses\<close> is \<open>str::parse::<SocketAddr>().is_ok()\<close>; a bad listen address ends \<open>run\<close> before anything but the backup loop is started.\<close>

definition started_tasks :: "(bytes \<Rightarrow> bool) \<Rightarrow> NodeConfig \<Rightarrow> node_task list" where
  "started_tasks parses c =
     (if node_mode c = BackupOnly then [BackupHealthLoop] else []) @
     (if node_mode c \<noteq> SeedOnly \<and> \<not> parses (listen_addr c) then []
      else
        (if node_mode c \<noteq> SeedOnly then [Listener] else []) @
        map DialPeer (filter parses (dial_addrs c)) @
        [LifecycleLoop, HeartbeatLoop, SwapRetrievalLoop] @
        (if node_mode c \<noteq> SeedOnly then [GossipLoop] else []) @
        [PruneLoop, CapacityLoop, ReconnectLoop] @
        (if node_mode c = Full then [RotationLoop] else []) @
        (if cc_enabled (compute_config c) then [PaymentLoop] else []) @
        (if node_mode c = Full then [VerificationLoop] else []) @
        [ApiServer])"

definition prune_step :: "u64 \<Rightarrow> ('sc, 'sk) NodeRunner \<Rightarrow> ('sc, 'sk) NodeRunner" where
  "prune_step now r =
     r\<lparr>accounting := prune_inactive_peers_with_grace now PRUNE_MAX_AGE_SECS PARTITION_THRESHOLD_SECS PARTITION_GRACE_PERIOD_SECS (accounting r)\<rparr>"

text \<open>The peers \<open>run\<close>'s reconciliation loop dials again.\<close>

definition reconnect_targets :: "(bytes \<Rightarrow> bool) \<Rightarrow> u64 \<Rightarrow> ('sc, 'sk) NodeRunner \<Rightarrow> bytes list" where
  "reconnect_targets parses now r =
     concat (map (\<lambda>peer. if hm_contains (connections (transport r)) peer then []
                         else case get_node (routing_table (transport r)) peer of
                                None \<Rightarrow> []
                              | Some n \<Rightarrow> if parses (kn_address n) then [kn_address n] else [])
       (map fst (filter (\<lambda>(_, credit). PARTITION_THRESHOLD_SECS < saturating_sub now (last_interaction credit)) (peers (accounting r)))))"

end
