(* ===== verification/MaintenanceFlow.thy ===== *)
theory MaintenanceFlow
  imports ContentFlow NodeMaintenance
begin

text \<open>
  What the background loops achieve: repair from a node's own copies restores every data shard, and so the file; a verification tick counts
  exactly the late answers and challenges only registered partners. And what they do not: challenges over a route with intermediates, heartbeats
  for chunks that were swapped away, and proposals for published chunks are never sent.
\<close>

section \<open>Repair restores the data shards\<close>

definition shard_data :: "EncryptedChunk list \<Rightarrow> ChunkId \<Rightarrow> bytes" where
  "shard_data shards k = (case find (\<lambda>s. ec_id s = k) shards of Some s \<Rightarrow> ec_data s | None \<Rightarrow> [])"

lemma shard_data_eq:
  assumes "one_data_per_id shards" "s \<in> set shards"
  shows "shard_data shards (ec_id s) = ec_data s"
proof (cases "find (\<lambda>x. ec_id x = ec_id s) shards")
  case None
  with assms(2) show ?thesis by (auto simp: find_None_iff)
next
  case (Some x)
  then have "x \<in> set shards" "ec_id x = ec_id s" by (auto simp: find_Some_iff)
  then have "ec_data x = ec_data s" using assms unfolding one_data_per_id_def by blast
  with Some show ?thesis by (simp add: shard_data_def)
qed

definition missing_bytes :: "ChunkId set \<Rightarrow> (ChunkId \<Rightarrow> bytes) \<Rightarrow> ChunkHolder \<Rightarrow> nat" where
  "missing_bytes ids data h = (\<Sum>k\<in>{k\<in>ids. \<not> holder_has_chunk h k}. length (data k))"

text \<open>What the node holds of the content is genuine, and there is room for the rest.\<close>

definition repairable :: "ChunkId set \<Rightarrow> (ChunkId \<Rightarrow> bytes) \<Rightarrow> ('sc, 'sk) NodeRunner \<Rightarrow> bool" where
  "repairable ids data r \<longleftrightarrow> finite ids \<and> counter_ok r \<and> 0 < max_chunks_per_peer (storage_capacity (transport r)) \<and>
     held_bytes (chunk_holder (transport r)) + unat (reserved_bytes (storage_capacity (transport r))) + missing_bytes ids data (chunk_holder (transport r))
       \<le> unat (max_bytes (storage_capacity (transport r))) \<and>
     (\<forall>k\<in>ids. \<forall>d. holder_get_chunk (chunk_holder (transport r)) k = Some d \<longrightarrow> d = data k)"

definition buffer_genuine :: "ChunkId set \<Rightarrow> (ChunkId \<Rightarrow> bytes) \<Rightarrow> HostBuffer \<Rightarrow> bool" where
  "buffer_genuine ids data b \<longleftrightarrow> (\<forall>k\<in>ids. \<forall>d t. host_get k b = Some (d, t) \<longrightarrow> d = data k)"

lemma has_get: "holder_has_chunk h k \<longleftrightarrow> holder_get_chunk h k \<noteq> None"
  by (simp add: holder_has_chunk_def holder_get_chunk_def hm_contains_def)

lemma add_get: "holder_get_chunk (holder_add_chunk k d c h) k' = (if k' = k then Some d else holder_get_chunk h k')"
  by (simp add: holder_get_chunk_def holder_add_chunk_def)

lemma missing_add:
  assumes "finite ids" "k \<in> ids" "\<not> holder_has_chunk h k"
  shows "missing_bytes ids data h = length (data k) + missing_bytes ids data (holder_add_chunk k d c h)"
proof -
  have "{k'\<in>ids. \<not> holder_has_chunk (holder_add_chunk k d c h) k'} = {k'\<in>ids. \<not> holder_has_chunk h k'} - {k}"
    by (auto simp: has_get add_get)
  then show ?thesis using sum.remove [of "{k'\<in>ids. \<not> holder_has_chunk h k'}" k "\<lambda>k. length (data k)"] assms
    by (simp add: missing_bytes_def)
qed

lemma store_repaired_step:
  assumes "repairable ids data r" "k \<in> ids" "\<not> holder_has_chunk (chunk_holder (transport r)) k"
  obtains r' where "store_repaired_chunk now cid k (data k) created r = (True, r')" "repairable ids data r'"
    "chunk_holder (transport r') = holder_add_chunk k (data k) cid (chunk_holder (transport r))" "host_buffer r' = host_buffer r"
proof -
  let ?h = "chunk_holder (transport r)" and ?c = "storage_capacity (transport r)"
  let ?c' = "capacity_reconcile (total_bytes ?h) ?c"
  note rep = assms(1) [unfolded repairable_def counter_ok_def]
  have ok: "stored_ok ?h ?c'" using rep by (simp add: stored_reconcile)
  have caps: "unat (current_bytes ?c') = held_bytes ?h" "reserved_bytes ?c' = reserved_bytes ?c" "max_bytes ?c' = max_bytes ?c"
    "max_chunks_per_peer ?c' = max_chunks_per_peer ?c"
    using ok by (simp_all add: stored_ok_def capacity_reconcile_def)
  have room: "held_bytes ?h + unat (reserved_bytes ?c) + (length (data k) + missing_bytes ids data (holder_add_chunk k (data k) cid ?h)) \<le> unat (max_bytes ?c)"
    using rep missing_add [of ids k ?h data "data k" cid] assms(2,3) by simp
  moreover have "unat (max_bytes ?c) < 2 ^ 63" using rep by (simp add: stored_ok_def)
  ultimately have len: "length (data k) < 2 ^ 63" and small: "held_bytes ?h + unat (reserved_bytes ?c) + length (data k) < 2 ^ 64" by simp_all
  have acc: "can_accept ?c' (word_of_nat (length (data k))) 0"
    using can_accept_exact [of ?c' "length (data k)" 0] small room rep by (simp add: caps fits_def)
  have ok': "stored_ok (holder_add_chunk k (data k) cid ?h) (record_accept (word_of_nat (length (data k))) ?c')"
    by (rule stored_add [OF ok assms(3) len acc])
  obtain r' where r': "store_repaired_chunk now cid k (data k) created r = (True, r')"
    "chunk_holder (transport r') = holder_add_chunk k (data k) cid ?h" "storage_capacity (transport r') = record_accept (word_of_nat (length (data k))) ?c'"
    "host_buffer r' = host_buffer r"
    using acc assms(3) by (simp add: store_repaired_chunk_def Let_def)
  have "held_bytes (holder_add_chunk k (data k) cid ?h) = held_bytes ?h + length (data k)" by (rule held_add [OF assms(3)])
  then have "repairable ids data r'"
    using rep ok' room assms(2) by (auto simp: repairable_def counter_ok_def r' record_accept_def caps add_get)
  with r' that show thesis by blast
qed

lemma reseed_step:
  assumes "repairable ids data r" "k \<in> ids" "buffer_genuine ids data (host_buffer r)"
  obtains n' r' where "reseed_chunk now cid k (n, r) = (n', r')" "repairable ids data r'" "host_buffer r' = host_buffer r"
    "\<And>i. holder_has_chunk (chunk_holder (transport r)) i \<Longrightarrow> holder_has_chunk (chunk_holder (transport r')) i"
    "holder_has_chunk (chunk_holder (transport r')) k \<or> host_get k (host_buffer r) = None"
proof (cases "holder_has_chunk (chunk_holder (transport r)) k \<or> host_get k (host_buffer r) = None")
  case True
  then have "reseed_chunk now cid k (n, r) = (n, r)" by (auto simp: reseed_chunk_def)
  with True assms(1) that show thesis by blast
next
  case False
  then obtain t where t: "host_get k (host_buffer r) = Some (data k, t)" using assms(2,3) by (auto simp: buffer_genuine_def)
  obtain r' where r': "store_repaired_chunk now cid k (data k) t r = (True, r')" "repairable ids data r'"
    "chunk_holder (transport r') = holder_add_chunk k (data k) cid (chunk_holder (transport r))" "host_buffer r' = host_buffer r"
    using store_repaired_step [OF assms(1,2)] False by blast
  have "reseed_chunk now cid k (n, r) = (n + 1, r')" using False t r'(1) by (simp add: reseed_chunk_def)
  with r' that show thesis by (auto simp: has_get add_get)
qed

lemma reseed_all:
  assumes "repairable ids data r" "set ks \<subseteq> ids" "buffer_genuine ids data (host_buffer r)"
  shows "\<exists>n' r'. fold (reseed_chunk now cid) ks (n, r) = (n', r') \<and> repairable ids data r' \<and>
    (\<forall>i. holder_has_chunk (chunk_holder (transport r)) i \<longrightarrow> holder_has_chunk (chunk_holder (transport r')) i) \<and>
    (\<forall>k\<in>set ks. holder_has_chunk (chunk_holder (transport r')) k \<or> host_get k (host_buffer r) = None)"
  using assms
proof (induction ks arbitrary: n r)
  case (Cons k ks)
  have k: "k \<in> ids" using Cons.prems(2) by simp
  obtain n1 r1 where r1: "reseed_chunk now cid k (n, r) = (n1, r1)" "repairable ids data r1" "host_buffer r1 = host_buffer r"
    "\<And>i. holder_has_chunk (chunk_holder (transport r)) i \<Longrightarrow> holder_has_chunk (chunk_holder (transport r1)) i"
    "holder_has_chunk (chunk_holder (transport r1)) k \<or> host_get k (host_buffer r) = None"
    using reseed_step [OF Cons.prems(1) k Cons.prems(3)] by metis
  have buf: "buffer_genuine ids data (host_buffer r1)" using Cons.prems(3) r1(3) by simp
  from Cons.IH [where n = n1, OF r1(2) _ buf] Cons.prems(2) r1(3) obtain n' r' where
    "fold (reseed_chunk now cid) ks (n1, r1) = (n', r')" "repairable ids data r'"
    "\<And>i. holder_has_chunk (chunk_holder (transport r1)) i \<Longrightarrow> holder_has_chunk (chunk_holder (transport r')) i"
    "\<And>i. i \<in> set ks \<Longrightarrow> holder_has_chunk (chunk_holder (transport r')) i \<or> host_get i (host_buffer r) = None" by auto
  with r1(1,4,5) show ?case by (intro exI [of _ n'] exI [of _ r']) auto
qed simp

lemma store_all:
  assumes "repairable ids data r" "\<And>i c. (i, c) \<in> set ics \<Longrightarrow> i < length ks \<and> ks ! i \<in> ids \<and> ec_data c = data (ks ! i)" "chunk_ids manifest = ks"
  shows "\<exists>n' r'. fold (store_decoded now manifest) ics (n, r) = (n', r') \<and> repairable ids data r' \<and>
    (\<forall>k. holder_has_chunk (chunk_holder (transport r)) k \<longrightarrow> holder_has_chunk (chunk_holder (transport r')) k) \<and>
    (\<forall>(i, c)\<in>set ics. i < manifest_data_shards manifest \<longrightarrow> holder_has_chunk (chunk_holder (transport r')) (ks ! i))"
  using assms(1,2)
proof (induction ics arbitrary: n r)
  case (Cons ic ics)
  obtain i c where ic: "ic = (i, c)" by fastforce
  have i: "ks ! i \<in> ids" "ec_data c = data (ks ! i)" using Cons.prems(2) [of i c] ic by simp_all
  have "\<exists>n1 r1. store_decoded now manifest (i, c) (n, r) = (n1, r1) \<and> repairable ids data r1 \<and>
      (\<forall>k. holder_has_chunk (chunk_holder (transport r)) k \<longrightarrow> holder_has_chunk (chunk_holder (transport r1)) k) \<and>
      (i < manifest_data_shards manifest \<longrightarrow> holder_has_chunk (chunk_holder (transport r1)) (ks ! i))"
  proof (cases "i < manifest_data_shards manifest \<and> \<not> holder_has_chunk (chunk_holder (transport r)) (ks ! i)")
    case True
    obtain r1 where "store_repaired_chunk now (manifest_content_id manifest) (ks ! i) (data (ks ! i)) now r = (True, r1)" "repairable ids data r1"
      "chunk_holder (transport r1) = holder_add_chunk (ks ! i) (data (ks ! i)) (manifest_content_id manifest) (chunk_holder (transport r))"
      using store_repaired_step [OF Cons.prems(1) i(1)] True by blast
    with True i(2) assms(3) show ?thesis by (auto simp: store_decoded_def Let_def has_get add_get)
  next
    case False
    then have "store_decoded now manifest (i, c) (n, r) = (n, r)" using assms(3) by (auto simp: store_decoded_def Let_def)
    with False Cons.prems(1) show ?thesis by auto
  qed
  then obtain n1 r1 where r1: "store_decoded now manifest (i, c) (n, r) = (n1, r1)" "repairable ids data r1"
    "\<And>k. holder_has_chunk (chunk_holder (transport r)) k \<Longrightarrow> holder_has_chunk (chunk_holder (transport r1)) k"
    "i < manifest_data_shards manifest \<Longrightarrow> holder_has_chunk (chunk_holder (transport r1)) (ks ! i)" by blast
  from Cons.IH [OF r1(2), of n1] Cons.prems(2) obtain n' r' where
    "fold (store_decoded now manifest) ics (n1, r1) = (n', r')" "repairable ids data r'"
    "\<And>k. holder_has_chunk (chunk_holder (transport r1)) k \<Longrightarrow> holder_has_chunk (chunk_holder (transport r')) k"
    "\<forall>(i, c)\<in>set ics. i < manifest_data_shards manifest \<longrightarrow> holder_has_chunk (chunk_holder (transport r')) (ks ! i)" by auto
  with r1(1,3,4) ic show ?case by (intro exI [of _ n'] exI [of _ r']) auto
qed simp

lemma filter_length_mono: "(\<And>x. x \<in> set xs \<Longrightarrow> P x \<Longrightarrow> Q x) \<Longrightarrow> length (filter P xs) \<le> length (filter Q xs)"
proof (induction xs)
  case (Cons x xs)
  then have "length (filter P xs) \<le> length (filter Q xs)" "P x \<Longrightarrow> Q x" by simp_all
  then show ?case by auto
qed simp

lemma local_shards_keep:
  assumes "repairable (ec_id ` set shards) (shard_data shards) r" "one_data_per_id shards" "chunk_ids manifest = map ec_id shards"
  shows "local_shards manifest r = keep (map (\<lambda>s. holder_has_chunk (chunk_holder (transport r)) (ec_id s)) shards) shards"
proof (rule nth_equalityI)
  fix i
  assume "i < length (local_shards manifest r)"
  then have i: "i < length shards" by (simp add: local_shards_def assms(3))
  let ?s = "shards ! i" and ?h = "chunk_holder (transport r)"
  have "ec_id ?s \<in> ec_id ` set shards" using i by simp
  then have "d = ec_data ?s" if "holder_get_chunk ?h (ec_id ?s) = Some d" for d
    using assms(1) that shard_data_eq [OF assms(2) nth_mem [OF i]] unfolding repairable_def by auto
  then have "map_option (\<lambda>d. \<lparr>ec_id = ec_id ?s, ec_data = d\<rparr>) (holder_get_chunk ?h (ec_id ?s)) = (if holder_has_chunk ?h (ec_id ?s) then Some ?s else None)"
    by (cases "holder_get_chunk ?h (ec_id ?s)") (auto simp: has_get)
  with i show "local_shards manifest r ! i = keep (map (\<lambda>s. holder_has_chunk ?h (ec_id s)) shards) shards ! i"
    by (simp add: local_shards_def assms(3) keep_def)
qed (simp add: local_shards_def assms(3))

text \<open>C11 (liveness). Repair brings the data back. Let a published content have enough shards, in the node's storage or in its host buffer, for its number of data
  shards; let the copies be genuine and the missing ones fit. Then one repair succeeds without any peer, every data shard is afterwards in
  storage under its id with its bytes, and these shards decrypt to the file.\<close>

theorem repair_restores_data:
  assumes "aead_correct (se_aead (ne_storage env))" "length f < 2 ^ 64" "rs_correct (ne_rs env) (data_count f) (parity_count (data_count f))"
    and made: "make_shards (ne_storage env) (ne_rs env) mk nonce cid f = Inr (shards, manifest)" and "one_data_per_id shards"
    and "repairable (ec_id ` set shards) (shard_data shards) r" "buffer_genuine (ec_id ` set shards) (shard_data shards) (host_buffer r)"
    and "data_count f \<le> length (filter (\<lambda>s. holder_has_chunk (chunk_holder (transport r)) (ec_id s) \<or> host_get (ec_id s) (host_buffer r) \<noteq> None) shards)"
  shows "\<exists>n r'. repair_content_once env d manifest r = (Inr n, r') \<and>
    (\<forall>i<data_count f. holder_get_chunk (chunk_holder (transport r')) (chunk_ids manifest ! i) = Some (ec_data (shards ! i))) \<and>
    decrypt_file (ne_storage env) mk nonce (take (data_count f) shards) manifest = Inr f"
proof -
  let ?k = "data_count f" and ?m = "parity_count (data_count f)" and ?ids = "ec_id ` set shards" and ?data = "shard_data shards"
  have m: "length shards = ?k + ?m" "chunk_ids manifest = map ec_id shards" "manifest_data_shards manifest = ?k" "manifest_parity_shards manifest = ?m"
    "decrypt_file (ne_storage env) mk nonce (take ?k shards) manifest = Inr f"
    and dec: "\<And>sel. length sel = length shards \<Longrightarrow> erasure_decode (ne_storage env) (ne_rs env) (keep sel shards) ?k ?m =
       (if length (filter id sel) < ?k then Inl (InsufficientShards (length (filter id sel)) ?k) else Inr (take ?k shards))"
    using made_shards [OF assms(1-3), of mk nonce cid] made by (metis Inr_inject Pair_inject)+
  have sub: "set (map ec_id shards) \<subseteq> ?ids" by simp
  obtain n1 r1 where r1: "fold (reseed_chunk (rp_now d) (manifest_content_id manifest)) (map ec_id shards) (0, r) = (n1, r1)" "repairable ?ids ?data r1"
    "\<forall>i. holder_has_chunk (chunk_holder (transport r)) i \<longrightarrow> holder_has_chunk (chunk_holder (transport r1)) i"
    "\<forall>k\<in>set (map ec_id shards). holder_has_chunk (chunk_holder (transport r1)) k \<or> host_get k (host_buffer r) = None"
    using reseed_all [OF assms(6) sub assms(7)] by metis
  define sel where "sel = map (\<lambda>s. holder_has_chunk (chunk_holder (transport r1)) (ec_id s)) shards"
  have loc: "local_shards manifest r1 = keep sel shards" unfolding sel_def by (rule local_shards_keep [OF r1(2) assms(5) m(2)])
  have "?k \<le> length (filter (\<lambda>s. holder_has_chunk (chunk_holder (transport r1)) (ec_id s)) shards)"
    by (rule order_trans [OF assms(8)], rule filter_length_mono) (use r1(3,4) in auto)
  then have enough: "?k \<le> length (filter id sel)" by (simp add: sel_def filter_map comp_def)
  have len: "length sel = length shards" by (simp add: sel_def)
  have pres: "present (local_shards manifest r1) = length (filter id sel)" unfolding present_def loc by (rule keep_present [OF len])
  have dec': "reconstruct_missing_chunks (ne_storage env) (ne_rs env) (local_shards manifest r1) ?k ?m = Inr (take ?k shards)"
    using dec [OF len] enough by (simp add: reconstruct_missing_chunks_def loc)
  have items: "i < length (map ec_id shards) \<and> map ec_id shards ! i \<in> ?ids \<and> ec_data c = ?data (map ec_id shards ! i)"
    if "(i, c) \<in> set (enumerate 0 (take ?k shards))" for i c
  proof -
    have i: "i < ?k" "i < length shards" "c = shards ! i" using that by (auto simp: in_set_enumerate_eq)
    then show ?thesis using shard_data_eq [OF assms(5) nth_mem [OF i(2)]] by simp
  qed
  obtain n2 r2 where r2: "fold (store_decoded (rp_now d) manifest) (enumerate 0 (take ?k shards)) (n1, r1) = (n2, r2)" "repairable ?ids ?data r2"
    "\<forall>(i, c)\<in>set (enumerate 0 (take ?k shards)). i < manifest_data_shards manifest \<longrightarrow> holder_has_chunk (chunk_holder (transport r2)) (map ec_id shards ! i)"
    using store_all [where n = n1 and now = "rp_now d" and ics = "enumerate 0 (take ?k shards)", OF r1(2) items m(2)] by blast
  have "holder_get_chunk (chunk_holder (transport r2)) (chunk_ids manifest ! i) = Some (ec_data (shards ! i))" if "i < ?k" for i
  proof -
    have i: "i < length shards" using that m(1) by simp
    have "(i, shards ! i) \<in> set (enumerate 0 (take ?k shards))" using that i by (simp add: in_set_enumerate_eq)
    then have "holder_has_chunk (chunk_holder (transport r2)) (ec_id (shards ! i))" using r2(3) that m(3) i by auto
    moreover have "ec_id (shards ! i) \<in> ?ids" using i by simp
    ultimately show ?thesis using r2(2) shard_data_eq [OF assms(5) nth_mem [OF i]] i m(2) unfolding repairable_def has_get by auto
  qed
  moreover have "repair_content_once env d manifest r = (Inr n2, r2)"
    using r1(1) r2(1) enough dec' by (simp add: repair_content_once_def Let_def m(2-4) pres decode_and_store_def)
  ultimately show ?thesis using m(5) by blast
qed

section \<open>What a verification tick does\<close>

definition late_challenges :: "u64 \<Rightarrow> ('sc, 'sk) NodeRunner \<Rightarrow> VerificationPending list" where
  "late_challenges now r = filter (\<lambda>p. VERIFICATION_TIMEOUT_SECS < saturating_sub now (vp_sent_at p)) (hm_values (vs_pending (verification_state r)))"

lemma send_challenge_frame:
  obtains t where "snd (send_challenge env d partner asked r) = r\<lparr>transport := t\<rparr>" "\<exists>q. t = (transport r)\<lparr>connections := q\<rparr>"
proof -
  have keep: "\<exists>t. r = r\<lparr>transport := t\<rparr> \<and> (\<exists>q. t = (transport r)\<lparr>connections := q\<rparr>)"
    by (rule exI [of _ "transport r"]) (auto intro: exI [of _ "connections (transport r)"])
  have sent: "\<exists>u. r\<lparr>transport := t\<rparr> = r\<lparr>transport := u\<rparr> \<and> (\<exists>q. u = (transport r)\<lparr>connections := q\<rparr>)"
    if "send_all hop packets (transport r) = (res, t)" for hop packets res t
    using send_all_frame [of hop packets "transport r"] that by (intro exI [of _ t]) simp
  have "\<exists>t. snd (send_challenge env d partner asked r) = r\<lparr>transport := t\<rparr> \<and> (\<exists>q. t = (transport r)\<lparr>connections := q\<rparr>)"
    unfolding send_challenge_def by (simp split: option.splits sum.splits prod.splits) (auto intro: keep dest: sent)
  with that show thesis by blast
qed

text \<open>A challenge the node may issue: the registered partner of a chunk, connected, and a manifest that has the chunk.\<close>

definition may_challenge :: "('sc, 'sk) NodeRunner \<Rightarrow> ChunkId \<Rightarrow> NodeId \<Rightarrow> bool" where
  "may_challenge r chunk_id partner \<longleftrightarrow> (chunk_id, partner) \<in> set (active_swaps (swap_state (transport r))) \<and>
     hm_contains (connections (transport r)) partner \<and> partner \<noteq> ts_node_id (transport r) \<and>
     (\<exists>m\<in>set (hm_values (manifests r)). chunk_id \<in> set (chunk_ids m))"

lemma issue_challenge_effect:
  "accounting (issue_challenge env d chunk_id partner hashes r) = accounting r \<and> chunk_holder (transport (issue_challenge env d chunk_id partner hashes r)) = chunk_holder (transport r) \<and>
   (\<forall>n. n \<noteq> cd_nonce d \<longrightarrow> hm_get (vs_pending (verification_state (issue_challenge env d chunk_id partner hashes r))) n = hm_get (vs_pending (verification_state r)) n) \<and>
   (\<forall>n p. hm_get (vs_pending (verification_state (issue_challenge env d chunk_id partner hashes r))) n = Some p \<longrightarrow>
      hm_get (vs_pending (verification_state r)) n = Some p \<or>
      n = cd_nonce d \<and> vp_chunk_id p = chunk_id \<and> challenged_node p = partner \<and> vp_sent_at p = cd_now d \<and>
        expected_hash p = hashes ! (cd_segment d mod length hashes))"
proof -
  define entry where "entry = \<lparr>vp_chunk_id = chunk_id, vp_segment_index = word_of_nat (cd_segment d mod length hashes),
    expected_hash = hashes ! (cd_segment d mod length hashes), challenged_node = partner, vp_sent_at = cd_now d\<rparr>"
  define r1 where "r1 = with_pending (hm_insert (cd_nonce d) entry) r"
  obtain asked where i: "issue_challenge env d chunk_id partner hashes r =
      (case send_challenge env (cd_send d) partner asked r1 of (True, r) \<Rightarrow> r | (False, r) \<Rightarrow> with_pending (hm_remove (cd_nonce d)) r)"
    by (simp add: issue_challenge_def Let_def r1_def entry_def)
  obtain t where t: "snd (send_challenge env (cd_send d) partner asked r1) = r1\<lparr>transport := t\<rparr>" "\<exists>q. t = (transport r1)\<lparr>connections := q\<rparr>"
    by (rule send_challenge_frame)
  have "issue_challenge env d chunk_id partner hashes r = r1\<lparr>transport := t\<rparr> \<or>
      issue_challenge env d chunk_id partner hashes r = with_pending (hm_remove (cd_nonce d)) (r1\<lparr>transport := t\<rparr>)"
    using t(1) unfolding i by (cases "send_challenge env (cd_send d) partner asked r1") (auto split: bool.splits)
  then show ?thesis using t(2) by (elim disjE) (auto simp: r1_def entry_def)
qed

text \<open>C15 (functional). A verification tick counts exactly one failure for every challenge that was not answered in time and no other change of the books;
  it forgets those challenges and keeps the others; and it adds at most one, under its fresh nonce, to a connected node that is registered as the partner of
  a chunk listed in a manifest of this node.\<close>

theorem verification_tick_effect:
  assumes "hm_wf (vs_pending (verification_state r))"
  shows "accounting (run_verification_tick env d r) = fold (\<lambda>p. record_challenge_failure (cd_now d) (challenged_node p)) (late_challenges (cd_now d) r) (accounting r) \<and>
    chunk_holder (transport (run_verification_tick env d r)) = chunk_holder (transport r) \<and>
    (\<forall>n. n \<noteq> cd_nonce d \<longrightarrow> hm_get (vs_pending (verification_state (run_verification_tick env d r))) n =
       (case hm_get (vs_pending (verification_state r)) n of
          Some p \<Rightarrow> if VERIFICATION_TIMEOUT_SECS < saturating_sub (cd_now d) (vp_sent_at p) then None else Some p | None \<Rightarrow> None)) \<and>
    (\<forall>n p. hm_get (vs_pending (verification_state (run_verification_tick env d r))) n = Some p \<longrightarrow>
       hm_get (vs_pending (verification_state r)) n = Some p \<and> saturating_sub (cd_now d) (vp_sent_at p) \<le> VERIFICATION_TIMEOUT_SECS \<or>
       n = cd_nonce d \<and> vp_sent_at p = cd_now d \<and> may_challenge r (vp_chunk_id p) (challenged_node p))"
proof -
  define r1 where "r1 = expire_challenges (cd_now d) r"
  have r1: "accounting r1 = fold (\<lambda>p. record_challenge_failure (cd_now d) (challenged_node p)) (late_challenges (cd_now d) r) (accounting r)"
    "transport r1 = transport r" "manifests r1 = manifests r"
    by (simp_all add: r1_def expire_challenges_def late_challenges_def Let_def)
  have p1: "hm_get (vs_pending (verification_state r)) n = Some p \<and> saturating_sub (cd_now d) (vp_sent_at p) \<le> VERIFICATION_TIMEOUT_SECS"
    if "hm_get (vs_pending (verification_state r1)) n = Some p" for n p
    using that by (auto simp: r1_def expire_challenges_def Let_def hm_get_retain [OF assms] split: option.splits if_splits)
  have k1: "hm_get (vs_pending (verification_state r1)) n = (case hm_get (vs_pending (verification_state r)) n of
      Some p \<Rightarrow> if VERIFICATION_TIMEOUT_SECS < saturating_sub (cd_now d) (vp_sent_at p) then None else Some p | None \<Rightarrow> None)" for n
    by (auto simp: r1_def expire_challenges_def Let_def hm_get_retain [OF assms] split: option.splits)
  show ?thesis
  proof (cases "challenge_candidates r1 = []")
    case True
    then have "run_verification_tick env d r = r1" by (simp add: run_verification_tick_def Let_def r1_def)
    then show ?thesis by (intro conjI allI impI) (use r1(1,2) p1 k1 in auto)
  next
    case False
    define cp where "cp = challenge_candidates r1 ! (cd_candidate d mod length (challenge_candidates r1))"
    have "cp \<in> set (challenge_candidates r1)" using False by (simp add: cp_def)
    then have may: "may_challenge r (fst cp) (snd cp)" by (auto simp: challenge_candidates_def may_challenge_def r1(2,3))
    have tick: "run_verification_tick env d r = (case find_map (hashes_in (fst cp)) (hm_values (manifests r1)) of
        None \<Rightarrow> r1 | Some hashes \<Rightarrow> if hashes = [] then r1 else issue_challenge env d (fst cp) (snd cp) hashes r1)"
      using False by (simp add: run_verification_tick_def Let_def r1_def [symmetric] cp_def [symmetric] split_beta)
    have "run_verification_tick env d r = r1 \<or> (\<exists>hashes. run_verification_tick env d r = issue_challenge env d (fst cp) (snd cp) hashes r1)"
      unfolding tick by (auto split: option.split)
    then consider "run_verification_tick env d r = r1"
      | hashes where "run_verification_tick env d r = issue_challenge env d (fst cp) (snd cp) hashes r1" by blast
    then show ?thesis
    proof cases
      case 2
      note eff = issue_challenge_effect [of env d "fst cp" "snd cp" hashes r1]
      show ?thesis unfolding 2
      proof (intro conjI allI impI)
        fix n p
        assume "hm_get (vs_pending (verification_state (issue_challenge env d (fst cp) (snd cp) hashes r1))) n = Some p"
        then have "hm_get (vs_pending (verification_state r1)) n = Some p \<or>
            n = cd_nonce d \<and> vp_chunk_id p = fst cp \<and> challenged_node p = snd cp \<and> vp_sent_at p = cd_now d"
          using eff by blast
        then show "hm_get (vs_pending (verification_state r)) n = Some p \<and> saturating_sub (cd_now d) (vp_sent_at p) \<le> VERIFICATION_TIMEOUT_SECS \<or>
            n = cd_nonce d \<and> vp_sent_at p = cd_now d \<and> may_challenge r (vp_chunk_id p) (challenged_node p)"
          using p1 may by auto
      qed (use eff r1(1,2) k1 in simp_all)
    next
      case 1
      show ?thesis unfolding 1 by (intro conjI allI impI r1(1) k1) (use r1(2) p1 in auto)
    qed
  qed
qed

theorem verification_tick_effect_witness:
  "accounting (run_verification_tick demo_node_env \<lparr>cd_now = 700, cd_candidate = 0, cd_segment = 0, cd_nonce = [4], cd_return_shuffle = id, cd_send = pd_send content_draw\<rparr>
     (with_pending (\<lambda>_. [([9], \<lparr>vp_chunk_id = [1], vp_segment_index = 0, expected_hash = [], challenged_node = [5], vp_sent_at = 50\<rparr>)]) demo_runner)) =
   record_challenge_failure 700 [5] (accounting demo_runner)"
proof -
  let ?r = "with_pending (\<lambda>_. [([9], \<lparr>vp_chunk_id = [1], vp_segment_index = 0, expected_hash = [], challenged_node = [5], vp_sent_at = 50\<rparr>)]) demo_runner"
  have "hm_wf (vs_pending (verification_state ?r))" by (simp add: hm_wf_def)
  moreover have "late_challenges 700 ?r = [\<lparr>vp_chunk_id = [1], vp_segment_index = 0, expected_hash = [], challenged_node = [5], vp_sent_at = 50\<rparr>]"
    by (simp add: late_challenges_def hm_values_def VERIFICATION_TIMEOUT_SECS_def saturating_sub_def)
  ultimately show ?thesis
    using verification_tick_effect [of ?r demo_node_env "\<lparr>cd_now = 700, cd_candidate = 0, cd_segment = 0, cd_nonce = [4], cd_return_shuffle = id, cd_send = pd_send content_draw\<rparr>"]
    by simp
qed

definition buffered_node :: "(u8, nat) NodeRunner" where
  "buffered_node = demo_runner\<lparr>host_buffer := (host_buffer demo_runner)\<lparr>hb_buffer := [(ec_id content_shard, (ec_data content_shard, 5))]\<rparr>\<rparr>"

lemma content_shard_data: "shard_data [content_shard, content_shard] (ec_id content_shard) = ec_data content_shard"
  by (rule shard_data_eq) (simp_all add: one_data_per_id_def)

lemma buffered_node_repairable: "repairable {ec_id content_shard} (shard_data [content_shard, content_shard]) buffered_node"
proof -
  have "counter_ok buffered_node"
    by (simp add: buffered_node_def demo_runner_def NodeRunner_new_def Let_def counter_ok_def stored_ok_def create_transport_state_def
          StorageCapacity_new_def ChunkHolder_new_def held_bytes_def hm_values_def demo_config_def NodeConfig_default_def)
  moreover have "length (ec_data content_shard) = CHUNK_SIZE + 16" by (rule length_sealed [OF content_aead])
  ultimately show ?thesis
    by (simp add: repairable_def content_shard_data missing_bytes_def buffered_node_def demo_runner_def NodeRunner_new_def Let_def create_transport_state_def
          StorageCapacity_new_def ChunkHolder_new_def held_bytes_def hm_values_def demo_config_def NodeConfig_default_def holder_has_chunk_def
          holder_get_chunk_def hm_contains_def hm_get_def CHUNK_SIZE_def conj_commute cong: conj_cong)
qed

theorem repair_restores_data_witness:
  "\<exists>n r'. repair_content_once (content_env content_manifest)
      \<lparr>rp_now = 100, rp_return_shuffle = id, rp_surb = demo_random 2, rp_gossip = (\<lambda>_ _. pd_send content_draw), rp_requests = (\<lambda>_. pd_send content_draw), rp_wait = []\<rparr>
      content_manifest buffered_node = (Inr n, r') \<and>
    holder_get_chunk (chunk_holder (transport r')) (chunk_ids content_manifest ! 0) = Some (ec_data content_shard)"
proof -
  have k: "data_count [1, 2, 3] = 1" "parity_count 1 = 1" by (simp_all add: data_count_def CHUNK_SIZE_def parity_count_def)
  have env: "ne_storage (content_env content_manifest) = content_storage" "ne_rs (content_env content_manifest) = demo_rs"
    by (simp_all add: sample_env_def demo_node_env_def)
  have rs: "rs_correct (ne_rs (content_env content_manifest)) (data_count [1, 2, 3]) (parity_count (data_count [1, 2, 3]))"
    unfolding k env using demo_rs_correct [of 1] by simp
  have made: "make_shards (ne_storage (content_env content_manifest)) (ne_rs (content_env content_manifest)) (replicate 32 7) (replicate 12 1) (demo_public 7) [1, 2, 3] =
      Inr ([content_shard, content_shard], content_manifest)"
    unfolding env by (rule content_shards)
  have one: "one_data_per_id [content_shard, content_shard]" by (simp add: one_data_per_id_def)
  have buf: "host_get (ec_id content_shard) (host_buffer buffered_node) = Some (ec_data content_shard, 5)"
    by (simp add: buffered_node_def host_get_def hm_get_def)
  have ids: "ec_id ` set [content_shard, content_shard] = {ec_id content_shard}" by simp
  have rep: "repairable (ec_id ` set [content_shard, content_shard]) (shard_data [content_shard, content_shard]) buffered_node"
    unfolding ids by (rule buffered_node_repairable)
  have gen: "buffer_genuine (ec_id ` set [content_shard, content_shard]) (shard_data [content_shard, content_shard]) (host_buffer buffered_node)"
    unfolding ids by (simp add: buffer_genuine_def buf content_shard_data)
  have "data_count [1, 2, 3] \<le> length (filter (\<lambda>s. holder_has_chunk (chunk_holder (transport buffered_node)) (ec_id s) \<or>
      host_get (ec_id s) (host_buffer buffered_node) \<noteq> None) [content_shard, content_shard])"
    unfolding k by (simp add: buf)
  note restored = repair_restores_data [OF content_correct(1) _ rs made one rep gen this, unfolded k]
  let ?d = "\<lparr>rp_now = 100, rp_return_shuffle = id, rp_surb = demo_random 2, rp_gossip = (\<lambda>_ _. pd_send content_draw),
     rp_requests = (\<lambda>_. pd_send content_draw), rp_wait = []\<rparr> :: (u8, nat) RepairDraw"
  obtain n r' where "repair_content_once (content_env content_manifest) ?d content_manifest buffered_node = (Inr n, r')"
    "\<forall>i<1. holder_get_chunk (chunk_holder (transport r')) (chunk_ids content_manifest ! i) = Some (ec_data ([content_shard, content_shard] ! i))"
    using restored [where d = ?d] by auto
  then show ?thesis by (intro exI [of _ n] exI [of _ r']) simp
qed

section \<open>What is never sent\<close>

text \<open>A challenge knows the KEM key of its partner only: over a route with an intermediate the packets cannot be built, and the challenge is withdrawn.\<close>

lemma lookup_hops_unknown:
  "h \<in> set hops \<Longrightarrow> kem_lookup (rh_node_id h) = None \<Longrightarrow> \<exists>e. lookup_hops kem_lookup hops = Inl e"
proof (induction hops)
  case (Cons a hops)
  show ?case
  proof (cases "kem_lookup (rh_node_id a)")
    case (Some kem)
    with Cons.prems have "h \<in> set hops" by auto
    with Cons.IH Cons.prems(2) Some show ?thesis by (auto split: sum.splits)
  qed simp
qed simp

lemma multihop_challenge_never_sent:
  assumes "build_route_to_destination (sd_shuffle (cd_send d)) partner (transport r) = Some fwd"
    and "h \<in> set (hybrid_hops fwd)" "hh_node_id h \<noteq> partner"
  shows "transport (issue_challenge env d chunk_id partner hashes r) = transport r \<and>
    hm_get (vs_pending (verification_state (issue_challenge env d chunk_id partner hashes r))) (cd_nonce d) = None"
proof -
  have "\<exists>e. create_hybrid_payload_packets (ne_sphinx env) rnd payload (classical_route fwd) (single_peer_kem_lookup partner kem) = Inl e" for rnd payload kem
  proof -
    have "\<lparr>rh_public_key = hh_classical_public_key h, rh_node_id = hh_node_id h\<rparr> \<in> set (route_hops (classical_route fwd))"
      using assms(2) by (auto simp: classical_route_def)
    from lookup_hops_unknown [OF this, of "single_peer_kem_lookup partner kem"] assms(3)
    show ?thesis by (auto simp: single_peer_kem_lookup_def create_hybrid_payload_packets_def effective_route_def)
  qed
  then have no: "create_hybrid_payload_packets (ne_sphinx env) rnd payload (classical_route fwd) (single_peer_kem_lookup partner kem) \<noteq> Inr packets" for rnd payload kem packets
    by (metis Inl_Inr_False)
  then have "send_challenge env (cd_send d) partner asked r1 = (False, r1)" if "transport r1 = transport r" for asked r1
    using assms(1) that by (simp add: send_challenge_def no split: option.splits sum.splits)
  then show ?thesis by (simp add: issue_challenge_def Let_def)
qed

text \<open>A completed swap registers the chunk that was received, not the one that was given away; and a node none of whose chunks is registered notifies nobody.\<close>

lemma swapped_chunk_not_registered:
  assumes "complete_swap pid s = (Some swap, s')" "our_chunk_id swap \<noteq> their_chunk_id swap"
  shows "get_swap_partner s' (our_chunk_id swap) = get_swap_partner s (our_chunk_id swap)"
  using assms by (auto simp: complete_swap_def get_swap_partner_def split: option.splits)

lemma unregistered_content_no_heartbeat:
  assumes "\<forall>(cid, ids)\<in>set (content_chunks (node_leases r)). \<forall>k\<in>set ids. get_swap_partner (swap_state (transport r)) k = None"
  shows "propagate_heartbeats_once env d r = (0, r)"
proof -
  have "propagate_content env d (cid, ids) (n, r) = (n, r)" if "(cid, ids) \<in> set (content_chunks (node_leases r))" for cid ids n
  proof -
    have "holders_of ids r = []" using assms that by (fastforce simp: holders_of_def get_swap_partner_def filter_empty_conv split: option.splits)
    then show ?thesis by (simp add: propagate_content_def split: option.splits sum.splits)
  qed
  then have "fold (propagate_content env d) cs (0, r) = (0, r)" if "set cs \<subseteq> set (content_chunks (node_leases r))" for cs
    using that by (induction cs) auto
  then show ?thesis by (simp add: propagate_heartbeats_once_def)
qed

text \<open>Rotation offers chunks that have both a lease and a proof. Publishing keeps proofs and gives no lease, so what a node publishes is not offered.\<close>

lemma publishing_gives_no_lease:
  assumes "publication env js d f cid pk shards manifest em mid bs" "node_mode (config r) \<noteq> SeedOnly"
  shows "leases (node_leases (snd (publish_content env js d f r))) = leases (node_leases r)"
proof -
  have bs: "em_to_vec js em = Some bs" using assms(1) by (simp add: publication_def)
  show ?thesis unfolding publish_locally_eq [OF assms]
    by (simp add: publish_locally_def Let_def bs own_content_def with_leases_def node_leases_def register_owned_content_def reconcile_capacity_once_def)
qed

lemma rotation_needs_lease_and_proof:
  assumes "\<forall>k. hm_get (leases (node_leases r)) k = None \<or> hm_get (merkle_proofs r) k = None"
  shows "connections (transport (rotation_tick env js d r)) = connections (transport r) \<and> swap_state (transport (rotation_tick env js d r)) = swap_state (transport r)"
proof -
  have skip: "offer_chunk env js d known senders kd (ds, stamp_epoch t r) = (ds, stamp_epoch t r)" if "kd \<in> set (rotation_offers d r)" for known senders kd ds t
  proof -
    obtain k data where kd: "kd = (k, data)" by fastforce
    have "hm_get (leases (node_leases r)) k \<noteq> None" using that by (auto simp: kd rotation_offers_def Let_def rotation_eligible_def split: option.splits)
    with assms [rule_format, of k] have "hm_get (merkle_proofs r) k = None" by simp
    then show ?thesis by (simp add: kd offer_chunk_def Let_def stamp_epoch_def)
  qed
  have all: "fold (offer_chunk env js d known senders) ks ([], stamp_epoch t r) = ([], stamp_epoch t r)" if "set ks \<subseteq> set (rotation_offers d r)" for known senders ks t
    using that skip by (induction ks) auto
  have drop: "connections (transport (drop_cached k r')) = connections (transport r') \<and> swap_state (transport (drop_cached k r')) = swap_state (transport r')"
    for k and r' :: "('a, 'b) NodeRunner"
    by (simp add: drop_cached_def Let_def)
  have evict: "connections (transport (evict_loop n r')) = connections (transport r') \<and> swap_state (transport (evict_loop n r')) = swap_state (transport r')"
    for n and r' :: "('a, 'b) NodeRunner"
    by (induction n r' rule: evict_loop.induct) (subst evict_loop.simps, subst evict_loop.simps, auto simp: drop split: option.splits)
  show ?thesis
    by (simp add: rotation_tick_def Let_def all evict_excess_cache_def evict) (simp add: stamp_epoch_def)
qed

text \<open>Repair looks at the first content of the table only, and not at all while a retrieval that never returns leaves shards pending.\<close>

lemma repair_looks_at_first:
  assumes "content_chunks (node_leases r) = (cid, ids) # rest" "hm_get (manifests r) cid = None"
  shows "run_repair_tick env ds r = r"
  using assms by (simp add: run_repair_tick_def MAX_REPAIRS_PER_TICK_def repair_one_def)

lemma blocked_retrieval_blocks_repair:
  assumes "fst (retrieve_content env js d pk r) = None"
  shows "run_repair_tick env ds (snd (retrieve_content env js d pk r)) = snd (retrieve_content env js d pk r)"
proof -
  have "pending (content_retriever (snd (retrieve_content env js d pk r))) \<noteq> []"
    using assms
    by (auto simp: retrieve_content_def retrieve_local_def lock_holder_def Let_def split: option.splits sum.splits prod.splits if_splits dest: blocked_pending)
  then show ?thesis by (simp add: run_repair_tick_def)
qed

end
