(* ===== verification/NodeApi.thy ===== *)
theory NodeApi
  imports ContentFlow
begin

unbundle bit_operations_syntax

text \<open>
  \<^verbatim>\<open>crates/static-node/src/api.rs\<close>: the local interface of a node. A connection's bytes are gathered until they parse or the peer pauses, the token is
  checked before anything else, and one action is carried out. \<open>serde_json\<close> and the text of an error (derived by \<open>thiserror\<close>) are
  parameters; strings are their UTF-8 bytes.
\<close>

section \<open>Requests and answers\<close>

record ApiRequest =
  ar_action :: bytes
  ar_data :: "bytes option"
  ar_content_pub_key :: "bytes option"
  ar_compute_currency :: "bytes option"
  ar_request_id :: "bytes option"
  ar_tx_hash :: "bytes option"
  ar_token :: "bytes option"

record ApiResponse =
  as_status :: bytes
  as_message :: bytes
  as_content_id :: "bytes option"
  as_manifest :: "ContentManifest option"
  as_data :: "bytes option"
  as_content_pub_key :: "bytes option"
  as_request_id :: "bytes option"
  payment_required :: bool
  payment_currency :: "bytes option"
  payment_address :: "bytes option"
  payment_amount :: "u64 option"

definition ApiResponse_default :: ApiResponse where
  "ApiResponse_default = \<lparr>as_status = [], as_message = [], as_content_id = None, as_manifest = None, as_data = None, as_content_pub_key = None,
     as_request_id = None, payment_required = False, payment_currency = None, payment_address = None, payment_amount = None\<rparr>"

definition api_answer :: "string \<Rightarrow> string \<Rightarrow> ApiResponse" where
  "api_answer s m = ApiResponse_default\<lparr>as_status := ascii_bytes s, as_message := ascii_bytes m\<rparr>"

definition api_error :: "bytes \<Rightarrow> ApiResponse" where
  "api_error m = ApiResponse_default\<lparr>as_status := ascii_bytes ''error'', as_message := m\<rparr>"

record api_json =
  request_of_json :: "bytes \<Rightarrow> bytes + ApiRequest"
  response_json :: "ApiResponse \<Rightarrow> bytes option"

definition serialize_api_response :: "api_json \<Rightarrow> ApiResponse \<Rightarrow> bytes" where
  "serialize_api_response js resp =
     (case response_json js resp of
        Some bs \<Rightarrow> bs
      | None \<Rightarrow> ascii_bytes ''{\"status\":\"error\",\"message\":\"response serialization failed\"}'')"

section \<open>The token\<close>

definition byte_at :: "bytes \<Rightarrow> nat \<Rightarrow> u8" where
  "byte_at a i = (if i < length a then a ! i else 0)"

text \<open>\<open>(a.len() ^ b.len()) as u8\<close> keeps the low byte of the difference of the lengths.\<close>

definition constant_time_eq :: "bytes \<Rightarrow> bytes \<Rightarrow> bool" where
  "constant_time_eq a b =
     (let max_len = max (length a) (length b);
          diff = ucast ((word_of_nat (length a) :: u64) XOR word_of_nat (length b)) :: u8
      in fold (\<lambda>i diff. diff OR (byte_at a i XOR byte_at b i)) [0..<max_len] diff = 0)"

definition verify_token :: "bytes option \<Rightarrow> bytes option \<Rightarrow> bool" where
  "verify_token request_token expected_token =
     (case expected_token of
        None \<Rightarrow> True
      | Some expected \<Rightarrow> (case request_token of None \<Rightarrow> False | Some got \<Rightarrow> constant_time_eq got expected))"

section \<open>Hexadecimal\<close>

definition hex_encode :: "bytes \<Rightarrow> bytes" where
  "hex_encode data = concat (map (\<lambda>b. [hex_digit (b div 16), hex_digit (b mod 16)]) data)"

definition digit_value :: "u8 \<Rightarrow> u8 option" where
  "digit_value c =
     (if 0x30 \<le> c \<and> c \<le> 0x39 then Some (c - 0x30)
      else if 0x61 \<le> c \<and> c \<le> 0x66 then Some (c - 0x57)
      else if 0x41 \<le> c \<and> c \<le> 0x46 then Some (c - 0x37)
      else None)"

text \<open>\<open>u8::from_str_radix(s, 16)\<close> on two bytes: a leading plus sign is skipped.\<close>

definition from_hex_pair :: "u8 \<Rightarrow> u8 \<Rightarrow> u8 option" where
  "from_hex_pair c e =
     (if c = 0x2B then digit_value e
      else case (digit_value c, digit_value e) of (Some x, Some y) \<Rightarrow> Some (16 * x + y) | _ \<Rightarrow> None)"

text \<open>Slicing a \<open>str\<close> inside a character panics: a byte \<open>10xxxxxx\<close> starts no character.\<close>

datatype hex_error = OddLength | BadDigit | SlicePanic

definition char_boundary :: "bytes \<Rightarrow> nat \<Rightarrow> bool" where
  "char_boundary s i \<longleftrightarrow> i = 0 \<or> i = length s \<or> i < length s \<and> \<not> (0x80 \<le> s ! i \<and> s ! i < 0xC0)"

fun hex_pairs :: "bytes \<Rightarrow> nat list \<Rightarrow> hex_error + bytes" where
  "hex_pairs s [] = Inr []"
| "hex_pairs s (i # is) =
     (if \<not> char_boundary s i \<or> \<not> char_boundary s (i + 2) then Inl SlicePanic
      else case from_hex_pair (s ! i) (s ! (i + 1)) of
             None \<Rightarrow> Inl BadDigit
           | Some b \<Rightarrow> (case hex_pairs s is of Inl e \<Rightarrow> Inl e | Inr bs \<Rightarrow> Inr (b # bs)))"

definition hex_decode :: "bytes \<Rightarrow> hex_error + bytes" where
  "hex_decode data =
     (if length data mod 2 \<noteq> 0 then Inl OddLength else hex_pairs data (map (\<lambda>j. 2 * j) [0..<length data div 2]))"

section \<open>Actions\<close>

text \<open>The answer of a handler: \<open>None\<close> is a panic of the connection's task or a call that never returns: nothing is answered.\<close>

record ('sc, 'sk) api_draw =
  ad_now :: u64
  ad_request_id :: bytes
  ad_return_shuffle :: shuffle
  ad_send :: "'sc SendDraw"
  ad_publish :: "('sc, 'sk) PublishDraw"
  ad_retrieve :: "('sc, 'sk) RetrieveDraw"

record ('sc, 'sk, 'v, 'md, 'st) api_env =
  ae_node :: "('sc, 'sk, 'v, 'md, 'st) node_env"
  ae_content :: content_json
  ae_error_text :: "NodeError \<Rightarrow> bytes"
  ae_hex_text :: "hex_error \<Rightarrow> bytes"

text \<open>\<open>match hex_decode(s) { Err(e) => return api_error(..), Ok(d) => .. }\<close>.\<close>

definition with_hex ::
  "('sc, 'sk, 'v, 'md, 'st) api_env \<Rightarrow> string \<Rightarrow> bytes \<Rightarrow> ('sc, 'sk) NodeRunner \<Rightarrow> (bytes \<Rightarrow> ApiResponse option \<times> ('sc, 'sk) NodeRunner) \<Rightarrow>
     ApiResponse option \<times> ('sc, 'sk) NodeRunner" where
  "with_hex ae prefix' s r f =
     (case hex_decode s of
        Inl SlicePanic \<Rightarrow> (None, r)
      | Inl e \<Rightarrow> (Some (api_error (ascii_bytes prefix' @ ae_hex_text ae e)), r)
      | Inr d \<Rightarrow> f d)"

definition with_content_key ::
  "('sc, 'sk, 'v, 'md, 'st) api_env \<Rightarrow> bytes option \<Rightarrow> ('sc, 'sk) NodeRunner \<Rightarrow> (bytes \<Rightarrow> ApiResponse option \<times> ('sc, 'sk) NodeRunner) \<Rightarrow>
     ApiResponse option \<times> ('sc, 'sk) NodeRunner" where
  "with_content_key ae key_hex r f =
     (case key_hex of
        None \<Rightarrow> (Some (api_error (ascii_bytes ''Missing content_pub_key'')), r)
      | Some key_hex \<Rightarrow>
          with_hex ae ''Invalid content_pub_key: '' key_hex r (\<lambda>key.
            if length key \<noteq> 32 then (Some (api_error (ascii_bytes ''content_pub_key must be 32 bytes'')), r) else f key))"

definition with_request_id ::
  "('sc, 'sk, 'v, 'md, 'st) api_env \<Rightarrow> bytes \<Rightarrow> ('sc, 'sk) NodeRunner \<Rightarrow> (bytes \<Rightarrow> ApiResponse option \<times> ('sc, 'sk) NodeRunner) \<Rightarrow>
     ApiResponse option \<times> ('sc, 'sk) NodeRunner" where
  "with_request_id ae id_hex r f =
     with_hex ae ''Invalid request ID: '' id_hex r (\<lambda>i.
       if length i \<noteq> 32 then (Some (api_error (ascii_bytes ''request ID must be 32 bytes'')), r) else f i)"

definition failed :: "('sc, 'sk, 'v, 'md, 'st) api_env \<Rightarrow> string \<Rightarrow> NodeError \<Rightarrow> ApiResponse" where
  "failed ae what e = api_error (ascii_bytes what @ ae_error_text ae e)"

definition api_publish ::
  "('sc, 'sk, 'v, 'md, 'st) api_env \<Rightarrow> ('sc, 'sk) api_draw \<Rightarrow> ApiRequest \<Rightarrow> ('sc, 'sk) NodeRunner \<Rightarrow> ApiResponse option \<times> ('sc, 'sk) NodeRunner" where
  "api_publish ae d request r =
     with_hex ae ''Invalid hex: '' (case ar_data request of Some s \<Rightarrow> s | None \<Rightarrow> []) r (\<lambda>data.
       case publish_content (ae_node ae) (ae_content ae) (ad_publish d) data r of
         (Inl e, r) \<Rightarrow> (Some (failed ae ''Publish failed: '' e), r)
       | (Inr (cid, manifest, pk), r) \<Rightarrow>
           (Some ((api_answer ''ok'' ''Published'')\<lparr>as_content_id := Some (hex_encode cid), as_manifest := Some manifest,
              as_content_pub_key := Some (hex_encode pk)\<rparr>), r))"

definition api_retrieve ::
  "('sc, 'sk, 'v, 'md, 'st) api_env \<Rightarrow> ('sc, 'sk) api_draw \<Rightarrow> ApiRequest \<Rightarrow> ('sc, 'sk) NodeRunner \<Rightarrow> ApiResponse option \<times> ('sc, 'sk) NodeRunner" where
  "api_retrieve ae d request r =
     with_content_key ae (ar_content_pub_key request) r (\<lambda>key.
       case retrieve_content (ae_node ae) (ae_content ae) (ad_retrieve d) key r of
         (None, r) \<Rightarrow> (None, r)
       | (Some (Inl e), r) \<Rightarrow> (Some (failed ae ''Retrieve failed: '' e), r)
       | (Some (Inr data), r) \<Rightarrow> (Some ((api_answer ''ok'' ''Retrieved'')\<lparr>as_data := Some (hex_encode data)\<rparr>), r))"

definition api_compute ::
  "('sc, 'sk, 'v, 'md, 'st) api_env \<Rightarrow> ('sc, 'sk) api_draw \<Rightarrow> ApiRequest \<Rightarrow> ('sc, 'sk) NodeRunner \<Rightarrow> ApiResponse option \<times> ('sc, 'sk) NodeRunner" where
  "api_compute ae d request r =
     with_content_key ae (ar_content_pub_key request) r (\<lambda>key.
       case ar_data request of
         None \<Rightarrow> (Some (api_error (ascii_bytes ''Missing input data'')), r)
       | Some s \<Rightarrow> with_hex ae ''Invalid input hex: '' s r (\<lambda>input.
           let ask = (\<lambda>currency.
                 case submit_compute_request (ae_node ae) (ad_now d) (ad_request_id d) (ad_return_shuffle d) (ad_send d) key input currency r of
                   (Inl e, r) \<Rightarrow> (Some (failed ae ''Compute failed: '' e), r)
                 | (Inr i, r) \<Rightarrow> (Some ((api_answer ''ok'' ''Compute request submitted'')\<lparr>as_request_id := Some (hex_encode i)\<rparr>), r))
           in case ar_compute_currency request of
                None \<Rightarrow> ask Monero
              | Some ticker \<Rightarrow>
                  (case Currency_from_str ticker of
                     Some c \<Rightarrow> ask c
                   | None \<Rightarrow> (Some (api_error (ascii_bytes ''Unsupported currency '' @ [0x27] @ ticker @ [0x27] @
                        ascii_bytes '' (accepted: xmr, dark, nav)'')), r))))"

definition api_compute_result ::
  "('sc, 'sk, 'v, 'md, 'st) api_env \<Rightarrow> ApiRequest \<Rightarrow> ('sc, 'sk) NodeRunner \<Rightarrow> ApiResponse option \<times> ('sc, 'sk) NodeRunner" where
  "api_compute_result ae request r =
     with_request_id ae (case ar_data request of Some s \<Rightarrow> s | None \<Rightarrow> []) r (\<lambda>i.
       case compute_result i r of
         Some result \<Rightarrow>
           if cresp_success result then
             (Some ((api_answer ''ok'' ''Compute complete'')\<lparr>as_data := Some (hex_encode (cresp_output_data result)),
                as_request_id := Some (hex_encode (cresp_request_id result))\<rparr>), r)
           else
             (Some ((api_answer ''ok'' ''failed'')\<lparr>as_data := Some (case cresp_error result of Some e \<Rightarrow> e | None \<Rightarrow> ascii_bytes ''unknown error''),
                as_request_id := Some (hex_encode (cresp_request_id result))\<rparr>), r)
       | None \<Rightarrow>
           (case pending_payment i r of
              Some quote \<Rightarrow>
                (Some ((api_answer ''pending'' ''payment required before execution'')\<lparr>as_request_id := Some (hex_encode i), payment_required := True,
                   payment_currency := Some (Currency_as_str (preq_currency quote)), payment_address := Some (preq_address quote),
                   payment_amount := Some (preq_amount quote)\<rparr>), r)
            | None \<Rightarrow> (Some ((api_answer ''pending'' ''Result not ready'')\<lparr>as_request_id := Some (hex_encode i)\<rparr>), r)))"

definition api_compute_confirm ::
  "('sc, 'sk, 'v, 'md, 'st) api_env \<Rightarrow> ('sc, 'sk) api_draw \<Rightarrow> ApiRequest \<Rightarrow> ('sc, 'sk) NodeRunner \<Rightarrow> ApiResponse option \<times> ('sc, 'sk) NodeRunner" where
  "api_compute_confirm ae d request r =
     (case ar_request_id request of
        None \<Rightarrow> (Some (api_error (ascii_bytes ''Missing request_id'')), r)
      | Some id_hex \<Rightarrow>
          if (case ar_tx_hash request of Some h \<Rightarrow> h = [] | None \<Rightarrow> True) then (Some (api_error (ascii_bytes ''Missing tx_hash'')), r)
          else with_request_id ae id_hex r (\<lambda>i.
            case confirm_compute_payment (ae_node ae) (ad_send d) i (the (ar_tx_hash request)) r of
              (Inl e, r) \<Rightarrow> (Some (failed ae ''Compute confirm failed: '' e), r)
            | (Inr _, r) \<Rightarrow>
                (Some ((api_answer ''ok'' ''Payment confirmation sent; waiting for blockchain confirmation'')\<lparr>as_request_id := Some (hex_encode i)\<rparr>), r)))"

definition api_handle_request ::
  "('sc, 'sk, 'v, 'md, 'st) api_env \<Rightarrow> ('sc, 'sk) api_draw \<Rightarrow> bytes option \<Rightarrow> ApiRequest \<Rightarrow> ('sc, 'sk) NodeRunner \<Rightarrow> ApiResponse option \<times> ('sc, 'sk) NodeRunner" where
  "api_handle_request ae d expected_token request r =
     (if \<not> verify_token (ar_token request) expected_token then (Some (api_error (ascii_bytes ''unauthorized: invalid or missing API token'')), r)
      else if ar_action request = ascii_bytes ''publish'' then api_publish ae d request r
      else if ar_action request = ascii_bytes ''retrieve'' then api_retrieve ae d request r
      else if ar_action request = ascii_bytes ''compute'' then api_compute ae d request r
      else if ar_action request = ascii_bytes ''compute_result'' then api_compute_result ae request r
      else if ar_action request = ascii_bytes ''compute_confirm'' then api_compute_confirm ae d request r
      else (Some (api_error (ascii_bytes ''Unknown action'')), r))"

section \<open>A connection\<close>

definition MAX_API_REQUEST_BYTES :: nat where "MAX_API_REQUEST_BYTES = 1024 * 1024"

text \<open>What reading yields: the buffer to be parsed, or that the request is too large. A read is the bytes it returned; \<open>[]\<close> is the end
  of the stream, a timeout or an error, and nothing follows it.\<close>

datatype gathered = TooLarge | Gathered bytes

text \<open>One read is at most 8 KiB. Once the buffer parses, one more read is tried, and its bytes are kept whatever they are.\<close>

fun gather_request :: "(bytes \<Rightarrow> bool) \<Rightarrow> bytes \<Rightarrow> bytes list \<Rightarrow> gathered" where
  "gather_request parses buf [] = Gathered buf"
| "gather_request parses buf (chunk # reads) =
     (if chunk = [] then Gathered buf
      else if MAX_API_REQUEST_BYTES < length buf + length chunk then TooLarge
      else if parses buf then Gathered (buf @ chunk)
      else gather_request parses (buf @ chunk) reads)"

text \<open>\<open>None\<close>: the connection is closed without an answer.\<close>

definition serve_connection ::
  "('sc, 'sk, 'v, 'md, 'st) api_env \<Rightarrow> api_json \<Rightarrow> ('sc, 'sk) api_draw \<Rightarrow> bytes option \<Rightarrow> bytes list \<Rightarrow> ('sc, 'sk) NodeRunner \<Rightarrow> bytes option \<times> ('sc, 'sk) NodeRunner" where
  "serve_connection ae js d expected_token reads r =
     (let answer = (\<lambda>resp. Some (serialize_api_response js resp)) in
      case reads of
        [] \<Rightarrow> (None, r)
      | first # reads \<Rightarrow>
          if first = [] then (None, r)
          else if MAX_API_REQUEST_BYTES < length first then (answer (api_error (ascii_bytes ''request too large'')), r)
          else case gather_request (\<lambda>b. case request_of_json js b of Inr _ \<Rightarrow> True | Inl _ \<Rightarrow> False) first reads of
                 TooLarge \<Rightarrow> (answer (api_error (ascii_bytes ''request too large'')), r)
               | Gathered buf \<Rightarrow>
                   (case request_of_json js buf of
                      Inl e \<Rightarrow> (answer (api_error (ascii_bytes ''Invalid request: '' @ e)), r)
                    | Inr request \<Rightarrow>
                        (case api_handle_request ae d expected_token request r of
                           (Some resp, r) \<Rightarrow> (answer resp, r)
                         | (None, r) \<Rightarrow> (None, r))))"

section \<open>The token check\<close>

lemma or_zero_iff: "(x :: u8) OR y = 0 \<longleftrightarrow> x = 0 \<and> y = 0"
  by (auto simp: bit_eq_iff bit_simps)

lemma xor_zero_iff: "(x :: u8) XOR y = 0 \<longleftrightarrow> x = y"
  by (auto simp: bit_eq_iff bit_simps)

lemma fold_or_zero: "fold (\<lambda>i d. d OR f i) is (d :: u8) = 0 \<longleftrightarrow> d = 0 \<and> (\<forall>i\<in>set is. f i = 0)"
  by (induction "is" arbitrary: d) (auto simp: or_zero_iff)

definition low_byte_equal :: "nat \<Rightarrow> nat \<Rightarrow> bool" where
  "low_byte_equal m n \<longleftrightarrow> (word_of_nat m :: u8) = word_of_nat n"

lemma length_byte: "(ucast ((word_of_nat m :: u64) XOR word_of_nat n) :: u8) = 0 \<longleftrightarrow> low_byte_equal m n"
proof -
  have "ucast ((word_of_nat m :: u64) XOR word_of_nat n) = (ucast (word_of_nat m :: u64) XOR ucast (word_of_nat n :: u64) :: u8)"
    by (auto simp: bit_eq_iff bit_simps)
  moreover have "(ucast (word_of_nat k :: u64) :: u8) = word_of_nat k" for k
    by (auto simp: bit_eq_iff bit_simps)
  ultimately show ?thesis by (simp add: xor_zero_iff low_byte_equal_def)
qed

lemma constant_time_eq_iff:
  "constant_time_eq a b \<longleftrightarrow> low_byte_equal (length a) (length b) \<and> (\<forall>i<max (length a) (length b). byte_at a i = byte_at b i)"
  unfolding constant_time_eq_def Let_def fold_or_zero length_byte by (auto simp: xor_zero_iff)

lemma short_tokens_exact:
  assumes "length a < 256" "length b < 256"
  shows "constant_time_eq a b \<longleftrightarrow> a = b"
proof
  assume eq: "constant_time_eq a b"
  have "unat (word_of_nat (length a) :: u8) = unat (word_of_nat (length b) :: u8)"
    using eq by (simp add: constant_time_eq_iff low_byte_equal_def)
  then have len: "length a = length b" using assms by (simp add: unat_of_nat)
  have "byte_at a i = byte_at b i" if "i < length a" for i using eq that len by (simp add: constant_time_eq_iff)
  then show "a = b" using len by (intro nth_equalityI) (auto simp: byte_at_def)
qed (simp add: constant_time_eq_iff low_byte_equal_def)

text \<open>Longer ones are not: a token followed by 256 zero bytes passes.\<close>

lemma padded_token_passes: "verify_token (Some (expected @ replicate 256 0)) (Some expected)"
proof -
  have "(word_of_nat (length expected + 256) :: u8) = word_of_nat (length expected)" by simp
  then show ?thesis by (auto simp: verify_token_def constant_time_eq_iff low_byte_equal_def byte_at_def nth_append)
qed

text \<open>C14 (safety). With a token configured, a connection changes the node only when the bytes it sent, at most one mebibyte of them, parse as a request that
  carries a token; the token agrees with the configured one byte by byte, and is the configured one when both are shorter than 256 bytes. Every other
  connection leaves the node as it was.\<close>

theorem api_changes_need_token:
  assumes "snd (serve_connection ae js d (Some expected) reads r) \<noteq> r"
  shows "\<exists>n buf request got. buf = concat (take n reads) \<and> length buf \<le> MAX_API_REQUEST_BYTES \<and> request_of_json js buf = Inr request \<and>
    ar_token request = Some got \<and> constant_time_eq got expected \<and> (length got < 256 \<and> length expected < 256 \<longrightarrow> got = expected)"
proof -
  let ?parses = "\<lambda>b. case request_of_json js b of Inr _ \<Rightarrow> True | Inl _ \<Rightarrow> False"
  have gather: "\<exists>n. out = buf @ concat (take n rs) \<and> length out \<le> MAX_API_REQUEST_BYTES"
    if "gather_request ?parses buf rs = Gathered out" "length buf \<le> MAX_API_REQUEST_BYTES" for buf rs out
    using that
  proof (induction rs arbitrary: buf)
    case Nil
    then show ?case by (intro exI [of _ 0]) simp
  next
    case (Cons c rs)
    consider "c = []" | "c \<noteq> []" "?parses buf" | "c \<noteq> []" "\<not> ?parses buf" by blast
    then show ?case
    proof cases
      case 1
      with Cons.prems show ?thesis by (intro exI [of _ 0]) simp
    next
      case 2
      with Cons.prems show ?thesis by (intro exI [of _ 1]) (auto split: if_splits)
    next
      case 3
      with Cons.prems obtain n where "out = (buf @ c) @ concat (take n rs)" "length out \<le> MAX_API_REQUEST_BYTES"
        using Cons.IH [of "buf @ c"] by (auto split: if_splits)
      then show ?thesis by (intro exI [of _ "Suc n"]) simp
    qed
  qed
  obtain first rest where reads: "reads = first # rest" using assms by (cases reads) (simp_all add: serve_connection_def)
  then obtain buf where buf: "gather_request ?parses first rest = Gathered buf" and small: "length first \<le> MAX_API_REQUEST_BYTES"
    using assms by (auto simp: serve_connection_def Let_def not_less split: if_splits gathered.splits)
  have notl: "\<not> MAX_API_REQUEST_BYTES < length first" using small by simp
  obtain request where req: "request_of_json js buf = Inr request" "snd (api_handle_request ae d (Some expected) request r) \<noteq> r"
  proof (cases "request_of_json js buf")
    case (Inl e)
    with assms reads buf notl show thesis by (auto simp: serve_connection_def Let_def split: if_splits)
  next
    case (Inr request)
    show thesis
    proof (rule that [OF Inr])
      show "snd (api_handle_request ae d (Some expected) request r) \<noteq> r"
        using assms reads buf notl Inr
        by (cases "api_handle_request ae d (Some expected) request r") (auto simp: serve_connection_def Let_def split: if_splits option.splits)
    qed
  qed
  then have "verify_token (ar_token request) (Some expected)" by (auto simp: api_handle_request_def split: if_splits)
  then obtain got where "ar_token request = Some got" "constant_time_eq got expected" by (auto simp: verify_token_def split: option.splits)
  moreover obtain n where "buf = first @ concat (take n rest)" "length buf \<le> MAX_API_REQUEST_BYTES" using gather [OF buf small] by blast
  moreover from this have "buf = concat (take (Suc n) reads)" by (simp add: reads)
  ultimately show ?thesis using req(1) short_tokens_exact by blast
qed

definition demo_api :: "(u8, nat, (bytes \<times> u64 \<times> u64) list, unit, unit) api_env" where
  "demo_api = \<lparr>ae_node = content_env content_manifest, ae_content = content_js, ae_error_text = (\<lambda>_. []), ae_hex_text = (\<lambda>_. [])\<rparr>"

definition demo_publish_request :: ApiRequest where
  "demo_publish_request = \<lparr>ar_action = ascii_bytes ''publish'', ar_data = Some (ascii_bytes ''010203''), ar_content_pub_key = None, ar_compute_currency = None,
     ar_request_id = None, ar_tx_hash = None, ar_token = Some [5, 6]\<rparr>"

definition demo_api_json :: api_json where
  "demo_api_json = \<lparr>request_of_json = (\<lambda>b. if b = [1] then Inr demo_publish_request else Inl []), response_json = (\<lambda>_. Some [2])\<rparr>"

theorem api_changes_need_token_witness:
  "\<exists>d. snd (serve_connection demo_api demo_api_json d (Some [5, 6]) [[1], []] demo_runner) \<noteq> demo_runner \<and>
     (\<exists>request. request_of_json demo_api_json [1] = Inr request \<and> ar_token request = Some [5, 6])"
proof -
  let ?d = "\<lparr>ad_now = 100, ad_request_id = [], ad_return_shuffle = id, ad_send = pd_send content_draw, ad_publish = content_draw,
    ad_retrieve = \<lparr>rd_instant = 0, rd_now = 100, rd_return_shuffle = id, rd_surb = demo_random 2, rd_requests = (\<lambda>_. pd_send content_draw),
      rd_manifest_wait = [], rd_shard_wait = []\<rparr>\<rparr> :: (u8, nat) api_draw"
  have full: "node_mode (config demo_runner) \<noteq> SeedOnly" by (simp add: content_node_fields)
  obtain r' where r': "publish_content (content_env content_manifest) content_js content_draw [1, 2, 3] demo_runner =
      (Inr (demo_public 7, content_manifest, demo_public 7), r')" "hm_get (content_keypairs r') (demo_public 7) = Some (pd_content_sk content_draw)"
    by (rule publish_stores [OF content_publication full])
  have "content_keypairs demo_runner = []" by (simp add: demo_runner_def NodeRunner_new_def Let_def)
  with r'(2) have ne: "r' \<noteq> demo_runner" by auto
  have hex: "hex_decode (ascii_bytes ''010203'') = Inr [1, 2, 3]" by code_simp
  have tok: "verify_token (Some [5, 6]) (Some [5, 6])" by (simp add: verify_token_def short_tokens_exact)
  have "snd (api_handle_request demo_api ?d (Some [5, 6]) demo_publish_request demo_runner) = r'"
    using r'(1) hex tok by (simp add: api_handle_request_def demo_publish_request_def api_publish_def with_hex_def demo_api_def)
  then have ch: "snd (serve_connection demo_api demo_api_json ?d (Some [5, 6]) [[1], []] demo_runner) \<noteq> demo_runner"
    using ne by (cases "api_handle_request demo_api ?d (Some [5, 6]) demo_publish_request demo_runner")
      (auto simp: serve_connection_def demo_api_json_def MAX_API_REQUEST_BYTES_def split: option.splits)
  from api_changes_need_token [OF this] have "\<exists>buf request got. request_of_json demo_api_json buf = Inr request \<and> ar_token request = Some got \<and>
      (length got < 256 \<longrightarrow> got = [5, 6])" by auto
  then have "\<exists>request. request_of_json demo_api_json [1] = Inr request \<and> ar_token request = Some [5, 6]"
    by (auto simp: demo_api_json_def demo_publish_request_def split: if_splits)
  with ch show ?thesis by blast
qed

section \<open>Hexadecimal round trip\<close>

lemma digit_roundtrip: "\<forall>k\<in>set [0..<16]. digit_value (hex_digit (word_of_nat k)) = Some (word_of_nat k) \<and> hex_digit (word_of_nat k) \<noteq> 0x2B \<and> hex_digit (word_of_nat k) < 0x80"
  by code_simp

lemma digit_roundtrip_word:
  assumes "(n :: u8) < 16"
  shows "digit_value (hex_digit n) = Some n" "hex_digit n \<noteq> 0x2B" "hex_digit n < 0x80"
proof -
  have "unat n \<in> set [0..<16]" using assms by (simp add: word_less_nat_alt)
  from digit_roundtrip [rule_format, OF this]
  show "digit_value (hex_digit n) = Some n" "hex_digit n \<noteq> 0x2B" "hex_digit n < 0x80" by simp_all
qed

lemma pair_roundtrip: "from_hex_pair (hex_digit (b div 16)) (hex_digit (b mod 16)) = Some b"
proof -
  have "unat b < 256" using unsigned_less [of b, where 'a = nat] by simp
  then have "b div 16 < 16" "b mod 16 < 16" by (simp_all add: word_less_nat_alt unat_div unat_mod)
  moreover have "16 * (b div 16) + b mod 16 = b" by (rule mult_div_mod_eq)
  ultimately show ?thesis by (simp add: from_hex_pair_def digit_roundtrip_word)
qed

lemma hex_encode_Cons: "hex_encode (b # bs) = hex_digit (b div 16) # hex_digit (b mod 16) # hex_encode bs"
  by (simp add: hex_encode_def)

lemma length_hex_encode [simp]: "length (hex_encode bs) = 2 * length bs"
  by (induction bs) (simp_all add: hex_encode_Cons, simp add: hex_encode_def)

lemma hex_encode_nth:
  "j < length bs \<Longrightarrow> hex_encode bs ! (2 * j) = hex_digit (bs ! j div 16) \<and> hex_encode bs ! (2 * j + 1) = hex_digit (bs ! j mod 16)"
proof (induction bs arbitrary: j)
  case (Cons b bs)
  then show ?case by (cases j) (simp_all add: hex_encode_Cons)
qed simp

lemma hex_encode_boundary: "j \<le> length bs \<Longrightarrow> char_boundary (hex_encode bs) (2 * j)"
proof (cases "j < length bs")
  case True
  have "unat (bs ! j) < 256" using unsigned_less [of "bs ! j", where 'a = nat] by simp
  then have "hex_digit (bs ! j div 16) < 0x80" by (intro digit_roundtrip_word) (simp add: word_less_nat_alt unat_div)
  with True hex_encode_nth [OF True] show ?thesis by (simp add: char_boundary_def not_le)
qed (simp add: char_boundary_def)

text \<open>What the interface prints in hexadecimal it reads back: decoding an encoding never fails or panics and returns the bytes.\<close>

theorem hex_roundtrip: "hex_decode (hex_encode bs) = Inr bs"
proof -
  have "hex_pairs (hex_encode bs) (map (\<lambda>j. 2 * j) [j..<length bs]) = Inr (drop j bs)" if "j \<le> length bs" for j
    using that
  proof (induction "length bs - j" arbitrary: j)
    case (Suc n)
    then have j: "j < length bs" by simp
    have "hex_pairs (hex_encode bs) (map (\<lambda>j. 2 * j) [Suc j..<length bs]) = Inr (drop (Suc j) bs)" using Suc j by simp
    moreover have "char_boundary (hex_encode bs) (2 * j)" "char_boundary (hex_encode bs) (2 * j + 2)"
      using hex_encode_boundary [of j bs] hex_encode_boundary [of "Suc j" bs] j by simp_all
    ultimately show ?case using j hex_encode_nth [OF j] by (simp add: upt_conv_Cons pair_roundtrip Cons_nth_drop_Suc [symmetric])
  qed simp
  from this [of 0] show ?thesis by (simp add: hex_decode_def)
qed

text \<open>It also reads what it never prints: a sign in front of one digit. And a text with a character that straddles a pair ends the connection's task.\<close>

lemma hex_reads_sign: "hex_decode (ascii_bytes ''+f'') = Inr [15]"
  by code_simp

lemma hex_slice_panics: "hex_decode [0x61, 0xC3, 0xA9, 0x62] = Inl SlicePanic"
  by code_simp

end
