(* ===== verification/NodeFiles.thy ===== *)
theory NodeFiles
  imports NodeContent
begin

text \<open>
  \<^verbatim>\<open>crates/static-node/src/config.rs\<close>: the identity a node keeps in \<open>config.json\<close>, its migration, and the sequence of file operations that saves it; and
  \<open>StaticNode\<close> of \<^verbatim>\<open>lib.rs\<close>, the node without a network. The disk is the contents and the permissions of two files; \<open>serde_json\<close> and
  Ed25519 are parameters. Failing file operations are not modelled.
\<close>

section \<open>Identity\<close>

record PersistentConfig =
  pc_node_id :: NodeId
  pc_mix_private_key :: bytes
  pc_identity_private_key :: bytes
  pc_identity_public_key :: bytes
  pc_known_peers :: "bytes list"

text \<open>\<open>SigningKey::from_bytes\<close>, the signature scheme, and \<open>serde_json\<close> with the defaults of missing fields.\<close>

record 'sk config_env =
  ce_key :: "bytes \<Rightarrow> 'sk"
  ce_ed :: "'sk ed25519"
  config_to_json :: "PersistentConfig \<Rightarrow> bytes option"
  config_of_json :: "bytes \<Rightarrow> PersistentConfig option"

definition default_identity_private_key :: bytes where "default_identity_private_key = replicate 32 0"
definition default_identity_public_key :: bytes where "default_identity_public_key = replicate 32 0"

record ConfigDraw =
  kd_node_id :: NodeId
  kd_mix_key :: bytes
  kd_identity :: bytes

definition PersistentConfig_new :: "'sk config_env \<Rightarrow> ConfigDraw \<Rightarrow> PersistentConfig" where
  "PersistentConfig_new ce d =
     \<lparr>pc_node_id = kd_node_id d, pc_mix_private_key = kd_mix_key d, pc_identity_private_key = kd_identity d,
      pc_identity_public_key = ed_public (ce_ed ce) (ce_key ce (kd_identity d)), pc_known_peers = []\<rparr>"

definition signing_key_of :: "'sk config_env \<Rightarrow> PersistentConfig \<Rightarrow> 'sk" where
  "signing_key_of ce c = ce_key ce (pc_identity_private_key c)"

definition identity_needs_migration :: "'sk config_env \<Rightarrow> PersistentConfig \<Rightarrow> bool" where
  "identity_needs_migration ce c \<longleftrightarrow>
     (if pc_identity_private_key c = replicate 32 0 then True
      else ed_public (ce_ed ce) (signing_key_of ce c) \<noteq> pc_identity_public_key c)"

definition regenerate_identity :: "'sk config_env \<Rightarrow> bytes \<Rightarrow> PersistentConfig \<Rightarrow> PersistentConfig" where
  "regenerate_identity ce fresh c =
     c\<lparr>pc_identity_private_key := fresh, pc_identity_public_key := ed_public (ce_ed ce) (ce_key ce fresh)\<rparr>"

definition to_mix_node :: "'sc sphinx_env \<Rightarrow> PersistentConfig \<Rightarrow> 'sc MixNode" where
  "to_mix_node env c = from_private_key env (pc_mix_private_key c) (pc_node_id c)"

section \<open>Files\<close>

text \<open>A file is its contents and whether only its owner may read it.\<close>

record config_disk =
  config_file :: "(bytes \<times> bool) option"
  tmp_file :: "(bytes \<times> bool) option"

datatype file_step = WriteTmp bytes | ChmodTmp | RenameTmp

text \<open>Writing truncates an existing file and keeps its permissions; a new file is readable for everybody.\<close>

fun run_step :: "file_step \<Rightarrow> config_disk \<Rightarrow> config_disk" where
  "run_step (WriteTmp data) k = k\<lparr>tmp_file := Some (data, case tmp_file k of Some (_, private') \<Rightarrow> private' | None \<Rightarrow> False)\<rparr>"
| "run_step ChmodTmp k = k\<lparr>tmp_file := map_option (\<lambda>(data, _). (data, True)) (tmp_file k)\<rparr>"
| "run_step RenameTmp k = (case tmp_file k of Some f \<Rightarrow> k\<lparr>config_file := Some f, tmp_file := None\<rparr> | None \<Rightarrow> k)"

definition save_steps :: "bytes \<Rightarrow> file_step list" where
  "save_steps data = [WriteTmp data, ChmodTmp, RenameTmp]"

datatype config_error = BadConfigJson | UnwritableConfig

definition save_config :: "'sk config_env \<Rightarrow> PersistentConfig \<Rightarrow> config_disk \<Rightarrow> (config_error + unit) \<times> config_disk" where
  "save_config ce c k =
     (case config_to_json ce c of
        None \<Rightarrow> (Inl UnwritableConfig, k)
      | Some data \<Rightarrow> (Inr (), fold run_step (save_steps data) k))"

definition load_or_create :: "'sk config_env \<Rightarrow> ConfigDraw \<Rightarrow> config_disk \<Rightarrow> (config_error + PersistentConfig) \<times> config_disk" where
  "load_or_create ce d k =
     (case config_file k of
        Some (data, _) \<Rightarrow>
          (case config_of_json ce data of
             None \<Rightarrow> (Inl BadConfigJson, k)
           | Some c \<Rightarrow>
               if identity_needs_migration ce c then
                 let c = regenerate_identity ce (kd_identity d) c in
                 (case save_config ce c k of (Inl e, k) \<Rightarrow> (Inl e, k) | (Inr _, k) \<Rightarrow> (Inr c, k))
               else (Inr c, k))
      | None \<Rightarrow>
          let c = PersistentConfig_new ce d in
          (case save_config ce c k of (Inl e, k) \<Rightarrow> (Inl e, k) | (Inr _, k) \<Rightarrow> (Inr c, k)))"

section \<open>The identity survives\<close>

definition config_json_correct :: "'sk config_env \<Rightarrow> bool" where
  "config_json_correct ce \<longleftrightarrow> (\<forall>c j. config_to_json ce c = Some j \<longrightarrow> config_of_json ce j = Some c)"

text \<open>The configuration is replaced in one step. However early the sequence of file operations of a save is cut off, \<open>config.json\<close> is
  the file it was before or the whole new one, and the new one is readable by its owner only.\<close>

theorem save_is_atomic:
  "config_file (fold run_step (take n (save_steps data)) k) \<in> {config_file k, Some (data, True)} \<and>
   config_file (fold run_step (save_steps data) k) = Some (data, True)"
proof -
  have "n = 0 \<or> n = 1 \<or> n = 2 \<or> 3 \<le> n" by linarith
  then show ?thesis by (auto simp: save_steps_def numeral_2_eq_2 split: option.splits)
qed

text \<open>The file with the secrets that becomes \<open>config.json\<close> is readable for everybody until its permissions are changed.\<close>

lemma secrets_exposed_before_chmod:
  "tmp_file k = None \<Longrightarrow> tmp_file (fold run_step (take 1 (save_steps data)) k) = Some (data, False)"
  by (simp add: save_steps_def)

lemma saved_config: "save_config ce c k = (Inr u, k') \<Longrightarrow> \<exists>data. config_to_json ce c = Some data \<and> config_file k' = Some (data, True)"
  by (auto simp: save_config_def save_steps_def split: option.splits)

text \<open>C16 (invariant). A node keeps its identity. Whatever was on disk, once a start has returned a configuration, its key pair is genuine, and every later start,
  with whatever randomness, returns the same configuration and leaves the disk alone.\<close>

theorem restart_keeps_identity:
  assumes "config_json_correct ce" "kd_identity d \<noteq> replicate 32 0" and "load_or_create ce d k = (Inr c, k')"
  shows "ed_public (ce_ed ce) (signing_key_of ce c) = pc_identity_public_key c \<and> load_or_create ce d' k' = (Inr c, k')"
proof -
  have fresh: "\<not> identity_needs_migration ce (regenerate_identity ce (kd_identity d) c0)" "\<not> identity_needs_migration ce (PersistentConfig_new ce d)" for c0
    using assms(2) by (simp_all add: identity_needs_migration_def regenerate_identity_def PersistentConfig_new_def signing_key_of_def)
  have "\<not> identity_needs_migration ce c \<and> (\<exists>data p. config_file k' = Some (data, p) \<and> config_of_json ce data = Some c)"
  proof (cases "config_file k")
    case None
    then obtain u where s: "save_config ce (PersistentConfig_new ce d) k = (Inr u, k')" "c = PersistentConfig_new ce d"
      using assms(3) by (auto simp: load_or_create_def Let_def split: sum.splits prod.splits)
    then show ?thesis using saved_config [OF s(1)] fresh(2) assms(1) by (auto simp: config_json_correct_def)
  next
    case (Some f)
    obtain data p where f: "f = (data, p)" by fastforce
    obtain c0 where c0: "config_of_json ce data = Some c0" using assms(3) Some f by (auto simp: load_or_create_def split: option.splits)
    show ?thesis
    proof (cases "identity_needs_migration ce c0")
      case True
      then obtain u where s: "save_config ce (regenerate_identity ce (kd_identity d) c0) k = (Inr u, k')" "c = regenerate_identity ce (kd_identity d) c0"
        using assms(3) Some f c0 by (auto simp: load_or_create_def Let_def split: sum.splits prod.splits)
      then show ?thesis using saved_config [OF s(1)] fresh(1) assms(1) by (auto simp: config_json_correct_def)
    next
      case False
      then show ?thesis using assms(3) Some f c0 by (auto simp: load_or_create_def)
    qed
  qed
  then show ?thesis by (auto simp: identity_needs_migration_def load_or_create_def split: if_splits)
qed

definition demo_persistent :: "bytes \<Rightarrow> PersistentConfig" where
  "demo_persistent j = \<lparr>pc_node_id = [1], pc_mix_private_key = [2], pc_identity_private_key = j,
     pc_identity_public_key = demo_public (unat (j ! 0)), pc_known_peers = []\<rparr>"

definition demo_config_env :: "nat config_env" where
  "demo_config_env = \<lparr>ce_key = (\<lambda>b. unat (b ! 0)), ce_ed = demo_ed,
     config_to_json = (\<lambda>c. if c = demo_persistent (pc_identity_private_key c) then Some (pc_identity_private_key c) else None),
     config_of_json = (\<lambda>j. Some (demo_persistent j))\<rparr>"

theorem restart_keeps_identity_witness:
  "\<exists>c k'. load_or_create demo_config_env \<lparr>kd_node_id = [1], kd_mix_key = [2], kd_identity = replicate 32 3\<rparr>
      \<lparr>config_file = Some (replicate 32 0, False), tmp_file = None\<rparr> = (Inr c, k') \<and>
     load_or_create demo_config_env \<lparr>kd_node_id = [9], kd_mix_key = [9], kd_identity = [9]\<rparr> k' = (Inr c, k')"
proof -
  let ?d = "\<lparr>kd_node_id = [1], kd_mix_key = [2], kd_identity = replicate 32 3\<rparr> :: ConfigDraw"
  let ?k = "\<lparr>config_file = Some (replicate 32 0, False), tmp_file = None\<rparr> :: config_disk"
  have "config_json_correct demo_config_env" by (auto simp: config_json_correct_def demo_config_env_def split: if_splits)
  moreover have "kd_identity ?d \<noteq> replicate 32 0" by simp
  moreover obtain c k' where l: "load_or_create demo_config_env ?d ?k = (Inr c, k')"
    by (simp add: load_or_create_def demo_config_env_def identity_needs_migration_def demo_persistent_def regenerate_identity_def save_config_def demo_ed_def
        Let_def)
  ultimately show ?thesis using restart_keeps_identity [of demo_config_env ?d ?k c k'] by blast
qed

section \<open>The node without a network\<close>

record 'sc StaticNode =
  sn_config :: NodeConfig
  sn_mesh :: MeshState
  sn_mix_node :: "'sc MixNode"
  sn_accounting :: AccountingState
  sn_storage_key :: bytes
  sn_stored_chunks :: "(ChunkId, bytes) hashmap"
  sn_published_content :: "(ContentId, ContentManifest) hashmap"
  sn_running :: bool

text \<open>The fresh mesh, mix node and key are drawn by their constructors.\<close>

definition StaticNode_new :: "NodeConfig \<Rightarrow> MeshState \<Rightarrow> 'sc MixNode \<Rightarrow> bytes \<Rightarrow> 'sc StaticNode" where
  "StaticNode_new c mesh mix key =
     \<lparr>sn_config = c, sn_mesh = mesh, sn_mix_node = mix, sn_accounting = AccountingState_new, sn_storage_key = key,
      sn_stored_chunks = [], sn_published_content = [], sn_running = False\<rparr>"

definition StaticNode_with_defaults :: "MeshState \<Rightarrow> 'sc MixNode \<Rightarrow> bytes \<Rightarrow> 'sc StaticNode" where
  "StaticNode_with_defaults = StaticNode_new NodeConfig_default"

text \<open>\<open>init\<close>: every bootstrap peer gets a random identifier; the data directory is created before.\<close>

definition StaticNode_init :: "nat \<Rightarrow> (nat \<Rightarrow> NodeId) \<Rightarrow> 'sc StaticNode \<Rightarrow> 'sc StaticNode" where
  "StaticNode_init now ids n =
     (let c = sn_config n;
          cover = \<lparr>target_rate_bps = cover_traffic_rate_bps c, interval_ms = cover_traffic_interval_ms c, cover_enabled = cover_traffic_enabled c,
                   cover_tier = cfg_tier c, use_hybrid = use_hybrid_crypto c\<rparr>;
          mesh = (sn_mesh n)\<lparr>cover_traffic := update_config cover (cover_traffic (sn_mesh n))\<rparr>
      in n\<lparr>sn_mesh := fold (\<lambda>(i, addr). add_peer now (ids i) addr (cfg_tier c)) (enumerate 0 (bootstrap_peers c)) mesh\<rparr>)"

definition StaticNode_start :: "'sc StaticNode \<Rightarrow> 'sc StaticNode" where
  "StaticNode_start n = n\<lparr>sn_running := True\<rparr>"

definition StaticNode_stop :: "'sc StaticNode \<Rightarrow> 'sc StaticNode" where
  "StaticNode_stop n = n\<lparr>sn_running := False\<rparr>"

definition StaticNode_status :: "'sc StaticNode \<Rightarrow> NodeStatus" where
  "StaticNode_status n =
     \<lparr>node_running = sn_running n, status_node_id = mesh_node_id (sn_mesh n), status_peer_count = peer_count (sn_mesh n),
      status_connected_peers = connected_count (sn_mesh n), stored_chunks = hm_len (sn_stored_chunks n),
      published_content = hm_len (sn_published_content n), status_cover_traffic_enabled = cover_is_enabled (cover_traffic (sn_mesh n)),
      status_bytes_served = total_bytes_served (sn_accounting n), status_bytes_received = total_bytes_received (sn_accounting n)\<rparr>"

definition store_chunk :: "ChunkId \<Rightarrow> bytes \<Rightarrow> 'sc StaticNode \<Rightarrow> 'sc StaticNode" where
  "store_chunk chunk_id data n = n\<lparr>sn_stored_chunks := hm_insert chunk_id data (sn_stored_chunks n)\<rparr>"

definition get_stored_chunk :: "'sc StaticNode \<Rightarrow> ChunkId \<Rightarrow> bytes option" where
  "get_stored_chunk n chunk_id = hm_get (sn_stored_chunks n) chunk_id"

definition remove_stored_chunk :: "ChunkId \<Rightarrow> 'sc StaticNode \<Rightarrow> 'sc StaticNode" where
  "remove_stored_chunk chunk_id n = n\<lparr>sn_stored_chunks := hm_remove chunk_id (sn_stored_chunks n)\<rparr>"

definition total_stored_bytes :: "'sc StaticNode \<Rightarrow> u64" where
  "total_stored_bytes n = sum_list (map (\<lambda>c. word_of_nat (length c)) (hm_values (sn_stored_chunks n)))"

text \<open>Initialization registers every bootstrap address when the identifiers drawn differ from each other, and none of the peers is connected by it.\<close>

lemma init_registers_bootstrap:
  assumes "inj_on ids {..<length (bootstrap_peers (sn_config n))}" "i < length (bootstrap_peers (sn_config n))"
  shows "\<exists>p. get_peer (sn_mesh (StaticNode_init now ids n)) (ids i) = Some p \<and> peer_address p = bootstrap_peers (sn_config n) ! i"
proof -
  have "hm_get (mesh_peers (fold (\<lambda>(i, addr). add_peer now (ids i) addr t) (enumerate 0 as) m)) (ids i) = Some (Peer_new now (ids i) (as ! i) t)"
    if "inj_on ids {..<length as}" "i < length as" for as t and m :: MeshState
    using that
  proof (induction as arbitrary: m rule: rev_induct)
    case (snoc a as)
    show ?case
    proof (cases "i = length as")
      case True
      then show ?thesis by (simp add: enumerate_append_eq add_peer_def)
    next
      case False
      with snoc.prems(2) have i: "i < length as" by simp
      have "ids i \<noteq> ids (length as)" using snoc.prems(1) i inj_onD [of ids _ i "length as"] by fastforce
      moreover have "inj_on ids {..<length as}" using snoc.prems(1) by (rule inj_on_subset) auto
      ultimately show ?thesis using snoc.IH [OF _ i] i by (simp add: enumerate_append_eq add_peer_def nth_append)
    qed
  qed simp
  from this [OF assms] show ?thesis by (simp add: get_peer_def StaticNode_init_def Let_def Peer_new_def)
qed

end
