(* ===== verification/Spec2Isabelle.thy ===== *)
theory Spec2Isabelle
  imports Fragment Accounting Routing Integrity Verification Retrieval ComputeProtocol Swap Heartbeat
    MissingChunk Repair Rotation HiddenService Mesh MeshRetrieval Wire Shaper Transport SwapFlow Dispatch HostBuffer
    MaintenanceFlow NodeApi NodeFiles
begin

text \<open>
  \<^bold>\<open>Static\<close>: a decentralised storage and compute network over a mix net. Nodes keep encrypted chunks of
  other nodes' content in exchange for their own (\<^emph>\<open>swaps\<close>), renew the leases of their content by
  signed heartbeats, retrieve chunks through Sphinx routes, prove storage to each other, and account
  for the bytes they serve. This development models the protocol logic of the Rust workspace under
  \<^verbatim>\<open>src/crates\<close> and proves its correctness properties. Every definition is executable.

  \<^bold>\<open>Conventions.\<close> Rust's \<open>u8/u32/u64/i64\<close> are words of their width with the wrap-around of a release
  build, saturating operations are written out in \<^verbatim>\<open>Prelude\<close>; \<open>usize\<close> lengths are naturals, and a
  length that is cast into a fixed width on the wire is cast in the model too. \<open>Result\<close> is a sum
  (\<open>Inl\<close> the error), every early return is a branch. A \<open>HashMap\<close> is an association list with
  distinct keys, whose order stands for the unspecified iteration order. Clocks, fresh nonces and the
  shuffles of the thread-local random generator are arguments; where a shuffle matters a property
  quantifies over all permutations. External crates (Ed25519, ChaCha20-Poly1305, HKDF, X25519,
  ML-KEM-768, blake3, Reed-Solomon, JSON) are parameters, and what a property needs of them is a named
  hypothesis stating the documented law of the crate (\<open>ed25519_correct\<close>, \<open>aead_correct\<close>,
  \<open>key_exchange_correct\<close>, \<open>rs_correct\<close>, \<open>json_correct\<close>); no hypothesis says that a hash is
  collision-free: where a property depends on it, it concludes "or here are two colliding inputs", or it assumes of the ids of one publication alone that
  they are apart (\<open>ids_apart\<close>).

  \<^bold>\<open>Library.\<close>
  \<^item> \<^verbatim>\<open>Prelude\<close>: words, results, maps, bounded logs; the interface \<open>kv_table\<close> (the laws of a keyed table)
    interpreted on the association-list maps.
  \<^item> \<^verbatim>\<open>Codec\<close>: byte readers and writers; the interface \<open>codec\<close>, the contract between a writer and the reader
    that continues after it, interpreted on integers, arrays, hops, the four return-route readers
    and currencies. Each message round trip is a chain of its elimination rule.
  \<^item> \<^verbatim>\<open>BoundedFifo\<close>: the set with an insertion queue that evicts its oldest element, shared by the caches of
    the mix node.
  \<^item> \<^verbatim>\<open>F64\<close>: IEEE doubles as exact rationals with round-to-nearest, enough to show that the service gates
    decide as exact arithmetic does below \<open>2^53\<close>.

  \<^bold>\<open>Components.\<close>
  \<^item> \<^verbatim>\<open>Fragment\<close> (\<^verbatim>\<open>static-mesh/src/fragment.rs\<close>): fragmentation to Sphinx bodies, the reassembler and the
    bounded FIFO manager. Any delivery order with repetitions rebuilds the payload; arbitrary input
    keeps the memory bounds; a full manager evicts the oldest session only.
  \<^item> \<^verbatim>\<open>Accounting\<close> (\<^verbatim>\<open>static-accounting/src/lib.rs\<close>): the credit table refines an exact ledger; the service
    decision in exact arithmetic; after an exchange two nodes agree on every peer but for ties of the same second
    and entries that reconciliation ignores; sponsorship,
    prepayment limits and Proof of Space-Time.
  \<^item> \<^verbatim>\<open>Crypto\<close> (\<^verbatim>\<open>static-crypto/src/lib.rs\<close>): the wrappers around the primitives and the hybrid handshake.
  \<^item> \<^verbatim>\<open>Routing\<close> (\<^verbatim>\<open>static-mesh/src/routing.rs\<close>): route construction and signed gossip with key continuity.
  \<^item> \<^verbatim>\<open>Mesh\<close> (\<^verbatim>\<open>static-mesh/src/lib.rs\<close>): peers and the constant-rate cover traffic generator.
  \<^item> \<^verbatim>\<open>StorageCore\<close> (\<^verbatim>\<open>static-storage/src/lib.rs\<close>): chunk and file encryption, erasure coding, leases,
    streaming decryption with wiping.
  \<^item> \<^verbatim>\<open>Integrity\<close> (\<^verbatim>\<open>integrity.rs\<close>): the Merkle tree, completeness and soundness of its proofs.
  \<^item> \<^verbatim>\<open>ReturnRoutes\<close>, \<^verbatim>\<open>Verification\<close>, \<^verbatim>\<open>Retrieval\<close>, \<^verbatim>\<open>ComputeProtocol\<close>, \<^verbatim>\<open>MissingChunk\<close>
    (\<^verbatim>\<open>verification.rs\<close>, \<^verbatim>\<open>retrieval.rs\<close>, \<^verbatim>\<open>compute.rs\<close>, \<^verbatim>\<open>gossip.rs\<close>): the message bodies with every
    decoder error, the segment challenge, the retriever and the chunk holder.
  \<^item> \<^verbatim>\<open>Swap\<close> (\<^verbatim>\<open>swap.rs\<close>): signed messages, the two-phase commit state as an inductively reachable state
    machine, capacity reservation and the accept decision.
  \<^item> \<^verbatim>\<open>Heartbeat\<close> (\<^verbatim>\<open>heartbeat.rs\<close>): signed renewals, replay protection, the lease manager and seeds.
  \<^item> \<^verbatim>\<open>Repair\<close>, \<^verbatim>\<open>Rotation\<close>, \<^verbatim>\<open>HiddenService\<close> (\<^verbatim>\<open>repair.rs\<close>, \<^verbatim>\<open>rotation.rs\<close>, \<^verbatim>\<open>hidden_service.rs\<close>).
  \<^item> \<^verbatim>\<open>SphinxNode\<close>, \<^verbatim>\<open>Sphinx\<close>, \<^verbatim>\<open>MixState\<close> (\<^verbatim>\<open>static-sphinx/src/lib.rs\<close>): the node with its replay tags and cached
    sessions; packet construction and the processing of one hop, classical and hybrid; the node as a
    reachable state machine. A packet passes its route hop by hop and arrives; a second copy is refused;
    a refused packet changes nothing unless it was authentic and fails only in its flag or body; a forwarded packet keeps its format; the tables stay bounded.
  \<^item> \<^verbatim>\<open>Surb\<close> (\<^verbatim>\<open>static-sphinx/src/surb.rs\<close>): reply blocks, wrapped packets and their single use.
  \<^item> \<^verbatim>\<open>MeshRetrieval\<close> (\<^verbatim>\<open>static-mesh/src/retrieval.rs\<close>): requests and answers as packets over forward routes and
    reply blocks; the end-to-end theorems compose Sphinx, Fragment, Retrieval and Surb.
  \<^item> \<^verbatim>\<open>Wire\<close> (\<^verbatim>\<open>static-mesh/src/wire.rs\<close>): messages, padded frames and the stream reader.
  \<^item> \<^verbatim>\<open>Shaper\<close>, \<^verbatim>\<open>Transport\<close> (\<^verbatim>\<open>static-mesh/src/transport.rs\<close>): the token bucket and the sending arms of the
    connection loop; the shared state, the nonce caches, both sides of the encrypted handshake, gossip.
  \<^item> \<^verbatim>\<open>SwapFlow\<close> (the swap handlers of \<^verbatim>\<open>transport.rs\<close>): proposal, accept, chunk, commit and abort on the shared
    state. They refine the state machine of \<^verbatim>\<open>Swap\<close>; only a chunk both sides committed to is stored, whichever
    commit comes first; storage stays within the capacity.
  \<^item> \<^verbatim>\<open>Dispatch\<close> (the message dispatcher and senders of \<^verbatim>\<open>transport.rs\<close>): a packet crosses a network of connected
    nodes to its end.
  \<^item> \<^verbatim>\<open>Payment\<close>, \<^verbatim>\<open>Execution\<close> (\<^verbatim>\<open>static-node/src/payment.rs\<close>, \<^verbatim>\<open>compute.rs\<close>): prices, the wallet watcher over a parameter RPC
    client, and the protocol of an execution over a parameter WebAssembly runtime.
  \<^item> \<^verbatim>\<open>HostBuffer\<close>, \<^verbatim>\<open>NodeState\<close>, \<^verbatim>\<open>NodeCompute\<close>, \<^verbatim>\<open>NodeUpkeep\<close> (\<^verbatim>\<open>static-node/src/runner.rs\<close>, \<^verbatim>\<open>lib.rs\<close>): the buffer of
    hosted chunks refines a queue; configuration and state of the runner; computing for peers as an inductively
    reachable system of handlers, background tasks and payment sweeps, a sweep being one step per lock it takes with anything in between; only a paid request is
    executed, executions stay within the capacity, and with the staged requests they exceed it by at most one; caching, expiry, eviction and the watch of a backup over its primary.
  \<^item> \<^verbatim>\<open>NodeInbound\<close>, \<^verbatim>\<open>InboundDelivery\<close>, \<^verbatim>\<open>InboundSafety\<close> (the inbound side of \<^verbatim>\<open>runner.rs\<close>): every packet, reply and maintenance
    message from its fragments to its handler. A challenge or a compute request that arrives in fragments in any order is handled once; the books
    change for authenticated messages only (and in the node's own ticks); whatever arrives, the memory of a node stays bounded.
  \<^item> \<^verbatim>\<open>NodeContent\<close>, \<^verbatim>\<open>ContentFlow\<close> (publishing and retrieving in \<^verbatim>\<open>runner.rs\<close>): a publication stores and registers what it should,
    and enough of its shards restore the file; what a retrieval returns is the published file as long as nothing of it is forged; on the publisher a retrieval waits for itself, and elsewhere it needs every
    shard, the parity shards opening as data.
  \<^item> \<^verbatim>\<open>NodeMaintenance\<close>, \<^verbatim>\<open>MaintenanceFlow\<close> (the background loops of \<^verbatim>\<open>runner.rs\<close>, one tick each, and what \<open>run\<close> starts in which mode):
    repair restores the data when enough genuine shards are at hand; a verification tick counts exactly the late challenges.
  \<^item> \<^verbatim>\<open>NodeApi\<close> (\<^verbatim>\<open>static-node/src/api.rs\<close>): a connection to the local interface, from its reads to its answer; only a request with the token
    changes the node.
  \<^item> \<^verbatim>\<open>NodeFiles\<close> (\<^verbatim>\<open>static-node/src/config.rs\<close>, \<open>StaticNode\<close> of \<^verbatim>\<open>lib.rs\<close>): the identity on disk survives restarts and interrupted saves.

  \<^bold>\<open>Bounds.\<close> No definition uses fuel: every loop of the modelled code is structural over a list or has
  a length measure (the Merkle levels halve, the frame reader shrinks its buffer, the keystream grows
  by a block, the eviction of cached chunks shrinks the cache), so every function is total. Bounds in the statements are the program's own constants;
  size hypotheses (\<open>2^32\<close>, \<open>2^64\<close>) say that a length fits the field it is written to.

  \<^bold>\<open>Waiting.\<close> A handler or a tick runs as one step, except the payment sweep, whose steps between two locks are interleaved with everything else in \<open>provider_step\<close>. Where a call sleeps and looks again, its model takes the list of the changes the rest of the node makes
  between two looks, of any length. The holder's mutex is modelled where a task may hold it and lock it again: \<open>lock_holder\<close> is told whether a guard of the task is alive,
  and the local path of \<open>retrieve_content\<close> calls \<open>assemble_from_manifest\<close> with its guard alive. Elsewhere the locks a handler takes one after the other, as in \<open>cache_retrieved_chunk\<close>, are
  one step.

  \<^bold>\<open>Not modelled.\<close> Sockets, timers and the scheduling of tasks, apart from which tasks a mode starts; errors of the file system; key generation, whose
  results are arguments; logging; the command line (\<^verbatim>\<open>static-node/src/main.rs\<close>), which parses arguments and is a client of the local interface.
\<close>

end
